(* ===== verification/Float64.thy ===== *)
theory Float64
  imports Complex_Main
begin

text \<open>
  Python's \<open>float\<close> (IEEE 754 binary64) as an executable type.

  A double is a rational number that is left unchanged by \<open>rnd\<close>, rounding to the nearest
  multiple of the unit in the last place (53 significant bits, least exponent -1074), ties to
  even. The four operations compute exactly and round once, as the hardware does. Decimal
  literals of the source are written \<open>flt (17 / 20)\<close> for \<open>0.85\<close>: the literal is
  rounded when it is read. Infinities, NaN and the sign of zero are outside the model: the
  program's values are confidences, weights, prices and times, far below the overflow
  threshold.

  \<open>py_round n\<close> is the builtin \<open>round(x, n)\<close> (correct decimal rounding, half to
  even), \<open>py_round_int\<close> is \<open>round(x)\<close>, \<open>py_sum\<close> is the builtin \<open>sum\<close> on
  floats, which since CPython 3.12 carries a compensation term, and \<open>py_int_div\<close> is
  \<open>/\<close> on two ints, rounded once.

  The lemmas give monotonicity of every operation, exactness on the neutral elements and the
  bounds the components use. \<open>f64_eval\<close> evaluates closed terms in the simplifier.
\<close>

named_theorems f64_eval

section \<open>Rounding to a binary64 number\<close>

text \<open>\<open>ilen n\<close> is the number of binary digits of a positive \<open>n\<close>.\<close>

fun ilen :: "int \<Rightarrow> int" where
  "ilen n = (if n \<le> 0 then 0 else 1 + ilen (n div 2))"

declare ilen.simps [simp del]

lemma ilen_nonneg: "0 \<le> ilen n"
  by (induction n rule: ilen.induct) (simp add: ilen.simps)

lemma ilen_bounds: "0 < n \<Longrightarrow> 2 ^ nat (ilen n - 1) \<le> n \<and> n < 2 ^ nat (ilen n)"
proof (induction n rule: ilen.induct)
  case (1 n)
  show ?case
  proof (cases "n = 1")
    case True
    then show ?thesis by (simp add: ilen.simps [of 1] ilen.simps [of 0])
  next
    case False
    with "1.prems" have pos: "0 < n div 2" by simp
    with "1" have IH: "2 ^ nat (ilen (n div 2) - 1) \<le> n div 2" "n div 2 < 2 ^ nat (ilen (n div 2))"
      by simp_all
    from pos have m: "1 \<le> ilen (n div 2)"
      using ilen_nonneg [of "n div 2 div 2"] by (simp add: ilen.simps [of "n div 2"])
    then have e: "nat (ilen (n div 2)) = Suc (nat (ilen (n div 2) - 1))" by simp
    have l: "ilen n = 1 + ilen (n div 2)" using "1.prems" by (simp add: ilen.simps [of n])
    then have e2: "nat (ilen n) = Suc (nat (ilen (n div 2)))" and "nat (ilen n - 1) = nat (ilen (n div 2))"
      using m by simp_all
    moreover have "p \<le> n div 2 \<Longrightarrow> n div 2 < 2 * p \<Longrightarrow> 2 * p \<le> n \<and> n < 4 * p" for p :: int
      by presburger
    ultimately show ?thesis using IH e by simp
  qed
qed

text \<open>\<open>ilog2 x\<close> is the floor of the binary logarithm of a positive rational.\<close>

definition ilog2 :: "rat \<Rightarrow> int" where
  "ilog2 x = (if 1 \<le> x then ilen \<lfloor>x\<rfloor> - 1 else - ilen (\<lceil>1 / x\<rceil> - 1))"

lemma ilog2_bounds:
  assumes "0 < x"
  shows "2 powi (ilog2 x) \<le> x" and "x < 2 powi (ilog2 x + 1)"
proof -
  have "2 powi (ilog2 x) \<le> x \<and> x < 2 powi (ilog2 x + 1)"
  proof (cases "1 \<le> x")
    case True
    let ?n = "\<lfloor>x\<rfloor>"
    from True have n: "0 < ?n" by simp
    have l: "1 \<le> ilen ?n" using n ilen_nonneg [of "?n div 2"] by (simp add: ilen.simps [of ?n])
    from ilen_bounds [OF n] have b: "2 ^ nat (ilen ?n - 1) \<le> ?n" "?n < 2 ^ nat (ilen ?n)" by simp_all
    have "(2::rat) ^ nat (ilen ?n - 1) \<le> x"
      using b(1) by (simp add: le_floor_iff)
    moreover have "x < 2 ^ nat (ilen ?n)"
      using b(2) by (simp add: floor_less_iff)
    ultimately show ?thesis using True l by (simp add: ilog2_def power_int_def)
  next
    case False
    let ?c = "\<lceil>1 / x\<rceil> - 1"
    from False assms have "1 < 1 / x" by (simp add: field_simps)
    then have c: "0 < ?c" by (simp add: less_ceiling_iff)
    have l: "1 \<le> ilen ?c" using c ilen_nonneg [of "?c div 2"] by (simp add: ilen.simps [of ?c])
    from ilen_bounds [OF c] have b: "2 ^ nat (ilen ?c - 1) \<le> ?c" "?c < 2 ^ nat (ilen ?c)" by simp_all
    have "(2::rat) ^ nat (ilen ?c - 1) < 1 / x"
      using b(1) less_ceiling_iff [of "2 ^ nat (ilen ?c - 1)" "1 / x"] by simp
    moreover have "1 / x \<le> 2 ^ nat (ilen ?c)"
      using b(2) ceiling_le_iff [of "1 / x" "2 ^ nat (ilen ?c)"] by simp
    ultimately show ?thesis using False l assms
      by (auto simp: ilog2_def power_int_def field_simps split: if_splits)
  qed
  then show "2 powi (ilog2 x) \<le> x" and "x < 2 powi (ilog2 x + 1)" by simp_all
qed

text \<open>Rounding to the nearest integer, ties to even.\<close>

definition rhe :: "rat \<Rightarrow> int" where
  "rhe x = (let f = \<lfloor>x\<rfloor>; r = x - of_int f in
     if r < 1 / 2 then f else if 1 / 2 < r then f + 1 else if even f then f else f + 1)"

lemma rhe_of_int [simp]: "rhe (of_int k) = k"
  by (simp add: rhe_def)

lemma rhe_floor: "rhe x = \<lfloor>x\<rfloor> \<or> rhe x = \<lfloor>x\<rfloor> + 1"
  by (simp add: rhe_def Let_def)

lemma rhe_mono: assumes "x \<le> y" shows "rhe x \<le> rhe y"
proof (cases "\<lfloor>x\<rfloor> = \<lfloor>y\<rfloor>")
  case True
  with assms show ?thesis by (auto simp: rhe_def Let_def)
next
  case False
  with floor_mono [OF assms] have "\<lfloor>x\<rfloor> + 1 \<le> \<lfloor>y\<rfloor>" by simp
  then show ?thesis using rhe_floor [of x] rhe_floor [of y] by auto
qed

lemma rhe_le_int: "x \<le> of_int k \<Longrightarrow> rhe x \<le> k"
  using rhe_mono [of x "of_int k"] by simp

lemma int_le_rhe: "of_int k \<le> x \<Longrightarrow> k \<le> rhe x"
  using rhe_mono [of "of_int k" x] by simp

text \<open>Exponent of the unit in the last place: 53 bits of precision, gradual underflow.\<close>

definition ulp_exp :: "rat \<Rightarrow> int" where
  "ulp_exp x = max (ilog2 x - 52) (- 1074)"

definition rnd_pos :: "rat \<Rightarrow> rat" where
  "rnd_pos x = (let u = 2 powi (ulp_exp x) in of_int (rhe (x / u)) * u)"

definition rnd :: "rat \<Rightarrow> rat" where
  "rnd x = (if x = 0 then 0 else if 0 < x then rnd_pos x else - rnd_pos (- x))"

lemma powi_pos [simp]: "0 < (2::rat) powi k"
  by simp

lemma ilog2_mono: assumes "0 < x" "x \<le> y" shows "ilog2 x \<le> ilog2 y"
proof (rule ccontr)
  assume "\<not> ilog2 x \<le> ilog2 y"
  then have "(2::rat) powi (ilog2 y + 1) \<le> 2 powi (ilog2 x)"
    by (intro power_int_increasing) auto
  also have "\<dots> \<le> x" using ilog2_bounds assms by blast
  also have "x \<le> y" by fact
  also have "y < 2 powi (ilog2 y + 1)" using ilog2_bounds assms by force
  finally show False by simp
qed

lemma powi_diff_int: "j \<le> k \<Longrightarrow> (2::rat) powi k = of_int (2 ^ nat (k - j)) * 2 powi j"
proof -
  assume "j \<le> k"
  then have "(2::rat) powi k = 2 powi ((k - j) + j)" by simp
  also have "\<dots> = 2 powi (k - j) * 2 powi j" by (rule power_int_add) simp
  finally show ?thesis using \<open>j \<le> k\<close> by (simp add: power_int_def)
qed

lemma rnd_pos_le_grid:
  assumes "0 < x" "x \<le> of_int m * 2 powi k" "ulp_exp x \<le> k"
  shows "rnd_pos x \<le> of_int m * 2 powi k"
proof -
  let ?u = "2 powi (ulp_exp x) :: rat"
  let ?c = "m * 2 ^ nat (k - ulp_exp x)"
  have eq: "of_int m * 2 powi k = of_int ?c * ?u"
    using powi_diff_int [OF assms(3)] by simp
  with assms(2) have "x / ?u \<le> of_int ?c" by (simp add: divide_le_eq)
  then have "rhe (x / ?u) \<le> ?c" by (rule rhe_le_int)
  then have "of_int (rhe (x / ?u)) * ?u \<le> of_int ?c * ?u"
    by (intro mult_right_mono) (simp_all only: of_int_le_iff powi_pos less_imp_le)
  then show ?thesis by (simp only: eq rnd_pos_def Let_def)
qed

lemma rnd_pos_ge_grid:
  assumes "0 < x" "of_int m * 2 powi k \<le> x" "ulp_exp x \<le> k"
  shows "of_int m * 2 powi k \<le> rnd_pos x"
proof -
  let ?u = "2 powi (ulp_exp x) :: rat"
  let ?c = "m * 2 ^ nat (k - ulp_exp x)"
  have eq: "of_int m * 2 powi k = of_int ?c * ?u"
    using powi_diff_int [OF assms(3)] by simp
  with assms(2) have "of_int ?c \<le> x / ?u" by (simp add: le_divide_eq)
  then have "?c \<le> rhe (x / ?u)" by (rule int_le_rhe)
  then have "of_int ?c * ?u \<le> of_int (rhe (x / ?u)) * ?u"
    by (intro mult_right_mono) (simp_all only: of_int_le_iff powi_pos less_imp_le)
  then show ?thesis by (simp only: eq rnd_pos_def Let_def)
qed

lemma rnd_pos_mono:
  assumes "0 < x" "x \<le> y"
  shows "rnd_pos x \<le> rnd_pos y"
proof (cases "ulp_exp x = ulp_exp y")
  case True
  then show ?thesis using assms
    by (auto simp: rnd_pos_def Let_def intro!: mult_right_mono rhe_mono divide_right_mono)
next
  case False
  have y: "0 < y" using assms by simp
  from False ilog2_mono [OF assms] have lt: "ulp_exp x < ulp_exp y" and le: "ilog2 x < ilog2 y"
    by (auto simp: ulp_exp_def)
  have k: "ulp_exp y \<le> ilog2 y" using lt by (auto simp: ulp_exp_def)
  have "x \<le> 2 powi (ilog2 x + 1)" using ilog2_bounds(2) [OF assms(1)] by simp
  also have "\<dots> \<le> (2::rat) powi (ilog2 y)" using le by (intro power_int_increasing) auto
  finally have "rnd_pos x \<le> of_int 1 * 2 powi (ilog2 y)"
    using k lt assms by (intro rnd_pos_le_grid) auto
  also have "\<dots> \<le> rnd_pos y"
    using k ilog2_bounds(1) [OF y] y by (intro rnd_pos_ge_grid) auto
  finally show ?thesis .
qed

lemma rnd_pos_nonneg: "0 < x \<Longrightarrow> 0 \<le> rnd_pos x"
  using rnd_pos_ge_grid [of x 0 "ulp_exp x"] by simp

lemma rnd_mono: assumes "x \<le> y" shows "rnd x \<le> rnd y"
  using assms rnd_pos_nonneg [of y] rnd_pos_nonneg [of "- x"] rnd_pos_mono [of x y] rnd_pos_mono [of "- y" "- x"]
  by (auto simp: rnd_def)

lemma rnd_0 [simp]: "rnd 0 = 0" by (simp add: rnd_def)
lemma rnd_minus: "rnd (- x) = - rnd x" by (auto simp: rnd_def)

lemma rnd_pos_grid:
  assumes "0 < x" "x = of_int m * 2 powi k" "ulp_exp x \<le> k"
  shows "rnd_pos x = x"
  using rnd_pos_le_grid [of x m k] rnd_pos_ge_grid [of x m k] assms by simp

lemma rnd_pos_representable:
  assumes "0 < x" "rnd_pos x \<noteq> 0"
  shows "rnd_pos (rnd_pos x) = rnd_pos x"
proof -
  let ?r = "rnd_pos x" and ?e = "ilog2 x"
  have r: "0 < ?r" using rnd_pos_nonneg [OF assms(1)] assms(2) by simp
  have rk: "?r = of_int (rhe (x / 2 powi (ulp_exp x))) * 2 powi (ulp_exp x)"
    by (simp add: rnd_pos_def Let_def)
  show ?thesis
  proof (cases "ilog2 ?r \<le> ?e")
    case True
    then have "ulp_exp ?r \<le> ulp_exp x" by (auto simp: ulp_exp_def)
    with r rk show ?thesis by (intro rnd_pos_grid) auto
  next
    case False
    show ?thesis
    proof (cases "ulp_exp x \<le> ?e + 1")
      case up: True
      have "?r \<le> of_int 1 * 2 powi (?e + 1)"
        using ilog2_bounds(2) [OF assms(1)] up assms(1) by (intro rnd_pos_le_grid) auto
      moreover have "2 powi (?e + 1) \<le> (2::rat) powi (ilog2 ?r)"
        using False by (intro power_int_increasing) auto
      moreover have "2 powi (ilog2 ?r) \<le> ?r" using ilog2_bounds(1) [OF r] .
      ultimately have rr: "?r = of_int 1 * 2 powi (ilog2 ?r)" by simp
      show ?thesis
      proof (cases "ilog2 ?r < - 1074")
        case True
        then have "ulp_exp ?r = ulp_exp x" using False by (auto simp: ulp_exp_def)
        with r rk show ?thesis by (intro rnd_pos_grid) auto
      next
        case False
        with r rr show ?thesis by (intro rnd_pos_grid [of _ 1 "ilog2 ?r"]) (auto simp: ulp_exp_def)
      qed
    next
      case low: False
      have "x \<le> 2 powi (?e + 1)" using ilog2_bounds(2) [OF assms(1)] by simp
      also have "(2::rat) powi (?e + 1) \<le> 2 powi (ulp_exp x)" using low by (intro power_int_increasing) auto
      finally have "?r \<le> of_int 1 * 2 powi (ulp_exp x)" using assms(1) by (intro rnd_pos_le_grid) auto
      moreover have "2 powi (ulp_exp x) \<le> ?r"
      proof -
        have "0 < rhe (x / 2 powi (ulp_exp x))" using r rk
          by (metis of_int_0_less_iff powi_pos zero_less_mult_pos2)
        then have "(1::rat) \<le> of_int (rhe (x / 2 powi (ulp_exp x)))" by simp
        then have "1 * 2 powi (ulp_exp x) \<le> of_int (rhe (x / 2 powi (ulp_exp x))) * (2::rat) powi (ulp_exp x)"
            by (intro mult_right_mono) simp_all
          then show ?thesis by (simp add: rk [symmetric])
      qed
      ultimately have rr: "?r = 2 powi (ulp_exp x)" by simp
      have ux: "ulp_exp x = - 1074" using low by (auto simp: ulp_exp_def split: if_splits)
      have "ilog2 ?r \<le> ulp_exp x"
      proof (rule ccontr)
        assume "\<not> ?thesis"
        then have "(2::rat) powi (ulp_exp x) < 2 powi (ilog2 ?r)"
          by (intro power_int_strict_increasing) auto
        then show False using ilog2_bounds(1) [OF r] rr by simp
      qed
      then have "ulp_exp ?r \<le> ulp_exp x" using ux by (simp add: ulp_exp_def)
      with r rk show ?thesis by (intro rnd_pos_grid) auto
    qed
  qed
qed

lemma rnd_idem [simp]: "rnd (rnd x) = rnd x"
  using rnd_pos_representable [of x] rnd_pos_representable [of "- x"]
    rnd_pos_nonneg [of x] rnd_pos_nonneg [of "- x"]
  by (auto simp: rnd_def)

text \<open>Doubling is exact.\<close>

lemma rnd_pos_double:
  assumes "0 < x" "rnd_pos x = x"
  shows "rnd_pos (2 * x) = 2 * x"
proof -
  let ?u = "ulp_exp x" and ?m = "rhe (x / 2 powi (ulp_exp x))"
  have "x = of_int ?m * 2 powi ?u" using assms(2) by (simp only: rnd_pos_def Let_def)
  then have "2 * x = of_int ?m * (2 powi ?u * 2)" by (metis mult.assoc mult.commute)
  also have "(2::rat) powi ?u * 2 = 2 powi (?u + 1)" by (simp add: power_int_add_1)
  finally have g: "2 * x = of_int ?m * 2 powi (?u + 1)" .
  have "(2::rat) powi ilog2 (2 * x) \<le> 2 * x" using assms by (intro ilog2_bounds) simp
  also have "\<dots> < 2 * 2 powi (ilog2 x + 1)" using ilog2_bounds(2) [OF assms(1)] by simp
  also have "\<dots> = (2::rat) powi (ilog2 x + 2)" by (simp add: power_int_add)
  finally have "ilog2 (2 * x) < ilog2 x + 2"
    using power_int_increasing [of "ilog2 x + 2" "ilog2 (2 * x)" "2::rat"] by fastforce
  then have "ulp_exp (2 * x) \<le> ?u + 1" by (auto simp: ulp_exp_def max_def)
  with g assms(1) show ?thesis by (intro rnd_pos_grid) auto
qed

lemma rnd_double: assumes "rnd x = x" shows "rnd (2 * x) = 2 * x"
  using assms rnd_pos_double [of x] rnd_pos_double [of "- x"] by (auto simp: rnd_def split: if_splits)

text \<open>Integers up to 2^53 are exact.\<close>
lemma rnd_of_int: assumes "\<bar>n\<bar> \<le> 2 ^ 53" shows "rnd (of_int n) = of_int n"
proof -
  have pos: "rnd_pos (of_int m) = of_int m" if m: "0 < m" "m \<le> 2 ^ 53" for m :: int
  proof (cases "m = 2 ^ 53")
    case True
    show ?thesis
      by (rule rnd_pos_grid [of _ 1 53]) (use True in \<open>simp_all add: ulp_exp_def\<close>, code_simp)
  next
    case False
    with m have lt: "m < 2 ^ 53" by simp
    have "ilog2 (of_int m) < 53"
    proof (rule ccontr)
      assume "\<not> ?thesis"
      then have "(2::rat) powi 53 \<le> 2 powi (ilog2 (of_int m))" by (intro power_int_increasing) auto
      also have "\<dots> \<le> of_int m" using m by (intro ilog2_bounds(1)) simp
      finally have "(of_int (2 ^ 53) :: rat) \<le> of_int m" by simp
      then show False using lt by (simp only: of_int_le_iff)
    qed
    then show ?thesis using m
      by (intro rnd_pos_grid [of _ m 0]) (auto simp: ulp_exp_def)
  qed
  from pos [of n] pos [of "- n"] assms show ?thesis
    by (auto simp: rnd_def abs_if split: if_splits)
qed

section \<open>The type of doubles\<close>

typedef f64 = "{x :: rat. rnd x = x}" morphisms to_rat Abs_f64
  by (intro exI [of _ 0]) simp

setup_lifting type_definition_f64

lemma rnd_to_rat [simp]: "rnd (to_rat x) = to_rat x"
  using to_rat [of x] by simp

lift_definition flt :: "rat \<Rightarrow> f64" is rnd by simp

instantiation f64 :: "{zero, one, plus, minus, uminus, times, inverse, abs}"
begin
lift_definition zero_f64 :: f64 is 0 by simp
lift_definition one_f64 :: f64 is 1 using rnd_of_int [of 1] by simp
lift_definition plus_f64 :: "f64 \<Rightarrow> f64 \<Rightarrow> f64" is "\<lambda>x y. rnd (x + y)" by simp
lift_definition minus_f64 :: "f64 \<Rightarrow> f64 \<Rightarrow> f64" is "\<lambda>x y. rnd (x - y)" by simp
lift_definition uminus_f64 :: "f64 \<Rightarrow> f64" is "\<lambda>x. - x" by (simp add: rnd_minus)
lift_definition times_f64 :: "f64 \<Rightarrow> f64 \<Rightarrow> f64" is "\<lambda>x y. rnd (x * y)" by simp
lift_definition divide_f64 :: "f64 \<Rightarrow> f64 \<Rightarrow> f64" is "\<lambda>x y. rnd (x / y)" by simp
lift_definition inverse_f64 :: "f64 \<Rightarrow> f64" is "\<lambda>x. rnd (1 / x)" by simp
lift_definition abs_f64 :: "f64 \<Rightarrow> f64" is "\<lambda>x. \<bar>x\<bar>" by (auto simp: abs_if rnd_minus)
instance ..
end

instantiation f64 :: linorder
begin
lift_definition less_eq_f64 :: "f64 \<Rightarrow> f64 \<Rightarrow> bool" is "(\<le>)" .
lift_definition less_f64 :: "f64 \<Rightarrow> f64 \<Rightarrow> bool" is "(<)" .
instance by standard (transfer; auto)+
end

instantiation f64 :: equal
begin
lift_definition equal_f64 :: "f64 \<Rightarrow> f64 \<Rightarrow> bool" is "(=)" .
instance by standard (transfer; simp)
end

definition f_of_int :: "int \<Rightarrow> f64" where
  "f_of_int n = flt (of_int n)"

definition py_round :: "nat \<Rightarrow> f64 \<Rightarrow> f64" where
  "py_round n x = flt (of_int (rhe (to_rat x * 10 ^ n)) / 10 ^ n)"

fun sum_acc :: "f64 \<Rightarrow> f64 \<Rightarrow> f64 list \<Rightarrow> f64" where
  "sum_acc s c [] = s + c"
| "sum_acc s c (x # xs) =
     (let t = s + x in
      sum_acc t (c + (if \<bar>x\<bar> \<le> \<bar>s\<bar> then (s - t) + x else (x - t) + s)) xs)"

definition py_sum :: "f64 list \<Rightarrow> f64" where
  "py_sum xs = (case xs of [] \<Rightarrow> 0 | x # xs' \<Rightarrow> sum_acc x 0 xs')"

definition py_round_int :: "f64 \<Rightarrow> int" where
  "py_round_int x = rhe (to_rat x)"

definition py_int_div :: "int \<Rightarrow> int \<Rightarrow> f64" where
  "py_int_div a b = flt (of_int a / of_int b)"

section \<open>Laws of the operations\<close>

lemmas f64_le_iff = less_eq_f64.rep_eq and f64_less_iff = less_f64.rep_eq
lemma f64_eq_iff: "x = y \<longleftrightarrow> to_rat x = to_rat y" by (simp add: to_rat_inject)

lemma rnd_le_f64: "q \<le> to_rat x \<Longrightarrow> rnd q \<le> to_rat x"
  using rnd_mono [of q "to_rat x"] by simp
lemma f64_le_rnd: "to_rat x \<le> q \<Longrightarrow> to_rat x \<le> rnd q"
  using rnd_mono [of "to_rat x" q] by simp

lemma f64_add_0 [simp]: "x + 0 = x" "0 + x = (x :: f64)"
  by (transfer; simp)+
lemma f64_diff_0 [simp]: "x - 0 = (x :: f64)"  and f64_diff_self [simp]: "x - x = (0 :: f64)"
  by (transfer; simp)+
lemma f64_mult_simps [simp]: "x * 0 = 0" "0 * x = 0" "x * 1 = x" "1 * x = (x :: f64)"
  by (transfer; simp)+
lemma f64_div_simps [simp]: "0 / x = 0" "x / 1 = (x :: f64)"
  by (transfer; simp)+
lemma f64_div_self [simp]: "x \<noteq> 0 \<Longrightarrow> x / x = (1 :: f64)"
  using rnd_of_int [of 1] by (transfer; simp)
lemma f64_add_commute: "x + y = y + (x :: f64)" by transfer (simp add: add.commute)
lemma f64_mult_commute: "x * y = y * (x :: f64)" by transfer (simp add: mult.commute)
lemma f64_0_less_1 [simp]: "(0 :: f64) < 1" "(0 :: f64) \<le> 1" "(1 :: f64) \<noteq> 0" "(0::f64) \<noteq> 1"
  by (transfer; simp)+

lemma f64_add_mono: "a \<le> b \<Longrightarrow> c \<le> d \<Longrightarrow> a + c \<le> b + (d :: f64)"
  by transfer (auto intro: rnd_mono)
lemma f64_diff_mono: "a \<le> b \<Longrightarrow> d \<le> c \<Longrightarrow> a - c \<le> b - (d :: f64)"
  by transfer (auto intro: rnd_mono)
lemma f64_mult_mono: "a \<le> b \<Longrightarrow> c \<le> d \<Longrightarrow> 0 \<le> b \<Longrightarrow> 0 \<le> c \<Longrightarrow> a * c \<le> b * (d :: f64)"
  by transfer (auto intro!: rnd_mono mult_mono)
lemma f64_mult_right_mono: "a \<le> b \<Longrightarrow> 0 \<le> c \<Longrightarrow> a * c \<le> b * (c :: f64)"
  by transfer (intro rnd_mono mult_right_mono)
lemma f64_divide_right_mono: "a \<le> b \<Longrightarrow> 0 \<le> c \<Longrightarrow> a / c \<le> b / (c :: f64)"
  by transfer (auto intro!: rnd_mono divide_right_mono)
lemma f64_divide_left_mono: "0 < b \<Longrightarrow> b \<le> c \<Longrightarrow> 0 \<le> a \<Longrightarrow> a / c \<le> a / (b :: f64)"
  by transfer (auto intro!: rnd_mono divide_left_mono)

lemma f64_add_nonneg [intro]: "0 \<le> a \<Longrightarrow> 0 \<le> b \<Longrightarrow> 0 \<le> a + (b :: f64)"
  using f64_add_mono [of 0 a 0 b] by simp
lemma f64_mult_nonneg [intro]: "0 \<le> a \<Longrightarrow> 0 \<le> b \<Longrightarrow> 0 \<le> a * (b :: f64)"
  using f64_mult_mono [of 0 a 0 b] by simp
lemma f64_divide_nonneg [intro]: "0 \<le> a \<Longrightarrow> 0 \<le> b \<Longrightarrow> 0 \<le> a / (b :: f64)"
  using f64_divide_right_mono [of 0 a b] by simp
lemma f64_le_add: "0 \<le> b \<Longrightarrow> a \<le> a + (b :: f64)"
  using f64_add_mono [of a a 0 b] by simp
lemma f64_mult_le_left: "0 \<le> a \<Longrightarrow> 0 \<le> b \<Longrightarrow> b \<le> 1 \<Longrightarrow> a * b \<le> (a :: f64)"
  using f64_mult_mono [of a a b 1] by simp
lemma f64_divide_le_1: assumes "0 < b" "a \<le> b" shows "a / b \<le> (1 :: f64)"
  using f64_divide_right_mono [of a b b] assms by simp

lemma f64_diff_nonneg: "b \<le> a \<Longrightarrow> 0 \<le> a - (b :: f64)"
  using f64_diff_mono [of b a b b] by simp

lemma to_rat_flt [simp]: "to_rat (flt q) = rnd q"
  by (rule flt.rep_eq)

lemma flt_to_rat [simp]: "flt (to_rat x) = x"
  by (simp add: f64_eq_iff)

lemma flt_mono: "p \<le> q \<Longrightarrow> flt p \<le> flt q"
  by (simp add: f64_le_iff rnd_mono)

lemma flt_0 [simp]: "flt 0 = 0" and flt_1 [simp]: "flt 1 = 1"
  using rnd_of_int [of 1] by (simp_all add: f64_eq_iff zero_f64.rep_eq one_f64.rep_eq)

lemma flt_nonneg [intro]: "0 \<le> q \<Longrightarrow> 0 \<le> flt q"
  using flt_mono [of 0 q] by simp

lemma flt_le_1: "q \<le> 1 \<Longrightarrow> flt q \<le> 1"
  using flt_mono [of q 1] by simp

lemma f_of_int_0 [simp]: "f_of_int 0 = 0" and f_of_int_1 [simp]: "f_of_int 1 = 1"
  by (simp_all add: f_of_int_def)

lemma f_of_int_mono: "m \<le> n \<Longrightarrow> f_of_int m \<le> f_of_int n"
  by (simp add: f_of_int_def flt_mono)

lemma f_of_int_nonneg [intro]: "0 \<le> n \<Longrightarrow> 0 \<le> f_of_int n"
  using f_of_int_mono [of 0 n] by simp

lemma f_of_int_pos [intro]: "0 < n \<Longrightarrow> 0 < f_of_int n"
  using f_of_int_mono [of 1 n] by (simp add: less_le_trans [of 0 1])

lemma f64_half_double: "(x + x) / f_of_int 2 = x"
proof -
  have "to_rat (x + x) = 2 * to_rat x"
    using rnd_double [OF rnd_to_rat [of x]] by (simp add: plus_f64.rep_eq)
  moreover have "to_rat (f_of_int 2) = 2" using rnd_of_int [of 2] by (simp add: f_of_int_def)
  ultimately show ?thesis by (simp add: f64_eq_iff divide_f64.rep_eq)
qed

lemma f64_average_between: "a \<le> b \<Longrightarrow> a \<le> (a + b) / f_of_int 2 \<and> (a + b) / f_of_int 2 \<le> (b :: f64)"
  using f64_divide_right_mono [OF f64_add_mono [of a a a b], of "f_of_int 2"]
    f64_divide_right_mono [OF f64_add_mono [of a b b b], of "f_of_int 2"]
  by (simp add: f64_half_double f_of_int_nonneg)
lemma py_int_div_bounds:
  assumes "0 \<le> a" "a \<le> b"
  shows "0 \<le> py_int_div a b" and "py_int_div a b \<le> 1"
  using assms by (auto simp: py_int_div_def intro!: flt_le_1 flt_nonneg divide_le_eq_1 [THEN iffD2])

lemma py_int_div_self [simp]: "n \<noteq> 0 \<Longrightarrow> py_int_div n n = 1"
  by (simp add: py_int_div_def)

lemma py_int_div_0 [simp]: "py_int_div 0 n = 0"
  by (simp add: py_int_div_def)

lemma py_int_div_mono: "a \<le> c \<Longrightarrow> 0 < b \<Longrightarrow> py_int_div a b \<le> py_int_div c b"
  by (auto simp: py_int_div_def intro!: flt_mono divide_right_mono)

lemma py_round_mono: "x \<le> y \<Longrightarrow> py_round n x \<le> py_round n y"
  by (auto simp: py_round_def f64_le_iff intro!: rnd_mono rhe_mono divide_right_mono mult_right_mono)

lemma py_round_of_int: "to_rat x = of_int k \<Longrightarrow> py_round n x = x"
proof -
  assume x: "to_rat x = of_int k"
  have "rhe (of_int k * 10 ^ n :: rat) = k * 10 ^ n"
    using rhe_of_int [of "k * 10 ^ n"] by simp
  then show ?thesis by (simp add: py_round_def x f64_eq_iff) (metis rnd_to_rat x)
qed

lemma py_round_0 [simp]: "py_round n 0 = 0" and py_round_1 [simp]: "py_round n 1 = 1"
  using py_round_of_int [of 0 0] py_round_of_int [of 1 1]
  by (simp_all add: zero_f64.rep_eq one_f64.rep_eq)

lemma py_round_nonneg: "0 \<le> x \<Longrightarrow> 0 \<le> py_round n x"
  using py_round_mono [of 0 x n] by simp

lemma py_round_le_1: "x \<le> 1 \<Longrightarrow> py_round n x \<le> 1"
  using py_round_mono [of x 1 n] by simp

lemma rhe_error: "\<bar>of_int (rhe x) - x\<bar> \<le> 1 / 2"
proof -
  have "of_int \<lfloor>x\<rfloor> \<le> x" "x < of_int \<lfloor>x\<rfloor> + 1" by linarith+
  then show ?thesis by (auto simp: rhe_def Let_def abs_le_iff)
qed

lemma rhe_near: assumes "\<bar>x - of_int k\<bar> < 1 / 2" shows "rhe x = k"
proof -
  have "\<bar>of_int (rhe x) - (of_int k :: rat)\<bar> < 1" using rhe_error [of x] assms by linarith
  then show ?thesis by linarith
qed

lemma rnd_error: assumes "0 \<le> q" "q \<le> 1" shows "\<bar>rnd q - q\<bar> \<le> 1 / 2 ^ 53"
proof (cases "q = 0")
  case False
  with assms have q: "0 < q" by simp
  let ?u = "2 powi (ulp_exp q) :: rat"
  have "(2::rat) powi ilog2 q \<le> 2 powi 0" using ilog2_bounds(1) [OF q] assms by simp
  then have "ilog2 q \<le> 0" using power_int_strict_increasing [of 0 "ilog2 q" "2::rat"] by fastforce
  then have "ulp_exp q \<le> -52" by (simp add: ulp_exp_def)
  then have "?u \<le> 2 powi (-52)" by (intro power_int_increasing) auto
  then have u: "?u \<le> 1 / 2 ^ 52" by (simp add: power_int_def field_simps)
  have "rnd q - q = (of_int (rhe (q / ?u)) - q / ?u) * ?u" using q by (simp add: rnd_def rnd_pos_def Let_def algebra_simps)
  then have "\<bar>rnd q - q\<bar> = \<bar>of_int (rhe (q / ?u)) - q / ?u\<bar> * ?u" by (simp only: abs_mult) simp
  also have "\<dots> \<le> 1 / 2 * ?u" using rhe_error by (intro mult_right_mono) simp_all
  finally show ?thesis using u by simp
qed (simp add: rnd_0)

lemma py_round_idem:
  assumes "0 \<le> x" "x \<le> 1" "n \<le> 15"
  shows "py_round n (py_round n x) = py_round n x"
proof -
  let ?k = "rhe (to_rat x * 10 ^ n)"
  have x: "0 \<le> to_rat x" "to_rat x \<le> 1" using assms(1,2)
    by (simp_all add: f64_le_iff zero_f64.rep_eq one_f64.rep_eq)
  have "0 \<le> ?k" using x by (intro int_le_rhe) simp
  moreover have "?k \<le> 10 ^ n" using x by (intro rhe_le_int) simp
  ultimately have k: "0 \<le> (of_int ?k / 10 ^ n :: rat)" "of_int ?k / 10 ^ n \<le> (1 :: rat)"
    by simp_all
  have "\<bar>rnd (of_int ?k / 10 ^ n) - of_int ?k / 10 ^ n\<bar> \<le> 1 / 2 ^ 53" using rnd_error k by blast
  then have "\<bar>rnd (of_int ?k / 10 ^ n) * 10 ^ n - of_int ?k\<bar> \<le> 1 / 2 ^ 53 * 10 ^ n"
    by (simp add: abs_le_iff field_simps)
  also have "\<dots> \<le> 1 / 2 ^ 53 * 10 ^ 15" using assms(3) by (intro mult_left_mono power_increasing) simp_all
  also have "\<dots> < (1 / 2 :: rat)" by simp
  finally have "rhe (rnd (of_int ?k / 10 ^ n) * 10 ^ n) = ?k" by (rule rhe_near)
  then show ?thesis by (simp add: py_round_def)
qed
lemma py_round_int_mono: "x \<le> y \<Longrightarrow> py_round_int x \<le> py_round_int y"
  by (simp add: py_round_int_def rhe_mono f64_le_iff)

lemma py_sum_Nil [simp]: "py_sum [] = 0" and py_sum_single [simp]: "py_sum [x] = x"
  by (simp_all add: py_sum_def)

section \<open>Evaluation of closed terms\<close>

lemma floor_rat_numeral: "\<lfloor>numeral a / numeral b :: rat\<rfloor> = numeral a div numeral b"
  using floor_divide_of_int_eq [of "numeral a" "numeral b", where ?'a = rat] by simp

lemma floor_rat_one: "\<lfloor>1 / numeral b :: rat\<rfloor> = 1 div numeral b"
  using floor_divide_of_int_eq [of 1 "numeral b", where ?'a = rat] by simp

lemma ceiling_rat_numeral: "\<lceil>numeral a / numeral b :: rat\<rceil> = - ((- numeral a) div numeral b)"
  using floor_divide_of_int_eq [of "- numeral a" "numeral b", where ?'a = rat] by (simp add: ceiling_def)

lemma powi_numeral: "(2::rat) powi (numeral n) = 2 ^ numeral n"
  by simp

lemma powi_minus_numeral: "(2::rat) powi (- numeral n) = 1 / 2 ^ numeral n"
  by (simp add: power_int_minus field_simps)

declare floor_rat_numeral [f64_eval] floor_rat_one [f64_eval] ceiling_rat_numeral [f64_eval]
  powi_numeral [f64_eval] powi_minus_numeral [f64_eval] rnd_def [f64_eval] rnd_pos_def [f64_eval]
  ulp_exp_def [f64_eval] ilog2_def [f64_eval] rhe_def [f64_eval] Let_def [f64_eval]
  ilen.simps [f64_eval] flt.rep_eq [f64_eval] plus_f64.rep_eq [f64_eval] minus_f64.rep_eq [f64_eval]
  times_f64.rep_eq [f64_eval] divide_f64.rep_eq [f64_eval] zero_f64.rep_eq [f64_eval]
  one_f64.rep_eq [f64_eval] abs_f64.rep_eq [f64_eval] less_f64.rep_eq [f64_eval] less_eq_f64.rep_eq [f64_eval]
  f64_eq_iff [f64_eval] f_of_int_def [f64_eval] py_int_div_def [f64_eval] py_round_def [f64_eval]
  py_round_int_def [f64_eval] py_sum_def [f64_eval]

end
