(* ===== verification/PyPrelude.thy ===== *)
theory PyPrelude
  imports Main "HOL-Library.AList" "HOL-Library.List_Lexorder" "HOL-Library.Char_ord"
begin

text \<open>
  What the component theories share: Python dictionaries, error results and the small list
  facts that several proofs need.

  A \<open>dict\<close> keeps insertion order, so it is an association list with distinct keys
  (\<open>dict_ok\<close>): \<open>dget\<close> is lookup, \<open>dset\<close> is \<open>d[k] = v\<close> (in place for a present key,
  appended for a new one), \<open>dpop\<close> is \<open>pop(k, None)\<close>, \<open>dupdate\<close> is \<open>update\<close> (also the
  \<open>{**a, **b}\<close> display). The locale \<open>dict_store\<close> is the interface the components rely on;
  \<open>alist\<close> interprets it on these definitions.

  A raising function returns \<open>'e + 'a\<close>, with \<open>Inl\<close> for the exception.
\<close>

named_theorems dict_simps

section \<open>The dictionary interface\<close>

locale dict_store =
  fixes get :: "'d \<Rightarrow> 'k \<Rightarrow> 'v option"
    and put :: "'k \<Rightarrow> 'v \<Rightarrow> 'd \<Rightarrow> 'd"
    and del :: "'k \<Rightarrow> 'd \<Rightarrow> 'd"
    and keys :: "'d \<Rightarrow> 'k list"
    and ok :: "'d \<Rightarrow> bool"
  assumes get_put: "get (put k v d) = (get d)(k \<mapsto> v)"
    and get_del: "get (del k d) = (get d)(k := None)"
    and keys_get: "set (keys d) = dom (get d)"
    and keys_put: "keys (put k v d) = (if k \<in> set (keys d) then keys d else keys d @ [k])"
    and ok_put: "ok d \<Longrightarrow> ok (put k v d)"
    and ok_del: "ok d \<Longrightarrow> ok (del k d)"
    and ok_distinct: "ok d \<Longrightarrow> distinct (keys d)"
begin

lemma get_put_same: "get (put k v d) k = Some v"
  by (simp add: get_put)

lemma get_put_other: "k \<noteq> k' \<Longrightarrow> get (put k v d) k' = get d k'"
  by (simp add: get_put)

lemma get_del_same: "get (del k d) k = None"
  by (simp add: get_del)

lemma get_fold_put: "get (fold (\<lambda>(k, v). put k v) kvs d) = get d ++ map_of (rev kvs)"
  by (induction kvs arbitrary: d) (auto simp: get_put map_add_def fun_eq_iff split: option.splits)

lemma ok_fold_put: "ok d \<Longrightarrow> ok (fold (\<lambda>(k, v). put k v) kvs d)"
  by (induction kvs arbitrary: d) (auto simp: ok_put)

lemma keys_prefix: "\<exists>new. keys (put k v d) = keys d @ new"
  by (simp add: keys_put)

end

section \<open>Association lists as dictionaries\<close>

type_synonym ('k, 'v) dict = "('k \<times> 'v) list"

abbreviation dget :: "('k, 'v) dict \<Rightarrow> 'k \<Rightarrow> 'v option" where
  "dget \<equiv> map_of"

abbreviation dset :: "'k \<Rightarrow> 'v \<Rightarrow> ('k, 'v) dict \<Rightarrow> ('k, 'v) dict" where
  "dset \<equiv> AList.update"

abbreviation dpop :: "'k \<Rightarrow> ('k, 'v) dict \<Rightarrow> ('k, 'v) dict" where
  "dpop \<equiv> AList.delete"

abbreviation dkeys :: "('k, 'v) dict \<Rightarrow> 'k list" where
  "dkeys d \<equiv> map fst d"

abbreviation dvalues :: "('k, 'v) dict \<Rightarrow> 'v list" where
  "dvalues d \<equiv> map snd d"

abbreviation dict_ok :: "('k, 'v) dict \<Rightarrow> bool" where
  "dict_ok d \<equiv> distinct (map fst d)"

definition dget_or :: "('k, 'v) dict \<Rightarrow> 'k \<Rightarrow> 'v \<Rightarrow> 'v" where
  "dget_or d k v = (case dget d k of None \<Rightarrow> v | Some w \<Rightarrow> w)"

definition dmem :: "'k \<Rightarrow> ('k, 'v) dict \<Rightarrow> bool" where
  "dmem k d \<longleftrightarrow> (dget d k \<noteq> None)"

definition dupdate :: "('k, 'v) dict \<Rightarrow> ('k, 'v) dict \<Rightarrow> ('k, 'v) dict" where
  "dupdate d e = fold (\<lambda>(k, v). dset k v) e d"

interpretation alist: dict_store map_of AList.update AList.delete "map fst" "\<lambda>d. distinct (map fst d)"
proof (unfold_locales, goal_cases)
  case (1 k v d) show ?case by (simp add: update_conv')
next
  case (2 k d) show ?case by (simp add: delete_conv')
next
  case (3 d) show ?case by (simp add: dom_map_of_conv_image_fst)
next
  case (4 k v d) show ?case by (induction d) auto
next
  case (5 d k v) then show ?case by (rule distinct_update)
next
  case (6 d k) then show ?case by (rule distinct_delete)
qed simp

lemma dmem_iff [dict_simps]: "dmem k d \<longleftrightarrow> k \<in> set (dkeys d)"
  by (metis alist.keys_get dmem_def domIff)

lemma dget_dset [dict_simps]: "dget (dset k v d) k' = (if k = k' then Some v else dget d k')"
  by (simp add: alist.get_put)

lemma dget_dpop [dict_simps]: "dget (dpop k d) k' = (if k = k' then None else dget d k')"
  by (simp add: alist.get_del)

lemma keys_dset [dict_simps]: "set (dkeys (dset k v d)) = insert k (set (dkeys d))"
  by (auto simp: alist.keys_put)

lemma dkeys_dset_cong: "dkeys d = dkeys e \<Longrightarrow> dkeys (dset k v d) = dkeys (dset k w e)"
  by (simp only: alist.keys_put)

lemma dvalues_dset: "set (dvalues (dset k v d)) \<subseteq> insert v (set (dvalues d))"
  by (induction d) auto

lemma dget_dupdate [dict_simps]: "dget (dupdate d e) = dget d ++ dget (rev e)"
  by (simp add: dupdate_def alist.get_fold_put)

lemma dset_new: "k \<notin> set (dkeys d) \<Longrightarrow> dset k v d = d @ [(k, v)]"
  by (induction d) auto

lemma dget_rev: "dict_ok d \<Longrightarrow> dget (rev d) = dget d"
proof (intro ext)
  fix k assume d: "dict_ok d"
  show "dget (rev d) k = dget d k"
  proof (cases "dget d k")
    case None
    then have "dget (rev d) k = None" by (simp add: map_of_eq_None_iff)
    with None show ?thesis by simp
  next
    case (Some v)
    with d have "dget (rev d) k = Some v"
      by (subst map_of_eq_Some_iff) (auto simp: rev_map [symmetric] dest: map_of_SomeD)
    with Some show ?thesis by simp
  qed
qed

lemma dict_ok_dupdate: "dict_ok d \<Longrightarrow> dict_ok (dupdate d e)"
  by (simp add: dupdate_def alist.ok_fold_put)

lemma dupdate_append: "dict_ok (d @ e) \<Longrightarrow> dupdate d e = d @ e"
proof (induction e arbitrary: d)
  case (Cons kv e)
  obtain k v where kv: "kv = (k, v)" by (cases kv)
  have "dict_ok ((d @ [kv]) @ e)" using Cons.prems by simp
  from Cons.IH [OF this] have "dupdate (d @ [kv]) e = d @ kv # e" by simp
  moreover have "dset k v d = d @ [kv]" using Cons.prems kv by (intro dset_new [of k d v, folded kv]) auto
  ultimately show ?case using kv by (simp add: dupdate_def)
qed (simp add: dupdate_def)

lemma keys_dupdate [dict_simps]: "set (dkeys (dupdate d e)) = set (dkeys d) \<union> set (dkeys e)"
  by (induction e arbitrary: d) (auto simp: dupdate_def keys_dset simp del: set_map)

lemma dget_or_simps [dict_simps]:
  "dget_or [] k v = v"
  "dget_or (dset k w d) k' v = (if k = k' then w else dget_or d k' v)"
  by (simp_all add: dget_or_def dget_dset)

lemma dget_filter: "dict_ok d \<Longrightarrow> dget (filter P d) k = (case dget d k of Some v \<Rightarrow> if P (k, v) then Some v else None | None \<Rightarrow> None)"
  by (induction d) (auto simp: map_of_eq_None_iff split: option.splits)

text \<open>What a key contributes to a sum over the entries.\<close>

definition old_part :: "('k \<times> 'v \<Rightarrow> int) \<Rightarrow> ('k, 'v) dict \<Rightarrow> 'k \<Rightarrow> int" where
  "old_part f d k = (case dget d k of None \<Rightarrow> 0 | Some v \<Rightarrow> f (k, v))"

lemma sum_dset: "dict_ok d \<Longrightarrow> sum_list (map f (dset k v d)) = sum_list (map f d) - old_part f d k + f (k, v)"
  by (induction d) (auto simp: old_part_def)

lemma sum_dpop: "dict_ok d \<Longrightarrow> sum_list (map f (dpop k d)) = sum_list (map f d) - old_part f d k"
proof (induction d)
  case (Cons kv d)
  obtain k' v where kv: "kv = (k', v)" by (cases kv)
  show ?case
  proof (cases "k' = k")
    case True
    then have "dget d k = None" and "dpop k d = d"
      using Cons.prems kv by (auto simp: map_of_eq_None_iff delete_idem)
    with True kv show ?thesis by (simp add: old_part_def)
  next
    case False
    with Cons kv show ?thesis by (simp add: old_part_def)
  qed
qed (simp add: old_part_def)

section \<open>Results and lists\<close>

definition bind_res :: "'e + 'a \<Rightarrow> ('a \<Rightarrow> 'e + 'b) \<Rightarrow> 'e + 'b" where
  "bind_res r f = (case r of Inl e \<Rightarrow> Inl e | Inr x \<Rightarrow> f x)"

lemma bind_res_simps [simp]: "bind_res (Inl e) f = Inl e" "bind_res (Inr x) f = f x"
  by (simp_all add: bind_res_def)

lemma bind_res_Inr_iff: "bind_res r f = Inr y \<longleftrightarrow> (\<exists>x. r = Inr x \<and> f x = Inr y)"
  by (cases r) simp_all

text \<open>A loop that collects a result per element and stops at the first exception.\<close>

fun map_res :: "('a \<Rightarrow> 'e + 'b) \<Rightarrow> 'a list \<Rightarrow> 'e + 'b list" where
  "map_res f [] = Inr []"
| "map_res f (x # xs) = bind_res (f x) (\<lambda>y. bind_res (map_res f xs) (\<lambda>ys. Inr (y # ys)))"

lemma map_res_Inr: "map_res f xs = Inr ys \<longleftrightarrow> list_all2 (\<lambda>x y. f x = Inr y) xs ys"
proof (induction xs arbitrary: ys)
  case (Cons x xs)
  then show ?case by (cases ys) (auto simp: bind_res_Inr_iff)
qed auto

lemma map_res_total: "list_all (\<lambda>x. \<exists>y. f x = Inr y) xs \<Longrightarrow> \<exists>ys. map_res f xs = Inr ys"
  by (induction xs) auto

lemma map_res_source: "map_res f xs = Inr ys \<Longrightarrow> y \<in> set ys \<Longrightarrow> \<exists>x \<in> set xs. f x = Inr y"
  by (induction xs arbitrary: ys) (auto simp: bind_res_Inr_iff)

text \<open>The builtin \<open>sorted(xs, key=f, reverse=True)\<close>: descending, equal keys in their old order.\<close>

definition sort_desc :: "('a \<Rightarrow> 'k :: linorder) \<Rightarrow> 'a list \<Rightarrow> 'a list" where
  "sort_desc f xs = rev (sort_key f (rev xs))"

lemma set_sort_desc [simp]: "set (sort_desc f xs) = set xs"
  by (simp add: sort_desc_def)

lemma length_sort_desc [simp]: "length (sort_desc f xs) = length xs"
  by (simp add: sort_desc_def)

lemma distinct_sort_desc [simp]: "distinct (sort_desc f xs) = distinct xs"
  by (simp add: sort_desc_def)

lemma sorted_desc_map: "sorted (map f (rev (sort_desc f xs)))"
  by (simp add: sort_desc_def)

lemma sort_desc_falling: "sorted_wrt (\<lambda>x y. f y \<le> f x) (sort_desc f xs)"
proof -
  have "sorted_wrt (\<lambda>x y. f x \<le> f y) (sort_key f (rev xs))"
    using sorted_sort_key [of f "rev xs"] by (simp add: sorted_map)
  then show ?thesis by (simp add: sort_desc_def sorted_wrt_rev)
qed

lemma sort_desc_head: "sort_desc f xs = y # ys \<Longrightarrow> y \<in> set xs \<and> (\<forall>x \<in> set xs. f x \<le> f y)"
  using sort_desc_falling [of f xs] set_sort_desc [of f xs] by auto

text \<open>A prefix of the sorted list is a best selection: nothing left out is above anything taken.\<close>

lemma sort_desc_take:
  assumes "x \<in> set (take n (sort_desc f xs))" and "y \<in> set (drop n (sort_desc f xs))"
  shows "f y \<le> f x"
  using sort_desc_falling [of f xs] assms by (metis append_take_drop_id sorted_wrt_append)

lemma fold_max_ge: "x \<in> set (d # ds) \<Longrightarrow> x \<le> fold max ds (d :: 'a :: linorder)"
proof (induction ds arbitrary: d x)
  case (Cons y ys)
  have "max y d \<le> fold max ys (max y d)" using Cons.IH [of "max y d"] by simp
  with Cons.prems Cons.IH [of x "max y d"] show ?case by auto
qed simp

text \<open>Keep the first occurrence of each element, as \<open>dict.fromkeys\<close> does.\<close>

fun dedup :: "'a list \<Rightarrow> 'a list" where
  "dedup [] = []"
| "dedup (x # xs) = x # filter (\<lambda>y. y \<noteq> x) (dedup xs)"

lemma set_dedup [simp]: "set (dedup xs) = set xs"
  by (induction xs) auto

lemma distinct_dedup [simp]: "distinct (dedup xs)"
  by (induction xs) auto

lemma dedup_distinct: "distinct xs \<Longrightarrow> dedup xs = xs"
  by (induction xs) (auto intro: filter_True)

text \<open>
  A loop over a set visits its elements once each in an order the program cannot rely on:
  functions that do so take \<open>ord\<close>, which turns the elements into the visiting order.
\<close>

definition set_order :: "(string list \<Rightarrow> string list) \<Rightarrow> bool" where
  "set_order ord \<longleftrightarrow> (\<forall>xs. distinct xs \<longrightarrow> distinct (ord xs) \<and> set (ord xs) = set xs)"

end
