(* ===== verification/PyValue.thy ===== *)
theory PyValue
  imports Float64 PyPrelude
begin

text \<open>
  Python values of the kinds the program exchanges (the JSON types): \<open>None\<close>, booleans,
  unbounded ints, floats, strings, lists and string-keyed dicts, with the builtins the source
  applies to them: truth testing, \<open>==\<close>, \<open>str\<close>, \<open>repr\<close>, \<open>float\<close>, \<open>strip\<close>, \<open>lower\<close>.

  Characters are code points below 256; \<open>lower\<close> and the whitespace of \<open>strip\<close> follow
  Unicode on that range. \<open>repr\<close> of a float is the shortest decimal that reads back as the same
  double. A text that Python reads as an infinity or NaN is outside the model (see Float64) and
  is treated as a text that is not a number.
\<close>

datatype pyval =
    PNone
  | PBool bool
  | PInt int
  | PFloat f64
  | PStr string
  | PList "pyval list"
  | PDict "(string \<times> pyval) list"

type_synonym fields = "(string, pyval) dict"

datatype pyerr = ValueError | TypeError | KeyError | AttributeError | IndexError | ZeroDivisionError

section \<open>Truth value, numbers and equality\<close>

fun truthy :: "pyval \<Rightarrow> bool" where
  "truthy PNone = False"
| "truthy (PBool b) = b"
| "truthy (PInt n) = (n \<noteq> 0)"
| "truthy (PFloat x) = (x \<noteq> 0)"
| "truthy (PStr s) = (s \<noteq> [])"
| "truthy (PList xs) = (xs \<noteq> [])"
| "truthy (PDict d) = (d \<noteq> [])"

text \<open>Booleans and ints compare exactly with floats.\<close>

fun py_num :: "pyval \<Rightarrow> rat option" where
  "py_num (PBool b) = Some (if b then 1 else 0)"
| "py_num (PInt n) = Some (of_int n)"
| "py_num (PFloat x) = Some (to_rat x)"
| "py_num _ = None"

fun py_eq :: "pyval \<Rightarrow> pyval \<Rightarrow> bool"
  and py_eq_list :: "pyval list \<Rightarrow> pyval list \<Rightarrow> bool"
  and py_eq_items :: "(string \<times> pyval) list \<Rightarrow> (string \<times> pyval) list \<Rightarrow> bool" where
  "py_eq PNone y = (y = PNone)"
| "py_eq (PBool b) y = (py_num y = Some (if b then 1 else 0))"
| "py_eq (PInt n) y = (py_num y = Some (of_int n))"
| "py_eq (PFloat x) y = (py_num y = Some (to_rat x))"
| "py_eq (PStr s) y = (y = PStr s)"
| "py_eq (PList xs) y = (case y of PList ys \<Rightarrow> py_eq_list xs ys | _ \<Rightarrow> False)"
| "py_eq (PDict d) y = (case y of PDict e \<Rightarrow> length d = length e \<and> py_eq_items d e | _ \<Rightarrow> False)"
| "py_eq_list [] ys = (ys = [])"
| "py_eq_list (x # xs) ys = (case ys of [] \<Rightarrow> False | y # ys' \<Rightarrow> py_eq x y \<and> py_eq_list xs ys')"
| "py_eq_items [] e = True"
| "py_eq_items ((k, v) # d) e =
     ((case dget e k of None \<Rightarrow> False | Some w \<Rightarrow> py_eq v w) \<and> py_eq_items d e)"

text \<open>\<open>v in (None, "", [], {})\<close>, the emptiness test used throughout the source.\<close>

fun is_blank :: "pyval \<Rightarrow> bool" where
  "is_blank PNone = True"
| "is_blank (PStr s) = (s = [])"
| "is_blank (PList xs) = (xs = [])"
| "is_blank (PDict d) = (d = [])"
| "is_blank _ = False"

lemma is_blank_not_truthy: "is_blank v \<Longrightarrow> \<not> truthy v"
  by (cases v) auto

section \<open>Strings\<close>

definition code :: "char \<Rightarrow> nat" where
  "code c = of_char c"

definition is_space :: "char \<Rightarrow> bool" where
  "is_space c = (let n = code c in (9 \<le> n \<and> n \<le> 13) \<or> (28 \<le> n \<and> n \<le> 32) \<or> n = 133 \<or> n = 160)"

definition lower_char :: "char \<Rightarrow> char" where
  "lower_char c =
     (let n = code c in
      if (65 \<le> n \<and> n \<le> 90) \<or> (192 \<le> n \<and> n \<le> 222 \<and> n \<noteq> 215) then char_of (n + 32) else c)"

definition py_lower :: "string \<Rightarrow> string" where
  "py_lower s = map lower_char s"

definition py_strip :: "string \<Rightarrow> string" where
  "py_strip s = rev (dropWhile is_space (rev (dropWhile is_space s)))"

fun join :: "string \<Rightarrow> string list \<Rightarrow> string" where
  "join sep [] = []"
| "join sep [s] = s"
| "join sep (s # t # ts) = s @ sep @ join sep (t # ts)"

definition digit_char :: "int \<Rightarrow> char" where
  "digit_char d = char_of (48 + nat d)"

fun digits_of :: "int \<Rightarrow> string" where
  "digits_of n = (if n < 10 then [digit_char n] else digits_of (n div 10) @ [digit_char (n mod 10)])"

declare digits_of.simps [simp del]

definition str_int :: "int \<Rightarrow> string" where
  "str_int n = (if n < 0 then CHR ''-'' # digits_of (- n) else digits_of n)"

definition hex_digit :: "nat \<Rightarrow> char" where
  "hex_digit n = (if n < 10 then char_of (48 + n) else char_of (87 + n))"

definition esc_char :: "char \<Rightarrow> char \<Rightarrow> string" where
  "esc_char q c =
     (let n = code c in
      if c = q \<or> n = 92 then [char_of (92 :: nat), c]
      else if n = 10 then [char_of (92 :: nat), CHR ''n'']
      else if n = 13 then [char_of (92 :: nat), CHR ''r'']
      else if n = 9 then [char_of (92 :: nat), CHR ''t'']
      else if n < 32 \<or> (127 \<le> n \<and> n \<le> 160) \<or> n = 173
      then [char_of (92 :: nat), CHR ''x'', hex_digit (n div 16), hex_digit (n mod 16)]
      else [c])"

definition repr_str :: "string \<Rightarrow> string" where
  "repr_str s =
     (let sq = char_of (39 :: nat); dq = char_of (34 :: nat);
          q = (if sq \<in> set s \<and> dq \<notin> set s then dq else sq)
      in q # concat (map (esc_char q) s) @ [q])"

section \<open>Text of a float\<close>

text \<open>The decimal exponent \<open>e\<close> with \<open>10^e \<le> x < 10^(e+1)\<close>, and the shortest digits that read back.\<close>

definition ilog10 :: "rat \<Rightarrow> int" where
  "ilog10 x = (if 1 \<le> x then int (length (digits_of \<lfloor>x\<rfloor>)) - 1
     else - int (length (digits_of (\<lceil>1 / x\<rceil> - 1))))"

fun shortest :: "nat \<Rightarrow> rat \<Rightarrow> int \<Rightarrow> nat \<Rightarrow> int \<times> int" where
  "shortest 0 x e n = (rhe (x / 10 powi (e - 16)), e - 16)"
| "shortest (Suc fuel) x e n =
     (let u = 10 powi (e - int n + 1); near = rhe (x / u);
          far = (if of_int near \<le> x / u then near + 1 else near - 1)
      in if rnd (of_int near * u) = x then (near, e - int n + 1)
         else if rnd (of_int far * u) = x then (far, e - int n + 1)
         else shortest fuel x e (Suc n))"

definition drop_zeros :: "string \<Rightarrow> string" where
  "drop_zeros s = rev (dropWhile (\<lambda>c. c = CHR ''0'') (rev s))"

text \<open>Digits \<open>ds\<close> and position \<open>p\<close> of the decimal point (the value is \<open>0.ds * 10^p\<close>).\<close>

definition layout_float :: "string \<Rightarrow> int \<Rightarrow> string" where
  "layout_float ds p =
     (if - 4 < p \<and> p \<le> 16 then
        (if p \<le> 0 then ''0.'' @ replicate (nat (- p)) (CHR ''0'') @ ds
         else if int (length ds) \<le> p then ds @ replicate (nat (p - int (length ds))) (CHR ''0'') @ ''.0''
         else take (nat p) ds @ ''.'' @ drop (nat p) ds)
      else
        (let e = p - 1; m = (if length ds = 1 then ds else take 1 ds @ ''.'' @ drop 1 ds);
             t = digits_of \<bar>e\<bar>
         in m @ (if e < 0 then ''e-'' else ''e+'') @ (if length t = 1 then CHR ''0'' # t else t)))"

definition repr_float :: "f64 \<Rightarrow> string" where
  "repr_float x =
     (if x = 0 then ''0.0''
      else
        (let q = \<bar>to_rat x\<bar>; (m, k) = shortest 16 q (ilog10 q) 1; ds = digits_of m
         in (if x < 0 then ''-'' else []) @ layout_float (drop_zeros ds) (int (length ds) + k)))"

section \<open>repr, str and float\<close>

fun py_repr :: "pyval \<Rightarrow> string"
  and repr_list :: "pyval list \<Rightarrow> string list"
  and repr_items :: "(string \<times> pyval) list \<Rightarrow> string list" where
  "py_repr PNone = ''None''"
| "py_repr (PBool b) = (if b then ''True'' else ''False'')"
| "py_repr (PInt n) = str_int n"
| "py_repr (PFloat x) = repr_float x"
| "py_repr (PStr s) = repr_str s"
| "py_repr (PList xs) = ''['' @ join '', '' (repr_list xs) @ '']''"
| "py_repr (PDict d) = ''{'' @ join '', '' (repr_items d) @ ''}''"
| "repr_list [] = []"
| "repr_list (x # xs) = py_repr x # repr_list xs"
| "repr_items [] = []"
| "repr_items ((k, v) # d) = (repr_str k @ '': '' @ py_repr v) # repr_items d"

fun py_str :: "pyval \<Rightarrow> string" where
  "py_str (PStr s) = s"
| "py_str v = py_repr v"

text \<open>\<open>scan_digits v n s\<close> reads digits (single underscores between digits allowed).\<close>

definition digit_val :: "char \<Rightarrow> int option" where
  "digit_val c = (let n = code c in if 48 \<le> n \<and> n \<le> 57 then Some (int n - 48) else None)"

fun scan_digits :: "int \<Rightarrow> nat \<Rightarrow> string \<Rightarrow> int \<times> nat \<times> string" where
  "scan_digits v n [] = (v, n, [])"
| "scan_digits v n (c # cs) =
     (case digit_val c of
        Some d \<Rightarrow> scan_digits (10 * v + d) (Suc n) cs
      | None \<Rightarrow>
          if c = CHR ''_'' \<and> 0 < n \<and> (case cs of [] \<Rightarrow> False | c' # _ \<Rightarrow> digit_val c' \<noteq> None)
          then scan_digits v n cs else (v, n, c # cs))"

definition scan_sign :: "string \<Rightarrow> int \<times> string" where
  "scan_sign s = (case s of [] \<Rightarrow> (1, [])
     | c # cs \<Rightarrow> if c = CHR ''-'' then (- 1, cs) else if c = CHR ''+'' then (1, cs) else (1, s))"

definition scan_exp :: "string \<Rightarrow> int option" where
  "scan_exp s = (case s of [] \<Rightarrow> Some 0
     | c # cs \<Rightarrow>
         if lower_char c = CHR ''e'' then
           (let (sg, r) = scan_sign cs; (v, n, rest) = scan_digits 0 0 r
            in if 0 < n \<and> rest = [] then Some (sg * v) else None)
         else None)"

definition parse_float :: "string \<Rightarrow> f64 option" where
  "parse_float s =
     (let (sg, r) = scan_sign (py_strip s);
          (v, n, r1) = scan_digits 0 0 r;
          (w, m, r2) = (case r1 of c # cs \<Rightarrow> if c = CHR ''.'' then scan_digits v 0 cs else (v, 0, r1)
                                 | [] \<Rightarrow> (v, 0, []))
      in if n + m = 0 then None
         else (case scan_exp r2 of None \<Rightarrow> None
               | Some e \<Rightarrow> Some (flt (of_int (sg * w) * 10 powi (e - int m)))))"

fun py_float :: "pyval \<Rightarrow> pyerr + f64" where
  "py_float (PBool b) = Inr (if b then 1 else 0)"
| "py_float (PInt n) = Inr (f_of_int n)"
| "py_float (PFloat x) = Inr x"
| "py_float (PStr s) = (case parse_float s of None \<Rightarrow> Inl ValueError | Some x \<Rightarrow> Inr x)"
| "py_float _ = Inl TypeError"

definition parse_int :: "string \<Rightarrow> int option" where
  "parse_int s =
     (let (sg, r) = scan_sign (py_strip s); (v, n, rest) = scan_digits 0 0 r
      in if 0 < n \<and> rest = [] then Some (sg * v) else None)"

definition py_trunc :: "f64 \<Rightarrow> int" where
  "py_trunc x = (if 0 \<le> to_rat x then \<lfloor>to_rat x\<rfloor> else \<lceil>to_rat x\<rceil>)"

fun py_int :: "pyval \<Rightarrow> pyerr + int" where
  "py_int (PBool b) = Inr (if b then 1 else 0)"
| "py_int (PInt n) = Inr n"
| "py_int (PFloat x) = Inr (py_trunc x)"
| "py_int (PStr s) = (case parse_int s of None \<Rightarrow> Inl ValueError | Some n \<Rightarrow> Inr n)"
| "py_int _ = Inl TypeError"

text \<open>\<open>s in t\<close> for two strings.\<close>

fun is_substring :: "string \<Rightarrow> string \<Rightarrow> bool" where
  "is_substring s [] = (s = [])"
| "is_substring s (c # cs) = (take (length s) (c # cs) = s \<or> is_substring s cs)"

lemma is_substring_iff: "is_substring s t \<longleftrightarrow> (\<exists>u v. t = u @ s @ v)"
proof (induction t)
  case (Cons c t)
  have "take (length s) (c # t) = s \<longleftrightarrow> (\<exists>v. c # t = s @ v)"
    by (metis append_eq_conv_conj)
  moreover have "(\<exists>u v. c # t = u @ s @ v) \<longleftrightarrow> (\<exists>v. c # t = s @ v) \<or> (\<exists>u v. t = u @ s @ v)"
    by (metis append_Cons append_Nil list.inject neq_Nil_conv)
  ultimately show ?case using Cons by simp
qed simp

lemma is_substring_trans: "is_substring s t \<Longrightarrow> is_substring t u \<Longrightarrow> is_substring s u"
  unfolding is_substring_iff by (metis append.assoc)

text \<open>\<open>s.split(c)\<close> for a one-character separator.\<close>

fun split_on :: "char \<Rightarrow> string \<Rightarrow> string list" where
  "split_on c [] = [[]]"
| "split_on c (x # xs) =
     (if x = c then [] # split_on c xs
      else case split_on c xs of p # ps \<Rightarrow> (x # p) # ps | [] \<Rightarrow> [[x]])"

text \<open>The elements a \<open>for\<close> loop visits.\<close>

fun py_iter :: "pyval \<Rightarrow> pyerr + pyval list" where
  "py_iter (PList vs) = Inr vs"
| "py_iter (PDict d) = Inr (map (\<lambda>kv. PStr (fst kv)) d)"
| "py_iter (PStr s) = Inr (map (\<lambda>c. PStr [c]) s)"
| "py_iter _ = Inl TypeError"

text \<open>\<open>v.get(key, default)\<close>, an \<open>AttributeError\<close> where \<open>v\<close> is no dict.\<close>

definition py_get :: "pyval \<Rightarrow> string \<Rightarrow> pyval \<Rightarrow> pyerr + pyval" where
  "py_get v k dflt = (case v of PDict d \<Rightarrow> Inr (dget_or d k dflt) | _ \<Rightarrow> Inl AttributeError)"

lemma py_strip_Nil [simp]: "py_strip [] = []" and py_lower_Nil [simp]: "py_lower [] = []"
  by (simp_all add: py_strip_def py_lower_def)

lemma digits_of_nonempty: "digits_of n \<noteq> []"
  by (subst digits_of.simps) simp

lemma py_eq_refl_str [simp]: "py_eq (PStr s) (PStr t) = (s = t)"
  by auto

end
