(* ===== verification/CircuitBreaker.thy ===== *)
theory CircuitBreaker
  imports PyValue
begin

text \<open>
  \<open>app/services/circuit_breaker.py\<close>: the three-state breaker shared by the provider clients of
  one worker. The clock \<open>time.monotonic()\<close> is the argument \<open>now\<close>; the log calls have no effect
  on the state. \<open>allow\<close> returns the answer with the new state. The calls a breaker has had are a list,
  the latest last; what the breaker promises is stated over this history alone.
\<close>

datatype cb_state = CBClosed | CBOpen | CBHalfOpen

record breaker =
  failure_threshold :: int
  cooldown :: int
  failures :: int
  last_failure :: f64
  cb_state :: cb_state

definition breaker_init :: "int \<Rightarrow> int \<Rightarrow> breaker" where
  "breaker_init thr cool =
     \<lparr>failure_threshold = thr, cooldown = cool, failures = 0, last_failure = 0, cb_state = CBClosed\<rparr>"

definition record_failure :: "f64 \<Rightarrow> breaker \<Rightarrow> breaker" where
  "record_failure now b =
     (let b1 = b\<lparr>failures := failures b + 1, last_failure := now\<rparr>
      in if failure_threshold b1 \<le> failures b1 \<and> cb_state b1 \<noteq> CBOpen
         then b1\<lparr>cb_state := CBOpen\<rparr> else b1)"

definition record_success :: "breaker \<Rightarrow> breaker" where
  "record_success b = b\<lparr>failures := 0, cb_state := CBClosed\<rparr>"

definition cooled_down :: "f64 \<Rightarrow> breaker \<Rightarrow> bool" where
  "cooled_down now b \<longleftrightarrow> of_int (cooldown b) < to_rat (now - last_failure b)"

definition allow :: "f64 \<Rightarrow> breaker \<Rightarrow> bool \<times> breaker" where
  "allow now b =
     (case cb_state b of
        CBClosed \<Rightarrow> (True, b)
      | CBOpen \<Rightarrow> if cooled_down now b then (True, b\<lparr>cb_state := CBHalfOpen\<rparr>) else (False, b)
      | CBHalfOpen \<Rightarrow> (True, b))"

definition is_open :: "breaker \<Rightarrow> bool" where
  "is_open b \<longleftrightarrow> cb_state b = CBOpen"

section \<open>Calls and runs\<close>

datatype cb_call = CFail f64 | COk | CAsk f64

fun cb_exec :: "cb_call \<Rightarrow> breaker \<Rightarrow> breaker" where
  "cb_exec (CFail t) b = record_failure t b"
| "cb_exec COk b = record_success b"
| "cb_exec (CAsk t) b = snd (allow t b)"

lemmas breaker_defs = record_failure_def record_success_def allow_def is_open_def Let_def


text \<open>The times of the failures since the last success, and of the questions since the last failure, the latest first.\<close>

definition recent_failures :: "cb_call list \<Rightarrow> f64 list" where
  "recent_failures cs = concat (map (\<lambda>c. case c of CFail t \<Rightarrow> [t] | _ \<Rightarrow> []) (takeWhile (\<lambda>c. c \<noteq> COk) (rev cs)))"

definition asked_since_failure :: "cb_call list \<Rightarrow> f64 list" where
  "asked_since_failure cs =
     concat (map (\<lambda>c. case c of CAsk t \<Rightarrow> [t] | _ \<Rightarrow> []) (takeWhile (\<lambda>c. case c of CFail t \<Rightarrow> False | _ \<Rightarrow> True) (rev cs)))"



lemma history_simps [simp]:
  "recent_failures [] = []" "recent_failures (cs @ [CFail t]) = t # recent_failures cs"
  "recent_failures (cs @ [COk]) = []" "recent_failures (cs @ [CAsk t]) = recent_failures cs"
  "asked_since_failure [] = []" "asked_since_failure (cs @ [CFail t]) = []" "asked_since_failure (cs @ [CAsk t]) = t # asked_since_failure cs"
  by (simp_all add: recent_failures_def asked_since_failure_def)






section \<open>Properties\<close>



text \<open>
  The comment on the last line of \<open>allow\<close> says "half_open: allow one probe", but the state
  does not change when a probe is admitted: from the moment the cooldown has passed, any number
  of calls is admitted until one of them reports back.
\<close>

theorem half_open_admits_all:
  assumes "is_open b" and "cooled_down t b"
  shows "fst (allow t b) \<and> fst (allow t' (fold (\<lambda>s. cb_exec (CAsk s)) ts (snd (allow t b))))"
proof -
  have h: "cb_state c = CBHalfOpen \<Longrightarrow> cb_state (fold (\<lambda>s. cb_exec (CAsk s)) ts c) = CBHalfOpen" for c
    by (induction ts arbitrary: c) (auto simp: breaker_defs)
  from assms have "fst (allow t b)" and "cb_state (snd (allow t b)) = CBHalfOpen"
    by (simp_all add: breaker_defs)
  with h show ?thesis by (simp add: allow_def [of t'])
qed

theorem half_open_admits_all_witness:
  "fst (allow 1 (fold (\<lambda>s. cb_exec (CAsk s)) [1, 1, 1]
     (snd (allow (flt 100) (record_failure 0 (breaker_init 1 60))))))"
proof -
  let ?b = "record_failure 0 (breaker_init 1 60)"
  have "is_open ?b" and "cooled_down (flt 100) ?b"
    by (simp_all add: breaker_init_def breaker_defs cooled_down_def f64_eval)
  from half_open_admits_all [OF this, of 1 "[1, 1, 1]"] show ?thesis by blast
qed

end
