(* ===== verification/RateLimiter.thy ===== *)
theory RateLimiter
  imports PyValue
begin

text \<open>
  \<open>app/middleware/rate_limiter.py\<close>: the sliding-window limiter. \<open>windows\<close> maps a client key to
  the times of its admitted requests. \<open>dispatch\<close> is one request at time \<open>now\<close> (\<open>time.time()\<close>);
  \<open>Admit\<close> stands for the call of \<open>call_next\<close>, \<open>TooMany detail retry\<close> for the 429 response.
  \<open>rl_run\<close> serves a list of requests and logs what was admitted.
\<close>

record limiter =
  rpm :: int
  windows :: "(string, f64 list) dict"

datatype rl_response = Admit | TooMany string string

definition rl_key :: "string option \<Rightarrow> string option \<Rightarrow> string" where
  "rl_key header host =
     (case header of Some k \<Rightarrow> k
      | None \<Rightarrow> (case host of Some h \<Rightarrow> h | None \<Rightarrow> ''unknown''))"

definition limiter_init :: "int \<Rightarrow> limiter" where
  "limiter_init n = \<lparr>rpm = n, windows = []\<rparr>"

text \<open>\<open>self.windows[key]\<close> on a \<open>defaultdict(list)\<close>.\<close>

definition window_of :: "limiter \<Rightarrow> string \<Rightarrow> f64 list" where
  "window_of l key = dget_or (windows l) key []"

definition retry_after :: "f64 list \<Rightarrow> f64 \<Rightarrow> int" where
  "retry_after window now =
     (case window of [] \<Rightarrow> 60 | oldest # _ \<Rightarrow> max 1 \<lceil>to_rat (oldest + f_of_int 60 - now)\<rceil>)"

definition dispatch :: "string \<Rightarrow> f64 \<Rightarrow> limiter \<Rightarrow> rl_response \<times> limiter" where
  "dispatch key now l =
     (let cutoff = now - f_of_int 60;
          window = filter (\<lambda>t. cutoff < t) (window_of l key);
          l1 = l\<lparr>windows := (if window \<noteq> [] then dset key window (windows l) else dpop key (windows l))\<rparr>
      in if rpm l1 \<le> int (length window)
         then (TooMany (''Rate limit: '' @ str_int (rpm l1) @ '' requests/minute'')
                 (str_int (retry_after window now)), l1)
         else (Admit, l1\<lparr>windows := dset key (window_of l1 key @ [now]) (windows l1)\<rparr>))"

fun rl_run :: "(string \<times> f64) list \<Rightarrow> limiter \<Rightarrow> (string \<times> f64) list \<times> limiter" where
  "rl_run [] l = ([], l)"
| "rl_run ((k, t) # rs) l =
     (let (r, l') = dispatch k t l; (lg, l'') = rl_run rs l'
      in ((if r = Admit then (k, t) # lg else lg), l''))"

section \<open>One request\<close>

text \<open>The stamps of \<open>key\<close> that a request at time \<open>now\<close> still counts.\<close>

definition live :: "f64 \<Rightarrow> f64 list \<Rightarrow> f64 list" where
  "live now w = filter (\<lambda>t. now - f_of_int 60 < t) w"

lemma live_simps [simp]:
  "live now [] = []"
  "live now (t # w) = (if now - f_of_int 60 < t then t # live now w else live now w)"
  by (simp_all add: live_def)

lemma dispatch_rpm [simp]: "rpm (snd (dispatch k t l)) = rpm l"
  by (simp add: dispatch_def Let_def)

lemma dispatch_admit_iff: "fst (dispatch k t l) = Admit \<longleftrightarrow> int (length (live t (window_of l k))) < rpm l"
  by (simp add: dispatch_def live_def Let_def not_le)

lemma window_of_dispatch:
  "window_of (snd (dispatch k t l)) k' =
     (if k' = k then live t (window_of l k) @ (if fst (dispatch k t l) = Admit then [t] else [])
      else window_of l k')"
  by (auto simp: dispatch_def live_def Let_def window_of_def dget_or_def dget_dset dget_dpop
      split: option.splits)

lemma live_live: "s \<le> t \<Longrightarrow> live t (live s w) = live t w"
  by (auto simp: live_def intro!: filter_cong dest!: f64_diff_mono [OF _ order_refl, of s t "f_of_int 60"])

section \<open>Runs\<close>

definition limiter_ok :: "limiter \<Rightarrow> bool" where
  "limiter_ok l \<longleftrightarrow> dict_ok (windows l) \<and>
     (\<forall>(k, w) \<in> set (windows l). w \<noteq> [] \<and> int (length w) \<le> max 0 (rpm l))"

lemma limiter_ok_init: "limiter_ok (limiter_init n)"
  by (simp add: limiter_ok_def limiter_init_def)

lemma limiter_ok_iff:
  "limiter_ok l \<longleftrightarrow> dict_ok (windows l) \<and>
     (\<forall>k w. dget (windows l) k = Some w \<longrightarrow> w \<noteq> [] \<and> int (length w) \<le> max 0 (rpm l))"
  by (auto simp: limiter_ok_def Ball_def map_of_eq_Some_iff cong: conj_cong)

lemma window_of_length: "limiter_ok l \<Longrightarrow> int (length (window_of l k)) \<le> max 0 (rpm l)"
  by (auto simp: limiter_ok_iff window_of_def dget_or_def split: option.splits)

lemma length_live: "length (live t w) \<le> length w"
  by (simp add: live_def)

lemma dget_windows_dispatch:
  "dget (windows (snd (dispatch k t l))) k' =
     (if k' = k then (let w = window_of (snd (dispatch k t l)) k in if w = [] then None else Some w)
      else dget (windows l) k')"
  by (auto simp: dispatch_def Let_def window_of_def dget_or_def dget_dset dget_dpop split: option.splits)

lemma dispatch_ok:
  assumes "limiter_ok l" shows "limiter_ok (snd (dispatch k t l))"
proof -
  have "int (length (window_of (snd (dispatch k t l)) k)) \<le> max 0 (rpm l)"
    using window_of_length [OF assms, of k] length_live [of t "window_of l k"] dispatch_admit_iff [of k t l]
    by (auto simp: window_of_dispatch)
  moreover have "dict_ok (windows (snd (dispatch k t l)))"
    using assms by (auto simp: limiter_ok_def dispatch_def Let_def distinct_delete distinct_update)
  ultimately show ?thesis
    using assms by (auto simp: limiter_ok_iff dget_windows_dispatch Let_def)
qed

lemma rl_run_ok: "limiter_ok l \<Longrightarrow> limiter_ok (snd (rl_run rs l))"
proof (induction rs arbitrary: l)
  case (Cons r rs)
  then show ?case using dispatch_ok [OF Cons.prems, of "fst r" "snd r"]
    by (cases r) (auto simp: split_def Let_def)
qed simp

lemma rl_run_rpm [simp]: "rpm (snd (rl_run rs l)) = rpm l"
proof (induction rs arbitrary: l)
  case (Cons r rs)
  then show ?case by (cases r) (auto simp: split_def Let_def)
qed simp

text \<open>Times of the lg that belong to \<open>k\<close>.\<close>

definition stamps :: "string \<Rightarrow> (string \<times> f64) list \<Rightarrow> f64 list" where
  "stamps k lg = map snd (filter (\<lambda>p. fst p = k) lg)"

lemma stamps_simps [simp]:
  "stamps k [] = []"
  "stamps k ((k', t) # lg) = (if k' = k then t # stamps k lg else stamps k lg)"
  by (simp_all add: stamps_def)

lemma live_append: "live t (v @ w) = live t v @ live t w"
  by (simp add: live_def)

text \<open>
  The window of a key is, for every later moment, the live part of everything admitted so far:
  pruning loses nothing that a later request would count.
\<close>

lemma rl_run_window:
  assumes "sorted (map snd rs)" and "\<forall>r \<in> set rs. snd r \<le> T"
  shows "live T (window_of (snd (rl_run rs l)) k) = live T (window_of l k @ stamps k (fst (rl_run rs l)))"
  using assms
proof (induction rs arbitrary: l)
  case (Cons r rs)
  obtain k' t where r: "r = (k', t)" by (cases r)
  let ?l' = "snd (dispatch k' t l)"
  have IH: "live T (window_of (snd (rl_run rs ?l')) k) =
      live T (window_of ?l' k @ stamps k (fst (rl_run rs ?l')))"
    using Cons by simp
  have "t \<le> T" using Cons.prems r by simp
  then show ?case
    using IH by (auto simp: r split_def Let_def window_of_dispatch live_append live_live)
qed simp

section \<open>Properties\<close>

text \<open>
  The abstract limiter keeps every admission forever and counts those of the last minute; it has no
  windows to prune.
\<close>

fun history_run :: "int \<Rightarrow> (string \<times> f64) list \<Rightarrow> (string \<times> f64) list \<Rightarrow> (string \<times> f64) list" where
  "history_run n [] hist = []"
| "history_run n (r # rs) hist =
     (if int (length (live (snd r) (stamps (fst r) hist))) < n then r # history_run n rs (hist @ [r]) else history_run n rs hist)"

definition windows_refine :: "f64 \<Rightarrow> limiter \<Rightarrow> (string \<times> f64) list \<Rightarrow> bool" where
  "windows_refine t0 l hist \<longleftrightarrow> (\<forall>T k. t0 \<le> T \<longrightarrow> live T (window_of l k) = live T (stamps k hist))"

lemma stamps_append: "stamps k (a @ b) = stamps k a @ stamps k b"
  by (simp add: stamps_def)

lemma windows_refine_step:
  assumes "windows_refine t0 l hist" and "t0 \<le> t"
  shows "windows_refine t (snd (dispatch k t l)) (if fst (dispatch k t l) = Admit then hist @ [(k, t)] else hist)"
  using assms by (auto simp: windows_refine_def window_of_dispatch live_append live_live stamps_append)

lemma windows_refine_run:
  "windows_refine t0 l hist \<Longrightarrow> sorted (map snd rs) \<Longrightarrow> \<forall>r \<in> set rs. t0 \<le> snd r \<Longrightarrow> fst (rl_run rs l) = history_run (rpm l) rs hist"
proof (induction rs arbitrary: t0 l hist)
  case (Cons r rs)
  obtain k t where r: "r = (k, t)" by (cases r)
  from Cons.prems r have t: "t0 \<le> t" "\<forall>r \<in> set rs. t \<le> snd r" "sorted (map snd rs)" by auto
  note IH = Cons.IH [OF windows_refine_step [OF Cons.prems(1) t(1), of k] t(3,2)]
  from Cons.prems(1) t(1) have "fst (dispatch k t l) = Admit \<longleftrightarrow> int (length (live t (stamps k hist))) < rpm l"
    by (simp add: dispatch_admit_iff windows_refine_def)
  with IH show ?case by (simp add: r split_def Let_def)
qed simp

text \<open>
  C14: the pruned windows refine the full history. On any sequence of requests with a clock that does
  not run backwards the middleware admits exactly the requests that the abstract limiter admits, which
  forgets nothing.
\<close>

theorem rate_limit_refines_history:
  assumes "sorted (map snd rs)"
  shows "fst (rl_run rs (limiter_init n)) = history_run n rs []"
proof (cases rs)
  case (Cons r rest)
  have "windows_refine (snd r) (limiter_init n) []"
    by (simp add: windows_refine_def window_of_def limiter_init_def dget_or_def)
  from windows_refine_run [OF this assms] assms Cons show ?thesis by (simp add: limiter_init_def)
qed simp

theorem rate_limit_refines_history_witness:
  "fst (rl_run [(''k'', 0), (''k'', 0), (''k'', 1)] (limiter_init 2)) = history_run 2 [(''k'', 0), (''k'', 0), (''k'', 1)] []"
  by (rule rate_limit_refines_history) simp

text \<open>
  Whatever the requests and their keys, as long as the clock does not run backwards, at any
  moment \<open>T\<close> at or after the last request no key has more than \<open>rpm\<close> admitted requests inside
  the last 60 seconds; and the table holds no empty window, hence no key without a live stamp
  from its last visit.
\<close>

theorem rate_limit_enforced:
  assumes "sorted (map snd rs)" and "\<forall>r \<in> set rs. snd r \<le> T"
  shows "int (length (live T (stamps k (fst (rl_run rs (limiter_init n)))))) \<le> max 0 n \<and>
    [] \<notin> set (dvalues (windows (snd (rl_run rs (limiter_init n)))))"
proof -
  let ?l = "snd (rl_run rs (limiter_init n))"
  have ok: "limiter_ok ?l" by (intro rl_run_ok limiter_ok_init)
  have "window_of (limiter_init n) k = []"
    by (simp add: window_of_def limiter_init_def dget_or_def)
  then have "live T (stamps k (fst (rl_run rs (limiter_init n)))) = live T (window_of ?l k)"
    using rl_run_window [OF assms, of "limiter_init n" k] by simp
  moreover have "int (length (live T (window_of ?l k))) \<le> max 0 n"
    using window_of_length [OF ok, of k] length_live [of T "window_of ?l k"]
    by (simp add: limiter_init_def)
  ultimately show ?thesis using ok by (auto simp: limiter_ok_def)
qed

theorem rate_limit_enforced_witness:
  "int (length (live 1 (stamps ''k'' (fst (rl_run [(''k'', 0), (''k'', 0), (''k'', 1)] (limiter_init 2)))))) \<le> 2"
  using rate_limit_enforced [of "[(''k'', 0), (''k'', 0), (''k'', 1)]" 1 "''k''" 2] by simp

text \<open>
  A 429 tells the client when to come back, and the promise is kept: when the subtraction in
  \<open>retry_after\<close> is exact (clock values of today's magnitude are multiples of the same unit), a
  client that waits the advertised number of seconds, during which its key makes no other
  request, is admitted.
\<close>

theorem retry_after_sound:
  assumes "limiter_ok l" and "0 < rpm l"
    and rejected: "fst (dispatch key now l) \<noteq> Admit"
    and exact: "to_rat (hd (live now (window_of l key)) + f_of_int 60 - now) =
      to_rat (hd (live now (window_of l key))) + 60 - to_rat now"
    and later: "to_rat now + of_int (retry_after (live now (window_of l key)) now) \<le> to_rat now'"
  shows "fst (dispatch key now' (snd (dispatch key now l))) = Admit"
proof -
  let ?w = "live now (window_of l key)"
  have full: "rpm l \<le> int (length ?w)" using rejected by (simp add: dispatch_admit_iff)
  with \<open>0 < rpm l\<close> obtain o' w' where w: "?w = o' # w'" by (cases ?w) auto
  have "to_rat o' + 60 - to_rat now \<le> of_int (retry_after ?w now)"
    using exact le_of_int_ceiling [of "to_rat o' + 60 - to_rat now"]
    by (simp add: w retry_after_def of_int_max le_max_iff_disj)
  with later have "to_rat o' \<le> to_rat now' - 60" by simp
  then have "to_rat o' \<le> rnd (to_rat now' - 60)" by (rule f64_le_rnd)
  then have old: "\<not> now' - f_of_int 60 < o'"
    using rnd_of_int [of 60] by (simp add: f64_less_iff minus_f64.rep_eq f_of_int_def)
  have "length (live now' ?w) < length ?w"
    using old length_live [of now' w'] by (simp add: w)
  moreover have "int (length ?w) \<le> rpm l"
    using window_of_length [OF assms(1), of key] length_live [of now "window_of l key"] \<open>0 < rpm l\<close> by simp
  ultimately show ?thesis
    using rejected by (simp add: dispatch_admit_iff [of key now'] window_of_dispatch)
qed

theorem retry_after_sound_witness:
  "fst (dispatch ''k'' (f_of_int 160) (snd (dispatch ''k'' (f_of_int 110)
     \<lparr>rpm = 1, windows = [(''k'', [f_of_int 100])]\<rparr>))) = Admit"
proof -
  let ?l = "\<lparr>rpm = 1, windows = [(''k'', [f_of_int 100])]\<rparr>"
  have w: "live (f_of_int 110) (window_of ?l ''k'') = [f_of_int 100]"
    by (simp add: live_def window_of_def dget_or_def f64_eval)
  show ?thesis
    by (rule retry_after_sound)
       (simp_all add: w dispatch_admit_iff limiter_ok_def retry_after_def, simp_all add: f64_eval)
qed

end
