(* ===== verification/DerivationGraph.thy ===== *)
theory DerivationGraph
  imports PyValue "HOL-Library.Multiset"
begin

text \<open>
  First half of \<open>app/engines/inference_bridge_v2.py\<close>: the derivation edges a domain YAML
  declares, the graph built from them and Kahn's topological sort.

  The source collects the targets in a \<open>set\<close>, whose iteration order Python leaves open: the
  argument \<open>ord\<close> of \<open>topo_sort\<close> is that order, any function that returns the distinct elements
  of a list in some order. The two dicts of the sort are total functions with the defaults the
  code uses (\<open>in_degree.get(t, 0)\<close>, \<open>graph.get(node, [])\<close>). \<open>kahn\<close> is the \<open>while queue\<close> loop;
  its fuel is the number of targets, and \<open>kahn_queue_empty\<close> shows that this is enough for the
  queue to run empty.
\<close>

record derivation_edge =
  target :: string
  inputs :: "string list"
  inference_rule :: "string option"
  confidence_floor :: f64
  managed_by :: pyval

record derivation_graph =
  dg_domain :: pyval
  dg_edges :: "derivation_edge list"
  topo_order :: "string list"
  children_of :: "(string, string list) dict"
  edge_map :: "(string, derivation_edge) dict"

section \<open>Reading the YAML\<close>

definition safe_float :: "pyval \<Rightarrow> f64 \<Rightarrow> f64" where
  "safe_float v dflt = (case py_float v of Inr x \<Rightarrow> x | Inl _ \<Rightarrow> dflt)"

text \<open>
  The declared types are \<open>tuple[str, ...]\<close> and \<open>str | None\<close>: a name that is not a string is
  reported as a \<open>TypeError\<close>.
\<close>

fun str_list :: "pyval list \<Rightarrow> pyerr + string list" where
  "str_list [] = Inr []"
| "str_list (v # vs) =
     (case v of PStr s \<Rightarrow> bind_res (str_list vs) (\<lambda>ss. Inr (s # ss)) | _ \<Rightarrow> Inl TypeError)"

fun opt_str :: "pyval \<Rightarrow> pyerr + string option" where
  "opt_str PNone = Inr None"
| "opt_str (PStr s) = Inr (Some s)"
| "opt_str _ = Inl TypeError"

fun edges_of_props :: "(string \<times> pyval) list \<Rightarrow> pyerr + derivation_edge list" where
  "edges_of_props [] = Inr []"
| "edges_of_props ((name, def) # ps) =
     (case def of
        PDict d \<Rightarrow>
          (case dget_or d ''derived_from'' PNone of
             PList vs \<Rightarrow>
               if vs = [] then edges_of_props ps
               else bind_res (str_list vs) (\<lambda>ins.
                    bind_res (opt_str (dget_or d ''inference_rule'' PNone)) (\<lambda>r.
                    bind_res (edges_of_props ps) (\<lambda>es.
                    Inr (\<lparr>target = name, inputs = ins, inference_rule = r,
                          confidence_floor =
                            safe_float (dget_or d ''confidence_floor'' (PFloat (flt (6 / 10)))) 0,
                          managed_by = dget_or d ''managed_by'' (PStr ''computed'')\<rparr> # es))))
           | _ \<Rightarrow> edges_of_props ps)
      | _ \<Rightarrow> edges_of_props ps)"

definition collect_edges_from_node :: "(string \<times> pyval) list \<Rightarrow> pyerr + derivation_edge list" where
  "collect_edges_from_node node =
     (case dget_or node ''properties'' (PDict []) of PDict ps \<Rightarrow> edges_of_props ps | _ \<Rightarrow> Inr [])"

fun edges_of_nodes :: "pyval list \<Rightarrow> pyerr + derivation_edge list" where
  "edges_of_nodes [] = Inr []"
| "edges_of_nodes (n # ns) =
     (case n of
        PDict d \<Rightarrow> bind_res (collect_edges_from_node d) (\<lambda>es.
                   bind_res (edges_of_nodes ns) (\<lambda>es'. Inr (es @ es')))
      | _ \<Rightarrow> edges_of_nodes ns)"

text \<open>The definitions that \<open>node_iter\<close> runs over; a string iterates over its characters, none a dict.\<close>

fun node_defs :: "pyval \<Rightarrow> pyerr + pyval list" where
  "node_defs (PDict d) = Inr (map snd d)"
| "node_defs (PList vs) = Inr vs"
| "node_defs (PStr s) = Inr []"
| "node_defs _ = Inl TypeError"

section \<open>Topological sort\<close>

type_synonym degrees = "string \<Rightarrow> int"
type_synonym succs = "string \<Rightarrow> string list"

definition count_input :: "string set \<Rightarrow> string \<Rightarrow> string \<Rightarrow> degrees \<times> succs \<Rightarrow> degrees \<times> succs" where
  "count_input T t inp s =
     (if inp \<in> T then ((fst s)(t := fst s t + 1), (snd s)(inp := snd s inp @ [t])) else s)"

definition count_edge :: "string set \<Rightarrow> derivation_edge \<Rightarrow> degrees \<times> succs \<Rightarrow> degrees \<times> succs" where
  "count_edge T e s = fold (count_input T (target e)) (inputs e) s"

definition build_degrees :: "string set \<Rightarrow> derivation_edge list \<Rightarrow> degrees \<times> succs" where
  "build_degrees T es = fold (count_edge T) es (\<lambda>_. 0, \<lambda>_. [])"

text \<open>The inner loop over the children of the node that was taken.\<close>

fun relax :: "string list \<Rightarrow> string list \<Rightarrow> degrees \<Rightarrow> string list \<times> degrees" where
  "relax [] q d = (q, d)"
| "relax (c # cs) q d =
     (let d' = d(c := d c - 1) in relax cs (if d' c = 0 then q @ [c] else q) d')"

fun kahn :: "nat \<Rightarrow> succs \<Rightarrow> string list \<Rightarrow> string list \<Rightarrow> degrees \<Rightarrow> string list \<times> string list \<times> degrees" where
  "kahn fuel g [] out d = (out, [], d)"
| "kahn 0 g (n # q) out d = (out, n # q, d)"
| "kahn (Suc fuel) g (n # q) out d =
     (let (q', d') = relax (g n) q d in kahn fuel g q' (out @ [n]) d')"

definition topo_sort :: "(string list \<Rightarrow> string list) \<Rightarrow> derivation_edge list \<Rightarrow> string list" where
  "topo_sort ord es =
     (let ts = ord (dedup (map target es)); (d, g) = build_degrees (set ts) es;
          (out, q, d') = kahn (length ts) g (filter (\<lambda>t. d t = 0) ts) [] d
      in if length out \<noteq> length ts
         then out @ sort (filter (\<lambda>t. t \<notin> set out) ts) else out)"

definition build_children :: "derivation_edge list \<Rightarrow> (string, string list) dict" where
  "build_children es =
     fold (\<lambda>e. fold (\<lambda>inp m. dset inp (dget_or m inp [] @ [target e]) m) (inputs e)) es []"

definition build_derivation_graph ::
    "(string list \<Rightarrow> string list) \<Rightarrow> fields \<Rightarrow> pyerr + derivation_graph" where
  "build_derivation_graph ord spec =
     (let dom = dget_or spec ''domain'' PNone in
      bind_res (if truthy dom then Inr dom
                else py_get (dget_or spec ''metadata'' (PDict [])) ''domain'' (PStr ''unknown'')) (\<lambda>name.
      let ontology = dget_or spec ''ontology'' (PDict spec) in
      bind_res (py_get ontology ''entities'' (PDict [])) (\<lambda>ents.
      bind_res (py_get ontology ''nodes'' ents) (\<lambda>nodes.
      bind_res (node_defs nodes) (\<lambda>defs.
      bind_res (edges_of_nodes defs) (\<lambda>es.
      Inr \<lparr>dg_domain = name, dg_edges = es, topo_order = topo_sort ord es,
           children_of = build_children es,
           edge_map = fold (\<lambda>e. dset (target e) e) es []\<rparr>))))))"

section \<open>Correctness of the sort\<close>

lemma count_input_sum:
  assumes "finite T" and "\<forall>t. fst s t = int (\<Sum>p\<in>T. count_list (snd s p) t)"
  shows "\<forall>t'. fst (count_input T t inp s) t' = int (\<Sum>p\<in>T. count_list (snd (count_input T t inp s) p) t')"
proof (cases "inp \<in> T")
  case True
  have "(\<Sum>p\<in>T. count_list (((snd s)(inp := snd s inp @ [t])) p) t') =
      (\<Sum>p\<in>T. count_list (snd s p) t' + (if p = inp \<and> t = t' then 1 else 0))" for t'
    by (intro sum.cong) auto
  also have "\<dots> t' = (\<Sum>p\<in>T. count_list (snd s p) t') + (if t = t' then 1 else 0)" for t'
    using True assms(1) by (simp add: sum.distrib if_distrib [of "\<lambda>b. b \<and> _"] flip: if_bool_eq_conj)
  finally show ?thesis using True assms(2) by (auto simp: count_input_def)
qed (use assms in \<open>simp add: count_input_def\<close>)

lemma count_edge_sum:
  assumes "finite T" and "\<forall>t. fst s t = int (\<Sum>p\<in>T. count_list (snd s p) t)"
  shows "\<forall>t. fst (count_edge T e s) t = int (\<Sum>p\<in>T. count_list (snd (count_edge T e s) p) t)"
proof -
  have "\<forall>t. fst (fold (count_input T (target e)) ins s) t =
      int (\<Sum>p\<in>T. count_list (snd (fold (count_input T (target e)) ins s) p) t)" for ins
    using assms(2) by (induction ins arbitrary: s) (simp_all add: count_input_sum assms(1))
  then show ?thesis by (simp add: count_edge_def)
qed

lemma build_degrees_sum:
  assumes "finite T"
  shows "fst (build_degrees T es) t = int (\<Sum>p\<in>T. count_list (snd (build_degrees T es) p) t)"
proof -
  have "\<forall>t. fst (fold (count_edge T) es s) t = int (\<Sum>p\<in>T. count_list (snd (fold (count_edge T) es s) p) t)"
    if "\<forall>t. fst s t = int (\<Sum>p\<in>T. count_list (snd s p) t)" for s
    using that by (induction es arbitrary: s) (simp_all add: count_edge_sum assms)
  then show ?thesis by (simp add: build_degrees_def)
qed

lemma count_edge_succs:
  "t \<in> set (snd (count_edge T e s) p) \<longleftrightarrow>
     t \<in> set (snd s p) \<or> (p \<in> T \<and> p \<in> set (inputs e) \<and> t = target e)"
proof -
  have "t \<in> set (snd (fold (count_input T u) ins s) p) \<longleftrightarrow>
     t \<in> set (snd s p) \<or> (p \<in> T \<and> p \<in> set ins \<and> t = u)" for ins u
    by (induction ins arbitrary: s) (auto simp: count_input_def)
  then show ?thesis by (simp add: count_edge_def)
qed

lemma build_degrees_succs:
  "t \<in> set (snd (build_degrees T es) p) \<longleftrightarrow> p \<in> T \<and> (\<exists>e\<in>set es. target e = t \<and> p \<in> set (inputs e))"
proof -
  have "t \<in> set (snd (fold (count_edge T) es s) p) \<longleftrightarrow>
     t \<in> set (snd s p) \<or> (p \<in> T \<and> (\<exists>e\<in>set es. target e = t \<and> p \<in> set (inputs e)))" for s
    by (induction es arbitrary: s) (auto simp: count_edge_succs)
  then show ?thesis by (simp add: build_degrees_def)
qed

text \<open>
  One pass over the children of a node: every degree drops by the multiplicity of the child, and
  exactly the children that reach zero are queued, each once.
\<close>

lemma relax_degrees: "snd (relax cs q d) = (\<lambda>t. d t - int (count_list cs t))"
  by (induction cs arbitrary: q d) (auto simp: Let_def fun_eq_iff)

lemma count_list_pos: "c \<in> set cs \<Longrightarrow> 0 < count_list cs c"
  by (simp add: count_list_0_iff order_less_le)

lemma relax_queue:
  assumes "\<forall>t \<in> set cs. int (count_list cs t) \<le> d t"
  shows "\<exists>new. fst (relax cs q d) = q @ new \<and> distinct new \<and>
    (\<forall>t. t \<in> set new \<longleftrightarrow> t \<in> set cs \<and> d t = int (count_list cs t))"
  using assms
proof (induction cs arbitrary: q d)
  case (Cons c cs)
  let ?d = "d(c := d c - 1)"
  let ?q = "if ?d c = 0 then q @ [c] else q"
  have pre: "\<forall>t \<in> set cs. int (count_list cs t) \<le> ?d t" using Cons.prems by auto
  from Cons.IH [OF pre, of ?q] obtain new where
    new: "fst (relax cs ?q ?d) = ?q @ new" "distinct new"
    and mem: "\<And>t. t \<in> set new \<longleftrightarrow> t \<in> set cs \<and> ?d t = int (count_list cs t)" by blast
  have r: "fst (relax (c # cs) q d) = ?q @ new" using new(1) by (simp add: Let_def)
  have other: "t \<in> set new \<longleftrightarrow> t \<in> set (c # cs) \<and> d t = int (count_list (c # cs) t)" if "t \<noteq> c" for t
    using that mem [of t] by simp
  have here: "c \<in> set new \<longleftrightarrow> c \<in> set cs \<and> d c = int (count_list (c # cs) c)"
    using mem [of c] by auto
  show ?case
  proof (cases "?d c = 0")
    case True
    have c: "c \<notin> set cs"
    proof
      assume "c \<in> set cs"
      with pre have "int (count_list cs c) \<le> ?d c" by blast
      with True count_list_pos [OF \<open>c \<in> set cs\<close>] show False by simp
    qed
    then have "d c = int (count_list (c # cs) c)" using True by (simp add: count_list_0_iff)
    with other have "\<forall>t. t \<in> set (c # new) \<longleftrightarrow> t \<in> set (c # cs) \<and> d t = int (count_list (c # cs) t)"
      by (metis list.set_intros(1) set_ConsD list.set_intros(2))
    moreover have "distinct (c # new)" using c here new(2) by simp
    moreover have "fst (relax (c # cs) q d) = q @ (c # new)" using r True by simp
    ultimately show ?thesis by blast
  next
    case False
    have "c \<in> set cs" if "d c = int (count_list (c # cs) c)"
      using that False by (cases "c \<in> set cs") (simp_all add: count_list_0_iff)
    with here other have "\<forall>t. t \<in> set new \<longleftrightarrow> t \<in> set (c # cs) \<and> d t = int (count_list (c # cs) t)"
      by (metis list.set_intros(1))
    with r False new(2) show ?thesis by auto
  qed
qed simp

lemma relax_spec:
  assumes "\<forall>t \<in> set cs. int (count_list cs t) \<le> d t" and "relax cs q d = (q', d')"
  shows "d' = (\<lambda>t. d t - int (count_list cs t))"
    and "\<exists>new. q' = q @ new \<and> distinct new \<and> set new = {t \<in> set cs. d t = int (count_list cs t)}"
  using relax_degrees [of cs q d] relax_queue [OF assms(1), of q] assms(2) by (simp_all add: set_eq_iff)

definition kahn_inv :: "string set \<Rightarrow> succs \<Rightarrow> string list \<Rightarrow> string list \<Rightarrow> degrees \<Rightarrow> bool" where
  "kahn_inv T g q out d \<longleftrightarrow>
     distinct (out @ q) \<and> set (out @ q) \<subseteq> T \<and>
     (\<forall>t\<in>T. d t = int (\<Sum>p\<in>T - set out. count_list (g p) t)) \<and>
     (\<forall>t\<in>T. t \<in> set (out @ q) \<longleftrightarrow> d t = 0) \<and>
     (\<forall>i<length out. \<forall>p\<in>T. out ! i \<in> set (g p) \<longrightarrow> p \<in> set (take i out))"

lemma kahn_inv_step:
  assumes fin: "finite T" and G: "\<forall>p. set (g p) \<subseteq> T"
    and inv: "kahn_inv T g (n # q) out d" and r: "relax (g n) q d = (q', d')"
  shows "kahn_inv T g q' (out @ [n]) d'"
proof -
  from inv have n: "n \<in> T" "n \<notin> set out" and dn: "d n = 0"
    and dt: "\<And>t. t \<in> T \<Longrightarrow> d t = int (\<Sum>p\<in>T - set out. count_list (g p) t)"
    and zero: "\<And>t. t \<in> T \<Longrightarrow> t \<in> set (out @ n # q) \<longleftrightarrow> d t = 0"
    by (auto simp: kahn_inv_def)
  have split: "(\<Sum>p\<in>T - set out. count_list (g p) t) =
      count_list (g n) t + (\<Sum>p\<in>T - set (out @ [n]). count_list (g p) t)" for t
  proof -
    have "T - set out - {n} = T - set (out @ [n])" by auto
    then show ?thesis using sum.remove [of "T - set out" n "\<lambda>p. count_list (g p) t"] fin n by simp
  qed
  have ge: "int (count_list (g n) t) \<le> d t" if "t \<in> T" for t
    unfolding dt [OF that] split [of t] by (simp only: of_nat_le_iff le_add1)
  then have pre: "\<forall>t \<in> set (g n). int (count_list (g n) t) \<le> d t" using G by blast
  from relax_spec [OF pre r] obtain new where d': "d' = (\<lambda>t. d t - int (count_list (g n) t))"
    and q': "q' = q @ new" "distinct new" "set new = {t \<in> set (g n). d t = int (count_list (g n) t)}"
    by blast
  have newT: "set new \<subseteq> T" using q'(3) G by auto
  have newpos: "d t \<noteq> 0" if "t \<in> set new" for t
    using that q'(3) by (auto simp: count_list_0_iff)
  have dis: "distinct ((out @ [n]) @ q')"
  proof -
    have "distinct (out @ n # q)" using inv by (simp add: kahn_inv_def)
    moreover have "set new \<inter> set (out @ n # q) = {}" using newT newpos zero by blast
    ultimately show ?thesis using q'(1,2) by auto
  qed
  have zero': "t \<in> set ((out @ [n]) @ q') \<longleftrightarrow> d' t = 0" if t: "t \<in> T" for t
  proof (cases "d t = 0")
    case True
    then show ?thesis using zero [OF t] ge [OF t] by (auto simp: d' q')
  next
    case False
    then have "t \<in> set (g n)" if "d t = int (count_list (g n) t)"
      using that False by (cases "t \<in> set (g n)") (simp_all add: count_list_0_iff)
    then show ?thesis using False zero [OF t] by (auto simp: d' q')
  qed
  have "p \<in> set out" if "p \<in> T" "n \<in> set (g p)" for p
  proof (rule ccontr)
    assume "p \<notin> set out"
    moreover have "(\<Sum>p\<in>T - set out. count_list (g p) n) = 0"
      using dt [OF n(1)] dn by (metis of_nat_eq_0_iff)
    ultimately have "count_list (g p) n = 0" using fin that by simp
    then show False using that by (simp add: count_list_0_iff)
  qed
  with inv have "\<forall>i<length (out @ [n]). \<forall>p\<in>T. (out @ [n]) ! i \<in> set (g p) \<longrightarrow> p \<in> set (take i (out @ [n]))"
    by (auto simp: kahn_inv_def nth_append less_Suc_eq)
  moreover have "\<forall>t\<in>T. d' t = int (\<Sum>p\<in>T - set (out @ [n]). count_list (g p) t)"
    using dt split by (simp add: d')
  ultimately show ?thesis
    using dis zero' inv newT q'(1) n(1) unfolding kahn_inv_def by auto
qed

lemma kahn_spec:
  assumes "finite T" "\<forall>p. set (g p) \<subseteq> T"
    and "kahn_inv T g q out d" and "card T \<le> fuel + length out"
    and "kahn fuel g q out d = (out', q', d')"
  shows "kahn_inv T g [] out' d' \<and> q' = []"
  using assms(3-5)
proof (induction fuel arbitrary: q out d)
  case 0
  then have "distinct (out @ q)" "set (out @ q) \<subseteq> T" by (auto simp: kahn_inv_def)
  then have "length (out @ q) \<le> card T"
    using assms(1) by (metis card_mono distinct_card)
  with 0 have "length q = 0" by (simp only: length_append)
  then have "q = []" by simp
  with 0 show ?case by simp
next
  case (Suc fuel)
  show ?case
  proof (cases q)
    case Nil
    with Suc.prems show ?thesis by simp
  next
    case (Cons n q1)
    obtain q2 d2 where r: "relax (g n) q1 d = (q2, d2)" by fastforce
    from kahn_inv_step [OF assms(1,2) _ r] Suc.prems(1) Cons
    have "kahn_inv T g q2 (out @ [n]) d2" by simp
    from Suc.IH [OF this] Suc.prems(2,3) Cons r show ?thesis by simp
  qed
qed

lemma kahn_inv_start:
  assumes "finite T" "distinct ts" "set ts = T"
  shows "kahn_inv T (snd (build_degrees T es)) (filter (\<lambda>t. fst (build_degrees T es) t = 0) ts) []
    (fst (build_degrees T es))"
  using assms by (auto simp: kahn_inv_def build_degrees_sum)

section \<open>Properties\<close>

definition derived_from :: "derivation_edge list \<Rightarrow> string \<Rightarrow> string \<Rightarrow> bool" where
  "derived_from es t p \<longleftrightarrow> p \<in> target ` set es \<and> (\<exists>e\<in>set es. target e = t \<and> p \<in> set (inputs e))"

lemma topo_sort_parts:
  assumes "set_order ord"
  obtains out rest where "topo_sort ord es = out @ rest" and "distinct (out @ rest)"
    and "set (out @ rest) = target ` set es"
    and "\<And>i p. i < length out \<Longrightarrow> derived_from es (out ! i) p \<Longrightarrow> p \<in> set (take i out)"
    and "\<And>t. t \<in> set rest \<Longrightarrow> \<exists>p\<in>set rest. derived_from es t p"
proof -
  let ?T = "target ` set es" and ?ts = "ord (dedup (map target es))"
  from assms have ts: "distinct ?ts" "set ?ts = ?T" by (auto simp: set_order_def)
  let ?g = "snd (build_degrees ?T es)" and ?d = "fst (build_degrees ?T es)"
  obtain out q d' where k: "kahn (length ?ts) ?g (filter (\<lambda>t. ?d t = 0) ?ts) [] ?d = (out, q, d')"
    by (metis prod_cases3)
  have G: "\<forall>p. set (?g p) \<subseteq> ?T" by (auto simp: build_degrees_succs)
  have dep: "derived_from es t p \<longleftrightarrow> p \<in> ?T \<and> t \<in> set (?g p)" for t p
    by (simp add: derived_from_def build_degrees_succs)
  have "card ?T \<le> length ?ts + length []" using ts distinct_card by fastforce
  from kahn_spec [OF _ G kahn_inv_start this k] ts
  have inv: "kahn_inv ?T ?g [] out d'" by simp
  let ?rest = "sort (filter (\<lambda>t. t \<notin> set out) ?ts)"
  have sub: "set out \<subseteq> ?T" and dis: "distinct out" using inv by (auto simp: kahn_inv_def)
  have "?rest = []" if "length out = length ?ts"
  proof -
    have "set out = ?T"
      using that ts sub dis by (metis card_subset_eq distinct_card List.finite_set)
    then show ?thesis using ts by simp
  qed
  then have "topo_sort ord es = out @ ?rest"
    using k ts(2) by (auto simp: topo_sort_def Let_def split_def)
  moreover have "distinct (out @ ?rest)" using dis ts by auto
  moreover have "set (out @ ?rest) = ?T" using sub ts by auto
  moreover have "p \<in> set (take i out)" if "i < length out" "derived_from es (out ! i) p" for i p
    using that inv by (auto simp: kahn_inv_def dep)
  moreover have "\<exists>p\<in>set ?rest. derived_from es t p" if "t \<in> set ?rest" for t
  proof -
    from that ts have t: "t \<in> ?T" "t \<notin> set out" by auto
    with inv have "d' t \<noteq> 0" and "d' t = int (\<Sum>p\<in>?T - set out. count_list (?g p) t)"
      by (auto simp: kahn_inv_def)
    then obtain p where "p \<in> ?T - set out" "count_list (?g p) t \<noteq> 0"
      by (metis (no_types, lifting) of_nat_0 sum.neutral)
    then have "p \<in> ?T - set out" "derived_from es t p"
      using count_list_0_iff [of "?g p" t] by (auto simp: dep)
    with ts show ?thesis by auto
  qed
  ultimately show thesis using that by blast
qed

text \<open>
  C15: the topological sort lists every derivation target exactly once, and if the declared
  derivations are acyclic (some rank grows along every dependency), every target comes after all
  the targets it is derived from, in whatever order Python iterates the set of targets.
\<close>

theorem topo_sort_correct:
  assumes "set_order ord"
    and acyclic: "\<And>t p. derived_from es t p \<Longrightarrow> rank p < (rank t :: nat)"
  shows "distinct (topo_sort ord es) \<and> set (topo_sort ord es) = target ` set es \<and>
    (\<forall>i p. i < length (topo_sort ord es) \<longrightarrow> derived_from es (topo_sort ord es ! i) p \<longrightarrow>
       p \<in> set (take i (topo_sort ord es)))"
proof -
  obtain out rest where eq: "topo_sort ord es = out @ rest" and d: "distinct (out @ rest)"
      "set (out @ rest) = target ` set es"
    and o: "\<And>i p. i < length out \<Longrightarrow> derived_from es (out ! i) p \<Longrightarrow> p \<in> set (take i out)"
    and r: "\<And>t. t \<in> set rest \<Longrightarrow> \<exists>p\<in>set rest. derived_from es t p"
    using topo_sort_parts [OF assms(1)] by metis
  have "t \<notin> set rest" for t
  proof (induction "rank t" arbitrary: t rule: less_induct)
    case less
    then show ?case using r [of t] acyclic by blast
  qed
  then have "rest = []" by (cases rest) auto
  with eq d o show ?thesis by simp
qed

definition sample_edge :: "string \<Rightarrow> string list \<Rightarrow> derivation_edge" where
  "sample_edge t ins = \<lparr>target = t, inputs = ins, inference_rule = Some ''r'',
     confidence_floor = flt (6 / 10), managed_by = PStr ''computed''\<rparr>"

lemma sample_edge_sel [simp]:
  "target (sample_edge t ins) = t" "inputs (sample_edge t ins) = ins"
  "inference_rule (sample_edge t ins) = Some ''r''"
  "confidence_floor (sample_edge t ins) = flt (6 / 10)"
  by (simp_all add: sample_edge_def)

theorem topo_sort_correct_witness:
  "distinct (topo_sort (\<lambda>xs. xs) [sample_edge ''c'' [''b''], sample_edge ''b'' [''a'']]) \<and>
   set (topo_sort (\<lambda>xs. xs) [sample_edge ''c'' [''b''], sample_edge ''b'' [''a'']]) = {''c'', ''b''}"
proof -
  let ?es = "[sample_edge ''c'' [''b''], sample_edge ''b'' [''a'']]"
  have "set_order (\<lambda>xs :: string list. xs)" by (simp add: set_order_def)
  moreover have "(if p = ''c'' then 1 else 0) < (if t = ''c'' then 1 else (0::nat))"
    if "derived_from ?es t p" for t p
    using that by (auto simp: derived_from_def)
  ultimately show ?thesis
    using topo_sort_correct [of "\<lambda>xs. xs" ?es "\<lambda>t. if t = ''c'' then 1 else 0"] by auto
qed

end
