(* ===== verification/InferenceBridge.thy ===== *)
theory InferenceBridge
  imports DerivationGraph
begin

text \<open>
  Second half of \<open>app/engines/inference_bridge_v2.py\<close> (the inference pass, the unlock analysis,
  the target prioritisation) and \<open>inference_bridge_adapter.py\<close>, which the convergence controller
  calls.

  Rule functions are plugins registered at startup (\<open>_RULE_REGISTRY\<close>): the argument \<open>reg\<close> maps a
  name to a function of the input values and the edge, which returns a value with a confidence or
  raises. The pass is a fold over \<open>topo_order\<close> whose state holds the two working copies and the
  two result dicts. The locale \<open>inference_pass\<close> is what the convergence controller needs from a
  pass; \<open>bridge_pass\<close> interprets it on the adapter.
\<close>

type_synonym rule_fn = "fields \<Rightarrow> derivation_edge \<Rightarrow> pyerr + pyval \<times> f64"
type_synonym confs = "(string, f64) dict"

datatype inference_status =
    DERIVED | INPUTS_MISSING | BELOW_THRESHOLD | NO_RULE | ALREADY_SET | CYCLE

fun status_value :: "inference_status \<Rightarrow> string" where
  "status_value DERIVED = ''derived''"
| "status_value INPUTS_MISSING = ''inputs_missing''"
| "status_value BELOW_THRESHOLD = ''below_threshold''"
| "status_value NO_RULE = ''no_rule''"
| "status_value ALREADY_SET = ''already_set''"
| "status_value CYCLE = ''cycle''"

record field_inference =
  fi_field :: string
  fi_status :: inference_status
  fi_value :: pyval
  fi_confidence :: f64
  inputs_used :: fields
  inputs_confidence :: confs
  missing_inputs :: "string list"
  rule_used :: "string option"

definition new_inference :: "string \<Rightarrow> inference_status \<Rightarrow> field_inference" where
  "new_inference t st = \<lparr>fi_field = t, fi_status = st, fi_value = PNone, fi_confidence = 0,
     inputs_used = [], inputs_confidence = [], missing_inputs = [], rule_used = None\<rparr>"

record inference_result =
  ir_derived :: "(string, field_inference) dict"
  ir_blocked :: "(string, field_inference) dict"
  ir_unlock :: confs
  ir_stats :: "(string, int) dict"

section \<open>One derivation\<close>

record input_check =
  chk_missing :: "string list"
  chk_below :: "string list"
  chk_values :: fields
  chk_confs :: confs

definition check_input :: "derivation_edge \<Rightarrow> fields \<Rightarrow> confs \<Rightarrow> string \<Rightarrow> input_check \<Rightarrow> input_check" where
  "check_input e ent cm inp c =
     (let val = dget_or ent inp PNone; conf = dget_or cm inp 0 in
      if val = PNone then c\<lparr>chk_missing := chk_missing c @ [inp]\<rparr>
      else if conf < confidence_floor e then c\<lparr>chk_below := chk_below c @ [inp]\<rparr>
      else c\<lparr>chk_values := dset inp val (chk_values c), chk_confs := dset inp conf (chk_confs c)\<rparr>)"

definition check_edge_inputs :: "derivation_edge \<Rightarrow> fields \<Rightarrow> confs \<Rightarrow> input_check" where
  "check_edge_inputs e ent cm =
     fold (check_input e ent cm) (inputs e)
       \<lparr>chk_missing = [], chk_below = [], chk_values = [], chk_confs = []\<rparr>"

text \<open>The builtin \<open>min\<close> of a non-empty dict's values, 0.0 for an empty one.\<close>

definition min_conf :: "confs \<Rightarrow> f64" where
  "min_conf cm = (case dvalues cm of [] \<Rightarrow> 0 | x # xs \<Rightarrow> fold min xs x)"

definition default_rule :: rule_fn where
  "default_rule vals e = Inr (PDict vals, 0)"

definition execute_inference_rule ::
    "string option \<Rightarrow> rule_fn option \<Rightarrow> fields \<Rightarrow> confs \<Rightarrow> derivation_edge \<Rightarrow> string \<Rightarrow> field_inference" where
  "execute_inference_rule name rfn vals cm e t =
     (case (case rfn of Some fn \<Rightarrow> fn | None \<Rightarrow> default_rule) vals e of
        Inl _ \<Rightarrow> (new_inference t NO_RULE)\<lparr>inputs_used := vals, rule_used := name\<rparr>
      | Inr (value, rc) \<Rightarrow>
          (let conf = (case rfn of Some _ \<Rightarrow> min (min_conf cm) rc | None \<Rightarrow> 0);
               v = (case rfn of Some _ \<Rightarrow> value | None \<Rightarrow> PNone)
           in \<lparr>fi_field = t, fi_status = (if v \<noteq> PNone then DERIVED else NO_RULE), fi_value = v,
               fi_confidence = conf, inputs_used = vals, inputs_confidence = cm, missing_inputs = [],
               rule_used = Some (case name of None \<Rightarrow> ''_default'' | Some n \<Rightarrow> if n = [] then ''_default'' else n)\<rparr>))"

definition resolve_rule_fn ::
    "(string \<Rightarrow> rule_fn option) \<Rightarrow> string option \<Rightarrow> string \<Rightarrow> fields \<Rightarrow> confs \<Rightarrow>
     field_inference + rule_fn option" where
  "resolve_rule_fn reg name t vals cm =
     (case name of None \<Rightarrow> Inr None
      | Some n \<Rightarrow>
          (case (if n = [] then None else reg n) of
             None \<Rightarrow> Inl ((new_inference t NO_RULE)\<lparr>inputs_used := vals, inputs_confidence := cm, rule_used := name\<rparr>)
           | Some fn \<Rightarrow> Inr (Some fn)))"

section \<open>The pass\<close>

record pass_state =
  ps_entity :: fields
  ps_conf :: confs
  ps_derived :: "(string, field_inference) dict"
  ps_blocked :: "(string, field_inference) dict"

definition block :: "string \<Rightarrow> field_inference \<Rightarrow> pass_state \<Rightarrow> pass_state" where
  "block t r s = s\<lparr>ps_blocked := dset t r (ps_blocked s)\<rparr>"

definition infer_field ::
    "(string \<Rightarrow> rule_fn option) \<Rightarrow> derivation_graph \<Rightarrow> f64 \<Rightarrow> string \<Rightarrow> pass_state \<Rightarrow> pass_state" where
  "infer_field reg g thr t s =
     (case dget (edge_map g) t of None \<Rightarrow> s
      | Some e \<Rightarrow>
          (let old = dget_or (ps_entity s) t PNone; oldc = dget_or (ps_conf s) t 0 in
           if old \<noteq> PNone \<and> thr \<le> oldc
           then s\<lparr>ps_derived := dset t ((new_inference t ALREADY_SET)\<lparr>fi_value := old, fi_confidence := oldc\<rparr>)
                    (ps_derived s)\<rparr>
           else
             (let c = check_edge_inputs e (ps_entity s) (ps_conf s) in
              if chk_missing c \<noteq> []
              then block t ((new_inference t INPUTS_MISSING)\<lparr>missing_inputs := chk_missing c,
                     inputs_confidence := chk_confs c\<rparr>) s
              else if chk_below c \<noteq> []
              then block t ((new_inference t BELOW_THRESHOLD)\<lparr>missing_inputs := chk_below c,
                     inputs_confidence := chk_confs c\<rparr>) s
              else
                (case resolve_rule_fn reg (inference_rule e) t (chk_values c) (chk_confs c) of
                   Inl r \<Rightarrow> block t r s
                 | Inr fn \<Rightarrow>
                     (let r = execute_inference_rule (inference_rule e) fn (chk_values c) (chk_confs c) e t in
                      if fi_value r \<noteq> PNone \<and> 0 < fi_confidence r
                      then s\<lparr>ps_entity := dset t (fi_value r) (ps_entity s),
                             ps_conf := dset t (fi_confidence r) (ps_conf s),
                             ps_derived := dset t r (ps_derived s)\<rparr>
                      else block t r s)))))"

definition run_fields ::
    "(string \<Rightarrow> rule_fn option) \<Rightarrow> derivation_graph \<Rightarrow> f64 \<Rightarrow> string list \<Rightarrow> pass_state \<Rightarrow> pass_state" where
  "run_fields reg g thr ts s = fold (infer_field reg g thr) ts s"

definition start_pass :: "fields \<Rightarrow> confs \<Rightarrow> pass_state" where
  "start_pass ent cm = \<lparr>ps_entity = ent, ps_conf = cm, ps_derived = [], ps_blocked = []\<rparr>"

section \<open>Unlock analysis and prioritisation\<close>

definition blockers :: "derivation_edge \<Rightarrow> fields \<Rightarrow> confs \<Rightarrow> string list" where
  "blockers e ent cm =
     filter (\<lambda>inp. dget_or ent inp PNone = PNone \<or> dget_or cm inp 0 < confidence_floor e) (inputs e)"

definition credit :: "f64 \<Rightarrow> string \<Rightarrow> confs \<Rightarrow> confs" where
  "credit x f m = dset f (dget_or m f 0 + x) m"

definition unlock_edge :: "fields \<Rightarrow> confs \<Rightarrow> derivation_edge \<Rightarrow> confs \<Rightarrow> confs" where
  "unlock_edge ent cm e m =
     (case blockers e ent cm of
        [b] \<Rightarrow> credit 1 b m
      | [b, b'] \<Rightarrow> credit (flt (1 / 2)) b' (credit (flt (1 / 2)) b m)
      | _ \<Rightarrow> m)"

definition compute_unlock_values :: "derivation_graph \<Rightarrow> fields \<Rightarrow> confs \<Rightarrow> confs" where
  "compute_unlock_values g ent cm = fold (unlock_edge ent cm) (dg_edges g) []"

definition prioritize_search_targets :: "string list \<Rightarrow> confs \<Rightarrow> string list" where
  "prioritize_search_targets missing um = sort_desc (\<lambda>f. dget_or um f 0) missing"

definition count_status :: "field_inference \<Rightarrow> (string, int) dict \<Rightarrow> (string, int) dict" where
  "count_status r m = (let k = status_value (fi_status r) in dset k (dget_or m k 0 + 1) m)"

definition run_inference ::
    "(string \<Rightarrow> rule_fn option) \<Rightarrow> derivation_graph \<Rightarrow> fields \<Rightarrow> confs \<Rightarrow> f64 \<Rightarrow> inference_result" where
  "run_inference reg g ent cm thr =
     (let s = run_fields reg g thr (topo_order g) (start_pass ent cm) in
      \<lparr>ir_derived = ps_derived s, ir_blocked = ps_blocked s,
       ir_unlock = compute_unlock_values g (ps_entity s) (ps_conf s),
       ir_stats = fold count_status (dvalues (ps_derived s) @ dvalues (ps_blocked s)) []\<rparr>)"

section \<open>The adapter\<close>

datatype trace_entry =
    TFired string "string list" f64
  | TSkipped string string string "string list"

record bridge_result =
  derived_fields :: fields
  confidence_map :: confs
  rules_fired :: int
  rules_skipped :: int
  rule_trace :: "trace_entry list"
  unlock_map :: confs
  blocked_fields :: "(string, string) dict"

definition empty_bridge_result :: bridge_result where
  "empty_bridge_result = \<lparr>derived_fields = [], confidence_map = [], rules_fired = 0, rules_skipped = 0,
     rule_trace = [], unlock_map = [], blocked_fields = []\<rparr>"

definition or_name :: "string option \<Rightarrow> string \<Rightarrow> string" where
  "or_name n dflt = (case n of None \<Rightarrow> dflt | Some s \<Rightarrow> if s = [] then dflt else s)"

definition adapt_derived :: "string \<times> field_inference \<Rightarrow> bridge_result \<Rightarrow> bridge_result" where
  "adapt_derived p b =
     (let name = fst p; r = snd p;
          b' = b\<lparr>derived_fields := dset name (fi_value r) (derived_fields b),
                 confidence_map := dset name (fi_confidence r) (confidence_map b)\<rparr>
      in if fi_status r = DERIVED
         then b'\<lparr>rule_trace := rule_trace b @ [TFired (or_name (rule_used r) ''derived'') [name] (fi_confidence r)]\<rparr>
         else if fi_status r = ALREADY_SET then b' else b)"

definition adapt_blocked :: "string \<times> field_inference \<Rightarrow> bridge_result \<Rightarrow> bridge_result" where
  "adapt_blocked p b =
     (let name = fst p; r = snd p; st = status_value (fi_status r)
      in b\<lparr>blocked_fields := dset name st (blocked_fields b),
           rule_trace := rule_trace b @ [TSkipped (or_name (rule_used r) ''blocked'') st name (missing_inputs r)]\<rparr>)"

definition bridge_run ::
    "(string \<Rightarrow> rule_fn option) \<Rightarrow> derivation_graph option \<Rightarrow> fields \<Rightarrow> confs \<Rightarrow> bridge_result" where
  "bridge_run reg graph ent cm =
     (case graph of None \<Rightarrow> empty_bridge_result
      | Some g \<Rightarrow>
          (let v2 = run_inference reg g ent cm (flt (7 / 10));
               b = fold adapt_blocked (ir_blocked v2) (fold adapt_derived (ir_derived v2) empty_bridge_result)
           in b\<lparr>rules_fired := dget_or (ir_stats v2) ''derived'' 0,
                rules_skipped := (\<Sum>(k, v) \<leftarrow> filter (\<lambda>(k, v). k \<noteq> ''derived'') (ir_stats v2). v),
                unlock_map := ir_unlock v2\<rparr>))"

section \<open>What one derivation guarantees\<close>

definition input_ok :: "derivation_edge \<Rightarrow> fields \<Rightarrow> confs \<Rightarrow> string \<Rightarrow> bool" where
  "input_ok e ent cm inp \<longleftrightarrow> dget_or ent inp PNone \<noteq> PNone \<and> confidence_floor e \<le> dget_or cm inp 0"

lemma check_missing_fold:
  "chk_missing (fold (check_input e ent cm) ins c) = chk_missing c @ filter (\<lambda>i. dget_or ent i PNone = PNone) ins"
  by (induction ins arbitrary: c) (simp_all add: check_input_def Let_def)

lemma check_below_fold:
  "chk_below (fold (check_input e ent cm) ins c) =
     chk_below c @ filter (\<lambda>i. dget_or ent i PNone \<noteq> PNone \<and> dget_or cm i 0 < confidence_floor e) ins"
  by (induction ins arbitrary: c) (simp_all add: check_input_def Let_def)

lemma check_values_fold:
  "dget (chk_values (fold (check_input e ent cm) ins c)) k =
     (if k \<in> set ins \<and> input_ok e ent cm k then Some (dget_or ent k PNone) else dget (chk_values c) k)"
  by (induction ins arbitrary: c) (auto simp: check_input_def input_ok_def Let_def dget_dset not_less)

lemma check_confs_fold:
  "dget (chk_confs (fold (check_input e ent cm) ins c)) k =
     (if k \<in> set ins \<and> input_ok e ent cm k then Some (dget_or cm k 0) else dget (chk_confs c) k)"
  by (induction ins arbitrary: c) (auto simp: check_input_def input_ok_def Let_def dget_dset not_less)

lemma check_edge_inputs_ok:
  assumes "chk_missing (check_edge_inputs e ent cm) = []" and "chk_below (check_edge_inputs e ent cm) = []"
  shows "\<forall>i \<in> set (inputs e). input_ok e ent cm i"
    and "dget (chk_values (check_edge_inputs e ent cm)) = (\<lambda>k. if k \<in> set (inputs e) then Some (dget_or ent k PNone) else None)"
    and "dget (chk_confs (check_edge_inputs e ent cm)) = (\<lambda>k. if k \<in> set (inputs e) then Some (dget_or cm k 0) else None)"
proof -
  show ok: "\<forall>i \<in> set (inputs e). input_ok e ent cm i"
    using assms by (auto simp: check_edge_inputs_def check_missing_fold check_below_fold filter_empty_conv input_ok_def not_less)
  show "dget (chk_values (check_edge_inputs e ent cm)) = (\<lambda>k. if k \<in> set (inputs e) then Some (dget_or ent k PNone) else None)"
    and "dget (chk_confs (check_edge_inputs e ent cm)) = (\<lambda>k. if k \<in> set (inputs e) then Some (dget_or cm k 0) else None)"
    using ok by (auto simp: check_edge_inputs_def check_values_fold check_confs_fold)
qed

lemma fold_min_le: "fold min xs x \<le> x \<and> (\<forall>y \<in> set xs. fold min xs x \<le> (y :: f64))"
proof (induction xs arbitrary: x)
  case (Cons a xs)
  from Cons.IH [of "min a x"] show ?case by (auto simp: min.bounded_iff)
qed simp

lemma min_conf_le: "dget cm k = Some c \<Longrightarrow> min_conf cm \<le> c"
proof -
  assume "dget cm k = Some c"
  then have "c \<in> set (dvalues cm)" by (force dest: map_of_SomeD)
  then show ?thesis using fold_min_le by (fastforce simp: min_conf_def split: list.splits)
qed

text \<open>The contract of a derived entry, relative to the registry and the edge of its target.\<close>

definition derivation_ok ::
    "(string \<Rightarrow> rule_fn option) \<Rightarrow> derivation_edge \<Rightarrow> field_inference \<Rightarrow> bool" where
  "derivation_ok reg e r \<longleftrightarrow>
     (\<exists>n fn rc. inference_rule e = Some n \<and> reg n = Some fn \<and> fn (inputs_used r) e = Inr (fi_value r, rc)) \<and>
     dom (dget (inputs_used r)) = set (inputs e) \<and> fi_value r \<noteq> PNone \<and> 0 < fi_confidence r \<and>
     (\<forall>i \<in> set (inputs e). \<exists>c. dget (inputs_confidence r) i = Some c \<and> confidence_floor e \<le> c \<and> fi_confidence r \<le> c)"

lemma execute_derivation_ok:
  assumes "chk_missing (check_edge_inputs e ent cm) = []" and "chk_below (check_edge_inputs e ent cm) = []"
    and fn: "resolve_rule_fn reg (inference_rule e) t vals cs = Inr fn"
    and r: "r = execute_inference_rule (inference_rule e) fn vals cs e t"
    and c: "vals = chk_values (check_edge_inputs e ent cm)" "cs = chk_confs (check_edge_inputs e ent cm)"
    and "fi_value r \<noteq> PNone" "0 < fi_confidence r"
  shows "derivation_ok reg e r \<and> fi_status r = DERIVED"
proof (cases fn)
  case None
  with r assms(7) show ?thesis
    by (auto simp: execute_inference_rule_def default_rule_def Let_def new_inference_def split: sum.splits)
next
  case (Some f)
  from fn Some obtain n where n: "inference_rule e = Some n" "reg n = Some f"
    by (auto simp: resolve_rule_fn_def split: option.splits if_splits)
  from r assms(7) Some obtain rc where f: "f vals e = Inr (fi_value r, rc)"
    and fc: "fi_confidence r = min (min_conf cs) rc" and st: "fi_status r = DERIVED"
    and u: "inputs_used r = vals" "inputs_confidence r = cs"
    by (auto simp: execute_inference_rule_def Let_def new_inference_def split: sum.splits)
  note ok = check_edge_inputs_ok [OF assms(1,2)]
  have "\<exists>c. dget cs i = Some c \<and> confidence_floor e \<le> c \<and> fi_confidence r \<le> c" if "i \<in> set (inputs e)" for i
    using that ok c min_conf_le [of cs i] by (auto simp: fc input_ok_def min_le_iff_disj)
  then show ?thesis
    using n f st u ok(2) c assms(7,8) by (auto simp: derivation_ok_def dom_def split: if_splits)
qed

section \<open>What a pass guarantees\<close>

text \<open>The four things that can happen to a target.\<close>

text \<open>The values and confidences a rule was given are those the pass held for its inputs.\<close>

definition used_at :: "derivation_edge \<Rightarrow> fields \<Rightarrow> confs \<Rightarrow> field_inference \<Rightarrow> bool" where
  "used_at e ent cm r \<longleftrightarrow> (\<forall>i \<in> set (inputs e). \<exists>v. dget ent i = Some v \<and> v \<noteq> PNone \<and> dget (inputs_used r) i = Some v \<and>
     dget (inputs_confidence r) i = Some (dget_or cm i 0))"

lemma execute_used_at:
  assumes "chk_missing (check_edge_inputs e ent cm) = []" and "chk_below (check_edge_inputs e ent cm) = []"
    and "resolve_rule_fn reg (inference_rule e) t vals cs = Inr fn"
    and r: "r = execute_inference_rule (inference_rule e) fn vals cs e t"
    and c: "vals = chk_values (check_edge_inputs e ent cm)" "cs = chk_confs (check_edge_inputs e ent cm)"
    and v: "fi_value r \<noteq> PNone"
  shows "used_at e ent cm r"
proof -
  have "inputs_used r = vals" "inputs_confidence r = cs"
    using r v by (auto simp: execute_inference_rule_def Let_def new_inference_def split: sum.splits)
  with check_edge_inputs_ok [OF assms(1,2)] c show ?thesis
    by (auto simp: used_at_def input_ok_def dget_or_def split: option.splits)
qed

lemma infer_field_cases [consumes 0, case_names no_edge already blocked derived]:
  obtains (no_edge) "dget (edge_map g) t = None" "infer_field reg g thr t s = s"
  | (already) e old oldc where "dget (edge_map g) t = Some e" "dget (ps_entity s) t = Some old" "old \<noteq> PNone"
      "infer_field reg g thr t s = s\<lparr>ps_derived := dset t ((new_inference t ALREADY_SET)
         \<lparr>fi_value := old, fi_confidence := oldc\<rparr>) (ps_derived s)\<rparr>"
  | (blocked) e r where "dget (edge_map g) t = Some e" "infer_field reg g thr t s = block t r s"
  | (derived) e r where "dget (edge_map g) t = Some e" "derivation_ok reg e r" "fi_status r = DERIVED"
      "used_at e (ps_entity s) (ps_conf s) r" "infer_field reg g thr t s = s\<lparr>ps_entity := dset t (fi_value r) (ps_entity s),
         ps_conf := dset t (fi_confidence r) (ps_conf s), ps_derived := dset t r (ps_derived s)\<rparr>"
proof (cases "dget (edge_map g) t")
  case None
  then show thesis by (intro no_edge) (simp_all add: infer_field_def)
next
  case (Some e)
  let ?old = "dget_or (ps_entity s) t PNone" and ?oldc = "dget_or (ps_conf s) t 0"
  let ?c = "check_edge_inputs e (ps_entity s) (ps_conf s)"
  show thesis
  proof (cases "?old \<noteq> PNone \<and> thr \<le> ?oldc")
    case True
    then have "dget (ps_entity s) t = Some ?old" by (auto simp: dget_or_def split: option.splits)
    with True Some show thesis by (intro already [of e ?old ?oldc]) (simp_all add: infer_field_def)
  next
    case not_set: False
    show thesis
    proof (cases "chk_missing ?c = [] \<and> chk_below ?c = []")
      case False
      have "\<exists>r. infer_field reg g thr t s = block t r s"
        using False Some not_set by (auto simp: infer_field_def Let_def)
      with Some show thesis using blocked by blast
    next
      case ready: True
      show thesis
      proof (cases "resolve_rule_fn reg (inference_rule e) t (chk_values ?c) (chk_confs ?c)")
        case (Inl r)
        with ready Some not_set have "infer_field reg g thr t s = block t r s"
          by (auto simp: infer_field_def Let_def)
        with Some show thesis by (rule blocked)
      next
        case (Inr fn)
        define r where "r = execute_inference_rule (inference_rule e) fn (chk_values ?c) (chk_confs ?c) e t"
        show thesis
        proof (cases "fi_value r \<noteq> PNone \<and> 0 < fi_confidence r")
          case True
          with execute_derivation_ok [OF _ _ Inr r_def refl refl] ready
          have "derivation_ok reg e r" "fi_status r = DERIVED" by blast+
          moreover have "used_at e (ps_entity s) (ps_conf s) r" using execute_used_at [OF _ _ Inr r_def refl refl] ready True by blast
          ultimately show thesis using True ready Inr Some not_set
            by (intro derived [of e r]) (auto simp: infer_field_def Let_def r_def)
        next
          case False
          with ready Inr Some not_set have "infer_field reg g thr t s = block t r s"
            by (auto simp: infer_field_def Let_def r_def)
          with Some show thesis by (rule blocked)
        qed
      qed
    qed
  qed
qed

definition pass_inv ::
    "(string \<Rightarrow> rule_fn option) \<Rightarrow> derivation_graph \<Rightarrow> pass_state \<Rightarrow> bool" where
  "pass_inv reg g s \<longleftrightarrow>
     (\<forall>t r. dget (ps_derived s) t = Some r \<longrightarrow> fi_value r \<noteq> PNone \<and>
        (fi_status r = ALREADY_SET \<or>
         fi_status r = DERIVED \<and> (\<exists>e. dget (edge_map g) t = Some e \<and> derivation_ok reg e r))) \<and>
     dict_ok (ps_derived s)"

lemma pass_inv_step: "pass_inv reg g s \<Longrightarrow> pass_inv reg g (infer_field reg g thr t s)"
proof (cases rule: infer_field_cases [of g t reg thr s])
  case (derived e r)
  assume "pass_inv reg g s"
  moreover from derived have "fi_value r \<noteq> PNone" by (simp add: derivation_ok_def)
  ultimately show ?thesis using derived by (auto simp: pass_inv_def dget_dset distinct_update)
qed (auto simp: pass_inv_def block_def new_inference_def dget_dset distinct_update)

lemma run_fields_inv: "pass_inv reg g s \<Longrightarrow> pass_inv reg g (run_fields reg g thr ts s)"
  unfolding run_fields_def by (induction ts arbitrary: s) (simp_all add: pass_inv_step)

lemma run_inference_inv: "pass_inv reg g (run_fields reg g thr ts (start_pass ent cm))"
  by (rule run_fields_inv) (simp add: pass_inv_def start_pass_def)

text \<open>Every target with an edge gets exactly one verdict.\<close>

lemma run_fields_verdicts:
  assumes "distinct ts"
    and "(set (dkeys (ps_derived s)) \<union> set (dkeys (ps_blocked s))) \<inter> set ts = {}"
    and "set (dkeys (ps_derived s)) \<inter> set (dkeys (ps_blocked s)) = {}"
  shows "set (dkeys (ps_derived (run_fields reg g thr ts s))) \<union> set (dkeys (ps_blocked (run_fields reg g thr ts s))) =
      set (dkeys (ps_derived s)) \<union> set (dkeys (ps_blocked s)) \<union> {t \<in> set ts. dget (edge_map g) t \<noteq> None} \<and>
    set (dkeys (ps_derived (run_fields reg g thr ts s))) \<inter> set (dkeys (ps_blocked (run_fields reg g thr ts s))) = {}"
  using assms
proof (induction ts arbitrary: s)
  case (Cons t ts)
  let ?s = "infer_field reg g thr t s"
  have run: "run_fields reg g thr (t # ts) s = run_fields reg g thr ts ?s" by (simp add: run_fields_def)
  have step: "set (dkeys (ps_derived ?s)) \<union> set (dkeys (ps_blocked ?s)) =
      set (dkeys (ps_derived s)) \<union> set (dkeys (ps_blocked s)) \<union> (if dget (edge_map g) t = None then {} else {t})"
    "set (dkeys (ps_derived ?s)) \<inter> set (dkeys (ps_blocked ?s)) = {}"
    using Cons.prems(2,3)
    by (cases rule: infer_field_cases [of g t reg thr s], auto simp: block_def keys_dset simp del: set_map)+
  from Cons.IH [of ?s] Cons.prems step show ?case
    unfolding run by (auto simp del: set_map split: if_splits)
qed (auto simp: run_fields_def)

text \<open>
  Where an input of a derivation comes from: the entity and its confidence as the pass was given them (none counts
  as 0), or another derivation of the same pass.
\<close>

definition input_source :: "fields \<Rightarrow> confs \<Rightarrow> (string, field_inference) dict \<Rightarrow> string \<Rightarrow> pyval \<Rightarrow> f64 \<Rightarrow> bool" where
  "input_source ent cm found i v c \<longleftrightarrow> dget ent i = Some v \<and> dget_or cm i 0 = c \<or>
     (\<exists>q. dget found i = Some q \<and> fi_status q = DERIVED \<and> fi_value q = v \<and> fi_confidence q = c)"

definition sourced :: "fields \<Rightarrow> confs \<Rightarrow> (string, field_inference) dict \<Rightarrow> derivation_edge \<Rightarrow> field_inference \<Rightarrow> bool" where
  "sourced ent cm found e r \<longleftrightarrow> (\<forall>i \<in> set (inputs e). \<exists>v c. dget (inputs_used r) i = Some v \<and>
     dget (inputs_confidence r) i = Some c \<and> v \<noteq> PNone \<and> input_source ent cm found i v c)"

definition source_inv :: "fields \<Rightarrow> confs \<Rightarrow> derivation_graph \<Rightarrow> pass_state \<Rightarrow> bool" where
  "source_inv ent cm g s \<longleftrightarrow>
     (\<forall>i. dget (ps_entity s) i = dget ent i \<and> dget (ps_conf s) i = dget cm i \<or>
        (\<exists>q. dget (ps_derived s) i = Some q \<and> fi_status q = DERIVED \<and> dget (ps_entity s) i = Some (fi_value q) \<and>
           dget (ps_conf s) i = Some (fi_confidence q))) \<and>
     (\<forall>t r e. dget (ps_derived s) t = Some r \<longrightarrow> fi_status r = DERIVED \<longrightarrow> dget (edge_map g) t = Some e \<longrightarrow>
        sourced ent cm (ps_derived s) e r)"

lemma input_source_more:
  "input_source ent cm found i v c \<Longrightarrow> dget found t = None \<Longrightarrow> input_source ent cm (dset t r found) i v c"
  by (auto simp: input_source_def dget_dset)

lemma sourced_more: "sourced ent cm found e r \<Longrightarrow> dget found t = None \<Longrightarrow> sourced ent cm (dset t r' found) e r"
  unfolding sourced_def by (blast intro: input_source_more)

lemma used_sourced:
  assumes "source_inv ent cm g s" and "used_at e (ps_entity s) (ps_conf s) r"
  shows "sourced ent cm (ps_derived s) e r"
  unfolding sourced_def
proof
  fix i assume "i \<in> set (inputs e)"
  with assms(2) obtain v where v: "dget (ps_entity s) i = Some v" "v \<noteq> PNone" "dget (inputs_used r) i = Some v"
    "dget (inputs_confidence r) i = Some (dget_or (ps_conf s) i 0)" unfolding used_at_def by blast
  have "input_source ent cm (ps_derived s) i v (dget_or (ps_conf s) i 0)"
    using assms(1) v(1) unfolding source_inv_def input_source_def dget_or_def by (metis option.inject option.simps(5))
  with v show "\<exists>v c. dget (inputs_used r) i = Some v \<and> dget (inputs_confidence r) i = Some c \<and> v \<noteq> PNone \<and>
      input_source ent cm (ps_derived s) i v c" by blast
qed

lemma source_inv_step:
  assumes "source_inv ent cm g s" and new: "dget (ps_derived s) t = None"
  shows "source_inv ent cm g (infer_field reg g thr t s)"
proof (cases rule: infer_field_cases [of g t reg thr s])
  case (already e old oldc)
  from assms(1) new have "dget (ps_entity s) t = dget ent t \<and> dget (ps_conf s) t = dget cm t" unfolding source_inv_def by (metis option.distinct(1))
  with assms already sourced_more [OF _ new] show ?thesis
    by (auto simp: source_inv_def dget_dset new_inference_def)
next
  case (derived e r)
  note now = sourced_more [OF used_sourced [OF assms(1) derived(4)] new]
  from assms derived now sourced_more [OF _ new] show ?thesis by (auto simp: source_inv_def dget_dset)
qed (use assms in \<open>auto simp: source_inv_def block_def\<close>)

lemma derived_keys_step: "i \<noteq> t \<Longrightarrow> dget (ps_derived (infer_field reg g thr t s)) i = dget (ps_derived s) i"
  by (cases rule: infer_field_cases [of g t reg thr s]) (auto simp: block_def dget_dset)

lemma run_fields_source:
  "source_inv ent cm g s \<Longrightarrow> distinct ts \<Longrightarrow> \<forall>t \<in> set ts. dget (ps_derived s) t = None \<Longrightarrow> source_inv ent cm g (run_fields reg g thr ts s)"
  unfolding run_fields_def
proof (induction ts arbitrary: s)
  case (Cons t ts)
  have "source_inv ent cm g (infer_field reg g thr t s)" using Cons.prems by (intro source_inv_step) simp_all
  moreover have "dget (ps_derived (infer_field reg g thr t s)) u = None" if "u \<in> set ts" for u
  proof -
    have "u \<noteq> t" using that Cons.prems(2) by auto
    then show ?thesis using Cons.prems(3) that by (simp add: derived_keys_step)
  qed
  ultimately have "source_inv ent cm g (fold (infer_field reg g thr) ts (infer_field reg g thr t s))"
    using Cons.prems(2) by (intro Cons.IH) simp_all
  then show ?case by simp
qed simp

section \<open>Properties\<close>

text \<open>
  C16: the invariants the module states in capitals. Whatever the entity, the confidences and the registered rules, over a
  graph that lists each target once: a field that a pass reports as derived has its rule
  registered, the rule was applied to exactly the declared inputs of the field's edge (no other
  field of the entity can influence it), and every input was present: its value, not None, and its
  confidence are those the entity was given with, or those derived for it in the same pass. That
  confidence is at or above the edge's floor, and the confidence given to the result is positive and does not exceed that
  of any input.
\<close>

theorem derived_field_justified:
  assumes "dget (ir_derived (run_inference reg g ent cm thr)) t = Some r" and "fi_status r = DERIVED"
    and "distinct (topo_order g)"
  shows "\<exists>e. dget (edge_map g) t = Some e \<and> derivation_ok reg e r \<and> sourced ent cm (ir_derived (run_inference reg g ent cm thr)) e r"
proof -
  let ?s = "run_fields reg g thr (topo_order g) (start_pass ent cm)"
  have d: "dget (ps_derived ?s) t = Some r" using assms(1) by (simp add: run_inference_def Let_def)
  with run_inference_inv [of reg g thr "topo_order g" ent cm] assms(2)
  obtain e where e: "dget (edge_map g) t = Some e" "derivation_ok reg e r"
    unfolding pass_inv_def by fastforce
  have "source_inv ent cm g ?s"
    by (rule run_fields_source [OF _ assms(3)]) (simp_all add: source_inv_def start_pass_def)
  with d e assms(2) show ?thesis by (auto simp: source_inv_def run_inference_def Let_def)
qed

definition sample_graph :: "derivation_edge list \<Rightarrow> derivation_graph" where
  "sample_graph es = \<lparr>dg_domain = PNone, dg_edges = es, topo_order = topo_sort (\<lambda>xs. xs) es,
     children_of = build_children es, edge_map = map (\<lambda>e. (target e, e)) es\<rparr>"

definition sample_rule :: rule_fn where
  "sample_rule vals e = Inr (PStr ''B'', 1)"

lemmas run_eval = run_inference_def run_fields_def infer_field_def start_pass_def sample_graph_def
  check_edge_inputs_def check_input_def resolve_rule_fn_def execute_inference_rule_def
  new_inference_def sample_rule_def min_conf_def block_def dget_or_def Let_def

lemma topo_sort_single: "t \<noteq> i \<Longrightarrow> topo_sort (\<lambda>xs. xs) [sample_edge t [i]] = [t]"
  by (simp add: topo_sort_def build_degrees_def count_edge_def count_input_def Let_def)

theorem derived_field_justified_witness:
  "\<exists>r e found. derivation_ok (\<lambda>n. Some sample_rule) e r \<and> sourced [(''a'', PInt 3)] [(''a'', flt (9 / 10))] found e r \<and> fi_value r = PStr ''B'' \<and> fi_confidence r = flt (9 / 10)"
proof -
  let ?g = "sample_graph [sample_edge ''b'' [''a'']]"
  let ?reg = "\<lambda>n. Some sample_rule"
  let ?run = "run_inference ?reg ?g [(''a'', PInt 3)] [(''a'', flt (9 / 10))] (flt (7 / 10))"
  have lt: "\<not> flt (9 / 10) < flt (6 / 10)" "flt (9 / 10) \<le> 1" "0 < flt (9 / 10)" by (simp_all add: f64_eval)
  obtain r where "dget (ir_derived ?run) ''b'' = Some r" "fi_status r = DERIVED"
      "fi_value r = PStr ''B''" "fi_confidence r = flt (9 / 10)"
    using lt by (simp add: run_eval topo_sort_single min_def)
  with derived_field_justified [of ?reg ?g "[(''a'', PInt 3)]" "[(''a'', flt (9 / 10))]" "flt (7 / 10)" "''b''" r]
  show ?thesis by (auto simp: sample_graph_def topo_sort_single)
qed

lemma build_graph_targets:
  assumes "build_derivation_graph ord spec = Inr g" and "set_order ord"
  shows "distinct (topo_order g)" and "set (dkeys (edge_map g)) = set (topo_order g)"
proof -
  from assms(1) obtain es where g: "topo_order g = topo_sort ord es"
      "edge_map g = fold (\<lambda>e. dset (target e) e) es []"
    by (auto simp: build_derivation_graph_def bind_res_Inr_iff Let_def)
  obtain out rest where t: "topo_sort ord es = out @ rest" "distinct (out @ rest)"
      "set (out @ rest) = target ` set es"
    using topo_sort_parts [OF assms(2)] by metis
  have "set (dkeys (fold (\<lambda>e. dset (target e) e) es d)) = set (dkeys d) \<union> target ` set es"
    for d :: "(string, derivation_edge) dict"
    by (induction es arbitrary: d) (auto simp: keys_dset simp del: set_map)
  from this [of "[]"] show "distinct (topo_order g)" and "set (dkeys (edge_map g)) = set (topo_order g)"
    using t by (simp_all add: g del: set_append)
qed

text \<open>
  For any domain YAML the graph builder accepts, a pass gives every derivation target exactly
  one verdict, derived (or already set) or blocked: no target is dropped and none is both.
\<close>

theorem verdicts_partition:
  assumes "build_derivation_graph ord spec = Inr g" and "set_order ord"
  shows "set (dkeys (ir_derived (run_inference reg g ent cm thr))) \<union>
      set (dkeys (ir_blocked (run_inference reg g ent cm thr))) = set (dkeys (edge_map g)) \<and>
    set (dkeys (ir_derived (run_inference reg g ent cm thr))) \<inter>
      set (dkeys (ir_blocked (run_inference reg g ent cm thr))) = {}"
proof -
  note b = build_graph_targets [OF assms]
  have "dget (edge_map g) t \<noteq> None" if "t \<in> set (topo_order g)" for t
    using that b(2) by (metis alist.keys_get domIff)
  then have "{t \<in> set (topo_order g). dget (edge_map g) t \<noteq> None} = set (topo_order g)" by blast
  then show ?thesis
    using run_fields_verdicts [OF b(1), of "start_pass ent cm" reg g thr] b(2)
    by (simp add: run_inference_def Let_def start_pass_def)
qed

definition sample_spec :: fields where
  "sample_spec = [(''domain'', PStr ''d''), (''nodes'', PDict [(''Facility'', PDict
     [(''properties'', PDict [(''b'', PDict [(''derived_from'', PList [PStr ''a''])])])])])]"

theorem verdicts_partition_witness:
  "\<exists>g. build_derivation_graph (\<lambda>xs. xs) sample_spec = Inr g \<and> set (dkeys (edge_map g)) = {''b''} \<and>
     set (dkeys (ir_derived (run_inference (\<lambda>_. None) g [] [] 1))) \<union>
     set (dkeys (ir_blocked (run_inference (\<lambda>_. None) g [] [] 1))) = {''b''}"
proof -
  obtain g where g: "build_derivation_graph (\<lambda>xs. xs) sample_spec = Inr g"
      "set (dkeys (edge_map g)) = {''b''}"
    by (simp add: build_derivation_graph_def sample_spec_def py_get_def dget_or_def
        collect_edges_from_node_def Let_def)
  moreover have "set_order (\<lambda>xs :: string list. xs)" by (simp add: set_order_def)
  ultimately show ?thesis using verdicts_partition [of "\<lambda>xs. xs" sample_spec g "\<lambda>_. None" "[]" "[]" 1] by auto
qed

text \<open>
  The reordering of search targets by unlock value adds, drops and duplicates nothing, puts
  higher values first, and keeps the given order among equal values.
\<close>

theorem prioritize_permutes:
  "mset (prioritize_search_targets ts um) = mset ts \<and>
   sorted (rev (map (\<lambda>f. dget_or um f 0) (prioritize_search_targets ts um))) \<and>
   filter (\<lambda>f. dget_or um f 0 = v) (prioritize_search_targets ts um) = filter (\<lambda>f. dget_or um f 0 = v) ts"
proof -
  have "filter (\<lambda>f. dget_or um f 0 = v) (sort_desc (\<lambda>f. dget_or um f 0) ts) =
      rev (filter (\<lambda>f. dget_or um f 0 = v) (sort_key (\<lambda>f. dget_or um f 0) (rev ts)))"
    by (simp add: sort_desc_def rev_filter)
  also have "\<dots> = filter (\<lambda>f. dget_or um f 0 = v) ts"
    by (simp add: sort_key_stable rev_filter)
  finally show ?thesis
    by (simp add: prioritize_search_targets_def sort_desc_def rev_map)
qed

text \<open>
  The comment in \<open>_topo_sort\<close> says that the fields of a dependency cycle "won't fire due to
  missing inputs". They can: here \<open>a\<close> and \<open>b\<close> are derived from each other, the entity holds \<open>a\<close>
  below the skip threshold, and \<open>b\<close> is derived.
\<close>

theorem cycle_member_fires:
  "\<exists>r. dget (ir_derived (run_inference (\<lambda>n. Some sample_rule)
        (sample_graph [sample_edge ''a'' [''b''], sample_edge ''b'' [''a'']])
        [(''a'', PInt 3)] [(''a'', flt (65 / 100))] (flt (7 / 10)))) ''b'' = Some r \<and>
     fi_status r = DERIVED \<and> derived_from [sample_edge ''a'' [''b''], sample_edge ''b'' [''a'']] ''a'' ''b'' \<and>
     derived_from [sample_edge ''a'' [''b''], sample_edge ''b'' [''a'']] ''b'' ''a''"
proof -
  have t: "topo_sort (\<lambda>xs. xs) [sample_edge ''a'' [''b''], sample_edge ''b'' [''a'']] = [''a'', ''b'']"
    by (simp add: topo_sort_def build_degrees_def count_edge_def count_input_def Let_def)
  have "\<not> flt (65 / 100) < flt (6 / 10)" "flt (65 / 100) \<le> 1" "0 < flt (65 / 100)"
    "\<not> flt (7 / 10) \<le> flt (65 / 100)" by (simp_all add: f64_eval)
  then show ?thesis
    by (simp add: run_eval t derived_from_def min_def)
qed

section \<open>The interface to the convergence controller\<close>

locale inference_pass =
  fixes run :: "fields \<Rightarrow> confs \<Rightarrow> bridge_result"
  assumes same_keys: "dkeys (derived_fields (run ent cm)) = dkeys (confidence_map (run ent cm))"
    and no_none: "PNone \<notin> set (dvalues (derived_fields (run ent cm)))"
    and keys_ok: "dict_ok (derived_fields (run ent cm))"
begin

lemma derived_has_conf: "dget (derived_fields (run ent cm)) f = Some v \<Longrightarrow> \<exists>c. dget (confidence_map (run ent cm)) f = Some c"
  using alist.keys_get same_keys by (metis domD domI)

lemma derived_not_none: "dget (derived_fields (run ent cm)) f = Some v \<Longrightarrow> v \<noteq> PNone"
  using no_none by (metis in_set_zipE map_of_SomeD zip_map_fst_snd)

end

definition adapter_ok :: "bridge_result \<Rightarrow> bool" where
  "adapter_ok b \<longleftrightarrow> dkeys (derived_fields b) = dkeys (confidence_map b) \<and>
     dict_ok (derived_fields b) \<and> PNone \<notin> set (dvalues (derived_fields b))"

lemma adapt_derived_ok:
  assumes "adapter_ok b" and "fi_value (snd p) \<noteq> PNone"
  shows "adapter_ok (adapt_derived p b)"
proof -
  have "PNone \<notin> set (dvalues (dset (fst p) (fi_value (snd p)) (derived_fields b)))"
    using assms dvalues_dset [of "fst p" "fi_value (snd p)" "derived_fields b"]
    by (auto simp: adapter_ok_def)
  moreover have "dkeys (dset (fst p) (fi_value (snd p)) (derived_fields b)) =
      dkeys (dset (fst p) (fi_confidence (snd p)) (confidence_map b))"
    using assms(1) by (intro dkeys_dset_cong) (simp only: adapter_ok_def)
  ultimately show ?thesis
    using assms(1) distinct_update [of "derived_fields b" "fst p" "fi_value (snd p)"]
    unfolding adapter_ok_def adapt_derived_def Let_def by (auto simp del: set_map)
qed

lemma adapt_derived_fold_ok:
  "adapter_ok b \<Longrightarrow> (\<And>p. p \<in> set rs \<Longrightarrow> fi_value (snd p) \<noteq> PNone) \<Longrightarrow> adapter_ok (fold adapt_derived rs b)"
proof (induction rs arbitrary: b)
  case (Cons p rs)
  then have "adapter_ok (adapt_derived p b)" by (intro adapt_derived_ok) simp_all
  from Cons.IH [OF this] Cons.prems(2) show ?case by simp
qed simp

lemma adapt_blocked_derived [simp]:
  "derived_fields (fold adapt_blocked rs b) = derived_fields b"
  "confidence_map (fold adapt_blocked rs b) = confidence_map b"
  by (induction rs arbitrary: b) (simp_all add: adapt_blocked_def Let_def)

lemma ir_derived_values: "p \<in> set (ir_derived (run_inference reg g ent cm thr)) \<Longrightarrow> fi_value (snd p) \<noteq> PNone"
  using run_inference_inv [of reg g thr "topo_order g" ent cm]
  by (cases p) (auto simp: run_inference_def pass_inv_def Let_def)

interpretation bridge_pass: inference_pass "bridge_run reg graph"
proof
  fix ent cm
  let ?b = "bridge_run reg graph ent cm"
  have "adapter_ok ?b"
  proof (cases graph)
    case None
    then show ?thesis by (simp add: bridge_run_def empty_bridge_result_def adapter_ok_def)
  next
    case (Some g)
    let ?rs = "ir_derived (run_inference reg g ent cm (flt (7 / 10)))"
    have "adapter_ok (fold adapt_derived ?rs empty_bridge_result)"
      by (rule adapt_derived_fold_ok) (auto simp: empty_bridge_result_def adapter_ok_def dest: ir_derived_values)
    then show ?thesis by (auto simp: Some bridge_run_def Let_def adapter_ok_def simp del: set_map)
  qed
  then show "dkeys (derived_fields ?b) = dkeys (confidence_map ?b)"
    and "PNone \<notin> set (dvalues (derived_fields ?b))" and "dict_ok (derived_fields ?b)"
    unfolding adapter_ok_def by blast+
qed

end
