(* ===== verification/RuleLoader.thy ===== *)
theory RuleLoader
  imports PyValue
begin

text \<open>
  \<open>app/engines/inference/rule_loader.py\<close>: rule definitions, the indexed registry, the YAML loader
  with its skip-bad-rules policy, hot reload and the unlock scoring.

  Reading the file (\<open>yaml.safe_load\<close>) and pydantic's \<open>model_validate\<close> are outside the source:
  \<open>load_rules\<close> takes the parsed document (\<open>None\<close> when the file does not exist) and the function
  \<open>validate\<close>. What the code relies on is that a validated rule satisfies the constraints the
  classes declare (\<open>rule_ok\<close>). The locale \<open>rule_source\<close> is what the rule engine needs of a
  registry; \<open>registry_source\<close> interprets it on \<open>candidates_for\<close>.
\<close>

datatype operator =
    CONTAINS | EQUALS | GT | LT | GTE | LTE | IN | NOT_IN | IS_TRUE | IS_FALSE | EXISTS

record rule_condition =
  cond_field :: string
  cond_op :: operator
  cond_value :: pyval

datatype derivation_type = Classification | Computation | Lookup | Transform

record rule_output =
  out_field :: string
  value_expr :: pyval
  derivation_type :: derivation_type

record rule_definition =
  rule_id :: string
  conditions :: "rule_condition list"
  outputs :: "rule_output list"
  rule_confidence :: f64
  priority :: int
  rule_domain :: "string option"
  rule_description :: "string option"

definition trigger_fields :: "rule_definition \<Rightarrow> string set" where
  "trigger_fields r = set (map cond_field (conditions r))"

text \<open>The declared constraints: \<open>ge\<close>/\<open>le\<close> bounds and the two validators.\<close>

definition rule_ok :: "rule_definition \<Rightarrow> bool" where
  "rule_ok r \<longleftrightarrow> conditions r \<noteq> [] \<and> outputs r \<noteq> [] \<and> 0 \<le> rule_confidence r \<and> rule_confidence r \<le> 1 \<and>
     0 \<le> priority r \<and> priority r \<le> 100"

section \<open>Registry\<close>

record rule_registry =
  trigger_index :: "(string, string list) dict"
  rule_index :: "(string, rule_definition) dict"

definition empty_registry :: rule_registry where
  "empty_registry = \<lparr>trigger_index = [], rule_index = []\<rparr>"

definition index_condition :: "string \<Rightarrow> rule_condition \<Rightarrow> (string, string list) dict \<Rightarrow> (string, string list) dict" where
  "index_condition rid c ti = dset (cond_field c) (dget_or ti (cond_field c) [] @ [rid]) ti"

definition add_rule :: "rule_definition \<Rightarrow> rule_registry \<Rightarrow> rule_registry" where
  "add_rule r reg = reg\<lparr>rule_index := dset (rule_id r) r (rule_index reg),
     trigger_index := fold (index_condition (rule_id r)) (conditions r) (trigger_index reg)\<rparr>"

definition get_rule :: "rule_registry \<Rightarrow> string \<Rightarrow> rule_definition option" where
  "get_rule reg rid = dget (rule_index reg) rid"

definition all_rules :: "rule_registry \<Rightarrow> rule_definition list" where
  "all_rules reg = dvalues (rule_index reg)"

definition rules_for_field :: "rule_registry \<Rightarrow> string \<Rightarrow> rule_definition list" where
  "rules_for_field reg f = List.map_filter (dget (rule_index reg)) (dget_or (trigger_index reg) f [])"

definition rule_count :: "rule_registry \<Rightarrow> nat" where
  "rule_count reg = length (rule_index reg)"

definition candidates_for :: "rule_registry \<Rightarrow> string set \<Rightarrow> rule_definition list" where
  "candidates_for reg available = filter (\<lambda>r. trigger_fields r \<subseteq> available) (all_rules reg)"

definition clear_registry :: "rule_registry \<Rightarrow> rule_registry" where
  "clear_registry reg = reg\<lparr>trigger_index := [], rule_index := []\<rparr>"

section \<open>Loader\<close>

datatype load_error = FileNotFound | EmptyYaml | RulesNotAList | AllRulesFailed | NoGet

record load_state =
  ld_registry :: rule_registry
  ld_loaded :: nat
  ld_errors :: nat

text \<open>
  One entry of the list. The handler of a failed validation asks the entry for its \<open>rule_id\<close> for
  the log line; an entry that is no mapping has no \<open>get\<close>, and that error leaves the loop.
\<close>

definition load_one ::
    "(pyval \<Rightarrow> rule_definition option) \<Rightarrow> pyval \<Rightarrow> load_state \<Rightarrow> load_error + load_state" where
  "load_one validate v s =
     (case validate v of
        Some r \<Rightarrow> Inr (s\<lparr>ld_registry := add_rule r (ld_registry s), ld_loaded := ld_loaded s + 1\<rparr>)
      | None \<Rightarrow> (case v of PDict _ \<Rightarrow> Inr (s\<lparr>ld_errors := ld_errors s + 1\<rparr>) | _ \<Rightarrow> Inl NoGet))"

fun load_all ::
    "(pyval \<Rightarrow> rule_definition option) \<Rightarrow> pyval list \<Rightarrow> load_state \<Rightarrow> load_error + load_state" where
  "load_all validate [] s = Inr s"
| "load_all validate (v # vs) s = bind_res (load_one validate v s) (load_all validate vs)"

definition load_rules ::
    "(pyval \<Rightarrow> rule_definition option) \<Rightarrow> pyval option \<Rightarrow> load_error + rule_registry" where
  "load_rules validate file =
     (case file of None \<Rightarrow> Inl FileNotFound
      | Some data \<Rightarrow>
          if \<not> truthy data then Inl EmptyYaml
          else (case data of
              PDict d \<Rightarrow>
                (case dget_or d ''inference_rules'' (PList []) of
                   PList rs \<Rightarrow>
                     bind_res (load_all validate rs \<lparr>ld_registry = empty_registry, ld_loaded = 0, ld_errors = 0\<rparr>)
                       (\<lambda>s. if 0 < ld_errors s \<and> ld_loaded s = 0 then Inl AllRulesFailed else Inr (ld_registry s))
                 | _ \<Rightarrow> Inl RulesNotAList)
            | _ \<Rightarrow> Inl NoGet))"

text \<open>\<open>reload_rules\<close> updates the registry in place: on a load error the old one is untouched.\<close>

definition reload_rules ::
    "(pyval \<Rightarrow> rule_definition option) \<Rightarrow> pyval option \<Rightarrow> rule_registry \<Rightarrow> load_error option \<times> rule_registry" where
  "reload_rules validate file reg =
     (case load_rules validate file of
        Inl e \<Rightarrow> (Some e, reg)
      | Inr new \<Rightarrow> (None, fold add_rule (all_rules new) (clear_registry reg)))"

section \<open>Unlock scoring\<close>

text \<open>
  \<open>if condition.field not in index[condition.field]\<close>: the test looks the field's name up in a list
  of rule ids, and \<open>index\<close> is a \<open>defaultdict\<close>.
\<close>

definition unlock_condition :: "string \<Rightarrow> rule_condition \<Rightarrow> (string, string list) dict \<Rightarrow> (string, string list) dict" where
  "unlock_condition rid c idx =
     (let ids = dget_or idx (cond_field c) [] in
      dset (cond_field c) (if cond_field c \<notin> set ids then ids @ [rid] else ids) idx)"

definition build_unlock_index :: "rule_registry \<Rightarrow> (string, string list) dict" where
  "build_unlock_index reg = fold (\<lambda>r. fold (unlock_condition (rule_id r)) (conditions r)) (all_rules reg) []"

record domain_prop =
  prop_name :: string
  prop_metadata :: pyval

definition prop_map :: "domain_prop list list \<Rightarrow> (string, pyval) dict" where
  "prop_map nodes = fold (\<lambda>p. dset (prop_name p) (prop_metadata p)) (concat nodes) []"

text \<open>A number of the source's arithmetic; anything else raises \<open>TypeError\<close> there.\<close>

fun as_number :: "pyval \<Rightarrow> pyerr + f64" where
  "as_number (PStr s) = Inl TypeError"
| "as_number v = py_float v"

definition output_value :: "(string, pyval) dict \<Rightarrow> f64 \<Rightarrow> rule_output \<Rightarrow> pyerr + f64" where
  "output_value pm conf out =
     (case dget pm (out_field out) of None \<Rightarrow> Inr 0
      | Some meta \<Rightarrow>
          (let w = (case meta of PDict m \<Rightarrow> dget_or m ''scoring_weight'' (PFloat 0) | _ \<Rightarrow> PFloat 0);
               mult = (case meta of PDict m \<Rightarrow> if truthy (dget_or m ''gate_critical'' PNone) then f_of_int 10 else 1
                                  | _ \<Rightarrow> 1)
           in bind_res (as_number w) (\<lambda>x. Inr (x * mult * conf))))"

fun add_outputs :: "(string, pyval) dict \<Rightarrow> f64 \<Rightarrow> rule_output list \<Rightarrow> f64 \<Rightarrow> pyerr + f64" where
  "add_outputs pm conf [] tot = Inr tot"
| "add_outputs pm conf (out # outs) tot =
     bind_res (output_value pm conf out) (\<lambda>v.
       add_outputs pm conf outs (if dget pm (out_field out) = None then tot else tot + v))"

fun add_rules :: "(string, pyval) dict \<Rightarrow> rule_registry \<Rightarrow> string list \<Rightarrow> f64 \<Rightarrow> pyerr + f64" where
  "add_rules pm reg [] tot = Inr tot"
| "add_rules pm reg (rid # rids) tot =
     (case get_rule reg rid of None \<Rightarrow> add_rules pm reg rids tot
      | Some r \<Rightarrow> bind_res (add_outputs pm (rule_confidence r) (outputs r) tot) (add_rules pm reg rids))"

fun score_fields ::
    "(string, pyval) dict \<Rightarrow> (string, string list) dict \<Rightarrow> rule_registry \<Rightarrow> string list \<Rightarrow>
     (string, f64) dict \<Rightarrow> pyerr + (string, f64) dict" where
  "score_fields pm idx reg [] scores = Inr scores"
| "score_fields pm idx reg (f # fs) scores =
     bind_res (add_rules pm reg (dget_or idx f []) 0) (\<lambda>v. score_fields pm idx reg fs (dset f v scores))"

definition score_unlock_potential ::
    "string list \<Rightarrow> (string, string list) dict \<Rightarrow> rule_registry \<Rightarrow> domain_prop list list \<Rightarrow>
     pyerr + (string, f64) dict" where
  "score_unlock_potential missing idx reg nodes = score_fields (prop_map nodes) idx reg missing []"

section \<open>What the registry keeps\<close>

definition reg_inv :: "rule_registry \<Rightarrow> bool" where
  "reg_inv reg \<longleftrightarrow> dict_ok (rule_index reg) \<and> (\<forall>(k, r) \<in> set (rule_index reg). rule_id r = k) \<and>
     (\<forall>r \<in> set (all_rules reg). \<forall>f \<in> trigger_fields r. rule_id r \<in> set (dget_or (trigger_index reg) f []))"

lemma index_condition_mem:
  "x \<in> set (dget_or (fold (index_condition rid) cs ti) f []) \<longleftrightarrow>
     x \<in> set (dget_or ti f []) \<or> (x = rid \<and> f \<in> set (map cond_field cs))"
  by (induction cs arbitrary: ti) (auto simp: index_condition_def dget_or_simps)

lemma set_dset_items: "set (dset k v d) \<subseteq> insert (k, v) (set d)"
  by (induction d) auto

lemma reg_inv_empty: "reg_inv empty_registry"
  by (simp add: reg_inv_def empty_registry_def all_rules_def)

lemma reg_inv_add: "reg_inv reg \<Longrightarrow> reg_inv (add_rule r reg)"
proof -
  assume inv: "reg_inv reg"
  have "set (all_rules (add_rule r reg)) \<subseteq> insert r (set (all_rules reg))"
    using dvalues_dset by (simp add: all_rules_def add_rule_def)
  with inv set_dset_items [of "rule_id r" r "rule_index reg"] show ?thesis
    by (fastforce simp: reg_inv_def add_rule_def index_condition_mem trigger_fields_def distinct_update)
qed

lemma reg_inv_fold: "reg_inv reg \<Longrightarrow> reg_inv (fold add_rule rs reg)"
  by (induction rs arbitrary: reg) (simp_all add: reg_inv_add)

lemma get_rule_add: "get_rule (add_rule r reg) = (get_rule reg)(rule_id r \<mapsto> r)"
  by (auto simp: get_rule_def add_rule_def dget_dset)

lemma get_rule_fold:
  "get_rule (fold add_rule rs reg) = get_rule reg ++ map_of (rev (map (\<lambda>r. (rule_id r, r)) rs))"
  by (induction rs arbitrary: reg) (auto simp: get_rule_add map_add_def fun_eq_iff split: option.splits)

lemma load_all_spec:
  assumes "load_all validate vs s = Inr s'"
  shows "ld_registry s' = fold add_rule (List.map_filter validate vs) (ld_registry s) \<and>
    ld_loaded s' = ld_loaded s + length (List.map_filter validate vs) \<and>
    (\<forall>v \<in> set vs. validate v = None \<longrightarrow> (\<exists>d. v = PDict d))"
  using assms
proof (induction vs arbitrary: s)
  case (Cons v vs)
  from Cons.prems obtain s1 where s1: "load_one validate v s = Inr s1" "load_all validate vs s1 = Inr s'"
    by (auto simp: bind_res_Inr_iff)
  with Cons.IH [OF s1(2)] show ?case
    by (auto simp: load_one_def List.map_filter_simps split: option.splits pyval.splits)
qed (simp add: List.map_filter_simps)

lemma load_rules_ok:
  assumes "load_rules validate file = Inr reg"
  obtains rs where "reg = fold add_rule (List.map_filter validate rs) empty_registry"
    and "\<exists>d. file = Some (PDict d) \<and> dget_or d ''inference_rules'' (PList []) = PList rs"
  using assms by (auto simp: load_rules_def bind_res_Inr_iff split: option.splits if_splits pyval.splits
      dest!: load_all_spec)

lemma rebuild_index:
  assumes "dict_ok idx" and "\<forall>(k, r) \<in> set idx. rule_id r = k" and "rule_index reg = []"
  shows "rule_index (fold add_rule (dvalues idx) reg) = idx"
proof -
  have "rule_index (fold add_rule (dvalues xs) reg) = rule_index reg @ xs"
    if "distinct (dkeys (rule_index reg) @ dkeys xs)" "\<forall>(k, r) \<in> set xs. rule_id r = k" for xs reg
    using that
  proof (induction xs arbitrary: reg)
    case (Cons x xs)
    obtain k r where x: "x = (k, r)" "rule_id r = k" using Cons.prems(2) by (cases x) auto
    have "rule_index (add_rule r reg) = rule_index reg @ [x]"
      using dset_new [of k "rule_index reg" r] Cons.prems(1) x by (auto simp: add_rule_def)
    with Cons x show ?case by auto
  qed simp
  from this [of reg idx] assms show ?thesis by simp
qed

section \<open>The interface to the rule engine\<close>

locale rule_source =
  fixes cands :: "string set \<Rightarrow> rule_definition list"
  assumes triggered: "r \<in> set (cands av) \<Longrightarrow> trigger_fields r \<subseteq> av"
    and more_fields: "av \<subseteq> av' \<Longrightarrow> set (cands av) \<subseteq> set (cands av')"
begin

lemma cands_mono: "r \<in> set (cands av) \<Longrightarrow> av \<subseteq> av' \<Longrightarrow> r \<in> set (cands av')"
  using more_fields by blast

lemma no_skip: "filter (\<lambda>r. \<not> trigger_fields r \<subseteq> av) (cands av) = []"
  using triggered by (auto simp: filter_empty_conv)

end

interpretation registry_source: rule_source "candidates_for reg"
  by unfold_locales (auto simp: candidates_for_def)

section \<open>Properties\<close>

text \<open>
  A successful load keeps exactly the entries that validate: the rule found under an id is the
  last valid entry with that id, invalid mappings are skipped, and the trigger index lists every
  rule of the registry under each of its condition fields.
\<close>

theorem load_rules_correct:
  assumes "load_rules validate (Some (PDict d)) = Inr reg"
    and "dget_or d ''inference_rules'' (PList []) = PList rs"
  shows "get_rule reg = map_of (rev (map (\<lambda>r. (rule_id r, r)) (List.map_filter validate rs))) \<and>
    (\<forall>f r. r \<in> set (all_rules reg) \<longrightarrow> f \<in> trigger_fields r \<longrightarrow> r \<in> set (rules_for_field reg f))"
proof -
  have reg: "reg = fold add_rule (List.map_filter validate rs) empty_registry"
    using load_rules_ok [OF assms(1)] assms(2) by auto
  have inv: "reg_inv reg" unfolding reg by (rule reg_inv_fold [OF reg_inv_empty])
  have "r \<in> set (rules_for_field reg f)" if "r \<in> set (all_rules reg)" "f \<in> trigger_fields r" for f r
  proof -
    from that(1) inv have "dget (rule_index reg) (rule_id r) = Some r"
      by (fastforce simp: all_rules_def reg_inv_def)
    with that inv show ?thesis
      by (force simp: rules_for_field_def List.map_filter_def reg_inv_def)
  qed
  then show ?thesis using get_rule_fold [of _ empty_registry]
    by (simp add: reg get_rule_def empty_registry_def fun_eq_iff map_add_def split: option.splits)
qed

definition simple_rule :: "string \<Rightarrow> string list \<Rightarrow> rule_definition" where
  "simple_rule rid fs = \<lparr>rule_id = rid,
     conditions = map (\<lambda>f. \<lparr>cond_field = f, cond_op = EXISTS, cond_value = PNone\<rparr>) fs,
     outputs = [\<lparr>out_field = ''out'', value_expr = PStr rid, derivation_type = Classification\<rparr>],
     rule_confidence = flt (9 / 10), priority = 10, rule_domain = None, rule_description = None\<rparr>"

definition simple_validate :: "pyval \<Rightarrow> rule_definition option" where
  "simple_validate v =
     (case v of PDict d \<Rightarrow> (case dget d ''rule_id'' of Some (PStr s) \<Rightarrow> Some (simple_rule s [''f'']) | _ \<Rightarrow> None)
      | _ \<Rightarrow> None)"

theorem load_rules_correct_witness:
  "\<exists>reg. load_rules simple_validate (Some (PDict [(''inference_rules'',
       PList [PDict [(''rule_id'', PStr ''r1'')], PDict []])])) = Inr reg \<and>
     get_rule reg ''r1'' = Some (simple_rule ''r1'' [''f''])"
proof -
  let ?rs = "[PDict [(''rule_id'', PStr ''r1'')], PDict []]"
  let ?d = "[(''inference_rules'', PList ?rs)]"
  obtain reg where l: "load_rules simple_validate (Some (PDict ?d)) = Inr reg"
    by (simp add: load_rules_def load_one_def simple_validate_def dget_or_def)
  have "dget_or ?d ''inference_rules'' (PList []) = PList ?rs" by (simp add: dget_or_def)
  from load_rules_correct [OF l this] l show ?thesis
    by (simp add: simple_validate_def List.map_filter_simps simple_rule_def)
qed

text \<open>
  Hot reload is all or nothing. A document that fails to load leaves the registry as it was;
  one that loads replaces the whole content by that of the new document, rules in its order, and
  nothing of the old rules or their trigger entries survives.
\<close>

theorem reload_atomic:
  "case load_rules validate file of
     Inl e \<Rightarrow> reload_rules validate file reg = (Some e, reg)
   | Inr new \<Rightarrow> fst (reload_rules validate file reg) = None \<and>
       rule_index (snd (reload_rules validate file reg)) = rule_index new \<and>
       trigger_index (snd (reload_rules validate file reg)) =
         trigger_index (fold add_rule (all_rules new) empty_registry)"
proof (cases "load_rules validate file")
  case (Inr new)
  then obtain rs where "new = fold add_rule (List.map_filter validate rs) empty_registry"
    using load_rules_ok by metis
  then have inv: "reg_inv new" by (simp add: reg_inv_fold [OF reg_inv_empty])
  have "clear_registry reg = empty_registry" by (simp add: clear_registry_def empty_registry_def)
  moreover have "rule_index (fold add_rule (dvalues (rule_index new)) empty_registry) = rule_index new"
    using inv by (intro rebuild_index) (auto simp: reg_inv_def empty_registry_def)
  ultimately show ?thesis using Inr by (simp add: reload_rules_def all_rules_def)
qed (simp add: reload_rules_def)

text \<open>
  A list entry that is no mapping is not skipped like other invalid rules: the handler that
  should count it as an error fails itself, and the whole load is aborted, whatever valid rules
  stand before or after it.
\<close>

theorem non_mapping_rule_aborts:
  assumes "dget_or d ''inference_rules'' (PList []) = PList (good @ bad # rest)" and "d \<noteq> []"
    and "\<forall>v \<in> set good. validate v \<noteq> None" and "validate bad = None" and "\<And>m. bad \<noteq> PDict m"
  shows "load_rules validate (Some (PDict d)) = Inl NoGet"
proof -
  have "load_all validate (good @ bad # rest) s = Inl NoGet" for s
    using assms(3-5)
    by (induction good arbitrary: s) (auto simp: load_one_def bind_res_def split: pyval.splits)
  then show ?thesis using assms(1,2) by (simp add: load_rules_def bind_res_def)
qed

theorem non_mapping_rule_aborts_witness:
  "load_rules simple_validate (Some (PDict [(''inference_rules'',
     PList [PDict [(''rule_id'', PStr ''r1'')], PStr ''not a mapping''])])) = Inl NoGet"
  by (rule non_mapping_rule_aborts [of _ "[PDict [(''rule_id'', PStr ''r1'')]]" "PStr ''not a mapping''" "[]"])
     (simp_all add: dget_or_def simple_validate_def)

text \<open>
  The duplicate test of \<open>build_unlock_index\<close> compares a field name with rule ids, so it filters
  nothing: a rule with two conditions on one field is listed twice under it, and its value counts
  twice in the unlock score.
\<close>

theorem unlock_index_duplicates:
  "build_unlock_index (add_rule (simple_rule ''r1'' [''f'', ''f'']) empty_registry) = [(''f'', [''r1'', ''r1''])] \<and>
   score_unlock_potential [''f''] [(''f'', [''r1'', ''r1''])]
     (add_rule (simple_rule ''r1'' [''f'', ''f'']) empty_registry)
     [[\<lparr>prop_name = ''out'', prop_metadata = PDict [(''scoring_weight'', PInt 1)]\<rparr>]] =
   Inr [(''f'', flt (9 / 10) + flt (9 / 10))]"
  by (simp add: build_unlock_index_def unlock_condition_def add_rule_def simple_rule_def empty_registry_def
      all_rules_def dget_or_def score_unlock_potential_def get_rule_def prop_map_def output_value_def)

end
