(* ===== verification/RuleEngine.thy ===== *)
theory RuleEngine
  imports RuleLoader
begin

text \<open>
  \<open>app/engines/inference/rule_engine.py\<close>: condition evaluation, one cascade pass and the bounded
  cascade of \<open>infer\<close>. A condition may raise \<open>TypeError\<close> (membership in a number, an unhashable
  element in a set), and nothing in the engine catches it, so every step returns
  \<open>pyerr + result\<close>. The engine sees the registry through \<open>candidates_for\<close> only; the functions
  take it as the argument \<open>cands\<close>, and their lemmas are proved in the locale \<open>rule_source\<close>.
  The loop of \<open>infer\<close> is a recursion over the number of passes left, \<open>MAX_CASCADE_DEPTH + 1\<close> at
  the start.
\<close>

record rule_fired =
  fired_rule :: string
  conditions_met :: "string list"
  outputs_produced :: fields
  fired_confidence :: f64
  fired_priority :: int
  cascade_level :: nat

record engine_result =
  er_derived :: fields
  er_fired :: "rule_fired list"
  er_evaluated :: nat
  er_skipped :: nat
  er_chains :: "(string, string list) dict"
  er_confidence :: f64
  er_depth :: nat

definition max_cascade_depth :: nat where
  "max_cascade_depth = 3"

section \<open>Conditions\<close>

fun normalise :: "pyval \<Rightarrow> pyval" where
  "normalise (PStr s) = PStr (py_lower (py_strip s))"
| "normalise v = v"

fun hashable :: "pyval \<Rightarrow> bool" where
  "hashable (PList _) = False"
| "hashable (PDict _) = False"
| "hashable _ = True"

text \<open>\<open>x in {v for v in vs}\<close>: every element and \<open>x\<close> itself must be hashable.\<close>

definition in_set_of :: "pyval \<Rightarrow> pyval list \<Rightarrow> pyerr + bool" where
  "in_set_of x vs =
     (if list_all hashable vs \<and> hashable x then Inr (list_ex (\<lambda>v. py_eq x v) vs) else Inl TypeError)"

definition eval_contains :: "pyval \<Rightarrow> pyval \<Rightarrow> pyerr + bool" where
  "eval_contains value tgt =
     (case value of
        PList vs \<Rightarrow> in_set_of (normalise tgt) (map normalise vs)
      | PStr s \<Rightarrow> (case normalise tgt of PStr t \<Rightarrow> Inr (is_substring t (py_lower (py_strip s))) | _ \<Rightarrow> Inl TypeError)
      | PDict d \<Rightarrow> in_set_of (normalise tgt) (map (PStr \<circ> fst) d)
      | _ \<Rightarrow> Inl TypeError)"

definition eval_in :: "pyval \<Rightarrow> pyval \<Rightarrow> pyerr + bool" where
  "eval_in value tgt =
     (case tgt of PList ts \<Rightarrow> in_set_of (normalise value) (map normalise ts)
      | _ \<Rightarrow> Inr (py_eq (normalise value) (normalise tgt)))"

definition eval_not_in :: "pyval \<Rightarrow> pyval \<Rightarrow> pyerr + bool" where
  "eval_not_in value tgt =
     (case tgt of PList ts \<Rightarrow> bind_res (in_set_of (normalise value) (map normalise ts)) (\<lambda>b. Inr (\<not> b))
      | _ \<Rightarrow> Inr (\<not> py_eq (normalise value) (normalise tgt)))"

definition finite_floats :: "pyval \<Rightarrow> pyval \<Rightarrow> (f64 \<times> f64) option" where
  "finite_floats l r = (case (py_float l, py_float r) of (Inr x, Inr y) \<Rightarrow> Some (x, y) | _ \<Rightarrow> None)"

definition eval_numeric :: "operator \<Rightarrow> pyval \<Rightarrow> pyval \<Rightarrow> bool" where
  "eval_numeric op value tgt =
     (case finite_floats value tgt of None \<Rightarrow> False
      | Some (l, r) \<Rightarrow>
          if op = GT then r < l else if op = LT then l < r else if op = GTE then r \<le> l else l \<le> r)"

definition eval_collection :: "operator \<Rightarrow> pyval \<Rightarrow> pyval \<Rightarrow> pyerr + bool" where
  "eval_collection op value tgt =
     (if op = CONTAINS then eval_contains value tgt
      else if op = IN then eval_in value tgt
      else if op = NOT_IN then eval_not_in value tgt
      else Inr False)"

definition evaluate_condition :: "rule_condition \<Rightarrow> pyval \<Rightarrow> pyerr + bool" where
  "evaluate_condition c value =
     (let op = cond_op c; tgt = cond_value c in
      if op = EXISTS then Inr (value \<noteq> PNone)
      else if op = IS_TRUE then Inr (truthy value)
      else if op = IS_FALSE then Inr (\<not> truthy value)
      else if value = PNone then Inr False
      else if op = EQUALS then Inr (py_eq (normalise value) (normalise tgt))
      else if op \<in> {GT, LT, GTE, LTE} then Inr (eval_numeric op value tgt)
      else if op \<in> {CONTAINS, IN, NOT_IN} then eval_collection op value tgt
      else Inr False)"

section \<open>Firing a rule\<close>

fun conds_met :: "rule_condition list \<Rightarrow> fields \<Rightarrow> pyerr + string list option" where
  "conds_met [] ent = Inr (Some [])"
| "conds_met (c # cs) ent =
     (let v = dget_or ent (cond_field c) PNone in
      if cond_op c \<noteq> EXISTS \<and> v = PNone then Inr None
      else bind_res (evaluate_condition c v) (\<lambda>b.
           if \<not> b then Inr None
           else bind_res (conds_met cs ent) (\<lambda>m. Inr (map_option (\<lambda>fs. cond_field c # fs) m))))"

definition rule_outputs :: "rule_definition \<Rightarrow> fields" where
  "rule_outputs r = fold (\<lambda>out. dset (out_field out) (value_expr out)) (outputs r) []"

definition try_fire :: "rule_definition \<Rightarrow> fields \<Rightarrow> pyerr + (string list \<times> fields) option" where
  "try_fire r ent = bind_res (conds_met (conditions r) ent) (\<lambda>m. Inr (map_option (\<lambda>fs. (fs, rule_outputs r)) m))"

type_synonym best_entry = "pyval \<times> int \<times> f64 \<times> string"

record cascade_state =
  cs_working :: fields
  cs_best :: "(string, best_entry) dict"
  cs_chains :: "(string, string list) dict"
  cs_new :: fields
  cs_fired :: "rule_fired list"
  cs_evaluated :: nat
  cs_skipped :: nat

text \<open>\<open>(rule.priority, rule.confidence) <= (ex_pri, ex_conf)\<close>, lexicographic as tuples compare.\<close>

definition rank_le :: "int \<times> f64 \<Rightarrow> int \<times> f64 \<Rightarrow> bool" where
  "rank_le a b \<longleftrightarrow> fst a < fst b \<or> fst a = fst b \<and> snd a \<le> snd b"

definition offer_output :: "rule_definition \<Rightarrow> string \<times> pyval \<Rightarrow> cascade_state \<Rightarrow> cascade_state" where
  "offer_output r kv s =
     (let f = fst kv; v = snd kv in
      if (case dget (cs_best s) f of None \<Rightarrow> False
          | Some (_, p, c, _) \<Rightarrow> rank_le (priority r, rule_confidence r) (p, c))
      then s
      else s\<lparr>cs_best := dset f (v, priority r, rule_confidence r, rule_id r) (cs_best s),
             cs_chains := dset f (dget_or (cs_chains s) f [] @ [rule_id r]) (cs_chains s),
             cs_new := (if dmem f (cs_working s) then cs_new s else dset f v (cs_new s))\<rparr>)"

definition fire_candidate :: "nat \<Rightarrow> rule_definition \<Rightarrow> cascade_state \<Rightarrow> pyerr + cascade_state" where
  "fire_candidate lvl r s =
     bind_res (try_fire r (cs_working s)) (\<lambda>m.
       case m of None \<Rightarrow> Inr s
       | Some (met, outs) \<Rightarrow>
           Inr ((fold (offer_output r) outs s)\<lparr>cs_fired := cs_fired s @
             [\<lparr>fired_rule = rule_id r, conditions_met = met, outputs_produced = outs,
               fired_confidence = rule_confidence r, fired_priority = priority r, cascade_level = lvl\<rparr>]\<rparr>))"

fun run_candidates :: "nat \<Rightarrow> string set \<Rightarrow> rule_definition list \<Rightarrow> cascade_state \<Rightarrow> pyerr + cascade_state" where
  "run_candidates lvl av [] s = Inr s"
| "run_candidates lvl av (r # rs) s =
     (if \<not> trigger_fields r \<subseteq> av
      then run_candidates lvl av rs (s\<lparr>cs_skipped := cs_skipped s + 1\<rparr>)
      else bind_res (fire_candidate lvl r (s\<lparr>cs_evaluated := cs_evaluated s + 1\<rparr>)) (run_candidates lvl av rs))"

text \<open>One pass. \<open>cs_fired\<close> grows over all passes; the flag says whether this pass fired anything.\<close>

definition run_cascade_pass ::
    "(string set \<Rightarrow> rule_definition list) \<Rightarrow> nat \<Rightarrow> cascade_state \<Rightarrow> pyerr + bool \<times> cascade_state" where
  "run_cascade_pass cands lvl s =
     (let av = set (dkeys (cs_working s)) in
      bind_res (run_candidates lvl av (cands av) (s\<lparr>cs_new := []\<rparr>)) (\<lambda>s'.
        Inr (cs_fired s' \<noteq> cs_fired s, s'\<lparr>cs_working := dupdate (cs_working s') (cs_new s')\<rparr>)))"

text \<open>\<open>cascade_from lvl left\<close>: the loop at \<open>cascade = lvl\<close> with \<open>left\<close> more passes allowed; returns the last \<open>cascade\<close>.\<close>

fun cascade_from ::
    "(string set \<Rightarrow> rule_definition list) \<Rightarrow> nat \<Rightarrow> nat \<Rightarrow> cascade_state \<Rightarrow> pyerr + nat \<times> cascade_state" where
  "cascade_from cands lvl 0 s = bind_res (run_cascade_pass cands lvl s) (\<lambda>(fired, s'). Inr (lvl, s'))"
| "cascade_from cands lvl (Suc left) s =
     bind_res (run_cascade_pass cands lvl s) (\<lambda>(fired, s').
       if \<not> fired then Inr (lvl, s') else cascade_from cands (Suc lvl) left s')"

definition start_cascade :: "fields \<Rightarrow> cascade_state" where
  "start_cascade ent = \<lparr>cs_working = ent, cs_best = [], cs_chains = [], cs_new = [], cs_fired = [],
     cs_evaluated = 0, cs_skipped = 0\<rparr>"

definition best_conf :: "(string, best_entry) dict \<Rightarrow> f64" where
  "best_conf best = (case map (fst \<circ> snd \<circ> snd) (dvalues best) of [] \<Rightarrow> 1 | c # cs \<Rightarrow> fold min cs c)"

definition infer_with :: "(string set \<Rightarrow> rule_definition list) \<Rightarrow> fields \<Rightarrow> pyerr + engine_result" where
  "infer_with cands ent =
     bind_res (cascade_from cands 0 max_cascade_depth (start_cascade ent)) (\<lambda>(casc, s).
       Inr \<lparr>er_derived = map (\<lambda>(k, v). (k, fst v)) (cs_best s), er_fired = cs_fired s,
            er_evaluated = cs_evaluated s, er_skipped = cs_skipped s, er_chains = cs_chains s,
            er_confidence = py_round 4 (best_conf (cs_best s)),
            er_depth = (if cs_fired s \<noteq> [] then min (casc + 1) max_cascade_depth else 0)\<rparr>)"

definition infer :: "fields \<Rightarrow> rule_registry \<Rightarrow> pyerr + engine_result" where
  "infer ent reg = infer_with (candidates_for reg) ent"

section \<open>The winner of a field\<close>

lemma rank_le_refl [simp]: "rank_le a a"
  by (simp add: rank_le_def)

lemma rank_le_trans: "rank_le a b \<Longrightarrow> rank_le b c \<Longrightarrow> rank_le a c"
  by (auto simp: rank_le_def)

lemma rank_le_linear: "\<not> rank_le a b \<Longrightarrow> rank_le b a"
  by (auto simp: rank_le_def)

definition beaten :: "cascade_state \<Rightarrow> string \<Rightarrow> int \<times> f64 \<Rightarrow> bool" where
  "beaten s k a \<longleftrightarrow> (\<exists>v p c rid. dget (cs_best s) k = Some (v, p, c, rid) \<and> rank_le a (p, c))"

lemma offer_output_fixed [simp]:
  "cs_working (offer_output r kv s) = cs_working s" "cs_fired (offer_output r kv s) = cs_fired s"
  "cs_skipped (offer_output r kv s) = cs_skipped s" "cs_evaluated (offer_output r kv s) = cs_evaluated s"
  by (simp_all add: offer_output_def Let_def split: option.split)

lemma offer_fold_fixed [simp]:
  "cs_working (fold (offer_output r) outs s) = cs_working s" "cs_fired (fold (offer_output r) outs s) = cs_fired s"
  "cs_skipped (fold (offer_output r) outs s) = cs_skipped s" "cs_evaluated (fold (offer_output r) outs s) = cs_evaluated s"
  by (induction outs arbitrary: s) simp_all

lemma offer_keeps: "beaten s k a \<Longrightarrow> beaten (offer_output r kv s) k a"
  by (auto simp: beaten_def offer_output_def Let_def dget_dset split: option.split
      intro: rank_le_trans [OF _ rank_le_linear])

lemma offer_beats: "beaten (offer_output r kv s) (fst kv) (priority r, rule_confidence r)"
  by (auto simp: beaten_def offer_output_def Let_def dget_dset split: option.split)

lemma offer_fold_keeps: "beaten s k a \<Longrightarrow> beaten (fold (offer_output r) outs s) k a"
  by (induction outs arbitrary: s) (simp_all add: offer_keeps)

lemma offer_fold_beats:
  "k \<in> set (map fst outs) \<Longrightarrow> beaten (fold (offer_output r) outs s) k (priority r, rule_confidence r)"
proof (induction outs arbitrary: s)
  case (Cons kv outs)
  show ?case
  proof (cases "k \<in> set (map fst outs)")
    case True
    from Cons.IH [OF this] show ?thesis by simp
  next
    case False
    with Cons.prems have "k = fst kv" by simp
    with offer_fold_keeps [OF offer_beats [of r kv s]] show ?thesis by simp
  qed
qed simp

text \<open>Where a best entry comes from: the state before, or one of the outputs just offered.\<close>

definition from_rule :: "rule_definition \<Rightarrow> fields \<Rightarrow> string \<Rightarrow> best_entry \<Rightarrow> bool" where
  "from_rule r outs k b \<longleftrightarrow> (\<exists>v. b = (v, priority r, rule_confidence r, rule_id r) \<and> (k, v) \<in> set outs)"

lemma offer_fold_source:
  "dget (cs_best (fold (offer_output r) outs s)) k = Some b \<Longrightarrow> dget (cs_best s) k = Some b \<or> from_rule r outs k b"
proof (induction outs arbitrary: s)
  case (Cons kv outs)
  then have "dget (cs_best (offer_output r kv s)) k = Some b \<or> from_rule r outs k b" by simp
  then show ?case
    by (cases kv) (auto simp: from_rule_def offer_output_def Let_def dget_dset split: option.splits if_splits)
qed simp

definition chain_ok :: "cascade_state \<Rightarrow> bool" where
  "chain_ok s \<longleftrightarrow> (\<forall>k v p c rid. dget (cs_best s) k = Some (v, p, c, rid) \<longrightarrow>
     (\<exists>ids. dget (cs_chains s) k = Some (ids @ [rid])))"

lemma offer_chain: "chain_ok s \<Longrightarrow> chain_ok (offer_output r kv s)"
  by (auto simp: chain_ok_def offer_output_def Let_def dget_dset split: option.split)

lemma offer_fold_chain: "chain_ok s \<Longrightarrow> chain_ok (fold (offer_output r) outs s)"
  by (induction outs arbitrary: s) (simp_all add: offer_chain)

definition winners_ok :: "cascade_state \<Rightarrow> bool" where
  "winners_ok s \<longleftrightarrow>
     (\<forall>fr \<in> set (cs_fired s). \<forall>k \<in> set (dkeys (outputs_produced fr)). beaten s k (fired_priority fr, fired_confidence fr)) \<and>
     (\<forall>k v p c rid. dget (cs_best s) k = Some (v, p, c, rid) \<longrightarrow>
        (\<exists>fr \<in> set (cs_fired s). fired_rule fr = rid \<and> fired_priority fr = p \<and> fired_confidence fr = c \<and>
           (k, v) \<in> set (outputs_produced fr))) \<and> chain_ok s"

lemma beaten_cong: "cs_best s = cs_best s' \<Longrightarrow> beaten s k a = beaten s' k a"
  by (simp add: beaten_def)

lemma fire_candidate_winners:
  assumes "winners_ok s" and "fire_candidate lvl r s = Inr s'"
  shows "winners_ok s'"
proof -
  from assms(2) obtain m where m: "try_fire r (cs_working s) = Inr m"
    by (auto simp: fire_candidate_def bind_res_Inr_iff)
  show ?thesis
  proof (cases m)
    case None
    with m assms show ?thesis by (simp add: fire_candidate_def)
  next
    case (Some p)
    obtain met outs where p: "p = (met, outs)" by (cases p)
    let ?t = "fold (offer_output r) outs s"
    let ?fr = "\<lparr>fired_rule = rule_id r, conditions_met = met, outputs_produced = outs,
      fired_confidence = rule_confidence r, fired_priority = priority r, cascade_level = lvl\<rparr>"
    have s': "s' = ?t\<lparr>cs_fired := cs_fired s @ [?fr]\<rparr>"
      using assms(2) m Some p by (simp add: fire_candidate_def)
    have b: "beaten s' k a = beaten ?t k a" for k a by (simp add: s' beaten_def)
    have "chain_ok ?t" using assms(1) by (simp add: winners_ok_def offer_fold_chain)
    then have "chain_ok s'" by (simp add: chain_ok_def s')
    moreover have "\<forall>fr \<in> set (cs_fired s'). \<forall>k \<in> set (dkeys (outputs_produced fr)).
        beaten s' k (fired_priority fr, fired_confidence fr)"
    proof (intro ballI)
      fix fr k assume fr: "fr \<in> set (cs_fired s')" and k: "k \<in> set (dkeys (outputs_produced fr))"
      show "beaten s' k (fired_priority fr, fired_confidence fr)"
      proof (cases "fr \<in> set (cs_fired s)")
        case True
        with assms(1) k have "beaten s k (fired_priority fr, fired_confidence fr)"
          unfolding winners_ok_def by blast
        then show ?thesis unfolding b by (rule offer_fold_keeps)
      next
        case False
        with fr have "fr = ?fr" by (simp add: s')
        then show ?thesis unfolding b using k offer_fold_beats [of k outs r s] by simp
      qed
    qed
    moreover have "\<exists>fr \<in> set (cs_fired s'). fired_rule fr = rid \<and> fired_priority fr = p \<and>
        fired_confidence fr = c \<and> (k, v) \<in> set (outputs_produced fr)"
      if "dget (cs_best s') k = Some (v, p, c, rid)" for k v p c rid
    proof -
      from that have "dget (cs_best s) k = Some (v, p, c, rid) \<or> from_rule r outs k (v, p, c, rid)"
        using offer_fold_source [of r outs s k] by (simp add: s')
      then show ?thesis
      proof
        assume "dget (cs_best s) k = Some (v, p, c, rid)"
        with assms(1) obtain fr where "fr \<in> set (cs_fired s)" "fired_rule fr = rid" "fired_priority fr = p"
            "fired_confidence fr = c" "(k, v) \<in> set (outputs_produced fr)"
          unfolding winners_ok_def by blast
        then show ?thesis by (intro bexI [of _ fr]) (simp_all add: s')
      next
        assume "from_rule r outs k (v, p, c, rid)"
        then show ?thesis by (intro bexI [of _ ?fr]) (simp_all add: s' from_rule_def)
      qed
    qed
    ultimately show ?thesis unfolding winners_ok_def by blast
  qed
qed

lemma run_candidates_winners: "winners_ok s \<Longrightarrow> run_candidates lvl av rs s = Inr s' \<Longrightarrow> winners_ok s'"
proof (induction rs arbitrary: s)
  case (Cons r rs)
  have w: "winners_ok (s\<lparr>cs_skipped := n\<rparr>)" "winners_ok (s\<lparr>cs_evaluated := n\<rparr>)" for n
    using Cons.prems(1) by (simp_all add: winners_ok_def chain_ok_def beaten_def)
  show ?case
  proof (cases "trigger_fields r \<subseteq> av")
    case True
    with Cons.prems(2) obtain t where "fire_candidate lvl r (s\<lparr>cs_evaluated := cs_evaluated s + 1\<rparr>) = Inr t"
        "run_candidates lvl av rs t = Inr s'" by (auto simp: bind_res_Inr_iff)
    with Cons.IH fire_candidate_winners [OF w(2)] show ?thesis by blast
  next
    case False
    with Cons.prems(2) Cons.IH [OF w(1)] show ?thesis by simp
  qed
qed simp

lemma pass_winners:
  assumes "winners_ok s" and "run_cascade_pass cands lvl s = Inr (b, s')"
  shows "winners_ok s'"
proof -
  from assms(1) have "winners_ok (s\<lparr>cs_new := []\<rparr>)" by (simp add: winners_ok_def chain_ok_def beaten_def)
  with assms(2) obtain t where "winners_ok t" "s' = t\<lparr>cs_working := dupdate (cs_working t) (cs_new t)\<rparr>"
    by (auto simp: run_cascade_pass_def Let_def bind_res_Inr_iff dest: run_candidates_winners)
  then show ?thesis by (simp add: winners_ok_def chain_ok_def beaten_def)
qed

lemma cascade_winners:
  "winners_ok s \<Longrightarrow> cascade_from cands lvl left s = Inr (casc, s') \<Longrightarrow> winners_ok s'"
proof (induction left arbitrary: lvl s)
  case 0
  then show ?case by (auto simp: bind_res_Inr_iff intro: pass_winners)
next
  case (Suc left)
  then show ?case by (auto simp: bind_res_Inr_iff split: if_splits dest: pass_winners)
qed

lemma start_winners: "winners_ok (start_cascade ent)"
  by (simp add: winners_ok_def chain_ok_def start_cascade_def)

section \<open>Passes over a rule source\<close>

text \<open>A rule's verdict depends only on the fields of its conditions.\<close>

lemma conds_met_cong:
  "(\<And>c. c \<in> set cs \<Longrightarrow> dget_or ent (cond_field c) PNone = dget_or ent' (cond_field c) PNone) \<Longrightarrow>
   conds_met cs ent = conds_met cs ent'"
  by (induction cs) (simp_all add: Let_def cong: if_cong)

definition extends :: "fields \<Rightarrow> fields \<Rightarrow> bool" where
  "extends w w' \<longleftrightarrow> (\<forall>k v. dget w k = Some v \<longrightarrow> dget w' k = Some v)"

lemma extends_keys: "extends w w' \<Longrightarrow> set (dkeys w) \<subseteq> set (dkeys w')"
  unfolding alist.keys_get by (auto simp: extends_def)

lemma extends_dget_or: "extends w w' \<Longrightarrow> k \<in> set (dkeys w) \<Longrightarrow> dget_or w' k v = dget_or w k v"
  unfolding alist.keys_get by (auto simp: extends_def dget_or_def split: option.splits)

lemma try_fire_extends:
  assumes "extends w w'" and "trigger_fields r \<subseteq> set (dkeys w)"
  shows "try_fire r w' = try_fire r w"
proof -
  have "conds_met (conditions r) w' = conds_met (conditions r) w"
    using assms(2) by (intro conds_met_cong extends_dget_or [OF assms(1)]) (auto simp: trigger_fields_def)
  then show ?thesis by (simp add: try_fire_def)
qed

definition new_fresh :: "cascade_state \<Rightarrow> bool" where
  "new_fresh s \<longleftrightarrow> set (dkeys (cs_new s)) \<inter> set (dkeys (cs_working s)) = {}"

lemma offer_fresh: "new_fresh s \<Longrightarrow> new_fresh (offer_output r kv s)"
  by (auto simp: new_fresh_def offer_output_def Let_def dmem_iff keys_dset simp del: set_map split: option.split)

lemma offer_fold_fresh: "new_fresh s \<Longrightarrow> new_fresh (fold (offer_output r) outs s)"
  by (induction outs arbitrary: s) (simp_all add: offer_fresh)

lemma fire_candidate_frame:
  assumes "fire_candidate lvl r s = Inr s'"
  shows "cs_working s' = cs_working s" and "cs_skipped s' = cs_skipped s"
    and "new_fresh s \<Longrightarrow> new_fresh s'"
    and "\<exists>m frs. try_fire r (cs_working s) = Inr m \<and> cs_fired s' = cs_fired s @ frs \<and> (frs = [] \<longleftrightarrow> m = None)"
proof -
  from assms obtain m where m: "try_fire r (cs_working s) = Inr m"
    by (auto simp: fire_candidate_def bind_res_Inr_iff)
  have "cs_working s' = cs_working s \<and> cs_skipped s' = cs_skipped s \<and> (new_fresh s \<longrightarrow> new_fresh s') \<and>
      (\<exists>frs. cs_fired s' = cs_fired s @ frs \<and> (frs = [] \<longleftrightarrow> m = None))"
  proof (cases m)
    case None
    with m assms show ?thesis by (simp add: fire_candidate_def)
  next
    case (Some p)
    obtain met outs where p: "p = (met, outs)" by (cases p)
    let ?t = "fold (offer_output r) outs s"
    have "\<exists>fr. s' = ?t\<lparr>cs_fired := cs_fired s @ [fr]\<rparr>"
      using assms m Some p by (auto simp: fire_candidate_def)
    then obtain fr where s': "s' = ?t\<lparr>cs_fired := cs_fired s @ [fr]\<rparr>" ..
    have "new_fresh ?t \<Longrightarrow> new_fresh s'" by (simp add: s' new_fresh_def)
    with Some show ?thesis using offer_fold_fresh [of s r outs] by (simp add: s')
  qed
  with m show "cs_working s' = cs_working s" and "cs_skipped s' = cs_skipped s"
    and "new_fresh s \<Longrightarrow> new_fresh s'"
    and "\<exists>m frs. try_fire r (cs_working s) = Inr m \<and> cs_fired s' = cs_fired s @ frs \<and> (frs = [] \<longleftrightarrow> m = None)"
    by blast+
qed

lemma run_candidates_frame:
  assumes "run_candidates lvl av rs s = Inr s'" and "\<forall>r \<in> set rs. trigger_fields r \<subseteq> av" and "new_fresh s"
  shows "cs_working s' = cs_working s \<and> cs_skipped s' = cs_skipped s \<and> new_fresh s' \<and>
    (\<exists>frs. cs_fired s' = cs_fired s @ frs \<and>
       (frs \<noteq> [] \<longleftrightarrow> (\<exists>r \<in> set rs. \<exists>m. try_fire r (cs_working s) = Inr (Some m))))"
  using assms
proof (induction rs arbitrary: s)
  case (Cons r rs)
  let ?s = "s\<lparr>cs_evaluated := cs_evaluated s + 1\<rparr>"
  from Cons.prems obtain t where t: "fire_candidate lvl r ?s = Inr t" "run_candidates lvl av rs t = Inr s'"
    by (auto simp: bind_res_Inr_iff)
  note f = fire_candidate_frame [OF t(1)]
  have "new_fresh t" using f(3) Cons.prems(3) by (simp add: new_fresh_def)
  from Cons.IH [OF t(2) _ this] Cons.prems(2)
  obtain frs where IH: "cs_working s' = cs_working t" "cs_skipped s' = cs_skipped t" "new_fresh s'"
      "cs_fired s' = cs_fired t @ frs"
      "frs \<noteq> [] \<longleftrightarrow> (\<exists>r \<in> set rs. \<exists>m. try_fire r (cs_working t) = Inr (Some m))" by auto
  from f(4) obtain m pre where "try_fire r (cs_working ?s) = Inr m" "cs_fired t = cs_fired ?s @ pre"
      and pn: "pre = [] \<longleftrightarrow> m = None" by blast
  then have m: "try_fire r (cs_working s) = Inr m" and pre: "cs_fired t = cs_fired s @ pre" by simp_all
  have "pre @ frs \<noteq> [] \<longleftrightarrow> (\<exists>r \<in> set (r # rs). \<exists>m. try_fire r (cs_working s) = Inr (Some m))"
    using pn m IH(5) f(1) by auto
  then show ?case using IH f(1,2) pre by (auto intro!: exI [of _ "pre @ frs"])
qed simp

lemma dupdate_extends:
  assumes "set (dkeys new) \<inter> set (dkeys w) = {}"
  shows "extends w (dupdate w new)"
proof -
  have "dget (rev new) k = None" if "dget w k = Some v" for k v
  proof -
    from that have "k \<in> set (dkeys w)" unfolding alist.keys_get by blast
    with assms show ?thesis by (auto simp: map_of_eq_None_iff)
  qed
  then show ?thesis by (auto simp: extends_def dget_dupdate map_add_def split: option.splits)
qed

definition will_fire :: "(string set \<Rightarrow> rule_definition list) \<Rightarrow> fields \<Rightarrow> bool" where
  "will_fire cands w \<longleftrightarrow> (\<exists>r \<in> set (cands (set (dkeys w))). \<exists>m. try_fire r w = Inr (Some m))"

lemma run_cascade_pass_Inr:
  "run_cascade_pass cands lvl s = Inr (fired, s') \<Longrightarrow>
   \<exists>t. run_candidates lvl (set (dkeys (cs_working s))) (cands (set (dkeys (cs_working s)))) (s\<lparr>cs_new := []\<rparr>) = Inr t \<and>
     fired = (cs_fired t \<noteq> cs_fired s) \<and> s' = t\<lparr>cs_working := dupdate (cs_working t) (cs_new t)\<rparr>"
  by (cases "run_candidates lvl (set (dkeys (cs_working s))) (cands (set (dkeys (cs_working s)))) (s\<lparr>cs_new := []\<rparr>)")
     (auto simp: run_cascade_pass_def Let_def)

lemma cascade_from_0:
  "cascade_from cands lvl 0 s = Inr (casc, s') \<Longrightarrow> casc = lvl \<and> (\<exists>fired. run_cascade_pass cands lvl s = Inr (fired, s'))"
  by (cases "run_cascade_pass cands lvl s") auto

lemma cascade_from_Suc:
  assumes "cascade_from cands lvl (Suc left) s = Inr (casc, s')"
  shows "\<exists>fired t. run_cascade_pass cands lvl s = Inr (fired, t) \<and>
     (if fired then cascade_from cands (Suc lvl) left t = Inr (casc, s') else casc = lvl \<and> t = s')"
proof (cases "run_cascade_pass cands lvl s")
  case (Inr p)
  obtain fired t where "p = (fired, t)" by (cases p)
  then show ?thesis using assms Inr by (intro exI [of _ fired] exI [of _ t]) (cases fired, simp_all)
qed (use assms in simp)

context rule_source
begin

lemma pass_frame:
  assumes "run_cascade_pass cands lvl s = Inr (fired, s')"
  shows "extends (cs_working s) (cs_working s') \<and> cs_skipped s' = cs_skipped s \<and>
    (fired \<longleftrightarrow> will_fire cands (cs_working s)) \<and> (\<exists>frs. cs_fired s' = cs_fired s @ frs \<and> (fired \<longleftrightarrow> frs \<noteq> []))"
proof -
  let ?av = "set (dkeys (cs_working s))"
  from run_cascade_pass_Inr [OF assms]
  obtain t where t: "run_candidates lvl ?av (cands ?av) (s\<lparr>cs_new := []\<rparr>) = Inr t"
      "fired = (cs_fired t \<noteq> cs_fired s)" "s' = t\<lparr>cs_working := dupdate (cs_working t) (cs_new t)\<rparr>"
    by blast
  have fresh: "new_fresh (s\<lparr>cs_new := []\<rparr>)" by (simp add: new_fresh_def)
  have tr: "\<forall>r \<in> set (cands ?av). trigger_fields r \<subseteq> ?av" using triggered by blast
  have w0: "cs_working (s\<lparr>cs_new := []\<rparr>) = cs_working s" "cs_skipped (s\<lparr>cs_new := []\<rparr>) = cs_skipped s"
      "cs_fired (s\<lparr>cs_new := []\<rparr>) = cs_fired s" by simp_all
  from run_candidates_frame [OF t(1) tr fresh, unfolded w0]
  obtain frs where f: "cs_working t = cs_working s" "cs_skipped t = cs_skipped s" "new_fresh t"
      "cs_fired t = cs_fired s @ frs" "frs \<noteq> [] \<longleftrightarrow> will_fire cands (cs_working s)"
    unfolding will_fire_def by blast
  have "extends (cs_working s) (cs_working s')"
    using f(1,3) dupdate_extends [of "cs_new t" "cs_working t"] unfolding new_fresh_def t(3) by simp
  moreover have "fired \<longleftrightarrow> frs \<noteq> []" using t(2) f(4) by simp
  ultimately show ?thesis using f t(3) by simp
qed

text \<open>Once a rule has fired it fires in every later pass.\<close>

lemma will_fire_extends: "will_fire cands w \<Longrightarrow> extends w w' \<Longrightarrow> will_fire cands w'"
proof -
  assume "will_fire cands w" and e: "extends w w'"
  then obtain r m where r: "r \<in> set (cands (set (dkeys w)))" "try_fire r w = Inr (Some m)"
    unfolding will_fire_def by blast
  have "r \<in> set (cands (set (dkeys w')))" using cands_mono [OF r(1) extends_keys [OF e]] .
  moreover have "try_fire r w' = Inr (Some m)" using try_fire_extends [OF e triggered [OF r(1)]] r(2) by simp
  ultimately show ?thesis unfolding will_fire_def by blast
qed

lemma cascade_frame:
  assumes "cascade_from cands lvl left s = Inr (casc, s')"
  shows "cs_skipped s' = cs_skipped s \<and>
    (if will_fire cands (cs_working s)
     then casc = lvl + left \<and> length (cs_fired s) + left < length (cs_fired s')
     else casc = lvl \<and> cs_fired s' = cs_fired s)"
  using assms
proof (induction left arbitrary: lvl s)
  case 0
  then obtain fired where p: "run_cascade_pass cands lvl s = Inr (fired, s')" and c: "casc = lvl"
    using cascade_from_0 by blast
  from pass_frame [OF p] obtain frs where "cs_skipped s' = cs_skipped s" "cs_fired s' = cs_fired s @ frs"
      "fired \<longleftrightarrow> frs \<noteq> []" "fired \<longleftrightarrow> will_fire cands (cs_working s)" by blast
  with c show ?case by (cases fired) simp_all
next
  case (Suc left)
  from cascade_from_Suc [OF Suc.prems] obtain fired t where t: "run_cascade_pass cands lvl s = Inr (fired, t)"
      "if fired then cascade_from cands (Suc lvl) left t = Inr (casc, s') else casc = lvl \<and> t = s'"
    by blast
  from pass_frame [OF t(1)] obtain frs where p: "cs_skipped t = cs_skipped s" "cs_fired t = cs_fired s @ frs"
      "fired \<longleftrightarrow> frs \<noteq> []" "fired \<longleftrightarrow> will_fire cands (cs_working s)"
      and e: "extends (cs_working s) (cs_working t)" by blast
  show ?case
  proof (cases fired)
    case True
    then have w: "will_fire cands (cs_working t)" using p(4) will_fire_extends [OF _ e] by blast
    from t(2) True have "cascade_from cands (Suc lvl) left t = Inr (casc, s')" by simp
    moreover from Suc.IH [OF this] w have "cs_skipped s' = cs_skipped t" "casc = Suc lvl + left"
        "length (cs_fired t) + left < length (cs_fired s')" by simp_all
    ultimately show ?thesis using p True by (cases frs) simp_all
  next
    case False
    with t(2) p show ?thesis by auto
  qed
qed

lemma infer_depth:
  assumes "infer_with cands ent = Inr r"
  shows "er_skipped r = 0" and "er_depth r = (if er_fired r = [] then 0 else max_cascade_depth)"
    and "er_fired r \<noteq> [] \<Longrightarrow> max_cascade_depth < length (er_fired r)"
proof -
  from assms obtain casc s where c: "cascade_from cands 0 max_cascade_depth (start_cascade ent) = Inr (casc, s)"
    and r: "er_skipped r = cs_skipped s" "er_fired r = cs_fired s"
      "er_depth r = (if cs_fired s \<noteq> [] then min (casc + 1) max_cascade_depth else 0)"
    by (auto simp: infer_with_def bind_res_Inr_iff)
  from cascade_frame [OF c] have "cs_skipped s = 0 \<and>
      (cs_fired s = [] \<or> casc = max_cascade_depth \<and> max_cascade_depth < length (cs_fired s))"
    by (cases "will_fire cands ent") (simp_all add: start_cascade_def)
  then show "er_skipped r = 0" and "er_depth r = (if er_fired r = [] then 0 else max_cascade_depth)"
    and "er_fired r \<noteq> [] \<Longrightarrow> max_cascade_depth < length (er_fired r)"
    by (auto simp: r)
qed

end

section \<open>Properties\<close>

text \<open>
  C37: the conflict rule. For every field a rule fired for, the derived value was produced by a rule
  that fired, no fired rule that produces the field has a higher (priority, confidence), and the
  field's derivation chain ends with that winner.
\<close>

theorem winner_is_best:
  assumes "infer ent reg = Inr r" and "fr \<in> set (er_fired r)" and "k \<in> set (dkeys (outputs_produced fr))"
  shows "\<exists>w \<in> set (er_fired r). \<exists>v ids. dget (er_derived r) k = Some v \<and> (k, v) \<in> set (outputs_produced w) \<and>
    rank_le (fired_priority fr, fired_confidence fr) (fired_priority w, fired_confidence w) \<and>
    dget (er_chains r) k = Some (ids @ [fired_rule w])"
proof -
  from assms(1) obtain casc s where
    c: "cascade_from (candidates_for reg) 0 max_cascade_depth (start_cascade ent) = Inr (casc, s)"
    and r: "er_fired r = cs_fired s" "er_derived r = map (\<lambda>(k, v). (k, fst v)) (cs_best s)" "er_chains r = cs_chains s"
    by (auto simp: infer_def infer_with_def bind_res_Inr_iff)
  from cascade_winners [OF start_winners c] have w: "winners_ok s" .
  with assms(2,3) obtain v p cf rid where b: "dget (cs_best s) k = Some (v, p, cf, rid)"
      "rank_le (fired_priority fr, fired_confidence fr) (p, cf)"
    unfolding r winners_ok_def beaten_def by blast
  from w b(1) obtain wr where "wr \<in> set (cs_fired s)" "fired_rule wr = rid" "fired_priority wr = p"
      "fired_confidence wr = cf" "(k, v) \<in> set (outputs_produced wr)" unfolding winners_ok_def by blast
  moreover from w b(1) obtain ids where "dget (cs_chains s) k = Some (ids @ [rid])"
    unfolding winners_ok_def chain_ok_def by blast
  moreover have "dget (er_derived r) k = Some v" using b(1) by (simp add: r map_of_map)
  ultimately show ?thesis using b(2) by (intro bexI [of _ wr] exI [of _ v] exI [of _ ids]) (auto simp: r)
qed

definition sample_registry :: rule_registry where
  "sample_registry = add_rule ((simple_rule ''r2'' [''f''])\<lparr>priority := 20\<rparr>)
     (add_rule (simple_rule ''r1'' [''f'']) empty_registry)"

lemma infer_sample:
  "\<exists>r fr1 fr2 rest. infer [(''f'', PInt 1)] sample_registry = Inr r \<and> er_fired r = fr1 # fr2 # rest \<and>
     outputs_produced fr1 = [(''out'', PStr ''r1'')] \<and> fired_priority fr1 = 10 \<and>
     er_derived r = [(''out'', PStr ''r2'')]"
  by (simp add: infer_def infer_with_def start_cascade_def max_cascade_depth_def eval_nat_numeral
      run_cascade_pass_def candidates_for_def all_rules_def sample_registry_def add_rule_def simple_rule_def
      empty_registry_def trigger_fields_def fire_candidate_def try_fire_def evaluate_condition_def
      rule_outputs_def offer_output_def rank_le_def dget_or_def dmem_def dupdate_def Let_def
      del: set_map cong: if_cong)

theorem winner_is_best_witness:
  "\<exists>r fr w v. infer [(''f'', PInt 1)] sample_registry = Inr r \<and> fr \<in> set (er_fired r) \<and>
     w \<in> set (er_fired r) \<and> dget (er_derived r) ''out'' = Some v \<and> (''out'', v) \<in> set (outputs_produced w) \<and>
     rank_le (fired_priority fr, fired_confidence fr) (fired_priority w, fired_confidence w)"
proof -
  from infer_sample obtain r fr1 fr2 rest where i: "infer [(''f'', PInt 1)] sample_registry = Inr r"
      "er_fired r = fr1 # fr2 # rest" "outputs_produced fr1 = [(''out'', PStr ''r1'')]" by blast
  then have "fr1 \<in> set (er_fired r)" "''out'' \<in> set (dkeys (outputs_produced fr1))" by simp_all
  from winner_is_best [OF i(1) this] this(1) i(1) show ?thesis by blast
qed

text \<open>
  \<open>cascade_depth\<close> and \<open>rules_skipped\<close> carry no information. A pass never overwrites a field, so
  every rule that fired fires again in each later pass and the loop never stops early once a rule
  has fired: the reported depth is 0 or the maximum, and \<open>rules_fired\<close> lists each rule of the
  first pass once per pass. The candidates are already filtered, so the skip counter stays 0.
\<close>

theorem cascade_depth_degenerate:
  assumes "infer ent reg = Inr r"
  shows "er_skipped r = 0 \<and> er_depth r = (if er_fired r = [] then 0 else max_cascade_depth) \<and>
    (er_fired r = [] \<or> max_cascade_depth < length (er_fired r))"
  using registry_source.infer_depth [OF assms [unfolded infer_def]] by auto

theorem cascade_depth_degenerate_witness:
  "\<exists>r. infer [(''f'', PInt 1)] sample_registry = Inr r \<and> er_skipped r = 0 \<and> er_depth r = max_cascade_depth \<and>
     max_cascade_depth < length (er_fired r)"
proof -
  from infer_sample obtain r fr1 rest where "infer [(''f'', PInt 1)] sample_registry = Inr r"
      "er_fired r = fr1 # rest" by blast
  with cascade_depth_degenerate [OF this(1)] show ?thesis by simp
qed

end
