(* ===== verification/GradeEngine.thy ===== *)
theory GradeEngine
  imports PyValue
begin

text \<open>
  \<open>app/engines/inference/grade_engine.py\<close>: grade conditions, the score of a grade, the selection
  of the best grade and the reading of grade definitions from the knowledge base. The pydantic
  validation of a normalised entry is the parameter \<open>validate\<close>.
\<close>

record grade_condition =
  gc_field :: string
  gc_min :: "f64 option"
  gc_max :: "f64 option"
  gc_value :: pyval
  gc_values :: "pyval list option"

record grade_definition =
  grade_id :: string
  grade_label :: string
  grade_conditions :: "grade_condition list"
  tier :: string
  application_class :: string
  quality_tier :: string
  grade_description :: string

record grade_result =
  gr_id :: string
  gr_label :: string
  gr_tier :: string
  gr_application_class :: string
  gr_quality_tier :: string
  match_score :: f64
  gr_met :: "string list"
  gr_missed :: "string list"
  fallback_used :: bool
  gr_confidence :: f64

definition default_threshold :: f64 where
  "default_threshold = flt (6 / 10)"

section \<open>Conditions and scores\<close>

definition lower_str :: "pyval \<Rightarrow> string" where
  "lower_str v = py_lower (py_str v)"

definition in_values :: "pyval \<Rightarrow> pyval list \<Rightarrow> bool" where
  "in_values val vs =
     (case val of
        PList xs \<Rightarrow> list_ex (\<lambda>x. lower_str x \<in> set (map lower_str vs)) xs
      | _ \<Rightarrow> lower_str val \<in> set (map lower_str vs))"

definition evaluate_grade_condition :: "grade_condition \<Rightarrow> fields \<Rightarrow> bool" where
  "evaluate_grade_condition c ent =
     (let val = dget_or ent (gc_field c) PNone in
      if val = PNone then False
      else case (gc_min c, gc_max c) of
        (Some lo, Some hi) \<Rightarrow> (case py_float val of Inr x \<Rightarrow> lo \<le> x \<and> x \<le> hi | Inl _ \<Rightarrow> False)
      | (Some lo, None) \<Rightarrow> (case py_float val of Inr x \<Rightarrow> lo \<le> x | Inl _ \<Rightarrow> False)
      | (None, Some hi) \<Rightarrow> (case py_float val of Inr x \<Rightarrow> x \<le> hi | Inl _ \<Rightarrow> False)
      | (None, None) \<Rightarrow>
          (case gc_values c of
             Some vs \<Rightarrow> in_values val vs
           | None \<Rightarrow>
               if gc_value c \<noteq> PNone
               then py_lower (py_strip (py_str val)) = py_lower (py_strip (py_str (gc_value c)))
               else False))"

fun split_conditions :: "grade_condition list \<Rightarrow> fields \<Rightarrow> string list \<times> string list \<Rightarrow> string list \<times> string list" where
  "split_conditions [] ent (met, missed) = (met, missed)"
| "split_conditions (c # cs) ent (met, missed) =
     split_conditions cs ent
       (if evaluate_grade_condition c ent then (met @ [gc_field c], missed) else (met, missed @ [gc_field c]))"

definition score_grade :: "grade_definition \<Rightarrow> fields \<Rightarrow> f64 \<times> string list \<times> string list" where
  "score_grade gd ent =
     (let (met, missed) = split_conditions (grade_conditions gd) ent ([], []);
          n = length (grade_conditions gd)
      in (if 0 < n then py_int_div (int (length met)) (int n) else 0, met, missed))"

section \<open>Selection\<close>

record selection =
  sel_best :: "grade_result option"
  sel_closest :: "grade_result option"

definition candidate_of :: "fields \<Rightarrow> grade_definition \<Rightarrow> grade_result" where
  "candidate_of ent gd =
     (let (score, met, missed) = score_grade gd ent in
      \<lparr>gr_id = grade_id gd, gr_label = grade_label gd, gr_tier = tier gd,
       gr_application_class = application_class gd, gr_quality_tier = quality_tier gd,
       match_score = py_round 4 score, gr_met = met, gr_missed = missed,
       fallback_used = False, gr_confidence = py_round 4 score\<rparr>)"

text \<open>\<open>old is None or score > old.match_score\<close>: the raw score against the rounded one.\<close>

definition beats :: "f64 \<Rightarrow> grade_result option \<Rightarrow> bool" where
  "beats score old = (case old of None \<Rightarrow> True | Some r \<Rightarrow> match_score r < score)"

definition consider_grade :: "fields \<Rightarrow> f64 \<Rightarrow> grade_definition \<Rightarrow> selection \<Rightarrow> selection" where
  "consider_grade ent threshold gd s =
     (let score = fst (score_grade gd ent); c = candidate_of ent gd in
      \<lparr>sel_best = (if threshold \<le> score \<and> beats score (sel_best s) then Some c else sel_best s),
       sel_closest = (if beats score (sel_closest s) then Some c else sel_closest s)\<rparr>)"

definition classify :: "fields \<Rightarrow> grade_definition list \<Rightarrow> f64 \<Rightarrow> grade_result option" where
  "classify ent defs threshold =
     (if defs = [] then None
      else let s = fold (consider_grade ent threshold) defs \<lparr>sel_best = None, sel_closest = None\<rparr> in
        case sel_best s of
          Some b \<Rightarrow> Some b
        | None \<Rightarrow>
            (case sel_closest s of
               Some c \<Rightarrow>
                 if 0 < match_score c
                 then Some (c\<lparr>fallback_used := True, gr_confidence := py_round 4 (match_score c * flt (7 / 10))\<rparr>)
                 else None
             | None \<Rightarrow> None))"

section \<open>Reading grade definitions\<close>

definition copy_key :: "string \<Rightarrow> fields \<Rightarrow> fields \<Rightarrow> fields" where
  "copy_key k src d = (case dget src k of Some v \<Rightarrow> dset k v d | None \<Rightarrow> d)"

definition property_condition :: "string \<times> pyval \<Rightarrow> pyval" where
  "property_condition p =
     (case snd p of
        PDict m \<Rightarrow> PDict (fold (\<lambda>k. copy_key k m) [''min'', ''max'', ''value'', ''values''] [(''field'', PStr (fst p))])
      | v \<Rightarrow> PDict [(''field'', PStr (fst p)), (''value'', v)])"

definition properties_to_conditions :: "pyval \<Rightarrow> pyerr + pyval list" where
  "properties_to_conditions props =
     (case props of PDict d \<Rightarrow> Inr (map property_condition d) | _ \<Rightarrow> Inl AttributeError)"

definition normalise_entry :: "fields \<Rightarrow> pyval \<Rightarrow> nat \<Rightarrow> fields" where
  "normalise_entry e conds idx =
     [(''grade_id'', dget_or e ''grade_id'' (dget_or e ''id'' (PStr (''grade-'' @ str_int (int idx))))),
      (''grade_label'', dget_or e ''grade_label'' (dget_or e ''grade_name'' (PStr []))),
      (''conditions'', conds),
      (''tier'', dget_or e ''tier'' (PStr [])),
      (''application_class'', dget_or e ''application_class'' (PStr [])),
      (''quality_tier'', dget_or e ''quality_tier'' (PStr [])),
      (''description'', dget_or e ''description'' (PStr []))]"

definition build_grade_definition ::
    "(fields \<Rightarrow> grade_definition option) \<Rightarrow> pyval \<Rightarrow> nat \<Rightarrow> pyerr + grade_definition option" where
  "build_grade_definition validate entry idx =
     (case entry of
        PDict e \<Rightarrow>
          (let raw = dget_or e ''conditions'' (PList []) in
           bind_res
             (case dget e ''properties'' of
                Some props \<Rightarrow> if \<not> truthy raw then map_sum id PList (properties_to_conditions props) else Inr raw
              | None \<Rightarrow> Inr raw)
             (\<lambda>conds. Inr (if \<not> truthy conds then None else validate (normalise_entry e conds idx))))
      | _ \<Rightarrow> Inl AttributeError)"

fun load_grades ::
    "(fields \<Rightarrow> grade_definition option) \<Rightarrow> nat \<Rightarrow> pyval list \<Rightarrow> pyerr + grade_definition list" where
  "load_grades validate idx [] = Inr []"
| "load_grades validate idx (e # es) =
     bind_res (build_grade_definition validate e idx) (\<lambda>g.
     bind_res (load_grades validate (Suc idx) es) (\<lambda>gs.
       Inr (case g of Some gd \<Rightarrow> gd # gs | None \<Rightarrow> gs)))"

definition load_grade_definitions ::
    "(fields \<Rightarrow> grade_definition option) \<Rightarrow> fields \<Rightarrow> pyerr + grade_definition list" where
  "load_grade_definitions validate kb =
     bind_res (py_iter (dget_or kb ''material_grades'' (dget_or kb ''grades'' (PList []))))
       (load_grades validate 0)"

section \<open>Which grade is selected\<close>

definition raw_score :: "fields \<Rightarrow> grade_definition \<Rightarrow> f64" where
  "raw_score ent gd = fst (score_grade gd ent)"

lemma split_conditions_filter:
  "split_conditions cs ent (met, missed) =
     (met @ map gc_field (filter (\<lambda>c. evaluate_grade_condition c ent) cs),
      missed @ map gc_field (filter (\<lambda>c. \<not> evaluate_grade_condition c ent) cs))"
  by (induction cs arbitrary: met missed) simp_all

lemma raw_score_bounds: "0 \<le> raw_score ent gd" "raw_score ent gd \<le> 1"
  by (auto simp: raw_score_def score_grade_def split_conditions_filter Let_def intro!: py_int_div_bounds)

lemma candidate_simps [simp]:
  "match_score (candidate_of ent gd) = py_round 4 (raw_score ent gd)"
  "gr_id (candidate_of ent gd) = grade_id gd" "fallback_used (candidate_of ent gd) = False"
  "gr_confidence (candidate_of ent gd) = py_round 4 (raw_score ent gd)"
  "gr_met (candidate_of ent gd) = map gc_field (filter (\<lambda>c. evaluate_grade_condition c ent) (grade_conditions gd))"
  by (simp_all add: candidate_of_def raw_score_def score_grade_def split_conditions_filter Let_def)

lemma round_raw_score: "py_round 4 (py_round 4 (raw_score ent gd)) = py_round 4 (raw_score ent gd)"
  using raw_score_bounds by (intro py_round_idem) simp_all

text \<open>A slot holds the candidate of highest rounded score among the grades seen that satisfy \<open>ok\<close>.\<close>

definition slot_ok :: "fields \<Rightarrow> (grade_definition \<Rightarrow> bool) \<Rightarrow> grade_definition set \<Rightarrow> grade_result option \<Rightarrow> bool" where
  "slot_ok ent ok ds slot \<longleftrightarrow>
     (case slot of None \<Rightarrow> \<forall>gd \<in> ds. \<not> ok gd
      | Some r \<Rightarrow> (\<exists>gd \<in> ds. ok gd \<and> r = candidate_of ent gd) \<and>
          (\<forall>gd \<in> ds. ok gd \<longrightarrow> py_round 4 (raw_score ent gd) \<le> match_score r))"

lemma slot_step:
  assumes "slot_ok ent ok ds slot"
  shows "slot_ok ent ok (insert gd ds)
    (if ok gd \<and> beats (raw_score ent gd) slot then Some (candidate_of ent gd) else slot)"
proof (cases slot)
  case (Some r)
  with assms obtain g0 where g0: "g0 \<in> ds" "ok g0" "r = candidate_of ent g0"
    and le: "\<And>g. g \<in> ds \<Longrightarrow> ok g \<Longrightarrow> py_round 4 (raw_score ent g) \<le> match_score r"
    by (auto simp: slot_ok_def)
  have idem: "py_round 4 (match_score r) = match_score r" using g0(3) round_raw_score by simp
  show ?thesis
  proof (cases "match_score r < raw_score ent gd")
    case True
    then have "match_score r \<le> py_round 4 (raw_score ent gd)"
      using py_round_mono [of "match_score r" "raw_score ent gd" 4] idem by simp
    then have "\<And>g. g \<in> ds \<Longrightarrow> ok g \<Longrightarrow> py_round 4 (raw_score ent g) \<le> py_round 4 (raw_score ent gd)"
      using le by (meson order_trans)
    then show ?thesis using True Some assms by (auto simp: slot_ok_def beats_def)
  next
    case False
    then have "py_round 4 (raw_score ent gd) \<le> match_score r"
      using py_round_mono [of "raw_score ent gd" "match_score r" 4] idem by simp
    then show ?thesis using False Some assms by (auto simp: slot_ok_def beats_def)
  qed
qed (use assms in \<open>auto simp: slot_ok_def beats_def\<close>)

lemma consider_slots:
  assumes "slot_ok ent (\<lambda>gd. thr \<le> raw_score ent gd) ds (sel_best s)" and "slot_ok ent (\<lambda>_. True) ds (sel_closest s)"
  shows "slot_ok ent (\<lambda>gd. thr \<le> raw_score ent gd) (set gds \<union> ds) (sel_best (fold (consider_grade ent thr) gds s)) \<and>
    slot_ok ent (\<lambda>_. True) (set gds \<union> ds) (sel_closest (fold (consider_grade ent thr) gds s))"
  using assms
proof (induction gds arbitrary: ds s)
  case (Cons gd gds)
  let ?s = "consider_grade ent thr gd s"
  have "slot_ok ent (\<lambda>gd. thr \<le> raw_score ent gd) (insert gd ds) (sel_best ?s)"
    using slot_step [OF Cons.prems(1), of gd] by (simp add: consider_grade_def raw_score_def Let_def)
  moreover have "slot_ok ent (\<lambda>_. True) (insert gd ds) (sel_closest ?s)"
    using slot_step [OF Cons.prems(2), of gd] by (simp add: consider_grade_def raw_score_def Let_def)
  ultimately show ?case using Cons.IH [of "insert gd ds" ?s] by simp
qed simp

section \<open>Properties\<close>

text \<open>
  The selection. When some grade reaches the threshold, the result is such a grade, it is no
  fallback, and no grade that reaches the threshold has a higher rounded score; otherwise the
  result is the grade of highest rounded score, marked as a fallback with 0.7 of its confidence;
  and there is no result exactly when no grade reaches the threshold and all rounded scores are 0.
  The reported conditions are the satisfied ones, in the order of the grade.
\<close>

theorem classify_best:
  "case classify ent defs thr of
     None \<Rightarrow> \<forall>gd \<in> set defs. raw_score ent gd < thr \<and> py_round 4 (raw_score ent gd) = 0
   | Some r \<Rightarrow> \<exists>gd \<in> set defs. gr_id r = grade_id gd \<and> match_score r = py_round 4 (raw_score ent gd) \<and>
       gr_met r = map gc_field (filter (\<lambda>c. evaluate_grade_condition c ent) (grade_conditions gd)) \<and>
       (if fallback_used r
        then (\<forall>g \<in> set defs. raw_score ent g < thr \<and> py_round 4 (raw_score ent g) \<le> match_score r) \<and>
          gr_confidence r = py_round 4 (match_score r * flt (7 / 10))
        else thr \<le> raw_score ent gd \<and> gr_confidence r = match_score r \<and>
          (\<forall>g \<in> set defs. thr \<le> raw_score ent g \<longrightarrow> py_round 4 (raw_score ent g) \<le> match_score r))"
proof (cases "defs = []")
  case False
  let ?s = "fold (consider_grade ent thr) defs \<lparr>sel_best = None, sel_closest = None\<rparr>"
  have slots: "slot_ok ent (\<lambda>gd. thr \<le> raw_score ent gd) (set defs) (sel_best ?s)"
      "slot_ok ent (\<lambda>_. True) (set defs) (sel_closest ?s)"
    using consider_slots [of ent thr "{}" "\<lparr>sel_best = None, sel_closest = None\<rparr>" defs] by (simp_all add: slot_ok_def)
  show ?thesis
  proof (cases "sel_best ?s")
    case (Some b)
    then show ?thesis using False slots(1) by (auto simp: classify_def slot_ok_def Let_def)
  next
    case None
    then have low: "\<And>g. g \<in> set defs \<Longrightarrow> raw_score ent g < thr" using slots(1) by (force simp: slot_ok_def)
    from False slots(2) obtain c where c: "sel_closest ?s = Some c"
      by (cases "sel_closest ?s") (auto simp: slot_ok_def)
    with slots(2) obtain gd where gd: "gd \<in> set defs" "c = candidate_of ent gd"
      and le: "\<And>g. g \<in> set defs \<Longrightarrow> py_round 4 (raw_score ent g) \<le> match_score c" by (auto simp: slot_ok_def)
    show ?thesis
    proof (cases "0 < match_score c")
      case True
      then show ?thesis using False None c gd le low by (auto simp: classify_def Let_def intro!: bexI [of _ gd])
    next
      case zero: False
      have "py_round 4 (raw_score ent g) = 0" if "g \<in> set defs" for g
        using le [OF that] zero py_round_nonneg [OF raw_score_bounds(1), of 4 ent g] by simp
      then show ?thesis using False None c zero low by (simp add: classify_def Let_def)
    qed
  qed
qed (simp add: classify_def)

definition exists_grade :: "string \<Rightarrow> string list \<Rightarrow> grade_definition" where
  "exists_grade gid fs = \<lparr>grade_id = gid, grade_label = [],
     grade_conditions = map (\<lambda>f. \<lparr>gc_field = f, gc_min = Some 0, gc_max = None, gc_value = PNone, gc_values = None\<rparr>) fs,
     tier = [], application_class = [], quality_tier = [], grade_description = []\<rparr>"

theorem classify_best_witness:
  "\<exists>r. classify [(''x'', PInt 1)] [exists_grade ''B'' [''x'', ''y''], exists_grade ''A'' [''x'']] default_threshold = Some r \<and>
     py_round 4 (raw_score [(''x'', PInt 1)] (exists_grade ''A'' [''x''])) \<le> match_score r"
proof -
  let ?e = "[(''x'', PInt 1)]" and ?A = "exists_grade ''A'' [''x'']"
  let ?ds = "[exists_grade ''B'' [''x'', ''y''], ?A]"
  have a: "raw_score ?e ?A = 1"
    by (simp add: raw_score_def score_grade_def exists_grade_def evaluate_grade_condition_def dget_or_def)
  have thr: "default_threshold \<le> 1" by (simp add: default_threshold_def flt_le_1)
  with a classify_best [where ent = ?e and defs = ?ds and thr = default_threshold] obtain r
    where r: "classify ?e ?ds default_threshold = Some r"
    by (cases "classify ?e ?ds default_threshold") auto
  with a thr classify_best [where ent = ?e and defs = ?ds and thr = default_threshold] show ?thesis by (auto split: if_splits)
qed

text \<open>
  Which of two grades with the same score wins depends on the rounding of that score, because
  the raw score of a grade is compared with the rounded score of the best one so far. At 4/5 the
  first of two equal grades is kept; at 5/6 (0.8333 after rounding) the second replaces it.
\<close>

theorem tie_depends_on_rounding:
  "map_option gr_id (classify [(''a'', PInt 1), (''b'', PInt 1), (''c'', PInt 1), (''d'', PInt 1)]
     (map (\<lambda>gid. exists_grade gid [''a'', ''b'', ''c'', ''d'', ''x'']) [''first'', ''second'']) default_threshold) = Some ''first'' \<and>
   map_option gr_id (classify [(''a'', PInt 1), (''b'', PInt 1), (''c'', PInt 1), (''d'', PInt 1), (''e'', PInt 1)]
     (map (\<lambda>gid. exists_grade gid [''a'', ''b'', ''c'', ''d'', ''e'', ''x'']) [''first'', ''second'']) default_threshold) = Some ''second''"
  apply (simp add: classify_def consider_grade_def candidate_of_def score_grade_def exists_grade_def beats_def
    default_threshold_def evaluate_grade_condition_def dget_or_def Let_def py_int_div_def)
  apply (simp add: f64_eval)
  done

end
