(* ===== verification/Voting.thy ===== *)
theory Voting
  imports PyValue
begin

text \<open>
  Counting votes, shared by the consensus modules: the builtin \<open>max\<close> with a key (the first of
  the maximal elements), \<open>collections.Counter\<close> with \<open>most_common(1)\<close>, and the choice of the first
  value whose key is the most common one. The locale \<open>plurality\<close> is what the consensus modules
  rely on; it is interpreted on \<open>vote_by\<close> for every key function.
\<close>

section \<open>The first maximum\<close>

fun first_max :: "('a \<Rightarrow> 'b :: linorder) \<Rightarrow> 'a \<Rightarrow> 'a list \<Rightarrow> 'a" where
  "first_max f b [] = b"
| "first_max f b (x # xs) = first_max f (if f b < f x then x else b) xs"

lemma first_max_mem: "first_max f b xs \<in> set (b # xs)"
proof (induction xs arbitrary: b)
  case (Cons x xs)
  from Cons [of "if f b < f x then x else b"] show ?case by (auto split: if_splits)
qed simp

lemma first_max_ge: "x \<in> set (b # xs) \<Longrightarrow> f x \<le> f (first_max f b xs)"
proof (induction xs arbitrary: b x)
  case (Cons y ys)
  let ?b = "if f b < f y then y else b"
  have b: "f b \<le> f ?b" "f y \<le> f ?b" by auto
  have "f ?b \<le> f (first_max f ?b ys)" using Cons.IH [of ?b ?b] by simp
  with b Cons.prems Cons.IH [of x ?b] show ?case by (auto intro: order_trans simp del: if_split)
qed simp

section \<open>Counter\<close>

definition count_vote :: "'k \<Rightarrow> ('k, nat) dict \<Rightarrow> ('k, nat) dict" where
  "count_vote k d = dset k (dget_or d k 0 + 1) d"

definition tally :: "'k list \<Rightarrow> ('k, nat) dict" where
  "tally ks = fold count_vote ks []"

definition most_common :: "('k, nat) dict \<Rightarrow> ('k \<times> nat) option" where
  "most_common d = (case d of [] \<Rightarrow> None | e # es \<Rightarrow> Some (first_max snd e es))"

lemma dget_or_fold_count: "dget_or (fold count_vote ks d) k 0 = dget_or d k 0 + count_list ks k"
  by (induction ks arbitrary: d) (auto simp: count_vote_def dget_or_simps)

lemma keys_fold_count: "set (dkeys (fold count_vote ks d)) = set (dkeys d) \<union> set ks"
  by (induction ks arbitrary: d) (auto simp: count_vote_def keys_dset simp del: set_map)

lemma fold_count_ok: "dict_ok d \<Longrightarrow> dict_ok (fold count_vote ks d)"
  by (induction ks arbitrary: d) (simp_all add: count_vote_def alist.ok_put)

lemma tally_items: "set (tally ks) = {(k, count_list ks k) | k. k \<in> set ks}"
proof -
  have ok: "dict_ok (tally ks)" by (simp add: tally_def fold_count_ok)
  have keys: "set (dkeys (tally ks)) = set ks" using keys_fold_count [of ks "[]"] by (simp add: tally_def)
  have n: "dget_or (tally ks) k 0 = count_list ks k" for k
    using dget_or_fold_count [of ks "[]" k] by (simp add: tally_def dget_or_def)
  have "(k, m) \<in> set (tally ks) \<longleftrightarrow> k \<in> set ks \<and> m = count_list ks k" for k m
  proof
    assume km: "(k, m) \<in> set (tally ks)"
    then have "dget (tally ks) k = Some m" using ok by simp
    then show "k \<in> set ks \<and> m = count_list ks k" using n [of k] km keys by (force simp: dget_or_def)
  next
    assume km: "k \<in> set ks \<and> m = count_list ks k"
    then have "k \<in> dom (dget (tally ks))" using keys alist.keys_get [of "tally ks"] by simp
    then obtain m' where "dget (tally ks) k = Some m'" by blast
    then show "(k, m) \<in> set (tally ks)" using n [of k] km by (auto simp: dget_or_def dest: map_of_SomeD)
  qed
  then show ?thesis by auto
qed

lemma tally_empty [simp]: "tally ks = [] \<longleftrightarrow> ks = []"
proof
  assume "tally ks = []"
  with tally_items [of ks] show "ks = []" by auto
qed (simp add: tally_def)

lemma tally_Nil [simp]: "tally [] = []"
  by simp

lemma most_common_tally:
  assumes "ks \<noteq> []"
  obtains k where "most_common (tally ks) = Some (k, count_list ks k)" and "k \<in> set ks"
    and "\<And>k'. count_list ks k' \<le> count_list ks k"
proof -
  from assms obtain e es where t: "tally ks = e # es" by (cases "tally ks") auto
  let ?m = "first_max snd e es"
  have "?m \<in> set (tally ks)" using first_max_mem [of snd e es] t by simp
  then obtain k where k: "?m = (k, count_list ks k)" "k \<in> set ks" by (auto simp: tally_items)
  have "count_list ks k' \<le> count_list ks k" for k'
  proof (cases "k' \<in> set ks")
    case True
    then have "(k', count_list ks k') \<in> set (e # es)" using t tally_items [of ks] by auto
    from first_max_ge [OF this, of snd] show ?thesis using k by simp
  qed (simp add: count_notin)
  with that k t show ?thesis by (simp add: most_common_def)
qed

section \<open>Electing a value\<close>

definition vote_by :: "('v \<Rightarrow> 'k) \<Rightarrow> 'v list \<Rightarrow> ('v \<times> nat) option" where
  "vote_by key vs =
     (case most_common (tally (map key vs)) of
        None \<Rightarrow> None
      | Some (k, n) \<Rightarrow> map_option (\<lambda>v. (v, n)) (List.find (\<lambda>v. key v = k) vs))"

locale plurality =
  fixes key :: "'v \<Rightarrow> 'k" and elect :: "'v list \<Rightarrow> ('v \<times> nat) option"
  assumes elects: "vs \<noteq> [] \<Longrightarrow> \<exists>v. elect vs = Some (v, count_list (map key vs) (key v)) \<and> v \<in> set vs"
    and most_votes: "elect vs = Some (v, n) \<Longrightarrow> count_list (map key vs) k \<le> n"
    and no_vote: "elect [] = None"
begin

lemma elected:
  assumes "elect vs = Some (v, n)"
  shows "v \<in> set vs" and "n = count_list (map key vs) (key v)" and "0 < n" and "n \<le> length vs"
proof -
  from assms no_vote have "vs \<noteq> []" by auto
  from elects [OF this] assms show v: "v \<in> set vs" and n: "n = count_list (map key vs) (key v)" by auto
  from v have "key v \<in> set (map key vs)" by simp
  then show "0 < n" unfolding n by (metis count_list_0_iff neq0_conv)
  show "n \<le> length vs" unfolding n using count_le_length [of "map key vs" "key v"] by simp
qed

text \<open>Two disjoint groups of voters.\<close>

lemma count_two: "a \<noteq> b \<Longrightarrow> count_list xs a + count_list xs b \<le> length xs"
  by (induction xs) auto

lemma majority_wins:
  assumes "elect vs = Some (v, n)" and "length vs < 2 * count_list (map key vs) k"
  shows "key v = k"
proof (rule ccontr)
  assume "key v \<noteq> k"
  from count_two [OF this, of "map key vs"] elected(2) [OF assms(1)] most_votes [OF assms(1), of k] assms(2)
  show False by simp
qed

lemma majority_unique:
  assumes "elect vs = Some (v, n)" and "length vs < 2 * n" and "u \<in> set vs" and "key u \<noteq> key v"
  shows "2 * count_list (map key vs) (key u) < length vs"
  using count_two [OF assms(4), of "map key vs"] elected(2) [OF assms(1)] assms(2) by simp

end

interpretation counter_vote: plurality key "vote_by key"
proof unfold_locales
  fix vs :: "'a list"
  assume "vs \<noteq> []"
  then have "map key vs \<noteq> []" by simp
  from most_common_tally [OF this] obtain k where
    k: "most_common (tally (map key vs)) = Some (k, count_list (map key vs) k)" "k \<in> set (map key vs)" by metis
  then obtain v where "List.find (\<lambda>v. key v = k) vs = Some v" "v \<in> set vs" "key v = k"
    by (cases "List.find (\<lambda>v. key v = k) vs") (auto simp: find_None_iff find_Some_iff)
  with k show "\<exists>v. vote_by key vs = Some (v, count_list (map key vs) (key v)) \<and> v \<in> set vs"
    by (auto simp: vote_by_def)
next
  fix vs :: "'a list" and v n k
  assume e: "vote_by key vs = Some (v, n)"
  then have "map key vs \<noteq> []" by (auto simp: vote_by_def most_common_def)
  from most_common_tally [OF this] obtain m where
    "most_common (tally (map key vs)) = Some (m, count_list (map key vs) m)"
    "\<And>k'. count_list (map key vs) k' \<le> count_list (map key vs) m" by metis
  with e show "count_list (map key vs) k \<le> n" by (auto simp: vote_by_def)
qed (simp add: vote_by_def most_common_def)

end
