(* ===== verification/ConsensusEngine.thy ===== *)
theory ConsensusEngine
  imports Voting
begin

text \<open>
  \<open>app/services/consensus_engine.py\<close>: the per-field confidence filter and the synthesis of several
  replies into one. A reply is a dict. The order in which Python visits the set of field names is
  the argument \<open>ord\<close>; the lemmas assume \<open>set_order ord\<close>, that it lists exactly the elements.
\<close>

section \<open>Per-field confidence filter\<close>

definition reply_confidence :: "fields \<Rightarrow> f64" where
  "reply_confidence reply =
     (let c = dget_or reply ''confidence'' PNone in
      if truthy c then (case py_float c of Inr x \<Rightarrow> x | Inl _ \<Rightarrow> 0) else 0)"

definition keep_field :: "(string, f64) dict \<Rightarrow> f64 \<Rightarrow> string \<times> pyval \<Rightarrow> fields \<Rightarrow> fields" where
  "keep_field thresholds conf kv kept =
     (let (key, v) = kv in
      if key = ''confidence'' then kept
      else case dget thresholds key of
        None \<Rightarrow> kept
      | Some required \<Rightarrow> if conf < required then kept else if is_blank v then kept else dset key v kept)"

definition filter_reply :: "(string, f64) dict \<Rightarrow> fields \<Rightarrow> fields" where
  "filter_reply thresholds reply =
     fold (keep_field thresholds (reply_confidence reply)) reply
       [(''confidence'', dget_or reply ''confidence'' PNone)]"

definition apply_field_confidence_thresholds :: "fields list \<Rightarrow> (string, f64) dict \<Rightarrow> fields list" where
  "apply_field_confidence_thresholds variations thresholds = map (filter_reply thresholds) variations"

section \<open>Agreement and the winning value\<close>

definition norm_value :: "pyval \<Rightarrow> string" where
  "norm_value v = py_lower (py_strip (py_str v))"

definition max_count :: "('k, nat) dict \<Rightarrow> nat" where
  "max_count d = (case d of [] \<Rightarrow> 0 | e # es \<Rightarrow> snd (first_max snd e es))"

definition calculate_field_confidence :: "pyval list \<Rightarrow> int \<Rightarrow> pyerr + f64" where
  "calculate_field_confidence values attempted =
     (if values = [] then Inr 0
      else if attempted = 0 then Inl ZeroDivisionError
      else Inr (max (flt (2 / 10)) (py_int_div (int (max_count (tally (map norm_value values)))) attempted)))"

definition median :: "f64 list \<Rightarrow> f64" where
  "median numbers =
     (let s = sort numbers; n = length s in
      if n mod 2 = 0 then (s ! (n div 2 - 1) + s ! (n div 2)) / f_of_int 2 else s ! (n div 2))"

fun floats_of :: "pyval list \<Rightarrow> f64 list option" where
  "floats_of [] = Some []"
| "floats_of (v # vs) =
     (case py_float v of Inl _ \<Rightarrow> None | Inr x \<Rightarrow> map_option (\<lambda>xs. x # xs) (floats_of vs))"

definition select_value :: "pyval list \<Rightarrow> pyval" where
  "select_value values =
     (if values = [] then PNone
      else case floats_of values of
        Some xs \<Rightarrow> PFloat (median xs)
      | None \<Rightarrow> (case vote_by py_str values of Some (v, n) \<Rightarrow> v | None \<Rightarrow> PNone))"

section \<open>Synthesis\<close>

record consensus =
  con_fields :: fields
  con_confidence :: f64
  con_per_field :: "(string, f64) dict"

definition get_all_fields :: "fields list \<Rightarrow> string list" where
  "get_all_fields variations = dedup (filter (\<lambda>k. k \<noteq> ''confidence'') (concat (map dkeys variations)))"

definition field_values :: "fields list \<Rightarrow> string \<Rightarrow> pyval list" where
  "field_values variations f = List.map_filter (\<lambda>v. dget v f) variations"

fun synthesize_fields ::
    "fields list \<Rightarrow> f64 \<Rightarrow> int \<Rightarrow> string list \<Rightarrow> fields \<times> (string, f64) dict \<Rightarrow> pyerr + fields \<times> (string, f64) dict" where
  "synthesize_fields variations threshold attempted [] (fs, cs) = Inr (fs, cs)"
| "synthesize_fields variations threshold attempted (f # rest) (fs, cs) =
     (let values = field_values variations f in
      if values = [] then synthesize_fields variations threshold attempted rest (fs, cs)
      else bind_res (calculate_field_confidence values attempted) (\<lambda>c.
        if c < threshold then synthesize_fields variations threshold attempted rest (fs, cs)
        else synthesize_fields variations threshold attempted rest (dset f (select_value values) fs, dset f c cs)))"

definition synthesize :: "(string list \<Rightarrow> string list) \<Rightarrow> fields list \<Rightarrow> f64 \<Rightarrow> int \<Rightarrow> pyerr + consensus" where
  "synthesize ord variations threshold attempted =
     (if variations = [] then Inr \<lparr>con_fields = [], con_confidence = 0, con_per_field = []\<rparr>
      else bind_res (synthesize_fields variations threshold attempted (ord (get_all_fields variations)) ([], []))
        (\<lambda>(fs, cs). Inr \<lparr>con_fields = fs,
           con_confidence = (if cs \<noteq> [] then py_sum (dvalues cs) / f_of_int (int (length cs)) else 0),
           con_per_field = cs\<rparr>))"

section \<open>The median\<close>

lemma length_floats_of: "floats_of vs = Some xs \<Longrightarrow> length xs = length vs"
  by (induction vs arbitrary: xs) (auto split: sum.splits)

lemma set_floats_of: "floats_of vs = Some xs \<Longrightarrow> set xs = {x. \<exists>v \<in> set vs. py_float v = Inr x}"
  by (induction vs arbitrary: xs) (auto split: sum.splits)

lemma count_le_sorted:
  assumes "i < length s" "\<forall>j \<le> i. s ! j \<le> m"
  shows "Suc i \<le> length (filter (\<lambda>x. x \<le> m) s)"
proof -
  have "{..i} \<subseteq> {j. j < length s \<and> s ! j \<le> m}" using assms by auto
  then have "card {..i} \<le> card {j. j < length s \<and> s ! j \<le> m}" by (intro card_mono) auto
  then show ?thesis by (simp add: length_filter_conv_card)
qed

lemma count_ge_sorted:
  assumes "\<forall>j. i \<le> j \<longrightarrow> j < length s \<longrightarrow> m \<le> s ! j"
  shows "length s - i \<le> length (filter (\<lambda>x. m \<le> x) s)"
proof -
  have "{i..<length s} \<subseteq> {j. j < length s \<and> m \<le> s ! j}" using assms by auto
  then have "card {i..<length s} \<le> card {j. j < length s \<and> m \<le> s ! j}" by (intro card_mono) auto
  then show ?thesis by (simp add: length_filter_conv_card)
qed

lemma filter_sort_length: "length (filter P (sort xs)) = length (filter P xs)"
  by (metis filter_sort length_sort)

lemma median_halves:
  assumes "xs \<noteq> []"
  shows "length xs \<le> 2 * length (filter (\<lambda>x. x \<le> median xs) xs) \<and>
    length xs \<le> 2 * length (filter (\<lambda>x. median xs \<le> x) xs)"
proof -
  let ?s = "sort xs" and ?n = "length xs" and ?m = "median xs"
  have n: "0 < ?n" using assms by simp
  have mono: "?s ! i \<le> ?s ! j" if "i \<le> j" "j < ?n" for i j
    using that sorted_nth_mono [of ?s i j] by simp
  let ?h = "?n div 2"
  have m: "if even ?n then ?s ! (?h - 1) \<le> ?m \<and> ?m \<le> ?s ! ?h else ?m = ?s ! ?h"
    using f64_average_between [OF mono [of "?h - 1" ?h]] n by (auto simp: median_def Let_def even_iff_mod_2_eq_zero)
  define lo where "lo = (if even ?n then ?h - 1 else ?h)"
  have lo: "lo < ?n" "lo \<le> ?h" "?n \<le> 2 * Suc lo" using n unfolding lo_def by presburger+
  have "?s ! lo \<le> ?m" using m by (simp add: lo_def split: if_splits)
  then have "?s ! j \<le> ?m" if "j \<le> lo" for j using order_trans [OF mono [OF that lo(1)]] by simp
  then have "Suc lo \<le> length (filter (\<lambda>x. x \<le> ?m) xs)"
    using count_le_sorted [of lo ?s ?m] lo by (simp add: filter_sort_length)
  then have le: "?n \<le> 2 * length (filter (\<lambda>x. x \<le> ?m) xs)" using lo(3) by simp
  have "?n - ?h \<le> length (filter (\<lambda>x. ?m \<le> x) xs)"
  proof -
    have "?m \<le> ?s ! ?h" using m by (simp split: if_splits)
    then have "?m \<le> ?s ! j" if "?h \<le> j" "j < ?n" for j using order_trans [OF _ mono [OF that]] by simp
    then show ?thesis using count_ge_sorted [of ?h ?s ?m] by (simp add: filter_sort_length)
  qed
  moreover have "?n \<le> 2 * (?n - ?h)" by presburger
  ultimately have "?n \<le> 2 * length (filter (\<lambda>x. ?m \<le> x) xs)" by simp
  with le show ?thesis by simp
qed

section \<open>What is synthesised\<close>

definition agreement :: "fields list \<Rightarrow> int \<Rightarrow> string \<Rightarrow> f64" where
  "agreement variations attempted f =
     max (flt (2 / 10)) (py_int_div (int (max_count (tally (map norm_value (field_values variations f))))) attempted)"

lemma field_values_empty: "field_values variations f = [] \<longleftrightarrow> (\<forall>v \<in> set variations. f \<notin> set (dkeys v))"
proof (induction variations)
  case (Cons v vs)
  have "dget v f = None \<longleftrightarrow> f \<notin> set (dkeys v)" by (simp add: map_of_eq_None_iff)
  with Cons show ?case unfolding field_values_def
    by (cases "dget v f") (simp_all add: List.map_filter_simps del: set_map)
qed (simp add: field_values_def List.map_filter_simps)

lemma get_all_fields_mem:
  "f \<in> set (get_all_fields variations) \<longleftrightarrow> f \<noteq> ''confidence'' \<and> (\<exists>v \<in> set variations. f \<in> set (dkeys v))"
  by (auto simp: get_all_fields_def)

definition accepted :: "fields list \<Rightarrow> f64 \<Rightarrow> int \<Rightarrow> string \<Rightarrow> bool" where
  "accepted variations thr n f \<longleftrightarrow> field_values variations f \<noteq> [] \<and> thr \<le> agreement variations n f"

lemma synthesize_step:
  assumes "synthesize_fields variations thr n (g # rest) (fs, cs) = Inr r"
  shows "synthesize_fields variations thr n rest
    (if accepted variations thr n g
     then (dset g (select_value (field_values variations g)) fs, dset g (agreement variations n g) cs)
     else (fs, cs)) = Inr r"
proof (cases "field_values variations g = []")
  case False
  then have "n \<noteq> 0" using assms by (auto simp: calculate_field_confidence_def)
  with False have "calculate_field_confidence (field_values variations g) n = Inr (agreement variations n g)"
    by (simp add: calculate_field_confidence_def agreement_def)
  with False assms show ?thesis by (simp add: accepted_def not_less [symmetric] split: if_splits)
qed (use assms in \<open>simp add: accepted_def\<close>)

lemma synthesize_fields_spec:
  "synthesize_fields variations thr n fl (fs, cs) = Inr (fs', cs') \<Longrightarrow>
   (\<forall>f. dget fs' f = (if f \<in> set fl \<and> accepted variations thr n f
      then Some (select_value (field_values variations f)) else dget fs f)) \<and>
   (\<forall>f. dget cs' f = (if f \<in> set fl \<and> accepted variations thr n f then Some (agreement variations n f) else dget cs f)) \<and>
   (dkeys fs = dkeys cs \<longrightarrow> dkeys fs' = dkeys cs')"
proof (induction fl arbitrary: fs cs)
  case (Cons g rest)
  let ?v = "select_value (field_values variations g)" and ?a = "agreement variations n g"
  note step = synthesize_step [OF Cons.prems]
  show ?case
  proof (cases "accepted variations thr n g")
    case True
    with step have "synthesize_fields variations thr n rest (dset g ?v fs, dset g ?a cs) = Inr (fs', cs')" by simp
    note IH = Cons.IH [OF this]
    show ?thesis
    proof (intro conjI)
      show "dkeys fs = dkeys cs \<longrightarrow> dkeys fs' = dkeys cs'"
        using IH dkeys_dset_cong [of fs cs g ?v ?a] by blast
    qed (use IH True in \<open>simp_all add: dget_dset\<close>)
  next
    case False
    with step have "synthesize_fields variations thr n rest (fs, cs) = Inr (fs', cs')" by simp
    from Cons.IH [OF this] False show ?thesis by auto
  qed
qed simp

lemma synthesize_fields_returns:
  "n \<noteq> 0 \<Longrightarrow> \<exists>r. synthesize_fields variations thr n fl s = Inr r"
proof (induction fl arbitrary: s)
  case (Cons f fl)
  then show ?case by (cases s) (simp add: calculate_field_confidence_def Let_def)
next
  case Nil
  show ?case by (cases s) simp
qed

lemma synthesize_returns: "n \<noteq> 0 \<Longrightarrow> \<exists>r. synthesize ord variations thr n = Inr r"
  using synthesize_fields_returns [of n variations thr "ord (get_all_fields variations)" "([], [])"]
  by (auto simp: synthesize_def)

lemma synthesize_result:
  assumes "synthesize ord variations thr n = Inr r" and "set_order ord"
  shows "(\<forall>f. dget (con_fields r) f =
      (if f \<noteq> ''confidence'' \<and> (\<exists>v \<in> set variations. f \<in> set (dkeys v)) \<and> thr \<le> agreement variations n f
       then Some (select_value (field_values variations f)) else None)) \<and>
    (\<forall>f c. dget (con_per_field r) f = Some c \<longrightarrow> c = agreement variations n f) \<and>
    dkeys (con_fields r) = dkeys (con_per_field r)"
proof (cases "variations = []")
  case True
  with assms(1) show ?thesis by (auto simp: synthesize_def)
next
  case False
  with assms(1) obtain fs cs where s: "synthesize_fields variations thr n (ord (get_all_fields variations)) ([], []) = Inr (fs, cs)"
    and r: "con_fields r = fs" "con_per_field r = cs" by (auto simp: synthesize_def bind_res_Inr_iff)
  have "set (ord (get_all_fields variations)) = set (get_all_fields variations)"
    using assms(2) by (simp add: set_order_def get_all_fields_def)
  then have mem: "f \<in> set (ord (get_all_fields variations)) \<and> accepted variations thr n f \<longleftrightarrow>
      f \<noteq> ''confidence'' \<and> (\<exists>v \<in> set variations. f \<in> set (dkeys v)) \<and> thr \<le> agreement variations n f" for f
    unfolding accepted_def field_values_empty using get_all_fields_mem [of f variations] by blast
  note spec = synthesize_fields_spec [OF s, unfolded mem]
  show ?thesis using spec unfolding r by (auto split: if_splits)
qed

section \<open>The filter\<close>

lemma keep_fold:
  assumes "dict_ok items" and "f \<noteq> ''confidence''"
  shows "dget (fold (keep_field ths conf) items kept) f =
    (case dget items f of
       Some v \<Rightarrow> (case dget ths f of Some req \<Rightarrow> if req \<le> conf \<and> \<not> is_blank v then Some v else dget kept f
                   | None \<Rightarrow> dget kept f)
     | None \<Rightarrow> dget kept f)"
  using assms
proof (induction items arbitrary: kept)
  case (Cons kv items)
  obtain k v where kv: "kv = (k, v)" by (cases kv)
  have step: "dget (keep_field ths conf kv kept) f = (if k = f
      then (case dget ths f of Some req \<Rightarrow> if req \<le> conf \<and> \<not> is_blank v then Some v else dget kept f | None \<Rightarrow> dget kept f)
      else dget kept f)"
    using assms(2) by (auto simp: keep_field_def kv dget_dset split: option.split)
  show ?case
  proof (cases "k = f")
    case True
    then have "dget items f = None" using Cons.prems(1) kv by (simp add: map_of_eq_None_iff)
    with Cons step True kv show ?thesis by simp
  next
    case False
    with Cons step kv show ?thesis by (simp split: option.split)
  qed
qed simp

lemma filter_reply_get:
  assumes "dict_ok reply" and "f \<noteq> ''confidence''"
  shows "dget (filter_reply thresholds reply) f =
     (case (dget reply f, dget thresholds f) of
        (Some v, Some required) \<Rightarrow> if required \<le> reply_confidence reply \<and> \<not> is_blank v then Some v else None
      | _ \<Rightarrow> None)"
  using keep_fold [OF assms, of thresholds "reply_confidence reply"] assms(2)
  by (simp add: filter_reply_def split: option.split)

section \<open>Properties\<close>

text \<open>
  The consensus is exactly the set of sufficiently agreed fields. A field is in the result iff
  some reply has it, it is not the response metadata \<open>confidence\<close>, and its agreement - the share of
  the attempted replies that give its most frequent value, at least 0.2 - reaches the threshold;
  its value is the selected one and its reported confidence the agreement. Fields and confidences
  have the same keys in the same order.
\<close>

theorem synthesize_exact:
  assumes "synthesize ord variations thr n = Inr r" and "set_order ord"
  shows "(\<forall>f. dget (con_fields r) f =
      (if f \<noteq> ''confidence'' \<and> (\<exists>v \<in> set variations. f \<in> set (dkeys v)) \<and> thr \<le> agreement variations n f
       then Some (select_value (field_values variations f)) else None)) \<and>
    (\<forall>f c. dget (con_per_field r) f = Some c \<longrightarrow> c = agreement variations n f) \<and>
    dkeys (con_fields r) = dkeys (con_per_field r)"
  using assms by (rule synthesize_result)

theorem synthesize_exact_witness:
  "\<exists>r. synthesize (\<lambda>xs. xs) [[(''a'', PStr ''x''), (''confidence'', PInt 1)], [(''a'', PStr ''X '')]] (flt (6 / 10)) 2 = Inr r \<and>
     dget (con_fields r) ''a'' = Some (PStr ''x'') \<and> dget (con_fields r) ''confidence'' = None"
proof -
  let ?vs = "[[(''a'', PStr ''x''), (''confidence'', PInt 1)], [(''a'', PStr ''X '')]]"
  let ?t = "flt (6 / 10)"
  have v: "field_values ?vs ''a'' = [PStr ''x'', PStr ''X '']" by (simp add: field_values_def List.map_filter_simps)
  have n: "norm_value (PStr ''x'') = ''x''" "norm_value (PStr ''X '') = ''x''" by code_simp+
  have ag: "agreement ?vs 2 ''a'' = 1"
    by (simp add: agreement_def v n tally_def count_vote_def dget_or_def max_count_def max_def flt_le_1 order.antisym)
  have thr: "?t \<le> agreement ?vs 2 ''a''" unfolding ag by (rule flt_le_1) simp
  have sel: "select_value [PStr ''x'', PStr ''X ''] = PStr ''x''" by code_simp
  obtain r where r: "synthesize (\<lambda>xs. xs) ?vs ?t 2 = Inr r" using synthesize_returns [of 2] by fastforce
  have "set_order (\<lambda>xs :: string list. xs)" by (simp add: set_order_def)
  from synthesize_exact [OF r this] r thr v sel show ?thesis by (intro exI [of _ r]) simp
qed

text \<open>
  The selected value. When every reply gives a number (or a text or boolean that converts to
  one), the result is the median: at least half of the values are below or equal, at least half
  above or equal. Otherwise it is one of the values given, and no other text is given more often.
\<close>

theorem selected_value_central:
  assumes "values \<noteq> []"
  shows "case floats_of values of
      Some xs \<Rightarrow> \<exists>m. select_value values = PFloat m \<and> length values = length xs \<and>
        length xs \<le> 2 * length (filter (\<lambda>x. x \<le> m) xs) \<and> length xs \<le> 2 * length (filter (\<lambda>x. m \<le> x) xs)
    | None \<Rightarrow> select_value values \<in> set values \<and>
        (\<forall>s. count_list (map py_str values) s \<le> count_list (map py_str values) (py_str (select_value values)))"
proof (cases "floats_of values")
  case (Some xs)
  with assms length_floats_of [OF Some] have "xs \<noteq> []" by auto
  with Some assms median_halves [of xs] length_floats_of [OF Some] show ?thesis by (simp add: select_value_def)
next
  case None
  from counter_vote.elects [OF assms, of py_str] obtain v n where v: "vote_by py_str values = Some (v, n)" by blast
  from counter_vote.elected [OF v] counter_vote.most_votes [OF v] None assms v show ?thesis
    by (simp add: select_value_def)
qed

theorem selected_value_central_witness:
  "select_value [PStr ''a'', PStr ''b'', PStr ''a''] \<in> set [PStr ''a'', PStr ''b'', PStr ''a''] \<and>
   (\<exists>m. select_value [PInt 1, PInt 5, PInt 2] = PFloat m)"
proof -
  have "floats_of [PStr ''a'', PStr ''b'', PStr ''a''] = None" by code_simp
  with selected_value_central [of "[PStr ''a'', PStr ''b'', PStr ''a'']"]
    selected_value_central [of "[PInt 1, PInt 5, PInt 2]"]
  show ?thesis by fastforce
qed

text \<open>
  Booleans do not take the mode: \<open>float\<close> accepts them, so they go through the median. One vote
  for and one against give 0.5, and agreeing votes give the number 1.0 instead of \<open>True\<close>.
\<close>

theorem booleans_are_averaged:
  "select_value [PBool True, PBool False] = PFloat (flt (1 / 2)) \<and>
   select_value [PBool True, PBool True, PBool False] = PFloat 1"
proof -
  have s: "sort [1, 0] = [0, 1 :: f64]" "sort [1, 1, 0] = [0, 1, 1 :: f64]" by (simp_all add: not_le)
  have "select_value [PBool True, PBool False] = PFloat ((0 + 1) / f_of_int 2)"
    "select_value [PBool True, PBool True, PBool False] = PFloat 1"
    by (simp_all add: select_value_def median_def s)
  then show ?thesis by (simp add: f64_eval)
qed

text \<open>
  The per-field confidence filter. A field of a reply survives exactly when the consumer named
  it, the reply's own confidence reaches that field's bar and the value is not blank; the reply
  keeps its confidence entry, and values are never changed.
\<close>

theorem filter_reply_exact:
  assumes "dict_ok reply" and "f \<noteq> ''confidence''"
  shows "dget (filter_reply thresholds reply) f =
     (case (dget reply f, dget thresholds f) of
        (Some v, Some required) \<Rightarrow> if required \<le> reply_confidence reply \<and> \<not> is_blank v then Some v else None
      | _ \<Rightarrow> None)"
  using assms by (rule filter_reply_get)

theorem filter_reply_exact_witness:
  "dget (filter_reply [(''a'', 0), (''b'', 1)] [(''a'', PInt 1), (''b'', PInt 2), (''c'', PInt 3)]) ''a'' = Some (PInt 1) \<and>
   dget (filter_reply [(''a'', 0), (''b'', 1)] [(''a'', PInt 1), (''b'', PInt 2), (''c'', PInt 3)]) ''b'' = None"
  using filter_reply_exact [of "[(''a'', PInt 1), (''b'', PInt 2), (''c'', PInt 3)]" "''a''" "[(''a'', 0), (''b'', 1)]"]
    filter_reply_exact [of "[(''a'', PInt 1), (''b'', PInt 2), (''c'', PInt 3)]" "''b''" "[(''a'', 0), (''b'', 1)]"]
  by (simp add: reply_confidence_def dget_or_def not_le)

end
