(* ===== verification/EnrichmentConsensus.thy ===== *)
theory EnrichmentConsensus
  imports Voting
begin

text \<open>
  \<open>app/services/enrichment/consensus.py\<close>: the consensus used by the waterfall. Values are counted
  by a hashable form: \<open>hash_key\<close> maps a value to a key such that equal keys are equal Python
  values, and to \<open>None\<close> where hashing raises \<open>TypeError\<close> (a dict or list inside a list or dict).
\<close>

datatype hkey = HNone | HNum rat | HStr string | HTuple "hkey list"

record consensus_result =
  cr_fields :: fields
  cr_confidence :: f64
  cr_agreement :: f64
  cr_sources :: nat
  cr_agreements :: "(string, f64) dict"

definition empty_consensus :: consensus_result where
  "empty_consensus = \<lparr>cr_fields = [], cr_confidence = 0, cr_agreement = 0, cr_sources = 0, cr_agreements = []\<rparr>"

section \<open>One field\<close>

definition is_non_empty :: "pyval \<Rightarrow> bool" where
  "is_non_empty v =
     (case v of
        PNone \<Rightarrow> False
      | PStr s \<Rightarrow> py_strip s \<noteq> []
      | PList xs \<Rightarrow> xs \<noteq> []
      | PDict d \<Rightarrow> d \<noteq> []
      | _ \<Rightarrow> True)"

definition normalize_value :: "pyval \<Rightarrow> pyval" where
  "normalize_value v = (case v of PStr s \<Rightarrow> PStr (py_strip s) | _ \<Rightarrow> v)"

fun hash_atom :: "pyval \<Rightarrow> hkey option" where
  "hash_atom (PList xs) = None"
| "hash_atom (PDict d) = None"
| "hash_atom PNone = Some HNone"
| "hash_atom (PBool b) = Some (HNum (if b then 1 else 0))"
| "hash_atom (PInt n) = Some (HNum (of_int n))"
| "hash_atom (PFloat x) = Some (HNum (to_rat x))"
| "hash_atom (PStr s) = Some (HStr s)"

fun hash_all :: "pyval list \<Rightarrow> hkey list option" where
  "hash_all [] = Some []"
| "hash_all (v # vs) =
     (case hash_atom v of None \<Rightarrow> None | Some k \<Rightarrow> map_option (\<lambda>ks. k # ks) (hash_all vs))"

definition hash_key :: "pyval \<Rightarrow> hkey option" where
  "hash_key v =
     (case v of
        PDict d \<Rightarrow>
          (let items = sort_key fst d in
           map_option (\<lambda>ks. HTuple (map2 (\<lambda>kv k. HTuple [HStr (fst kv), k]) items ks)) (hash_all (map snd items)))
      | PList xs \<Rightarrow> map_option HTuple (hash_all xs)
      | _ \<Rightarrow> hash_atom v)"

definition payload_values :: "fields list \<Rightarrow> string \<Rightarrow> pyval list" where
  "payload_values payloads f =
     map normalize_value (filter is_non_empty (map (\<lambda>p. dget_or p f PNone) payloads))"

definition vote_for_field :: "fields list \<Rightarrow> string \<Rightarrow> pyerr + pyval \<times> f64" where
  "vote_for_field payloads f =
     (let values = payload_values payloads f in
      if values = [] then Inr (PNone, 0)
      else if list_ex (\<lambda>v. hash_key v = None) values then Inl TypeError
      else (case vote_by hash_key values of
              Some (v, n) \<Rightarrow> Inr (v, py_int_div (int n) (int (length payloads)))
            | None \<Rightarrow> Inr (PNone, 0)))"

section \<open>Synthesis\<close>

definition collect_all_fields :: "fields list \<Rightarrow> string list" where
  "collect_all_fields payloads = dedup (concat (map dkeys payloads))"

fun vote_fields ::
    "fields list \<Rightarrow> f64 \<Rightarrow> string list \<Rightarrow> fields \<times> (string, f64) dict \<Rightarrow> pyerr + fields \<times> (string, f64) dict" where
  "vote_fields payloads threshold [] (fs, ags) = Inr (fs, ags)"
| "vote_fields payloads threshold (f # rest) (fs, ags) =
     bind_res (vote_for_field payloads f) (\<lambda>(v, agreement).
       vote_fields payloads threshold rest
         (if threshold \<le> agreement \<and> v \<noteq> PNone then (dset f v fs, dset f agreement ags) else (fs, ags)))"

definition calculate_confidence :: "f64 \<Rightarrow> f64 \<Rightarrow> nat \<Rightarrow> f64" where
  "calculate_confidence response_rate avg_agreement source_count =
     (let source_factor = min (py_int_div (int source_count) 5) 1;
          c = response_rate * flt (3 / 10) + avg_agreement * flt (5 / 10) + source_factor * flt (2 / 10)
      in min (max c 0) 1)"

definition attempts :: "fields list \<Rightarrow> int option \<Rightarrow> int" where
  "attempts payloads total_attempted =
     (let n = (case total_attempted of Some t \<Rightarrow> t | None \<Rightarrow> int (length payloads)) in
      if n = 0 then (if length payloads \<noteq> 0 then int (length payloads) else 1) else n)"

definition average_agreement :: "(string, f64) dict \<Rightarrow> f64" where
  "average_agreement ags = (if ags \<noteq> [] then py_sum (dvalues ags) / f_of_int (int (length ags)) else 0)"

definition synthesize_payloads ::
    "(string list \<Rightarrow> string list) \<Rightarrow> fields list \<Rightarrow> f64 \<Rightarrow> int option \<Rightarrow> pyerr + consensus_result" where
  "synthesize_payloads ord payloads threshold total_attempted =
     (if payloads = [] then Inr empty_consensus
      else bind_res (vote_fields payloads threshold (ord (collect_all_fields payloads)) ([], [])) (\<lambda>(fs, ags).
        let avg = average_agreement ags;
            rate = py_int_div (int (length payloads)) (attempts payloads total_attempted)
        in Inr \<lparr>cr_fields = fs, cr_confidence = py_round 3 (calculate_confidence rate avg (length payloads)),
               cr_agreement = py_round 3 avg, cr_sources = length payloads, cr_agreements = ags\<rparr>))"

definition merge_field :: "consensus_result \<Rightarrow> f64 \<Rightarrow> string \<times> pyval \<Rightarrow> fields \<Rightarrow> fields" where
  "merge_field con min_agreement kv out =
     (if min_agreement \<le> dget_or (cr_agreements con) (fst kv) 0 \<and> is_non_empty (snd kv)
      then dset (fst kv) (snd kv) out else out)"

definition merge_with_priority :: "fields \<Rightarrow> consensus_result \<Rightarrow> f64 \<Rightarrow> fields" where
  "merge_with_priority base con min_agreement = fold (merge_field con min_agreement) (cr_fields con) base"

section \<open>Votes and fields\<close>

lemma vote_for_field_elects:
  assumes "vote_for_field payloads f = Inr (v, a)" and "v \<noteq> PNone"
  shows "v \<in> set (payload_values payloads f) \<and>
    a = py_int_div (int (count_list (map hash_key (payload_values payloads f)) (hash_key v))) (int (length payloads)) \<and>
    (\<forall>k. count_list (map hash_key (payload_values payloads f)) k \<le>
      count_list (map hash_key (payload_values payloads f)) (hash_key v))"
proof -
  let ?vs = "payload_values payloads f"
  from assms have ne: "?vs \<noteq> []" by (auto simp: vote_for_field_def Let_def)
  from counter_vote.elects [OF ne, of hash_key] obtain w n where w: "vote_by hash_key ?vs = Some (w, n)" by blast
  with assms ne have "w = v" "a = py_int_div (int n) (int (length payloads))"
    by (auto simp: vote_for_field_def Let_def split: if_splits)
  with counter_vote.elected [OF w] counter_vote.most_votes [OF w] show ?thesis by simp
qed

lemma payload_values_length: "length (payload_values payloads f) \<le> length payloads"
  unfolding payload_values_def using length_filter_le [of is_non_empty "map (\<lambda>p. dget_or p f PNone) payloads"] by simp

text \<open>What \<open>vote_fields\<close> stores.\<close>

definition stored :: "fields list \<Rightarrow> f64 \<Rightarrow> fields \<times> (string, f64) dict \<Rightarrow> bool" where
  "stored payloads thr s \<longleftrightarrow> (\<forall>f v. dget (fst s) f = Some v \<longrightarrow>
     v \<noteq> PNone \<and> (\<exists>a. vote_for_field payloads f = Inr (v, a) \<and> thr \<le> a \<and> dget (snd s) f = Some a))"

lemma vote_fields_stored:
  "vote_fields payloads thr fl s = Inr s' \<Longrightarrow> stored payloads thr s \<Longrightarrow> stored payloads thr s'"
proof (induction fl arbitrary: s)
  case (Cons f fl)
  obtain fs ags where s: "s = (fs, ags)" by (cases s)
  from Cons.prems(1) obtain v a where v: "vote_for_field payloads f = Inr (v, a)"
    and rest: "vote_fields payloads thr fl
      (if thr \<le> a \<and> v \<noteq> PNone then (dset f v fs, dset f a ags) else (fs, ags)) = Inr s'"
    by (auto simp: s bind_res_Inr_iff)
  from rest show ?case
  proof (rule Cons.IH)
    show "stored payloads thr (if thr \<le> a \<and> v \<noteq> PNone then (dset f v fs, dset f a ags) else (fs, ags))"
      using Cons.prems(2) v by (auto simp: stored_def s dget_dset)
  qed
next
  case Nil
  then show ?case by (cases s) simp
qed

lemma vote_for_field_error: "vote_for_field payloads f = Inl e \<Longrightarrow> e = TypeError"
  by (auto simp: vote_for_field_def Let_def split: if_splits option.splits)

lemma vote_fields_error:
  "\<exists>f \<in> set fl. vote_for_field payloads f = Inl TypeError \<Longrightarrow> vote_fields payloads thr fl s = Inl TypeError"
proof (induction fl arbitrary: s)
  case (Cons f fl)
  obtain fs ags where s: "s = (fs, ags)" by (cases s)
  show ?case
  proof (cases "vote_for_field payloads f")
    case (Inl e)
    then show ?thesis using vote_for_field_error [OF Inl] by (simp add: s bind_res_def)
  next
    case (Inr va)
    obtain v a where va: "va = (v, a)" by (cases va)
    from Cons.prems Inr have "\<exists>f \<in> set fl. vote_for_field payloads f = Inl TypeError" by auto
    from Cons.IH [OF this] Inr show ?thesis by (simp add: s va)
  qed
qed simp

lemma hash_all_None: "PDict d \<in> set xs \<Longrightarrow> hash_all xs = None"
  by (induction xs) (auto split: option.split)

lemma half_votes:
  assumes "flt (1 / 2) < py_int_div (int n) (int m)" and "0 < m"
  shows "m < 2 * n"
proof (rule ccontr)
  assume "\<not> m < 2 * n"
  then have "2 * (of_nat n :: rat) \<le> of_nat m" by (metis not_less of_nat_le_iff of_nat_mult of_nat_numeral)
  then have "(of_int (int n) / of_int (int m) :: rat) \<le> 1 / 2" using assms(2) by (simp add: field_simps)
  from flt_mono [OF this] assms(1) show False by (simp add: py_int_div_def)
qed

lemma merge_fold:
  assumes "dict_ok items"
  shows "dget (fold (merge_field con m) items out) f =
    (case dget items f of
       Some v \<Rightarrow> if m \<le> dget_or (cr_agreements con) f 0 \<and> is_non_empty v then Some v else dget out f
     | None \<Rightarrow> dget out f)"
  using assms
proof (induction items arbitrary: out)
  case (Cons kv items)
  obtain k v where kv: "kv = (k, v)" by (cases kv)
  show ?case
  proof (cases "k = f")
    case True
    then have "dget items f = None" using Cons.prems kv by (simp add: map_of_eq_None_iff)
    with Cons True kv show ?thesis by (simp add: merge_field_def dget_dset)
  next
    case False
    with Cons kv show ?thesis by (simp add: merge_field_def dget_dset split: option.split)
  qed
qed simp

section \<open>Properties\<close>

text \<open>
  C38: with a threshold above one half the consensus is a majority: the value included for a field
  is given, up to equality of the hashed form, by more than half of all payloads (those without the
  field counting against it), and every different value by fewer than half.
\<close>

theorem included_value_has_majority:
  assumes "synthesize_payloads ord payloads thr attempted = Inr r" and "flt (1 / 2) < thr"
    and "dget (cr_fields r) f = Some v"
  shows "length payloads < 2 * count_list (map hash_key (payload_values payloads f)) (hash_key v) \<and>
    (\<forall>k. k \<noteq> hash_key v \<longrightarrow> 2 * count_list (map hash_key (payload_values payloads f)) k < length payloads)"
proof -
  let ?ks = "map hash_key (payload_values payloads f)"
  from assms(1,3) obtain fs ags where
      "vote_fields payloads thr (ord (collect_all_fields payloads)) ([], []) = Inr (fs, ags)"
      and r: "cr_fields r = fs" and ne: "payloads \<noteq> []"
    by (auto simp: synthesize_payloads_def empty_consensus_def bind_res_Inr_iff Let_def split: if_splits)
  from vote_fields_stored [OF this(1)] assms(3) r obtain a where
      a: "vote_for_field payloads f = Inr (v, a)" "thr \<le> a" "v \<noteq> PNone" by (force simp: stored_def)
  note e = vote_for_field_elects [OF a(1,3)]
  have maj: "length payloads < 2 * count_list ?ks (hash_key v)"
    using e a(2) assms(2) ne by (intro half_votes) auto
  have "2 * count_list ?ks k < length payloads" if "k \<noteq> hash_key v" for k
    using counter_vote.count_two [OF that, of ?ks] maj payload_values_length [of payloads f] by simp
  with maj show ?thesis by blast
qed

theorem included_value_has_majority_witness:
  "\<exists>r. synthesize_payloads (\<lambda>xs. xs) [[(''a'', PInt 1)], [(''a'', PInt 1)]] (flt (65 / 100)) None = Inr r \<and>
     2 < 2 * count_list (map hash_key (payload_values [[(''a'', PInt 1)], [(''a'', PInt 1)]] ''a'')) (hash_key (PInt 1))"
proof -
  let ?ps = "[[(''a'', PInt 1)], [(''a'', PInt 1)]]"
  have v: "vote_for_field ?ps ''a'' = Inr (PInt 1, 1)"
    by (simp add: vote_for_field_def payload_values_def dget_or_def is_non_empty_def normalize_value_def
        hash_key_def vote_by_def tally_def count_vote_def most_common_def)
  have t: "flt (65 / 100) \<le> 1" by (rule flt_le_1) simp
  obtain r where r: "synthesize_payloads (\<lambda>xs. xs) ?ps (flt (65 / 100)) None = Inr r"
      "dget (cr_fields r) ''a'' = Some (PInt 1)"
    using v t by (simp add: synthesize_payloads_def collect_all_fields_def Let_def)
  have half: "flt (1 / 2) < flt (65 / 100)" by (simp add: f64_eval)
  from included_value_has_majority [OF r(1) half r(2)] r(1) show ?thesis by auto
qed

text \<open>
  One list of objects in one payload defeats the whole synthesis: its hashed form is a tuple of
  dicts, which cannot be counted, and the \<open>TypeError\<close> is not caught, whatever the other fields and
  payloads are.
\<close>

theorem list_of_objects_aborts:
  assumes "p \<in> set payloads" and "dget p f = Some (PList xs)" and "PDict d \<in> set xs" and "set_order ord"
  shows "synthesize_payloads ord payloads thr attempted = Inl TypeError"
proof -
  have "PList xs \<in> set (payload_values payloads f)"
    using assms(1-3) by (force simp: payload_values_def dget_or_def is_non_empty_def normalize_value_def)
  moreover have "hash_key (PList xs) = None" using hash_all_None [OF assms(3)] by (simp add: hash_key_def)
  ultimately have "vote_for_field payloads f = Inl TypeError"
    by (force simp: vote_for_field_def Let_def list_ex_iff)
  moreover have "f \<in> set (ord (collect_all_fields payloads))"
  proof -
    have "(f, PList xs) \<in> set p" using assms(2) by (rule map_of_SomeD)
    then have "f \<in> set (collect_all_fields payloads)" using assms(1) by (force simp: collect_all_fields_def)
    then show ?thesis using assms(4) by (simp add: set_order_def collect_all_fields_def)
  qed
  ultimately have "vote_fields payloads thr (ord (collect_all_fields payloads)) ([], []) = Inl TypeError"
    by (intro vote_fields_error) blast
  with assms(1) show ?thesis by (auto simp: synthesize_payloads_def)
qed

theorem list_of_objects_aborts_witness:
  "synthesize_payloads (\<lambda>xs. xs) [[(''city'', PStr ''Ulm'')], [(''contacts'', PList [PDict [(''name'', PStr ''A'')]])]] 0 None =
     Inl TypeError"
  by (rule list_of_objects_aborts [where p = "[(''contacts'', PList [PDict [(''name'', PStr ''A'')]])]" and
        f = "''contacts''" and xs = "[PDict [(''name'', PStr ''A'')]]" and d = "[(''name'', PStr ''A'')]"])
     (simp_all add: set_order_def)

text \<open>
  Merging a consensus into a record overrides a field exactly when the consensus has a non-empty
  value for it whose agreement reaches the minimum; every other field of the record is kept.
\<close>

theorem merge_overrides_exactly:
  assumes "dict_ok (cr_fields con)"
  shows "dget (merge_with_priority base con m) f =
    (case dget (cr_fields con) f of
       Some v \<Rightarrow> if m \<le> dget_or (cr_agreements con) f 0 \<and> is_non_empty v then Some v else dget base f
     | None \<Rightarrow> dget base f)"
  unfolding merge_with_priority_def by (rule merge_fold [OF assms])

theorem merge_overrides_exactly_witness:
  "dget (merge_with_priority [(''a'', PInt 1), (''b'', PInt 2)]
      (empty_consensus\<lparr>cr_fields := [(''a'', PInt 7)], cr_agreements := [(''a'', 1)]\<rparr>) (flt (1 / 2))) ''a'' = Some (PInt 7)"
  using flt_le_1 [of "1 / 2"]
  by (subst merge_overrides_exactly) (simp_all add: empty_consensus_def dget_or_def is_non_empty_def)

end
