(* ===== verification/Uncertainty.thy ===== *)
theory Uncertainty
  imports PyValue
begin

text \<open>
  \<open>app/services/uncertainty_engine.py\<close> (the number of variations to request for an entity) and
  \<open>app/services/enrichment/uncertainty.py\<close> (risk level, flags and filtering of low-confidence
  fields, and the aggregation of several results).
\<close>

section \<open>Variation budget\<close>

definition is_missing :: "pyval \<Rightarrow> bool" where
  "is_missing v \<longleftrightarrow> v = PNone \<or> v = PStr [] \<or> v = PList []"

definition count_missing :: "fields \<Rightarrow> string list \<Rightarrow> nat" where
  "count_missing ent names = length (filter (\<lambda>f. is_missing (dget_or ent f PNone)) names)"

definition completeness :: "fields \<Rightarrow> (string, string) dict option \<Rightarrow> f64" where
  "completeness ent target_schema =
     (let names = (case target_schema of Some d \<Rightarrow> dkeys d | None \<Rightarrow> []) in
      if 0 < length names then 1 - py_int_div (int (count_missing ent names)) (int (length names)) else flt (5 / 10))"

definition richness :: "fields \<Rightarrow> f64" where
  "richness ent = min 1 (f_of_int (int (length (filter (\<lambda>v. \<not> is_blank v) (dvalues ent)))) / f_of_int 10)"

definition uncertainty_score :: "fields \<Rightarrow> (string, string) dict option \<Rightarrow> f64 \<Rightarrow> f64" where
  "uncertainty_score ent target_schema last_confidence =
     (1 - completeness ent target_schema) * flt (4 / 10) + (1 - last_confidence) * flt (3 / 10) +
     (1 - richness ent) * flt (3 / 10)"

definition compute_uncertainty :: "fields \<Rightarrow> (string, string) dict option \<Rightarrow> f64 \<Rightarrow> int \<Rightarrow> int" where
  "compute_uncertainty ent target_schema last_confidence max_variations =
     (let score = uncertainty_score ent target_schema last_confidence;
          variations = max 2 (min max_variations (py_round_int (score * f_of_int max_variations) + 2))
      in min variations (max 1 max_variations))"

section \<open>Confidence policy\<close>

datatype risk = Low | Medium | High | Critical

record uncertainty_config =
  low_threshold :: f64
  high_threshold :: f64
  critical_threshold :: f64
  filter_below_critical :: bool
  flag_field_level :: bool

definition default_config :: uncertainty_config where
  "default_config = \<lparr>low_threshold = flt (5 / 10), high_threshold = flt (85 / 100),
     critical_threshold = flt (3 / 10), filter_below_critical = False, flag_field_level = True\<rparr>"

record uncertainty_result =
  ur_fields :: fields
  ur_confidence :: f64
  ur_flags :: "string list"
  ur_filtered :: "string list"
  ur_risk :: risk

definition empty_uncertainty :: uncertainty_result where
  "empty_uncertainty = \<lparr>ur_fields = [], ur_confidence = 0, ur_flags = [], ur_filtered = [], ur_risk = Low\<rparr>"

definition determine_risk_level :: "f64 \<Rightarrow> uncertainty_config \<Rightarrow> risk" where
  "determine_risk_level c cfg =
     (if c < critical_threshold cfg then Critical
      else if c < low_threshold cfg then High
      else if c < high_threshold cfg then Medium else Low)"

definition overall_flags :: "f64 \<Rightarrow> uncertainty_config \<Rightarrow> string list" where
  "overall_flags c cfg =
     (if c < critical_threshold cfg then [''critical_low_confidence'', ''manual_review_required'']
      else if c < low_threshold cfg then [''low_confidence'', ''needs_review'']
      else if c < high_threshold cfg then [''moderate_confidence''] else [])"

definition flag_field ::
    "uncertainty_config \<Rightarrow> string \<times> f64 \<Rightarrow> fields \<times> string list \<times> string list \<Rightarrow> fields \<times> string list \<times> string list" where
  "flag_field cfg fc s =
     (let (f, c) = fc; (fs, flags, filtered) = s in
      if c < critical_threshold cfg then
        (if filter_below_critical cfg \<and> dmem f fs
         then (dpop f fs, flags @ [''field_critical:'' @ f], filtered @ [f])
         else (fs, flags @ [''field_critical:'' @ f], filtered))
      else if c < low_threshold cfg then (fs, flags @ [''field_uncertain:'' @ f], filtered)
      else s)"

definition apply_uncertainty ::
    "fields \<Rightarrow> f64 \<Rightarrow> (string, f64) dict option \<Rightarrow> uncertainty_config option \<Rightarrow> uncertainty_result" where
  "apply_uncertainty fs confidence field_confidences config =
     (let cfg = (case config of Some c \<Rightarrow> c | None \<Rightarrow> default_config);
          fcs = (case field_confidences of Some d \<Rightarrow> if flag_field_level cfg then d else [] | None \<Rightarrow> []);
          (fs', flags, filtered) = fold (flag_field cfg) fcs (fs, overall_flags confidence cfg, [])
      in \<lparr>ur_fields = fs', ur_confidence = confidence, ur_flags = flags, ur_filtered = filtered,
          ur_risk = determine_risk_level confidence cfg\<rparr>)"

definition should_proceed :: "uncertainty_result \<Rightarrow> f64 \<Rightarrow> bool \<Rightarrow> bool" where
  "should_proceed r require_confidence block_on_critical =
     (if block_on_critical \<and> ur_risk r = Critical then False else require_confidence \<le> ur_confidence r)"

fun risk_priority :: "risk \<Rightarrow> nat" where
  "risk_priority Low = 0"
| "risk_priority Medium = 1"
| "risk_priority High = 2"
| "risk_priority Critical = 3"

definition worse :: "uncertainty_result \<Rightarrow> risk \<Rightarrow> risk" where
  "worse r w = (if risk_priority w < risk_priority (ur_risk r) then ur_risk r else w)"

definition aggregate_uncertainties :: "uncertainty_result list \<Rightarrow> uncertainty_result" where
  "aggregate_uncertainties results =
     (if results = [] then empty_uncertainty
      else \<lparr>ur_fields = fold (\<lambda>r d. dupdate d (ur_fields r)) results [],
            ur_confidence = py_round 3 (py_sum (map ur_confidence results) / f_of_int (int (length results))),
            ur_flags = sort (dedup (concat (map ur_flags results))),
            ur_filtered = sort (dedup (concat (map ur_filtered results))),
            ur_risk = fold worse results Low\<rparr>)"

section \<open>Bounds and monotonicity of the budget\<close>

lemma score_antimono:
  "c \<le> c' \<Longrightarrow> uncertainty_score ent sch c' \<le> uncertainty_score ent sch c"
  unfolding uncertainty_score_def
  by (intro f64_add_mono f64_mult_right_mono f64_diff_mono order_refl flt_nonneg) simp_all

lemma budget_antimono:
  assumes "c \<le> c'" and "0 \<le> n"
  shows "compute_uncertainty ent sch c' n \<le> compute_uncertainty ent sch c n"
proof -
  have "uncertainty_score ent sch c' * f_of_int n \<le> uncertainty_score ent sch c * f_of_int n"
    by (intro f64_mult_right_mono score_antimono assms f_of_int_nonneg)
  then have "py_round_int (uncertainty_score ent sch c' * f_of_int n) \<le> py_round_int (uncertainty_score ent sch c * f_of_int n)"
    by (rule py_round_int_mono)
  then show ?thesis unfolding compute_uncertainty_def Let_def
    by (intro min.mono max.mono add_right_mono order_refl)
qed

lemma budget_bounds:
  "(if 2 \<le> n then 2 \<le> compute_uncertainty ent sch c n \<and> compute_uncertainty ent sch c n \<le> n
    else compute_uncertainty ent sch c n = 1)"
  by (simp add: compute_uncertainty_def Let_def min_def max_def)

section \<open>Effect of the field flags\<close>

lemma flag_fold:
  assumes "dict_ok fcs"
  shows "dget (fst (fold (flag_field cfg) fcs (fs, flags, filtered))) f =
    (case dget fcs f of
       Some c \<Rightarrow> if filter_below_critical cfg \<and> c < critical_threshold cfg then None else dget fs f
     | None \<Rightarrow> dget fs f)"
  using assms
proof (induction fcs arbitrary: fs flags filtered)
  case (Cons fc fcs)
  obtain k c where fc: "fc = (k, c)" by (cases fc)
  obtain fs' flags' filtered' where s: "flag_field cfg fc (fs, flags, filtered) = (fs', flags', filtered')"
    by (cases "flag_field cfg fc (fs, flags, filtered)")
  have step: "dget fs' f = (if k = f \<and> filter_below_critical cfg \<and> c < critical_threshold cfg then None else dget fs f)"
    using s by (auto simp: flag_field_def fc Let_def dmem_def dget_dpop split: if_splits)
  have IH: "dget (fst (fold (flag_field cfg) (fc # fcs) (fs, flags, filtered))) f =
      (case dget fcs f of
         Some c \<Rightarrow> if filter_below_critical cfg \<and> c < critical_threshold cfg then None else dget fs' f
       | None \<Rightarrow> dget fs' f)"
    using Cons.IH [of fs' flags' filtered'] Cons.prems by (simp add: s)
  show ?case
  proof (cases "k = f")
    case True
    then have "dget fcs f = None" using Cons.prems fc by (simp add: map_of_eq_None_iff)
    with IH step True fc show ?thesis by simp
  next
    case False
    with IH step fc show ?thesis by (simp split: option.split)
  qed
qed simp

lemma flag_fold_filtered:
  "set (snd (snd (fold (flag_field cfg) fcs (fs, flags, filtered)))) \<inter> set (dkeys (fst (fold (flag_field cfg) fcs (fs, flags, filtered)))) \<subseteq>
    set filtered \<inter> set (dkeys fs)"
proof (induction fcs arbitrary: fs flags filtered)
  case (Cons fc fcs)
  obtain fs' flags' filtered' where s: "flag_field cfg fc (fs, flags, filtered) = (fs', flags', filtered')"
    by (cases "flag_field cfg fc (fs, flags, filtered)")
  have "set filtered' \<inter> set (dkeys fs') \<subseteq> set filtered \<inter> set (dkeys fs)"
    using s unfolding alist.keys_get
    by (cases fc) (auto simp: flag_field_def Let_def dget_dpop split: if_splits)
  with Cons.IH [of fs' flags' filtered'] show ?case by (simp add: s del: set_map) blast
qed simp

section \<open>Aggregation\<close>

lemma worse_fold:
  "risk_priority (fold worse rs w) = fold max (map (risk_priority \<circ> ur_risk) rs) (risk_priority w)"
proof (induction rs arbitrary: w)
  case (Cons r rs)
  have "risk_priority (worse r w) = max (risk_priority (ur_risk r)) (risk_priority w)" by (simp add: worse_def max_def)
  with Cons show ?case by simp
qed simp

lemma worse_mem: "fold worse rs w \<in> insert w (ur_risk ` set rs)"
proof (induction rs arbitrary: w)
  case (Cons r rs)
  from Cons [of "worse r w"] show ?case by (auto simp: worse_def split: if_splits)
qed simp

lemma merged_fields:
  "dget (fold (\<lambda>r d. dupdate d (ur_fields r)) rs d) f = fold (\<lambda>r m. m ++ dget (rev (ur_fields r))) rs (dget d) f"
  by (induction rs arbitrary: d) (simp_all add: dget_dupdate)

section \<open>Properties\<close>

text \<open>
  The variation budget. A caller that allows \<open>n\<close> variations gets between 1 and \<open>n\<close>, at least 2
  where \<open>n\<close> allows it, and never fewer for the same entity when the previous confidence was lower.
\<close>

theorem budget_bounded_antitone:
  assumes "1 \<le> n" and "c \<le> c'"
  shows "min 2 n \<le> compute_uncertainty ent sch c' n \<and>
    compute_uncertainty ent sch c' n \<le> compute_uncertainty ent sch c n \<and> compute_uncertainty ent sch c n \<le> n"
proof -
  have "min 2 n \<le> compute_uncertainty ent sch c' n"
    using budget_bounds [of n ent sch c'] assms(1) by (auto split: if_splits)
  moreover have "compute_uncertainty ent sch c n \<le> n"
    using budget_bounds [of n ent sch c] assms(1) by (auto split: if_splits)
  moreover have "compute_uncertainty ent sch c' n \<le> compute_uncertainty ent sch c n"
    using assms by (intro budget_antimono) simp_all
  ultimately show ?thesis by blast
qed

theorem budget_bounded_antitone_witness:
  "compute_uncertainty [(''name'', PStr ''A'')] (Some [(''city'', ''string'')]) 1 5 \<le>
   compute_uncertainty [(''name'', PStr ''A'')] (Some [(''city'', ''string'')]) 0 5 \<and>
   compute_uncertainty [(''name'', PStr ''A'')] (Some [(''city'', ''string'')]) 0 5 \<le> 5"
  using budget_bounded_antitone [of 5 0 1 "[(''name'', PStr ''A'')]" "Some [(''city'', ''string'')]"] by simp

text \<open>
  The confidence policy on fields. A field is removed exactly when filtering is on and its own
  confidence is below the critical threshold, all other values are passed on unchanged, a field
  reported as filtered is not in the output, and the overall confidence only decides the risk level
  and the flags.
\<close>

theorem uncertainty_filter_exact:
  assumes "dict_ok fcs" and "flag_field_level cfg"
  shows "dget (ur_fields (apply_uncertainty fs c (Some fcs) (Some cfg))) f =
      (case dget fcs f of
         Some fc \<Rightarrow> if filter_below_critical cfg \<and> fc < critical_threshold cfg then None else dget fs f
       | None \<Rightarrow> dget fs f) \<and>
    (f \<in> set (ur_filtered (apply_uncertainty fs c (Some fcs) (Some cfg))) \<longrightarrow>
      dget (ur_fields (apply_uncertainty fs c (Some fcs) (Some cfg))) f = None) \<and>
    ur_risk (apply_uncertainty fs c (Some fcs) (Some cfg)) = determine_risk_level c cfg"
proof -
  let ?s = "fold (flag_field cfg) fcs (fs, overall_flags c cfg, [])"
  let ?r = "apply_uncertainty fs c (Some fcs) (Some cfg)"
  have r: "ur_fields ?r = fst ?s" "ur_filtered ?r = snd (snd ?s)" "ur_risk ?r = determine_risk_level c cfg"
    using assms(2) by (simp_all add: apply_uncertainty_def Let_def split: prod.split)
  have "set (snd (snd ?s)) \<inter> set (dkeys (fst ?s)) = {}"
    using flag_fold_filtered [of cfg fcs fs "overall_flags c cfg" "[]"] by (simp del: set_map)
  then have "f \<in> set (snd (snd ?s)) \<longrightarrow> f \<notin> set (dkeys (fst ?s))" by blast
  then have "f \<in> set (snd (snd ?s)) \<longrightarrow> dget (fst ?s) f = None" by (simp add: map_of_eq_None_iff)
  then show ?thesis unfolding r using flag_fold [OF assms(1), of cfg fs "overall_flags c cfg" "[]" f] by simp
qed

theorem uncertainty_filter_exact_witness:
  "dget (ur_fields (apply_uncertainty [(''a'', PInt 1), (''b'', PInt 2)] 1 (Some [(''a'', 0), (''b'', 1)])
      (Some (default_config\<lparr>filter_below_critical := True\<rparr>)))) ''a'' = None"
proof -
  have "0 < flt (3 / 10)" by (simp add: f64_eval)
  then show ?thesis
    using uncertainty_filter_exact [of "[(''a'', 0), (''b'', 1)]" "default_config\<lparr>filter_below_critical := True\<rparr>"
        "[(''a'', PInt 1), (''b'', PInt 2)]" 1 "''a''"] by (simp add: default_config_def)
qed

text \<open>
  Aggregation never hides a risk: the level of the summary is one of the levels given (or low
  when there are none), no result is worse, the flags are exactly those of the results, and a field
  of the summary has the value of the last result that has it.
\<close>

theorem aggregate_keeps_worst:
  "(\<forall>r \<in> set rs. risk_priority (ur_risk r) \<le> risk_priority (ur_risk (aggregate_uncertainties rs))) \<and>
   ur_risk (aggregate_uncertainties rs) \<in> insert Low (ur_risk ` set rs) \<and>
   set (ur_flags (aggregate_uncertainties rs)) = (\<Union>r \<in> set rs. set (ur_flags r)) \<and>
   dget (ur_fields (aggregate_uncertainties rs)) f = fold (\<lambda>r m. m ++ dget (rev (ur_fields r))) rs Map.empty f"
proof (cases "rs = []")
  case False
  then have risk: "ur_risk (aggregate_uncertainties rs) = fold worse rs Low" by (simp add: aggregate_uncertainties_def)
  have "risk_priority (ur_risk r) \<le> risk_priority (fold worse rs Low)" if "r \<in> set rs" for r
    unfolding worse_fold using that by (intro fold_max_ge) auto
  then show ?thesis using False worse_mem [of rs Low] merged_fields [of rs "[]" f]
    unfolding risk by (simp add: aggregate_uncertainties_def)
qed (simp add: aggregate_uncertainties_def empty_uncertainty_def)

theorem aggregate_keeps_worst_witness:
  "risk_priority High \<le> risk_priority (ur_risk (aggregate_uncertainties
     [empty_uncertainty\<lparr>ur_risk := High\<rparr>, empty_uncertainty]))"
  using aggregate_keeps_worst [of "[empty_uncertainty\<lparr>ur_risk := High\<rparr>, empty_uncertainty]"]
  by (simp add: empty_uncertainty_def)

end
