(* ===== verification/ValidationEngine.thy ===== *)
theory ValidationEngine
  imports PyValue
begin

text \<open>
  \<open>app/services/validation_engine.py\<close>: normalisation of an enrichment reply. The reply is any
  Python value; the result is \<open>None\<close> for \<open>ValidationError\<close>, raised only for a reply that is no
  dict. A failed coercion skips the field, as the source's handler of \<open>ValueError\<close> and
  \<open>TypeError\<close> does.
\<close>

datatype coerce_type = TStr | TFloat | TInt | TBool | TList

definition type_map :: "(string, coerce_type) dict" where
  "type_map =
     [(''string'', TStr), (''text'', TStr), (''char'', TStr), (''float'', TFloat), (''number'', TFloat),
      (''decimal'', TFloat), (''currency'', TFloat), (''integer'', TInt), (''int'', TInt), (''boolean'', TBool),
      (''bool'', TBool), (''list'', TList), (''array'', TList)]"

definition response_confidence :: "fields \<Rightarrow> f64" where
  "response_confidence payload =
     (let raw = dget_or payload ''confidence'' PNone in
      if raw = PNone then flt (5 / 10)
      else case py_float raw of Inr x \<Rightarrow> max 0 (min 1 x) | Inl _ \<Rightarrow> flt (5 / 10))"

definition metadata_keys :: "string list" where
  "metadata_keys = [''confidence'', ''reasoning'', ''sources'', ''citations'', ''explanation'']"

definition response_fields :: "fields \<Rightarrow> fields" where
  "response_fields payload =
     (case dget_or payload ''fields'' PNone of
        PDict d \<Rightarrow> d
      | _ \<Rightarrow> filter (\<lambda>kv. fst kv \<notin> set metadata_keys) payload)"

definition clean_list :: "pyval list \<Rightarrow> pyval" where
  "clean_list vs = PList (map PStr (dedup (map (\<lambda>v. take 256 (py_strip (py_str v))) (filter truthy vs))))"

definition coerce :: "pyval \<Rightarrow> coerce_type \<Rightarrow> pyerr + pyval" where
  "coerce value expected =
     (case expected of
        TBool \<Rightarrow> Inr (PBool (case value of
            PBool b \<Rightarrow> b
          | PStr s \<Rightarrow> py_lower s \<in> {''true'', ''yes'', ''1'', ''y''}
          | _ \<Rightarrow> truthy value))
      | TList \<Rightarrow> Inr (case value of
            PList vs \<Rightarrow> clean_list vs
          | PStr s \<Rightarrow> PList (map PStr (dedup (map (\<lambda>p. take 256 (py_strip p))
              (filter (\<lambda>p. py_strip p \<noteq> []) (split_on (CHR '','') s)))))
          | _ \<Rightarrow> PList [PStr (py_str value)])
      | TInt \<Rightarrow> bind_res (py_int value) (\<lambda>n. Inr (PInt n))
      | TFloat \<Rightarrow> bind_res (py_float value) (\<lambda>x. Inr (PFloat x))
      | TStr \<Rightarrow> Inr (PStr (take 4096 (py_strip (py_str value)))))"

definition validate_field :: "fields \<Rightarrow> string \<times> string \<Rightarrow> fields \<Rightarrow> fields" where
  "validate_field fs spec normalized =
     (let (name, ty) = spec; value = dget_or fs name PNone in
      if name = ''confidence'' then normalized
      else if value = PNone then normalized
      else case dget type_map (py_lower ty) of
        None \<Rightarrow> dset name value normalized
      | Some expected \<Rightarrow> (case coerce value expected of Inr w \<Rightarrow> dset name w normalized | Inl _ \<Rightarrow> normalized))"

definition pass_field :: "string \<times> pyval \<Rightarrow> fields \<Rightarrow> fields" where
  "pass_field kv normalized =
     (let (k, v) = kv in
      dset k (case v of
                PStr s \<Rightarrow> PStr (take 4096 (py_strip s))
              | PList vs \<Rightarrow> clean_list (take 50 vs)
              | _ \<Rightarrow> v) normalized)"

definition validate_response :: "pyval \<Rightarrow> (string, string) dict option \<Rightarrow> fields option" where
  "validate_response payload target_schema =
     (case payload of
        PDict p \<Rightarrow>
          (let normalized = [(''confidence'', PFloat (response_confidence p))]; fs = response_fields p in
           Some (if fs = [] then normalized
                 else case target_schema of
                     Some schema \<Rightarrow> if schema \<noteq> [] then fold (validate_field fs) schema normalized
                                   else fold pass_field fs normalized
                   | None \<Rightarrow> fold pass_field fs normalized))
      | _ \<Rightarrow> None)"

section \<open>Types of the result\<close>

text \<open>What a consumer may rely on for a field declared with type \<open>ty\<close>.\<close>

definition has_type :: "string \<Rightarrow> pyval \<Rightarrow> bool" where
  "has_type ty v =
     (case dget type_map (py_lower ty) of
        None \<Rightarrow> v \<noteq> PNone
      | Some TStr \<Rightarrow> (\<exists>s. v = PStr s \<and> length s \<le> 4096)
      | Some TFloat \<Rightarrow> (\<exists>x. v = PFloat x)
      | Some TInt \<Rightarrow> (\<exists>n. v = PInt n)
      | Some TBool \<Rightarrow> (\<exists>b. v = PBool b)
      | Some TList \<Rightarrow> (\<exists>ss. v = PList (map PStr ss) \<and> distinct ss))"

lemma coerce_type: "dget type_map (py_lower ty) = Some e \<Longrightarrow> coerce v e = Inr w \<Longrightarrow> has_type ty w"
  by (cases e) (auto simp: coerce_def has_type_def clean_list_def bind_res_Inr_iff split: pyval.splits
      intro: exI [of _ "dedup _"] exI [of _ "[py_str v]"])

lemma response_confidence_bounds: "0 \<le> response_confidence p" "response_confidence p \<le> 1"
  by (auto simp: response_confidence_def Let_def intro!: flt_nonneg flt_le_1 split: sum.split)

definition validated :: "(string \<times> string) set \<Rightarrow> f64 \<Rightarrow> fields \<Rightarrow> bool" where
  "validated sch c n \<longleftrightarrow> dget n ''confidence'' = Some (PFloat c) \<and>
     (\<forall>k v. k \<noteq> ''confidence'' \<longrightarrow> dget n k = Some v \<longrightarrow> (\<exists>ty. (k, ty) \<in> sch \<and> has_type ty v))"

lemma validate_field_cases:
  "validate_field fs (k, ty) n = n \<or>
   (\<exists>w. validate_field fs (k, ty) n = dset k w n \<and> k \<noteq> ''confidence'' \<and> has_type ty w)"
proof (cases "k = ''confidence'' \<or> dget_or fs k PNone = PNone")
  case False
  show ?thesis
  proof (cases "dget type_map (py_lower ty)")
    case None
    with False show ?thesis by (auto simp: validate_field_def has_type_def Let_def)
  next
    case (Some e)
    then show ?thesis using False coerce_type [OF Some]
      by (cases "coerce (dget_or fs k PNone) e") (auto simp: validate_field_def Let_def)
  qed
qed (auto simp: validate_field_def Let_def)

lemma validate_field_inv:
  "validated sch c n \<Longrightarrow> spec \<in> sch \<Longrightarrow> validated sch c (validate_field fs spec n)"
  using validate_field_cases [of fs "fst spec" "snd spec" n]
  by (cases spec) (auto simp: validated_def dget_dset split: if_splits)

lemma validate_fold_inv:
  "validated sch c n \<Longrightarrow> set specs \<subseteq> sch \<Longrightarrow> validated sch c (fold (validate_field fs) specs n)"
  by (induction specs arbitrary: n) (simp_all add: validate_field_inv)

section \<open>Properties\<close>

text \<open>
  C39: with a schema, the normalised reply is typed: it has a confidence between 0 and 1, every
  other field is declared in the schema, and its value has the declared type - texts at most 4096
  characters, lists of distinct texts, numbers of the declared kind. Validation never fails on a
  dict.
\<close>

theorem validated_reply_typed:
  assumes "schema \<noteq> []"
  shows "\<exists>n c. validate_response (PDict p) (Some schema) = Some n \<and>
    dget n ''confidence'' = Some (PFloat c) \<and> 0 \<le> c \<and> c \<le> 1 \<and>
    (\<forall>k v. k \<noteq> ''confidence'' \<longrightarrow> dget n k = Some v \<longrightarrow> (\<exists>ty. (k, ty) \<in> set schema \<and> has_type ty v))"
proof -
  let ?c = "response_confidence p"
  have start: "validated (set schema) ?c [(''confidence'', PFloat ?c)]" by (simp add: validated_def)
  let ?n = "if response_fields p = [] then [(''confidence'', PFloat ?c)]
    else fold (validate_field (response_fields p)) schema [(''confidence'', PFloat ?c)]"
  have "validated (set schema) ?c ?n" using start validate_fold_inv [OF start] by simp
  moreover have "validate_response (PDict p) (Some schema) = Some ?n"
    using assms by (simp add: validate_response_def Let_def)
  ultimately show ?thesis using response_confidence_bounds [of p] unfolding validated_def by blast
qed

theorem validated_reply_typed_witness:
  "\<exists>n c. validate_response (PDict [(''confidence'', PStr ''7''), (''size'', PStr '' 12 ''), (''junk'', PInt 3)])
      (Some [(''size'', ''Integer'')]) = Some n \<and>
    dget n ''confidence'' = Some (PFloat c) \<and> c \<le> 1 \<and> dget n ''junk'' = None"
proof -
  let ?p = "[(''confidence'', PStr ''7''), (''size'', PStr '' 12 ''), (''junk'', PInt 3)]"
  obtain n c where n: "validate_response (PDict ?p) (Some [(''size'', ''Integer'')]) = Some n"
      "dget n ''confidence'' = Some (PFloat c)" "c \<le> 1"
    and t: "\<forall>k v. k \<noteq> ''confidence'' \<longrightarrow> dget n k = Some v \<longrightarrow> (\<exists>ty. (k, ty) \<in> {(''size'', ''Integer'')} \<and> has_type ty v)"
    using validated_reply_typed [of "[(''size'', ''Integer'')]" ?p] by auto
  from t have "dget n ''junk'' = None" by (cases "dget n ''junk''") (use t [THEN spec, of "''junk''"] in auto)
  with n show ?thesis by blast
qed

text \<open>
  Without a schema the clamp can be undone: a reply whose nested \<open>fields\<close> contain a key
  \<open>confidence\<close> replaces the normalised confidence by that value, whatever it is.
\<close>

theorem nested_confidence_unclamped:
  "validate_response (PDict [(''confidence'', PFloat x), (''fields'', PDict [(''confidence'', PInt n)])]) None =
     Some [(''confidence'', PInt n)]"
  by (simp add: validate_response_def response_fields_def dget_or_def pass_field_def)

end
