(* ===== verification/Trackers.thy ===== *)
theory Trackers
  imports PyValue
begin

text \<open>
  The two trackers of the convergence loop: \<open>app/engines/convergence/cost_tracker.py\<close> (token budget
  and cost) and \<open>app/engines/convergence/confidence_tracker.py\<close> (per-field confidence and its
  history), with the settings of \<open>convergence_config.py\<close>. The loop uses them through two
  interfaces: \<open>token_budget\<close> (what recording a pass does to the remaining budget) and
  \<open>confidence_board\<close> (what an update does to the recorded confidences).
\<close>

record convergence_config =
  max_passes :: int
  confidence_threshold :: f64
  min_improvement_delta :: f64

section \<open>Cost tracker\<close>

record cost_tracker =
  ct_max_tokens :: int
  ct_rate_per_1k :: f64
  ct_tokens_used :: int
  ct_tokens_per_pass :: "int list"

record cost_summary =
  cs_total_tokens :: int
  cs_total_cost_usd :: f64
  cs_tokens_per_pass :: "int list"
  cs_cost_per_field :: f64
  cs_budget_utilization_pct :: f64

definition new_cost_tracker :: "int \<Rightarrow> f64 \<Rightarrow> pyerr + cost_tracker" where
  "new_cost_tracker max_budget rate =
     (if max_budget \<le> 0 then Inl ValueError
      else Inr \<lparr>ct_max_tokens = max_budget, ct_rate_per_1k = rate, ct_tokens_used = 0, ct_tokens_per_pass = []\<rparr>)"

text \<open>Padding with zeros up to \<open>pass_number\<close>, then \<open>xs[pass_number - 1] = tokens\<close> with Python's negative indices.\<close>

definition set_pass :: "int \<Rightarrow> int \<Rightarrow> int list \<Rightarrow> pyerr + int list" where
  "set_pass pass_number tokens xs =
     (let ys = xs @ replicate (nat (pass_number - int (length xs))) 0;
          i = (if pass_number - 1 < 0 then pass_number - 1 + int (length ys) else pass_number - 1)
      in if 0 \<le> i then Inr (ys[nat i := tokens]) else Inl IndexError)"

definition record_pass :: "int \<Rightarrow> int \<Rightarrow> cost_tracker \<Rightarrow> pyerr + cost_tracker" where
  "record_pass pass_number tokens t =
     (if tokens < 0 then Inl ValueError
      else bind_res (set_pass pass_number tokens (ct_tokens_per_pass t)) (\<lambda>xs.
        Inr (t\<lparr>ct_tokens_used := ct_tokens_used t + tokens, ct_tokens_per_pass := xs\<rparr>)))"

definition total_cost_usd :: "cost_tracker \<Rightarrow> f64" where
  "total_cost_usd t = py_round 6 (f_of_int (ct_tokens_used t) * ct_rate_per_1k t / f_of_int 1000)"

definition budget_remaining :: "cost_tracker \<Rightarrow> int" where
  "budget_remaining t = max 0 (ct_max_tokens t - ct_tokens_used t)"

definition can_continue :: "cost_tracker \<Rightarrow> bool" where
  "can_continue t \<longleftrightarrow> ct_tokens_used t < ct_max_tokens t"

definition cost_per_field :: "cost_tracker \<Rightarrow> int \<Rightarrow> f64" where
  "cost_per_field t n = (if n \<le> 0 then 0 else py_round 6 (total_cost_usd t / f_of_int n))"

definition to_summary :: "cost_tracker \<Rightarrow> int \<Rightarrow> cost_summary" where
  "to_summary t n =
     \<lparr>cs_total_tokens = ct_tokens_used t, cs_total_cost_usd = total_cost_usd t,
      cs_tokens_per_pass = ct_tokens_per_pass t, cs_cost_per_field = cost_per_field t n,
      cs_budget_utilization_pct = py_round 2 (if 0 < ct_max_tokens t
        then py_int_div (ct_tokens_used t) (ct_max_tokens t) * f_of_int 100 else 0)\<rparr>"

section \<open>Confidence tracker\<close>

record attempt =
  at_pass :: int
  at_value :: pyval
  at_confidence :: f64

record field_state =
  fs_value :: pyval
  fs_confidence :: f64
  fs_pass :: int
  fs_source :: string
  fs_attempts :: "attempt list"

record confidence_tracker =
  tr_fields :: "(string, field_state) dict"
  tr_threshold :: f64
  tr_current_pass :: int

definition new_confidence_tracker :: "f64 \<Rightarrow> confidence_tracker" where
  "new_confidence_tracker threshold = \<lparr>tr_fields = [], tr_threshold = threshold, tr_current_pass = 0\<rparr>"

definition update_field ::
    "string \<Rightarrow> pyval \<Rightarrow> f64 \<Rightarrow> int \<Rightarrow> string \<Rightarrow> confidence_tracker \<Rightarrow> confidence_tracker" where
  "update_field name v confidence pass_num source t =
     (let attempts = (case dget (tr_fields t) name of
            Some p \<Rightarrow> fs_attempts p @ [\<lparr>at_pass = fs_pass p, at_value = fs_value p, at_confidence = fs_confidence p\<rparr>]
          | None \<Rightarrow> [])
      in t\<lparr>tr_fields := dset name \<lparr>fs_value = v, fs_confidence = confidence, fs_pass = pass_num,
                                   fs_source = source, fs_attempts = attempts\<rparr> (tr_fields t),
           tr_current_pass := max (tr_current_pass t) pass_num\<rparr>)"

definition get_low_confidence_fields :: "confidence_tracker \<Rightarrow> string list" where
  "get_low_confidence_fields t = map fst (filter (\<lambda>kv. fs_confidence (snd kv) < tr_threshold t) (tr_fields t))"

definition has_converged :: "confidence_tracker \<Rightarrow> bool" where
  "has_converged t =
     (if tr_fields t = [] then False else list_all (\<lambda>s. tr_threshold t \<le> fs_confidence s) (dvalues (tr_fields t)))"

definition improvement :: "field_state \<Rightarrow> f64 option" where
  "improvement s = (if fs_attempts s \<noteq> [] then Some (fs_confidence s - at_confidence (last (fs_attempts s))) else None)"

definition had_meaningful_improvement :: "f64 \<Rightarrow> confidence_tracker \<Rightarrow> bool" where
  "had_meaningful_improvement min_delta t =
     (case List.map_filter improvement (dvalues (tr_fields t)) of
        [] \<Rightarrow> False
      | d # ds \<Rightarrow> min_delta \<le> fold max ds d)"

record pass_summary =
  ps_total_passes :: int
  ps_converged :: bool
  ps_above :: nat
  ps_below :: nat
  ps_average :: f64

definition get_pass_summary :: "confidence_tracker \<Rightarrow> pass_summary" where
  "get_pass_summary t =
     \<lparr>ps_total_passes = tr_current_pass t, ps_converged = has_converged t,
      ps_above = length (filter (\<lambda>s. tr_threshold t \<le> fs_confidence s) (dvalues (tr_fields t))),
      ps_below = length (get_low_confidence_fields t),
      ps_average = (if tr_fields t \<noteq> []
        then py_sum (map fs_confidence (dvalues (tr_fields t))) / f_of_int (int (length (tr_fields t))) else 0)\<rparr>"

definition get_field_confidence :: "string \<Rightarrow> confidence_tracker \<Rightarrow> f64" where
  "get_field_confidence name t = (case dget (tr_fields t) name of None \<Rightarrow> 0 | Some s \<Rightarrow> fs_confidence s)"

definition get_all_confidences :: "confidence_tracker \<Rightarrow> (string, f64) dict" where
  "get_all_confidences t = map (\<lambda>(k, s). (k, fs_confidence s)) (tr_fields t)"

section \<open>The budget interface\<close>

locale token_budget =
  fixes spend :: "'p \<Rightarrow> int \<Rightarrow> 'b \<Rightarrow> 'e + 'b" and used :: "'b \<Rightarrow> int" and limit :: "'b \<Rightarrow> int" and open_budget :: "'b \<Rightarrow> bool"
  assumes spend_used: "spend p n b = Inr b' \<Longrightarrow> used b' = used b + n \<and> limit b' = limit b \<and> 0 \<le> n"
    and open_iff: "open_budget b \<longleftrightarrow> used b < limit b"
begin

lemma spend_mono: "spend p n b = Inr b' \<Longrightarrow> used b \<le> used b'"
  using spend_used by fastforce

lemma closed_stays_closed: "spend p n b = Inr b' \<Longrightarrow> \<not> open_budget b \<Longrightarrow> \<not> open_budget b'"
  using spend_used spend_mono by (fastforce simp: open_iff)

text \<open>Only the last admitted expense can pass the limit.\<close>

lemma overshoot: "open_budget b \<Longrightarrow> spend p n b = Inr b' \<Longrightarrow> used b' < limit b' + n"
  using spend_used by (fastforce simp: open_iff)

end

interpretation pass_budget: token_budget record_pass ct_tokens_used ct_max_tokens can_continue
  by unfold_locales (auto simp: record_pass_def can_continue_def bind_res_Inr_iff split: if_splits)

section \<open>The board interface\<close>

locale confidence_board =
  fixes put :: "string \<Rightarrow> pyval \<Rightarrow> f64 \<Rightarrow> int \<Rightarrow> string \<Rightarrow> 't \<Rightarrow> 't" and conf :: "'t \<Rightarrow> string \<Rightarrow> f64 option"
  assumes conf_put: "conf (put k v c p src t) = (conf t)(k \<mapsto> c)"
begin

lemma conf_fold:
  "conf (fold (\<lambda>(k, v, c). put k v c p src) us t) = conf t ++ map_of (rev (map (\<lambda>(k, v, c). (k, c)) us))"
  by (induction us arbitrary: t) (auto simp: conf_put map_add_def fun_eq_iff split: option.splits)

lemma dom_grows: "dom (conf t) \<subseteq> dom (conf (put k v c p src t))"
  by (auto simp: conf_put)

end

definition tracked_confidence :: "confidence_tracker \<Rightarrow> string \<Rightarrow> f64 option" where
  "tracked_confidence t k = map_option fs_confidence (dget (tr_fields t) k)"

interpretation tracker_board: confidence_board update_field tracked_confidence
  by unfold_locales (auto simp: tracked_confidence_def update_field_def Let_def dget_dset)

section \<open>Invariants\<close>

lemma set_pass_next: "set_pass (int (length xs) + 1) n xs = Inr (xs @ [n])"
  by (simp add: set_pass_def)

lemma record_pass_next:
  "0 \<le> n \<Longrightarrow> record_pass (int (length (ct_tokens_per_pass t)) + 1) n t =
     Inr (t\<lparr>ct_tokens_used := ct_tokens_used t + n, ct_tokens_per_pass := ct_tokens_per_pass t @ [n]\<rparr>)"
  by (simp add: record_pass_def set_pass_next)

definition tracker_inv :: "confidence_tracker \<Rightarrow> bool" where
  "tracker_inv t \<longleftrightarrow> dict_ok (tr_fields t) \<and> (\<forall>s \<in> set (dvalues (tr_fields t)). fs_pass s \<le> tr_current_pass t)"

lemma tracker_inv_update: "tracker_inv t \<Longrightarrow> tracker_inv (update_field k v c p src t)"
  using dvalues_dset [of k _ "tr_fields t"]
  by (fastforce simp: tracker_inv_def update_field_def Let_def alist.ok_put)

lemma update_dget:
  "dget (tr_fields (update_field k v c p src t)) k' =
     (if k' = k then Some \<lparr>fs_value = v, fs_confidence = c, fs_pass = p, fs_source = src,
        fs_attempts = (case dget (tr_fields t) k of
            Some q \<Rightarrow> fs_attempts q @ [\<lparr>at_pass = fs_pass q, at_value = fs_value q, at_confidence = fs_confidence q\<rparr>]
          | None \<Rightarrow> [])\<rparr>
      else dget (tr_fields t) k')"
  by (simp add: update_field_def Let_def dget_dset)

lemma above_below: "ps_above (get_pass_summary t) + ps_below (get_pass_summary t) = length (tr_fields t)"
proof -
  have "length (filter (\<lambda>s. tr_threshold t \<le> fs_confidence s) (map snd fs)) +
      length (filter (\<lambda>kv. fs_confidence (snd kv) < tr_threshold t) fs) = length fs" for fs :: "(string \<times> field_state) list"
    by (induction fs) auto
  then show ?thesis by (simp add: get_pass_summary_def get_low_confidence_fields_def)
qed

lemma had_improvement_if:
  assumes "s \<in> set (dvalues (tr_fields t))" and "improvement s = Some d" and "min_delta \<le> d"
  shows "had_meaningful_improvement min_delta t"
proof -
  let ?ds = "List.map_filter improvement (dvalues (tr_fields t))"
  have mem: "d \<in> set ?ds" using assms(1,2) by (force simp: List.map_filter_def)
  then obtain e es where e: "?ds = e # es" by (cases ?ds) auto
  then have "d \<le> fold max es e" using mem by (intro fold_max_ge) simp
  then show ?thesis using assms(3) e unfolding had_meaningful_improvement_def by simp
qed

text \<open>The loop records each pass once, in order.\<close>

fun record_passes :: "int list \<Rightarrow> int \<Rightarrow> cost_tracker \<Rightarrow> pyerr + cost_tracker" where
  "record_passes [] p t = Inr t"
| "record_passes (n # ns) p t = bind_res (record_pass p n t) (record_passes ns (p + 1))"

lemma record_passes_spec:
  "\<forall>n \<in> set ns. 0 \<le> n \<Longrightarrow> record_passes ns (int (length (ct_tokens_per_pass t)) + 1) t =
    Inr (t\<lparr>ct_tokens_used := ct_tokens_used t + sum_list ns, ct_tokens_per_pass := ct_tokens_per_pass t @ ns\<rparr>)"
proof (induction ns arbitrary: t)
  case (Cons n ns)
  let ?t = "t\<lparr>ct_tokens_used := ct_tokens_used t + n, ct_tokens_per_pass := ct_tokens_per_pass t @ [n]\<rparr>"
  have "record_pass (int (length (ct_tokens_per_pass t)) + 1) n t = Inr ?t" using Cons.prems by (intro record_pass_next) simp
  moreover have "int (length (ct_tokens_per_pass ?t)) + 1 = int (length (ct_tokens_per_pass t)) + 1 + 1" by simp
  ultimately show ?case using Cons.IH [of ?t] Cons.prems by (simp add: add_ac)
qed simp

section \<open>Properties\<close>

text \<open>
  Token accounting. After passes 1, 2, ... have been recorded with non-negative token counts,
  the tracker holds exactly those counts, the tokens used are their sum, and the remaining budget is
  what is left of the limit, never negative; the loop may continue exactly while something is left.
\<close>

theorem budget_accounting:
  assumes "new_cost_tracker max_budget rate = Inr t0" and "\<forall>n \<in> set ns. 0 \<le> n"
  shows "\<exists>t. record_passes ns 1 t0 = Inr t \<and> ct_tokens_per_pass t = ns \<and> ct_tokens_used t = sum_list ns \<and>
    budget_remaining t = max 0 (max_budget - sum_list ns) \<and> can_continue t = (0 < budget_remaining t)"
proof -
  from assms(1) have t0: "ct_tokens_per_pass t0 = []" "ct_tokens_used t0 = 0" "ct_max_tokens t0 = max_budget"
    by (auto simp: new_cost_tracker_def split: if_splits)
  from record_passes_spec [OF assms(2), of t0] t0 show ?thesis
    by (simp add: budget_remaining_def can_continue_def less_max_iff_disj)
qed

theorem budget_accounting_witness:
  "\<exists>t0 t. new_cost_tracker 30000 (flt (5 / 1000)) = Inr t0 \<and> record_passes [12000, 20000] 1 t0 = Inr t \<and>
     budget_remaining t = 0 \<and> \<not> can_continue t"
proof -
  obtain t0 where t0: "new_cost_tracker 30000 (flt (5 / 1000)) = Inr t0" by (simp add: new_cost_tracker_def)
  from budget_accounting [OF t0, of "[12000, 20000]"] t0 show ?thesis by auto
qed

text \<open>
  The improvement test does not look at the last pass only. Once the last two values of some
  field differ by the required amount, the test stays true however many later passes update only
  other fields, without any of them improving.
\<close>

theorem improvement_goes_stale:
  assumes "dget (tr_fields t) k = Some s" and "improvement s = Some d" and "min_delta \<le> d"
    and "k \<notin> set (map fst us)"
  shows "had_meaningful_improvement min_delta (fold (\<lambda>(n, v, c, p). update_field n v c p src) us t)"
proof -
  have "dget (tr_fields (fold (\<lambda>(n, v, c, p). update_field n v c p src) us t)) k = Some s"
    using assms(1,4) by (induction us arbitrary: t) (auto simp: update_dget)
  then have "(k, s) \<in> set (tr_fields (fold (\<lambda>(n, v, c, p). update_field n v c p src) us t))" by (rule map_of_SomeD)
  then show ?thesis using assms(2,3) by (intro had_improvement_if) force+
qed

theorem improvement_goes_stale_witness:
  "had_meaningful_improvement (flt (5 / 100))
     (update_field ''b'' PNone (flt (1 / 10)) 4 ''s'' (update_field ''b'' PNone (flt (1 / 10)) 3 ''s''
       (update_field ''a'' PNone 1 2 ''s'' (update_field ''a'' PNone 0 1 ''s'' (new_confidence_tracker 1)))))"
proof -
  let ?t = "update_field ''a'' PNone 1 2 ''s'' (update_field ''a'' PNone 0 1 ''s'' (new_confidence_tracker 1))"
  obtain s where "dget (tr_fields ?t) ''a'' = Some s" "improvement s = Some 1"
    by (simp add: update_dget new_confidence_tracker_def improvement_def)
  from improvement_goes_stale [OF this, of "flt (5 / 100)"
      "[(''b'', PNone, flt (1 / 10), 3), (''b'', PNone, flt (1 / 10), 4)]" "''s''"] flt_le_1 [of "5 / 100"]
  show ?thesis by simp
qed

end
