(* ===== verification/ReturnChannel.thy ===== *)
theory ReturnChannel
  imports DerivationGraph
begin

text \<open>
  \<open>app/services/graph_return_channel.py\<close>: the queue that carries inference results of the graph
  service back to the convergence loop. Each tenant has a FIFO queue and a counter of the pending
  targets per entity. \<open>submit\<close> and \<open>take_for_entity\<close> contain no \<open>await\<close> and are atomic;
  \<open>drain\<close> suspends between two reads, so it is three kinds of steps (start, one read, end) of
  \<open>channel_step\<close>, and other operations may run between them. A full queue raises \<open>QueueFull\<close>, which
  \<open>submit\<close> counts as a rejection.
\<close>

record enrichment_target =
  et_entity :: string
  et_tenant :: string
  et_field :: string
  et_value :: pyval
  et_confidence :: f64
  et_packet :: string
  et_rule :: string
  et_created :: f64

record packet =
  pk_action :: string
  pk_payload :: fields
  pk_tenant :: string
  pk_id :: string

datatype channel_error = TransportValidationError | Uncaught pyerr

definition channel_confidence_floor :: f64 where
  "channel_confidence_floor = flt (55 / 100)"

section \<open>Reading a packet\<close>

definition validate_graph_inference_packet :: "packet \<Rightarrow> channel_error + pyval list" where
  "validate_graph_inference_packet p =
     (if pk_action p \<noteq> ''graph-inference-result'' then Inl TransportValidationError
      else case dget_or (pk_payload p) ''inference_outputs'' PNone of
        PList outs \<Rightarrow> Inr outs
      | _ \<Rightarrow> Inl TransportValidationError)"

definition target_of :: "f64 \<Rightarrow> packet \<Rightarrow> fields \<Rightarrow> f64 \<Rightarrow> channel_error + enrichment_target" where
  "target_of now p out confidence =
     (case (dget out ''entity_id'', dget out ''field'') of
        (Some e, Some f) \<Rightarrow>
          Inr \<lparr>et_entity = py_str e, et_tenant = pk_tenant p, et_field = py_str f,
               et_value = dget_or out ''value'' PNone, et_confidence = confidence, et_packet = pk_id p,
               et_rule = py_str (dget_or out ''rule'' (PStr ''unknown'')), et_created = now\<rparr>
      | _ \<Rightarrow> Inl (Uncaught KeyError))"

fun extract_outputs :: "f64 \<Rightarrow> packet \<Rightarrow> pyval list \<Rightarrow> channel_error + enrichment_target list" where
  "extract_outputs now p [] = Inr []"
| "extract_outputs now p (PDict out # outs) =
     (let confidence = safe_float (dget_or out ''confidence'' (PFloat 0)) 0 in
      if confidence < channel_confidence_floor then extract_outputs now p outs
      else bind_res (target_of now p out confidence) (\<lambda>t.
           bind_res (extract_outputs now p outs) (\<lambda>ts. Inr (t # ts))))"
| "extract_outputs now p (_ # outs) = Inl (Uncaught AttributeError)"

definition extract_targets_from_packet :: "f64 \<Rightarrow> packet \<Rightarrow> channel_error + enrichment_target list" where
  "extract_targets_from_packet now p = bind_res (validate_graph_inference_packet p) (extract_outputs now p)"

section \<open>The channel\<close>

record channel =
  ch_queues :: "(string, enrichment_target list) dict"
  ch_pending :: "(string, (string, int) dict) dict"
  ch_maxsize :: int
  ch_submitted :: nat
  ch_drained :: nat
  ch_rejected :: nat

definition new_channel :: "int \<Rightarrow> channel" where
  "new_channel maxsize = \<lparr>ch_queues = [], ch_pending = [], ch_maxsize = maxsize, ch_submitted = 0,
     ch_drained = 0, ch_rejected = 0\<rparr>"

definition queue_for :: "string \<Rightarrow> channel \<Rightarrow> channel" where
  "queue_for tenant ch =
     (if dmem tenant (ch_queues ch) then ch else ch\<lparr>ch_queues := dset tenant [] (ch_queues ch)\<rparr>)"

definition queue_full :: "channel \<Rightarrow> string \<Rightarrow> bool" where
  "queue_full ch tenant \<longleftrightarrow> 0 < ch_maxsize ch \<and> ch_maxsize ch \<le> int (length (dget_or (ch_queues ch) tenant []))"

definition put_target :: "string \<Rightarrow> enrichment_target \<Rightarrow> nat \<times> channel \<Rightarrow> nat \<times> channel" where
  "put_target tenant t s =
     (let (n, ch) = s in
      if queue_full ch tenant then (n, ch\<lparr>ch_rejected := ch_rejected ch + 1\<rparr>)
      else (let c = dget_or (ch_pending ch) tenant [] in
        (n + 1, ch\<lparr>ch_queues := dset tenant (dget_or (ch_queues ch) tenant [] @ [t]) (ch_queues ch),
                   ch_pending := dset tenant (dset (et_entity t) (dget_or c (et_entity t) 0 + 1) c) (ch_pending ch)\<rparr>)))"

definition submit :: "f64 \<Rightarrow> packet \<Rightarrow> channel \<Rightarrow> channel_error + nat \<times> channel" where
  "submit now p ch =
     bind_res (extract_targets_from_packet now p) (\<lambda>targets.
       let (n, ch') = fold (put_target (pk_tenant p)) targets (0, queue_for (pk_tenant p) ch)
       in Inr (n, ch'\<lparr>ch_submitted := ch_submitted ch' + n\<rparr>))"

definition subtract_counts :: "string list \<Rightarrow> (string, int) dict \<Rightarrow> (string, int) dict" where
  "subtract_counts es c = fold (\<lambda>e c. dset e (dget_or c e 0 - 1) c) es c"

definition forget :: "string \<Rightarrow> enrichment_target list \<Rightarrow> channel \<Rightarrow> channel" where
  "forget tenant targets ch =
     (case dget (ch_pending ch) tenant of
        None \<Rightarrow> ch
      | Some c \<Rightarrow> ch\<lparr>ch_pending := dset tenant
          (filter (\<lambda>en. \<not> snd en \<le> 0) (subtract_counts (map et_entity targets) c)) (ch_pending ch)\<rparr>)"

fun partition_queue ::
    "string \<Rightarrow> int \<Rightarrow> enrichment_target list \<Rightarrow> enrichment_target list \<times> enrichment_target list \<Rightarrow>
     enrichment_target list \<times> enrichment_target list" where
  "partition_queue e max_targets [] (taken, kept) = (taken, kept)"
| "partition_queue e max_targets (t # q) (taken, kept) =
     (if et_entity t = e \<and> int (length taken) < max_targets
      then partition_queue e max_targets q (taken @ [t], kept)
      else partition_queue e max_targets q (taken, kept @ [t]))"

definition pending_count :: "channel \<Rightarrow> string \<Rightarrow> string \<Rightarrow> int" where
  "pending_count ch tenant e = dget_or (dget_or (ch_pending ch) tenant []) e 0"

definition take_for_entity :: "string \<Rightarrow> string \<Rightarrow> int \<Rightarrow> channel \<Rightarrow> enrichment_target list \<times> channel" where
  "take_for_entity tenant e max_targets ch =
     (case dget (ch_queues ch) tenant of
        None \<Rightarrow> ([], ch)
      | Some q \<Rightarrow>
          if pending_count ch tenant e = 0 then ([], ch)
          else (let (taken, kept) = partition_queue e max_targets q ([], []) in
            (taken, forget tenant taken (ch\<lparr>ch_queues := dset tenant kept (ch_queues ch),
                                           ch_drained := ch_drained ch + length taken\<rparr>))))"

text \<open>The suspended \<open>drain\<close> calls: their tenant and what they have read so far.\<close>

record system =
  sy_channel :: channel
  sy_drains :: "(nat, string \<times> enrichment_target list) dict"

definition drain_start :: "nat \<Rightarrow> string \<Rightarrow> system \<Rightarrow> system" where
  "drain_start i tenant s = s\<lparr>sy_channel := queue_for tenant (sy_channel s), sy_drains := dset i (tenant, []) (sy_drains s)\<rparr>"

definition drain_get :: "nat \<Rightarrow> int \<Rightarrow> system \<Rightarrow> system option" where
  "drain_get i max_targets s =
     (case dget (sy_drains s) i of
        None \<Rightarrow> None
      | Some (tenant, got) \<Rightarrow>
          if \<not> int (length got) < max_targets then None
          else (case dget_or (ch_queues (sy_channel s)) tenant [] of
              [] \<Rightarrow> None
            | t # q \<Rightarrow> Some (s\<lparr>sy_channel := (sy_channel s)\<lparr>ch_queues := dset tenant q (ch_queues (sy_channel s))\<rparr>,
                               sy_drains := dset i (tenant, got @ [t]) (sy_drains s)\<rparr>)))"

definition drain_end :: "nat \<Rightarrow> system \<Rightarrow> (enrichment_target list \<times> system) option" where
  "drain_end i s =
     (case dget (sy_drains s) i of
        None \<Rightarrow> None
      | Some (tenant, got) \<Rightarrow>
          (let ch = sy_channel s in
           Some (got, s\<lparr>sy_channel := forget tenant got (ch\<lparr>ch_drained := ch_drained ch + length got\<rparr>),
                        sy_drains := dpop i (sy_drains s)\<rparr>)))"

inductive channel_step :: "system \<Rightarrow> system \<Rightarrow> bool" where
  submit_step: "submit now p (sy_channel s) = Inr (n, ch) \<Longrightarrow> channel_step s (s\<lparr>sy_channel := ch\<rparr>)"
| take_step: "take_for_entity tenant e k (sy_channel s) = (ts, ch) \<Longrightarrow> channel_step s (s\<lparr>sy_channel := ch\<rparr>)"
| drain_start_step: "dget (sy_drains s) i = None \<Longrightarrow> channel_step s (drain_start i tenant s)"
| drain_get_step: "drain_get i k s = Some s' \<Longrightarrow> channel_step s s'"
| drain_end_step: "drain_end i s = Some (ts, s') \<Longrightarrow> channel_step s s'"

inductive channel_reach :: "int \<Rightarrow> system \<Rightarrow> bool" for maxsize where
  reach_new: "channel_reach maxsize \<lparr>sy_channel = new_channel maxsize, sy_drains = []\<rparr>"
| reach_step: "channel_reach maxsize s \<Longrightarrow> channel_step s s' \<Longrightarrow> channel_reach maxsize s'"

inductive_cases channel_stepE: "channel_step s s'"

section \<open>Queue partition\<close>

lemma partition_queue_parts:
  "partition_queue e k q (taken, kept) = (taken', kept') \<Longrightarrow>
     taken' = taken @ take (nat (k - int (length taken))) (filter (\<lambda>t. et_entity t = e) q) \<and>
     filter (\<lambda>t. et_entity t = e) kept' = filter (\<lambda>t. et_entity t = e) kept @
       drop (nat (k - int (length taken))) (filter (\<lambda>t. et_entity t = e) q) \<and>
     filter (\<lambda>t. et_entity t \<noteq> e) kept' = filter (\<lambda>t. et_entity t \<noteq> e) (kept @ q)"
proof (induction q arbitrary: taken kept)
  case (Cons t q)
  consider "et_entity t = e" "int (length taken) < k" | "et_entity t = e" "k \<le> int (length taken)" | "et_entity t \<noteq> e"
    by linarith
  then show ?case
  proof cases
    case 1
    then have n: "nat (k - int (length taken)) = Suc (nat (k - int (length (taken @ [t]))))"
      by (simp add: Suc_nat_eq_nat_zadd1)
    with 1 Cons.IH [of "taken @ [t]" kept] Cons.prems show ?thesis by simp
  next
    case 2
    with Cons.IH [of taken "kept @ [t]"] Cons.prems show ?thesis by simp
  next
    case 3
    with Cons.IH [of taken "kept @ [t]"] Cons.prems show ?thesis by simp
  qed
qed simp

definition cnt :: "string \<Rightarrow> enrichment_target list \<Rightarrow> int" where
  "cnt e q = int (length (filter (\<lambda>t. et_entity t = e) q))"

lemma cnt_simps [simp]: "cnt e [] = 0" "cnt e (t # q) = (if et_entity t = e then 1 else 0) + cnt e q"
  "cnt e (q @ q') = cnt e q + cnt e q'" "0 \<le> cnt e q"
  by (simp_all add: cnt_def)

lemma partition_queue_cnt:
  "partition_queue e k q (taken, kept) = (taken', kept') \<Longrightarrow>
     cnt e' taken' + cnt e' kept' = cnt e' taken + cnt e' kept + cnt e' q \<and>
     length taken' + length kept' = length taken + length kept + length q \<and>
     set taken' \<union> set kept' = set taken \<union> set kept \<union> set q"
  by (induction q arbitrary: taken kept) (fastforce split: if_splits)+

section \<open>Pending counts\<close>

lemma subtract_counts_get: "dget_or (subtract_counts es c) e 0 = dget_or c e 0 - int (count_list es e)"
  by (induction es arbitrary: c) (auto simp: subtract_counts_def dget_or_simps)

lemma subtract_counts_ok: "dict_ok c \<Longrightarrow> dict_ok (subtract_counts es c)"
  by (induction es arbitrary: c) (simp_all add: subtract_counts_def alist.ok_put)

lemma filter_positive: "dict_ok c \<Longrightarrow> dget_or (filter (\<lambda>en. \<not> snd en \<le> 0) c) e 0 = max 0 (dget_or c e 0 :: int)"
  by (auto simp: dget_or_def dget_filter split: option.split)

definition pending_ok :: "channel \<Rightarrow> bool" where
  "pending_ok ch \<longleftrightarrow> (\<forall>tn c. dget (ch_pending ch) tn = Some c \<longrightarrow> dict_ok c)"

lemma cnt_count: "cnt e ts = int (count_list (map et_entity ts) e)"
  by (induction ts) auto

lemma pending_forget:
  assumes "pending_ok ch" and "0 \<le> pending_count ch tn e"
  shows "pending_count (forget tenant ts ch) tn e =
    (if tn = tenant then max 0 (pending_count ch tn e - cnt e ts) else pending_count ch tn e)"
proof (cases "dget (ch_pending ch) tenant")
  case None
  then show ?thesis by (simp add: forget_def pending_count_def dget_or_def cnt_def)
next
  case (Some c)
  then have "dict_ok c" using assms(1) by (auto simp: pending_ok_def)
  then have "dget_or (filter (\<lambda>en. \<not> snd en \<le> 0) (subtract_counts (map et_entity ts) c)) e 0 =
      max 0 (dget_or c e 0 - cnt e ts)"
    by (simp add: filter_positive subtract_counts_ok subtract_counts_get cnt_count)
  with Some show ?thesis by (simp add: forget_def pending_count_def dget_or_def dget_dset)
qed

lemma pending_ok_forget: "pending_ok ch \<Longrightarrow> pending_ok (forget tenant ts ch)"
  by (auto simp: pending_ok_def forget_def dget_dset distinct_map_filter subtract_counts_ok
      split: option.splits if_splits)

lemma forget_frame [simp]:
  "ch_queues (forget tenant ts ch) = ch_queues ch" "ch_drained (forget tenant ts ch) = ch_drained ch"
  "ch_submitted (forget tenant ts ch) = ch_submitted ch" "ch_maxsize (forget tenant ts ch) = ch_maxsize ch"
  by (simp_all add: forget_def split: option.split)

section \<open>The invariant\<close>

definition queue_of :: "channel \<Rightarrow> string \<Rightarrow> enrichment_target list" where
  "queue_of ch tn = dget_or (ch_queues ch) tn []"

definition in_flight :: "(nat, string \<times> enrichment_target list) dict \<Rightarrow> string \<Rightarrow> string \<Rightarrow> int" where
  "in_flight ds tn e = sum_list (map (\<lambda>(i, tenant, got). if tenant = tn then cnt e got else 0) ds)"

definition flight_part :: "string \<Rightarrow> string \<Rightarrow> nat \<times> string \<times> enrichment_target list \<Rightarrow> int" where
  "flight_part tn e x = (case x of (i, tenant, got) \<Rightarrow> if tenant = tn then cnt e got else 0)"

lemma in_flight_sum: "in_flight ds tn e = sum_list (map (flight_part tn e) ds)"
  by (simp add: in_flight_def flight_part_def [abs_def])

lemma in_flight_nonneg: "0 \<le> in_flight ds tn e"
  unfolding in_flight_sum by (intro sum_list_nonneg) (auto simp: flight_part_def)

lemma in_flight_ge: "dget ds i = Some (tn, got) \<Longrightarrow> cnt e got \<le> in_flight ds tn e"
proof (induction ds)
  case (Cons d ds)
  then show ?case using in_flight_nonneg [of ds tn e]
    by (cases d) (auto simp: in_flight_sum flight_part_def intro: add_increasing split: if_splits)
qed simp

definition channel_ok :: "channel \<Rightarrow> (string \<Rightarrow> string \<Rightarrow> int) \<Rightarrow> bool" where
  "channel_ok ch fl \<longleftrightarrow> pending_ok ch \<and> (\<forall>tn e. pending_count ch tn e = cnt e (queue_of ch tn) + fl tn e \<and> 0 \<le> fl tn e) \<and>
     (\<forall>tn. \<forall>t \<in> set (queue_of ch tn). et_tenant t = tn \<and> channel_confidence_floor \<le> et_confidence t)"

lemma queue_of_queue_for [simp]: "queue_of (queue_for tenant ch) tn = queue_of ch tn"
  by (auto simp: queue_of_def queue_for_def dmem_def dget_or_def dget_dset split: option.split)

lemma channel_ok_queue_for: "channel_ok ch fl \<Longrightarrow> channel_ok (queue_for tenant ch) fl"
proof -
  have p: "ch_pending (queue_for tenant ch) = ch_pending ch" by (simp add: queue_for_def)
  then have "pending_ok (queue_for tenant ch) = pending_ok ch" and
    "\<And>tn e. pending_count (queue_for tenant ch) tn e = pending_count ch tn e"
    by (simp_all add: pending_ok_def pending_count_def)
  then show "channel_ok ch fl \<Longrightarrow> channel_ok (queue_for tenant ch) fl" by (simp add: channel_ok_def)
qed

lemma channel_ok_put:
  assumes "channel_ok (snd s) fl" and "et_tenant t = tenant" and "channel_confidence_floor \<le> et_confidence t"
  shows "channel_ok (snd (put_target tenant t s)) fl"
proof (cases "queue_full (snd s) tenant")
  case True
  then show ?thesis using assms(1)
    by (cases s) (simp add: put_target_def channel_ok_def pending_ok_def pending_count_def queue_of_def)
next
  case False
  obtain n ch where s: "s = (n, ch)" by (cases s)
  let ?c = "dget_or (ch_pending ch) tenant []"
  let ?ch = "snd (put_target tenant t s)"
  have q: "queue_of ?ch tn = (if tn = tenant then queue_of ch tn @ [t] else queue_of ch tn)" for tn
    using False by (simp add: s put_target_def Let_def queue_of_def dget_or_simps)
  have pend: "pending_count ?ch tn e = pending_count ch tn e + (if tn = tenant \<and> et_entity t = e then 1 else 0)" for tn e
    using False by (auto simp: s put_target_def Let_def pending_count_def dget_or_simps)
  have c: "dict_ok ?c" using assms(1) by (auto simp: channel_ok_def pending_ok_def s dget_or_def split: option.split)
  have "pending_ok ?ch" using assms(1) False c
    by (auto simp: s put_target_def Let_def channel_ok_def pending_ok_def dget_dset alist.ok_put)
  moreover have "channel_ok ch fl" using assms(1) s by simp
  ultimately show ?thesis unfolding channel_ok_def q pend using assms(2,3) by auto
qed

lemma channel_ok_put_fold:
  "channel_ok (snd s) fl \<Longrightarrow> \<forall>t \<in> set ts. et_tenant t = tenant \<and> channel_confidence_floor \<le> et_confidence t \<Longrightarrow>
   channel_ok (snd (fold (put_target tenant) ts s)) fl"
  by (induction ts arbitrary: s) (simp_all add: channel_ok_put)

lemma extract_outputs_ok:
  "extract_outputs now p outs = Inr ts \<Longrightarrow> \<forall>t \<in> set ts. et_tenant t = pk_tenant p \<and> channel_confidence_floor \<le> et_confidence t"
proof (induction now p outs arbitrary: ts rule: extract_outputs.induct)
  case (2 now p out outs)
  let ?c = "safe_float (dget_or out ''confidence'' (PFloat 0)) 0"
  show ?case
  proof (cases "?c < channel_confidence_floor")
    case True
    with 2 show ?thesis by (simp add: Let_def)
  next
    case False
    with "2.prems" obtain t ts' where t: "target_of now p out ?c = Inr t" "extract_outputs now p outs = Inr ts'" "ts = t # ts'"
      by (auto simp: Let_def bind_res_Inr_iff)
    from t(1) have "et_tenant t = pk_tenant p \<and> et_confidence t = ?c"
      by (auto simp: target_of_def split: option.splits)
    with "2.IH"(2) [OF refl False t(2)] False t(3) show ?thesis by simp
  qed
qed simp_all

lemma channel_ok_submit: "submit now p ch = Inr (n, ch') \<Longrightarrow> channel_ok ch fl \<Longrightarrow> channel_ok ch' fl"
proof -
  let ?r = "\<lambda>ts. fold (put_target (pk_tenant p)) ts (0, queue_for (pk_tenant p) ch)"
  assume s: "submit now p ch = Inr (n, ch')" and ok: "channel_ok ch fl"
  then obtain outs ts where e: "extract_outputs now p outs = Inr ts"
    and ch': "ch' = (snd (?r ts))\<lparr>ch_submitted := ch_submitted (snd (?r ts)) + fst (?r ts)\<rparr>"
    by (auto simp: submit_def extract_targets_from_packet_def bind_res_Inr_iff Let_def case_prod_beta)
  have "channel_ok (snd (?r ts)) fl"
    using ok by (intro channel_ok_put_fold extract_outputs_ok [OF e]) (simp add: channel_ok_queue_for)
  then show ?thesis by (simp add: ch' channel_ok_def pending_ok_def pending_count_def queue_of_def)
qed

lemma channel_ok_take:
  assumes "take_for_entity tenant e k ch = (ts, ch')" and ok: "channel_ok ch fl"
  shows "channel_ok ch' fl"
proof (cases "dget (ch_queues ch) tenant = None \<or> pending_count ch tenant e = 0")
  case True
  then have "ch' = ch" using assms(1) by (auto simp: take_for_entity_def split: option.splits)
  with ok show ?thesis by simp
next
  case False
  then obtain q where q: "dget (ch_queues ch) tenant = Some q" by auto
  obtain taken kept where p: "partition_queue e k q ([], []) = (taken, kept)" by (cases "partition_queue e k q ([], [])")
  let ?ch = "ch\<lparr>ch_queues := dset tenant kept (ch_queues ch), ch_drained := ch_drained ch + length taken\<rparr>"
  have ch': "ch' = forget tenant taken ?ch" using assms(1) False q p by (auto simp: take_for_entity_def)
  have old: "queue_of ch tenant = q" using q by (simp add: queue_of_def dget_or_def)
  note parts = partition_queue_cnt [OF p]
  have pe: "pending_count ?ch tn x = pending_count ch tn x" for tn x by (simp add: pending_count_def)
  have qs: "queue_of ch' tn = (if tn = tenant then kept else queue_of ch tn)" for tn
    by (simp add: ch' queue_of_def dget_or_simps)
  have inv: "pending_count ch tn x = cnt x (queue_of ch tn) + fl tn x" "0 \<le> fl tn x" for tn x
    using ok by (auto simp: channel_ok_def)
  have pok: "pending_ok ?ch" using ok by (simp add: channel_ok_def pending_ok_def)
  have "pending_count ch' tn x = cnt x (queue_of ch' tn) + fl tn x" for tn x
  proof -
    have "pending_count ch' tn x = (if tn = tenant then max 0 (pending_count ch tn x - cnt x taken) else pending_count ch tn x)"
      unfolding ch' using pending_forget [OF pok, of tn x tenant taken] pe inv by simp
    moreover have "pending_count ch tenant x = cnt x taken + (cnt x kept + fl tenant x)" "0 \<le> cnt x kept + fl tenant x"
      using parts [of x] inv [of tenant x] old by simp_all
    ultimately show ?thesis using inv [of tn x] by (simp add: qs)
  qed
  moreover have "pending_ok ch'" unfolding ch' by (rule pending_ok_forget [OF pok])
  moreover have "\<forall>t \<in> set (queue_of ch' tn). et_tenant t = tn \<and> channel_confidence_floor \<le> et_confidence t" for tn
  proof -
    have "set (queue_of ch' tn) \<subseteq> set (queue_of ch tn)" using parts old by (auto simp: qs)
    moreover have "\<forall>t \<in> set (queue_of ch tn). et_tenant t = tn \<and> channel_confidence_floor \<le> et_confidence t"
      using ok by (simp add: channel_ok_def)
    ultimately show ?thesis by blast
  qed
  ultimately show ?thesis using inv by (simp add: channel_ok_def)
qed

definition system_ok :: "system \<Rightarrow> bool" where
  "system_ok s \<longleftrightarrow> dict_ok (sy_drains s) \<and> channel_ok (sy_channel s) (in_flight (sy_drains s))"

lemma system_ok_start:
  assumes "system_ok s" and "dget (sy_drains s) i = None"
  shows "system_ok (drain_start i tenant s)"
proof -
  have d: "dict_ok (sy_drains s)" using assms(1) by (simp add: system_ok_def)
  have "in_flight (dset i (tenant, []) (sy_drains s)) = in_flight (sy_drains s)"
    using assms(2) by (intro ext) (simp add: in_flight_sum sum_dset [OF d] old_part_def flight_part_def)
  then show ?thesis using assms(1)
    by (simp add: system_ok_def drain_start_def channel_ok_queue_for alist.ok_put)
qed

lemma system_ok_get:
  assumes "system_ok s" and "drain_get i k s = Some s'"
  shows "system_ok s'"
proof -
  let ?ch = "sy_channel s" and ?ds = "sy_drains s"
  from assms(2) obtain tenant got t q where d: "dget ?ds i = Some (tenant, got)" and q: "queue_of ?ch tenant = t # q"
    and s': "s' = s\<lparr>sy_channel := ?ch\<lparr>ch_queues := dset tenant q (ch_queues ?ch)\<rparr>, sy_drains := dset i (tenant, got @ [t]) ?ds\<rparr>"
    by (auto simp: drain_get_def queue_of_def split: option.splits prod.splits if_splits list.splits)
  have ok: "dict_ok ?ds" "channel_ok ?ch (in_flight ?ds)" using assms(1) by (auto simp: system_ok_def)
  have fl: "in_flight (sy_drains s') tn e = in_flight ?ds tn e + (if tn = tenant \<and> et_entity t = e then 1 else 0)" for tn e
    using d by (simp add: s' in_flight_sum sum_dset [OF ok(1)] old_part_def flight_part_def)
  have qs: "queue_of (sy_channel s') tn = (if tn = tenant then q else queue_of ?ch tn)" for tn
    by (simp add: s' queue_of_def dget_or_simps)
  have pend: "pending_ok (sy_channel s') = pending_ok ?ch" "pending_count (sy_channel s') tn e = pending_count ?ch tn e" for tn e
    by (simp_all add: s' pending_ok_def pending_count_def)
  have "pending_count ?ch tn e = cnt e (queue_of (sy_channel s') tn) + in_flight (sy_drains s') tn e" for tn e
    using ok(2) q by (auto simp: channel_ok_def fl qs)
  moreover have "\<forall>t \<in> set (queue_of (sy_channel s') tn). et_tenant t = tn \<and> channel_confidence_floor \<le> et_confidence t" for tn
  proof -
    have "set (queue_of (sy_channel s') tn) \<subseteq> set (queue_of ?ch tn)" using q by (auto simp: qs)
    moreover have "\<forall>t \<in> set (queue_of ?ch tn). et_tenant t = tn \<and> channel_confidence_floor \<le> et_confidence t"
      using ok(2) by (simp add: channel_ok_def)
    ultimately show ?thesis by blast
  qed
  moreover have "dict_ok (sy_drains s')" using ok(1) by (simp add: s' alist.ok_put)
  ultimately show ?thesis using ok(2) in_flight_nonneg by (simp add: system_ok_def channel_ok_def pend)
qed

lemma system_ok_end:
  assumes "system_ok s" and "drain_end i s = Some (ts, s')"
  shows "system_ok s'"
proof -
  let ?ch = "sy_channel s" and ?ds = "sy_drains s"
  from assms(2) obtain tenant where d: "dget ?ds i = Some (tenant, ts)"
    and s': "s' = s\<lparr>sy_channel := forget tenant ts (?ch\<lparr>ch_drained := ch_drained ?ch + length ts\<rparr>), sy_drains := dpop i ?ds\<rparr>"
    by (auto simp: drain_end_def Let_def split: option.splits)
  let ?c = "?ch\<lparr>ch_drained := ch_drained ?ch + length ts\<rparr>"
  have ok: "dict_ok ?ds" "channel_ok ?ch (in_flight ?ds)" using assms(1) by (auto simp: system_ok_def)
  then have pok: "pending_ok ?c" and inv: "\<And>tn e. pending_count ?c tn e = cnt e (queue_of ?ch tn) + in_flight ?ds tn e"
    by (auto simp: channel_ok_def pending_ok_def pending_count_def)
  have fl: "in_flight (sy_drains s') tn e = in_flight ?ds tn e - (if tn = tenant then cnt e ts else 0)" for tn e
    using d by (simp add: s' in_flight_sum sum_dpop [OF ok(1)] old_part_def flight_part_def)
  have qs: "queue_of (sy_channel s') tn = queue_of ?ch tn" for tn by (simp add: s' queue_of_def)
  have nn: "0 \<le> pending_count ?c tn e" for tn e using inv in_flight_nonneg by simp
  have "pending_count (sy_channel s') tn e = cnt e (queue_of (sy_channel s') tn) + in_flight (sy_drains s') tn e" for tn e
    using pending_forget [OF pok nn [of tn e], of tenant ts] in_flight_ge [OF d, of e] inv [of tn e] inv [of tenant e]
    using cnt_simps(4) [of e "queue_of ?ch tenant"] unfolding fl qs
    by (cases "tn = tenant") (simp_all add: s' max_def)
  moreover have "pending_ok (sy_channel s')" using pending_ok_forget [OF pok] by (simp add: s')
  moreover have "dict_ok (sy_drains s')" using ok(1) by (simp add: s' alist.ok_del)
  ultimately show ?thesis using ok(2) in_flight_nonneg by (simp add: system_ok_def channel_ok_def qs)
qed

lemma system_ok_step: "channel_step s s' \<Longrightarrow> system_ok s \<Longrightarrow> system_ok s'"
proof (erule channel_stepE)
  fix now p n ch assume "submit now p (sy_channel s) = Inr (n, ch)" "s' = s\<lparr>sy_channel := ch\<rparr>" "system_ok s"
  then show "system_ok s'" using channel_ok_submit by (simp add: system_ok_def)
next
  fix tenant e k ts ch assume "take_for_entity tenant e k (sy_channel s) = (ts, ch)" "s' = s\<lparr>sy_channel := ch\<rparr>" "system_ok s"
  then show "system_ok s'" using channel_ok_take by (simp add: system_ok_def)
next
  fix i tenant assume "s' = drain_start i tenant s" "dget (sy_drains s) i = None" "system_ok s"
  then show "system_ok s'" using system_ok_start by blast
next
  fix i k assume "drain_get i k s = Some s'" "system_ok s"
  then show "system_ok s'" using system_ok_get by blast
next
  fix i ts assume "drain_end i s = Some (ts, s')" "system_ok s"
  then show "system_ok s'" using system_ok_end by blast
qed

lemma system_ok_new: "system_ok \<lparr>sy_channel = new_channel maxsize, sy_drains = []\<rparr>"
  by (simp add: system_ok_def channel_ok_def new_channel_def pending_ok_def pending_count_def queue_of_def
      in_flight_def dget_or_def)

lemma reach_ok: "channel_reach maxsize s \<Longrightarrow> system_ok s"
  by (induction rule: channel_reach.induct) (simp_all add: system_ok_new system_ok_step)

section \<open>Properties\<close>

text \<open>
  C40: the channel, under any interleaving of submissions, takes and suspended drains: the pending
  count of an entity is the number of its queued targets plus those read by drains that have not
  finished, every queued target belongs to the tenant of its queue, and its confidence reaches the
  floor.
\<close>

theorem channel_counts_exact:
  assumes "channel_reach maxsize s"
  shows "(\<forall>tn e. pending_count (sy_channel s) tn e = cnt e (queue_of (sy_channel s) tn) + in_flight (sy_drains s) tn e) \<and>
    (\<forall>tn t. t \<in> set (queue_of (sy_channel s) tn) \<longrightarrow> et_tenant t = tn \<and> channel_confidence_floor \<le> et_confidence t)"
  using reach_ok [OF assms] by (simp add: system_ok_def channel_ok_def)

text \<open>
  Taking an entity's targets. In every reachable state \<open>take_for_entity\<close> returns the first
  \<open>max_targets\<close> queued targets of that entity in their order; the targets of other entities keep
  their order, the rest of this entity's stay queued, and no other tenant's queue changes.
\<close>

theorem take_is_fifo:
  assumes "channel_reach maxsize s" and "take_for_entity tenant e k (sy_channel s) = (ts, ch)"
  shows "ts = take (nat k) (filter (\<lambda>t. et_entity t = e) (queue_of (sy_channel s) tenant)) \<and>
    filter (\<lambda>t. et_entity t = e) (queue_of ch tenant) =
      drop (nat k) (filter (\<lambda>t. et_entity t = e) (queue_of (sy_channel s) tenant)) \<and>
    filter (\<lambda>t. et_entity t \<noteq> e) (queue_of ch tenant) = filter (\<lambda>t. et_entity t \<noteq> e) (queue_of (sy_channel s) tenant) \<and>
    (\<forall>tn. tn \<noteq> tenant \<longrightarrow> queue_of ch tn = queue_of (sy_channel s) tn)"
proof -
  let ?ch = "sy_channel s"
  have inv: "pending_count ?ch tenant e = cnt e (queue_of ?ch tenant) + in_flight (sy_drains s) tenant e"
    using reach_ok [OF assms(1)] by (simp add: system_ok_def channel_ok_def)
  show ?thesis
  proof (cases "dget (ch_queues ?ch) tenant = None \<or> pending_count ?ch tenant e = 0")
    case True
    then have t: "ts = []" "ch = ?ch" using assms(2) by (auto simp: take_for_entity_def split: option.splits)
    have "filter (\<lambda>t. et_entity t = e) (queue_of ?ch tenant) = []"
    proof (cases "dget (ch_queues ?ch) tenant")
      case (Some q)
      with True have "pending_count ?ch tenant e = 0" by simp
      with inv in_flight_nonneg [of "sy_drains s" tenant e] cnt_simps(4) [of e "queue_of ?ch tenant"]
      have "cnt e (queue_of ?ch tenant) = 0" by linarith
      then show ?thesis by (simp add: cnt_def)
    qed (simp add: queue_of_def dget_or_def)
    with t show ?thesis by simp
  next
    case False
    then obtain q where q: "dget (ch_queues ?ch) tenant = Some q" by auto
    obtain taken kept where p: "partition_queue e k q ([], []) = (taken, kept)" by (cases "partition_queue e k q ([], [])")
    from assms(2) False q p have t: "ts = taken" "\<And>tn. queue_of ch tn = (if tn = tenant then kept else queue_of ?ch tn)"
      by (auto simp: take_for_entity_def queue_of_def dget_or_simps)
    have "queue_of ?ch tenant = q" using q by (simp add: queue_of_def dget_or_def)
    with partition_queue_parts [OF p] t show ?thesis by simp
  qed
qed

text \<open>A packet with one output for entity \<open>e1\<close>.\<close>

definition sample_packet :: packet where
  "sample_packet = \<lparr>pk_action = ''graph-inference-result'', pk_payload = [(''inference_outputs'',
     PList [PDict [(''entity_id'', PStr ''e1''), (''field'', PStr ''tier''), (''confidence'', PInt 1)]])],
     pk_tenant = ''acme'', pk_id = ''p1''\<rparr>"

definition sample_target :: enrichment_target where
  "sample_target = \<lparr>et_entity = ''e1'', et_tenant = ''acme'', et_field = ''tier'', et_value = PNone, et_confidence = 1,
     et_packet = ''p1'', et_rule = ''unknown'', et_created = 0\<rparr>"

definition sample_system :: system where
  "sample_system = \<lparr>sy_channel = \<lparr>ch_queues = [(''acme'', [sample_target])], ch_pending = [(''acme'', [(''e1'', 1)])],
     ch_maxsize = 10, ch_submitted = 1, ch_drained = 0, ch_rejected = 0\<rparr>, sy_drains = []\<rparr>"

lemma sample_reach: "channel_reach 10 sample_system"
proof -
  let ?s0 = "\<lparr>sy_channel = new_channel 10, sy_drains = []\<rparr>"
  have "\<not> 1 < channel_confidence_floor" by (simp add: channel_confidence_floor_def flt_le_1 not_less)
  then have "submit 0 sample_packet (sy_channel ?s0) = Inr (1, sy_channel sample_system)"
    by (simp add: submit_def sample_packet_def sample_system_def sample_target_def new_channel_def
        extract_targets_from_packet_def validate_graph_inference_packet_def target_of_def dget_or_def safe_float_def
        put_target_def queue_for_def queue_full_def dmem_def Let_def)
  then have "channel_step ?s0 (?s0\<lparr>sy_channel := sy_channel sample_system\<rparr>)" by (rule submit_step)
  moreover have "?s0\<lparr>sy_channel := sy_channel sample_system\<rparr> = sample_system" by (simp add: sample_system_def)
  ultimately show ?thesis using reach_new [of 10] reach_step by metis
qed

theorem channel_counts_exact_witness:
  "pending_count (sy_channel sample_system) ''acme'' ''e1'' = cnt ''e1'' (queue_of (sy_channel sample_system) ''acme'')"
  using channel_counts_exact [OF sample_reach] by (simp add: in_flight_def sample_system_def)

theorem take_is_fifo_witness:
  "\<exists>ts ch. take_for_entity ''acme'' ''e1'' 5 (sy_channel sample_system) = (ts, ch) \<and>
     ts = filter (\<lambda>t. et_entity t = ''e1'') (queue_of (sy_channel sample_system) ''acme'')"
proof -
  obtain ts ch where t: "take_for_entity ''acme'' ''e1'' 5 (sy_channel sample_system) = (ts, ch)"
    by (cases "take_for_entity ''acme'' ''e1'' 5 (sy_channel sample_system)")
  from take_is_fifo [OF sample_reach t] t show ?thesis
    by (simp add: sample_system_def sample_target_def queue_of_def dget_or_def)
qed

end
