(* ===== verification/FieldClassifier.thy ===== *)
theory FieldClassifier
  imports PyValue
begin

text \<open>
  \<open>app/engines/field_classifier.py\<close>: the difficulty of each field of a domain specification, from
  explicit overrides, metadata signals, name patterns and the declared confidence, and the search
  domains per difficulty. The specification is a dict as read from YAML; a value of an unexpected
  type raises where the source calls a method on it. A Python set read from the specification is a
  list without equal elements.
\<close>

datatype difficulty = Trivial | Public | Findable | Obscure | Inferrable

fun difficulty_value :: "difficulty \<Rightarrow> string" where
  "difficulty_value Trivial = ''trivial''"
| "difficulty_value Public = ''public''"
| "difficulty_value Findable = ''findable''"
| "difficulty_value Obscure = ''obscure''"
| "difficulty_value Inferrable = ''inferrable''"

definition all_difficulties :: "difficulty list" where
  "all_difficulties = [Trivial, Public, Findable, Obscure, Inferrable]"

text \<open>\<open>FieldDifficulty(s)\<close>; \<open>None\<close> is the \<open>ValueError\<close>.\<close>

definition parse_difficulty :: "string \<Rightarrow> difficulty option" where
  "parse_difficulty s = List.find (\<lambda>d. difficulty_value d = s) all_difficulties"

definition inferrable_signals :: "string list" where
  "inferrable_signals = [''managed_by:computed'', ''managed_by:derived'', ''managed_by:inference'',
     ''source:inference'', ''source:computed'', ''source:rule_engine'']"

definition inferrable_name_patterns :: "string list" where
  "inferrable_name_patterns = [''grade'', ''tier'', ''class'', ''score'', ''rating'', ''rank'', ''classification'',
     ''category'', ''level'', ''bucket'', ''segment'', ''index'', ''percentile'', ''quartile'']"

definition trivial_name_patterns :: "string list" where
  "trivial_name_patterns = [''name'', ''legal_name'', ''dba'', ''address'', ''street'', ''city'', ''state'', ''zip'',
     ''postal'', ''country'', ''phone'', ''fax'', ''email'', ''contact_name'', ''contact_email'', ''contact_phone'',
     ''website'', ''url'', ''domain'']"

definition public_name_patterns :: "string list" where
  "public_name_patterns = [''revenue'', ''employee'', ''headcount'', ''staff_count'', ''founded'', ''year_founded'',
     ''incorporation'', ''naics'', ''sic'', ''ein'', ''tax_id'', ''duns'', ''ownership'', ''parent_company'',
     ''subsidiary'', ''stock_ticker'', ''market_cap'', ''geographic_reach'', ''headquarters'']"

definition obscure_name_patterns :: "string list" where
  "obscure_name_patterns = [''capacity'', ''throughput'', ''tonnage'', ''volume_annual'', ''sqft'', ''square_feet'',
     ''facility_size'', ''lot_size'', ''equipment'', ''machinery'', ''line_count'', ''permit'', ''license_number'',
     ''waste_gen_id'', ''energy_consumption'', ''water_usage'', ''emission'']"

record field_meta =
  fm_name :: string
  fm_type :: pyval
  fm_managed_by :: pyval
  fm_source :: pyval
  fm_derived_from :: pyval
  fm_discovery_confidence :: pyval
  fm_override :: pyval
  fm_gate :: bool
  fm_scoring :: bool
  fm_time_sensitive :: bool
  fm_description :: pyval
  fm_examples :: pyval

section \<open>Reading the specification\<close>

fun hashable_value :: "pyval \<Rightarrow> bool" where
  "hashable_value (PList xs) = False"
| "hashable_value (PDict d) = False"
| "hashable_value v = True"

definition py_member :: "pyval \<Rightarrow> pyval list \<Rightarrow> bool" where
  "py_member v xs = list_ex (py_eq v) xs"

definition to_set :: "pyval list \<Rightarrow> pyval list" where
  "to_set vs = fold (\<lambda>v xs. if py_member v xs then xs else xs @ [v]) vs []"

definition read_set :: "fields \<Rightarrow> string \<Rightarrow> pyerr + pyval list" where
  "read_set spec key =
     (case dget_or spec key (PList []) of
        PList vs \<Rightarrow> if list_all hashable_value vs then Inr (to_set vs) else Inl TypeError
      | _ \<Rightarrow> Inr [])"

definition parse_prop :: "string \<Rightarrow> pyval \<Rightarrow> pyval list \<Rightarrow> pyval list \<Rightarrow> pyval list \<Rightarrow> field_meta" where
  "parse_prop name prop_def gates scoring time_sensitive =
     (case prop_def of
        PDict p \<Rightarrow> \<lparr>fm_name = name, fm_type = dget_or p ''type'' (PStr ''string''),
          fm_managed_by = dget_or p ''managed_by'' PNone, fm_source = dget_or p ''source'' PNone,
          fm_derived_from = dget_or p ''derived_from'' PNone,
          fm_discovery_confidence = dget_or p ''discovery_confidence'' PNone,
          fm_override = dget_or p ''difficulty'' PNone, fm_gate = py_member (PStr name) gates,
          fm_scoring = py_member (PStr name) scoring, fm_time_sensitive = py_member (PStr name) time_sensitive,
          fm_description = dget_or p ''description'' (PStr []), fm_examples = dget_or p ''examples'' PNone\<rparr>
      | _ \<Rightarrow> \<lparr>fm_name = name, fm_type = PStr (py_str prop_def), fm_managed_by = PNone, fm_source = PNone,
          fm_derived_from = PNone, fm_discovery_confidence = PNone, fm_override = PNone, fm_gate = False,
          fm_scoring = False, fm_time_sensitive = False, fm_description = PStr [], fm_examples = PNone\<rparr>)"

definition props_of_node :: "pyval \<Rightarrow> fields" where
  "props_of_node node_def =
     (case node_def of
        PDict d \<Rightarrow> (case dget_or d ''properties'' (PDict []) of PDict props \<Rightarrow> props | _ \<Rightarrow> [])
      | _ \<Rightarrow> [])"

definition extract_field_meta :: "fields \<Rightarrow> pyerr + field_meta list" where
  "extract_field_meta spec =
     bind_res (read_set spec ''gate_fields'') (\<lambda>gates.
     bind_res (read_set spec ''scoring_fields'') (\<lambda>scoring.
     bind_res (read_set spec ''time_sensitive_fields'') (\<lambda>ts.
     let ontology = dget_or spec ''ontology'' (PDict spec) in
     bind_res (py_get ontology ''entities'' (PDict [])) (\<lambda>ents.
     bind_res (py_get ontology ''nodes'' ents) (\<lambda>nodes.
       let parse = map (\<lambda>(name, p). parse_prop name p gates scoring ts) in
       Inr (case nodes of
          PDict d \<Rightarrow> concat (map (parse \<circ> props_of_node \<circ> snd) d)
        | PList ns \<Rightarrow> concat (map (parse \<circ> props_of_node) ns)
        | _ \<Rightarrow> []))))))"

section \<open>Classification\<close>

definition underscore :: "char \<Rightarrow> char" where
  "underscore c = (if c = CHR ''-'' \<or> c = CHR '' '' then CHR ''_'' else c)"

definition normalise_name :: "string \<Rightarrow> string" where
  "normalise_name name = map underscore (py_lower (py_strip name))"

text \<open>\<open>x and f"prefix:{x.lower()}" in INFERRABLE_SIGNALS\<close>.\<close>

definition signals :: "string \<Rightarrow> pyval \<Rightarrow> pyerr + bool" where
  "signals prefix v =
     (if \<not> truthy v then Inr False
      else case v of PStr s \<Rightarrow> Inr (prefix @ py_lower s \<in> set inferrable_signals) | _ \<Rightarrow> Inl AttributeError)"

definition classify_by_metadata_signals :: "field_meta \<Rightarrow> pyerr + difficulty option" where
  "classify_by_metadata_signals m =
     bind_res (signals ''managed_by:'' (fm_managed_by m)) (\<lambda>b1.
       if b1 then Inr (Some Inferrable)
       else bind_res (signals ''source:'' (fm_source m)) (\<lambda>b2.
         if b2 then Inr (Some Inferrable)
         else Inr (if truthy (fm_derived_from m) then Some Inferrable else None)))"

definition matches_any :: "string \<Rightarrow> string list \<Rightarrow> bool" where
  "matches_any nm patterns = list_ex (\<lambda>p. is_substring p nm) patterns"

definition classify_by_name_patterns :: "string \<Rightarrow> bool \<Rightarrow> difficulty option" where
  "classify_by_name_patterns nm is_gate =
     (if matches_any nm inferrable_name_patterns \<and> \<not> is_gate then Some Inferrable
      else if matches_any nm trivial_name_patterns then Some Trivial
      else if matches_any nm public_name_patterns then Some Public
      else if matches_any nm obscure_name_patterns then Some Obscure
      else None)"

definition read_override :: "field_meta \<Rightarrow> pyerr + difficulty option" where
  "read_override m =
     (if \<not> truthy (fm_override m) then Inr None
      else case fm_override m of PStr s \<Rightarrow> Inr (parse_difficulty (py_lower s)) | _ \<Rightarrow> Inl AttributeError)"

definition classify_by_confidence :: "field_meta \<Rightarrow> pyerr + difficulty" where
  "classify_by_confidence m =
     (if fm_type m = PStr ''boolean'' \<or> fm_type m = PStr ''bool'' then Inr Findable
      else if fm_discovery_confidence m = PNone then Inr Findable
      else case py_num (fm_discovery_confidence m) of
          None \<Rightarrow> Inl TypeError
        | Some q \<Rightarrow> Inr (if q < to_rat (flt (4 / 10)) then Obscure else Findable))"

definition classify_single :: "field_meta \<Rightarrow> pyerr + difficulty" where
  "classify_single m =
     bind_res (read_override m) (\<lambda>ov.
       case ov of Some d \<Rightarrow> Inr d
       | None \<Rightarrow> bind_res (classify_by_metadata_signals m) (\<lambda>sg.
           case sg of Some d \<Rightarrow> Inr d
           | None \<Rightarrow> (case classify_by_name_patterns (normalise_name (fm_name m)) (fm_gate m) of
                Some d \<Rightarrow> Inr d
              | None \<Rightarrow> classify_by_confidence m)))"

fun classify_all :: "field_meta list \<Rightarrow> (string, difficulty) dict \<Rightarrow> pyerr + (string, difficulty) dict" where
  "classify_all [] res = Inr res"
| "classify_all (m # ms) res = bind_res (classify_single m) (\<lambda>d. classify_all ms (dset (fm_name m) d res))"

definition classify_fields :: "fields \<Rightarrow> pyerr + (string, difficulty) dict" where
  "classify_fields spec = bind_res (extract_field_meta spec) (\<lambda>ms. classify_all ms [])"

definition apply_override :: "string \<times> string \<Rightarrow> (string, difficulty) dict \<Rightarrow> (string, difficulty) dict" where
  "apply_override ov res = (case parse_difficulty (snd ov) of Some d \<Rightarrow> dset (fst ov) d res | None \<Rightarrow> res)"

definition apply_calibration :: "(string, difficulty) dict \<Rightarrow> (string, string) dict \<Rightarrow> (string, difficulty) dict" where
  "apply_calibration base overrides = fold apply_override overrides base"

section \<open>Domain filters and the full pipeline\<close>

definition default_public_sources :: "string list" where
  "default_public_sources = [''dnb.com'', ''zoominfo.com'', ''linkedin.com'', ''sec.gov'', ''sam.gov'', ''opencorporates.com'']"

definition resolve_domain_filters :: "fields \<Rightarrow> difficulty \<Rightarrow> pyerr + pyval list" where
  "resolve_domain_filters spec d =
     (if d \<in> {Obscure, Trivial, Inferrable} then Inr []
      else (let explicit = (case dget_or spec ''search_sources'' (PDict []) of
                  PDict src \<Rightarrow> dget_or src (difficulty_value d) (PList []) | _ \<Rightarrow> PNone)
            in if truthy explicit then py_iter explicit
               else if d = Public then Inr (map PStr default_public_sources) else Inr []))"

record domain_classification =
  dc_domain :: pyval
  dc_field_map :: "(string, difficulty) dict"
  dc_domain_filters :: "(string, pyval list) dict"
  dc_gate_fields :: "pyval list"
  dc_scoring_fields :: "pyval list"
  dc_time_sensitive :: "pyval list"
  dc_ambiguous :: "pyval list"
  dc_stats :: "(string, nat) dict"
  dc_calibrated :: bool

definition domain_name :: "fields \<Rightarrow> pyerr + pyval" where
  "domain_name spec =
     (if truthy (dget_or spec ''domain'' PNone) then Inr (dget_or spec ''domain'' PNone)
      else py_get (dget_or spec ''metadata'' (PDict [])) ''domain'' (PStr ''unknown''))"

fun collect_filters :: "fields \<Rightarrow> difficulty list \<Rightarrow> pyerr + (string, pyval list) dict" where
  "collect_filters spec [] = Inr []"
| "collect_filters spec (d # ds) =
     bind_res (resolve_domain_filters spec d) (\<lambda>fs.
     bind_res (collect_filters spec ds) (\<lambda>rest.
       Inr (if fs \<noteq> [] then (difficulty_value d, fs) # rest else rest)))"

definition count_stat :: "difficulty \<Rightarrow> (string, nat) dict \<Rightarrow> (string, nat) dict" where
  "count_stat d st = dset (difficulty_value d) (dget_or st (difficulty_value d) 0 + 1) st"

definition auto_classify_domain :: "fields \<Rightarrow> pyerr + domain_classification" where
  "auto_classify_domain spec =
     bind_res (domain_name spec) (\<lambda>name.
     bind_res (classify_fields spec) (\<lambda>fm.
     bind_res (collect_filters spec all_difficulties) (\<lambda>filters.
     bind_res (read_set spec ''gate_fields'') (\<lambda>gates.
     bind_res (read_set spec ''scoring_fields'') (\<lambda>scoring.
     bind_res (read_set spec ''time_sensitive_fields'') (\<lambda>ts.
     bind_res (read_set spec ''ambiguous_fields'') (\<lambda>amb.
       Inr \<lparr>dc_domain = name, dc_field_map = fm, dc_domain_filters = filters, dc_gate_fields = gates,
            dc_scoring_fields = scoring, dc_time_sensitive = ts, dc_ambiguous = amb,
            dc_stats = fold count_stat (dvalues fm) [], dc_calibrated = False\<rparr>)))))))"

section \<open>Lemmas\<close>

lemma classify_single_cases:
  assumes "classify_single m = Inr d"
  obtains (override) "read_override m = Inr (Some d)"
    | (metadata) "read_override m = Inr None" "classify_by_metadata_signals m = Inr (Some Inferrable)" "d = Inferrable"
    | (name) "read_override m = Inr None" "classify_by_metadata_signals m = Inr None"
        "classify_by_name_patterns (normalise_name (fm_name m)) (fm_gate m) = Some d"
    | (other) "read_override m = Inr None" "classify_by_metadata_signals m = Inr None"
        "classify_by_name_patterns (normalise_name (fm_name m)) (fm_gate m) = None" "d \<in> {Findable, Obscure}"
proof -
  from assms obtain ov where ov: "read_override m = Inr ov" by (auto simp: classify_single_def bind_res_Inr_iff)
  show thesis
  proof (cases ov)
    case (Some e)
    with ov assms override show ?thesis by (simp add: classify_single_def)
  next
    case None
    with ov assms obtain sg where sg: "classify_by_metadata_signals m = Inr sg"
      by (auto simp: classify_single_def bind_res_Inr_iff)
    show ?thesis
    proof (cases sg)
      case (Some e)
      then have "e = Inferrable" using sg by (auto simp: classify_by_metadata_signals_def bind_res_Inr_iff split: if_splits)
      with None Some ov sg assms metadata show ?thesis by (simp add: classify_single_def)
    next
      case sn: None
      show ?thesis
      proof (cases "classify_by_name_patterns (normalise_name (fm_name m)) (fm_gate m)")
        case (Some e)
        with None sn ov sg assms name show ?thesis by (simp add: classify_single_def)
      next
        case None
        with \<open>ov = None\<close> sn ov sg assms other show ?thesis
          by (auto simp: classify_single_def classify_by_confidence_def split: if_splits option.splits)
      qed
    qed
  qed
qed

lemma city_in_capacity: "is_substring ''city'' ''capacity''"
  by code_simp

lemma matches_any_mono: "p \<in> set ps \<Longrightarrow> is_substring p q \<Longrightarrow> is_substring q nm \<Longrightarrow> matches_any nm ps"
  using is_substring_trans by (auto simp: matches_any_def list_ex_iff)

section \<open>Properties\<close>

text \<open>
  The order of the rules. A field is classified inferrable exactly when a valid override says
  so, or there is no valid override and the metadata mark it as derived or its name matches an
  inferrable pattern and it is no gate field. In particular a gate field without metadata signals is
  always searched for.
\<close>

theorem inferrable_iff:
  assumes "classify_single m = Inr d"
  shows "d = Inferrable \<longleftrightarrow>
    (read_override m = Inr (Some Inferrable) \<or>
     read_override m = Inr None \<and>
       (classify_by_metadata_signals m = Inr (Some Inferrable) \<or>
        matches_any (normalise_name (fm_name m)) inferrable_name_patterns \<and> \<not> fm_gate m))"
  using assms
proof (cases rule: classify_single_cases)
  case name
  then show ?thesis by (auto simp: classify_by_name_patterns_def split: if_splits)
next
  case other
  then show ?thesis by (auto simp: classify_by_name_patterns_def split: if_splits)
qed auto

definition plain_field :: "string \<Rightarrow> pyval \<Rightarrow> field_meta" where
  "plain_field name confidence = parse_prop name (PDict [(''type'', PStr ''float''), (''discovery_confidence'', confidence)]) [] [] []"

theorem inferrable_iff_witness:
  "classify_single (plain_field ''Material Grade'' PNone) = Inr Inferrable \<and>
   matches_any (normalise_name ''Material Grade'') inferrable_name_patterns"
proof -
  have c: "classify_single (plain_field ''Material Grade'' PNone) = Inr Inferrable" by code_simp
  moreover have "read_override (plain_field ''Material Grade'' PNone) = Inr None"
    "classify_by_metadata_signals (plain_field ''Material Grade'' PNone) = Inr None" by code_simp+
  ultimately show ?thesis using inferrable_iff [OF c] by (auto simp: plain_field_def parse_prop_def)
qed

text \<open>
  The obscure pattern \<open>capacity\<close> is dead. \<open>city\<close> is a trivial pattern and a part of the word
  \<open>capacity\<close>, and patterns match anywhere in a name, so a field named after a capacity that has no
  override is never obscure, whatever confidence it declares. The file's own example
  \<open>annual_capacity_tons\<close> with confidence 0.3, documented as obscure, is trivial.
\<close>

theorem capacity_is_never_obscure:
  assumes "is_substring ''capacity'' (normalise_name (fm_name m))" and "read_override m = Inr None"
    and "classify_single m = Inr d"
  shows "d \<in> {Inferrable, Trivial}"
proof -
  have "matches_any (normalise_name (fm_name m)) trivial_name_patterns"
    by (rule matches_any_mono [OF _ city_in_capacity assms(1)]) (simp add: trivial_name_patterns_def)
  with assms(3,2) show ?thesis
    by (cases rule: classify_single_cases) (auto simp: classify_by_name_patterns_def split: if_splits)
qed

theorem capacity_is_never_obscure_witness:
  "classify_single (plain_field ''annual_capacity_tons'' (PFloat (flt (3 / 10)))) = Inr Trivial"
proof -
  let ?m = "plain_field ''annual_capacity_tons'' (PFloat (flt (3 / 10)))"
  have n: "fm_name ?m = ''annual_capacity_tons''" "fm_gate ?m = False"
    "read_override ?m = Inr None" "classify_by_metadata_signals ?m = Inr None"
    by (simp_all add: plain_field_def parse_prop_def py_member_def read_override_def classify_by_metadata_signals_def
        signals_def dget_or_def)
  have s: "is_substring ''capacity'' (normalise_name ''annual_capacity_tons'')"
    and p: "classify_by_name_patterns (normalise_name ''annual_capacity_tons'') False = Some Trivial" by code_simp+
  have c: "classify_single ?m = Inr Trivial" using n p by (simp add: classify_single_def)
  from capacity_is_never_obscure [of ?m Trivial] s n c show ?thesis by simp
qed

end
