(* ===== verification/SearchOptimizer.thy ===== *)
theory SearchOptimizer
  imports FieldClassifier DerivationGraph
begin

text \<open>
  \<open>app/engines/search_optimizer.py\<close>: the search parameters of a pass from the plan mode, the target
  fields, signals of the entity and the classification of the domain, and the cost estimates.
  \<open>resolution_reason\<close> is a log text and is left out. The domain filters are lists of texts, as
  declared; another element is reported as a \<open>TypeError\<close> (\<open>str_list\<close>), where Python would raise one
  when it sorts them.
\<close>

datatype sonar_model = Sonar | SonarPro | SonarReasoning | SonarReasoningPro | SonarDeepResearch
datatype context_size = LowContext | MediumContext | HighContext
datatype recency_filter = Hour | Day | Week | Month | Year | NoRecency
datatype message_strategy = SystemUser | SystemUserAssistant

record sonar_config =
  sc_model :: sonar_model
  sc_context_size :: context_size
  sc_recency :: recency_filter
  sc_domain_filter :: "string list"
  sc_temperature :: f64
  sc_max_tokens :: int
  sc_strategy :: message_strategy
  sc_variations :: int
  sc_reasoning_effort :: "string option"
  sc_disable_search :: bool
  sc_cost :: f64

definition default_sonar_config :: sonar_config where
  "default_sonar_config = \<lparr>sc_model = Sonar, sc_context_size = MediumContext, sc_recency = NoRecency,
     sc_domain_filter = [], sc_temperature = flt (3 / 10), sc_max_tokens = 2048, sc_strategy = SystemUser,
     sc_variations = 3, sc_reasoning_effort = None, sc_disable_search = False, sc_cost = 0\<rparr>"

section \<open>Cost model\<close>

fun model_cost_per_1k :: "sonar_model \<Rightarrow> f64" where
  "model_cost_per_1k Sonar = flt (5 / 10000)"
| "model_cost_per_1k SonarPro = flt (3 / 1000)"
| "model_cost_per_1k SonarReasoning = flt (1 / 1000)"
| "model_cost_per_1k SonarReasoningPro = flt (5 / 1000)"
| "model_cost_per_1k SonarDeepResearch = flt (8 / 1000)"

fun context_cost_multiplier :: "context_size \<Rightarrow> f64" where
  "context_cost_multiplier LowContext = flt (6 / 10)"
| "context_cost_multiplier MediumContext = 1"
| "context_cost_multiplier HighContext = flt (18 / 10)"

definition estimate_call_cost :: "sonar_model \<Rightarrow> context_size \<Rightarrow> int \<Rightarrow> int \<Rightarrow> f64" where
  "estimate_call_cost m ctx max_tokens variations =
     (let tokens_per_var = f_of_int max_tokens * flt (15 / 10);
          cost_per_var = (tokens_per_var / f_of_int 1000) * model_cost_per_1k m * context_cost_multiplier ctx
      in py_round 5 (cost_per_var * f_of_int variations))"

section \<open>Entity signals\<close>

record entity_signals =
  es_null_count :: int
  es_known_count :: int
  es_avg_confidence :: f64
  es_gate_missing :: int
  es_has_website :: bool
  es_failed_matches :: int
  es_pass_number :: int
  es_allocated_tokens :: int

definition gate_missing :: "pyval list \<Rightarrow> string list \<Rightarrow> int" where
  "gate_missing gates known = int (length (filter (\<lambda>g. \<not> py_member g (map PStr known)) gates))"

definition signals_from_entity ::
    "fields \<Rightarrow> (string, difficulty) dict \<Rightarrow> (string, f64) dict \<Rightarrow> pyval list \<Rightarrow> int \<Rightarrow> int \<Rightarrow> pyerr + entity_signals" where
  "signals_from_entity ent field_map confs gates pass_number allocated =
     (let non_null = filter (\<lambda>kv. snd kv \<noteq> PNone) ent;
          avg = (if confs \<noteq> [] then py_sum (dvalues confs) / f_of_int (max (int (length confs)) 1) else 0)
      in bind_res (py_int (dget_or ent ''_failed_matches'' (PInt 0))) (\<lambda>failed.
           Inr \<lparr>es_null_count = int (length field_map) - int (length non_null), es_known_count = int (length non_null),
                es_avg_confidence = avg, es_gate_missing = gate_missing gates (dkeys non_null),
                es_has_website = truthy (dget_or ent ''website'' PNone), es_failed_matches = failed,
                es_pass_number = pass_number, es_allocated_tokens = allocated\<rparr>))"

section \<open>Resolver\<close>

fun difficulty_rank :: "difficulty \<Rightarrow> nat" where
  "difficulty_rank Inferrable = 0"
| "difficulty_rank Trivial = 1"
| "difficulty_rank Public = 2"
| "difficulty_rank Findable = 3"
| "difficulty_rank Obscure = 4"

definition worse_difficulty :: "(string, difficulty) dict \<Rightarrow> string \<Rightarrow> difficulty \<Rightarrow> difficulty" where
  "worse_difficulty field_map f worst =
     (let fd = dget_or field_map f Findable in
      if fd = Inferrable then worst
      else if difficulty_rank worst < difficulty_rank fd then fd else worst)"

definition dominant_difficulty :: "string list \<Rightarrow> (string, difficulty) dict \<Rightarrow> difficulty" where
  "dominant_difficulty targets field_map =
     (if targets = [] then Findable else fold (worse_difficulty field_map) targets Trivial)"

definition needs_reasoning :: "string list \<Rightarrow> entity_signals \<Rightarrow> pyval list \<Rightarrow> bool" where
  "needs_reasoning targets sig ambiguous =
     (if 3 \<le> es_failed_matches sig then True
      else if ambiguous = [] then False
      else 2 \<le> length (filter (\<lambda>f. py_member (PStr f) ambiguous) (dedup targets)))"

definition compute_variations :: "string \<Rightarrow> difficulty \<Rightarrow> entity_signals \<Rightarrow> int \<Rightarrow> int" where
  "compute_variations mode d sig budget =
     (let b0 = (if mode = ''discovery'' then 4 else if mode = ''targeted'' then 3 else if mode = ''verification'' then 2 else 3);
          b1 = (if d = Obscure then b0 + 1 else if d = Trivial then max (b0 - 1) 2 else b0);
          b2 = (if es_avg_confidence sig < flt (4 / 10) then b1 + 1
                else if flt (8 / 10) < es_avg_confidence sig then max (b1 - 1) 2 else b1);
          max_by_budget = max (budget div 1500) 2
      in min (min b2 max_by_budget) 7)"

definition select_recency :: "string list \<Rightarrow> pyval list \<Rightarrow> recency_filter" where
  "select_recency targets time_sensitive =
     (if list_ex (\<lambda>f. py_member (PStr f) time_sensitive) targets then Year else NoRecency)"

definition select_domain_filters ::
    "string list \<Rightarrow> (string, difficulty) dict \<Rightarrow> (string, string list) dict \<Rightarrow> difficulty \<Rightarrow> string list" where
  "select_domain_filters targets field_map filters d =
     (if d = Obscure then []
      else take 5 (sort (dedup (concat (map (\<lambda>f. dget_or filters (difficulty_value (dget_or field_map f Findable)) []) targets)))))"

definition select_message_strategy :: "string \<Rightarrow> entity_signals \<Rightarrow> message_strategy" where
  "select_message_strategy mode sig =
     (if mode = ''discovery'' then SystemUser else if 5 < es_known_count sig then SystemUserAssistant else SystemUser)"

definition select_max_tokens :: "string \<Rightarrow> int \<Rightarrow> int" where
  "select_max_tokens mode n =
     (if mode = ''verification'' then max 256 (n * 100) else if mode = ''targeted'' then max 512 (n * 200) else 2048)"

definition pick_model ::
    "string \<Rightarrow> difficulty \<Rightarrow> entity_signals \<Rightarrow> pyval list \<Rightarrow> string list \<Rightarrow> sonar_model option \<Rightarrow> sonar_model" where
  "pick_model mode d sig ambiguous searchable force =
     (case force of Some m \<Rightarrow> m
      | None \<Rightarrow>
          if mode = ''discovery'' then SonarPro
          else if needs_reasoning searchable sig ambiguous then SonarReasoning
          else if d = Obscure then SonarPro
          else if d = Public \<or> d = Trivial then Sonar
          else if mode = ''targeted'' \<and> 0 < es_gate_missing sig then SonarPro
          else Sonar)"

definition pick_context_size :: "string \<Rightarrow> difficulty \<Rightarrow> context_size" where
  "pick_context_size mode d =
     (if mode = ''discovery'' \<or> d = Obscure then HighContext
      else if mode = ''verification'' \<or> d = Trivial \<or> d = Public then LowContext else MediumContext)"

definition pick_reasoning_effort :: "sonar_model \<Rightarrow> entity_signals \<Rightarrow> string option" where
  "pick_reasoning_effort m sig =
     (if m = SonarReasoning \<or> m = SonarReasoningPro
      then Some (if 3 \<le> es_failed_matches sig then ''high'' else ''medium'') else None)"

definition pick_temperature :: "string \<Rightarrow> f64" where
  "pick_temperature mode = (if mode = ''discovery'' then flt (4 / 10) else if mode = ''targeted'' then flt (2 / 10)
     else if mode = ''verification'' then flt (1 / 10) else flt (3 / 10))"

definition searchable_fields :: "string list \<Rightarrow> (string, difficulty) dict \<Rightarrow> string list" where
  "searchable_fields targets field_map = filter (\<lambda>f. dget_or field_map f Findable \<noteq> Inferrable) targets"

definition resolve ::
    "string \<Rightarrow> string list \<Rightarrow> entity_signals \<Rightarrow> (string, difficulty) dict \<Rightarrow> (string, string list) dict \<Rightarrow>
     pyval list \<Rightarrow> pyval list \<Rightarrow> int option \<Rightarrow> sonar_model option \<Rightarrow> sonar_config" where
  "resolve mode targets sig field_map filters time_sensitive ambiguous budget_tokens force =
     (let budget = (case budget_tokens of Some b \<Rightarrow> if b \<noteq> 0 then b else es_allocated_tokens sig | None \<Rightarrow> es_allocated_tokens sig);
          searchable = searchable_fields targets field_map
      in if searchable = []
         then default_sonar_config\<lparr>sc_disable_search := True, sc_variations := 0, sc_cost := 0\<rparr>
         else (let d = dominant_difficulty searchable field_map;
                   m = pick_model mode d sig ambiguous searchable force;
                   ctx = pick_context_size mode d;
                   variations = compute_variations mode d sig budget;
                   max_tokens = select_max_tokens mode (int (length searchable))
               in \<lparr>sc_model = m, sc_context_size = ctx, sc_recency = select_recency searchable time_sensitive,
                   sc_domain_filter = select_domain_filters searchable field_map filters d,
                   sc_temperature = pick_temperature mode, sc_max_tokens = max_tokens,
                   sc_strategy = select_message_strategy mode sig, sc_variations = variations,
                   sc_reasoning_effort = pick_reasoning_effort m sig, sc_disable_search = False,
                   sc_cost = estimate_call_cost m ctx max_tokens variations\<rparr>))"

fun str_filters :: "(string, pyval list) dict \<Rightarrow> pyerr + (string, string list) dict" where
  "str_filters [] = Inr []"
| "str_filters ((k, vs) # d) = bind_res (str_list vs) (\<lambda>ss. bind_res (str_filters d) (\<lambda>r. Inr ((k, ss) # r)))"

definition resolve_from_classification ::
    "string \<Rightarrow> string list \<Rightarrow> entity_signals \<Rightarrow> domain_classification \<Rightarrow> int option \<Rightarrow> sonar_model option \<Rightarrow> pyerr + sonar_config" where
  "resolve_from_classification mode targets sig c budget_tokens force =
     bind_res (str_filters (dc_domain_filters c)) (\<lambda>filters.
       Inr (resolve mode targets sig (dc_field_map c) filters (dc_time_sensitive c) (dc_ambiguous c) budget_tokens force))"

section \<open>Batch estimate\<close>

record batch_cost =
  bc_total_calls :: int
  bc_total_variations :: int
  bc_estimated_cost :: f64

definition batch_mode :: "int \<Rightarrow> int \<Rightarrow> string" where
  "batch_mode pass_num passes =
     (if pass_num = 1 then ''discovery'' else if pass_num = passes then ''verification'' else ''targeted'')"

definition batch_targets :: "string \<Rightarrow> (string, difficulty) dict \<Rightarrow> string list" where
  "batch_targets mode fm =
     (if mode = ''discovery'' then map fst (filter (\<lambda>fd. snd fd \<noteq> Inferrable) fm)
      else if mode = ''verification'' then take 3 (map fst (filter (\<lambda>fd. snd fd = Obscure) fm))
      else map fst (filter (\<lambda>fd. snd fd = Obscure \<or> snd fd = Findable) fm))"

definition batch_call :: "domain_classification \<Rightarrow> int \<Rightarrow> fields \<Rightarrow> int \<Rightarrow> batch_cost \<Rightarrow> pyerr + batch_cost" where
  "batch_call c passes ent pass_num acc =
     bind_res (signals_from_entity ent (dc_field_map c) [] (dc_gate_fields c) pass_num 5000) (\<lambda>sig.
     let mode = batch_mode pass_num passes in
     bind_res (resolve_from_classification mode (batch_targets mode (dc_field_map c)) sig c None None) (\<lambda>cfg.
       Inr \<lparr>bc_total_calls = bc_total_calls acc + 1, bc_total_variations = bc_total_variations acc + sc_variations cfg,
            bc_estimated_cost = bc_estimated_cost acc + sc_cost cfg\<rparr>))"

fun batch_calls :: "domain_classification \<Rightarrow> int \<Rightarrow> (fields \<times> int) list \<Rightarrow> batch_cost \<Rightarrow> pyerr + batch_cost" where
  "batch_calls c passes [] acc = Inr acc"
| "batch_calls c passes ((ent, n) # rest) acc = bind_res (batch_call c passes ent n acc) (batch_calls c passes rest)"

definition estimate_batch_cost :: "fields list \<Rightarrow> domain_classification \<Rightarrow> int \<Rightarrow> pyerr + batch_cost" where
  "estimate_batch_cost entities c passes =
     bind_res (batch_calls c passes (concat (map (\<lambda>ent. map (\<lambda>n. (ent, n)) [1..passes]) entities))
        \<lparr>bc_total_calls = 0, bc_total_variations = 0, bc_estimated_cost = 0\<rparr>)
       (\<lambda>acc. Inr (acc\<lparr>bc_estimated_cost := py_round 4 (bc_estimated_cost acc)\<rparr>))"

section \<open>Bounds\<close>

lemma budget_cap: "3000 \<le> (b :: int) \<Longrightarrow> max (b div 1500) 2 * 1500 \<le> b"
proof -
  assume "3000 \<le> b"
  then have "2 \<le> b div 1500" by (simp add: zdiv_mono1 [of 3000 b 1500, simplified])
  then show ?thesis by simp
qed

lemma compute_variations_bounds:
  "2 \<le> compute_variations mode d sig budget \<and> compute_variations mode d sig budget \<le> 6 \<and>
   (3000 \<le> budget \<longrightarrow> compute_variations mode d sig budget * 1500 \<le> budget)"
proof -
  define b0 :: int where "b0 = (if mode = ''discovery'' then 4 else if mode = ''targeted'' then 3 else if mode = ''verification'' then 2 else 3)"
  define b1 where "b1 = (if d = Obscure then b0 + 1 else if d = Trivial then max (b0 - 1) 2 else b0)"
  define b2 where "b2 = (if es_avg_confidence sig < flt (4 / 10) then b1 + 1
    else if flt (8 / 10) < es_avg_confidence sig then max (b1 - 1) 2 else b1)"
  define cap where "cap = max (budget div 1500) 2"
  have v: "compute_variations mode d sig budget = min (min b2 cap) 7"
    unfolding compute_variations_def b0_def [symmetric] Let_def b1_def [symmetric] b2_def [symmetric] cap_def [symmetric] ..
  have "2 \<le> b0 \<and> b0 \<le> 4" by (simp add: b0_def)
  then have "2 \<le> b1 \<and> b1 \<le> 5" by (simp add: b1_def)
  then have b2: "2 \<le> b2 \<and> b2 \<le> 6" by (simp add: b2_def)
  have cap: "2 \<le> cap" "3000 \<le> budget \<Longrightarrow> cap * 1500 \<le> budget" using budget_cap by (simp_all add: cap_def)
  have "min (min b2 cap) 7 \<le> cap" by simp
  then have "min (min b2 cap) 7 * 1500 \<le> cap * 1500" by simp
  with b2 cap show ?thesis unfolding v by (auto simp: min_le_iff_disj)
qed

lemma dominant_rank:
  "f \<in> set fs \<Longrightarrow> difficulty_rank (dget_or fm f Findable) \<le> difficulty_rank (fold (worse_difficulty fm) fs w)"
proof (induction fs arbitrary: w)
  case (Cons g fs)
  have mono: "difficulty_rank v \<le> difficulty_rank (fold (worse_difficulty fm) xs v)" for v xs
  proof (induction xs arbitrary: v)
    case (Cons x xs)
    have "difficulty_rank v \<le> difficulty_rank (worse_difficulty fm x v)" by (simp add: worse_difficulty_def Let_def)
    also have "\<dots> \<le> difficulty_rank (fold (worse_difficulty fm) xs (worse_difficulty fm x v))" by (rule Cons.IH)
    finally show ?case by simp
  qed simp
  show ?case
  proof (cases "f = g")
    case True
    have "difficulty_rank (dget_or fm g Findable) \<le> difficulty_rank (worse_difficulty fm g w)"
      by (simp add: worse_difficulty_def Let_def)
    with True mono [of "worse_difficulty fm g w" fs] show ?thesis by simp
  next
    case False
    with Cons show ?thesis by simp
  qed
qed simp

lemma dominant_not_inferrable: "worst \<noteq> Inferrable \<Longrightarrow> fold (worse_difficulty fm) fs worst \<noteq> Inferrable"
proof (induction fs arbitrary: worst)
  case (Cons f fs)
  then have "worse_difficulty fm f worst \<noteq> Inferrable" by (simp add: worse_difficulty_def Let_def)
  with Cons.IH show ?case by simp
qed simp

section \<open>Properties\<close>

text \<open>
  The resolver. A call is planned exactly when some target field is not inferrable; then the
  number of variations is between 2 and 6 and, for a budget of at least 3000 tokens, costs at most
  the budget at 1500 tokens each; at most five search domains are given; and no searchable target is
  harder than the difficulty the parameters were chosen for. Otherwise search is off and no
  variation is run.
\<close>

theorem resolve_within_budget:
  assumes "b \<noteq> 0"
  shows "if (\<forall>f \<in> set targets. dget_or fm f Findable = Inferrable)
    then sc_disable_search (resolve mode targets sig fm filters ts amb (Some b) force) \<and>
      sc_variations (resolve mode targets sig fm filters ts amb (Some b) force) = 0
    else \<not> sc_disable_search (resolve mode targets sig fm filters ts amb (Some b) force) \<and>
      2 \<le> sc_variations (resolve mode targets sig fm filters ts amb (Some b) force) \<and>
      sc_variations (resolve mode targets sig fm filters ts amb (Some b) force) \<le> 6 \<and>
      (3000 \<le> b \<longrightarrow> sc_variations (resolve mode targets sig fm filters ts amb (Some b) force) * 1500 \<le> b) \<and>
      length (sc_domain_filter (resolve mode targets sig fm filters ts amb (Some b) force)) \<le> 5 \<and>
      (\<forall>f \<in> set (searchable_fields targets fm). difficulty_rank (dget_or fm f Findable) \<le>
         difficulty_rank (dominant_difficulty (searchable_fields targets fm) fm))"
proof (cases "\<forall>f \<in> set targets. dget_or fm f Findable = Inferrable")
  case True
  then have "searchable_fields targets fm = []" by (simp add: searchable_fields_def filter_empty_conv)
  with True assms show ?thesis by (simp add: resolve_def)
next
  case False
  then have ne: "searchable_fields targets fm \<noteq> []" by (simp add: searchable_fields_def filter_empty_conv)
  let ?d = "dominant_difficulty (searchable_fields targets fm) fm"
  let ?r = "resolve mode targets sig fm filters ts amb (Some b) force"
  have r: "sc_variations ?r = compute_variations mode ?d sig b" "\<not> sc_disable_search ?r"
    "sc_domain_filter ?r = select_domain_filters (searchable_fields targets fm) fm filters ?d"
    using ne assms by (simp_all add: resolve_def Let_def)
  have "length (sc_domain_filter ?r) \<le> 5" by (simp add: r select_domain_filters_def)
  moreover have "\<forall>f \<in> set (searchable_fields targets fm). difficulty_rank (dget_or fm f Findable) \<le> difficulty_rank ?d"
    using ne dominant_rank by (simp add: dominant_difficulty_def)
  ultimately show ?thesis using False compute_variations_bounds [of mode ?d sig b] by (simp only: r if_False) simp
qed

definition fresh_signals :: entity_signals where
  "fresh_signals = \<lparr>es_null_count = 1, es_known_count = 0, es_avg_confidence = 0, es_gate_missing = 0,
     es_has_website = False, es_failed_matches = 0, es_pass_number = 1, es_allocated_tokens = 5000\<rparr>"

theorem resolve_within_budget_witness:
  "sc_variations (resolve ''targeted'' [''capacity''] fresh_signals [(''capacity'', Obscure)] [] [] [] (Some 4500) None) * 1500 \<le> 4500"
  using resolve_within_budget [of 4500 "[''capacity'']" "[(''capacity'', Obscure)]"] by (simp add: dget_or_def)

end
