(* ===== verification/RequestDeadline.thy ===== *)
theory RequestDeadline
  imports Float64
begin

text \<open>
  \<open>app/services/request_deadline.py\<close>: one monotonic deadline per request. The clock reading is the
  argument \<open>now\<close>; the context variable that carries the deadline is the argument \<open>dl\<close>, \<open>None\<close>
  when no deadline is installed.
\<close>

definition canonical_converge_budget_seconds :: f64 where
  "canonical_converge_budget_seconds = f_of_int 25"

definition response_reserve_seconds :: f64 where
  "response_reserve_seconds = f_of_int 2"

definition provider_attempt_cap_seconds :: f64 where
  "provider_attempt_cap_seconds = f_of_int 20"

definition min_provider_attempt_seconds :: f64 where
  "min_provider_attempt_seconds = 1"

record deadline =
  expires_at :: f64
  reserve :: f64

definition start_deadline :: "f64 \<Rightarrow> f64 \<Rightarrow> f64 \<Rightarrow> deadline" where
  "start_deadline now budget reserve_seconds = \<lparr>expires_at = now + budget, reserve = reserve_seconds\<rparr>"

definition remaining :: "f64 \<Rightarrow> deadline \<Rightarrow> f64" where
  "remaining now d = expires_at d - now"

definition remaining_for_work :: "f64 \<Rightarrow> deadline \<Rightarrow> f64" where
  "remaining_for_work now d = remaining now d - reserve d"

definition expired :: "f64 \<Rightarrow> deadline \<Rightarrow> bool" where
  "expired now d \<longleftrightarrow> remaining_for_work now d \<le> 0"

definition attempt_timeout :: "f64 \<Rightarrow> f64 \<Rightarrow> f64 \<Rightarrow> deadline \<Rightarrow> f64 option" where
  "attempt_timeout cap_seconds min_seconds now d =
     (let budget = min cap_seconds (remaining_for_work now d) in if budget < min_seconds then None else Some budget)"

definition default_attempt_timeout :: "f64 \<Rightarrow> deadline \<Rightarrow> f64 option" where
  "default_attempt_timeout = attempt_timeout provider_attempt_cap_seconds min_provider_attempt_seconds"

definition effective_budget_seconds :: "int option \<Rightarrow> f64 \<Rightarrow> f64" where
  "effective_budget_seconds packet_ms bound =
     (case packet_ms of None \<Rightarrow> bound
      | Some ms \<Rightarrow> (let packet_seconds = f_of_int ms / f_of_int 1000 in
          if packet_seconds \<le> 0 then 0 else min bound packet_seconds))"

text \<open>\<open>header.timeout_ms\<close>: \<open>None\<close> stands for a missing packet, header or attribute, or a value that is no int.\<close>

definition packet_timeout_ms :: "int option \<Rightarrow> int option" where
  "packet_timeout_ms v = (case v of Some ms \<Rightarrow> if 0 < ms then Some ms else None | None \<Rightarrow> None)"

definition provider_attempt_timeout :: "f64 \<Rightarrow> deadline option \<Rightarrow> f64 \<Rightarrow> f64 option" where
  "provider_attempt_timeout now dl fallback =
     (case dl of None \<Rightarrow> Some (max fallback min_provider_attempt_seconds) | Some d \<Rightarrow> default_attempt_timeout now d)"

section \<open>Properties\<close>

lemma attempt_timeout_Some:
  "default_attempt_timeout now d = Some t \<Longrightarrow> 1 \<le> t \<and> t \<le> f_of_int 20 \<and> t \<le> remaining_for_work now d"
  by (auto simp: default_attempt_timeout_def attempt_timeout_def provider_attempt_cap_seconds_def
      min_provider_attempt_seconds_def Let_def not_less split: if_splits)

text \<open>
  A provider attempt fits into the request. Once a deadline is installed, every attempt that
  starts gets at least one second, at most twenty, and never more than what is left before the
  response reserve; at any later time the offered timeout is not larger, and once refused stays
  refused.
\<close>

theorem attempts_fit_deadline:
  assumes "now \<le> later"
  shows "(\<forall>t. provider_attempt_timeout now (Some d) fb = Some t \<longrightarrow> 1 \<le> t \<and> t \<le> f_of_int 20 \<and> t \<le> remaining_for_work now d) \<and>
    (\<forall>t'. provider_attempt_timeout later (Some d) fb = Some t' \<longrightarrow>
       (\<exists>t. provider_attempt_timeout now (Some d) fb = Some t \<and> t' \<le> t)) \<and>
    (expired now d \<longrightarrow> provider_attempt_timeout later (Some d) fb = None)"
proof -
  have mono: "remaining_for_work later d \<le> remaining_for_work now d"
    unfolding remaining_for_work_def remaining_def by (intro f64_diff_mono assms order_refl)
  have "\<exists>t. default_attempt_timeout now d = Some t \<and> t' \<le> t" if "default_attempt_timeout later d = Some t'" for t'
  proof -
    have m: "min (f_of_int 20) (remaining_for_work later d) \<le> min (f_of_int 20) (remaining_for_work now d)"
      using mono by (rule min.mono [OF order_refl])
    from that have t': "t' = min (f_of_int 20) (remaining_for_work later d)" "1 \<le> t'"
      by (auto simp: default_attempt_timeout_def attempt_timeout_def provider_attempt_cap_seconds_def
          min_provider_attempt_seconds_def Let_def not_less split: if_splits)
    with m have "1 \<le> min (f_of_int 20) (remaining_for_work now d)" by (blast intro: order_trans)
    then have "default_attempt_timeout now d = Some (min (f_of_int 20) (remaining_for_work now d))"
      by (simp add: default_attempt_timeout_def attempt_timeout_def provider_attempt_cap_seconds_def
          min_provider_attempt_seconds_def Let_def not_less [symmetric])
    with m t' show ?thesis by blast
  qed
  moreover have "default_attempt_timeout later d = None" if "expired now d"
  proof -
    have "remaining_for_work later d \<le> 0" using mono that order_trans unfolding expired_def by blast
    then have "remaining_for_work later d < 1" using f64_0_less_1(1) by (blast intro: le_less_trans)
    then show ?thesis
      by (simp add: default_attempt_timeout_def attempt_timeout_def min_provider_attempt_seconds_def Let_def min_less_iff_disj)
  qed
  ultimately show ?thesis using attempt_timeout_Some unfolding provider_attempt_timeout_def by (simp del: not_None_eq)
qed

theorem attempts_fit_deadline_witness:
  "provider_attempt_timeout 0 (Some (start_deadline 0 (f_of_int 25) (f_of_int 2))) 1 = Some (f_of_int 20) \<and>
   f_of_int 20 \<le> remaining_for_work 0 (start_deadline 0 (f_of_int 25) (f_of_int 2))"
proof -
  have r: "remaining_for_work 0 (start_deadline 0 (f_of_int 25) (f_of_int 2)) = f_of_int 23"
    by (simp add: remaining_for_work_def remaining_def start_deadline_def) (simp add: f64_eval)
  have le: "f_of_int 20 \<le> f_of_int 23" "1 \<le> f_of_int 20"
    using f_of_int_mono [of 20 23] f_of_int_mono [of 1 20] by simp_all
  have p: "provider_attempt_timeout 0 (Some (start_deadline 0 (f_of_int 25) (f_of_int 2))) 1 = Some (f_of_int 20)"
    using le by (simp add: provider_attempt_timeout_def default_attempt_timeout_def attempt_timeout_def r
        provider_attempt_cap_seconds_def min_provider_attempt_seconds_def min_def Let_def not_less)
  from attempts_fit_deadline [of 0 0 "start_deadline 0 (f_of_int 25) (f_of_int 2)" 1] p show ?thesis by simp
qed

end
