(* ===== verification/Planner.thy ===== *)
theory Planner
  imports RuleLoader DerivationGraph "HOL-Library.Product_Lexorder"
begin

text \<open>
  \<open>app/engines/meta_prompt_planner.py\<close>: the enrichment plan of one pass - its mode, the ranked target
  fields and the number of variations - with the unlock-aware ranking of
  \<open>rule_loader.rank_fields_by_unlock\<close> it calls. The domain specification is the list of its nodes'
  properties, \<open>None\<close> when it has no \<open>ontology\<close> attribute (no specification, or one that is a plain
  dict). The \<open>reasoning\<close> text, and the \<open>plan\<close> method kept for tests, are left out.
\<close>

datatype plan_mode = Discovery | Targeted | Verification

fun mode_name :: "plan_mode \<Rightarrow> string" where
  "mode_name Discovery = ''discovery''"
| "mode_name Targeted = ''targeted''"
| "mode_name Verification = ''verification''"

record field_gap =
  fg_name :: string
  fg_value :: pyval
  fg_confidence :: f64
  fg_gate_critical :: bool
  fg_weight :: f64

record prompt_plan =
  pp_mode :: plan_mode
  pp_priority_fields :: "string list"
  pp_kb_fragments :: "string list"
  pp_variation_count :: int
  pp_pass_number :: int

type_synonym spec_nodes = "domain_prop list list option"

record planner =
  pl_nodes :: spec_nodes
  pl_registry :: "rule_registry option"
  pl_unlock_index :: "(string, string list) dict"

section \<open>What the specification says of a field\<close>

definition prop_metadata_of :: "spec_nodes \<Rightarrow> string \<Rightarrow> fields option" where
  "prop_metadata_of nodes name =
     (case nodes of None \<Rightarrow> None
      | Some ns \<Rightarrow>
          (case List.find (\<lambda>p. prop_name p = name \<and> (case prop_metadata p of PDict _ \<Rightarrow> True | _ \<Rightarrow> False)) (concat ns) of
             None \<Rightarrow> None
           | Some p \<Rightarrow> (case prop_metadata p of PDict m \<Rightarrow> Some m | _ \<Rightarrow> None)))"

definition is_gate_critical :: "spec_nodes \<Rightarrow> string \<Rightarrow> bool" where
  "is_gate_critical nodes name =
     (case prop_metadata_of nodes name of None \<Rightarrow> False | Some m \<Rightarrow> truthy (dget_or m ''gate_critical'' (PBool False)))"

definition get_scoring_weight :: "spec_nodes \<Rightarrow> string \<Rightarrow> f64" where
  "get_scoring_weight nodes name =
     (case prop_metadata_of nodes name of None \<Rightarrow> 0 | Some m \<Rightarrow> safe_float (dget_or m ''scoring_weight'' (PFloat 0)) 0)"

section \<open>Planning\<close>

definition determine_mode :: "int \<Rightarrow> f64 \<Rightarrow> plan_mode" where
  "determine_mode pass_number uncertainty =
     (if pass_number = 1 then Discovery else if f_of_int 2 < uncertainty then Targeted else Verification)"

definition gap_of :: "spec_nodes \<Rightarrow> (string, f64) dict \<Rightarrow> string \<times> pyval \<Rightarrow> field_gap option" where
  "gap_of nodes confs kv =
     (let (name, v) = kv; c = dget_or confs name 0 in
      if v = PNone \<or> v = PStr [] \<or> c < flt (7 / 10)
      then Some \<lparr>fg_name = name, fg_value = v, fg_confidence = c, fg_gate_critical = is_gate_critical nodes name,
                 fg_weight = get_scoring_weight nodes name\<rparr>
      else None)"

definition identify_missing_fields :: "spec_nodes \<Rightarrow> fields \<Rightarrow> (string, f64) dict \<Rightarrow> field_gap list" where
  "identify_missing_fields nodes entity confs = List.map_filter (gap_of nodes confs) entity"

definition gap_priority :: "(string, f64) dict \<Rightarrow> field_gap \<Rightarrow> f64" where
  "gap_priority scores g =
     (if fg_gate_critical g then f_of_int 1000 else 0) + dget_or scores (fg_name g) 0 + fg_weight g"

definition rank_fields_by_unlock ::
    "field_gap list \<Rightarrow> (string, string list) dict \<Rightarrow> rule_registry \<Rightarrow> spec_nodes \<Rightarrow> pyerr + field_gap list" where
  "rank_fields_by_unlock gaps idx reg nodes =
     bind_res (score_unlock_potential (map fg_name gaps) idx reg (case nodes of Some ns \<Rightarrow> ns | None \<Rightarrow> []))
       (\<lambda>scores. Inr (sort_desc (gap_priority scores) gaps))"

definition fallback_key :: "field_gap \<Rightarrow> int \<times> f64 \<times> string" where
  "fallback_key g = (if fg_gate_critical g then 1000 else 0, fg_weight g, fg_name g)"

definition rank_fields :: "planner \<Rightarrow> field_gap list \<Rightarrow> plan_mode \<Rightarrow> string list" where
  "rank_fields pl gaps mode =
     (if mode = Discovery then map fg_name gaps
      else let fallback = map fg_name (sort_desc fallback_key gaps) in
        case pl_registry pl of
          None \<Rightarrow> fallback
        | Some reg \<Rightarrow>
            if pl_unlock_index pl = [] then fallback
            else (case rank_fields_by_unlock gaps (pl_unlock_index pl) reg (pl_nodes pl) of
                    Inr ranked \<Rightarrow> map fg_name ranked
                  | Inl _ \<Rightarrow> fallback))"

definition compute_variation_budget :: "f64 \<Rightarrow> int \<Rightarrow> int" where
  "compute_variation_budget uncertainty budget =
     (if budget < 1000 then 1 else if f_of_int 5 < uncertainty then 5 else if f_of_int 2 < uncertainty then 3 else 2)"

definition plan_pass :: "planner \<Rightarrow> fields \<Rightarrow> int \<Rightarrow> int \<Rightarrow> (string, f64) dict \<Rightarrow> f64 \<Rightarrow> prompt_plan" where
  "plan_pass pl entity pass_number budget confs uncertainty =
     (let mode = determine_mode pass_number uncertainty;
          ranked = rank_fields pl (identify_missing_fields (pl_nodes pl) entity confs) mode
      in \<lparr>pp_mode = mode, pp_priority_fields = take 10 ranked, pp_kb_fragments = [],
          pp_variation_count = compute_variation_budget uncertainty budget, pp_pass_number = pass_number\<rparr>)"

definition objective :: "prompt_plan \<Rightarrow> string" where
  "objective p =
     (case pp_mode p of
        Discovery \<Rightarrow> ''Discover new fields and populate entity data''
      | Targeted \<Rightarrow> ''Target specific fields: '' @ join '', '' (take 3 (pp_priority_fields p))
      | Verification \<Rightarrow> ''Verify and validate existing field values'')"

section \<open>Lemmas\<close>

lemma mset_sort_desc: "mset (sort_desc k xs) = mset xs"
  by (simp add: sort_desc_def)

lemma rank_by_unlock_perm: "rank_fields_by_unlock gaps idx reg nodes = Inr ranked \<Longrightarrow> mset ranked = mset gaps"
  by (auto simp: rank_fields_by_unlock_def bind_res_Inr_iff mset_sort_desc)

lemma rank_fields_perm: "mset (rank_fields pl gaps mode) = mset (map fg_name gaps)"
proof -
  have f: "mset (map fg_name (sort_desc fallback_key gaps)) = mset (map fg_name gaps)"
    by (simp add: mset_sort_desc)
  show ?thesis
  proof (cases "mode = Discovery \<or> pl_registry pl = None \<or> pl_unlock_index pl = []")
    case True
    then show ?thesis using f by (cases "pl_registry pl") (auto simp: rank_fields_def)
  next
    case False
    then obtain reg where reg: "pl_registry pl = Some reg" by auto
    show ?thesis
    proof (cases "rank_fields_by_unlock gaps (pl_unlock_index pl) reg (pl_nodes pl)")
      case (Inr ranked)
      with False reg rank_by_unlock_perm [OF Inr] show ?thesis by (simp add: rank_fields_def)
    next
      case (Inl e)
      with False reg f show ?thesis by (simp add: rank_fields_def)
    qed
  qed
qed

definition needs_enrichment :: "(string, f64) dict \<Rightarrow> string \<Rightarrow> pyval \<Rightarrow> bool" where
  "needs_enrichment confs f v \<longleftrightarrow> v = PNone \<or> v = PStr [] \<or> dget_or confs f 0 < flt (7 / 10)"

lemma gap_of_Some: "gap_of nodes confs (f, v) = Some g \<Longrightarrow> fg_name g = f \<and> needs_enrichment confs f v"
  by (auto simp: gap_of_def needs_enrichment_def Let_def split: if_splits)

lemma missing_fields_names:
  "set (map fg_name (identify_missing_fields nodes entity confs)) \<subseteq> {f. \<exists>v. (f, v) \<in> set entity \<and> needs_enrichment confs f v}"
  by (induction entity)
    (auto simp: identify_missing_fields_def List.map_filter_simps dest: gap_of_Some split: option.splits)

section \<open>Properties\<close>

text \<open>
  The plan only targets what is already there. The target fields of a pass are at most ten, and
  each is a key of the entity with a blank value or a confidence below 0.7: a field the entity does
  not have is never targeted, although the method is documented to find the missing ones.
\<close>

theorem plan_targets_present_fields:
  "length (pp_priority_fields (plan_pass pl entity n b confs u)) \<le> 10 \<and>
   set (pp_priority_fields (plan_pass pl entity n b confs u)) \<subseteq>
     {f. \<exists>v. (f, v) \<in> set entity \<and> needs_enrichment confs f v}"
proof -
  let ?gaps = "identify_missing_fields (pl_nodes pl) entity confs"
  let ?r = "rank_fields pl ?gaps (determine_mode n u)"
  have "set ?r = set (map fg_name ?gaps)"
    using mset_eq_setD [OF rank_fields_perm [of pl ?gaps "determine_mode n u"]] .
  then have "set (take 10 ?r) \<subseteq> {f. \<exists>v. (f, v) \<in> set entity \<and> needs_enrichment confs f v}"
    using set_take_subset [of 10 ?r] missing_fields_names [of "pl_nodes pl" entity confs] by blast
  moreover have "pp_priority_fields (plan_pass pl entity n b confs u) = take 10 ?r"
    by (simp add: plan_pass_def Let_def)
  ultimately show ?thesis by simp
qed

end
