(* ===== verification/ConvergenceLoop.thy ===== *)
theory ConvergenceLoop
  imports InferenceBridge Trackers ReturnChannel SearchOptimizer RequestDeadline Planner
begin

text \<open>
  \<open>app/engines/convergence_controller.py\<close>: the loop that enriches, infers and checks convergence,
  pass by pass. The single-pass enricher is injected by the caller; it is the parameter
  \<open>en_enrich\<close>, which may fail. What the loop reads from the outside at the start of a pass - the clock
  and the graph return channel - are functions of the pass number. The planner, the search
  optimizer, the inference bridge and the trackers are the models of the other theories. The loop
  over \<open>range(1, max_passes + 1)\<close> is a recursion over the number of passes left. Of the request the
  model has the fields the loop reads; the objective and the object type are passed through
  unchanged by the source.
\<close>

datatype loop_error = Raised pyerr | EnricherFailed string

definition lift_err :: "pyerr + 'a \<Rightarrow> loop_error + 'a" where
  "lift_err r = map_sum Raised id r"

section \<open>Requests, responses and state\<close>

record enrich_request =
  rq_entity :: fields
  rq_schema :: "(string, string) dict option"
  rq_consensus_threshold :: f64
  rq_field_thresholds :: "(string, f64) dict option"
  rq_max_variations :: int

record pass_response =
  rs_fields :: fields
  rs_confidence :: f64
  rs_tokens :: int
  rs_variation_count :: int
  rs_per_field :: "(string, f64) dict"

record pass_result =
  pr_number :: int
  pr_enriched :: fields
  pr_inferred :: fields
  pr_confidence :: f64
  pr_tokens :: int
  pr_plan :: prompt_plan
  pr_sonar :: "sonar_config option"
  pr_fired :: int
  pr_per_field :: "(string, f64) dict"
  pr_seeded :: fields

record convergence_state =
  cv_known :: fields
  cv_conf :: "(string, f64) dict"
  cv_inferred :: fields
  cv_passes :: "pass_result list"
  cv_tokens :: int
  cv_converged :: bool
  cv_reason :: string
  cv_unlock :: "(string, f64) dict"
  cv_uncertainty :: f64

record loop_state =
  ls_state :: convergence_state
  ls_tracker :: confidence_tracker
  ls_cost :: cost_tracker

record loop_env =
  en_request :: enrich_request
  en_config :: convergence_config
  en_planner :: planner
  en_rules :: "string \<Rightarrow> rule_fn option"
  en_graph :: "derivation_graph option"
  en_class :: "domain_classification option"
  en_deadline :: "deadline option"
  en_identity :: "(string \<times> string) option"
  en_now :: "int \<Rightarrow> f64"
  en_channel :: "int \<Rightarrow> channel"
  en_enrich :: "int \<Rightarrow> enrich_request \<Rightarrow> sonar_config option \<Rightarrow> string + pass_response"

definition initial_state :: "fields \<Rightarrow> convergence_state" where
  "initial_state ent = \<lparr>cv_known = filter (\<lambda>kv. snd kv \<noteq> PNone) ent, cv_conf = [], cv_inferred = [], cv_passes = [],
     cv_tokens = 0, cv_converged = False, cv_reason = [], cv_unlock = [], cv_uncertainty = 1\<rparr>"

section \<open>Classification cache\<close>

definition node_count :: "fields \<Rightarrow> pyerr + nat" where
  "node_count spec =
     (let ontology = dget_or spec ''ontology'' (PDict spec) in
      bind_res (py_get ontology ''entities'' (PDict [])) (\<lambda>ents.
      bind_res (py_get ontology ''nodes'' ents) (\<lambda>nodes.
        Inr (case nodes of PDict d \<Rightarrow> length d | PList ns \<Rightarrow> length ns | _ \<Rightarrow> 0))))"

text \<open>The md5 of the text is the parameter \<open>h\<close>.\<close>

definition cache_key :: "(string \<Rightarrow> string) \<Rightarrow> fields \<Rightarrow> pyerr + string" where
  "cache_key h spec =
     bind_res (domain_name spec) (\<lambda>name. bind_res (node_count spec) (\<lambda>n.
       Inr (h (py_str name @ '':'' @ str_int (int n)))))"

definition get_or_classify_domain ::
    "(string \<Rightarrow> string) \<Rightarrow> fields \<Rightarrow> (string, domain_classification) dict \<Rightarrow>
     pyerr + domain_classification \<times> (string, domain_classification) dict" where
  "get_or_classify_domain h spec cache =
     bind_res (cache_key h spec) (\<lambda>key.
       case dget cache key of
         Some c \<Rightarrow> Inr (c, cache)
       | None \<Rightarrow> bind_res (auto_classify_domain spec) (\<lambda>c. Inr (c, dset key c cache)))"

section \<open>One pass\<close>

definition graph_source :: string where
  "graph_source = ''graph_inference''"

definition store_field :: "string \<Rightarrow> pyval \<Rightarrow> f64 \<Rightarrow> convergence_state \<Rightarrow> convergence_state" where
  "store_field name v c st = st\<lparr>cv_known := dset name v (cv_known st), cv_conf := dset name c (cv_conf st)\<rparr>"

definition apply_target ::
    "int \<Rightarrow> enrichment_target \<Rightarrow> convergence_state \<times> confidence_tracker \<times> fields \<Rightarrow>
     convergence_state \<times> confidence_tracker \<times> fields" where
  "apply_target n t s =
     (let (st, tr, seeded) = s; name = et_field t in
      if dmem name (cv_known st) \<and>
         (case dget (cv_conf st) name of None \<Rightarrow> True | Some c \<Rightarrow> et_confidence t \<le> c)
      then s
      else ((store_field name (et_value t) (et_confidence t) st)
              \<lparr>cv_inferred := dset name (et_value t) (cv_inferred st)\<rparr>,
            update_field name (et_value t) (et_confidence t) n graph_source tr,
            dset name (et_value t) seeded))"

definition apply_graph_targets ::
    "enrichment_target list \<Rightarrow> convergence_state \<Rightarrow> confidence_tracker \<Rightarrow> int \<Rightarrow>
     convergence_state \<times> confidence_tracker \<times> fields" where
  "apply_graph_targets targets st tr n = fold (apply_target n) targets (st, tr, [])"

definition rate_from_sonar_config :: "sonar_config \<Rightarrow> f64" where
  "rate_from_sonar_config c = model_cost_per_1k (sc_model c) * context_cost_multiplier (sc_context_size c)"

definition pass_signals :: "domain_classification \<Rightarrow> convergence_state \<Rightarrow> cost_tracker \<Rightarrow> int \<Rightarrow> entity_signals" where
  "pass_signals c st cost n =
     \<lparr>es_null_count = max 0 (int (sum_list (dvalues (dc_stats c))) - int (length (cv_known st))),
      es_known_count = int (length (cv_known st)),
      es_avg_confidence = py_sum (dvalues (cv_conf st)) / f_of_int (max (int (length (cv_conf st))) 1),
      es_gate_missing = gate_missing (dc_gate_fields c) (dkeys (cv_known st)),
      es_has_website = truthy (dget_or (cv_known st) ''website'' PNone),
      es_failed_matches = 0, es_pass_number = n, es_allocated_tokens = budget_remaining cost\<rparr>"

definition pass_sonar ::
    "domain_classification option \<Rightarrow> prompt_plan \<Rightarrow> convergence_state \<Rightarrow> cost_tracker \<Rightarrow> int \<Rightarrow> pyerr + sonar_config option" where
  "pass_sonar cls plan st cost n =
     (case cls of None \<Rightarrow> Inr None
      | Some c \<Rightarrow> bind_res (resolve_from_classification (mode_name (pp_mode plan)) (pp_priority_fields plan)
            (pass_signals c st cost n) c (Some (budget_remaining cost)) None) (\<lambda>cfg. Inr (Some cfg)))"

definition with_rate :: "sonar_config option \<Rightarrow> cost_tracker \<Rightarrow> cost_tracker" where
  "with_rate cfg cost =
     (case cfg of None \<Rightarrow> cost
      | Some c \<Rightarrow> if 0 < sc_cost c then cost\<lparr>ct_rate_per_1k := rate_from_sonar_config c\<rparr> else cost)"

text \<open>The constructor of the pass request rejects a schema field without a consumer threshold.\<close>

definition build_pass_request :: "enrich_request \<Rightarrow> prompt_plan \<Rightarrow> convergence_state \<Rightarrow> pyerr + enrich_request" where
  "build_pass_request rq plan st =
     (let entity = dupdate (dupdate (rq_entity rq) (cv_known st)) (cv_inferred st);
          schema = (case rq_schema rq of Some (s # ss) \<Rightarrow> Some (s # ss)
             | _ \<Rightarrow> if pp_priority_fields plan \<noteq> []
                    then Some (map (\<lambda>f. (f, ''string'')) (dedup (pp_priority_fields plan))) else None);
          variations = min (if pp_variation_count plan \<noteq> 0 then pp_variation_count plan else rq_max_variations rq)
                           (rq_max_variations rq)
      in if (case (rq_field_thresholds rq, schema) of
               (Some ths, Some sch) \<Rightarrow> \<not> list_all (\<lambda>name. dmem name ths) (dkeys sch) | _ \<Rightarrow> False)
         then Inl ValueError
         else Inr \<lparr>rq_entity = entity, rq_schema = schema, rq_consensus_threshold = rq_consensus_threshold rq,
                   rq_field_thresholds = rq_field_thresholds rq, rq_max_variations = variations\<rparr>)"

definition merge_enriched ::
    "int \<Rightarrow> (string, f64) dict \<Rightarrow> f64 \<Rightarrow> string \<times> pyval \<Rightarrow> convergence_state \<times> confidence_tracker \<Rightarrow>
     convergence_state \<times> confidence_tracker" where
  "merge_enriched n per_field overall kv s =
     (let (name, v) = kv; (st, tr) = s; c = dget_or per_field name overall in
      (store_field name v c st, update_field name v c n ''consensus'' tr))"

definition merge_inferred ::
    "int \<Rightarrow> (string, f64) dict \<Rightarrow> string \<times> pyval \<Rightarrow> convergence_state \<times> confidence_tracker \<Rightarrow>
     convergence_state \<times> confidence_tracker" where
  "merge_inferred n confs kv s =
     (let (name, v) = kv; (st, tr) = s; c = dget_or confs name (flt (7 / 10)) in
      ((store_field name v c st)\<lparr>cv_inferred := dset name v (cv_inferred st)\<rparr>,
       update_field name v c n ''inference'' tr))"

definition requested_names :: "enrich_request \<Rightarrow> string list" where
  "requested_names rq = filter (\<lambda>f. f \<noteq> ''confidence'') (case rq_schema rq of Some d \<Rightarrow> dkeys d | None \<Rightarrow> [])"

definition pass_meets_convergence :: "enrich_request \<Rightarrow> confidence_tracker \<Rightarrow> bool" where
  "pass_meets_convergence rq tr =
     (let names = requested_names rq; ths = (case rq_field_thresholds rq of Some d \<Rightarrow> d | None \<Rightarrow> []) in
      if names = [] then has_converged tr
      else list_all (\<lambda>f. case dget (tr_fields tr) f of None \<Rightarrow> False
             | Some s \<Rightarrow> \<not> fs_confidence s < dget_or ths f (tr_threshold tr)) names)"

definition convergence_reason :: "enrich_request \<Rightarrow> convergence_config \<Rightarrow> string" where
  "convergence_reason rq cfg =
     (case rq_field_thresholds rq of
        Some (th # ths) \<Rightarrow> ''requested_fields_meet_field_thresholds''
      | _ \<Rightarrow> ''all_fields_above_threshold_'' @ repr_float (confidence_threshold cfg))"

definition finish :: "string \<Rightarrow> convergence_state \<Rightarrow> convergence_state" where
  "finish reason st = st\<lparr>cv_converged := True, cv_reason := reason\<rparr>"

text \<open>What is read before the enricher is called, and what follows its response.\<close>

definition seed_pass :: "loop_env \<Rightarrow> int \<Rightarrow> loop_state \<Rightarrow> convergence_state \<times> confidence_tracker \<times> fields" where
  "seed_pass env n ls =
     (case en_identity env of None \<Rightarrow> (ls_state ls, ls_tracker ls, [])
      | Some (tenant, entity) \<Rightarrow>
          if tenant = [] \<or> entity = [] then (ls_state ls, ls_tracker ls, [])
          else apply_graph_targets (fst (take_for_entity tenant entity 500 (en_channel env n))) (ls_state ls) (ls_tracker ls) n)"

definition plan_of :: "loop_env \<Rightarrow> int \<Rightarrow> convergence_state \<Rightarrow> confidence_tracker \<Rightarrow> cost_tracker \<Rightarrow> prompt_plan" where
  "plan_of env n st tr cost =
     (let plan = plan_pass (en_planner env) (cv_known st) n (budget_remaining cost) (get_all_confidences tr) (cv_uncertainty st) in
      if cv_unlock st \<noteq> [] \<and> pp_priority_fields plan \<noteq> []
      then plan\<lparr>pp_priority_fields := prioritize_search_targets (pp_priority_fields plan) (cv_unlock st)\<rparr> else plan)"

definition absorb_response ::
    "loop_env \<Rightarrow> int \<Rightarrow> convergence_state \<Rightarrow> confidence_tracker \<Rightarrow> cost_tracker \<Rightarrow> fields \<Rightarrow> prompt_plan \<Rightarrow>
     sonar_config option \<Rightarrow> pass_response \<Rightarrow> pyerr + loop_state" where
  "absorb_response env n st tr cost seeded plan sonar rs =
     (let (st1, tr1) = fold (merge_enriched n (rs_per_field rs) (rs_confidence rs)) (rs_fields rs) (st, tr) in
      bind_res (record_pass n (rs_tokens rs) cost) (\<lambda>cost'.
        let inf = bridge_run (en_rules env) (en_graph env) (cv_known st1) (cv_conf st1);
            (st2, tr2) = fold (merge_inferred n (confidence_map inf)) (derived_fields inf) (st1, tr1);
            result = \<lparr>pr_number = n, pr_enriched = rs_fields rs, pr_inferred = derived_fields inf,
              pr_confidence = rs_confidence rs, pr_tokens = rs_tokens rs,
              pr_plan = plan\<lparr>pp_variation_count := rs_variation_count rs\<rparr>, pr_sonar = sonar,
              pr_fired = rules_fired inf, pr_per_field = rs_per_field rs, pr_seeded = seeded\<rparr>
        in Inr \<lparr>ls_state = st2\<lparr>cv_tokens := cv_tokens st2 + rs_tokens rs, cv_unlock := unlock_map inf,
                                cv_passes := cv_passes st2 @ [result]\<rparr>,
                ls_tracker = tr2, ls_cost = cost'\<rparr>))"

definition stop_reason :: "loop_env \<Rightarrow> int \<Rightarrow> plan_mode \<Rightarrow> confidence_tracker \<Rightarrow> string option" where
  "stop_reason env n mode tr =
     (if pass_meets_convergence (en_request env) tr then Some (convergence_reason (en_request env) (en_config env))
      else if 2 \<le> n \<and> \<not> had_meaningful_improvement (min_improvement_delta (en_config env)) tr
      then Some (''insufficient_improvement_delta_'' @ repr_float (min_improvement_delta (en_config env)))
      else if mode = Verification then Some ''verification_pass_complete''
      else None)"

definition run_pass :: "loop_env \<Rightarrow> int \<Rightarrow> loop_state \<Rightarrow> loop_error + bool \<times> loop_state" where
  "run_pass env n ls =
     (if (case en_deadline env of None \<Rightarrow> False | Some d \<Rightarrow>
            (case default_attempt_timeout (en_now env n) d of None \<Rightarrow> True | Some _ \<Rightarrow> False))
      then Inr (True, ls\<lparr>ls_state := finish ''deadline_exhausted'' (ls_state ls)\<rparr>)
      else if \<not> can_continue (ls_cost ls)
      then Inr (True, ls\<lparr>ls_state := finish ''budget_exhausted'' (ls_state ls)\<rparr>)
      else
        (let (st, tr, seeded) = seed_pass env n ls;
             plan = plan_of env n st tr (ls_cost ls)
         in bind_res (lift_err (pass_sonar (en_class env) plan st (ls_cost ls) n)) (\<lambda>sonar.
            bind_res (lift_err (build_pass_request (en_request env) plan st)) (\<lambda>request.
            bind_res (map_sum EnricherFailed id (en_enrich env n request sonar)) (\<lambda>response.
            bind_res (lift_err (absorb_response env n st tr (with_rate sonar (ls_cost ls)) seeded plan sonar response)) (\<lambda>ls'.
              Inr (case stop_reason env n (pp_mode plan) (ls_tracker ls') of
                Some reason \<Rightarrow> (True, ls'\<lparr>ls_state := finish reason (ls_state ls')\<rparr>)
              | None \<Rightarrow> (False, ls'))))))))"

fun run_passes :: "loop_env \<Rightarrow> nat \<Rightarrow> int \<Rightarrow> loop_state \<Rightarrow> loop_error + loop_state" where
  "run_passes env 0 n ls = Inr ls"
| "run_passes env (Suc left) n ls =
     bind_res (run_pass env n ls) (\<lambda>(stop, ls'). if stop then Inr ls' else run_passes env left (n + 1) ls')"

section \<open>The whole loop\<close>

record loop_response =
  lr_fields :: fields
  lr_confidence :: f64
  lr_variation_count :: int
  lr_uncertainty :: f64
  lr_pass_count :: nat
  lr_tokens_used :: int
  lr_failure_reason :: "string option"
  lr_cost :: cost_summary

definition produced_fields :: "pass_result list \<Rightarrow> string set" where
  "produced_fields passes =
     (\<Union>p \<in> set passes. set (dkeys (pr_enriched p)) \<union> set (dkeys (pr_inferred p)) \<union> set (dkeys (pr_seeded p)))"

definition assemble_response :: "loop_state \<Rightarrow> loop_response" where
  "assemble_response ls =
     (let st = ls_state ls;
          final = filter (\<lambda>kv. fst kv \<in> produced_fields (cv_passes st)) (cv_known st);
          avg = py_sum (map (\<lambda>kv. dget_or (cv_conf st) (fst kv) 0) final) / f_of_int (max (int (length final)) 1)
      in \<lparr>lr_fields = final, lr_confidence = py_round 4 avg,
          lr_variation_count = sum_list (map (\<lambda>p. pp_variation_count (pr_plan p)) (cv_passes st)),
          lr_uncertainty = cv_uncertainty st, lr_pass_count = length (cv_passes st), lr_tokens_used = cv_tokens st,
          lr_failure_reason = (if cv_reason st = ''deadline_exhausted'' then Some (cv_reason st) else None),
          lr_cost = to_summary (ls_cost ls) (int (length final))\<rparr>)"

definition default_rate_per_1k :: f64 where
  "default_rate_per_1k = flt (5 / 1000)"

definition dict_planner :: planner where
  "dict_planner = \<lparr>pl_nodes = None, pl_registry = None, pl_unlock_index = []\<rparr>"

definition run_loop :: "loop_env \<Rightarrow> int \<Rightarrow> loop_error + loop_state" where
  "run_loop env max_budget =
     bind_res (lift_err (new_cost_tracker max_budget default_rate_per_1k)) (\<lambda>cost.
       run_passes env (nat (max_passes (en_config env))) 1
         \<lparr>ls_state = initial_state (rq_entity (en_request env)),
          ls_tracker = new_confidence_tracker (confidence_threshold (en_config env)), ls_cost = cost\<rparr>)"

text \<open>
  The set-up in the order of the source: the bridge builds its graph, then the domain is classified
  through the cache, then the budget is opened. The other entries of \<open>env\<close> are the caller's.
\<close>

definition run_convergence_loop ::
    "(string \<Rightarrow> string) \<Rightarrow> (string list \<Rightarrow> string list) \<Rightarrow> fields option \<Rightarrow> int \<Rightarrow> loop_env \<Rightarrow>
     (string, domain_classification) dict \<Rightarrow> (loop_error + loop_response) \<times> (string, domain_classification) dict" where
  "run_convergence_loop h ord spec max_budget env cache =
     (let env = env\<lparr>en_planner := dict_planner\<rparr> in
      case spec of
        Some (s # ss) \<Rightarrow>
          (case build_derivation_graph ord (s # ss) of
             Inl e \<Rightarrow> (Inl (Raised e), cache)
           | Inr g \<Rightarrow>
               (case get_or_classify_domain h (s # ss) cache of
                  Inl e \<Rightarrow> (Inl (Raised e), cache)
                | Inr (c, cache') \<Rightarrow>
                    (map_sum id assemble_response (run_loop (env\<lparr>en_graph := Some g, en_class := Some c\<rparr>) max_budget), cache')))
      | _ \<Rightarrow> (map_sum id assemble_response (run_loop (env\<lparr>en_graph := None, en_class := None\<rparr>) max_budget), cache))"

section \<open>Invariants of a pass\<close>

text \<open>The tracker and the state agree, and every tracked field is known.\<close>

definition agree :: "convergence_state \<Rightarrow> confidence_tracker \<Rightarrow> bool" where
  "agree st tr \<longleftrightarrow> tracked_confidence tr = dget (cv_conf st) \<and> set (dkeys (cv_conf st)) \<subseteq> set (dkeys (cv_known st)) \<and>
     dict_ok (cv_known st) \<and> dict_ok (cv_conf st)"

lemma store_simps [simp]:
  "cv_known (store_field k v c st) = dset k v (cv_known st)" "cv_conf (store_field k v c st) = dset k c (cv_conf st)"
  "cv_inferred (store_field k v c st) = cv_inferred st" "cv_passes (store_field k v c st) = cv_passes st"
  "cv_tokens (store_field k v c st) = cv_tokens st" "cv_uncertainty (store_field k v c st) = cv_uncertainty st"
  "cv_unlock (store_field k v c st) = cv_unlock st" "cv_reason (store_field k v c st) = cv_reason st"
  by (simp_all add: store_field_def)

lemma agree_store:
  assumes "agree st tr"
  shows "agree (store_field k v c st) (update_field k v c n src tr)"
  unfolding agree_def store_simps tracker_board.conf_put
  using assms by (auto simp: agree_def dget_dset alist.ok_put fun_eq_iff keys_dset simp del: set_map)

lemma agree_cong:
  "cv_known st = cv_known st' \<Longrightarrow> cv_conf st = cv_conf st' \<Longrightarrow> agree st tr = agree st' tr"
  by (simp add: agree_def)

text \<open>What a merge of the fields \<open>ks\<close> leaves alone, and what it adds.\<close>

definition grown :: "string set \<Rightarrow> convergence_state \<Rightarrow> convergence_state \<Rightarrow> bool" where
  "grown ks st st' \<longleftrightarrow> cv_passes st' = cv_passes st \<and> cv_tokens st' = cv_tokens st \<and>
     cv_uncertainty st' = cv_uncertainty st \<and> cv_reason st' = cv_reason st \<and> set (dkeys (cv_conf st')) = set (dkeys (cv_conf st)) \<union> ks \<and>
     set (dkeys (cv_known st')) = set (dkeys (cv_known st)) \<union> ks"

lemma grown_refl [simp]: "grown {} st st"
  by (simp add: grown_def)

lemma grown_trans: "grown ks a b \<Longrightarrow> grown js b c \<Longrightarrow> grown (ks \<union> js) a c"
  unfolding grown_def by (elim conjE, intro conjI, simp_all only: Un_assoc)

lemma grown_store: "grown {k} st (store_field k v c st)"
  by (simp add: grown_def keys_dset del: set_map)

lemma grown_store_inferred: "grown {k} st ((store_field k v c st)\<lparr>cv_inferred := d\<rparr>)"
  using grown_store [of k st v c] by (simp add: grown_def del: set_map)

lemma apply_target_step:
  assumes "apply_target n t (st, tr, seeded) = (st', tr', seeded')" and "agree st tr"
  obtains ks where "agree st' tr'" "grown ks st st'" "set (dkeys seeded') = set (dkeys seeded) \<union> ks"
proof (cases "dmem (et_field t) (cv_known st) \<and>
    (case dget (cv_conf st) (et_field t) of None \<Rightarrow> True | Some c \<Rightarrow> et_confidence t \<le> c)")
  case True
  with assms that [of "{}"] show ?thesis by (simp add: apply_target_def Let_def)
next
  case False
  let ?st = "store_field (et_field t) (et_value t) (et_confidence t) st"
  have "apply_target n t (st, tr, seeded) =
      (?st\<lparr>cv_inferred := dset (et_field t) (et_value t) (cv_inferred st)\<rparr>,
       update_field (et_field t) (et_value t) (et_confidence t) n graph_source tr, dset (et_field t) (et_value t) seeded)"
    by (simp only: apply_target_def Let_def prod.case False if_False)
  with assms(1) have r: "st' = ?st\<lparr>cv_inferred := dset (et_field t) (et_value t) (cv_inferred st)\<rparr>"
      "tr' = update_field (et_field t) (et_value t) (et_confidence t) n graph_source tr"
      "seeded' = dset (et_field t) (et_value t) seeded"
    by simp_all
  have "agree ?st tr'" unfolding r by (rule agree_store [OF assms(2)])
  then have "agree st' tr'" by (subst agree_cong [of st' ?st]) (simp_all add: r)
  then show ?thesis
    by (rule that [of "{et_field t}"]) (simp_all only: r grown_store_inferred keys_dset Un_insert_right sup_bot_right)
qed

lemma apply_targets_agree:
  assumes "fold (apply_target n) ts (st, tr, seeded) = (st', tr', seeded')" and "agree st tr"
  obtains ks where "agree st' tr'" "grown ks st st'" "set (dkeys seeded') = set (dkeys seeded) \<union> ks"
  using assms
proof (induction ts arbitrary: st tr seeded thesis)
  case Nil
  then show ?case by (auto intro: Nil.prems(1) [of "{}"])
next
  case (Cons t ts)
  obtain st1 tr1 seeded1 where s1: "apply_target n t (st, tr, seeded) = (st1, tr1, seeded1)"
    by (cases "apply_target n t (st, tr, seeded)")
  obtain ks where k: "agree st1 tr1" "grown ks st st1" "set (dkeys seeded1) = set (dkeys seeded) \<union> ks"
    by (rule apply_target_step [OF s1 Cons.prems(3)])
  from Cons.prems(2) s1 have "fold (apply_target n) ts (st1, tr1, seeded1) = (st', tr', seeded')" by simp
  then obtain js where j: "agree st' tr'" "grown js st1 st'" "set (dkeys seeded') = set (dkeys seeded1) \<union> js"
    by (rule Cons.IH [rotated -2]) (rule k(1))
  show ?case
    by (rule Cons.prems(1) [OF j(1) grown_trans [OF k(2) j(2)]]) (simp only: j(3) k(3) Un_assoc)
qed

lemma merge_enriched_agree:
  "fold (merge_enriched n pf ov) kvs (st, tr) = (st', tr') \<Longrightarrow> agree st tr \<Longrightarrow> agree st' tr' \<and> grown (set (dkeys kvs)) st st'"
proof (induction kvs arbitrary: st tr)
  case (Cons kv kvs)
  obtain k v where kv: "kv = (k, v)" by (cases kv)
  let ?c = "dget_or pf k ov"
  let ?st = "store_field k v ?c st" and ?tr = "update_field k v ?c n ''consensus'' tr"
  have "merge_enriched n pf ov kv (st, tr) = (?st, ?tr)" by (simp add: merge_enriched_def kv Let_def)
  with Cons.prems(1) have "fold (merge_enriched n pf ov) kvs (?st, ?tr) = (st', tr')" by simp
  from Cons.IH [OF this agree_store [OF Cons.prems(2)]]
  have "agree st' tr'" and "grown (set (dkeys kvs)) ?st st'" by simp_all
  with grown_trans [OF grown_store this(2)] kv show ?case by (simp del: set_map)
qed simp

lemma merge_inferred_agree:
  "fold (merge_inferred n confs) kvs (st, tr) = (st', tr') \<Longrightarrow> agree st tr \<Longrightarrow> agree st' tr' \<and> grown (set (dkeys kvs)) st st'"
proof (induction kvs arbitrary: st tr)
  case (Cons kv kvs)
  obtain k v where kv: "kv = (k, v)" by (cases kv)
  let ?c = "dget_or confs k (flt (7 / 10))"
  let ?st = "(store_field k v ?c st)\<lparr>cv_inferred := dset k v (cv_inferred st)\<rparr>" and ?tr = "update_field k v ?c n ''inference'' tr"
  have "merge_inferred n confs kv (st, tr) = (?st, ?tr)" by (simp add: merge_inferred_def kv Let_def)
  with Cons.prems(1) have "fold (merge_inferred n confs) kvs (?st, ?tr) = (st', tr')" by simp
  moreover have "agree ?st ?tr"
    by (subst agree_cong [of ?st "store_field k v ?c st"]) (simp_all add: agree_store [OF Cons.prems(2)])
  ultimately have "agree st' tr'" and "grown (set (dkeys kvs)) ?st st'" using Cons.IH by blast+
  with grown_trans [OF grown_store_inferred this(2)] kv show ?case by (simp del: set_map)
qed simp

lemma seed_pass_agree:
  assumes "seed_pass env n ls = (st, tr, seeded)" and "agree (ls_state ls) (ls_tracker ls)"
  shows "agree st tr \<and> grown (set (dkeys seeded)) (ls_state ls) st"
proof (cases "\<exists>tenant entity. en_identity env = Some (tenant, entity) \<and> tenant \<noteq> [] \<and> entity \<noteq> []")
  case True
  then obtain tenant entity where i: "en_identity env = Some (tenant, entity)" "tenant \<noteq> []" "entity \<noteq> []" by blast
  from assms(1) i have "fold (apply_target n) (fst (take_for_entity tenant entity 500 (en_channel env n)))
      (ls_state ls, ls_tracker ls, []) = (st, tr, seeded)"
    by (simp add: seed_pass_def apply_graph_targets_def)
  then show ?thesis by (rule apply_targets_agree [OF _ assms(2)]) simp
next
  case False
  then have "seed_pass env n ls = (ls_state ls, ls_tracker ls, [])"
    by (auto simp: seed_pass_def split: option.splits)
  with assms show ?thesis by simp
qed

lemma produced_append: "produced_fields (ps @ qs) = produced_fields ps \<union> produced_fields qs"
  unfolding produced_fields_def by (simp del: set_map)

lemma absorb_response_spec:
  assumes "absorb_response env n st tr cost seeded plan sonar rs = Inr ls'" and "agree st tr"
  obtains p where "agree (ls_state ls') (ls_tracker ls')" "cv_uncertainty (ls_state ls') = cv_uncertainty st"
    "cv_reason (ls_state ls') = cv_reason st"
    "cv_passes (ls_state ls') = cv_passes st @ [p]" "pr_number p = n" "pr_seeded p = seeded"
    "cv_tokens (ls_state ls') = cv_tokens st + pr_tokens p" "record_pass n (pr_tokens p) cost = Inr (ls_cost ls')"
    "set (dkeys (cv_conf (ls_state ls'))) = set (dkeys (cv_conf st)) \<union> (set (dkeys (pr_enriched p)) \<union> set (dkeys (pr_inferred p)))"
    "set (dkeys (cv_known (ls_state ls'))) = set (dkeys (cv_known st)) \<union> (set (dkeys (pr_enriched p)) \<union> set (dkeys (pr_inferred p)))"
proof -
  obtain st1 tr1 where m1: "fold (merge_enriched n (rs_per_field rs) (rs_confidence rs)) (rs_fields rs) (st, tr) = (st1, tr1)"
    by (cases "fold (merge_enriched n (rs_per_field rs) (rs_confidence rs)) (rs_fields rs) (st, tr)")
  let ?inf = "bridge_run (en_rules env) (en_graph env) (cv_known st1) (cv_conf st1)"
  obtain st2 tr2 where m2: "fold (merge_inferred n (confidence_map ?inf)) (derived_fields ?inf) (st1, tr1) = (st2, tr2)"
    by (cases "fold (merge_inferred n (confidence_map ?inf)) (derived_fields ?inf) (st1, tr1)")
  from merge_enriched_agree [OF m1 assms(2)] have a1: "agree st1 tr1" "grown (set (dkeys (rs_fields rs))) st st1" by simp_all
  from merge_inferred_agree [OF m2 a1(1)] have a2: "agree st2 tr2" "grown (set (dkeys (derived_fields ?inf))) st1 st2" by simp_all
  from grown_trans [OF a1(2) a2(2)] have f: "grown (set (dkeys (rs_fields rs)) \<union> set (dkeys (derived_fields ?inf))) st st2" .
  from assms(1) obtain cost' where c: "record_pass n (rs_tokens rs) cost = Inr cost'"
    by (auto simp: absorb_response_def m1 m2 Let_def bind_res_Inr_iff)
  let ?p = "\<lparr>pr_number = n, pr_enriched = rs_fields rs, pr_inferred = derived_fields ?inf,
              pr_confidence = rs_confidence rs, pr_tokens = rs_tokens rs,
              pr_plan = plan\<lparr>pp_variation_count := rs_variation_count rs\<rparr>, pr_sonar = sonar,
              pr_fired = rules_fired ?inf, pr_per_field = rs_per_field rs, pr_seeded = seeded\<rparr>"
  from assms(1) have ls': "ls' = \<lparr>ls_state = st2\<lparr>cv_tokens := cv_tokens st2 + rs_tokens rs, cv_unlock := unlock_map ?inf,
      cv_passes := cv_passes st2 @ [?p]\<rparr>, ls_tracker = tr2, ls_cost = cost'\<rparr>"
    by (simp add: absorb_response_def m1 m2 Let_def c)
  have "agree (ls_state ls') (ls_tracker ls')"
    by (subst agree_cong [of _ st2]) (simp_all add: ls' a2(1))
  then show thesis
    by (rule that [of ?p]) (use f c in \<open>simp_all add: ls' grown_def del: set_map\<close>)
qed

text \<open>A pass either finds the loop closed and changes nothing but the verdict, or is a full pass.\<close>

definition early_stop :: "loop_env \<Rightarrow> int \<Rightarrow> loop_state \<Rightarrow> string option" where
  "early_stop env n ls =
     (if (case en_deadline env of None \<Rightarrow> False | Some d \<Rightarrow> default_attempt_timeout (en_now env n) d = None)
      then Some ''deadline_exhausted'' else if \<not> can_continue (ls_cost ls) then Some ''budget_exhausted'' else None)"

lemma run_pass_early:
  "early_stop env n ls = Some r \<Longrightarrow> run_pass env n ls = Inr (True, ls\<lparr>ls_state := finish r (ls_state ls)\<rparr>)"
  by (auto simp: early_stop_def run_pass_def split: option.splits if_splits)

lemma early_stop_None: "early_stop env n ls = None \<Longrightarrow> can_continue (ls_cost ls)"
  by (auto simp: early_stop_def split: if_splits)

definition full_pass :: "loop_env \<Rightarrow> int \<Rightarrow> loop_state \<Rightarrow> loop_error + plan_mode \<times> loop_state" where
  "full_pass env n ls =
     (let (st, tr, seeded) = seed_pass env n ls;
          plan = plan_of env n st tr (ls_cost ls)
      in bind_res (lift_err (pass_sonar (en_class env) plan st (ls_cost ls) n)) (\<lambda>sonar.
         bind_res (lift_err (build_pass_request (en_request env) plan st)) (\<lambda>request.
         bind_res (map_sum EnricherFailed id (en_enrich env n request sonar)) (\<lambda>response.
         bind_res (lift_err (absorb_response env n st tr (with_rate sonar (ls_cost ls)) seeded plan sonar response)) (\<lambda>ls'.
           Inr (pp_mode plan, ls'))))))"

lemma bind_res_assoc: "bind_res (bind_res r f) g = bind_res r (\<lambda>x. bind_res (f x) g)"
  by (cases r) simp_all

definition conclude :: "loop_env \<Rightarrow> int \<Rightarrow> plan_mode \<times> loop_state \<Rightarrow> bool \<times> loop_state" where
  "conclude env n ms =
     (let (mode, ls') = ms in
      case stop_reason env n mode (ls_tracker ls') of
        Some reason \<Rightarrow> (True, ls'\<lparr>ls_state := finish reason (ls_state ls')\<rparr>)
      | None \<Rightarrow> (False, ls'))"

lemma run_pass_full:
  assumes "early_stop env n ls = None"
  shows "run_pass env n ls = bind_res (full_pass env n ls) (\<lambda>ms. Inr (conclude env n ms))"
proof -
  obtain st tr seeded where "seed_pass env n ls = (st, tr, seeded)" by (cases "seed_pass env n ls")
  moreover have "\<not> (case en_deadline env of None \<Rightarrow> False | Some d \<Rightarrow>
      (case default_attempt_timeout (en_now env n) d of None \<Rightarrow> True | Some _ \<Rightarrow> False))" "can_continue (ls_cost ls)"
    using assms by (auto simp: early_stop_def split: option.splits if_splits)
  ultimately show ?thesis by (simp add: run_pass_def full_pass_def conclude_def bind_res_assoc Let_def)
qed


text \<open>Every full pass plans from an uncertainty that no step of the loop changes.\<close>

lemma plan_of_mode: "pp_mode (plan_of env n st tr cost) = determine_mode n (cv_uncertainty st)"
  by (simp add: plan_of_def plan_pass_def Let_def)

lemma map_sum_id_Inr: "map_sum f id r = Inr x \<longleftrightarrow> r = Inr x"
  by (cases r) simp_all

lemma full_pass_spec:
  assumes "full_pass env n ls = Inr (mode, ls')" and "agree (ls_state ls) (ls_tracker ls)"
  obtains p sonar where "agree (ls_state ls') (ls_tracker ls')" "mode = determine_mode n (cv_uncertainty (ls_state ls))"
    "cv_uncertainty (ls_state ls') = cv_uncertainty (ls_state ls)" "cv_reason (ls_state ls') = cv_reason (ls_state ls)"
    "cv_passes (ls_state ls') = cv_passes (ls_state ls) @ [p]" "pr_number p = n" "cv_tokens (ls_state ls') = cv_tokens (ls_state ls) + pr_tokens p"
    "record_pass n (pr_tokens p) (with_rate sonar (ls_cost ls)) = Inr (ls_cost ls')"
    "set (dkeys (cv_conf (ls_state ls'))) = set (dkeys (cv_conf (ls_state ls))) \<union> produced_fields [p]"
    "set (dkeys (cv_known (ls_state ls'))) = set (dkeys (cv_known (ls_state ls))) \<union> produced_fields [p]"
proof -
  obtain st tr seeded where s: "seed_pass env n ls = (st, tr, seeded)" by (cases "seed_pass env n ls")
  from seed_pass_agree [OF s assms(2)] have a: "agree st tr" and f: "grown (set (dkeys seeded)) (ls_state ls) st" by simp_all
  let ?plan = "plan_of env n st tr (ls_cost ls)"
  from assms(1) obtain sonar rs where "absorb_response env n st tr (with_rate sonar (ls_cost ls)) seeded ?plan sonar rs = Inr ls'"
      "mode = pp_mode ?plan"
    by (auto simp: full_pass_def s Let_def bind_res_Inr_iff lift_err_def map_sum_id_Inr)
  note m = this(2)
  from \<open>absorb_response _ _ _ _ _ _ _ _ _ = _\<close> obtain p where p: "agree (ls_state ls') (ls_tracker ls')"
      "cv_uncertainty (ls_state ls') = cv_uncertainty st" "cv_reason (ls_state ls') = cv_reason st"
      "cv_passes (ls_state ls') = cv_passes st @ [p]" "pr_number p = n"
      "pr_seeded p = seeded" "cv_tokens (ls_state ls') = cv_tokens st + pr_tokens p"
      "record_pass n (pr_tokens p) (with_rate sonar (ls_cost ls)) = Inr (ls_cost ls')"
      "set (dkeys (cv_conf (ls_state ls'))) = set (dkeys (cv_conf st)) \<union> (set (dkeys (pr_enriched p)) \<union> set (dkeys (pr_inferred p)))"
      "set (dkeys (cv_known (ls_state ls'))) = set (dkeys (cv_known st)) \<union> (set (dkeys (pr_enriched p)) \<union> set (dkeys (pr_inferred p)))"
    by (rule absorb_response_spec [OF _ a])
  have prod: "produced_fields [p] = set (dkeys seeded) \<union> (set (dkeys (pr_enriched p)) \<union> set (dkeys (pr_inferred p)))"
    unfolding produced_fields_def by (simp add: p(6) Un_commute del: set_map)
  show thesis
    by (rule that [of p sonar]) (use p(1-5,7,8) f m plan_of_mode in \<open>simp_all add: grown_def p(9,10) prod Un_assoc del: set_map\<close>)
qed

lemma with_rate_frame [simp]:
  "ct_tokens_used (with_rate c t) = ct_tokens_used t" "ct_max_tokens (with_rate c t) = ct_max_tokens t"
  "ct_tokens_per_pass (with_rate c t) = ct_tokens_per_pass t"
  by (simp_all add: with_rate_def split: option.split)

section \<open>The loop invariant\<close>

definition loop_inv :: "string set \<Rightarrow> int \<Rightarrow> int \<Rightarrow> loop_state \<Rightarrow> bool" where
  "loop_inv given limit n ls \<longleftrightarrow>
     agree (ls_state ls) (ls_tracker ls) \<and> cv_uncertainty (ls_state ls) = 1 \<and>
     map pr_number (cv_passes (ls_state ls)) = [1..n - 1] \<and> 1 \<le> n \<and>
     ct_tokens_per_pass (ls_cost ls) = map pr_tokens (cv_passes (ls_state ls)) \<and>
     cv_tokens (ls_state ls) = sum_list (map pr_tokens (cv_passes (ls_state ls))) \<and>
     ct_tokens_used (ls_cost ls) = cv_tokens (ls_state ls) \<and> ct_max_tokens (ls_cost ls) = limit \<and>
     set (dkeys (cv_conf (ls_state ls))) = produced_fields (cv_passes (ls_state ls)) \<and>
     set (dkeys (cv_known (ls_state ls))) = given \<union> produced_fields (cv_passes (ls_state ls)) \<and>
     (cv_passes (ls_state ls) \<noteq> [] \<longrightarrow> sum_list (map pr_tokens (butlast (cv_passes (ls_state ls)))) < limit)"

lemma loop_inv_length: "loop_inv given limit n ls \<Longrightarrow> int (length (cv_passes (ls_state ls))) = n - 1"
proof -
  assume i: "loop_inv given limit n ls"
  then have "length (map pr_number (cv_passes (ls_state ls))) = length [1..n - 1]" by (simp only: loop_inv_def)
  then show ?thesis using i by (simp add: loop_inv_def)
qed

lemma full_pass_inv:
  assumes "full_pass env n ls = Inr (mode, ls')" and i: "loop_inv given limit n ls" and c: "can_continue (ls_cost ls)"
  shows "loop_inv given limit (n + 1) ls' \<and> cv_reason (ls_state ls') = cv_reason (ls_state ls)"
proof -
  from i have a: "agree (ls_state ls) (ls_tracker ls)" by (simp add: loop_inv_def)
  obtain p sonar where p: "agree (ls_state ls') (ls_tracker ls')"
      "cv_uncertainty (ls_state ls') = cv_uncertainty (ls_state ls)" "cv_reason (ls_state ls') = cv_reason (ls_state ls)"
      "cv_passes (ls_state ls') = cv_passes (ls_state ls) @ [p]"
      "pr_number p = n" "cv_tokens (ls_state ls') = cv_tokens (ls_state ls) + pr_tokens p"
      "record_pass n (pr_tokens p) (with_rate sonar (ls_cost ls)) = Inr (ls_cost ls')"
      "set (dkeys (cv_conf (ls_state ls'))) = set (dkeys (cv_conf (ls_state ls))) \<union> produced_fields [p]"
      "set (dkeys (cv_known (ls_state ls'))) = set (dkeys (cv_known (ls_state ls))) \<union> produced_fields [p]"
    by (rule full_pass_spec [OF assms(1) a])
  have len: "n = int (length (ct_tokens_per_pass (with_rate sonar (ls_cost ls)))) + 1"
    using loop_inv_length [OF i] i by (simp add: loop_inv_def)
  have pos: "0 \<le> pr_tokens p" using p(7) by (simp add: record_pass_def split: if_splits)
  from record_pass_next [OF pos, of "with_rate sonar (ls_cost ls)"] p(7) len
  have cost: "ls_cost ls' = (with_rate sonar (ls_cost ls))\<lparr>ct_tokens_used := ct_tokens_used (ls_cost ls) + pr_tokens p,
      ct_tokens_per_pass := ct_tokens_per_pass (ls_cost ls) @ [pr_tokens p]\<rparr>" by simp
  have "[1..n] = [1..n - 1] @ [n]" using i by (simp add: loop_inv_def upto_rec2)
  then show ?thesis using i p cost c
    by (simp add: loop_inv_def can_continue_def produced_append Un_assoc del: set_map)
qed

lemma loop_inv_finish [simp]: "loop_inv given limit n (ls\<lparr>ls_state := finish r st\<rparr>) = loop_inv given limit n (ls\<lparr>ls_state := st\<rparr>)"
  by (simp add: loop_inv_def finish_def agree_def)

lemma state_update_same [simp]: "ls\<lparr>ls_state := ls_state ls\<rparr> = ls"
  by simp

text \<open>Why a pass may end the loop.\<close>

definition verdict :: "loop_env \<Rightarrow> int \<Rightarrow> loop_state \<Rightarrow> bool" where
  "verdict env n ls \<longleftrightarrow> cv_converged (ls_state ls) \<and>
     (cv_reason (ls_state ls) = ''deadline_exhausted'' \<or>
      cv_reason (ls_state ls) = ''budget_exhausted'' \<and> \<not> can_continue (ls_cost ls) \<or>
      (\<exists>mode. stop_reason env n mode (ls_tracker ls) = Some (cv_reason (ls_state ls))))"

lemma run_pass_inv:
  assumes "run_pass env n ls = Inr (stop, ls')" and i: "loop_inv given limit n ls"
  shows "loop_inv given limit (if early_stop env n ls = None then n + 1 else n) ls' \<and>
    (if stop then verdict env n ls' else cv_reason (ls_state ls') = cv_reason (ls_state ls)) \<and> (2 \<le> n \<longrightarrow> stop)"
proof (cases "early_stop env n ls")
  case (Some r)
  then have e: "stop" "ls' = ls\<lparr>ls_state := finish r (ls_state ls)\<rparr>" using run_pass_early [OF Some] assms(1) by simp_all
  have "r = ''deadline_exhausted'' \<or> r = ''budget_exhausted'' \<and> \<not> can_continue (ls_cost ls)"
    using Some unfolding early_stop_def by (metis option.inject option.simps(3))
  then have "verdict env n ls'" unfolding verdict_def by (auto simp: e finish_def)
  with e i Some show ?thesis by simp
next
  case None
  from assms(1) obtain mode ls1 where f: "full_pass env n ls = Inr (mode, ls1)" and c: "conclude env n (mode, ls1) = (stop, ls')"
    by (auto simp: run_pass_full [OF None] bind_res_Inr_iff)
  from full_pass_inv [OF f i early_stop_None [OF None]] have i1: "loop_inv given limit (n + 1) ls1"
      and same: "cv_reason (ls_state ls1) = cv_reason (ls_state ls)" by simp_all
  from i have a: "agree (ls_state ls) (ls_tracker ls)" by (simp add: loop_inv_def)
  have m: "mode = determine_mode n 1"
    by (rule full_pass_spec [OF f a]) (use i in \<open>simp add: loop_inv_def\<close>)
  have f2: "\<not> f_of_int 2 < (1 :: f64)" using f_of_int_mono [of 1 2] by simp
  show ?thesis
  proof (cases "stop_reason env n mode (ls_tracker ls1)")
    case (Some r)
    with c have e: "stop" "ls' = ls1\<lparr>ls_state := finish r (ls_state ls1)\<rparr>" by (simp_all add: conclude_def)
    have "verdict env n ls'" unfolding verdict_def e using Some by (auto simp: finish_def)
    with e i1 None show ?thesis by simp
  next
    case no: None
    then have "mode \<noteq> Verification" by (auto simp: stop_reason_def split: if_splits)
    with m have "\<not> 2 \<le> n" by (auto simp: determine_mode_def f2)
    with no c i1 None same show ?thesis by (simp add: conclude_def)
  qed
qed

text \<open>
  After at most two passes there is a verdict, however many are allowed: the second pass plans in
  verification mode, and a verification pass ends the loop.
\<close>

lemma run_passes_inv:
  assumes "run_passes env left n ls = Inr ls'" and "loop_inv given limit n ls" and "n + int (min left 1) \<le> 3"
  shows "\<exists>m. loop_inv given limit m ls' \<and> m \<le> 3 \<and>
    (cv_reason (ls_state ls') = cv_reason (ls_state ls) \<and> m = n + int left \<or> (\<exists>k. verdict env k ls'))"
  using assms
proof (induction left arbitrary: n ls)
  case 0
  then show ?case by (intro exI [of _ n]) simp
next
  case (Suc left)
  from Suc.prems(1) obtain stop ls1 where p: "run_pass env n ls = Inr (stop, ls1)"
    and r: "(if stop then Inr ls1 else run_passes env left (n + 1) ls1) = Inr ls'"
    by (auto simp: bind_res_Inr_iff)
  let ?m = "if early_stop env n ls = None then n + 1 else n"
  from run_pass_inv [OF p Suc.prems(2)] have q: "loop_inv given limit ?m ls1"
    "if stop then verdict env n ls1 else cv_reason (ls_state ls1) = cv_reason (ls_state ls)" "2 \<le> n \<longrightarrow> stop" by simp_all
  show ?case
  proof (cases stop)
    case True
    with q r Suc.prems(3) show ?thesis by (intro exI [of _ ?m]) auto
  next
    case False
    then have "early_stop env n ls = None" using p run_pass_early by (cases "early_stop env n ls") fastforce+
    with q have "loop_inv given limit (n + 1) ls1" by simp
    moreover have "run_passes env left (n + 1) ls1 = Inr ls'" "n \<le> 1" "cv_reason (ls_state ls1) = cv_reason (ls_state ls)"
      using False r q by auto
    moreover from this(2) have "n + 1 + int (min left 1) \<le> 3" by simp
    ultimately show ?thesis using Suc.IH [of "n + 1" ls1] by (simp add: add.assoc)
  qed
qed

lemma loop_inv_start:
  assumes "dict_ok ent" and "new_cost_tracker max_budget rate = Inr cost"
  shows "loop_inv (set (dkeys (cv_known (initial_state ent)))) max_budget 1
    \<lparr>ls_state = initial_state ent, ls_tracker = new_confidence_tracker th, ls_cost = cost\<rparr>"
proof -
  have "dict_ok (filter P ent)" for P using assms(1) by (induction ent) auto
  then show ?thesis using assms(2)
    by (auto simp: loop_inv_def agree_def initial_state_def new_cost_tracker_def produced_fields_def
        new_confidence_tracker_def tracked_confidence_def fun_eq_iff split: if_splits)
qed

lemma run_loop_inv:
  assumes "run_loop env max_budget = Inr ls" and "dict_ok (rq_entity (en_request env))"
  obtains m where "loop_inv (set (dkeys (cv_known (initial_state (rq_entity (en_request env)))))) max_budget m ls" "m \<le> 3"
    "cv_reason (ls_state ls) = [] \<and> m = 1 + int (nat (max_passes (en_config env))) \<or> (\<exists>k. verdict env k ls)"
proof -
  let ?ent = "rq_entity (en_request env)"
  from assms(1) obtain cost where c: "new_cost_tracker max_budget default_rate_per_1k = Inr cost"
    and r: "run_passes env (nat (max_passes (en_config env))) 1 \<lparr>ls_state = initial_state ?ent,
      ls_tracker = new_confidence_tracker (confidence_threshold (en_config env)), ls_cost = cost\<rparr> = Inr ls"
    by (auto simp: run_loop_def bind_res_Inr_iff lift_err_def map_sum_id_Inr)
  have "1 + int (min (nat (max_passes (en_config env))) 1) \<le> 3" by simp
  from run_passes_inv [OF r loop_inv_start [OF assms(2) c] this] show thesis
    by (elim exE conjE) (rule that, assumption+, simp add: initial_state_def)
qed

text \<open>A pass that is opened in time returns when the enricher does.\<close>

lemma record_pass_total: "1 \<le> n \<Longrightarrow> 0 \<le> tokens \<Longrightarrow> \<exists>t'. record_pass n tokens t = Inr t'"
  by (simp add: record_pass_def set_pass_def)

lemma absorb_response_total:
  assumes "1 \<le> n" and "0 \<le> rs_tokens rs"
  shows "\<exists>ls'. absorb_response env n st tr cost seeded plan sonar rs = Inr ls'"
proof -
  obtain st1 tr1 where m: "fold (merge_enriched n (rs_per_field rs) (rs_confidence rs)) (rs_fields rs) (st, tr) = (st1, tr1)"
    by (cases "fold (merge_enriched n (rs_per_field rs) (rs_confidence rs)) (rs_fields rs) (st, tr)")
  obtain c where "record_pass n (rs_tokens rs) cost = Inr c" using record_pass_total [OF assms] by blast
  then show ?thesis by (auto simp: absorb_response_def m Let_def split: prod.splits)
qed

definition request_ok :: "enrich_request \<Rightarrow> bool" where
  "request_ok rq =
     (case rq_field_thresholds rq of None \<Rightarrow> True
      | Some ths \<Rightarrow> (case rq_schema rq of Some (s # ss) \<Rightarrow> list_all (\<lambda>name. dmem name ths) (dkeys (s # ss)) | _ \<Rightarrow> False))"

definition reliable :: "loop_env \<Rightarrow> bool" where
  "reliable env \<longleftrightarrow>
     (case en_class env of None \<Rightarrow> True | Some c \<Rightarrow> \<not> isl (str_filters (dc_domain_filters c))) \<and> request_ok (en_request env) \<and>
     (\<forall>n rq cfg. \<exists>rs. en_enrich env n rq cfg = Inr rs \<and> 0 \<le> rs_tokens rs)"

lemma pass_sonar_total: "reliable env \<Longrightarrow> \<exists>cfg. pass_sonar (en_class env) plan st cost n = Inr cfg"
  by (cases "en_class env") (auto simp: reliable_def pass_sonar_def resolve_from_classification_def isl_def bind_res_def split: sum.splits)

lemma build_pass_request_total: "request_ok rq \<Longrightarrow> \<exists>rq'. build_pass_request rq plan st = Inr rq'"
  by (cases "rq_field_thresholds rq"; cases "rq_schema rq")
    (auto simp: request_ok_def build_pass_request_def Let_def split: list.splits)

lemma run_pass_total:
  assumes "reliable env" and "1 \<le> n"
  shows "\<exists>r. run_pass env n ls = Inr r"
proof (cases "early_stop env n ls")
  case (Some r)
  show ?thesis by (rule exI) (rule run_pass_early [OF Some])
next
  case None
  obtain st tr seeded where s: "seed_pass env n ls = (st, tr, seeded)" by (cases "seed_pass env n ls")
  let ?plan = "plan_of env n st tr (ls_cost ls)"
  obtain cfg where cfg: "pass_sonar (en_class env) ?plan st (ls_cost ls) n = Inr cfg" using pass_sonar_total [OF assms(1)] by blast
  obtain rq where rq: "build_pass_request (en_request env) ?plan st = Inr rq"
    using build_pass_request_total assms(1) unfolding reliable_def by blast
  obtain rs where rs: "en_enrich env n rq cfg = Inr rs" "0 \<le> rs_tokens rs" using assms(1) unfolding reliable_def by blast
  obtain ls' where "absorb_response env n st tr (with_rate cfg (ls_cost ls)) seeded ?plan cfg rs = Inr ls'"
    using absorb_response_total [OF assms(2) rs(2)] by blast
  then have "full_pass env n ls = Inr (pp_mode ?plan, ls')"
    by (simp add: full_pass_def s Let_def cfg lift_err_def rq rs)
  then have "run_pass env n ls = Inr (conclude env n (pp_mode ?plan, ls'))" by (simp add: run_pass_full [OF None])
  then show ?thesis by (rule exI)
qed

lemma run_passes_total: "reliable env \<Longrightarrow> 1 \<le> n \<Longrightarrow> \<exists>ls'. run_passes env left n ls = Inr ls'"
proof (induction left arbitrary: n ls)
  case (Suc left)
  obtain stop ls1 where "run_pass env n ls = Inr (stop, ls1)" using run_pass_total [OF Suc.prems] by fastforce
  then show ?case using Suc.IH [of "n + 1" ls1] Suc.prems by simp
qed simp

section \<open>Properties\<close>

text \<open>
  The loop returns. With a positive budget, an enricher that always answers with a non-negative
  token count, search sources that are texts, and consumer thresholds that come with a schema they
  cover, the loop ends with a state whatever number of passes is allowed, and not with an error.
\<close>

theorem loop_returns:
  assumes "reliable env" and "0 < max_budget"
  shows "\<exists>ls. run_loop env max_budget = Inr ls"
  using run_passes_total [OF assms(1), of 1] assms(2) by (simp add: run_loop_def new_cost_tracker_def lift_err_def)

definition sample_response :: pass_response where
  "sample_response = \<lparr>rs_fields = [(''city'', PStr ''Lyon'')], rs_confidence = 1, rs_tokens = 40,
     rs_variation_count = 2, rs_per_field = []\<rparr>"

definition sample_env :: loop_env where
  "sample_env =
     \<lparr>en_request = \<lparr>rq_entity = [(''name'', PStr ''Acme'')], rq_schema = Some [(''city'', ''string'')],
        rq_consensus_threshold = flt (65 / 100), rq_field_thresholds = None, rq_max_variations = 3\<rparr>,
      en_config = \<lparr>max_passes = 5, confidence_threshold = flt (17 / 20), min_improvement_delta = flt (5 / 100)\<rparr>,
      en_planner = dict_planner, en_rules = (\<lambda>_. None), en_graph = None, en_class = None, en_deadline = None,
      en_identity = None, en_now = (\<lambda>_. 0), en_channel = (\<lambda>_. new_channel 500), en_enrich = (\<lambda>_ _ _. Inr sample_response)\<rparr>"

lemma sample_reliable: "reliable sample_env" and sample_entity: "dict_ok (rq_entity (en_request sample_env))"
  by (simp_all add: reliable_def request_ok_def sample_env_def sample_response_def)

theorem loop_returns_witness: "\<exists>ls. run_loop sample_env 30000 = Inr ls"
  by (rule loop_returns [OF sample_reliable]) simp

lemma sample_runs: "\<exists>ls. run_loop sample_env 30000 = Inr ls"
  using run_passes_total [OF sample_reliable, of 1] by (simp add: run_loop_def new_cost_tracker_def lift_err_def)

text \<open>
  C8: at most two passes, whatever \<open>max_passes\<close> allows. The uncertainty score of the state starts at 1
  and nothing in the loop updates it, so the second pass is planned as a verification pass, and a
  verification pass ends the loop: a third or later pass is never run.
\<close>

theorem loop_at_most_two_passes:
  assumes "run_loop env max_budget = Inr ls" and "dict_ok (rq_entity (en_request env))"
  shows "lr_pass_count (assemble_response ls) \<le> 2 \<and> lr_uncertainty (assemble_response ls) = 1"
proof (rule run_loop_inv [OF assms])
  fix m assume i: "loop_inv (set (dkeys (cv_known (initial_state (rq_entity (en_request env)))))) max_budget m ls" "m \<le> 3"
  from loop_inv_length [OF i(1)] i show ?thesis by (simp add: assemble_response_def Let_def loop_inv_def)
qed

theorem loop_at_most_two_passes_witness:
  "\<exists>ls. run_loop sample_env 30000 = Inr ls \<and> lr_pass_count (assemble_response ls) \<le> 2"
  using sample_runs loop_at_most_two_passes [OF _ sample_entity] by blast

text \<open>
  C6: the budget of the loop. The tokens reported are the sum over the passes, the cost summary holds
  the passes' counts in order, and all passes but the last together stay below the budget: only the
  last pass may overrun it.
\<close>

theorem loop_budget:
  assumes "run_loop env max_budget = Inr ls" and "dict_ok (rq_entity (en_request env))"
  shows "\<exists>tokens. cs_tokens_per_pass (lr_cost (assemble_response ls)) = tokens \<and>
    length tokens = lr_pass_count (assemble_response ls) \<and> lr_tokens_used (assemble_response ls) = sum_list tokens \<and>
    sum_list (butlast tokens) < max_budget"
proof (rule run_loop_inv [OF assms])
  fix m assume i: "loop_inv (set (dkeys (cv_known (initial_state (rq_entity (en_request env)))))) max_budget m ls"
  have "0 < max_budget" using assms(1)
    by (auto simp: run_loop_def new_cost_tracker_def lift_err_def split: if_splits)
  with i show ?thesis
    by (cases "cv_passes (ls_state ls) = []")
      (simp_all add: assemble_response_def Let_def loop_inv_def to_summary_def map_butlast del: set_map)
qed

theorem loop_budget_witness:
  "\<exists>ls. run_loop sample_env 30000 = Inr ls \<and>
    (\<exists>tokens. lr_tokens_used (assemble_response ls) = sum_list tokens \<and> sum_list (butlast tokens) < 30000)"
  using sample_runs loop_budget [OF _ sample_entity] by blast

text \<open>
  C4: what the response contains. Its fields are exactly those some pass enriched, inferred or seeded
  from the graph, with the values of the final state; a field only the request's entity supplied is
  not echoed. Each of them has a confidence, and the tracker and the state hold the same one.
\<close>

theorem response_fields_exact:
  assumes "run_loop env max_budget = Inr ls" and "dict_ok (rq_entity (en_request env))"
  shows "dget (lr_fields (assemble_response ls)) f =
      (if f \<in> produced_fields (cv_passes (ls_state ls)) then dget (cv_known (ls_state ls)) f else None) \<and>
    (f \<in> set (dkeys (lr_fields (assemble_response ls)))) = (tracked_confidence (ls_tracker ls) f \<noteq> None) \<and>
    tracked_confidence (ls_tracker ls) f = dget (cv_conf (ls_state ls)) f"
proof (rule run_loop_inv [OF assms])
  let ?st = "ls_state ls" let ?p = "produced_fields (cv_passes ?st)"
  fix m assume i: "loop_inv (set (dkeys (cv_known (initial_state (rq_entity (en_request env)))))) max_budget m ls"
  then have a: "agree ?st (ls_tracker ls)" and c: "set (dkeys (cv_conf ?st)) = ?p"
    and k: "?p \<subseteq> set (dkeys (cv_known ?st))" by (simp_all add: loop_inv_def)
  have fields: "lr_fields (assemble_response ls) = filter (\<lambda>kv. fst kv \<in> ?p) (cv_known ?st)"
    by (simp add: assemble_response_def Let_def)
  have "dget (lr_fields (assemble_response ls)) f = (if f \<in> ?p then dget (cv_known ?st) f else None)"
    unfolding fields using a by (subst dget_filter) (auto simp: agree_def split: option.splits)
  moreover have "f \<in> set (dkeys (lr_fields (assemble_response ls))) \<longleftrightarrow> f \<in> ?p"
    unfolding fields using k by auto
  moreover have "tracked_confidence (ls_tracker ls) f = dget (cv_conf ?st) f" using a by (simp add: agree_def)
  moreover have "f \<in> ?p \<longleftrightarrow> dget (cv_conf ?st) f \<noteq> None" unfolding c [symmetric] dmem_iff [symmetric] by (simp add: dmem_def)
  ultimately show ?thesis by simp
qed

theorem response_fields_exact_witness:
  "\<exists>ls. run_loop sample_env 30000 = Inr ls \<and>
    tracked_confidence (ls_tracker ls) ''city'' = dget (cv_conf (ls_state ls)) ''city''"
  using sample_runs response_fields_exact [OF _ sample_entity] by blast

text \<open>
  C9: the reason the loop gives for having converged on the consumer's thresholds is true. When it
  says so, every requested field is in the response with a confidence that is not below its
  threshold.
\<close>

theorem threshold_reason_sound:
  assumes "run_loop env max_budget = Inr ls" and "dict_ok (rq_entity (en_request env))"
    and "cv_reason (ls_state ls) = ''requested_fields_meet_field_thresholds''" and "f \<in> set (requested_names (en_request env))"
  shows "\<exists>ths c. rq_field_thresholds (en_request env) = Some ths \<and> dget (cv_conf (ls_state ls)) f = Some c \<and>
    \<not> c < dget_or ths f (tr_threshold (ls_tracker ls))"
proof (rule run_loop_inv [OF assms(1,2)])
  fix m assume i: "loop_inv (set (dkeys (cv_known (initial_state (rq_entity (en_request env)))))) max_budget m ls"
    and "cv_reason (ls_state ls) = [] \<and> m = 1 + int (nat (max_passes (en_config env))) \<or> (\<exists>k. verdict env k ls)"
  then obtain k where "verdict env k ls" using assms(3) by auto
  then obtain mode where "stop_reason env k mode (ls_tracker ls) = Some ''requested_fields_meet_field_thresholds''"
    using assms(3) by (auto simp: verdict_def)
  then have conv: "pass_meets_convergence (en_request env) (ls_tracker ls)"
    and reason: "convergence_reason (en_request env) (en_config env) = ''requested_fields_meet_field_thresholds''"
    by (auto simp: stop_reason_def split: if_splits)
  from reason obtain ths where ths: "rq_field_thresholds (en_request env) = Some ths"
    by (auto simp: convergence_reason_def split: option.splits)
  from conv assms(4) have "case dget (tr_fields (ls_tracker ls)) f of None \<Rightarrow> False
      | Some s \<Rightarrow> \<not> fs_confidence s < dget_or ths f (tr_threshold (ls_tracker ls))"
    by (auto simp: pass_meets_convergence_def Let_def ths list_all_iff split: if_splits)
  then obtain s where "dget (tr_fields (ls_tracker ls)) f = Some s" "\<not> fs_confidence s < dget_or ths f (tr_threshold (ls_tracker ls))"
    by (auto split: option.splits)
  moreover from this(1) i have "dget (cv_conf (ls_state ls)) f = Some (fs_confidence s)"
    by (auto simp: loop_inv_def agree_def tracked_confidence_def dest!: fun_cong [of _ _ f])
  ultimately show ?thesis using ths by blast
qed

definition threshold_env :: loop_env where
  "threshold_env = sample_env\<lparr>en_request := (en_request sample_env)\<lparr>rq_field_thresholds := Some [(''city'', 1)]\<rparr>\<rparr>"

lemma threshold_run:
  "\<exists>ls. run_loop threshold_env 30000 = Inr ls \<and> cv_reason (ls_state ls) = ''requested_fields_meet_field_thresholds''"
proof -
  obtain cost where c: "new_cost_tracker 30000 default_rate_per_1k = Inr cost" and open_cost: "can_continue cost"
    by (simp add: new_cost_tracker_def can_continue_def)
  let ?ls = "\<lparr>ls_state = initial_state [(''name'', PStr ''Acme'')], ls_tracker = new_confidence_tracker (flt (17 / 20)), ls_cost = cost\<rparr>"
  have early: "early_stop threshold_env 1 ?ls = None"
    by (simp add: early_stop_def threshold_env_def sample_env_def open_cost)
  obtain cost' where rec: "record_pass 1 40 cost = Inr cost'" using record_pass_total [of 1 40 cost] by auto
  have "\<exists>mode ls'. full_pass threshold_env 1 ?ls = Inr (mode, ls') \<and> pass_meets_convergence (en_request threshold_env) (ls_tracker ls')"
    by (simp add: full_pass_def seed_pass_def threshold_env_def sample_env_def Let_def pass_sonar_def lift_err_def with_rate_def
        build_pass_request_def absorb_response_def sample_response_def merge_enriched_def bridge_run_def empty_bridge_result_def rec
        pass_meets_convergence_def requested_names_def update_field_def dget_or_def new_confidence_tracker_def dmem_def)
  then obtain mode ls' where f: "full_pass threshold_env 1 ?ls = Inr (mode, ls')"
    and m: "pass_meets_convergence (en_request threshold_env) (ls_tracker ls')" by blast
  have reason: "convergence_reason (en_request threshold_env) (en_config threshold_env) = ''requested_fields_meet_field_thresholds''"
    by (simp add: convergence_reason_def threshold_env_def)
  have "run_pass threshold_env 1 ?ls = Inr (True, ls'\<lparr>ls_state := finish ''requested_fields_meet_field_thresholds'' (ls_state ls')\<rparr>)"
    by (simp add: run_pass_full [OF early] f conclude_def stop_reason_def m reason)
  then have "run_passes threshold_env (Suc 4) 1 ?ls = Inr (ls'\<lparr>ls_state := finish ''requested_fields_meet_field_thresholds'' (ls_state ls')\<rparr>)"
    by (simp only: run_passes.simps bind_res_simps prod.case if_True)
  moreover have "run_loop threshold_env 30000 = run_passes threshold_env (Suc 4) 1 ?ls"
    by (simp add: run_loop_def c lift_err_def) (simp add: threshold_env_def sample_env_def eval_nat_numeral)
  ultimately show ?thesis by (simp add: finish_def)
qed

theorem threshold_reason_sound_witness:
  "\<exists>ls c. run_loop threshold_env 30000 = Inr ls \<and> dget (cv_conf (ls_state ls)) ''city'' = Some c \<and> \<not> c < 1"
proof -
  obtain ls where ls: "run_loop threshold_env 30000 = Inr ls"
    "cv_reason (ls_state ls) = ''requested_fields_meet_field_thresholds''" using threshold_run by blast
  have "dict_ok (rq_entity (en_request threshold_env))" "''city'' \<in> set (requested_names (en_request threshold_env))"
    by (simp_all add: threshold_env_def sample_env_def requested_names_def)
  from threshold_reason_sound [OF ls(1) this(1) ls(2) this(2)] ls(1) show ?thesis
    by (auto simp: threshold_env_def dget_or_def)
qed

section \<open>Graph targets\<close>

lemma apply_target_frame:
  assumes "apply_target n t (st, tr, seeded) = (st', tr', seeded')"
  shows "(dget (cv_known st) k = Some v \<and> dget (cv_conf st) k = None \<longrightarrow>
      dget (cv_known st') k = Some v \<and> dget (cv_conf st') k = None \<and> dget seeded' k = dget seeded k) \<and>
    (\<forall>c. dget (cv_conf st) k = Some c \<longrightarrow> dmem k (cv_known st) \<longrightarrow>
       (\<exists>c'. dget (cv_conf st') k = Some c' \<and> c \<le> c' \<and> dmem k (cv_known st'))) \<and>
    dmem (et_field t) (cv_known st') \<and>
    (case dget (cv_conf st') (et_field t) of None \<Rightarrow> True | Some c \<Rightarrow> et_confidence t \<le> c)"
proof (cases "dmem (et_field t) (cv_known st) \<and>
    (case dget (cv_conf st) (et_field t) of None \<Rightarrow> True | Some c \<Rightarrow> et_confidence t \<le> c)")
  case True
  with assms show ?thesis by (auto simp: apply_target_def Let_def)
next
  case False
  have "apply_target n t (st, tr, seeded) =
      ((store_field (et_field t) (et_value t) (et_confidence t) st)
         \<lparr>cv_inferred := dset (et_field t) (et_value t) (cv_inferred st)\<rparr>,
       update_field (et_field t) (et_value t) (et_confidence t) n graph_source tr, dset (et_field t) (et_value t) seeded)"
    by (simp only: apply_target_def Let_def prod.case False if_False)
  with assms have "st' = (store_field (et_field t) (et_value t) (et_confidence t) st)
         \<lparr>cv_inferred := dset (et_field t) (et_value t) (cv_inferred st)\<rparr>" "seeded' = dset (et_field t) (et_value t) seeded"
    by simp_all
  with False show ?thesis by (auto simp: dget_dset dmem_def split: option.splits)
qed

lemma targets_keep_entity:
  "fold (apply_target n) ts (st, tr, seeded) = (st', tr', seeded') \<Longrightarrow>
   dget (cv_known st) k = Some v \<Longrightarrow> dget (cv_conf st) k = None \<Longrightarrow>
   dget (cv_known st') k = Some v \<and> dget seeded' k = dget seeded k"
proof (induction ts arbitrary: st tr seeded)
  case (Cons t ts)
  obtain st1 tr1 seeded1 where s1: "apply_target n t (st, tr, seeded) = (st1, tr1, seeded1)"
    by (cases "apply_target n t (st, tr, seeded)")
  from apply_target_frame [OF s1, of k v] Cons.prems(2,3)
  have "dget (cv_known st1) k = Some v" "dget (cv_conf st1) k = None" "dget seeded1 k = dget seeded k" by simp_all
  with Cons.IH [of st1 tr1 seeded1] Cons.prems(1) s1 show ?case by simp
qed simp

lemma targets_only_raise:
  "fold (apply_target n) ts (st, tr, seeded) = (st', tr', seeded') \<Longrightarrow>
   dget (cv_conf st) k = Some c \<Longrightarrow> dmem k (cv_known st) \<Longrightarrow>
   \<exists>c'. dget (cv_conf st') k = Some c' \<and> c \<le> c'"
proof (induction ts arbitrary: st tr seeded c)
  case (Cons t ts)
  obtain st1 tr1 seeded1 where s1: "apply_target n t (st, tr, seeded) = (st1, tr1, seeded1)"
    by (cases "apply_target n t (st, tr, seeded)")
  from apply_target_frame [OF s1, of k] Cons.prems(2,3)
  obtain c1 where c1: "dget (cv_conf st1) k = Some c1" "c \<le> c1" "dmem k (cv_known st1)" by blast
  from Cons.IH [of st1 tr1 seeded1 c1] Cons.prems(1) s1 c1 obtain c' where "dget (cv_conf st') k = Some c'" "c1 \<le> c'" by auto
  with c1(2) show ?case by (meson order_trans)
qed simp

text \<open>
  Graph inference never replaces the record's own data. A field the request supplied has no
  confidence entry; whatever targets are applied, it keeps its value and is not reported as seeded.
\<close>

theorem graph_targets_keep_entity_values:
  assumes "apply_graph_targets targets st tr n = (st', tr', seeded)"
    and "dget (cv_known st) k = Some v" and "dget (cv_conf st) k = None"
  shows "dget (cv_known st') k = Some v \<and> \<not> dmem k seeded"
  using targets_keep_entity [OF assms(1) [unfolded apply_graph_targets_def] assms(2,3)] by (simp add: dmem_def)

definition sample_target :: "string \<Rightarrow> f64 \<Rightarrow> enrichment_target" where
  "sample_target name c = \<lparr>et_entity = ''e1'', et_tenant = ''t1'', et_field = name, et_value = PStr ''graph'',
     et_confidence = c, et_packet = ''p'', et_rule = ''r'', et_created = 0\<rparr>"

theorem graph_targets_keep_entity_values_witness:
  "\<exists>st' tr' seeded. apply_graph_targets [sample_target ''name'' 1] (initial_state [(''name'', PStr ''Acme'')])
      (new_confidence_tracker 1) 1 = (st', tr', seeded) \<and> dget (cv_known st') ''name'' = Some (PStr ''Acme'')"
proof -
  let ?r = "apply_graph_targets [sample_target ''name'' 1] (initial_state [(''name'', PStr ''Acme'')]) (new_confidence_tracker 1) 1"
  obtain st' tr' seeded where r: "?r = (st', tr', seeded)" by (cases ?r)
  have "dget (cv_known (initial_state [(''name'', PStr ''Acme'')])) ''name'' = Some (PStr ''Acme'')"
    "dget (cv_conf (initial_state [(''name'', PStr ''Acme'')])) ''name'' = None" by (simp_all add: initial_state_def)
  from graph_targets_keep_entity_values [OF r this] r show ?thesis by blast
qed

section \<open>Where the loop stops early or fails\<close>

lemma exhausted_deadline: "\<exists>d. default_attempt_timeout 0 d = None"
proof
  have "remaining_for_work 0 (start_deadline 0 0 0) = 0"
    by (simp add: remaining_for_work_def remaining_def start_deadline_def)
  then show "default_attempt_timeout 0 (start_deadline 0 0 0) = None"
    by (simp add: default_attempt_timeout_def attempt_timeout_def min_provider_attempt_seconds_def Let_def min_less_iff_disj
        f64_0_less_1)
qed

lemma no_confidence_all_missing: "map fg_name (identify_missing_fields nodes known []) = map fst known"
proof -
  have "(0 :: f64) < flt (7 / 10)" by (simp add: f64_eval)
  then show ?thesis
    by (induction known) (auto simp: identify_missing_fields_def List.map_filter_simps gap_of_def dget_or_def Let_def split: prod.splits)
qed

text \<open>
  An expired request deadline is a failure, not a result. When no attempt fits in the time left
  before the first pass, the loop ends without calling the enricher and without a pass, the response
  has no fields and carries the reason.
\<close>

theorem deadline_stops_first_pass:
  assumes "en_deadline env = Some d" and "default_attempt_timeout (en_now env 1) d = None"
    and "0 < max_budget" and "1 \<le> max_passes (en_config env)"
  shows "\<exists>ls. run_loop env max_budget = Inr ls \<and> lr_pass_count (assemble_response ls) = 0 \<and>
    lr_fields (assemble_response ls) = [] \<and> lr_failure_reason (assemble_response ls) = Some ''deadline_exhausted''"
proof -
  obtain cost where c: "new_cost_tracker max_budget default_rate_per_1k = Inr cost"
    using assms(3) by (simp add: new_cost_tracker_def)
  let ?ls = "\<lparr>ls_state = initial_state (rq_entity (en_request env)),
    ls_tracker = new_confidence_tracker (confidence_threshold (en_config env)), ls_cost = cost\<rparr>"
  obtain k where k: "nat (max_passes (en_config env)) = Suc k" using assms(4) by (cases "nat (max_passes (en_config env))") auto
  have "early_stop env 1 ?ls = Some ''deadline_exhausted''" using assms(1,2) by (simp add: early_stop_def)
  from run_pass_early [OF this]
  have "run_loop env max_budget = Inr (?ls\<lparr>ls_state := finish ''deadline_exhausted'' (ls_state ?ls)\<rparr>)"
    by (simp add: run_loop_def c lift_err_def k)
  then show ?thesis by (simp add: assemble_response_def Let_def finish_def initial_state_def produced_fields_def)
qed

theorem deadline_stops_first_pass_witness:
  "\<exists>d ls. run_loop (sample_env\<lparr>en_deadline := Some d\<rparr>) 30000 = Inr ls \<and>
     lr_failure_reason (assemble_response ls) = Some ''deadline_exhausted''"
proof -
  obtain d where d: "default_attempt_timeout 0 d = None" using exhausted_deadline by blast
  have "en_deadline (sample_env\<lparr>en_deadline := Some d\<rparr>) = Some d" by simp
  from deadline_stops_first_pass [OF this, of 30000] d show ?thesis by (auto simp: sample_env_def)
qed

text \<open>
  Consumer thresholds need a schema. If the request names thresholds but no schema, the first pass
  asks for the fields of the entity the plan lists; when one of them has no threshold the request of
  the pass is rejected and the whole loop fails with a \<open>ValueError\<close> before the enricher is called.
\<close>

theorem thresholds_without_schema_abort:
  assumes "rq_field_thresholds (en_request env) = Some ths" and "rq_schema (en_request env) = None"
    and "en_class env = None" and "en_identity env = None" and "en_deadline env = None"
    and "0 < max_budget" and "1 \<le> max_passes (en_config env)"
    and "(k, v) \<in> set (take 10 (cv_known (initial_state (rq_entity (en_request env)))))" and "\<not> dmem k ths"
  shows "run_loop env max_budget = Inl (Raised ValueError)"
proof -
  let ?st = "initial_state (rq_entity (en_request env))"
  let ?tr = "new_confidence_tracker (confidence_threshold (en_config env))"
  obtain cost where c: "new_cost_tracker max_budget default_rate_per_1k = Inr cost" and o: "can_continue cost"
    using assms(6) by (simp add: new_cost_tracker_def can_continue_def)
  let ?ls = "\<lparr>ls_state = ?st, ls_tracker = ?tr, ls_cost = cost\<rparr>"
  obtain j where j: "nat (max_passes (en_config env)) = Suc j" using assms(7) by (cases "nat (max_passes (en_config env))") auto
  have early: "early_stop env 1 ?ls = None" using assms(5) o by (simp add: early_stop_def)
  let ?plan = "plan_of env 1 ?st ?tr cost"
  have "map fg_name (identify_missing_fields (pl_nodes (en_planner env)) (cv_known ?st) []) = map fst (cv_known ?st)"
    by (rule no_confidence_all_missing)
  then have "pp_priority_fields ?plan = map fst (take 10 (cv_known ?st))"
    by (simp add: plan_of_def plan_pass_def Let_def determine_mode_def rank_fields_def initial_state_def
        get_all_confidences_def new_confidence_tracker_def take_map)
  with assms(8) have k: "k \<in> set (pp_priority_fields ?plan)" by force
  then have "build_pass_request (en_request env) ?plan ?st = Inl ValueError"
    using assms(1,2,9) by (auto simp: build_pass_request_def Let_def list_all_iff)
  then have "full_pass env 1 ?ls = Inl (Raised ValueError)"
    using assms(3,4) by (simp add: full_pass_def seed_pass_def Let_def pass_sonar_def lift_err_def)
  then show ?thesis by (simp add: run_loop_def c lift_err_def j run_pass_full [OF early])
qed

theorem thresholds_without_schema_abort_witness:
  "run_loop (sample_env\<lparr>en_request := (en_request sample_env)\<lparr>rq_schema := None,
     rq_field_thresholds := Some [(''city'', 1)]\<rparr>\<rparr>) 30000 = Inl (Raised ValueError)"
  by (rule thresholds_without_schema_abort [of _ "[(''city'', 1)]" _ "''name''" "PStr ''Acme''"])
    (simp_all add: sample_env_def initial_state_def dmem_def)

text \<open>
  The classification cache confuses specifications. Two domain specifications with the same
  domain name and the same number of nodes have the same key, so the second gets the first one's
  classification, whatever its fields are; the key counts nodes although its comment says fields.
\<close>

theorem classification_cache_conflates:
  assumes "get_or_classify_domain h spec1 [] = Inr (c, cache)"
    and "domain_name spec1 = domain_name spec2" and "node_count spec1 = node_count spec2"
  shows "get_or_classify_domain h spec2 cache = Inr (c, cache)"
proof -
  obtain key where key: "cache_key h spec1 = Inr key" and "auto_classify_domain spec1 = Inr c" "cache = [(key, c)]"
    using assms(1) by (auto simp: get_or_classify_domain_def bind_res_Inr_iff)
  moreover have "cache_key h spec2 = Inr key" using key assms(2,3) by (simp add: cache_key_def)
  ultimately show ?thesis by (simp add: get_or_classify_domain_def)
qed

theorem classification_cache_conflates_witness:
  "\<exists>c cache. get_or_classify_domain id [(''domain'', PStr ''x''), (''ontology'', PDict [(''nodes'', PDict [(''A'', PDict [])])])] [] = Inr (c, cache) \<and>
     get_or_classify_domain id [(''domain'', PStr ''x''), (''ontology'', PDict [(''nodes'', PDict [(''B'', PDict [(''properties'',
       PDict [(''city'', PDict [])])])])])] cache = Inr (c, cache)"
proof -
  obtain c cache where c: "get_or_classify_domain id
      [(''domain'', PStr ''x''), (''ontology'', PDict [(''nodes'', PDict [(''A'', PDict [])])])] [] = Inr (c, cache)"
  proof -
    have "\<not> isl (get_or_classify_domain id
      [(''domain'', PStr ''x''), (''ontology'', PDict [(''nodes'', PDict [(''A'', PDict [])])])] [])" by code_simp
    then show thesis
      by (cases "get_or_classify_domain id
        [(''domain'', PStr ''x''), (''ontology'', PDict [(''nodes'', PDict [(''A'', PDict [])])])] []") (auto intro: that)
  qed
  have "domain_name [(''domain'', PStr ''x''), (''ontology'', PDict [(''nodes'', PDict [(''A'', PDict [])])])] =
      domain_name [(''domain'', PStr ''x''), (''ontology'', PDict [(''nodes'', PDict [(''B'', PDict [(''properties'',
       PDict [(''city'', PDict [])])])])])]"
    "node_count [(''domain'', PStr ''x''), (''ontology'', PDict [(''nodes'', PDict [(''A'', PDict [])])])] =
      node_count [(''domain'', PStr ''x''), (''ontology'', PDict [(''nodes'', PDict [(''B'', PDict [(''properties'',
       PDict [(''city'', PDict [])])])])])]" by code_simp+
  from classification_cache_conflates [OF c this] c show ?thesis by blast
qed

end
