(* ===== verification/ProviderClient.thy ===== *)
theory ProviderClient
  imports RequestDeadline CircuitBreaker
begin

text \<open>
  \<open>app/services/perplexity_client.py\<close>: one provider call with its retries, inside the shared
  request deadline, and the circuit breaker in front of it. The transport (the vendor's client) is
  the parameter \<open>prov\<close>: what the attempt of a given number and timeout ends with. The clock is the
  sequence \<open>clk\<close> of the readings the code takes; a trace records the readings taken, the timeouts of
  the attempts with the reading they were computed from, and the sleeps. The capture of exchanges to
  a directory and the latency are not modelled.
\<close>

record sonar_response =
  sr_data :: pyval
  sr_tokens :: int

text \<open>A completed call with its text and, where the text is JSON, the value read from it.\<close>

datatype completion = Completed pyval "pyval option" int | StatusError int | OtherError

datatype call_error = AttemptSkipped | ProviderFailed int | CallFailed | CircuitOpen

record call_trace =
  tc_readings :: nat
  tc_timeouts :: "(nat \<times> f64) list"
  tc_sleeps :: "f64 list"

definition no_trace :: call_trace where
  "no_trace = \<lparr>tc_readings = 0, tc_timeouts = [], tc_sleeps = []\<rparr>"

definition retry_status :: "int set" where
  "retry_status = {429, 500, 502, 503}"

definition max_retries :: nat where
  "max_retries = 3"

definition parse_completion :: "pyval \<Rightarrow> pyval option \<Rightarrow> int \<Rightarrow> sonar_response" where
  "parse_completion content json tokens =
     \<lparr>sr_data = (case json of Some v \<Rightarrow> v | None \<Rightarrow> PDict [(''_raw'', content)]), sr_tokens = tokens\<rparr>"

definition sleep_within_deadline :: "(nat \<Rightarrow> f64) \<Rightarrow> deadline option \<Rightarrow> f64 \<Rightarrow> call_trace \<Rightarrow> bool \<times> call_trace" where
  "sleep_within_deadline clk dl backoff tr =
     (case dl of None \<Rightarrow> (True, tr\<lparr>tc_sleeps := tc_sleeps tr @ [backoff]\<rparr>)
      | Some d \<Rightarrow>
          (let usable = remaining_for_work (clk (tc_readings tr)) d - min_provider_attempt_seconds in
           if usable \<le> 0 then (False, tr\<lparr>tc_readings := tc_readings tr + 1\<rparr>)
           else (\<not> expired (clk (tc_readings tr + 1)) d,
                 tr\<lparr>tc_readings := tc_readings tr + 2, tc_sleeps := tc_sleeps tr @ [min backoff usable]\<rparr>)))"

fun sync_attempts ::
    "(nat \<Rightarrow> f64 \<Rightarrow> completion) \<Rightarrow> (nat \<Rightarrow> f64) \<Rightarrow> deadline option \<Rightarrow> f64 \<Rightarrow> nat \<Rightarrow> nat \<Rightarrow> f64 \<Rightarrow> call_trace \<Rightarrow>
     (call_error + sonar_response) \<times> call_trace" where
  "sync_attempts prov clk dl fallback 0 k backoff tr = (Inl CallFailed, tr)"
| "sync_attempts prov clk dl fallback (Suc left) k backoff tr =
     (let r = tc_readings tr; tr1 = (if dl = None then tr else tr\<lparr>tc_readings := r + 1\<rparr>) in
      case provider_attempt_timeout (clk r) dl fallback of
        None \<Rightarrow> (Inl AttemptSkipped, tr1)
      | Some t \<Rightarrow>
          (let tr2 = tr1\<lparr>tc_timeouts := tc_timeouts tr1 @ [(r, t)]\<rparr>;
               retry = (\<lambda>e. let (go, tr3) = sleep_within_deadline clk dl backoff tr2 in
                  if go then sync_attempts prov clk dl fallback left (Suc k) (backoff * f_of_int 2) tr3 else (Inl e, tr3))
           in case prov k t of
                Completed content json tokens \<Rightarrow> (Inr (parse_completion content json tokens), tr2)
              | StatusError s \<Rightarrow>
                  if s \<in> retry_status \<and> k < max_retries - 1 then retry (ProviderFailed s) else (Inl (ProviderFailed s), tr2)
              | OtherError \<Rightarrow> if k < max_retries - 1 then retry CallFailed else (Inl CallFailed, tr2)))"

definition sync_call ::
    "(nat \<Rightarrow> f64 \<Rightarrow> completion) \<Rightarrow> (nat \<Rightarrow> f64) \<Rightarrow> deadline option \<Rightarrow> f64 \<Rightarrow> (call_error + sonar_response) \<times> call_trace" where
  "sync_call prov clk dl timeout = sync_attempts prov clk dl timeout max_retries 0 1 no_trace"

definition query_perplexity ::
    "(nat \<Rightarrow> f64 \<Rightarrow> completion) \<Rightarrow> (nat \<Rightarrow> f64) \<Rightarrow> deadline option \<Rightarrow> f64 \<Rightarrow> f64 \<Rightarrow> breaker option \<Rightarrow>
     ((call_error + sonar_response) \<times> call_trace) \<times> breaker option" where
  "query_perplexity prov clk dl timeout now br =
     (case br of None \<Rightarrow> (sync_call prov clk dl timeout, None)
      | Some b \<Rightarrow>
          (let (ok, b') = allow now b in
           if ok then (sync_call prov clk dl timeout, Some b') else ((Inl CircuitOpen, no_trace), Some b')))"

section \<open>Retries\<close>

text \<open>What every attempt and sleep of a trace satisfies.\<close>

definition attempt_ok :: "(nat \<Rightarrow> f64) \<Rightarrow> deadline option \<Rightarrow> nat \<times> f64 \<Rightarrow> bool" where
  "attempt_ok clk dl rt \<longleftrightarrow> 1 \<le> snd rt \<and>
     (case dl of None \<Rightarrow> True | Some d \<Rightarrow> snd rt \<le> f_of_int 20 \<and> snd rt \<le> remaining_for_work (clk (fst rt)) d)"

lemma timeout_attempt_ok:
  "provider_attempt_timeout (clk r) dl fallback = Some t \<Longrightarrow> attempt_ok clk dl (r, t)"
  using attempt_timeout_Some by (auto simp: provider_attempt_timeout_def attempt_ok_def min_provider_attempt_seconds_def split: option.splits)

lemma sleep_frame:
  "sleep_within_deadline clk dl backoff tr = (go, tr') \<Longrightarrow>
   tc_timeouts tr' = tc_timeouts tr \<and>
   (tc_sleeps tr' = tc_sleeps tr \<and> \<not> go \<or> (\<exists>s. s \<le> backoff \<and> tc_sleeps tr' = tc_sleeps tr @ [s]))"
  by (auto simp: sleep_within_deadline_def Let_def split: option.splits if_splits)

lemma backoff_double: "(1 :: f64) * f_of_int 2 = f_of_int 2" and backoff_1_le_2: "(1 :: f64) \<le> f_of_int 2"
  using f_of_int_mono [of 1 2] by simp_all

text \<open>The attempt with number \<open>k\<close> is the \<open>(k + 1)\<close>-th, and each retry has slept once.\<close>

definition call_inv :: "(nat \<Rightarrow> f64) \<Rightarrow> deadline option \<Rightarrow> nat \<Rightarrow> f64 \<Rightarrow> call_trace \<Rightarrow> bool" where
  "call_inv clk dl k backoff tr \<longleftrightarrow> list_all (attempt_ok clk dl) (tc_timeouts tr) \<and> length (tc_timeouts tr) = k \<and>
     length (tc_sleeps tr) = k \<and> (\<forall>s \<in> set (tc_sleeps tr). s \<le> f_of_int 2) \<and>
     (k = 0 \<longrightarrow> backoff = 1) \<and> (k = 1 \<longrightarrow> backoff = f_of_int 2)"

definition call_ok :: "(nat \<Rightarrow> f64 \<Rightarrow> completion) \<Rightarrow> (nat \<Rightarrow> f64) \<Rightarrow> deadline option \<Rightarrow> call_error + sonar_response \<Rightarrow> call_trace \<Rightarrow> bool" where
  "call_ok prov clk dl res tr \<longleftrightarrow> list_all (attempt_ok clk dl) (tc_timeouts tr) \<and> length (tc_timeouts tr) \<le> 3 \<and>
     length (tc_sleeps tr) \<le> 2 \<and> (\<forall>s \<in> set (tc_sleeps tr). s \<le> f_of_int 2) \<and>
     (\<forall>sr. res = Inr sr \<longrightarrow> (\<exists>content json tokens. tc_timeouts tr \<noteq> [] \<and>
        prov (length (tc_timeouts tr) - 1) (snd (last (tc_timeouts tr))) = Completed content json tokens \<and>
        sr = parse_completion content json tokens))"

lemma sleep_inv:
  assumes "sleep_within_deadline clk dl backoff tr = (True, tr')" and "k < 2"
    and "call_inv clk dl k backoff (tr\<lparr>tc_timeouts := butlast (tc_timeouts tr)\<rparr>)"
    and "tc_timeouts tr \<noteq> []" and "attempt_ok clk dl (last (tc_timeouts tr))"
  shows "call_inv clk dl (Suc k) (backoff * f_of_int 2) tr'"
proof -
  obtain s where s: "s \<le> backoff" "tc_sleeps tr' = tc_sleeps tr @ [s]" and t: "tc_timeouts tr' = tc_timeouts tr"
    using sleep_frame [OF assms(1)] by auto
  have ts: "tc_timeouts tr = butlast (tc_timeouts tr) @ [last (tc_timeouts tr)]" using assms(4) by simp
  have "list_all (attempt_ok clk dl) (butlast (tc_timeouts tr) @ [last (tc_timeouts tr)])"
    using assms(3,5) by (simp add: call_inv_def)
  with ts have "list_all (attempt_ok clk dl) (tc_timeouts tr)" by simp
  moreover have "length (tc_timeouts tr) = Suc k" using assms(3,4) by (simp add: call_inv_def) (metis Suc_pred length_greater_0_conv)
  moreover have "backoff \<le> f_of_int 2" using assms(2,3) backoff_1_le_2 by (auto simp: call_inv_def less_2_cases_iff)
  ultimately show ?thesis using assms(2,3) s t backoff_double
    by (auto simp: call_inv_def)
qed

lemma sync_attempts_ok:
  assumes "sync_attempts prov clk dl fallback left k backoff tr = (res, tr')" and "call_inv clk dl k backoff tr" and "left + k = 3" and "0 < left"
  shows "call_ok prov clk dl res tr'"
  using assms
proof (induction left arbitrary: k backoff tr)
  case (Suc left)
  let ?r = "tc_readings tr"
  let ?tr1 = "if dl = None then tr else tr\<lparr>tc_readings := ?r + 1\<rparr>"
  have tr1: "tc_timeouts ?tr1 = tc_timeouts tr" "tc_sleeps ?tr1 = tc_sleeps tr" by simp_all
  show ?case
  proof (cases "provider_attempt_timeout (clk ?r) dl fallback")
    case None
    then have "res = Inl AttemptSkipped" "tr' = ?tr1" using Suc.prems(1) by (auto simp: Let_def)
    with tr1 Suc.prems(2,3) show ?thesis by (simp add: call_ok_def call_inv_def)
  next
    case (Some t)
    let ?tr2 = "?tr1\<lparr>tc_timeouts := tc_timeouts ?tr1 @ [(?r, t)]\<rparr>"
    from Some have a: "attempt_ok clk dl (?r, t)" by (rule timeout_attempt_ok)
    have stop: "call_ok prov clk dl res ?tr2"
      if "\<And>sr. res = Inr sr \<Longrightarrow> \<exists>content json tokens. prov k t = Completed content json tokens \<and> sr = parse_completion content json tokens"
      using that Suc.prems(2,3) a tr1 by (simp add: call_ok_def call_inv_def)
    define retry where "retry e = (let (go, tr3) = sleep_within_deadline clk dl backoff ?tr2 in
        if go then sync_attempts prov clk dl fallback left (Suc k) (backoff * f_of_int 2) tr3 else (Inl e :: call_error + sonar_response, tr3))" for e
    have again: "call_ok prov clk dl res tr'" if "retry e = (res, tr')" and k: "k < 2" for e
    proof -
      obtain go tr3 where w: "sleep_within_deadline clk dl backoff ?tr2 = (go, tr3)"
        by (cases "sleep_within_deadline clk dl backoff ?tr2")
      show ?thesis
      proof (cases go)
        case True
        from w True have "sleep_within_deadline clk dl backoff ?tr2 = (True, tr3)" by simp
        then have "call_inv clk dl (Suc k) (backoff * f_of_int 2) tr3"
          by (rule sleep_inv [OF _ k]) (use Suc.prems(2) a tr1 in \<open>simp_all add: call_inv_def\<close>)
        moreover from that(1) w True have "sync_attempts prov clk dl fallback left (Suc k) (backoff * f_of_int 2) tr3 = (res, tr')"
          by (simp add: retry_def)
        ultimately show ?thesis using Suc.IH Suc.prems(3) k by simp
      next
        case False
        with that(1) w have "res = Inl e" "tr' = tr3" by (simp_all add: retry_def)
        with sleep_frame [OF w] False Suc.prems(2,3) a tr1 k backoff_1_le_2 show ?thesis
          by (auto simp: call_ok_def call_inv_def less_2_cases_iff intro: order_trans)
      qed
    qed
    have eq: "(case prov k t of Completed content json tokens \<Rightarrow> (Inr (parse_completion content json tokens), ?tr2)
        | StatusError s \<Rightarrow> if s \<in> retry_status \<and> k < max_retries - 1 then retry (ProviderFailed s) else (Inl (ProviderFailed s), ?tr2)
        | OtherError \<Rightarrow> if k < max_retries - 1 then retry CallFailed else (Inl CallFailed, ?tr2)) = (res, tr')"
      using Suc.prems(1) Some by (simp only: sync_attempts.simps Let_def option.case retry_def)
    show ?thesis
      using eq stop again by (cases "prov k t") (auto simp: max_retries_def split: if_splits)
  qed
qed simp

section \<open>Properties\<close>

text \<open>
  C10: a provider call is bounded. Whatever the provider does it makes at most three attempts, each
  with a timeout of at least one second that fits in what the request deadline leaves, and sleeps at
  most twice, at most two seconds each; an answer is the parsed completion of its last attempt.
\<close>

theorem provider_call_bounded:
  assumes "sync_call prov clk dl fallback = (res, tr)"
  shows "call_ok prov clk dl res tr"
  by (rule sync_attempts_ok [of prov clk dl fallback max_retries 0 1 no_trace])
    (use assms in \<open>simp_all add: sync_call_def call_inv_def no_trace_def max_retries_def\<close>)

theorem provider_call_bounded_witness:
  "\<exists>res tr. sync_call (\<lambda>k t. if k = 0 then StatusError 503 else Completed (PStr []) (Some PNone) 7) (\<lambda>n. 0) None (f_of_int 60) = (res, tr) \<and>
     length (tc_timeouts tr) \<le> 3"
proof -
  obtain res tr where r: "sync_call (\<lambda>k t. if k = 0 then StatusError 503 else Completed (PStr []) (Some PNone) 7) (\<lambda>n. 0) None (f_of_int 60) = (res, tr)"
    by (cases "sync_call (\<lambda>k t. if k = 0 then StatusError 503 else Completed (PStr []) (Some PNone) 7) (\<lambda>n. 0) None (f_of_int 60)")
  from provider_call_bounded [OF r] r show ?thesis by (auto simp: call_ok_def)
qed

text \<open>A status outside the retryable ones is final, a retryable one is tried again.\<close>

lemma fatal_status:
  "prov 0 t = StatusError s \<Longrightarrow> s \<notin> retry_status \<Longrightarrow> provider_attempt_timeout (clk 0) dl fallback = Some t \<Longrightarrow>
   fst (sync_call prov clk dl fallback) = Inl (ProviderFailed s)"
  by (simp add: sync_call_def max_retries_def no_trace_def numeral_3_eq_3 Let_def)

text \<open>
  The calls of one worker share a breaker: a sequence of provider calls, each with its own transport,
  clock and deadline.
\<close>

record provider_use =
  pu_prov :: "nat \<Rightarrow> f64 \<Rightarrow> completion"
  pu_clock :: "nat \<Rightarrow> f64"
  pu_deadline :: "deadline option"
  pu_timeout :: f64
  pu_now :: f64

definition use_provider :: "provider_use \<Rightarrow> breaker option \<Rightarrow> ((call_error + sonar_response) \<times> call_trace) \<times> breaker option" where
  "use_provider u br = query_perplexity (pu_prov u) (pu_clock u) (pu_deadline u) (pu_timeout u) (pu_now u) br"

fun use_all :: "provider_use list \<Rightarrow> breaker option \<Rightarrow> (call_error + sonar_response) list \<times> breaker option" where
  "use_all [] br = ([], br)"
| "use_all (u # us) br =
     (let (r, br1) = use_provider u br; (rs, br2) = use_all us br1 in (fst r # rs, br2))"

text \<open>
  The circuit breaker in front of the provider never opens. Nothing on the call path reports a
  failure or a success to it, so after any number of calls, all of them failing if need be, the
  breaker is as new and every call is attempted.
\<close>

theorem provider_breaker_never_opens:
  "use_all us (Some (breaker_init thr cool)) =
     (map (\<lambda>u. fst (sync_call (pu_prov u) (pu_clock u) (pu_deadline u) (pu_timeout u))) us, Some (breaker_init thr cool))"
proof (induction us)
  case (Cons u us)
  have "use_provider u (Some (breaker_init thr cool)) =
      (sync_call (pu_prov u) (pu_clock u) (pu_deadline u) (pu_timeout u), Some (breaker_init thr cool))"
    by (simp add: use_provider_def query_perplexity_def allow_def breaker_init_def)
  with Cons.IH show ?case by (simp add: Let_def)
qed simp

end
