(* ===== verification/EnrichPipeline.thy ===== *)
theory EnrichPipeline
  imports ProviderClient ConsensusEngine Uncertainty ValidationEngine ConvergenceLoop
begin

text \<open>
  \<open>app/engines/enrichment_orchestrator.py\<close>: the single-pass enricher the convergence loop calls. The
  provider calls of one request are the parameter \<open>calls\<close> (variation number to outcome, an error or a
  reply; the deterministic source is one instance, \<open>ProviderClient\<close> another). Resolving knowledge
  fragments and building the prompt are the parameter \<open>prepare\<close>, which may raise; the texts they
  produce do not reach the decisions modelled here. The idempotency cache is a map from keys to
  responses (the JSON it holds reads back as it was written). Timing and the knowledge-base audit
  fields of the response are not modelled.
\<close>

section \<open>Replies\<close>

definition response_metadata :: "string list" where
  "response_metadata = [''confidence'', ''reasoning'', ''sources'', ''citations'', ''explanation'']"

definition has_non_metadata_field :: "fields \<Rightarrow> bool" where
  "has_non_metadata_field normed = list_ex (\<lambda>kv. fst kv \<notin> set response_metadata \<and> \<not> is_blank (snd kv)) normed"

text \<open>\<open>float(normed.get("confidence") or 0.0)\<close>, \<open>None\<close> where it raises.\<close>

definition stated_confidence :: "fields \<Rightarrow> f64 option" where
  "stated_confidence normed =
     (let c = dget_or normed ''confidence'' PNone in
      if truthy c then (case py_float c of Inr x \<Rightarrow> Some x | Inl _ \<Rightarrow> None) else Some 0)"

definition field_sufficient :: "fields \<Rightarrow> f64 \<Rightarrow> f64 \<Rightarrow> (string, f64) dict option \<Rightarrow> string \<Rightarrow> bool" where
  "field_sufficient normed confidence threshold ths name \<longleftrightarrow>
     name = ''confidence'' \<or>
     \<not> is_blank (dget_or normed name PNone) \<and>
     (case ths of
        Some d \<Rightarrow> (case dget d name of None \<Rightarrow> False | Some required \<Rightarrow> \<not> confidence < required)
      | None \<Rightarrow> \<not> confidence < threshold)"

definition reply_is_sufficient ::
    "call_error + sonar_response \<Rightarrow> (string, string) dict option \<Rightarrow> f64 \<Rightarrow> (string, f64) dict option \<Rightarrow> bool" where
  "reply_is_sufficient result target_schema threshold ths =
     (case result of Inl _ \<Rightarrow> False
      | Inr sr \<Rightarrow>
          (case validate_response (sr_data sr) target_schema of None \<Rightarrow> False
           | Some normed \<Rightarrow>
               (case stated_confidence normed of None \<Rightarrow> False
                | Some confidence \<Rightarrow>
                    (case target_schema of
                       Some (s # ss) \<Rightarrow> list_all (field_sufficient normed confidence threshold ths) (dkeys (s # ss))
                     | _ \<Rightarrow> if (case ths of Some (t # ts) \<Rightarrow> True | _ \<Rightarrow> False) then False
                            else threshold \<le> confidence \<and> has_non_metadata_field normed))))"

text \<open>The first call alone; the others, when it does not suffice, together.\<close>

definition collect_variations ::
    "(nat \<Rightarrow> call_error + sonar_response) \<Rightarrow> int \<Rightarrow> (string, string) dict option \<Rightarrow> f64 \<Rightarrow> (string, f64) dict option \<Rightarrow>
     (call_error + sonar_response) list" where
  "collect_variations calls n target_schema threshold ths =
     (if n \<le> 0 then []
      else if reply_is_sufficient (calls 0) target_schema threshold ths then [calls 0]
      else calls 0 # map calls [1..<nat n])"

record variation_summary =
  vs_valid :: "fields list"
  vs_raw :: "pyval list"
  vs_errors :: nat
  vs_tokens :: int

definition process_result ::
    "(string, string) dict option \<Rightarrow> call_error + sonar_response \<Rightarrow> variation_summary \<Rightarrow> variation_summary" where
  "process_result target_schema result s =
     (case result of
        Inl _ \<Rightarrow> s\<lparr>vs_errors := vs_errors s + 1\<rparr>
      | Inr sr \<Rightarrow>
          (let s1 = s\<lparr>vs_tokens := vs_tokens s + sr_tokens sr, vs_raw := vs_raw s @ [sr_data sr]\<rparr> in
           case validate_response (sr_data sr) target_schema of
             Some normed \<Rightarrow> s1\<lparr>vs_valid := vs_valid s1 @ [normed]\<rparr>
           | None \<Rightarrow> s1\<lparr>vs_errors := vs_errors s1 + 1\<rparr>))"

definition process_variation_results ::
    "(call_error + sonar_response) list \<Rightarrow> (string, string) dict option \<Rightarrow> variation_summary" where
  "process_variation_results results target_schema =
     fold (process_result target_schema) results \<lparr>vs_valid = [], vs_raw = [], vs_errors = 0, vs_tokens = 0\<rparr>"

section \<open>The pipeline\<close>

datatype pipeline_failure =
    DeadlineBeforeCall
  | NoValidResponses nat
  | NothingAboveThreshold
  | PrepareFailed string
  | Fatal pyerr

record enrich_response =
  er_fields :: fields
  er_confidence :: f64
  er_variation_count :: int
  er_threshold :: f64
  er_tokens :: int
  er_per_field :: "(string, f64) dict option"
  er_completed :: bool
  er_failure :: "pipeline_failure option"

definition failed_response :: "pipeline_failure \<Rightarrow> enrich_response" where
  "failed_response reason =
     \<lparr>er_fields = [], er_confidence = 0, er_variation_count = 0, er_threshold = 0, er_tokens = 0,
      er_per_field = None, er_completed = False, er_failure = Some reason\<rparr>"

definition skipped_response :: enrich_response where
  "skipped_response =
     \<lparr>er_fields = [], er_confidence = 0, er_variation_count = 0, er_threshold = 0, er_tokens = 0,
      er_per_field = None, er_completed = True, er_failure = None\<rparr>"

record pipeline_env =
  pe_prepare :: "enrich_request \<Rightarrow> sonar_config option \<Rightarrow> string option"
  pe_calls :: "nat \<Rightarrow> call_error + sonar_response"
  pe_now :: f64
  pe_deadline :: "deadline option"
  pe_default_timeout :: f64
  pe_order :: "string list \<Rightarrow> string list"

definition variation_budget :: "enrich_request \<Rightarrow> sonar_config option \<Rightarrow> int" where
  "variation_budget rq cfg =
     (let uncertainty = compute_uncertainty (rq_entity rq) (rq_schema rq) (flt (5 / 10)) (rq_max_variations rq) in
      case cfg of
        Some c \<Rightarrow> if 0 < sc_variations c then sc_variations c else min uncertainty (rq_max_variations rq)
      | None \<Rightarrow> min uncertainty (rq_max_variations rq))"

definition filtered_replies :: "enrich_request \<Rightarrow> fields list \<Rightarrow> fields list" where
  "filtered_replies rq valid =
     (case rq_field_thresholds rq of Some (t # ts) \<Rightarrow> apply_field_confidence_thresholds valid (t # ts) | _ \<Rightarrow> valid)"

definition run_variations :: "pipeline_env \<Rightarrow> enrich_request \<Rightarrow> sonar_config option \<Rightarrow> enrich_response" where
  "run_variations pe rq cfg =
     (let results = collect_variations (pe_calls pe) (variation_budget rq cfg) (rq_schema rq)
                      (rq_consensus_threshold rq) (rq_field_thresholds rq);
          made = int (length results);
          s = process_variation_results results (rq_schema rq)
      in if vs_valid s = []
         then (failed_response (NoValidResponses (vs_errors s)))
                \<lparr>er_variation_count := made, er_threshold := rq_consensus_threshold rq, er_tokens := vs_tokens s\<rparr>
         else
           (let valid = filtered_replies rq (vs_valid s) in
            case synthesize (pe_order pe) valid (rq_consensus_threshold rq) (int (length valid)) of
              Inl e \<Rightarrow> failed_response (Fatal e)
            | Inr syn \<Rightarrow>
                if con_fields syn = []
                then (failed_response NothingAboveThreshold)
                       \<lparr>er_confidence := con_confidence syn, er_variation_count := made,
                        er_threshold := rq_consensus_threshold rq, er_tokens := vs_tokens s\<rparr>
                else \<lparr>er_fields = con_fields syn, er_confidence = py_round 4 (con_confidence syn), er_variation_count = made,
                      er_threshold = rq_consensus_threshold rq, er_tokens = vs_tokens s,
                      er_per_field = Some (con_per_field syn), er_completed = True, er_failure = None\<rparr>))"

definition pipeline :: "pipeline_env \<Rightarrow> enrich_request \<Rightarrow> sonar_config option \<Rightarrow> enrich_response" where
  "pipeline pe rq cfg =
     (case pe_prepare pe rq cfg of
        Some msg \<Rightarrow> failed_response (PrepareFailed msg)
      | None \<Rightarrow>
          (case provider_attempt_timeout (pe_now pe) (pe_deadline pe) (pe_default_timeout pe) of
             None \<Rightarrow> (failed_response DeadlineBeforeCall)\<lparr>er_threshold := rq_consensus_threshold rq\<rparr>
           | Some t \<Rightarrow> run_variations pe rq cfg))"

text \<open>The idempotency key is the caller's and may be missing or empty; \<open>None\<close> for the store is no store.\<close>

definition enrich_entity ::
    "pipeline_env \<Rightarrow> string option \<Rightarrow> enrich_request \<Rightarrow> sonar_config option \<Rightarrow> (string, enrich_response) dict option \<Rightarrow>
     enrich_response \<times> (string, enrich_response) dict option" where
  "enrich_entity pe key rq cfg store =
     (let cached = (case (key, store) of (Some (k # ks), Some d) \<Rightarrow> dget d (k # ks) | _ \<Rightarrow> None) in
      case cached of
        Some r \<Rightarrow> (r, store)
      | None \<Rightarrow>
          if (case cfg of None \<Rightarrow> False | Some c \<Rightarrow> sc_disable_search c) then (skipped_response, store)
          else (let r = pipeline pe rq cfg in
                (r, case (key, store) of
                      (Some (k # ks), Some d) \<Rightarrow> if er_completed r then Some (dset (k # ks) r d) else Some d
                    | _ \<Rightarrow> store)))"

text \<open>What the convergence loop reads of a response.\<close>

definition pass_response_of :: "enrich_response \<Rightarrow> pass_response" where
  "pass_response_of r =
     \<lparr>rs_fields = er_fields r, rs_confidence = er_confidence r, rs_tokens = er_tokens r,
      rs_variation_count = er_variation_count r,
      rs_per_field = (case er_per_field r of Some d \<Rightarrow> d | None \<Rightarrow> [])\<rparr>"

definition pipeline_enricher ::
    "(int \<Rightarrow> pipeline_env) \<Rightarrow> int \<Rightarrow> enrich_request \<Rightarrow> sonar_config option \<Rightarrow> string + pass_response" where
  "pipeline_enricher pes n rq cfg = Inr (pass_response_of (fst (enrich_entity (pes n) None rq cfg None)))"

section \<open>What the results add up to\<close>

definition reply_of :: "(string, string) dict option \<Rightarrow> call_error + sonar_response \<Rightarrow> fields option" where
  "reply_of sch result = (case result of Inl _ \<Rightarrow> None | Inr sr \<Rightarrow> validate_response (sr_data sr) sch)"

definition tokens_of :: "call_error + sonar_response \<Rightarrow> int" where
  "tokens_of result = (case result of Inl _ \<Rightarrow> 0 | Inr sr \<Rightarrow> sr_tokens sr)"

lemma process_step:
  "vs_valid (process_result sch r s) = vs_valid s @ (case reply_of sch r of None \<Rightarrow> [] | Some v \<Rightarrow> [v])"
  "vs_tokens (process_result sch r s) = vs_tokens s + tokens_of r"
  by (simp_all add: process_result_def reply_of_def tokens_of_def Let_def split: sum.split option.split)

lemma process_fold:
  "vs_valid (fold (process_result sch) rs s) = vs_valid s @ List.map_filter (reply_of sch) rs \<and>
   vs_tokens (fold (process_result sch) rs s) = vs_tokens s + sum_list (map tokens_of rs)"
proof (induction rs arbitrary: s)
  case (Cons r rs)
  show ?case by (simp add: Cons.IH process_step List.map_filter_simps split: option.split)
qed (simp add: List.map_filter_simps)

lemma process_valid: "vs_valid (process_variation_results rs sch) = List.map_filter (reply_of sch) rs"
  and process_tokens: "vs_tokens (process_variation_results rs sch) = sum_list (map tokens_of rs)"
  using process_fold [of sch rs] by (simp_all add: process_variation_results_def)

lemma collect_length: "int (length (collect_variations calls n sch thr ths)) \<le> max 0 n"
  by (simp add: collect_variations_def)

lemma collect_sufficient:
  "0 < n \<Longrightarrow> reply_is_sufficient (calls 0) sch thr ths \<Longrightarrow> collect_variations calls n sch thr ths = [calls 0]"
  by (simp add: collect_variations_def)

lemma set_collect: "set (collect_variations calls n sch thr ths) \<subseteq> range calls"
  by (auto simp: collect_variations_def)

lemma filtered_empty: "filtered_replies rq valid = [] \<longleftrightarrow> valid = []"
  by (simp add: filtered_replies_def apply_field_confidence_thresholds_def split: option.split list.split)

lemma filtered_length: "length (filtered_replies rq valid) = length valid"
  by (simp add: filtered_replies_def apply_field_confidence_thresholds_def split: option.split list.split)

text \<open>The synthesis of at least one reply does not fail, so the fatal branch is dead there.\<close>

definition results_of :: "pipeline_env \<Rightarrow> enrich_request \<Rightarrow> sonar_config option \<Rightarrow> (call_error + sonar_response) list" where
  "results_of pe rq cfg = collect_variations (pe_calls pe) (variation_budget rq cfg) (rq_schema rq)
     (rq_consensus_threshold rq) (rq_field_thresholds rq)"

lemma run_variations_cases:
  obtains (none) "List.map_filter (reply_of (rq_schema rq)) (results_of pe rq cfg) = []"
      "er_fields (run_variations pe rq cfg) = []" "\<not> er_completed (run_variations pe rq cfg)"
    | (syn) valid syn where "valid = filtered_replies rq (List.map_filter (reply_of (rq_schema rq)) (results_of pe rq cfg))"
      "valid \<noteq> []" "synthesize (pe_order pe) valid (rq_consensus_threshold rq) (int (length valid)) = Inr syn"
      "er_fields (run_variations pe rq cfg) = con_fields syn"
      "er_completed (run_variations pe rq cfg) \<longleftrightarrow> con_fields syn \<noteq> []"
      "con_fields syn \<noteq> [] \<Longrightarrow> er_per_field (run_variations pe rq cfg) = Some (con_per_field syn)"
proof (cases "List.map_filter (reply_of (rq_schema rq)) (results_of pe rq cfg) = []")
  case True
  then show thesis
    by (intro none) (simp_all add: run_variations_def Let_def results_of_def [symmetric] process_valid failed_response_def)
next
  case False
  let ?valid = "filtered_replies rq (List.map_filter (reply_of (rq_schema rq)) (results_of pe rq cfg))"
  from False have ne: "?valid \<noteq> []" by (simp add: filtered_empty)
  then obtain syn where s: "synthesize (pe_order pe) ?valid (rq_consensus_threshold rq) (int (length ?valid)) = Inr syn"
    using synthesize_returns [of "int (length ?valid)"] by fastforce
  show thesis
    by (rule syn [OF refl ne s])
      (use False s in \<open>auto simp: run_variations_def Let_def results_of_def [symmetric] process_valid failed_response_def\<close>)
qed

lemma run_variations_counts:
  "er_variation_count (run_variations pe rq cfg) = int (length (results_of pe rq cfg)) \<and>
   er_tokens (run_variations pe rq cfg) = sum_list (map tokens_of (results_of pe rq cfg))"
proof -
  let ?valid = "filtered_replies rq (List.map_filter (reply_of (rq_schema rq)) (results_of pe rq cfg))"
  have "\<exists>syn. synthesize (pe_order pe) ?valid (rq_consensus_threshold rq) (int (length ?valid)) = Inr syn"
    if "List.map_filter (reply_of (rq_schema rq)) (results_of pe rq cfg) \<noteq> []"
    using that synthesize_returns [of "int (length ?valid)"] by (simp add: filtered_empty)
  then show ?thesis
    by (auto simp: run_variations_def Let_def results_of_def [symmetric] process_valid process_tokens)
qed

lemma validate_field_ok: "dict_ok n \<Longrightarrow> dict_ok (validate_field fs kt n)"
  using validate_field_cases [of fs "fst kt" "snd kt" n] by (cases kt) (auto simp: alist.ok_put)

lemma pass_field_ok: "dict_ok n \<Longrightarrow> dict_ok (pass_field kv n)"
  by (simp add: pass_field_def Let_def alist.ok_put split: prod.split)

lemma fold_dict_ok: "(\<And>x d. dict_ok d \<Longrightarrow> dict_ok (f x d)) \<Longrightarrow> dict_ok d \<Longrightarrow> dict_ok (fold f xs d)"
  by (induction xs arbitrary: d) simp_all

lemma validate_response_ok: "validate_response p sch = Some v \<Longrightarrow> dict_ok v"
  by (auto simp: validate_response_def Let_def intro!: fold_dict_ok validate_field_ok pass_field_ok
      split: pyval.splits option.splits if_splits)

section \<open>Properties\<close>

lemma pipeline_tokens_nonneg:
  assumes "\<forall>k. 0 \<le> tokens_of (pe_calls pe k)"
  shows "0 \<le> er_tokens (fst (enrich_entity pe None rq cfg None))"
proof -
  have "0 \<le> sum_list (map tokens_of (results_of pe rq c))" for c
    using assms set_collect unfolding results_of_def by (intro sum_list_nonneg) (force simp: image_iff)
  then have "0 \<le> er_tokens (run_variations pe rq c)" for c using run_variations_counts by simp
  then show ?thesis
    by (simp add: enrich_entity_def Let_def pipeline_def skipped_response_def failed_response_def split: option.split)
qed

text \<open>What a reply has to say about a field to support it, under the request's thresholds.\<close>

definition supports :: "enrich_request \<Rightarrow> string \<Rightarrow> fields \<Rightarrow> bool" where
  "supports rq f reply \<longleftrightarrow>
     (case rq_field_thresholds rq of
        Some (t # ts) \<Rightarrow> (\<exists>v required. dget reply f = Some v \<and> \<not> is_blank v \<and> dget (t # ts) f = Some required \<and> required \<le> reply_confidence reply)
      | _ \<Rightarrow> f \<in> set (dkeys reply))"

lemma filtered_supports:
  assumes "v \<in> set (filtered_replies rq replies)" and "f \<in> set (dkeys v)" and "f \<noteq> ''confidence''" and "\<forall>r \<in> set replies. dict_ok r"
  shows "\<exists>reply \<in> set replies. supports rq f reply"
proof (cases "\<exists>t ts. rq_field_thresholds rq = Some (t # ts)")
  case True
  then obtain t ts where ths: "rq_field_thresholds rq = Some (t # ts)" by blast
  with assms(1) obtain reply where r: "reply \<in> set replies" "v = filter_reply (t # ts) reply"
    by (auto simp: filtered_replies_def apply_field_confidence_thresholds_def)
  from assms(2) have "dget v f \<noteq> None" unfolding dmem_iff [symmetric] by (simp add: dmem_def)
  then have "dget (filter_reply (t # ts) reply) f \<noteq> None" using r(2) by simp
  then have "supports rq f reply" unfolding supports_def ths
    using filter_reply_get [of reply f "t # ts"] assms(3,4) r(1) by (auto split: option.splits if_splits)
  with r(1) show ?thesis by blast
next
  case False
  then have "filtered_replies rq replies = replies" "\<And>reply. supports rq f reply = (f \<in> set (dkeys reply))"
    by (auto simp: filtered_replies_def supports_def split: option.split list.split simp del: set_map)
  with assms(1,2) show ?thesis by auto
qed

text \<open>
  C7: every enriched field is supported. In the response of the pipeline each field was given by a
  valid reply of a provider call that was made; when the consumer set thresholds, by a non-blank value
  in a reply whose confidence reaches the field's own threshold, and no field without a threshold gets
  through. Its reported confidence is its agreement and reaches the consensus threshold.
\<close>

theorem pipeline_fields_supported:
  assumes "set_order (pe_order pe)" and "dget (er_fields (run_variations pe rq cfg)) f = Some v"
  shows "(\<exists>result reply. result \<in> set (results_of pe rq cfg) \<and> reply_of (rq_schema rq) result = Some reply \<and> supports rq f reply) \<and>
    (\<exists>per c. er_per_field (run_variations pe rq cfg) = Some per \<and> dget per f = Some c \<and> rq_consensus_threshold rq \<le> c)"
proof (rule run_variations_cases [of rq pe cfg])
  assume "er_fields (run_variations pe rq cfg) = []"
  with assms(2) show ?thesis by simp
next
  let ?replies = "List.map_filter (reply_of (rq_schema rq)) (results_of pe rq cfg)"
  fix valid syn
  assume valid: "valid = filtered_replies rq ?replies"
    and s: "synthesize (pe_order pe) valid (rq_consensus_threshold rq) (int (length valid)) = Inr syn"
    and fs: "er_fields (run_variations pe rq cfg) = con_fields syn"
    and per: "con_fields syn \<noteq> [] \<Longrightarrow> er_per_field (run_variations pe rq cfg) = Some (con_per_field syn)"
  note spec = synthesize_result [OF s assms(1)]
  from assms(2) fs have f: "dget (con_fields syn) f = Some v" by simp
  with spec have in_reply: "f \<noteq> ''confidence'' \<and> (\<exists>w \<in> set valid. f \<in> set (dkeys w)) \<and>
      rq_consensus_threshold rq \<le> agreement valid (int (length valid)) f"
    by (auto split: if_splits simp del: set_map)
  have "\<forall>r \<in> set ?replies. dict_ok r"
    by (auto simp: List.map_filter_def reply_of_def intro: validate_response_ok split: sum.splits)
  with filtered_supports [of _ rq ?replies f] in_reply valid obtain reply where "reply \<in> set ?replies" "supports rq f reply" by blast
  moreover from this(1) obtain result where "result \<in> set (results_of pe rq cfg)" "reply_of (rq_schema rq) result = Some reply"
    by (auto simp: List.map_filter_def)
  moreover have "f \<in> set (dkeys (con_per_field syn))" using f spec by (metis alist.keys_get domIff option.distinct(1))
  then obtain c where c: "dget (con_per_field syn) f = Some c" unfolding dmem_iff [symmetric] by (auto simp: dmem_def)
  moreover have "rq_consensus_threshold rq \<le> c" using spec c in_reply by metis
  moreover have "er_per_field (run_variations pe rq cfg) = Some (con_per_field syn)" using f by (intro per) auto
  ultimately show ?thesis by blast
qed

definition sample_request :: enrich_request where
  "sample_request = \<lparr>rq_entity = [(''name'', PStr ''Acme'')], rq_schema = Some [(''city'', ''string'')],
     rq_consensus_threshold = 0, rq_field_thresholds = None, rq_max_variations = 3\<rparr>"

definition sample_pipeline :: pipeline_env where
  "sample_pipeline = \<lparr>pe_prepare = (\<lambda>_ _. None),
     pe_calls = (\<lambda>_. Inr \<lparr>sr_data = PDict [(''confidence'', PInt 1), (''fields'', PDict [(''city'', PStr ''Lyon'')])], sr_tokens = 10\<rparr>),
     pe_now = 0, pe_deadline = None, pe_default_timeout = 1, pe_order = (\<lambda>xs. xs)\<rparr>"

lemma sample_reply:
  "reply_of (rq_schema sample_request) (pe_calls sample_pipeline k) = Some [(''confidence'', PFloat 1), (''city'', PStr ''Lyon'')]"
  unfolding sample_request_def sample_pipeline_def by simp code_simp

lemma sample_budget: "1 \<le> variation_budget sample_request None"
  using budget_bounds [of 3 "rq_entity sample_request" "rq_schema sample_request" "flt (5 / 10)"]
  by (simp add: variation_budget_def sample_request_def)

lemma sample_sufficient:
  "reply_is_sufficient (pe_calls sample_pipeline 0) (rq_schema sample_request) (rq_consensus_threshold sample_request)
     (rq_field_thresholds sample_request)"
proof -
  have "validate_response (PDict [(''confidence'', PInt 1), (''fields'', PDict [(''city'', PStr ''Lyon'')])]) (Some [(''city'', ''string'')]) =
      Some [(''confidence'', PFloat 1), (''city'', PStr ''Lyon'')]"
    using sample_reply [of 0] by (simp add: reply_of_def sample_pipeline_def sample_request_def)
  then show ?thesis
    by (simp add: reply_is_sufficient_def sample_pipeline_def sample_request_def stated_confidence_def field_sufficient_def
        dget_or_def Let_def not_less f64_0_less_1 less_imp_le)
qed

lemma sample_results: "results_of sample_pipeline sample_request None = [pe_calls sample_pipeline 0]"
  unfolding results_of_def using sample_budget by (intro collect_sufficient sample_sufficient) simp

lemma sample_field: "\<exists>v. dget (er_fields (run_variations sample_pipeline sample_request None)) ''city'' = Some v"
proof (rule run_variations_cases [of sample_request sample_pipeline None])
  assume "List.map_filter (reply_of (rq_schema sample_request)) (results_of sample_pipeline sample_request None) = []"
  then show ?thesis by (simp add: sample_results sample_reply List.map_filter_simps)
next
  fix valid syn
  assume v: "valid = filtered_replies sample_request (List.map_filter (reply_of (rq_schema sample_request)) (results_of sample_pipeline sample_request None))"
    and s: "synthesize (pe_order sample_pipeline) valid (rq_consensus_threshold sample_request) (int (length valid)) = Inr syn"
    and fs: "er_fields (run_variations sample_pipeline sample_request None) = con_fields syn"
  have "valid = [[(''confidence'', PFloat 1), (''city'', PStr ''Lyon'')]]"
    by (simp add: v sample_results sample_reply List.map_filter_simps filtered_replies_def) (simp add: sample_request_def)
  moreover have "set_order (pe_order sample_pipeline)" by (simp add: set_order_def sample_pipeline_def)
  moreover have "0 \<le> agreement valid n ''city''" for n
    by (simp add: agreement_def le_max_iff_disj flt_nonneg)
  ultimately show ?thesis using synthesize_result [OF s] fs by (simp add: sample_request_def)
qed

theorem pipeline_fields_supported_witness:
  "\<exists>reply. supports sample_request ''city'' reply"
proof -
  obtain v where v: "dget (er_fields (run_variations sample_pipeline sample_request None)) ''city'' = Some v"
    using sample_field by blast
  have "set_order (pe_order sample_pipeline)" by (simp add: set_order_def sample_pipeline_def)
  from pipeline_fields_supported [OF this v] show ?thesis by blast
qed

text \<open>
  Calls and tokens. The response reports the number of provider calls made, never more than the
  variation budget, exactly one when the first reply suffices, and the tokens of the replies received,
  whether or not they were valid.
\<close>

theorem pipeline_accounting:
  "er_variation_count (run_variations pe rq cfg) = int (length (results_of pe rq cfg)) \<and>
   er_variation_count (run_variations pe rq cfg) \<le>
     (if reply_is_sufficient (pe_calls pe 0) (rq_schema rq) (rq_consensus_threshold rq) (rq_field_thresholds rq)
      then 1 else max 0 (variation_budget rq cfg)) \<and>
   er_tokens (run_variations pe rq cfg) = sum_list (map tokens_of (results_of pe rq cfg))"
  using run_variations_counts [of pe rq cfg]
    collect_length [of "pe_calls pe" "variation_budget rq cfg" "rq_schema rq" "rq_consensus_threshold rq" "rq_field_thresholds rq"]
  by (simp add: results_of_def) (simp add: collect_variations_def)

text \<open>
  The idempotency key. After a request with a key has completed through the providers, the same
  key returns the same response, whatever the second request and the state of the providers; after a
  failed one the store is unchanged, so that the request is tried again.
\<close>

theorem idempotent_replay:
  assumes "enrich_entity pe (Some k) rq cfg (Some d) = (r, store)" and "k \<noteq> []" and "dget d k = None"
    and "\<not> (case cfg of None \<Rightarrow> False | Some c \<Rightarrow> sc_disable_search c)"
  shows "if er_completed r then enrich_entity pe' (Some k) rq' cfg' store = (r, store) else store = Some d"
  using assms by (cases k) (auto simp: enrich_entity_def Let_def dget_dset split: if_splits)

theorem idempotent_replay_witness:
  "\<exists>r store. enrich_entity sample_pipeline (Some ''k'') sample_request None (Some []) = (r, store) \<and> er_completed r \<and>
     enrich_entity (sample_pipeline\<lparr>pe_calls := (\<lambda>_. Inl CallFailed)\<rparr>) (Some ''k'') sample_request None store = (r, store)"
proof -
  obtain r store where r: "enrich_entity sample_pipeline (Some ''k'') sample_request None (Some []) = (r, store)" by fastforce
  have "r = run_variations sample_pipeline sample_request None"
    using r by (simp add: enrich_entity_def pipeline_def Let_def sample_pipeline_def provider_attempt_timeout_def)
  moreover obtain v where "dget (er_fields (run_variations sample_pipeline sample_request None)) ''city'' = Some v"
    using sample_field by blast
  then have "er_fields (run_variations sample_pipeline sample_request None) \<noteq> []" by auto
  then have "er_completed (run_variations sample_pipeline sample_request None)"
    by - (rule run_variations_cases [of sample_request sample_pipeline None], simp_all)
  ultimately have "er_completed r" by simp
  with idempotent_replay [OF r, of "sample_pipeline\<lparr>pe_calls := (\<lambda>_. Inl CallFailed)\<rparr>" sample_request None] r show ?thesis
    by auto
qed

end
