(* ===== verification/SideEffects.thy ===== *)
theory SideEffects
  imports PyPrelude
begin

text \<open>
  \<open>app/services/side_effect_coordinator.py\<close>: the follow-up work of an enrichment - persistence, graph
  synchronisation, score invalidation, the completion event - once per semantic key. Each effect is
  awaited, so a call can be suspended there while others run: a call is a state machine with one
  phase per await, and the coordinator a step relation over the calls in flight. Whether an effect
  succeeds is the \<open>ok\<close> of the step. A report lists the failed effects where the source keeps their
  error texts. The sha256 of the key is the parameter \<open>h\<close>.
\<close>

datatype effect = Persist | GraphSync | ScoreInvalidate | EmitEvent

record side_request =
  sq_key :: string
  sq_graph_sync :: bool
  sq_emit_event :: bool
  sq_require_persistence :: bool

definition semantic_side_effect_key :: "(string \<Rightarrow> string) \<Rightarrow> string \<Rightarrow> string \<Rightarrow> string \<Rightarrow> string option \<Rightarrow> string option \<Rightarrow> string" where
  "semantic_side_effect_key h tenant entity action packet_id idempotency_key =
     (case packet_id of
        Some (p # ps) \<Rightarrow> ''pkt:'' @ (p # ps) @ '':'' @ action
      | _ \<Rightarrow> (case idempotency_key of
          Some (k # ks) \<Rightarrow> ''idem:'' @ tenant @ '':'' @ (k # ks) @ '':'' @ action
        | _ \<Rightarrow> ''hash:'' @ take 24 (h (tenant @ ''|'' @ entity @ ''|'' @ action))))"

record side_report =
  sp_key :: string
  sp_persisted :: bool
  sp_graph_synced :: bool
  sp_graph_skipped :: bool
  sp_score_invalidated :: bool
  sp_event_emitted :: bool
  sp_skipped :: bool
  sp_errors :: "effect list"

definition new_report :: "string \<Rightarrow> side_report" where
  "new_report key = \<lparr>sp_key = key, sp_persisted = False, sp_graph_synced = False, sp_graph_skipped = False,
     sp_score_invalidated = False, sp_event_emitted = False, sp_skipped = False, sp_errors = []\<rparr>"

text \<open>A pending effect, or how the call ended.\<close>

datatype phase = Awaiting effect | Committed | Duplicate | Refused

record side_call =
  cl_request :: side_request
  cl_phase :: phase
  cl_report :: side_report

record coordinator =
  co_completed :: "string set"
  co_calls :: "side_call list"
  co_trace :: "(effect \<times> string \<times> bool) list"

definition new_coordinator :: coordinator where
  "new_coordinator = \<lparr>co_completed = {}, co_calls = [], co_trace = []\<rparr>"

section \<open>Steps of a call\<close>

definition open_call :: "string set \<Rightarrow> side_request \<Rightarrow> side_call" where
  "open_call completed rq =
     (if sq_key rq \<in> completed
      then \<lparr>cl_request = rq, cl_phase = Duplicate, cl_report = (new_report (sq_key rq))\<lparr>sp_skipped := True\<rparr>\<rparr>
      else \<lparr>cl_request = rq, cl_phase = Awaiting Persist, cl_report = new_report (sq_key rq)\<rparr>)"

definition note_error :: "effect \<Rightarrow> side_report \<Rightarrow> side_report" where
  "note_error e rep = rep\<lparr>sp_errors := sp_errors rep @ [e]\<rparr>"

definition after_persist :: "side_call \<Rightarrow> side_call" where
  "after_persist c =
     (if sq_graph_sync (cl_request c) then c\<lparr>cl_phase := Awaiting GraphSync\<rparr>
      else c\<lparr>cl_phase := Awaiting ScoreInvalidate, cl_report := (cl_report c)\<lparr>sp_graph_skipped := True\<rparr>\<rparr>)"

definition after_score :: "side_call \<Rightarrow> side_call" where
  "after_score c = (if sq_emit_event (cl_request c) then c\<lparr>cl_phase := Awaiting EmitEvent\<rparr> else c\<lparr>cl_phase := Committed\<rparr>)"

definition resume_call :: "effect \<Rightarrow> bool \<Rightarrow> side_call \<Rightarrow> side_call" where
  "resume_call e ok c =
     (let rep = cl_report c in
      case e of
        Persist \<Rightarrow>
          if ok then after_persist (c\<lparr>cl_report := rep\<lparr>sp_persisted := True\<rparr>\<rparr>)
          else (let c' = c\<lparr>cl_report := note_error Persist rep\<rparr> in
                if sq_require_persistence (cl_request c) then c'\<lparr>cl_phase := Refused\<rparr> else after_persist c')
      | GraphSync \<Rightarrow> c\<lparr>cl_phase := Awaiting ScoreInvalidate,
                       cl_report := (if ok then rep\<lparr>sp_graph_synced := True\<rparr> else note_error GraphSync rep)\<rparr>
      | ScoreInvalidate \<Rightarrow>
          after_score (c\<lparr>cl_report := (if ok then rep\<lparr>sp_score_invalidated := True\<rparr> else note_error ScoreInvalidate rep)\<rparr>)
      | EmitEvent \<Rightarrow> c\<lparr>cl_phase := Committed,
                       cl_report := (if ok then rep\<lparr>sp_event_emitted := True\<rparr> else note_error EmitEvent rep)\<rparr>)"

text \<open>The key is recorded in the same step that ends the last effect.\<close>

definition arrive :: "side_request \<Rightarrow> coordinator \<Rightarrow> coordinator" where
  "arrive rq s = s\<lparr>co_calls := co_calls s @ [open_call (co_completed s) rq]\<rparr>"

definition resume :: "nat \<Rightarrow> bool \<Rightarrow> coordinator \<Rightarrow> coordinator" where
  "resume i ok s =
     (let c = co_calls s ! i in
      case cl_phase c of
        Awaiting e \<Rightarrow>
          (let c' = resume_call e ok c; key = sq_key (cl_request c) in
           \<lparr>co_completed = (if cl_phase c' = Committed then insert key (co_completed s) else co_completed s),
            co_calls = (co_calls s)[i := c'], co_trace = co_trace s @ [(e, key, ok)]\<rparr>)
      | _ \<Rightarrow> s)"

inductive coordinator_step :: "coordinator \<Rightarrow> coordinator \<Rightarrow> bool" where
  arrive_step: "coordinator_step s (arrive rq s)"
| resume_step: "i < length (co_calls s) \<Longrightarrow> cl_phase (co_calls s ! i) = Awaiting e \<Longrightarrow> coordinator_step s (resume i ok s)"

inductive coordinator_reach :: "coordinator \<Rightarrow> bool" where
  start: "coordinator_reach new_coordinator"
| step: "coordinator_reach s \<Longrightarrow> coordinator_step s s' \<Longrightarrow> coordinator_reach s'"

section \<open>A call that is not interrupted\<close>

text \<open>\<open>commit_after_enrich\<close> from its first line to its last; a call has at most four effects.\<close>

fun run_last :: "nat \<Rightarrow> (effect \<Rightarrow> bool) \<Rightarrow> coordinator \<Rightarrow> coordinator" where
  "run_last 0 oc s = s"
| "run_last (Suc left) oc s =
     (case cl_phase (last (co_calls s)) of
        Awaiting e \<Rightarrow> run_last left oc (resume (length (co_calls s) - 1) (oc e) s)
      | _ \<Rightarrow> s)"

definition commit_after_enrich :: "side_request \<Rightarrow> (effect \<Rightarrow> bool) \<Rightarrow> coordinator \<Rightarrow> coordinator" where
  "commit_after_enrich rq oc s = run_last 4 oc (arrive rq s)"

definition commits :: "(side_request \<times> (effect \<Rightarrow> bool)) list \<Rightarrow> coordinator \<Rightarrow> coordinator" where
  "commits us s = fold (\<lambda>(rq, oc). commit_after_enrich rq oc) us s"

definition times_done :: "effect \<Rightarrow> string \<Rightarrow> coordinator \<Rightarrow> nat" where
  "times_done e key s = length (filter (\<lambda>x. x = (e, key, True)) (co_trace s))"

section \<open>What a call does\<close>

definition call_effects :: "side_request \<Rightarrow> (effect \<Rightarrow> bool) \<Rightarrow> effect list" where
  "call_effects rq oc =
     (if sq_require_persistence rq \<and> \<not> oc Persist then [Persist]
      else Persist # (if sq_graph_sync rq then [GraphSync] else []) @ ScoreInvalidate # (if sq_emit_event rq then [EmitEvent] else []))"

lemma run_last_awaiting:
  assumes "cl_phase c = Awaiting e"
  shows "run_last (Suc left) oc \<lparr>co_completed = done, co_calls = cs @ [c], co_trace = tr\<rparr> =
    run_last left oc \<lparr>co_completed = (if cl_phase (resume_call e (oc e) c) = Committed then insert (sq_key (cl_request c)) done else done),
      co_calls = cs @ [resume_call e (oc e) c], co_trace = tr @ [(e, sq_key (cl_request c), oc e)]\<rparr>"
  using assms by (simp add: resume_def Let_def nth_append)

lemma run_last_ended:
  "\<forall>e. cl_phase c \<noteq> Awaiting e \<Longrightarrow> run_last left oc \<lparr>co_completed = done, co_calls = cs @ [c], co_trace = tr\<rparr> =
    \<lparr>co_completed = done, co_calls = cs @ [c], co_trace = tr\<rparr>"
  by (cases left) (auto split: phase.split)

lemma resume_request [simp]: "cl_request (resume_call e ok c) = cl_request c"
  by (cases e) (simp_all add: resume_call_def after_persist_def after_score_def Let_def)

lemmas call_steps = resume_call_def after_persist_def after_score_def Let_def

lemma commit_fresh:
  assumes "sq_key rq \<notin> co_completed s"
  shows "co_trace (commit_after_enrich rq oc s) = co_trace s @ map (\<lambda>e. (e, sq_key rq, oc e)) (call_effects rq oc) \<and>
    co_completed (commit_after_enrich rq oc s) =
      (if sq_require_persistence rq \<and> \<not> oc Persist then co_completed s else insert (sq_key rq) (co_completed s)) \<and>
    cl_phase (last (co_calls (commit_after_enrich rq oc s))) =
      (if sq_require_persistence rq \<and> \<not> oc Persist then Refused else Committed) \<and>
    co_calls (commit_after_enrich rq oc s) \<noteq> []"
proof -
  let ?c = "\<lparr>cl_request = rq, cl_phase = Awaiting Persist, cl_report = new_report (sq_key rq)\<rparr>"
  have four: "4 = Suc (Suc (Suc (Suc 0)))" by simp
  have "commit_after_enrich rq oc s = run_last 4 oc
      \<lparr>co_completed = co_completed s, co_calls = co_calls s @ [?c], co_trace = co_trace s\<rparr>"
    using assms by (cases s) (simp add: commit_after_enrich_def arrive_def open_call_def)
  then show ?thesis unfolding four
    by (cases "oc Persist"; cases "sq_require_persistence rq"; cases "sq_graph_sync rq"; cases "sq_emit_event rq")
      (simp_all add: run_last_awaiting run_last_ended call_steps call_effects_def del: run_last.simps)
qed

lemma commit_duplicate:
  assumes "sq_key rq \<in> co_completed s"
  shows "co_trace (commit_after_enrich rq oc s) = co_trace s \<and> co_completed (commit_after_enrich rq oc s) = co_completed s \<and>
    cl_phase (last (co_calls (commit_after_enrich rq oc s))) = Duplicate"
  using assms by (simp add: commit_after_enrich_def arrive_def open_call_def eval_nat_numeral)

text \<open>Every effect that has been done for a key by calls that were not interrupted was done once.\<close>

definition once_inv :: "coordinator \<Rightarrow> bool" where
  "once_inv s \<longleftrightarrow> (\<forall>e key. times_done e key s \<le> (if key \<in> co_completed s then 1 else 0))"

lemma times_done_append:
  "co_trace s' = co_trace s @ map (\<lambda>e. (e, key, oc e)) es \<Longrightarrow>
   times_done e k s' = times_done e k s + length (filter (\<lambda>x. x = e \<and> key = k \<and> oc x) es)"
  by (simp add: times_done_def filter_map o_def cong: filter_cong)

lemma once_inv_commit: "once_inv s \<Longrightarrow> once_inv (commit_after_enrich rq oc s)"
proof (cases "sq_key rq \<in> co_completed s")
  case True
  assume "once_inv s"
  with commit_duplicate [OF True, of oc] show ?thesis by (simp add: once_inv_def times_done_def)
next
  case False
  assume i: "once_inv s"
  note c = commit_fresh [OF False, of oc]
  have one: "length (filter (\<lambda>x. x = e \<and> oc x) (call_effects rq oc)) \<le>
      (if sq_require_persistence rq \<and> \<not> oc Persist then 0 else 1)" for e
    by (cases e) (simp_all add: call_effects_def)
  show ?thesis unfolding once_inv_def
  proof (intro allI)
    fix e k
    have t: "times_done e k (commit_after_enrich rq oc s) =
        times_done e k s + length (filter (\<lambda>x. x = e \<and> sq_key rq = k \<and> oc x) (call_effects rq oc))"
      using c by (intro times_done_append) simp
    have old: "times_done e k s \<le> (if k \<in> co_completed s then 1 else 0)" using i by (simp add: once_inv_def)
    show "times_done e k (commit_after_enrich rq oc s) \<le> (if k \<in> co_completed (commit_after_enrich rq oc s) then 1 else 0)"
    proof (cases "sq_key rq = k")
      case True
      with t old False have "times_done e k (commit_after_enrich rq oc s) = length (filter (\<lambda>x. x = e \<and> oc x) (call_effects rq oc))"
        by simp
      with one [of e] True c show ?thesis by (cases "sq_require_persistence rq \<and> \<not> oc Persist") simp_all
    next
      case other: False
      with t have "times_done e k (commit_after_enrich rq oc s) = times_done e k s" by simp
      with old other c show ?thesis by (simp split: if_splits)
    qed
  qed
qed

lemma once_inv_commits: "once_inv s \<Longrightarrow> once_inv (commits us s)"
proof (induction us arbitrary: s)
  case (Cons u us)
  then show ?case using once_inv_commit [of s "fst u" "snd u"] by (cases u) (simp add: commits_def)
qed (simp add: commits_def)

section \<open>Properties\<close>

text \<open>
  C11: at most once, for calls that run one after the other, each to its end. However many such requests are
  committed, with whatever outcomes of their effects, every effect succeeds at most once for each semantic key, and
  for a key that is not recorded as completed none has succeeded, so that repeating the request is safe. This says
  nothing of calls that overlap or are cancelled while they await an effect: both repeat effects
  (\<open>overlapping_calls_repeat_effects\<close>, \<open>cancelled_call_repeats_persist\<close>).
\<close>

theorem effects_at_most_once:
  "times_done e key (commits us new_coordinator) \<le> (if key \<in> co_completed (commits us new_coordinator) then 1 else 0)"
proof -
  have "once_inv new_coordinator" by (simp add: once_inv_def times_done_def new_coordinator_def)
  then have "once_inv (commits us new_coordinator)" by (rule once_inv_commits)
  then show ?thesis by (simp add: once_inv_def)
qed

text \<open>
  A required persistence is a precondition. When a request that requires it cannot be persisted,
  nothing else is done for it and its key is not recorded, so that a later request with the same key
  runs all its effects.
\<close>

theorem required_persistence_retried:
  assumes "sq_require_persistence rq" and "\<not> oc Persist" and "sq_key rq \<notin> co_completed s"
    and "sq_key rq2 = sq_key rq" and "oc2 Persist"
  shows "co_trace (commits [(rq, oc), (rq2, oc2)] s) = co_trace s @ (Persist, sq_key rq, False) #
      map (\<lambda>e. (e, sq_key rq, oc2 e)) (call_effects rq2 oc2) \<and>
    cl_phase (last (co_calls (commits [(rq, oc)] s))) = Refused \<and> sq_key rq \<in> co_completed (commits [(rq, oc), (rq2, oc2)] s)"
proof -
  note c1 = commit_fresh [OF assms(3), of oc]
  with assms have "sq_key rq2 \<notin> co_completed (commit_after_enrich rq oc s)" by simp
  from commit_fresh [OF this, of oc2] c1 assms show ?thesis by (simp add: commits_def call_effects_def)
qed

definition sample_side_request :: side_request where
  "sample_side_request = \<lparr>sq_key = ''k'', sq_graph_sync = True, sq_emit_event = True, sq_require_persistence = True\<rparr>"

theorem required_persistence_retried_witness:
  "co_trace (commits [(sample_side_request, \<lambda>e. False), (sample_side_request, \<lambda>e. True)] new_coordinator) =
     (Persist, ''k'', False) # map (\<lambda>e. (e, ''k'', True)) (call_effects sample_side_request (\<lambda>e. True))"
  using required_persistence_retried [of sample_side_request "\<lambda>e. False" new_coordinator sample_side_request "\<lambda>e. True"]
  by (simp add: sample_side_request_def new_coordinator_def)

text \<open>
  Overlapping calls break the promise. Two calls with the same key that are both admitted before
  one of them ends each do all the effects: a reachable state has every effect done twice for a key.
\<close>

definition overlapping_run :: coordinator where
  "overlapping_run =
     (let s0 = arrive sample_side_request (arrive sample_side_request new_coordinator)
      in resume 1 True (resume 0 True (resume 1 True (resume 0 True (resume 1 True (resume 0 True (resume 1 True (resume 0 True s0))))))))"

lemma reach_resume:
  assumes "coordinator_reach s" and "i < length (co_calls s)"
  shows "coordinator_reach (resume i ok s)"
proof (cases "\<exists>e. cl_phase (co_calls s ! i) = Awaiting e")
  case True
  then show ?thesis using assms by (blast intro: coordinator_reach.step coordinator_step.resume_step)
next
  case False
  then have "resume i ok s = s" by (simp add: resume_def Let_def split: phase.split)
  with assms show ?thesis by simp
qed

lemma reach_arrive: "coordinator_reach s \<Longrightarrow> coordinator_reach (arrive rq s)"
  by (rule coordinator_reach.step [OF _ coordinator_step.arrive_step])

lemma length_calls:
  "length (co_calls (resume i ok s)) = length (co_calls s)" "length (co_calls (arrive rq s)) = Suc (length (co_calls s))"
  "co_calls new_coordinator = []"
  by (simp_all add: resume_def arrive_def new_coordinator_def Let_def split: phase.split)

lemma overlapping_reach: "coordinator_reach overlapping_run"
  unfolding overlapping_run_def Let_def
  by (intro reach_resume reach_arrive coordinator_reach.start) (simp_all add: length_calls)

theorem overlapping_calls_repeat_effects:
  "coordinator_reach overlapping_run \<and> times_done e ''k'' overlapping_run = 2"
proof -
  have "co_trace overlapping_run = concat (map (\<lambda>e. [(e, ''k'', True), (e, ''k'', True)]) [Persist, GraphSync, ScoreInvalidate, EmitEvent])"
    by code_simp
  then have "times_done e ''k'' overlapping_run = 2" by (cases e) (simp_all add: times_done_def)
  with overlapping_reach show ?thesis by simp
qed

text \<open>
  So does a call that is cancelled: its key is only recorded after the last effect, so a request that is cancelled
  after its persistence, and repeated later, is persisted twice, although the two calls do not overlap.
\<close>

definition cancelled_run :: coordinator where
  "cancelled_run =
     (let cut = resume 0 True (arrive sample_side_request new_coordinator)
      in resume 1 True (resume 1 True (resume 1 True (resume 1 True (arrive sample_side_request cut)))))"

theorem cancelled_call_repeats_persist:
  "coordinator_reach cancelled_run \<and> times_done Persist ''k'' cancelled_run = 2 \<and> co_completed cancelled_run = {''k''}"
proof -
  have "coordinator_reach cancelled_run" unfolding cancelled_run_def Let_def
    by (intro reach_resume reach_arrive coordinator_reach.start) (simp_all add: length_calls)
  moreover have "co_trace cancelled_run = map (\<lambda>e. (e, ''k'', True)) [Persist, Persist, GraphSync, ScoreInvalidate, EmitEvent]" by code_simp
  moreover have "co_completed cancelled_run = {''k''}" by code_simp
  ultimately show ?thesis by (simp add: times_done_def)
qed

end
