(* ===== verification/QualityScorer.thy ===== *)
theory QualityScorer
  imports PyValue
begin

text \<open>
  \<open>app/services/enrichment/quality_scorer.py\<close>: the weighted quality score of an enriched record. The
  configuration read from YAML is a record with typed entries (\<open>load_thresholds\<close> takes what the file
  holds, or \<open>None\<close> when there is no file); the clock is the argument \<open>now\<close>. The two regular
  expressions are written out: after \<open>lower\<close> a domain is the part before its last dot, of the characters
  \<open>[a-z0-9.-]\<close>, and a suffix of at least two letters, with one trailing newline ignored as \<open>$\<close> does.
\<close>

definition default_weights :: "(string, f64) dict" where
  "default_weights = [(''completeness'', flt (3 / 10)), (''freshness'', flt (3 / 20)), (''accuracy'', flt (1 / 4)),
     (''consistency'', flt (3 / 20)), (''confidence'', flt (3 / 20))]"

record quality_dimensions =
  qd_completeness :: f64
  qd_freshness :: f64
  qd_accuracy :: f64
  qd_consistency :: f64
  qd_confidence :: f64

record quality_scorer =
  qs_weights :: "(string, f64) dict"
  qs_required :: "(string, string list) dict"
  qs_rules :: "(string, (string, string) dict) dict"

record thresholds_file =
  tf_weights :: "(string, f64) dict option"
  tf_required :: "(string, string list) dict option"
  tf_rules :: "(string, (string, string) dict) dict option"

definition load_thresholds :: "thresholds_file option \<Rightarrow> quality_scorer \<Rightarrow> quality_scorer" where
  "load_thresholds file qs =
     (case file of None \<Rightarrow> qs
      | Some cfg \<Rightarrow> \<lparr>qs_weights = (case tf_weights cfg of None \<Rightarrow> qs_weights qs | Some w \<Rightarrow> w),
                     qs_required = (case tf_required cfg of None \<Rightarrow> [] | Some r \<Rightarrow> r),
                     qs_rules = (case tf_rules cfg of None \<Rightarrow> [] | Some r \<Rightarrow> r)\<rparr>)"

definition new_quality_scorer :: "thresholds_file option \<Rightarrow> quality_scorer" where
  "new_quality_scorer file = load_thresholds file \<lparr>qs_weights = default_weights, qs_required = [], qs_rules = []\<rparr>"

section \<open>The five dimensions\<close>

definition count_of :: "('a \<Rightarrow> bool) \<Rightarrow> 'a list \<Rightarrow> int" where
  "count_of P xs = int (length (filter P xs))"

definition score_completeness :: "quality_scorer \<Rightarrow> string \<Rightarrow> fields \<Rightarrow> f64" where
  "score_completeness qs dm rec =
     (let required = dget_or (qs_required qs) dm [] in
      if required = []
      then py_int_div (count_of (\<lambda>v. \<not> is_blank v) (dvalues rec)) (max (int (length rec)) 1)
      else py_int_div (count_of (\<lambda>f. \<not> is_blank (dget_or rec f PNone)) required) (max (int (length required)) 1))"

text \<open>\<open>isinstance(v, (int, float))\<close>, booleans included, is \<open>py_num v \<noteq> None\<close>.\<close>

definition score_freshness :: "f64 \<Rightarrow> fields \<Rightarrow> f64" where
  "score_freshness now rec =
     (let ts = dget_or rec ''enrichment_timestamp'' PNone in
      if \<not> truthy ts then flt (1 / 2)
      else if py_num ts = None then flt (1 / 2)
      else (case py_float ts of Inl _ \<Rightarrow> flt (1 / 2)
            | Inr t \<Rightarrow>
                (let age_hours = (now - t) / f_of_int 3600 in
                 if age_hours < f_of_int 24 then 1
                 else if age_hours < f_of_int 168 then flt (4 / 5)
                 else if age_hours < f_of_int 720 then flt (1 / 2)
                 else flt (1 / 5))))"

definition is_az :: "char \<Rightarrow> bool" where
  "is_az c \<longleftrightarrow> 97 \<le> code c \<and> code c \<le> 122"

definition is_domain_char :: "char \<Rightarrow> bool" where
  "is_domain_char c \<longleftrightarrow> is_az c \<or> digit_val c \<noteq> None \<or> c = CHR ''.'' \<or> c = CHR ''-''"

definition drop_newline :: "string \<Rightarrow> string" where
  "drop_newline s = (if s \<noteq> [] \<and> last s = CHR 0x0A then butlast s else s)"

definition domain_format :: "string \<Rightarrow> bool" where
  "domain_format s =
     (let r = rev (drop_newline s); suffix = takeWhile is_az r in
      case dropWhile is_az r of
        [] \<Rightarrow> False
      | d # front \<Rightarrow> d = CHR ''.'' \<and> 2 \<le> length suffix \<and> front \<noteq> [] \<and> list_all is_domain_char front)"

definition is_phone_char :: "char \<Rightarrow> bool" where
  "is_phone_char c \<longleftrightarrow> c = CHR ''+'' \<or> digit_val c \<noteq> None \<or> is_space c \<or> c = CHR ''('' \<or> c = CHR '')'' \<or> c = CHR ''-''"

definition phone_format :: "string \<Rightarrow> bool" where
  "phone_format s \<longleftrightarrow> list_all is_phone_char s \<and> 7 \<le> length s"

definition positive_number :: "pyval \<Rightarrow> bool" where
  "positive_number v \<longleftrightarrow> (case py_num v of Some q \<Rightarrow> 0 < q | None \<Rightarrow> False)"

definition validate_rule :: "pyval \<Rightarrow> string \<Rightarrow> bool" where
  "validate_rule v rule_type =
     (if rule_type = ''domain_format'' then (case v of PStr s \<Rightarrow> domain_format (py_lower s) | _ \<Rightarrow> False)
      else if rule_type = ''phone_format'' then (case v of PStr s \<Rightarrow> phone_format s | _ \<Rightarrow> False)
      else if rule_type = ''positive_integer'' then positive_number v
      else if rule_type = ''range_0_1'' then (case py_num v of Some q \<Rightarrow> 0 \<le> q \<and> q \<le> 1 | None \<Rightarrow> False)
      else True)"

definition score_accuracy :: "quality_scorer \<Rightarrow> string \<Rightarrow> fields \<Rightarrow> f64" where
  "score_accuracy qs dm rec =
     (let rules = dget_or (qs_rules qs) dm [] in
      if rules = [] then flt (7 / 10)
      else (let tested = filter (\<lambda>(f, _). dmem f rec) rules in
            py_int_div (count_of (\<lambda>(f, r). validate_rule (dget_or rec f PNone) r) tested) (max (int (length tested)) 1)))"

definition consistency_checks :: "fields \<Rightarrow> bool list" where
  "consistency_checks rec =
     (let emp = dget_or rec ''employee_count'' PNone; income = dget_or rec ''annual_revenue'' PNone;
          cd = dget_or rec ''company_domain'' PNone;
          site = (if truthy cd then cd else dget_or rec ''account_domain'' PNone)
      in (if emp \<noteq> PNone then [positive_number emp] else []) @
         (if income \<noteq> PNone then [positive_number income] else []) @
         (if site \<noteq> PNone then [case site of PStr s \<Rightarrow> CHR ''.'' \<in> set s | _ \<Rightarrow> False] else []))"

definition score_consistency :: "fields \<Rightarrow> f64" where
  "score_consistency rec =
     (let checks = consistency_checks rec in
      if checks = [] then flt (7 / 10) else py_int_div (count_of id checks) (int (length checks)))"

definition score_confidence :: "f64 list \<Rightarrow> f64" where
  "score_confidence scores = (case scores of [] \<Rightarrow> flt (1 / 2) | s # ss \<Rightarrow> fold max ss s)"

definition dimensions :: "quality_scorer \<Rightarrow> f64 \<Rightarrow> string \<Rightarrow> fields \<Rightarrow> f64 list \<Rightarrow> quality_dimensions" where
  "dimensions qs now dm rec scores =
     \<lparr>qd_completeness = score_completeness qs dm rec, qd_freshness = score_freshness now rec,
      qd_accuracy = score_accuracy qs dm rec, qd_consistency = score_consistency rec,
      qd_confidence = score_confidence scores\<rparr>"

definition weighted :: "(string, f64) dict \<Rightarrow> quality_dimensions \<Rightarrow> f64" where
  "weighted w d =
     qd_completeness d * dget_or w ''completeness'' (flt (3 / 10)) + qd_freshness d * dget_or w ''freshness'' (flt (3 / 20)) +
     qd_accuracy d * dget_or w ''accuracy'' (flt (1 / 4)) + qd_consistency d * dget_or w ''consistency'' (flt (3 / 20)) +
     qd_confidence d * dget_or w ''confidence'' (flt (3 / 20))"

definition quality_score :: "quality_scorer \<Rightarrow> f64 \<Rightarrow> string \<Rightarrow> fields \<Rightarrow> f64 list \<Rightarrow> f64" where
  "quality_score qs now dm rec scores =
     py_round 3 (min (max (weighted (qs_weights qs) (dimensions qs now dm rec scores)) 0) 1)"

section \<open>Properties\<close>

lemma count_of_le: "count_of P xs \<le> int (length xs)"
  by (simp add: count_of_def)

lemma count_of_mono: "list_all (\<lambda>x. P x \<longrightarrow> Q x) xs \<Longrightarrow> count_of P xs \<le> count_of Q xs"
  unfolding count_of_def by (induction xs) auto

definition dims_le :: "quality_dimensions \<Rightarrow> quality_dimensions \<Rightarrow> bool" where
  "dims_le a b \<longleftrightarrow> qd_completeness a \<le> qd_completeness b \<and> qd_freshness a \<le> qd_freshness b \<and>
     qd_accuracy a \<le> qd_accuracy b \<and> qd_consistency a \<le> qd_consistency b \<and> qd_confidence a \<le> qd_confidence b"

definition weights_ok :: "quality_scorer \<Rightarrow> bool" where
  "weights_ok qs \<longleftrightarrow> list_all (\<lambda>kv. 0 \<le> snd kv) (qs_weights qs)"

lemma weight_nonneg: "weights_ok qs \<Longrightarrow> 0 \<le> dflt \<Longrightarrow> 0 \<le> dget_or (qs_weights qs) k dflt"
  using map_of_SomeD [of "qs_weights qs" k]
  by (force simp: weights_ok_def dget_or_def list_all_iff split: option.split)

lemma weighted_mono: "weights_ok qs \<Longrightarrow> dims_le a b \<Longrightarrow> weighted (qs_weights qs) a \<le> weighted (qs_weights qs) b"
  unfolding weighted_def dims_le_def by (intro f64_add_mono f64_mult_right_mono weight_nonneg) (auto intro: flt_nonneg)

lemma quality_score_mono:
  "weights_ok qs \<Longrightarrow> dims_le (dimensions qs now dm a s) (dimensions qs now dm b t) \<Longrightarrow>
   quality_score qs now dm a s \<le> quality_score qs now dm b t"
  unfolding quality_score_def by (intro py_round_mono min.mono max.mono weighted_mono order_refl)

lemma quality_score_unit: "0 \<le> quality_score qs now dm rec s \<and> quality_score qs now dm rec s \<le> 1"
  unfolding quality_score_def by (intro conjI py_round_nonneg py_round_le_1) simp_all

definition scored_names :: "string list" where
  "scored_names = [''enrichment_timestamp'', ''employee_count'', ''annual_revenue'', ''company_domain'', ''account_domain'']"

lemma count_dset:
  "\<not> is_blank v \<Longrightarrow> is_blank (dget_or rec f PNone) \<Longrightarrow>
   count_of (\<lambda>v. \<not> is_blank v) (dvalues (dset f v rec)) = count_of (\<lambda>v. \<not> is_blank v) (dvalues rec) + 1 \<and>
   length (dset f v rec) = (if dmem f rec then length rec else length rec + 1)"
  by (induction rec) (auto simp: count_of_def dget_or_def dmem_def)

lemma add_filled: "0 \<le> a \<Longrightarrow> a \<le> n \<Longrightarrow> py_int_div a (max n 1) \<le> py_int_div (a + 1) (max (n + 1) 1)"
proof -
  assume a: "0 \<le> a" "a \<le> n"
  have "(of_int a :: rat) / of_int (max n 1) \<le> of_int (a + 1) / of_int (max (n + 1) 1)"
  proof (cases "n = 0")
    case False
    with a have n: "(0 :: rat) < of_int n" "(0 :: rat) < of_int (n + 1)" "(of_int a :: rat) \<le> of_int n" by simp_all
    then have "(of_int a :: rat) / of_int n \<le> of_int (a + 1) / of_int (n + 1)" by (simp add: field_simps)
    moreover from a False have "max n 1 = n" "max (n + 1) 1 = n + 1" by simp_all
    ultimately show ?thesis by simp
  qed (use a in simp)
  then show ?thesis unfolding py_int_div_def by (rule flt_mono)
qed

lemma completeness_filled:
  assumes "\<not> is_blank v" and "is_blank (dget_or rec f PNone)"
  shows "score_completeness qs dm rec \<le> score_completeness qs dm (dset f v rec)"
proof (cases "dget_or (qs_required qs) dm [] = []")
  case True
  let ?a = "count_of (\<lambda>v. \<not> is_blank v) (dvalues rec)"
  have a: "0 \<le> ?a" "?a \<le> int (length rec)" using count_of_le [of _ "dvalues rec"] by (simp_all add: count_of_def)
  show ?thesis
  proof (cases "dmem f rec")
    case m: True
    then have "py_int_div ?a (max (int (length rec)) 1) \<le> py_int_div (?a + 1) (max (int (length rec)) 1)"
      by (intro py_int_div_mono) simp_all
    with True m count_dset [OF assms] show ?thesis by (simp add: score_completeness_def)
  next
    case m: False
    with True count_dset [OF assms] add_filled [OF a] show ?thesis by (simp add: score_completeness_def add.commute)
  qed
next
  case False
  have "count_of (\<lambda>g. \<not> is_blank (dget_or rec g PNone)) xs \<le> count_of (\<lambda>g. \<not> is_blank (dget_or (dset f v rec) g PNone)) xs" for xs
    by (rule count_of_mono) (use assms in \<open>auto simp: list_all_iff dget_or_def dict_simps\<close>)
  with False show ?thesis by (simp add: score_completeness_def Let_def py_int_div_mono)
qed

lemma untouched: "f \<noteq> g \<Longrightarrow> dget_or (dset f v rec) g PNone = dget_or rec g PNone"
  by (simp add: dget_or_def dict_simps)

lemma accuracy_untouched:
  "\<not> dmem f (dget_or (qs_rules qs) dm []) \<Longrightarrow> score_accuracy qs dm (dset f v rec) = score_accuracy qs dm rec"
proof -
  assume f: "\<not> dmem f (dget_or (qs_rules qs) dm [])"
  have t: "filter (\<lambda>(g, _). dmem g (dset f v rec)) rules = filter (\<lambda>(g, _). dmem g rec) rules"
    "filter (\<lambda>(g, r). validate_rule (dget_or (dset f v rec) g PNone) r) (filter (\<lambda>(g, _). dmem g rec) rules) =
     filter (\<lambda>(g, r). validate_rule (dget_or rec g PNone) r) (filter (\<lambda>(g, _). dmem g rec) rules)"
    if "rules = dget_or (qs_rules qs) dm []" for rules
  proof -
    from f that have ne: "\<And>g r. (g, r) \<in> set rules \<Longrightarrow> g \<noteq> f" by (auto simp: dmem_def map_of_eq_None_iff) (metis fst_conv image_eqI)
    show "filter (\<lambda>(g, _). dmem g (dset f v rec)) rules = filter (\<lambda>(g, _). dmem g rec) rules"
      by (rule filter_cong) (use ne in \<open>force simp: dmem_def dget_dset\<close>)+
    show "filter (\<lambda>(g, r). validate_rule (dget_or (dset f v rec) g PNone) r) (filter (\<lambda>(g, _). dmem g rec) rules) =
        filter (\<lambda>(g, r). validate_rule (dget_or rec g PNone) r) (filter (\<lambda>(g, _). dmem g rec) rules)"
      by (rule filter_cong) (use ne in \<open>force simp: dget_or_def dget_dset\<close>)+
  qed
  show ?thesis unfolding score_accuracy_def Let_def count_of_def t(1) [OF refl] t(2) [OF refl] ..
qed

text \<open>
  Filling a gap never lowers the score. The score is at most 1; setting a blank or absent field to
  a non-blank value raises it or leaves it, when the weights are not negative and neither a validation
  rule of the domain nor one of the five fields read by name is concerned.
\<close>

theorem filling_never_lowers:
  assumes "weights_ok qs" and "\<not> is_blank v" and "f \<notin> set scored_names"
    and "\<not> dmem f (dget_or (qs_rules qs) dm [])" and "is_blank (dget_or rec f PNone)"
  shows "quality_score qs now dm rec s \<le> quality_score qs now dm (dset f v rec) s \<and> quality_score qs now dm (dset f v rec) s \<le> 1"
proof (intro conjI quality_score_mono [OF assms(1)])
  have ne: "f \<noteq> ''enrichment_timestamp''" "f \<noteq> ''employee_count''" "f \<noteq> ''annual_revenue''" "f \<noteq> ''company_domain''" "f \<noteq> ''account_domain''"
    using assms(3) by (simp_all add: scored_names_def)
  have "score_freshness now (dset f v rec) = score_freshness now rec" "score_consistency (dset f v rec) = score_consistency rec"
    unfolding score_freshness_def score_consistency_def consistency_checks_def Let_def
      untouched [OF ne(1)] untouched [OF ne(2)] untouched [OF ne(3)] untouched [OF ne(4)] untouched [OF ne(5)] by (rule refl)+
  with assms show "dims_le (dimensions qs now dm rec s) (dimensions qs now dm (dset f v rec) s)"
    by (simp add: dims_le_def dimensions_def accuracy_untouched completeness_filled)
qed (use quality_score_unit in simp)

theorem filling_never_lowers_witness:
  "quality_score (new_quality_scorer None) 0 ''company'' [(''name'', PStr ''Acme'')] [] \<le>
   quality_score (new_quality_scorer None) 0 ''company'' [(''name'', PStr ''Acme''), (''city'', PStr ''Lyon'')] []"
proof -
  have "weights_ok (new_quality_scorer None)"
    by (simp add: weights_ok_def new_quality_scorer_def load_thresholds_def default_weights_def) (auto intro: flt_nonneg)
  from filling_never_lowers [OF this, of "PStr ''Lyon''" "''city''" "''company''" "[(''name'', PStr ''Acme'')]" 0 "[]"]
  show ?thesis by (simp add: scored_names_def dget_or_def dmem_def new_quality_scorer_def load_thresholds_def)
qed

end
