(* ===== verification/Waterfall.thy ===== *)
theory Waterfall
  imports QualityScorer EnrichmentConsensus Uncertainty ProviderClient
begin

text \<open>
  \<open>app/services/enrichment/waterfall_engine.py\<close>, the interface \<open>sources/base.py\<close>, the adapter
  \<open>sources/perplexity_adapter.py\<close> and \<open>unwrap_envelope\<close> of \<open>prompt_builder.py\<close>: sources tried in
  priority order until the quality suffices, and the consensus of several prompt variations. What a
  source answers for a domain and a payload is a function of the source record, an exception being its
  text; the clock is the sequence \<open>clk\<close> of the readings the quality scorer takes. Latencies, the YAML
  files and the prompts are not modelled.
\<close>

section \<open>Sources\<close>

record source_result =
  so_data :: fields
  so_quality :: f64
  so_name :: string
  so_error :: "string option"

record source =
  src_name :: string
  src_enabled :: bool
  src_api_key :: "string option"
  src_domains :: "string list"
  src_tier :: string
  src_enrich :: "string \<Rightarrow> fields \<Rightarrow> string + source_result"

definition call_source :: "source \<Rightarrow> string \<Rightarrow> fields \<Rightarrow> source_result" where
  "call_source src dm payload =
     (case src_enrich src dm payload of
        Inr r \<Rightarrow> r
      | Inl msg \<Rightarrow> \<lparr>so_data = [], so_quality = 0, so_name = src_name src, so_error = Some msg\<rparr>)"

text \<open>\<open>if result.error\<close>: an empty text is no error.\<close>

definition source_failed :: "source_result \<Rightarrow> bool" where
  "source_failed r \<longleftrightarrow> (case so_error r of None \<Rightarrow> False | Some msg \<Rightarrow> msg \<noteq> [])"

definition unwrap_envelope :: "pyval \<Rightarrow> pyerr + pyval" where
  "unwrap_envelope raw =
     (case raw of
        PDict d \<Rightarrow> Inr (case dget_or d ''fields'' PNone of PDict e \<Rightarrow> PDict e | _ \<Rightarrow> raw)
      | _ \<Rightarrow> Inl AttributeError)"

definition reply_quality :: "fields \<Rightarrow> f64" where
  "reply_quality data =
     py_round 3 (min (py_int_div (count_of (\<lambda>v. \<not> is_blank v) (dvalues data)) (max (int (length data)) 1)) 1)"

text \<open>The texts of the exceptions are the parameter \<open>err_text\<close>, those of \<open>AttributeError\<close> \<open>attr_text\<close>.\<close>

definition perplexity_enrich ::
    "(call_error \<Rightarrow> string) \<Rightarrow> string \<Rightarrow> (string \<Rightarrow> fields \<Rightarrow> call_error + sonar_response) \<Rightarrow> string \<Rightarrow> string option \<Rightarrow>
     string \<Rightarrow> fields \<Rightarrow> string + source_result" where
  "perplexity_enrich err_text attr_text query name api_key dm payload =
     (let failed = (\<lambda>msg. Inr \<lparr>so_data = [], so_quality = 0, so_name = name, so_error = Some msg\<rparr>) in
      if (case api_key of None \<Rightarrow> True | Some k \<Rightarrow> k = []) then failed ''no_api_key_configured''
      else (case query dm payload of
              Inl e \<Rightarrow> failed (err_text e)
            | Inr response \<Rightarrow>
                (case unwrap_envelope (sr_data response) of
                   Inr (PDict data) \<Rightarrow>
                     Inr \<lparr>so_data = data, so_quality = reply_quality data, so_name = name, so_error = None\<rparr>
                 | _ \<Rightarrow> failed attr_text)))"

section \<open>The waterfall\<close>

record strategy =
  sg_max_attempts :: "int option"
  sg_threshold :: "f64 option"
  sg_sources :: "string list option"

record waterfall_engine =
  we_scorer :: quality_scorer
  we_sources :: "(string, source) dict"
  we_strategies :: "(string, strategy) dict"

definition register_source :: "string \<Rightarrow> source \<Rightarrow> waterfall_engine \<Rightarrow> waterfall_engine" where
  "register_source name src we = we\<lparr>we_sources := dset name src (we_sources we)\<rparr>"

definition max_attempts_of :: "waterfall_engine \<Rightarrow> string \<Rightarrow> int" where
  "max_attempts_of we dm =
     (case dget (we_strategies we) dm of None \<Rightarrow> 3 | Some s \<Rightarrow> (case sg_max_attempts s of None \<Rightarrow> 3 | Some n \<Rightarrow> n))"

definition min_quality_of :: "waterfall_engine \<Rightarrow> string \<Rightarrow> f64" where
  "min_quality_of we dm =
     (case dget (we_strategies we) dm of None \<Rightarrow> flt (4 / 5)
      | Some s \<Rightarrow> (case sg_threshold s of None \<Rightarrow> flt (4 / 5) | Some q \<Rightarrow> q))"

definition source_order :: "waterfall_engine \<Rightarrow> string \<Rightarrow> string list" where
  "source_order we dm =
     (case dget (we_strategies we) dm of None \<Rightarrow> dkeys (we_sources we)
      | Some s \<Rightarrow> (case sg_sources s of None \<Rightarrow> dkeys (we_sources we) | Some names \<Rightarrow> names))"

definition eligible :: "waterfall_engine \<Rightarrow> string \<Rightarrow> string \<Rightarrow> source option" where
  "eligible we dm name =
     (case dget (we_sources we) name of None \<Rightarrow> None
      | Some src \<Rightarrow>
          if \<not> src_enabled src then None
          else if dm \<notin> set (src_domains src) \<and> src_tier src \<noteq> ''ai_inference'' then None
          else Some src)"

record waterfall_state =
  ws_merged :: fields
  ws_results :: "source_result list"
  ws_quality :: "f64 list"
  ws_readings :: nat

definition merge_data :: "fields \<Rightarrow> fields \<Rightarrow> fields" where
  "merge_data data merged = fold (\<lambda>(k, v) m. if is_blank v then m else dset k v m) data merged"

definition take_result :: "source_result \<Rightarrow> waterfall_state \<Rightarrow> waterfall_state" where
  "take_result r s =
     (let s1 = s\<lparr>ws_results := ws_results s @ [r]\<rparr> in
      if source_failed r then s1
      else s1\<lparr>ws_merged := merge_data (so_data r) (ws_merged s1), ws_quality := ws_quality s1 @ [so_quality r]\<rparr>)"

fun waterfall ::
    "waterfall_engine \<Rightarrow> (nat \<Rightarrow> f64) \<Rightarrow> string \<Rightarrow> int \<Rightarrow> string list \<Rightarrow> waterfall_state \<Rightarrow> waterfall_state" where
  "waterfall we clk dm attempt [] s = s"
| "waterfall we clk dm attempt (name # names) s =
     (if max_attempts_of we dm \<le> attempt then s
      else case eligible we dm name of
        None \<Rightarrow> waterfall we clk dm (attempt + 1) names s
      | Some src \<Rightarrow>
          (let r = call_source src dm (ws_merged s); s1 = take_result r s in
           if source_failed r then waterfall we clk dm (attempt + 1) names s1
           else if min_quality_of we dm \<le>
                     quality_score (we_scorer we) (clk (ws_readings s1)) dm (ws_merged s1) (ws_quality s1)
           then s1\<lparr>ws_readings := ws_readings s1 + 1\<rparr>
           else waterfall we clk dm (attempt + 1) names (s1\<lparr>ws_readings := ws_readings s1 + 1\<rparr>)))"

definition start_waterfall :: "fields \<Rightarrow> waterfall_state" where
  "start_waterfall input = \<lparr>ws_merged = input, ws_results = [], ws_quality = [], ws_readings = 0\<rparr>"

definition waterfall_enrich ::
    "waterfall_engine \<Rightarrow> (nat \<Rightarrow> f64) \<Rightarrow> string \<Rightarrow> fields \<Rightarrow> fields \<times> f64 \<times> source_result list" where
  "waterfall_enrich we clk dm input =
     (let s = waterfall we clk dm 0 (source_order we dm) (start_waterfall input);
          final_quality = quality_score (we_scorer we) (clk (ws_readings s)) dm (ws_merged s) (ws_quality s);
          used = map so_name (filter (\<lambda>r. \<not> source_failed r) (ws_results s))
      in (dset ''enrichment_quality_score'' (PFloat final_quality)
            (dset ''enrichment_sources_used'' (PList (map PStr used)) (ws_merged s)),
          final_quality, ws_results s))"

section \<open>Consensus mode\<close>

record consensus_enrichment =
  ce_fields :: fields
  ce_confidence :: f64
  ce_flags :: "string list"
  ce_attempted :: nat
  ce_valid :: nat
  ce_agreement :: f64
  ce_quality :: f64
  ce_risk :: risk

definition accept_reply :: "fields \<Rightarrow> bool" where
  "accept_reply response \<longleftrightarrow> count_of (\<lambda>v. \<not> is_blank v) (dvalues response) \<noteq> 0"

definition variation_reply :: "call_error + sonar_response \<Rightarrow> fields option" where
  "variation_reply result =
     (case result of
        Inl _ \<Rightarrow> None
      | Inr response \<Rightarrow> (case unwrap_envelope (sr_data response) of Inr (PDict d) \<Rightarrow> Some d | _ \<Rightarrow> None))"

definition accepted_replies :: "(nat \<Rightarrow> call_error + sonar_response) \<Rightarrow> int \<Rightarrow> fields list" where
  "accepted_replies calls n = filter accept_reply (List.map_filter (\<lambda>k. variation_reply (calls k)) [0..<nat n])"

definition prompt_count :: "int \<Rightarrow> int" where
  "prompt_count max_variations = min (max max_variations 1) 5"

definition enrich_with_consensus ::
    "waterfall_engine \<Rightarrow> (string list \<Rightarrow> string list) \<Rightarrow> f64 \<Rightarrow> (nat \<Rightarrow> call_error + sonar_response) \<Rightarrow> string \<Rightarrow> fields \<Rightarrow>
     int \<Rightarrow> f64 \<Rightarrow> uncertainty_config option \<Rightarrow> pyerr + consensus_enrichment" where
  "enrich_with_consensus we ord now calls dm input max_variations threshold config =
     (if \<not> dmem ''perplexity_sonar'' (we_sources we)
      then Inr \<lparr>ce_fields = [], ce_confidence = 0, ce_flags = [''error:no_perplexity_source''], ce_attempted = 0,
                ce_valid = 0, ce_agreement = 0, ce_quality = 0, ce_risk = Low\<rparr>
      else
        (let n = prompt_count max_variations; accepted = accepted_replies calls n in
         bind_res (synthesize_payloads ord accepted threshold (Some n)) (\<lambda>con.
           let merged = merge_with_priority input con (threshold * flt (4 / 5));
               unc = apply_uncertainty (cr_fields con) (cr_confidence con) (Some (cr_agreements con)) config
           in Inr \<lparr>ce_fields = merged, ce_confidence = cr_confidence con, ce_flags = ur_flags unc,
                   ce_attempted = nat n, ce_valid = length accepted, ce_agreement = cr_agreement con,
                   ce_quality = quality_score (we_scorer we) now dm merged [cr_confidence con], ce_risk = ur_risk unc\<rparr>)))"

section \<open>The fields merged\<close>

definition given :: "string \<Rightarrow> source_result \<Rightarrow> pyval list" where
  "given f r = map snd (filter (\<lambda>(k, v). k = f \<and> \<not> is_blank v) (so_data r))"

definition values_given :: "string \<Rightarrow> source_result list \<Rightarrow> pyval list" where
  "values_given f rs = concat (map (given f) (filter (\<lambda>r. \<not> source_failed r) rs))"

definition last_or :: "'a option \<Rightarrow> 'a list \<Rightarrow> 'a option" where
  "last_or dflt xs = (if xs = [] then dflt else Some (last xs))"

lemma last_or_append: "last_or dflt (xs @ ys) = last_or (last_or dflt xs) ys"
  by (simp add: last_or_def)

lemma merge_data_get: "dget (merge_data (so_data r) m) f = last_or (dget m f) (given f r)"
proof -
  have "dget (merge_data data m) f = last_or (dget m f) (map snd (filter (\<lambda>(k, v). k = f \<and> \<not> is_blank v) data))" for data
  proof (induction data arbitrary: m)
    case (Cons kv data)
    then show ?case by (cases kv) (simp add: merge_data_def last_or_def dget_dset)
  qed (simp add: merge_data_def last_or_def)
  then show ?thesis by (simp add: given_def)
qed

lemma take_result_get:
  "dget (ws_merged (take_result r s)) f = last_or (dget (ws_merged s) f) (values_given f [r])"
  by (simp add: take_result_def Let_def merge_data_get values_given_def) (simp add: last_or_def)

lemma take_result_results: "ws_results (take_result r s) = ws_results s @ [r]"
  by (simp add: take_result_def Let_def)

lemma values_given_append: "values_given f (rs @ rs') = values_given f rs @ values_given f rs'"
  by (simp add: values_given_def)

section \<open>The sources consulted\<close>

text \<open>The sources in order without any stop test, and where the loop stops.\<close>

definition consult_one :: "waterfall_engine \<Rightarrow> string \<Rightarrow> string \<Rightarrow> waterfall_state \<Rightarrow> waterfall_state" where
  "consult_one we dm name s =
     (case eligible we dm name of None \<Rightarrow> s
      | Some src \<Rightarrow>
          (let r = call_source src dm (ws_merged s); s1 = take_result r s in
           if source_failed r then s1 else s1\<lparr>ws_readings := ws_readings s1 + 1\<rparr>))"

definition consult :: "waterfall_engine \<Rightarrow> string \<Rightarrow> string list \<Rightarrow> waterfall_state \<Rightarrow> waterfall_state" where
  "consult we dm names s = fold (consult_one we dm) names s"

definition suffices :: "waterfall_engine \<Rightarrow> (nat \<Rightarrow> f64) \<Rightarrow> string \<Rightarrow> string \<Rightarrow> waterfall_state \<Rightarrow> bool" where
  "suffices we clk dm name s =
     (case eligible we dm name of None \<Rightarrow> False
      | Some src \<Rightarrow>
          (let r = call_source src dm (ws_merged s); s1 = take_result r s in
           \<not> source_failed r \<and>
           min_quality_of we dm \<le> quality_score (we_scorer we) (clk (ws_readings s1)) dm (ws_merged s1) (ws_quality s1)))"

definition stop_position :: "waterfall_engine \<Rightarrow> (nat \<Rightarrow> f64) \<Rightarrow> string \<Rightarrow> string list \<Rightarrow> nat \<Rightarrow> waterfall_state \<Rightarrow> nat" where
  "stop_position we clk dm names n s =
     (case find (\<lambda>j. suffices we clk dm (names ! j) (consult we dm (take j names) s)) [0..<min n (length names)] of
        Some j \<Rightarrow> Suc j | None \<Rightarrow> min n (length names))"

lemma find_map: "find P (map g xs) = map_option g (find (\<lambda>x. P (g x)) xs)"
  by (induction xs) simp_all

lemma stop_position_Cons:
  "stop_position we clk dm (name # names) (Suc n) s =
     (if suffices we clk dm name s then 1 else Suc (stop_position we clk dm names n (consult_one we dm name s)))"
proof -
  have u: "[0..<min (Suc n) (length (name # names))] = 0 # map Suc [0..<min n (length names)]"
    by (simp add: map_Suc_upt upt_conv_Cons del: upt_Suc)
  show ?thesis unfolding stop_position_def u
    by (simp add: find_map consult_def o_def split: option.split)
qed

lemma stop_position_0 [simp]: "stop_position we clk dm names 0 s = 0" "stop_position we clk dm [] n s = 0"
  by (simp_all add: stop_position_def)

lemma waterfall_step:
  "attempt < max_attempts_of we dm \<Longrightarrow>
   waterfall we clk dm attempt (name # names) s =
     (if suffices we clk dm name s then consult_one we dm name s
      else waterfall we clk dm (attempt + 1) names (consult_one we dm name s))"
  by (simp add: suffices_def consult_one_def Let_def split: option.split)

lemma waterfall_is_consult:
  "waterfall we clk dm attempt names s =
   consult we dm (take (stop_position we clk dm names (nat (max_attempts_of we dm - attempt)) s) names) s"
proof (induction names arbitrary: attempt s)
  case (Cons name names)
  show ?case
  proof (cases "attempt < max_attempts_of we dm")
    case True
    then have n: "nat (max_attempts_of we dm - attempt) = Suc (nat (max_attempts_of we dm - (attempt + 1)))" by simp
    show ?thesis unfolding n stop_position_Cons waterfall_step [OF True]
      by (simp add: Cons.IH consult_def)
  next
    case False
    then show ?thesis by (simp add: consult_def)
  qed
qed (simp add: consult_def)

lemma consult_merged:
  "dget (ws_merged (consult we dm names s)) f =
     last_or (dget (ws_merged s) f) (values_given f (drop (length (ws_results s)) (ws_results (consult we dm names s)))) \<and>
   take (length (ws_results s)) (ws_results (consult we dm names s)) = ws_results s"
proof (induction names arbitrary: s)
  case (Cons name names)
  let ?s = "consult_one we dm name s"
  have step: "\<exists>rs. ws_results ?s = ws_results s @ rs \<and> dget (ws_merged ?s) f = last_or (dget (ws_merged s) f) (values_given f rs)"
    by (auto simp: consult_one_def Let_def take_result_get take_result_results split: option.split)
      (simp_all add: values_given_def last_or_def)
  then obtain rs where rs: "ws_results ?s = ws_results s @ rs"
    "dget (ws_merged ?s) f = last_or (dget (ws_merged s) f) (values_given f rs)" by blast
  let ?t = "ws_results (consult we dm names ?s)"
  from Cons.IH [of ?s] rs have t: "take (length (ws_results s) + length rs) ?t = ws_results s @ rs"
    "dget (ws_merged (consult we dm names ?s)) f =
       last_or (last_or (dget (ws_merged s) f) (values_given f rs)) (values_given f (drop (length (ws_results s) + length rs) ?t))"
    by simp_all
  then obtain more where more: "?t = ws_results s @ rs @ more" by (metis append.assoc append_take_drop_id)
  with t show ?case by (simp add: consult_def last_or_append [symmetric] values_given_append)
qed (simp add: consult_def last_or_def values_given_def)

section \<open>Properties\<close>

text \<open>
  C12: the waterfall consults a prefix of the source order. The loop with its counter and its two stop
  tests is the same as consulting, without any test, the sources up to the first one after which the
  quality suffices, or the first \<open>max_attempts\<close> names of the order when there is none.
\<close>

theorem waterfall_consults_prefix:
  "snd (snd (waterfall_enrich we clk dm input)) =
   ws_results (consult we dm
     (take (stop_position we clk dm (source_order we dm) (nat (max_attempts_of we dm)) (start_waterfall input)) (source_order we dm))
     (start_waterfall input))"
  by (simp add: waterfall_enrich_def Let_def waterfall_is_consult)

text \<open>
  Provenance of the merged fields. In the record the waterfall returns, each field has the last
  non-blank value given by a source that did not fail, and the value of the input when no such source
  gave one; sources that failed contribute nothing.
\<close>

theorem waterfall_provenance:
  assumes "waterfall_enrich we clk dm input = (merged, q, results)"
    and "f \<noteq> ''enrichment_quality_score''" and "f \<noteq> ''enrichment_sources_used''"
  shows "dget merged f = last_or (dget input f) (values_given f results)"
proof -
  let ?s = "waterfall we clk dm 0 (source_order we dm) (start_waterfall input)"
  from assms have "dget merged f = dget (ws_merged ?s) f" "results = ws_results ?s"
    by (auto simp: waterfall_enrich_def Let_def dget_dset)
  then show ?thesis using consult_merged [of we dm _ "start_waterfall input" f] unfolding waterfall_is_consult
    by (simp add: start_waterfall_def)
qed

definition sample_source :: "string \<Rightarrow> string + source_result \<Rightarrow> source" where
  "sample_source name answer = \<lparr>src_name = name, src_enabled = True, src_api_key = None, src_domains = [''company''],
     src_tier = ''standard'', src_enrich = (\<lambda>_ _. answer)\<rparr>"

definition sample_engine :: "string + source_result \<Rightarrow> waterfall_engine" where
  "sample_engine answer = \<lparr>we_scorer = new_quality_scorer None, we_sources = [(''apollo'', sample_source ''apollo'' answer)], we_strategies = []\<rparr>"

lemma sample_engine_result:
  "snd (snd (waterfall_enrich (sample_engine answer) clk ''company'' input)) = [call_source (sample_source ''apollo'' answer) ''company'' input]"
  by (simp add: waterfall_enrich_def Let_def source_order_def sample_engine_def max_attempts_of_def eligible_def
      sample_source_def take_result_results start_waterfall_def)

theorem waterfall_provenance_witness:
  "dget (fst (waterfall_enrich (sample_engine (Inr \<lparr>so_data = [(''city'', PStr ''Lyon'')], so_quality = 1, so_name = ''apollo'', so_error = None\<rparr>))
     (\<lambda>n. 0) ''company'' [])) ''city'' = Some (PStr ''Lyon'')"
proof -
  let ?we = "sample_engine (Inr \<lparr>so_data = [(''city'', PStr ''Lyon'')], so_quality = 1, so_name = ''apollo'', so_error = None\<rparr>)"
  obtain m q rs where w: "waterfall_enrich ?we (\<lambda>n. 0) ''company'' [] = (m, q, rs)" by (cases "waterfall_enrich ?we (\<lambda>n. 0) ''company'' []")
  have "rs = snd (snd (waterfall_enrich ?we (\<lambda>n. 0) ''company'' []))" unfolding w by simp
  then have "rs = [\<lparr>so_data = [(''city'', PStr ''Lyon'')], so_quality = 1, so_name = ''apollo'', so_error = None\<rparr>]"
    unfolding sample_engine_result by (simp add: call_source_def sample_source_def)
  with waterfall_provenance [OF w, of "''city''"] w show ?thesis
    by (simp add: last_or_def values_given_def given_def source_failed_def)
qed

text \<open>
  A source that raises an exception without a text counts as used. The failure test is the truth of
  the error text, so it is reported among the sources used although it returned nothing.
\<close>

theorem silent_exception_counts_as_used:
  "dget (fst (waterfall_enrich (sample_engine (Inl [])) clk ''company'' input)) ''enrichment_sources_used'' =
     Some (PList [PStr ''apollo''])"
proof -
  have "snd (snd (waterfall_enrich (sample_engine (Inl [])) clk ''company'' input)) =
      [\<lparr>so_data = [], so_quality = 0, so_name = ''apollo'', so_error = Some []\<rparr>]"
    unfolding sample_engine_result by (simp add: call_source_def sample_source_def)
  then show ?thesis by (simp add: waterfall_enrich_def Let_def dget_dset source_failed_def)
qed

lemma vote_fields_dict_ok:
  "vote_fields payloads thr fl (fs, ags) = Inr (fs', ags') \<Longrightarrow> dict_ok fs \<Longrightarrow> dict_ok fs'"
proof (induction fl arbitrary: fs ags)
  case (Cons f fl)
  from Cons.prems(1) obtain v a where rest: "vote_fields payloads thr fl
      (if thr \<le> a \<and> v \<noteq> PNone then (dset f v fs, dset f a ags) else (fs, ags)) = Inr (fs', ags')"
    by (auto simp: bind_res_Inr_iff)
  show ?case
  proof (cases "thr \<le> a \<and> v \<noteq> PNone")
    case True
    with rest Cons.prems(2) show ?thesis by (intro Cons.IH [of "dset f v fs" "dset f a ags"]) (simp_all add: alist.ok_put)
  next
    case False
    with rest Cons.prems(2) show ?thesis by (intro Cons.IH [of fs ags]) simp_all
  qed
qed simp

lemma synthesize_payloads_shape:
  assumes "synthesize_payloads ord payloads thr attempted = Inr con"
  shows "dict_ok (cr_fields con) \<and> (\<forall>f v. dget (cr_fields con) f = Some v \<longrightarrow> thr \<le> dget_or (cr_agreements con) f 0)"
proof (cases "payloads = []")
  case False
  with assms obtain fs ags where v: "vote_fields payloads thr (ord (collect_all_fields payloads)) ([], []) = Inr (fs, ags)"
    and c: "cr_fields con = fs" "cr_agreements con = ags"
    by (auto simp: synthesize_payloads_def bind_res_Inr_iff Let_def)
  from vote_fields_stored [OF v] have "stored payloads thr (fs, ags)" by (simp add: stored_def)
  with vote_fields_dict_ok [OF v] c show ?thesis by (auto simp: stored_def dget_or_def) fastforce
qed (use assms in \<open>auto simp: synthesize_payloads_def empty_consensus_def\<close>)

text \<open>
  What consensus mode returns. Every field of the result has the consensus value where there is a
  non-empty one, else the value of the input. The uncertainty thresholds do not enter: a field they
  filter for its low agreement is returned all the same.
\<close>

theorem consensus_mode_fields:
  assumes "enrich_with_consensus we ord now calls dm input n thr config = Inr res" and "dmem ''perplexity_sonar'' (we_sources we)"
    and "0 \<le> thr"
  shows "\<exists>con. synthesize_payloads ord (accepted_replies calls (prompt_count n)) thr (Some (prompt_count n)) = Inr con \<and>
    dget (ce_fields res) f = (case dget (cr_fields con) f of
       Some v \<Rightarrow> if is_non_empty v then Some v else dget input f | None \<Rightarrow> dget input f)"
proof -
  from assms(1,2) obtain con where con: "synthesize_payloads ord (accepted_replies calls (prompt_count n)) thr (Some (prompt_count n)) = Inr con"
    and fs: "ce_fields res = merge_with_priority input con (thr * flt (4 / 5))"
    by (auto simp: enrich_with_consensus_def Let_def bind_res_Inr_iff)
  note shape = synthesize_payloads_shape [OF con]
  have "thr * flt (4 / 5) \<le> thr" using assms(3) by (intro f64_mult_le_left flt_nonneg flt_le_1) simp_all
  with shape have "thr * flt (4 / 5) \<le> dget_or (cr_agreements con) f 0" if "dget (cr_fields con) f = Some v" for v
    using that by (meson order_trans)
  then have "dget (ce_fields res) f = (case dget (cr_fields con) f of
       Some v \<Rightarrow> if is_non_empty v then Some v else dget input f | None \<Rightarrow> dget input f)"
    using shape by (simp add: fs merge_with_priority_def merge_fold split: option.split)
  with con show ?thesis by blast
qed

text \<open>With no reply accepted, the input is returned as it is.\<close>

theorem consensus_mode_fields_witness:
  "\<exists>res. enrich_with_consensus (sample_engine (Inl [])\<lparr>we_sources := [(''perplexity_sonar'', sample_source ''p'' (Inl []))]\<rparr>)
     (\<lambda>xs. xs) 0 (\<lambda>k. Inl CircuitOpen) ''company'' [(''city'', PStr ''Lyon'')] 3 (flt (13 / 20)) None = Inr res \<and>
     dget (ce_fields res) ''city'' = Some (PStr ''Lyon'')"
proof -
  let ?we = "sample_engine (Inl [])\<lparr>we_sources := [(''perplexity_sonar'', sample_source ''p'' (Inl []))]\<rparr>"
  have a: "accepted_replies (\<lambda>k. Inl CircuitOpen) m = []" for m by (simp add: accepted_replies_def variation_reply_def List.map_filter_def)
  then obtain res where r: "enrich_with_consensus ?we (\<lambda>xs. xs) 0 (\<lambda>k. Inl CircuitOpen) ''company'' [(''city'', PStr ''Lyon'')] 3 (flt (13 / 20)) None = Inr res"
    by (simp add: enrich_with_consensus_def synthesize_payloads_def dmem_def Let_def)
  have "0 \<le> flt (13 / 20)" by (rule flt_nonneg) simp
  from consensus_mode_fields [OF r _ this, of "''city''"] r a show ?thesis
    by (auto simp: synthesize_payloads_def empty_consensus_def dmem_def)
qed

end
