(* ===== verification/ScoreModels.thy ===== *)
theory ScoreModels
  imports PyValue
begin

text \<open>
  \<open>app/score/score_models.py\<close>: the data of the scoring service and its helpers - weights, tiers, the
  decay factor, the composite and the gate penalty. A pydantic constraint is a check where the object
  is built; its failure is a \<open>ValueError\<close>, as \<open>ValidationError\<close> is one. Instants are microseconds.
  The power \<open>math.pow(2, x)\<close> is the parameter \<open>pow2\<close>. Identifiers and texts made for display are not
  modelled.
\<close>

datatype dimension = Fit | Intent | Engagement | Readiness | GraphAffinity

datatype score_source = FromEnrichment | FromGraph | FromSignal | FromCrm | FromInference

datatype tier = Hot | Warm | Cool | Cold | Disqualified

datatype icp_type = ExactMatch | Range | Contains | Boolean | WeightedSet

datatype recommendation = EnrichField | VerifyField | CaptureSignal | ReScore | ManualReview

definition source_of_text :: "string \<Rightarrow> score_source" where
  "source_of_text s =
     (if s = ''graph'' then FromGraph else if s = ''signal'' then FromSignal else if s = ''crm'' then FromCrm
      else if s = ''inference'' then FromInference else FromEnrichment)"

record field_contribution =
  fc_name :: string
  fc_dimension :: dimension
  fc_raw :: pyval
  fc_contribution :: f64
  fc_confidence :: f64
  fc_source :: score_source
  fc_match :: icp_type

record missing_field =
  mf_name :: string
  mf_dimension :: dimension
  mf_impact :: f64
  mf_gate :: bool
  mf_recommendation :: recommendation

record dimension_score =
  ds_dimension :: dimension
  ds_score :: f64
  ds_confidence :: f64
  ds_weight :: f64
  ds_contributions :: "field_contribution list"
  ds_missing :: "missing_field list"
  ds_evaluated :: int
  ds_present :: int
  ds_coverage :: f64
  ds_decayed :: "f64 option"
  ds_factor :: f64

definition in_unit :: "f64 \<Rightarrow> bool" where
  "in_unit x \<longleftrightarrow> 0 \<le> x \<and> x \<le> 1"

definition contribution_checked :: "field_contribution \<Rightarrow> pyerr + field_contribution" where
  "contribution_checked c = (if in_unit (fc_contribution c) \<and> in_unit (fc_confidence c) then Inr c else Inl ValueError)"

definition missing_checked :: "missing_field \<Rightarrow> pyerr + missing_field" where
  "missing_checked m = (if in_unit (mf_impact m) then Inr m else Inl ValueError)"

definition dimension_checked :: "dimension_score \<Rightarrow> pyerr + dimension_score" where
  "dimension_checked d =
     (if in_unit (ds_score d) \<and> in_unit (ds_confidence d) \<and> in_unit (ds_weight d) \<and> in_unit (ds_coverage d)
      then Inr d else Inl ValueError)"

record score_provenance =
  pv_enrichment_run :: "string option"
  pv_graph_match :: "string option"
  pv_signals :: "string list"
  pv_profile :: string
  pv_version :: string

record score_record =
  sr_entity :: string
  sr_domain :: string
  sr_dims :: "(dimension, dimension_score) dict"
  sr_composite :: f64
  sr_confidence :: f64
  sr_tier :: tier
  sr_contributions :: "field_contribution list"
  sr_missing :: "missing_field list"
  sr_scored_at :: int
  sr_decayed :: "f64 option"
  sr_decay_applied :: "int option"
  sr_provenance :: score_provenance

definition enrichment_trigger_fields :: "score_record \<Rightarrow> string list" where
  "enrichment_trigger_fields r = map mf_name (filter (\<lambda>m. flt (1 / 10) \<le> mf_impact m) (sr_missing r))"

record icp_criterion =
  ic_name :: string
  ic_type :: icp_type
  ic_value :: pyval
  ic_range :: "(f64 \<times> f64) option"
  ic_set :: "pyval list option"
  ic_weights :: "(string, f64) dict option"
  ic_weight :: f64
  ic_gate :: bool
  ic_dimension :: dimension

definition criteria_by_dimension :: "icp_criterion list \<Rightarrow> dimension \<Rightarrow> icp_criterion list" where
  "criteria_by_dimension cs d = filter (\<lambda>c. ic_dimension c = d) cs"

section \<open>Profiles\<close>

record decay_config =
  dc_dimension :: dimension
  dc_half_life :: f64
  dc_min_score :: f64
  dc_max_decay :: f64

definition default_decay_config :: "dimension \<Rightarrow> f64 \<Rightarrow> decay_config" where
  "default_decay_config d half_life =
     \<lparr>dc_dimension = d, dc_half_life = half_life, dc_min_score = 0, dc_max_decay = flt (19 / 20)\<rparr>"

definition default_dimension_weights :: "(dimension, f64) dict" where
  "default_dimension_weights =
     [(Fit, flt (3 / 10)), (Intent, flt (1 / 4)), (Engagement, flt (1 / 5)), (Readiness, flt (3 / 20)), (GraphAffinity, flt (1 / 10))]"

definition default_decay_configs :: "decay_config list" where
  "default_decay_configs =
     [default_decay_config Fit (f_of_int 180), default_decay_config Intent (f_of_int 14),
      default_decay_config Engagement (f_of_int 30), default_decay_config Readiness (f_of_int 7),
      default_decay_config GraphAffinity (f_of_int 90)]"

definition default_tier_thresholds :: "(tier, f64) dict" where
  "default_tier_thresholds =
     [(Hot, flt (4 / 5)), (Warm, flt (3 / 5)), (Cool, flt (2 / 5)), (Cold, flt (1 / 5)), (Disqualified, 0)]"

record scoring_profile =
  sp_id :: string
  sp_domain :: string
  sp_version :: string
  sp_weights :: "(dimension, f64) dict"
  sp_decay :: "decay_config list"
  sp_tiers :: "(tier, f64) dict"
  sp_icp :: "icp_criterion list option"
  sp_confidence_floor :: f64
  sp_gate_penalty :: f64
  sp_min_fields :: int

definition get_weight :: "scoring_profile \<Rightarrow> dimension \<Rightarrow> f64" where
  "get_weight p d = dget_or (sp_weights p) d 0"

definition get_decay_config :: "scoring_profile \<Rightarrow> dimension \<Rightarrow> decay_config" where
  "get_decay_config p d =
     (case find (\<lambda>c. dc_dimension c = d) (sp_decay p) of Some c \<Rightarrow> c | None \<Rightarrow> default_decay_config d (f_of_int 30))"

definition classify_tier :: "scoring_profile \<Rightarrow> f64 \<Rightarrow> tier" where
  "classify_tier p composite =
     (case find (\<lambda>kv. snd kv \<le> composite) (sort_desc snd (sp_tiers p)) of Some kv \<Rightarrow> fst kv | None \<Rightarrow> Disqualified)"

definition weights_sum :: "scoring_profile \<Rightarrow> f64" where
  "weights_sum p = py_sum (dvalues (sp_weights p))"

definition normalized_weight :: "scoring_profile \<Rightarrow> dimension \<Rightarrow> f64" where
  "normalized_weight p d = (let total = weights_sum p in if total = 0 then 0 else dget_or (sp_weights p) d 0 / total)"

section \<open>Helpers\<close>

definition compute_decay_factor :: "(f64 \<Rightarrow> f64) \<Rightarrow> f64 \<Rightarrow> f64 \<Rightarrow> f64 \<Rightarrow> f64 \<Rightarrow> f64" where
  "compute_decay_factor pow2 days half_life min_score max_decay =
     (if half_life \<le> 0 then min_score
      else if days \<le> 0 then 1
      else max (max (pow2 ((0 - days) / half_life)) (1 - max_decay)) min_score)"

definition composite_step ::
    "scoring_profile \<Rightarrow> bool \<Rightarrow> dimension \<times> dimension_score \<Rightarrow> f64 \<times> f64 \<times> f64 \<Rightarrow> f64 \<times> f64 \<times> f64" where
  "composite_step p use_decayed entry s =
     (let (score, confidence, total) = s; (d, ds) = entry; w = normalized_weight p d;
          v = (if use_decayed then (case ds_decayed ds of Some x \<Rightarrow> x | None \<Rightarrow> ds_score ds) else ds_score ds)
      in (score + v * w, confidence + ds_confidence ds * w, total + w))"

definition compute_composite :: "(dimension, dimension_score) dict \<Rightarrow> scoring_profile \<Rightarrow> bool \<Rightarrow> f64 \<times> f64" where
  "compute_composite dims p use_decayed =
     (let (score, confidence, total) = fold (composite_step p use_decayed) dims (0, 0, 0) in
      if total = 0 then (0, 0)
      else (min (score / total * total) 1, min (confidence / total * total) 1))"

definition apply_gate_penalty :: "f64 \<Rightarrow> missing_field list \<Rightarrow> f64 \<Rightarrow> f64" where
  "apply_gate_penalty composite missing cap = (if list_ex mf_gate missing then min composite cap else composite)"

section \<open>Laws\<close>

lemma find_sort_desc:
  assumes "find P (sort_desc f xs) = Some x"
  shows "x \<in> set xs \<and> P x \<and> (\<forall>y \<in> set xs. P y \<longrightarrow> f y \<le> f x)"
proof -
  let ?ys = "sort_key f (rev xs)"
  from assms obtain i where i: "i < length (rev ?ys)" "P (rev ?ys ! i)" "x = rev ?ys ! i" "\<forall>j < i. \<not> P (rev ?ys ! j)"
    by (auto simp: find_Some_iff sort_desc_def)
  have sorted: "sorted (map f ?ys)" by simp
  have "f y \<le> f x" if "y \<in> set xs" "P y" for y
  proof -
    from that(1) have "y \<in> set (rev ?ys)" by simp
    then obtain j where j: "j < length (rev ?ys)" "rev ?ys ! j = y" unfolding in_set_conv_nth by blast
    with that(2) i(4) have "i \<le> j" by (metis not_less)
    with i(1) j have "f (?ys ! (length ?ys - Suc j)) \<le> f (?ys ! (length ?ys - Suc i))"
      using sorted_nth_mono [OF sorted, of "length ?ys - Suc j" "length ?ys - Suc i"] by simp
    with i j show ?thesis by (simp add: rev_nth)
  qed
  moreover from i(1,3) have "x \<in> set (rev ?ys)" by (metis nth_mem)
  ultimately show ?thesis using i(2,3) by simp
qed

text \<open>The tier is one whose threshold the score reaches, the one with the highest such threshold.\<close>

lemma classify_tier_best:
  "(t, h) \<in> set (sp_tiers p) \<Longrightarrow> h \<le> x \<Longrightarrow> \<exists>h'. (classify_tier p x, h') \<in> set (sp_tiers p) \<and> h \<le> h' \<and> h' \<le> x"
proof (cases "find (\<lambda>kv. snd kv \<le> x) (sort_desc snd (sp_tiers p))")
  case None
  assume "(t, h) \<in> set (sp_tiers p)" "h \<le> x"
  with None show ?thesis by (force simp: find_None_iff)
next
  case (Some kv)
  assume "(t, h) \<in> set (sp_tiers p)" "h \<le> x"
  with find_sort_desc [OF Some] Some show ?thesis by (cases kv) (force simp: classify_tier_def)
qed

lemma composite_le_1: "fst (compute_composite dims p u) \<le> 1"
  by (simp add: compute_composite_def split: prod.split)

definition weights_nonneg :: "scoring_profile \<Rightarrow> bool" where
  "weights_nonneg p \<longleftrightarrow> (\<forall>d. 0 \<le> normalized_weight p d)"

definition used_score :: "bool \<Rightarrow> dimension_score \<Rightarrow> f64" where
  "used_score u ds = (if u then (case ds_decayed ds of Some x \<Rightarrow> x | None \<Rightarrow> ds_score ds) else ds_score ds)"

lemma composite_step_eq:
  "composite_step p u (d, ds) (s, c, t) =
     (s + used_score u ds * normalized_weight p d, c + ds_confidence ds * normalized_weight p d, t + normalized_weight p d)"
  by (simp add: composite_step_def used_score_def Let_def)

lemma composite_fold_mono:
  assumes "weights_nonneg p"
    and "list_all2 (\<lambda>a b. fst a = fst b \<and> used_score u (snd a) \<le> used_score v (snd b) \<and> ds_confidence (snd a) = ds_confidence (snd b)) xs ys"
    and "s \<le> s'" and "0 \<le> t" and "fold (composite_step p u) xs (s, c, t) = (rs, rc, rt)"
    and "fold (composite_step p v) ys (s', c, t) = (rs', rc', rt')"
  shows "rs \<le> rs' \<and> rc = rc' \<and> rt = rt' \<and> 0 \<le> rt"
  using assms(2-6)
proof (induction arbitrary: s s' c t rule: list_all2_induct)
  case (Cons a as b bs)
  obtain d ds where a: "a = (d, ds)" by (cases a)
  obtain ds' where b: "b = (d, ds')" using Cons.hyps a by (cases b) simp
  have w: "0 \<le> normalized_weight p d" using assms(1) by (simp add: weights_nonneg_def)
  from Cons.hyps a b have eq: "used_score u ds \<le> used_score v ds'" "ds_confidence ds = ds_confidence ds'" by simp_all
  with w Cons.prems(1) have "s + used_score u ds * normalized_weight p d \<le> s' + used_score v ds' * normalized_weight p d"
    by (intro f64_add_mono f64_mult_right_mono)
  from Cons.IH [OF this, of "t + normalized_weight p d" "c + ds_confidence ds * normalized_weight p d"] Cons.prems(2-4) a b eq w
  show ?case by (auto simp: composite_step_eq f64_add_nonneg)
qed simp

lemma composite_mono:
  assumes "weights_nonneg p"
    and "list_all2 (\<lambda>a b. fst a = fst b \<and> used_score u (snd a) \<le> used_score v (snd b) \<and> ds_confidence (snd a) = ds_confidence (snd b)) xs ys"
  shows "fst (compute_composite xs p u) \<le> fst (compute_composite ys p v)"
proof -
  obtain s c t where x: "fold (composite_step p u) xs (0, 0, 0) = (s, c, t)" by (cases "fold (composite_step p u) xs (0, 0, 0)")
  obtain s' c' t' where y: "fold (composite_step p v) ys (0, 0, 0) = (s', c', t')" by (cases "fold (composite_step p v) ys (0, 0, 0)")
  from composite_fold_mono [OF assms order_refl order_refl x y] have "s \<le> s'" "t = t'" "0 \<le> t" by auto
  then have "s / t * t \<le> s' / t * t" by (intro f64_mult_right_mono f64_divide_right_mono)
  with \<open>t = t'\<close> show ?thesis by (simp add: compute_composite_def x y min.coboundedI1)
qed

lemma composite_nonneg:
  assumes "weights_nonneg p" and "\<forall>kv \<in> set dims. 0 \<le> used_score u (snd kv) \<and> 0 \<le> ds_confidence (snd kv)"
  shows "0 \<le> fst (compute_composite dims p u) \<and> 0 \<le> snd (compute_composite dims p u)"
proof -
  have "0 \<le> s' \<and> 0 \<le> c' \<and> 0 \<le> t'"
    if "fold (composite_step p u) xs (s, c, t) = (s', c', t')" "0 \<le> s" "0 \<le> c" "0 \<le> t" "set xs \<subseteq> set dims" for xs s c t s' c' t'
    using that
  proof (induction xs arbitrary: s c t)
    case (Cons x xs)
    obtain d ds where x: "x = (d, ds)" by (cases x)
    have "0 \<le> normalized_weight p d" "0 \<le> used_score u ds" "0 \<le> ds_confidence ds"
      using assms Cons.prems(5) x by (auto simp: weights_nonneg_def)
    then show ?case using Cons.IH [of "s + used_score u ds * normalized_weight p d" "c + ds_confidence ds * normalized_weight p d" "t + normalized_weight p d"]
        Cons.prems x by (simp add: composite_step_eq f64_add_nonneg f64_mult_nonneg)
  qed simp
  from this [of dims 0 0 0] show ?thesis
    by (auto simp: compute_composite_def intro!: f64_mult_nonneg f64_divide_nonneg split: prod.split)
qed

lemma composite_conf_le_1: "snd (compute_composite dims p u) \<le> 1"
  by (simp add: compute_composite_def split: prod.split)

lemma gate_penalty_le: "list_ex mf_gate missing \<Longrightarrow> apply_gate_penalty x missing cap \<le> cap"
  and gate_penalty_le_self: "apply_gate_penalty x missing cap \<le> x"
  and gate_penalty_nonneg: "0 \<le> x \<Longrightarrow> 0 \<le> cap \<Longrightarrow> 0 \<le> apply_gate_penalty x missing cap"
  and gate_penalty_mono: "x \<le> y \<Longrightarrow> apply_gate_penalty x missing cap \<le> apply_gate_penalty y missing cap"
  by (auto simp: apply_gate_penalty_def min_le_iff_disj)

end
