(* ===== verification/ScoreEngine.thy ===== *)
theory ScoreEngine
  imports ScoreModels
begin

text \<open>
  \<open>app/score/score_engine.py\<close>: an entity scored in five dimensions against a profile. The providers of
  entity data, graph affinity and signals are records of functions, the score store is the list of the
  records saved in order; both are interfaces without an implementation in the repository. The
  duration of a batch is not modelled.
\<close>

section \<open>Criteria of the ideal customer profile\<close>

definition eval_exact_match :: "icp_criterion \<Rightarrow> pyval \<Rightarrow> f64" where
  "eval_exact_match c v =
     (case (v, ic_value c) of
        (PStr s, PStr t) \<Rightarrow> if py_lower (py_strip s) = py_lower (py_strip t) then 1 else 0
      | _ \<Rightarrow> if py_eq v (ic_value c) then 1 else 0)"

definition eval_range :: "icp_criterion \<Rightarrow> pyval \<Rightarrow> f64" where
  "eval_range c v =
     (case ic_range c of None \<Rightarrow> 0
      | Some (low, high) \<Rightarrow>
          (case py_float v of Inl _ \<Rightarrow> 0
           | Inr x \<Rightarrow>
               if low \<le> x \<and> x \<le> high then 1
               else (let span = high - low in
                     if span = 0 then 0
                     else max 0 (1 - (if x < low then low - x else x - high) / span))))"

definition eval_contains_criterion :: "icp_criterion \<Rightarrow> pyval \<Rightarrow> f64" where
  "eval_contains_criterion c v =
     (case v of
        PList vs \<Rightarrow>
          (case ic_value c of
             PList ts \<Rightarrow> if ts = [] then 0
               else py_int_div (int (length (filter (\<lambda>t. list_ex (py_eq t) vs) ts))) (int (length ts))
           | t \<Rightarrow> if list_ex (py_eq t) vs then 1 else 0)
      | PStr s \<Rightarrow> (case ic_value c of PStr t \<Rightarrow> if is_substring (py_lower t) (py_lower s) then 1 else 0 | _ \<Rightarrow> 0)
      | _ \<Rightarrow> 0)"

definition eval_boolean :: "icp_criterion \<Rightarrow> pyval \<Rightarrow> f64" where
  "eval_boolean c v = (if truthy v = truthy (ic_value c) then 1 else 0)"

definition eval_weighted_set :: "icp_criterion \<Rightarrow> pyval \<Rightarrow> f64" where
  "eval_weighted_set c v =
     (case (ic_set c, ic_weights c) of
        (Some _, Some ws) \<Rightarrow>
          (case v of
             PList vs \<Rightarrow>
               (let total = py_sum (dvalues ws) in
                if total = 0 then 0
                else min (py_sum (map (\<lambda>x. dget_or ws (py_str x) 0) (filter (\<lambda>x. dmem (py_str x) ws) vs)) / total) 1)
           | _ \<Rightarrow> dget_or ws (py_str v) 0)
      | _ \<Rightarrow> 0)"

definition evaluate_criterion :: "icp_criterion \<Rightarrow> pyval \<Rightarrow> f64" where
  "evaluate_criterion c v =
     (if v = PNone then 0
      else case ic_type c of
        ExactMatch \<Rightarrow> eval_exact_match c v
      | Range \<Rightarrow> eval_range c v
      | Contains \<Rightarrow> eval_contains_criterion c v
      | Boolean \<Rightarrow> eval_boolean c v
      | WeightedSet \<Rightarrow> eval_weighted_set c v)"

section \<open>The dimensions\<close>

definition empty_dimension :: "dimension \<Rightarrow> scoring_profile \<Rightarrow> missing_field list \<Rightarrow> dimension_score" where
  "empty_dimension d p missing =
     \<lparr>ds_dimension = d, ds_score = 0, ds_confidence = 0, ds_weight = get_weight p d, ds_contributions = [],
      ds_missing = missing, ds_evaluated = 0, ds_present = 0, ds_coverage = 0, ds_decayed = None, ds_factor = 1\<rparr>"

definition missing_fit_field :: "icp_criterion \<Rightarrow> f64 \<Rightarrow> pyerr + missing_field" where
  "missing_fit_field c total_weight =
     missing_checked \<lparr>mf_name = ic_name c, mf_dimension = Fit, mf_impact = min (ic_weight c / max total_weight 1) 1,
       mf_gate = ic_gate c, mf_recommendation = EnrichField\<rparr>"

definition fit_field_contribution ::
    "icp_criterion \<Rightarrow> pyval \<Rightarrow> f64 \<Rightarrow> f64 \<Rightarrow> string \<Rightarrow> pyerr + field_contribution \<times> f64" where
  "fit_field_contribution c v conf total_weight source =
     (let weighted = evaluate_criterion c v * conf * ic_weight c in
      bind_res (contribution_checked
        \<lparr>fc_name = ic_name c, fc_dimension = Fit, fc_raw = v,
         fc_contribution = min (weighted / max total_weight (flt (1 / 100))) 1, fc_confidence = conf,
         fc_source = source_of_text source, fc_match = ic_type c\<rparr>) (\<lambda>fc. Inr (fc, weighted)))"

record fit_state =
  ft_contributions :: "field_contribution list"
  ft_missing :: "missing_field list"
  ft_score :: f64
  ft_weight :: f64
  ft_present :: int

definition fit_step ::
    "fields \<Rightarrow> (string, f64) dict \<Rightarrow> (string, string) dict \<Rightarrow> scoring_profile \<Rightarrow> icp_criterion \<Rightarrow> fit_state \<Rightarrow> pyerr + fit_state" where
  "fit_step ent confs sources p c s =
     (let tw = ft_weight s + ic_weight c; v = dget_or ent (ic_name c) PNone; conf = dget_or confs (ic_name c) 0 in
      if v = PNone \<or> conf < sp_confidence_floor p
      then bind_res (missing_fit_field c tw) (\<lambda>m. Inr (s\<lparr>ft_weight := tw, ft_missing := ft_missing s @ [m]\<rparr>))
      else bind_res (fit_field_contribution c v conf tw (dget_or sources (ic_name c) ''enrichment'')) (\<lambda>(fc, weighted).
        Inr (s\<lparr>ft_weight := tw, ft_present := ft_present s + 1, ft_contributions := ft_contributions s @ [fc],
               ft_score := ft_score s + weighted\<rparr>)))"

fun fit_steps ::
    "fields \<Rightarrow> (string, f64) dict \<Rightarrow> (string, string) dict \<Rightarrow> scoring_profile \<Rightarrow> icp_criterion list \<Rightarrow> fit_state \<Rightarrow> pyerr + fit_state" where
  "fit_steps ent confs sources p [] s = Inr s"
| "fit_steps ent confs sources p (c # cs) s = bind_res (fit_step ent confs sources p c s) (fit_steps ent confs sources p cs)"

definition score_fit ::
    "fields \<Rightarrow> (string, f64) dict \<Rightarrow> (string, string) dict \<Rightarrow> icp_criterion list option \<Rightarrow> scoring_profile \<Rightarrow> pyerr + dimension_score" where
  "score_fit ent confs sources icp p =
     (let criteria = (case icp of None \<Rightarrow> [] | Some cs \<Rightarrow> criteria_by_dimension cs Fit) in
      if criteria = [] then dimension_checked (empty_dimension Fit p [])
      else bind_res (fit_steps ent confs sources p criteria
          \<lparr>ft_contributions = [], ft_missing = [], ft_score = 0, ft_weight = 0, ft_present = 0\<rparr>) (\<lambda>s.
        let raw = (if 0 < ft_weight s then ft_score s / ft_weight s else 0);
            avg = (if ft_contributions s = [] then 0
                   else py_sum (map fc_confidence (ft_contributions s)) / f_of_int (int (length (ft_contributions s))))
        in dimension_checked
          \<lparr>ds_dimension = Fit, ds_score = min raw 1, ds_confidence = avg, ds_weight = get_weight p Fit,
           ds_contributions = ft_contributions s, ds_missing = ft_missing s, ds_evaluated = int (length criteria),
           ds_present = ft_present s, ds_coverage = py_int_div (ft_present s) (int (length criteria)),
           ds_decayed = None, ds_factor = 1\<rparr>))"

record signal_provider =
  sg_engagement :: "string \<Rightarrow> f64"
  sg_intent :: "string \<Rightarrow> f64"
  sg_readiness :: "string \<Rightarrow> f64"
  sg_last_signal :: "string \<Rightarrow> int option"

definition signal_missing :: "string \<Rightarrow> dimension \<Rightarrow> f64 \<Rightarrow> recommendation \<Rightarrow> missing_field" where
  "signal_missing name d impact rec =
     \<lparr>mf_name = name, mf_dimension = d, mf_impact = impact, mf_gate = False, mf_recommendation = rec\<rparr>"

text \<open>The dimension of one value of a provider: \<open>score_intent\<close>, \<open>score_engagement\<close>, \<open>score_graph_affinity\<close>.\<close>

definition single_value_dimension ::
    "dimension \<Rightarrow> string \<Rightarrow> score_source \<Rightarrow> f64 \<Rightarrow> f64 \<Rightarrow> scoring_profile \<Rightarrow> pyerr + dimension_score" where
  "single_value_dimension d name source x confidence p =
     bind_res (contribution_checked
       \<lparr>fc_name = name, fc_dimension = d, fc_raw = PFloat x, fc_contribution = x, fc_confidence = confidence,
        fc_source = source, fc_match = ExactMatch\<rparr>) (\<lambda>fc.
       dimension_checked ((empty_dimension d p [])
         \<lparr>ds_score := min x 1, ds_confidence := confidence, ds_contributions := [fc], ds_evaluated := 1,
          ds_present := (if 0 < x then 1 else 0), ds_coverage := (if 0 < x then 1 else 0)\<rparr>))"

definition score_intent :: "signal_provider option \<Rightarrow> string \<Rightarrow> scoring_profile \<Rightarrow> pyerr + dimension_score" where
  "score_intent signals e p =
     (case signals of
        None \<Rightarrow> dimension_checked (empty_dimension Intent p [signal_missing ''intent_signals'' Intent (flt (1 / 2)) CaptureSignal])
      | Some sg \<Rightarrow> single_value_dimension Intent ''intent_score'' FromSignal (sg_intent sg e)
          (if sg_last_signal sg e = None then flt (3 / 10) else flt (7 / 10)) p)"

definition score_engagement :: "signal_provider option \<Rightarrow> string \<Rightarrow> scoring_profile \<Rightarrow> pyerr + dimension_score" where
  "score_engagement signals e p =
     (case signals of
        None \<Rightarrow> dimension_checked (empty_dimension Engagement p [signal_missing ''engagement_signals'' Engagement (flt (2 / 5)) CaptureSignal])
      | Some sg \<Rightarrow> single_value_dimension Engagement ''engagement_score'' FromSignal (sg_engagement sg e)
          (if sg_last_signal sg e = None then flt (1 / 4) else flt (3 / 4)) p)"

definition data_readiness :: "fields \<Rightarrow> (string, f64) dict \<Rightarrow> f64 \<times> f64" where
  "data_readiness ent confs =
     (let avg = py_sum (dvalues confs) / f_of_int (int (length confs));
          complete = py_int_div (int (length (filter (\<lambda>v. v \<noteq> PNone) (dvalues ent)))) (max (int (length ent)) 1)
      in (avg, avg * flt (3 / 5) + complete * flt (2 / 5)))"

definition readiness_part :: "string \<Rightarrow> f64 \<Rightarrow> f64 \<Rightarrow> score_source \<Rightarrow> pyerr + field_contribution" where
  "readiness_part name x confidence source =
     contribution_checked \<lparr>fc_name = name, fc_dimension = Readiness, fc_raw = PFloat x, fc_contribution = x * flt (1 / 2),
       fc_confidence = confidence, fc_source = source, fc_match = ExactMatch\<rparr>"

definition score_readiness ::
    "signal_provider option \<Rightarrow> string \<Rightarrow> fields \<Rightarrow> (string, f64) dict \<Rightarrow> scoring_profile \<Rightarrow> pyerr + dimension_score" where
  "score_readiness signals e ent confs p =
     bind_res (case signals of
        Some sg \<Rightarrow> bind_res (readiness_part ''readiness_signal'' (sg_readiness sg e) (flt (7 / 10)) FromSignal)
                     (\<lambda>fc. Inr ([sg_readiness sg e], [fc], []))
      | None \<Rightarrow> Inr ([], [], [signal_missing ''readiness_signals'' Readiness (flt (3 / 10)) CaptureSignal]))
     (\<lambda>(parts, fcs, missing).
       bind_res (if confs = [] then Inr (parts, fcs)
         else (let (avg, r) = data_readiness ent confs in
               bind_res (readiness_part ''data_readiness'' r avg FromEnrichment) (\<lambda>fc. Inr (parts @ [r], fcs @ [fc]))))
       (\<lambda>(parts, fcs).
         dimension_checked ((empty_dimension Readiness p missing)
           \<lparr>ds_score := min (if parts = [] then 0 else py_sum parts / f_of_int (int (length parts))) 1,
            ds_confidence := (if parts = [] then 0 else flt (3 / 5)), ds_contributions := fcs, ds_evaluated := 2,
            ds_present := int (length parts), ds_coverage := f_of_int (int (length parts)) / f_of_int 2\<rparr>)))"

record graph_provider =
  gp_affinity :: "string \<Rightarrow> string \<Rightarrow> f64"
  gp_community :: "string \<Rightarrow> string option"

definition score_graph_affinity :: "graph_provider option \<Rightarrow> string \<Rightarrow> string \<Rightarrow> scoring_profile \<Rightarrow> pyerr + dimension_score" where
  "score_graph_affinity graph e dm p =
     (case graph of
        None \<Rightarrow> dimension_checked (empty_dimension GraphAffinity p [signal_missing ''graph_affinity'' GraphAffinity (flt (1 / 5)) ReScore])
      | Some g \<Rightarrow> single_value_dimension GraphAffinity ''graph_affinity_score'' FromGraph (gp_affinity g e dm)
          (if (case gp_community g e of None \<Rightarrow> True | Some s \<Rightarrow> s = []) then flt (1 / 2) else flt (17 / 20)) p)"

section \<open>Entities and batches\<close>

record score_engine =
  eg_fields :: "string \<Rightarrow> string \<Rightarrow> fields"
  eg_confs :: "string \<Rightarrow> (string, f64) dict"
  eg_sources :: "string \<Rightarrow> (string, string) dict"
  eg_graph :: "graph_provider option"
  eg_signals :: "signal_provider option"

definition record_checked :: "score_record \<Rightarrow> pyerr + score_record" where
  "record_checked r = (if in_unit (sr_composite r) \<and> in_unit (sr_confidence r) then Inr r else Inl ValueError)"

definition disqualified_record :: "(string list \<Rightarrow> string list) \<Rightarrow> string \<Rightarrow> scoring_profile \<Rightarrow> fields \<Rightarrow> int \<Rightarrow> score_record" where
  "disqualified_record ord e p ent now =
     (let present = map fst (filter (\<lambda>kv. snd kv \<noteq> PNone) ent);
          expected = (case sp_icp p of None \<Rightarrow> [] | Some cs \<Rightarrow> dedup (map ic_name cs));
          absent = ord (filter (\<lambda>n. n \<notin> set present) expected)
      in \<lparr>sr_entity = e, sr_domain = sp_domain p, sr_dims = [], sr_composite = 0, sr_confidence = 0, sr_tier = Disqualified,
          sr_contributions = [],
          sr_missing = map (\<lambda>n. \<lparr>mf_name = n, mf_dimension = Fit, mf_impact = flt (1 / 2), mf_gate = True,
                                 mf_recommendation = EnrichField\<rparr>) absent,
          sr_scored_at = now, sr_decayed = None, sr_decay_applied = None,
          sr_provenance = \<lparr>pv_enrichment_run = None, pv_graph_match = None, pv_signals = [], pv_profile = sp_id p, pv_version = sp_version p\<rparr>\<rparr>)"

definition score_dimensions :: "score_engine \<Rightarrow> string \<Rightarrow> scoring_profile \<Rightarrow> pyerr + (dimension, dimension_score) dict" where
  "score_dimensions eg e p =
     (let ent = eg_fields eg e (sp_domain p); confs = eg_confs eg e in
      bind_res (score_fit ent confs (eg_sources eg e) (sp_icp p) p) (\<lambda>fit.
      bind_res (score_intent (eg_signals eg) e p) (\<lambda>intent.
      bind_res (score_engagement (eg_signals eg) e p) (\<lambda>engagement.
      bind_res (score_readiness (eg_signals eg) e ent confs p) (\<lambda>readiness.
      bind_res (score_graph_affinity (eg_graph eg) e (sp_domain p) p) (\<lambda>graph.
        Inr [(Fit, fit), (Intent, intent), (Engagement, engagement), (Readiness, readiness), (GraphAffinity, graph)]))))))"

definition scored_record ::
    "string \<Rightarrow> scoring_profile \<Rightarrow> string option \<Rightarrow> string option \<Rightarrow> int \<Rightarrow> (dimension, dimension_score) dict \<Rightarrow> score_record" where
  "scored_record e p run match now dims =
     (let composite = compute_composite dims p False;
          missing = concat (map (\<lambda>kv. ds_missing (snd kv)) dims);
          capped = apply_gate_penalty (fst composite) missing (sp_gate_penalty p)
      in \<lparr>sr_entity = e, sr_domain = sp_domain p, sr_dims = dims, sr_composite = capped, sr_confidence = snd composite,
          sr_tier = classify_tier p capped, sr_contributions = concat (map (\<lambda>kv. ds_contributions (snd kv)) dims),
          sr_missing = missing, sr_scored_at = now, sr_decayed = None, sr_decay_applied = None,
          sr_provenance = \<lparr>pv_enrichment_run = run, pv_graph_match = match, pv_signals = [],
                           pv_profile = sp_id p, pv_version = sp_version p\<rparr>\<rparr>)"

definition present_count :: "fields \<Rightarrow> int" where
  "present_count ent = int (length (filter (\<lambda>v. v \<noteq> PNone) (dvalues ent)))"

definition score_entity ::
    "score_engine \<Rightarrow> (string list \<Rightarrow> string list) \<Rightarrow> string \<Rightarrow> scoring_profile \<Rightarrow> string option \<Rightarrow> string option \<Rightarrow> int \<Rightarrow>
     score_record list \<Rightarrow> pyerr + score_record \<times> score_record list" where
  "score_entity eg ord e p run match now saved =
     (let ent = eg_fields eg e (sp_domain p) in
      if present_count ent < sp_min_fields p
      then (let r = disqualified_record ord e p ent now in Inr (r, saved @ [r]))
      else bind_res (score_dimensions eg e p) (\<lambda>dims.
        bind_res (record_checked (scored_record e p run match now dims)) (\<lambda>r. Inr (r, saved @ [r]))))"

record batch_response =
  br_scores :: "score_record list"
  br_total :: int
  br_scored :: int
  br_disqualified :: int
  br_avg :: f64
  br_tiers :: "(tier, int) dict"
  br_triggers :: "string list"

definition tally_record :: "score_record \<Rightarrow> batch_response \<Rightarrow> batch_response" where
  "tally_record r b =
     b\<lparr>br_scores := br_scores b @ [r],
       br_tiers := dset (sr_tier r) (dget_or (br_tiers b) (sr_tier r) 0 + 1) (br_tiers b),
       br_disqualified := (if sr_tier r = Disqualified then br_disqualified b + 1 else br_disqualified b),
       br_triggers := (if enrichment_trigger_fields r \<noteq> [] then br_triggers b @ [sr_entity r] else br_triggers b)\<rparr>"

fun batch_steps ::
    "score_engine \<Rightarrow> (string list \<Rightarrow> string list) \<Rightarrow> scoring_profile \<Rightarrow> int \<Rightarrow> string list \<Rightarrow> batch_response \<times> score_record list \<Rightarrow>
     pyerr + batch_response \<times> score_record list" where
  "batch_steps eg ord p now [] (b, saved) = Inr (b, saved)"
| "batch_steps eg ord p now (e # es) (b, saved) =
     bind_res (score_entity eg ord e p None None now saved) (\<lambda>(r, saved1). batch_steps eg ord p now es (tally_record r b, saved1))"

definition empty_batch :: "int \<Rightarrow> batch_response" where
  "empty_batch n = \<lparr>br_scores = [], br_total = n, br_scored = 0, br_disqualified = 0, br_avg = 0, br_tiers = [], br_triggers = []\<rparr>"

definition score_batch ::
    "score_engine \<Rightarrow> (string list \<Rightarrow> string list) \<Rightarrow> scoring_profile option \<Rightarrow> int \<Rightarrow> string list \<Rightarrow> score_record list \<Rightarrow>
     pyerr + batch_response \<times> score_record list" where
  "score_batch eg ord prof now es saved =
     (case prof of None \<Rightarrow> Inr (empty_batch (int (length es)), saved)
      | Some p \<Rightarrow>
          bind_res (batch_steps eg ord p now es (empty_batch (int (length es)), saved)) (\<lambda>(b, saved1).
            Inr (b\<lparr>br_scored := int (length (br_scores b)) - br_disqualified b,
                   br_avg := (if br_scores b = [] then 0
                     else py_round 4 (py_sum (map sr_composite (br_scores b)) / f_of_int (int (length (br_scores b)))))\<rparr>, saved1)))"

text \<open>The provenance is completed after the record was saved.\<close>

definition rescore_entity ::
    "score_engine \<Rightarrow> (string list \<Rightarrow> string list) \<Rightarrow> string \<Rightarrow> scoring_profile \<Rightarrow> int \<Rightarrow> score_record option \<Rightarrow> score_record list \<Rightarrow>
     pyerr + score_record \<times> score_record list" where
  "rescore_entity eg ord e p now previous saved =
     bind_res (score_entity eg ord e p None None now saved) (\<lambda>(r, saved1).
       case previous of None \<Rightarrow> Inr (r, saved1)
       | Some old \<Rightarrow>
           (let pv = sr_provenance r; opv = sr_provenance old;
                run = (case pv_enrichment_run pv of Some (c # cs) \<Rightarrow> Some (c # cs) | _ \<Rightarrow> pv_enrichment_run opv)
            in Inr (r\<lparr>sr_provenance := pv\<lparr>pv_enrichment_run := run,
                        pv_signals := ord (dedup (pv_signals opv @ pv_signals pv))\<rparr>\<rparr>, saved1)))"

section \<open>Errors\<close>

text \<open>The only failure is a value outside [0, 1].\<close>

definition only_value_error :: "pyerr + 'a \<Rightarrow> bool" where
  "only_value_error r \<longleftrightarrow> (\<forall>e. r = Inl e \<longrightarrow> e = ValueError)"

lemma only_value_error_simps [simp]:
  "only_value_error (Inr x)" "only_value_error (contribution_checked c)" "only_value_error (missing_checked m)"
  "only_value_error (dimension_checked d)" "only_value_error (record_checked r)"
  by (simp_all add: only_value_error_def contribution_checked_def missing_checked_def dimension_checked_def record_checked_def)

lemma only_value_error_bind: "only_value_error r \<Longrightarrow> (\<And>x. r = Inr x \<Longrightarrow> only_value_error (f x)) \<Longrightarrow> only_value_error (bind_res r f)"
  by (cases r) (simp_all add: only_value_error_def)

lemma fit_steps_error: "only_value_error (fit_steps ent confs sources p cs s)"
  by (induction cs arbitrary: s)
    (auto simp: fit_step_def missing_fit_field_def fit_field_contribution_def Let_def intro!: only_value_error_bind split: prod.split)

lemma single_value_error: "only_value_error (single_value_dimension d name source x confidence p)"
  by (auto simp: single_value_dimension_def intro!: only_value_error_bind)

lemma dimension_errors:
  "only_value_error (score_fit ent confs sources icp p)" "only_value_error (score_intent sg e p)"
  "only_value_error (score_engagement sg e p)" "only_value_error (score_readiness sg e ent confs p)"
  "only_value_error (score_graph_affinity g e dm p)"
  by (auto simp: score_fit_def score_intent_def score_engagement_def score_graph_affinity_def score_readiness_def Let_def
      readiness_part_def single_value_error fit_steps_error intro!: only_value_error_bind split: option.split prod.split)

lemma score_dimensions_error: "score_dimensions eg e p = Inl err \<Longrightarrow> err = ValueError"
proof -
  have "only_value_error (score_dimensions eg e p)"
    by (simp add: score_dimensions_def Let_def) (intro only_value_error_bind dimension_errors only_value_error_simps)
  then show "score_dimensions eg e p = Inl err \<Longrightarrow> err = ValueError" by (simp add: only_value_error_def)
qed

lemma single_value_above_one: "1 < x \<Longrightarrow> single_value_dimension d name source x confidence p = Inl ValueError"
proof -
  assume "1 < x"
  then have "\<not> x \<le> 1" by simp
  then show ?thesis by (simp add: single_value_dimension_def contribution_checked_def in_unit_def)
qed

lemma checked_range: "dimension_checked d = Inr d' \<Longrightarrow> d' = d \<and> in_unit (ds_score d') \<and> in_unit (ds_confidence d')"
  by (auto simp: dimension_checked_def split: if_splits)

lemma dimension_ranges:
  "score_fit ent confs sources icp p = Inr d \<Longrightarrow> in_unit (ds_score d) \<and> in_unit (ds_confidence d)"
  "score_intent sg e p = Inr d \<Longrightarrow> in_unit (ds_score d) \<and> in_unit (ds_confidence d)"
  "score_engagement sg e p = Inr d \<Longrightarrow> in_unit (ds_score d) \<and> in_unit (ds_confidence d)"
  "score_readiness sg e ent confs p = Inr d \<Longrightarrow> in_unit (ds_score d) \<and> in_unit (ds_confidence d)"
  "score_graph_affinity g e dm p = Inr d \<Longrightarrow> in_unit (ds_score d) \<and> in_unit (ds_confidence d)"
  by (auto simp: score_fit_def score_intent_def score_engagement_def score_graph_affinity_def score_readiness_def Let_def
      single_value_dimension_def bind_res_Inr_iff dest!: checked_range split: option.splits if_splits prod.splits)

lemma score_dimensions_ranges:
  assumes "score_dimensions eg e p = Inr dims" and "kv \<in> set dims"
  shows "in_unit (ds_score (snd kv)) \<and> in_unit (ds_confidence (snd kv))"
proof -
  let ?ent = "eg_fields eg e (sp_domain p)" and ?confs = "eg_confs eg e"
  from assms(1) obtain a b c d f where
    "score_fit ?ent ?confs (eg_sources eg e) (sp_icp p) p = Inr a" "score_intent (eg_signals eg) e p = Inr b"
    "score_engagement (eg_signals eg) e p = Inr c" "score_readiness (eg_signals eg) e ?ent ?confs p = Inr d"
    "score_graph_affinity (eg_graph eg) e (sp_domain p) p = Inr f"
    "dims = [(Fit, a), (Intent, b), (Engagement, c), (Readiness, d), (GraphAffinity, f)]"
    by (auto simp: score_dimensions_def Let_def bind_res_Inr_iff)
  with assms(2) dimension_ranges show ?thesis by auto
qed

definition enough_fields :: "score_engine \<Rightarrow> string \<Rightarrow> scoring_profile \<Rightarrow> bool" where
  "enough_fields eg e p \<longleftrightarrow> sp_min_fields p \<le> present_count (eg_fields eg e (sp_domain p))"

lemma score_entity_saved: "score_entity eg ord e p run match now saved = Inr (r, saved') \<Longrightarrow> saved' = saved @ [r] \<and> sr_entity r = e"
  by (auto simp: score_entity_def Let_def bind_res_Inr_iff disqualified_record_def record_checked_def scored_record_def split: if_splits)

lemma score_entity_dims:
  assumes "enough_fields eg e p" and "score_dimensions eg e p = Inr dims" and "weights_nonneg p" and "in_unit (sp_gate_penalty p)"
  defines "composite \<equiv> apply_gate_penalty (fst (compute_composite dims p False)) (concat (map (\<lambda>kv. ds_missing (snd kv)) dims)) (sp_gate_penalty p)"
  shows "in_unit composite \<and> (\<exists>r. score_entity eg ord e p run match now saved = Inr (r, saved @ [r]) \<and> sr_composite r = composite \<and>
    sr_missing r = concat (map (\<lambda>kv. ds_missing (snd kv)) dims) \<and> sr_tier r = classify_tier p composite)"
proof -
  have "0 \<le> used_score False (snd kv) \<and> 0 \<le> ds_confidence (snd kv)" if "kv \<in> set dims" for kv
    using score_dimensions_ranges [OF assms(2) that] by (simp add: in_unit_def used_score_def)
  from composite_nonneg [OF assms(3), of dims False] this
  have c: "0 \<le> fst (compute_composite dims p False)" "in_unit (snd (compute_composite dims p False))"
    using composite_conf_le_1 by (auto simp: in_unit_def)
  have u: "in_unit composite" unfolding composite_def in_unit_def
    using gate_penalty_nonneg [OF c(1)] assms(4) gate_penalty_le_self composite_le_1 by (meson in_unit_def order_trans)
  from u c(2) assms(1,2) show ?thesis unfolding composite_def
    by (simp add: score_entity_def enough_fields_def not_less [symmetric] record_checked_def) (simp add: scored_record_def Let_def)
qed

section \<open>Properties\<close>

text \<open>A gate criterion of the fit without a value the profile trusts.\<close>

definition gate_unmet :: "score_engine \<Rightarrow> string \<Rightarrow> scoring_profile \<Rightarrow> bool" where
  "gate_unmet eg e p \<longleftrightarrow> (\<exists>cs c. sp_icp p = Some cs \<and> c \<in> set cs \<and> ic_dimension c = Fit \<and> ic_gate c \<and>
     (dget_or (eg_fields eg e (sp_domain p)) (ic_name c) PNone = PNone \<or>
      dget_or (eg_confs eg e) (ic_name c) 0 < sp_confidence_floor p))"

lemma fit_steps_gates:
  "fit_steps ent confs sources p cs s = Inr s' \<Longrightarrow> list_ex mf_gate (ft_missing s') \<longleftrightarrow> list_ex mf_gate (ft_missing s) \<or>
     list_ex (\<lambda>c. ic_gate c \<and> (dget_or ent (ic_name c) PNone = PNone \<or> dget_or confs (ic_name c) 0 < sp_confidence_floor p)) cs"
proof (induction cs arbitrary: s)
  case (Cons c cs)
  from Cons.prems obtain s1 where s1: "fit_step ent confs sources p c s = Inr s1" "fit_steps ent confs sources p cs s1 = Inr s'"
    by (auto simp: bind_res_Inr_iff)
  have "list_ex mf_gate (ft_missing s1) \<longleftrightarrow> list_ex mf_gate (ft_missing s) \<or>
      ic_gate c \<and> (dget_or ent (ic_name c) PNone = PNone \<or> dget_or confs (ic_name c) 0 < sp_confidence_floor p)"
    using s1(1) by (auto simp: fit_step_def Let_def bind_res_Inr_iff missing_fit_field_def missing_checked_def split: if_splits)
  with Cons.IH [OF s1(2)] show ?case by auto
qed simp

lemma dimension_gates:
  "score_fit ent confs sources icp p = Inr d \<Longrightarrow> list_ex mf_gate (ds_missing d) \<longleftrightarrow> (\<exists>cs c. icp = Some cs \<and> c \<in> set cs \<and>
     ic_dimension c = Fit \<and> ic_gate c \<and> (dget_or ent (ic_name c) PNone = PNone \<or> dget_or confs (ic_name c) 0 < sp_confidence_floor p))"
  "score_intent sg e p = Inr d \<Longrightarrow> \<not> list_ex mf_gate (ds_missing d)"
  "score_engagement sg e p = Inr d \<Longrightarrow> \<not> list_ex mf_gate (ds_missing d)"
  "score_readiness sg e ent confs p = Inr d \<Longrightarrow> \<not> list_ex mf_gate (ds_missing d)"
  "score_graph_affinity g e dm p = Inr d \<Longrightarrow> \<not> list_ex mf_gate (ds_missing d)"
proof -
  assume a: "score_fit ent confs sources icp p = Inr d"
  show "list_ex mf_gate (ds_missing d) \<longleftrightarrow> (\<exists>cs c. icp = Some cs \<and> c \<in> set cs \<and>
     ic_dimension c = Fit \<and> ic_gate c \<and> (dget_or ent (ic_name c) PNone = PNone \<or> dget_or confs (ic_name c) 0 < sp_confidence_floor p))"
  proof (cases "(case icp of None \<Rightarrow> [] | Some cs \<Rightarrow> criteria_by_dimension cs Fit) = []")
    case True
    with a have "ds_missing d = []" by (auto simp: score_fit_def empty_dimension_def dest!: checked_range)
    with True show ?thesis by (auto simp: criteria_by_dimension_def filter_empty_conv split: option.splits)
  next
    case False
    then obtain cs where cs: "icp = Some cs" "criteria_by_dimension cs Fit \<noteq> []" by (cases icp) auto
    with a obtain s where s: "fit_steps ent confs sources p (criteria_by_dimension cs Fit)
        \<lparr>ft_contributions = [], ft_missing = [], ft_score = 0, ft_weight = 0, ft_present = 0\<rparr> = Inr s" "ds_missing d = ft_missing s"
      by (auto simp: score_fit_def bind_res_Inr_iff Let_def dest!: checked_range)
    from fit_steps_gates [OF s(1)] s(2) cs(1) show ?thesis by (auto simp: criteria_by_dimension_def list_ex_iff)
  qed
qed (auto simp: score_intent_def score_engagement_def score_readiness_def score_graph_affinity_def Let_def empty_dimension_def
    signal_missing_def single_value_dimension_def missing_checked_def bind_res_Inr_iff
    dest!: checked_range split: option.splits if_splits prod.splits)

lemma score_dimensions_gates:
  assumes "score_dimensions eg e p = Inr dims"
  shows "list_ex mf_gate (concat (map (\<lambda>kv. ds_missing (snd kv)) dims)) \<longleftrightarrow> gate_unmet eg e p"
proof -
  let ?ent = "eg_fields eg e (sp_domain p)" and ?confs = "eg_confs eg e"
  from assms obtain a b c d f where
    "score_fit ?ent ?confs (eg_sources eg e) (sp_icp p) p = Inr a" "score_intent (eg_signals eg) e p = Inr b"
    "score_engagement (eg_signals eg) e p = Inr c" "score_readiness (eg_signals eg) e ?ent ?confs p = Inr d"
    "score_graph_affinity (eg_graph eg) e (sp_domain p) p = Inr f"
    "dims = [(Fit, a), (Intent, b), (Engagement, c), (Readiness, d), (GraphAffinity, f)]"
    by (auto simp: score_dimensions_def Let_def bind_res_Inr_iff)
  with dimension_gates show ?thesis by (simp add: gate_unmet_def list_ex_append)
qed

text \<open>
  C25: a scored entity. When an entity has the fields the profile asks for and its dimensions can be computed, under weights
  that are not negative and a gate penalty in [0, 1], the record is built and saved: its composite
  is in [0, 1] and is the weighted composite of the dimensions, cut to the gate penalty exactly when a gate criterion of the
  fit has no value, or one below the confidence floor (gate criteria of other dimensions are never read), and its tier is one
  whose threshold the composite reaches, the highest such one, if the profile has any.
\<close>

theorem scored_entity_sound:
  assumes "enough_fields eg e p" and "score_dimensions eg e p = Inr dims" and "weights_nonneg p" and "in_unit (sp_gate_penalty p)"
  shows "\<exists>r. score_entity eg ord e p run match now saved = Inr (r, saved @ [r]) \<and> in_unit (sr_composite r) \<and>
    sr_composite r = (let full = fst (compute_composite dims p False) in if gate_unmet eg e p then min full (sp_gate_penalty p) else full) \<and>
    (\<forall>t h. (t, h) \<in> set (sp_tiers p) \<longrightarrow> h \<le> sr_composite r \<longrightarrow>
       (\<exists>h'. (sr_tier r, h') \<in> set (sp_tiers p) \<and> h \<le> h' \<and> h' \<le> sr_composite r))"
proof -
  from score_entity_dims [OF assms, of ord run match now saved] obtain r where
    r: "score_entity eg ord e p run match now saved = Inr (r, saved @ [r])" "in_unit (sr_composite r)"
    "sr_composite r = apply_gate_penalty (fst (compute_composite dims p False)) (concat (map (\<lambda>kv. ds_missing (snd kv)) dims)) (sp_gate_penalty p)"
    "sr_tier r = classify_tier p (sr_composite r)" by auto
  from r(3) have "sr_composite r = (let full = fst (compute_composite dims p False) in if gate_unmet eg e p then min full (sp_gate_penalty p) else full)"
    by (simp add: apply_gate_penalty_def score_dimensions_gates [OF assms(2)])
  moreover have "\<forall>t h. (t, h) \<in> set (sp_tiers p) \<longrightarrow> h \<le> sr_composite r \<longrightarrow>
       (\<exists>h'. (sr_tier r, h') \<in> set (sp_tiers p) \<and> h \<le> h' \<and> h' \<le> sr_composite r)"
    using classify_tier_best [of _ _ p "sr_composite r"] r(4) by auto
  ultimately show ?thesis using r(1,2) by blast
qed

definition sample_profile :: scoring_profile where
  "sample_profile = \<lparr>sp_id = ''p'', sp_domain = ''plastics'', sp_version = ''1.0.0'', sp_weights = [(Fit, 1)], sp_decay = [],
     sp_tiers = [(Hot, 1), (Cold, 0)],
     sp_icp = Some [\<lparr>ic_name = ''polymer'', ic_type = ExactMatch, ic_value = PStr ''HDPE'', ic_range = None, ic_set = None,
       ic_weights = None, ic_weight = 1, ic_gate = True, ic_dimension = Fit\<rparr>],
     sp_confidence_floor = 0, sp_gate_penalty = 0, sp_min_fields = 1\<rparr>"

definition sample_score_engine :: "fields \<Rightarrow> f64 option \<Rightarrow> score_engine" where
  "sample_score_engine ent intent = \<lparr>eg_fields = (\<lambda>_ _. ent), eg_confs = (\<lambda>_. []), eg_sources = (\<lambda>_. []), eg_graph = None,
     eg_signals = (case intent of None \<Rightarrow> None | Some x \<Rightarrow>
       Some \<lparr>sg_engagement = (\<lambda>_. 0), sg_intent = (\<lambda>_. x), sg_readiness = (\<lambda>_. 0), sg_last_signal = (\<lambda>_. None)\<rparr>)\<rparr>"

lemma flt_in_unit: "0 \<le> q \<Longrightarrow> q \<le> 1 \<Longrightarrow> in_unit (flt q)"
  by (simp add: in_unit_def flt_nonneg flt_le_1)

lemma sample_weights: "weights_nonneg sample_profile" "in_unit (sp_gate_penalty sample_profile)"
  by (auto simp: weights_nonneg_def normalized_weight_def weights_sum_def sample_profile_def dget_or_def in_unit_def)

lemma sample_dimensions: "\<exists>dims. score_dimensions (sample_score_engine [(''name'', PStr ''Acme'')] None) ''e'' sample_profile = Inr dims"
  by (simp add: score_dimensions_def sample_score_engine_def score_fit_def sample_profile_def criteria_by_dimension_def fit_step_def
      dget_or_def missing_fit_field_def missing_checked_def in_unit_def dimension_checked_def get_weight_def score_intent_def
      score_engagement_def score_readiness_def score_graph_affinity_def empty_dimension_def)

theorem scored_entity_sound_witness:
  "\<exists>r. score_entity (sample_score_engine [(''name'', PStr ''Acme'')] None) (\<lambda>xs. xs) ''e'' sample_profile None None 0 [] = Inr (r, [r]) \<and>
     in_unit (sr_composite r)"
proof -
  obtain dims where d: "score_dimensions (sample_score_engine [(''name'', PStr ''Acme'')] None) ''e'' sample_profile = Inr dims"
    using sample_dimensions by blast
  have "enough_fields (sample_score_engine [(''name'', PStr ''Acme'')] None) ''e'' sample_profile"
    by (simp add: enough_fields_def present_count_def sample_score_engine_def sample_profile_def)
  from scored_entity_sound [OF this d sample_weights, of "\<lambda>xs. xs" None None 0 "[]"] show ?thesis by auto
qed

text \<open>
  An intent above 1 aborts the scoring. The dimension caps the signal at 1, but the contribution is
  built from the uncapped value first and refuses it, so the entity gets no record, and a batch that
  contains it none at all.
\<close>

theorem signal_above_one_aborts:
  assumes "eg_signals eg = Some sg" and "1 < sg_intent sg e" and "enough_fields eg e p"
  shows "score_entity eg ord e p run match now saved = Inl ValueError"
proof -
  have "score_intent (Some sg) e p = Inl ValueError"
    using single_value_above_one [OF assms(2)] by (simp add: score_intent_def)
  then have "\<exists>err. score_dimensions eg e p = Inl err"
    by (cases "score_fit (eg_fields eg e (sp_domain p)) (eg_confs eg e) (eg_sources eg e) (sp_icp p) p")
      (simp_all add: score_dimensions_def assms(1) bind_res_def)
  then have "score_dimensions eg e p = Inl ValueError" using score_dimensions_error by blast
  with assms(3) show ?thesis by (simp add: score_entity_def enough_fields_def not_less bind_res_def)
qed

theorem signal_above_one_aborts_witness:
  "score_entity (sample_score_engine [(''name'', PStr ''Acme'')] (Some (f_of_int 2))) (\<lambda>xs. xs) ''e'' sample_profile None None 0 [] = Inl ValueError"
proof -
  let ?sg = "\<lparr>sg_engagement = (\<lambda>_. 0), sg_intent = (\<lambda>_. f_of_int 2), sg_readiness = (\<lambda>_. 0), sg_last_signal = (\<lambda>_. None)\<rparr>"
  have "1 < sg_intent ?sg ''e''" by (simp add: f64_eval)
  from signal_above_one_aborts [OF _ this, of "sample_score_engine [(''name'', PStr ''Acme'')] (Some (f_of_int 2))" sample_profile]
  show ?thesis by (simp add: sample_score_engine_def enough_fields_def present_count_def sample_profile_def)
qed

text \<open>
  The contribution of a criterion is measured against the weights seen so far, not against all of
  them: that of the first criterion does not change when others are added behind it.
\<close>

lemma fit_steps_prefix:
  "fit_steps ent confs sources p cs s = Inr s' \<Longrightarrow> \<exists>more. ft_contributions s' = ft_contributions s @ more"
proof (induction cs arbitrary: s)
  case (Cons c cs)
  from Cons.prems obtain s1 where s1: "fit_step ent confs sources p c s = Inr s1" "fit_steps ent confs sources p cs s1 = Inr s'"
    by (auto simp: bind_res_Inr_iff)
  from s1(1) have "\<exists>more. ft_contributions s1 = ft_contributions s @ more"
    by (auto simp: fit_step_def Let_def bind_res_Inr_iff split: if_splits)
  with Cons.IH [OF s1(2)] show ?case by auto
qed simp

theorem first_contribution_ignores_the_rest:
  assumes "score_fit ent confs sources (Some (c # cs)) p = Inr d" and "ic_dimension c = Fit"
    and "dget_or ent (ic_name c) PNone = v" and "v \<noteq> PNone" and "dget_or confs (ic_name c) 0 = conf" and "\<not> conf < sp_confidence_floor p"
  shows "fc_contribution (hd (ds_contributions d)) =
    min (evaluate_criterion c v * conf * ic_weight c / max (ic_weight c) (flt (1 / 100))) 1"
proof -
  let ?s0 = "\<lparr>ft_contributions = [], ft_missing = [], ft_score = 0, ft_weight = 0, ft_present = 0\<rparr>"
  from assms(1,2) obtain s1 s' where
    s1: "fit_step ent confs sources p c ?s0 = Inr s1" "fit_steps ent confs sources p (criteria_by_dimension cs Fit) s1 = Inr s'"
    and d: "ds_contributions d = ft_contributions s'"
    by (auto simp: score_fit_def criteria_by_dimension_def Let_def bind_res_Inr_iff dimension_checked_def split: if_splits)
  from s1(1) assms(3-6) obtain fc w where fc: "fit_field_contribution c v conf (ic_weight c) (dget_or sources (ic_name c) ''enrichment'') = Inr (fc, w)"
    "ft_contributions s1 = [fc]"
    by (auto simp: fit_step_def Let_def bind_res_Inr_iff)
  from fit_steps_prefix [OF s1(2)] fc(2) d have "hd (ds_contributions d) = fc" by auto
  moreover from fc(1) have "fc_contribution fc = min (evaluate_criterion c v * conf * ic_weight c / max (ic_weight c) (flt (1 / 100))) 1"
    by (auto simp: fit_field_contribution_def Let_def bind_res_Inr_iff contribution_checked_def split: if_splits)
  ultimately show ?thesis by simp
qed

section \<open>Batches\<close>

definition tally_ok :: "batch_response \<Rightarrow> bool" where
  "tally_ok b \<longleftrightarrow> sum_list (dvalues (br_tiers b)) = int (length (br_scores b)) \<and> dict_ok (br_tiers b) \<and>
     br_disqualified b = int (length (filter (\<lambda>r. sr_tier r = Disqualified) (br_scores b)))"

lemma sum_counter: "dict_ok d \<Longrightarrow> sum_list (dvalues (dset k (v :: int) d)) = sum_list (dvalues d) - dget_or d k 0 + v"
  using sum_dset [of d snd k v] by (auto simp: old_part_def dget_or_def split: option.splits)

lemma tally_step: "tally_ok b \<Longrightarrow> tally_ok (tally_record r b)"
  by (simp add: tally_ok_def tally_record_def sum_counter alist.ok_put)

lemma batch_steps_spec:
  "batch_steps eg ord p now es (b, saved) = Inr (b', saved') \<Longrightarrow> tally_ok b \<Longrightarrow>
   \<exists>rs. br_scores b' = br_scores b @ rs \<and> saved' = saved @ rs \<and> map sr_entity rs = es \<and> tally_ok b' \<and> br_total b' = br_total b"
proof (induction es arbitrary: b saved)
  case (Cons e es)
  from Cons.prems(1) obtain r saved1 where r: "score_entity eg ord e p None None now saved = Inr (r, saved1)"
    and rest: "batch_steps eg ord p now es (tally_record r b, saved1) = Inr (b', saved')"
    by (auto simp: bind_res_Inr_iff)
  from Cons.IH [OF rest tally_step [OF Cons.prems(2)]] score_entity_saved [OF r] show ?case
    by (auto simp: tally_record_def)
qed simp

text \<open>
  The accounts of a batch. A batch that returns has scored every entity in order and saved exactly
  these records; the scored and disqualified counts add up to the total, and so do the tier counts.
\<close>

theorem batch_accounting:
  assumes "score_batch eg ord (Some p) now es saved = Inr (b, saved')"
  shows "map sr_entity (br_scores b) = es \<and> saved' = saved @ br_scores b \<and> br_total b = int (length es) \<and>
    br_scored b + br_disqualified b = br_total b \<and> sum_list (dvalues (br_tiers b)) = br_total b \<and>
    br_disqualified b = int (length (filter (\<lambda>r. sr_tier r = Disqualified) (br_scores b)))"
proof -
  from assms obtain b1 where b1: "batch_steps eg ord p now es (empty_batch (int (length es)), saved) = Inr (b1, saved')"
    and b: "br_scores b = br_scores b1" "br_total b = br_total b1" "br_disqualified b = br_disqualified b1" "br_tiers b = br_tiers b1"
      "br_scored b = int (length (br_scores b1)) - br_disqualified b1"
    by (auto simp: score_batch_def bind_res_Inr_iff)
  have "tally_ok (empty_batch n)" for n by (simp add: tally_ok_def empty_batch_def)
  from batch_steps_spec [OF b1 this] b show ?thesis by (auto simp: tally_ok_def empty_batch_def)
qed

theorem batch_accounting_witness:
  "\<exists>b saved. score_batch (sample_score_engine [] None) (\<lambda>xs. xs) (Some sample_profile) 0 [''a'', ''b''] [] = Inr (b, saved) \<and>
     map sr_entity (br_scores b) = [''a'', ''b''] \<and> br_scored b + br_disqualified b = 2"
proof -
  have "\<exists>b saved. score_batch (sample_score_engine [] None) (\<lambda>xs. xs) (Some sample_profile) 0 [''a'', ''b''] [] = Inr (b, saved)"
    by (simp add: score_batch_def score_entity_def sample_score_engine_def present_count_def sample_profile_def Let_def)
  then obtain b saved where b: "score_batch (sample_score_engine [] None) (\<lambda>xs. xs) (Some sample_profile) 0 [''a'', ''b''] [] = Inr (b, saved)" by blast
  from batch_accounting [OF b] b show ?thesis by auto
qed

end
