(* ===== verification/ScoreDecay.thy ===== *)
theory ScoreDecay
  imports ScoreModels
begin

text \<open>
  \<open>app/score/score_decay.py\<close>: the decay of a stored score with time. The providers of timestamps are a
  record of functions, instants are microseconds, and the store is the list of the records saved; the
  record a call changes in place is returned. \<open>math.pow(2, x)\<close> is the parameter \<open>pow2\<close>.
\<close>

record dimension_decay =
  dd_dimension :: dimension
  dd_original :: f64
  dd_decayed :: f64
  dd_factor :: f64
  dd_days :: f64
  dd_half_life :: f64
  dd_reference :: int

definition decay_pct :: "dimension_decay \<Rightarrow> f64" where
  "decay_pct r = (if dd_original r = 0 then 0 else (1 - dd_factor r) * f_of_int 100)"

definition is_significantly_decayed :: "dimension_decay \<Rightarrow> bool" where
  "is_significantly_decayed r \<longleftrightarrow> dd_factor r < flt (1 / 2)"

record decay_report =
  de_entity :: string
  de_domain :: string
  de_results :: "dimension_decay list"
  de_original :: f64
  de_decayed :: f64
  de_original_tier :: tier
  de_decayed_tier :: tier
  de_applied_at :: int

definition tier_changed :: "decay_report \<Rightarrow> bool" where
  "tier_changed r \<longleftrightarrow> de_original_tier r \<noteq> de_decayed_tier r"

definition less_decayed :: "dimension_decay \<Rightarrow> dimension_decay \<Rightarrow> dimension_decay" where
  "less_decayed r best = (if dd_factor r < dd_factor best then r else best)"

definition most_decayed_dimension :: "decay_report \<Rightarrow> dimension_decay option" where
  "most_decayed_dimension rep = (case de_results rep of [] \<Rightarrow> None | r # rs \<Rightarrow> Some (fold less_decayed rs r))"

definition composite_decay_pct :: "decay_report \<Rightarrow> f64" where
  "composite_decay_pct r =
     (if de_original r = 0 then 0 else (de_original r - de_decayed r) / de_original r * f_of_int 100)"

definition needs_re_enrichment :: "decay_report \<Rightarrow> bool" where
  "needs_re_enrichment r = list_ex is_significantly_decayed (de_results r)"

record timestamp_provider =
  tp_enriched :: "string \<Rightarrow> int option"
  tp_signal :: "string \<Rightarrow> int option"
  tp_graph :: "string \<Rightarrow> int option"

definition resolve_dimension_timestamp :: "dimension \<Rightarrow> int \<Rightarrow> timestamp_provider option \<Rightarrow> string \<Rightarrow> int" where
  "resolve_dimension_timestamp d scored_at provider e =
     (case provider of None \<Rightarrow> scored_at
      | Some tp \<Rightarrow>
          (let ts = (case d of Fit \<Rightarrow> tp_enriched tp e | GraphAffinity \<Rightarrow> tp_graph tp e | _ \<Rightarrow> tp_signal tp e)
           in case ts of None \<Rightarrow> scored_at | Some t \<Rightarrow> t))"

section \<open>The decay engine\<close>

definition config_factor :: "(f64 \<Rightarrow> f64) \<Rightarrow> scoring_profile \<Rightarrow> dimension \<Rightarrow> f64 \<Rightarrow> f64" where
  "config_factor pow2 p d days =
     (let c = get_decay_config p d in compute_decay_factor pow2 days (dc_half_life c) (dc_min_score c) (dc_max_decay c))"

definition decay_entry ::
    "(f64 \<Rightarrow> f64) \<Rightarrow> scoring_profile \<Rightarrow> f64 \<Rightarrow> f64 \<Rightarrow> int \<Rightarrow> dimension \<times> dimension_score \<Rightarrow> (dimension \<times> dimension_score) \<times> dimension_decay" where
  "decay_entry pow2 p days shown_days ref entry =
     (let (d, ds) = entry; factor = config_factor pow2 p d days; decayed = ds_score ds * factor
      in ((d, ds\<lparr>ds_decayed := Some (py_round 6 decayed), ds_factor := py_round 6 factor\<rparr>),
          \<lparr>dd_dimension = d, dd_original = ds_score ds, dd_decayed = decayed, dd_factor = factor, dd_days = shown_days,
           dd_half_life = dc_half_life (get_decay_config p d), dd_reference = ref\<rparr>))"

definition days_between :: "int \<Rightarrow> int \<Rightarrow> f64" where
  "days_between now ref = py_int_div (now - ref) 1000000 / f_of_int 86400"

definition decay_at ::
    "(f64 \<Rightarrow> f64) \<Rightarrow> timestamp_provider option \<Rightarrow> scoring_profile \<Rightarrow> int \<Rightarrow> score_record \<Rightarrow> dimension \<times> dimension_score \<Rightarrow>
     (dimension \<times> dimension_score) \<times> dimension_decay" where
  "decay_at pow2 tp p now r entry =
     (let ref = resolve_dimension_timestamp (fst entry) (sr_scored_at r) tp (sr_entity r); days = days_between now ref
      in decay_entry pow2 p days (py_round 2 days) ref entry)"

definition decayed_composite_of :: "score_record \<Rightarrow> scoring_profile \<Rightarrow> (dimension, dimension_score) dict \<Rightarrow> f64" where
  "decayed_composite_of r p dims = apply_gate_penalty (fst (compute_composite dims p True)) (sr_missing r) (sp_gate_penalty p)"

definition report_of :: "score_record \<Rightarrow> scoring_profile \<Rightarrow> int \<Rightarrow> dimension_decay list \<Rightarrow> f64 \<Rightarrow> decay_report" where
  "report_of r p now results composite =
     \<lparr>de_entity = sr_entity r, de_domain = sr_domain r, de_results = results, de_original = sr_composite r,
      de_decayed = composite, de_original_tier = sr_tier r, de_decayed_tier = classify_tier p composite, de_applied_at = now\<rparr>"

definition apply_decay ::
    "(f64 \<Rightarrow> f64) \<Rightarrow> timestamp_provider option \<Rightarrow> scoring_profile \<Rightarrow> int \<Rightarrow> score_record \<Rightarrow> score_record list \<Rightarrow>
     decay_report \<times> score_record \<times> score_record list" where
  "apply_decay pow2 tp p now r saved =
     (let entries = map (decay_at pow2 tp p now r) (sr_dims r); dims = map fst entries;
          composite = decayed_composite_of r p dims;
          r1 = r\<lparr>sr_dims := dims, sr_decayed := Some (py_round 6 composite), sr_decay_applied := Some now\<rparr>
      in (report_of r p now (map snd entries) composite, r1, saved @ [r1]))"

fun apply_decay_batch ::
    "(f64 \<Rightarrow> f64) \<Rightarrow> timestamp_provider option \<Rightarrow> scoring_profile \<Rightarrow> int \<Rightarrow> score_record list \<Rightarrow> score_record list \<Rightarrow>
     decay_report list \<times> score_record list" where
  "apply_decay_batch pow2 tp p now [] saved = ([], saved)"
| "apply_decay_batch pow2 tp p now (r # rs) saved =
     (let (rep, _, saved1) = apply_decay pow2 tp p now r saved;
          (reps, saved2) = apply_decay_batch pow2 tp p now rs saved1 in (rep # reps, saved2))"

definition find_tier_transitions ::
    "(f64 \<Rightarrow> f64) \<Rightarrow> timestamp_provider option \<Rightarrow> scoring_profile \<Rightarrow> int \<Rightarrow> score_record list \<Rightarrow> score_record list \<Rightarrow>
     decay_report list \<times> score_record list" where
  "find_tier_transitions pow2 tp p now rs saved =
     (let (reps, saved1) = apply_decay_batch pow2 tp p now rs saved in (filter tier_changed reps, saved1))"

definition preview_at :: "(f64 \<Rightarrow> f64) \<Rightarrow> scoring_profile \<Rightarrow> score_record \<Rightarrow> int \<Rightarrow> decay_report" where
  "preview_at pow2 p r i =
     (let days = f_of_int (i * 7); entries = map (decay_entry pow2 p days days (sr_scored_at r)) (sr_dims r);
          composite = decayed_composite_of r p (map fst entries)
      in report_of r p (sr_scored_at r + i * 7 * 86400000000) (map snd entries) composite)"

definition preview_decay :: "(f64 \<Rightarrow> f64) \<Rightarrow> scoring_profile \<Rightarrow> score_record \<Rightarrow> f64 \<Rightarrow> decay_report list" where
  "preview_decay pow2 p r future_days =
     (let intervals = max 1 (py_trunc (future_days / f_of_int 7)) in map (preview_at pow2 p r) [1..intervals])"

section \<open>Laws of the factor\<close>

text \<open>What the code relies on of \<open>math.pow(2, x)\<close> for \<open>x \<le> 0\<close>: monotone, between 0 and 1.\<close>

definition pow2_ok :: "(f64 \<Rightarrow> f64) \<Rightarrow> bool" where
  "pow2_ok pow2 \<longleftrightarrow> (\<forall>x y. x \<le> y \<longrightarrow> pow2 x \<le> pow2 y) \<and> (\<forall>x. 0 \<le> pow2 x) \<and> (\<forall>x \<le> 0. pow2 x \<le> 1)"

definition decay_config_ok :: "decay_config \<Rightarrow> bool" where
  "decay_config_ok c \<longleftrightarrow> 0 < dc_half_life c \<and> in_unit (dc_min_score c) \<and> in_unit (dc_max_decay c)"

lemma neg_div_nonpos: "0 < h \<Longrightarrow> 0 < d \<Longrightarrow> (0 - d) / h \<le> (0 :: f64)"
proof -
  assume "0 < h" "0 < d"
  then have "(0 - d) \<le> 0 - (0 :: f64)" by (intro f64_diff_mono) simp_all
  with \<open>0 < h\<close> have "(0 - d) / h \<le> 0 / h" by (intro f64_divide_right_mono) simp_all
  then show ?thesis by simp
qed

lemma factor_unit:
  assumes "pow2_ok pow2" and "decay_config_ok c"
  shows "in_unit (compute_decay_factor pow2 days (dc_half_life c) (dc_min_score c) (dc_max_decay c))"
proof -
  have c: "0 < dc_half_life c" "0 \<le> dc_min_score c" "dc_min_score c \<le> 1" "0 \<le> dc_max_decay c"
    using assms(2) by (simp_all add: decay_config_ok_def in_unit_def)
  show ?thesis
  proof (cases "days \<le> 0")
    case False
    then have "pow2 ((0 - days) / dc_half_life c) \<le> 1" using neg_div_nonpos [OF c(1), of days] assms(1) by (simp add: pow2_ok_def)
    moreover from c(4) have "1 - dc_max_decay c \<le> 1 - 0" by (intro f64_diff_mono) simp_all
    ultimately show ?thesis using False c by (simp add: compute_decay_factor_def in_unit_def le_max_iff_disj)
  qed (use c in \<open>simp add: compute_decay_factor_def in_unit_def\<close>)
qed

lemma factor_antimono:
  assumes "pow2_ok pow2" and "decay_config_ok c" and "days \<le> days'"
  shows "compute_decay_factor pow2 days' (dc_half_life c) (dc_min_score c) (dc_max_decay c) \<le>
    compute_decay_factor pow2 days (dc_half_life c) (dc_min_score c) (dc_max_decay c)"
proof (cases "days \<le> 0")
  case True
  then have "compute_decay_factor pow2 days (dc_half_life c) (dc_min_score c) (dc_max_decay c) = 1"
    using assms(2) by (auto simp: compute_decay_factor_def decay_config_ok_def)
  with factor_unit [OF assms(1,2)] show ?thesis by (simp add: in_unit_def)
next
  case False
  have "(0 - days') / dc_half_life c \<le> (0 - days) / dc_half_life c"
    using assms(2,3) by (intro f64_divide_right_mono f64_diff_mono) (auto simp: decay_config_ok_def)
  then have "pow2 ((0 - days') / dc_half_life c) \<le> pow2 ((0 - days) / dc_half_life c)" using assms(1) by (simp add: pow2_ok_def)
  moreover have "\<not> dc_half_life c \<le> 0" "\<not> days' \<le> 0" using False assms(2,3) by (auto simp: decay_config_ok_def)
  ultimately show ?thesis using False unfolding compute_decay_factor_def
    by (simp only: if_False) (intro max.mono order_refl)
qed

lemma days_mono: "now \<le> now' \<Longrightarrow> days_between now ref \<le> days_between now' ref"
  unfolding days_between_def by (intro f64_divide_right_mono py_int_div_mono) (auto intro: f_of_int_nonneg)

definition decay_profile_ok :: "scoring_profile \<Rightarrow> bool" where
  "decay_profile_ok p \<longleftrightarrow> weights_nonneg p \<and> list_all decay_config_ok (sp_decay p)"

lemma config_ok: "decay_profile_ok p \<Longrightarrow> decay_config_ok (get_decay_config p d)"
proof (cases "find (\<lambda>c. dc_dimension c = d) (sp_decay p)")
  case None
  have "0 < f_of_int 30" by (simp add: f_of_int_pos)
  moreover have "in_unit (flt (19 / 20))" by (simp add: in_unit_def flt_nonneg flt_le_1)
  ultimately show ?thesis using None
    by (simp add: get_decay_config_def default_decay_config_def decay_config_ok_def in_unit_def)
next
  case (Some c)
  then have "c \<in> set (sp_decay p)" by (metis find_Some_iff nth_mem)
  then show "decay_profile_ok p \<Longrightarrow> ?thesis" using Some by (simp add: get_decay_config_def decay_profile_ok_def list_all_iff)
qed

lemma config_factor_antimono: "pow2_ok pow2 \<Longrightarrow> decay_profile_ok p \<Longrightarrow> days \<le> days' \<Longrightarrow> config_factor pow2 p d days' \<le> config_factor pow2 p d days"
  unfolding config_factor_def Let_def by (intro factor_antimono config_ok)

lemma config_factor_unit: "pow2_ok pow2 \<Longrightarrow> decay_profile_ok p \<Longrightarrow> in_unit (config_factor pow2 p d days)"
  unfolding config_factor_def Let_def by (intro factor_unit config_ok)

definition sample_decay_profile :: scoring_profile where
  "sample_decay_profile = \<lparr>sp_id = ''p'', sp_domain = ''plastics'', sp_version = ''1.0.0'', sp_weights = [(Fit, 1)], sp_decay = [],
     sp_tiers = default_tier_thresholds, sp_icp = None, sp_confidence_floor = 0, sp_gate_penalty = 1, sp_min_fields = 1\<rparr>"

definition sample_record :: score_record where
  "sample_record = \<lparr>sr_entity = ''e'', sr_domain = ''plastics'',
     sr_dims = [(Fit, \<lparr>ds_dimension = Fit, ds_score = 1, ds_confidence = 1, ds_weight = 1, ds_contributions = [], ds_missing = [],
       ds_evaluated = 1, ds_present = 1, ds_coverage = 1, ds_decayed = None, ds_factor = 1\<rparr>)],
     sr_composite = 1, sr_confidence = 1, sr_tier = Hot, sr_contributions = [], sr_missing = [], sr_scored_at = 0,
     sr_decayed = None, sr_decay_applied = None,
     sr_provenance = \<lparr>pv_enrichment_run = None, pv_graph_match = None, pv_signals = [], pv_profile = ''p'', pv_version = ''1.0.0''\<rparr>\<rparr>"

definition sample_pow2 :: "f64 \<Rightarrow> f64" where
  "sample_pow2 x = (if x < 0 then flt (1 / 2) else 1)"

lemma sample_pow2_ok: "pow2_ok sample_pow2"
  by (auto simp: pow2_ok_def sample_pow2_def intro: flt_nonneg flt_le_1)

section \<open>Applying decay\<close>

lemma decay_entry_reset:
  "decay_entry pow2 p days shown ref (d, ds\<lparr>ds_decayed := x, ds_factor := y\<rparr>) = decay_entry pow2 p days shown ref (d, ds)"
  by (simp add: decay_entry_def Let_def)

lemma decay_at_reset: "decay_at pow2 tp p now' (r\<lparr>sr_dims := a, sr_decayed := b, sr_decay_applied := c\<rparr>) (fst (decay_at pow2 tp p now r entry)) =
    decay_at pow2 tp p now' r entry"
proof -
  obtain d ds where e: "entry = (d, ds)" by (cases entry)
  show ?thesis unfolding e
    by (simp add: decay_at_def decay_entry_def Let_def)
qed

lemma apply_again:
  "apply_decay pow2 tp p now2 (r\<lparr>sr_dims := map fst (map (decay_at pow2 tp p now1 r) (sr_dims r)), sr_decayed := y, sr_decay_applied := z\<rparr>) saved =
     apply_decay pow2 tp p now2 r saved"
proof -
  let ?r = "r\<lparr>sr_dims := map fst (map (decay_at pow2 tp p now1 r) (sr_dims r)), sr_decayed := y, sr_decay_applied := z\<rparr>"
  have "map (decay_at pow2 tp p now2 ?r) (sr_dims ?r) = map (decay_at pow2 tp p now2 r) (sr_dims r)"
    by (simp add: decay_at_reset)
  then show ?thesis unfolding apply_decay_def Let_def by (simp add: decayed_composite_of_def report_of_def del: map_map)
qed

lemma apply_decay_record:
  "apply_decay pow2 tp p now r saved = (rep, r1, saved1) \<Longrightarrow>
   \<exists>y z. r1 = r\<lparr>sr_dims := map fst (map (decay_at pow2 tp p now r) (sr_dims r)), sr_decayed := y, sr_decay_applied := z\<rparr>"
  by (auto simp: apply_decay_def Let_def)

text \<open>
  C26: decay does not compound. Each run starts from the undecayed scores, so applying decay to a record
  that was decayed before gives the same report and the same record as applying it once, at the later
  time; how often the batch job runs does not matter.
\<close>

theorem decay_does_not_compound:
  assumes "apply_decay pow2 tp p now1 r saved = (rep1, r1, saved1)"
  shows "apply_decay pow2 tp p now2 r1 saved1 = apply_decay pow2 tp p now2 r saved1"
  using apply_decay_record [OF assms] apply_again by auto

lemma decay_at_used:
  "used_score True (snd (fst (decay_at pow2 tp p now r (d, ds)))) =
     py_round 6 (ds_score ds * config_factor pow2 p d (days_between now (resolve_dimension_timestamp d (sr_scored_at r) tp (sr_entity r))))"
  by (simp add: decay_at_def decay_entry_def Let_def used_score_def)

text \<open>
  Older scores are not better. With half-lives above 0, floors and weights in range, and a monotone
  power function, the decayed composite at a later time is at most the one at an earlier time, and
  every factor is in [0, 1].
\<close>

theorem decay_antitone:
  assumes "pow2_ok pow2" and "decay_profile_ok p" and "\<forall>kv \<in> set (sr_dims r). 0 \<le> ds_score (snd kv)" and "now \<le> now'"
  shows "de_decayed (fst (apply_decay pow2 tp p now' r saved')) \<le> de_decayed (fst (apply_decay pow2 tp p now r saved)) \<and>
    (\<forall>x \<in> set (de_results (fst (apply_decay pow2 tp p now r saved))). in_unit (dd_factor x))"
proof -
  let ?dims = "\<lambda>t. map fst (map (decay_at pow2 tp p t r) (sr_dims r))"
  have "list_all2 (\<lambda>a b. fst a = fst b \<and> used_score True (snd a) \<le> used_score True (snd b) \<and> ds_confidence (snd a) = ds_confidence (snd b)) (?dims now') (?dims now)"
    unfolding list_all2_map1 list_all2_map2
  proof (rule list_all2_same [THEN iffD2], rule ballI, intro conjI)
    fix kv assume kv: "kv \<in> set (sr_dims r)"
    obtain d ds where e: "kv = (d, ds)" by (cases kv)
    with kv assms(3) have s: "0 \<le> ds_score ds" by auto
    show "fst (fst (decay_at pow2 tp p now' r kv)) = fst (fst (decay_at pow2 tp p now r kv))"
      "ds_confidence (snd (fst (decay_at pow2 tp p now' r kv))) = ds_confidence (snd (fst (decay_at pow2 tp p now r kv)))"
      by (simp_all add: e decay_at_def decay_entry_def Let_def)
    have "config_factor pow2 p d (days_between now' ref) \<le> config_factor pow2 p d (days_between now ref)" for ref
      by (intro config_factor_antimono assms(1,2) days_mono assms(4))
    then show "used_score True (snd (fst (decay_at pow2 tp p now' r kv))) \<le> used_score True (snd (fst (decay_at pow2 tp p now r kv)))"
      unfolding e decay_at_used f64_mult_commute [of "ds_score ds"] using s by (intro py_round_mono f64_mult_right_mono)
  qed
  from composite_mono [OF _ this] assms(2)
  have "fst (compute_composite (?dims now') p True) \<le> fst (compute_composite (?dims now) p True)" by (simp add: decay_profile_ok_def)
  then have "de_decayed (fst (apply_decay pow2 tp p now' r saved')) \<le> de_decayed (fst (apply_decay pow2 tp p now r saved))"
    by (simp add: apply_decay_def Let_def report_of_def decayed_composite_of_def gate_penalty_mono)
  moreover have "in_unit (dd_factor (snd (decay_at pow2 tp p now r kv)))" for kv
    using config_factor_unit [OF assms(1,2)] by (cases kv) (simp add: decay_at_def decay_entry_def Let_def)
  ultimately show ?thesis by (auto simp: apply_decay_def Let_def report_of_def)
qed

text \<open>
  The preview is what will happen. For a record whose dimensions all refer to the time it was
  scored, the preview of week \<open>i\<close> equals the report that applying decay at that time will give.
\<close>

theorem preview_matches_decay:
  assumes "0 \<le> i" and "i \<le> 10 ^ 9"
  shows "preview_at pow2 p r i = fst (apply_decay pow2 None p (sr_scored_at r + i * 7 * 86400000000) r saved)"
proof -
  have q: "py_int_div (i * 7 * 86400000000) 1000000 = f_of_int (i * 7 * 86400)"
    by (simp add: py_int_div_def f_of_int_def)
  have "rnd (of_int (i * 7 * 86400)) = of_int (i * 7 * 86400)" "rnd (of_int (i * 7)) = of_int (i * 7)" "rnd (of_int 86400) = of_int 86400"
    using assms by (intro rnd_of_int; simp)+
  then have "f_of_int (i * 7 * 86400) / f_of_int 86400 = f_of_int (i * 7)"
    by (simp add: f64_eq_iff f_of_int_def divide_f64.rep_eq mult.commute)
  then have days: "days_between (sr_scored_at r + i * 7 * 86400000000) (sr_scored_at r) = f_of_int (i * 7)"
    unfolding days_between_def add_diff_cancel_left' q .
  have "to_rat (f_of_int (i * 7)) = of_int (i * 7)" using \<open>rnd (of_int (i * 7)) = of_int (i * 7)\<close> by (simp add: f_of_int_def)
  then have round: "py_round 2 (f_of_int (i * 7)) = f_of_int (i * 7)" by (rule py_round_of_int)
  have "decay_at pow2 None p (sr_scored_at r + i * 7 * 86400000000) r = decay_entry pow2 p (f_of_int (i * 7)) (f_of_int (i * 7)) (sr_scored_at r)"
    by (rule ext) (simp only: decay_at_def Let_def resolve_dimension_timestamp_def option.case days round)
  then show ?thesis by (simp only: preview_at_def apply_decay_def Let_def fst_conv)
qed

theorem decay_does_not_compound_witness:
  "\<exists>rep1 r1 saved1. apply_decay (\<lambda>x. 1) None sample_decay_profile 0 sample_record [] = (rep1, r1, saved1) \<and>
     apply_decay (\<lambda>x. 1) None sample_decay_profile 5 r1 saved1 = apply_decay (\<lambda>x. 1) None sample_decay_profile 5 sample_record saved1"
proof -
  obtain rep1 r1 saved1 where a: "apply_decay (\<lambda>x. 1) None sample_decay_profile 0 sample_record [] = (rep1, r1, saved1)"
    by (cases "apply_decay (\<lambda>x. 1) None sample_decay_profile 0 sample_record []")
  from a decay_does_not_compound [OF a] show ?thesis by blast
qed

theorem decay_antitone_witness:
  "de_decayed (fst (apply_decay sample_pow2 None sample_decay_profile 7 sample_record [])) \<le>
   de_decayed (fst (apply_decay sample_pow2 None sample_decay_profile 0 sample_record []))"
proof -
  have "decay_profile_ok sample_decay_profile"
    by (auto simp: decay_profile_ok_def sample_decay_profile_def weights_nonneg_def normalized_weight_def weights_sum_def dget_or_def)
  from decay_antitone [OF sample_pow2_ok this, of sample_record 0 7 None "[]" "[]"] show ?thesis by (simp add: sample_record_def)
qed

theorem preview_matches_decay_witness:
  "preview_at (\<lambda>x. 1) sample_decay_profile sample_record 2 =
   fst (apply_decay (\<lambda>x. 1) None sample_decay_profile (sr_scored_at sample_record + 2 * 7 * 86400000000) sample_record [])"
  by (rule preview_matches_decay) simp_all

end
