(* ===== verification/NAryEngine.thy ===== *)
theory NAryEngine
  imports DerivationGraph
begin

text \<open>
  \<open>app/engines/inference/nary_inference_engine.py\<close>: inference over qualified n-ary facts. The digest of
  a fact's key is the parameter \<open>h\<close>, numpy's \<open>clip\<close> the parameter \<open>clip\<close>, the power of a float and a
  count the parameter \<open>pow\<close>, and the text of an explanation the parameter \<open>explain\<close>.
\<close>

record nary_fact =
  nf_relation :: string
  nf_participants :: "(string, string) dict"
  nf_qualifiers :: fields
  nf_confidence :: f64
  nf_provenance :: string

record antecedent =
  an_relation :: "string option"
  an_roles :: "string list"
  an_constraints :: fields

record nary_rule =
  nr_name :: string
  nr_antecedents :: "antecedent list"
  nr_relation :: string
  nr_role_mapping :: "(string, string) dict"
  nr_min_confidence :: f64
  nr_certainty :: f64
  nr_hop_decay :: f64

record nary_result =
  ny_relation :: string
  ny_participants :: "(string, string) dict"
  ny_confidence :: f64
  ny_facts :: "nary_fact list"
  ny_rule :: string
  ny_hops :: nat
  ny_trace :: fields
  ny_explanation :: string

definition participants_key :: "(string \<Rightarrow> string) \<Rightarrow> nary_fact \<Rightarrow> string" where
  "participants_key h f =
     h (nf_relation f @ '':'' @ join '';'' (map (\<lambda>(k, v). k @ ''='' @ v) (sort_key fst (nf_participants f))))"

definition to_rule_engine_format :: "nary_result \<Rightarrow> fields" where
  "to_rule_engine_format r =
     [(''relation'', PStr (ny_relation r)), (''entities'', PList (map PStr (dvalues (ny_participants r)))),
      (''confidence'', PFloat (ny_confidence r)), (''source'', PStr ''nary_inference''), (''rule'', PStr (ny_rule r)),
      (''provenance'', PList (map (\<lambda>f. PStr (nf_provenance f)) (ny_facts r))), (''qualifier_trace'', PDict (ny_trace r)),
      (''explanation'', PStr (ny_explanation r))]"

section \<open>Qualifier alignment\<close>

definition range_overlap :: "string \<Rightarrow> string \<Rightarrow> bool option" where
  "range_overlap q f =
     (case (map parse_float (split_on CHR ''-'' q), map parse_float (split_on CHR ''-'' f)) of
        ([Some q_lo, Some q_hi], [Some f_lo, Some f_hi]) \<Rightarrow> Some (q_lo \<le> f_hi \<and> f_lo \<le> q_hi)
      | _ \<Rightarrow> None)"

definition qualifier_match :: "string \<Rightarrow> string \<Rightarrow> f64" where
  "qualifier_match q f =
     (let partial = (if is_substring (py_lower q) (py_lower f) \<or> is_substring (py_lower f) (py_lower q) then flt (1 / 2) else 0) in
      if q = f then 1
      else if CHR ''-'' \<in> set q \<and> CHR ''-'' \<in> set f
      then (case range_overlap q f of Some True \<Rightarrow> 1 | Some False \<Rightarrow> 0 | None \<Rightarrow> partial)
      else partial)"

definition align_step :: "fields \<Rightarrow> string \<times> pyval \<Rightarrow> f64 \<Rightarrow> f64" where
  "align_step quals kv matched =
     (let fv = dget_or quals (fst kv) PNone in
      if fv = PNone then matched else matched + qualifier_match (py_str (snd kv)) (py_str fv))"

definition qualifier_alignment_score :: "fields \<Rightarrow> fields \<Rightarrow> f64" where
  "qualifier_alignment_score query quals =
     (if query = [] then 1 else min (fold (align_step quals) query 0 / f_of_int (int (length query))) 1)"

section \<open>The engine\<close>

record nary_engine =
  ne_rules :: "nary_rule list"
  ne_facts :: "nary_fact list"
  ne_index :: "(string, nary_fact list) dict"
  ne_keys :: "string set"

definition default_nary_rules :: "nary_rule list" where
  "default_nary_rules =
     [\<lparr>nr_name = ''shared_grade_buyer_path'',
       nr_antecedents = [\<lparr>an_relation = Some ''RECYCLES_GRADE_FOR_BUYER'', an_roles = [''facility'', ''material_grade'', ''buyer''], an_constraints = []\<rparr>],
       nr_relation = ''COMPATIBLE_SUPPLIER_FOR_BUYER'', nr_role_mapping = [(''supplier'', ''facility''), (''buyer'', ''buyer'')],
       nr_min_confidence = flt (3 / 5), nr_certainty = flt (9 / 10), nr_hop_decay = flt (9 / 10)\<rparr>,
      \<lparr>nr_name = ''tier_grade_compatibility'',
       nr_antecedents = [\<lparr>an_relation = Some ''PROCESSES_AT_TIER'', an_roles = [''facility'', ''tier'', ''material_grade''], an_constraints = []\<rparr>],
       nr_relation = ''TIER_GRADE_MATCH'', nr_role_mapping = [(''entity_a'', ''facility''), (''grade'', ''material_grade'')],
       nr_min_confidence = flt (1 / 2), nr_certainty = flt (17 / 20), nr_hop_decay = flt (19 / 20)\<rparr>]"

definition new_nary_engine :: nary_engine where
  "new_nary_engine = \<lparr>ne_rules = default_nary_rules, ne_facts = [], ne_index = [], ne_keys = {}\<rparr>"

definition register_rule :: "nary_rule \<Rightarrow> nary_engine \<Rightarrow> nary_engine" where
  "register_rule r en = en\<lparr>ne_rules := ne_rules en @ [r]\<rparr>"

definition index_fact :: "nary_fact \<Rightarrow> string \<Rightarrow> (string, nary_fact list) dict \<Rightarrow> (string, nary_fact list) dict" where
  "index_fact f entity ix = dset entity (dget_or ix entity [] @ [f]) ix"

definition load_fact :: "(string \<Rightarrow> string) \<Rightarrow> nary_fact \<Rightarrow> nary_engine \<times> nat \<Rightarrow> nary_engine \<times> nat" where
  "load_fact h f s =
     (let (en, added) = s; key = participants_key h f in
      if key \<in> ne_keys en then s
      else (en\<lparr>ne_keys := insert key (ne_keys en), ne_facts := ne_facts en @ [f],
               ne_index := fold (index_fact f) (dvalues (nf_participants f)) (ne_index en)\<rparr>, added + 1))"

definition load_kb_facts :: "(string \<Rightarrow> string) \<Rightarrow> nary_fact list \<Rightarrow> nary_engine \<Rightarrow> nary_engine \<times> nat" where
  "load_kb_facts h fs en = fold (load_fact h) fs (en, 0)"

definition antecedent_matches :: "nary_fact \<Rightarrow> antecedent \<Rightarrow> bool" where
  "antecedent_matches f a \<longleftrightarrow> an_relation a = Some (nf_relation f) \<and> set (an_roles a) \<subseteq> set (dkeys (nf_participants f)) \<and>
     (an_constraints a = [] \<or> \<not> qualifier_alignment_score (an_constraints a) (nf_qualifiers f) < flt (1 / 2))"

definition match_fact :: "nary_rule \<Rightarrow> nary_fact \<Rightarrow> (nary_fact \<times> nat) option" where
  "match_fact rule f =
     map_option (\<lambda>ha. (f, fst ha)) (find (\<lambda>ha. antecedent_matches f (snd ha)) (enumerate 0 (nr_antecedents rule)))"

definition match_antecedents :: "nary_fact list \<Rightarrow> nary_rule \<Rightarrow> (nary_fact \<times> nat) list" where
  "match_antecedents fs rule = List.map_filter (match_fact rule) fs"

definition consequent_participants :: "nary_rule \<Rightarrow> nary_fact \<Rightarrow> (string, string) dict" where
  "consequent_participants rule f =
     List.map_filter (\<lambda>(new, src). case dget (nf_participants f) src of Some (c # cs) \<Rightarrow> Some (new, c # cs) | _ \<Rightarrow> None)
       (nr_role_mapping rule)"

record nary_params =
  np_clip :: "f64 \<Rightarrow> f64 \<Rightarrow> f64 \<Rightarrow> f64"
  np_pow :: "f64 \<Rightarrow> nat \<Rightarrow> f64"
  np_explain :: "nary_rule \<Rightarrow> nary_fact \<Rightarrow> nat \<Rightarrow> f64 \<Rightarrow> string"

definition infer_match :: "nary_params \<Rightarrow> nary_rule \<Rightarrow> nary_fact \<times> nat \<Rightarrow> nary_result option" where
  "infer_match np rule fh =
     (let (f, hops) = fh in
      if nf_confidence f < nr_min_confidence rule then None
      else (let cf = np_clip np (nr_certainty rule * nf_confidence f * np_pow np (nr_hop_decay rule) hops) 0 1;
                parts = consequent_participants rule f
            in if parts = [] then None
               else Some \<lparr>ny_relation = nr_relation rule, ny_participants = parts, ny_confidence = cf, ny_facts = [f],
                          ny_rule = nr_name rule, ny_hops = hops, ny_trace = nf_qualifiers f,
                          ny_explanation = np_explain np rule f hops cf\<rparr>))"

definition nary_infer :: "nary_params \<Rightarrow> nary_engine \<Rightarrow> string \<Rightarrow> string option \<Rightarrow> nary_result list" where
  "nary_infer np en entity rel =
     (let relevant = dget_or (ne_index en) entity [];
          rules = filter (\<lambda>r. case rel of Some (c # cs) \<Rightarrow> nr_relation r = c # cs | _ \<Rightarrow> True) (ne_rules en)
      in if relevant = [] then []
         else sort_desc ny_confidence
           (concat (map (\<lambda>r. List.map_filter (infer_match np r) (match_antecedents relevant r)) rules)))"

definition match_kb_facts :: "nary_params \<Rightarrow> nary_engine \<Rightarrow> string \<Rightarrow> fields \<Rightarrow> nat \<Rightarrow> f64 \<Rightarrow> (nary_fact \<times> f64) list" where
  "match_kb_facts np en entity query top_k min_confidence =
     take top_k (sort_desc snd
       (map (\<lambda>f. (f, np_clip np (nf_confidence f * qualifier_alignment_score query (nf_qualifiers f)) 0 1))
         (filter (\<lambda>f. \<not> nf_confidence f < min_confidence) (dget_or (ne_index en) entity []))))"

definition combined_infer :: "nary_params \<Rightarrow> nary_engine \<Rightarrow> string \<Rightarrow> fields list \<Rightarrow> fields list" where
  "combined_infer np en entity rule_results =
     sort_desc (\<lambda>d. safe_float (dget_or d ''confidence'' (PFloat 0)) 0)
       (rule_results @ map to_rule_engine_format (nary_infer np en entity None))"

section \<open>Engines in use\<close>

inductive nary_reach :: "(string \<Rightarrow> string) \<Rightarrow> nary_engine \<Rightarrow> bool" for h where
  fresh: "nary_reach h new_nary_engine"
| rule: "nary_reach h en \<Longrightarrow> nary_reach h (register_rule r en)"
| facts: "nary_reach h en \<Longrightarrow> nary_reach h (fst (load_kb_facts h fs en))"

definition index_ok :: "nary_engine \<Rightarrow> bool" where
  "index_ok en \<longleftrightarrow> (\<forall>e f. f \<in> set (dget_or (ne_index en) e []) \<longleftrightarrow> f \<in> set (ne_facts en) \<and> e \<in> set (dvalues (nf_participants f)))"

lemma index_fold:
  "f \<in> set (dget_or (fold (index_fact g) es ix) e []) \<longleftrightarrow> f \<in> set (dget_or ix e []) \<or> f = g \<and> e \<in> set es"
  by (induction es arbitrary: ix) (auto simp: index_fact_def dget_or_def dget_dset)

lemma load_fact_ok: "index_ok (fst s) \<Longrightarrow> index_ok (fst (load_fact h f s))"
  by (cases s) (auto simp: load_fact_def Let_def index_ok_def index_fold simp del: set_map)

lemma load_fold_ok: "index_ok (fst s) \<Longrightarrow> index_ok (fst (fold (load_fact h) fs s))"
  by (induction fs arbitrary: s) (simp_all add: load_fact_ok)

lemma nary_reach_ok: "nary_reach h en \<Longrightarrow> index_ok en"
proof (induction rule: nary_reach.induct)
  case (facts en fs)
  then show ?case unfolding load_kb_facts_def by (intro load_fold_ok) simp
qed (simp_all add: new_nary_engine_def index_ok_def register_rule_def dget_or_def)

lemma match_fact_Some:
  "match_fact rule f = Some (g, hops) \<Longrightarrow> g = f \<and> hops < length (nr_antecedents rule) \<and> antecedent_matches f (nr_antecedents rule ! hops)"
proof -
  assume m: "match_fact rule f = Some (g, hops)"
  show ?thesis
  proof (cases "find (\<lambda>ha. antecedent_matches f (snd ha)) (enumerate 0 (nr_antecedents rule))")
    case None
    with m show ?thesis by (simp add: match_fact_def)
  next
    case (Some ha)
    from Some obtain i where i: "i < length (nr_antecedents rule)" "antecedent_matches f (snd (enumerate 0 (nr_antecedents rule) ! i))"
      "ha = enumerate 0 (nr_antecedents rule) ! i"
      unfolding find_Some_iff by auto
    moreover from i(1) have "enumerate 0 (nr_antecedents rule) ! i = (i, nr_antecedents rule ! i)" by (simp add: nth_enumerate_eq)
    moreover from m Some have "g = f" "hops = fst ha" by (simp_all add: match_fact_def)
    ultimately show ?thesis by simp
  qed
qed

lemma consequent_values: "set (dvalues (consequent_participants rule f)) \<subseteq> set (dvalues (nf_participants f))"
proof
  fix v assume "v \<in> set (dvalues (consequent_participants rule f))"
  then obtain src where "dget (nf_participants f) src = Some v"
    by (fastforce simp: consequent_participants_def List.map_filter_def split: option.splits list.splits)
  then have "(src, v) \<in> set (nf_participants f)" by (rule map_of_SomeD)
  then show "v \<in> set (dvalues (nf_participants f))" by force
qed

definition clip_ok :: "(f64 \<Rightarrow> f64 \<Rightarrow> f64 \<Rightarrow> f64) \<Rightarrow> bool" where
  "clip_ok clip \<longleftrightarrow> (\<forall>x lo hi. clip x lo hi = min (max x lo) hi)"

section \<open>Properties\<close>

text \<open>
  Inferences are justified. In every engine in use a result for an entity rests on one loaded fact
  in which the entity takes part, of at least the rule's minimum confidence, that matches one of the
  rule's antecedents; it names only participants of that fact, its confidence is in [0, 1], and the
  results come in descending order of confidence.
\<close>

theorem nary_results_justified:
  assumes "nary_reach h en" and "clip_ok (np_clip np)" and "r \<in> set (nary_infer np en e rel)"
  shows "\<exists>rule \<in> set (ne_rules en). \<exists>f \<in> set (ne_facts en). ny_facts r = [f] \<and> ny_rule r = nr_name rule \<and>
    e \<in> set (dvalues (nf_participants f)) \<and> \<not> nf_confidence f < nr_min_confidence rule \<and>
    (\<exists>a \<in> set (nr_antecedents rule). antecedent_matches f a) \<and>
    set (dvalues (ny_participants r)) \<subseteq> set (dvalues (nf_participants f)) \<and> 0 \<le> ny_confidence r \<and> ny_confidence r \<le> 1 \<and>
    sorted (map ny_confidence (rev (nary_infer np en e rel)))"
proof -
  let ?relevant = "dget_or (ne_index en) e []"
  have ne: "?relevant \<noteq> []" using assms(3) by (auto simp: nary_infer_def Let_def)
  from assms(3) ne obtain rule f0 f hops where
    m: "rule \<in> set (ne_rules en)" "f0 \<in> set ?relevant" "match_fact rule f0 = Some (f, hops)" "infer_match np rule (f, hops) = Some r"
    by (auto simp: nary_infer_def Let_def List.map_filter_def match_antecedents_def split: option.splits)
  from match_fact_Some [OF m(3)] have f: "f = f0" "\<exists>a \<in> set (nr_antecedents rule). antecedent_matches f a" by auto
  from nary_reach_ok [OF assms(1)] m(2) f(1) have in_facts: "f \<in> set (ne_facts en)" "e \<in> set (dvalues (nf_participants f))"
    by (simp_all add: index_ok_def del: set_map)
  have "set (dvalues (consequent_participants rule f)) \<subseteq> set (dvalues (nf_participants f))"
    by (rule consequent_values)
  moreover have "0 \<le> np_clip np x 0 1 \<and> np_clip np x 0 1 \<le> 1" for x using assms(2) by (simp add: clip_ok_def)
  moreover have "sorted (map ny_confidence (rev (nary_infer np en e rel)))"
    unfolding nary_infer_def Let_def by (simp only: ne if_False sorted_desc_map)
  ultimately have "ny_facts r = [f] \<and> ny_rule r = nr_name rule \<and> \<not> nf_confidence f < nr_min_confidence rule \<and>
      set (dvalues (ny_participants r)) \<subseteq> set (dvalues (nf_participants f)) \<and> 0 \<le> ny_confidence r \<and> ny_confidence r \<le> 1 \<and>
      sorted (map ny_confidence (rev (nary_infer np en e rel)))"
    using m(4) by (auto simp: infer_match_def Let_def split: if_splits simp del: set_map)
  with m(1) f(2) in_facts show ?thesis by blast
qed

lemma load_known: "participants_key h f \<in> ne_keys (fst s) \<Longrightarrow> load_fact h f s = s"
  by (cases s) (simp add: load_fact_def)

lemma load_all_known: "\<forall>f \<in> set fs. participants_key h f \<in> ne_keys (fst s) \<Longrightarrow> fold (load_fact h) fs s = s"
  by (induction fs arbitrary: s) (simp_all add: load_known)

lemma load_keys: "ne_keys (fst (fold (load_fact h) fs s)) = participants_key h ` set fs \<union> ne_keys (fst s)"
  by (induction fs arbitrary: s) (auto simp: load_fact_def Let_def split: prod.split)

text \<open>Loading is idempotent. Loading the same facts again adds none and changes nothing.\<close>

theorem reload_adds_nothing:
  "load_kb_facts h fs (fst (load_kb_facts h fs en)) = (fst (load_kb_facts h fs en), 0)"
  unfolding load_kb_facts_def by (rule load_all_known) (simp add: load_keys)

definition self_dealing :: nary_fact where
  "self_dealing = \<lparr>nf_relation = ''RECYCLES_GRADE_FOR_BUYER'',
     nf_participants = [(''facility'', ''acme''), (''material_grade'', ''HDPE-2''), (''buyer'', ''acme'')],
     nf_qualifiers = [], nf_confidence = 1, nf_provenance = ''kb''\<rparr>"

definition forged_fact :: "(string, string) dict \<Rightarrow> nary_fact" where
  "forged_fact parts = \<lparr>nf_relation = ''R'', nf_participants = parts, nf_qualifiers = [], nf_confidence = 1, nf_provenance = ''kb''\<rparr>"

text \<open>
  The key of a fact is not unambiguous. The separators are not escaped, so two facts with different
  participants have the same key whatever the digest, and the second is dropped as a duplicate.
\<close>

theorem dedup_conflates:
  "snd (load_kb_facts h [forged_fact [(''a'', ''1;b=2'')], forged_fact [(''a'', ''1''), (''b'', ''2'')]] new_nary_engine) = 1"
proof -
  have "''R'' @ '':'' @ join '';'' (map (\<lambda>(k, v). k @ ''='' @ v) (sort_key fst [(''a'', ''1;b=2'')])) =
      ''R'' @ '':'' @ join '';'' (map (\<lambda>(k, v). k @ ''='' @ v) (sort_key fst [(''a'', ''1''), (''b'', ''2'')]))"
    by code_simp
  then have "participants_key h (forged_fact [(''a'', ''1;b=2'')]) = participants_key h (forged_fact [(''a'', ''1''), (''b'', ''2'')])"
    by (simp add: participants_key_def forged_fact_def)
  then show ?thesis by (simp add: load_kb_facts_def load_fact_def Let_def new_nary_engine_def)
qed

text \<open>
  An entity in two roles of a fact is indexed twice, so each inference from that fact comes twice.
\<close>

theorem two_roles_two_results:
  "\<exists>r. nary_infer np (fst (load_kb_facts h [self_dealing] new_nary_engine)) ''acme'' None = [r, r]"
proof -
  have c: "\<not> (1 :: f64) < flt (3 / 5)" using flt_le_1 [of "3 / 5"] by (simp add: not_less)
  have ix: "dget_or (ne_index (fst (load_kb_facts h [self_dealing] new_nary_engine))) ''acme'' [] = [self_dealing, self_dealing]"
    "ne_rules (fst (load_kb_facts h [self_dealing] new_nary_engine)) = default_nary_rules"
    by (simp_all add: load_kb_facts_def load_fact_def Let_def new_nary_engine_def self_dealing_def index_fact_def dget_or_def)
  have m: "match_antecedents [self_dealing, self_dealing] (default_nary_rules ! 0) = [(self_dealing, 0), (self_dealing, 0)]"
    "match_antecedents [self_dealing, self_dealing] (default_nary_rules ! 1) = []"
    by (simp_all add: match_antecedents_def match_fact_def default_nary_rules_def antecedent_matches_def List.map_filter_def self_dealing_def)
  obtain r where r: "infer_match np (default_nary_rules ! 0) (self_dealing, 0) = Some r"
    using c by (simp add: infer_match_def default_nary_rules_def self_dealing_def consequent_participants_def List.map_filter_def Let_def)
  have rules: "default_nary_rules = [default_nary_rules ! 0, default_nary_rules ! 1]" by (simp add: default_nary_rules_def)
  have "nary_infer np (fst (load_kb_facts h [self_dealing] new_nary_engine)) ''acme'' None = sort_desc ny_confidence [r, r]"
    unfolding nary_infer_def Let_def ix using m r by (subst rules) (simp add: List.map_filter_simps)
  then show ?thesis by (auto simp: sort_desc_def)
qed

theorem nary_results_justified_witness:
  "\<exists>r. r \<in> set (nary_infer \<lparr>np_clip = (\<lambda>x lo hi. min (max x lo) hi), np_pow = (\<lambda>x n. 1), np_explain = (\<lambda>_ _ _ _. [])\<rparr>
       (fst (load_kb_facts (\<lambda>x. x) [self_dealing] new_nary_engine)) ''acme'' None) \<and> ny_confidence r \<le> 1"
proof -
  let ?np = "\<lparr>np_clip = (\<lambda>x lo hi. min (max x lo) hi), np_pow = (\<lambda>x n. 1 :: f64), np_explain = (\<lambda>_ _ _ _. [])\<rparr>"
  let ?en = "fst (load_kb_facts (\<lambda>x. x) [self_dealing] new_nary_engine)"
  obtain r where "nary_infer ?np ?en ''acme'' None = [r, r]" using two_roles_two_results by blast
  then have r: "r \<in> set (nary_infer ?np ?en ''acme'' None)" by simp
  have "nary_reach (\<lambda>x. x) ?en" "clip_ok (np_clip ?np)" by (intro nary_reach.intros) (simp add: clip_ok_def)
  from nary_results_justified [OF this r] r show ?thesis by blast
qed

end
