(* ===== verification/OutcomeDelegator.thy ===== *)
theory OutcomeDelegator
  imports DerivationGraph ConvergenceLoop
begin

text \<open>
  \<open>app/services/outcome_delegator.py\<close> and \<open>app/models/events.py\<close>: a rejected match becomes a targeted
  enrichment request with a higher consensus threshold. The digest of the idempotency key is the
  parameter \<open>h\<close>; the texts of log lines and errors are not modelled. A list of pairs is read as a
  mapping when its keys are texts; other keys are reported as a \<open>TypeError\<close>.
\<close>

datatype verdict = Accepted | Rejected | Partial

definition verdict_of :: "pyval \<Rightarrow> verdict option" where
  "verdict_of v =
     (if v = PStr ''accepted'' then Some Accepted else if v = PStr ''rejected'' then Some Rejected
      else if v = PStr ''partial'' then Some Partial else None)"

record outcome_event =
  oe_entity :: string
  oe_run :: string
  oe_verdict :: verdict
  oe_failed_gates :: "pyval list"
  oe_deltas :: fields
  oe_score :: f64
  oe_metadata :: fields

text \<open>\<open>dict(v)\<close>.\<close>

fun pairs_of :: "pyval list \<Rightarrow> fields \<Rightarrow> pyerr + fields" where
  "pairs_of [] d = Inr d"
| "pairs_of (PList [PStr k, v] # xs) d = pairs_of xs (dset k v d)"
| "pairs_of (PStr [a, b] # xs) d = pairs_of xs (dset [a] (PStr [b]) d)"
| "pairs_of (PDict [(k, _), (l, _)] # xs) d = pairs_of xs (dset k (PStr l) d)"
| "pairs_of (PList [_, _] # xs) d = Inl TypeError"
| "pairs_of (PList _ # xs) d = Inl ValueError"
| "pairs_of (PDict _ # xs) d = Inl ValueError"
| "pairs_of (PStr _ # xs) d = Inl ValueError"
| "pairs_of (_ # xs) d = Inl TypeError"

definition py_dict :: "pyval \<Rightarrow> pyerr + fields" where
  "py_dict v =
     (case v of
        PDict d \<Rightarrow> Inr d
      | PList xs \<Rightarrow> pairs_of xs []
      | PStr s \<Rightarrow> if s = [] then Inr [] else Inl ValueError
      | _ \<Rightarrow> Inl TypeError)"

definition parse_outcome_payload :: "fields \<Rightarrow> pyerr + outcome_event" where
  "parse_outcome_payload payload =
     (if \<not> list_all (\<lambda>k. dmem k payload) [''entity_id'', ''run_id'', ''verdict'', ''failed_gates''] then Inl ValueError
      else case verdict_of (dget_or payload ''verdict'' PNone) of
        None \<Rightarrow> Inl ValueError
      | Some vd \<Rightarrow>
          bind_res (py_iter (dget_or payload ''failed_gates'' (PList []))) (\<lambda>gates.
          bind_res (py_dict (dget_or payload ''confidence_deltas'' (PDict []))) (\<lambda>deltas.
          bind_res (py_dict (dget_or payload ''metadata'' (PDict []))) (\<lambda>metadata.
            Inr \<lparr>oe_entity = py_str (dget_or payload ''entity_id'' PNone), oe_run = py_str (dget_or payload ''run_id'' PNone),
                 oe_verdict = vd, oe_failed_gates = gates, oe_deltas = deltas,
                 oe_score = safe_float (dget_or payload ''graph_score'' (PFloat 0)) 0, oe_metadata = metadata\<rparr>))))"

definition build_idempotency_key :: "(string \<Rightarrow> string) \<Rightarrow> string \<Rightarrow> string \<Rightarrow> string" where
  "build_idempotency_key h e run = h (e @ '':'' @ run)"

section \<open>Target fields\<close>

text \<open>The field a gate names: the stripped part behind its first colon.\<close>

definition gate_field :: "pyval \<Rightarrow> pyerr + string option" where
  "gate_field gate =
     (case gate of
        PStr s \<Rightarrow> Inr (if CHR '':'' \<in> set s
                      then (let f = py_strip (tl (dropWhile (\<lambda>c. c \<noteq> CHR '':'') s)) in if f = [] then None else Some f) else None)
      | PList xs \<Rightarrow> if list_ex (py_eq (PStr '':'')) xs then Inl AttributeError else Inr None
      | PDict d \<Rightarrow> if dmem '':'' d then Inl AttributeError else Inr None
      | _ \<Rightarrow> Inl TypeError)"

definition add_target :: "string \<Rightarrow> string list \<Rightarrow> string list" where
  "add_target f targets = (if f \<in> set targets then targets else targets @ [f])"

fun gate_targets :: "pyval list \<Rightarrow> string list \<Rightarrow> pyerr + string list" where
  "gate_targets [] targets = Inr targets"
| "gate_targets (g # gs) targets =
     bind_res (gate_field g) (\<lambda>f. gate_targets gs (case f of None \<Rightarrow> targets | Some n \<Rightarrow> add_target n targets))"

fun negative_deltas :: "fields \<Rightarrow> pyerr + (string \<times> rat) list" where
  "negative_deltas [] = Inr []"
| "negative_deltas ((f, d) # ds) =
     (case py_num d of None \<Rightarrow> Inl TypeError
      | Some q \<Rightarrow> bind_res (negative_deltas ds) (\<lambda>rest. Inr (if q < 0 then (f, q) # rest else rest)))"

definition select_target_fields :: "outcome_event \<Rightarrow> pyerr + string list" where
  "select_target_fields event =
     bind_res (gate_targets (oe_failed_gates event) []) (\<lambda>targets.
     bind_res (negative_deltas (oe_deltas event)) (\<lambda>ds.
       Inr (fold add_target (map fst (sort_key snd ds)) targets)))"

record corrective_request =
  cq_request :: enrich_request
  cq_object_type :: string
  cq_objective :: string
  cq_idempotency_key :: string

definition build_corrective_request :: "(string \<Rightarrow> string) \<Rightarrow> outcome_event \<Rightarrow> pyerr + corrective_request option" where
  "build_corrective_request h event =
     (if oe_verdict event \<noteq> Rejected then Inr None
      else bind_res (select_target_fields event) (\<lambda>targets.
        Inr (Some
          \<lparr>cq_request =
             \<lparr>rq_entity =
                [(''entity_id'', PStr (oe_entity event)), (''_pass_label'', PStr ''outcome_corrective''),
                 (''_source_run_id'', PStr (oe_run event)),
                 (''_outcome_metadata'',
                  PDict [(''trigger'', PStr ''graph_rejection''), (''graph_score'', PFloat (oe_score event)),
                         (''failed_gates'', PList (oe_failed_gates event)), (''confidence_deltas'', PDict (oe_deltas event))])],
              rq_schema = (if targets = [] then None else Some (map (\<lambda>f. (f, ''string'')) targets)),
              rq_consensus_threshold = flt (4 / 5), rq_field_thresholds = None, rq_max_variations = 4\<rparr>,
           cq_object_type = py_str (dget_or (oe_metadata event) ''object_type'' (PStr ''unknown'')),
           cq_objective = ''Corrective enrichment after graph rejection (run '' @ oe_run event @ ''); target fields: '' @
             (if targets = [] then ''(none)'' else join '', '' targets),
           cq_idempotency_key = build_idempotency_key h (oe_entity event) (oe_run event)\<rparr>)))"

section \<open>Properties\<close>

lemma add_target_set [simp]: "set (add_target f ts) = insert f (set ts)" "distinct ts \<Longrightarrow> distinct (add_target f ts)"
  by (auto simp: add_target_def)

lemma fold_add_target: "set (fold add_target fs ts) = set ts \<union> set fs" "distinct ts \<Longrightarrow> distinct (fold add_target fs ts)"
  by (induction fs arbitrary: ts) auto

lemma gate_targets_spec:
  "gate_targets gs ts = Inr ts' \<Longrightarrow> set ts' = set ts \<union> {f. \<exists>g \<in> set gs. gate_field g = Inr (Some f)} \<and> (distinct ts \<longrightarrow> distinct ts')"
proof (induction gs arbitrary: ts)
  case (Cons g gs)
  from Cons.prems obtain f where f: "gate_field g = Inr f" "gate_targets gs (case f of None \<Rightarrow> ts | Some n \<Rightarrow> add_target n ts) = Inr ts'"
    by (auto simp: bind_res_Inr_iff)
  from Cons.IH [OF f(2)] f(1) show ?case by (cases f) auto
qed simp

lemma negative_deltas_spec:
  "negative_deltas ds = Inr ns \<Longrightarrow> set ns = {(f, q). \<exists>d. (f, d) \<in> set ds \<and> py_num d = Some q \<and> q < 0}"
proof (induction ds arbitrary: ns)
  case (Cons fd ds)
  obtain f d where fd: "fd = (f, d)" by (cases fd)
  with Cons.prems obtain q rest where r: "py_num d = Some q" "negative_deltas ds = Inr rest" "ns = (if q < 0 then (f, q) # rest else rest)"
    by (auto simp: bind_res_Inr_iff split: option.splits)
  from Cons.IH [OF r(2)] r fd show ?case by auto
qed simp

text \<open>
  What a rejection asks for. The fields of the corrective request are exactly those named by a
  failed gate and those whose confidence delta is negative, each once; without any the request has no
  schema. The request keeps the elevated threshold and key of the event.
\<close>

theorem corrective_fields_exact:
  assumes "build_corrective_request h event = Inr (Some req)"
  shows "\<exists>targets. distinct targets \<and>
    set targets = {f. \<exists>g \<in> set (oe_failed_gates event). gate_field g = Inr (Some f)} \<union>
                  {f. \<exists>d q. (f, d) \<in> set (oe_deltas event) \<and> py_num d = Some q \<and> q < 0} \<and>
    rq_schema (cq_request req) = (if targets = [] then None else Some (map (\<lambda>f. (f, ''string'')) targets)) \<and>
    oe_verdict event = Rejected \<and> cq_idempotency_key req = build_idempotency_key h (oe_entity event) (oe_run event)"
proof -
  from assms obtain targets where t: "select_target_fields event = Inr targets" "oe_verdict event = Rejected"
    "rq_schema (cq_request req) = (if targets = [] then None else Some (map (\<lambda>f. (f, ''string'')) targets))"
    "cq_idempotency_key req = build_idempotency_key h (oe_entity event) (oe_run event)"
    by (auto simp: build_corrective_request_def bind_res_Inr_iff split: if_splits)
  from t(1) obtain gs ns where g: "gate_targets (oe_failed_gates event) [] = Inr gs" "negative_deltas (oe_deltas event) = Inr ns"
    "targets = fold add_target (map fst (sort_key snd ns)) gs"
    by (auto simp: select_target_fields_def bind_res_Inr_iff)
  have "fst ` set ns = {f. \<exists>d q. (f, d) \<in> set (oe_deltas event) \<and> py_num d = Some q \<and> q < 0}"
    using negative_deltas_spec [OF g(2)] by force
  with gate_targets_spec [OF g(1)] g(3) have "distinct targets" "set targets = {f. \<exists>g \<in> set (oe_failed_gates event). gate_field g = Inr (Some f)} \<union>
      {f. \<exists>d q. (f, d) \<in> set (oe_deltas event) \<and> py_num d = Some q \<and> q < 0}"
    by (auto simp: fold_add_target)
  with t(2-4) show ?thesis by blast
qed

definition sample_event :: outcome_event where
  "sample_event = \<lparr>oe_entity = ''e'', oe_run = ''r'', oe_verdict = Rejected, oe_failed_gates = [PStr ''icp: city'', PStr ''size''],
     oe_deltas = [(''name'', PInt (- 1)), (''city'', PInt 1)], oe_score = 0, oe_metadata = []\<rparr>"

theorem corrective_fields_exact_witness:
  "\<exists>req. build_corrective_request (\<lambda>s. s) sample_event = Inr (Some req) \<and> cq_idempotency_key req = ''e:r''"
proof -
  have "\<exists>ts. select_target_fields sample_event = Inr ts"
    by (simp add: select_target_fields_def sample_event_def gate_field_def Let_def)
  then obtain req where r: "build_corrective_request (\<lambda>s. s) sample_event = Inr (Some req)"
    by (auto simp: build_corrective_request_def) (simp add: sample_event_def)
  from corrective_fields_exact [OF r] r show ?thesis by (auto simp: build_idempotency_key_def sample_event_def)
qed

lemma corrective_request_ok: "build_corrective_request h event = Inr (Some req) \<Longrightarrow> request_ok (cq_request req)"
  by (auto simp: build_corrective_request_def bind_res_Inr_iff request_ok_def split: if_splits)

end
