(* ===== verification/PacketEnforcement.thy ===== *)
theory PacketEnforcement
  imports PyValue
begin

text \<open>
  \<open>app/services/packet_enforcement.py\<close>: ingress validation of packets and construction of egress
  packets. A packet is a dict of JSON values. \<open>json.dumps\<close> with sorted keys is the parameter \<open>dump\<close>, the
  digest \<open>h\<close>; fresh ids and timestamps are arguments. The registered actions and which of them mutate
  outside systems come from the constitution file: \<open>registered\<close> and \<open>external\<close>.
\<close>

datatype packet_error =
    NotAnObject string
  | NotAText string
  | NotRegistered string
  | HashMismatch
  | MissingKey string
  | BadLineage string
  | NeedsClearance

record envelope_params =
  ep_dump :: "pyval \<Rightarrow> string"
  ep_hash :: "string \<Rightarrow> string"
  ep_registered :: "string list"
  ep_external :: "string list"

definition tenant_to_string :: "envelope_params \<Rightarrow> pyval \<Rightarrow> string" where
  "tenant_to_string ep tenant = (case tenant of PStr s \<Rightarrow> s | PDict d \<Rightarrow> ep_dump ep tenant | _ \<Rightarrow> py_str tenant)"

definition canonical_packet_hash :: "envelope_params \<Rightarrow> string \<Rightarrow> fields \<Rightarrow> pyval \<Rightarrow> string" where
  "canonical_packet_hash ep action payload tenant =
     ep_hash ep (ep_dump ep (PDict [(''action'', PStr action), (''payload'', PDict payload),
       (''tenant'', PStr (tenant_to_string ep tenant))]))"

definition is_text :: "pyval \<Rightarrow> bool" where
  "is_text v = (case v of PStr _ \<Rightarrow> True | _ \<Rightarrow> False)"

definition is_int :: "pyval \<Rightarrow> bool" where
  "is_int v = (case v of PInt _ \<Rightarrow> True | PBool _ \<Rightarrow> True | _ \<Rightarrow> False)"

fun int_of :: "pyval \<Rightarrow> int" where
  "int_of (PInt n) = n"
| "int_of (PBool b) = (if b then 1 else 0)"
| "int_of _ = 0"

record packet_lineage =
  pl_parents :: "pyval list"
  pl_root :: pyval
  pl_generation :: pyval
  pl_derivation :: pyval

definition normalize_lineage :: "pyval \<Rightarrow> packet_error + packet_lineage" where
  "normalize_lineage v =
     (case (if v = PNone then PDict [] else v) of
        PDict d \<Rightarrow>
          (let root = dget_or d ''root_id'' PNone; gen = dget_or d ''generation'' (PInt 0);
               deriv = dget_or d ''derivation_type'' PNone
           in case dget_or d ''parent_ids'' (PList []) of
                PList ids \<Rightarrow>
                  if \<not> list_all is_text ids then Inl (BadLineage ''parent_ids'')
                  else if \<not> is_int gen \<or> int_of gen < 0 then Inl (BadLineage ''generation'')
                  else if root \<noteq> PNone \<and> \<not> is_text root then Inl (BadLineage ''root_id'')
                  else if deriv \<noteq> PNone \<and> \<not> is_text deriv then Inl (BadLineage ''derivation_type'')
                  else Inr \<lparr>pl_parents = ids, pl_root = root, pl_generation = gen, pl_derivation = deriv\<rparr>
              | _ \<Rightarrow> Inl (BadLineage ''parent_ids''))
      | _ \<Rightarrow> Inl (NotAnObject ''lineage''))"

definition normalize_governance :: "pyval \<Rightarrow> packet_error + fields" where
  "normalize_governance v = (case v of PNone \<Rightarrow> Inr [] | PDict d \<Rightarrow> Inr d | _ \<Rightarrow> Inl (NotAnObject ''governance''))"

fun check_hop :: "fields \<Rightarrow> string list \<Rightarrow> packet_error + unit" where
  "check_hop item [] = Inr ()"
| "check_hop item (k # ks) =
     (if \<not> dmem k item then Inl (MissingKey k)
      else if \<not> is_text (dget_or item k PNone) then Inl (NotAText k)
      else check_hop item ks)"

fun normalize_items :: "(fields \<Rightarrow> packet_error + unit) \<Rightarrow> string \<Rightarrow> pyval list \<Rightarrow> packet_error + fields list" where
  "normalize_items check what [] = Inr []"
| "normalize_items check what (PDict d # xs) =
     bind_res (check d) (\<lambda>_. bind_res (normalize_items check what xs) (\<lambda>ds. Inr (d # ds)))"
| "normalize_items check what (_ # xs) = Inl (NotAnObject what)"

definition normalize_list :: "(fields \<Rightarrow> packet_error + unit) \<Rightarrow> string \<Rightarrow> pyval \<Rightarrow> packet_error + fields list" where
  "normalize_list check what v =
     (case v of PNone \<Rightarrow> Inr [] | PList xs \<Rightarrow> normalize_items check what xs | _ \<Rightarrow> Inl (NotAnObject what))"

definition hop_keys :: "string list" where
  "hop_keys = [''node'', ''action'', ''status'', ''timestamp'']"

definition normalize_hop_trace :: "pyval \<Rightarrow> packet_error + fields list" where
  "normalize_hop_trace = normalize_list (\<lambda>item. check_hop item hop_keys) ''hop_trace''"

definition normalize_delegation_chain :: "pyval \<Rightarrow> packet_error + fields list" where
  "normalize_delegation_chain = normalize_list (\<lambda>item. Inr ()) ''delegation_chain''"

record ingress =
  ig_packet_id :: pyval
  ig_action :: string
  ig_payload :: fields
  ig_tenant :: pyval
  ig_source :: pyval
  ig_reply_to :: pyval
  ig_lineage :: packet_lineage
  ig_governance :: fields
  ig_hops :: "fields list"
  ig_chain :: "fields list"
  ig_hash :: pyval

definition optional_text :: "fields \<Rightarrow> string \<Rightarrow> packet_error + pyval" where
  "optional_text packet k =
     (let v = dget_or packet k PNone in if v \<noteq> PNone \<and> \<not> is_text v then Inl (NotAText k) else Inr v)"

definition check_hash :: "envelope_params \<Rightarrow> string \<Rightarrow> fields \<Rightarrow> pyval \<Rightarrow> pyval \<Rightarrow> packet_error + unit" where
  "check_hash ep action payload tenant declared =
     (case declared of
        PNone \<Rightarrow> Inr ()
      | PStr s \<Rightarrow> if s = [] then Inl (NotAText ''content_hash'')
                 else if s \<noteq> canonical_packet_hash ep action payload tenant then Inl HashMismatch else Inr ()
      | _ \<Rightarrow> Inl (NotAText ''content_hash''))"

definition validate_ingress_packet :: "envelope_params \<Rightarrow> fields \<Rightarrow> packet_error + ingress" where
  "validate_ingress_packet ep packet =
     (case dget_or packet ''action'' PNone of
        PStr action \<Rightarrow>
          if action = [] then Inl (NotAText ''action'')
          else if action \<notin> set (ep_registered ep) then Inl (NotRegistered action)
          else (case dget_or packet ''payload'' PNone of
            PDict payload \<Rightarrow>
              (let tenant = dget_or packet ''tenant'' PNone; declared = dget_or packet ''content_hash'' PNone in
               if (case tenant of PStr _ \<Rightarrow> False | PDict _ \<Rightarrow> False | _ \<Rightarrow> True) then Inl (NotAnObject ''tenant'')
               else
                 bind_res (check_hash ep action payload tenant declared) (\<lambda>_.
                 bind_res (optional_text packet ''packet_id'') (\<lambda>packet_id.
                 bind_res (optional_text packet ''reply_to'') (\<lambda>reply_to.
                 bind_res (optional_text packet ''source_node'') (\<lambda>source.
                 bind_res (normalize_lineage (dget_or packet ''lineage'' PNone)) (\<lambda>lineage.
                 bind_res (normalize_governance (dget_or packet ''governance'' PNone)) (\<lambda>governance.
                 bind_res (normalize_hop_trace (dget_or packet ''hop_trace'' PNone)) (\<lambda>hops.
                 bind_res (normalize_delegation_chain (dget_or packet ''delegation_chain'' PNone)) (\<lambda>chain.
                   Inr \<lparr>ig_packet_id = packet_id, ig_action = action, ig_payload = payload, ig_tenant = tenant,
                        ig_source = source, ig_reply_to = reply_to, ig_lineage = lineage, ig_governance = governance,
                        ig_hops = hops, ig_chain = chain, ig_hash = declared\<rparr>)))))))))
          | _ \<Rightarrow> Inl (NotAnObject ''payload''))
      | _ \<Rightarrow> Inl (NotAText ''action''))"

definition or_else :: "pyval \<Rightarrow> pyval \<Rightarrow> pyval" where
  "or_else v w = (if truthy v then v else w)"

definition build_egress_packet ::
    "envelope_params \<Rightarrow> fields \<Rightarrow> fields \<Rightarrow> string \<Rightarrow> string \<Rightarrow> bool \<Rightarrow> string \<Rightarrow> string \<Rightarrow> string \<Rightarrow> packet_error + fields" where
  "build_egress_packet ep packet result node packet_type cleared new_id now1 now2 =
     bind_res (validate_ingress_packet ep packet) (\<lambda>ig.
       if ig_action ig \<in> set (ep_external ep) \<and> \<not> cleared then Inl NeedsClearance
       else
         (let ingress_id = or_else (ig_packet_id ig) (PStr ''unknown-ingress-packet'');
              hop = [(''node'', PStr node), (''action'', PStr (ig_action ig)), (''status'', PStr ''completed''), (''timestamp'', PStr now1)];
              root = or_else (pl_root (ig_lineage ig)) ingress_id
          in Inr
            [(''packet_id'', PStr new_id), (''packet_type'', PStr packet_type), (''action'', PStr (ig_action ig)),
             (''payload'', PDict result), (''timestamp'', PStr now2),
             (''address'', PDict [(''source_node'', PStr node), (''destination_node'', ig_reply_to ig), (''reply_to'', PStr node)]),
             (''tenant'', ig_tenant ig),
             (''lineage'', PDict [(''parent_ids'', PList [ingress_id]), (''root_id'', root),
                (''generation'', PInt (int_of (pl_generation (ig_lineage ig)) + 1)),
                (''derivation_type'', pl_derivation (ig_lineage ig))]),
             (''governance'', PDict (ig_governance ig)), (''hop_trace'', PList (map PDict (ig_hops ig @ [hop]))),
             (''delegation_chain'', PList (map PDict (ig_chain ig))),
             (''content_hash'', PStr (canonical_packet_hash ep (ig_action ig) result (ig_tenant ig)))]))"

section \<open>Laws\<close>

lemma check_hop_Inr: "check_hop item ks = Inr u \<longleftrightarrow> list_all (\<lambda>k. dmem k item \<and> is_text (dget_or item k PNone)) ks"
  by (induction ks) auto

lemma normalize_items_Inr:
  "normalize_items check what xs = Inr ds \<longleftrightarrow> xs = map PDict ds \<and> list_all (\<lambda>d. check d = Inr ()) ds"
proof (induction check what xs arbitrary: ds rule: normalize_items.induct)
  case (2 check what d xs)
  then show ?case by (cases ds) (auto simp: bind_res_Inr_iff)
qed auto

lemma normalize_list_Inr:
  "normalize_list check what (PList (map PDict ds)) = Inr ds \<longleftrightarrow> list_all (\<lambda>d. check d = Inr ()) ds"
  by (simp add: normalize_list_def normalize_items_Inr)

lemma normalize_list_checked: "normalize_list check what v = Inr ds \<Longrightarrow> list_all (\<lambda>d. check d = Inr ()) ds"
  by (auto simp: normalize_list_def normalize_items_Inr split: pyval.splits)

definition lineage_ok :: "packet_lineage \<Rightarrow> bool" where
  "lineage_ok l \<longleftrightarrow> list_all is_text (pl_parents l) \<and> is_int (pl_generation l) \<and> 0 \<le> int_of (pl_generation l) \<and>
     (pl_root l = PNone \<or> is_text (pl_root l)) \<and> (pl_derivation l = PNone \<or> is_text (pl_derivation l))"

lemma normalize_lineage_ok: "normalize_lineage v = Inr l \<Longrightarrow> lineage_ok l"
  by (auto simp: normalize_lineage_def Let_def lineage_ok_def split: pyval.splits if_splits)

definition ingress_ok :: "envelope_params \<Rightarrow> ingress \<Rightarrow> bool" where
  "ingress_ok ep ig \<longleftrightarrow> ig_action ig \<noteq> [] \<and> ig_action ig \<in> set (ep_registered ep) \<and>
     (case ig_tenant ig of PStr _ \<Rightarrow> True | PDict _ \<Rightarrow> True | _ \<Rightarrow> False) \<and> (ig_packet_id ig = PNone \<or> is_text (ig_packet_id ig)) \<and>
     lineage_ok (ig_lineage ig) \<and> list_all (\<lambda>d. check_hop d hop_keys = Inr ()) (ig_hops ig) \<and>
     (ig_hash ig = PNone \<or> ig_hash ig = PStr (canonical_packet_hash ep (ig_action ig) (ig_payload ig) (ig_tenant ig)))"

lemma check_hash_Inr: "check_hash ep action payload tenant declared = Inr u \<Longrightarrow>
  declared = PNone \<or> declared = PStr (canonical_packet_hash ep action payload tenant)"
  by (auto simp: check_hash_def split: pyval.splits if_splits)

lemma optional_text_Inr: "optional_text packet k = Inr v \<Longrightarrow> v = PNone \<or> is_text v"
  by (auto simp: optional_text_def Let_def split: if_splits)

lemma validate_ingress_ok: "validate_ingress_packet ep packet = Inr ig \<Longrightarrow> ingress_ok ep ig"
proof -
  assume v: "validate_ingress_packet ep packet = Inr ig"
  then obtain action payload where a: "dget_or packet ''action'' PNone = PStr action" "action \<noteq> []" "action \<in> set (ep_registered ep)"
    "dget_or packet ''payload'' PNone = PDict payload"
    by (auto simp: validate_ingress_packet_def split: pyval.splits if_splits)
  let ?tenant = "dget_or packet ''tenant'' PNone"
  have t: "case ?tenant of PStr _ \<Rightarrow> True | PDict _ \<Rightarrow> True | _ \<Rightarrow> False"
    using v a by (simp add: validate_ingress_packet_def Let_def split: pyval.splits)
  obtain pid rt src l gov hops chain where
    "check_hash ep action payload ?tenant (dget_or packet ''content_hash'' PNone) = Inr ()"
    "optional_text packet ''packet_id'' = Inr pid" "normalize_lineage (dget_or packet ''lineage'' PNone) = Inr l"
    "normalize_hop_trace (dget_or packet ''hop_trace'' PNone) = Inr hops"
    "ig = \<lparr>ig_packet_id = pid, ig_action = action, ig_payload = payload, ig_tenant = ?tenant, ig_source = src, ig_reply_to = rt,
       ig_lineage = l, ig_governance = gov, ig_hops = hops, ig_chain = chain, ig_hash = dget_or packet ''content_hash'' PNone\<rparr>"
    using v a t by (auto simp: validate_ingress_packet_def Let_def bind_res_Inr_iff split: pyval.splits if_splits)
  with a t check_hash_Inr optional_text_Inr normalize_lineage_ok show ?thesis
    by (auto simp: ingress_ok_def normalize_hop_trace_def dest: normalize_list_checked)
qed


lemma lineage_roundtrip:
  assumes "lineage_ok l" and "is_text pid" and "rid = PNone \<or> is_text rid"
  shows "normalize_lineage (PDict [(''parent_ids'', PList [pid]), (''root_id'', rid),
           (''generation'', PInt (int_of (pl_generation l) + 1)), (''derivation_type'', pl_derivation l)]) =
         Inr \<lparr>pl_parents = [pid], pl_root = rid, pl_generation = PInt (int_of (pl_generation l) + 1),
              pl_derivation = pl_derivation l\<rparr>"
  using assms by (auto simp: normalize_lineage_def lineage_ok_def is_int_def dget_or_def Let_def)

lemma hop_trace_roundtrip:
  assumes "list_all (\<lambda>d. check_hop d hop_keys = Inr ()) hops"
  shows "normalize_hop_trace (PList (map PDict hops @
           [PDict [(''node'', PStr node), (''action'', PStr a), (''status'', PStr st), (''timestamp'', PStr now)]])) =
         Inr (hops @ [[(''node'', PStr node), (''action'', PStr a), (''status'', PStr st), (''timestamp'', PStr now)]])"
    (is "normalize_hop_trace (PList (map PDict hops @ [PDict ?hop])) = _")
proof -
  have "check_hop ?hop hop_keys = Inr ()"
    by (simp add: hop_keys_def is_text_def dget_or_def dmem_def)
  then show ?thesis
    using assms normalize_list_Inr [of "\<lambda>item. check_hop item hop_keys" "''hop_trace''" "hops @ [?hop]"]
    by (simp add: normalize_hop_trace_def)
qed

lemma delegation_chain_roundtrip: "normalize_delegation_chain (PList (map PDict ds)) = Inr ds"
  by (simp add: normalize_delegation_chain_def normalize_list_Inr list_all_iff)

text \<open>
  C29: \<open>build_egress_packet\<close> / \<open>validate_ingress_packet\<close>. Every packet the node sends out is accepted by the
  validation of the next node (for a digest that is never the empty string): same action and tenant,
  the result as payload, governance and delegation chain unchanged, the hop trace extended by exactly one
  hop at the end, the generation one higher, the incoming packet as only parent and the root kept, or
  set to the incoming packet when there was none. A registered action that mutates outside systems only gets that far with clearance.
\<close>
theorem egress_reingests:
  assumes "validate_ingress_packet ep packet = Inr ig" and "\<And>s. ep_hash ep s \<noteq> []"
    and "build_egress_packet ep packet result node packet_type cleared new_id now1 now2 = Inr out"
  shows "(ig_action ig \<in> set (ep_external ep) \<longrightarrow> cleared) \<and>
    (\<exists>ig'. validate_ingress_packet ep out = Inr ig' \<and>
      ig_action ig' = ig_action ig \<and> ig_tenant ig' = ig_tenant ig \<and> ig_payload ig' = result \<and>
      ig_governance ig' = ig_governance ig \<and> ig_chain ig' = ig_chain ig \<and>
      (\<exists>hop. ig_hops ig' = ig_hops ig @ [hop] \<and> dget_or hop ''node'' PNone = PStr node) \<and>
      pl_parents (ig_lineage ig') = [or_else (ig_packet_id ig) (PStr ''unknown-ingress-packet'')] \<and>
      pl_root (ig_lineage ig') = or_else (pl_root (ig_lineage ig)) (hd (pl_parents (ig_lineage ig'))) \<and>
      int_of (pl_generation (ig_lineage ig')) = int_of (pl_generation (ig_lineage ig)) + 1)"
proof -
  from validate_ingress_ok [OF assms(1)] have ok: "ingress_ok ep ig" .
  let ?pid = "or_else (ig_packet_id ig) (PStr ''unknown-ingress-packet'')"
  have pid: "is_text ?pid"
    using ok by (auto simp: ingress_ok_def or_else_def is_text_def  split: pyval.splits)
  have root: "or_else (pl_root (ig_lineage ig)) ?pid = PNone \<or> is_text (or_else (pl_root (ig_lineage ig)) ?pid)"
    using ok pid by (auto simp: ingress_ok_def lineage_ok_def or_else_def)
  have cl: "ig_action ig \<in> set (ep_external ep) \<longrightarrow> cleared"
    using assms by (auto simp: build_egress_packet_def split: if_splits)
  with assms have out: "out =
      [(''packet_id'', PStr new_id), (''packet_type'', PStr packet_type), (''action'', PStr (ig_action ig)),
       (''payload'', PDict result), (''timestamp'', PStr now2),
       (''address'', PDict [(''source_node'', PStr node), (''destination_node'', ig_reply_to ig), (''reply_to'', PStr node)]),
       (''tenant'', ig_tenant ig),
       (''lineage'', PDict [(''parent_ids'', PList [?pid]), (''root_id'', or_else (pl_root (ig_lineage ig)) ?pid),
          (''generation'', PInt (int_of (pl_generation (ig_lineage ig)) + 1)),
          (''derivation_type'', pl_derivation (ig_lineage ig))]),
       (''governance'', PDict (ig_governance ig)),
       (''hop_trace'', PList (map PDict (ig_hops ig @ [[(''node'', PStr node), (''action'', PStr (ig_action ig)),
           (''status'', PStr ''completed''), (''timestamp'', PStr now1)]]))),
       (''delegation_chain'', PList (map PDict (ig_chain ig))),
       (''content_hash'', PStr (canonical_packet_hash ep (ig_action ig) result (ig_tenant ig)))]"
    by (auto simp: build_egress_packet_def Let_def split: if_splits)
  have l: "lineage_ok (ig_lineage ig)" and h: "list_all (\<lambda>d. check_hop d hop_keys = Inr ()) (ig_hops ig)"
    and a: "ig_action ig \<noteq> []" "ig_action ig \<in> set (ep_registered ep)"
    and t: "case ig_tenant ig of PStr _ \<Rightarrow> True | PDict _ \<Rightarrow> True | _ \<Rightarrow> False"
    using ok by (simp_all add: ingress_ok_def)
  have hash: "check_hash ep (ig_action ig) result (ig_tenant ig)
      (PStr (canonical_packet_hash ep (ig_action ig) result (ig_tenant ig))) = Inr ()"
    using assms(2) by (simp add: check_hash_def canonical_packet_hash_def)
  show ?thesis
    using cl a t hash hop_trace_roundtrip [OF h] lineage_roundtrip [OF l pid root]
    by (auto simp: out validate_ingress_packet_def dget_or_def optional_text_def is_text_def
        normalize_governance_def delegation_chain_roundtrip Let_def split: pyval.splits)
qed

definition sample_params :: envelope_params where
  "sample_params = \<lparr>ep_dump = (\<lambda>v. case v of PDict d \<Rightarrow> ''o'' @ concat (map fst d) | _ \<Rightarrow> ''v''),
     ep_hash = (\<lambda>s. ''h'' @ s), ep_registered = [''enrich'', ''writeback''], ep_external = [''writeback'']\<rparr>"

definition sample_packet :: fields where
  "sample_packet = [(''packet_id'', PStr ''p1''), (''action'', PStr ''enrich''), (''payload'', PDict [(''name'', PStr ''Acme'')]),
     (''tenant'', PStr ''t''), (''reply_to'', PStr ''crm''), (''source_node'', PStr ''crm'')]"

definition sample_ingress :: ingress where
  "sample_ingress = \<lparr>ig_packet_id = PStr ''p1'', ig_action = ''enrich'', ig_payload = [(''name'', PStr ''Acme'')], ig_tenant = PStr ''t'',
     ig_source = PStr ''crm'', ig_reply_to = PStr ''crm'',
     ig_lineage = \<lparr>pl_parents = [], pl_root = PNone, pl_generation = PInt 0, pl_derivation = PNone\<rparr>,
     ig_governance = [], ig_hops = [], ig_chain = [], ig_hash = PNone\<rparr>"

lemma sample_validates: "validate_ingress_packet sample_params sample_packet = Inr sample_ingress"
  by (simp add: validate_ingress_packet_def sample_params_def sample_packet_def sample_ingress_def dget_or_def check_hash_def
      optional_text_def is_text_def is_int_def normalize_lineage_def normalize_governance_def normalize_hop_trace_def
      normalize_delegation_chain_def normalize_list_def Let_def)

definition sample_egress :: fields where
  "sample_egress = (case build_egress_packet sample_params sample_packet [(''ok'', PBool True)] ''enrich'' ''enrichment_result'' False
     ''p2'' ''now'' ''now'' of Inr out \<Rightarrow> out | Inl e \<Rightarrow> [])"

lemma sample_egress_built:
  "build_egress_packet sample_params sample_packet [(''ok'', PBool True)] ''enrich'' ''enrichment_result'' False ''p2'' ''now'' ''now'' =
   Inr sample_egress"
proof -
  have "''enrich'' \<notin> set (ep_external sample_params)" by (simp add: sample_params_def)
  then show ?thesis
    by (simp add: sample_egress_def build_egress_packet_def sample_validates Let_def) (simp add: sample_ingress_def)
qed

theorem egress_reingests_witness:
  "\<exists>ig'. validate_ingress_packet sample_params sample_egress = Inr ig' \<and> ig_payload ig' = [(''ok'', PBool True)] \<and>
     pl_parents (ig_lineage ig') = [PStr ''p1''] \<and> length (ig_hops ig') = 1"
proof -
  have h: "\<And>s. ep_hash sample_params s \<noteq> []" by (simp add: sample_params_def)
  from egress_reingests [OF sample_validates h sample_egress_built] show ?thesis
    by (auto simp: sample_ingress_def or_else_def)
qed

text \<open>
  The reply address of an egress packet sits inside its \<open>address\<close>, where \<open>validate_ingress_packet\<close> does not look:
  the next node reads no \<open>reply_to\<close> and no \<open>source_node\<close> from it, and addresses its own answer to nobody.
\<close>
lemma ingress_addresses: "validate_ingress_packet ep packet = Inr ig \<Longrightarrow>
  ig_reply_to ig = dget_or packet ''reply_to'' PNone \<and> ig_source ig = dget_or packet ''source_node'' PNone"
  by (auto simp: validate_ingress_packet_def Let_def bind_res_Inr_iff optional_text_def split: pyval.splits if_splits)

lemma egress_addresses: "build_egress_packet ep packet result node packet_type cleared new_id now1 now2 = Inr out \<Longrightarrow>
  dget_or out ''reply_to'' PNone = PNone \<and> dget_or out ''source_node'' PNone = PNone"
  by (auto simp: build_egress_packet_def bind_res_Inr_iff Let_def dget_or_def split: if_splits)

lemma reply_address_lost:
  assumes "build_egress_packet ep packet result node packet_type cleared new_id now1 now2 = Inr out"
    and "validate_ingress_packet ep out = Inr ig'"
  shows "ig_reply_to ig' = PNone \<and> ig_source ig' = PNone"
  using egress_addresses [OF assms(1)] ingress_addresses [OF assms(2)] by simp

end
