(* ===== verification/PolicyGuards.thy ===== *)
theory PolicyGuards
  imports DerivationGraph
begin

text \<open>
  The guards in front of actions that change outside systems and of events:
  \<open>app/services/dependency_enforcement.py\<close> (an action runs when its dependencies are ready),
  \<open>app/services/action_authority.py\<close> (policy clearance, and which fields a write-back may write) and
  \<open>app/services/event_contract_guard.py\<close> (the shape of an event). The constitution, the JSON schema of the
  write-back payload and the AsyncAPI file are data: \<open>constitution\<close>, \<open>writeback_required\<close> and the list of
  event types. The attestation gives a readiness per dependency. \<open>datetime.fromisoformat\<close> is the
  parameter \<open>isodate\<close>, \<open>json.dumps\<close> is \<open>dump\<close>. The texts of the exceptions are not modelled.
\<close>

section \<open>Dependencies\<close>



datatype guard_error =
    UnknownAction string
  | UnavailableDependency
  | NoTargetReady
  | NoClearance
  | BadPayload
  | BadEvent
  | Unhashable
  | BadDate





section \<open>Write-back\<close>

definition writeback_required :: "string list" where
  "writeback_required = [''crm_type'', ''object_type'', ''record_id'', ''enriched_data'']"

datatype writeback_status = Partly | Completed_all | Rejected_all

record writeback_evaluation =
  we_status :: writeback_status
  we_attempted :: "string list"
  we_written :: "string list"
  we_skipped :: "string list"
  we_reasons :: "(string, string) dict"

text \<open>\<open>f"{x:.4f}"\<close>.\<close>

definition fixed4 :: "f64 \<Rightarrow> string" where
  "fixed4 x =
     (let n = rhe (\<bar>to_rat x\<bar> * 10000); frac = digits_of (n mod 10000)
      in (if to_rat x < 0 then ''-'' else []) @ digits_of (n div 10000) @ ''.'' @ replicate (4 - length frac) CHR ''0'' @ frac)"

definition field_confidence_of :: "fields \<Rightarrow> string \<Rightarrow> f64" where
  "field_confidence_of confs f = safe_float (dget_or confs f (PFloat 0)) 0"

definition writeback_split :: "fields \<Rightarrow> fields \<Rightarrow> f64 \<Rightarrow> writeback_evaluation" where
  "writeback_split enriched confs threshold =
     (let ok = (\<lambda>f. threshold \<le> field_confidence_of confs f);
          written = filter ok (dkeys enriched); skipped = filter (\<lambda>f. \<not> ok f) (dkeys enriched)
      in \<lparr>we_status = (if written \<noteq> [] \<and> skipped \<noteq> [] then Partly else if written \<noteq> [] then Completed_all else Rejected_all),
          we_attempted = dkeys enriched, we_written = written, we_skipped = skipped,
          we_reasons = map (\<lambda>f. (f, ''confidence '' @ fixed4 (field_confidence_of confs f) @ '' below threshold '' @ fixed4 threshold)) skipped\<rparr>)"

definition evaluate_writeback_payload :: "fields \<Rightarrow> guard_error + writeback_evaluation" where
  "evaluate_writeback_payload payload =
     (if \<not> list_all (\<lambda>k. dmem k payload) writeback_required then Inl BadPayload
      else case dget_or payload ''enriched_data'' PNone of
        PDict enriched \<Rightarrow>
          (let threshold = safe_float (dget_or payload ''confidence_threshold'' PNone) (flt (7 / 10)) in
           if threshold < 0 \<or> 1 < threshold then Inl BadPayload
           else case dget_or payload ''_field_confidences'' (PDict []) of
             PNone \<Rightarrow> Inr (writeback_split enriched [] threshold)
           | PDict confs \<Rightarrow> Inr (writeback_split enriched confs threshold)
           | _ \<Rightarrow> Inl BadPayload)
      | _ \<Rightarrow> Inl BadPayload)"



section \<open>Events\<close>

definition is_nonempty_text :: "pyval \<Rightarrow> bool" where
  "is_nonempty_text v = (case v of PStr s \<Rightarrow> s \<noteq> [] | _ \<Rightarrow> False)"

definition event_keys :: "string list" where
  "event_keys = [''correlation_id'', ''entity_id'', ''event_type'', ''occurred_at'', ''tenant_id'']"

definition replace_z :: "string \<Rightarrow> string" where
  "replace_z s = concat (map (\<lambda>ch. if ch = CHR ''Z'' then ''+00:00'' else [ch]) s)"

definition event_type_known :: "string list \<Rightarrow> pyval \<Rightarrow> guard_error + unit" where
  "event_type_known types v =
     (case v of PStr s \<Rightarrow> if s \<in> set types then Inr () else Inl BadEvent
      | PList _ \<Rightarrow> Inl Unhashable | PDict _ \<Rightarrow> Inl Unhashable | _ \<Rightarrow> Inl BadEvent)"

definition validate_event :: "(string \<Rightarrow> bool) \<Rightarrow> string list \<Rightarrow> fields \<Rightarrow> guard_error + fields" where
  "validate_event isodate types event =
     (if \<not> list_all (\<lambda>k. dmem k event) event_keys then Inl BadEvent
      else bind_res (event_type_known types (dget_or event ''event_type'' PNone)) (\<lambda>_.
        if \<not> list_all (\<lambda>k. is_nonempty_text (dget_or event k PNone)) [''entity_id'', ''tenant_id'', ''correlation_id''] then Inl BadEvent
        else if (case dget_or event ''domain'' PNone of PNone \<Rightarrow> False | PStr _ \<Rightarrow> False | _ \<Rightarrow> True) then Inl BadEvent
        else case dget_or event ''occurred_at'' PNone of
          PStr t \<Rightarrow>
            if t = [] then Inl BadEvent
            else if \<not> isodate (replace_z t) then Inl BadDate
            else (case dget_or event ''payload'' (PDict []) of
              PDict payload \<Rightarrow> Inr
                [(''event_type'', dget_or event ''event_type'' PNone), (''entity_id'', dget_or event ''entity_id'' PNone),
                 (''tenant_id'', dget_or event ''tenant_id'' PNone), (''domain'', dget_or event ''domain'' PNone),
                 (''payload'', PDict payload), (''correlation_id'', dget_or event ''correlation_id'' PNone),
                 (''occurred_at'', PStr t)]
            | _ \<Rightarrow> Inl BadEvent)
        | _ \<Rightarrow> Inl BadEvent))"

definition to_stream_dict :: "(string \<Rightarrow> bool) \<Rightarrow> (pyval \<Rightarrow> string) \<Rightarrow> string list \<Rightarrow> fields \<Rightarrow> guard_error + fields" where
  "to_stream_dict isodate dump types event =
     bind_res (validate_event isodate types event) (\<lambda>n. Inr
       [(''event_type'', dget_or n ''event_type'' PNone), (''entity_id'', dget_or n ''entity_id'' PNone),
        (''tenant_id'', dget_or n ''tenant_id'' PNone),
        (''domain'', if dget_or n ''domain'' PNone = PNone then PStr [] else dget_or n ''domain'' PNone),
        (''payload'', PStr (dump (dget_or n ''payload'' PNone))), (''correlation_id'', dget_or n ''correlation_id'' PNone),
        (''occurred_at'', dget_or n ''occurred_at'' PNone)])"

text \<open>The emitter is outside: \<open>send\<close> says with which error text it fails on a wire message, if it does.\<close>

datatype emitted = Emitted fields | EmitFailed string fields | Raised string

definition emit_event ::
    "(fields \<Rightarrow> string option) \<Rightarrow> (string \<Rightarrow> bool) \<Rightarrow> (pyval \<Rightarrow> string) \<Rightarrow> string list \<Rightarrow> fields \<Rightarrow> bool \<Rightarrow> guard_error + emitted" where
  "emit_event send isodate dump types event raise =
     bind_res (to_stream_dict isodate dump types event) (\<lambda>wire. Inr
       (case send wire of None \<Rightarrow> Emitted wire | Some e \<Rightarrow> if raise then Raised e else EmitFailed e wire))"

section \<open>Properties\<close>


lemma writeback_split_laws:
  fixes enriched confs threshold
  defines "e \<equiv> writeback_split enriched confs threshold"
  shows "set (we_written e) \<union> set (we_skipped e) = set (dkeys enriched)" and "set (we_written e) \<inter> set (we_skipped e) = {}"
    and "f \<in> set (we_written e) \<Longrightarrow> threshold \<le> field_confidence_of confs f" and "dkeys (we_reasons e) = we_skipped e"
    and "we_status e = Rejected_all \<longleftrightarrow> we_written e = []" and "we_attempted e = dkeys enriched"
    and "length (we_written e) + length (we_skipped e) = length enriched"
proof -
  show "length (we_written e) + length (we_skipped e) = length enriched"
    using sum_length_filter_compl [of "\<lambda>f. threshold \<le> field_confidence_of confs f" "dkeys enriched"]
    by (simp add: e_def writeback_split_def Let_def del: length_filter_map)
qed (auto simp: e_def writeback_split_def Let_def o_def filter_empty_conv split: if_splits)









text \<open>The schema documents 0.65 as the default threshold; the code takes 0.70 where the payload has none.\<close>

lemma default_threshold_is_higher:
  "evaluate_writeback_payload [(''crm_type'', PStr ''odoo''), (''object_type'', PStr ''p''), (''record_id'', PStr ''1''),
      (''enriched_data'', PDict [(''city'', PStr ''Ulm'')]), (''_field_confidences'', PDict [(''city'', PFloat (flt (13 / 20)))])] =
   Inr (writeback_split [(''city'', PStr ''Ulm'')] [(''city'', PFloat (flt (13 / 20)))] (flt (7 / 10))) \<and>
   we_written (writeback_split [(''city'', PStr ''Ulm'')] [(''city'', PFloat (flt (13 / 20)))] (flt (7 / 10))) = []"
  by (simp add: evaluate_writeback_payload_def writeback_required_def dmem_def dget_or_def safe_float_def f64_eval
      writeback_split_def field_confidence_of_def Let_def)

lemma normal_event_valid:
  assumes "et \<in> set types" "is_nonempty_text i" "is_nonempty_text tn" "is_nonempty_text co" "t \<noteq> []" "isodate (replace_z t)"
    "\<not> (case dm of PNone \<Rightarrow> False | PStr _ \<Rightarrow> False | _ \<Rightarrow> True)"
  shows "validate_event isodate types [(''event_type'', PStr et), (''entity_id'', i), (''tenant_id'', tn), (''domain'', dm),
       (''payload'', PDict payload), (''correlation_id'', co), (''occurred_at'', PStr t)] =
     Inr [(''event_type'', PStr et), (''entity_id'', i), (''tenant_id'', tn), (''domain'', dm),
       (''payload'', PDict payload), (''correlation_id'', co), (''occurred_at'', PStr t)]"
  using assms by (simp add: validate_event_def event_keys_def dmem_def dget_or_def event_type_known_def)

text \<open>A validated event is in normal form: validating it again changes nothing.\<close>

lemma validate_event_idempotent:
  assumes "validate_event isodate types event = Inr n"
  shows "validate_event isodate types n = Inr n"
proof -
  from assms obtain et t payload where e: "dget_or event ''event_type'' PNone = PStr et" "et \<in> set types"
    "dget_or event ''occurred_at'' PNone = PStr t" "t \<noteq> []" "isodate (replace_z t)"
    "n = [(''event_type'', PStr et), (''entity_id'', dget_or event ''entity_id'' PNone),
       (''tenant_id'', dget_or event ''tenant_id'' PNone), (''domain'', dget_or event ''domain'' PNone),
       (''payload'', PDict payload), (''correlation_id'', dget_or event ''correlation_id'' PNone), (''occurred_at'', PStr t)]"
    by (auto simp: validate_event_def bind_res_Inr_iff event_type_known_def split: if_splits pyval.splits)
  have k: "is_nonempty_text (dget_or event ''entity_id'' PNone)" "is_nonempty_text (dget_or event ''tenant_id'' PNone)"
    "is_nonempty_text (dget_or event ''correlation_id'' PNone)"
    "\<not> (case dget_or event ''domain'' PNone of PNone \<Rightarrow> False | PStr _ \<Rightarrow> False | _ \<Rightarrow> True)"
    using assms by (auto simp: validate_event_def bind_res_Inr_iff split: if_splits)
  show ?thesis
    unfolding e(6) using e k by (intro normal_event_valid) simp_all
qed

end
