(* ===== verification/PyNumbers.thy ===== *)
theory PyNumbers
  imports PyValue
begin

text \<open>
  What several components use of Python's numbers: \<open>isinstance(v, (int, float))\<close> and the module \<open>statistics\<close>.
  \<open>mean\<close> is the exact mean, rounded once; \<open>stdev\<close> is the root of the exact sample variance, with the
  rounded square root of a fraction as the parameter \<open>fsqrt\<close>.
\<close>

fun is_number :: "pyval \<Rightarrow> bool" where
  "is_number (PBool _) = True"
| "is_number (PInt _) = True"
| "is_number (PFloat _) = True"
| "is_number _ = False"

definition exact_mean :: "f64 list \<Rightarrow> rat" where
  "exact_mean xs = sum_list (map to_rat xs) / of_nat (length xs)"

definition stat_mean :: "f64 list \<Rightarrow> f64" where
  "stat_mean xs = flt (exact_mean xs)"

definition stat_stdev :: "(rat \<Rightarrow> f64) \<Rightarrow> f64 list \<Rightarrow> f64" where
  "stat_stdev fsqrt xs =
     (if 1 < length xs
      then fsqrt (sum_list (map (\<lambda>x. (to_rat x - exact_mean xs) ^ 2) xs) / of_nat (length xs - 1)) else 0)"

end
