(* ===== verification/HealthAssessor.thy ===== *)
theory HealthAssessor
  imports PyNumbers Voting "HOL-Library.Product_Lexorder"
begin

text \<open>
  \<open>app/health/health_models.py\<close> and \<open>app/health/health_assessor.py\<close>: the health of one entity, of the
  fields over all entities and of the whole base, and the triggers that ask for enrichment again. The
  store is an interface without an implementation here: the ids and counts it answers are arguments, and
  so are the instants (microseconds) the clock gives. \<open>math.exp\<close> is the parameter \<open>fexp\<close>; \<open>ord\<close> is the order
  in which a set is visited. A model that refuses a value raises, which is \<open>Inl ValueError\<close>. Reason texts,
  identifiers and the duration are not modelled.
\<close>

section \<open>Models\<close>

datatype health_action = ReEnrich | VerifyField | ResolveConflict | FillMissing | RefreshStale | FlagOutlier

datatype trigger_reason = Staleness | LowConfidence | LowCompleteness | Inconsistency | CompositeBelow | ScoreConfidenceDrop | GateFieldMissing

definition unit_ok :: "f64 \<Rightarrow> bool" where
  "unit_ok x \<longleftrightarrow> 0 \<le> x \<and> x \<le> 1"

record field_health =
  fh_field :: string
  fh_fill :: f64
  fh_avg :: f64
  fh_min :: f64
  fh_max :: f64
  fh_p50 :: f64
  fh_p90 :: f64
  fh_outliers :: int
  fh_total :: int
  fh_values :: "(string, nat) dict"
  fh_gate :: bool
  fh_scoring :: bool

definition health_score :: "field_health \<Rightarrow> f64" where
  "health_score fh =
     (let stale = max 0 (1 - fh_p50 fh / f_of_int 180)
      in fh_fill fh * flt (2 / 5) + fh_avg fh * flt (7 / 20) + stale * flt (1 / 4))"

definition field_health_ok :: "field_health \<Rightarrow> bool" where
  "field_health_ok fh \<longleftrightarrow> unit_ok (fh_fill fh) \<and> unit_ok (fh_avg fh) \<and> unit_ok (fh_min fh) \<and> unit_ok (fh_max fh) \<and>
     0 \<le> fh_p50 fh \<and> 0 \<le> fh_p90 fh \<and> 0 \<le> fh_outliers fh \<and> 0 \<le> fh_total fh"

record recommended_action =
  ra_kind :: health_action
  ra_field :: "string option"
  ra_priority :: f64

record entity_health =
  eh_entity :: string
  eh_domain :: string
  eh_completeness :: f64
  eh_freshness :: f64
  eh_confidence :: f64
  eh_consistency :: f64
  eh_composite :: f64
  eh_last :: "int option"
  eh_total :: nat
  eh_filled :: nat
  eh_stale :: nat
  eh_low :: nat
  eh_gate_missing :: "string list"
  eh_scoring_missing :: "string list"
  eh_actions :: "recommended_action list"

definition entity_health_ok :: "entity_health \<Rightarrow> bool" where
  "entity_health_ok e \<longleftrightarrow> unit_ok (eh_completeness e) \<and> unit_ok (eh_freshness e) \<and> unit_ok (eh_confidence e) \<and>
     unit_ok (eh_consistency e) \<and> unit_ok (eh_composite e)"

definition is_healthy :: "entity_health \<Rightarrow> bool" where
  "is_healthy e \<longleftrightarrow> flt (7 / 10) \<le> eh_composite e"

definition needs_enrichment :: "entity_health \<Rightarrow> bool" where
  "needs_enrichment e \<longleftrightarrow> eh_composite e < flt (1 / 2) \<or> eh_gate_missing e \<noteq> [] \<or> eh_freshness e < flt (3 / 10)"

record crm_health =
  cr_total :: int
  cr_readiness :: f64
  cr_completeness :: f64
  cr_freshness :: f64
  cr_confidence :: f64
  cr_consistency :: f64
  cr_fields :: "field_health list"
  cr_enrichment :: f64
  cr_graph :: f64
  cr_below :: nat
  cr_needing :: nat

definition crm_health_ok :: "crm_health \<Rightarrow> bool" where
  "crm_health_ok c \<longleftrightarrow> 0 \<le> cr_total c \<and> unit_ok (cr_readiness c) \<and> unit_ok (cr_completeness c) \<and> unit_ok (cr_freshness c) \<and>
     unit_ok (cr_confidence c) \<and> unit_ok (cr_consistency c) \<and> unit_ok (cr_enrichment c) \<and> unit_ok (cr_graph c)"

definition is_ai_ready :: "crm_health \<Rightarrow> bool" where
  "is_ai_ready c \<longleftrightarrow> flt (7 / 10) \<le> cr_readiness c"

record health_trigger =
  ht_entity :: string
  ht_domain :: string
  ht_reason :: trigger_reason
  ht_priority :: f64
  ht_targets :: "string list"
  ht_health :: f64

record health_weights =
  hw_completeness :: f64
  hw_freshness :: f64
  hw_confidence :: f64
  hw_consistency :: f64

definition default_weights :: health_weights where
  "default_weights = \<lparr>hw_completeness = flt (3 / 10), hw_freshness = flt (1 / 4), hw_confidence = flt (1 / 4), hw_consistency = flt (1 / 5)\<rparr>"

text \<open>
  \<open>HealthWeights(...)\<close>, an argument \<open>None\<close> for a default. The sum is only checked when the last weight is
  given, with \<open>get(...) or default\<close> for the others.
\<close>

definition weight_or :: "f64 \<Rightarrow> f64 \<Rightarrow> f64" where
  "weight_or w dflt = (if w = 0 then dflt else w)"

definition weights_sum_to_one :: "health_weights \<Rightarrow> bool" where
  "weights_sum_to_one w =
     (let total = weight_or (hw_completeness w) (flt (3 / 10)) + weight_or (hw_freshness w) (flt (1 / 4)) +
                  weight_or (hw_confidence w) (flt (1 / 4)) + hw_consistency w
      in flt (99 / 100) \<le> total \<and> total \<le> flt (101 / 100))"

definition given_or :: "f64 option \<Rightarrow> f64 \<Rightarrow> f64" where
  "given_or x dflt = (case x of None \<Rightarrow> dflt | Some v \<Rightarrow> v)"

definition make_weights :: "f64 option \<Rightarrow> f64 option \<Rightarrow> f64 option \<Rightarrow> f64 option \<Rightarrow> pyerr + health_weights" where
  "make_weights c f k s =
     (let w = \<lparr>hw_completeness = given_or c (hw_completeness default_weights), hw_freshness = given_or f (hw_freshness default_weights),
               hw_confidence = given_or k (hw_confidence default_weights), hw_consistency = given_or s (hw_consistency default_weights)\<rparr>
      in if \<not> (unit_ok (hw_completeness w) \<and> unit_ok (hw_freshness w) \<and> unit_ok (hw_confidence w) \<and> unit_ok (hw_consistency w)) then Inl ValueError
         else if s \<noteq> None \<and> \<not> weights_sum_to_one w then Inl ValueError
         else Inr w)"

record assessment_config =
  hc_entity_scope :: bool
  hc_entity_ids :: "string list option"
  hc_threshold :: f64
  hc_staleness :: f64
  hc_floor :: f64
  hc_auto :: bool
  hc_weights :: health_weights

record health_schema =
  hs_expected :: "string list"
  hs_gates :: "string list"
  hs_scoring :: "string list"

record health_record =
  hr_entity :: string
  hr_domain :: string
  hr_fields :: fields
  hr_conf :: "(string, f64) dict"
  hr_updated :: "(string, int) dict"
  hr_last :: "int option"
  hr_crm :: fields

definition seconds_between :: "int \<Rightarrow> int \<Rightarrow> f64" where
  "seconds_between now t = py_int_div (now - t) 1000000"

definition compute_freshness :: "(f64 \<Rightarrow> f64) \<Rightarrow> int option \<Rightarrow> f64 \<Rightarrow> int \<Rightarrow> f64" where
  "compute_freshness fexp enriched_at half now =
     (case enriched_at of None \<Rightarrow> 0
      | Some t \<Rightarrow>
          (let age = max 0 (seconds_between now t / f_of_int 86400)
           in if half \<le> 0 then 0 else fexp (flt (- 693147 / 1000000) * age / half)))"

definition compute_composite_health :: "f64 \<Rightarrow> f64 \<Rightarrow> f64 \<Rightarrow> f64 \<Rightarrow> health_weights \<Rightarrow> f64" where
  "compute_composite_health completeness freshness confidence consistency w =
     max 0 (min 1 (completeness * hw_completeness w + freshness * hw_freshness w + confidence * hw_confidence w + consistency * hw_consistency w))"

definition compute_ai_readiness :: "f64 \<Rightarrow> f64 \<Rightarrow> f64 \<Rightarrow> f64 \<Rightarrow> f64 \<Rightarrow> f64 \<Rightarrow> f64" where
  "compute_ai_readiness compl fresh conf enrichment graph gate_fill =
     (let raw = compl * flt (1 / 4) + fresh * flt (3 / 20) + conf * flt (1 / 4) + enrichment * flt (1 / 5) + graph * flt (3 / 20);
          capped = (if gate_fill < flt (4 / 5) then min raw (flt (1 / 2)) else raw)
      in max 0 (min 1 capped))"

section \<open>One entity\<close>

definition text_key :: "pyval \<Rightarrow> string" where
  "text_key v = py_lower (py_strip (py_str v))"

fun int_part :: "pyval \<Rightarrow> int option" where
  "int_part (PBool b) = Some (if b then 1 else 0)"
| "int_part (PInt n) = Some n"
| "int_part _ = None"

definition num_of :: "pyval \<Rightarrow> f64" where
  "num_of v = (case py_float v of Inr x \<Rightarrow> x | Inl _ \<Rightarrow> 0)"

text \<open>\<open>abs(a - b) / max(abs(a), abs(b))\<close>, exact on ints until the division.\<close>

definition relative_gap :: "pyval \<Rightarrow> pyval \<Rightarrow> f64" where
  "relative_gap a b =
     (case (int_part a, int_part b) of
        (Some m, Some n) \<Rightarrow> py_int_div \<bar>m - n\<bar> (max \<bar>m\<bar> \<bar>n\<bar>)
      | _ \<Rightarrow> \<bar>num_of a - num_of b\<bar> / max \<bar>num_of a\<bar> \<bar>num_of b\<bar>)"

definition values_agree :: "pyval \<Rightarrow> pyval \<Rightarrow> bool" where
  "values_agree a b =
     (if py_eq a b then True
      else case (a, b) of
        (PStr s, PStr t) \<Rightarrow> py_lower (py_strip s) = py_lower (py_strip t)
      | (PList xs, PList ys) \<Rightarrow> set (map (\<lambda>v. py_lower (py_str v)) xs) = set (map (\<lambda>v. py_lower (py_str v)) ys)
      | _ \<Rightarrow> if is_number a \<and> is_number b then relative_gap a b < flt (1 / 20) else text_key a = text_key b)"

text \<open>The two values of a field where both sides have one.\<close>

definition comparable :: "health_record \<Rightarrow> string \<Rightarrow> (pyval \<times> pyval) option" where
  "comparable r f =
     (let a = dget_or (hr_crm r) f PNone; b = dget_or (hr_fields r) f PNone
      in if a \<noteq> PNone \<and> b \<noteq> PNone then Some (a, b) else None)"

definition conflicting :: "health_record \<Rightarrow> string \<Rightarrow> bool" where
  "conflicting r f = (case comparable r f of None \<Rightarrow> False | Some (a, b) \<Rightarrow> \<not> values_agree a b)"

definition compute_consistency :: "health_record \<Rightarrow> string list \<Rightarrow> f64" where
  "compute_consistency r expected =
     (let both = filter (\<lambda>f. comparable r f \<noteq> None) expected; agreed = filter (\<lambda>f. \<not> conflicting r f) both
      in if both \<noteq> [] then py_int_div (int (length agreed)) (int (length both)) else 1)"

definition fill_action :: "f64 \<Rightarrow> string \<Rightarrow> recommended_action" where
  "fill_action priority f = \<lparr>ra_kind = FillMissing, ra_field = Some f, ra_priority = priority\<rparr>"

definition low_confidence_fields :: "assessment_config \<Rightarrow> health_record \<Rightarrow> string list \<Rightarrow> (string \<times> f64) list" where
  "low_confidence_fields cfg r expected = filter (\<lambda>(k, v). v < hc_floor cfg \<and> k \<in> set expected) (hr_conf r)"

definition recommend_actions ::
    "(string list \<Rightarrow> string list) \<Rightarrow> assessment_config \<Rightarrow> health_record \<Rightarrow> string list \<Rightarrow> string list \<Rightarrow> string list \<Rightarrow> f64 \<Rightarrow> f64 \<Rightarrow>
     recommended_action list" where
  "recommend_actions ord cfg r expected gate_missing scoring_missing freshness consistency =
     sort_desc ra_priority
       (map (fill_action 1) gate_missing @
        (if freshness < flt (3 / 10) then [\<lparr>ra_kind = RefreshStale, ra_field = None, ra_priority = flt (9 / 10)\<rparr>] else []) @
        map (fill_action (flt (3 / 4))) (take 5 scoring_missing) @
        map (\<lambda>kv. \<lparr>ra_kind = VerifyField, ra_field = Some (fst kv), ra_priority = flt (3 / 5)\<rparr>)
          (take 5 (sort_key snd (low_confidence_fields cfg r expected))) @
        (if consistency < flt (7 / 10)
         then map (\<lambda>f. \<lparr>ra_kind = ResolveConflict, ra_field = Some f, ra_priority = flt (11 / 20)\<rparr>)
                (take 3 (filter (conflicting r) (ord expected)))
         else []))"

definition filled_fields :: "health_record \<Rightarrow> string list \<Rightarrow> string list" where
  "filled_fields r expected = map fst (filter (\<lambda>(k, v). v \<noteq> PNone \<and> k \<in> set expected) (hr_fields r))"

definition is_stale :: "assessment_config \<Rightarrow> health_record \<Rightarrow> int \<Rightarrow> string \<Rightarrow> bool" where
  "is_stale cfg r now f =
     (case dget (hr_updated r) f of None \<Rightarrow> False | Some t \<Rightarrow> hc_staleness cfg * f_of_int 86400 < seconds_between now t)"

definition checked :: "('a \<Rightarrow> bool) \<Rightarrow> 'a \<Rightarrow> pyerr + 'a" where
  "checked P x = (if P x then Inr x else Inl ValueError)"

definition assess_entity ::
    "(f64 \<Rightarrow> f64) \<Rightarrow> (string list \<Rightarrow> string list) \<Rightarrow> health_schema \<Rightarrow> assessment_config \<Rightarrow> int \<times> int \<Rightarrow> health_record \<Rightarrow>
     pyerr + entity_health" where
  "assess_entity fexp ord schema cfg nows r =
     (let expected = dedup (hs_expected schema); filled = filled_fields r expected;
          completeness = (if expected \<noteq> [] then py_int_div (int (length filled)) (int (length expected)) else 0);
          freshness = compute_freshness fexp (hr_last r) (hc_staleness cfg) (fst nows);
          confs = map snd (filter (\<lambda>(k, v). k \<in> set expected) (hr_conf r));
          avg = (if confs \<noteq> [] then py_sum confs / f_of_int (int (length confs)) else 0);
          consistency = compute_consistency r expected;
          composite = compute_composite_health completeness freshness avg consistency (hc_weights cfg);
          gate_missing = filter (\<lambda>f. f \<notin> set filled) (hs_gates schema);
          scoring_missing = filter (\<lambda>f. f \<notin> set filled) (hs_scoring schema)
      in checked entity_health_ok
        \<lparr>eh_entity = hr_entity r, eh_domain = hr_domain r, eh_completeness = py_round 4 completeness,
         eh_freshness = py_round 4 freshness, eh_confidence = py_round 4 avg, eh_consistency = py_round 4 consistency,
         eh_composite = py_round 4 composite, eh_last = hr_last r, eh_total = length expected, eh_filled = length filled,
         eh_stale = length (filter (is_stale cfg r (snd nows)) filled),
         eh_low = length (filter (\<lambda>f. dget_or (hr_conf r) f 0 < hc_floor cfg) filled),
         eh_gate_missing = gate_missing, eh_scoring_missing = scoring_missing,
         eh_actions = recommend_actions ord cfg r expected gate_missing scoring_missing freshness consistency\<rparr>)"

section \<open>Laws\<close>

lemma unit_round: "unit_ok x \<Longrightarrow> unit_ok (py_round 4 x)"
  by (simp add: unit_ok_def py_round_nonneg py_round_le_1)

lemma unit_ratio: "0 \<le> m \<Longrightarrow> m \<le> n \<Longrightarrow> unit_ok (py_int_div m n)"
  by (cases "n = 0") (auto simp: unit_ok_def py_int_div_bounds)

lemma composite_unit: "unit_ok (compute_composite_health a b c d w)"
  by (simp add: compute_composite_health_def unit_ok_def)

lemma readiness_capped:
  "unit_ok (compute_ai_readiness a b c d e g)" "g < flt (4 / 5) \<Longrightarrow> compute_ai_readiness a b c d e g \<le> flt (1 / 2)"
proof -
  have "max 0 (min 1 (min raw (flt (1 / 2)))) \<le> flt (1 / 2)" for raw
    using flt_mono [of 0 "1 / 2"] by (intro max.boundedI order.trans [OF min.cobounded2 min.cobounded2]) simp
  then show "g < flt (4 / 5) \<Longrightarrow> compute_ai_readiness a b c d e g \<le> flt (1 / 2)"
    by (simp add: compute_ai_readiness_def Let_def)
qed (simp add: compute_ai_readiness_def unit_ok_def Let_def)

lemma health_composite_mono:
  assumes "a \<le> a'" "b \<le> b'" "c \<le> c'" "d \<le> d'"
    and "0 \<le> hw_completeness w" "0 \<le> hw_freshness w" "0 \<le> hw_confidence w" "0 \<le> hw_consistency w"
  shows "compute_composite_health a b c d w \<le> compute_composite_health a' b' c' d' w"
proof -
  have "a * hw_completeness w + b * hw_freshness w + c * hw_confidence w + d * hw_consistency w \<le>
        a' * hw_completeness w + b' * hw_freshness w + c' * hw_confidence w + d' * hw_consistency w"
    using assms by (intro f64_add_mono f64_mult_right_mono)
  then show ?thesis unfolding compute_composite_health_def by (auto simp: min_def max_def)
qed

lemma freshness_unit:
  assumes "\<And>x. 0 \<le> fexp x" and "\<And>x. x \<le> 0 \<Longrightarrow> fexp x \<le> 1"
  shows "unit_ok (compute_freshness fexp t half now)"
proof -
  have "flt (- 693147 / 1000000) * age / half \<le> 0" if "0 \<le> age" "0 < half" for age half :: f64
  proof -
    have "flt (- 693147 / 1000000) \<le> (0 :: f64)" using flt_mono [of "- 693147 / 1000000" 0] by simp
    then have "flt (- 693147 / 1000000) * age \<le> 0 * age" by (rule f64_mult_right_mono [OF _ that(1)])
    then have "flt (- 693147 / 1000000) * age / half \<le> 0 / half"
      using that(2) by (intro f64_divide_right_mono) auto
    then show ?thesis by simp
  qed
  then show ?thesis
    using assms by (auto simp: compute_freshness_def unit_ok_def Let_def not_le split: option.split)
qed

lemma consistency_unit: "unit_ok (compute_consistency r expected)"
proof -
  have a: "unit_ok (py_int_div (int (length (filter P xs))) (int (length xs)))" for P and xs :: "string list"
    by (rule unit_ratio) simp_all
  have b: "unit_ok 1" by (simp add: unit_ok_def)
  show ?thesis unfolding compute_consistency_def Let_def by (split if_split) (intro conjI impI a b)
qed

lemma filled_subset: "set (filled_fields r expected) = {k. k \<in> set expected \<and> (\<exists>v. (k, v) \<in> set (hr_fields r) \<and> v \<noteq> PNone)}"
  by (force simp: filled_fields_def)

lemma filled_iff:
  assumes "dict_ok (hr_fields r)"
  shows "k \<in> set (filled_fields r expected) \<longleftrightarrow> k \<in> set expected \<and> dget_or (hr_fields r) k PNone \<noteq> PNone"
proof -
  have "(\<exists>v. (k, v) \<in> set (hr_fields r) \<and> v \<noteq> PNone) \<longleftrightarrow> dget_or (hr_fields r) k PNone \<noteq> PNone"
    by (cases "dget (hr_fields r) k") (simp_all add: map_of_eq_Some_iff [OF assms, symmetric] dget_or_def)
  then show ?thesis by (simp add: filled_subset)
qed

lemma distinct_filled: "dict_ok (hr_fields r) \<Longrightarrow> distinct (filled_fields r expected)"
  by (simp add: filled_fields_def distinct_map_filter)

lemma length_filled: "dict_ok (hr_fields r) \<Longrightarrow> length (filled_fields r expected) \<le> length (dedup expected)"
proof -
  assume d: "dict_ok (hr_fields r)"
  have "set (filled_fields r expected) \<subseteq> set (dedup expected)" by (auto simp: filled_subset)
  with distinct_filled [OF d] distinct_dedup show ?thesis
    by (metis card_mono distinct_card finite_set)
qed

section \<open>Properties\<close>

definition mean_confidence :: "health_record \<Rightarrow> string list \<Rightarrow> f64" where
  "mean_confidence r expected =
     (let confs = map snd (filter (\<lambda>(k, v). k \<in> set expected) (hr_conf r))
      in if confs \<noteq> [] then py_sum confs / f_of_int (int (length confs)) else 0)"

lemma assess_parts:
  assumes "assess_entity fexp ord schema cfg nows r = Inr eh"
  defines "expected \<equiv> dedup (hs_expected schema)"
  defines "filled \<equiv> filled_fields r expected"
  shows "entity_health_ok eh" and "eh_filled eh = length filled" and "eh_total eh = length expected"
    and "eh_gate_missing eh = filter (\<lambda>f. f \<notin> set filled) (hs_gates schema)"
    and "eh_scoring_missing eh = filter (\<lambda>f. f \<notin> set filled) (hs_scoring schema)"
    and "eh_entity eh = hr_entity r" and "eh_low eh \<le> eh_filled eh" and "eh_stale eh \<le> eh_filled eh"
    and "eh_actions eh = recommend_actions ord cfg r expected (eh_gate_missing eh) (eh_scoring_missing eh)
           (compute_freshness fexp (hr_last r) (hc_staleness cfg) (fst nows)) (compute_consistency r expected)"
  using assms(1) unfolding expected_def filled_def
  by (auto simp: assess_entity_def checked_def Let_def split: if_splits)

text \<open>
  \<open>assess_entity\<close>. An assessment of one entity succeeds exactly when the mean confidence over the
  expected fields, rounded, lies in the unit interval: no other of its figures can leave its range,
  whatever the record holds, as long as \<open>math.exp\<close> is positive and at most 1 below 0.
\<close>

theorem assessment_fails_only_on_confidence:
  assumes "\<And>x. 0 \<le> fexp x" and "\<And>x. x \<le> 0 \<Longrightarrow> fexp x \<le> 1" and "dict_ok (hr_fields r)"
  shows "(\<exists>eh. assess_entity fexp ord schema cfg nows r = Inr eh) \<longleftrightarrow>
    unit_ok (py_round 4 (mean_confidence r (dedup (hs_expected schema))))"
proof -
  let ?ex = "dedup (hs_expected schema)"
  have c: "unit_ok (py_round 4 (if ?ex \<noteq> [] then py_int_div (int (length (filled_fields r ?ex))) (int (length ?ex)) else 0))"
  proof -
    have "unit_ok (py_int_div (int (length (filled_fields r ?ex))) (int (length ?ex)))"
      using length_filled [OF assms(3), of ?ex] by (intro unit_ratio) (simp_all add: dedup_distinct)
    then show ?thesis by (simp add: unit_round unit_ok_def [of 0])
  qed
  have f: "unit_ok (py_round 4 (compute_freshness fexp (hr_last r) (hc_staleness cfg) (fst nows)))"
    by (rule unit_round [OF freshness_unit [OF assms(1,2)]])
  have k: "unit_ok (py_round 4 (compute_consistency r ?ex))" by (rule unit_round [OF consistency_unit])
  show ?thesis
    unfolding assess_entity_def checked_def Let_def mean_confidence_def entity_health_ok_def
    using c f k unit_round [OF composite_unit] by simp
qed

lemma action_cases [consumes 1, case_names gate refresh scoring verify resolve]:
  assumes "a \<in> set (recommend_actions ord cfg r expected gate_missing scoring_missing freshness consistency)"
  obtains "a \<in> fill_action 1 ` set gate_missing"
    | "ra_kind a = RefreshStale" "ra_field a = None"
    | "a \<in> fill_action (flt (3 / 4)) ` set (take 5 scoring_missing)"
    | kv where "kv \<in> set (take 5 (sort_key snd (low_confidence_fields cfg r expected)))" "ra_kind a = VerifyField" "ra_field a = Some (fst kv)"
    | g where "g \<in> set (take 3 (filter (conflicting r) (ord expected)))" "ra_kind a = ResolveConflict" "ra_field a = Some g"
proof -
  define refresh where "refresh = \<lparr>ra_kind = RefreshStale, ra_field = None, ra_priority = flt (9 / 10)\<rparr>"
  define verify where "verify = (\<lambda>kv :: string \<times> f64. \<lparr>ra_kind = VerifyField, ra_field = Some (fst kv), ra_priority = flt (3 / 5)\<rparr>)"
  define resolve where "resolve = (\<lambda>f. \<lparr>ra_kind = ResolveConflict, ra_field = Some f, ra_priority = flt (11 / 20)\<rparr>)"
  have "set (recommend_actions ord cfg r expected gate_missing scoring_missing freshness consistency) \<subseteq>
      fill_action 1 ` set gate_missing \<union> {refresh} \<union> fill_action (flt (3 / 4)) ` set (take 5 scoring_missing) \<union>
      verify ` set (take 5 (sort_key snd (low_confidence_fields cfg r expected))) \<union>
      resolve ` set (take 3 (filter (conflicting r) (ord expected)))"
    unfolding recommend_actions_def set_sort_desc set_append set_map refresh_def verify_def resolve_def
    by (cases "freshness < flt (3 / 10)"; cases "consistency < flt (7 / 10)") (simp_all only: if_True if_False list.set set_map, blast+)
  with assms consider "a \<in> fill_action 1 ` set gate_missing" | "a = refresh" | "a \<in> fill_action (flt (3 / 4)) ` set (take 5 scoring_missing)"
    | kv where "kv \<in> set (take 5 (sort_key snd (low_confidence_fields cfg r expected)))" "a = verify kv"
    | g where "g \<in> set (take 3 (filter (conflicting r) (ord expected)))" "a = resolve g" by blast
  then show thesis
    using that by cases (simp_all add: refresh_def verify_def resolve_def)
qed

lemma action_justified:
  assumes "assess_entity fexp ord schema cfg nows r = Inr eh" and "set_order ord"
    and a: "a \<in> set (eh_actions eh)" and f: "ra_field a = Some f"
  shows "(ra_kind a = FillMissing \<and> f \<in> set (hs_gates schema) \<union> set (hs_scoring schema) \<and> f \<notin> set (filled_fields r (hs_expected schema))) \<or>
    (ra_kind a = VerifyField \<and> f \<in> set (hs_expected schema) \<and> (\<exists>c. (f, c) \<in> set (hr_conf r) \<and> c < hc_floor cfg)) \<or>
    (ra_kind a = ResolveConflict \<and> f \<in> set (hs_expected schema) \<and> conflicting r f)"
proof -
  let ?ex = "dedup (hs_expected schema)"
  note parts = assess_parts [OF assms(1)]
  have same: "set (filled_fields r ?ex) = set (filled_fields r (hs_expected schema))" by (simp add: filled_subset)
  have ord: "set (ord ?ex) = set (hs_expected schema)" using assms(2) by (simp add: set_order_def)
  have vf: "\<exists>c. (k, c) \<in> set (hr_conf r) \<and> c < hc_floor cfg \<and> k \<in> set (hs_expected schema)"
    if "kv \<in> set (take 5 (sort_key snd (low_confidence_fields cfg r ?ex)))" "fst kv = k" for kv k
  proof -
    have "kv \<in> set (low_confidence_fields cfg r ?ex)" using in_set_takeD [OF that(1)] by (simp only: set_sort)
    with that(2) show ?thesis by (cases kv) (auto simp: low_confidence_fields_def)
  qed
  from a have "a \<in> set (recommend_actions ord cfg r ?ex (eh_gate_missing eh) (eh_scoring_missing eh)
      (compute_freshness fexp (hr_last r) (hc_staleness cfg) (fst nows)) (compute_consistency r ?ex))" unfolding parts(9) .
  then show ?thesis
  proof (cases rule: action_cases)
    case gate
    then obtain g where "a = fill_action 1 g" "g \<in> set (eh_gate_missing eh)" by blast
    with f show ?thesis unfolding parts(4) by (simp add: fill_action_def same)
  next
    case scoring
    then obtain g where "a = fill_action (flt (3 / 4)) g" "g \<in> set (eh_scoring_missing eh)" by (blast dest: in_set_takeD)
    with f show ?thesis unfolding parts(5) by (simp add: fill_action_def same)
  next
    case verify
    with f vf [OF verify(1)] show ?thesis by auto
  next
    case resolve
    with f in_set_takeD [OF resolve(1)] ord show ?thesis by auto
  qed (use f in simp)
qed

text \<open>
  C27: \<open>_recommend_actions\<close> within \<open>assess_entity\<close>. The actions come most urgent first. Only a gate or scoring
  field is to be filled, and only when it has no value or is not among the expected fields (of those the code never
  looks at the value, see \<open>filled_gate_to_be_filled\<close>); only an expected field with a confidence below the floor is to
  be verified, only an expected field on whose two values the CRM and the enrichment disagree is to be resolved; and
  every gate field without a value, or not among the expected ones, is among them with priority 1.
\<close>

theorem recommendations_justified:
  assumes "assess_entity fexp ord schema cfg nows r = Inr eh" and "dict_ok (hr_fields r)" and "set_order ord"
  shows "sorted_wrt (\<lambda>a b. ra_priority b \<le> ra_priority a) (eh_actions eh) \<and>
    (\<forall>f \<in> set (hs_gates schema). f \<notin> set (filled_fields r (hs_expected schema)) \<longrightarrow> fill_action 1 f \<in> set (eh_actions eh)) \<and>
    (\<forall>a \<in> set (eh_actions eh). \<forall>f. ra_field a = Some f \<longrightarrow>
       (ra_kind a = FillMissing \<and> f \<in> set (hs_gates schema) \<union> set (hs_scoring schema) \<and>
          (f \<notin> set (hs_expected schema) \<or> dget_or (hr_fields r) f PNone = PNone)) \<or>
       (ra_kind a = VerifyField \<and> f \<in> set (hs_expected schema) \<and> (\<exists>c. (f, c) \<in> set (hr_conf r) \<and> c < hc_floor cfg)) \<or>
       (ra_kind a = ResolveConflict \<and> f \<in> set (hs_expected schema) \<and> conflicting r f))"
proof -
  note parts = assess_parts [OF assms(1)]
  have un: "f \<notin> set (hs_expected schema) \<or> dget_or (hr_fields r) f PNone = PNone"
    if "f \<notin> set (filled_fields r (hs_expected schema))" for f
    using that by (auto simp: filled_iff [OF assms(2)])
  have gate: "fill_action 1 f \<in> set (eh_actions eh)"
    if "f \<in> set (hs_gates schema)" "f \<notin> set (filled_fields r (hs_expected schema))" for f
    unfolding parts(9) recommend_actions_def set_sort_desc using that parts(4) by (simp add: filled_subset)
  have "sorted_wrt (\<lambda>a b. ra_priority b \<le> ra_priority a) (eh_actions eh)"
    unfolding parts(9) recommend_actions_def by (rule sort_desc_falling)
  with action_justified [OF assms(1,3)] gate un show ?thesis by blast
qed

definition sample_record :: health_record where
  "sample_record = \<lparr>hr_entity = ''e'', hr_domain = ''d'', hr_fields = [(''city'', PStr ''Ulm''), (''size'', PNone)],
     hr_conf = [(''city'', 1)], hr_updated = [], hr_last = None, hr_crm = [(''city'', PStr ''Bonn'')]\<rparr>"

definition sample_schema :: health_schema where
  "sample_schema = \<lparr>hs_expected = [''city'', ''size''], hs_gates = [''size''], hs_scoring = []\<rparr>"

definition sample_config :: assessment_config where
  "sample_config = \<lparr>hc_entity_scope = False, hc_entity_ids = None, hc_threshold = flt (1 / 2), hc_staleness = f_of_int 30, hc_floor = flt (1 / 2),
     hc_auto = True, hc_weights = default_weights\<rparr>"

lemma sample_record_dict: "dict_ok (hr_fields sample_record)" by (simp add: sample_record_def)

lemma sample_mean: "unit_ok (py_round 4 (mean_confidence sample_record (dedup (hs_expected sample_schema))))"
  by (simp add: mean_confidence_def sample_record_def sample_schema_def unit_ok_def f_of_int_def)

theorem assessment_fails_only_on_confidence_witness:
  "\<exists>eh. assess_entity (\<lambda>x. 0) (\<lambda>xs. xs) sample_schema sample_config (0, 0) sample_record = Inr eh"
  by (subst assessment_fails_only_on_confidence) (simp_all add: sample_record_dict sample_mean)

lemma sample_assessed: "assess_entity (\<lambda>x. 0) (\<lambda>xs. xs) sample_schema sample_config (0, 0) sample_record \<noteq> Inl e"
proof -
  let ?c = "py_round 4 (mean_confidence sample_record (dedup (hs_expected sample_schema)))"
  have "unit_ok (py_round 4 (py_int_div 1 2))" by (intro unit_round unit_ratio) simp_all
  then show ?thesis
    using sample_mean unit_round [OF consistency_unit] unit_round [OF composite_unit]
    by (simp add: assess_entity_def checked_def Let_def entity_health_ok_def mean_confidence_def
        sample_record_def sample_schema_def filled_fields_def compute_freshness_def unit_ok_def [of 0])
qed

theorem recommendations_justified_witness:
  "\<exists>eh. assess_entity (\<lambda>x. 0) (\<lambda>xs. xs) sample_schema sample_config (0, 0) sample_record = Inr eh \<and>
     fill_action 1 ''size'' \<in> set (eh_actions eh)"
proof -
  obtain eh where e: "assess_entity (\<lambda>x. 0) (\<lambda>xs. xs) sample_schema sample_config (0, 0) sample_record = Inr eh"
    using sample_assessed by (metis sum.exhaust)
  have "set_order (\<lambda>xs. xs)" by (simp add: set_order_def)
  from recommendations_justified [OF e sample_record_dict this] e show ?thesis
    by (auto simp: sample_schema_def sample_record_def filled_fields_def)
qed

text \<open>
  Whether a gate field has a value is only looked up among the expected fields: one that is not among them is always
  reported as missing, with priority 1, whatever the record holds.
\<close>

lemma filled_gate_to_be_filled:
  assumes "assess_entity fexp ord schema cfg nows r = Inr eh" and "f \<in> set (hs_gates schema)" and "f \<notin> set (hs_expected schema)"
  shows "fill_action 1 f \<in> set (eh_actions eh)"
proof -
  note parts = assess_parts [OF assms(1)]
  have "f \<notin> set (filled_fields r (dedup (hs_expected schema)))" using assms(3) by (auto simp: filled_fields_def)
  then show ?thesis unfolding parts(9) recommend_actions_def set_sort_desc using assms(2) parts(4) by simp
qed

section \<open>The weights\<close>

text \<open>
  The sum of the weights is checked with \<open>or\<close>, so a weight of 0 counts as its default: weights that sum to
  1 with a 0 among them are refused, and weights that sum to 0.7 are accepted. Without the last weight
  nothing is checked.
\<close>

lemma zero_weight_counts_as_default:
  "make_weights (Some 0) (Some (flt (1 / 2))) (Some (flt (1 / 2))) (Some 0) = Inl ValueError"
  "\<exists>w. make_weights (Some 0) None None (Some (flt (1 / 5))) = Inr w \<and> hw_completeness w = 0"
  "\<exists>w. make_weights (Some 1) None None None = Inr w \<and> hw_completeness w = 1"
  by (simp_all add: make_weights_def default_weights_def given_or_def weights_sum_to_one_def weight_or_def unit_ok_def f64_eval)

end
