(* ===== verification/CrmHealth.thy ===== *)
theory CrmHealth
  imports HealthAssessor "HOL-Library.Multiset"
begin

text \<open>
  The aggregates of \<open>app/health/health_assessor.py\<close>: the health of each field over all records, of the whole
  base, the summary over the entities and the triggers for enrichment, composed as in \<open>assess_full_crm\<close>.
\<close>

section \<open>Field health over the records\<close>

record field_stat =
  fs_fill :: int
  fs_sum :: f64
  fs_min :: f64
  fs_max :: f64
  fs_ages :: "f64 list"
  fs_counts :: "(string, nat) dict"

definition empty_stat :: field_stat where
  "empty_stat = \<lparr>fs_fill = 0, fs_sum = 0, fs_min = 1, fs_max = 0, fs_ages = [], fs_counts = []\<rparr>"

definition note_value :: "int \<Rightarrow> health_record \<Rightarrow> string \<Rightarrow> field_stat \<Rightarrow> field_stat" where
  "note_value now r f s =
     (let v = dget_or (hr_fields r) f PNone; conf = dget_or (hr_conf r) f 0 in
      if v = PNone then s
      else s\<lparr>fs_fill := fs_fill s + 1, fs_sum := fs_sum s + conf, fs_min := min (fs_min s) conf, fs_max := max (fs_max s) conf,
             fs_ages := (case dget (hr_updated r) f of None \<Rightarrow> fs_ages s
                         | Some t \<Rightarrow> fs_ages s @ [seconds_between now t / f_of_int 86400]),
             fs_counts := count_vote (take 100 (py_str v)) (fs_counts s)\<rparr>)"

definition note_record :: "int \<Rightarrow> string list \<Rightarrow> health_record \<Rightarrow> (string, field_stat) dict \<Rightarrow> (string, field_stat) dict" where
  "note_record now expected r stats = fold (\<lambda>f st. dset f (note_value now r f (dget_or st f empty_stat)) st) expected stats"

definition collect_stats :: "int \<Rightarrow> string list \<Rightarrow> health_record list \<Rightarrow> (string, field_stat) dict" where
  "collect_stats now expected records =
     fold (note_record now expected) records (fold (\<lambda>f. dset f empty_stat) expected [])"

text \<open>An index beyond the list raises.\<close>

definition percentile :: "f64 list \<Rightarrow> nat \<Rightarrow> pyerr + f64" where
  "percentile ages i = (if ages = [] then Inr 0 else if i < length ages then Inr (ages ! i) else Inl IndexError)"

definition field_health_of ::
    "health_schema \<Rightarrow> int \<Rightarrow> (string, field_stat) dict \<Rightarrow> string \<Rightarrow> pyerr + field_health" where
  "field_health_of schema n stats f =
     (let s = dget_or stats f empty_stat; fc = fs_fill s;
          fill = (if 0 < n then py_int_div fc n else 0);
          avg = (if 0 < fc then fs_sum s / f_of_int fc else 0);
          ages = sort (fs_ages s)
      in bind_res (percentile ages (length ages div 2)) (\<lambda>p50.
         bind_res (percentile ages (nat (py_trunc (f_of_int (int (length ages)) * flt (9 / 10))))) (\<lambda>p90.
           checked field_health_ok
             \<lparr>fh_field = f, fh_fill = py_round 4 fill, fh_avg = py_round 4 avg,
              fh_min = (if 0 < fc then py_round 4 (fs_min s) else 0), fh_max = (if 0 < fc then py_round 4 (fs_max s) else 0),
              fh_p50 = py_round 2 p50, fh_p90 = py_round 2 p90, fh_outliers = 0, fh_total = n,
              fh_values = take 10 (sort_desc snd (fs_counts s)),
              fh_gate = (f \<in> set (hs_gates schema)), fh_scoring = (f \<in> set (hs_scoring schema))\<rparr>)))"

definition aggregate_field_health :: "health_schema \<Rightarrow> int \<Rightarrow> health_record list \<Rightarrow> pyerr + field_health list" where
  "aggregate_field_health schema now records =
     (if records = [] then Inr []
      else bind_res (map_res (field_health_of schema (int (length records)) (collect_stats now (hs_expected schema) records)) (hs_expected schema))
             (\<lambda>fhs. Inr (sort_key (\<lambda>fh. (\<not> fh_gate fh, \<not> fh_scoring fh, health_score fh)) fhs)))"

section \<open>The whole base\<close>

definition avg_of :: "('a \<Rightarrow> f64) \<Rightarrow> 'a list \<Rightarrow> f64" where
  "avg_of f xs = py_sum (map f xs) / f_of_int (int (length xs))"

definition build_crm_health ::
    "assessment_config \<Rightarrow> int \<Rightarrow> int \<Rightarrow> entity_health list \<Rightarrow> field_health list \<Rightarrow> pyerr + crm_health" where
  "build_crm_health cfg n_all synced es fhs =
     (if es = [] then Inr \<lparr>cr_total = 0, cr_readiness = 0, cr_completeness = 0, cr_freshness = 0, cr_confidence = 0, cr_consistency = 0,
        cr_fields = [], cr_enrichment = 0, cr_graph = 0, cr_below = 0, cr_needing = 0\<rparr>
      else
        (let n = int (length es);
             enrichment = py_int_div (int (length (filter (\<lambda>e. eh_last e \<noteq> None) es))) n;
             graph = (if 0 < n_all then py_int_div synced n_all else 0);
             gates = filter fh_gate fhs;
             gate_fill = (if gates \<noteq> [] then avg_of fh_fill gates else 1);
             ready = compute_ai_readiness (avg_of eh_completeness es) (avg_of eh_freshness es) (avg_of eh_confidence es) enrichment graph gate_fill
         in checked crm_health_ok
              \<lparr>cr_total = n_all, cr_readiness = py_round 4 ready, cr_completeness = py_round 4 (avg_of eh_completeness es),
               cr_freshness = py_round 4 (avg_of eh_freshness es), cr_confidence = py_round 4 (avg_of eh_confidence es),
               cr_consistency = py_round 4 (avg_of eh_consistency es), cr_fields = fhs, cr_enrichment = py_round 4 enrichment,
               cr_graph = py_round 4 graph, cr_below = length (filter (\<lambda>e. eh_composite e < hc_threshold cfg) es),
               cr_needing = length (filter needs_enrichment es)\<rparr>))"

datatype health_band = Excellent | Good | Fair | Poor

definition band_of :: "f64 \<Rightarrow> health_band" where
  "band_of c = (if flt (9 / 10) \<le> c then Excellent else if flt (7 / 10) \<le> c then Good else if flt (1 / 2) \<le> c then Fair else Poor)"

record health_summary =
  hu_total :: nat
  hu_healthy :: nat
  hu_unhealthy :: nat
  hu_needing :: nat
  hu_avg :: f64
  hu_min :: f64
  hu_max :: f64
  hu_bands :: "(health_band, nat) dict"

definition health_summary_ok :: "health_summary \<Rightarrow> bool" where
  "health_summary_ok s \<longleftrightarrow> unit_ok (hu_avg s) \<and> unit_ok (hu_min s) \<and> unit_ok (hu_max s)"

definition build_summary :: "entity_health list \<Rightarrow> pyerr + health_summary" where
  "build_summary es =
     (if es = [] then Inr \<lparr>hu_total = 0, hu_healthy = 0, hu_unhealthy = 0, hu_needing = 0, hu_avg = 0, hu_min = 0, hu_max = 1, hu_bands = []\<rparr>
      else
        (let cs = map eh_composite es; healthy = length (filter (\<lambda>c. flt (7 / 10) \<le> c) cs)
         in checked health_summary_ok
              \<lparr>hu_total = length es, hu_healthy = healthy, hu_unhealthy = length es - healthy,
               hu_needing = length (filter needs_enrichment es), hu_avg = py_round 4 (avg_of eh_composite es),
               hu_min = py_round 4 (Min (set cs)), hu_max = py_round 4 (Max (set cs)),
               hu_bands = fold (\<lambda>c. count_vote (band_of c)) cs [(Excellent, 0), (Good, 0), (Fair, 0), (Poor, 0)]\<rparr>))"

section \<open>Triggers\<close>

definition trigger_reason_of :: "assessment_config \<Rightarrow> entity_health \<Rightarrow> trigger_reason \<times> f64" where
  "trigger_reason_of cfg e =
     (if eh_freshness e < flt (3 / 10) then (Staleness, flt (9 / 10))
      else if eh_confidence e < hc_floor cfg then (LowConfidence, flt (4 / 5))
      else if eh_completeness e < flt (1 / 2) then (LowCompleteness, flt (7 / 10))
      else if eh_consistency e < flt (7 / 10) then (Inconsistency, flt (3 / 5))
      else (CompositeBelow, flt (1 / 2)))"

definition action_target :: "recommended_action \<Rightarrow> string list" where
  "action_target a =
     (case ra_field a of
        None \<Rightarrow> []
      | Some f \<Rightarrow> if f \<noteq> [] \<and> ra_kind a \<in> {FillMissing, VerifyField, RefreshStale} then [f] else [])"

definition trigger_for :: "assessment_config \<Rightarrow> entity_health \<Rightarrow> health_trigger option" where
  "trigger_for cfg e =
     (if is_healthy e then None
      else if eh_gate_missing e \<noteq> [] then
        Some \<lparr>ht_entity = eh_entity e, ht_domain = eh_domain e, ht_reason = GateFieldMissing, ht_priority = 1,
              ht_targets = eh_gate_missing e, ht_health = eh_composite e\<rparr>
      else
        (let (reason, priority) = trigger_reason_of cfg e
         in Some \<lparr>ht_entity = eh_entity e, ht_domain = eh_domain e, ht_reason = reason, ht_priority = priority,
              ht_targets = take 20 (concat (map action_target (eh_actions e))), ht_health = eh_composite e\<rparr>))"

definition generate_triggers :: "assessment_config \<Rightarrow> entity_health list \<Rightarrow> health_trigger list" where
  "generate_triggers cfg es = sort_desc ht_priority (List.map_filter (trigger_for cfg) es)"

record assessment_result =
  as_crm :: crm_health
  as_summary :: health_summary
  as_triggers :: "health_trigger list"

text \<open>
  \<open>assess_full_crm\<close>: \<open>list_ids\<close> and \<open>get_entities\<close> are the store, \<open>n_all\<close> and \<open>synced\<close> its counts for the
  domain, \<open>clk i\<close> the two instants the assessment of record \<open>i\<close> reads and \<open>now\<close> the one of the aggregation.
\<close>

definition assess_full_crm ::
    "(f64 \<Rightarrow> f64) \<Rightarrow> (string list \<Rightarrow> string list) \<Rightarrow> health_schema \<Rightarrow> assessment_config \<Rightarrow> string list \<Rightarrow> (string list \<Rightarrow> health_record list) \<Rightarrow>
     int \<Rightarrow> int \<Rightarrow> (nat \<Rightarrow> int \<times> int) \<Rightarrow> int \<Rightarrow> pyerr + assessment_result" where
  "assess_full_crm fexp ord schema cfg list_ids get_entities n_all synced clk now =
     (let ids = (case hc_entity_ids cfg of Some (i # is) \<Rightarrow> if hc_entity_scope cfg then i # is else list_ids | _ \<Rightarrow> list_ids);
          records = get_entities ids
      in bind_res (map_res (\<lambda>(i, r). assess_entity fexp ord schema cfg (clk i) r) (enumerate 0 records)) (\<lambda>es.
         bind_res (aggregate_field_health schema now records) (\<lambda>fhs.
         bind_res (build_crm_health cfg n_all synced es fhs) (\<lambda>crm.
         bind_res (build_summary es) (\<lambda>summary.
           Inr \<lparr>as_crm = crm, as_summary = summary,
                as_triggers = (if hc_auto cfg then generate_triggers cfg es else [])\<rparr>)))))"

section \<open>Laws\<close>

lemma fold_values:
  assumes "distinct fs"
  shows "dget_or (fold (\<lambda>f st. dset f (g f (dget_or st f z)) st) fs st) f z = (if f \<in> set fs then g f (dget_or st f z) else dget_or st f z)"
  using assms by (induction fs arbitrary: st) (auto simp: dget_or_simps)

lemma note_record_get: "distinct expected \<Longrightarrow>
  dget_or (note_record now expected r stats) f empty_stat =
    (if f \<in> set expected then note_value now r f (dget_or stats f empty_stat) else dget_or stats f empty_stat)"
  unfolding note_record_def by (rule fold_values)

lemma fold_records_get: "distinct expected \<Longrightarrow> f \<in> set expected \<Longrightarrow>
  dget_or (fold (note_record now expected) records stats) f empty_stat = fold (\<lambda>r. note_value now r f) records (dget_or stats f empty_stat)"
  by (induction records arbitrary: stats) (simp_all add: note_record_get)

lemma empty_stats_get: "dget_or (fold (\<lambda>f. dset f empty_stat) fs st) f empty_stat = (if f \<in> set fs then empty_stat else dget_or st f empty_stat)"
  by (induction fs arbitrary: st) (auto simp: dget_or_simps)

lemma collect_get: "distinct expected \<Longrightarrow> f \<in> set expected \<Longrightarrow>
  dget_or (collect_stats now expected records) f empty_stat = fold (\<lambda>r. note_value now r f) records empty_stat"
  by (simp add: collect_stats_def fold_records_get empty_stats_get)

definition has_value :: "string \<Rightarrow> health_record \<Rightarrow> bool" where
  "has_value f r \<longleftrightarrow> dget_or (hr_fields r) f PNone \<noteq> PNone"

lemma fill_count: "fs_fill (fold (\<lambda>r. note_value now r f) records s) = fs_fill s + int (length (filter (has_value f) records))"
  by (induction records arbitrary: s) (auto simp: note_value_def has_value_def Let_def)

lemma value_counts: "fs_counts (fold (\<lambda>r. note_value now r f) records s) =
  fold count_vote (map (\<lambda>r. take 100 (py_str (dget_or (hr_fields r) f PNone))) (filter (has_value f) records)) (fs_counts s)"
  by (induction records arbitrary: s) (auto simp: note_value_def has_value_def Let_def)

text \<open>
  \<open>_aggregate_field_health\<close>. When no field is listed twice, the report has one entry per expected field,
  gate fields first and scoring fields next; the fill rate of each is the share of the records with a
  value, rounded, and each value count is the number of records with that value, cut to 100 characters.
\<close>

theorem field_health_exact:
  assumes "aggregate_field_health schema now records = Inr fhs" and "distinct (hs_expected schema)" and "records \<noteq> []"
  shows "mset (map fh_field fhs) = mset (hs_expected schema) \<and>
    sorted (map (\<lambda>fh. (\<not> fh_gate fh, \<not> fh_scoring fh)) fhs) \<and>
    (\<forall>fh \<in> set fhs. fh_gate fh = (fh_field fh \<in> set (hs_gates schema)) \<and>
       fh_fill fh = py_round 4 (py_int_div (int (length (filter (has_value (fh_field fh)) records))) (int (length records))) \<and>
       (\<forall>(v, n) \<in> set (fh_values fh).
          n = length (filter (\<lambda>r. has_value (fh_field fh) r \<and> v = take 100 (py_str (dget_or (hr_fields r) (fh_field fh) PNone))) records)))"
proof -
  let ?stats = "collect_stats now (hs_expected schema) records" and ?n = "int (length records)"
  let ?key = "\<lambda>fh. (\<not> fh_gate fh, \<not> fh_scoring fh, health_score fh)"
  obtain ys where ys: "list_all2 (\<lambda>f fh. field_health_of schema ?n ?stats f = Inr fh) (hs_expected schema) ys" "fhs = sort_key ?key ys"
    using assms(1,3) by (auto simp: aggregate_field_health_def bind_res_Inr_iff map_res_Inr)
  have entry: "fh_field fh = f \<and> fh_gate fh = (f \<in> set (hs_gates schema)) \<and>
      fh_fill fh = py_round 4 (py_int_div (int (length (filter (has_value f) records))) ?n) \<and>
      (\<forall>(v, n) \<in> set (fh_values fh).
         n = length (filter (\<lambda>r. has_value f r \<and> v = take 100 (py_str (dget_or (hr_fields r) f PNone))) records))"
    if "field_health_of schema ?n ?stats f = Inr fh" "f \<in> set (hs_expected schema)" for f fh
  proof -
    let ?vals = "map (\<lambda>r. take 100 (py_str (dget_or (hr_fields r) f PNone))) (filter (has_value f) records)"
    have c: "fs_counts (dget_or ?stats f empty_stat) = tally ?vals" "fs_fill (dget_or ?stats f empty_stat) = int (length (filter (has_value f) records))"
      using collect_get [OF assms(2) that(2)] by (simp_all add: value_counts fill_count empty_stat_def tally_def)
    have fh: "fh_field fh = f" "fh_gate fh = (f \<in> set (hs_gates schema))"
      "fh_fill fh = py_round 4 (py_int_div (int (length (filter (has_value f) records))) ?n)"
      "fh_values fh = take 10 (sort_desc snd (tally ?vals))"
      using that(1) assms(3) c by (auto simp: field_health_of_def Let_def bind_res_Inr_iff checked_def split: if_splits)
    have "n = length (filter (\<lambda>r. has_value f r \<and> v = take 100 (py_str (dget_or (hr_fields r) f PNone))) records)"
      if "(v, n) \<in> set (fh_values fh)" for v n
    proof -
      have "(v, n) \<in> set (tally ?vals)" using in_set_takeD [of _ 10 "sort_desc snd (tally ?vals)"] that fh(4) by simp
      then show ?thesis by (auto simp: tally_items count_list_eq_length_filter filter_map o_def conj_commute intro: arg_cong [of _ _ length] filter_cong)
    qed
    with fh(1-3) show ?thesis by blast
  qed
  have fields: "map fh_field ys = hs_expected schema"
    using ys(1) entry by (intro nth_equalityI) (auto simp: list_all2_conv_all_nth)
  have members: "\<exists>f \<in> set (hs_expected schema). field_health_of schema ?n ?stats f = Inr fh" if "fh \<in> set fhs" for fh
    using that ys by (auto simp: list_all2_conv_all_nth set_conv_nth [of ys]) (metis nth_mem)
  have "mset (map fh_field fhs) = mset (hs_expected schema)" using fields ys(2) by (metis mset_map mset_sort)
  moreover have "sorted (map (\<lambda>fh. (\<not> fh_gate fh, \<not> fh_scoring fh)) fhs)"
  proof -
    have "sorted (map ?key fhs)" unfolding ys(2) by (rule sorted_sort_key)
    then show ?thesis unfolding sorted_map by (rule sorted_wrt_mono_rel [rotated]) (auto simp: less_eq_prod_def)
  qed
  ultimately show ?thesis using members entry by blast
qed

section \<open>The full assessment\<close>

lemma length_map_filter: "length (List.map_filter f xs) = length (filter (\<lambda>x. f x \<noteq> None) xs)"
  by (induction xs) (auto simp: List.map_filter_def)

lemma trigger_for_None: "trigger_for cfg e = None \<longleftrightarrow> is_healthy e"
  by (auto simp: trigger_for_def split: prod.splits)

lemma generated_trigger:
  "t \<in> set (generate_triggers cfg es) \<longleftrightarrow> (\<exists>e \<in> set es. trigger_for cfg e = Some t)"
  by (auto simp: generate_triggers_def List.map_filter_def image_iff)

lemma length_triggers: "length (generate_triggers cfg es) = length (filter (\<lambda>e. \<not> is_healthy e) es)"
  by (simp add: generate_triggers_def length_map_filter trigger_for_None del: not_None_eq)

lemma band_healthy: "flt (7 / 10) \<le> c \<longleftrightarrow> band_of c \<in> {Excellent, Good}"
proof -
  have "flt (7 / 10) \<le> flt (9 / 10)" by (rule flt_mono) simp
  then show ?thesis by (auto simp: band_of_def)
qed

lemma band_counts: "dget_or (fold (\<lambda>c. count_vote (band_of c)) cs d) b 0 = dget_or d b 0 + length (filter (\<lambda>c. band_of c = b) cs)"
  by (induction cs arbitrary: d) (auto simp: count_vote_def dget_or_simps)

lemma length_filter_disjoint: "(\<And>x. \<not> (P x \<and> Q x)) \<Longrightarrow> length (filter P xs) + length (filter Q xs) = length (filter (\<lambda>x. P x \<or> Q x) xs)"
  by (induction xs) auto

definition band_count :: "health_summary \<Rightarrow> health_band \<Rightarrow> nat" where
  "band_count s b = dget_or (hu_bands s) b 0"

lemma summary_partition:
  assumes "build_summary es = Inr s" and "es \<noteq> []"
  shows "hu_total s = length es" and "hu_healthy s = length (filter is_healthy es)"
    and "hu_unhealthy s = length (filter (\<lambda>e. \<not> is_healthy e) es)"
    and "band_count s Excellent + band_count s Good = hu_healthy s"
    and "band_count s Fair + band_count s Poor = hu_unhealthy s"
proof -
  let ?cs = "map eh_composite es"
  have s: "hu_total s = length es" "hu_healthy s = length (filter (\<lambda>c. flt (7 / 10) \<le> c) ?cs)"
    "hu_unhealthy s = length es - length (filter (\<lambda>c. flt (7 / 10) \<le> c) ?cs)"
    "hu_bands s = fold (\<lambda>c. count_vote (band_of c)) ?cs [(Excellent, 0), (Good, 0), (Fair, 0), (Poor, 0)]"
    using assms by (auto simp: build_summary_def Let_def checked_def split: if_splits)
  have n: "band_count s b = length (filter (\<lambda>c. band_of c = b) ?cs)" for b
    unfolding band_count_def s(4) band_counts by (cases b) (simp_all add: dget_or_def)
  have h: "hu_healthy s = length (filter is_healthy es)"
    unfolding s(2) is_healthy_def [abs_def] by (simp add: filter_map o_def)
  have u: "length (filter is_healthy es) + length (filter (\<lambda>e. \<not> is_healthy e) es) = length es"
    by (rule sum_length_filter_compl)
  show "hu_total s = length es" "hu_healthy s = length (filter is_healthy es)" by (fact s(1), fact h)
  show un: "hu_unhealthy s = length (filter (\<lambda>e. \<not> is_healthy e) es)"
    using s(2,3) h u by simp
  have "length (filter (\<lambda>c. band_of c = Excellent) ?cs) + length (filter (\<lambda>c. band_of c = Good) ?cs) =
        length (filter (\<lambda>c. band_of c = Excellent \<or> band_of c = Good) ?cs)"
    by (rule length_filter_disjoint) simp
  also have "\<dots> = hu_healthy s" unfolding s(2) band_healthy by simp
  finally show eg: "band_count s Excellent + band_count s Good = hu_healthy s" by (simp add: n)
  have "length (filter (\<lambda>c. band_of c = Fair) ?cs) + length (filter (\<lambda>c. band_of c = Poor) ?cs) =
        length (filter (\<lambda>c. band_of c = Fair \<or> band_of c = Poor) ?cs)"
    by (rule length_filter_disjoint) simp
  also have "\<dots> = length (filter (\<lambda>c. \<not> (flt (7 / 10) \<le> c)) ?cs)"
    unfolding band_healthy by (rule arg_cong [of _ _ length], rule filter_cong [OF refl]) (metis health_band.exhaust health_band.distinct insert_iff empty_iff)
  also have "\<dots> = hu_unhealthy s"
    using sum_length_filter_compl [of "\<lambda>c. flt (7 / 10) \<le> c" ?cs] s(3) by simp
  finally show "band_count s Fair + band_count s Poor = hu_unhealthy s" by (simp add: n)
qed

definition assessed_records :: "assessment_config \<Rightarrow> string list \<Rightarrow> (string list \<Rightarrow> health_record list) \<Rightarrow> health_record list" where
  "assessed_records cfg list_ids get_entities =
     get_entities (case hc_entity_ids cfg of Some (i # is) \<Rightarrow> if hc_entity_scope cfg then i # is else list_ids | _ \<Rightarrow> list_ids)"

lemma assessed_each:
  assumes "map_res (\<lambda>(i, r). assess_entity fexp ord schema cfg (clk i) r) (enumerate 0 records) = Inr es"
  shows "length es = length records"
    and "i < length records \<Longrightarrow> assess_entity fexp ord schema cfg (clk i) (records ! i) = Inr (es ! i)"
  using assms by (auto simp: map_res_Inr list_all2_conv_all_nth nth_enumerate_eq)

lemma checked_holds: "checked P x = Inr y \<Longrightarrow> P y"
  by (simp add: checked_def split: if_splits)

lemma crm_health_in_range: "build_crm_health cfg n_all synced es fhs = Inr c \<Longrightarrow> es \<noteq> [] \<Longrightarrow> crm_health_ok c"
  unfolding build_crm_health_def Let_def by (rule checked_holds) (simp only: if_False)

text \<open>
  \<open>assess_full_crm\<close>. Of a full assessment every record is counted once: as healthy or unhealthy, and in one
  of the four bands. There is a trigger for each unhealthy record and for no other, when triggers are
  switched on, the most urgent first; a record with an empty gate field gets the reason for it, the
  priority 1 and these fields as targets. The readiness lies in the unit interval.
\<close>

theorem full_assessment_accounts:
  assumes "assess_full_crm fexp ord schema cfg list_ids get_entities n_all synced clk now = Inr res"
    and "assessed_records cfg list_ids get_entities = records" and "records \<noteq> []"
  shows "hu_total (as_summary res) = length records \<and>
    hu_healthy (as_summary res) + hu_unhealthy (as_summary res) = length records \<and>
    band_count (as_summary res) Excellent + band_count (as_summary res) Good = hu_healthy (as_summary res) \<and>
    band_count (as_summary res) Fair + band_count (as_summary res) Poor = hu_unhealthy (as_summary res) \<and>
    length (as_triggers res) = (if hc_auto cfg then hu_unhealthy (as_summary res) else 0) \<and>
    sorted_wrt (\<lambda>s t. ht_priority t \<le> ht_priority s) (as_triggers res) \<and>
    (\<forall>t \<in> set (as_triggers res). \<exists>i < length records. \<exists>e. assess_entity fexp ord schema cfg (clk i) (records ! i) = Inr e \<and>
       \<not> is_healthy e \<and> ht_entity t = hr_entity (records ! i) \<and>
       (eh_gate_missing e \<noteq> [] \<longrightarrow> ht_reason t = GateFieldMissing \<and> ht_priority t = 1 \<and> ht_targets t = eh_gate_missing e)) \<and>
    unit_ok (cr_readiness (as_crm res))"
proof -
  obtain es fhs where parts:
    "map_res (\<lambda>(i, r). assess_entity fexp ord schema cfg (clk i) r) (enumerate 0 records) = Inr es"
    "build_crm_health cfg n_all synced es fhs = Inr (as_crm res)" "build_summary es = Inr (as_summary res)"
    "as_triggers res = (if hc_auto cfg then generate_triggers cfg es else [])"
    using assms(1,2) by (auto simp: assess_full_crm_def assessed_records_def Let_def bind_res_Inr_iff)
  note each = assessed_each [OF parts(1)]
  have ne: "es \<noteq> []" using each(1) assms(3) by auto
  note sm = summary_partition [OF parts(3) ne]
  have "hu_healthy (as_summary res) + hu_unhealthy (as_summary res) = length records"
    unfolding sm(2,3) each(1) [symmetric] by (rule sum_length_filter_compl)
  moreover have "length (as_triggers res) = (if hc_auto cfg then hu_unhealthy (as_summary res) else 0)"
    by (simp add: parts(4) length_triggers sm(3))
  moreover have "sorted_wrt (\<lambda>s t. ht_priority t \<le> ht_priority s) (as_triggers res)"
    by (simp add: parts(4) generate_triggers_def sort_desc_falling)
  moreover have "\<exists>i < length records. \<exists>e. assess_entity fexp ord schema cfg (clk i) (records ! i) = Inr e \<and>
       \<not> is_healthy e \<and> ht_entity t = hr_entity (records ! i) \<and>
       (eh_gate_missing e \<noteq> [] \<longrightarrow> ht_reason t = GateFieldMissing \<and> ht_priority t = 1 \<and> ht_targets t = eh_gate_missing e)"
    if "t \<in> set (as_triggers res)" for t
  proof -
    from that obtain e where e: "e \<in> set es" "trigger_for cfg e = Some t"
      by (auto simp: parts(4) generated_trigger split: if_splits)
    then obtain i where i: "i < length records" "e = es ! i" using each(1) by (auto simp: in_set_conv_nth)
    have a: "assess_entity fexp ord schema cfg (clk i) (records ! i) = Inr e" using each(2) [OF i(1)] i(2) by simp
    moreover have "ht_entity t = eh_entity e" "\<not> is_healthy e"
      "eh_gate_missing e \<noteq> [] \<longrightarrow> ht_reason t = GateFieldMissing \<and> ht_priority t = 1 \<and> ht_targets t = eh_gate_missing e"
      using e(2) by (auto simp: trigger_for_def split: if_splits prod.splits)
    ultimately show ?thesis using i(1) assess_parts(6) [OF a] by auto
  qed
  moreover have "unit_ok (cr_readiness (as_crm res))"
    using crm_health_in_range [OF parts(2) ne] by (simp add: crm_health_ok_def)
  ultimately show ?thesis using sm(1,4,5) each(1) by simp
qed

text \<open>
  A field listed twice among the expected ones is counted twice per record, so its fill rate leaves the unit
  interval and the whole assessment raises.
\<close>

lemma two_of_one: "\<not> unit_ok (py_round 4 (py_int_div 2 1))"
  by (simp add: unit_ok_def f64_eval)

lemma overfull_field_raises:
  assumes "fs_fill (dget_or stats f empty_stat) = 2" and "fs_ages (dget_or stats f empty_stat) = []"
  shows "field_health_of schema 1 stats f = Inl ValueError"
  using assms two_of_one by (simp add: field_health_of_def percentile_def checked_def field_health_ok_def Let_def)

lemma repeated_field_aborts:
  "aggregate_field_health \<lparr>hs_expected = [''city'', ''city''], hs_gates = [], hs_scoring = []\<rparr> 0 [sample_record] = Inl ValueError"
proof -
  let ?s = "dget_or (collect_stats 0 [''city'', ''city''] [sample_record]) ''city'' empty_stat"
  have "fs_fill ?s = 2" "fs_ages ?s = []"
    by (simp_all add: collect_stats_def note_record_def note_value_def sample_record_def dget_or_def empty_stat_def Let_def)
  from overfull_field_raises [OF this] show ?thesis by (simp add: aggregate_field_health_def)
qed

section \<open>Witnesses\<close>

definition one_field :: health_schema where
  "one_field = \<lparr>hs_expected = [''city''], hs_gates = [''city''], hs_scoring = []\<rparr>"

lemma f_of_int_1 [simp]: "f_of_int 1 = 1" by (simp add: f_of_int_def)

theorem field_health_exact_witness:
  "\<exists>fhs. aggregate_field_health one_field 0 [sample_record] = Inr fhs \<and> mset (map fh_field fhs) = {#''city''#} \<and>
     (\<forall>fh \<in> set fhs. fh_gate fh)"
proof -
  let ?s = "dget_or (collect_stats 0 [''city''] [sample_record]) ''city'' empty_stat"
  have s: "fs_fill ?s = 1" "fs_ages ?s = []" "fs_min ?s = 1" "fs_max ?s = 1" "fs_sum ?s = 1"
    by (simp_all add: collect_stats_def note_record_def note_value_def sample_record_def dget_or_def empty_stat_def Let_def)
  have "\<exists>fh. field_health_of one_field 1 (collect_stats 0 [''city''] [sample_record]) ''city'' = Inr fh"
    using s by (simp add: field_health_of_def percentile_def checked_def field_health_ok_def unit_ok_def Let_def)
  then obtain fhs where a: "aggregate_field_health one_field 0 [sample_record] = Inr fhs"
    by (auto simp: aggregate_field_health_def) (auto simp: one_field_def)
  have d: "distinct (hs_expected one_field)" by (simp add: one_field_def)
  have r: "[sample_record] \<noteq> []" by simp
  from field_health_exact [OF a d r] have m: "mset (map fh_field fhs) = {#''city''#}" and
    g: "\<forall>fh \<in> set fhs. fh_gate fh = (fh_field fh \<in> set (hs_gates one_field))"
    by (auto simp: one_field_def)
  from m have "set (map fh_field fhs) = {''city''}" by (metis set_mset_mset set_mset_single)
  with g have "\<forall>fh \<in> set fhs. fh_gate fh" by (auto simp: one_field_def)
  with a m show ?thesis by (intro exI [of _ fhs]) simp
qed

definition no_data :: "string list \<Rightarrow> health_record list" where
  "no_data ids = map (\<lambda>i. \<lparr>hr_entity = i, hr_domain = ''d'', hr_fields = [], hr_conf = [], hr_updated = [], hr_last = None, hr_crm = []\<rparr>) ids"

lemma no_data_assessed: "\<exists>eh. assess_entity (\<lambda>x. 0) (\<lambda>xs. xs) one_field sample_config nows (hd (no_data [i])) = Inr eh"
  using unit_round [OF composite_unit]
  by (simp add: assess_entity_def checked_def Let_def entity_health_ok_def one_field_def no_data_def filled_fields_def
      compute_freshness_def compute_consistency_def comparable_def dget_or_def unit_ok_def)

lemma average_single [simp]: "avg_of f [x] = f x" by (simp add: avg_of_def)

lemma single_base:
  assumes "entity_health_ok e"
  shows "\<exists>c. build_crm_health cfg 1 0 [e] fhs = Inr c" and "\<exists>s. build_summary [e] = Inr s"
proof -
  have "unit_ok (py_int_div (int (length (filter P [e]))) (int (length [e])))" for P by (rule unit_ratio) simp_all
  then show "\<exists>c. build_crm_health cfg 1 0 [e] fhs = Inr c"
    using assms unit_round [OF readiness_capped(1)]
    by (simp add: build_crm_health_def checked_def crm_health_ok_def entity_health_ok_def Let_def unit_round unit_ok_def [of 0] del: filter.simps)
  show "\<exists>s. build_summary [e] = Inr s"
    using assms by (simp add: build_summary_def Let_def checked_def health_summary_ok_def entity_health_ok_def unit_round)
qed

lemma no_data_fields: "\<exists>fhs. aggregate_field_health one_field now (no_data [i]) = Inr fhs"
proof -
  let ?s = "dget_or (collect_stats now [''city''] (no_data [i])) ''city'' empty_stat"
  have s: "fs_fill ?s = 0" "fs_ages ?s = []"
    by (simp_all add: collect_stats_def note_record_def note_value_def no_data_def dget_or_def empty_stat_def Let_def)
  have "\<exists>fh. field_health_of one_field 1 (collect_stats now [''city''] (no_data [i])) ''city'' = Inr fh"
    using s by (simp add: field_health_of_def percentile_def checked_def field_health_ok_def unit_ok_def Let_def)
  moreover have "length (no_data [i]) = 1" "no_data [i] \<noteq> []" by (simp_all add: no_data_def)
  ultimately show ?thesis by (auto simp: aggregate_field_health_def) (auto simp: one_field_def)
qed

theorem full_assessment_accounts_witness:
  "\<exists>res. assess_full_crm (\<lambda>x. 0) (\<lambda>xs. xs) one_field sample_config [''e''] no_data 1 0 (\<lambda>i. (0, 0)) 0 = Inr res \<and>
     hu_total (as_summary res) = 1"
proof -
  obtain eh where e: "assess_entity (\<lambda>x. 0) (\<lambda>xs. xs) one_field sample_config (0, 0) (hd (no_data [''e''])) = Inr eh"
    using no_data_assessed by blast
  obtain fhs where f: "aggregate_field_health one_field 0 (no_data [''e'']) = Inr fhs" using no_data_fields by blast
  obtain c s where c: "build_crm_health sample_config 1 0 [eh] fhs = Inr c" "build_summary [eh] = Inr s"
    using single_base [OF assess_parts(1) [OF e]] by blast
  have ids: "assessed_records sample_config [''e''] no_data = no_data [''e'']"
    by (simp add: assessed_records_def sample_config_def)
  have "\<exists>res. assess_full_crm (\<lambda>x. 0) (\<lambda>xs. xs) one_field sample_config [''e''] no_data 1 0 (\<lambda>i. (0, 0)) 0 = Inr res"
    using e f c ids by (simp add: assess_full_crm_def assessed_records_def no_data_def Let_def)
  then obtain res where r: "assess_full_crm (\<lambda>x. 0) (\<lambda>xs. xs) one_field sample_config [''e''] no_data 1 0 (\<lambda>i. (0, 0)) 0 = Inr res" ..
  have "no_data [''e''] \<noteq> []" by (simp add: no_data_def)
  from full_assessment_accounts [OF r ids this] r show ?thesis by (auto simp: no_data_def)
qed

end
