(* ===== verification/HealthTriggers.thy ===== *)
theory HealthTriggers
  imports CrmHealth
begin

text \<open>
  \<open>app/health/health_triggers.py\<close>: the engine that takes the triggers of an assessment, drops duplicates,
  limits them per entity, and sends them to the enrichment service. The trigger store and the dispatcher
  are interfaces without an implementation here: \<open>trigger_store\<close> is a record of the store's operations on
  an abstract state, \<open>queue\<close> answers with the text of the exception the dispatcher raises, if it does.
  Instants are microseconds. What the store must do is a hypothesis where a theorem needs it.
\<close>

record queued_trigger =
  qt_id :: string
  qt_trigger :: health_trigger

record 's trigger_store =
  ts_recent :: "'s \<Rightarrow> string \<Rightarrow> int \<Rightarrow> queued_trigger list"
  ts_save :: "queued_trigger \<Rightarrow> 's \<Rightarrow> 's"
  ts_pending :: "'s \<Rightarrow> string \<Rightarrow> nat \<Rightarrow> queued_trigger list"
  ts_mark :: "string \<Rightarrow> int \<Rightarrow> 's \<Rightarrow> string + 's"
  ts_dispatched_since :: "'s \<Rightarrow> string \<Rightarrow> int \<Rightarrow> nat"
  ts_count_pending :: "'s \<Rightarrow> string \<Rightarrow> nat"

record trigger_config =
  tc_per_hour :: nat
  tc_per_day :: nat
  tc_batch :: nat
  tc_boost :: f64
  tc_window_hours :: int

definition hour :: int where "hour = 3600000000"

definition entity_of :: "queued_trigger \<Rightarrow> string" where
  "entity_of q = ht_entity (qt_trigger q)"

definition is_duplicate :: "queued_trigger \<Rightarrow> queued_trigger list \<Rightarrow> bool" where
  "is_duplicate q recent =
     (let t = qt_trigger q in
      list_ex (\<lambda>p. let e = qt_trigger p in ht_reason e = ht_reason t \<and>
        (set (ht_targets e) = set (ht_targets t) \<or> ht_targets e = [] \<and> ht_targets t = [])) recent)"

record 's ingest_state =
  gs_accepted :: "queued_trigger list"
  gs_deduplicated :: nat
  gs_limited :: nat
  gs_counts :: "(string, nat) dict"
  gs_store :: 's

definition boosted :: "trigger_config \<Rightarrow> queued_trigger \<Rightarrow> pyerr + queued_trigger" where
  "boosted cfg q =
     (let t = qt_trigger q in
      if ht_reason t = GateFieldMissing then
        (let p = min 1 (ht_priority t + tc_boost cfg) in
         if unit_ok p then Inr (q\<lparr>qt_trigger := t\<lparr>ht_priority := p\<rparr>\<rparr>) else Inl ValueError)
      else Inr q)"

definition day_start :: "int \<Rightarrow> int" where
  "day_start now = now div (24 * hour) * (24 * hour)"

definition ingest_one ::
    "'s trigger_store \<Rightarrow> trigger_config \<Rightarrow> int \<Rightarrow> queued_trigger \<Rightarrow> 's ingest_state \<Rightarrow> pyerr + 's ingest_state" where
  "ingest_one store cfg now q g =
     (let e = entity_of q; n = dget_or (gs_counts g) e 0 in
      if is_duplicate q (ts_recent store (gs_store g) e (now - tc_window_hours cfg * hour))
      then Inr (g\<lparr>gs_deduplicated := gs_deduplicated g + 1\<rparr>)
      else if tc_per_day cfg \<le> length (ts_recent store (gs_store g) e (day_start now)) + n
      then Inr (g\<lparr>gs_limited := gs_limited g + 1\<rparr>)
      else bind_res (boosted cfg q) (\<lambda>b.
        Inr (g\<lparr>gs_accepted := gs_accepted g @ [b], gs_counts := dset e (n + 1) (gs_counts g), gs_store := ts_save store b (gs_store g)\<rparr>)))"

text \<open>An exception ends the loop and leaves what was saved: it is returned with the state.\<close>

fun ingest_all ::
    "'s trigger_store \<Rightarrow> trigger_config \<Rightarrow> int \<Rightarrow> queued_trigger list \<Rightarrow> 's ingest_state \<Rightarrow> pyerr option \<times> 's ingest_state" where
  "ingest_all store cfg now [] g = (None, g)"
| "ingest_all store cfg now (q # qs) g =
     (case ingest_one store cfg now q g of Inl e \<Rightarrow> (Some e, g) | Inr g' \<Rightarrow> ingest_all store cfg now qs g')"

record ingest_result =
  ir_total :: nat
  ir_accepted :: nat
  ir_deduplicated :: nat
  ir_limited :: nat

definition new_ingest :: "'s \<Rightarrow> 's ingest_state" where
  "new_ingest s = \<lparr>gs_accepted = [], gs_deduplicated = 0, gs_limited = 0, gs_counts = [], gs_store = s\<rparr>"

definition ingest_triggers ::
    "'s trigger_store \<Rightarrow> trigger_config \<Rightarrow> int \<Rightarrow> queued_trigger list \<Rightarrow> 's \<Rightarrow> (pyerr + ingest_result) \<times> 's" where
  "ingest_triggers store cfg now qs s =
     (case ingest_all store cfg now qs (new_ingest s) of
        (Some e, g) \<Rightarrow> (Inl e, gs_store g)
      | (None, g) \<Rightarrow> (Inr \<lparr>ir_total = length qs, ir_accepted = length (gs_accepted g), ir_deduplicated = gs_deduplicated g,
                          ir_limited = gs_limited g\<rparr>, gs_store g))"

section \<open>Dispatch\<close>

record 's dispatch_state =
  xs_dispatched :: nat
  xs_failures :: "(string \<times> string \<times> string) list"
  xs_sent :: "string list"
  xs_store :: 's

text \<open>\<open>xs_sent\<close> records the calls the dispatcher accepted, which the code does not keep.\<close>

definition dispatch_one ::
    "'s trigger_store \<Rightarrow> (queued_trigger \<Rightarrow> string option) \<Rightarrow> int \<Rightarrow> queued_trigger \<Rightarrow> 's dispatch_state \<Rightarrow> 's dispatch_state" where
  "dispatch_one store queue now q x =
     (let fail = (\<lambda>err y. y\<lparr>xs_failures := xs_failures y @ [(qt_id q, entity_of q, err)]\<rparr>) in
      case queue q of
        Some err \<Rightarrow> fail err x
      | None \<Rightarrow>
          (let y = x\<lparr>xs_sent := xs_sent x @ [qt_id q]\<rparr> in
           case ts_mark store (qt_id q) now (xs_store y) of
             Inl err \<Rightarrow> fail err y
           | Inr s \<Rightarrow> y\<lparr>xs_dispatched := xs_dispatched y + 1, xs_store := s\<rparr>))"

record dispatch_result =
  dr_dispatched :: nat
  dr_failed :: nat
  dr_limited :: bool
  dr_remaining :: int
  dr_failures :: "(string \<times> string \<times> string) list"

definition remaining_capacity :: "'s trigger_store \<Rightarrow> trigger_config \<Rightarrow> int \<Rightarrow> string \<Rightarrow> 's \<Rightarrow> nat" where
  "remaining_capacity store cfg now domain s = tc_per_hour cfg - ts_dispatched_since store s domain (now - hour)"

definition dispatch_batch ::
    "'s trigger_store \<Rightarrow> (queued_trigger \<Rightarrow> string option) \<Rightarrow> trigger_config \<Rightarrow> int \<Rightarrow> string \<Rightarrow> 's \<Rightarrow>
     dispatch_result \<times> 's dispatch_state" where
  "dispatch_batch store queue cfg now domain s =
     (let start = \<lparr>xs_dispatched = 0, xs_failures = [], xs_sent = [], xs_store = s\<rparr>;
          capacity = remaining_capacity store cfg now domain s in
      if capacity = 0 then (\<lparr>dr_dispatched = 0, dr_failed = 0, dr_limited = True, dr_remaining = 0, dr_failures = []\<rparr>, start)
      else
        (let pending = ts_pending store s domain (min (tc_batch cfg) capacity);
             x = fold (dispatch_one store queue now) pending start
         in (\<lparr>dr_dispatched = xs_dispatched x, dr_failed = length (xs_failures x), dr_limited = False,
              dr_remaining = int capacity - int (xs_dispatched x), dr_failures = xs_failures x\<rparr>, x)))"

record queue_status =
  qs_domain :: string
  qs_pending :: nat
  qs_dispatched :: nat
  qs_capacity :: nat
  qs_remaining :: nat
  qs_batch :: nat

definition get_queue_status :: "'s trigger_store \<Rightarrow> trigger_config \<Rightarrow> int \<Rightarrow> string \<Rightarrow> 's \<Rightarrow> queue_status" where
  "get_queue_status store cfg now domain s =
     \<lparr>qs_domain = domain, qs_pending = ts_count_pending store s domain,
      qs_dispatched = ts_dispatched_since store s domain (now - hour), qs_capacity = tc_per_hour cfg,
      qs_remaining = remaining_capacity store cfg now domain s, qs_batch = tc_batch cfg\<rparr>"

section \<open>Ingestion\<close>

definition count_for :: "string \<Rightarrow> queued_trigger list \<Rightarrow> nat" where
  "count_for e qs = length (filter (\<lambda>q. entity_of q = e) qs)"

definition stores_saved :: "'s trigger_store \<Rightarrow> int \<Rightarrow> bool" where
  "stores_saved store since \<longleftrightarrow> (\<forall>q s e. length (ts_recent store (ts_save store q s) e since) =
     length (ts_recent store s e since) + (if e = entity_of q then 1 else 0))"

definition ingest_inv :: "'s trigger_store \<Rightarrow> trigger_config \<Rightarrow> int \<Rightarrow> 's \<Rightarrow> 's ingest_state \<Rightarrow> bool" where
  "ingest_inv store cfg now s g \<longleftrightarrow>
     (\<forall>e. dget_or (gs_counts g) e 0 = count_for e (gs_accepted g) \<and>
          length (ts_recent store (gs_store g) e (day_start now)) = length (ts_recent store s e (day_start now)) + count_for e (gs_accepted g) \<and>
          (gs_accepted g = [] \<or> count_for e (gs_accepted g) = 0 \<or>
           length (ts_recent store s e (day_start now)) + 2 * count_for e (gs_accepted g) \<le> tc_per_day cfg + 1))"

lemma boosted_entity: "boosted cfg q = Inr b \<Longrightarrow> entity_of b = entity_of q"
  by (auto simp: boosted_def entity_of_def Let_def split: if_splits)

lemma count_for_append: "count_for e (qs @ [q]) = count_for e qs + (if entity_of q = e then 1 else 0)"
  by (simp add: count_for_def)

lemma ingest_one_inv:
  assumes "stores_saved store (day_start now)" and "ingest_inv store cfg now s g" and "ingest_one store cfg now q g = Inr g'"
  shows "ingest_inv store cfg now s g' \<and>
    length (gs_accepted g') + gs_deduplicated g' + gs_limited g' = Suc (length (gs_accepted g) + gs_deduplicated g + gs_limited g)"
proof -
  let ?e = "entity_of q" and ?day = "day_start now"
  consider "g' = g\<lparr>gs_deduplicated := gs_deduplicated g + 1\<rparr>" | "g' = g\<lparr>gs_limited := gs_limited g + 1\<rparr>"
    | b where "boosted cfg q = Inr b" "length (ts_recent store (gs_store g) ?e ?day) + dget_or (gs_counts g) ?e 0 < tc_per_day cfg"
        "g' = g\<lparr>gs_accepted := gs_accepted g @ [b], gs_counts := dset ?e (dget_or (gs_counts g) ?e 0 + 1) (gs_counts g), gs_store := ts_save store b (gs_store g)\<rparr>"
    using assms(3) by (auto simp: ingest_one_def Let_def bind_res_Inr_iff split: if_splits)
  then show ?thesis
  proof cases
    case 3
    note be = boosted_entity [OF 3(1)]
    have inv: "dget_or (gs_counts g) e 0 = count_for e (gs_accepted g)"
      "length (ts_recent store (gs_store g) e ?day) = length (ts_recent store s e ?day) + count_for e (gs_accepted g)"
      "count_for e (gs_accepted g) = 0 \<or> length (ts_recent store s e ?day) + 2 * count_for e (gs_accepted g) \<le> tc_per_day cfg + 1" for e
      using assms(2) by (auto simp: ingest_inv_def count_for_def)
    have saved: "length (ts_recent store (ts_save store b (gs_store g)) e ?day) = length (ts_recent store (gs_store g) e ?day) + (if e = ?e then 1 else 0)" for e
      using assms(1) be by (simp add: stores_saved_def)
    have "length (ts_recent store s ?e ?day) + 2 * count_for ?e (gs_accepted g) < tc_per_day cfg"
      using 3(2) inv [of ?e] by simp
    with inv saved be show ?thesis by (auto simp: 3(3) ingest_inv_def count_for_append dget_or_simps)
  qed (use assms(2) in \<open>auto simp: ingest_inv_def\<close>)
qed

lemma ingest_all_inv:
  assumes "stores_saved store (day_start now)" and "ingest_inv store cfg now s g" and "ingest_all store cfg now qs g = (None, g')"
  shows "ingest_inv store cfg now s g' \<and>
    length (gs_accepted g') + gs_deduplicated g' + gs_limited g' = length qs + length (gs_accepted g) + gs_deduplicated g + gs_limited g"
  using assms(2,3)
proof (induction qs arbitrary: g)
  case (Cons q qs)
  then obtain g1 where g1: "ingest_one store cfg now q g = Inr g1" "ingest_all store cfg now qs g1 = (None, g')"
    by (auto split: sum.splits)
  from ingest_one_inv [OF assms(1) Cons.prems(1) g1(1)] Cons.IH [OF _ g1(2)] show ?case by simp
qed simp

text \<open>
  \<open>ingest_triggers\<close>, over a store that answers with the triggers saved in it. Every trigger of a batch is
  accepted, a duplicate or over the limit. The daily limit per entity is kept - and it is not reached: the
  triggers accepted from one batch count twice, in the store and in the counter of the batch, so of an
  entity with \<open>n\<close> triggers today at most half of what the limit still admits, rounded up, is accepted.
\<close>

theorem ingest_accounts:
  assumes "stores_saved store (day_start now)" and "ingest_triggers store cfg now qs s = (Inr res, s')"
  shows "ir_total res = ir_accepted res + ir_deduplicated res + ir_limited res \<and> ir_total res = length qs \<and>
    (\<forall>e. let before = length (ts_recent store s e (day_start now)); after = length (ts_recent store s' e (day_start now)) in
       before \<le> after \<and> (after = before \<or> after \<le> tc_per_day cfg \<and> 2 * (after - before) \<le> tc_per_day cfg - before + 1))"
proof -
  obtain g where g: "ingest_all store cfg now qs (new_ingest s) = (None, g)" "s' = gs_store g"
    "res = \<lparr>ir_total = length qs, ir_accepted = length (gs_accepted g), ir_deduplicated = gs_deduplicated g, ir_limited = gs_limited g\<rparr>"
    using assms(2) by (auto simp: ingest_triggers_def split: prod.splits option.splits)
  have "ingest_inv store cfg now s (new_ingest s)" by (simp add: ingest_inv_def new_ingest_def count_for_def dget_or_def)
  from ingest_all_inv [OF assms(1) this g(1)] have inv: "ingest_inv store cfg now s g"
    "length (gs_accepted g) + gs_deduplicated g + gs_limited g = length qs" by (simp_all add: new_ingest_def)
  have each: "let before = length (ts_recent store s e (day_start now)); after = length (ts_recent store s' e (day_start now)) in
       before \<le> after \<and> (after = before \<or> after \<le> tc_per_day cfg \<and> 2 * (after - before) \<le> tc_per_day cfg - before + 1)" for e
  proof -
    have "count_for e (gs_accepted g) = 0 \<or>
        length (ts_recent store s e (day_start now)) + 2 * count_for e (gs_accepted g) \<le> tc_per_day cfg + 1"
      "length (ts_recent store s' e (day_start now)) = length (ts_recent store s e (day_start now)) + count_for e (gs_accepted g)"
      using inv(1) by (auto simp: ingest_inv_def g(2) count_for_def)
    then show ?thesis by (auto simp: Let_def)
  qed
  show ?thesis using each inv(2) g(3) by simp
qed

definition list_store :: "queued_trigger list trigger_store" where
  "list_store = \<lparr>ts_recent = (\<lambda>s e since. filter (\<lambda>q. entity_of q = e) s), ts_save = (\<lambda>q s. s @ [q]),
     ts_pending = (\<lambda>s d n. take n s), ts_mark = (\<lambda>i t s. Inr (filter (\<lambda>q. qt_id q \<noteq> i) s)),
     ts_dispatched_since = (\<lambda>s d t. 0), ts_count_pending = (\<lambda>s d. length s)\<rparr>"

definition sample_trigger :: "string \<Rightarrow> trigger_reason \<Rightarrow> queued_trigger" where
  "sample_trigger i r = \<lparr>qt_id = i, qt_trigger = \<lparr>ht_entity = ''e'', ht_domain = ''d'', ht_reason = r, ht_priority = 1, ht_targets = [], ht_health = 0\<rparr>\<rparr>"

definition sample_trigger_config :: trigger_config where
  "sample_trigger_config = \<lparr>tc_per_hour = 500, tc_per_day = 3, tc_batch = 50, tc_boost = flt (1 / 5), tc_window_hours = 4\<rparr>"

lemma list_store_saves: "stores_saved list_store t"
  by (simp add: stores_saved_def list_store_def)

text \<open>Three different triggers for one entity with a limit of three a day: the third is refused.\<close>

lemma third_trigger_refused:
  "ingest_triggers list_store sample_trigger_config 0
     [sample_trigger ''1'' Staleness, sample_trigger ''2'' LowConfidence, sample_trigger ''3'' Inconsistency] [] =
   (Inr \<lparr>ir_total = 3, ir_accepted = 2, ir_deduplicated = 0, ir_limited = 1\<rparr>,
    [sample_trigger ''1'' Staleness, sample_trigger ''2'' LowConfidence])"
  by (simp add: ingest_triggers_def ingest_one_def new_ingest_def list_store_def sample_trigger_config_def sample_trigger_def
      entity_of_def is_duplicate_def boosted_def dget_or_def Let_def)

theorem ingest_accounts_witness:
  "length (ts_recent list_store [sample_trigger ''1'' Staleness, sample_trigger ''2'' LowConfidence] ''e'' (day_start 0)) \<le> tc_per_day sample_trigger_config"
proof -
  have "length (ts_recent list_store [] ''e'' (day_start 0)) = 0" by (simp add: list_store_def)
  with ingest_accounts [OF list_store_saves third_trigger_refused] show ?thesis
    by (auto simp: Let_def sample_trigger_config_def dest!: spec [of _ "''e''"])
qed

section \<open>Dispatching\<close>

definition dispatch_inv :: "nat \<Rightarrow> 's dispatch_state \<Rightarrow> bool" where
  "dispatch_inv n x \<longleftrightarrow> xs_dispatched x + length (xs_failures x) = n \<and> xs_dispatched x \<le> length (xs_sent x) \<and> length (xs_sent x) \<le> n"

lemma dispatch_one_inv: "dispatch_inv n x \<Longrightarrow> dispatch_inv (Suc n) (dispatch_one store queue now q x)"
  by (auto simp: dispatch_inv_def dispatch_one_def Let_def split: option.split sum.split)

lemma dispatch_fold_inv: "dispatch_inv n x \<Longrightarrow> dispatch_inv (n + length qs) (fold (dispatch_one store queue now) qs x)"
proof (induction qs arbitrary: n x)
  case (Cons q qs)
  from Cons.IH [OF dispatch_one_inv [OF Cons.prems]] show ?case by simp
qed simp

text \<open>
  \<open>dispatch_batch\<close>, over a store that respects the limit it is asked for. However the dispatcher and the
  store fail, a batch ends with each of its triggers either dispatched or a failure, and never sends more
  than the capacity of the hour leaves, so the hourly limit holds after the batch if it held before; the
  remaining capacity reported is not negative, and 0 in a batch refused for the limit.
\<close>

theorem dispatch_within_capacity:
  assumes "dispatch_batch store queue cfg now domain s = (res, x)"
    and "\<And>n. length (ts_pending store s domain n) \<le> n"
  shows "length (xs_sent x) + ts_dispatched_since store s domain (now - hour) \<le>
      max (tc_per_hour cfg) (ts_dispatched_since store s domain (now - hour)) \<and>
    dr_dispatched res \<le> length (xs_sent x) \<and> length (xs_sent x) \<le> tc_batch cfg \<and> 0 \<le> dr_remaining res \<and>
    dr_failed res = length (dr_failures res) \<and>
    (dr_limited res \<longleftrightarrow> tc_per_hour cfg \<le> ts_dispatched_since store s domain (now - hour)) \<and>
    (\<not> dr_limited res \<longrightarrow> dr_dispatched res + dr_failed res =
       length (ts_pending store s domain (min (tc_batch cfg) (remaining_capacity store cfg now domain s))))"
proof -
  let ?cap = "remaining_capacity store cfg now domain s" and ?start = "\<lparr>xs_dispatched = 0, xs_failures = [], xs_sent = [], xs_store = s\<rparr>"
  let ?p = "ts_pending store s domain (min (tc_batch cfg) ?cap)"
  have inv: "dispatch_inv (length ?p) (fold (dispatch_one store queue now) ?p ?start)"
    using dispatch_fold_inv [of 0 ?start ?p store queue now] by (simp add: dispatch_inv_def)
  show ?thesis
  proof (cases "?cap = 0")
    case True
    with assms(1) show ?thesis by (auto simp: dispatch_batch_def Let_def remaining_capacity_def)
  next
    case False
    then have x: "x = fold (dispatch_one store queue now) ?p ?start" and
      res: "res = \<lparr>dr_dispatched = xs_dispatched x, dr_failed = length (xs_failures x), dr_limited = False,
              dr_remaining = int ?cap - int (xs_dispatched x), dr_failures = xs_failures x\<rparr>"
      using assms(1) by (auto simp: dispatch_batch_def Let_def)
    have "length ?p \<le> min (tc_batch cfg) ?cap" by (rule assms(2))
    with inv False show ?thesis
      unfolding res x [symmetric] by (auto simp: dispatch_inv_def remaining_capacity_def)
  qed
qed

lemma list_store_limits: "length (ts_pending list_store s d n) \<le> n" by (simp add: list_store_def)

theorem dispatch_within_capacity_witness:
  "\<exists>res x. dispatch_batch list_store (\<lambda>q. None) sample_trigger_config 0 ''d'' [sample_trigger ''1'' Staleness] = (res, x) \<and>
     0 \<le> dr_remaining res"
proof -
  obtain res x where d: "dispatch_batch list_store (\<lambda>q. None) sample_trigger_config 0 ''d'' [sample_trigger ''1'' Staleness] = (res, x)"
    by (cases "dispatch_batch list_store (\<lambda>q. None) sample_trigger_config 0 ''d'' [sample_trigger ''1'' Staleness]")
  from dispatch_within_capacity [OF d list_store_limits] d show ?thesis by blast
qed

text \<open>
  A trigger the dispatcher accepted is reported as failed when the store cannot mark it: it stays pending, so
  the next batch sends it again.
\<close>

lemma unmarked_trigger_sent_again:
  fixes q
  defines "store \<equiv> list_store\<lparr>ts_mark := (\<lambda>i t s. Inl ''timeout'')\<rparr>"
  shows "\<exists>x y. snd (dispatch_batch store (\<lambda>q. None) sample_trigger_config t d [q]) = x \<and> xs_sent x = [qt_id q] \<and> xs_dispatched x = 0 \<and>
    snd (dispatch_batch store (\<lambda>q. None) sample_trigger_config t' d (xs_store x)) = y \<and> xs_sent y = [qt_id q]"
  by (simp add: dispatch_batch_def remaining_capacity_def dispatch_one_def store_def list_store_def sample_trigger_config_def Let_def)

end
