(* ===== verification/HealthFields.thy ===== *)
theory HealthFields
  imports CrmHealth DerivationGraph
begin

text \<open>
  \<open>app/health/health_field_analyzer.py\<close>: outliers, distribution and recommendations for one field.
  The square root \<open>fsqrt\<close> and \<open>math.log2\<close>, \<open>log2\<close>, are parameters. Reason texts are not modelled.
\<close>

section \<open>Outliers\<close>

record outlier =
  ol_field :: string
  ol_entity :: string
  ol_value :: pyval
  ol_z :: f64

definition detect_numeric_outliers :: "(rat \<Rightarrow> f64) \<Rightarrow> string \<Rightarrow> (string \<times> f64) list \<Rightarrow> f64 \<Rightarrow> outlier list" where
  "detect_numeric_outliers fsqrt field vals z_threshold =
     (let nums = map snd vals; mean = stat_mean nums; stdev = stat_stdev fsqrt nums; z = (\<lambda>v. \<bar>v - mean\<bar> / stdev) in
      if length vals < 5 \<or> \<bar>stdev\<bar> \<le> flt (1 / 10 ^ 12) then []
      else map (\<lambda>(e, v). \<lparr>ol_field = field, ol_entity = e, ol_value = PFloat v, ol_z = z v\<rparr>)
             (filter (\<lambda>(e, v). z_threshold \<le> z v) vals))"

definition normal_text :: "string \<Rightarrow> string" where
  "normal_text s = py_lower (py_strip s)"

definition group_values :: "(string \<times> string) list \<Rightarrow> (string, string list) dict" where
  "group_values vals = fold (\<lambda>(e, v) d. dset (normal_text v) (dget_or d (normal_text v) [] @ [e]) d) vals []"

definition rare :: "f64 \<Rightarrow> nat \<Rightarrow> nat \<Rightarrow> bool" where
  "rare min_frequency n k \<longleftrightarrow>
     int k \<le> max 1 (py_trunc (f_of_int (int n) * min_frequency)) \<and> of_nat k < to_rat (f_of_int (int n) * flt (1 / 20))"

definition detect_categorical_outliers :: "string \<Rightarrow> (string \<times> string) list \<Rightarrow> f64 \<Rightarrow> outlier list" where
  "detect_categorical_outliers field vals min_frequency =
     (if length vals < 10 then []
      else concat (map (\<lambda>(v, eids). if rare min_frequency (length vals) (length eids)
                                     then map (\<lambda>e. \<lparr>ol_field = field, ol_entity = e, ol_value = PStr v, ol_z = 0\<rparr>) eids else [])
                     (group_values vals)))"

section \<open>Distribution\<close>

record numeric_stats =
  ns_mean :: f64
  ns_median :: f64
  ns_stdev :: f64
  ns_min :: f64
  ns_max :: f64
  ns_p25 :: f64
  ns_p75 :: f64

record distribution =
  di_field :: string
  di_numeric :: bool
  di_count :: int
  di_null :: int
  di_fill :: f64
  di_stats :: "numeric_stats option"
  di_unique :: nat
  di_top :: "(string, nat) dict"
  di_entropy :: "f64 option"

definition stat_median :: "f64 list \<Rightarrow> f64" where
  "stat_median xs =
     (let s = sort xs; n = length xs in
      if odd n then s ! (n div 2) else (s ! (n div 2 - 1) + s ! (n div 2)) / f_of_int 2)"

definition numeric_stats_of :: "(rat \<Rightarrow> f64) \<Rightarrow> f64 list \<Rightarrow> numeric_stats" where
  "numeric_stats_of fsqrt nums =
     (let s = sort nums; n = length nums in
      \<lparr>ns_mean = stat_mean nums, ns_median = stat_median nums, ns_stdev = stat_stdev fsqrt nums,
       ns_min = Min (set nums), ns_max = Max (set nums),
       ns_p25 = (if 4 \<le> n then s ! (n div 4) else s ! 0), ns_p75 = (if 4 \<le> n then s ! ((3 * n) div 4) else s ! (n - 1))\<rparr>)"

definition entropy_of :: "(f64 \<Rightarrow> f64) \<Rightarrow> nat \<Rightarrow> nat list \<Rightarrow> f64" where
  "entropy_of log2 n counts =
     0 - py_sum (map (\<lambda>p. p * log2 p) (filter (\<lambda>p. 0 < p) (map (\<lambda>c. py_int_div (int c) (int n)) counts)))"

definition analyze_distribution ::
    "(rat \<Rightarrow> f64) \<Rightarrow> (f64 \<Rightarrow> f64) \<Rightarrow> string \<Rightarrow> pyval list \<Rightarrow> int \<Rightarrow> distribution" where
  "analyze_distribution fsqrt log2 field vals n_all =
     (let non_null = filter (\<lambda>v. v \<noteq> PNone) vals; n = length non_null;
          numeric = (list_all is_number (take 100 non_null) \<and> non_null \<noteq> []);
          base = \<lparr>di_field = field, di_numeric = numeric, di_count = n_all, di_null = n_all - int n,
                  di_fill = (if 0 < n_all then py_int_div (int n) n_all else 0), di_stats = None, di_unique = 0, di_top = [], di_entropy = None\<rparr>
      in if non_null = [] then base
         else if numeric then
           (let nums = map (\<lambda>v. safe_float v 0) non_null
            in base\<lparr>di_stats := Some (numeric_stats_of fsqrt nums), di_unique := card (set nums)\<rparr>)
         else
           (let freq = tally (map text_key non_null)
            in base\<lparr>di_unique := length freq, di_top := take 10 (sort_desc snd freq),
                    di_entropy := Some (entropy_of log2 n (map snd freq))\<rparr>))"

section \<open>Recommendations\<close>

definition field_action :: "health_action \<Rightarrow> string \<Rightarrow> f64 \<Rightarrow> recommended_action" where
  "field_action k f p = \<lparr>ra_kind = k, ra_field = Some f, ra_priority = p\<rparr>"

definition concentrated :: "distribution \<Rightarrow> bool" where
  "concentrated d \<longleftrightarrow>
     (case di_entropy d of None \<Rightarrow> False
      | Some h \<Rightarrow> \<not> di_numeric d \<and> \<not> (di_unique d \<le> 2 \<and> flt (4 / 5) < di_fill d) \<and> h < flt (1 / 2) \<and> 5 < di_unique d)"

definition recommend_field_actions :: "field_health \<Rightarrow> distribution \<Rightarrow> nat \<Rightarrow> recommended_action list" where
  "recommend_field_actions fh d outliers =
     sort_desc ra_priority
       ((if fh_fill fh < flt (1 / 2) then [field_action FillMissing (fh_field fh) (if fh_gate fh then 1 else flt (4 / 5))] else []) @
        (if fh_avg fh < flt (1 / 2) \<and> flt (3 / 10) < fh_fill fh then [field_action VerifyField (fh_field fh) (flt (3 / 4))] else []) @
        (if f_of_int 60 < fh_p50 fh then [field_action RefreshStale (fh_field fh) (flt (13 / 20))] else []) @
        (if 0 < outliers then [field_action FlagOutlier (fh_field fh) (flt (11 / 20))] else []) @
        (if concentrated d then [field_action VerifyField (fh_field fh) (flt (9 / 20))] else []))"

record diagnostic =
  dx_health :: field_health
  dx_distribution :: distribution
  dx_outliers :: "outlier list"
  dx_recommendations :: "recommended_action list"

definition run_field_diagnostic ::
    "(rat \<Rightarrow> f64) \<Rightarrow> (f64 \<Rightarrow> f64) \<Rightarrow> field_health \<Rightarrow> (string \<times> pyval) list \<Rightarrow> int \<Rightarrow> diagnostic" where
  "run_field_diagnostic fsqrt log2 fh vals n_all =
     (let d = analyze_distribution fsqrt log2 (fh_field fh) (map snd vals) n_all;
          non_null = filter (\<lambda>(e, v). v \<noteq> PNone) vals;
          outliers =
            (if di_numeric d
             then detect_numeric_outliers fsqrt (fh_field fh)
                    (map (\<lambda>(e, v). (e, safe_float v 0)) (filter (\<lambda>(e, v). is_number v) non_null)) (f_of_int 3)
             else detect_categorical_outliers (fh_field fh) (map (\<lambda>(e, v). (e, py_str v)) non_null) (flt (1 / 100)))
      in \<lparr>dx_health = fh, dx_distribution = d, dx_outliers = outliers,
          dx_recommendations = recommend_field_actions fh d (length outliers)\<rparr>)"

section \<open>Properties\<close>

lemma group_step: "dget_or (fold (\<lambda>(e, v) d. dset (normal_text v) (dget_or d (normal_text v) [] @ [e]) d) vals d) k [] =
  dget_or d k [] @ map fst (filter (\<lambda>(e, v). normal_text v = k) vals)"
  by (induction vals arbitrary: d) (auto simp: dget_or_simps)

lemma group_keys: "dict_ok d \<Longrightarrow> dict_ok (fold (\<lambda>(e, v) d. dset (normal_text v) (dget_or d (normal_text v) [] @ [e]) d) vals d)"
  by (induction vals arbitrary: d) (auto intro: alist.ok_put)

lemma group_members: "set (dkeys (fold (\<lambda>(e, v) d. dset (normal_text v) (dget_or d (normal_text v) [] @ [e]) d) vals d)) =
  set (dkeys d) \<union> (\<lambda>(e, v). normal_text v) ` set vals"
  by (induction vals arbitrary: d) (auto simp: keys_dset simp del: set_map)

lemma group_values_items:
  "set (group_values vals) = {(k, map fst (filter (\<lambda>(e, v). normal_text v = k) vals)) | k. k \<in> (\<lambda>(e, v). normal_text v) ` set vals}"
proof -
  let ?g = "group_values vals"
  have ok: "dict_ok ?g" unfolding group_values_def by (rule group_keys) simp
  have get: "dget_or ?g k [] = map fst (filter (\<lambda>(e, v). normal_text v = k) vals)" for k
    using group_step [of vals "[]" k] by (simp add: group_values_def dget_or_def)
  have keys: "set (dkeys ?g) = (\<lambda>(e, v). normal_text v) ` set vals"
    using group_members [of vals "[]"] by (simp add: group_values_def)
  have "(k, es) \<in> set ?g \<longleftrightarrow> k \<in> set (dkeys ?g) \<and> es = dget_or ?g k []" for k es
    using map_of_eq_Some_iff [OF ok, of k es] by (force simp: dget_or_def map_of_eq_None_iff split: option.split)
  then show ?thesis unfolding keys get by auto
qed

text \<open>
  \<open>detect_categorical_outliers\<close>. From ten values on, an entity is flagged with a value exactly when it has
  that value, up to case and outer blanks, and the number of entities that have it is at most the larger
  of 1 and the given share, and below five percent; below ten values nothing is flagged.
\<close>

theorem categorical_outliers_exact:
  "{(ol_entity o1, ol_value o1) | o1. o1 \<in> set (detect_categorical_outliers field vals freq)} =
     (if length vals < 10 then {}
      else {(e, PStr (normal_text v)) | e v. (e, v) \<in> set vals \<and>
              rare freq (length vals) (length (filter (\<lambda>(e', v'). normal_text v' = normal_text v) vals))})"
proof (cases "length vals < 10")
  case False
  let ?occ = "\<lambda>k. filter (\<lambda>(e, v). normal_text v = k) vals" and ?n = "length vals"
  have items: "(k, es) \<in> set (group_values vals) \<longleftrightarrow> (\<exists>e v. (e, v) \<in> set vals \<and> normal_text v = k) \<and> es = map fst (?occ k)" for k es
    by (force simp: group_values_items)
  have flagged: "o1 \<in> set (detect_categorical_outliers field vals freq) \<longleftrightarrow>
      (\<exists>(k, es) \<in> set (group_values vals). rare freq ?n (length es) \<and>
         (\<exists>e \<in> set es. o1 = \<lparr>ol_field = field, ol_entity = e, ol_value = PStr k, ol_z = 0\<rparr>))" for o1
    using False by (auto simp: detect_categorical_outliers_def split: if_splits)
  have "x \<in> {(ol_entity o1, ol_value o1) | o1. o1 \<in> set (detect_categorical_outliers field vals freq)} \<longleftrightarrow>
      (\<exists>(k, es) \<in> set (group_values vals). rare freq ?n (length es) \<and> (\<exists>e \<in> set es. x = (e, PStr k)))" for x
    unfolding mem_Collect_eq flagged by force
  also have "\<dots> x \<longleftrightarrow> (\<exists>e v. (e, v) \<in> set vals \<and> rare freq ?n (length (?occ (normal_text v))) \<and> x = (e, PStr (normal_text v)))" for x
  proof
    assume "\<exists>(k, es) \<in> set (group_values vals). rare freq ?n (length es) \<and> (\<exists>e \<in> set es. x = (e, PStr k))"
    then obtain k es e where k: "(k, es) \<in> set (group_values vals)" "rare freq ?n (length es)" "e \<in> set es" "x = (e, PStr k)" by blast
    from k(1) have es: "es = map fst (?occ k)" by (simp add: items)
    with k(3) obtain v where "(e, v) \<in> set vals" "normal_text v = k" by auto
    with k(2,4) es show "\<exists>e v. (e, v) \<in> set vals \<and> rare freq ?n (length (?occ (normal_text v))) \<and> x = (e, PStr (normal_text v))" by auto
  next
    assume "\<exists>e v. (e, v) \<in> set vals \<and> rare freq ?n (length (?occ (normal_text v))) \<and> x = (e, PStr (normal_text v))"
    then obtain e v where v: "(e, v) \<in> set vals" "rare freq ?n (length (?occ (normal_text v)))" "x = (e, PStr (normal_text v))" by blast
    then have "(normal_text v, map fst (?occ (normal_text v))) \<in> set (group_values vals)" by (auto simp: items)
    moreover have "e \<in> set (map fst (?occ (normal_text v)))" using v(1) by force
    ultimately show "\<exists>(k, es) \<in> set (group_values vals). rare freq ?n (length es) \<and> (\<exists>e \<in> set es. x = (e, PStr k))"
      using v(2,3) by (intro bexI [of _ "(normal_text v, map fst (?occ (normal_text v)))"]) simp_all
  qed
  finally show ?thesis using False by auto
qed (simp add: detect_categorical_outliers_def)

lemma nth_sort_mono: "i \<le> j \<Longrightarrow> j < length xs \<Longrightarrow> sort xs ! i \<le> sort xs ! j"
  by (simp add: sorted_nth_mono)

text \<open>The quartiles of a numeric field are values of it, in order, between minimum and maximum.\<close>

lemma quartiles_ordered:
  fixes fsqrt
  assumes "nums \<noteq> []"
  defines "s \<equiv> numeric_stats_of fsqrt nums"
  shows "ns_min s \<le> ns_p25 s \<and> ns_p25 s \<le> ns_p75 s \<and> ns_p75 s \<le> ns_max s \<and> {ns_p25 s, ns_p75 s} \<subseteq> set nums"
proof -
  let ?n = "length nums"
  obtain i j where ij: "i \<le> j" "j < ?n" "ns_p25 s = sort nums ! i" "ns_p75 s = sort nums ! j"
  proof (cases "4 \<le> ?n")
    case True
    show ?thesis by (rule that [of "?n div 4" "3 * ?n div 4"]) (use True in \<open>auto simp: s_def numeric_stats_of_def Let_def\<close>)
  next
    case False
    show ?thesis by (rule that [of 0 "?n - 1"]) (use False assms(1) in \<open>auto simp: s_def numeric_stats_of_def Let_def\<close>)
  qed
  have m: "sort nums ! i \<in> set nums" "sort nums ! j \<in> set nums"
    using ij(1,2) by (metis nth_mem length_sort set_sort le_less_trans)+
  then show ?thesis
    using ij nth_sort_mono [OF ij(1,2)] by (simp add: s_def numeric_stats_of_def Let_def)
qed

text \<open>
  Whether a field is numeric is decided on its first 100 values: a text behind them counts as the number 0
  in minimum, mean and median, while the outlier search leaves it out.
\<close>

lemma late_text_counts_as_zero:
  assumes "d = analyze_distribution fsqrt log2 field (replicate 100 (PInt 5) @ [PStr ''n/a'']) 101"
  shows "di_numeric d \<and> map_option ns_min (di_stats d) = Some 0"
proof -
  have t: "safe_float (PStr ''n/a'') 0 = 0" by code_simp
  have "Min (set (map (\<lambda>v. safe_float v 0) (replicate 100 (PInt 5) @ [PStr ''n/a'']))) = Min {f_of_int 5, 0}"
    using t by (simp add: safe_float_def [of "PInt 5"] insert_commute)
  also have "\<dots> = 0" using f_of_int_nonneg [of 5] by simp
  finally show ?thesis
    by (simp add: assms analyze_distribution_def numeric_stats_of_def Let_def list_all_iff)
qed

end
