(* ===== verification/CrmFieldScanner.thy ===== *)
theory CrmFieldScanner
  imports PyValue "HOL-Library.Product_Lexorder" "HOL-Library.Multiset"
begin

text \<open>
  \<open>app/services/crm_field_scanner.py\<close>: the fields of a customer's CRM against the properties of a domain
  specification (a dict of JSON values), the seed specification made from the match and the report on what
  is missing. The digest is the parameter \<open>h\<close>. A property name that is no text is reported when it is read,
  not when it is normalised; \<open>to_dict\<close> serialisations and the fixed sentences of the report are not modelled.
\<close>

datatype match_status = Matched | Unmapped | Missing

datatype impact_tier = GateCritical | ScoringCritical | InferenceInput | Enrichable | NiceToHave

record crm_field =
  cf_name :: string
  cf_type :: string
  cf_samples :: "pyval list"
  cf_fill :: "f64 option"
  cf_system :: "string option"
  cf_resource :: "string option"

record domain_property =
  dp_name :: string
  dp_type :: pyval
  dp_managed :: pyval
  dp_gate :: bool
  dp_scoring :: bool
  dp_input :: bool
  dp_output :: bool
  dp_derived :: pyval
  dp_description :: pyval

record field_mapping =
  fm_crm :: "string option"
  fm_property :: "string option"
  fm_status :: match_status
  fm_compatible :: bool
  fm_impact :: impact_tier
  fm_system :: "string option"
  fm_resource :: "string option"

record scan_result =
  sc_domain :: pyval
  sc_version :: pyval
  sc_crm_total :: nat
  sc_domain_total :: nat
  sc_matched :: "field_mapping list"
  sc_unmapped :: "field_mapping list"
  sc_missing :: "field_mapping list"
  sc_coverage :: f64
  sc_hash :: string

definition gate_critical_missing :: "scan_result \<Rightarrow> field_mapping list" where
  "gate_critical_missing r = filter (\<lambda>m. fm_impact m = GateCritical) (sc_missing r)"

definition scoring_critical_missing :: "scan_result \<Rightarrow> field_mapping list" where
  "scoring_critical_missing r = filter (\<lambda>m. fm_impact m = ScoringCritical) (sc_missing r)"

section \<open>Reading the specification\<close>

fun names_of :: "pyval list \<Rightarrow> string list" where
  "names_of [] = []"
| "names_of (PStr s # vs) = (if s = [] then names_of vs else s # names_of vs)"
| "names_of (_ # vs) = names_of vs"

definition collect_gate_fields :: "fields \<Rightarrow> pyerr + string list" where
  "collect_gate_fields spec =
     bind_res (py_iter (dget_or spec ''gates'' (PList []))) (\<lambda>gates.
     bind_res (map_res (\<lambda>g. map_res (\<lambda>k. py_get g k PNone) [''candidate_property'', ''candidate_prop'', ''query_param'']) gates) (\<lambda>vs.
       Inr (names_of (concat vs))))"

definition collect_scoring_fields :: "fields \<Rightarrow> pyerr + string list" where
  "collect_scoring_fields spec =
     bind_res (py_get (dget_or spec ''scoring'' (PDict [])) ''dimensions'' (PList [])) (\<lambda>dflt.
       Inr (case dget_or spec ''scoring_dimensions'' dflt of
              PList dims \<Rightarrow> concat (map (\<lambda>d. case d of
                  PDict e \<Rightarrow> names_of (map (\<lambda>k. dget_or e k PNone) [''candidate_property'', ''candidate_prop'', ''source''])
                | _ \<Rightarrow> []) dims)
            | _ \<Rightarrow> []))"

text \<open>The texts among the field names of one part of a rule; an unhashable name raises.\<close>

definition rule_fields :: "string \<Rightarrow> pyval \<Rightarrow> pyerr + string list" where
  "rule_fields part rule =
     bind_res (py_get rule part (PList [])) (\<lambda>v. bind_res (py_iter v) (\<lambda>items.
     bind_res (map_res (\<lambda>c. bind_res (py_get c ''field'' PNone) (\<lambda>f.
         case f of PList (x # xs) \<Rightarrow> Inl TypeError | PDict (x # xs) \<Rightarrow> Inl TypeError | _ \<Rightarrow> Inr f)) items) (\<lambda>fs. Inr (names_of fs))))"

definition collect_inference_fields :: "fields \<Rightarrow> pyerr + string list \<times> string list" where
  "collect_inference_fields spec =
     bind_res (py_iter (dget_or spec ''inference_rules'' (PList []))) (\<lambda>rules.
     bind_res (map_res (\<lambda>r. bind_res (rule_fields ''conditions'' r) (\<lambda>i. bind_res (rule_fields ''outputs'' r) (\<lambda>out. Inr (i, out)))) rules) (\<lambda>parts.
       Inr (concat (map fst parts), concat (map snd parts))))"

fun dicts_of :: "pyval list \<Rightarrow> fields list" where
  "dicts_of [] = []"
| "dicts_of (PDict d # vs) = d # dicts_of vs"
| "dicts_of (_ # vs) = dicts_of vs"

definition iter_node_defs :: "fields \<Rightarrow> pyerr + fields list" where
  "iter_node_defs spec =
     (case dget_or spec ''ontology'' (PDict spec) of
        PDict ont \<Rightarrow> Inr (case dget_or ont ''nodes'' (dget_or ont ''entities'' (PList [])) of
            PDict d \<Rightarrow> dicts_of (map snd d) | PList xs \<Rightarrow> dicts_of xs | _ \<Rightarrow> [])
      | _ \<Rightarrow> Inl AttributeError)"

record property_sets =
  ps_gates :: "string list"
  ps_scoring :: "string list"
  ps_inputs :: "string list"
  ps_outputs :: "string list"

definition parse_domain_property :: "property_sets \<Rightarrow> string \<Rightarrow> pyval \<Rightarrow> domain_property" where
  "parse_domain_property s name v =
     (let base = \<lparr>dp_name = name, dp_type = PStr (if truthy v then py_str v else ''string''), dp_managed = PNone,
            dp_gate = (name \<in> set (ps_gates s)), dp_scoring = (name \<in> set (ps_scoring s)), dp_input = (name \<in> set (ps_inputs s)),
            dp_output = (name \<in> set (ps_outputs s)), dp_derived = PList [], dp_description = PStr []\<rparr>
      in case v of
           PDict d \<Rightarrow> base\<lparr>dp_type := dget_or d ''type'' (PStr ''string''), dp_managed := dget_or d ''managed_by'' PNone,
             dp_derived := (let x = dget_or d ''derived_from'' (PList []) in if truthy x then x else PList []),
             dp_description := dget_or d ''description'' (PStr [])\<rparr>
         | _ \<Rightarrow> base)"

definition listed_property :: "property_sets \<Rightarrow> fields \<Rightarrow> pyerr + domain_property list" where
  "listed_property s d =
     (case dget_or d ''name'' (PStr []) of
        PStr n \<Rightarrow> Inr (if n = [] then [] else [parse_domain_property s n (PDict d)])
      | PList _ \<Rightarrow> Inl TypeError
      | PDict _ \<Rightarrow> Inl TypeError
      | v \<Rightarrow> if truthy v then Inl AttributeError else Inr [])"

definition props_from_node :: "property_sets \<Rightarrow> fields \<Rightarrow> pyerr + domain_property list" where
  "props_from_node s node =
     (case dget_or node ''properties'' (PDict []) of
        PDict d \<Rightarrow> Inr (map (\<lambda>(n, v). parse_domain_property s n v) d)
      | PList xs \<Rightarrow> bind_res (map_res (listed_property s) (dicts_of xs)) (\<lambda>ps. Inr (concat ps))
      | _ \<Rightarrow> Inr [])"

definition extract_domain_properties :: "fields \<Rightarrow> pyerr + domain_property list" where
  "extract_domain_properties spec =
     bind_res (collect_gate_fields spec) (\<lambda>gates.
     bind_res (collect_scoring_fields spec) (\<lambda>scoring.
     bind_res (collect_inference_fields spec) (\<lambda>(inputs, outputs).
     bind_res (iter_node_defs spec) (\<lambda>nodes.
     bind_res (map_res (props_from_node \<lparr>ps_gates = gates, ps_scoring = scoring, ps_inputs = inputs, ps_outputs = outputs\<rparr>) nodes) (\<lambda>ps.
       Inr (concat ps))))))"

section \<open>Names, types and impact\<close>

fun strip_prefix :: "string list \<Rightarrow> string \<Rightarrow> string" where
  "strip_prefix [] s = s"
| "strip_prefix (p # ps) s = (if take (length p) s = p then drop (length p) s else strip_prefix ps s)"

definition strip_char :: "char \<Rightarrow> string \<Rightarrow> string" where
  "strip_char c s = rev (dropWhile ((=) c) (rev (dropWhile ((=) c) s)))"

definition normalize_name :: "string \<Rightarrow> string" where
  "normalize_name name =
     strip_char CHR ''_'' (map (\<lambda>c. if c = CHR ''-'' \<or> c = CHR '' '' then CHR ''_'' else c)
       (strip_prefix [''x_'', ''custom_'', ''cf_'', ''c_'', ''__c''] (py_lower (py_strip name))))"

definition type_groups :: "string list list" where
  "type_groups =
     [[''float'', ''integer'', ''int'', ''number'', ''decimal'', ''double'', ''currency''],
      [''string'', ''text'', ''char'', ''varchar'', ''html'', ''selection''], [''bool'', ''boolean''],
      [''list'', ''array'', ''many2many'', ''one2many'', ''tags'']]"

definition type_compatible :: "string \<Rightarrow> pyval \<Rightarrow> pyerr + bool" where
  "type_compatible crm_type domain_type =
     (case domain_type of
        PStr t \<Rightarrow>
          (let a = py_strip (py_lower crm_type); b = py_strip (py_lower t) in
           Inr (a = b \<or> list_ex (\<lambda>g. a \<in> set g \<and> b \<in> set g) type_groups \<or> {a, b} \<subseteq> {''enum'', ''string'', ''selection''}))
      | _ \<Rightarrow> Inl AttributeError)"

definition is_computed :: "domain_property \<Rightarrow> bool" where
  "is_computed p \<longleftrightarrow> dp_managed p \<in> {PStr ''computed'', PStr ''derived'', PStr ''inference''}"

definition classify_impact :: "domain_property \<Rightarrow> impact_tier" where
  "classify_impact p =
     (if dp_gate p then GateCritical else if dp_scoring p then ScoringCritical else if dp_input p then InferenceInput
      else if is_computed p then NiceToHave else Enrichable)"

fun impact_rank :: "impact_tier \<Rightarrow> nat" where
  "impact_rank GateCritical = 1"
| "impact_rank ScoringCritical = 2"
| "impact_rank InferenceInput = 3"
| "impact_rank Enrichable = 4"
| "impact_rank NiceToHave = 5"

section \<open>The scan\<close>

definition domain_lookup :: "domain_property list \<Rightarrow> (string, domain_property) dict" where
  "domain_lookup ps = fold (\<lambda>p. dset (normalize_name (dp_name p)) p) ps []"

definition match_field :: "(string, domain_property) dict \<Rightarrow> crm_field \<Rightarrow> pyerr + field_mapping" where
  "match_field lookup f =
     (case dget lookup (normalize_name (cf_name f)) of
        None \<Rightarrow> Inr \<lparr>fm_crm = Some (cf_name f), fm_property = None, fm_status = Unmapped, fm_compatible = True, fm_impact = NiceToHave,
                    fm_system = cf_system f, fm_resource = cf_resource f\<rparr>
      | Some p \<Rightarrow> bind_res (type_compatible (cf_type f) (dp_type p)) (\<lambda>ok.
                  Inr \<lparr>fm_crm = Some (cf_name f), fm_property = Some (dp_name p), fm_status = Matched, fm_compatible = ok,
                       fm_impact = classify_impact p, fm_system = cf_system f, fm_resource = cf_resource f\<rparr>))"

definition missing_mapping :: "domain_property \<Rightarrow> field_mapping" where
  "missing_mapping p = \<lparr>fm_crm = None, fm_property = Some (dp_name p), fm_status = Missing, fm_compatible = True,
     fm_impact = classify_impact p, fm_system = None, fm_resource = None\<rparr>"

definition domain_meta :: "fields \<Rightarrow> fields option" where
  "domain_meta spec = (case dget_or spec ''domain'' (dget_or spec ''metadata'' (PDict [])) of PDict m \<Rightarrow> Some m | _ \<Rightarrow> None)"

definition domain_id_of :: "fields \<Rightarrow> pyval" where
  "domain_id_of spec =
     (case domain_meta spec of None \<Rightarrow> PStr ''unknown''
      | Some m \<Rightarrow> (let i = dget_or m ''id'' (PStr []) in if truthy i then i else dget_or m ''name'' (PStr ''unknown'')))"

definition domain_version_of :: "fields \<Rightarrow> pyval" where
  "domain_version_of spec =
     (case domain_meta spec of None \<Rightarrow> PStr ''0.0.0'' | Some m \<Rightarrow> dget_or m ''version'' (PStr ''0.0.0''))"

definition text_or :: "string option \<Rightarrow> string" where
  "text_or s = (case s of None \<Rightarrow> [] | Some t \<Rightarrow> t)"

definition field_identity :: "crm_field \<Rightarrow> string \<times> string \<times> string \<times> string" where
  "field_identity f = (text_or (cf_system f), text_or (cf_resource f), cf_name f, cf_type f)"

definition repr_identity :: "string \<times> string \<times> string \<times> string \<Rightarrow> string" where
  "repr_identity i = (case i of (a, b, c, d) \<Rightarrow> ''('' @ join '', '' (map repr_str [a, b, c, d]) @ '')'')"

definition scan_input :: "pyval \<Rightarrow> pyval \<Rightarrow> crm_field list \<Rightarrow> string" where
  "scan_input i v fs = py_str i @ '':'' @ py_str v @ '':['' @ join '', '' (map repr_identity (sort (map field_identity fs))) @ '']''"

definition scan_crm_fields :: "(string \<Rightarrow> string) \<Rightarrow> crm_field list \<Rightarrow> fields \<Rightarrow> pyerr + scan_result" where
  "scan_crm_fields h fs spec =
     bind_res (extract_domain_properties spec) (\<lambda>ps.
       let lookup = domain_lookup ps; i = domain_id_of spec; v = domain_version_of spec in
       bind_res (map_res (match_field lookup) fs) (\<lambda>ms.
         let covered = map (\<lambda>f. normalize_name (cf_name f)) fs;
             matched_keys = filter (\<lambda>k. k \<in> set covered) (dkeys lookup)
         in Inr
           \<lparr>sc_domain = i, sc_version = v, sc_crm_total = length fs, sc_domain_total = length ps,
            sc_matched = filter (\<lambda>m. fm_status m = Matched) ms, sc_unmapped = filter (\<lambda>m. fm_status m = Unmapped) ms,
            sc_missing = sort_key (\<lambda>m. impact_rank (fm_impact m))
              (map (\<lambda>kp. missing_mapping (snd kp)) (filter (\<lambda>kp. fst kp \<notin> set covered) lookup)),
            sc_coverage = py_round 4 (if ps \<noteq> [] then py_int_div (int (length matched_keys)) (int (length ps)) else 0),
            sc_hash = take 16 (h (scan_input i v fs))\<rparr>))"

section \<open>Seed specification and report\<close>

definition seed_property :: "(string, domain_property) dict \<Rightarrow> string \<Rightarrow> pyval" where
  "seed_property template name =
     PDict ((''name'', PStr name) #
       (case dget template (normalize_name name) of
          None \<Rightarrow> [(''type'', PStr ''string'')]
        | Some tp \<Rightarrow> (''type'', dp_type tp) # (if truthy (dp_managed tp) then [(''managed_by'', dp_managed tp)] else []) @
            (if truthy (dp_description tp) then [(''description'', dp_description tp)] else [])))"

fun property_names :: "field_mapping list \<Rightarrow> string list" where
  "property_names [] = []"
| "property_names (m # ms) = (case fm_property m of Some (c # cs) \<Rightarrow> (c # cs) # property_names ms | _ \<Rightarrow> property_names ms)"

definition generate_seed_yaml :: "scan_result \<Rightarrow> fields \<Rightarrow> pyerr + fields" where
  "generate_seed_yaml r template =
     bind_res (extract_domain_properties template) (\<lambda>tps.
       let seeds = map (seed_property (domain_lookup tps)) (property_names (sc_matched r));
           base_id = (case domain_meta template of None \<Rightarrow> sc_domain r | Some m \<Rightarrow> dget_or m ''id'' (sc_domain r))
       in Inr
         [(''domain'', PDict [(''id'', PStr (''customer-'' @ py_str base_id)), (''name'', base_id), (''version'', PStr ''0.1.0-seed'')]),
          (''ontology'', PDict [(''nodes'', PList [PDict [(''label'', PStr ''Partner''), (''properties'', PList seeds)]])])])"

datatype acquisition = ByInference | ByEnrichment

record report_entry =
  re_field :: string
  re_type :: pyval
  re_impact :: impact_tier
  re_rank :: nat
  re_description :: pyval
  re_method :: acquisition

record discovery_report =
  dr_domain :: pyval
  dr_customer :: nat
  dr_fields :: nat
  dr_coverage_pct :: f64
  dr_entries :: "report_entry list"
  dr_gate_blocked :: nat
  dr_scoring_degraded :: nat
  dr_inference_blocked :: nat
  dr_cost :: f64
  dr_hash :: string

definition acquisition_method :: "domain_property \<Rightarrow> acquisition" where
  "acquisition_method p = (if is_computed p \<or> dp_output p then ByInference else ByEnrichment)"

definition bare_property :: "string \<Rightarrow> domain_property" where
  "bare_property n = \<lparr>dp_name = n, dp_type = PStr ''string'', dp_managed = PNone, dp_gate = False, dp_scoring = False,
     dp_input = False, dp_output = False, dp_derived = PList [], dp_description = PStr []\<rparr>"

fun report_entries :: "(string, domain_property) dict \<Rightarrow> nat \<Rightarrow> field_mapping list \<Rightarrow> report_entry list" where
  "report_entries lookup rank [] = []"
| "report_entries lookup rank (m # ms) =
     (case fm_property m of
        Some (c # cs) \<Rightarrow>
          (let name = c # cs;
               p = (case dget lookup (normalize_name name) of None \<Rightarrow> bare_property name | Some p \<Rightarrow> p)
           in \<lparr>re_field = name, re_type = dp_type p, re_impact = fm_impact m, re_rank = rank,
               re_description = (if truthy (dp_description p) then dp_description p else PStr (''Domain property: '' @ dp_name p)),
               re_method = acquisition_method p\<rparr> # report_entries lookup (rank + 1) ms)
      | _ \<Rightarrow> report_entries lookup (rank + 1) ms)"

definition count_impact :: "impact_tier \<Rightarrow> report_entry list \<Rightarrow> nat" where
  "count_impact t es = length (filter (\<lambda>e. re_impact e = t) es)"

definition generate_discovery_report :: "(string \<Rightarrow> string) \<Rightarrow> scan_result \<Rightarrow> fields \<Rightarrow> int \<Rightarrow> pyerr + discovery_report" where
  "generate_discovery_report h r spec entity_count =
     bind_res (extract_domain_properties spec) (\<lambda>ps.
       let es = report_entries (domain_lookup ps) 1 (sc_missing r);
           enrichable = int (length (filter (\<lambda>e. re_method e = ByEnrichment) es));
           cost = f_of_int (enrichable * entity_count * 500) * flt (5 / 1000) / f_of_int 1000
       in Inr
         \<lparr>dr_domain = sc_domain r, dr_customer = sc_crm_total r, dr_fields = sc_domain_total r,
          dr_coverage_pct = py_round 1 (sc_coverage r * f_of_int 100), dr_entries = es,
          dr_gate_blocked = count_impact GateCritical es, dr_scoring_degraded = count_impact ScoringCritical es,
          dr_inference_blocked = count_impact InferenceInput es, dr_cost = py_round 2 cost,
          dr_hash = take 16 (h (sc_hash r @ '':'' @ str_int (int (length es)) @ '':'' @ str_int entity_count))\<rparr>)"

section \<open>Laws of the scan\<close>

lemma domain_lookup_keys: "set (dkeys (domain_lookup ps)) = (\<lambda>p. normalize_name (dp_name p)) ` set ps"
proof -
  have "set (dkeys (fold (\<lambda>p. dset (normalize_name (dp_name p)) p) ps d)) = set (dkeys d) \<union> (\<lambda>p. normalize_name (dp_name p)) ` set ps" for d
    by (induction ps arbitrary: d) (auto simp: keys_dset simp del: set_map)
  from this [of "[]"] show ?thesis by (simp add: domain_lookup_def)
qed


lemma domain_lookup_name: "dget (domain_lookup ps) k = Some p \<Longrightarrow> p \<in> set ps \<and> normalize_name (dp_name p) = k"
proof -
  have "dget (fold (\<lambda>p. dset (normalize_name (dp_name p)) p) ps d) k = Some p \<Longrightarrow>
      (p \<in> set ps \<and> normalize_name (dp_name p) = k) \<or> dget d k = Some p" for d
  proof (induction ps arbitrary: d)
    case (Cons q ps)
    from Cons.IH [of "dset (normalize_name (dp_name q)) q d"] Cons.prems show ?case by (auto simp: dget_dset split: if_splits)
  qed simp
  from this [of "[]"] show "dget (domain_lookup ps) k = Some p \<Longrightarrow> p \<in> set ps \<and> normalize_name (dp_name p) = k"
    by (simp add: domain_lookup_def)
qed


lemma match_field_cases:
  assumes "match_field lookup f = Inr m"
  shows "fm_crm m = Some (cf_name f) \<and> fm_system m = cf_system f \<and> fm_resource m = cf_resource f \<and>
    (case dget lookup (normalize_name (cf_name f)) of
       None \<Rightarrow> fm_status m = Unmapped \<and> fm_property m = None
     | Some p \<Rightarrow> fm_status m = Matched \<and> fm_property m = Some (dp_name p) \<and> fm_impact m = classify_impact p)"
  using assms by (auto simp: match_field_def bind_res_Inr_iff split: option.splits)

lemma scan_parts:
  assumes "scan_crm_fields h fs spec = Inr r"
  obtains ps ms where "extract_domain_properties spec = Inr ps" "map_res (match_field (domain_lookup ps)) fs = Inr ms"
    "sc_matched r = filter (\<lambda>m. fm_status m = Matched) ms" "sc_unmapped r = filter (\<lambda>m. fm_status m = Unmapped) ms"
    "sc_missing r = sort_key (\<lambda>m. impact_rank (fm_impact m)) (map (\<lambda>kp. missing_mapping (snd kp))
       (filter (\<lambda>kp. fst kp \<notin> (\<lambda>f. normalize_name (cf_name f)) ` set fs) (domain_lookup ps)))"
    "sc_coverage r = py_round 4 (if ps \<noteq> [] then py_int_div
       (int (length (filter (\<lambda>k. k \<in> (\<lambda>f. normalize_name (cf_name f)) ` set fs) (dkeys (domain_lookup ps))))) (int (length ps)) else 0)"
    "sc_domain_total r = length ps" "sc_crm_total r = length fs" "sc_domain r = domain_id_of spec"
  using assms that by (auto simp: scan_crm_fields_def bind_res_Inr_iff Let_def)

lemma matched_or_unmapped: "match_field lookup f = Inr m \<Longrightarrow> fm_status m = Matched \<or> fm_status m = Unmapped"
  using match_field_cases [of lookup f m] by (auto split: option.splits)



lemma matched_each:
  assumes "map_res (match_field lk) fs = Inr ms" and "m \<in> set ms"
  shows "\<exists>f \<in> set fs. match_field lk f = Inr m"
  using assms by (auto simp: map_res_Inr list_all2_conv_all_nth in_set_conv_nth) (metis nth_mem)








lemma parse_name [simp]: "dp_name (parse_domain_property s n v) = n"
  by (simp add: parse_domain_property_def Let_def split: pyval.split)












definition sample_spec :: fields where
  "sample_spec = [(''domain'', PDict [(''id'', PStr ''plastics'')]),
     (''gates'', PList [PDict [(''candidate_property'', PStr ''polymer'')]]),
     (''ontology'', PDict [(''nodes'', PList [PDict [(''label'', PStr ''Partner''),
        (''properties'', PDict [(''polymer'', PStr ''string''), (''city'', PDict [(''type'', PStr ''text'')])])]])])]"

definition sample_crm :: "crm_field list" where
  "sample_crm = [\<lparr>cf_name = ''x_City'', cf_type = ''string'', cf_samples = [], cf_fill = None, cf_system = None, cf_resource = None\<rparr>]"

lemma sample_scan: "\<exists>r. scan_crm_fields (\<lambda>s. s) sample_crm sample_spec = Inr r"
proof -
  have "normalize_name ''x_City'' = ''city''" "normalize_name ''city'' = ''city''" "normalize_name ''polymer'' = ''polymer''" by code_simp+
  then show ?thesis
    by (simp add: scan_crm_fields_def extract_domain_properties_def collect_gate_fields_def collect_scoring_fields_def
        collect_inference_fields_def iter_node_defs_def sample_spec_def sample_crm_def dget_or_def py_get_def props_from_node_def
        parse_domain_property_def domain_lookup_def match_field_def type_compatible_def Let_def)
qed


text \<open>
  Coverage is the share of the declared properties, not of the distinct ones: with a property in two nodes a
  customer who has every field is told that half is missing. And the Salesforce suffix \<open>__c\<close> is only removed
  where it is a prefix.
\<close>

definition repeated_spec :: fields where
  "repeated_spec = [(''nodes'', PList [PDict [(''properties'', PDict [(''city'', PNone)])], PDict [(''properties'', PDict [(''city'', PNone)])]])]"

lemma full_coverage_is_half:
  "\<exists>r. scan_crm_fields h sample_crm repeated_spec = Inr r \<and> sc_missing r = [] \<and> sc_unmapped r = [] \<and> sc_coverage r = py_round 4 (py_int_div 1 2)"
proof -
  have "normalize_name ''x_City'' = ''city''" "normalize_name ''city'' = ''city''" by code_simp+
  then show ?thesis
    by (simp add: scan_crm_fields_def extract_domain_properties_def collect_gate_fields_def collect_scoring_fields_def
        collect_inference_fields_def iter_node_defs_def repeated_spec_def sample_crm_def dget_or_def py_get_def props_from_node_def
        parse_domain_property_def domain_lookup_def match_field_def type_compatible_def Let_def)
qed

lemma salesforce_suffix_kept: "normalize_name ''Polymer__c'' = ''polymer__c''"
  by code_simp

section \<open>Scanning the seed\<close>

definition no_sets :: property_sets where
  "no_sets = \<lparr>ps_gates = [], ps_scoring = [], ps_inputs = [], ps_outputs = []\<rparr>"

definition seed_parsed :: "(string, domain_property) dict \<Rightarrow> string \<Rightarrow> domain_property" where
  "seed_parsed template n = parse_domain_property no_sets n (seed_property template n)"

lemma seed_parsed_parts:
  "dp_name (seed_parsed t n) = n"
  "dget t (normalize_name n) = Some p \<Longrightarrow> dp_type (seed_parsed t n) = dp_type p"
  by (simp_all add: seed_parsed_def parse_domain_property_def seed_property_def Let_def dget_or_def split: option.split)

lemma property_names_in: "n \<in> set (property_names ms) \<longleftrightarrow> n \<noteq> [] \<and> (\<exists>m \<in> set ms. fm_property m = Some n)"
  by (induction ms rule: property_names.induct) (auto split: option.splits list.splits)

lemma seed_listed:
  assumes "[] \<notin> set names"
  shows "map_res (listed_property no_sets) (dicts_of (map (seed_property t) names)) = Inr (map (\<lambda>n. [seed_parsed t n]) names)"
  using assms by (induction names) (auto simp: seed_property_def listed_property_def seed_parsed_def dget_or_def split: option.split)

lemma seed_extract:
  assumes "[] \<notin> set names"
  shows "extract_domain_properties
     [(''domain'', x), (''ontology'', PDict [(''nodes'', PList [PDict [(''label'', l), (''properties'', PList (map (seed_property t) names))]])])] =
     Inr (map (seed_parsed t) names)"
  using seed_listed [OF assms, of t]
  by (simp add: extract_domain_properties_def collect_gate_fields_def collect_scoring_fields_def collect_inference_fields_def
      iter_node_defs_def dget_or_def py_get_def props_from_node_def no_sets_def [symmetric])

lemma seed_keys: "set (dkeys (domain_lookup (map (seed_parsed t) names))) = normalize_name ` set names"
proof -
  have "(\<lambda>p. normalize_name (dp_name p)) ` set (map (seed_parsed t) names) = normalize_name ` set names"
    by (simp add: image_image seed_parsed_parts(1))
  then show ?thesis using domain_lookup_keys by metis
qed

definition mapping_core :: "field_mapping \<Rightarrow> string option \<times> string option \<times> match_status \<times> bool" where
  "mapping_core m = (fm_crm m, fm_property m, fm_status m, fm_compatible m)"

lemma rematch:
  assumes "match_field (domain_lookup ps) f = Inr m"
    and names: "\<And>n. n \<in> set names \<Longrightarrow> \<exists>p. dget (domain_lookup ps) (normalize_name n) = Some p \<and> dp_name p = n"
    and here: "\<And>n. fm_property m = Some n \<Longrightarrow> n \<in> set names"
  shows "\<exists>m'. match_field (domain_lookup (map (seed_parsed (domain_lookup ps)) names)) f = Inr m' \<and> mapping_core m' = mapping_core m \<and>
    (fm_status m = Unmapped \<longrightarrow> m' = m)"
proof -
  let ?lk = "domain_lookup ps" and ?k = "normalize_name (cf_name f)"
  let ?lk' = "domain_lookup (map (seed_parsed ?lk) names)"
  have new: "\<exists>q. dp_name p' = dp_name q \<and> dp_type p' = dp_type q \<and> dget ?lk k = Some q" if "dget ?lk' k = Some p'" for k p'
  proof -
    from domain_lookup_name [OF that] obtain n where n: "n \<in> set names" "p' = seed_parsed ?lk n" "normalize_name n = k"
      by (auto simp: seed_parsed_parts)
    from names [OF n(1)] obtain q where q: "dget ?lk (normalize_name n) = Some q" "dp_name q = n" by blast
    with n seed_parsed_parts(2) [OF q(1)] show ?thesis by (auto simp: seed_parsed_parts(1))
  qed
  show ?thesis
  proof (cases "dget ?lk ?k")
    case None
    with new have "dget ?lk' ?k = None" by (metis option.exhaust option.distinct(1))
    with None assms(1) show ?thesis by (auto simp: match_field_def)
  next
    case (Some p)
    from match_field_cases [OF assms(1)] Some have m: "fm_property m = Some (dp_name p)" by simp
    have key: "normalize_name (dp_name p) = ?k" using domain_lookup_name [OF Some] by blast
    have "?k \<in> set (dkeys ?lk')"
      unfolding seed_keys using here [OF m] key by (metis image_eqI)
    then obtain p' where p': "dget ?lk' ?k = Some p'" by (metis dmem_iff dmem_def not_None_eq)
    from new [OF p'] Some have "dp_name p' = dp_name p" "dp_type p' = dp_type p" by auto
    with assms(1) Some p' show ?thesis
      by (auto simp: match_field_def mapping_core_def bind_res_Inr_iff)
  qed
qed

lemma named_at:
  assumes "map_res (match_field (domain_lookup ps)) fs = Inr ms" and "n \<in> set (property_names (filter (\<lambda>m. fm_status m = Matched) ms))"
  obtains i p where "i < length fs" "fm_property (ms ! i) = Some n"
    "dget (domain_lookup ps) (normalize_name (cf_name (fs ! i))) = Some p" "dp_name p = n"
    "normalize_name n = normalize_name (cf_name (fs ! i))"
proof -
  have len: "length ms = length fs" using assms(1) by (simp add: map_res_Inr list_all2_lengthD)
  obtain m where "m \<in> set ms" "fm_property m = Some n" using assms(2) by (auto simp: property_names_in)
  then obtain i where i: "i < length fs" "fm_property (ms ! i) = Some n" using len by (metis in_set_conv_nth)
  have "match_field (domain_lookup ps) (fs ! i) = Inr (ms ! i)"
    using assms(1) i(1) by (auto simp: map_res_Inr list_all2_conv_all_nth)
  from match_field_cases [OF this] i(2) obtain p where p: "dget (domain_lookup ps) (normalize_name (cf_name (fs ! i))) = Some p" "dp_name p = n"
    by (auto split: option.splits)
  with domain_lookup_name [OF p(1)] show ?thesis using i by (auto intro: that)
qed

lemma named_here:
  assumes "map_res (match_field lk) fs = Inr ms" and "m \<in> set ms" "fm_property m = Some n" and "n \<noteq> []"
  shows "n \<in> set (property_names (filter (\<lambda>m. fm_status m = Matched) ms))"
proof -
  obtain f where "match_field lk f = Inr m" using matched_each [OF assms(1,2)] by blast
  from match_field_cases [OF this] assms(3) have "fm_status m = Matched" by (auto split: option.splits)
  then show ?thesis using assms(2-4) by (auto simp: property_names_in)
qed

lemma rematch_all:
  assumes ms: "map_res (match_field (domain_lookup ps)) fs = Inr ms"
    and ne: "\<forall>m \<in> set (filter (\<lambda>m. fm_status m = Matched) ms). fm_property m \<noteq> Some []"
  defines "names \<equiv> property_names (filter (\<lambda>m. fm_status m = Matched) ms)"
  shows "\<exists>ms'. map_res (match_field (domain_lookup (map (seed_parsed (domain_lookup ps)) names))) fs = Inr ms' \<and>
    list_all2 (\<lambda>m' m. mapping_core m' = mapping_core m \<and> (fm_status m = Unmapped \<longrightarrow> m' = m)) ms' ms"
proof -
  let ?lk' = "domain_lookup (map (seed_parsed (domain_lookup ps)) names)"
  let ?same = "\<lambda>m' m. mapping_core m' = mapping_core m \<and> (fm_status m = Unmapped \<longrightarrow> m' = m)"
  have len: "length ms = length fs" using ms by (simp add: map_res_Inr list_all2_lengthD)
  have names: "\<exists>p. dget (domain_lookup ps) (normalize_name n) = Some p \<and> dp_name p = n" if "n \<in> set names" for n
    using that unfolding names_def by (rule named_at [OF ms]) auto
  have "\<exists>m'. match_field ?lk' (fs ! i) = Inr m' \<and> ?same m' (ms ! i)" if i: "i < length fs" for i
  proof -
    have f: "match_field (domain_lookup ps) (fs ! i) = Inr (ms ! i)" using ms i by (auto simp: map_res_Inr list_all2_conv_all_nth)
    have "n \<in> set names" if n: "fm_property (ms ! i) = Some n" for n
    proof -
      have "fm_status (ms ! i) = Matched" using match_field_cases [OF f] n by (auto split: option.splits)
      then have "n \<noteq> []" using ne n i len by auto
      with named_here [OF ms _ n] i len show ?thesis by (auto simp: names_def)
    qed
    from rematch [OF f names this] show ?thesis by blast
  qed
  then obtain g where "\<And>i. i < length fs \<Longrightarrow> match_field ?lk' (fs ! i) = Inr (g i) \<and> ?same (g i) (ms ! i)" by metis
  then show ?thesis
    using len by (intro exI [of _ "map g [0..<length fs]"]) (auto simp: map_res_Inr list_all2_conv_all_nth)
qed

lemma same_filters:
  "list_all2 (\<lambda>m' m. mapping_core m' = mapping_core m \<and> (fm_status m = Unmapped \<longrightarrow> m' = m)) ms' ms \<Longrightarrow>
   map mapping_core (filter (\<lambda>m. fm_status m = Matched) ms') = map mapping_core (filter (\<lambda>m. fm_status m = Matched) ms) \<and>
   filter (\<lambda>m. fm_status m = Unmapped) ms' = filter (\<lambda>m. fm_status m = Unmapped) ms"
  by (induction rule: list_all2_induct) (auto simp: mapping_core_def)

text \<open>
  \<open>generate_seed_yaml\<close> and \<open>scan_crm_fields\<close>. The seed specification made from a scan is complete for the same
  CRM fields: scanning them against it succeeds, misses nothing, matches the same fields to the same
  properties with the same verdict on their types, and leaves the same fields unmapped. (A property with an
  empty name is left out of the seed, so no matched field may have one.)
\<close>

theorem seed_rescan_complete:
  assumes "scan_crm_fields h fs spec = Inr r" and "generate_seed_yaml r spec = Inr seed"
    and "\<forall>m \<in> set (sc_matched r). fm_property m \<noteq> Some []"
  shows "\<exists>r'. scan_crm_fields h fs seed = Inr r' \<and> sc_missing r' = [] \<and> sc_unmapped r' = sc_unmapped r \<and>
    map mapping_core (sc_matched r') = map mapping_core (sc_matched r)"
proof -
  from assms(1) obtain ps ms where parts: "extract_domain_properties spec = Inr ps" "map_res (match_field (domain_lookup ps)) fs = Inr ms"
    "sc_matched r = filter (\<lambda>m. fm_status m = Matched) ms" "sc_unmapped r = filter (\<lambda>m. fm_status m = Unmapped) ms"
    by (rule scan_parts)
  let ?names = "property_names (sc_matched r)"
  let ?ps = "map (seed_parsed (domain_lookup ps)) ?names"
  have "[] \<notin> set ?names" by (simp add: property_names_in)
  then have ext: "extract_domain_properties seed = Inr ?ps"
    using assms(2) parts(1) seed_extract by (auto simp: generate_seed_yaml_def Let_def)
  obtain ms' where ms': "map_res (match_field (domain_lookup ?ps)) fs = Inr ms'"
    and same: "list_all2 (\<lambda>m' m. mapping_core m' = mapping_core m \<and> (fm_status m = Unmapped \<longrightarrow> m' = m)) ms' ms"
    using rematch_all [OF parts(2)] assms(3) unfolding parts(3) by blast
  have covered: "k \<in> (\<lambda>f. normalize_name (cf_name f)) ` set fs" if k: "k \<in> set (dkeys (domain_lookup ?ps))" for k
  proof -
    from k obtain n where n: "n \<in> set ?names" "k = normalize_name n" unfolding seed_keys by blast
    from n(1) obtain i where "i < length fs" "normalize_name n = normalize_name (cf_name (fs ! i))"
      unfolding parts(3) by (rule named_at [OF parts(2)])
    with n(2) show ?thesis by auto
  qed
  obtain r' where r': "scan_crm_fields h fs seed = Inr r'" using ext ms' by (simp add: scan_crm_fields_def Let_def)
  then obtain ps' mt where p': "extract_domain_properties seed = Inr ps'" "map_res (match_field (domain_lookup ps')) fs = Inr mt"
    "sc_matched r' = filter (\<lambda>m. fm_status m = Matched) mt" "sc_unmapped r' = filter (\<lambda>m. fm_status m = Unmapped) mt"
    "sc_missing r' = sort_key (\<lambda>m. impact_rank (fm_impact m)) (map (\<lambda>kp. missing_mapping (snd kp))
       (filter (\<lambda>kp. fst kp \<notin> (\<lambda>f. normalize_name (cf_name f)) ` set fs) (domain_lookup ps')))"
    by (rule scan_parts)
  then have e: "ps' = ?ps" "mt = ms'" using ext ms' by auto
  have "filter (\<lambda>kp. fst kp \<notin> (\<lambda>f. normalize_name (cf_name f)) ` set fs) (domain_lookup ps') = []"
    using covered e(1) by (auto simp: filter_empty_conv)
  then have "sc_missing r' = []" using p'(5) by simp
  with r' same_filters [OF same] p'(3,4) e parts(3,4) show ?thesis by auto
qed

theorem seed_rescan_complete_witness:
  "\<exists>r seed r'. scan_crm_fields (\<lambda>s. s) sample_crm sample_spec = Inr r \<and> generate_seed_yaml r sample_spec = Inr seed \<and>
     scan_crm_fields (\<lambda>s. s) sample_crm seed = Inr r' \<and> sc_missing r' = []"
proof -
  have n: "normalize_name ''x_City'' = ''city''" "normalize_name ''city'' = ''city''" "normalize_name ''polymer'' = ''polymer''" by code_simp+
  obtain r where r: "scan_crm_fields (\<lambda>s. s) sample_crm sample_spec = Inr r" using sample_scan by blast
  then have m: "map fm_property (sc_matched r) = [Some ''city'']"
    using n by (auto simp: scan_crm_fields_def extract_domain_properties_def collect_gate_fields_def collect_scoring_fields_def
        collect_inference_fields_def iter_node_defs_def sample_spec_def sample_crm_def dget_or_def py_get_def props_from_node_def
        parse_domain_property_def domain_lookup_def match_field_def type_compatible_def Let_def)
  then have ne: "\<forall>m \<in> set (sc_matched r). fm_property m \<noteq> Some []" by (cases "sc_matched r") auto
  obtain ps where "extract_domain_properties sample_spec = Inr ps" using r by (rule scan_parts)
  then obtain seed where y: "generate_seed_yaml r sample_spec = Inr seed" by (auto simp: generate_seed_yaml_def Let_def)
  from seed_rescan_complete [OF r y ne] r y show ?thesis by blast
qed

end
