(* ===== verification/SchemaProposer.thy ===== *)
theory SchemaProposer
  imports PyNumbers Voting DerivationGraph "HOL-Library.Product_Lexorder"
begin

text \<open>
  \<open>app/engines/convergence/schema_proposer.py\<close>: fields discovered over a batch become proposals for the domain
  specification, and approved proposals are merged into it. A confidence argument is an object with entries
  (\<open>ConfObject\<close>) or a JSON value. \<open>pick\<close> is the element a set iterator yields first, \<open>fsqrt\<close> the rounded
  square root. The text of the diff, rationales and log lines are not modelled; a model that refuses a value
  raises, which is \<open>Inl ValueError\<close>.
\<close>

datatype confidences = ConfObject "(string \<times> f64) list" | ConfValue pyval

record batch_entry =
  be_fields :: pyval
  be_confidences :: confidences

datatype value_distribution =
    NoDistribution
  | NumericRange f64 f64 f64 f64
  | TopValues "(string \<times> nat) list"
  | TruePct f64

record field_proposal =
  fp_name :: string
  fp_type :: string
  fp_source :: string
  fp_fill :: f64
  fp_confidence :: f64
  fp_samples :: "pyval list"
  fp_distribution :: value_distribution
  fp_entities :: nat

record gate_proposal =
  gp_name :: string
  gp_type :: string
  gp_distinct :: nat

record scoring_proposal =
  sp_name :: string
  sp_type :: string
  sp_min :: f64
  sp_max :: f64
  sp_mean :: f64
  sp_stddev :: f64

record proposal_set =
  pr_domain :: string
  pr_fields :: "field_proposal list"
  pr_gates :: "gate_proposal list"
  pr_dims :: "scoring_proposal list"
  pr_version :: string
  pr_entities :: nat

record field_acc =
  fa_total :: nat
  fa_non_null :: nat
  fa_values :: "pyval list"
  fa_confidences :: "f64 list"
  fa_sources :: "pyval list"

definition new_acc :: field_acc where
  "new_acc = \<lparr>fa_total = 0, fa_non_null = 0, fa_values = [], fa_confidences = [], fa_sources = []\<rparr>"

section \<open>Names\<close>

definition banned_field_names :: "string list" where
  "banned_field_names =
     [''packetid'', ''packetID'', ''packettype'', ''packetType'', ''contentHash'', ''content_hash_sha256'', ''threadId'', ''threadID'',
      ''traceId'', ''traceID'', ''parentIds'', ''sourceNode'', ''onBehalfOf'', ''orgId'', ''orgID'', ''matchentities'', ''nodelabels'',
      ''matchdirections'', ''candidateprop'', ''null_semantics'', ''computation_type'', ''targetnode'', ''idproperty'']"

definition is_small :: "char \<Rightarrow> bool" where
  "is_small c \<longleftrightarrow> 97 \<le> code c \<and> code c \<le> 122"

definition is_snake_char :: "char \<Rightarrow> bool" where
  "is_snake_char c \<longleftrightarrow> is_small c \<or> (48 \<le> code c \<and> code c \<le> 57) \<or> c = CHR ''_''"

definition is_canonical_field_name :: "string \<Rightarrow> bool" where
  "is_canonical_field_name name \<longleftrightarrow> name \<notin> set banned_field_names \<and>
     (case name of [] \<Rightarrow> False | c # cs \<Rightarrow> is_small c \<and> list_all is_snake_char cs)"

section \<open>Reading\<close>

definition node_fields :: "pyval \<Rightarrow> pyerr + string list" where
  "node_fields node =
     (case node of
        PDict d \<Rightarrow> (case dget_or d ''properties'' (PDict []) of PDict p \<Rightarrow> Inr (dkeys p) | _ \<Rightarrow> Inl AttributeError)
      | _ \<Rightarrow> Inr [])"

definition extract_existing_fields :: "fields \<Rightarrow> pyerr + string list" where
  "extract_existing_fields spec =
     (case dget_or spec ''ontology'' (PDict []) of
        PDict ont \<Rightarrow>
          (case dget_or ont ''nodes'' (dget_or ont ''entities'' (PDict [])) of
             PDict nodes \<Rightarrow> bind_res (map_res node_fields (map snd nodes)) (\<lambda>fss. Inr (concat fss))
           | _ \<Rightarrow> Inr [])
      | _ \<Rightarrow> Inl AttributeError)"

definition entry_confidence :: "pyval \<Rightarrow> f64" where
  "entry_confidence v =
     (case v of PDict d \<Rightarrow> safe_float (dget_or d ''confidence'' (PFloat 0)) 0
      | _ \<Rightarrow> if is_number v then safe_float v 0 else 0)"

definition build_confidence_map :: "confidences \<Rightarrow> pyerr + (string, f64) dict" where
  "build_confidence_map raw =
     (case raw of
        ConfObject es \<Rightarrow> Inr (dupdate [] es)
      | ConfValue (PDict d) \<Rightarrow>
          (case dget_or d ''entries'' (PDict d) of
             PDict es \<Rightarrow> Inr (map (\<lambda>(k, v). (k, entry_confidence v)) es) | _ \<Rightarrow> Inl AttributeError)
      | ConfValue _ \<Rightarrow> Inr [])"

text \<open>The source a value is credited to, where the confidences are a dict.\<close>

definition entry_source :: "confidences \<Rightarrow> string \<Rightarrow> pyval option" where
  "entry_source raw f =
     (case raw of
        ConfValue (PDict d) \<Rightarrow>
          (case dget_or d ''entries'' (PDict d) of
             PDict es \<Rightarrow> (case dget_or es f (PDict []) of PDict e \<Rightarrow> Some (dget_or e ''source'' (PStr ''enrichment'')) | _ \<Rightarrow> None)
           | _ \<Rightarrow> None)
      | _ \<Rightarrow> None)"

definition add_source :: "pyval option \<Rightarrow> pyval list \<Rightarrow> pyerr + pyval list" where
  "add_source s xs =
     (case s of
        None \<Rightarrow> Inr xs
      | Some (PList _) \<Rightarrow> Inl TypeError
      | Some (PDict _) \<Rightarrow> Inl TypeError
      | Some v \<Rightarrow> Inr (if list_ex (py_eq v) xs then xs else xs @ [v]))"

definition note_field ::
    "confidences \<Rightarrow> (string, f64) dict \<Rightarrow> string list \<Rightarrow> string \<times> pyval \<Rightarrow> (string, field_acc) dict \<Rightarrow> pyerr + (string, field_acc) dict" where
  "note_field raw cmap existing fv stats =
     (let (f, v) = fv; acc = dget_or stats f new_acc; acc1 = acc\<lparr>fa_total := fa_total acc + 1\<rparr> in
      if f \<in> set existing then Inr stats
      else if v = PNone then Inr (dset f acc1 stats)
      else bind_res (add_source (entry_source raw f) (fa_sources acc1)) (\<lambda>srcs.
        Inr (dset f (acc1\<lparr>fa_non_null := fa_non_null acc1 + 1, fa_values := fa_values acc1 @ [v],
          fa_confidences := fa_confidences acc1 @ [dget_or cmap f 0], fa_sources := srcs\<rparr>) stats)))"

fun fold_res :: "('a \<Rightarrow> 's \<Rightarrow> 'e + 's) \<Rightarrow> 'a list \<Rightarrow> 's \<Rightarrow> 'e + 's" where
  "fold_res f [] s = Inr s"
| "fold_res f (x # xs) s = bind_res (f x s) (fold_res f xs)"

definition process_result_fields ::
    "string list \<Rightarrow> batch_entry \<Rightarrow> (string, field_acc) dict \<Rightarrow> pyerr + (string, field_acc) dict" where
  "process_result_fields existing entry stats =
     bind_res (build_confidence_map (be_confidences entry)) (\<lambda>cmap.
       case be_fields entry of
         PDict d \<Rightarrow> fold_res (note_field (be_confidences entry) cmap existing) d stats
       | _ \<Rightarrow> Inl AttributeError)"

section \<open>Building proposals\<close>

definition more_than :: "nat \<Rightarrow> nat \<Rightarrow> rat \<Rightarrow> bool" where
  "more_than k n share \<longleftrightarrow> to_rat (f_of_int (int n) * flt share) < of_nat k"

fun is_bool :: "pyval \<Rightarrow> bool" where
  "is_bool (PBool _) = True"
| "is_bool _ = False"

fun is_list :: "pyval \<Rightarrow> bool" where
  "is_list (PList _) = True"
| "is_list _ = False"

definition infer_type :: "pyval list \<Rightarrow> string" where
  "infer_type vs =
     (if vs = [] then ''string''
      else if more_than (length (filter (\<lambda>v. is_number v \<and> \<not> is_bool v) vs)) (length vs) (7 / 10) then ''float''
      else if more_than (length (filter is_bool vs)) (length vs) (7 / 10) then ''boolean''
      else if more_than (length (filter is_list vs)) (length vs) (1 / 2) then ''list''
      else ''string'')"

definition compute_distribution :: "(rat \<Rightarrow> f64) \<Rightarrow> pyval list \<Rightarrow> string \<Rightarrow> value_distribution" where
  "compute_distribution fsqrt vs t =
     (if vs = [] then NoDistribution
      else if t = ''float'' then
        (let nums = map (\<lambda>v. safe_float v 0) (filter is_number vs) in
         if nums = [] then NoDistribution
         else NumericRange (py_round 4 (Min (set nums))) (py_round 4 (Max (set nums))) (py_round 4 (stat_mean nums))
                (if 1 < length nums then py_round 4 (stat_stdev fsqrt nums) else 0))
      else if t = ''string'' then TopValues (take 5 (sort_desc snd (tally (map py_str vs))))
      else if t = ''boolean'' then TruePct (py_round 4 (py_int_div (int (length (filter (\<lambda>v. v = PBool True) vs))) (int (length vs))))
      else NoDistribution)"

definition fill_of :: "field_acc \<Rightarrow> nat \<Rightarrow> f64" where
  "fill_of acc n = (if 0 < n then py_int_div (int (fa_non_null acc)) (int n) else 0)"

definition confidence_of :: "field_acc \<Rightarrow> f64" where
  "confidence_of acc = (if fa_confidences acc \<noteq> [] then stat_mean (fa_confidences acc) else 0)"

definition worth_proposing :: "nat \<Rightarrow> string \<times> field_acc \<Rightarrow> bool" where
  "worth_proposing n fa \<longleftrightarrow> \<not> (fill_of (snd fa) n < flt (3 / 5) \<or> confidence_of (snd fa) < flt (7 / 10)) \<and> is_canonical_field_name (fst fa)"

definition field_proposal_of ::
    "(rat \<Rightarrow> f64) \<Rightarrow> (pyval list \<Rightarrow> pyval) \<Rightarrow> nat \<Rightarrow> string \<times> field_acc \<Rightarrow> pyerr + field_proposal" where
  "field_proposal_of fsqrt pick n fa =
     (let (f, acc) = fa; t = infer_type (fa_values acc) in
      case (if fa_sources acc \<noteq> [] then pick (fa_sources acc) else PStr ''enrichment'') of
        PStr source \<Rightarrow> Inr
          \<lparr>fp_name = f, fp_type = t, fp_source = source, fp_fill = py_round 4 (fill_of acc n),
           fp_confidence = py_round 4 (confidence_of acc), fp_samples = take 10 (fa_values acc),
           fp_distribution = compute_distribution fsqrt (fa_values acc) t, fp_entities = fa_non_null acc\<rparr>
      | _ \<Rightarrow> Inl ValueError)"

definition build_field_proposals ::
    "(rat \<Rightarrow> f64) \<Rightarrow> (pyval list \<Rightarrow> pyval) \<Rightarrow> (string, field_acc) dict \<Rightarrow> nat \<Rightarrow> pyerr + field_proposal list" where
  "build_field_proposals fsqrt pick stats n = map_res (field_proposal_of fsqrt pick n) (filter (worth_proposing n) stats)"

definition propose_gate :: "field_proposal \<Rightarrow> gate_proposal list" where
  "propose_gate fp =
     (if fp_type fp = ''string'' \<and> fp_distribution fp \<noteq> NoDistribution then
        (case fp_distribution fp of
           TopValues top_vals \<Rightarrow> if 2 \<le> length top_vals \<and> length top_vals \<le> 20
                        then [\<lparr>gp_name = fp_name fp, gp_type = ''categorical'', gp_distinct = length top_vals\<rparr>] else []
         | _ \<Rightarrow> [])
      else if fp_type fp = ''boolean'' then [\<lparr>gp_name = fp_name fp, gp_type = ''boolean'', gp_distinct = 2\<rparr>] else [])"

definition propose_gates :: "field_proposal list \<Rightarrow> gate_proposal list" where
  "propose_gates fps = concat (map propose_gate fps)"

definition propose_dimension :: "field_proposal \<Rightarrow> scoring_proposal list" where
  "propose_dimension fp =
     (case fp_distribution fp of
        NumericRange lo hi mean sd \<Rightarrow>
          if fp_type fp = ''float'' \<and> 0 < sd
          then [\<lparr>sp_name = fp_name fp, sp_type = ''numeric_distance'', sp_min = lo, sp_max = hi, sp_mean = mean, sp_stddev = sd\<rparr>] else []
      | _ \<Rightarrow> [])"

definition propose_scoring_dimensions :: "field_proposal list \<Rightarrow> scoring_proposal list" where
  "propose_scoring_dimensions fps = concat (map propose_dimension fps)"

definition bump_version :: "pyval \<Rightarrow> pyerr + string" where
  "bump_version current =
     (case current of
        PStr s \<Rightarrow>
          (let parts = split_on CHR ''.'' (hd (split_on CHR ''-'' s)) in
           Inr (case parts of
             a # b # rest \<Rightarrow>
               (case (parse_int a, parse_int b, case rest of [] \<Rightarrow> Some 0 | c # _ \<Rightarrow> parse_int c) of
                  (Some major, Some minor, Some _) \<Rightarrow> str_int major @ ''.'' @ str_int (minor + 1) @ ''.0-discovered''
                | _ \<Rightarrow> ''0.2.0-discovered'')
           | _ \<Rightarrow> ''0.2.0-discovered''))
      | _ \<Rightarrow> Inl AttributeError)"

definition propose ::
    "(rat \<Rightarrow> f64) \<Rightarrow> (pyval list \<Rightarrow> pyval) \<Rightarrow> batch_entry list \<Rightarrow> fields \<Rightarrow> string \<Rightarrow> pyerr + proposal_set" where
  "propose fsqrt pick batch spec domain =
     (if batch = [] then Inr \<lparr>pr_domain = domain, pr_fields = [], pr_gates = [], pr_dims = [], pr_version = [], pr_entities = 0\<rparr>
      else
        bind_res (extract_existing_fields spec) (\<lambda>existing.
        bind_res (fold_res (process_result_fields existing) batch []) (\<lambda>stats.
        bind_res (build_field_proposals fsqrt pick stats (length batch)) (\<lambda>fps.
        let proposed = sort_key (\<lambda>p. (- to_rat (fp_fill p), - to_rat (fp_confidence p))) fps in
        bind_res (bump_version (dget_or spec ''version'' (PStr ''0.1.0''))) (\<lambda>version.
          case (if domain \<noteq> [] then PStr domain else dget_or spec ''domain'' (PStr [])) of
            PStr dom1 \<Rightarrow> Inr \<lparr>pr_domain = dom1, pr_fields = proposed, pr_gates = propose_gates proposed,
                            pr_dims = propose_scoring_dimensions proposed, pr_version = version, pr_entities = length batch\<rparr>
          | _ \<Rightarrow> Inl ValueError)))))"

section \<open>Merging approved proposals\<close>

record approval =
  ad_field :: string
  ad_approved :: bool

definition approved_fields :: "approval list \<Rightarrow> string list" where
  "approved_fields ds = map ad_field (filter ad_approved ds)"

definition merge_property :: "string list \<Rightarrow> field_proposal \<Rightarrow> fields \<Rightarrow> fields" where
  "merge_property approved fp props =
     (if fp_name fp \<in> set approved \<and> is_canonical_field_name (fp_name fp)
      then dset (fp_name fp) (PDict [(''type'', PStr (fp_type fp)), (''source'', PStr (fp_source fp))]) props else props)"

text \<open>An assignment into properties that are no dict raises; without an approved name nothing is assigned.\<close>

definition apply_node_properties :: "string list \<Rightarrow> field_proposal list \<Rightarrow> pyval \<Rightarrow> pyerr + pyval" where
  "apply_node_properties approved fps nodes =
     (case nodes of
        PDict ((k, PDict node) # rest) \<Rightarrow>
          if k = [] then Inr nodes
          else
            (case dget_or node ''properties'' (PDict []) of
               PDict props \<Rightarrow> Inr (PDict ((k, PDict (dset ''properties'' (PDict (fold (merge_property approved) fps props)) node)) # rest))
             | v \<Rightarrow> if list_ex (\<lambda>fp. fp_name fp \<in> set approved \<and> is_canonical_field_name (fp_name fp)) fps then Inl TypeError
                    else Inr nodes)
      | _ \<Rightarrow> Inr nodes)"

definition auto_entry :: "string \<Rightarrow> string \<Rightarrow> pyval" where
  "auto_entry f t = PDict [(''field'', PStr f), (''type'', PStr t), (''auto_proposed'', PBool True)]"

definition append_entries :: "(string \<times> string) list \<Rightarrow> string list \<Rightarrow> pyval \<Rightarrow> pyval" where
  "append_entries entries approved v =
     (case v of
        PList xs \<Rightarrow> PList (xs @ map (\<lambda>(f, t). auto_entry f t) (filter (\<lambda>(f, t). f \<in> set approved \<and> is_canonical_field_name f) entries))
      | _ \<Rightarrow> v)"

definition dset_default :: "string \<Rightarrow> pyval \<Rightarrow> fields \<Rightarrow> fields" where
  "dset_default k v d = (if dmem k d then d else dset k v d)"

definition apply_proposals :: "fields \<Rightarrow> approval list \<Rightarrow> proposal_set \<Rightarrow> pyerr + fields" where
  "apply_proposals spec decisions pset =
     (let approved = approved_fields decisions; d1 = dset_default ''ontology'' (PDict []) spec in
      case dget_or d1 ''ontology'' PNone of
        PDict ont \<Rightarrow>
          (let ont1 = dset_default ''nodes'' (PDict []) ont in
           bind_res (apply_node_properties approved (pr_fields pset) (dget_or ont1 ''nodes'' PNone)) (\<lambda>nodes.
             let d2 = dset ''ontology'' (PDict (dset ''nodes'' nodes ont1)) d1;
                 d3 = dset_default ''gates'' (PList []) d2;
                 d4 = dset ''gates'' (append_entries (map (\<lambda>g. (gp_name g, gp_type g)) (pr_gates pset)) approved (dget_or d3 ''gates'' PNone)) d3;
                 d5 = dset_default ''scoring'' (PList []) d4;
                 d6 = dset ''scoring'' (append_entries (map (\<lambda>g. (sp_name g, sp_type g)) (pr_dims pset)) approved (dget_or d5 ''scoring'' PNone)) d5
             in Inr (dset ''version'' (PStr (pr_version pset)) d6)))
      | _ \<Rightarrow> Inl AttributeError)"

section \<open>Laws of the accumulation\<close>


definition entry_ok :: "batch_entry \<Rightarrow> bool" where
  "entry_ok e \<longleftrightarrow> (case be_fields e of PDict d \<Rightarrow> dict_ok d | _ \<Rightarrow> True)"

definition non_null_of :: "(string, field_acc) dict \<Rightarrow> string \<Rightarrow> nat" where
  "non_null_of stats f = fa_non_null (dget_or stats f new_acc)"

definition stats_inv :: "string list \<Rightarrow> (string, field_acc) dict \<Rightarrow> bool" where
  "stats_inv existing stats \<longleftrightarrow> dict_ok stats \<and> set (dkeys stats) \<inter> set existing = {} \<and>
     (\<forall>acc \<in> set (dvalues stats). length (fa_values acc) = fa_non_null acc \<and> length (fa_confidences acc) = fa_non_null acc)"

lemma dset_values_inv: "\<forall>x \<in> set (dvalues d). P x \<Longrightarrow> P v \<Longrightarrow> \<forall>x \<in> set (dvalues (dset k v d)). P x"
  using dvalues_dset [of k v d] by blast

lemma dget_value: "dget d k = Some v \<Longrightarrow> v \<in> set (dvalues d)"
  by (force dest: map_of_SomeD)

lemma note_field_step:
  assumes "note_field raw cmap existing (g, v) stats = Inr stats'" and "stats_inv existing stats"
  shows "stats_inv existing stats' \<and>
    non_null_of stats' f = non_null_of stats f + (if f = g \<and> g \<notin> set existing \<and> v \<noteq> PNone then 1 else 0)"
proof (cases "g \<in> set existing")
  case False
  let ?acc = "dget_or stats g new_acc"
  have acc: "length (fa_values ?acc) = fa_non_null ?acc" "length (fa_confidences ?acc) = fa_non_null ?acc"
    using assms(2) dget_value [of stats g] by (auto simp: dget_or_def stats_inv_def new_acc_def split: option.split)
  from assms(1) False obtain acc' where a: "stats' = dset g acc' stats" "fa_non_null acc' = fa_non_null ?acc + (if v \<noteq> PNone then 1 else 0)"
    "length (fa_values acc') = fa_non_null acc'" "length (fa_confidences acc') = fa_non_null acc'"
    using acc by (auto simp: note_field_def Let_def bind_res_Inr_iff split: if_splits)
  have "stats_inv existing stats'"
    using assms(2) False a(3,4) unfolding a(1) stats_inv_def
    by (auto simp: keys_dset alist.ok_put simp del: set_map dest!: subsetD [OF dvalues_dset])
  then show ?thesis using False a(2) by (auto simp: a(1) non_null_of_def dget_or_simps)
qed (use assms in \<open>simp add: note_field_def Let_def\<close>)

lemma fold_note_fields:
  assumes "fold_res (note_field raw cmap existing) d stats = Inr stats'" and "stats_inv existing stats"
  shows "stats_inv existing stats' \<and>
    non_null_of stats' f = non_null_of stats f + (if f \<in> set existing then 0 else length (filter (\<lambda>gv. fst gv = f \<and> snd gv \<noteq> PNone) d))"
  using assms
proof (induction d arbitrary: stats)
  case (Cons gv d)
  obtain g v where gv: "gv = (g, v)" by (cases gv)
  from Cons.prems obtain s1 where s1: "note_field raw cmap existing (g, v) stats = Inr s1" "fold_res (note_field raw cmap existing) d s1 = Inr stats'"
    by (auto simp: gv bind_res_Inr_iff)
  from note_field_step [OF s1(1) Cons.prems(2)] Cons.IH [OF s1(2)] show ?case by (auto simp: gv)
qed simp


lemma process_parts:
  assumes "process_result_fields existing e stats = Inr stats'"
  obtains cmap d where "be_fields e = PDict d" "fold_res (note_field (be_confidences e) cmap existing) d stats = Inr stats'"
  using assms that by (cases "be_fields e") (auto simp: process_result_fields_def bind_res_Inr_iff)



lemma fold_keys:
  assumes "fold_res (process_result_fields existing) batch stats = Inr stats'" and "stats_inv existing stats" and "list_all entry_ok batch"
  shows "stats_inv existing stats'"
  using assms
proof (induction batch arbitrary: stats)
  case (Cons e batch)
  from Cons.prems obtain s1 where s1: "process_result_fields existing e stats = Inr s1" "fold_res (process_result_fields existing) batch s1 = Inr stats'"
    by (auto simp: bind_res_Inr_iff)
  obtain cmap d where d: "fold_res (note_field (be_confidences e) cmap existing) d stats = Inr s1"
    using s1(1) by (rule process_parts)
  from fold_note_fields [OF d Cons.prems(2)] Cons.IH [OF s1(2)] Cons.prems(3) show ?case by simp
qed simp












lemma propose_parts:
  assumes "propose fsqrt pick batch spec domain = Inr ps" and "batch \<noteq> []"
  obtains existing stats fps where "extract_existing_fields spec = Inr existing"
    "fold_res (process_result_fields existing) batch [] = Inr stats"
    "build_field_proposals fsqrt pick stats (length batch) = Inr fps"
    "pr_fields ps = sort_key (\<lambda>p. (- to_rat (fp_fill p), - to_rat (fp_confidence p))) fps"
    "pr_gates ps = propose_gates (pr_fields ps)" "pr_dims ps = propose_scoring_dimensions (pr_fields ps)"
proof -
  let ?X = "if domain \<noteq> [] then PStr domain else dget_or spec ''domain'' (PStr [])"
  let ?srt = "\<lambda>fps. sort_key (\<lambda>p. (- to_rat (fp_fill p), - to_rat (fp_confidence p))) fps"
  let ?R = "\<lambda>fps version dom1. \<lparr>pr_domain = dom1, pr_fields = ?srt fps, pr_gates = propose_gates (?srt fps),
      pr_dims = propose_scoring_dimensions (?srt fps), pr_version = version, pr_entities = length batch\<rparr>"
  obtain existing stats fps version where s: "extract_existing_fields spec = Inr existing"
    "fold_res (process_result_fields existing) batch [] = Inr stats" "build_field_proposals fsqrt pick stats (length batch) = Inr fps"
    "(case ?X of PStr dom1 \<Rightarrow> Inr (?R fps version dom1) | _ \<Rightarrow> Inl ValueError) = (Inr ps :: pyerr + proposal_set)"
    using assms(1) unfolding propose_def if_not_P [OF assms(2)] Let_def bind_res_Inr_iff by blast
  from s(4) have "\<exists>dom1. ps = ?R fps version dom1" by (cases ?X) (auto split: if_split_asm)
  then obtain dom1 where "ps = ?R fps version dom1" ..
  with s(1-3) that show thesis by simp
qed

lemma built_from:
  assumes "build_field_proposals fsqrt pick stats n = Inr fps" and "fp \<in> set fps"
  obtains acc where "(fp_name fp, acc) \<in> set stats" "worth_proposing n (fp_name fp, acc)" "fp_entities fp = fa_non_null acc"
    "fp_fill fp = py_round 4 (fill_of acc n)" "fp_confidence fp = py_round 4 (confidence_of acc)"
    "fp_distribution fp = compute_distribution fsqrt (fa_values acc) (fp_type fp)" "fp_type fp = infer_type (fa_values acc)"
proof -
  from assms obtain fa where fa: "fa \<in> set stats" "worth_proposing n fa" "field_proposal_of fsqrt pick n fa = Inr fp"
    using map_res_source [of "field_proposal_of fsqrt pick n" "filter (worth_proposing n) stats" fps fp]
    by (auto simp: build_field_proposals_def)
  obtain f acc where e: "fa = (f, acc)" by (cases fa)
  from fa(3) have "fp_name fp = f \<and> fp_entities fp = fa_non_null acc \<and> fp_fill fp = py_round 4 (fill_of acc n) \<and>
      fp_confidence fp = py_round 4 (confidence_of acc) \<and> fp_type fp = infer_type (fa_values acc) \<and>
      fp_distribution fp = compute_distribution fsqrt (fa_values acc) (fp_type fp)"
    by (auto simp: e field_proposal_of_def Let_def split: pyval.splits)
  with fa(1,2) e that [of acc] show thesis by auto
qed









section \<open>Merging\<close>

lemma merge_keys:
  "set (dkeys (fold (merge_property approved) fps props)) =
   set (dkeys props) \<union> {f \<in> fp_name ` set fps. f \<in> set approved \<and> is_canonical_field_name f}"
proof (induction fps arbitrary: props)
  case (Cons fp fps)
  have "set (dkeys (merge_property approved fp props)) =
      set (dkeys props) \<union> (if fp_name fp \<in> set approved \<and> is_canonical_field_name (fp_name fp) then {fp_name fp} else {})"
    by (auto simp: merge_property_def keys_dset simp del: set_map)
  with Cons.IH [of "merge_property approved fp props"] show ?case by auto
qed simp

definition first_node :: "fields \<Rightarrow> (fields \<times> string \<times> fields \<times> (string \<times> pyval) list) option" where
  "first_node spec =
     (case dget spec ''ontology'' of
        Some (PDict ont) \<Rightarrow>
          (case dget ont ''nodes'' of Some (PDict ((k, PDict node) # rest)) \<Rightarrow> if k = [] then None else Some (ont, k, node, rest) | _ \<Rightarrow> None)
      | _ \<Rightarrow> None)"

lemma first_node_Some:
  "first_node spec = Some (ont, k, node, rest) \<longleftrightarrow>
   dget spec ''ontology'' = Some (PDict ont) \<and> dget ont ''nodes'' = Some (PDict ((k, PDict node) # rest)) \<and> k \<noteq> []"
  by (auto simp: first_node_def split: option.splits pyval.splits list.splits prod.splits)

lemma existing_first_node:
  assumes "first_node spec = Some (ont, k, node, rest)"
  shows "extract_existing_fields spec =
    bind_res (node_fields (PDict node)) (\<lambda>fs. bind_res (map_res node_fields (map snd rest)) (\<lambda>fss. Inr (fs @ concat fss)))"
  using assms
  by (simp add: first_node_Some extract_existing_fields_def dget_or_def bind_res_def split: sum.split)

lemma apply_first_node:
  assumes "apply_proposals spec ds pset = Inr spec'" and "first_node spec = Some (ont, k, node, rest)"
    and "dget_or node ''properties'' (PDict []) = PDict props"
  shows "\<exists>ont'. first_node spec' =
    Some (ont', k, dset ''properties'' (PDict (fold (merge_property (approved_fields ds)) (pr_fields pset) props)) node, rest)"
proof -
  have o: "dget spec ''ontology'' = Some (PDict ont)" "dget ont ''nodes'' = Some (PDict ((k, PDict node) # rest))" "k \<noteq> []"
    using assms(2) by (simp_all add: first_node_Some)
  have d1: "dset_default ''ontology'' (PDict []) spec = spec" "dset_default ''nodes'' (PDict []) ont = ont"
    using o by (simp_all add: dset_default_def dmem_def)
  let ?nodes = "PDict ((k, PDict (dset ''properties'' (PDict (fold (merge_property (approved_fields ds)) (pr_fields pset) props)) node)) # rest)"
  have n: "apply_node_properties (approved_fields ds) (pr_fields pset) (PDict ((k, PDict node) # rest)) = Inr ?nodes"
    using o(3) assms(3) by (simp add: apply_node_properties_def)
  have keep: "dget (dset_default g v d) ''ontology'' = dget d ''ontology''" if "g \<noteq> ''ontology''" for g v d
    using that by (simp add: dset_default_def dget_dset)
  have "dget spec' ''ontology'' = Some (PDict (dset ''nodes'' ?nodes ont))"
    using assms(1) n o(1,2) by (auto simp: apply_proposals_def d1 Let_def dget_or_def [of spec] dget_or_def [of ont] dget_dset keep)
  then show ?thesis using o(3) by (simp add: first_node_Some dget_dset)
qed

lemma proposed_canonical:
  assumes "propose fsqrt pick batch spec domain = Inr ps" and "fp \<in> set (pr_fields ps)"
  shows "is_canonical_field_name (fp_name fp) \<and> batch \<noteq> []"
proof -
  have b: "batch \<noteq> []" using assms by (auto simp: propose_def)
  with assms(1) obtain existing stats fps where parts: "build_field_proposals fsqrt pick stats (length batch) = Inr fps"
    "pr_fields ps = sort_key (\<lambda>p. (- to_rat (fp_fill p), - to_rat (fp_confidence p))) fps" by (rule propose_parts)
  from parts(2) assms(2) have "fp \<in> set fps" by simp
  with parts(1) obtain acc where "worth_proposing (length batch) (fp_name fp, acc)" by (rule built_from)
  with b show ?thesis by (simp add: worth_proposing_def)
qed

lemma proposed_new:
  assumes "propose fsqrt pick batch spec domain = Inr ps" and "fp \<in> set (pr_fields ps)" and "extract_existing_fields spec = Inr existing"
    and "list_all entry_ok batch"
  shows "fp_name fp \<notin> set existing"
proof -
  have b: "batch \<noteq> []" using proposed_canonical [OF assms(1,2)] by simp
  with assms(1) obtain ex stats fps where parts: "extract_existing_fields spec = Inr ex" "fold_res (process_result_fields ex) batch [] = Inr stats"
    "build_field_proposals fsqrt pick stats (length batch) = Inr fps"
    "pr_fields ps = sort_key (\<lambda>p. (- to_rat (fp_fill p), - to_rat (fp_confidence p))) fps" by (rule propose_parts)
  from parts(4) assms(2) have "fp \<in> set fps" by simp
  with parts(3) obtain acc where "(fp_name fp, acc) \<in> set stats" by (rule built_from)
  moreover have "stats_inv ex stats" using fold_keys [OF parts(2) _ assms(4)] by (simp add: stats_inv_def)
  ultimately show ?thesis using assms(3) parts(1) by (force simp: stats_inv_def)
qed

text \<open>
  \<open>propose\<close>, then \<open>apply\<close>. Merging adds exactly the approved proposals: the fields of the new specification
  are those of the old one and the approved ones among the proposed. So a later batch, whatever it holds,
  does not propose an approved field again. This needs a specification whose nodes are a mapping with a
  first node that has a name.
\<close>

theorem approved_fields_merged:
  assumes "propose fsqrt pick batch spec domain = Inr ps" and "apply_proposals spec ds ps = Inr spec'"
    and "first_node spec \<noteq> None" and "extract_existing_fields spec = Inr existing"
    and "propose fsqrt pick later spec' domain' = Inr ps'" and "list_all entry_ok later"
  shows "(\<exists>existing'. extract_existing_fields spec' = Inr existing' \<and>
      set existing' = set existing \<union> (set (approved_fields ds) \<inter> fp_name ` set (pr_fields ps))) \<and>
    fp_name ` set (pr_fields ps') \<inter> (set (approved_fields ds) \<inter> fp_name ` set (pr_fields ps)) = {}"
proof -
  from assms(3) obtain ont k node rest where f: "first_node spec = Some (ont, k, node, rest)" by (metis option.exhaust prod_cases4)
  from assms(4) existing_first_node [OF f] obtain props fss where e: "dget_or node ''properties'' (PDict []) = PDict props"
    "map_res node_fields (map snd rest) = Inr fss" "existing = dkeys props @ concat fss"
    by (auto simp: bind_res_Inr_iff node_fields_def split: pyval.splits)
  let ?props = "fold (merge_property (approved_fields ds)) (pr_fields ps) props"
  from apply_first_node [OF assms(2) f e(1)] obtain ont' where f': "first_node spec' = Some (ont', k, dset ''properties'' (PDict ?props) node, rest)" ..
  have ex': "extract_existing_fields spec' = Inr (dkeys ?props @ concat fss)"
    by (simp add: existing_first_node [OF f'] node_fields_def dget_or_simps e(2))
  have "{f \<in> fp_name ` set (pr_fields ps). f \<in> set (approved_fields ds) \<and> is_canonical_field_name f} =
      set (approved_fields ds) \<inter> fp_name ` set (pr_fields ps)"
    using proposed_canonical [OF assms(1)] by auto
  then have s: "set (dkeys ?props @ concat fss) = set existing \<union> (set (approved_fields ds) \<inter> fp_name ` set (pr_fields ps))"
    using merge_keys [of "approved_fields ds" "pr_fields ps" props] by (auto simp: e(3))
  have "fp_name ` set (pr_fields ps') \<inter> (set (approved_fields ds) \<inter> fp_name ` set (pr_fields ps)) = {}"
    using proposed_new [OF assms(5) _ ex' assms(6)] s by blast
  with ex' s show ?thesis by blast
qed

section \<open>Witnesses and findings\<close>

definition sample_entry :: batch_entry where
  "sample_entry = \<lparr>be_fields = PDict [(''colour'', PStr ''red'')], be_confidences = ConfObject [(''colour'', 1)]\<rparr>"

definition sample_domain :: fields where
  "sample_domain = [(''ontology'', PDict [(''nodes'', PDict [(''Partner'', PDict [(''properties'', PDict [])])])])]"

lemma sample_type: "infer_type [PStr ''red''] = ''string''"
proof -
  have "\<not> more_than 0 1 q" if "0 \<le> q" for q
    using that f64_mult_nonneg [of "f_of_int 1" "flt q"] flt_nonneg [OF that] f_of_int_nonneg [of 1]
    by (simp add: more_than_def f64_le_iff zero_f64.rep_eq not_less)
  then show ?thesis by (simp add: infer_type_def)
qed

lemma sample_propose: "\<exists>ps. propose fsqrt pick [sample_entry] sample_domain ''d'' = Inr ps"
proof -
  have c: "is_canonical_field_name ''colour''" by code_simp
  have v: "bump_version (PStr ''0.1.0'') = Inr ''0.2.0-discovered''" by code_simp
  have "stat_mean [1] = 1" by (simp add: stat_mean_def exact_mean_def one_f64.rep_eq)
  moreover have "flt (3 / 5) \<le> 1" "flt (7 / 10) \<le> 1" using flt_mono [of "3 / 5" 1] flt_mono [of "7 / 10" 1] by simp_all
  ultimately show ?thesis
    using c v
    by (simp add: propose_def sample_entry_def sample_domain_def extract_existing_fields_def node_fields_def dget_or_def
        process_result_fields_def build_confidence_map_def dupdate_def note_field_def add_source_def entry_source_def new_acc_def
        build_field_proposals_def worth_proposing_def fill_of_def confidence_of_def field_proposal_of_def Let_def)
qed


theorem approved_fields_merged_witness:
  "\<exists>ps spec' existing'. propose (\<lambda>q. 0) hd [sample_entry] sample_domain ''d'' = Inr ps \<and>
     apply_proposals sample_domain [\<lparr>ad_field = ''colour'', ad_approved = True\<rparr>] ps = Inr spec' \<and>
     extract_existing_fields spec' = Inr existing' \<and> set existing' \<subseteq> {''colour''}"
proof -
  obtain ps where p: "propose (\<lambda>q. 0) hd [sample_entry] sample_domain ''d'' = Inr ps" using sample_propose by blast
  let ?ds = "[\<lparr>ad_field = ''colour'', ad_approved = True\<rparr>]"
  have "\<exists>spec'. apply_proposals sample_domain ?ds ps = Inr spec'"
    by (simp add: apply_proposals_def sample_domain_def dset_default_def dmem_def dget_or_def apply_node_properties_def Let_def)
  then obtain spec' where a: "apply_proposals sample_domain ?ds ps = Inr spec'" ..
  have f: "first_node sample_domain \<noteq> None" by (simp add: first_node_def sample_domain_def)
  have e: "extract_existing_fields sample_domain = Inr []"
    by (simp add: extract_existing_fields_def sample_domain_def dget_or_def node_fields_def)
  have l: "propose (\<lambda>q. 0) hd [] spec' ''d'' = Inr \<lparr>pr_domain = ''d'', pr_fields = [], pr_gates = [], pr_dims = [], pr_version = [], pr_entities = 0\<rparr>"
    by (simp add: propose_def)
  have o: "list_all entry_ok []" by simp
  from approved_fields_merged [OF p a f e l o] obtain existing' where "extract_existing_fields spec' = Inr existing'" "set existing' \<subseteq> {''colour''}"
    by (auto simp: approved_fields_def)
  with p a show ?thesis by blast
qed

text \<open>
  \<open>apply\<close> only looks at \<open>nodes\<close>, while the fields are also read from \<open>entities\<close>: merging into such a
  specification, even without an approval, adds an empty \<open>nodes\<close> behind which its fields are no longer seen.
\<close>

lemma entities_forgotten:
  fixes spec
  defines "spec \<equiv> [(''ontology'', PDict [(''entities'', PDict [(''Partner'', PDict [(''properties'', PDict [(''city'', PNone)])])])])]"
  shows "extract_existing_fields spec = Inr [''city''] \<and>
    (\<exists>spec'. apply_proposals spec [] pset = Inr spec' \<and> extract_existing_fields spec' = Inr [])"
  by (simp add: spec_def extract_existing_fields_def dget_or_def node_fields_def apply_proposals_def dset_default_def dmem_def
      apply_node_properties_def Let_def)

text \<open>
  A categorical gate is meant for a field with at most twenty values, but only the five most frequent values
  are counted: any text field with two values gets a gate, and the gate never states more than five.
\<close>

lemma gate_for_any_text:
  assumes "fp_type fp = ''string''" and "fp_distribution fp = compute_distribution fsqrt vs ''string''" and "2 \<le> length (tally (map py_str vs))"
  shows "propose_gate fp = [\<lparr>gp_name = fp_name fp, gp_type = ''categorical'', gp_distinct = min 5 (length (tally (map py_str vs)))\<rparr>]"
proof -
  have "vs \<noteq> []" using assms(3) by (auto simp: tally_def)
  with assms show ?thesis by (simp add: propose_gate_def compute_distribution_def min.commute)
qed

end
