(* ===== verification/InferenceRegistry.thy ===== *)
theory InferenceRegistry
  imports DerivationGraph
begin

text \<open>
  \<open>app/services/inference_rule_registry.py\<close>: the registry of inference functions, the built-in rules and the
  condition rules loaded from the knowledge base. A rule is a function from the entity and the context to a
  result, no result or an exception. The registry, a module variable, is passed along. Rationale texts and
  log lines are not modelled; upper case is taken for the letters of ASCII; a rule name in the knowledge base
  that is no text is reported as a \<open>TypeError\<close>.
\<close>

record inference_context =
  ic_pass :: int
  ic_known :: fields
  ic_kb :: fields
  ic_floor :: f64

record inference_result =
  ix_field :: string
  ix_value :: pyval
  ix_confidence :: pyval
  ix_rule :: string
  ix_provenance :: string

type_synonym inference_fn = "fields \<Rightarrow> inference_context \<Rightarrow> pyerr + inference_result option"

type_synonym rule_registry = "(string, inference_fn) dict"

definition register_inference_rule :: "string \<Rightarrow> inference_fn \<Rightarrow> rule_registry \<Rightarrow> pyerr + rule_registry" where
  "register_inference_rule name fn reg = (if dmem name reg then Inl ValueError else Inr (dset name fn reg))"

definition get_rule :: "rule_registry \<Rightarrow> string \<Rightarrow> pyerr + inference_fn" where
  "get_rule reg name = (case dget reg name of None \<Rightarrow> Inl KeyError | Some fn \<Rightarrow> Inr fn)"

definition execute_rule :: "rule_registry \<Rightarrow> string \<Rightarrow> fields \<Rightarrow> inference_context \<Rightarrow> pyerr + inference_result option" where
  "execute_rule reg name entity ctx =
     bind_res (get_rule reg name) (\<lambda>fn.
       case fn entity ctx of
         Inl _ \<Rightarrow> Inr None
       | Inr None \<Rightarrow> Inr None
       | Inr (Some r) \<Rightarrow>
           (case py_num (ix_confidence r) of
              None \<Rightarrow> Inl TypeError
            | Some c \<Rightarrow> Inr (if c < to_rat (ic_floor ctx) then None else Some r)))"

section \<open>The built-in rules\<close>

text \<open>\<open>entity.get(a) or entity.get(b)\<close>.\<close>

definition get_either :: "fields \<Rightarrow> string \<Rightarrow> string \<Rightarrow> pyval" where
  "get_either e a b = (let v = dget_or e a PNone in if truthy v then v else dget_or e b PNone)"

definition found :: "string \<Rightarrow> string \<Rightarrow> string \<Rightarrow> f64 \<Rightarrow> pyerr + inference_result option" where
  "found rule field v c = Inr (Some \<lparr>ix_field = field, ix_value = PStr v, ix_confidence = PFloat c, ix_rule = rule, ix_provenance = ''inference''\<rparr>)"

definition size_by_employees :: "int \<Rightarrow> string \<times> f64" where
  "size_by_employees n =
     (if n < 10 then (''micro'', flt (9 / 10)) else if n < 50 then (''small'', flt (22 / 25))
      else if n < 250 then (''mid_market'', flt (17 / 20)) else if n < 1000 then (''enterprise'', flt (83 / 100))
      else (''large_enterprise'', flt (22 / 25)))"

definition size_by_revenue :: "f64 \<Rightarrow> string \<times> f64" where
  "size_by_revenue x =
     (if x < f_of_int 1000000 then (''micro'', flt (7 / 10)) else if x < f_of_int 10000000 then (''small'', flt (17 / 25))
      else if x < f_of_int 100000000 then (''mid_market'', flt (13 / 20)) else (''enterprise'', flt (13 / 20)))"

definition infer_company_size_tier :: inference_fn where
  "infer_company_size_tier e ctx =
     (let emp = get_either e ''employee_count'' ''employees''; revenue = get_either e ''annual_revenue_usd'' ''revenue'';
          answer = (\<lambda>(t, c). found ''infer_company_size_tier'' ''company_size_tier'' t c)
      in if emp = PNone \<and> revenue = PNone then Inr None
         else
           (case (if emp = PNone then Inr None else map_sum id Some (py_int emp), if revenue = PNone then Inr None else map_sum id Some (py_float revenue)) of
              (Inl _, _) \<Rightarrow> Inr None
            | (_, Inl _) \<Rightarrow> Inr None
            | (Inr (Some n), _) \<Rightarrow> answer (size_by_employees n)
            | (Inr None, Inr (Some x)) \<Rightarrow> answer (size_by_revenue x)
            | (Inr None, Inr None) \<Rightarrow> Inr None))"

fun drop_one_prefix :: "string list \<Rightarrow> string \<Rightarrow> string" where
  "drop_one_prefix [] s = s"
| "drop_one_prefix (p # ps) s = (if take (length p) s = p then drop (length p) s else drop_one_prefix ps s)"

definition email_domain_of :: "string \<Rightarrow> string" where
  "email_domain_of website =
     (let d = drop_one_prefix [''www.''] (drop_one_prefix [''http://'', ''https://''] (py_lower (py_strip website)))
      in hd (split_on CHR ''?'' (hd (split_on CHR ''/'' d))))"

definition infer_email_domain_from_website :: inference_fn where
  "infer_email_domain_from_website e ctx =
     (let website = get_either e ''website'' ''website_url''; d = email_domain_of (py_str website) in
      if \<not> truthy website \<or> d = [] \<or> CHR ''.'' \<notin> set d then Inr None
      else found ''infer_email_domain_from_website'' ''email_domain'' d (flt (23 / 25)))"

definition all_digits :: "string \<Rightarrow> bool" where
  "all_digits s = list_all (\<lambda>c. digit_val c \<noteq> None) s"

definition is_zip :: "string \<Rightarrow> bool" where
  "is_zip s \<longleftrightarrow> (length s = 5 \<and> all_digits s) \<or>
     (length s = 10 \<and> all_digits (take 5 s) \<and> s ! 5 = CHR ''-'' \<and> all_digits (drop 6 s))"

definition region_of :: "int \<Rightarrow> string" where
  "region_of p = (if p < 20000 then ''Northeast'' else if p < 30000 then ''Southeast'' else if p < 50000 then ''Midwest''
                  else if p < 80000 then ''South'' else ''West'')"

definition infer_geography_from_postal_code :: inference_fn where
  "infer_geography_from_postal_code e ctx =
     (let postal = get_either e ''postal_code'' ''zip_code''; s = py_strip (py_str postal) in
      if \<not> truthy postal \<or> \<not> is_zip s then Inr None
      else case parse_int (take 5 s) of
        None \<Rightarrow> Inl ValueError
      | Some p \<Rightarrow> found ''infer_geography_from_postal_code'' ''region'' (region_of p) (flt (41 / 50)))"

text \<open>\<open>x <= v\<close> for a float and a value of the knowledge base.\<close>

definition at_most :: "f64 \<Rightarrow> pyval \<Rightarrow> pyerr + bool" where
  "at_most x v = (case py_num v of None \<Rightarrow> Inl TypeError | Some q \<Rightarrow> Inr (to_rat x \<le> q))"

definition infer_facility_tier_from_capacity :: inference_fn where
  "infer_facility_tier_from_capacity e ctx =
     (let capacity = get_either e ''processing_capacity_tons_per_year'' ''annual_capacity_tons'';
          answer = found ''infer_facility_tier_from_capacity'' ''facility_tier''
      in if capacity = PNone then Inr None
         else case py_float capacity of
           Inl _ \<Rightarrow> Inr None
         | Inr cap \<Rightarrow>
             (let kb = dget_or (ic_kb ctx) ''facility_tier_thresholds'' (PDict []) in
              bind_res (py_get kb ''micro_max'' (PInt 500)) (\<lambda>micro.
              bind_res (py_get kb ''small_max'' (PInt 5000)) (\<lambda>small.
              bind_res (py_get kb ''mid_max'' (PInt 25000)) (\<lambda>mid.
              bind_res (at_most cap micro) (\<lambda>b1. if b1 then answer ''micro'' (flt (87 / 100)) else
              bind_res (at_most cap small) (\<lambda>b2. if b2 then answer ''small'' (flt (17 / 20)) else
              bind_res (at_most cap mid) (\<lambda>b3. if b3 then answer ''mid'' (flt (83 / 100)) else answer ''large'' (flt (22 / 25))))))))))"

definition upper_char :: "char \<Rightarrow> char" where
  "upper_char c = (if 97 \<le> code c \<and> code c \<le> 122 then char_of (code c - 32) else c)"

datatype grade_bound = AtMost pyval | Unbounded

definition reaches :: "f64 \<Rightarrow> grade_bound \<Rightarrow> pyerr + bool" where
  "reaches x b = (case b of Unbounded \<Rightarrow> Inr True | AtMost v \<Rightarrow> at_most x v)"

definition unpack_grade :: "pyval \<Rightarrow> pyerr + grade_bound \<times> pyval \<times> pyval" where
  "unpack_grade v = bind_res (py_iter v) (\<lambda>xs. case xs of [t, g, c] \<Rightarrow> Inr (AtMost t, g, c) | _ \<Rightarrow> Inl ValueError)"

fun first_grade :: "f64 \<Rightarrow> (pyerr + grade_bound \<times> pyval \<times> pyval) list \<Rightarrow> pyerr + inference_result option" where
  "first_grade x [] = Inr None"
| "first_grade x (r # rs) =
     bind_res r (\<lambda>(b, g, c). bind_res (reaches x b) (\<lambda>hit.
       if hit then Inr (Some \<lparr>ix_field = ''material_grade'', ix_value = g, ix_confidence = c, ix_rule = ''infer_material_grade_from_mfi'',
                              ix_provenance = ''inference''\<rparr>)
       else first_grade x rs))"

definition default_grade :: "grade_bound \<Rightarrow> string \<Rightarrow> rat \<Rightarrow> pyerr + grade_bound \<times> pyval \<times> pyval" where
  "default_grade b g c = Inr (b, PStr g, PFloat (flt c))"

definition hdpe_grades :: "(pyerr + grade_bound \<times> pyval \<times> pyval) list" where
  "hdpe_grades =
     [default_grade (AtMost (PFloat (flt (1 / 2)))) ''HD_pipe'' (22 / 25), default_grade (AtMost (PFloat (f_of_int 2))) ''HD_blow'' (17 / 20),
      default_grade (AtMost (PFloat (f_of_int 8))) ''HD_injection'' (83 / 100), default_grade Unbounded ''HD_fiber'' (4 / 5)]"

definition infer_material_grade_from_mfi :: inference_fn where
  "infer_material_grade_from_mfi e ctx =
     (let mfi = get_either e ''melt_flow_index'' ''mfi'' in
      case dget_or e ''material_type'' (PStr ''HDPE'') of
        PStr m \<Rightarrow>
          (let material = map upper_char m in
           if mfi = PNone then Inr None
           else case py_float mfi of
             Inl _ \<Rightarrow> Inr None
           | Inr x \<Rightarrow>
               (case dget_or (ic_kb ctx) ''mfi_grade_map'' (PDict []) of
                  PDict kb \<Rightarrow>
                    (let pe = material \<in> {''HDPE'', ''PE''} in
                     case dget kb (if pe then ''HDPE'' else material) of
                       None \<Rightarrow> first_grade x (if pe then hdpe_grades else [default_grade Unbounded ''generic'' (3 / 5)])
                     | Some v \<Rightarrow> bind_res (py_iter v) (\<lambda>items. first_grade x (map unpack_grade items)))
                | _ \<Rightarrow> Inl AttributeError))
      | _ \<Rightarrow> Inl AttributeError)"

definition infer_contamination_tolerance :: inference_fn where
  "infer_contamination_tolerance e ctx =
     (let tier = dget_or e ''facility_tier'' PNone; grade = dget_or e ''material_grade'' PNone;
          answer = found ''infer_contamination_tolerance'' ''contamination_tolerance''
      in if \<not> truthy tier \<or> \<not> truthy grade then Inr None
         else case tier of
           PList _ \<Rightarrow> Inl TypeError
         | PDict _ \<Rightarrow> Inl TypeError
         | _ \<Rightarrow>
           (if tier \<in> {PStr ''micro'', PStr ''small''} \<or> list_ex (\<lambda>p. is_substring p (py_lower (py_str grade))) [''fiber'', ''generic'']
            then answer ''high'' (flt (39 / 50)) else answer ''low'' (flt (18 / 25))))"

definition is_text_in :: "fields \<Rightarrow> string \<Rightarrow> string list \<Rightarrow> bool" where
  "is_text_in e k ts = (case dget_or e k PNone of PStr s \<Rightarrow> s \<in> set ts | _ \<Rightarrow> False)"

definition icp_factors :: "fields \<Rightarrow> (bool \<times> f64) list" where
  "icp_factors e =
     (let rev = dget_or e ''annual_revenue_usd'' PNone in
      [(is_text_in e ''company_size_tier'' [''mid_market'', ''enterprise'', ''large_enterprise''], flt (3 / 10)),
       (truthy rev \<and> (case py_float rev of Inr x \<Rightarrow> f_of_int 1000000 < x | Inl _ \<Rightarrow> False), flt (1 / 4)),
       (truthy (dget_or e ''email_domain'' PNone), flt (1 / 10)), (truthy (dget_or e ''region'' PNone), flt (1 / 10)),
       (is_text_in e ''facility_tier'' [''mid'', ''large''], flt (1 / 4))])"

definition infer_icp_fit_score :: inference_fn where
  "infer_icp_fit_score e ctx =
     (let hits = map snd (filter fst (icp_factors e)); n = length hits in
      if n = 0 then Inr None
      else Inr (Some \<lparr>ix_field = ''icp_fit_score'', ix_value = PFloat (py_round 4 (fold (\<lambda>w s. s + w) hits 0)),
        ix_confidence = PFloat (min (flt (11 / 20) + f_of_int (int n) * flt (3 / 50)) (flt (9 / 10))),
        ix_rule = ''infer_icp_fit_score'', ix_provenance = ''inference''\<rparr>))"

definition persona_keywords :: "(string list \<times> string \<times> f64) list" where
  "persona_keywords =
     [([''ceo'', ''coo'', ''president'', ''owner'', ''founder'', ''vp'', ''svp'', ''evp''], ''executive'', flt (17 / 20)),
      ([''procurement'', ''purchasing'', ''buyer'', ''sourcing''], ''procurement'', flt (83 / 100)),
      ([''operations'', ''ops'', ''plant'', ''facility'', ''production'', ''supply''], ''operations'', flt (4 / 5)),
      ([''engineer'', ''technical'', ''r&d'', ''research'', ''quality''], ''technical'', flt (39 / 50))]"

definition persona_of :: "string \<Rightarrow> string \<times> f64" where
  "persona_of title =
     (case find (\<lambda>(ks, _). list_ex (\<lambda>k. is_substring k title) ks) persona_keywords of
        None \<Rightarrow> (''unknown'', flt (11 / 20)) | Some (_, p, c) \<Rightarrow> (p, c))"

definition infer_buyer_persona :: inference_fn where
  "infer_buyer_persona e ctx =
     (let t = get_either e ''job_title'' ''title''; title = py_lower (py_str (if truthy t then t else PStr [])) in
      if title = [] then Inr None
      else (case persona_of title of (p, c) \<Rightarrow> found ''infer_buyer_persona'' ''buyer_persona'' p c))"

definition builtin_rules :: rule_registry where
  "builtin_rules =
     [(''infer_company_size_tier'', infer_company_size_tier), (''infer_email_domain_from_website'', infer_email_domain_from_website),
      (''infer_geography_from_postal_code'', infer_geography_from_postal_code), (''infer_facility_tier_from_capacity'', infer_facility_tier_from_capacity),
      (''infer_material_grade_from_mfi'', infer_material_grade_from_mfi), (''infer_contamination_tolerance'', infer_contamination_tolerance),
      (''infer_icp_fit_score'', infer_icp_fit_score), (''infer_buyer_persona'', infer_buyer_persona)]"

section \<open>Rules of the knowledge base\<close>

text \<open>One condition: an exception, or whether it holds.\<close>

definition compare_floats :: "(f64 \<Rightarrow> f64 \<Rightarrow> bool) \<Rightarrow> pyval \<Rightarrow> pyval \<Rightarrow> bool" where
  "compare_floats p a b = (case (py_float a, py_float b) of (Inr x, Inr y) \<Rightarrow> p x y | _ \<Rightarrow> False)"

definition condition_holds :: "fields \<Rightarrow> pyval \<Rightarrow> pyerr + bool" where
  "condition_holds e c =
     bind_res (py_get c ''source_field'' PNone) (\<lambda>src. bind_res (py_get c ''operator'' (PStr ''eq'')) (\<lambda>operator.
     bind_res (py_get c ''value'' PNone) (\<lambda>want.
       case src of
         PList _ \<Rightarrow> Inl TypeError
       | PDict _ \<Rightarrow> Inl TypeError
       | PStr f \<Rightarrow>
           (let v = dget_or e f PNone in Inr (v \<noteq> PNone \<and>
              (if operator = PStr ''eq'' then py_eq v want
               else if operator = PStr ''gt'' then compare_floats (\<lambda>x y. y < x) v want
               else if operator = PStr ''lt'' then compare_floats (\<lambda>x y. x < y) v want
               else operator = PStr ''contains'' \<and> is_substring (py_lower (py_str want)) (py_lower (py_str v)))))
       | _ \<Rightarrow> Inr False)))"

fun all_conditions :: "fields \<Rightarrow> pyval list \<Rightarrow> pyerr + bool" where
  "all_conditions e [] = Inr True"
| "all_conditions e (c # cs) = bind_res (condition_holds e c) (\<lambda>b. if b then all_conditions e cs else Inr False)"

definition condition_rule :: "string \<Rightarrow> string \<Rightarrow> fields \<Rightarrow> inference_fn" where
  "condition_rule name tgt spec e ctx =
     bind_res (py_iter (dget_or spec ''conditions'' (PList []))) (\<lambda>cs. bind_res (all_conditions e cs) (\<lambda>ok.
       let v = dget_or spec ''output_value'' (dget_or spec ''value'' PNone) in
       if \<not> ok \<or> v = PNone then Inr None
       else Inr (Some \<lparr>ix_field = tgt, ix_value = v, ix_confidence = PFloat (safe_float (dget_or spec ''confidence'' (PFloat (flt (13 / 20)))) 0),
                       ix_rule = name, ix_provenance = ''domain_kb''\<rparr>)))"

text \<open>An exception ends the load and leaves what was registered.\<close>

fun load_specs :: "pyval list \<Rightarrow> nat \<Rightarrow> rule_registry \<Rightarrow> (pyerr + nat) \<times> rule_registry" where
  "load_specs [] n reg = (Inr n, reg)"
| "load_specs (v # vs) n reg =
     (case v of
        PDict spec \<Rightarrow>
          (let name = dget_or spec ''name'' PNone in
           if \<not> truthy name then load_specs vs n reg
           else case name of
             PStr s \<Rightarrow>
               if dmem s reg then load_specs vs n reg
               else (case dget spec ''field'' of
                       Some (PStr f) \<Rightarrow> load_specs vs (n + 1) (dset s (condition_rule s f spec) reg)
                     | Some _ \<Rightarrow> (Inl TypeError, reg)
                     | None \<Rightarrow> (Inl KeyError, reg))
           | _ \<Rightarrow> (Inl TypeError, reg))
      | _ \<Rightarrow> (Inl AttributeError, reg))"

definition load_domain_rules :: "fields \<Rightarrow> rule_registry \<Rightarrow> (pyerr + nat) \<times> rule_registry" where
  "load_domain_rules kb reg =
     (case py_iter (dget_or kb ''inference_rules'' (PList [])) of Inl e \<Rightarrow> (Inl e, reg) | Inr vs \<Rightarrow> load_specs vs 0 reg)"

definition list_registered_rules :: "rule_registry \<Rightarrow> string list" where
  "list_registered_rules reg = sort (dkeys reg)"

section \<open>Properties\<close>

definition names_itself :: "rule_registry \<Rightarrow> bool" where
  "names_itself reg \<longleftrightarrow> (\<forall>(n, fn) \<in> set reg. \<forall>e ctx r. fn e ctx = Inr (Some r) \<longrightarrow> ix_rule r = n)"

lemma first_grade_rule: "first_grade x rs = Inr (Some r) \<Longrightarrow> ix_rule r = ''infer_material_grade_from_mfi''"
  by (induction rs) (auto simp: bind_res_Inr_iff split: if_splits)

lemmas built_in_defs = infer_company_size_tier_def infer_email_domain_from_website_def infer_geography_from_postal_code_def
  infer_facility_tier_from_capacity_def infer_contamination_tolerance_def infer_icp_fit_score_def infer_buyer_persona_def

lemma found_rule: "found rule f v c = Inr (Some r) \<Longrightarrow> ix_rule r = rule"
  by (auto simp: found_def)

lemma rule_company: "infer_company_size_tier e ctx = Inr (Some r) \<Longrightarrow> ix_rule r = ''infer_company_size_tier''"
  by (auto simp: built_in_defs Let_def found_def split: if_splits sum.splits option.splits prod.splits)

lemma rule_email: "infer_email_domain_from_website e ctx = Inr (Some r) \<Longrightarrow> ix_rule r = ''infer_email_domain_from_website''"
  by (auto simp: built_in_defs Let_def found_def split: if_splits)

lemma rule_geography: "infer_geography_from_postal_code e ctx = Inr (Some r) \<Longrightarrow> ix_rule r = ''infer_geography_from_postal_code''"
  by (auto simp: built_in_defs Let_def found_def split: if_splits option.splits)

lemma rule_facility: "infer_facility_tier_from_capacity e ctx = Inr (Some r) \<Longrightarrow> ix_rule r = ''infer_facility_tier_from_capacity''"
  by (auto simp: built_in_defs Let_def found_def bind_res_Inr_iff split: if_splits sum.splits)

lemma rule_grade: "infer_material_grade_from_mfi e ctx = Inr (Some r) \<Longrightarrow> ix_rule r = ''infer_material_grade_from_mfi''"
  unfolding infer_material_grade_from_mfi_def Let_def
  by (cases "dget_or e ''material_type'' (PStr ''HDPE'')"; cases "py_float (get_either e ''melt_flow_index'' ''mfi'')";
      cases "dget_or (ic_kb ctx) ''mfi_grade_map'' (PDict [])")
    (auto simp: bind_res_Inr_iff split: if_split_asm option.splits dest!: first_grade_rule)

lemma rule_contamination: "infer_contamination_tolerance e ctx = Inr (Some r) \<Longrightarrow> ix_rule r = ''infer_contamination_tolerance''"
  unfolding infer_contamination_tolerance_def Let_def
  by (cases "dget_or e ''facility_tier'' PNone") (auto split: if_split_asm dest!: found_rule)

lemma rule_icp: "infer_icp_fit_score e ctx = Inr (Some r) \<Longrightarrow> ix_rule r = ''infer_icp_fit_score''"
  unfolding infer_icp_fit_score_def Let_def by (auto split: if_split_asm)

lemma rule_persona: "infer_buyer_persona e ctx = Inr (Some r) \<Longrightarrow> ix_rule r = ''infer_buyer_persona''"
  unfolding infer_buyer_persona_def Let_def by (auto split: if_split_asm prod.splits dest!: found_rule)

lemma builtin_names: "names_itself builtin_rules"
  unfolding names_itself_def builtin_rules_def
  using rule_company rule_email rule_geography rule_facility rule_grade rule_contamination rule_icp rule_persona by simp

lemma condition_rule_name: "condition_rule n f spec e ctx = Inr (Some r) \<Longrightarrow> ix_rule r = n"
  by (auto simp: condition_rule_def bind_res_Inr_iff Let_def split: if_splits)

lemma names_itself_new: "names_itself reg \<Longrightarrow> \<not> dmem n reg \<Longrightarrow> names_itself (dset n (condition_rule n f spec) reg)"
proof -
  assume a: "names_itself reg" "\<not> dmem n reg"
  then have "dset n fn reg = reg @ [(n, fn)]" for fn by (induction reg) (auto simp: dmem_def names_itself_def split: if_splits)
  with a(1) condition_rule_name show ?thesis by (auto simp: names_itself_def)
qed

lemma load_specs_inv:
  assumes "names_itself reg" and "dict_ok reg"
  shows "names_itself (snd (load_specs vs n reg)) \<and> (\<forall>k. dmem k reg \<longrightarrow> dget (snd (load_specs vs n reg)) k = dget reg k) \<and>
    (\<forall>m. fst (load_specs vs n reg) = Inr m \<longrightarrow> length (snd (load_specs vs n reg)) + n = length reg + m)"
  using assms
proof (induction vs arbitrary: n reg)
  case (Cons v vs)
  show ?case
  proof (cases "\<exists>spec s f. v = PDict spec \<and> dget_or spec ''name'' PNone = PStr s \<and> s \<noteq> [] \<and> \<not> dmem s reg \<and> dget spec ''field'' = Some (PStr f)")
    case True
    then obtain spec s f where s: "v = PDict spec" "dget_or spec ''name'' PNone = PStr s" "s \<noteq> []" "\<not> dmem s reg" "dget spec ''field'' = Some (PStr f)" by blast
    let ?reg = "dset s (condition_rule s f spec) reg"
    have e: "load_specs (v # vs) n reg = load_specs vs (n + 1) ?reg" using s by simp
    have l: "length ?reg = Suc (length reg)"
      using s(4) alist.keys_put [of s "condition_rule s f spec" reg] by (metis dmem_iff length_append_singleton length_map)
    have g: "dget ?reg k = dget reg k" if "dmem k reg" for k using that s(4) by (auto simp: dget_dset)
    have m: "dmem k ?reg" if "dmem k reg" for k using that by (auto simp: dmem_def dget_dset)
    from Cons.IH [OF names_itself_new [OF Cons.prems(1) s(4), where f = f and spec = spec] alist.ok_put [OF Cons.prems(2)], where n = "n + 1"] show ?thesis
      unfolding e using l g m by simp
  next
    case False
    then have "load_specs (v # vs) n reg = load_specs vs n reg \<or> (\<exists>x. load_specs (v # vs) n reg = (Inl x, reg))"
      by (auto simp: Let_def split: pyval.splits option.splits)
    with Cons show ?thesis by fastforce
  qed
qed simp

text \<open>
  \<open>load_domain_rules\<close>, then \<open>execute_rule\<close>. Loading the rules of a knowledge base, even one that breaks off,
  leaves every built-in rule what it was, and a complete load reports the number of rules it added. A rule
  executed after it answers under its own name and with a confidence of at least the floor of the context.
\<close>

theorem domain_rules_extend:
  assumes "load_domain_rules kb builtin_rules = (res, reg)"
  shows "(\<forall>(n, fn) \<in> set builtin_rules. dget reg n = Some fn) \<and>
    (\<forall>k. res = Inr k \<longrightarrow> length reg = length builtin_rules + k) \<and>
    (\<forall>name e ctx r. execute_rule reg name e ctx = Inr (Some r) \<longrightarrow> dmem name reg \<and> ix_rule r = name \<and>
       (\<exists>c. py_num (ix_confidence r) = Some c \<and> to_rat (ic_floor ctx) \<le> c))"
proof -
  have ok: "dict_ok builtin_rules" by (simp add: builtin_rules_def)
  have inv: "names_itself reg" "\<And>k. dmem k builtin_rules \<Longrightarrow> dget reg k = dget builtin_rules k"
    "\<And>k. res = Inr k \<Longrightarrow> length reg = length builtin_rules + k"
    using assms load_specs_inv [OF builtin_names ok, of _ 0] builtin_names
    by (auto simp: load_domain_rules_def split: sum.splits) (metis fst_conv snd_conv add_0_right)+
  have keep: "dget reg n = Some fn" if "(n, fn) \<in> set builtin_rules" for n fn
  proof -
    have "dget builtin_rules n = Some fn" using that ok by simp
    with inv(2) [of n] show ?thesis by (simp add: dmem_def)
  qed
  have "dmem name reg \<and> ix_rule r = name \<and> (\<exists>c. py_num (ix_confidence r) = Some c \<and> to_rat (ic_floor ctx) \<le> c)"
    if "execute_rule reg name e ctx = Inr (Some r)" for name e ctx r
  proof -
    from that obtain fn c where fn: "dget reg name = Some fn" "fn e ctx = Inr (Some r)" "py_num (ix_confidence r) = Some c" "\<not> c < to_rat (ic_floor ctx)"
      by (auto simp: execute_rule_def get_rule_def bind_res_Inr_iff split: option.splits sum.splits if_splits)
    with inv(1) show ?thesis by (auto simp: names_itself_def dmem_def not_less dest!: map_of_SomeD)
  qed
  with keep inv(3) show ?thesis by blast
qed

theorem domain_rules_extend_witness:
  "\<exists>res reg. load_domain_rules [] builtin_rules = (res, reg) \<and> length reg = length builtin_rules"
proof -
  have l: "load_domain_rules [] builtin_rules = (Inr 0, builtin_rules)" by (simp add: load_domain_rules_def dget_or_def)
  from domain_rules_extend [OF l] l show ?thesis by auto
qed

text \<open>Titles are searched for parts of words: a coordinator is an executive, for the \<open>coo\<close> in it.\<close>

lemma coordinator_is_executive: "fst (persona_of ''sales coordinator'') = ''executive''"
  by (simp add: persona_of_def persona_keywords_def is_substring.simps)

text \<open>An employee count that is no number hides a revenue that is one.\<close>

lemma bad_count_hides_revenue:
  "infer_company_size_tier [(''employee_count'', PStr ''n/a''), (''revenue'', PInt 5)] ctx = Inr None"
proof -
  have "py_int (PStr ''n/a'') = Inl ValueError" by code_simp
  then show ?thesis by (simp add: infer_company_size_tier_def get_either_def dget_or_def Let_def split: sum.split)
qed

end
