(* ===== verification/PacketRouter.thy ===== *)
theory PacketRouter
  imports DerivationGraph
begin

text \<open>
  \<open>app/engines/packet_router.py\<close> and \<open>app/services/gate_client.py\<close>: every packet leaves through
  Gate. The Gate client of the SDK is a parameter: \<open>gate k\<close> is what the \<open>k\<close>-th attempt of an
  operation comes to. An operation returns its result and the trace of what it did, sends and
  pauses in order. JSON text and sha256 are the parameters \<open>dumps\<close> and \<open>sha\<close>.
\<close>

section \<open>The client's environment window\<close>

text \<open>
  \<open>build_gate_client_config\<close>: the SDK factory \<open>sdk\<close> reads the variable \<open>GATE_URL\<close>, which is made
  visible for the length of that call. \<open>gate_url_window url body env\<close> is the context manager
  around \<open>body\<close>, which may raise but does not change the variable.
\<close>

definition gate_url_window :: "string \<Rightarrow> (string option \<Rightarrow> 'e + 'a) \<Rightarrow> string option \<Rightarrow> ('e + 'a) \<times> string option" where
  "gate_url_window url body env =
     (let already_set = (py_strip (case env of None \<Rightarrow> [] | Some u \<Rightarrow> u) \<noteq> [])
      in if already_set then (body env, env)
         else (let r = body (Some url) in (r, case env of None \<Rightarrow> None | Some previous \<Rightarrow> Some previous)))"

definition strip_slashes :: "string \<Rightarrow> string" where
  "strip_slashes s = rev (dropWhile (\<lambda>c. c = CHR ''/'') (rev s))"

definition eie_node_name :: string where
  "eie_node_name = ''enrichment-engine''"

definition build_gate_client_config ::
    "(string option \<Rightarrow> pyerr + fields) \<Rightarrow> string \<Rightarrow> pyval \<Rightarrow> string option \<Rightarrow> (pyerr + fields) \<times> string option" where
  "build_gate_client_config sdk gate_url timeout_seconds env =
     (let normalized = strip_slashes (py_strip gate_url)
      in if normalized = [] then (Inl ValueError, env)
         else (let (base, env') = gate_url_window normalized sdk env
               in (bind_res base (\<lambda>b. Inr (dupdate b
                     [(''gate_url'', PStr normalized), (''local_node'', PStr eie_node_name),
                      (''timeout_seconds'', PFloat (safe_float timeout_seconds 0))])), env')))"

section \<open>Routing\<close>

text \<open>The client's exceptions; \<open>HttpStatus b\<close> carries \<open>is_server_error\<close>.\<close>

datatype gate_error = ConnectionFailed | TimedOut | HttpStatus bool | OtherClientError

datatype attempt_outcome = Answered fields string | ClientFailed gate_error | Crashed string

datatype route_error = NodeUnreachable "gate_error option" | Propagated string

datatype route_event = Sent "string option" | Slept f64

definition max_attempts :: nat where
  "max_attempts = 2"

definition route_timeout :: f64 where
  "route_timeout = f_of_int 10"

definition backoff_base_seconds :: f64 where
  "backoff_base_seconds = 1"

definition retry_allowed :: "gate_error \<Rightarrow> bool \<Rightarrow> bool" where
  "retry_allowed exc has_idempotency_key =
     (case exc of
        ConnectionFailed \<Rightarrow> True
      | TimedOut \<Rightarrow> has_idempotency_key
      | HttpStatus server_error \<Rightarrow> server_error \<and> has_idempotency_key
      | OtherClientError \<Rightarrow> False)"

definition has_key :: "string option \<Rightarrow> bool" where
  "has_key key = (case key of Some (c # cs) \<Rightarrow> True | _ \<Rightarrow> False)"

text \<open>The loop over the attempts \<open>k\<close>, \<open>left\<close> of them remaining.\<close>

fun route_from :: "(nat \<Rightarrow> attempt_outcome) \<Rightarrow> string option \<Rightarrow> nat \<Rightarrow> nat \<Rightarrow> gate_error option \<Rightarrow>
    (route_error + fields) \<times> route_event list" where
  "route_from gate key 0 k last_exc = (Inl (NodeUnreachable last_exc), [])"
| "route_from gate key (Suc left) k last_exc =
     (case gate k of
        Answered payload packet_id \<Rightarrow> (Inr (dset ''packet_id'' (PStr packet_id) payload), [Sent key])
      | Crashed e \<Rightarrow> (Inl (Propagated e), [Sent key])
      | ClientFailed exc \<Rightarrow>
          if k < max_attempts \<and> retry_allowed exc (has_key key)
          then (let (r, tr) = route_from gate key left (Suc k) (Some exc)
                in (r, Sent key # Slept (backoff_base_seconds * f_of_int (2 ^ (k - 1))) # tr))
          else (Inl (NodeUnreachable (Some exc)), [Sent key]))"

definition route :: "(nat \<Rightarrow> attempt_outcome) \<Rightarrow> string option \<Rightarrow> (route_error + fields) \<times> route_event list" where
  "route gate key = route_from gate key max_attempts 1 None"

text \<open>Fire and forget: whatever happens is logged; only the trace remains.\<close>

definition route_fire_and_forget :: "(nat \<Rightarrow> attempt_outcome) \<Rightarrow> string option \<Rightarrow> route_event list" where
  "route_fire_and_forget gate key = snd (route gate key)"

definition notify_score_invalidate :: "(fields \<Rightarrow> nat \<Rightarrow> attempt_outcome) \<Rightarrow> string \<Rightarrow> string option \<Rightarrow> route_event list" where
  "notify_score_invalidate gate entity_id domain =
     route_fire_and_forget (gate [(''entity_id'', PStr entity_id), (''domain'', PStr (case domain of None \<Rightarrow> [] | Some d \<Rightarrow> d))]) None"

section \<open>Graph synchronisation\<close>

fun is_primitive :: "pyval \<Rightarrow> bool" where
  "is_primitive (PList xs) = False"
| "is_primitive (PDict d) = False"
| "is_primitive v = True"

definition storable :: "pyval \<Rightarrow> bool" where
  "storable v = (is_primitive v \<or> (case v of PList xs \<Rightarrow> list_all is_primitive xs | _ \<Rightarrow> False))"

definition sync_value :: "(pyval \<Rightarrow> string) \<Rightarrow> pyval \<Rightarrow> pyval" where
  "sync_value dumps v = (if storable v then v else PStr (dumps v))"

definition add_sync_field :: "(pyval \<Rightarrow> string) \<Rightarrow> string \<Rightarrow> string \<times> pyval \<Rightarrow> fields \<Rightarrow> fields" where
  "add_sync_field dumps id_property kv row =
     (if fst kv \<in> {id_property, ''entity_id''} then row else dset (fst kv) (sync_value dumps (snd kv)) row)"

definition graph_sync_row :: "(pyval \<Rightarrow> string) \<Rightarrow> string \<Rightarrow> fields \<Rightarrow> string option \<Rightarrow> string \<Rightarrow> fields" where
  "graph_sync_row dumps entity_id fs domain id_property =
     (let row0 = dset ''entity_id'' (PStr entity_id) [(id_property, PStr entity_id)];
          row1 = (case domain of Some (c # cs) \<Rightarrow> dset ''domain'' (PStr (c # cs)) row0 | _ \<Rightarrow> row0)
      in dset ''enriched_by'' (PStr eie_node_name) (fold (add_sync_field dumps id_property) fs row1))"

definition sync_idempotency_key :: "(pyval \<Rightarrow> string) \<Rightarrow> (string \<Rightarrow> string) \<Rightarrow> string \<Rightarrow> string \<Rightarrow> fields \<Rightarrow> string" where
  "sync_idempotency_key dumps sha tenant entity_id row =
     ''eie:sync:'' @ tenant @ '':'' @ entity_id @ '':'' @ take 16 (sha (dumps (PDict row)))"

text \<open>
  \<open>notify_graph_sync\<close>: \<open>gate payload\<close> answers the attempts with that payload. An unreachable node
  is the value \<open>None\<close>; an exception outside the client's family propagates.
\<close>

definition notify_graph_sync ::
    "(pyval \<Rightarrow> string) \<Rightarrow> (string \<Rightarrow> string) \<Rightarrow> (fields \<Rightarrow> nat \<Rightarrow> attempt_outcome) \<Rightarrow> string \<Rightarrow> string \<Rightarrow> string \<Rightarrow> string \<Rightarrow>
     fields \<Rightarrow> string option \<Rightarrow> (string + fields option) \<times> route_event list" where
  "notify_graph_sync dumps sha gate entity_type id_property tenant entity_id fs domain =
     (let row = graph_sync_row dumps entity_id fs domain id_property;
          (r, tr) = route (gate [(''entity_type'', PStr entity_type), (''batch'', PList [PDict row])])
                      (Some (sync_idempotency_key dumps sha tenant entity_id row))
      in (case r of Inr data \<Rightarrow> Inr (Some data)
          | Inl (NodeUnreachable e) \<Rightarrow> Inr None
          | Inl (Propagated e) \<Rightarrow> Inl e, tr))"

section \<open>Retries\<close>

lemma route_cases:
  obtains (once) "snd (route gate key) = [Sent key]"
      "\<And>exc. gate 1 = ClientFailed exc \<Longrightarrow> \<not> retry_allowed exc (has_key key)"
    | (twice) exc where "snd (route gate key) = [Sent key, Slept 1, Sent key]" "gate 1 = ClientFailed exc"
        "retry_allowed exc (has_key key)"
proof (cases "\<exists>exc. gate 1 = ClientFailed exc \<and> retry_allowed exc (has_key key)")
  case True
  then obtain exc where e: "gate 1 = ClientFailed exc" "retry_allowed exc (has_key key)" by blast
  have one: "backoff_base_seconds * f_of_int (2 ^ (1 - 1)) = 1"
    by (simp add: backoff_base_seconds_def f64_eval)
  have "snd (route gate key) = [Sent key, Slept 1, Sent key]"
    using e one by (simp add: route_def max_attempts_def numeral_2_eq_2 split_beta split: attempt_outcome.split)
  with e twice show ?thesis by blast
next
  case False
  then have "snd (route gate key) = [Sent key]"
    by (auto simp: route_def max_attempts_def numeral_2_eq_2 split: attempt_outcome.split)
  with False once show ?thesis by blast
qed

definition sends :: "route_event list \<Rightarrow> nat" where
  "sends tr = length (filter (\<lambda>e. case e of Sent _ \<Rightarrow> True | Slept _ \<Rightarrow> False) tr)"

definition pauses :: "route_event list \<Rightarrow> f64 list" where
  "pauses tr = concat (map (\<lambda>e. case e of Sent _ \<Rightarrow> [] | Slept x \<Rightarrow> [x]) tr)"

text \<open>
  C34: a retry never repeats a domain effect. If Gate executes nothing for an attempt it could not be
  reached for, an operation without an idempotency key executes at most once, however its attempts
  end; with a key every attempt carries that same key. There are never more than two attempts, and
  the pauses between them add up to at most one second.
\<close>

theorem retries_never_repeat_effects:
  assumes unreached: "\<And>k. gate k = ClientFailed ConnectionFailed \<Longrightarrow> \<not> executed k"
  shows "sends (snd (route gate key)) \<le> 2 \<and> pauses (snd (route gate key)) \<in> {[], [1]} \<and>
    (\<forall>k. Sent k \<in> set (snd (route gate key)) \<longrightarrow> k = key) \<and>
    (\<not> has_key key \<longrightarrow> length (filter executed [1..<Suc (sends (snd (route gate key)))]) \<le> 1)"
proof (cases rule: route_cases [of gate key])
  case once
  then show ?thesis by (simp add: sends_def pauses_def)
next
  case (twice exc)
  have "\<not> has_key key \<Longrightarrow> \<not> executed 1"
    using twice(2,3) unreached [of 1] by (cases exc) (simp_all add: retry_allowed_def)
  then show ?thesis using twice(1) by (auto simp: sends_def pauses_def upt_rec)
qed

theorem retries_never_repeat_effects_witness:
  "length (filter (\<lambda>k. k = 2) [1..<Suc (sends (snd (route (\<lambda>k. if k = 1 then ClientFailed ConnectionFailed else Answered [] ''p'') None)))]) \<le> 1 \<and>
   sends (snd (route (\<lambda>k. if k = 1 then ClientFailed ConnectionFailed else Answered [] ''p'') None)) = 2"
  using retries_never_repeat_effects [of "\<lambda>k. if k = 1 then ClientFailed ConnectionFailed else Answered [] ''p''" "\<lambda>k. k = 2" None]
  by (simp add: has_key_def route_def max_attempts_def numeral_2_eq_2 retry_allowed_def sends_def pauses_def)

text \<open>The attempts and the pause stay inside the node cap of 25 seconds.\<close>

lemma route_time:
  assumes "\<And>k. dur k \<le> to_rat route_timeout"
  shows "sum_list (map dur [1..<Suc (sends (snd (route gate key)))]) + sum_list (map to_rat (pauses (snd (route gate key)))) \<le> 21"
proof -
  have t: "to_rat route_timeout = 10" and one: "to_rat 1 = 1"
    by (simp_all add: route_timeout_def f64_eval)
  have d: "dur 1 \<le> 10" "dur 2 \<le> 10" using assms [of 1] assms [of 2] t by simp_all
  show ?thesis
  proof (cases rule: route_cases [of gate key])
    case once
    then show ?thesis using d by (simp add: sends_def pauses_def)
  next
    case (twice exc)
    then show ?thesis using d one by (simp add: sends_def pauses_def upt_rec numeral_2_eq_2)
  qed
qed

section \<open>What the graph receives\<close>

lemma sync_value_storable: "storable (sync_value dumps v)"
  by (simp add: sync_value_def storable_def)

lemma sync_fields_storable:
  "(\<forall>v \<in> set (dvalues row). storable v) \<Longrightarrow> \<forall>v \<in> set (dvalues (fold (add_sync_field dumps p) fs row)). storable v"
proof (induction fs arbitrary: row)
  case (Cons kv fs)
  have "\<forall>v \<in> set (dvalues (add_sync_field dumps p kv row)). storable v"
    using Cons.prems dvalues_dset [of "fst kv" "sync_value dumps (snd kv)" row]
    by (auto simp: add_sync_field_def sync_value_storable simp del: set_map)
  then show ?case using Cons.IH by simp
qed simp

lemma sync_fields_other:
  "k \<notin> set (dkeys fs) \<Longrightarrow> dget (fold (add_sync_field dumps p) fs row) k = dget row k"
proof (induction fs arbitrary: row)
  case (Cons kv fs)
  then have "dget (add_sync_field dumps p kv row) k = dget row k"
    by (auto simp: add_sync_field_def dget_dset)
  with Cons show ?case by simp
qed simp

lemma sync_fields_id:
  "k \<in> {p, ''entity_id''} \<Longrightarrow> dget (fold (add_sync_field dumps p) fs row) k = dget row k"
  by (induction fs arbitrary: row) (auto simp: add_sync_field_def dget_dset)

lemma sync_fields_get:
  "dict_ok fs \<Longrightarrow> dget fs k = Some v \<Longrightarrow> k \<notin> {p, ''entity_id''} \<Longrightarrow>
   dget (fold (add_sync_field dumps p) fs row) k = Some (sync_value dumps v)"
proof (induction fs arbitrary: row)
  case (Cons kv fs)
  obtain k' w where kv: "kv = (k', w)" by (cases kv)
  show ?case
  proof (cases "k' = k")
    case True
    then have "k \<notin> set (dkeys fs)" "w = v" using Cons.prems kv by simp_all
    moreover have "add_sync_field dumps p kv row = dset k (sync_value dumps w) row"
      using Cons.prems(3) kv True by (simp add: add_sync_field_def)
    ultimately show ?thesis using sync_fields_other [of k fs dumps p] by (simp add: dget_dset del: set_map)
  next
    case False
    with Cons kv show ?thesis by simp
  qed
qed simp

text \<open>
  The row sent to the graph holds only values a Neo4j property can hold, identifies the entity in
  both id properties whatever the fields say, and carries every enriched field: as it is where it is
  storable, as its JSON text otherwise. The exceptions are the names the row uses itself: the id
  properties and \<open>enriched_by\<close>.
\<close>

theorem sync_row_complete:
  assumes "dict_ok fs" and "id_property \<noteq> ''enriched_by''" and "id_property \<noteq> ''domain''"
  shows "(\<forall>v \<in> set (dvalues (graph_sync_row dumps eid fs domain id_property)). storable v) \<and>
    dget (graph_sync_row dumps eid fs domain id_property) id_property = Some (PStr eid) \<and>
    dget (graph_sync_row dumps eid fs domain id_property) ''entity_id'' = Some (PStr eid) \<and>
    dget (graph_sync_row dumps eid fs domain id_property) ''enriched_by'' = Some (PStr eie_node_name) \<and>
    (\<forall>k v. dget fs k = Some v \<longrightarrow> k \<notin> {id_property, ''entity_id'', ''enriched_by''} \<longrightarrow>
       dget (graph_sync_row dumps eid fs domain id_property) k = Some (if storable v then v else PStr (dumps v)))"
proof -
  define row1 where "row1 = (case domain of Some (c # cs) \<Rightarrow> dset ''domain'' (PStr (c # cs)) (dset ''entity_id'' (PStr eid) [(id_property, PStr eid)])
    | _ \<Rightarrow> dset ''entity_id'' (PStr eid) [(id_property, PStr eid)])"
  have row: "graph_sync_row dumps eid fs domain id_property =
      dset ''enriched_by'' (PStr eie_node_name) (fold (add_sync_field dumps id_property) fs row1)"
    by (simp only: graph_sync_row_def row1_def Let_def)
  have base: "\<forall>v \<in> set (dvalues row1). storable v"
    by (auto simp: row1_def storable_def split: option.split list.split)
  have ids: "dget row1 id_property = Some (PStr eid)" "dget row1 ''entity_id'' = Some (PStr eid)"
    using assms(3) by (auto simp: row1_def dget_dset split: option.split list.split)
  have all: "\<forall>v \<in> set (dvalues (graph_sync_row dumps eid fs domain id_property)). storable v"
    using sync_fields_storable [OF base, of dumps id_property fs] dvalues_dset [of "''enriched_by''" "PStr eie_node_name"]
    unfolding row by (fastforce simp: storable_def simp del: set_map)
  show ?thesis
    using all assms(2) ids sync_fields_get [OF assms(1), of _ _ id_property dumps row1]
    by (simp add: row dget_dset sync_fields_id sync_value_def)
qed

theorem sync_row_complete_witness:
  "dget (graph_sync_row (\<lambda>v. ''json'') ''e1'' [(''city'', PStr ''Rome''), (''facility_id'', PInt 3), (''specs'', PDict [])] (Some ''plastics'') ''facility_id'') ''specs'' =
     Some (PStr ''json'') \<and>
   dget (graph_sync_row (\<lambda>v. ''json'') ''e1'' [(''city'', PStr ''Rome''), (''facility_id'', PInt 3), (''specs'', PDict [])] (Some ''plastics'') ''facility_id'') ''facility_id'' =
     Some (PStr ''e1'')"
  using sync_row_complete [of "[(''city'', PStr ''Rome''), (''facility_id'', PInt 3), (''specs'', PDict [])]" "''facility_id''" "\<lambda>v. ''json''" "''e1''" "Some ''plastics''"]
  by (simp add: storable_def)

text \<open>A field called \<open>enriched_by\<close> is lost, and one called \<open>domain\<close> replaces the domain of the call.\<close>

theorem row_names_collide:
  "dget (graph_sync_row dumps ''e1'' [(''enriched_by'', PStr ''clay''), (''domain'', PStr ''metals'')] (Some ''plastics'') ''facility_id'') ''enriched_by'' =
     Some (PStr eie_node_name) \<and>
   dget (graph_sync_row dumps ''e1'' [(''enriched_by'', PStr ''clay''), (''domain'', PStr ''metals'')] (Some ''plastics'') ''facility_id'') ''domain'' =
     Some (PStr ''metals'')"
  by (simp add: graph_sync_row_def add_sync_field_def sync_value_def storable_def)

section \<open>The environment is left alone\<close>

theorem gate_url_restored: "snd (build_gate_client_config sdk url timeout env) = env"
  by (auto simp: build_gate_client_config_def gate_url_window_def Let_def split: option.splits)

lemma window_visible:
  "url \<noteq> [] \<Longrightarrow> py_strip url = url \<Longrightarrow> \<exists>u. fst (gate_url_window url body env) = body (Some u) \<and> py_strip u \<noteq> []"
  by (cases env) (auto simp: gate_url_window_def Let_def)

end
