(* ===== verification/Schemas.thy ===== *)
theory Schemas
  imports EnrichPipeline
begin

text \<open>
  \<open>app/models/schemas.py\<close>: the request and response models of the API. Pydantic turns the entries
  of a payload into values of the declared types; that conversion is not modelled: a \<open>raw_request\<close>
  holds the converted values, with \<open>None\<close> where the payload has no entry. What is modelled is the
  source's own part: the defaults, the bounds of the fields and the validators, in the order they
  run. JSON parsing of a schema text is the parameter \<open>loads\<close> (\<open>None\<close> for a text that is no JSON).
\<close>

record api_request = enrich_request +
  rq_object_type :: string
  rq_objective :: string
  rq_kb_context :: "string option"
  rq_idempotency_key :: "string option"

text \<open>A number of a payload: finite, or one of NaN and the infinities.\<close>

datatype json_number = Finite f64 | NotFinite

record raw_request =
  rw_entity :: fields
  rw_object_type :: string
  rw_schema :: pyval
  rw_objective :: string
  rw_kb_context :: "string option"
  rw_consensus_threshold :: "f64 option"
  rw_field_thresholds :: "(string, json_number) dict option"
  rw_max_variations :: "int option"
  rw_idempotency_key :: "string option"

section \<open>Validators\<close>

definition parse_schema_string :: "(string \<Rightarrow> pyval option) \<Rightarrow> pyval \<Rightarrow> pyval" where
  "parse_schema_string loads v =
     (case v of
        PStr s \<Rightarrow> (case loads s of Some (PDict d) \<Rightarrow> PDict d | _ \<Rightarrow> PNone)
      | _ \<Rightarrow> v)"

text \<open>The declared type \<open>dict[str, str] | None\<close>.\<close>

definition as_schema :: "pyval \<Rightarrow> pyerr + (string, string) dict option" where
  "as_schema v =
     (case v of
        PNone \<Rightarrow> Inr None
      | PDict d \<Rightarrow> bind_res (map_res (\<lambda>(k, w). case w of PStr t \<Rightarrow> Inr (k, t) | _ \<Rightarrow> Inl ValueError) d) (\<lambda>s. Inr (Some s))
      | _ \<Rightarrow> Inl ValueError)"

definition clean_threshold :: "string \<times> json_number \<Rightarrow> pyerr + string \<times> f64" where
  "clean_threshold kv =
     (case snd kv of
        NotFinite \<Rightarrow> Inl ValueError
      | Finite number \<Rightarrow> if number < 0 \<or> 1 < number then Inl ValueError else Inr (fst kv, number))"

definition thresholds_are_unit_interval :: "(string, json_number) dict option \<Rightarrow> pyerr + (string, f64) dict option" where
  "thresholds_are_unit_interval value =
     (case value of
        None \<Rightarrow> Inr None
      | Some d \<Rightarrow> bind_res (map_res clean_threshold d) (\<lambda>cleaned. Inr (Some (dupdate [] cleaned))))"

definition requested_fields_name_their_threshold :: "api_request \<Rightarrow> pyerr + api_request" where
  "requested_fields_name_their_threshold rq =
     (case (rq_field_thresholds rq, rq_schema rq) of
        (Some ths, Some (s # ss)) \<Rightarrow>
          (let missing = filter (\<lambda>name. \<not> dmem name ths) (dkeys (s # ss))
           in if missing \<noteq> [] then Inl ValueError else Inr rq)
      | _ \<Rightarrow> Inr rq)"

definition default_consensus_threshold :: f64 where
  "default_consensus_threshold = flt (13 / 20)"

definition check_unit :: "f64 \<Rightarrow> pyerr + f64" where
  "check_unit x = (if x < 0 \<or> 1 < x then Inl ValueError else Inr x)"

definition check_variations :: "int \<Rightarrow> pyerr + int" where
  "check_variations n = (if n < 1 \<or> 10 < n then Inl ValueError else Inr n)"

definition validate_request :: "(string \<Rightarrow> pyval option) \<Rightarrow> raw_request \<Rightarrow> pyerr + api_request" where
  "validate_request loads raw =
     bind_res (as_schema (parse_schema_string loads (rw_schema raw))) (\<lambda>schema.
     bind_res (check_unit (case rw_consensus_threshold raw of None \<Rightarrow> default_consensus_threshold | Some x \<Rightarrow> x)) (\<lambda>consensus.
     bind_res (thresholds_are_unit_interval (rw_field_thresholds raw)) (\<lambda>thresholds.
     bind_res (check_variations (case rw_max_variations raw of None \<Rightarrow> 5 | Some n \<Rightarrow> n)) (\<lambda>variations.
       requested_fields_name_their_threshold
         \<lparr>rq_entity = rw_entity raw, rq_schema = schema, rq_consensus_threshold = consensus,
          rq_field_thresholds = thresholds, rq_max_variations = variations,
          rq_object_type = rw_object_type raw, rq_objective = rw_objective raw,
          rq_kb_context = rw_kb_context raw, rq_idempotency_key = rw_idempotency_key raw\<rparr>))))"

definition validate_batch :: "(string \<Rightarrow> pyval option) \<Rightarrow> raw_request list \<Rightarrow> pyerr + api_request list" where
  "validate_batch loads raws = (if 50 < length raws then Inl ValueError else map_res (validate_request loads) raws)"

section \<open>Responses\<close>

record api_response =
  ap_fields :: fields
  ap_confidence :: f64
  ap_kb_content_hash :: string
  ap_variation_count :: int
  ap_consensus_threshold :: f64
  ap_uncertainty_score :: f64
  ap_pass_count :: int
  ap_inference_version :: string
  ap_processing_time_ms :: int
  ap_enrichment_payload :: "fields option"
  ap_feature_vector :: "fields option"
  ap_kb_files_consulted :: "string list"
  ap_kb_fragment_ids :: "string list"
  ap_inferences :: "pyval list"
  ap_quality_tier :: string
  ap_grade_matches :: "pyval list"
  ap_tokens_used :: int
  ap_failure_reason :: "string option"
  ap_state :: string

definition default_response :: api_response where
  "default_response =
     \<lparr>ap_fields = [], ap_confidence = 0, ap_kb_content_hash = [], ap_variation_count = 0, ap_consensus_threshold = 0,
      ap_uncertainty_score = 0, ap_pass_count = 0, ap_inference_version = ''v2.2.0'', ap_processing_time_ms = 0,
      ap_enrichment_payload = None, ap_feature_vector = None, ap_kb_files_consulted = [], ap_kb_fragment_ids = [],
      ap_inferences = [], ap_quality_tier = ''unknown'', ap_grade_matches = [], ap_tokens_used = 0,
      ap_failure_reason = None, ap_state = ''completed''\<rparr>"

text \<open>
  The responses of the loop and of the pipeline as API responses: \<open>rest\<close> carries the entries those
  models leave out, \<open>reason\<close> the text of a pipeline failure.
\<close>

definition loop_answer :: "api_response \<Rightarrow> loop_response \<Rightarrow> api_response" where
  "loop_answer rest lr =
     rest\<lparr>ap_fields := lr_fields lr, ap_confidence := lr_confidence lr, ap_variation_count := lr_variation_count lr,
          ap_uncertainty_score := lr_uncertainty lr, ap_pass_count := int (lr_pass_count lr),
          ap_inference_version := ''v3.0.0-convergence'', ap_tokens_used := lr_tokens_used lr,
          ap_failure_reason := lr_failure_reason lr,
          ap_state := (case lr_failure_reason lr of None \<Rightarrow> ''completed'' | Some r \<Rightarrow> ''failed'')\<rparr>"

definition pipeline_answer :: "(pipeline_failure \<Rightarrow> string) \<Rightarrow> api_response \<Rightarrow> enrich_response \<Rightarrow> api_response" where
  "pipeline_answer reason rest er =
     rest\<lparr>ap_fields := er_fields er, ap_confidence := er_confidence er, ap_variation_count := er_variation_count er,
          ap_consensus_threshold := er_threshold er, ap_tokens_used := er_tokens er,
          ap_failure_reason := map_option reason (er_failure er),
          ap_state := (if er_completed er then ''completed'' else ''failed'')\<rparr>"

section \<open>What a valid request guarantees\<close>

definition unit_dict :: "(string, f64) dict \<Rightarrow> bool" where
  "unit_dict d \<longleftrightarrow> (\<forall>kv \<in> set d. 0 \<le> snd kv \<and> snd kv \<le> 1)"

lemma clean_all: "map_res clean_threshold d = Inr d' \<longleftrightarrow> d = map (apsnd Finite) d' \<and> unit_dict d'"
proof (induction d arbitrary: d')
  case Nil
  then show ?case by (auto simp: unit_dict_def)
next
  case (Cons kv d)
  then show ?case
    by (cases kv; cases "snd kv"; cases d')
      (auto simp: clean_threshold_def bind_res_Inr_iff unit_dict_def not_less split: if_splits)
qed

lemma thresholds_checked:
  assumes "\<forall>d. ths = Some d \<longrightarrow> dict_ok d"
  shows "thresholds_are_unit_interval ths = Inr out \<longleftrightarrow>
    ths = map_option (map (apsnd Finite)) out \<and> (\<forall>d. out = Some d \<longrightarrow> unit_dict d)"
proof (cases ths)
  case None
  then show ?thesis by (auto simp: thresholds_are_unit_interval_def)
next
  case (Some d)
  have ok: "dupdate [] c = c" if "d = map (apsnd Finite) c" for c :: "(string, f64) dict"
  proof -
    have "dict_ok c" using assms Some that by (simp add: comp_def)
    then show ?thesis using dupdate_append [of "[]" c] by simp
  qed
  then show ?thesis
    unfolding Some by (cases out) (auto simp: thresholds_are_unit_interval_def bind_res_Inr_iff clean_all)
qed

text \<open>The schema an entry of the payload stands for: a dict of texts, or a JSON text of one; any other text stands for none.\<close>

lemma text_values: "map_res (\<lambda>(k, w). case w of PStr t \<Rightarrow> Inr (k, t) | _ \<Rightarrow> Inl ValueError) d = Inr s \<longleftrightarrow> d = map (apsnd PStr) s"
proof (induction d arbitrary: s)
  case (Cons kv d)
  then show ?case
    by (cases kv; cases "snd kv"; cases s) (auto simp: bind_res_Inr_iff)
qed auto

lemma schema_read:
  "as_schema (parse_schema_string loads v) = Inr sch \<longleftrightarrow>
     (case v of
        PNone \<Rightarrow> sch = None
      | PDict d \<Rightarrow> (\<exists>s. sch = Some s \<and> d = map (apsnd PStr) s)
      | PStr t \<Rightarrow> (case loads t of Some (PDict d) \<Rightarrow> (\<exists>s. sch = Some s \<and> d = map (apsnd PStr) s) | _ \<Rightarrow> sch = None)
      | _ \<Rightarrow> False)"
  by (auto simp: as_schema_def parse_schema_string_def bind_res_Inr_iff text_values split: pyval.split option.split)

text \<open>A requested field has its threshold, where thresholds are given.\<close>

definition thresholds_cover :: "(string, f64) dict option \<Rightarrow> (string, string) dict option \<Rightarrow> bool" where
  "thresholds_cover thresholds schema \<longleftrightarrow>
     (\<forall>d s. thresholds = Some d \<longrightarrow> schema = Some s \<longrightarrow> (\<forall>name \<in> set (dkeys s). dmem name d))"

lemma names_checked:
  "requested_fields_name_their_threshold rq =
     (if thresholds_cover (rq_field_thresholds rq) (rq_schema rq) then Inr rq else Inl ValueError)"
  by (auto simp: requested_fields_name_their_threshold_def thresholds_cover_def filter_empty_conv
      split: option.split list.split)

lemma in_unit_default: "0 \<le> default_consensus_threshold" "default_consensus_threshold \<le> 1"
  unfolding default_consensus_threshold_def by (simp_all add: f64_eval)

definition request_wf :: "api_request \<Rightarrow> bool" where
  "request_wf rq \<longleftrightarrow>
     0 \<le> rq_consensus_threshold rq \<and> rq_consensus_threshold rq \<le> 1 \<and> 1 \<le> rq_max_variations rq \<and> rq_max_variations rq \<le> 10 \<and>
     (\<forall>d. rq_field_thresholds rq = Some d \<longrightarrow> unit_dict d) \<and> thresholds_cover (rq_field_thresholds rq) (rq_schema rq)"

text \<open>
  C22: a request is accepted exactly when its schema is absent, a dict from names to texts, or a JSON text of one (a text
  that is no JSON object counts as no schema), the
  consensus threshold and every consumer threshold lie in [0, 1], the number of variations in 1 to
  10, and every field of that schema has its threshold where thresholds are given; the accepted request
  carries the caller's values, with the threshold 0.65 and five variations where none are given. In particular
  an accepted request that names its fields is one the
  convergence loop can build every pass request from.
\<close>

theorem validation_exact:
  assumes "\<forall>d. rw_field_thresholds raw = Some d \<longrightarrow> dict_ok d"
  shows "(\<forall>rq. validate_request loads raw = Inr rq \<longleftrightarrow>
      request_wf rq \<and>
      (case rw_schema raw of
         PNone \<Rightarrow> rq_schema rq = None
       | PDict d \<Rightarrow> (\<exists>s. rq_schema rq = Some s \<and> d = map (apsnd PStr) s)
       | PStr t \<Rightarrow> (case loads t of Some (PDict d) \<Rightarrow> (\<exists>s. rq_schema rq = Some s \<and> d = map (apsnd PStr) s) | _ \<Rightarrow> rq_schema rq = None)
       | _ \<Rightarrow> False) \<and>
      rq_entity rq = rw_entity raw \<and> rq_object_type rq = rw_object_type raw \<and> rq_objective rq = rw_objective raw \<and>
      rq_kb_context rq = rw_kb_context raw \<and> rq_idempotency_key rq = rw_idempotency_key raw \<and>
      rw_field_thresholds raw = map_option (map (apsnd Finite)) (rq_field_thresholds rq) \<and>
      rq_consensus_threshold rq = (case rw_consensus_threshold raw of None \<Rightarrow> flt (13 / 20) | Some x \<Rightarrow> x) \<and>
      rq_max_variations rq = (case rw_max_variations raw of None \<Rightarrow> 5 | Some n \<Rightarrow> n)) \<and>
    (\<forall>rq f fs. validate_request loads raw = Inr rq \<longrightarrow> rq_schema rq = Some (f # fs) \<longrightarrow> request_ok (enrich_request.truncate rq))"
proof -
  let ?c = "case rw_consensus_threshold raw of None \<Rightarrow> flt (13 / 20) | Some x \<Rightarrow> x"
  let ?n = "case rw_max_variations raw of None \<Rightarrow> 5 | Some n \<Rightarrow> n"
  have iff: "validate_request loads raw = Inr rq \<longleftrightarrow>
      (\<exists>schema ths. as_schema (parse_schema_string loads (rw_schema raw)) = Inr schema \<and> 0 \<le> ?c \<and> ?c \<le> 1 \<and>
        rw_field_thresholds raw = map_option (map (apsnd Finite)) ths \<and>
        (\<forall>d. ths = Some d \<longrightarrow> unit_dict d) \<and> 1 \<le> ?n \<and> ?n \<le> 10 \<and>
        thresholds_cover ths schema \<and>
        rq = \<lparr>rq_entity = rw_entity raw, rq_schema = schema, rq_consensus_threshold = ?c,
          rq_field_thresholds = ths, rq_max_variations = ?n,
          rq_object_type = rw_object_type raw, rq_objective = rw_objective raw,
          rq_kb_context = rw_kb_context raw, rq_idempotency_key = rw_idempotency_key raw\<rparr>)" for rq
    unfolding validate_request_def bind_res_Inr_iff check_unit_def check_variations_def
      thresholds_checked [OF assms] names_checked default_consensus_threshold_def
    by (auto split: if_splits)
  have "request_ok (enrich_request.truncate rq)" if "validate_request loads raw = Inr rq" "rq_schema rq = Some (f # fs)" for rq f fs
    using that unfolding iff
    by (fastforce simp: request_ok_def enrich_request.truncate_def thresholds_cover_def list_all_iff split: option.split)
  moreover have "validate_request loads raw = Inr rq \<longleftrightarrow>
      request_wf rq \<and> as_schema (parse_schema_string loads (rw_schema raw)) = Inr (rq_schema rq) \<and>
      rq_entity rq = rw_entity raw \<and> rq_object_type rq = rw_object_type raw \<and> rq_objective rq = rw_objective raw \<and>
      rq_kb_context rq = rw_kb_context raw \<and> rq_idempotency_key rq = rw_idempotency_key raw \<and>
      rw_field_thresholds raw = map_option (map (apsnd Finite)) (rq_field_thresholds rq) \<and>
      rq_consensus_threshold rq = ?c \<and> rq_max_variations rq = ?n" for rq
    unfolding iff by (cases rq) (auto simp: request_wf_def)
  ultimately show ?thesis unfolding schema_read by blast
qed

definition sample_raw :: raw_request where
  "sample_raw = \<lparr>rw_entity = [(''id'', PStr ''res.partner:5'')], rw_object_type = ''plasticos'',
     rw_schema = PDict [(''city'', PStr ''string'')], rw_objective = ''fill'', rw_kb_context = None,
     rw_consensus_threshold = None, rw_field_thresholds = Some [(''city'', Finite 1)], rw_max_variations = Some 3,
     rw_idempotency_key = Some ''k1''\<rparr>"

lemma sample_raw_valid:
  "validate_request (\<lambda>_. None) sample_raw =
     Inr \<lparr>rq_entity = [(''id'', PStr ''res.partner:5'')], rq_schema = Some [(''city'', ''string'')],
       rq_consensus_threshold = default_consensus_threshold, rq_field_thresholds = Some [(''city'', 1)],
       rq_max_variations = 3, rq_object_type = ''plasticos'', rq_objective = ''fill'', rq_kb_context = None,
       rq_idempotency_key = Some ''k1''\<rparr>"
  using in_unit_default
  by (simp add: sample_raw_def validate_request_def parse_schema_string_def as_schema_def check_unit_def check_variations_def
      thresholds_are_unit_interval_def clean_threshold_def requested_fields_name_their_threshold_def dmem_def dupdate_def not_less)

theorem validation_exact_witness:
  "request_ok (enrich_request.truncate (projr (validate_request (\<lambda>_. None) sample_raw)))"
proof -
  have "\<forall>d. rw_field_thresholds sample_raw = Some d \<longrightarrow> dict_ok d" by (simp add: sample_raw_def)
  from validation_exact [OF this, of "\<lambda>_. None"] sample_raw_valid show ?thesis by simp
qed

end
