(* ===== verification/GateConverge.thy ===== *)
theory GateConverge
  imports Schemas
begin

text \<open>
  \<open>app/services/odoo_gate_converge.py\<close>: the adapter for the older converge dialect, with the
  identity at the top level or an \<open>entity_snapshot\<close>. A payload is a Python value; a new run id and
  the pydantic conversion are the caller's.
\<close>

definition partner_writeback_allowlist :: "string list" where
  "partner_writeback_allowlist =
     [''name'', ''website'', ''city'', ''zip'', ''street'', ''street2'', ''email'', ''phone'']"

definition partner_snapshot_keys :: "string list" where
  "partner_snapshot_keys = partner_writeback_allowlist @ [''comment'', ''source_urls'']"

definition partner_target_schema :: "(string, string) dict" where
  "partner_target_schema = map (\<lambda>f. (f, ''string'')) partner_writeback_allowlist"

definition default_max_passes :: int where "default_max_passes = 3"

definition max_passes_ceiling :: int where "max_passes_ceiling = 10"

definition odoo_completed_state :: string where "odoo_completed_state = ''completed''"

text \<open>\<open>v in (None, False, "")\<close>: membership compares, so a zero counts as \<open>False\<close>.\<close>

definition absent :: "pyval \<Rightarrow> bool" where
  "absent v = (v = PNone \<or> py_eq v (PBool False) \<or> py_eq v (PStr []))"

definition entry :: "fields \<Rightarrow> string \<Rightarrow> pyval" where
  "entry d k = dget_or d k PNone"

definition is_dict :: "pyval \<Rightarrow> bool" where
  "is_dict v = (case v of PDict d \<Rightarrow> True | _ \<Rightarrow> False)"

definition stripped_text :: "pyval \<Rightarrow> string option" where
  "stripped_text v = (case v of PStr s \<Rightarrow> if py_strip s \<noteq> [] then Some (py_strip s) else None | _ \<Rightarrow> None)"

section \<open>Recognising the dialect\<close>

text \<open>The pattern \<open>^[a-z][a-z0-9_.]*:\d+$\<close> on a stripped text.\<close>

definition ref_char :: "char \<Rightarrow> bool" where
  "ref_char c = ((CHR ''a'' \<le> c \<and> c \<le> CHR ''z'') \<or> digit_val c \<noteq> None \<or> c = CHR ''_'' \<or> c = CHR ''.'')"

definition is_entity_ref :: "string \<Rightarrow> bool" where
  "is_entity_ref s =
     (case s of [] \<Rightarrow> False
      | c # cs \<Rightarrow> CHR ''a'' \<le> c \<and> c \<le> CHR ''z'' \<and>
          (case dropWhile ref_char cs of
             colon # ds \<Rightarrow> colon = CHR '':'' \<and> ds \<noteq> [] \<and> list_all (\<lambda>d. digit_val d \<noteq> None) ds
           | [] \<Rightarrow> False))"

definition snapshot_ref :: "fields \<Rightarrow> string option" where
  "snapshot_ref snap =
     (let ref = (\<lambda>v. case v of PStr s \<Rightarrow> if is_entity_ref (py_strip s) then Some (py_strip s) else None | _ \<Rightarrow> None)
      in case ref (entry snap ''id'') of Some r \<Rightarrow> Some r | None \<Rightarrow> ref (entry snap ''_odoo_entity_id''))"

definition odoo_entity_ref :: "pyval \<Rightarrow> string option" where
  "odoo_entity_ref payload =
     (case payload of
        PDict d \<Rightarrow>
          if is_dict (entry d ''entity'') then None
          else (case stripped_text (entry d ''entity_id'') of
                  Some r \<Rightarrow> Some r
                | None \<Rightarrow> (case entry d ''entity_snapshot'' of PDict snap \<Rightarrow> snapshot_ref snap | _ \<Rightarrow> None))
      | _ \<Rightarrow> None)"

definition is_odoo_compat_converge_payload :: "pyval \<Rightarrow> bool" where
  "is_odoo_compat_converge_payload payload =
     (case payload of
        PDict d \<Rightarrow> \<not> is_dict (entry d ''entity'') \<and> (is_dict (entry d ''entity_snapshot'') \<or> odoo_entity_ref payload \<noteq> None)
      | _ \<Rightarrow> False)"

section \<open>Parsing\<close>

definition normalize_source_urls :: "pyval \<Rightarrow> string list" where
  "normalize_source_urls v =
     (case v of
        PStr s \<Rightarrow> if py_strip s \<noteq> [] then [py_strip s] else []
      | PList xs \<Rightarrow> List.map_filter stripped_text xs
      | _ \<Rightarrow> [])"

definition normalize_max_passes :: "pyval \<Rightarrow> int" where
  "normalize_max_passes v =
     (if v = PNone \<or> v = PBool False \<or> v = PStr [] then default_max_passes
      else (case py_int v of
              Inl e \<Rightarrow> default_max_passes
            | Inr n \<Rightarrow> if n < 1 then 1 else min n max_passes_ceiling))"

definition snapshot_entry :: "string \<times> pyval \<Rightarrow> fields \<Rightarrow> fields" where
  "snapshot_entry kv snap =
     (let (k, v) = kv in
      if k \<notin> set partner_snapshot_keys \<or> absent v then snap
      else if k = ''source_urls''
      then (let urls = normalize_source_urls v in if urls \<noteq> [] then dset k (PList (map PStr urls)) snap else snap)
      else dset k v snap)"

record parsed_request =
  pq_entity_id :: string
  pq_domain :: string
  pq_snapshot :: fields
  pq_odoo :: fields
  pq_profile_id :: "string option"
  pq_max_passes :: int

definition parse_odoo_converge_request :: "pyval \<Rightarrow> pyerr + parsed_request" where
  "parse_odoo_converge_request payload =
     (case payload of
        PDict d \<Rightarrow>
          (case odoo_entity_ref payload of
             None \<Rightarrow> Inl ValueError
           | Some [] \<Rightarrow> Inl ValueError
           | Some ref \<Rightarrow>
               Inr \<lparr>pq_entity_id = ref,
                    pq_domain = (case stripped_text (entry d ''domain'') of Some s \<Rightarrow> s | None \<Rightarrow> ''plasticos''),
                    pq_snapshot = (case entry d ''entity_snapshot'' of PDict snap \<Rightarrow> fold snapshot_entry snap [] | _ \<Rightarrow> []),
                    pq_odoo = (case entry d ''odoo'' of PDict o_d \<Rightarrow> o_d | _ \<Rightarrow> []),
                    pq_profile_id = (let p = entry d ''profile_id'' in if absent p then None else Some (py_str p)),
                    pq_max_passes = normalize_max_passes (entry d ''max_passes'')\<rparr>)
      | _ \<Rightarrow> Inl ValueError)"

definition object_type_of :: "string \<Rightarrow> string" where
  "object_type_of entity_id =
     (if CHR '':'' \<in> set entity_id
      then (let model = takeWhile (\<lambda>c. c \<noteq> CHR '':'') entity_id in if model = [] then ''res.partner'' else model)
      else ''res.partner'')"

definition odoo_idempotency_key :: "parsed_request \<Rightarrow> string option" where
  "odoo_idempotency_key p =
     (case stripped_text (entry (pq_odoo p) ''correlation_id'') of
        Some c \<Rightarrow> Some (''converge:'' @ c)
      | None \<Rightarrow> if pq_entity_id p \<noteq> [] then Some (''converge:'' @ pq_entity_id p) else None)"

definition base_objective :: string where
  "base_objective = ''Backfill blank CRM partner fields from the entity snapshot and any source_urls. Return only confidently-resolved values for name, website, city, zip, street, street2, email, and phone.''"

definition texts_of :: "pyval \<Rightarrow> string list" where
  "texts_of v = (case v of PList xs \<Rightarrow> map py_str xs | _ \<Rightarrow> [])"

definition build_enrich_request :: "parsed_request \<Rightarrow> raw_request" where
  "build_enrich_request p =
     (let source_urls = entry (pq_snapshot p) ''source_urls'';
          known = filter (\<lambda>kv. \<not> absent (snd kv)) (dpop ''source_urls'' (pq_snapshot p));
          entity = (if truthy source_urls then dset ''source_urls'' source_urls known else known);
          objective = (if truthy source_urls
             then base_objective @ '' Seed research from these URLs: '' @ join '', '' (take 5 (texts_of source_urls)) @ ''.''
             else base_objective)
      in \<lparr>rw_entity = (if entity = [] then [(''name'', PStr (pq_entity_id p))] else entity),
          rw_object_type = object_type_of (pq_entity_id p),
          rw_schema = PDict (map (\<lambda>kt. (fst kt, PStr (snd kt))) partner_target_schema),
          rw_objective = objective,
          rw_kb_context = Some (if pq_domain p = [] then ''plasticos'' else pq_domain p),
          rw_consensus_threshold = None, rw_field_thresholds = None, rw_max_variations = None,
          rw_idempotency_key = odoo_idempotency_key p\<rparr>)"

section \<open>Answering\<close>

definition filter_partner_field :: "fields \<Rightarrow> string \<times> pyval \<Rightarrow> fields \<Rightarrow> fields" where
  "filter_partner_field existing kv out =
     (if fst kv \<notin> set partner_writeback_allowlist \<or> absent (snd kv) \<or> \<not> absent (entry existing (fst kv)) then out
      else dset (fst kv) (snd kv) out)"

definition filter_partner_fields :: "fields \<Rightarrow> fields option \<Rightarrow> fields" where
  "filter_partner_fields fs snapshot =
     fold (filter_partner_field (case snapshot of None \<Rightarrow> [] | Some s \<Rightarrow> s)) fs []"

definition opt_text :: "string option \<Rightarrow> pyval" where
  "opt_text t = (case t of None \<Rightarrow> PNone | Some s \<Rightarrow> PStr s)"

definition opt_dict :: "fields option \<Rightarrow> pyval" where
  "opt_dict d = (case d of None \<Rightarrow> PNone | Some f \<Rightarrow> PDict f)"

definition build_odoo_converge_response :: "api_response \<Rightarrow> parsed_request \<Rightarrow> string \<Rightarrow> fields" where
  "build_odoo_converge_response ap p run_id =
     [(''run_id'', PStr run_id), (''state'', PStr (ap_state ap)), (''failure_reason'', opt_text (ap_failure_reason ap)),
      (''fields'', PDict (filter_partner_fields (ap_fields ap) (Some (pq_snapshot p)))),
      (''pass_count'', PInt (ap_pass_count ap)), (''variation_count'', PInt (ap_variation_count ap)),
      (''confidence'', PFloat (ap_confidence ap)), (''consensus_threshold'', PFloat (ap_consensus_threshold ap)),
      (''uncertainty_score'', PFloat (ap_uncertainty_score ap)), (''processing_time_ms'', PInt (ap_processing_time_ms ap)),
      (''quality_tier'', PStr (ap_quality_tier ap)), (''inference_version'', PStr (ap_inference_version ap)),
      (''kb_content_hash'', PStr (ap_kb_content_hash ap)), (''kb_files_consulted'', PList (map PStr (ap_kb_files_consulted ap))),
      (''kb_fragment_ids'', PList (map PStr (ap_kb_fragment_ids ap))), (''inferences'', PList (ap_inferences ap)),
      (''grade_matches'', PList (ap_grade_matches ap)), (''enrichment_payload'', opt_dict (ap_enrichment_payload ap)),
      (''feature_vector'', opt_dict (ap_feature_vector ap)), (''tokens_used'', PInt (ap_tokens_used ap))]"

definition build_odoo_converge_error :: "string \<Rightarrow> string \<Rightarrow> int \<Rightarrow> int \<Rightarrow> fields" where
  "build_odoo_converge_error err run_id pass_count total_tokens =
     [(''run_id'', PStr run_id), (''state'', PStr ''failed''), (''failure_reason'', PStr err), (''fields'', PDict []),
      (''pass_count'', PInt pass_count), (''tokens_used'', PInt total_tokens)]"

section \<open>The boundary\<close>

lemma filter_partner_inv:
  "(\<forall>k v. dget out k = Some v \<longrightarrow> P k v) \<Longrightarrow>
   (\<And>k v. (k, v) \<in> set fs \<Longrightarrow> k \<in> set partner_writeback_allowlist \<Longrightarrow> \<not> absent v \<Longrightarrow> absent (entry ex k) \<Longrightarrow> P k v) \<Longrightarrow>
   \<forall>k v. dget (fold (filter_partner_field ex) fs out) k = Some v \<longrightarrow> P k v"
proof (induction fs arbitrary: out)
  case (Cons kv fs)
  have "\<forall>k v. dget (filter_partner_field ex kv out) k = Some v \<longrightarrow> P k v"
    using Cons.prems(1) Cons.prems(2) [of "fst kv" "snd kv"] by (auto simp: filter_partner_field_def dget_dset)
  then show ?case using Cons.IH Cons.prems(2) by simp
qed simp

lemma filter_partner_other:
  "k \<notin> set (dkeys fs) \<Longrightarrow> dget (fold (filter_partner_field ex) fs out) k = dget out k"
proof (induction fs arbitrary: out)
  case (Cons kv fs)
  then have "dget (filter_partner_field ex kv out) k = dget out k" by (auto simp: filter_partner_field_def dget_dset)
  with Cons show ?case by simp
qed simp

lemma filter_partner_keeps:
  "dict_ok fs \<Longrightarrow> dget fs k = Some v \<Longrightarrow> k \<in> set partner_writeback_allowlist \<Longrightarrow> \<not> absent v \<Longrightarrow> absent (entry ex k) \<Longrightarrow>
   dget (fold (filter_partner_field ex) fs out) k = Some v"
proof (induction fs arbitrary: out)
  case (Cons kv fs)
  obtain k' w where kv: "kv = (k', w)" by (cases kv)
  show ?case
  proof (cases "k' = k")
    case True
    with Cons.prems kv have w: "w = v" and new: "k \<notin> set (dkeys fs)" by simp_all
    have "filter_partner_field ex kv out = dset k v out" using Cons.prems kv True w by (simp add: filter_partner_field_def)
    then show ?thesis using filter_partner_other [OF new, of ex "dset k v out"] by (simp add: dget_dset)
  next
    case False
    with Cons kv show ?thesis by simp
  qed
qed simp

lemma filter_partner_sound:
  assumes "dict_ok fs"
  shows "dget (filter_partner_fields fs (Some snap)) k = Some v \<longleftrightarrow>
    dget fs k = Some v \<and> k \<in> set partner_writeback_allowlist \<and> \<not> absent v \<and> absent (entry snap k)"
proof
  assume "dget (filter_partner_fields fs (Some snap)) k = Some v"
  moreover have "\<forall>k v. dget (filter_partner_fields fs (Some snap)) k = Some v \<longrightarrow>
      (k, v) \<in> set fs \<and> k \<in> set partner_writeback_allowlist \<and> \<not> absent v \<and> absent (entry snap k)"
    unfolding filter_partner_fields_def option.case by (rule filter_partner_inv) simp_all
  ultimately show "dget fs k = Some v \<and> k \<in> set partner_writeback_allowlist \<and> \<not> absent v \<and> absent (entry snap k)"
    using assms by simp
next
  assume "dget fs k = Some v \<and> k \<in> set partner_writeback_allowlist \<and> \<not> absent v \<and> absent (entry snap k)"
  then show "dget (filter_partner_fields fs (Some snap)) k = Some v"
    using filter_partner_keeps [OF assms, of k v snap "[]"] by (simp add: filter_partner_fields_def)
qed

text \<open>
  C17: the write-back boundary is exact. A field of the answer to an Odoo caller is a field the
  convergence produced, with the same value, that is in the partner allowlist, is not empty and does
  not replace a value the snapshot already has - and every such field is in the answer. The state is
  passed on unchanged, so only a completed convergence is answered as completed.
\<close>

theorem writeback_boundary_exact:
  assumes "dict_ok (ap_fields ap)"
  shows "\<exists>out. dget (build_odoo_converge_response ap p run_id) ''fields'' = Some (PDict out) \<and>
    (\<forall>k v. dget out k = Some v \<longleftrightarrow>
       dget (ap_fields ap) k = Some v \<and> k \<in> set partner_writeback_allowlist \<and> \<not> absent v \<and> absent (entry (pq_snapshot p) k)) \<and>
    (dget (build_odoo_converge_response ap p run_id) ''state'' = Some (PStr odoo_completed_state) \<longleftrightarrow> ap_state ap = ''completed'')"
  using filter_partner_sound [OF assms] by (simp add: build_odoo_converge_response_def odoo_completed_state_def)

definition sample_parsed :: parsed_request where
  "sample_parsed = \<lparr>pq_entity_id = ''res.partner:5'', pq_domain = ''plasticos'', pq_snapshot = [(''city'', PStr ''Rome'')],
     pq_odoo = [], pq_profile_id = None, pq_max_passes = 3\<rparr>"

theorem writeback_boundary_exact_witness:
  "\<exists>out. dget (build_odoo_converge_response (default_response\<lparr>ap_fields := [(''city'', PStr ''Oslo''), (''zip'', PStr ''1''), (''vat'', PStr ''x'')]\<rparr>)
      sample_parsed ''r'') ''fields'' = Some (PDict out) \<and> dget out ''zip'' = Some (PStr ''1'') \<and> dget out ''city'' = None \<and> dget out ''vat'' = None"
proof -
  have ok: "dict_ok (ap_fields (default_response\<lparr>ap_fields := [(''city'', PStr ''Oslo''), (''zip'', PStr ''1''), (''vat'', PStr ''x'')]\<rparr>))"
    by simp
  obtain out where out: "dget (build_odoo_converge_response (default_response\<lparr>ap_fields := [(''city'', PStr ''Oslo''), (''zip'', PStr ''1''), (''vat'', PStr ''x'')]\<rparr>)
      sample_parsed ''r'') ''fields'' = Some (PDict out)"
    "\<And>k v. dget out k = Some v \<longleftrightarrow> dget [(''city'', PStr ''Oslo''), (''zip'', PStr ''1''), (''vat'', PStr ''x'')] k = Some v \<and>
      k \<in> set partner_writeback_allowlist \<and> \<not> absent v \<and> absent (entry (pq_snapshot sample_parsed) k)"
    using writeback_boundary_exact [OF ok, of sample_parsed "''r''"] by auto
  have "dget out ''zip'' = Some (PStr ''1'')" "\<And>v. dget out ''city'' \<noteq> Some v" "\<And>v. dget out ''vat'' \<noteq> Some v"
    by (simp_all add: out(2) sample_parsed_def entry_def dget_or_def absent_def partner_writeback_allowlist_def)
  with out(1) show ?thesis by blast
qed

section \<open>The two dialects\<close>

text \<open>
  The canonical contract wins. A payload with an \<open>entity\<close> object is never taken for the older
  dialect, whatever else it carries; one without it is taken exactly when it has an
  \<open>entity_snapshot\<close> object or a usable reference, and parsing an accepted payload fails exactly when
  it has no reference. Parsed values are within bounds: 1 to 10 passes, a non-empty reference and
  domain, snapshot fields from the snapshot keys only.
\<close>

definition parsed_ok :: "parsed_request \<Rightarrow> bool" where
  "parsed_ok p \<longleftrightarrow> 1 \<le> pq_max_passes p \<and> pq_max_passes p \<le> 10 \<and> pq_entity_id p \<noteq> [] \<and> pq_domain p \<noteq> [] \<and>
     set (dkeys (pq_snapshot p)) \<subseteq> set partner_snapshot_keys"

lemma stripped_text_Some: "stripped_text v = Some s \<Longrightarrow> s \<noteq> []"
  by (auto simp: stripped_text_def split: pyval.splits if_splits)

lemma snapshot_ref_Some: "snapshot_ref snap = Some s \<Longrightarrow> s \<noteq> []"
proof -
  have no: "\<not> is_entity_ref []" by (simp add: is_entity_ref_def)
  assume "snapshot_ref snap = Some s"
  with no show ?thesis by (auto simp: snapshot_ref_def Let_def split: pyval.splits if_splits option.splits)
qed

lemma odoo_entity_ref_Some: "odoo_entity_ref payload = Some s \<Longrightarrow> s \<noteq> []"
  by (auto simp: odoo_entity_ref_def dest: stripped_text_Some snapshot_ref_Some split: pyval.splits if_splits option.splits)

lemma normalize_max_passes_bounds: "1 \<le> normalize_max_passes v" "normalize_max_passes v \<le> 10"
  by (auto simp: normalize_max_passes_def default_max_passes_def max_passes_ceiling_def split: sum.split)

lemma snapshot_keys:
  "set (dkeys snap) \<subseteq> set partner_snapshot_keys \<Longrightarrow> set (dkeys (fold snapshot_entry xs snap)) \<subseteq> set partner_snapshot_keys"
proof (induction xs arbitrary: snap)
  case (Cons kv xs)
  have "set (dkeys (snapshot_entry kv snap)) \<subseteq> set partner_snapshot_keys"
    using Cons.prems by (cases kv) (auto simp: snapshot_entry_def Let_def keys_dset simp del: set_map)
  then show ?case using Cons.IH by simp
qed simp

lemma parse_ok: "parse_odoo_converge_request payload = Inr p \<Longrightarrow> parsed_ok p"
proof (cases payload)
  case (PDict d)
  assume a: "parse_odoo_converge_request payload = Inr p"
  then obtain r where r: "odoo_entity_ref payload = Some r"
    using PDict by (auto simp: parse_odoo_converge_request_def split: option.splits list.splits)
  have ne: "r \<noteq> []" using odoo_entity_ref_Some [OF r] .
  have dom: "(case stripped_text (entry d ''domain'') of Some s \<Rightarrow> s | None \<Rightarrow> ''plasticos'') \<noteq> []"
    using stripped_text_Some by (auto split: option.split)
  have snap: "set (dkeys (case entry d ''entity_snapshot'' of PDict s \<Rightarrow> fold snapshot_entry s [] | _ \<Rightarrow> [])) \<subseteq> set partner_snapshot_keys"
    using snapshot_keys [of "[]"] by (auto split: pyval.split)
  show ?thesis
    using a r ne dom snap normalize_max_passes_bounds PDict
    by (clarsimp simp: parse_odoo_converge_request_def parsed_ok_def neq_Nil_conv simp del: set_map)
qed (simp_all add: parse_odoo_converge_request_def)

theorem canonical_contract_wins:
  "(is_dict (entry d ''entity'') \<longrightarrow> \<not> is_odoo_compat_converge_payload (PDict d)) \<and>
   (\<not> is_dict (entry d ''entity'') \<longrightarrow>
      (is_odoo_compat_converge_payload (PDict d) \<longleftrightarrow>
         is_dict (entry d ''entity_snapshot'') \<or> odoo_entity_ref (PDict d) \<noteq> None)) \<and>
   ((\<exists>p. parse_odoo_converge_request (PDict d) = Inr p) \<longleftrightarrow> odoo_entity_ref (PDict d) \<noteq> None) \<and>
   (\<forall>p. parse_odoo_converge_request (PDict d) = Inr p \<longrightarrow> parsed_ok p)"
proof (intro conjI allI impI)
  show "(\<exists>p. parse_odoo_converge_request (PDict d) = Inr p) \<longleftrightarrow> odoo_entity_ref (PDict d) \<noteq> None"
    using odoo_entity_ref_Some [of "PDict d"]
    by (auto simp: parse_odoo_converge_request_def split: option.split list.split)
qed (auto simp: is_odoo_compat_converge_payload_def parse_ok)

theorem canonical_contract_wins_witness:
  "\<not> is_odoo_compat_converge_payload (PDict [(''entity'', PDict [(''id'', PStr ''x:1'')]), (''entity_id'', PStr ''res.partner:5'')]) \<and>
   is_odoo_compat_converge_payload (PDict [(''entity_id'', PStr ''res.partner:5'')])"
  using canonical_contract_wins [of "[(''entity'', PDict [(''id'', PStr ''x:1'')]), (''entity_id'', PStr ''res.partner:5'')]"]
    canonical_contract_wins [of "[(''entity_id'', PStr ''res.partner:5'')]"]
  by (simp add: entry_def dget_or_def is_dict_def odoo_entity_ref_def stripped_text_def py_strip_def is_space_def code_def)

text \<open>The request built from a parsed payload is valid.\<close>

lemma build_valid:
  "\<exists>rq. validate_request loads (build_enrich_request p) = Inr rq \<and> rq_schema rq = Some partner_target_schema \<and>
     rq_field_thresholds rq = None \<and> rq_max_variations rq = 5 \<and> rq_idempotency_key rq = odoo_idempotency_key p"
  using in_unit_default
  by (simp add: build_enrich_request_def Let_def validate_request_def parse_schema_string_def as_schema_def
      partner_target_schema_def partner_writeback_allowlist_def check_unit_def check_variations_def
      thresholds_are_unit_interval_def requested_fields_name_their_threshold_def not_less)

text \<open>A zero counts as absent: the membership test compares it with \<open>False\<close>.\<close>

theorem zero_is_dropped:
  "filter_partner_fields [(''zip'', PInt 0), (''city'', PStr ''Bern'')] None = [(''city'', PStr ''Bern'')]"
  by (simp add: filter_partner_fields_def filter_partner_field_def absent_def entry_def dget_or_def partner_writeback_allowlist_def)

end
