(* ===== verification/Persistence.thy ===== *)
theory Persistence
  imports Schemas
begin

text \<open>
  \<open>app/services/pg_store.py\<close>, \<open>app/services/result_store.py\<close> and the tables of
  \<open>app/services/pg_models.py\<close>. A table is the list of its rows in the order of their creation; the
  row's id is its number. Only the columns the functions read or decide on are modelled. A
  transaction that violates a uniqueness constraint fails and changes nothing; NULL keys do not
  collide. The parameter \<open>db\<close> is whether the database answers at all.
\<close>

datatype db_error = NoConnection | IntegrityError | BadRecord pyerr

section \<open>Enrichment results\<close>

record history_row =
  hr_field :: string
  hr_value :: string
  hr_confidence :: pyval
  hr_source :: string
  hr_pass :: int

record result_row =
  rr_tenant :: string
  rr_entity :: string
  rr_object_type :: string
  rr_domain :: "string option"
  rr_key :: "string option"
  rr_fields :: fields
  rr_confidence :: f64
  rr_state :: string
  rr_pass_count :: int
  rr_tokens :: int
  rr_failure :: "string option"
  rr_history :: "history_row list"

type_synonym result_table = "result_row list"

text \<open>The constraint \<open>uq_enrichment_results_tenant_idempotency_key\<close>.\<close>

definition key_free :: "result_table \<Rightarrow> string \<Rightarrow> string option \<Rightarrow> bool" where
  "key_free rows tenant key = (key = None \<or> (\<forall>r \<in> set rows. \<not> (rr_tenant r = tenant \<and> rr_key r = key)))"

definition result_by_key :: "result_table \<Rightarrow> string \<Rightarrow> string \<Rightarrow> result_row option" where
  "result_by_key rows key tenant = List.find (\<lambda>r. rr_key r = Some key \<and> rr_tenant r = tenant) rows"

definition truthy_key :: "string option \<Rightarrow> string option" where
  "truthy_key key = (case key of Some [] \<Rightarrow> None | _ \<Rightarrow> key)"

definition history_of :: "(string \<times> pyval) list \<Rightarrow> fields \<Rightarrow> int \<Rightarrow> history_row list" where
  "history_of confidences fs pass_count =
     map (\<lambda>(f, c). \<lparr>hr_field = f, hr_value = py_str (dget_or fs f (PStr [])), hr_confidence = c,
                     hr_source = ''enrichment'', hr_pass = pass_count\<rparr>) confidences"

definition save_enrichment_result :: "bool \<Rightarrow> result_row \<Rightarrow> result_table \<Rightarrow> db_error + result_row \<times> result_table" where
  "save_enrichment_result db row rows =
     (if \<not> db then Inl NoConnection
      else (case truthy_key (rr_key row) of
              Some k \<Rightarrow>
                (case result_by_key rows k (rr_tenant row) of
                   Some existing \<Rightarrow> Inr (existing, rows)
                 | None \<Rightarrow> if key_free rows (rr_tenant row) (rr_key row) then Inr (row, rows @ [row]) else Inl IntegrityError)
            | None \<Rightarrow> if key_free rows (rr_tenant row) (rr_key row) then Inr (row, rows @ [row]) else Inl IntegrityError))"

definition latest_for_entity :: "result_table \<Rightarrow> string \<Rightarrow> string \<Rightarrow> result_row option" where
  "latest_for_entity rows tenant entity =
     List.find (\<lambda>r. rr_tenant r = tenant \<and> rr_entity r = entity \<and> rr_state r = ''completed'') (rev rows)"

text \<open>\<open>ResultStore.persist_enrich_response\<close> without an explicit confidence map.\<close>

definition tracked_confidences :: "api_response \<Rightarrow> pyerr + (string \<times> pyval) list" where
  "tracked_confidences ap =
     (case ap_feature_vector ap of
        None \<Rightarrow> Inr []
      | Some [] \<Rightarrow> Inr []
      | Some fv \<Rightarrow>
          (case dget_or fv ''confidence_tracking'' (PDict []) of
             PDict tracking \<Rightarrow>
               Inr (List.map_filter (\<lambda>(f, data). case data of
                      PDict d \<Rightarrow> Some (f, dget_or d ''latest_confidence'' (PFloat (ap_confidence ap))) | _ \<Rightarrow> None) tracking)
           | _ \<Rightarrow> Inl AttributeError))"

definition persist_enrich_response ::
    "bool \<Rightarrow> string \<Rightarrow> api_response \<Rightarrow> string \<Rightarrow> string \<Rightarrow> string option \<Rightarrow> string option \<Rightarrow> result_table \<Rightarrow>
     db_error + result_row \<times> result_table" where
  "persist_enrich_response db tenant ap entity_id object_type domain key rows =
     (case tracked_confidences ap of
        Inl e \<Rightarrow> Inl (BadRecord e)
      | Inr confidences \<Rightarrow>
          save_enrichment_result db
            \<lparr>rr_tenant = tenant, rr_entity = entity_id, rr_object_type = object_type, rr_domain = domain, rr_key = key,
             rr_fields = ap_fields ap, rr_confidence = ap_confidence ap, rr_state = ap_state ap, rr_pass_count = ap_pass_count ap,
             rr_tokens = ap_tokens_used ap, rr_failure = ap_failure_reason ap,
             rr_history = history_of confidences (ap_fields ap) (ap_pass_count ap)\<rparr> rows)"

section \<open>Convergence runs\<close>

record run_row =
  rn_id :: nat
  rn_tenant :: string
  rn_domain :: string
  rn_state :: string
  rn_reason :: "string option"
  rn_pass :: int
  rn_fields :: fields
  rn_confidences :: fields
  rn_tokens :: int
  rn_completed_at :: "f64 option"

definition terminal_states :: "string list" where
  "terminal_states = [''converged'', ''budget_exhausted'', ''max_passes'', ''human_hold'', ''failed'']"

definition create_convergence_run :: "string \<Rightarrow> string \<Rightarrow> run_row list \<Rightarrow> nat \<times> run_row list" where
  "create_convergence_run tenant domain runs =
     (let n = length runs in
      (n, runs @ [\<lparr>rn_id = n, rn_tenant = tenant, rn_domain = domain, rn_state = ''running'', rn_reason = None, rn_pass = 0,
                   rn_fields = [], rn_confidences = [], rn_tokens = 0, rn_completed_at = None\<rparr>]))"

record run_update =
  ru_pass :: "int option"
  ru_state :: "string option"
  ru_reason :: "string option"
  ru_fields :: "fields option"
  ru_confidences :: "fields option"
  ru_tokens :: "int option"

definition given :: "'a option \<Rightarrow> 'a \<Rightarrow> 'a" where
  "given new old = (case new of None \<Rightarrow> old | Some x \<Rightarrow> x)"

definition apply_run_update :: "f64 \<Rightarrow> run_update \<Rightarrow> run_row \<Rightarrow> run_row" where
  "apply_run_update now u r =
     r\<lparr>rn_pass := given (ru_pass u) (rn_pass r), rn_state := given (ru_state u) (rn_state r),
       rn_completed_at := (case ru_state u of Some s \<Rightarrow> if s \<in> set terminal_states then Some now else rn_completed_at r
                                             | None \<Rightarrow> rn_completed_at r),
       rn_reason := (case ru_reason u of None \<Rightarrow> rn_reason r | Some x \<Rightarrow> Some x),
       rn_fields := given (ru_fields u) (rn_fields r), rn_confidences := given (ru_confidences u) (rn_confidences r),
       rn_tokens := given (ru_tokens u) (rn_tokens r)\<rparr>"

definition update_convergence_run :: "f64 \<Rightarrow> nat \<Rightarrow> run_update \<Rightarrow> run_row list \<Rightarrow> run_row list" where
  "update_convergence_run now run_id u runs = map (\<lambda>r. if rn_id r = run_id then apply_run_update now u r else r) runs"

definition get_convergence_run :: "run_row list \<Rightarrow> nat \<Rightarrow> run_row option" where
  "get_convergence_run runs run_id = List.find (\<lambda>r. rn_id r = run_id) runs"

definition list_active_runs :: "run_row list \<Rightarrow> string \<Rightarrow> string option \<Rightarrow> run_row list" where
  "list_active_runs runs tenant domain =
     filter (\<lambda>r. rn_tenant r = tenant \<and> rn_state r = ''running'' \<and>
                (case truthy_key domain of None \<Rightarrow> True | Some d \<Rightarrow> rn_domain r = d)) (rev runs)"

text \<open>\<open>ResultStore.checkpoint_convergence_pass\<close> and \<open>complete_convergence_run\<close>.\<close>

definition checkpoint_pass :: "f64 \<Rightarrow> nat \<Rightarrow> int \<Rightarrow> fields \<Rightarrow> fields \<Rightarrow> int \<Rightarrow> run_row list \<Rightarrow> run_row list" where
  "checkpoint_pass now run_id pass_number fs confs tokens =
     update_convergence_run now run_id
       \<lparr>ru_pass = Some pass_number, ru_state = None, ru_reason = None, ru_fields = Some fs, ru_confidences = Some confs,
        ru_tokens = Some tokens\<rparr>"

definition complete_run :: "f64 \<Rightarrow> nat \<Rightarrow> string \<Rightarrow> string \<Rightarrow> fields \<Rightarrow> fields \<Rightarrow> int \<Rightarrow> run_row list \<Rightarrow> run_row list" where
  "complete_run now run_id state reason fs confs tokens =
     update_convergence_run now run_id
       \<lparr>ru_pass = None, ru_state = Some state, ru_reason = Some reason, ru_fields = Some fs, ru_confidences = Some confs,
        ru_tokens = Some tokens\<rparr>"

section \<open>Schema proposals\<close>

record proposal_content =
  pc_type :: string
  pc_source :: string
  pc_fill_rate :: f64
  pc_confidence :: f64
  pc_gate :: "string option"

record proposal_row =
  pw_tenant :: string
  pw_domain :: string
  pw_batch :: string
  pw_field :: string
  pw_content :: proposal_content
  pw_status :: string
  pw_reviewer :: "string option"

definition proposal_at :: "string \<Rightarrow> string \<Rightarrow> string \<Rightarrow> string \<Rightarrow> proposal_row \<Rightarrow> bool" where
  "proposal_at tenant domain batch f p =
     (pw_tenant p = tenant \<and> pw_domain p = domain \<and> pw_batch p = batch \<and> pw_field p = f)"

definition save_schema_proposal :: "string \<Rightarrow> string \<Rightarrow> string \<Rightarrow> string \<Rightarrow> proposal_content \<Rightarrow> proposal_row list \<Rightarrow> proposal_row list" where
  "save_schema_proposal tenant domain batch f c rows =
     (if \<exists>p \<in> set rows. proposal_at tenant domain batch f p
      then map (\<lambda>p. if proposal_at tenant domain batch f p then p\<lparr>pw_content := c\<rparr> else p) rows
      else rows @ [\<lparr>pw_tenant = tenant, pw_domain = domain, pw_batch = batch, pw_field = f, pw_content = c,
                    pw_status = ''pending'', pw_reviewer = None\<rparr>])"

definition pending_proposals :: "proposal_row list \<Rightarrow> string \<Rightarrow> string \<Rightarrow> proposal_row list" where
  "pending_proposals rows tenant domain =
     sort_desc (\<lambda>p. pc_confidence (pw_content p))
       (filter (\<lambda>p. pw_tenant p = tenant \<and> pw_domain p = domain \<and> pw_status p = ''pending'') rows)"

definition approve_schema_proposal :: "nat \<Rightarrow> string \<Rightarrow> bool \<Rightarrow> proposal_row list \<Rightarrow> proposal_row list" where
  "approve_schema_proposal i reviewer approved rows =
     (if i < length rows
      then rows[i := (rows ! i)\<lparr>pw_status := (if approved then ''approved'' else ''rejected''), pw_reviewer := Some reviewer\<rparr>]
      else rows)"

section \<open>Idempotent, per tenant\<close>

definition one_per_key :: "result_table \<Rightarrow> bool" where
  "one_per_key rows \<longleftrightarrow>
     (\<forall>i j. i < length rows \<longrightarrow> j < length rows \<longrightarrow> rr_tenant (rows ! i) = rr_tenant (rows ! j) \<longrightarrow>
        rr_key (rows ! i) = rr_key (rows ! j) \<longrightarrow> rr_key (rows ! i) \<noteq> None \<longrightarrow> i = j)"

lemma one_per_key_append: "one_per_key rows \<Longrightarrow> key_free rows (rr_tenant r) (rr_key r) \<Longrightarrow> one_per_key (rows @ [r])"
proof -
  assume one: "one_per_key rows" and free: "key_free rows (rr_tenant r) (rr_key r)"
  have no: "\<not> (rr_tenant (rows ! i) = rr_tenant r \<and> rr_key (rows ! i) = rr_key r)" if "i < length rows" "rr_key r \<noteq> None" for i
    using free that nth_mem [of i rows] unfolding key_free_def by blast
  show ?thesis unfolding one_per_key_def
  proof (intro allI impI)
    fix i j
    assume ij: "i < length (rows @ [r])" "j < length (rows @ [r])"
      and eq: "rr_tenant ((rows @ [r]) ! i) = rr_tenant ((rows @ [r]) ! j)" "rr_key ((rows @ [r]) ! i) = rr_key ((rows @ [r]) ! j)"
        "rr_key ((rows @ [r]) ! i) \<noteq> None"
    consider "i < length rows" "j < length rows" | "i = length rows" "j = length rows"
      | "i < length rows" "j = length rows" | "i = length rows" "j < length rows"
      using ij by fastforce
    then show "i = j"
    proof cases
      case 1
      then show ?thesis using one eq unfolding one_per_key_def by (simp add: nth_append)
    next
      case 3
      then show ?thesis using no [of i] eq by (simp add: nth_append)
    next
      case 4
      then show ?thesis using no [of j] eq by (simp add: nth_append)
    qed simp
  qed
qed

lemma find_in_table: "List.find P xs = Some x \<Longrightarrow> P x \<and> x \<in> set xs"
  by (induction xs) (auto split: if_splits)

lemma save_cases:
  assumes "save_enrichment_result db row rows = Inr (r, rows')"
  obtains (hit) k where "rr_key row = Some k" "k \<noteq> []" "r \<in> set rows" "rr_key r = Some k" "rr_tenant r = rr_tenant row" "rows' = rows"
    | (stored) "r = row" "rows' = rows @ [row]" "key_free rows (rr_tenant row) (rr_key row)"
proof (cases "\<exists>k x. truthy_key (rr_key row) = Some k \<and> result_by_key rows k (rr_tenant row) = Some x")
  case True
  then obtain k x where k: "truthy_key (rr_key row) = Some k" and x: "result_by_key rows k (rr_tenant row) = Some x" by blast
  have key: "rr_key row = Some k" "k \<noteq> []" using k by (auto simp: truthy_key_def split: option.splits list.splits)
  have "x \<in> set rows" "rr_key x = Some k" "rr_tenant x = rr_tenant row"
    using find_in_table [OF x [unfolded result_by_key_def]] by simp_all
  moreover have "r = x" "rows' = rows" using assms k x by (simp_all add: save_enrichment_result_def split: if_splits)
  ultimately show ?thesis using hit key by blast
next
  case False
  then have "key_free rows (rr_tenant row) (rr_key row) \<and> r = row \<and> rows' = rows @ [row]"
    using assms by (cases "truthy_key (rr_key row)") (auto simp: save_enrichment_result_def split: if_splits option.splits)
  then show ?thesis using stored by blast
qed

lemma find_append: "List.find P (xs @ ys) = (case List.find P xs of Some x \<Rightarrow> Some x | None \<Rightarrow> List.find P ys)"
  by (induction xs) auto

text \<open>
  C18: saving is idempotent and isolated. A saved result is in the table afterwards, under the caller's
  tenant and key; no earlier row is lost or changed; a tenant has at most one row per key; saving the
  same operation again returns the row of the first time and stores nothing; and whatever the key,
  another tenant's lookups are as before.
\<close>

theorem saving_is_idempotent_and_isolated:
  assumes "one_per_key rows" and "save_enrichment_result True row rows = Inr (r, rows')"
  shows "r \<in> set rows' \<and> rr_tenant r = rr_tenant row \<and> rr_key r = rr_key row \<and> one_per_key rows' \<and>
    (\<exists>new. rows' = rows @ new) \<and>
    (truthy_key (rr_key row) \<noteq> None \<longrightarrow> (\<forall>row2. rr_tenant row2 = rr_tenant row \<longrightarrow> rr_key row2 = rr_key row \<longrightarrow>
       save_enrichment_result True row2 rows' = Inr (r, rows'))) \<and>
    (\<forall>tenant key. tenant \<noteq> rr_tenant row \<longrightarrow> result_by_key rows' key tenant = result_by_key rows key tenant)"
  using assms(2)
proof (cases rule: save_cases)
  case (hit k)
  have "result_by_key rows k (rr_tenant row) = Some r"
    using assms(2) hit
    by (auto simp: save_enrichment_result_def truthy_key_def neq_Nil_conv split: option.splits if_splits)
  then show ?thesis using hit assms(1) by (auto simp: save_enrichment_result_def truthy_key_def neq_Nil_conv)
next
  case stored
  have again: "save_enrichment_result True row2 rows' = Inr (r, rows')"
    if t: "truthy_key (rr_key row) \<noteq> None" "rr_tenant row2 = rr_tenant row" "rr_key row2 = rr_key row" for row2
  proof -
    obtain c cs where k: "rr_key row = Some (c # cs)"
      using t(1) by (cases "rr_key row"; cases "the (rr_key row)") (auto simp: truthy_key_def)
    have "result_by_key rows (c # cs) (rr_tenant row) = None"
      using stored(3) k by (auto simp: result_by_key_def find_None_iff key_free_def)
    then have "result_by_key rows' (c # cs) (rr_tenant row) = Some row"
      using stored k by (simp add: result_by_key_def find_append)
    with t k stored show ?thesis by (simp add: save_enrichment_result_def truthy_key_def)
  qed
  have other: "result_by_key rows' key tenant = result_by_key rows key tenant" if "tenant \<noteq> rr_tenant row" for tenant key
    using that stored by (auto simp: result_by_key_def find_append split: option.split)
  show ?thesis using stored again other one_per_key_append [OF assms(1) stored(3)] by auto
qed

definition sample_row :: "string \<Rightarrow> string option \<Rightarrow> result_row" where
  "sample_row tenant key = \<lparr>rr_tenant = tenant, rr_entity = ''e'', rr_object_type = ''Account'', rr_domain = None, rr_key = key,
     rr_fields = [], rr_confidence = 1, rr_state = ''completed'', rr_pass_count = 1, rr_tokens = 5, rr_failure = None, rr_history = []\<rparr>"

theorem saving_is_idempotent_and_isolated_witness:
  "save_enrichment_result True (sample_row ''t'' (Some ''k'')) [sample_row ''u'' (Some ''k''), sample_row ''t'' (Some ''k'')] =
     Inr (sample_row ''t'' (Some ''k''), [sample_row ''u'' (Some ''k''), sample_row ''t'' (Some ''k'')])"
proof -
  have one: "one_per_key [sample_row ''u'' (Some ''k'')]" by (simp add: one_per_key_def)
  have save: "save_enrichment_result True (sample_row ''t'' (Some ''k'')) [sample_row ''u'' (Some ''k'')] =
      Inr (sample_row ''t'' (Some ''k''), [sample_row ''u'' (Some ''k''), sample_row ''t'' (Some ''k'')])"
    by (simp add: save_enrichment_result_def truthy_key_def result_by_key_def key_free_def sample_row_def)
  show ?thesis
    using saving_is_idempotent_and_isolated [OF one save] by (simp add: sample_row_def truthy_key_def)
qed

text \<open>An empty idempotency key is not looked up, but it is stored and collides: the second such operation of a tenant fails.\<close>

theorem empty_key_fails_the_second_time:
  "save_enrichment_result True (sample_row ''t'' (Some [])) [] = Inr (sample_row ''t'' (Some []), [sample_row ''t'' (Some [])]) \<and>
   save_enrichment_result True (sample_row ''t'' (Some [])) [sample_row ''t'' (Some [])] = Inl IntegrityError"
  by (simp add: save_enrichment_result_def truthy_key_def key_free_def sample_row_def)

section \<open>Runs and proposals\<close>

lemma update_other: "rn_id r \<noteq> run_id \<Longrightarrow> r \<in> set runs \<Longrightarrow> r \<in> set (update_convergence_run now run_id u runs)"
  by (force simp: update_convergence_run_def)

lemma find_update: "List.find (\<lambda>r. rn_id r = i) (update_convergence_run now i u runs) =
    map_option (apply_run_update now u) (List.find (\<lambda>r. rn_id r = i) runs)"
  by (induction runs) (simp_all add: update_convergence_run_def apply_run_update_def)

text \<open>
  What a restarted process reads is the last checkpoint: the fields, confidences, tokens and pass of
  the newest checkpoint, whatever came before, and the run stays active until it is completed with a
  terminal state.
\<close>

lemma checkpoint_read_back:
  assumes "get_convergence_run runs i = Some r"
  shows "get_convergence_run (checkpoint_pass now i n fs confs tokens runs) i =
    Some (r\<lparr>rn_pass := n, rn_fields := fs, rn_confidences := confs, rn_tokens := tokens\<rparr>)"
  using assms by (simp add: get_convergence_run_def checkpoint_pass_def find_update apply_run_update_def given_def)

lemma completed_run_closed:
  assumes "get_convergence_run runs i = Some r" and "s \<in> set terminal_states"
  shows "\<exists>r'. get_convergence_run (complete_run now i s reason fs confs tokens runs) i = Some r' \<and>
    rn_completed_at r' = Some now \<and> rn_state r' = s \<and> rn_reason r' = Some reason"
  using assms by (simp add: get_convergence_run_def complete_run_def find_update apply_run_update_def given_def)

text \<open>A run that ends with diminishing returns, a status of the loop, is never stamped as completed.\<close>

theorem diminishing_returns_never_completed:
  assumes "get_convergence_run runs i = Some r"
  shows "\<exists>r'. get_convergence_run (complete_run now i ''diminishing_returns'' reason fs confs tokens runs) i = Some r' \<and>
    rn_completed_at r' = rn_completed_at r"
  using assms by (simp add: get_convergence_run_def complete_run_def find_update apply_run_update_def given_def terminal_states_def)

theorem diminishing_returns_never_completed_witness:
  "\<exists>r'. get_convergence_run (complete_run 1 0 ''diminishing_returns'' ''roi'' [] [] 5 (snd (create_convergence_run ''t'' ''d'' []))) 0 = Some r' \<and>
    rn_completed_at r' = None"
proof -
  have "get_convergence_run (snd (create_convergence_run ''t'' ''d'' [])) 0 = Some (hd (snd (create_convergence_run ''t'' ''d'' [])))"
    by (simp add: create_convergence_run_def get_convergence_run_def)
  from diminishing_returns_never_completed [OF this, of 1 "''roi''" "[]" "[]" 5] show ?thesis
    by (simp add: create_convergence_run_def)
qed

definition one_per_proposal :: "proposal_row list \<Rightarrow> bool" where
  "one_per_proposal rows \<longleftrightarrow> distinct (map (\<lambda>p. (pw_tenant p, pw_domain p, pw_batch p, pw_field p)) rows)"

lemma save_proposal_once: "one_per_proposal rows \<Longrightarrow> one_per_proposal (save_schema_proposal t d b f c rows)"
proof (cases "\<exists>p \<in> set rows. proposal_at t d b f p")
  case True
  assume "one_per_proposal rows"
  moreover have "map (\<lambda>p. (pw_tenant p, pw_domain p, pw_batch p, pw_field p)) (save_schema_proposal t d b f c rows) =
      map (\<lambda>p. (pw_tenant p, pw_domain p, pw_batch p, pw_field p)) rows"
    using True by (simp add: save_schema_proposal_def)
  ultimately show ?thesis by (simp only: one_per_proposal_def)
next
  case False
  assume "one_per_proposal rows"
  with False show ?thesis by (auto simp: one_per_proposal_def save_schema_proposal_def proposal_at_def)
qed

text \<open>A proposal already approved keeps its approval when it is saved again with other content.\<close>

theorem approval_survives_new_content:
  "save_schema_proposal t d b f c2 (approve_schema_proposal 0 who True (save_schema_proposal t d b f c1 [])) =
     [\<lparr>pw_tenant = t, pw_domain = d, pw_batch = b, pw_field = f, pw_content = c2, pw_status = ''approved'', pw_reviewer = Some who\<rparr>]"
  by (simp add: save_schema_proposal_def approve_schema_proposal_def proposal_at_def)

end
