(* ===== verification/PyOps.thy ===== *)
theory PyOps
  imports FieldClassifier
begin

text \<open>
  Operators of Python that several components apply to values of unknown type: \<open>x in c\<close>, \<open>len\<close>, the
  comparisons with a number, and the truth of \<open>set(a) & set(b)\<close>.
\<close>

definition py_in :: "pyval \<Rightarrow> pyval \<Rightarrow> pyerr + bool" where
  "py_in x c =
     (case c of
        PList xs \<Rightarrow> Inr (py_member x xs)
      | PDict d \<Rightarrow> (if hashable_value x then Inr (case x of PStr s \<Rightarrow> dmem s d | _ \<Rightarrow> False) else Inl TypeError)
      | PStr t \<Rightarrow> (case x of PStr s \<Rightarrow> Inr (is_substring s t) | _ \<Rightarrow> Inl TypeError)
      | _ \<Rightarrow> Inl TypeError)"

definition py_len :: "pyval \<Rightarrow> pyerr + int" where
  "py_len v = (case v of PList xs \<Rightarrow> Inr (int (length xs)) | PDict d \<Rightarrow> Inr (int (length d)) | PStr s \<Rightarrow> Inr (int (length s))
     | _ \<Rightarrow> Inl TypeError)"

text \<open>\<open>v <= q\<close> and \<open>q < v\<close> for a number \<open>q\<close>.\<close>

definition le_num :: "pyval \<Rightarrow> rat \<Rightarrow> pyerr + bool" where
  "le_num v q = (case py_num v of Some x \<Rightarrow> Inr (x \<le> q) | None \<Rightarrow> Inl TypeError)"

definition gt_num :: "pyval \<Rightarrow> rat \<Rightarrow> pyerr + bool" where
  "gt_num v q = (case py_num v of Some x \<Rightarrow> Inr (q < x) | None \<Rightarrow> Inl TypeError)"

text \<open>\<open>any(f(x) for x in xs)\<close> and \<open>a and b\<close>, which stop early.\<close>

fun any_res :: "('a \<Rightarrow> 'e + bool) \<Rightarrow> 'a list \<Rightarrow> 'e + bool" where
  "any_res f [] = Inr False"
| "any_res f (x # xs) = bind_res (f x) (\<lambda>b. if b then Inr True else any_res f xs)"

definition and_res :: "'e + bool \<Rightarrow> 'e + bool \<Rightarrow> 'e + bool" where
  "and_res a b = bind_res a (\<lambda>x. if x then b else Inr False)"

definition overlaps :: "pyval list \<Rightarrow> pyval list \<Rightarrow> pyerr + bool" where
  "overlaps xs ys =
     (if list_all hashable_value xs \<and> list_all hashable_value ys then Inr (list_ex (\<lambda>x. py_member x ys) xs) else Inl TypeError)"

fun fold_err :: "('a \<Rightarrow> 'b \<Rightarrow> 'e + 'b) \<Rightarrow> 'a list \<Rightarrow> 'b \<Rightarrow> 'e + 'b" where
  "fold_err f [] s = Inr s"
| "fold_err f (x # xs) s = bind_res (f x s) (fold_err f xs)"

end
