(* ===== verification/DomainSpec.thy ===== *)
theory DomainSpec
  imports PyOps
begin

text \<open>
  \<open>app/engines/domain_yaml_reader.py\<close>, \<open>app/services/domain_yaml_reader.py\<close> and
  \<open>app/engines/schema_discovery.py\<close>: reading a domain specification, and the version of the schema
  that follows from what an enrichment found. Parsed YAML is a Python value; \<open>files\<close> maps the paths
  below the domains directory to the parsed content of the files that exist. Names that are no
  texts compare as values.
\<close>

datatype spec_failure = FileMissing | SpecError pyerr

record enrichment_hints =
  eh_objective :: pyval
  eh_priority :: pyval
  eh_kb_context :: pyval
  eh_refresh_days :: pyval
  eh_min_confidence :: pyval
  eh_discovery :: pyval
  eh_targeted :: pyval

record node_schema =
  ns_label :: pyval
  ns_properties :: "(pyval, pyval) dict"
  ns_required :: "pyval list"
  ns_hints :: "enrichment_hints option"

record domain_config =
  dy_domain :: string
  dy_version :: pyval
  dy_nodes :: "(pyval, node_schema) dict"
  dy_rules_path :: pyval
  dy_raw :: pyval

section \<open>Parsing\<close>

text \<open>A dict key must be as_key.\<close>

definition as_key :: "pyval \<Rightarrow> pyerr + pyval" where
  "as_key v = (case v of PList xs \<Rightarrow> Inl TypeError | PDict d \<Rightarrow> Inl TypeError | _ \<Rightarrow> Inr v)"

definition add_property :: "pyval \<Rightarrow> (pyval, pyval) dict \<times> pyval list \<Rightarrow> pyerr + (pyval, pyval) dict \<times> pyval list" where
  "add_property p st =
     (case p of
        PDict d \<Rightarrow>
          bind_res (as_key (dget_or d ''name'' (PStr []))) (\<lambda>name.
            Inr (dset name (dget_or d ''type'' (PStr ''string'')) (fst st),
                 if truthy (dget_or d ''required'' (PBool False)) then snd st @ [name] else snd st))
      | PStr s \<Rightarrow> Inr (dset (PStr s) (PStr ''string'') (fst st), snd st)
      | _ \<Rightarrow> Inr st)"


definition parse_hints :: "pyval \<Rightarrow> pyerr + enrichment_hints option" where
  "parse_hints h =
     (if \<not> truthy h then Inr None
      else (case h of
              PDict d \<Rightarrow>
                Inr (Some \<lparr>eh_objective = dget_or d ''objective_template'' (PStr []),
                           eh_priority = dget_or d ''priority_fields'' (PList []),
                           eh_kb_context = dget_or d ''kb_context'' PNone,
                           eh_refresh_days = dget_or d ''refresh_interval_days'' (PInt 90),
                           eh_min_confidence = dget_or d ''min_confidence'' (PFloat (flt (3 / 4))),
                           eh_discovery = dget_or d ''max_variations_discovery'' (PInt 5),
                           eh_targeted = dget_or d ''max_variations_targeted'' (PInt 3)\<rparr>)
            | _ \<Rightarrow> Inl AttributeError))"

definition parse_node :: "pyval \<Rightarrow> (pyval, node_schema) dict \<Rightarrow> pyerr + (pyval, node_schema) dict" where
  "parse_node node nodes =
     bind_res (py_get node ''label'' (PStr [])) (\<lambda>label.
     bind_res (py_get node ''properties'' (PList [])) (\<lambda>props.
     bind_res (py_iter props) (\<lambda>ps.
     bind_res (fold_err add_property ps ([], [])) (\<lambda>(properties, required).
     bind_res (py_get node ''enrichment_hints'' (PDict [])) (\<lambda>h.
     bind_res (parse_hints h) (\<lambda>hints.
     bind_res (as_key label) (\<lambda>key.
       Inr (dset key \<lparr>ns_label = label, ns_properties = properties, ns_required = required, ns_hints = hints\<rparr> nodes))))))))"

definition parse_config :: "string \<Rightarrow> pyval \<Rightarrow> pyerr + domain_config" where
  "parse_config domain_id raw =
     bind_res (py_get raw ''domain'' (PDict [])) (\<lambda>dm.
     bind_res (py_get raw ''domain_identity'' dm) (\<lambda>identity.
     bind_res (py_get raw ''version'' (PStr ''0.1.0-seed'')) (\<lambda>v.
     bind_res (py_get identity ''version'' v) (\<lambda>version.
     bind_res (py_get raw ''ontology'' (PDict [])) (\<lambda>ontology.
     bind_res (py_get ontology ''nodes'' (PList [])) (\<lambda>nodes.
     bind_res (py_iter nodes) (\<lambda>ns.
     bind_res (fold_err parse_node ns []) (\<lambda>schemas.
     bind_res (py_get raw ''inference_rules_path'' PNone) (\<lambda>path.
       Inr \<lparr>dy_domain = domain_id, dy_version = version, dy_nodes = schemas, dy_rules_path = path, dy_raw = raw\<rparr>)))))))))"

section \<open>The reader\<close>

type_synonym config_cache = "(string, domain_config) dict"

definition read_spec :: "(string \<Rightarrow> pyval option) \<Rightarrow> string \<Rightarrow> spec_failure + pyval" where
  "read_spec files domain_id =
     (case files (domain_id @ ''/spec.yaml'') of
        Some raw \<Rightarrow> Inr raw
      | None \<Rightarrow> (case files (domain_id @ ''.yaml'') of Some raw \<Rightarrow> Inr raw | None \<Rightarrow> Inl FileMissing))"

definition load_domain :: "(string \<Rightarrow> pyval option) \<Rightarrow> string \<Rightarrow> config_cache \<Rightarrow> (spec_failure + domain_config) \<times> config_cache" where
  "load_domain files domain_id cache =
     (case dget cache domain_id of
        Some c \<Rightarrow> (Inr c, cache)
      | None \<Rightarrow>
          (case read_spec files domain_id of
             Inl e \<Rightarrow> (Inl e, cache)
           | Inr raw \<Rightarrow>
               (case parse_config domain_id raw of
                  Inl e \<Rightarrow> (Inl (SpecError e), cache)
                | Inr c \<Rightarrow> (Inr c, dset domain_id c cache))))"

definition get_target_schema ::
    "(string \<Rightarrow> pyval option) \<Rightarrow> string \<Rightarrow> string \<Rightarrow> config_cache \<Rightarrow> (spec_failure + (pyval, pyval) dict) \<times> config_cache" where
  "get_target_schema files domain_id label cache =
     (case load_domain files domain_id cache of
        (Inl e, cache') \<Rightarrow> (Inl e, cache')
      | (Inr c, cache') \<Rightarrow>
          (case dget (dy_nodes c) (PStr label) of
             None \<Rightarrow> (Inl (SpecError KeyError), cache') | Some n \<Rightarrow> (Inr (ns_properties n), cache')))"

definition hints_dict :: "enrichment_hints \<Rightarrow> fields" where
  "hints_dict h =
     [(''objective_template'', eh_objective h), (''priority_fields'', eh_priority h), (''kb_context'', eh_kb_context h),
      (''refresh_interval_days'', eh_refresh_days h), (''min_confidence'', eh_min_confidence h),
      (''max_variations_discovery'', eh_discovery h), (''max_variations_targeted'', eh_targeted h)]"

definition get_enrichment_hints ::
    "(string \<Rightarrow> pyval option) \<Rightarrow> string \<Rightarrow> pyval \<Rightarrow> config_cache \<Rightarrow> (spec_failure + fields) \<times> config_cache" where
  "get_enrichment_hints files domain_id label cache =
     (case load_domain files domain_id cache of
        (Inl e, cache') \<Rightarrow> (Inl e, cache')
      | (Inr c, cache') \<Rightarrow>
          (case as_key label of
             Inl e \<Rightarrow> (Inl (SpecError e), cache')
           | Inr key \<Rightarrow>
               (Inr (case dget (dy_nodes c) key of
                       Some n \<Rightarrow> (case ns_hints n of Some h \<Rightarrow> hints_dict h | None \<Rightarrow> [])
                     | None \<Rightarrow> []), cache')))"

text \<open>What is in the cache came from the files.\<close>

definition cache_ok :: "(string \<Rightarrow> pyval option) \<Rightarrow> config_cache \<Rightarrow> bool" where
  "cache_ok files cache \<longleftrightarrow>
     (\<forall>i c. dget cache i = Some c \<longrightarrow> (\<exists>raw. read_spec files i = Inr raw \<and> parse_config i raw = Inr c))"

lemma load_cases:
  assumes "load_domain files i cache = (r, cache')" and "cache_ok files cache"
  shows "cache_ok files cache' \<and> (\<forall>c. r = Inr c \<longrightarrow> dget cache' i = Some c \<and> (\<exists>raw. read_spec files i = Inr raw \<and> parse_config i raw = Inr c)) \<and>
    (\<forall>e. r = Inl e \<longrightarrow> cache' = cache)"
proof (cases "dget cache i")
  case (Some c)
  then show ?thesis using assms by (auto simp: load_domain_def cache_ok_def)
next
  case None
  show ?thesis
  proof (cases "\<exists>raw c. read_spec files i = Inr raw \<and> parse_config i raw = Inr c")
    case True
    then obtain raw c where rc: "read_spec files i = Inr raw" "parse_config i raw = Inr c" by blast
    then have "r = Inr c" "cache' = dset i c cache" using assms(1) None by (auto simp: load_domain_def)
    then show ?thesis using rc assms(2) by (auto simp: cache_ok_def dget_dset)
  next
    case False
    then show ?thesis using assms None by (auto simp: load_domain_def split: sum.splits)
  qed
qed

text \<open>A load is answered from the cache or from the file, with the same result as long as the files do not change.\<close>

lemma load_stable:
  assumes "load_domain files i cache = (Inr c, cache')" and "cache_ok files cache"
  shows "load_domain files i cache' = (Inr c, cache')"
  using load_cases [OF assms] by (simp add: load_domain_def)

text \<open>A specification whose nodes are null, an empty YAML entry, is an error and no empty domain.\<close>

theorem null_nodes_fail:
  "parse_config i (PDict [(''ontology'', PDict [(''nodes'', PNone)])]) = Inl TypeError"
  by (simp add: parse_config_def py_get_def dget_or_def)

section \<open>Field specifications\<close>

record field_spec =
  fd_name :: string
  fd_type :: string
  fd_required :: bool
  fd_priority :: int

definition get_field :: "field_spec list \<Rightarrow> string \<Rightarrow> field_spec option" where
  "get_field fs name = List.find (\<lambda>f. fd_name f = name) fs"

definition get_required_fields :: "field_spec list \<Rightarrow> string list" where
  "get_required_fields fs = map fd_name (filter fd_required fs)"

definition get_enrichment_priority_fields :: "field_spec list \<Rightarrow> nat \<Rightarrow> string list" where
  "get_enrichment_priority_fields fs n = map fd_name (take n (sort_desc fd_priority fs))"

section \<open>Schema discovery\<close>

record property_spec =
  sd_name :: string
  sd_type :: string
  sd_by_inference :: bool
  sd_confidence :: f64
  sd_samples :: "pyval list"
  sd_fill_rate :: f64

record discovery_proposal =
  sp_current :: string
  sp_proposed :: string
  sp_stage :: string
  sp_properties :: "property_spec list"
  sp_gates :: "(string \<times> string \<times> f64) list"

definition gate_threshold :: f64 where
  "gate_threshold = flt (3 / 4)"

definition value_type :: "pyval \<Rightarrow> string" where
  "value_type v = (case v of PBool b \<Rightarrow> ''boolean'' | PInt n \<Rightarrow> ''integer'' | PFloat x \<Rightarrow> ''float'' | PList xs \<Rightarrow> ''list'' | _ \<Rightarrow> ''string'')"

definition build_props :: "bool \<Rightarrow> f64 \<Rightarrow> string list \<Rightarrow> (string, f64) dict \<Rightarrow> (string, f64) dict \<Rightarrow> fields \<Rightarrow> property_spec list" where
  "build_props inferred dflt current confidences fill_rates fs =
     map (\<lambda>(f, v). \<lparr>sd_name = f, sd_type = value_type v, sd_by_inference = inferred, sd_confidence = dget_or confidences f dflt,
                     sd_samples = (if v = PNone then [] else [v]), sd_fill_rate = dget_or fill_rates f 0\<rparr>)
       (filter (\<lambda>kv. fst kv \<notin> set current) fs)"

definition build_enriched_props :: "string list \<Rightarrow> (string, f64) dict \<Rightarrow> (string, f64) dict \<Rightarrow> fields \<Rightarrow> property_spec list" where
  "build_enriched_props = build_props False (flt (1 / 2))"

definition build_inferred_props :: "string list \<Rightarrow> (string, f64) dict \<Rightarrow> (string, f64) dict \<Rightarrow> fields \<Rightarrow> property_spec list" where
  "build_inferred_props = build_props True (flt (7 / 10))"

definition build_proposed_gates :: "property_spec list \<Rightarrow> (string \<times> string \<times> f64) list" where
  "build_proposed_gates props =
     map (\<lambda>p. (sd_name p, if sd_type p = ''boolean'' then ''boolean'' else ''range'', sd_confidence p))
       (filter (\<lambda>p. gate_threshold \<le> sd_fill_rate p \<and> sd_type p \<in> {''float'', ''integer'', ''boolean''}) props)"

definition render_version :: "int \<Rightarrow> int \<Rightarrow> int \<Rightarrow> string \<Rightarrow> string" where
  "render_version major minor patch stage =
     str_int major @ ''.'' @ str_int minor @ ''.'' @ str_int patch @ ''-'' @ stage"

definition bump_schema_version :: "string \<Rightarrow> string \<Rightarrow> pyerr + string" where
  "bump_schema_version version stage =
     (case split_on CHR ''.'' (hd (split_on CHR ''-'' version)) of
        a # b # rest \<Rightarrow>
          (case (parse_int a, parse_int b, case rest of [] \<Rightarrow> Some 0 | c # _ \<Rightarrow> parse_int c) of
             (Some major, Some minor, Some patch) \<Rightarrow> Inr (render_version major (minor + 1) patch stage)
           | _ \<Rightarrow> Inl ValueError)
      | [a] \<Rightarrow> (case parse_int a of None \<Rightarrow> Inl ValueError | Some _ \<Rightarrow> Inl IndexError)
      | [] \<Rightarrow> Inl IndexError)"

definition analyze :: "string list \<Rightarrow> string \<Rightarrow> fields \<Rightarrow> fields \<Rightarrow> (string, f64) dict \<Rightarrow> (string, f64) dict \<Rightarrow> pyerr + discovery_proposal" where
  "analyze current version enriched inferred confidences fill_rates =
     (let props = build_enriched_props current confidences fill_rates enriched @
                  build_inferred_props current confidences fill_rates inferred;
          stage = (if list_ex sd_by_inference props then ''inferred'' else ''discovered'')
      in bind_res (bump_schema_version version stage) (\<lambda>proposed.
           Inr \<lparr>sp_current = version, sp_proposed = proposed, sp_stage = stage, sp_properties = props,
                sp_gates = build_proposed_gates props\<rparr>))"

section \<open>Numbers survive their text\<close>

lemma digit_char_val: "0 \<le> d \<Longrightarrow> d < 10 \<Longrightarrow> digit_val (digit_char d) = Some d"
proof -
  assume d: "0 \<le> d" "d < 10"
  then have "nat d < 10" by simp
  then have "code (digit_char d) = 48 + nat d" by (simp add: code_def digit_char_def)
  with d show ?thesis by (simp add: digit_val_def Let_def)
qed

definition digits_only :: "string \<Rightarrow> bool" where
  "digits_only s = list_all (\<lambda>c. digit_val c \<noteq> None) s"

lemma digits_of_digits: "0 \<le> n \<Longrightarrow> digits_only (digits_of n)"
proof (induction n rule: digits_of.induct)
  case (1 n)
  show ?case
  proof (cases "n < 10")
    case True
    with 1(2) show ?thesis by (subst digits_of.simps) (simp add: digits_only_def digit_char_val)
  next
    case False
    then have "digits_only (digits_of (n div 10))" using 1 by simp
    with False show ?thesis by (subst digits_of.simps) (simp add: digits_only_def digit_char_val)
  qed
qed

lemma scan_digits_append:
  "digits_only xs \<Longrightarrow> scan_digits v m (xs @ ys) = (case scan_digits v m xs of (w, k, r) \<Rightarrow> scan_digits w k ys)"
  by (induction xs arbitrary: v m) (auto simp: digits_only_def)

lemma scan_digits_of: "0 \<le> n \<Longrightarrow> \<exists>k. scan_digits 0 0 (digits_of n) = (n, Suc k, [])"
proof (induction n rule: digits_of.induct)
  case (1 n)
  show ?case
  proof (cases "n < 10")
    case True
    with 1(2) show ?thesis by (subst digits_of.simps) (simp add: digit_char_val)
  next
    case False
    have "0 \<le> n div 10" using False by simp
    with 1(1) False obtain k where k: "scan_digits 0 0 (digits_of (n div 10)) = (n div 10, Suc k, [])" by blast
    have "scan_digits 0 0 (digits_of n) = (10 * (n div 10) + n mod 10, Suc (Suc k), [])"
      using False k digits_of_digits [of "n div 10"] by (subst digits_of.simps) (simp add: scan_digits_append digit_char_val)
    then show ?thesis by simp
  qed
qed

lemma digit_no_space: "digit_val c \<noteq> None \<Longrightarrow> \<not> is_space c \<and> c \<noteq> CHR ''-'' \<and> c \<noteq> CHR ''+'' \<and> c \<noteq> CHR ''.''"
  by (auto simp: digit_val_def is_space_def Let_def code_def split: if_splits)

lemma strip_digits: "digits_only s \<Longrightarrow> py_strip s = s"
proof -
  assume a: "digits_only s"
  have keep: "digits_only t \<Longrightarrow> dropWhile is_space t = t" for t
    using digit_no_space by (cases t) (auto simp: digits_only_def)
  have "digits_only (rev s)" using a by (simp add: digits_only_def)
  with a keep show ?thesis by (simp add: py_strip_def)
qed

lemma parse_int_digits: "0 \<le> n \<Longrightarrow> parse_int (digits_of n) = Some n"
proof -
  assume n: "0 \<le> n"
  obtain c cs where c: "digits_of n = c # cs" using digits_of_nonempty [of n] by (cases "digits_of n") auto
  have "digit_val c \<noteq> None" using digits_of_digits [OF n] c by (simp add: digits_only_def)
  then have "scan_sign (digits_of n) = (1, digits_of n)" using c digit_no_space [of c] by (simp add: scan_sign_def)
  moreover obtain k where "scan_digits 0 0 (digits_of n) = (n, Suc k, [])" using scan_digits_of [OF n] by blast
  ultimately show ?thesis using strip_digits [OF digits_of_digits [OF n]] by (simp add: parse_int_def)
qed

lemma split_on_append: "c \<notin> set xs \<Longrightarrow> split_on c (xs @ c # ys) = xs # split_on c ys"
  by (induction xs) auto

lemma split_on_single: "c \<notin> set xs \<Longrightarrow> split_on c xs = [xs]"
  by (induction xs) auto

lemma digits_without: "0 \<le> n \<Longrightarrow> CHR ''.'' \<notin> set (digits_of n) \<and> CHR ''-'' \<notin> set (digits_of n)"
  using digits_of_digits [of n] digit_no_space by (force simp: digits_only_def list_all_iff)

text \<open>
  Versions evolve by one minor step. Bumping a version with numeric parts gives the same major and
  patch numbers, the next minor number and the stage as its tag, whatever the old tag was: the text
  that is written can be read and bumped again, so after n proposals the minor number has grown by n.
\<close>

theorem version_bump_roundtrip:
  assumes "0 \<le> major" and "0 \<le> minor" and "0 \<le> patch"
  shows "bump_schema_version (render_version major minor patch tag) stage = Inr (render_version major (minor + 1) patch stage)"
proof -
  have str: "str_int major = digits_of major" "str_int minor = digits_of minor" "str_int patch = digits_of patch"
    using assms by (simp_all add: str_int_def)
  let ?core = "digits_of major @ CHR ''.'' # digits_of minor @ CHR ''.'' # digits_of patch"
  have render: "render_version major minor patch tag = ?core @ CHR ''-'' # tag" by (simp add: render_version_def str)
  have core: "CHR ''-'' \<notin> set ?core" using digits_without assms by simp
  have "hd (split_on CHR ''-'' (render_version major minor patch tag)) = ?core"
    unfolding render split_on_append [OF core] by simp
  moreover have "split_on CHR ''.'' ?core = [digits_of major, digits_of minor, digits_of patch]"
    using digits_without assms by (simp add: split_on_append split_on_single)
  ultimately show ?thesis using parse_int_digits assms by (simp add: bump_schema_version_def)
qed

theorem version_bump_roundtrip_witness: "bump_schema_version ''0.1.0-seed'' ''discovered'' = Inr ''0.2.0-discovered''"
proof -
  have "render_version 0 1 0 ''seed'' = ''0.1.0-seed''" "render_version 0 2 0 ''discovered'' = ''0.2.0-discovered''" by code_simp+
  with version_bump_roundtrip [of 0 1 0 "''seed''" "''discovered''"] show ?thesis by simp
qed

text \<open>What a proposal contains: the new fields and only those, and gates that are backed by a fill rate.\<close>

lemma analyze_parts:
  assumes "analyze current version enriched inferred confidences fill_rates = Inr sp"
  shows "sp_properties sp = build_enriched_props current confidences fill_rates enriched @
      build_inferred_props current confidences fill_rates inferred"
    and "sp_gates sp = build_proposed_gates (sp_properties sp)"
  using assms by (auto simp: analyze_def Let_def bind_res_Inr_iff)

lemma props_rates: "p \<in> set (build_props inferred dflt current confidences fill_rates fs) \<Longrightarrow> sd_fill_rate p = dget_or fill_rates (sd_name p) 0"
  by (auto simp: build_props_def)

lemma props_names: "map sd_name (build_props inferred dflt current confidences fill_rates fs) = filter (\<lambda>f. f \<notin> set current) (dkeys fs)"
  by (simp add: build_props_def filter_map o_def split_beta)

lemma analyze_exact:
  assumes "analyze current version enriched inferred confidences fill_rates = Inr sp"
  shows "map sd_name (sp_properties sp) =
      filter (\<lambda>f. f \<notin> set current) (dkeys enriched) @ filter (\<lambda>f. f \<notin> set current) (dkeys inferred)"
    and "\<forall>g \<in> set (sp_gates sp). \<exists>p \<in> set (sp_properties sp). fst g = sd_name p \<and> gate_threshold \<le> dget_or fill_rates (sd_name p) 0"
proof -
  note parts = analyze_parts [OF assms]
  show "map sd_name (sp_properties sp) =
      filter (\<lambda>f. f \<notin> set current) (dkeys enriched) @ filter (\<lambda>f. f \<notin> set current) (dkeys inferred)"
    by (simp add: parts(1) build_enriched_props_def build_inferred_props_def props_names)
  have "\<forall>p \<in> set (sp_properties sp). sd_fill_rate p = dget_or fill_rates (sd_name p) 0"
    using props_rates by (fastforce simp: parts(1) build_enriched_props_def build_inferred_props_def)
  then show "\<forall>g \<in> set (sp_gates sp). \<exists>p \<in> set (sp_properties sp). fst g = sd_name p \<and> gate_threshold \<le> dget_or fill_rates (sd_name p) 0"
    by (force simp: parts(2) build_proposed_gates_def)
qed

text \<open>Without fill rates no gate is proposed.\<close>

lemma no_rates_no_gates:
  assumes "analyze current version enriched inferred confidences [] = Inr sp"
  shows "sp_gates sp = []"
proof -
  have "\<not> gate_threshold \<le> 0" by (simp add: gate_threshold_def f64_eval)
  then show ?thesis using analyze_exact(2) [OF assms] by (cases "sp_gates sp") (auto simp: dget_or_def)
qed

end
