(* ===== verification/CrmWriteback.thy ===== *)
theory CrmWriteback
  imports PyValue
begin

text \<open>
  \<open>app/services/crm/field_mapper.py\<close>, \<open>writeback.py\<close>, \<open>odoo_client.py\<close> and the types of \<open>base.py\<close>:
  enriched fields are mapped to the names of the CRM and written to the record that matches them, or
  to a new one. The mapping file is given as parsed YAML of the shape the loader expects. The Odoo
  server is the parameter \<open>rpc\<close>: its answer to a call after the calls \<open>cs\<close> made so far, an error text
  or a value; operations return their result and the calls made.
\<close>

section \<open>Field mapping\<close>

record object_cfg =
  oc_odoo_model :: "string option"
  oc_salesforce_object :: "string option"
  oc_hubspot_object :: "string option"
  oc_mappings :: "(string, string) dict option"
  oc_extra_domain :: "pyval list list option"

record object_mapping =
  om_object :: string
  om_fields :: "(string, string) dict"
  om_extra :: "pyval list list option"

definition first_text :: "string option list \<Rightarrow> string" where
  "first_text ts = (case List.map_filter (\<lambda>t. case t of Some (c # cs) \<Rightarrow> Some (c # cs) | _ \<Rightarrow> None) ts of s # _ \<Rightarrow> s | [] \<Rightarrow> [])"

definition load_mapping :: "object_cfg \<Rightarrow> object_mapping" where
  "load_mapping cfg =
     \<lparr>om_object = first_text [oc_odoo_model cfg, oc_salesforce_object cfg, oc_hubspot_object cfg],
      om_fields = (case oc_mappings cfg of None \<Rightarrow> [] | Some m \<Rightarrow> m), om_extra = oc_extra_domain cfg\<rparr>"

type_synonym mapper = "(string, object_mapping) dict"

definition new_mapper :: "(string, object_cfg) dict \<Rightarrow> mapper" where
  "new_mapper cfgs = map (\<lambda>(dm, cfg). (dm, load_mapping cfg)) cfgs"

definition empty_value :: "pyval \<Rightarrow> bool" where
  "empty_value v = (v = PNone \<or> v = PStr [])"

definition map_field :: "fields \<Rightarrow> string \<times> string \<Rightarrow> fields \<Rightarrow> fields" where
  "map_field canonical sd payload =
     (case dget canonical (fst sd) of
        Some v \<Rightarrow> if empty_value v then payload else dset (snd sd) v payload
      | None \<Rightarrow> payload)"

definition to_crm :: "mapper \<Rightarrow> string \<Rightarrow> fields \<Rightarrow> pyerr + string \<times> fields" where
  "to_crm m domain canonical =
     (case dget m domain of
        None \<Rightarrow> Inl ValueError
      | Some om \<Rightarrow> Inr (om_object om, fold (map_field canonical) (om_fields om) []))"

definition get_extra_domain :: "mapper \<Rightarrow> string \<Rightarrow> pyval list list option" where
  "get_extra_domain m domain = (case dget m domain of None \<Rightarrow> None | Some om \<Rightarrow> om_extra om)"

section \<open>The Odoo client\<close>

datatype odoo_call =
    Search string "(pyval \<times> pyval) list"
  | Read string pyval
  | Create string fields
  | Update string int fields

type_synonym rpc = "odoo_call list \<Rightarrow> odoo_call \<Rightarrow> string + pyval"

record write_result =
  wr_success :: bool
  wr_record_id :: string
  wr_fields :: "string list"
  wr_error :: string

definition failed_write :: "string \<Rightarrow> write_result" where
  "failed_write e = \<lparr>wr_success = False, wr_record_id = [], wr_fields = [], wr_error = e\<rparr>"

definition written :: "string \<Rightarrow> fields \<Rightarrow> write_result" where
  "written rid data = \<lparr>wr_success = True, wr_record_id = rid, wr_fields = dkeys data, wr_error = []\<rparr>"

text \<open>Errors of a query are logged and give no records; so does an answer that is no list.\<close>

definition query_records :: "rpc \<Rightarrow> string \<Rightarrow> (pyval \<times> pyval) list \<Rightarrow> odoo_call list \<Rightarrow> pyval list \<times> odoo_call list" where
  "query_records rpc model filters cs =
     (let c1 = Search model filters in
      case rpc cs c1 of
        Inl e \<Rightarrow> ([], cs @ [c1])
      | Inr ids \<Rightarrow>
          if \<not> truthy ids then ([], cs @ [c1])
          else (let c2 = Read model ids in
                case rpc (cs @ [c1]) c2 of
                  Inr (PList recs) \<Rightarrow> (recs, cs @ [c1, c2])
                | _ \<Rightarrow> ([], cs @ [c1, c2])))"

definition create_record :: "rpc \<Rightarrow> string \<Rightarrow> fields \<Rightarrow> odoo_call list \<Rightarrow> write_result \<times> odoo_call list" where
  "create_record rpc model data cs =
     (let c = Create model data in
      (case rpc cs c of Inl e \<Rightarrow> failed_write e | Inr rid \<Rightarrow> written (py_str rid) data, cs @ [c]))"

text \<open>The record id is converted by \<open>int\<close> before the call; its failure is reported like one of the call.\<close>

definition update_record :: "rpc \<Rightarrow> string \<Rightarrow> string \<Rightarrow> fields \<Rightarrow> odoo_call list \<Rightarrow> write_result \<times> odoo_call list" where
  "update_record rpc model rid data cs =
     (case parse_int rid of
        None \<Rightarrow> (failed_write ''invalid literal for int()'', cs)
      | Some n \<Rightarrow>
          (let c = Update model n data in
           (case rpc cs c of Inl e \<Rightarrow> failed_write e | Inr r \<Rightarrow> written rid data, cs @ [c])))"

definition upsert_record :: "rpc \<Rightarrow> string \<Rightarrow> string \<Rightarrow> string \<Rightarrow> fields \<Rightarrow> odoo_call list \<Rightarrow> pyerr + write_result \<times> odoo_call list" where
  "upsert_record rpc model id_field id_value data cs =
     (let (recs, cs1) = query_records rpc model [(PStr id_field, PStr id_value)] cs in
      case recs of
        [] \<Rightarrow> Inr (create_record rpc model (dset id_field (PStr id_value) data) cs1)
      | PDict r # _ \<Rightarrow>
          (case dget r ''id'' of None \<Rightarrow> Inl KeyError | Some i \<Rightarrow> Inr (update_record rpc model (py_str i) data cs1))
      | _ \<Rightarrow> Inl TypeError)"

section \<open>Write-back\<close>

definition match_filters :: "string \<Rightarrow> fields \<Rightarrow> (string \<times> pyval) option" where
  "match_filters domain payload =
     (if domain \<in> {''company'', ''account''}
      then (case dget payload ''website'' of Some v \<Rightarrow> Some (''website'', v)
            | None \<Rightarrow> (case dget payload ''name'' of Some v \<Rightarrow> Some (''name'', v) | None \<Rightarrow> None))
      else if domain = ''contact'' then map_option (\<lambda>v. (''email'', v)) (dget payload ''email'') else None)"

text \<open>The clauses of the mapping replace the filter of the same name; their operator is not read.\<close>

definition add_clause :: "pyval list \<Rightarrow> (pyval \<times> pyval) list \<Rightarrow> (pyval \<times> pyval) list" where
  "add_clause clause filters = (case clause of [k, op, v] \<Rightarrow> dset k v filters | _ \<Rightarrow> filters)"

definition detect_existing_record ::
    "rpc \<Rightarrow> mapper \<Rightarrow> string \<Rightarrow> string \<Rightarrow> fields \<Rightarrow> (pyerr + string option) \<times> odoo_call list" where
  "detect_existing_record rpc m domain crm_object payload =
     (if domain = ''opportunity'' then (Inr (map_option py_str (dget payload ''id'')), [])
      else (case match_filters domain payload of
              None \<Rightarrow> (Inr None, [])
            | Some (k, v) \<Rightarrow>
                (let filters = fold add_clause (case get_extra_domain m domain of None \<Rightarrow> [] | Some cls \<Rightarrow> cls) [(PStr k, v)];
                     (recs, cs) = query_records rpc crm_object filters []
                 in (case recs of
                       [] \<Rightarrow> Inr None
                     | PDict r # _ \<Rightarrow> Inr (Some (py_str (dget_or r ''id'' (PStr []))))
                     | _ \<Rightarrow> Inl AttributeError, cs))))"

definition write_back :: "rpc \<Rightarrow> mapper \<Rightarrow> string \<Rightarrow> fields \<Rightarrow> (pyerr + write_result) \<times> odoo_call list" where
  "write_back rpc m domain canonical =
     (case to_crm m domain canonical of
        Inl e \<Rightarrow> (Inl e, [])
      | Inr (crm_object, payload) \<Rightarrow>
          if payload = [] then (Inr (failed_write ''empty_payload_after_mapping''), [])
          else (case detect_existing_record rpc m domain crm_object payload of
                  (Inl e, cs) \<Rightarrow> (Inl e, cs)
                | (Inr existing, cs) \<Rightarrow>
                    (case existing of
                       Some (c # rid) \<Rightarrow> (case update_record rpc crm_object (c # rid) payload cs of (r, cs') \<Rightarrow> (Inr r, cs'))
                     | _ \<Rightarrow> (case create_record rpc crm_object payload cs of (r, cs') \<Rightarrow> (Inr r, cs')))))"

section \<open>What is written\<close>

lemma map_field_get:
  "dget (map_field canonical sd payload) k =
     (if snd sd = k then (case dget canonical (fst sd) of
        Some v \<Rightarrow> if empty_value v then dget payload k else Some v | None \<Rightarrow> dget payload k) else dget payload k)"
  by (simp add: map_field_def dget_dset split: option.split)

lemma map_field_some:
  "dget (map_field canonical sd p) k = Some v \<Longrightarrow>
   dget p k = Some v \<or> (snd sd = k \<and> dget canonical (fst sd) = Some v \<and> \<not> empty_value v)"
  by (simp add: map_field_get split: option.splits if_splits)

lemma payload_sound:
  "(\<forall>k v. dget p k = Some v \<longrightarrow> P k v) \<Longrightarrow>
   (\<And>src dest v. (src, dest) \<in> set ms \<Longrightarrow> dget canonical src = Some v \<Longrightarrow> \<not> empty_value v \<Longrightarrow> P dest v) \<Longrightarrow>
   \<forall>k v. dget (fold (map_field canonical) ms p) k = Some v \<longrightarrow> P k v"
proof (induction ms arbitrary: p)
  case (Cons sd ms)
  have "\<forall>k v. dget (map_field canonical sd p) k = Some v \<longrightarrow> P k v"
  proof (intro allI impI)
    fix k v
    assume "dget (map_field canonical sd p) k = Some v"
    from map_field_some [OF this] show "P k v"
    proof (elim disjE conjE)
      assume "dget p k = Some v"
      then show ?thesis by (rule Cons.prems(1) [rule_format])
    next
      assume k: "snd sd = k" and v: "dget canonical (fst sd) = Some v" "\<not> empty_value v"
      have "(fst sd, k) \<in> set (sd # ms)" using k by (cases sd) simp
      then show ?thesis using v by (rule Cons.prems(2))
    qed
  qed
  then have "\<forall>k v. dget (fold (map_field canonical) ms (map_field canonical sd p)) k = Some v \<longrightarrow> P k v"
    by (rule Cons.IH) (rule Cons.prems(2), rule list.set_intros(2))
  then show ?case by (simp only: fold_simps)
qed simp

lemma payload_other: "k \<notin> set (map snd ms) \<Longrightarrow> dget (fold (map_field canonical) ms p) k = dget p k"
  by (induction ms arbitrary: p) (auto simp: map_field_get)

lemma payload_complete:
  "distinct (map snd ms) \<Longrightarrow> (src, dest) \<in> set ms \<Longrightarrow> dget canonical src = Some v \<Longrightarrow> \<not> empty_value v \<Longrightarrow>
   dget (fold (map_field canonical) ms p) dest = Some v"
proof (induction ms arbitrary: p)
  case (Cons sd ms)
  show ?case
  proof (cases "sd = (src, dest)")
    case True
    then have "dest \<notin> set (map snd ms)" using Cons.prems(1) by simp
    from payload_other [OF this, of canonical "map_field canonical sd p"] show ?thesis
      using Cons.prems True by (simp add: map_field_get)
  next
    case False
    then show ?thesis using Cons by simp
  qed
qed simp

text \<open>The calls that ask the CRM for a change, whether or not it makes it.\<close>

definition mutations :: "odoo_call list \<Rightarrow> odoo_call list" where
  "mutations cs = filter (\<lambda>c. case c of Create _ _ \<Rightarrow> True | Update _ _ _ \<Rightarrow> True | _ \<Rightarrow> False) cs"

lemma query_no_mutation: "query_records rpc model filters cs = (recs, cs') \<Longrightarrow> mutations cs' = mutations cs"
  by (auto simp: query_records_def mutations_def Let_def split: sum.splits if_splits pyval.splits)

lemma detect_no_mutation: "detect_existing_record rpc m domain obj payload = (r, cs) \<Longrightarrow> mutations cs = []"
proof -
  assume a: "detect_existing_record rpc m domain obj payload = (r, cs)"
  show "mutations cs = []"
  proof (cases "domain = ''opportunity'' \<or> match_filters domain payload = None")
    case True
    then show ?thesis using a by (auto simp: detect_existing_record_def mutations_def split: if_splits)
  next
    case False
    then obtain k v where "domain \<noteq> ''opportunity''" "match_filters domain payload = Some (k, v)" by auto
    then obtain filters recs where "query_records rpc obj filters [] = (recs, cs)"
      using a by (auto simp: detect_existing_record_def Let_def split_beta prod_eq_iff)
    then show ?thesis using query_no_mutation by (fastforce simp: mutations_def)
  qed
qed

lemma payload_keeps: "dget p k \<noteq> None \<Longrightarrow> dget (fold (map_field canonical) ms p) k \<noteq> None"
  by (induction ms arbitrary: p) (auto simp: map_field_get split: option.splits simp del: not_None_eq)

lemma payload_empty:
  assumes "fold (map_field canonical) ms p = []" and "(src, dest) \<in> set ms" and "dget canonical src = Some v"
  shows "empty_value v"
proof (rule ccontr)
  assume "\<not> empty_value v"
  from assms(2) obtain ms1 ms2 where "ms = ms1 @ (src, dest) # ms2" by (metis split_list)
  moreover have "dget (map_field canonical (src, dest) (fold (map_field canonical) ms1 p)) dest \<noteq> None"
    using assms(3) \<open>\<not> empty_value v\<close> by (simp add: map_field_get)
  ultimately have "dget (fold (map_field canonical) ms p) dest \<noteq> None" by (simp add: payload_keeps del: not_None_eq)
  with assms(1) show False by simp
qed

text \<open>The search names no record that can be written: it raised, or the id it found is not a number.\<close>

definition no_target :: "pyerr + string option \<Rightarrow> bool" where
  "no_target found = (case found of Inl e \<Rightarrow> True | Inr (Some (x # rid)) \<Rightarrow> parse_int (x # rid) = None | _ \<Rightarrow> False)"

text \<open>A change made as the last call, reported as a success exactly if the server took it.\<close>

definition change_reported :: "rpc \<Rightarrow> string \<Rightarrow> fields \<Rightarrow> odoo_call list \<Rightarrow> (pyerr + write_result) \<times> odoo_call list \<Rightarrow> bool" where
  "change_reported rpc obj payload before out \<longleftrightarrow> (\<exists>c r. out = (Inr r, before @ [c]) \<and>
     (c = Create obj payload \<or> (\<exists>n. c = Update obj n payload)) \<and>
     (wr_success r \<longleftrightarrow> \<not> isl (rpc before c)) \<and> (wr_success r \<longrightarrow> wr_fields r = dkeys payload))"

lemma update_reported:
  assumes "parse_int rid = Some n"
  shows "change_reported rpc obj payload before (apfst Inr (update_record rpc obj rid payload before))"
  using assms by (auto simp: change_reported_def update_record_def failed_write_def written_def Let_def split: sum.splits)

lemma create_reported: "change_reported rpc obj payload before (apfst Inr (create_record rpc obj payload before))"
  by (auto simp: change_reported_def create_record_def failed_write_def written_def Let_def split: sum.splits)

lemma write_back_change:
  assumes crm: "to_crm m domain canonical = Inr (obj, payload)" and "payload \<noteq> []"
    and d: "detect_existing_record rpc m domain obj payload = (found, before)"
  shows "if no_target found then snd (write_back rpc m domain canonical) = before \<and>
      (\<forall>r. fst (write_back rpc m domain canonical) = Inr r \<longrightarrow> \<not> wr_success r)
    else change_reported rpc obj payload before (write_back rpc m domain canonical)"
proof (cases "\<exists>x rid. found = Inr (Some (x # rid))")
  case True
  then obtain x rid where f: "found = Inr (Some (x # rid))" by blast
  have w: "write_back rpc m domain canonical = apfst Inr (update_record rpc obj (x # rid) payload before)"
    using assms f by (simp add: write_back_def apfst_def map_prod_def split: prod.split)
  show ?thesis
  proof (cases "parse_int (x # rid)")
    case None
    then show ?thesis unfolding w f by (simp add: no_target_def update_record_def failed_write_def)
  next
    case (Some n)
    then show ?thesis unfolding w f using update_reported by (simp add: no_target_def)
  qed
next
  case False
  show ?thesis
  proof (cases found)
    case (Inl e)
    then show ?thesis using assms by (simp add: write_back_def no_target_def)
  next
    case (Inr ex)
    then have "write_back rpc m domain canonical = apfst Inr (create_record rpc obj payload before)" "\<not> no_target found"
      using assms False by (auto simp: write_back_def no_target_def apfst_def map_prod_def split: option.splits list.splits prod.splits)
    then show ?thesis using create_reported by simp
  qed
qed

text \<open>
  C19: a write-back changes at most one record, with mapped values only, and says so truthfully. Whatever the server
  answers, either no change is sent and no success is reported - then the domain has no mapping, no mapped field has a
  value, or the search raised or found an id that is not a number - or exactly one create or update is sent, as the last
  call. Its data holds for every field a non-empty value of the caller
  whose canonical name is mapped to that field, and, where no two names are mapped to one field, all of them.
  Then success is reported exactly if the server answered that call without an error, with exactly the fields sent.
\<close>

theorem write_back_writes_mapped_fields:
  assumes "write_back rpc m domain canonical = (res, cs)"
  shows "mutations cs = [] \<and> (\<forall>r. res = Inr r \<longrightarrow> \<not> wr_success r) \<and>
      (\<forall>om. dget m domain = Some om \<longrightarrow>
         (\<forall>src dest v. (src, dest) \<in> set (om_fields om) \<longrightarrow> dget canonical src = Some v \<longrightarrow> empty_value v) \<or>
         (\<exists>obj payload. to_crm m domain canonical = Inr (obj, payload) \<and> no_target (fst (detect_existing_record rpc m domain obj payload)))) \<or>
    (\<exists>om payload before c r. dget m domain = Some om \<and> cs = before @ [c] \<and> mutations before = [] \<and> res = Inr r \<and>
       (c = Create (om_object om) payload \<or> (\<exists>n. c = Update (om_object om) n payload)) \<and>
       (\<forall>dest v. dget payload dest = Some v \<longrightarrow>
          (\<exists>src. (src, dest) \<in> set (om_fields om) \<and> dget canonical src = Some v \<and> \<not> empty_value v)) \<and>
       (distinct (map snd (om_fields om)) \<longrightarrow> (\<forall>src dest v. (src, dest) \<in> set (om_fields om) \<longrightarrow>
          dget canonical src = Some v \<longrightarrow> \<not> empty_value v \<longrightarrow> dget payload dest = Some v)) \<and>
       (wr_success r \<longleftrightarrow> \<not> isl (rpc before c)) \<and> (wr_success r \<longrightarrow> wr_fields r = dkeys payload))"
proof (cases "dget m domain")
  case None
  then show ?thesis using assms by (auto simp: write_back_def to_crm_def mutations_def)
next
  case (Some om)
  define payload where "payload = fold (map_field canonical) (om_fields om) []"
  have crm: "to_crm m domain canonical = Inr (om_object om, payload)" using Some by (simp add: to_crm_def payload_def)
  have sound: "\<forall>dest v. dget payload dest = Some v \<longrightarrow>
      (\<exists>src. (src, dest) \<in> set (om_fields om) \<and> dget canonical src = Some v \<and> \<not> empty_value v)"
    unfolding payload_def by (rule payload_sound) auto
  have all: "distinct (map snd (om_fields om)) \<longrightarrow> (\<forall>src dest v. (src, dest) \<in> set (om_fields om) \<longrightarrow>
      dget canonical src = Some v \<longrightarrow> \<not> empty_value v \<longrightarrow> dget payload dest = Some v)"
    unfolding payload_def by (blast intro: payload_complete)
  show ?thesis
  proof (cases "payload = []")
    case True
    then have "mutations cs = [] \<and> (\<forall>r. res = Inr r \<longrightarrow> \<not> wr_success r)"
      using assms crm by (auto simp: write_back_def mutations_def failed_write_def)
    with True Some payload_empty [of canonical "om_fields om" "[]"] show ?thesis unfolding payload_def by auto
  next
    case False
    obtain found before where d: "detect_existing_record rpc m domain (om_object om) payload = (found, before)" by fastforce
    note none = detect_no_mutation [OF d] and change = write_back_change [OF crm False d, unfolded assms fst_conv snd_conv]
    show ?thesis
    proof (cases "no_target found")
      case True
      with change none crm d Some show ?thesis by auto
    next
      case False
      with change none Some sound all show ?thesis unfolding change_reported_def by auto
    qed
  qed
qed

definition sample_mapper :: mapper where
  "sample_mapper = [(''company'', \<lparr>om_object = ''res.partner'', om_fields = [(''company_name'', ''name''), (''website'', ''website'')],
     om_extra = Some [[PStr ''is_company'', PStr ''='', PBool True]]\<rparr>)]"

definition found_rpc :: rpc where
  "found_rpc cs c = (case c of Search _ _ \<Rightarrow> Inr (PList [PInt 7]) | Read _ _ \<Rightarrow> Inr (PList [PDict [(''id'', PInt 7)]]) | _ \<Rightarrow> Inr (PBool True))"

definition sample_calls :: "odoo_call list" where
  "sample_calls =
     [Search ''res.partner'' [(PStr ''website'', PStr ''a.io''), (PStr ''is_company'', PBool True)],
      Read ''res.partner'' (PList [PInt 7]), Update ''res.partner'' 7 [(''name'', PStr ''Acme''), (''website'', PStr ''a.io'')]]"

lemma sample_write_back:
  "write_back found_rpc sample_mapper ''company'' [(''company_name'', PStr ''Acme''), (''website'', PStr ''a.io''), (''vat'', PStr ''1'')] =
     (Inr (written ''7'' [(''name'', PStr ''Acme''), (''website'', PStr ''a.io'')]), sample_calls)"
  by code_simp

theorem write_back_writes_mapped_fields_witness:
  "\<exists>before c. sample_calls = before @ [c] \<and> mutations before = [] \<and> \<not> isl (found_rpc before c)"
proof -
  have one: "mutations sample_calls \<noteq> []" by code_simp
  from write_back_writes_mapped_fields [OF sample_write_back] one
  show ?thesis by (auto simp: written_def)
qed

text \<open>A search that fails counts as no match, so the write-back creates a second record for a company the CRM already has.\<close>

theorem failed_search_creates_duplicate:
  "write_back (\<lambda>cs c. case c of Search _ _ \<Rightarrow> Inl ''timeout'' | Create _ _ \<Rightarrow> Inr (PInt 8) | _ \<Rightarrow> found_rpc cs c) sample_mapper ''company''
       [(''company_name'', PStr ''Acme''), (''website'', PStr ''a.io'')] =
     (Inr (written ''8'' [(''name'', PStr ''Acme''), (''website'', PStr ''a.io'')]),
      [Search ''res.partner'' [(PStr ''website'', PStr ''a.io''), (PStr ''is_company'', PBool True)],
       Create ''res.partner'' [(''name'', PStr ''Acme''), (''website'', PStr ''a.io'')]])"
  by code_simp

text \<open>The operator of an extra clause is dropped: greater-than becomes equality.\<close>

theorem clause_operator_ignored: "add_clause [k, PStr ''>'', v] fs = add_clause [k, PStr ''='', v] fs"
  by (simp add: add_clause_def)

end
