(* ===== verification/Handlers.thy ===== *)
theory Handlers
  imports GateConverge Persistence SideEffects DomainSpec CrmWriteback
begin

text \<open>
  \<open>app/engines/handlers.py\<close>: the handlers that Gate's runtime calls, composed from the validation of
  requests, the convergence loop, the persistence of results and the side-effect coordinator.

  The state is the coordinator, the table of results and the cache of domain specifications. The
  environment of one call holds what is outside: the pydantic conversion of a payload, the loop and
  the single enrichment with their providers, files, the database and the effects other than
  persistence, and where the request's timeout cancels the call, if it does: before the result is
  there, or while an effect is awaited.
\<close>

datatype cancelled = NotCancelled | WhileWorking | WhileAwaiting effect

record call_env =
  ce_loads :: "string \<Rightarrow> pyval option"
  ce_convert :: "fields \<Rightarrow> raw_request option"
  ce_loop :: "api_request \<Rightarrow> fields \<Rightarrow> pyval \<Rightarrow> int option \<Rightarrow> string option \<Rightarrow> string + api_response"
  ce_enrich :: "api_request \<Rightarrow> api_response"
  ce_files :: "string \<Rightarrow> pyval option"
  ce_rules :: "string \<Rightarrow> pyval option"
  ce_db :: bool
  ce_effect_ok :: "effect \<Rightarrow> bool"
  ce_cancel :: cancelled
  ce_hash :: "string \<Rightarrow> string"
  ce_default_domain :: string
  ce_run_id :: string

record service =
  sv_coordinator :: coordinator
  sv_rows :: result_table
  sv_configs :: config_cache

datatype handler_error = BadRequest | TimedOutError | PersistenceRequired | Uncaught string

section \<open>Side effects of a call\<close>

text \<open>The coordinator runs until the call ends or an effect is awaited that is cancelled.\<close>

fun run_until :: "effect option \<Rightarrow> nat \<Rightarrow> (effect \<Rightarrow> bool) \<Rightarrow> coordinator \<Rightarrow> coordinator" where
  "run_until stop_at 0 oc s = s"
| "run_until stop_at (Suc left) oc s =
     (case cl_phase (last (co_calls s)) of
        Awaiting e \<Rightarrow> if stop_at = Some e then s else run_until stop_at left oc (resume (length (co_calls s) - 1) (oc e) s)
      | _ \<Rightarrow> s)"

definition cut_of :: "cancelled \<Rightarrow> effect option" where
  "cut_of c = (case c of WhileAwaiting e \<Rightarrow> Some e | _ \<Rightarrow> None)"

definition text_of :: "pyval \<Rightarrow> string option" where
  "text_of v = (case v of PStr s \<Rightarrow> Some s | _ \<Rightarrow> None)"

text \<open>
  \<open>payload.get("entity_id", payload.get("entity", {}).get("id", "unknown"))\<close>: the default is computed
  in any case.
\<close>

definition persist_identity :: "fields \<Rightarrow> pyerr + pyval" where
  "persist_identity payload =
     bind_res (py_get (dget_or payload ''entity'' (PDict [])) ''id'' (PStr ''unknown'')) (\<lambda>dflt.
       Inr (dget_or payload ''entity_id'' dflt))"

definition side_request_of :: "call_env \<Rightarrow> string \<Rightarrow> fields \<Rightarrow> pyval \<Rightarrow> bool \<Rightarrow> bool \<Rightarrow> side_request" where
  "side_request_of ce tenant payload identity graph_sync required =
     (let pid = entry payload ''packet_id''
      in \<lparr>sq_key = semantic_side_effect_key (ce_hash ce) tenant (py_str identity) ''enrich''
                   (if truthy pid then Some (py_str pid) else None) (text_of (entry payload ''idempotency_key'')),
          sq_graph_sync = graph_sync, sq_emit_event = True, sq_require_persistence = required\<rparr>)"

text \<open>
  The commit: a duplicate key does nothing. Otherwise the result is stored first, and what the store
  says is the outcome of the effect \<open>Persist\<close>.
\<close>

definition persist_and_sync ::
    "call_env \<Rightarrow> string \<Rightarrow> fields \<Rightarrow> api_response \<Rightarrow> string \<Rightarrow> bool \<Rightarrow> bool \<Rightarrow> service \<Rightarrow> (handler_error + unit) \<times> service" where
  "persist_and_sync ce tenant payload response object_type graph_sync required sv =
     (case persist_identity payload of
        Inl e \<Rightarrow> (Inl (Uncaught ''AttributeError''), sv)
      | Inr identity \<Rightarrow>
          (let rq = side_request_of ce tenant payload identity graph_sync required;
               fresh = (sq_key rq \<notin> co_completed (sv_coordinator sv));
               saved = persist_enrich_response (ce_db ce) tenant response (py_str identity) object_type
                         (Some (py_str (dget_or payload ''domain'' (PStr (ce_default_domain ce)))))
                         (text_of (entry payload ''idempotency_key'')) (sv_rows sv);
               oc = (\<lambda>e. if e = Persist then \<not> isl saved else ce_effect_ok ce e);
               coord = run_until (cut_of (ce_cancel ce)) 4 oc (arrive rq (sv_coordinator sv));
               rows = (if fresh \<and> ce_cancel ce \<noteq> WhileAwaiting Persist
                       then (case saved of Inr (r, rows') \<Rightarrow> rows' | Inl e \<Rightarrow> sv_rows sv) else sv_rows sv);
               sv' = sv\<lparr>sv_coordinator := coord, sv_rows := rows\<rparr>
           in (case cl_phase (last (co_calls coord)) of
                 Refused \<Rightarrow> Inl PersistenceRequired
               | Awaiting e \<Rightarrow> Inl TimedOutError
               | _ \<Rightarrow> Inr (), sv')))"

section \<open>Enrich\<close>

definition parse_request :: "call_env \<Rightarrow> fields \<Rightarrow> pyerr + api_request" where
  "parse_request ce payload =
     (case ce_convert ce payload of None \<Rightarrow> Inl ValueError | Some raw \<Rightarrow> validate_request (ce_loads ce) raw)"

definition handle_enrich :: "call_env \<Rightarrow> string \<Rightarrow> fields \<Rightarrow> service \<Rightarrow> (handler_error + api_response) \<times> service" where
  "handle_enrich ce tenant payload sv =
     (case parse_request ce payload of
        Inl e \<Rightarrow> (Inl BadRequest, sv)
      | Inr rq \<Rightarrow>
          (let response = ce_enrich ce rq in
           if ap_state response = ''completed''
           then (case persist_and_sync ce tenant payload response (rq_object_type rq) True False sv of
                   (Inl e, sv') \<Rightarrow> (Inl e, sv') | (Inr u, sv') \<Rightarrow> (Inr response, sv'))
           else (Inr response, sv)))"

record batch_answer =
  ba_results :: "api_response list"
  ba_total :: nat
  ba_succeeded :: nat
  ba_failed :: nat

definition handle_enrichbatch :: "call_env \<Rightarrow> raw_request list \<Rightarrow> handler_error + batch_answer" where
  "handle_enrichbatch ce raws =
     (case validate_batch (ce_loads ce) raws of
        Inl e \<Rightarrow> Inl BadRequest
      | Inr rqs \<Rightarrow>
          (let results = map (ce_enrich ce) rqs in
           Inr \<lparr>ba_results = results, ba_total = length results,
                ba_succeeded = length (filter (\<lambda>r. ap_state r = ''completed'') results),
                ba_failed = length (filter (\<lambda>r. ap_state r = ''failed'') results)\<rparr>))"

section \<open>Converge\<close>

definition canonical_entity_id :: "fields \<Rightarrow> string" where
  "canonical_entity_id payload =
     (case entry payload ''entity'' of
        PDict d \<Rightarrow>
          (case stripped_text (entry d ''id'') of
             Some s \<Rightarrow> s
           | None \<Rightarrow> (case stripped_text (entry d ''_odoo_entity_id'') of Some s \<Rightarrow> s | None \<Rightarrow> ''unknown''))
      | _ \<Rightarrow> ''unknown'')"

definition canonical_failure :: "string \<Rightarrow> api_response" where
  "canonical_failure reason = default_response\<lparr>ap_state := ''failed'', ap_failure_reason := Some reason\<rparr>"

text \<open>
  \<open>_load_domain_convergence_context\<close>: hints and rules, with the errors the source catches. An error
  of another kind is raised; a domain that is no text cannot be made a path.
\<close>

definition soft :: "spec_failure \<Rightarrow> pyerr list \<Rightarrow> bool" where
  "soft e caught = (case e of FileMissing \<Rightarrow> True | SpecError x \<Rightarrow> x \<in> set caught)"

definition rules_from :: "call_env \<Rightarrow> domain_config \<Rightarrow> string + pyval" where
  "rules_from ce config =
     (if \<not> truthy (dy_rules_path config) then Inr (PList [])
      else (case dy_rules_path config of
              PStr path \<Rightarrow>
                (case ce_rules ce path of
                   None \<Rightarrow> Inr (PList []) | Some rules \<Rightarrow> Inr (if truthy rules then rules else PList []))
            | _ \<Rightarrow> Inl ''TypeError''))"

definition load_context :: "call_env \<Rightarrow> pyval \<Rightarrow> pyval \<Rightarrow> config_cache \<Rightarrow> (string + fields \<times> pyval) \<times> config_cache" where
  "load_context ce domain_id node_label cache =
     (if \<not> truthy domain_id then (Inr ([], PList []), cache)
      else (case domain_id of
              PStr dm \<Rightarrow>
                (let label = (if truthy node_label then node_label else PStr ''Partner'');
                     (hints, cache1) = get_enrichment_hints (ce_files ce) dm label cache
                 in (case hints of
                       Inl e \<Rightarrow>
                         if soft e [ValueError, KeyError]
                         then (case load_domain (ce_files ce) dm cache1 of
                                 (Inl e2, cache2) \<Rightarrow>
                                   if soft e2 [ValueError] then (Inr ([], PList []), cache2) else (Inl ''specification error'', cache2)
                               | (Inr config, cache2) \<Rightarrow> (map_sum id (\<lambda>rules. ([], rules)) (rules_from ce config), cache2))
                         else (Inl ''specification error'', cache1)
                     | Inr hs \<Rightarrow>
                         (case load_domain (ce_files ce) dm cache1 of
                            (Inl e2, cache2) \<Rightarrow>
                              if soft e2 [ValueError] then (Inr (hs, PList []), cache2) else (Inl ''specification error'', cache2)
                          | (Inr config, cache2) \<Rightarrow> (map_sum id (\<lambda>rules. (hs, rules)) (rules_from ce config), cache2))))
            | _ \<Rightarrow> (Inl ''TypeError'', cache)))"

definition first_truthy :: "pyval list \<Rightarrow> pyval" where
  "first_truthy vs = (case filter truthy (butlast vs) of v # _ \<Rightarrow> v | [] \<Rightarrow> last vs)"

definition opt_pass_limit :: "pyval \<Rightarrow> string + int option" where
  "opt_pass_limit v = (if v = PNone then Inr None else case py_int v of Inl e \<Rightarrow> Inl ''ValueError'' | Inr n \<Rightarrow> Inr (Some n))"

definition converge_domain :: "fields \<Rightarrow> api_request \<Rightarrow> pyval" where
  "converge_domain payload rq =
     first_truthy [entry payload ''domain_id'', entry payload ''domain'', opt_text (rq_kb_context rq), PStr (rq_object_type rq)]"

definition run_canonical_converge ::
    "call_env \<Rightarrow> string \<Rightarrow> fields \<Rightarrow> api_request \<Rightarrow> service \<Rightarrow> (handler_error + api_response) \<times> service" where
  "run_canonical_converge ce tenant payload rq sv =
     (let domain_id = converge_domain payload rq;
          (context, configs) = load_context ce domain_id (entry payload ''node_label'') (sv_configs sv);
          sv1 = sv\<lparr>sv_configs := configs\<rparr>;
          ident = canonical_entity_id payload
      in case context of
           Inl e \<Rightarrow> (Inl (Uncaught e), sv1)
         | Inr (hints, rules) \<Rightarrow>
             (case opt_pass_limit (entry payload ''max_passes'') of
                Inl e \<Rightarrow> (Inl (Uncaught e), sv1)
              | Inr limit \<Rightarrow>
                  (case ce_loop ce rq hints rules limit (if ident = ''unknown'' then None else Some ident) of
                     Inl e \<Rightarrow> (Inl (Uncaught e), sv1)
                   | Inr response \<Rightarrow>
                       if ce_cancel ce = WhileWorking then (Inl TimedOutError, sv1)
                       else if ap_state response \<noteq> odoo_completed_state then (Inr response, sv1)
                       else (case persist_and_sync ce tenant
                                    (dset ''domain'' (if truthy domain_id then domain_id else PStr (ce_default_domain ce)) payload)
                                    response (rq_object_type rq) False True sv1 of
                               (Inr u, sv2) \<Rightarrow> (Inr response, sv2)
                             | (Inl PersistenceRequired, sv2) \<Rightarrow> (Inr (canonical_failure ''result not durable''), sv2)
                             | (Inl e, sv2) \<Rightarrow> (Inl e, sv2)))))"

definition handle_canonical_converge :: "call_env \<Rightarrow> string \<Rightarrow> fields \<Rightarrow> service \<Rightarrow> (handler_error + api_response) \<times> service" where
  "handle_canonical_converge ce tenant payload sv =
     (case parse_request ce payload of
        Inl e \<Rightarrow> (Inr (canonical_failure ''invalid converge request''), sv)
      | Inr rq \<Rightarrow>
          (case run_canonical_converge ce tenant payload rq sv of
             (Inl TimedOutError, sv') \<Rightarrow> (Inr (canonical_failure ''converge exceeded its budget''), sv')
           | r \<Rightarrow> r))"

definition run_odoo_compat_converge :: "call_env \<Rightarrow> string \<Rightarrow> fields \<Rightarrow> parsed_request \<Rightarrow> service \<Rightarrow> (handler_error + fields) \<times> service" where
  "run_odoo_compat_converge ce tenant payload p sv =
     (case validate_request (ce_loads ce) (build_enrich_request p) of
        Inl e \<Rightarrow> (Inl (Uncaught ''ValidationError''), sv)
      | Inr rq \<Rightarrow>
          (let label = (if truthy (entry payload ''node_label'') then entry payload ''node_label'' else PStr ''Partner'');
               (context, configs) = load_context ce (PStr (pq_domain p)) label (sv_configs sv);
               sv1 = sv\<lparr>sv_configs := configs\<rparr>
           in case context of
                Inl e \<Rightarrow> (Inl (Uncaught e), sv1)
              | Inr (hints, rules) \<Rightarrow>
                  (case ce_loop ce rq hints rules (Some (pq_max_passes p)) (Some (pq_entity_id p)) of
                     Inl e \<Rightarrow> (Inl (Uncaught e), sv1)
                   | Inr response \<Rightarrow>
                       if ce_cancel ce = WhileWorking then (Inl TimedOutError, sv1)
                       else if ap_state response \<noteq> odoo_completed_state then (Inl (Uncaught ''converge did not complete''), sv1)
                       else
                         (let result = build_odoo_converge_response response p (ce_run_id ce);
                              kept = filter_partner_fields (ap_fields response) (Some (pq_snapshot p))
                          in if kept = [] then (Inr result, sv1)
                             else (case persist_and_sync ce tenant
                                     (dset ''idempotency_key'' (opt_text (rq_idempotency_key rq)) (dset ''entity'' (PDict (rq_entity rq))
                                       (dset ''domain'' (PStr (pq_domain p)) (dset ''entity_id'' (PStr (pq_entity_id p)) payload))))
                                     (default_response\<lparr>ap_fields := kept, ap_confidence := ap_confidence response,
                                        ap_tokens_used := ap_tokens_used response, ap_pass_count := ap_pass_count response,
                                        ap_state := ap_state response\<rparr>)
                                     (rq_object_type rq) False False sv1 of
                                     (Inr u, sv2) \<Rightarrow> (Inr result, sv2) | (Inl e, sv2) \<Rightarrow> (Inl e, sv2))))))"

definition handle_odoo_compat_converge :: "call_env \<Rightarrow> string \<Rightarrow> fields \<Rightarrow> service \<Rightarrow> (handler_error + fields) \<times> service" where
  "handle_odoo_compat_converge ce tenant payload sv =
     (case parse_odoo_converge_request (PDict payload) of
        Inl e \<Rightarrow> (Inr (build_odoo_converge_error ''a top-level entity_id is required'' (ce_run_id ce) 0 0), sv)
      | Inr p \<Rightarrow> run_odoo_compat_converge ce tenant payload p sv)"

datatype converge_reply = Canonical api_response | Compat fields

definition handle_converge :: "call_env \<Rightarrow> string \<Rightarrow> fields \<Rightarrow> service \<Rightarrow> (handler_error + converge_reply) \<times> service" where
  "handle_converge ce tenant payload sv =
     (if is_odoo_compat_converge_payload (PDict payload)
      then (case handle_odoo_compat_converge ce tenant payload sv of (r, sv') \<Rightarrow> (map_sum id Compat r, sv'))
      else (case handle_canonical_converge ce tenant payload sv of (r, sv') \<Rightarrow> (map_sum id Canonical r, sv')))"

section \<open>Discover and write-back\<close>

text \<open>The current schema of a discover payload has its declared type, a mapping, or is missing.\<close>

definition handle_discover :: "call_env \<Rightarrow> fields \<Rightarrow> handler_error + api_response \<times> discovery_proposal" where
  "handle_discover ce payload =
     (case parse_request ce payload of
        Inl e \<Rightarrow> Inl BadRequest
      | Inr rq \<Rightarrow>
          (let response = ce_enrich ce rq;
               current = (case entry payload ''current_schema'' of PDict d \<Rightarrow> dkeys d | _ \<Rightarrow> []);
               analyzed = (case dget_or payload ''schema_version'' (PStr ''0.1.0-seed'') of
                 PStr version \<Rightarrow> analyze current version (ap_fields response) []
                     (map (\<lambda>f. (f, ap_confidence response)) (dkeys (ap_fields response))) []
               | _ \<Rightarrow> Inl AttributeError)
           in case analyzed of
                Inl e \<Rightarrow> Inl (Uncaught ''version'')
              | Inr proposal \<Rightarrow> Inr (response, proposal)))"

datatype crm_type = Odoo | Salesforce | HubSpot

definition crm_type_of :: "string \<Rightarrow> crm_type option" where
  "crm_type_of s = (if s = ''odoo'' then Some Odoo else if s = ''salesforce'' then Some Salesforce
     else if s = ''hubspot'' then Some HubSpot else None)"

definition handle_writeback :: "rpc \<Rightarrow> bool \<Rightarrow> (string, object_cfg) dict \<Rightarrow> string \<Rightarrow> string \<Rightarrow> fields \<Rightarrow> (handler_error + write_result) \<times> odoo_call list" where
  "handle_writeback rpc login_ok mapping crm domain canonical =
     (case crm_type_of crm of
        None \<Rightarrow> (Inl BadRequest, [])
      | Some Odoo \<Rightarrow>
          if login_ok then (case write_back rpc (new_mapper mapping) domain canonical of (r, cs) \<Rightarrow> (map_sum (\<lambda>e. Uncaught ''write-back'') id r, cs))
          else (Inl (Uncaught ''Failed to connect to CRM''), [])
      | Some other \<Rightarrow> (Inl (Uncaught ''Unsupported CRM type''), []))"

section \<open>Completed means stored\<close>

lemma arrive_fresh:
  "sq_key rq \<notin> co_completed s \<Longrightarrow> arrive rq s =
     \<lparr>co_completed = co_completed s,
      co_calls = co_calls s @ [\<lparr>cl_request = rq, cl_phase = Awaiting Persist, cl_report = new_report (sq_key rq)\<rparr>], co_trace = co_trace s\<rparr>"
  by (cases s) (simp add: arrive_def open_call_def)

lemma run_until_awaiting:
  assumes "cl_phase c = Awaiting e" and "stop_at \<noteq> Some e"
  shows "run_until stop_at (Suc left) oc \<lparr>co_completed = done, co_calls = cs @ [c], co_trace = tr\<rparr> =
    run_until stop_at left oc \<lparr>co_completed = (if cl_phase (resume_call e (oc e) c) = Committed then insert (sq_key (cl_request c)) done else done),
      co_calls = cs @ [resume_call e (oc e) c], co_trace = tr @ [(e, sq_key (cl_request c), oc e)]\<rparr>"
  using assms by (simp add: resume_def Let_def nth_append)

lemma run_until_ended:
  "\<forall>e. cl_phase c = Awaiting e \<longrightarrow> stop_at = Some e \<Longrightarrow>
   run_until stop_at left oc \<lparr>co_completed = done, co_calls = cs @ [c], co_trace = tr\<rparr> = \<lparr>co_completed = done, co_calls = cs @ [c], co_trace = tr\<rparr>"
  by (cases left) (auto split: phase.split)

text \<open>How a fresh call ends, whichever effect it is cancelled in.\<close>

definition end_phase :: "effect option \<Rightarrow> side_request \<Rightarrow> (effect \<Rightarrow> bool) \<Rightarrow> phase" where
  "end_phase stop_at rq oc =
     (if stop_at = Some Persist then Awaiting Persist
      else if sq_require_persistence rq \<and> \<not> oc Persist then Refused
      else (case stop_at of Some e \<Rightarrow> if e \<in> set (call_effects rq oc) then Awaiting e else Committed | None \<Rightarrow> Committed))"

lemma fresh_ends:
  assumes "sq_key rq \<notin> co_completed s"
  shows "cl_phase (last (co_calls (run_until stop_at 4 oc (arrive rq s)))) = end_phase stop_at rq oc"
proof -
  have four: "4 = Suc (Suc (Suc (Suc 0)))" by simp
  have none: "stop_at = None \<or> (\<exists>e. stop_at = Some e)" by (cases stop_at) auto
  show ?thesis unfolding arrive_fresh [OF assms] four
    by (cases stop_at; cases "the stop_at"; cases "oc Persist"; cases "sq_require_persistence rq"; cases "sq_graph_sync rq"; cases "sq_emit_event rq")
      (simp_all add: run_until_awaiting run_until_ended call_steps end_phase_def call_effects_def del: run_until.simps)
qed

lemma duplicate_ends:
  assumes "sq_key rq \<in> co_completed s"
  shows "cl_phase (last (co_calls (run_until stop_at 4 oc (arrive rq s)))) = Duplicate"
  using assms by (simp add: arrive_def open_call_def eval_nat_numeral)

lemma persist_and_sync_answers:
  assumes "persist_and_sync ce tenant payload response ot graph required sv = (res, sv')"
    and "persist_identity payload = Inr identity"
  defines "rq \<equiv> side_request_of ce tenant payload identity graph required"
  defines "saved \<equiv> persist_enrich_response (ce_db ce) tenant response (py_str identity) ot
      (Some (py_str (dget_or payload ''domain'' (PStr (ce_default_domain ce))))) (text_of (entry payload ''idempotency_key'')) (sv_rows sv)"
  shows "(sq_key rq \<in> co_completed (sv_coordinator sv) \<longrightarrow> res = Inr () \<and> sv_rows sv' = sv_rows sv) \<and>
    (sq_key rq \<notin> co_completed (sv_coordinator sv) \<longrightarrow>
       (res = Inr () \<longrightarrow> \<not> required \<or> (\<exists>r. saved = Inr (r, sv_rows sv'))) \<and>
       (res = Inl PersistenceRequired \<longrightarrow> isl saved \<and> sv_rows sv' = sv_rows sv) \<and>
       (\<forall>e. res = Inl e \<longrightarrow> e = PersistenceRequired \<or> (e = TimedOutError \<and> (\<exists>f. ce_cancel ce = WhileAwaiting f))))"
proof -
  define oc where "oc = (\<lambda>e. if e = Persist then \<not> isl saved else ce_effect_ok ce e)"
  define coord where "coord = run_until (cut_of (ce_cancel ce)) 4 oc (arrive rq (sv_coordinator sv))"
  define rows where "rows = (if sq_key rq \<notin> co_completed (sv_coordinator sv) \<and> ce_cancel ce \<noteq> WhileAwaiting Persist
      then (case saved of Inr (r, rows') \<Rightarrow> rows' | Inl e \<Rightarrow> sv_rows sv) else sv_rows sv)"
  have run: "persist_and_sync ce tenant payload response ot graph required sv =
      (case cl_phase (last (co_calls coord)) of Refused \<Rightarrow> Inl PersistenceRequired | Awaiting e \<Rightarrow> Inl TimedOutError | _ \<Rightarrow> Inr (),
       sv\<lparr>sv_coordinator := coord, sv_rows := rows\<rparr>)"
    unfolding persist_and_sync_def assms(2) sum.case Let_def coord_def rows_def oc_def saved_def rq_def by (rule refl)
  have req: "sq_require_persistence rq = required" by (simp add: rq_def side_request_of_def Let_def)
  have ocp: "oc Persist = (\<not> isl saved)" by (simp add: oc_def)
  have rows': "sv_rows sv' = rows" using assms(1) run by auto
  show ?thesis
  proof (cases "sq_key rq \<in> co_completed (sv_coordinator sv)")
    case True
    then show ?thesis using assms(1) run duplicate_ends [OF True] rows' by (auto simp: coord_def rows_def)
  next
    case False
    have phase: "cl_phase (last (co_calls coord)) = end_phase (cut_of (ce_cancel ce)) rq oc"
      using fresh_ends [OF False] by (simp add: coord_def)
    have res: "res = (case end_phase (cut_of (ce_cancel ce)) rq oc of
        Refused \<Rightarrow> Inl PersistenceRequired | Awaiting e \<Rightarrow> Inl TimedOutError | _ \<Rightarrow> Inr ())"
      using assms(1) run phase by simp
    show ?thesis
    proof (cases saved)
      case (Inl e)
      then show ?thesis using False res rows' req ocp
        by (cases "ce_cancel ce") (auto simp: end_phase_def cut_of_def rows_def split: if_splits effect.splits)
    next
      case (Inr p)
      then show ?thesis using False res rows' req ocp
        by (cases "ce_cancel ce"; cases p) (auto simp: end_phase_def cut_of_def rows_def split: if_splits effect.splits)
    qed
  qed
qed


lemma entry_domain [simp]: "k \<noteq> ''domain'' \<Longrightarrow> entry (dset ''domain'' v d) k = entry d k"
  by (simp add: entry_def dget_or_def dget_dset)

lemma identity_domain [simp]: "persist_identity (dset ''domain'' v d) = persist_identity d"
  by (simp add: persist_identity_def dget_or_def dget_dset)

lemma side_request_domain [simp]: "side_request_of ce tenant (dset ''domain'' v d) = side_request_of ce tenant d"
  by (simp add: side_request_of_def fun_eq_iff)

text \<open>What the canonical operation comes to once the loop has answered.\<close>

lemma run_canonical_cases:
  assumes "run_canonical_converge ce tenant payload rq sv = (res, sv')"
  obtains (raised) msg where "res = Inl (Uncaught msg)" "sv_rows sv' = sv_rows sv" "sv_coordinator sv' = sv_coordinator sv"
    | (unfinished) "res = Inl TimedOutError" "ce_cancel ce = WhileWorking" "sv_rows sv' = sv_rows sv"
    | (other) r where "res = Inr r" "ap_state r \<noteq> ''completed''" "sv_rows sv' = sv_rows sv"
    | (answered) r sv1 dm where "ap_state r = ''completed''" "sv_rows sv1 = sv_rows sv" "sv_coordinator sv1 = sv_coordinator sv"
        "res = (case fst (persist_and_sync ce tenant (dset ''domain'' dm payload) r (rq_object_type rq) False True sv1) of
           Inr u \<Rightarrow> Inr r | Inl PersistenceRequired \<Rightarrow> Inr (canonical_failure ''result not durable'') | Inl e \<Rightarrow> Inl e)"
        "sv' = snd (persist_and_sync ce tenant (dset ''domain'' dm payload) r (rq_object_type rq) False True sv1)"
proof -
  define dm where "dm = converge_domain payload rq"
  obtain cx configs where lc: "load_context ce dm (entry payload ''node_label'') (sv_configs sv) = (cx, configs)" by fastforce
  define sv1 where "sv1 = sv\<lparr>sv_configs := configs\<rparr>"
  have same: "sv_rows sv1 = sv_rows sv" "sv_coordinator sv1 = sv_coordinator sv" by (simp_all add: sv1_def)
  note run = run_canonical_converge_def [of ce tenant payload rq sv, folded dm_def, unfolded lc Let_def prod.case, folded sv1_def]
  show ?thesis
  proof (cases cx)
    case (Inl e)
    then show ?thesis using assms run raised same by auto
  next
    case (Inr hr)
    obtain hints rules where hr: "hr = (hints, rules)" by (cases hr)
    show ?thesis
    proof (cases "opt_pass_limit (entry payload ''max_passes'')")
      case l: (Inl e)
      then show ?thesis using assms run raised same Inr hr by auto
    next
      case l: (Inr limit)
      show ?thesis
      proof (cases "ce_loop ce rq hints rules limit (if canonical_entity_id payload = ''unknown'' then None else Some (canonical_entity_id payload))")
        case a: (Inl e)
        then show ?thesis using assms run raised same Inr hr l by auto
      next
        case a: (Inr r)
        show ?thesis
        proof (cases "ce_cancel ce = WhileWorking \<or> ap_state r \<noteq> ''completed''")
          case True
          then show ?thesis using assms run unfinished other same Inr hr l a by (auto simp: odoo_completed_state_def split: if_splits)
        next
          case False
          let ?p = "persist_and_sync ce tenant (dset ''domain'' (if truthy dm then dm else PStr (ce_default_domain ce)) payload) r (rq_object_type rq) False True sv1"
          obtain pr sv2 where p: "?p = (pr, sv2)" by fastforce
          show ?thesis
            by (rule answered [of r sv1 "if truthy dm then dm else PStr (ce_default_domain ce)"])
              (use assms run same Inr hr l a False p in
                \<open>auto simp: odoo_completed_state_def split: sum.splits handler_error.splits\<close>)
        qed
      qed
    qed
  qed
qed


lemma run_canonical_raises:
  assumes "load_context ce (converge_domain payload rq) (entry payload ''node_label'') (sv_configs sv) = (Inr cx, configs)"
    and "opt_pass_limit (entry payload ''max_passes'') = Inr limit"
    and "ce_loop ce rq (fst cx) (snd cx) limit
        (if canonical_entity_id payload = ''unknown'' then None else Some (canonical_entity_id payload)) = Inr response"
    and "fst (run_canonical_converge ce tenant payload rq sv) = Inl (Uncaught msg)"
  shows "persist_identity payload = Inl AttributeError"
proof (rule ccontr)
  assume no: "persist_identity payload \<noteq> Inl AttributeError"
  have "persist_identity payload = Inl e \<Longrightarrow> e = AttributeError" for e
    by (auto simp: persist_identity_def py_get_def bind_res_def split: sum.splits pyval.splits)
  with no obtain identity where identity: "persist_identity payload = Inr identity" by (cases "persist_identity payload") auto
  define sv1 where "sv1 = sv\<lparr>sv_configs := configs\<rparr>"
  define d where "d = (if truthy (converge_domain payload rq) then converge_domain payload rq else PStr (ce_default_domain ce))"
  obtain pr sv2 where p: "persist_and_sync ce tenant (dset ''domain'' d payload) response (rq_object_type rq) False True sv1 = (pr, sv2)"
    by fastforce
  obtain hints rules where cx: "cx = (hints, rules)" by (cases cx)
  have loop: "ce_loop ce rq hints rules limit
      (if canonical_entity_id payload = ''unknown'' then None else Some (canonical_entity_id payload)) = Inr response"
    using assms(3) cx by simp
  have run: "run_canonical_converge ce tenant payload rq sv =
      (if ce_cancel ce = WhileWorking then (Inl TimedOutError, sv1)
       else if ap_state response \<noteq> odoo_completed_state then (Inr response, sv1)
       else case (pr, sv2) of
          (Inr u, sv2) \<Rightarrow> (Inr response, sv2)
        | (Inl PersistenceRequired, sv2) \<Rightarrow> (Inr (canonical_failure ''result not durable''), sv2)
        | (Inl e, sv2) \<Rightarrow> (Inl e, sv2))"
    unfolding run_canonical_converge_def Let_def assms(1) prod.case cx sum.case assms(2) loop sv1_def [symmetric] d_def [symmetric] p
    by (rule refl)
  have "pr \<noteq> Inl (Uncaught msg)"
    using persist_and_sync_answers [OF p, unfolded identity_domain, OF identity] by (metis handler_error.distinct(11) handler_error.distinct(9) handler_error.distinct sum.distinct(1))
  then show False using assms(4) run by (auto split: if_splits sum.splits handler_error.splits)
qed

text \<open>Where an uncaught exception comes from.\<close>

definition raised_by :: "call_env \<Rightarrow> fields \<Rightarrow> service \<Rightarrow> api_request \<Rightarrow> string \<Rightarrow> bool" where
  "raised_by ce payload sv rq msg \<longleftrightarrow>
     fst (load_context ce (converge_domain payload rq) (entry payload ''node_label'') (sv_configs sv)) = Inl msg \<or>
     opt_pass_limit (entry payload ''max_passes'') = Inl msg \<or>
     (\<exists>hints rules limit. fst (load_context ce (converge_domain payload rq) (entry payload ''node_label'') (sv_configs sv)) = Inr (hints, rules) \<and>
        opt_pass_limit (entry payload ''max_passes'') = Inr limit \<and>
        ce_loop ce rq hints rules limit (if canonical_entity_id payload = ''unknown'' then None else Some (canonical_entity_id payload)) = Inl msg) \<or>
     persist_identity payload = Inl AttributeError"

lemma run_canonical_raised_by:
  assumes "fst (run_canonical_converge ce tenant payload rq sv) = Inl (Uncaught msg)"
  shows "raised_by ce payload sv rq msg"
proof -
  obtain cx configs where lc: "load_context ce (converge_domain payload rq) (entry payload ''node_label'') (sv_configs sv) = (cx, configs)"
    by fastforce
  note run = assms [unfolded run_canonical_converge_def Let_def lc prod.case]
  show ?thesis
  proof (cases cx)
    case (Inl e)
    with run lc show ?thesis by (simp add: raised_by_def)
  next
    case (Inr hr)
    obtain hints rules where hr: "hr = (hints, rules)" by (cases hr)
    show ?thesis
    proof (cases "opt_pass_limit (entry payload ''max_passes'')")
      case l: (Inl e)
      with run Inr hr show ?thesis by (simp add: raised_by_def)
    next
      case l: (Inr limit)
      let ?ident = "if canonical_entity_id payload = ''unknown'' then None else Some (canonical_entity_id payload)"
      show ?thesis
      proof (cases "ce_loop ce rq hints rules limit ?ident")
        case a: (Inl e)
        with run Inr hr l lc show ?thesis by (auto simp: raised_by_def)
      next
        case a: (Inr response)
        have "persist_identity payload = Inl AttributeError"
          by (rule run_canonical_raises [OF lc [unfolded Inr] l _ assms]) (use a hr in simp)
        then show ?thesis by (simp add: raised_by_def)
      qed
    qed
  qed
qed

lemma errors_are_uncaught:
  assumes "fst (handle_canonical_converge ce tenant payload sv) = Inl e"
  shows "\<exists>rq msg. parse_request ce payload = Inr rq \<and> e = Uncaught msg \<and> raised_by ce payload sv rq msg"
proof -
  obtain rq where rq: "parse_request ce payload = Inr rq"
    using assms by (cases "parse_request ce payload") (auto simp: handle_canonical_converge_def)
  obtain res sv' where run: "run_canonical_converge ce tenant payload rq sv = (res, sv')" by fastforce
  have res: "res = Inl e" "e \<noteq> TimedOutError"
    using assms rq run by (auto simp: handle_canonical_converge_def split: sum.splits handler_error.splits)
  from run have "\<exists>msg. e = Uncaught msg"
  proof (cases rule: run_canonical_cases)
    case (answered r1 sv1 dm)
    obtain pr sv2 where p: "persist_and_sync ce tenant (dset ''domain'' dm payload) r1 (rq_object_type rq) False True sv1 = (pr, sv2)"
      by fastforce
    show ?thesis
    proof (cases "persist_identity payload")
      case (Inl x)
      then have "pr = Inl (Uncaught ''AttributeError'')" using p by (simp add: persist_and_sync_def)
      then show ?thesis using res answered(4) p by auto
    next
      case (Inr identity)
      note persist_and_sync_answers [OF p, unfolded identity_domain, OF this]
      then show ?thesis using res answered(4) p by (cases pr) (auto split: handler_error.splits)
    qed
  qed (use res in auto)
  then obtain msg where "e = Uncaught msg" by blast
  with rq run res run_canonical_raised_by [of ce tenant payload rq sv msg] show ?thesis by auto
qed

text \<open>
  C5: failures are answers. Whatever error escapes the canonical converge is an uncaught exception of the domain
  specification, of a pass limit that is no number, of the loop, or of an entity that is no mapping; an expired budget,
  a result that could not be stored and a bad request never escape. A payload that does not parse is answered with a
  failed response. An answer that does not read completed has stored no row, unless the budget expired while an
  effect was being awaited.
\<close>

theorem failures_are_answers:
  "(\<forall>e. fst (handle_canonical_converge ce tenant payload sv) = Inl e \<longrightarrow>
      (\<exists>rq msg. parse_request ce payload = Inr rq \<and> e = Uncaught msg \<and> raised_by ce payload sv rq msg)) \<and>
   (parse_request ce payload = Inl err \<longrightarrow> fst (handle_canonical_converge ce tenant payload sv) = Inr (canonical_failure ''invalid converge request'')) \<and>
   (\<forall>r. fst (handle_canonical_converge ce tenant payload sv) = Inr r \<longrightarrow> ap_state r \<noteq> ''completed'' \<longrightarrow>
      (\<forall>f. ce_cancel ce \<noteq> WhileAwaiting f) \<longrightarrow> sv_rows (snd (handle_canonical_converge ce tenant payload sv)) = sv_rows sv)"
proof -
  have "(parse_request ce payload = Inl err \<longrightarrow> fst (handle_canonical_converge ce tenant payload sv) = Inr (canonical_failure ''invalid converge request'')) \<and>
    (\<forall>r. fst (handle_canonical_converge ce tenant payload sv) = Inr r \<longrightarrow> ap_state r \<noteq> ''completed'' \<longrightarrow>
      (\<forall>f. ce_cancel ce \<noteq> WhileAwaiting f) \<longrightarrow> sv_rows (snd (handle_canonical_converge ce tenant payload sv)) = sv_rows sv)"
  proof (cases "parse_request ce payload")
    case (Inl e)
    then show ?thesis by (simp add: handle_canonical_converge_def)
  next
    case (Inr rq)
    obtain res sv' where run: "run_canonical_converge ce tenant payload rq sv = (res, sv')" by fastforce
    have h: "handle_canonical_converge ce tenant payload sv =
        (case res of Inl TimedOutError \<Rightarrow> (Inr (canonical_failure ''converge exceeded its budget''), sv') | _ \<Rightarrow> (res, sv'))"
      using Inr run by (simp add: handle_canonical_converge_def split: sum.split handler_error.split)
    from run show ?thesis
    proof (cases rule: run_canonical_cases)
      case (answered r1 sv1 dm)
      obtain pr sv2 where p: "persist_and_sync ce tenant (dset ''domain'' dm payload) r1 (rq_object_type rq) False True sv1 = (pr, sv2)"
        by fastforce
      show ?thesis
      proof (cases "persist_identity payload")
        case (Inl e)
        then have "pr = Inl (Uncaught ''AttributeError'')" using p by (simp add: persist_and_sync_def)
        then show ?thesis using h Inr answered(4) p by simp
      next
        case (Inr identity)
        note q = persist_and_sync_answers [OF p, unfolded identity_domain, OF this]
        show ?thesis
        proof (cases pr)
          case (Inr u)
          then show ?thesis using h \<open>parse_request ce payload = Inr rq\<close> answered(1,4) p by simp
        next
          case (Inl e)
          then have "e = PersistenceRequired \<or> e = TimedOutError \<and> (\<exists>f. ce_cancel ce = WhileAwaiting f)" using q by (metis sum.distinct(1))
          moreover have "e = PersistenceRequired \<Longrightarrow> sv_rows sv' = sv_rows sv"
            using q Inl answered(2,5) p by (metis snd_conv sum.distinct(1))
          ultimately show ?thesis using h \<open>parse_request ce payload = Inr rq\<close> answered(4) p Inl by auto
        qed
      qed
    qed (use h Inr in auto)
  qed
  with errors_are_uncaught show ?thesis by blast
qed

lemma version_bump_here: "bump_schema_version ''0.1.0-seed'' ''discovered'' = Inr ''0.2.0-discovered''"
  by code_simp

text \<open>Once the specification, the pass limit and the loop give values, only the side effects can raise.\<close>

section \<open>A sample service\<close>

definition sample_answer :: api_response where
  "sample_answer = default_response\<lparr>ap_fields := [(''city'', PStr ''Oslo'')]\<rparr>"

definition raw_of :: "fields \<Rightarrow> raw_request" where
  "raw_of payload =
     \<lparr>rw_entity = (case entry payload ''entity'' of PDict d \<Rightarrow> d | _ \<Rightarrow> []), rw_object_type = ''plasticos'', rw_schema = PNone,
      rw_objective = ''fill'', rw_kb_context = None, rw_consensus_threshold = Some 1, rw_field_thresholds = None,
      rw_max_variations = None, rw_idempotency_key = text_of (entry payload ''idempotency_key'')\<rparr>"

definition sample_call :: "bool \<Rightarrow> call_env" where
  "sample_call db_up =
     \<lparr>ce_loads = (\<lambda>_. None), ce_convert = (\<lambda>payload. Some (raw_of payload)),
      ce_loop = (\<lambda>_ _ _ _ _. Inr sample_answer), ce_enrich = (\<lambda>_. sample_answer), ce_files = (\<lambda>_. None), ce_rules = (\<lambda>_. None),
      ce_db = db_up, ce_effect_ok = (\<lambda>_. True), ce_cancel = NotCancelled, ce_hash = (\<lambda>s. s), ce_default_domain = ''plasticos'',
      ce_run_id = ''r1''\<rparr>"

definition new_service :: service where
  "new_service = \<lparr>sv_coordinator = new_coordinator, sv_rows = [], sv_configs = []\<rparr>"

definition partner_payload :: "string \<Rightarrow> string \<Rightarrow> fields" where
  "partner_payload k ident = [(''entity'', PDict [(k, PStr ident)])]"

lemma sample_parse:
  "parse_request (sample_call db) (partner_payload k ident) =
     Inr \<lparr>rq_entity = [(k, PStr ident)], rq_schema = None, rq_consensus_threshold = 1, rq_field_thresholds = None, rq_max_variations = 5,
       rq_object_type = ''plasticos'', rq_objective = ''fill'', rq_kb_context = None, rq_idempotency_key = None\<rparr>"
  by (simp add: parse_request_def sample_call_def raw_of_def partner_payload_def entry_def dget_or_def text_of_def validate_request_def
      parse_schema_string_def as_schema_def check_unit_def check_variations_def thresholds_are_unit_interval_def
      requested_fields_name_their_threshold_def not_less f64_eval)

lemma sample_run:
  assumes "sv_configs sv = []"
  shows "fst (handle_canonical_converge (sample_call db) tenant (partner_payload k ident) sv) =
     (case fst (persist_and_sync (sample_call db) tenant (dset ''domain'' (PStr ''plasticos'') (partner_payload k ident)) sample_answer
          ''plasticos'' False True sv) of
        Inr u \<Rightarrow> Inr sample_answer | Inl PersistenceRequired \<Rightarrow> Inr (canonical_failure ''result not durable'')
      | Inl TimedOutError \<Rightarrow> Inr (canonical_failure ''converge exceeded its budget'') | Inl e \<Rightarrow> Inl e) \<and>
   snd (handle_canonical_converge (sample_call db) tenant (partner_payload k ident) sv) =
     snd (persist_and_sync (sample_call db) tenant (dset ''domain'' (PStr ''plasticos'') (partner_payload k ident)) sample_answer
          ''plasticos'' False True sv)"
proof -
  have e: "entry (partner_payload k ident) x = PNone" if "x \<noteq> ''entity''" for x
    using that by (simp add: partner_payload_def entry_def dget_or_def)
  have sv: "sv\<lparr>sv_configs := []\<rparr> = sv" using assms by simp
  have done_state: "ap_state sample_answer = odoo_completed_state"
    by (simp add: sample_answer_def default_response_def odoo_completed_state_def)
  have ctx: "load_context (sample_call db) (PStr ''plasticos'') PNone [] = (Inr ([], PList []), [])"
    by (simp add: load_context_def get_enrichment_hints_def load_domain_def read_spec_def sample_call_def soft_def)
  have fields: "ce_loop (sample_call db) = (\<lambda>_ _ _ _ _. Inr sample_answer)" "ce_cancel (sample_call db) = NotCancelled"
    "ce_default_domain (sample_call db) = ''plasticos''"
    by (simp_all add: sample_call_def)
  let ?p = "persist_and_sync (sample_call db) tenant (dset ''domain'' (PStr ''plasticos'') (partner_payload k ident)) sample_answer ''plasticos'' False True sv"
  obtain pr sv2 where p: "?p = (pr, sv2)" by fastforce
  have run: "run_canonical_converge (sample_call db) tenant (partner_payload k ident)
      \<lparr>rq_entity = [(k, PStr ident)], rq_schema = None, rq_consensus_threshold = 1, rq_field_thresholds = None, rq_max_variations = 5,
       rq_object_type = ''plasticos'', rq_objective = ''fill'', rq_kb_context = None, rq_idempotency_key = None\<rparr> sv =
      (case (pr, sv2) of
         (Inr u, sv2) \<Rightarrow> (Inr sample_answer, sv2)
       | (Inl PersistenceRequired, sv2) \<Rightarrow> (Inr (canonical_failure ''result not durable''), sv2)
       | (Inl e, sv2) \<Rightarrow> (Inl e, sv2))"
    unfolding run_canonical_converge_def
    by (simp add: e assms converge_domain_def first_truthy_def opt_text_def ctx opt_pass_limit_def sv done_state fields p)
  show ?thesis
    unfolding handle_canonical_converge_def sample_parse sum.case run p
    by (cases pr) (simp_all split: handler_error.split)
qed

text \<open>The service after one stored converge, and after one enrichment that could not be stored.\<close>

definition after_converge :: service where
  "after_converge = snd (handle_canonical_converge (sample_call True) ''t'' (partner_payload ''_odoo_entity_id'' ''res.partner:5'') new_service)"

definition after_failed_enrich :: service where
  "after_failed_enrich = snd (handle_enrich (sample_call False) ''t'' (partner_payload ''id'' ''res.partner:5'') new_service)"

lemma new_service_configs: "sv_configs new_service = []"
  by (simp add: new_service_def)



theorem failures_are_answers_witness:
  "fst (handle_canonical_converge ((sample_call True)\<lparr>ce_convert := \<lambda>_. None\<rparr>) ''t'' [] new_service) =
     Inr (canonical_failure ''invalid converge request'')"
  using failures_are_answers [of "(sample_call True)\<lparr>ce_convert := \<lambda>_. None\<rparr>" "''t''" "[]" new_service ValueError]
  by (simp add: parse_request_def)

text \<open>
  A key that was recorded by an enrichment whose result could not be stored hides the next converge of
  the same entity: it is answered as completed and no row exists.
\<close>

theorem completed_but_never_stored:
  "fst (handle_canonical_converge (sample_call True) ''t'' (partner_payload ''id'' ''res.partner:5'') after_failed_enrich) = Inr sample_answer \<and>
   ap_state sample_answer = ''completed'' \<and>
   sv_rows (snd (handle_canonical_converge (sample_call True) ''t'' (partner_payload ''id'' ''res.partner:5'') after_failed_enrich)) = []"
proof -
  have f: "ce_enrich (sample_call False) = (\<lambda>_. sample_answer)" "ap_state sample_answer = ''completed''"
    by (simp_all add: sample_call_def sample_answer_def default_response_def)
  have e: "after_failed_enrich = snd (persist_and_sync (sample_call False) ''t'' (partner_payload ''id'' ''res.partner:5'') sample_answer
      ''plasticos'' True False new_service)"
    unfolding after_failed_enrich_def handle_enrich_def sample_parse sum.case
    by (simp add: f Let_def split: prod.split sum.split)
  have c: "sv_configs after_failed_enrich = []" unfolding e by code_simp
  have p: "fst (persist_and_sync (sample_call True) ''t'' (dset ''domain'' (PStr ''plasticos'') (partner_payload ''id'' ''res.partner:5'')) sample_answer
      ''plasticos'' False True after_failed_enrich) = Inr ()"
    "sv_rows (snd (persist_and_sync (sample_call True) ''t'' (dset ''domain'' (PStr ''plasticos'') (partner_payload ''id'' ''res.partner:5'')) sample_answer
      ''plasticos'' False True after_failed_enrich)) = []"
    unfolding e by code_simp+
  show ?thesis using sample_run [OF c] p by (simp add: sample_answer_def default_response_def)
qed

text \<open>
  The loop takes the identity \<open>_odoo_entity_id\<close>, the side effects do not: every partner identified that
  way is stored as \<open>unknown\<close>, so the second one is a duplicate of the first and is never stored.
\<close>

theorem odoo_identity_collides:
  "canonical_entity_id (partner_payload ''_odoo_entity_id'' ''res.partner:6'') = ''res.partner:6'' \<and>
   map rr_entity (sv_rows after_converge) = [''unknown''] \<and>
   fst (handle_canonical_converge (sample_call True) ''t'' (partner_payload ''_odoo_entity_id'' ''res.partner:6'') after_converge) = Inr sample_answer \<and>
   sv_rows (snd (handle_canonical_converge (sample_call True) ''t'' (partner_payload ''_odoo_entity_id'' ''res.partner:6'') after_converge)) =
     sv_rows after_converge"
proof -
  have e: "after_converge = snd (persist_and_sync (sample_call True) ''t'' (dset ''domain'' (PStr ''plasticos'') (partner_payload ''_odoo_entity_id'' ''res.partner:5''))
      sample_answer ''plasticos'' False True new_service)"
    unfolding after_converge_def using sample_run [OF new_service_configs] by simp
  have c: "sv_configs after_converge = []" unfolding e by code_simp
  have rows: "map rr_entity (sv_rows after_converge) = [''unknown'']" unfolding e by code_simp
  have p: "fst (persist_and_sync (sample_call True) ''t'' (dset ''domain'' (PStr ''plasticos'') (partner_payload ''_odoo_entity_id'' ''res.partner:6'')) sample_answer
      ''plasticos'' False True after_converge) = Inr ()"
    "sv_rows (snd (persist_and_sync (sample_call True) ''t'' (dset ''domain'' (PStr ''plasticos'') (partner_payload ''_odoo_entity_id'' ''res.partner:6'')) sample_answer
      ''plasticos'' False True after_converge)) = sv_rows after_converge"
    unfolding e by code_simp+
  have i: "canonical_entity_id (partner_payload ''_odoo_entity_id'' ''res.partner:6'') = ''res.partner:6''" by code_simp
  show ?thesis using sample_run [OF c] p rows i by simp
qed

text \<open>A discover answer never proposes a gate: the handler passes no fill rates.\<close>

theorem discover_proposes_no_gates:
  assumes "handle_discover ce payload = Inr (response, proposal)"
  shows "sp_gates proposal = []"
  using assms no_rates_no_gates by (fastforce simp: handle_discover_def Let_def split: sum.splits pyval.splits)

theorem discover_proposes_no_gates_witness:
  "\<exists>response proposal. handle_discover (sample_call True) (partner_payload ''id'' ''x'') = Inr (response, proposal) \<and> sp_gates proposal = []"
proof -
  have "analyze [] ''0.1.0-seed'' (ap_fields sample_answer) [] (map (\<lambda>f. (f, ap_confidence sample_answer)) (dkeys (ap_fields sample_answer))) []
      = Inr \<lparr>sp_current = ''0.1.0-seed'', sp_proposed = ''0.2.0-discovered'', sp_stage = ''discovered'',
          sp_properties = build_enriched_props [] (map (\<lambda>f. (f, ap_confidence sample_answer)) (dkeys (ap_fields sample_answer))) [] (ap_fields sample_answer),
          sp_gates = build_proposed_gates (build_enriched_props [] (map (\<lambda>f. (f, ap_confidence sample_answer)) (dkeys (ap_fields sample_answer))) [] (ap_fields sample_answer))\<rparr>"
    using version_bump_here by (simp add: analyze_def build_inferred_props_def build_enriched_props_def build_props_def sample_answer_def default_response_def Let_def)
  then have "\<exists>proposal. handle_discover (sample_call True) (partner_payload ''id'' ''x'') = Inr (sample_answer, proposal)"
    unfolding handle_discover_def sample_parse sum.case
    by (simp add: partner_payload_def entry_def dget_or_def sample_call_def)
  then show ?thesis using discover_proposes_no_gates by blast
qed

lemma batch_counts: "handle_enrichbatch ce raws = Inr b \<Longrightarrow> ba_total b = length raws \<and> ba_succeeded b + ba_failed b \<le> ba_total b"
proof -
  assume a: "handle_enrichbatch ce raws = Inr b"
  then obtain rqs where rqs: "validate_batch (ce_loads ce) raws = Inr rqs" by (auto simp: handle_enrichbatch_def split: sum.splits)
  then have len: "length rqs = length raws"
    by (auto simp: validate_batch_def map_res_Inr list_all2_lengthD split: if_splits dest: list_all2_lengthD)
  have "length (filter (\<lambda>r. ap_state r = ''completed'') rs) + length (filter (\<lambda>r. ap_state r = ''failed'') rs) \<le> length rs" for rs
    by (induction rs) auto
  from this [of "map (ce_enrich ce) rqs"] a rqs len show ?thesis by (auto simp: handle_enrichbatch_def)
qed

end
