(* ===== verification/SimCore.thy ===== *)
theory SimCore
  imports PyOps DerivationGraph CrmFieldScanner
begin

text \<open>
  \<open>app/services/simulation_bridge.py\<close>, the engine: the derivation functions, the gates and the scoring
  that a simulated entity is put through. Texts of reasons are not modelled.
\<close>

section \<open>Names\<close>

definition normalize_field :: "string \<Rightarrow> string" where
  "normalize_field name =
     strip_prefix [''x_'', ''custom_'', ''cf_'', ''c_'']
       (map (\<lambda>c. if c = CHR ''-'' \<or> c = CHR '' '' then CHR ''_'' else c) (py_lower (py_strip name)))"

definition normalized :: "fields \<Rightarrow> fields" where
  "normalized d = dupdate [] (map (\<lambda>(k, v). (normalize_field k, v)) d)"

section \<open>Derivations\<close>

definition iso_9001 :: pyval where
  "iso_9001 = PStr ''ISO 9001''"

definition sim_material_grade :: "fields \<Rightarrow> pyerr + string" where
  "sim_material_grade fs =
     (let polymers = dget_or fs ''polymers_handled'' (PList []); contam = dget_or fs ''contamination_tolerance_pct'' (PFloat (f_of_int 10));
          certs = dget_or fs ''certifications'' (PList [])
      in bind_res (and_res (le_num contam 2) (any_res (\<lambda>c. py_in c certs) [iso_9001, PStr ''SQF'', PStr ''ISCC PLUS''])) (\<lambda>prime.
           if prime then Inr ''prime''
           else bind_res (and_res (le_num contam 5) (bind_res (py_len polymers) (\<lambda>n. Inr (n \<le> 3)))) (\<lambda>near.
             if near then Inr ''near-prime''
             else bind_res (le_num contam 10) (\<lambda>ind. Inr (if ind then ''industrial'' else ''commodity'')))))"

definition sim_facility_tier :: "fields \<Rightarrow> pyerr + string" where
  "sim_facility_tier fs =
     bind_res (py_len (dget_or fs ''certifications'' (PList []))) (\<lambda>certs.
     bind_res (py_len (dget_or fs ''equipment_types'' (PList []))) (\<lambda>equip.
     bind_res (gt_num (dget_or fs ''annual_capacity_tons'' (PInt 0)) 50000) (\<lambda>big.
       let score = certs * 2 + equip + (if big then 1 else 0)
       in Inr (if 10 \<le> score then ''tier_1'' else if 6 \<le> score then ''tier_2'' else if 3 \<le> score then ''tier_3'' else ''tier_4''))))"

definition sim_buyer_class :: "fields \<Rightarrow> pyerr + string" where
  "sim_buyer_class fs =
     (let industries = dget_or fs ''industries_served'' (PList []); certs = dget_or fs ''certifications'' (PList [])
      in bind_res (and_res (any_res (\<lambda>i. py_in i industries) [PStr ''medical'', PStr ''automotive'']) (py_in iso_9001 certs)) (\<lambda>premium.
           if premium then Inr ''premium_oem''
           else bind_res (any_res (\<lambda>i. py_in i industries) [PStr ''packaging'', PStr ''consumer goods'']) (\<lambda>brand.
             Inr (if brand then ''brand_owner'' else ''commodity_buyer''))))"

definition sim_quality_tier :: "fields \<Rightarrow> pyerr + string" where
  "sim_quality_tier fs =
     (let certs = dget_or fs ''certifications'' (PList []); contam = dget_or fs ''contamination_tolerance_pct'' (PFloat (f_of_int 10))
      in bind_res (and_res (bind_res (py_len certs) (\<lambda>n. Inr (3 \<le> n))) (le_num contam 3)) (\<lambda>premium.
           if premium then Inr ''premium''
           else bind_res (and_res (bind_res (py_len certs) (\<lambda>n. Inr (1 \<le> n))) (le_num contam 7)) (\<lambda>standard.
             Inr (if standard then ''standard'' else ''basic''))))"

definition sim_application_class :: "fields \<Rightarrow> pyerr + string" where
  "sim_application_class fs =
     (let polymers = dget_or fs ''polymers_handled'' (PList []); outputs = dget_or fs ''material_forms_output'' (PList [])
      in bind_res (and_res (py_in (PStr ''pellets'') outputs) (any_res (\<lambda>p. py_in p polymers) [PStr ''HDPE'', PStr ''PP''])) (\<lambda>inj.
           if inj then Inr ''injection_molding''
           else bind_res (any_res (\<lambda>o_f. py_in o_f outputs) [PStr ''film'', PStr ''sheet'']) (\<lambda>ext.
             if ext then Inr ''extrusion''
             else bind_res (py_in (PStr ''compounds'') outputs) (\<lambda>cmp. Inr (if cmp then ''compounding'' else ''general'')))))"

record sim_rule =
  sr_inputs :: "string list"
  sr_logic :: "fields \<Rightarrow> pyerr + string"

definition sim_rules :: "(string, sim_rule) dict" where
  "sim_rules =
     [(''material_grade'', \<lparr>sr_inputs = [''polymers_handled'', ''contamination_tolerance_pct'', ''certifications''], sr_logic = sim_material_grade\<rparr>),
      (''facility_tier'', \<lparr>sr_inputs = [''certifications'', ''equipment_types'', ''annual_capacity_tons''], sr_logic = sim_facility_tier\<rparr>),
      (''buyer_class'', \<lparr>sr_inputs = [''industries_served'', ''material_forms_output'', ''certifications''], sr_logic = sim_buyer_class\<rparr>),
      (''quality_tier'', \<lparr>sr_inputs = [''certifications'', ''contamination_tolerance_pct''], sr_logic = sim_quality_tier\<rparr>),
      (''application_class'', \<lparr>sr_inputs = [''polymers_handled'', ''material_forms_output'', ''industries_served''], sr_logic = sim_application_class\<rparr>)]"

text \<open>A derivation that raises is logged and skipped.\<close>

definition sim_derive :: "fields \<Rightarrow> string \<times> sim_rule \<Rightarrow> (string \<times> pyval) option" where
  "sim_derive nf rule =
     (if list_all (\<lambda>i. dmem (normalize_field i) nf) (sr_inputs (snd rule))
      then (case sr_logic (snd rule) nf of Inr v \<Rightarrow> Some (fst rule, PStr v) | Inl e \<Rightarrow> None) else None)"

definition sim_inference :: "(string, sim_rule) dict \<Rightarrow> fields \<Rightarrow> fields" where
  "sim_inference rules fs = List.map_filter (sim_derive (normalized fs)) rules"

section \<open>Gates\<close>

datatype gate_verdict = GatePass | GateFail | GateInsufficient

record sim_gate =
  sg_name :: string
  sg_query :: pyval
  sg_value :: pyval
  sg_verdict :: gate_verdict

definition eval_overlap_gate :: "pyval \<Rightarrow> pyval \<Rightarrow> pyerr + gate_verdict" where
  "eval_overlap_gate entity_val query_val =
     (if query_val = PNone then Inr GatePass
      else (case entity_val of
              PList xs \<Rightarrow>
                (case query_val of
                   PList ys \<Rightarrow> bind_res (overlaps xs ys) (\<lambda>b. Inr (if b then GatePass else GateFail))
                 | _ \<Rightarrow> Inr (if py_member query_val xs then GatePass else GateFail))
            | _ \<Rightarrow> Inr GatePass))"

definition gate_bound :: "pyval \<Rightarrow> f64 option option" where
  "gate_bound raw = (if raw = PNone then Some None else case py_float raw of Inr x \<Rightarrow> Some (Some x) | Inl e \<Rightarrow> None)"

definition eval_range_gate :: "pyval \<Rightarrow> fields \<Rightarrow> gate_verdict" where
  "eval_range_gate entity_val gate =
     (case py_float entity_val of
        Inl e \<Rightarrow> GateFail
      | Inr v \<Rightarrow>
          (case (gate_bound (dget_or gate ''min'' PNone), gate_bound (dget_or gate ''max'' PNone)) of
             (Some lo, Some hi) \<Rightarrow>
               if (case lo of Some l \<Rightarrow> v < l | None \<Rightarrow> False) \<or> (case hi of Some h \<Rightarrow> h < v | None \<Rightarrow> False)
               then GateFail else GatePass
           | _ \<Rightarrow> GateFail))"

definition eval_exact_gate :: "pyval \<Rightarrow> pyval \<Rightarrow> gate_verdict" where
  "eval_exact_gate entity_val query_val = (if py_eq entity_val query_val then GatePass else GateFail)"

definition prop_name :: "pyval \<Rightarrow> pyerr + string" where
  "prop_name v = (case v of PStr s \<Rightarrow> Inr s | _ \<Rightarrow> Inl AttributeError)"

definition is_list_value :: "pyval \<Rightarrow> bool" where
  "is_list_value v = (case v of PList xs \<Rightarrow> True | _ \<Rightarrow> False)"

definition run_gate :: "fields \<Rightarrow> fields \<Rightarrow> fields \<Rightarrow> pyerr + sim_gate" where
  "run_gate nf query gate =
     bind_res (prop_name (dget_or gate ''candidate_property'' (dget_or gate ''candidate_prop'' (PStr [])))) (\<lambda>prop.
       let np = normalize_field prop;
           query_val = dget_or query prop (dget_or query np PNone);
           entity_val = dget_or nf np PNone;
           gate_type = dget_or gate ''type'' (PStr ''overlap'')
       in if entity_val = PNone
          then Inr \<lparr>sg_name = prop, sg_query = query_val, sg_value = PNone, sg_verdict = GateInsufficient\<rparr>
          else bind_res (if gate_type = PStr ''overlap'' \<or> is_list_value entity_val then eval_overlap_gate entity_val query_val
                         else if gate_type = PStr ''range'' then Inr (eval_range_gate entity_val gate)
                         else Inr (eval_exact_gate entity_val query_val))
                 (\<lambda>verdict. Inr \<lparr>sg_name = prop, sg_query = query_val, sg_value = entity_val, sg_verdict = verdict\<rparr>))"

definition run_gates :: "fields \<Rightarrow> fields \<Rightarrow> fields list \<Rightarrow> pyerr + sim_gate list" where
  "run_gates fs query gates = map_res (run_gate (normalized fs) query) gates"

section \<open>Scoring\<close>

record sim_score =
  sc_dimension :: string
  sc_raw :: pyval
  sc_normalized :: f64
  sc_weight :: f64
  sc_weighted :: f64

definition tiny :: f64 where
  "tiny = flt (1 / 10 ^ 12)"

definition normalize_scoring_value :: "pyval \<Rightarrow> fields \<Rightarrow> f64" where
  "normalize_scoring_value raw spec =
     (case raw of
        PList xs \<Rightarrow> min (f_of_int (int (length xs)) / f_of_int 4) 1
      | PBool b \<Rightarrow> if b then 1 else 0
      | PStr s \<Rightarrow> if s \<noteq> [] then flt (7 / 10) else 0
      | _ \<Rightarrow>
          if py_num raw = None then 0
          else
            (let x = safe_float raw 0; dflt = (if x * f_of_int 2 = 0 then 1 else x * f_of_int 2);
                 m = safe_float (dget_or spec ''max_value'' PNone) dflt
             in min (x / (if \<bar>m\<bar> < tiny then 1 else m)) 1))"

definition score_dimension :: "fields \<Rightarrow> fields \<Rightarrow> pyerr + sim_score" where
  "score_dimension nf spec =
     bind_res (prop_name (dget_or spec ''candidate_property'' (dget_or spec ''candidate_prop'' (dget_or spec ''source'' (PStr []))))) (\<lambda>prop.
       let weight = safe_float (dget_or spec ''weight'' PNone) 1; raw = dget_or nf (normalize_field prop) PNone
       in if raw = PNone
          then Inr \<lparr>sc_dimension = prop, sc_raw = PNone, sc_normalized = 0, sc_weight = weight, sc_weighted = 0\<rparr>
          else (let score = normalize_scoring_value raw spec
                in Inr \<lparr>sc_dimension = prop, sc_raw = raw, sc_normalized = py_round 4 score, sc_weight = weight,
                        sc_weighted = py_round 4 (score * weight)\<rparr>))"

definition composite_of :: "sim_score list \<Rightarrow> f64" where
  "composite_of scores =
     (let total_weight = fold (\<lambda>s acc. acc + sc_weight s) scores 0;
          weighted_sum = fold (\<lambda>s acc. if sc_raw s = PNone then acc else acc + sc_weighted s) scores 0
      in if 0 < total_weight then py_round 4 (weighted_sum / total_weight) else 0)"

definition run_scoring :: "fields \<Rightarrow> fields list \<Rightarrow> pyerr + sim_score list \<times> f64" where
  "run_scoring fs specs =
     bind_res (map_res (score_dimension (normalized fs)) specs) (\<lambda>scores. Inr (scores, composite_of scores))"

section \<open>Properties\<close>

lemma passes_gate_present: "run_gate nf query gate = Inr g \<Longrightarrow> sg_verdict g = GatePass \<Longrightarrow> sg_value g \<noteq> PNone"
  by (auto simp: run_gate_def bind_res_Inr_iff Let_def split: if_splits)

lemma passes_range_in_bounds:
  assumes "eval_range_gate v gate = GatePass" and "py_float (dget_or gate ''min'' PNone) = Inr lo"
  shows "\<exists>x. py_float v = Inr x \<and> lo \<le> x"
  using assms by (auto simp: eval_range_gate_def gate_bound_def not_less split: sum.splits option.splits if_splits)

text \<open>A number without a declared maximum scores one half, whatever it is: the maximum is taken to be twice the value.\<close>

theorem number_without_maximum_scores_half:
  "normalize_scoring_value (PInt 7) [] = flt (1 / 2) \<and> normalize_scoring_value (PInt 90000) [] = flt (1 / 2)"
  by code_simp

text \<open>A derived field is there exactly when its inputs are and its function gives a value.\<close>

lemma derived_iff:
  assumes "dict_ok rules"
  shows "dget (sim_inference rules fs) f = Some v \<longleftrightarrow>
    (\<exists>rule t. dget rules f = Some rule \<and> v = PStr t \<and> sr_logic rule (normalized fs) = Inr t \<and>
       (\<forall>i \<in> set (sr_inputs rule). dmem (normalize_field i) (normalized fs)))"
  using assms
proof (induction rules)
  case (Cons r rules)
  obtain n rule where r: "r = (n, rule)" by (cases r)
  have "dget rules n = None" using Cons.prems r by (simp add: map_of_eq_None_iff)
  then show ?case using Cons r
    by (cases "n = f"; cases "sr_logic rule (normalized fs)") (auto simp: sim_inference_def map_filter_simps sim_derive_def list_all_iff)
qed (simp add: sim_inference_def map_filter_simps)

end
