(* ===== verification/SimGraph.thy ===== *)
theory SimGraph
  imports SimCore
begin

text \<open>
  \<open>app/services/simulation_bridge.py\<close>, the community step: entities that share two attributes are
  neighbours, and a breadth-first walk from each entity not yet seen collects its community. Sets of
  identifiers are duplicate-free lists; \<open>ord\<close> is the order in which a finished set is iterated. The
  result is compared with the connected components of the sharing relation.
\<close>

section \<open>Entities\<close>

record sim_entity =
  en_id :: string
  en_name :: string
  en_fields :: fields
  en_sources :: "(string, string) dict"
  en_confidence :: "(string, f64) dict"
  en_gates :: "sim_gate list"
  en_scores :: "sim_score list"
  en_composite :: f64
  en_community :: "int option"
  en_passes :: bool
  en_cost :: f64

record member =
  cm_entity :: string
  cm_name :: string
  cm_community :: int
  cm_centrality :: f64
  cm_shared :: "string list"

section \<open>Neighbours\<close>

definition shares_attr :: "fields \<Rightarrow> fields \<Rightarrow> string \<Rightarrow> pyerr + bool" where
  "shares_attr d e key =
     (let v = dget_or d key PNone; w = dget_or e key PNone
      in if v = PNone \<or> w = PNone then Inr False
         else (case (v, w) of (PList xs, PList ys) \<Rightarrow> overlaps xs ys | _ \<Rightarrow> Inr (py_eq v w)))"

definition count_shared_attrs :: "fields \<Rightarrow> fields \<Rightarrow> string list \<Rightarrow> pyerr + nat" where
  "count_shared_attrs d e keys = bind_res (map_res (shares_attr d e) keys) (\<lambda>bs. Inr (length (filter id bs)))"

type_synonym adjacency = "(string, string list) dict"

definition add_arc :: "string \<Rightarrow> string \<Rightarrow> adjacency \<Rightarrow> adjacency" where
  "add_arc a b adj = (let ns = dget_or adj a [] in dset a (if b \<in> set ns then ns else ns @ [b]) adj)"

fun pairs_of :: "'a list \<Rightarrow> ('a \<times> 'a) list" where
  "pairs_of [] = []"
| "pairs_of (x # xs) = map (Pair x) xs @ pairs_of xs"

definition near :: "string list \<Rightarrow> sim_entity \<Rightarrow> sim_entity \<Rightarrow> pyerr + bool" where
  "near keys x y = bind_res (count_shared_attrs (en_fields x) (en_fields y) keys) (\<lambda>n. Inr (2 \<le> n))"

definition join_pair :: "string list \<Rightarrow> sim_entity \<times> sim_entity \<Rightarrow> adjacency \<Rightarrow> pyerr + adjacency" where
  "join_pair keys p adj =
     bind_res (near keys (fst p) (snd p)) (\<lambda>b.
       Inr (if b then add_arc (en_id (snd p)) (en_id (fst p)) (add_arc (en_id (fst p)) (en_id (snd p)) adj) else adj))"

definition build_adjacency :: "sim_entity list \<Rightarrow> string list \<Rightarrow> pyerr + adjacency" where
  "build_adjacency es keys = fold_err (join_pair keys) (pairs_of es) []"

section \<open>The walk\<close>

text \<open>The queue, the visited identifiers and the community collected so far.\<close>

function bfs_loop :: "adjacency \<Rightarrow> string list \<Rightarrow> string list \<Rightarrow> string list \<Rightarrow> string list \<times> string list" where
  "bfs_loop adj [] visited community = (community, visited)"
| "bfs_loop adj (current # queue) visited community =
     (if current \<in> set visited then bfs_loop adj queue visited community
      else bfs_loop adj (queue @ filter (\<lambda>n. n \<notin> set (visited @ [current])) (dget_or adj current []))
             (visited @ [current]) (community @ [current]))"
  by pat_completeness auto

termination
proof (relation "measures [\<lambda>(adj, queue, visited, community). card (set (dkeys adj) - set visited),
                           \<lambda>(adj, queue, visited, community). length queue]", goal_cases)
  case (3 adj current queue visited community)
  show ?case
  proof (cases "current \<in> set (dkeys adj)")
    case True
    with 3 have "set (dkeys adj) - insert current (set visited) \<subset> set (dkeys adj) - set visited" by auto
    then have "card (set (dkeys adj) - insert current (set visited)) < card (set (dkeys adj) - set visited)"
      by (rule psubset_card_mono [rotated]) simp
    then show ?thesis by simp
  next
    case False
    then have "dget adj current = None" by (simp add: map_of_eq_None_iff)
    then have "dget_or adj current [] = []" by (simp add: dget_or_def)
    moreover have "set (dkeys adj) - insert current (set visited) = set (dkeys adj) - set visited" using False by blast
    ultimately show ?thesis by simp
  qed
qed simp_all

definition bfs_community :: "string \<Rightarrow> adjacency \<Rightarrow> string list \<Rightarrow> string list \<times> string list" where
  "bfs_community start adj visited = bfs_loop adj [start] visited []"

fun find_communities :: "adjacency \<Rightarrow> string list \<Rightarrow> string list \<Rightarrow> string list list" where
  "find_communities adj [] visited = []"
| "find_communities adj (i # ids) visited =
     (if i \<in> set visited then find_communities adj ids visited
      else (let (community, visited') = bfs_community i adj visited
            in if community \<noteq> [] then community # find_communities adj ids visited'
               else find_communities adj ids visited'))"

section \<open>Members\<close>

fun update_first :: "('a \<Rightarrow> bool) \<Rightarrow> ('a \<Rightarrow> 'a) \<Rightarrow> 'a list \<Rightarrow> 'a list" where
  "update_first P f [] = []"
| "update_first P f (x # xs) = (if P x then f x # xs else x # update_first P f xs)"

text \<open>The lookup by identifier keeps the last entity of each.\<close>

definition entity_by_id :: "sim_entity list \<Rightarrow> string \<Rightarrow> sim_entity option" where
  "entity_by_id es eid = find (\<lambda>e. en_id e = eid) (rev es)"

definition set_community :: "string \<Rightarrow> int \<Rightarrow> sim_entity list \<Rightarrow> sim_entity list" where
  "set_community eid cid es = rev (update_first (\<lambda>e. en_id e = eid) (\<lambda>e. e\<lparr>en_community := Some cid\<rparr>) (rev es))"

definition member_of :: "adjacency \<Rightarrow> string list \<Rightarrow> nat \<Rightarrow> nat \<Rightarrow> sim_entity \<Rightarrow> member" where
  "member_of adj keys cid sz e =
     \<lparr>cm_entity = en_id e, cm_name = en_name e, cm_community = int cid,
      cm_centrality = py_round 4 (py_int_div (int (length (dget_or adj (en_id e) []))) (max (int sz - 1) 1)),
      cm_shared = filter (\<lambda>k. dget_or (en_fields e) k PNone \<noteq> PNone) keys\<rparr>"

definition assign_one :: "adjacency \<Rightarrow> string list \<Rightarrow> nat \<times> nat \<times> string \<Rightarrow> sim_entity list \<times> member list \<Rightarrow> sim_entity list \<times> member list" where
  "assign_one adj keys x s =
     (case (x, s) of ((cid, sz, eid), (es, ms)) \<Rightarrow>
        (case entity_by_id es eid of
           None \<Rightarrow> (es, ms)
         | Some e \<Rightarrow> (set_community eid (int cid) es, ms @ [member_of adj keys cid sz e])))"

definition numbered :: "(string list \<Rightarrow> string list) \<Rightarrow> string list list \<Rightarrow> (nat \<times> nat \<times> string) list" where
  "numbered ord communities =
     concat (map (\<lambda>(cid, c). map (\<lambda>eid. (cid, length c, eid)) (ord c)) (enumerate 0 communities))"

definition assign_community_members ::
  "(string list \<Rightarrow> string list) \<Rightarrow> string list list \<Rightarrow> adjacency \<Rightarrow> sim_entity list \<Rightarrow> string list \<Rightarrow> sim_entity list \<times> member list" where
  "assign_community_members ord communities adj es keys = fold (assign_one adj keys) (numbered ord communities) (es, [])"

definition default_attr_keys :: "string list" where
  "default_attr_keys = [''polymers_handled'', ''materials_handled'', ''facility_type'', ''industries_served'']"

definition detect_communities ::
  "(string list \<Rightarrow> string list) \<Rightarrow> sim_entity list \<Rightarrow> string list \<Rightarrow> pyerr + sim_entity list \<times> member list" where
  "detect_communities ord es shared_keys =
     (let keys = (if shared_keys \<noteq> [] then shared_keys else default_attr_keys)
      in bind_res (build_adjacency es keys) (\<lambda>built.
           let adj = map (\<lambda>(k, ns). (k, ord ns)) built;
               communities = find_communities adj (map en_id es) []
           in Inr (assign_community_members ord communities adj es keys)))"

section \<open>The arcs of the graph\<close>

definition arcs :: "adjacency \<Rightarrow> (string \<times> string) set" where
  "arcs adj = {(a, b). b \<in> set (dget_or adj a [])}"

definition tidy :: "adjacency \<Rightarrow> bool" where
  "tidy adj \<longleftrightarrow> (\<forall>ns \<in> set (dvalues adj). distinct ns)"

lemma tidy_dget: "tidy adj \<Longrightarrow> distinct (dget_or adj k [])"
proof (cases "dget adj k")
  case (Some ns)
  assume "tidy adj"
  then have "\<forall>x \<in> set adj. distinct (snd x)" by (simp add: tidy_def)
  then have "distinct (snd (k, ns))" using map_of_SomeD [OF Some] by blast
  with Some show ?thesis by (simp add: dget_or_def)
qed (simp add: dget_or_def)

lemma arcs_add_arc: "arcs (add_arc a b adj) = insert (a, b) (arcs adj)"
  by (auto simp: arcs_def add_arc_def Let_def dict_simps split: if_splits)

lemma tidy_add_arc: "tidy adj \<Longrightarrow> tidy (add_arc a b adj)"
  using dvalues_dset [of a _ adj] tidy_dget [of adj a]
  by (fastforce simp: tidy_def add_arc_def Let_def simp del: set_map)

definition linked :: "string list \<Rightarrow> (sim_entity \<times> sim_entity) list \<Rightarrow> (string \<times> string) set" where
  "linked keys ps = {(en_id x, en_id y) | x y. (x, y) \<in> set ps \<and> near keys x y = Inr True}"

lemma linked_Cons:
  "linked keys ((x, y) # ps) = (if near keys x y = Inr True then {(en_id x, en_id y)} else {}) \<union> linked keys ps"
  by (auto simp: linked_def)

lemma join_pair_step:
  "near keys x y = Inr b \<Longrightarrow>
     fold_err (join_pair keys) ((x, y) # ps) adj =
     fold_err (join_pair keys) ps (if b then add_arc (en_id y) (en_id x) (add_arc (en_id x) (en_id y) adj) else adj)"
  by (simp add: join_pair_def)

lemma join_pairs:
  assumes "fold_err (join_pair keys) ps adj = Inr adj'" and "tidy adj"
  shows "arcs adj' = arcs adj \<union> linked keys ps \<union> (linked keys ps)\<inverse> \<and> tidy adj'"
  using assms
proof (induction ps arbitrary: adj)
  case Nil then show ?case by (auto simp: linked_def)
next
  case (Cons p ps)
  obtain x y where p: "p = (x, y)" by (cases p)
  obtain b where b: "near keys x y = Inr b" using Cons.prems(1) p by (auto simp: join_pair_def bind_res_Inr_iff)
  let ?adj = "if b then add_arc (en_id y) (en_id x) (add_arc (en_id x) (en_id y) adj) else adj"
  have "fold_err (join_pair keys) ps ?adj = Inr adj'" using Cons.prems(1) unfolding p join_pair_step [OF b] .
  moreover have "tidy ?adj" using Cons.prems(2) by (simp add: tidy_add_arc)
  ultimately have "arcs adj' = arcs ?adj \<union> linked keys ps \<union> (linked keys ps)\<inverse> \<and> tidy adj'" by (rule Cons.IH)
  then show ?case using p b by (auto simp: linked_Cons arcs_add_arc)
qed

lemma adjacency_links:
  assumes "build_adjacency es keys = Inr adj"
  shows "arcs adj = linked keys (pairs_of es) \<union> (linked keys (pairs_of es))\<inverse>" and "tidy adj"
  using join_pairs [OF assms [unfolded build_adjacency_def]] by (auto simp: arcs_def tidy_def dict_simps)

lemma reorder_arcs:
  assumes "set_order ord" and "tidy adj"
  shows "arcs (map (\<lambda>(k, ns). (k, ord ns)) adj) = arcs adj"
proof -
  have d: "dget (map (\<lambda>(k, ns). (k, ord ns)) adj) a = map_option ord (dget adj a)" for a by (induction adj) auto
  have "set (dget_or (map (\<lambda>(k, ns). (k, ord ns)) adj) a []) = set (dget_or adj a [])" for a
    using assms(1) tidy_dget [OF assms(2), of a]
    by (cases "dget adj a") (auto simp: dget_or_def d set_order_def)
  then show ?thesis by (simp add: arcs_def)
qed

lemma pairs_of_subset: "set (pairs_of xs) \<subseteq> set xs \<times> set xs"
  by (induction xs) auto

lemma linked_ids: "linked keys (pairs_of es) \<subseteq> en_id ` set es \<times> en_id ` set es"
  using pairs_of_subset [of es] by (fastforce simp: linked_def)

section \<open>The walk collects what is reachable\<close>

lemma bfs_shape:
  "\<exists>new. bfs_loop adj queue visited community = (community @ new, visited @ new) \<and> distinct new \<and> set new \<inter> set visited = {}"
proof (induction adj queue visited community rule: bfs_loop.induct)
  case (2 adj current queue visited community)
  show ?case
  proof (cases "current \<in> set visited")
    case True with 2 show ?thesis by simp
  next
    case False
    from 2(2) [OF False] obtain new where
      "bfs_loop adj (queue @ filter (\<lambda>n. n \<notin> set (visited @ [current])) (dget_or adj current [])) (visited @ [current])
         (community @ [current]) = ((community @ [current]) @ new, (visited @ [current]) @ new)"
      "distinct new" "set new \<inter> set (visited @ [current]) = {}" by blast
    with False show ?thesis by (intro exI [of _ "current # new"]) auto
  qed
qed simp

lemma bfs_closed:
  assumes "arcs adj `` set visited \<subseteq> set visited \<union> set queue"
  shows "arcs adj `` set (snd (bfs_loop adj queue visited community)) \<subseteq> set (snd (bfs_loop adj queue visited community))"
    and "set queue \<subseteq> set (snd (bfs_loop adj queue visited community))"
  using assms
proof (induction adj queue visited community rule: bfs_loop.induct)
  case (2 adj current queue visited community)
  {
    case 1
    show ?case
    proof (cases "current \<in> set visited")
      case True with 1 2(1) show ?thesis by auto
    next
      case False
      then show ?thesis using 1 2(3) [OF False] by (auto simp: arcs_def)
    qed
  next
    case 2
    show ?case
    proof (cases "current \<in> set visited")
      case True
      have "set visited \<subseteq> set (snd (bfs_loop adj queue visited community))"
        using bfs_shape [of adj queue visited community] by auto
      with True 2 "2.IH"(2) show ?thesis by auto
    next
      case False
      let ?q = "queue @ filter (\<lambda>n. n \<notin> set (visited @ [current])) (dget_or adj current [])"
      have "set (visited @ [current]) \<subseteq> set (snd (bfs_loop adj ?q (visited @ [current]) (community @ [current])))"
        using bfs_shape [of adj ?q "visited @ [current]" "community @ [current]"] by auto
      moreover have "set ?q \<subseteq> set (snd (bfs_loop adj ?q (visited @ [current]) (community @ [current])))"
        using 2 "2.IH"(4) [OF False] by (auto simp: arcs_def)
      ultimately show ?thesis using False by auto
    qed
  }
qed auto

lemma bfs_reaches:
  "set (snd (bfs_loop adj queue visited community)) \<subseteq> set visited \<union> (arcs adj)\<^sup>* `` set queue"
proof (induction adj queue visited community rule: bfs_loop.induct)
  case (2 adj current queue visited community)
  show ?case
  proof (cases "current \<in> set visited")
    case True with 2 show ?thesis by auto
  next
    case False
    let ?q = "queue @ filter (\<lambda>n. n \<notin> set (visited @ [current])) (dget_or adj current [])"
    have "set ?q \<subseteq> set queue \<union> arcs adj `` {current}" by (auto simp: arcs_def)
    then have "(arcs adj)\<^sup>* `` set ?q \<subseteq> (arcs adj)\<^sup>* `` set (current # queue)"
      by (auto intro: converse_rtrancl_into_rtrancl)
    with 2(2) [OF False] False show ?thesis by auto
  qed
qed auto

lemma closed_rtrancl: "(x, y) \<in> r\<^sup>* \<Longrightarrow> r `` A \<subseteq> A \<Longrightarrow> x \<in> A \<Longrightarrow> y \<in> A"
  by (induction rule: rtrancl_induct) auto

lemma bfs_component:
  assumes "sym (arcs adj)" and closed: "arcs adj `` set visited \<subseteq> set visited" and fresh: "i \<notin> set visited"
    and run: "bfs_community i adj visited = (community, visited')"
  shows "visited' = visited @ community" and "distinct community" and "set community = (arcs adj)\<^sup>* `` {i}"
    and "arcs adj `` set visited' \<subseteq> set visited'"
proof -
  obtain new where new: "bfs_loop adj [i] visited [] = (new, visited @ new)" "distinct new" "set new \<inter> set visited = {}"
    using bfs_shape [of adj "[i]" visited "[]"] by auto
  with run show v: "visited' = visited @ community" and "distinct community" by (simp_all add: bfs_community_def)
  have cl: "arcs adj `` set visited \<subseteq> set visited \<union> set [i]" using closed by auto
  show out: "arcs adj `` set visited' \<subseteq> set visited'" using bfs_closed(1) [OF cl, of "[]"] run by (simp add: bfs_community_def)
  have "i \<in> set visited'" using bfs_closed(2) [OF cl, of "[]"] run by (simp add: bfs_community_def)
  then have reach: "(arcs adj)\<^sup>* `` {i} \<subseteq> set visited'" using closed_rtrancl [OF _ out] by auto
  have "(arcs adj)\<^sup>* `` {i} \<inter> set visited = {}"
  proof (rule ccontr)
    assume "(arcs adj)\<^sup>* `` {i} \<inter> set visited \<noteq> {}"
    then obtain y where y: "(i, y) \<in> (arcs adj)\<^sup>*" "y \<in> set visited" by auto
    have "(y, i) \<in> (arcs adj)\<^sup>*" using y(1) sym_rtrancl [OF assms(1)] by (auto dest: symD)
    then have "i \<in> set visited" using closed_rtrancl [OF _ closed y(2)] by simp
    with fresh show False by simp
  qed
  moreover have "set new \<subseteq> (arcs adj)\<^sup>* `` {i}"
    using bfs_reaches [of adj "[i]" visited "[]"] new(1,3) by auto
  moreover have "new = community" using run new(1) by (simp add: bfs_community_def)
  ultimately show "set community = (arcs adj)\<^sup>* `` {i}" using reach v by auto
qed

section \<open>Every community is a component\<close>

lemma communities_components:
  assumes "sym (arcs adj)" and "arcs adj `` set visited \<subseteq> set visited"
  shows "distinct (concat (find_communities adj ids visited)) \<and>
    set (concat (find_communities adj ids visited)) \<inter> set visited = {} \<and>
    set ids \<subseteq> set visited \<union> set (concat (find_communities adj ids visited)) \<and>
    (\<forall>c \<in> set (find_communities adj ids visited). \<exists>i \<in> set ids. set c = (arcs adj)\<^sup>* `` {i})"
  using assms
proof (induction adj ids visited rule: find_communities.induct [case_names Nil Cons])
  case (Cons adj i ids visited)
  show ?case
  proof (cases "i \<in> set visited")
    case True
    with Cons.IH(1) Cons.prems show ?thesis by auto
  next
    case False
    obtain c v where run: "bfs_community i adj visited = (c, v)" by fastforce
      note comp = bfs_component [OF Cons.prems False run]
    have i: "i \<in> set c" and c: "c \<noteq> []" using comp(3) by auto
    have "set c \<inter> set visited = {}" using bfs_shape [of adj "[i]" visited "[]"] run comp(1) by (auto simp: bfs_community_def)
    with Cons.IH(2) [OF False run [symmetric] refl c Cons.prems(1) comp(4)] comp(1-3) False run c i show ?thesis by auto
  qed
qed simp

section \<open>Assignment of the communities\<close>

lemma update_first_map:
  "distinct (map f xs) \<Longrightarrow> update_first (\<lambda>x. f x = k) g xs = map (\<lambda>x. if f x = k then g x else x) xs"
proof (induction xs)
  case (Cons x xs)
  have "f x = k \<Longrightarrow> map (\<lambda>x. if f x = k then g x else x) xs = xs"
    using Cons.prems by (intro map_idI) (auto simp: image_iff)
  with Cons show ?case by simp
qed simp

lemma set_community_map:
  "distinct (map en_id es) \<Longrightarrow>
     set_community eid cid es = map (\<lambda>e. if en_id e = eid then e\<lparr>en_community := Some cid\<rparr> else e) es"
  by (simp add: set_community_def update_first_map rev_map flip: rev_map)

lemma entity_by_id_some: "eid \<in> en_id ` set es \<Longrightarrow> \<exists>e. entity_by_id es eid = Some e \<and> en_id e = eid"
  by (cases "entity_by_id es eid") (auto simp: entity_by_id_def find_None_iff find_Some_iff)

definition placed :: "(nat \<times> nat \<times> string) list \<Rightarrow> sim_entity \<Rightarrow> sim_entity" where
  "placed xs e = (case map_of (map (\<lambda>(c, s, i). (i, c)) xs) (en_id e) of None \<Rightarrow> e | Some c \<Rightarrow> e\<lparr>en_community := Some (int c)\<rparr>)"

lemma placed_Nil [simp]: "placed [] = (\<lambda>e. e)"
  by (simp add: placed_def fun_eq_iff)

lemma en_id_placed [simp]: "en_id (placed xs e) = en_id e"
  by (simp add: placed_def split: option.splits)

lemma assign_all:
  assumes "distinct (map en_id es)" and "distinct (map (snd \<circ> snd) xs)" and "(snd \<circ> snd) ` set xs \<subseteq> en_id ` set es"
  shows "fst (fold (assign_one adj keys) xs (es, ms)) = map (placed xs) es"
    and "map (\<lambda>m. (cm_entity m, cm_community m)) (snd (fold (assign_one adj keys) xs (es, ms)))
       = map (\<lambda>m. (cm_entity m, cm_community m)) ms @ map (\<lambda>(c, s, i). (i, int c)) xs"
  using assms
proof (induction xs arbitrary: es ms)
  case (Cons x xs)
  obtain c s i where x: "x = (c, s, i)" by (cases x)
  {
    case 1
    obtain e where e: "entity_by_id es i = Some e" "en_id e = i" using entity_by_id_some [of i es] 1 x by auto
    let ?es = "map (\<lambda>e. if en_id e = i then e\<lparr>en_community := Some (int c)\<rparr> else e) es"
    have ids: "map en_id ?es = map en_id es" by simp
    then have ids': "en_id ` set ?es = en_id ` set es" by (metis set_map)
    have "fst (fold (assign_one adj keys) xs (?es, ms @ [member_of adj keys c s e])) = map (placed xs) ?es"
      using 1 x by (intro Cons.IH(1)) (simp_all only: ids ids' list.map distinct.simps list.set image_insert insert_subset)
    moreover have "placed xs (if en_id e = i then e\<lparr>en_community := Some (int c)\<rparr> else e) = placed (x # xs) e" for e
    proof -
      have "map_of (map (\<lambda>(c, s, i). (i, c)) xs) i = None"
        using 1(2) x by (force simp: map_of_eq_None_iff)
      then show ?thesis using x by (simp add: placed_def)
    qed
    moreover have "assign_one adj keys x (es, ms) = (?es, ms @ [member_of adj keys c s e])"
      using 1(1) x e by (simp add: assign_one_def set_community_map)
    ultimately show ?case by simp
  next
    case 2
    obtain e where e: "entity_by_id es i = Some e" "en_id e = i" using entity_by_id_some [of i es] 2 x by auto
    let ?es = "map (\<lambda>e. if en_id e = i then e\<lparr>en_community := Some (int c)\<rparr> else e) es"
    have ids: "map en_id ?es = map en_id es" by simp
    then have ids': "en_id ` set ?es = en_id ` set es" by (metis set_map)
    have "map (\<lambda>m. (cm_entity m, cm_community m)) (snd (fold (assign_one adj keys) xs (?es, ms @ [member_of adj keys c s e])))
       = map (\<lambda>m. (cm_entity m, cm_community m)) (ms @ [member_of adj keys c s e]) @ map (\<lambda>(c, s, i). (i, int c)) xs"
      using 2 x by (intro Cons.IH(2)) (simp_all only: ids ids' list.map distinct.simps list.set image_insert insert_subset)
    moreover have "assign_one adj keys x (es, ms) = (?es, ms @ [member_of adj keys c s e])"
      using 2(1) x e by (simp add: assign_one_def set_community_map)
    moreover have "cm_entity (member_of adj keys c s e) = i" "cm_community (member_of adj keys c s e) = int c"
      using e by (simp_all add: member_of_def)
    ultimately show ?case using x by simp
  }
qed simp_all

lemma distinct_order:
  "set_order ord \<Longrightarrow> distinct (concat cs) \<Longrightarrow>
     distinct (concat (map ord cs)) \<and> set (concat (map ord cs)) = set (concat cs)"
proof (induction cs)
  case (Cons c cs)
  then have "distinct (ord c)" "set (ord c) = set c" by (simp_all add: set_order_def)
  with Cons show ?case by auto
qed simp

lemma numbered_ids: "map (snd \<circ> snd) (numbered ord cs) = concat (map ord cs)"
proof -
  have "map (snd \<circ> snd) (concat (map (\<lambda>(cid, c). map (\<lambda>eid. (cid, length c, eid)) (ord c)) (enumerate n cs)))
     = concat (map ord cs)" for n
    by (induction cs arbitrary: n) (auto simp: comp_def)
  then show ?thesis by (simp add: numbered_def)
qed

lemma numbered_at:
  "(c, s, i) \<in> set (numbered ord cs) \<longleftrightarrow> c < length cs \<and> s = length (cs ! c) \<and> i \<in> set (ord (cs ! c))"
proof -
  have "(n, d) \<in> set (enumerate 0 cs) \<longleftrightarrow> n < length cs \<and> d = cs ! n" for n d
    using in_set_enumerate_eq [of "(n, d)" 0 cs] by auto
  then have "(c, s, i) \<in> set (numbered ord cs) \<longleftrightarrow>
      (\<exists>n d. (n < length cs \<and> d = cs ! n) \<and> c = n \<and> s = length d \<and> i \<in> set (ord d))"
    unfolding numbered_def by (simp add: split_def image_iff Bex_def) blast
  then show ?thesis by simp
qed

lemma placed_at:
  assumes "set_order ord" and "distinct (concat cs)" and "n < length cs" and "en_id e \<in> set (cs ! n)"
  shows "en_community (placed (numbered ord cs) e) = Some (int n)"
proof -
  let ?l = "map (\<lambda>(c, s, i). (i, c)) (numbered ord cs)"
  have "map fst ?l = map (snd \<circ> snd) (numbered ord cs)" by (simp add: split_def)
  then have "distinct (map fst ?l)" using distinct_order [OF assms(1,2)] by (simp add: numbered_ids)
  moreover have "distinct (cs ! n)" using assms(2,3) by (simp add: distinct_concat_iff)
  then have "en_id e \<in> set (ord (cs ! n))" using assms(1,4) by (simp add: set_order_def)
  then have "(n, length (cs ! n), en_id e) \<in> set (numbered ord cs)" using assms(3) by (simp add: numbered_at)
  then have "(en_id e, n) \<in> set ?l" by force
  ultimately have "map_of ?l (en_id e) = Some n" by simp
  then show ?thesis by (simp add: placed_def)
qed

definition links :: "string list \<Rightarrow> sim_entity list \<Rightarrow> (string \<times> string) set" where
  "links keys es = linked keys (pairs_of es) \<union> (linked keys (pairs_of es))\<inverse>"

lemma sym_links: "(a, b) \<in> (links keys es)\<^sup>* \<Longrightarrow> (b, a) \<in> (links keys es)\<^sup>*"
  using sym_rtrancl [of "links keys es"] by (auto simp: links_def sym_def)

lemma detect_result:
  assumes run: "detect_communities ord es shared_keys = Inr (es', ms)"
    and ids: "distinct (map en_id es)" and ord: "set_order ord"
    and keys: "keys = (if shared_keys \<noteq> [] then shared_keys else default_attr_keys)"
  obtains cs where "distinct (concat cs)" and "set (concat cs) = en_id ` set es"
    and "\<And>c. c \<in> set cs \<Longrightarrow> \<exists>i. set c = (links keys es)\<^sup>* `` {i}"
    and "es' = map (placed (numbered ord cs)) es"
    and "map (\<lambda>m. (cm_entity m, cm_community m)) ms = map (\<lambda>(c, s, i). (i, int c)) (numbered ord cs)"
proof -
  obtain built where built: "build_adjacency es keys = Inr built"
    using run by (auto simp: detect_communities_def keys bind_res_Inr_iff Let_def)
  define adj where "adj = map (\<lambda>(k, ns). (k, ord ns)) built"
  define cs where "cs = find_communities adj (map en_id es) []"
  have out: "(es', ms) = assign_community_members ord cs adj es keys"
    using run built by (simp add: detect_communities_def keys adj_def cs_def Let_def)
  have R: "arcs adj = links keys es"
    using reorder_arcs [OF ord] adjacency_links [OF built] by (simp add: adj_def links_def)
  have "sym (links keys es)" by (auto simp: links_def sym_def)
  then have comps: "distinct (concat cs)" "en_id ` set es \<subseteq> set (concat cs)"
      "\<And>c. c \<in> set cs \<Longrightarrow> \<exists>i \<in> en_id ` set es. set c = (links keys es)\<^sup>* `` {i}"
    using communities_components [of adj "[]" "map en_id es"] by (simp_all add: R cs_def)
  have closed: "links keys es `` (en_id ` set es) \<subseteq> en_id ` set es" using linked_ids [of keys es] by (auto simp: links_def)
  have inside: "set (concat cs) \<subseteq> en_id ` set es"
  proof
    fix x assume "x \<in> set (concat cs)"
    then obtain c where c: "c \<in> set cs" "x \<in> set c" by auto
    with comps(3) obtain i where "i \<in> en_id ` set es" "(i, x) \<in> (links keys es)\<^sup>*" by blast
    then show "x \<in> en_id ` set es" using closed_rtrancl [OF _ closed] by blast
  qed
  have d: "distinct (map (snd \<circ> snd) (numbered ord cs))"
    using distinct_order [OF ord comps(1)] numbered_ids [of ord cs] by simp
  have "(snd \<circ> snd) ` set (numbered ord cs) = set (concat cs)"
    using distinct_order [OF ord comps(1)] numbered_ids [of ord cs] by (metis set_map)
  then have sub: "(snd \<circ> snd) ` set (numbered ord cs) \<subseteq> en_id ` set es" using inside by simp
  note asg = assign_all [OF ids d sub, of adj keys "[]"]
  show thesis
  proof (rule that)
    show "distinct (concat cs)" by (rule comps)
    show "set (concat cs) = en_id ` set es" using comps(2) inside by blast
    show "\<And>c. c \<in> set cs \<Longrightarrow> \<exists>i. set c = (links keys es)\<^sup>* `` {i}" using comps(3) by blast
    show "es' = map (placed (numbered ord cs)) es" using out asg(1) by (metis assign_community_members_def fst_conv)
    show "map (\<lambda>m. (cm_entity m, cm_community m)) ms = map (\<lambda>(c, s, i). (i, int c)) (numbered ord cs)"
      using asg(2) unfolding assign_community_members_def [symmetric] out [symmetric] by simp
  qed
qed

lemma members_set:
  assumes "set_order ord" and "distinct (concat cs)" and "set (concat cs) = en_id ` set es"
  shows "(\<lambda>(c, s, i). (i, Some (int c))) ` set (numbered ord cs) =
    (\<lambda>e. (en_id e, en_community (placed (numbered ord cs) e))) ` set es" (is "?l = ?r")
proof
  have ord: "set (ord (cs ! n)) = set (cs ! n)" if "n < length cs" for n
    using that assms(1,2) by (simp add: set_order_def distinct_concat_iff)
  show "?l \<subseteq> ?r"
  proof
    fix p assume "p \<in> ?l"
    then obtain c s i where p: "p = (i, Some (int c))" and m: "(c, s, i) \<in> set (numbered ord cs)" by auto
    then have c: "c < length cs" "i \<in> set (cs ! c)" using ord by (auto simp: numbered_at)
    then have "i \<in> set (concat cs)" by auto
    then obtain e where e: "e \<in> set es" "i = en_id e" using assms(3) by auto
    then have "p = (en_id e, en_community (placed (numbered ord cs) e))"
      using placed_at [OF assms(1,2) c(1)] c(2) p by simp
    with e(1) show "p \<in> ?r" by blast
  qed
  show "?r \<subseteq> ?l"
  proof
    fix p assume "p \<in> ?r"
    then obtain e where p: "p = (en_id e, en_community (placed (numbered ord cs) e))" and e: "e \<in> set es" by auto
    then have "en_id e \<in> set (concat cs)" using assms(3) by blast
    then obtain n where n: "n < length cs" "en_id e \<in> set (cs ! n)" by (auto simp: in_set_conv_nth [of _ cs])
    then have "(n, length (cs ! n), en_id e) \<in> set (numbered ord cs)" using ord by (simp add: numbered_at)
    moreover have "p = (\<lambda>(c, s, i). (i, Some (int c))) (n, length (cs ! n), en_id e)"
      using p placed_at [OF assms(1,2) n] by simp
    ultimately show "p \<in> ?l" by (rule rev_image_eqI)
  qed
qed

lemma placed_fields [simp]: "en_fields (placed xs e) = en_fields e"
  by (simp add: placed_def split: option.splits)

lemma pairs_of_map: "pairs_of (map f xs) = map (map_prod f f) (pairs_of xs)"
  by (induction xs) auto

lemma linked_map:
  assumes "\<And>e. en_id (f e) = en_id e" and "\<And>e. en_fields (f e) = en_fields e"
  shows "linked keys (map (map_prod f f) ps) = linked keys ps"
proof (induction ps)
  case (Cons p ps)
  obtain x y where p: "p = (x, y)" by (cases p)
  have "near keys (f x) (f y) = near keys x y" using assms by (simp add: near_def)
  with Cons show ?case using assms by (simp add: p linked_Cons)
qed (simp add: linked_def)

lemma links_placed [simp]: "links keys (map (placed xs) es) = links keys es"
  by (simp add: links_def pairs_of_map linked_map)

lemma detected_components:
  assumes run: "detect_communities ord es shared_keys = Inr (es', ms)"
    and ids: "distinct (map en_id es)" and ord: "set_order ord"
    and keys: "keys = (if shared_keys \<noteq> [] then shared_keys else default_attr_keys)"
  shows "map en_id es' = map en_id es \<and> (\<forall>e \<in> set es'. en_community e \<noteq> None) \<and>
    (\<forall>x \<in> set es'. \<forall>y \<in> set es'. en_community x = en_community y \<longleftrightarrow> (en_id x, en_id y) \<in> (links keys es)\<^sup>*) \<and>
    set (map (\<lambda>m. (cm_entity m, Some (cm_community m))) ms) = set (map (\<lambda>e. (en_id e, en_community e)) es')"
proof -
  obtain cs where cs: "distinct (concat cs)" "set (concat cs) = en_id ` set es"
    and comp: "\<And>c. c \<in> set cs \<Longrightarrow> \<exists>i. set c = (links keys es)\<^sup>* `` {i}"
    and es': "es' = map (placed (numbered ord cs)) es"
    and ms: "map (\<lambda>m. (cm_entity m, cm_community m)) ms = map (\<lambda>(c, s, i). (i, int c)) (numbered ord cs)"
    by (rule detect_result [OF run ids ord keys]) blast
  let ?p = "placed (numbered ord cs)"
  have at: "\<exists>n < length cs. en_id e \<in> set (cs ! n) \<and> en_community (?p e) = Some (int n)" if e: "e \<in> set es" for e
  proof -
    have "en_id e \<in> set (concat cs)" using e cs(2) by blast
    then obtain n where "n < length cs" "en_id e \<in> set (cs ! n)" by (auto simp: in_set_conv_nth [of _ cs])
    with placed_at [OF ord cs(1)] show ?thesis by blast
  qed
  have same: "en_community (?p x) = en_community (?p y) \<longleftrightarrow> (en_id x, en_id y) \<in> (links keys es)\<^sup>*"
    if xy: "x \<in> set es" "y \<in> set es" for x y
  proof -
    obtain n m where n: "n < length cs" "en_id x \<in> set (cs ! n)" "en_community (?p x) = Some (int n)"
      and m: "m < length cs" "en_id y \<in> set (cs ! m)" "en_community (?p y) = Some (int m)"
      using at [OF xy(1)] at [OF xy(2)] by blast
    obtain i where i: "set (cs ! n) = (links keys es)\<^sup>* `` {i}" using comp nth_mem [OF n(1)] by blast
    show ?thesis
    proof
      assume "en_community (?p x) = en_community (?p y)"
      with n m i have "(i, en_id x) \<in> (links keys es)\<^sup>*" "(i, en_id y) \<in> (links keys es)\<^sup>*" by auto
      then show "(en_id x, en_id y) \<in> (links keys es)\<^sup>*" by (meson rtrancl_trans sym_links)
    next
      assume "(en_id x, en_id y) \<in> (links keys es)\<^sup>*"
      then have "en_id y \<in> set (cs ! n)" using n(2) i by (auto intro: rtrancl_trans)
      from placed_at [OF ord cs(1) n(1) this] n(3) show "en_community (?p x) = en_community (?p y)" by simp
    qed
  qed
  have "set (map (\<lambda>m. (cm_entity m, Some (cm_community m))) ms) =
      (\<lambda>(i, c). (i, Some c)) ` set (map (\<lambda>m. (cm_entity m, cm_community m)) ms)" by (simp add: image_image)
  also have "\<dots> = (\<lambda>(c, s, i). (i, Some (int c))) ` set (numbered ord cs)"
    unfolding ms by (simp add: image_image split_def)
  also have "\<dots> = set (map (\<lambda>e. (en_id e, en_community e)) es')"
    unfolding members_set [OF ord cs] es' by (simp add: image_image)
  finally have listed: "set (map (\<lambda>m. (cm_entity m, Some (cm_community m))) ms) = set (map (\<lambda>e. (en_id e, en_community e)) es')" .
  show ?thesis
  proof (intro conjI)
    show "map en_id es' = map en_id es" by (simp add: es')
    show "\<forall>e \<in> set es'. en_community e \<noteq> None" using at by (fastforce simp: es')
    show "\<forall>x \<in> set es'. \<forall>y \<in> set es'. en_community x = en_community y \<longleftrightarrow> (en_id x, en_id y) \<in> (links keys es)\<^sup>*"
      using same by (simp add: es')
  qed (rule listed)
qed

lemma detect_links:
  assumes "detect_communities ord es shared_keys = Inr (es', ms)" and "distinct (map en_id es)" and "set_order ord"
  shows "links keys es' = links keys es"
  by (rule detect_result [OF assms refl]) simp

text \<open>
  C20: community detection computes connected components. When no shared attribute makes it raise and the
  identifiers differ, every entity is given a community, two entities are given the same one exactly when a
  chain of entities leads from one to the other in which neighbours share at least two attributes, and the
  members reported are the entities with their communities. The order in which sets are iterated does not
  matter.
\<close>

theorem communities_are_components:
  assumes run: "detect_communities ord es shared_keys = Inr (es', ms)"
    and ids: "distinct (map en_id es)" and ord: "set_order ord"
    and keys: "keys = (if shared_keys \<noteq> [] then shared_keys else default_attr_keys)"
  shows "map en_id es' = map en_id es \<and> (\<forall>e \<in> set es'. en_community e \<noteq> None) \<and>
    (\<forall>x \<in> set es'. \<forall>y \<in> set es'. en_community x = en_community y \<longleftrightarrow> (en_id x, en_id y) \<in> (links keys es)\<^sup>*) \<and>
    set (map (\<lambda>m. (cm_entity m, Some (cm_community m))) ms) = set (map (\<lambda>e. (en_id e, en_community e)) es')"
  by (rule detected_components [OF assms])

definition three_companies :: "sim_entity list" where
  "three_companies = map (\<lambda>(i, fs). \<lparr>en_id = i, en_name = i, en_fields = fs, en_sources = [], en_confidence = [], en_gates = [],
       en_scores = [], en_composite = 0, en_community = None, en_passes = True, en_cost = 0\<rparr>)
     [(''a'', [(''polymers_handled'', PList [PStr ''PP'', PStr ''PET'']), (''facility_type'', PStr ''broker'')]),
      (''b'', [(''polymers_handled'', PList [PStr ''PET'']), (''facility_type'', PStr ''broker'')]),
      (''c'', [(''polymers_handled'', PList [PStr ''PET'']), (''facility_type'', PStr ''tolling'')])]"

theorem communities_are_components_witness:
  "\<exists>es' ms. detect_communities (\<lambda>ids. ids) three_companies [] = Inr (es', ms) \<and>
     map en_community es' = [Some 0, Some 0, Some 1] \<and> map en_id es' = [''a'', ''b'', ''c''] \<and>
     (''a'', ''b'') \<in> (links default_attr_keys three_companies)\<^sup>* \<and> (''a'', ''c'') \<notin> (links default_attr_keys three_companies)\<^sup>*"
proof -
  have "(case detect_communities (\<lambda>ids. ids) three_companies [] of Inr (es', ms) \<Rightarrow> map en_community es' = [Some 0, Some 0, Some 1]
      | Inl e \<Rightarrow> False)" by code_simp
  then obtain es' ms where run: "detect_communities (\<lambda>ids. ids) three_companies [] = Inr (es', ms)"
    and com: "map en_community es' = [Some 0, Some 0, Some 1]" by (auto split: sum.splits)
  have ids: "map en_id three_companies = [''a'', ''b'', ''c'']" by (simp add: three_companies_def)
  have "distinct (map en_id three_companies)" and "set_order (\<lambda>ids. ids)" by (simp_all add: ids set_order_def)
  note t = communities_are_components [OF run this, of default_attr_keys]
  obtain x y z where es': "es' = [x, y, z]" using com by (auto simp: map_eq_Cons_conv)
  have "map en_id es' = [''a'', ''b'', ''c'']" and
    "\<forall>v \<in> set es'. \<forall>w \<in> set es'. en_community v = en_community w \<longleftrightarrow> (en_id v, en_id w) \<in> (links default_attr_keys three_companies)\<^sup>*"
    using t ids by simp_all
  with run com es' show ?thesis by auto
qed

end
