(* ===== verification/SimGenerate.thy ===== *)
theory SimGenerate
  imports SimCore DomainSpec
begin

text \<open>
  \<open>app/services/simulation_bridge.py\<close>, the entities that are simulated: the static generator, drawn from
  a seeded random source, and the web research with its fallback. A random source is the stream of the
  draws it will make; \<open>random.Random(seed)\<close> is a parameter, and what is proved holds for every stream.
  The answers of the research service, absent without an API key, are parameters too.
\<close>

section \<open>Random draws\<close>

type_synonym rng = "nat \<Rightarrow> nat"
type_synonym gen = "rng \<Rightarrow> pyval \<times> rng"

definition advance :: "rng \<Rightarrow> rng" where
  "advance r = (\<lambda>i. r (Suc i))"

definition randint :: "int \<Rightarrow> int \<Rightarrow> rng \<Rightarrow> int \<times> rng" where
  "randint lo hi r = (lo + int (r 0) mod (hi - lo + 1), advance r)"

definition choice :: "'a list \<Rightarrow> rng \<Rightarrow> 'a \<times> rng" where
  "choice xs r = (xs ! (r 0 mod length xs), advance r)"

fun sample :: "'a list \<Rightarrow> nat \<Rightarrow> rng \<Rightarrow> 'a list \<times> rng" where
  "sample xs 0 r = ([], r)"
| "sample xs (Suc k) r =
     (let i = r 0 mod length xs; (ys, r') = sample (take i xs @ drop (Suc i) xs) k (advance r) in (xs ! i # ys, r'))"

definition uniform :: "f64 \<Rightarrow> f64 \<Rightarrow> rng \<Rightarrow> f64 \<times> rng" where
  "uniform lo hi r = (lo + (hi - lo) * flt (of_nat (r 0 mod 2 ^ 53) / 2 ^ 53), advance r)"

definition const_gen :: "pyval \<Rightarrow> gen" where
  "const_gen v r = (v, r)"

definition int_gen :: "int \<Rightarrow> int \<Rightarrow> gen" where
  "int_gen lo hi r = (let (n, r') = randint lo hi r in (PInt n, r'))"

definition choice_gen :: "pyval list \<Rightarrow> gen" where
  "choice_gen xs r = choice xs r"

text \<open>\<open>rng.sample(pool, rng.randint(lo, hi))\<close> and \<open>round(rng.uniform(lo, hi), 1)\<close>.\<close>

definition some_of :: "string list \<Rightarrow> int \<Rightarrow> int \<Rightarrow> gen" where
  "some_of pool lo hi r = (let (k, r1) = randint lo hi r; (xs, r2) = sample pool (nat k) r1 in (PList (map PStr xs), r2))"

definition uniform_gen :: "f64 \<Rightarrow> f64 \<Rightarrow> gen" where
  "uniform_gen lo hi r = (let (x, r') = uniform lo hi r in (PFloat (py_round 1 x), r'))"

definition address_gen :: "string \<Rightarrow> string \<Rightarrow> gen" where
  "address_gen city state r =
     (let (n, r') = randint 100 9999 r in (PStr (str_int n @ '' Industrial Blvd, '' @ city @ '', '' @ state), r'))"

definition phone_gen :: gen where
  "phone_gen r =
     (let (a, r1) = randint 200 999 r; (b, r2) = randint 200 999 r1; (c, r3) = randint 1000 9999 r2
      in (PStr (''('' @ str_int a @ '') '' @ str_int b @ ''-'' @ str_int c), r3))"

definition pcr_gen :: gen where
  "pcr_gen r = (let (a, r1) = randint 10 50 r; (b, r2) = randint 60 100 r1 in (PStr (str_int a @ ''%-'' @ str_int b @ ''%''), r2))"

section \<open>The reference data\<close>

definition ref_polymers :: "string list" where
  "ref_polymers = [''HDPE'', ''LDPE'', ''PP'', ''PET'', ''PVC'', ''PS'', ''ABS'', ''Nylon'', ''PC'']"

definition ref_facility_types :: "string list" where
  "ref_facility_types = [''processor'', ''broker'', ''collector'', ''tolling'', ''compounder'']"

definition ref_certifications :: "string list" where
  "ref_certifications = [''ISO 9001'', ''ISO 14001'', ''R2'', ''e-Stewards'', ''SQF'', ''ISCC PLUS'']"

definition ref_process_types :: "string list" where
  "ref_process_types = [''washing'', ''grinding'', ''pelletizing'', ''compounding'', ''sorting'', ''baling'']"

definition ref_forms_input :: "string list" where
  "ref_forms_input = [''bales'', ''regrind'', ''flake'', ''mixed plastics'', ''post-industrial'', ''post-consumer'']"

definition ref_forms_output :: "string list" where
  "ref_forms_output = [''pellets'', ''flake'', ''regrind'', ''compounds'', ''sheet'', ''film'']"

definition ref_industries :: "string list" where
  "ref_industries = [''packaging'', ''automotive'', ''construction'', ''consumer goods'', ''agriculture'', ''medical'']"

definition ref_equipment :: "string list" where
  "ref_equipment = [''wash line'', ''granulator'', ''extruder'', ''pelletizer'', ''optical sorter'', ''float-sink tank'']"

definition ref_company_names :: "string list" where
  "ref_company_names =
     [''GreenCycle Plastics'', ''PolyReclaim Inc'', ''CircularPoly Solutions'', ''ResinTech Recycling'', ''EcoPellet Corp'',
      ''PurePlast Industries'', ''NextLife Polymers'', ''CleanStream Materials'', ''RePoly Systems'', ''VerdeGrade Recycling'',
      ''ApexPoly Processing'', ''TrueCircle Materials'', ''PrimePellet Co'', ''ClearPath Recycling'', ''NovaPlast Corp'',
      ''Summit Recycling Group'', ''Pacific Polymer Recovery'', ''AtlasPoly Inc'', ''Meridian Materials'', ''CoreCycle Plastics'']"

definition ref_cities :: "(string \<times> string) list" where
  "ref_cities =
     [(''Houston'', ''TX''), (''Los Angeles'', ''CA''), (''Chicago'', ''IL''), (''Detroit'', ''MI''), (''Charlotte'', ''NC''),
      (''Atlanta'', ''GA''), (''Dallas'', ''TX''), (''Phoenix'', ''AZ''), (''Portland'', ''OR''), (''Nashville'', ''TN''),
      (''Indianapolis'', ''IN''), (''Columbus'', ''OH'')]"

section \<open>The static generator\<close>

text \<open>The generators of one entity, in the order in which the code draws them.\<close>

definition field_generators :: "string \<Rightarrow> string \<Rightarrow> string \<Rightarrow> string \<Rightarrow> (string, gen) dict" where
  "field_generators dropped name city state =
     [(''name'', const_gen (PStr name)),
      (''company_legal_name'', const_gen (PStr name)),
      (''city'', const_gen (PStr city)),
      (''state'', const_gen (PStr state)),
      (''address'', address_gen city state),
      (''phone'', phone_gen),
      (''website'', const_gen (PStr (''https://www.'' @ filter (\<lambda>c. c \<notin> set dropped) (py_lower name) @ ''.com''))),
      (''polymers_handled'', some_of ref_polymers 1 4),
      (''materials_handled'', some_of ref_polymers 1 4),
      (''facility_type'', choice_gen (map PStr ref_facility_types)),
      (''process_types'', some_of ref_process_types 1 3),
      (''processing_capabilities'', some_of ref_process_types 1 3),
      (''certifications'', some_of ref_certifications 0 4),
      (''material_forms_input'', some_of ref_forms_input 1 3),
      (''material_forms_output'', some_of ref_forms_output 1 3),
      (''industries_served'', some_of ref_industries 1 3),
      (''equipment_types'', some_of ref_equipment 1 4),
      (''contamination_tolerance_pct'', uniform_gen 1 (f_of_int 15)),
      (''min_mfi'', uniform_gen (flt (1 / 2)) (f_of_int 10)),
      (''max_mfi'', uniform_gen (f_of_int 15) (f_of_int 50)),
      (''annual_capacity_tons'', int_gen 5000 200000),
      (''annual_capacity_lbs'', int_gen 10000000 400000000),
      (''facility_size_sqft'', int_gen 10000 500000),
      (''year_founded'', int_gen 1985 2020),
      (''employee_count'', int_gen 15 500),
      (''annual_revenue_usd'', int_gen 2000000 100000000),
      (''ownership_type'', choice_gen [PStr ''private'', PStr ''public'', PStr ''PE-backed'', PStr ''family'']),
      (''geographic_reach'', choice_gen [PStr ''local'', PStr ''regional'', PStr ''national'', PStr ''international'']),
      (''sustainability_initiatives'',
        some_of [''zero-waste-to-landfill'', ''solar-powered'', ''water-recirculation'', ''carbon-neutral-goal''] 0 2),
      (''pcr_content_capability'', choice_gen [PBool True, PBool False]),
      (''pcr_percentage_range'', pcr_gen)]"

fun run_gens :: "(string, gen) dict \<Rightarrow> rng \<Rightarrow> fields \<times> rng" where
  "run_gens [] r = ([], r)"
| "run_gens ((k, g) # gs) r = (let (v, r1) = g r; (d, r2) = run_gens gs r1 in ((k, v) # d, r2))"

definition entity_key :: "nat \<Rightarrow> string" where
  "entity_key i = (let s = str_int (int i) in ''sim-'' @ replicate (4 - length s) (CHR ''0'') @ s)"

definition pick_field :: "fields \<Rightarrow> string \<Rightarrow> fields \<Rightarrow> fields" where
  "pick_field d f entity = (case dget d (normalize_field f) of Some v \<Rightarrow> dset f v entity | None \<Rightarrow> entity)"

definition with_sentinels :: "string \<Rightarrow> string \<Rightarrow> fields \<Rightarrow> fields" where
  "with_sentinels eid ename d = dset ''_entity_name'' (PStr ename) (dset ''_entity_id'' (PStr eid) d)"

definition static_entity_fallback :: "string \<Rightarrow> nat \<Rightarrow> string list \<Rightarrow> rng \<Rightarrow> fields \<times> rng" where
  "static_entity_fallback company i crm_fields r =
     (let (city, state) = ref_cities ! (i mod length ref_cities);
          (d, r') = run_gens (field_generators '' ,.'' company city state) r
      in (with_sentinels (entity_key i) company (fold (pick_field d) crm_fields []), r'))"

definition synthetic_entity :: "string list \<Rightarrow> nat \<Rightarrow> rng \<Rightarrow> fields \<times> rng" where
  "synthetic_entity crm_fields i r =
     (let name = ref_company_names ! (i mod length ref_company_names); (city, state) = ref_cities ! (i mod length ref_cities);
          (d, r') = run_gens (field_generators '' ,'' name city state) r
      in (with_sentinels (entity_key i) name (fold (pick_field d) crm_fields []), r'))"

fun synthetic_from :: "string list \<Rightarrow> nat list \<Rightarrow> rng \<Rightarrow> fields list" where
  "synthetic_from crm_fields [] r = []"
| "synthetic_from crm_fields (i # is) r =
     (let (e, r') = synthetic_entity crm_fields i r in e # synthetic_from crm_fields is r')"

definition generate_synthetic_entities :: "string list \<Rightarrow> nat \<Rightarrow> rng \<Rightarrow> fields list" where
  "generate_synthetic_entities crm_fields n r = synthetic_from crm_fields [0..<n] r"

section \<open>The schema the research is asked for\<close>

text \<open>
  Where the hint of a field comes from: the type and the examples a domain declares, the plastics table, or
  neither. The texts made of them are not modelled.
\<close>

datatype schema_hint = DeclaredHint pyval pyval | PlasticsHint string | GenericHint

definition plastics_sonar_fields :: "string list" where
  "plastics_sonar_fields =
     [''polymers_handled'', ''facility_type'', ''process_types'', ''certifications'', ''material_forms_input'',
      ''material_forms_output'', ''industries_served'', ''equipment_types'', ''contamination_tolerance_pct'',
      ''annual_capacity_tons'', ''employee_count'', ''year_founded'', ''ownership_type'', ''geographic_reach'',
      ''pcr_content_capability'', ''sustainability_initiatives'', ''city'', ''state'', ''website'']"

text \<open>\<open>ptype + f"... {examples[:3]}"\<close> raises for a type that is no text or list and for examples that have no slice.\<close>

definition declared_hint :: "fields \<Rightarrow> pyerr + schema_hint" where
  "declared_hint d =
     (let ptype = dget_or d ''type'' (PStr ''string''); examples = dget_or d ''examples'' (PList [])
      in if \<not> truthy examples then Inr (DeclaredHint ptype (PList []))
         else (case (ptype, examples) of
                 (PStr s, PList xs) \<Rightarrow> Inr (DeclaredHint ptype (PList (take 3 xs)))
               | (PStr s, PStr t) \<Rightarrow> Inr (DeclaredHint ptype (PStr (take 3 t)))
               | (PList ts, PList xs) \<Rightarrow> Inr (DeclaredHint ptype (PList (take 3 xs)))
               | (PList ts, PStr t) \<Rightarrow> Inr (DeclaredHint ptype (PStr (take 3 t)))
               | _ \<Rightarrow> Inl TypeError))"

definition hint_truthy :: "schema_hint \<Rightarrow> bool" where
  "hint_truthy h = (case h of DeclaredHint t ex \<Rightarrow> truthy t \<or> truthy ex | _ \<Rightarrow> True)"

definition add_prop_hint :: "string \<times> pyval \<Rightarrow> (string, schema_hint) dict \<Rightarrow> pyerr + (string, schema_hint) dict" where
  "add_prop_hint p hints =
     (case snd p of PDict d \<Rightarrow> bind_res (declared_hint d) (\<lambda>h. Inr (dset (fst p) h hints)) | _ \<Rightarrow> Inr hints)"

definition add_node_hints :: "pyval \<Rightarrow> (string, schema_hint) dict \<Rightarrow> pyerr + (string, schema_hint) dict" where
  "add_node_hints node hints =
     (case node of
        PDict nd \<Rightarrow>
          (let props = dget_or nd ''properties'' (PDict [])
           in if \<not> truthy props then Inr hints
              else (case props of PDict ps \<Rightarrow> fold_err add_prop_hint ps hints | _ \<Rightarrow> Inl AttributeError))
      | _ \<Rightarrow> Inr hints)"

definition pick_hint :: "(string, schema_hint) dict \<Rightarrow> string \<Rightarrow> schema_hint" where
  "pick_hint hints f =
     (case filter hint_truthy (List.map_filter (dget hints) [normalize_field f, f]) of
        h # hs \<Rightarrow> h
      | [] \<Rightarrow> if normalize_field f \<in> set plastics_sonar_fields then PlasticsHint (normalize_field f) else GenericHint)"

definition build_simulation_schema :: "string list \<Rightarrow> fields \<Rightarrow> pyerr + (string, schema_hint) dict" where
  "build_simulation_schema crm_fields spec =
     (case dget_or spec ''ontology'' (PDict spec) of
        PDict ontology \<Rightarrow>
          (let nodes = dget_or ontology ''nodes'' (dget_or ontology ''entities'' (PDict []))
           in bind_res (case nodes of PDict d \<Rightarrow> Inr (dvalues d) | _ \<Rightarrow> py_iter nodes) (\<lambda>ns.
              bind_res (fold_err add_node_hints ns []) (\<lambda>hints.
                Inr (fold (\<lambda>f schema. dset f (pick_hint hints f) schema) crm_fields []))))
      | _ \<Rightarrow> Inl AttributeError)"

section \<open>The researched entities\<close>

text \<open>The data of a response, \<open>None\<close> where the call fails.\<close>

definition sonar_entity_for_name :: "string \<Rightarrow> nat \<Rightarrow> pyval option \<Rightarrow> fields" where
  "sonar_entity_for_name company i response =
     (case response of
        Some (PDict raw) \<Rightarrow>
          (case dget_or raw ''fields'' (PDict raw) of
             PDict d \<Rightarrow> if dmem ''_raw'' d then [] else with_sentinels (entity_key i) company d
           | _ \<Rightarrow> [])
      | _ \<Rightarrow> [])"

definition min_sonar_fields :: nat where
  "min_sonar_fields = 3"

definition map_field :: "fields \<Rightarrow> string \<Rightarrow> fields \<Rightarrow> fields" where
  "map_field sonar f mapped =
     (let v = (if truthy (dget_or sonar f PNone) then dget_or sonar f PNone else dget_or sonar (normalize_field f) PNone)
      in if v \<noteq> PNone then dset f v mapped else mapped)"

definition map_sonar_result_to_crm :: "fields \<Rightarrow> string list \<Rightarrow> string \<Rightarrow> string \<Rightarrow> fields" where
  "map_sonar_result_to_crm sonar crm_fields eid ename =
     fold (map_field sonar) crm_fields [(''_entity_id'', PStr eid), (''_entity_name'', PStr ename)]"

definition researched_entity :: "string list \<Rightarrow> string \<Rightarrow> nat \<Rightarrow> fields \<Rightarrow> rng \<Rightarrow> fields \<times> rng" where
  "researched_entity crm_fields name i found r =
     (if min_sonar_fields \<le> length found then (map_sonar_result_to_crm found crm_fields (entity_key i) name, r)
      else static_entity_fallback name i crm_fields r)"

fun researched_from :: "string list \<Rightarrow> (nat \<times> string \<times> fields) list \<Rightarrow> rng \<Rightarrow> fields list" where
  "researched_from crm_fields [] r = []"
| "researched_from crm_fields ((i, name, found) # rest) r =
     (let (e, r') = researched_entity crm_fields name i found r in e # researched_from crm_fields rest r')"

text \<open>
  The research service: what it answers for a schema and a company, and whether the whole run ends in the
  time it is given.
\<close>

record research =
  rs_answer :: "(string, schema_hint) dict \<Rightarrow> string \<Rightarrow> nat \<Rightarrow> pyval option"
  rs_in_time :: bool

definition sonar_entities ::
  "research \<Rightarrow> string list \<Rightarrow> string list \<Rightarrow> fields \<Rightarrow> rng \<Rightarrow> pyerr + fields list" where
  "sonar_entities rs names crm_fields spec r =
     bind_res (build_simulation_schema crm_fields spec) (\<lambda>schema.
       Inr (researched_from crm_fields
              (map (\<lambda>(i, name). (i, name, sonar_entity_for_name name i (rs_answer rs schema name i))) (enumerate 0 names)) r))"

definition generate_sonar_entities ::
  "research option \<Rightarrow> string list \<Rightarrow> fields \<Rightarrow> string list \<Rightarrow> nat \<Rightarrow> rng \<Rightarrow> fields list" where
  "generate_sonar_entities service crm_fields spec companies n r =
     (let ref_names = (if companies \<noteq> [] then companies else ref_company_names);
          names = map (\<lambda>i. ref_names ! (i mod length ref_names)) [0..<n]
      in case service of
           None \<Rightarrow> generate_synthetic_entities crm_fields n r
         | Some rs \<Rightarrow>
             (case sonar_entities rs names crm_fields spec r of
                Inr es \<Rightarrow> if rs_in_time rs then es else generate_synthetic_entities crm_fields n r
              | Inl e \<Rightarrow> generate_synthetic_entities crm_fields n r))"

section \<open>Identifiers\<close>

lemma scan_count: "digits_only s \<Longrightarrow> fst (scan_digits v m s) = fst (scan_digits v n s)"
  by (induction s arbitrary: v m n) (auto simp: digits_only_def)

lemma scan_zeros: "digits_only (replicate k (CHR ''0'')) \<and> scan_digits 0 m (replicate k (CHR ''0'')) = (0, m + k, [])"
proof (induction k arbitrary: m)
  case (Suc k)
  have "digit_val (CHR ''0'') = Some 0" by (simp add: digit_val_def code_def)
  with Suc show ?case by (simp add: digits_only_def)
qed (simp add: digits_only_def)

lemma entity_key_value: "fst (scan_digits 0 0 (drop 4 (entity_key i))) = int i"
proof -
  let ?z = "replicate (4 - length (str_int (int i))) (CHR ''0'')"
  have s: "str_int (int i) = digits_of (int i)" by (simp add: str_int_def)
  have "fst (scan_digits 0 0 (?z @ digits_of (int i))) = fst (scan_digits 0 (length ?z) (digits_of (int i)))"
    using scan_zeros [of "length ?z" 0] by (simp add: scan_digits_append)
  also have "\<dots> = fst (scan_digits 0 0 (digits_of (int i)))" using digits_of_digits [of "int i"] by (intro scan_count) simp
  also have "\<dots> = int i" using scan_digits_of [of "int i"] by auto
  finally show ?thesis by (simp add: entity_key_def Let_def s)
qed

lemma entity_key_inj: "entity_key i = entity_key j \<longleftrightarrow> i = j"
  by (metis entity_key_value of_nat_eq_iff)

lemma with_sentinels_get:
  "dget (with_sentinels eid ename d) k =
     (if k = ''_entity_id'' then Some (PStr eid) else if k = ''_entity_name'' then Some (PStr ename) else dget d k)"
  by (simp add: with_sentinels_def dict_simps)

section \<open>The static generator\<close>

lemma dget_pick_fields:
  "dget (fold (pick_field d) fs e) f = (if f \<in> set fs \<and> dget d (normalize_field f) \<noteq> None then dget d (normalize_field f) else dget e f)"
proof (induction fs arbitrary: e)
  case (Cons g fs)
  show ?case using Cons by (auto simp: pick_field_def dict_simps split: option.splits)
qed simp

text \<open>The field names do not influence the draws.\<close>

lemma synthetic_entity_fields:
  obtains d eid ename r' where "\<And>fs. synthetic_entity fs i r = (with_sentinels eid ename (fold (pick_field d) fs []), r')"
    and "eid = entity_key i"
proof -
  obtain city state where c: "ref_cities ! (i mod length ref_cities) = (city, state)" by fastforce
  obtain d r' where d: "run_gens (field_generators '' ,'' (ref_company_names ! (i mod length ref_company_names)) city state) r = (d, r')"
    by fastforce
  have "synthetic_entity fs i r =
      (with_sentinels (entity_key i) (ref_company_names ! (i mod length ref_company_names)) (fold (pick_field d) fs []), r')" for fs
    by (simp add: synthetic_entity_def c d Let_def)
  with that show thesis by blast
qed

definition extends_on :: "string list \<Rightarrow> fields \<Rightarrow> fields \<Rightarrow> bool" where
  "extends_on fs d e \<longleftrightarrow>
     (\<forall>f. dget d f = (if f \<in> set fs \<or> f = ''_entity_id'' \<or> f = ''_entity_name'' then dget e f else None))"

lemma synthetic_from_extends:
  "set fs \<subseteq> set gs \<Longrightarrow> list_all2 (extends_on fs) (synthetic_from fs is r) (synthetic_from gs is r)"
proof (induction "is" arbitrary: r)
  case (Cons i "is")
  obtain d eid ename r' where e: "\<And>fs. synthetic_entity fs i r = (with_sentinels eid ename (fold (pick_field d) fs []), r')"
    by (rule synthetic_entity_fields [of i r]) blast
  have "extends_on fs (with_sentinels eid ename (fold (pick_field d) fs [])) (with_sentinels eid ename (fold (pick_field d) gs []))"
    using Cons.prems by (auto simp: extends_on_def with_sentinels_get dget_pick_fields)
  then show ?case using Cons by (simp add: e)
qed simp

text \<open>
  The static simulation compares like with like. For the same seed the entities generated for the
  customer's fields are exactly the restrictions to those fields of the entities generated for any larger
  list of fields: the names asked for never influence the values drawn.
\<close>

theorem static_enriched_extends_seed:
  assumes "set crm_fields \<subseteq> set all_fields"
  shows "list_all2 (extends_on crm_fields) (generate_synthetic_entities crm_fields n r) (generate_synthetic_entities all_fields n r)"
  using synthetic_from_extends [OF assms] by (simp add: generate_synthetic_entities_def)

theorem static_enriched_extends_seed_witness:
  "list_all2 (extends_on [''x_city'']) (generate_synthetic_entities [''x_city''] 3 (\<lambda>i. 7 * i)) (generate_synthetic_entities [''state'', ''x_city''] 3 (\<lambda>i. 7 * i))"
  by (rule static_enriched_extends_seed) simp

section \<open>The researched entities\<close>

definition keyed :: "nat \<Rightarrow> fields \<Rightarrow> bool" where
  "keyed i e \<longleftrightarrow> dget e ''_entity_id'' = Some (PStr (entity_key i)) \<and> (\<exists>name. dget e ''_entity_name'' = Some (PStr name))"

lemma synthetic_from_keyed: "list_all2 keyed is (synthetic_from fs is r)"
proof (induction "is" arbitrary: r)
  case (Cons i "is")
  obtain d eid ename r' where e: "\<And>fs. synthetic_entity fs i r = (with_sentinels eid ename (fold (pick_field d) fs []), r')"
    and "eid = entity_key i" by (rule synthetic_entity_fields [of i r]) blast
  then show ?case using Cons by (simp add: keyed_def with_sentinels_get)
qed simp

lemma fallback_keyed: "keyed i (fst (static_entity_fallback name i fs r))"
  by (simp add: static_entity_fallback_def keyed_def with_sentinels_get split_def Let_def)

lemma normalize_sentinels:
  "normalize_field ''_entity_id'' = ''_entity_id''" "normalize_field ''_entity_name'' = ''_entity_name''"
  by code_simp+

lemma map_keeps:
  assumes "dget sonar k = Some v" and "normalize_field k = k"
  shows "dget m k = Some v \<Longrightarrow> dget (fold (map_field sonar) fs m) k = Some v"
proof (induction fs arbitrary: m)
  case (Cons f fs)
  have "dget (map_field sonar f m) k = Some v"
    using Cons.prems assms by (auto simp: map_field_def Let_def dict_simps dget_or_def)
  with Cons.IH show ?case by simp
qed simp

lemma found_cases: "found = sonar_entity_for_name name i response \<Longrightarrow> found = [] \<or> (\<exists>d. found = with_sentinels (entity_key i) name d)"
  by (auto simp: sonar_entity_for_name_def split: option.splits pyval.splits)

lemma researched_keyed:
  assumes "found = sonar_entity_for_name name i response"
  shows "keyed i (fst (researched_entity fs name i found r))"
proof (cases "min_sonar_fields \<le> length found")
  case False
  then show ?thesis using fallback_keyed by (simp add: researched_entity_def)
next
  case True
  then have "found \<noteq> []" by (auto simp: min_sonar_fields_def)
  with found_cases [OF assms] obtain d where d: "found = with_sentinels (entity_key i) name d" by blast
  have "dget (map_sonar_result_to_crm found fs (entity_key i) name) ''_entity_id'' = Some (PStr (entity_key i))"
    unfolding map_sonar_result_to_crm_def by (rule map_keeps) (simp_all add: d with_sentinels_get normalize_sentinels)
  moreover have "dget (map_sonar_result_to_crm found fs (entity_key i) name) ''_entity_name'' = Some (PStr name)"
    unfolding map_sonar_result_to_crm_def by (rule map_keeps) (simp_all add: d with_sentinels_get normalize_sentinels)
  ultimately show ?thesis using True by (simp add: researched_entity_def keyed_def)
qed

lemma researched_from_keyed:
  "(\<And>i name found. (i, name, found) \<in> set xs \<Longrightarrow> \<exists>response. found = sonar_entity_for_name name i response) \<Longrightarrow>
     list_all2 keyed (map fst xs) (researched_from fs xs r)"
proof (induction xs arbitrary: r)
  case (Cons x xs)
  obtain i name found where x: "x = (i, name, found)" by (cases x)
  obtain e r' where e: "researched_entity fs name i found r = (e, r')" by fastforce
  obtain response where "found = sonar_entity_for_name name i response" using Cons.prems [of i name found] x by auto
  from researched_keyed [OF this, of fs r] have "keyed i e" using e by simp
  moreover have "list_all2 keyed (map fst xs) (researched_from fs xs r')" using Cons.prems by (intro Cons.IH) simp
  ultimately show ?case by (simp add: x e)
qed simp

text \<open>Whatever the research service answers, the entities are numbered without gaps and carry distinct identifiers.\<close>

lemma generated_keyed: "list_all2 keyed [0..<n] (generate_sonar_entities service fs spec companies n r)"
proof -
  have static: "list_all2 keyed [0..<n] (generate_synthetic_entities fs n r)"
    using synthetic_from_keyed by (simp add: generate_synthetic_entities_def)
  have "list_all2 keyed [0..<n] es"
    if run: "sonar_entities rs names fs spec r = Inr es" and len: "length names = n" for rs names es
  proof -
    obtain schema where es: "es = researched_from fs
        (map (\<lambda>(i, name). (i, name, sonar_entity_for_name name i (rs_answer rs schema name i))) (enumerate 0 names)) r"
      using run by (auto simp: sonar_entities_def bind_res_Inr_iff)
    have "map fst (map (\<lambda>(i, name). (i, name, g i name)) xs) = map fst xs" for g :: "nat \<Rightarrow> string \<Rightarrow> fields" and xs
      by (induction xs) auto
    then have "map fst (map (\<lambda>(i, name). (i, name, sonar_entity_for_name name i (rs_answer rs schema name i))) (enumerate 0 names)) = [0..<n]"
      using len by (simp only: map_fst_enumerate) simp
    then show ?thesis unfolding es
      using researched_from_keyed [of "map (\<lambda>(i, name). (i, name, sonar_entity_for_name name i (rs_answer rs schema name i))) (enumerate 0 names)" fs r]
      by fastforce
  qed
  then show ?thesis using static
    by (auto simp: generate_sonar_entities_def Let_def split: option.splits sum.splits)
qed

text \<open>
  One confirmed field is enough for an entity to count as researched, although the threshold asks for three:
  the identifier and the name the code adds are counted with it.
\<close>

theorem one_field_passes_threshold:
  "fst (researched_entity [''city'', ''state''] ''Acme'' 0
          (sonar_entity_for_name ''Acme'' 0 (Some (PDict [(''fields'', PDict [(''city'', PStr ''Reno'')])]))) r) =
     [(''_entity_id'', PStr ''sim-0000''), (''_entity_name'', PStr ''Acme''), (''city'', PStr ''Reno'')]"
proof -
  have found: "sonar_entity_for_name ''Acme'' 0 (Some (PDict [(''fields'', PDict [(''city'', PStr ''Reno'')])])) =
      [(''city'', PStr ''Reno''), (''_entity_id'', PStr ''sim-0000''), (''_entity_name'', PStr ''Acme'')]" by code_simp
  have mapped: "map_sonar_result_to_crm [(''city'', PStr ''Reno''), (''_entity_id'', PStr ''sim-0000''), (''_entity_name'', PStr ''Acme'')]
      [''city'', ''state''] (entity_key 0) ''Acme'' =
      [(''_entity_id'', PStr ''sim-0000''), (''_entity_name'', PStr ''Acme''), (''city'', PStr ''Reno'')]" by code_simp
  show ?thesis unfolding found using mapped by (simp add: researched_entity_def min_sonar_fields_def)
qed

text \<open>
  A zero that the research confirms is lost when it comes under a prefixed CRM name, although the same zero
  under the plain name is kept.
\<close>

theorem confirmed_zero_lost:
  "map_sonar_result_to_crm [(''x_employee_count'', PInt 0)] [''x_employee_count''] ''sim-0000'' ''Acme'' =
     [(''_entity_id'', PStr ''sim-0000''), (''_entity_name'', PStr ''Acme'')] \<and>
   map_sonar_result_to_crm [(''employee_count'', PInt 0)] [''x_employee_count''] ''sim-0000'' ''Acme'' =
     [(''_entity_id'', PStr ''sim-0000''), (''_entity_name'', PStr ''Acme''), (''x_employee_count'', PInt 0)]"
  by code_simp

end
