(* ===== verification/Simulation.thy ===== *)
theory Simulation
  imports SimGraph SimGenerate
begin

text \<open>
  \<open>app/services/simulation_bridge.py\<close>, the pipeline: both simulations, their statistics, the leverage
  points and the brief, and \<open>handle_simulate\<close> of \<open>app/engines/handlers.py\<close>. Of the leverage points and the
  brief the model keeps what is decided (kinds, confidences, tier, return on investment), not the texts.
\<close>

section \<open>Simulated entities\<close>

definition as_dict :: "pyval \<Rightarrow> pyerr + fields" where
  "as_dict v = (case v of PDict d \<Rightarrow> Inr d | _ \<Rightarrow> Inl AttributeError)"

text \<open>Gates and dimensions come from the specification as values of any kind; the loops look at one after the other.\<close>

definition gates_on :: "fields \<Rightarrow> fields \<Rightarrow> pyval \<Rightarrow> pyerr + sim_gate list" where
  "gates_on d query specs =
     bind_res (py_iter specs) (map_res (\<lambda>g. bind_res (as_dict g) (run_gate (normalized d) query)))"

definition scores_on :: "fields \<Rightarrow> pyval \<Rightarrow> pyerr + sim_score list \<times> f64" where
  "scores_on d specs =
     bind_res (py_iter specs) (\<lambda>vs.
     bind_res (map_res (\<lambda>s. bind_res (as_dict s) (score_dimension (normalized d))) vs) (\<lambda>scores.
       Inr (scores, composite_of scores)))"

definition text_value :: "pyval \<Rightarrow> string" where
  "text_value v = (case v of PStr s \<Rightarrow> s | _ \<Rightarrow> py_str v)"

definition source_confidence :: "string \<Rightarrow> f64" where
  "source_confidence src = (if src = ''crm'' then 1 else if src = ''inferred'' then flt (17 / 20) else flt (39 / 50))"

definition enriched_cost :: "(string, string) dict \<Rightarrow> f64" where
  "enriched_cost sources = py_round 4 (f_of_int (int (length (filter (\<lambda>s. s = ''enriched'') (dvalues sources)))) * flt (1 / 500))"

definition simulate_entity :: "bool \<Rightarrow> pyval \<Rightarrow> pyval \<Rightarrow> fields \<Rightarrow> nat \<Rightarrow> fields \<Rightarrow> pyerr + sim_entity" where
  "simulate_entity seed gates dims query i raw =
     (let eid = text_value (dget_or raw ''_entity_id'' (PStr (entity_key i)));
          ename = text_value (dget_or raw ''_entity_name'' (PStr ''Unknown''));
          bare = dpop ''_entity_name'' (dpop ''_entity_id'' raw);
          inferred = sim_inference sim_rules bare;
          d = dupdate bare inferred;
          sources = dupdate (map (\<lambda>(f, v). (f, if seed then ''crm'' else ''enriched'')) bare) (map (\<lambda>(f, v). (f, ''inferred'')) inferred);
          conf = map (\<lambda>(f, v). (f, source_confidence (dget_or sources f ''enriched''))) d
      in bind_res (gates_on d query gates) (\<lambda>gs.
         bind_res (scores_on d dims) (\<lambda>(scores, composite).
           Inr \<lparr>en_id = eid, en_name = ename, en_fields = d, en_sources = sources, en_confidence = conf, en_gates = gs,
                en_scores = scores, en_composite = composite, en_community = None,
                en_passes = list_all (\<lambda>g. sg_verdict g = GatePass) gs, en_cost = enriched_cost sources\<rparr>)))"

definition simulate_entities :: "bool \<Rightarrow> pyval \<Rightarrow> pyval \<Rightarrow> fields \<Rightarrow> fields list \<Rightarrow> pyerr + sim_entity list" where
  "simulate_entities seed gates dims query raws =
     map_res (\<lambda>(i, raw). simulate_entity seed gates dims query i raw) (enumerate 0 raws)"

section \<open>Statistics\<close>

datatype sim_mode = SeedOnly | EnrichedMode | FullGraph

record gate_counts =
  gc_pass :: int
  gc_fail :: int
  gc_insufficient :: int

record sim_stats =
  ss_mode :: sim_mode
  ss_entities :: int
  ss_fields :: int
  ss_pass_rate :: f64
  ss_by_gate :: "(string, gate_counts) dict"
  ss_blocked :: int
  ss_blocking :: "string list"
  ss_avg_score :: f64
  ss_distribution :: "(string, int) dict"
  ss_active :: int
  ss_degraded :: int
  ss_communities :: int
  ss_avg_community :: f64
  ss_largest :: int
  ss_modularity :: f64
  ss_inferred :: int
  ss_hit_rate :: f64
  ss_coverage :: f64
  ss_by_source :: "(string, int) dict"
  ss_total_cost :: f64
  ss_entity_cost :: f64

definition count_verdict :: "gate_verdict \<Rightarrow> gate_counts \<Rightarrow> gate_counts" where
  "count_verdict v c =
     (case v of GatePass \<Rightarrow> c\<lparr>gc_pass := gc_pass c + 1\<rparr> | GateFail \<Rightarrow> c\<lparr>gc_fail := gc_fail c + 1\<rparr>
      | GateInsufficient \<Rightarrow> c\<lparr>gc_insufficient := gc_insufficient c + 1\<rparr>)"

definition count_gate :: "sim_gate \<Rightarrow> (string, gate_counts) dict \<Rightarrow> (string, gate_counts) dict" where
  "count_gate g agg =
     dset (sg_name g) (count_verdict (sg_verdict g) (dget_or agg (sg_name g) \<lparr>gc_pass = 0, gc_fail = 0, gc_insufficient = 0\<rparr>)) agg"

definition count_if :: "('a \<Rightarrow> bool) \<Rightarrow> 'a list \<Rightarrow> int" where
  "count_if P xs = int (length (filter P xs))"

definition stats_gate_summary :: "sim_entity list \<Rightarrow> int \<Rightarrow> int \<times> (string, gate_counts) dict \<times> string list" where
  "stats_gate_summary es n =
     (let agg = fold count_gate (concat (map en_gates es)) []
      in (count_if en_passes es, agg,
          map fst (filter (\<lambda>(name, c). f_of_int n * flt (3 / 10) < f_of_int (gc_fail c + gc_insufficient c)) agg)))"

definition score_band :: "f64 \<Rightarrow> string" where
  "score_band s =
     (let pct = s * f_of_int 100
      in if pct < f_of_int 20 then ''0-20'' else if pct < f_of_int 40 then ''20-40'' else if pct < f_of_int 60 then ''40-60''
         else if pct < f_of_int 80 then ''60-80'' else ''80-100'')"

definition count_key :: "string \<Rightarrow> (string, int) dict \<Rightarrow> (string, int) dict" where
  "count_key k d = dset k (dget_or d k 0 + 1) d"

definition stats_score_distribution :: "f64 list \<Rightarrow> f64 \<times> (string, int) dict" where
  "stats_score_distribution scores =
     (if scores \<noteq> [] then py_sum scores / f_of_int (int (length scores)) else 0,
      fold (\<lambda>s. count_key (score_band s)) scores
        [(''0-20'', 0), (''20-40'', 0), (''40-60'', 0), (''60-80'', 0), (''80-100'', 0)])"

definition stats_community_summary :: "sim_entity list \<Rightarrow> int \<times> f64 \<times> int \<times> f64" where
  "stats_community_summary es =
     (let ids = List.map_filter en_community es;
          counts = map (\<lambda>c. int (length (filter (\<lambda>i. i = c) ids))) (dedup ids);
          num = int (length counts)
      in (num, py_int_div (sum_list counts) (max num 1), if counts \<noteq> [] then fold max counts 0 else 0,
          if 1 < num then 1 - 1 / f_of_int (max num 1) else 0))"

definition stats_coverage :: "sim_entity list \<Rightarrow> string list \<Rightarrow> int \<Rightarrow> f64 \<times> int \<times> f64 \<times> (string, int) dict" where
  "stats_coverage es props n =
     (let sources = concat (map (\<lambda>e. dvalues (en_sources e)) es);
          counts = fold count_key sources [(''crm'', 0), (''enriched'', 0), (''inferred'', 0)];
          possible = (if props \<noteq> [] then n * int (length props) else 1);
          inferred = dget_or counts ''inferred'' 0;
          inferrable = int (length sim_rules) * n
      in (if 0 < possible then py_int_div (int (length sources)) possible else 0, inferred,
          if 0 < inferrable then py_int_div inferred inferrable else 0, counts))"

definition empty_stats :: "sim_mode \<Rightarrow> string list \<Rightarrow> sim_stats" where
  "empty_stats mode props =
     \<lparr>ss_mode = mode, ss_entities = 0, ss_fields = int (length props), ss_pass_rate = 0, ss_by_gate = [], ss_blocked = 0,
      ss_blocking = [], ss_avg_score = 0, ss_distribution = [], ss_active = 0, ss_degraded = 0, ss_communities = 0,
      ss_avg_community = 0, ss_largest = 0, ss_modularity = 0, ss_inferred = 0, ss_hit_rate = 0, ss_coverage = 0,
      ss_by_source = [], ss_total_cost = 0, ss_entity_cost = 0\<rparr>"

definition compute_statistics :: "sim_entity list \<Rightarrow> sim_mode \<Rightarrow> string list \<Rightarrow> sim_stats" where
  "compute_statistics es mode props =
     (if es = [] then empty_stats mode props
      else
        (let n = int (length es);
             (pass_all, by_gate, blocking) = stats_gate_summary es n;
             (avg_score, dist) = stats_score_distribution (map en_composite es);
             first_scores = en_scores (hd es);
             (num, avg_comm, largest, modularity) = stats_community_summary es;
             (coverage, inferred, rate, by_source) = stats_coverage es props n;
             cost = py_sum (map en_cost es)
         in \<lparr>ss_mode = mode, ss_entities = n, ss_fields = int (length props),
             ss_pass_rate = py_round 1 (py_int_div pass_all n * f_of_int 100), ss_by_gate = by_gate, ss_blocked = n - pass_all,
             ss_blocking = blocking, ss_avg_score = py_round 4 avg_score, ss_distribution = dist,
             ss_active = count_if (\<lambda>s. sc_raw s \<noteq> PNone) first_scores, ss_degraded = count_if (\<lambda>s. sc_raw s = PNone) first_scores,
             ss_communities = num, ss_avg_community = py_round 1 avg_comm, ss_largest = largest,
             ss_modularity = py_round 4 modularity, ss_inferred = inferred,
             ss_hit_rate = py_round 1 (rate * f_of_int 100), ss_coverage = py_round 1 (coverage * f_of_int 100),
             ss_by_source = by_source, ss_total_cost = py_round 2 cost, ss_entity_cost = py_round 4 (cost / f_of_int n)\<rparr>))"

section \<open>Both simulations\<close>

definition default_query_profile :: fields where
  "default_query_profile =
     [(''polymers_handled'', PList [PStr ''HDPE'', PStr ''PP'']), (''materials_handled'', PList [PStr ''HDPE'', PStr ''PP'']),
      (''contamination_tolerance_pct'', PFloat (f_of_int 5)), (''min_mfi'', PFloat (f_of_int 5)), (''max_mfi'', PFloat (f_of_int 30)),
      (''process_types'', PList [PStr ''washing'', PStr ''pelletizing'']), (''certifications'', PList [iso_9001])]"

definition node_properties :: "pyval \<Rightarrow> string list" where
  "node_properties node =
     (case node of
        PDict nd \<Rightarrow> (case dget_or nd ''properties'' (PDict []) of PDict ps \<Rightarrow> dkeys ps | _ \<Rightarrow> [])
      | _ \<Rightarrow> [])"

definition extract_all_domain_properties :: "fields \<Rightarrow> pyerr + string list" where
  "extract_all_domain_properties spec =
     bind_res (as_dict (dget_or spec ''ontology'' (PDict spec))) (\<lambda>ontology.
       let nodes = dget_or ontology ''nodes'' (dget_or ontology ''entities'' (PList []))
       in Inr (concat (map node_properties (case nodes of PDict d \<Rightarrow> dvalues d | PList xs \<Rightarrow> xs | _ \<Rightarrow> []))))"

datatype generator = Static | Sonar "research option" "string list"

definition generate :: "generator \<Rightarrow> fields \<Rightarrow> nat \<Rightarrow> rng \<Rightarrow> string list \<Rightarrow> fields list" where
  "generate g spec n r names =
     (case g of
        Static \<Rightarrow> generate_synthetic_entities names n r
      | Sonar service companies \<Rightarrow> generate_sonar_entities service names spec companies n r)"

definition simulate ::
  "(string list \<Rightarrow> string list) \<Rightarrow> generator \<Rightarrow> string list \<Rightarrow> fields \<Rightarrow> fields \<Rightarrow> nat \<Rightarrow> rng \<Rightarrow>
     pyerr + sim_stats \<times> sim_stats \<times> sim_entity list \<times> sim_entity list" where
  "simulate ord g crm_fields spec query_profile n r =
     bind_res (as_dict (dget_or spec ''scoring'' (PDict []))) (\<lambda>scoring.
     let gates = dget_or spec ''gates'' (PList []);
         dims = dget_or spec ''scoring_dimensions'' (dget_or scoring ''dimensions'' (PList []));
         query = (if query_profile \<noteq> [] then query_profile else default_query_profile)
     in bind_res (extract_all_domain_properties spec) (\<lambda>props.
        bind_res (simulate_entities True gates dims query (generate g spec n r crm_fields)) (\<lambda>seed_entities.
        bind_res (simulate_entities False gates dims query (generate g spec n r (ord (dedup (crm_fields @ props))))) (\<lambda>enriched.
        bind_res (detect_communities ord enriched []) (\<lambda>(enriched_entities, members).
          Inr (compute_statistics seed_entities SeedOnly props, compute_statistics enriched_entities FullGraph props,
               seed_entities, enriched_entities))))))"

section \<open>Leverage and brief\<close>

datatype leverage_type = MatchingPrecision | ScoringAccuracy | CommunityDiscovery | InferenceDerivation | PipelineVelocity

text \<open>What a point compares (enriched against seed) and the confidence it is given.\<close>

definition leverage_points :: "sim_stats \<Rightarrow> sim_stats \<Rightarrow> (leverage_type \<times> bool \<times> f64) list" where
  "leverage_points seed enr =
     [(MatchingPrecision, 0 < ss_pass_rate enr - ss_pass_rate seed, flt (23 / 25)),
      (ScoringAccuracy, 0 < ss_avg_score enr - ss_avg_score seed, flt (22 / 25)),
      (CommunityDiscovery, ss_communities seed < ss_communities enr, flt (41 / 50)),
      (InferenceDerivation, ss_hit_rate seed < ss_hit_rate enr, flt (19 / 20)),
      (PipelineVelocity, 0 < ss_coverage enr - ss_coverage seed, flt (17 / 20))]"

definition analyze_leverage :: "sim_stats \<Rightarrow> sim_stats \<Rightarrow> (leverage_type \<times> f64) list" where
  "analyze_leverage seed enr = map (\<lambda>(t, holds, c). (t, c)) (filter (\<lambda>(t, holds, c). holds) (leverage_points seed enr))"

datatype tier = EnrichTier | DiscoverTier | AutonomousTier

definition recommended_tier :: "sim_stats \<Rightarrow> sim_stats \<Rightarrow> tier" where
  "recommended_tier seed enr =
     (if f_of_int 30 < ss_pass_rate enr - ss_pass_rate seed \<and> flt (1 / 10) < ss_avg_score enr - ss_avg_score seed then AutonomousTier
      else if 3 \<le> ss_communities enr then DiscoverTier else EnrichTier)"

definition estimated_roi :: "sim_stats \<Rightarrow> sim_stats \<Rightarrow> f64" where
  "estimated_roi seed enr =
     py_round 1 (f_of_int ((ss_blocked seed - ss_blocked enr) * 50000) / max (ss_total_cost enr) (flt (1 / 100)))"

record brief =
  eb_customer :: string
  eb_domain :: string
  eb_seed :: sim_stats
  eb_enriched :: sim_stats
  eb_points :: "(leverage_type \<times> f64) list"
  eb_tier :: tier
  eb_roi :: f64

definition generate_executive_brief :: "string \<Rightarrow> string \<Rightarrow> sim_stats \<Rightarrow> sim_stats \<Rightarrow> (leverage_type \<times> f64) list \<Rightarrow> brief" where
  "generate_executive_brief customer domain_id seed enr points =
     \<lparr>eb_customer = customer, eb_domain = domain_id, eb_seed = seed, eb_enriched = enr, eb_points = points,
      eb_tier = recommended_tier seed enr, eb_roi = estimated_roi seed enr\<rparr>"

section \<open>The handler\<close>

record sim_payload =
  sp_fields :: "string list"
  sp_domain :: string
  sp_customer :: "string option"
  sp_query :: fields
  sp_count :: pyval
  sp_seed :: pyval
  sp_use_sonar :: bool
  sp_companies :: "string list"

text \<open>
  A specification that is missing is an empty one; other exceptions of the reader than a \<open>ValueError\<close> are
  raised, and so are those of the simulation.
\<close>

definition spec_for :: "(string \<Rightarrow> pyval option) option \<Rightarrow> string \<Rightarrow> config_cache \<Rightarrow> (pyerr + fields) \<times> config_cache" where
  "spec_for reader domain_id cache =
     (case reader of
        None \<Rightarrow> (Inr [], cache)
      | Some files \<Rightarrow>
          (case load_domain files domain_id cache of
             (Inr c, cache') \<Rightarrow> (as_dict (dy_raw c), cache')
           | (Inl FileMissing, cache') \<Rightarrow> (Inr [], cache')
           | (Inl (SpecError e), cache') \<Rightarrow> (if e = ValueError then Inr [] else Inl e, cache')))"

definition handle_simulate ::
  "(string list \<Rightarrow> string list) \<Rightarrow> research option \<Rightarrow> (int \<Rightarrow> rng) \<Rightarrow> (string \<Rightarrow> pyval option) option \<Rightarrow> string \<Rightarrow> sim_payload \<Rightarrow>
     config_cache \<Rightarrow> (pyerr + brief) \<times> config_cache" where
  "handle_simulate ord service random_of reader tenant p cache =
     (case (py_int (sp_count p), py_int (sp_seed p)) of
        (Inr n, Inr seed) \<Rightarrow>
          (if sp_fields p = [] then (Inl ValueError, cache)
           else
             (case spec_for reader (sp_domain p) cache of
                (Inl e, cache') \<Rightarrow> (Inl e, cache')
              | (Inr spec, cache') \<Rightarrow>
                  (bind_res (simulate ord (if sp_use_sonar p then Sonar service (sp_companies p) else Static)
                               (sp_fields p) spec (sp_query p) (nat n) (random_of seed))
                     (\<lambda>(seed_stats, enriched_stats, es, es'). Inr (generate_executive_brief (case sp_customer p of Some c \<Rightarrow> c | None \<Rightarrow> tenant)
                        (sp_domain p) seed_stats enriched_stats (analyze_leverage seed_stats enriched_stats))), cache')))
      | (Inl e, _) \<Rightarrow> (Inl e, cache)
      | (_, Inl e) \<Rightarrow> (Inl e, cache))"

section \<open>Statistics that add up\<close>

lemma sum_count_key: "dict_ok d \<Longrightarrow> sum_list (dvalues (fold count_key ks d)) = sum_list (dvalues d) + int (length ks) \<and> dict_ok (fold count_key ks d)"
proof (induction ks arbitrary: d)
  case (Cons k ks)
  have "dict_ok (count_key k d)" using Cons.prems by (simp add: count_key_def distinct_update)
  moreover have "sum_list (dvalues (count_key k d)) = sum_list (dvalues d) + 1"
    using sum_dset [OF Cons.prems, of snd k "dget_or d k 0 + 1"]
    by (simp add: count_key_def old_part_def dget_or_def split: option.splits)
  ultimately show ?case using Cons.IH [of "count_key k d"] by simp
qed simp

definition gate_total :: "gate_counts \<Rightarrow> int" where
  "gate_total c = gc_pass c + gc_fail c + gc_insufficient c"

lemma gate_total_count: "gate_total (count_verdict v c) = gate_total c + 1"
  by (cases v) (simp_all add: count_verdict_def gate_total_def)

lemma gate_total_zero: "gate_total \<lparr>gc_pass = 0, gc_fail = 0, gc_insufficient = 0\<rparr> = 0"
  by (simp add: gate_total_def)

lemma percent_bounds:
  assumes "0 \<le> a" and "a \<le> b"
  shows "0 \<le> py_round 1 (py_int_div a b * f_of_int 100)" and "py_round 1 (py_int_div a b * f_of_int 100) \<le> f_of_int 100"
proof -
  note b = py_int_div_bounds [OF assms]
  have h: "0 \<le> f_of_int 100" by (rule f_of_int_nonneg) simp
  show "0 \<le> py_round 1 (py_int_div a b * f_of_int 100)" using b(1) h by (intro py_round_nonneg f64_mult_nonneg)
  have "py_int_div a b * f_of_int 100 \<le> 1 * f_of_int 100" using b(2) h by (rule f64_mult_right_mono)
  moreover have "py_round 1 (f_of_int 100) = f_of_int 100" by (rule py_round_of_int [of _ 100]) (use rnd_of_int [of 100] in \<open>simp add: f_of_int_def\<close>)
  ultimately show "py_round 1 (py_int_div a b * f_of_int 100) \<le> f_of_int 100"
    using py_round_mono [of "py_int_div a b * f_of_int 100" "f_of_int 100" 1] by simp
qed

lemma count_bands: "fold (\<lambda>s. count_key (score_band s)) scores d = fold count_key (map score_band scores) d"
  by (simp add: fold_map comp_def)

lemma gate_counts_total:
  "(case dget (fold count_gate gs agg) name of Some c \<Rightarrow> gate_total c | None \<Rightarrow> 0) =
   (case dget agg name of Some c \<Rightarrow> gate_total c | None \<Rightarrow> 0) + count_if (\<lambda>g. sg_name g = name) gs"
proof (induction gs arbitrary: agg)
  case (Cons g gs)
  have "(case dget (count_gate g agg) name of Some c \<Rightarrow> gate_total c | None \<Rightarrow> 0) =
    (case dget agg name of Some c \<Rightarrow> gate_total c | None \<Rightarrow> 0) + (if sg_name g = name then 1 else 0)"
    by (auto simp: count_gate_def dict_simps gate_total_count gate_total_zero dget_or_def split: option.splits)
  with Cons show ?case by (simp add: count_if_def)
qed (simp add: count_if_def)

lemma count_if_bounds: "0 \<le> count_if P xs \<and> count_if P xs \<le> int (length xs)"
  by (simp add: count_if_def length_filter_le)

lemma statistics_fields:
  assumes "es \<noteq> []"
  shows "ss_entities (compute_statistics es mode props) = int (length es)"
    "ss_pass_rate (compute_statistics es mode props) = py_round 1 (py_int_div (count_if en_passes es) (int (length es)) * f_of_int 100)"
    "ss_blocked (compute_statistics es mode props) = int (length es) - count_if en_passes es"
    "ss_by_gate (compute_statistics es mode props) = fold count_gate (concat (map en_gates es)) []"
    "ss_distribution (compute_statistics es mode props) = snd (stats_score_distribution (map en_composite es))"
    "ss_by_source (compute_statistics es mode props) =
       fold count_key (concat (map (\<lambda>e. dvalues (en_sources e)) es)) [(''crm'', 0), (''enriched'', 0), (''inferred'', 0)]"
    "ss_communities (compute_statistics es mode props) = int (card {c. Some c \<in> en_community ` set es})"
    "ss_coverage (compute_statistics es mode props) = py_round 1 (fst (stats_coverage es props (int (length es))) * f_of_int 100)"
proof -
  have ids: "set (List.map_filter en_community es) = {c. Some c \<in> en_community ` set es}"
    by (induction es) (auto simp: map_filter_simps split: option.splits)
  have "card {c. Some c \<in> en_community ` set es} = length (dedup (List.map_filter en_community es))"
    unfolding ids [symmetric] by (metis distinct_card distinct_dedup set_dedup)
  then show "ss_communities (compute_statistics es mode props) = int (card {c. Some c \<in> en_community ` set es})"
    using assms by (simp add: compute_statistics_def stats_community_summary_def split_def Let_def)
qed (use assms in \<open>simp_all add: compute_statistics_def stats_gate_summary_def stats_coverage_def split_def Let_def\<close>)

text \<open>
  The statistics of a simulation add up. Entities that pass and entities that are blocked make up all
  entities, the pass rate lies between 0 and 100, every entity falls in one score band, the verdicts counted
  for a gate are as many as the gate results of that name, and every field counted has a source.
\<close>

theorem statistics_add_up:
  "ss_entities (compute_statistics es mode props) = int (length es) \<and>
   ss_blocked (compute_statistics es mode props) + count_if en_passes es = int (length es) \<and>
   0 \<le> ss_pass_rate (compute_statistics es mode props) \<and> ss_pass_rate (compute_statistics es mode props) \<le> f_of_int 100 \<and>
   sum_list (dvalues (ss_distribution (compute_statistics es mode props))) = int (length es) \<and>
   (\<forall>name. (case dget (ss_by_gate (compute_statistics es mode props)) name of Some c \<Rightarrow> gate_total c | None \<Rightarrow> 0) =
      count_if (\<lambda>g. sg_name g = name) (concat (map en_gates es))) \<and>
   sum_list (dvalues (ss_by_source (compute_statistics es mode props))) = int (length (concat (map (\<lambda>e. dvalues (en_sources e)) es)))"
proof (cases "es = []")
  case True
  then show ?thesis by (simp add: compute_statistics_def empty_stats_def count_if_def f_of_int_nonneg)
next
  case False
  note f = statistics_fields [OF False, of mode props]
  have "sum_list (dvalues (ss_distribution (compute_statistics es mode props))) = int (length es)"
    using sum_count_key [of "[(''0-20'', 0), (''20-40'', 0), (''40-60'', 0), (''60-80'', 0), (''80-100'', 0)]"]
    by (simp add: f stats_score_distribution_def count_bands)
  moreover have "\<forall>name. (case dget (ss_by_gate (compute_statistics es mode props)) name of Some c \<Rightarrow> gate_total c | None \<Rightarrow> 0) =
      count_if (\<lambda>g. sg_name g = name) (concat (map en_gates es))"
    using gate_counts_total [of "concat (map en_gates es)" "[]"] by (simp add: f)
  moreover have "sum_list (dvalues (ss_by_source (compute_statistics es mode props))) = int (length (concat (map (\<lambda>e. dvalues (en_sources e)) es)))"
    using sum_count_key [of "[(''crm'', 0), (''enriched'', 0), (''inferred'', 0)]"] by (simp add: f)
  ultimately show ?thesis using percent_bounds [of "count_if en_passes es" "int (length es)"] count_if_bounds [of en_passes es]
    by (simp add: f)
qed

section \<open>The whole simulation\<close>

lemma simulate_entity_shape:
  assumes "simulate_entity seed gates dims query i raw = Inr e" and "keyed j raw"
  shows "en_id e = entity_key j \<and> en_community e = None"
  using assms by (auto simp: simulate_entity_def keyed_def bind_res_Inr_iff Let_def dget_or_def text_value_def split: prod.splits)

lemma simulate_entities_shape:
  assumes "simulate_entities seed gates dims query raws = Inr es" and "list_all2 keyed [0..<n] raws"
  shows "map en_id es = map entity_key [0..<n] \<and> (\<forall>e \<in> set es. en_community e = None)"
proof -
  have len: "length raws = n" using assms(2) by (simp add: list_all2_conv_all_nth)
  have steps: "list_all2 (\<lambda>(i, raw) e. simulate_entity seed gates dims query i raw = Inr e) (enumerate 0 raws) es"
    using assms(1) by (simp add: simulate_entities_def map_res_Inr split_def)
  then have len': "length es = n" using len by (simp add: list_all2_conv_all_nth)
  have "en_id (es ! i) = entity_key i \<and> en_community (es ! i) = None" if i: "i < n" for i
  proof (rule simulate_entity_shape)
    show "simulate_entity seed gates dims query i (raws ! i) = Inr (es ! i)"
      using steps i len by (simp add: list_all2_conv_all_nth nth_enumerate_eq)
    show "keyed i (raws ! i)" using assms(2) i by (simp add: list_all2_conv_all_nth)
  qed
  with len' show ?thesis by (auto simp: list_eq_iff_nth_eq in_set_conv_nth)
qed

lemma generate_keyed: "list_all2 keyed [0..<n] (generate g spec n r names)"
  using synthetic_from_keyed [of "[0..<n]"] generated_keyed
  by (cases g) (simp_all add: generate_def generate_synthetic_entities_def)

lemma keys_distinct: "distinct (map entity_key [0..<n])"
  by (simp add: distinct_map inj_on_def entity_key_inj)

lemma simulate_parts:
  assumes "simulate ord g crm_fields spec query_profile n r = Inr (s, s', es, es')"
  obtains props gates dims query seed_raw raw enriched members where
    "simulate_entities True gates dims query seed_raw = Inr es" and "list_all2 keyed [0..<n] seed_raw"
    and "simulate_entities False gates dims query raw = Inr enriched" and "list_all2 keyed [0..<n] raw"
    and "detect_communities ord enriched [] = Inr (es', members)"
    and "s = compute_statistics es SeedOnly props" and "s' = compute_statistics es' FullGraph props"
  using assms by (auto simp: simulate_def Let_def bind_res_Inr_iff intro!: that [OF _ generate_keyed _ generate_keyed])

lemma simulate_grouped:
  assumes run: "simulate ord g crm_fields spec query_profile n r = Inr (s, s', es, es')" and ord: "set_order ord"
  shows "map en_id es' = map entity_key [0..<n] \<and>
    (\<forall>x \<in> set es'. \<forall>y \<in> set es'. en_community x = en_community y \<longleftrightarrow> (en_id x, en_id y) \<in> (links default_attr_keys es')\<^sup>*) \<and>
    ss_communities s' = int (card (en_community ` set es')) \<and> ss_communities s = 0"
proof -
  obtain props gates dims query seed_raw raw enriched members where
    seed: "simulate_entities True gates dims query seed_raw = Inr es" "list_all2 keyed [0..<n] seed_raw"
    and enr: "simulate_entities False gates dims query raw = Inr enriched" "list_all2 keyed [0..<n] raw"
    and det: "detect_communities ord enriched [] = Inr (es', members)"
    and s: "s = compute_statistics es SeedOnly props" "s' = compute_statistics es' FullGraph props"
    by (rule simulate_parts [OF run]) blast
  have ids: "distinct (map en_id enriched)" using simulate_entities_shape [OF enr] keys_distinct by simp
  note parts = detected_components [OF det ids ord refl]
  have "en_community ` set es' = Some ` {c. Some c \<in> en_community ` set es'}" using parts by (auto simp: image_iff) (metis option.exhaust)
  then have "card (en_community ` set es') = card {c. Some c \<in> en_community ` set es'}" by (metis card_image inj_Some)
  then have "ss_communities s' = int (card (en_community ` set es'))"
    using statistics_fields(7) [of es' FullGraph props] s(2) by (cases "es' = []") (auto simp: compute_statistics_def empty_stats_def)
  moreover have "ss_communities s = 0"
  proof (cases "es = []")
    case False
    have "{c. Some c \<in> en_community ` set es} = {}" using simulate_entities_shape [OF seed] by force
    then show ?thesis using statistics_fields(7) [OF False, of SeedOnly props] s(1) by simp
  qed (simp add: s(1) compute_statistics_def empty_stats_def)
  ultimately show ?thesis using parts simulate_entities_shape [OF enr] detect_links [OF det ids ord, of default_attr_keys] by simp
qed

text \<open>
  The simulation as a whole. When it returns, the enriched entities are numbered from zero without gaps,
  they are grouped by the connected components of attribute sharing, and the statistics count as many
  communities as there are components; the seed simulation reports none, because communities are never
  computed for it.
\<close>

theorem simulate_groups_enriched:
  assumes run: "simulate ord g crm_fields spec query_profile n r = Inr (s, s', es, es')" and ord: "set_order ord"
  shows "map en_id es' = map entity_key [0..<n] \<and>
    (\<forall>x \<in> set es'. \<forall>y \<in> set es'. en_community x = en_community y \<longleftrightarrow> (en_id x, en_id y) \<in> (links default_attr_keys es')\<^sup>*) \<and>
    ss_communities s' = int (card (en_community ` set es')) \<and> ss_communities s = 0"
  by (rule simulate_grouped [OF assms])

section \<open>The static simulation always returns\<close>

text \<open>Lists of hashable elements, the only lists whose overlap can be computed.\<close>

definition plain :: "pyval \<Rightarrow> bool" where
  "plain v = (case v of PList xs \<Rightarrow> list_all hashable_value xs | _ \<Rightarrow> True)"

definition plain_dict :: "fields \<Rightarrow> bool" where
  "plain_dict d \<longleftrightarrow> (\<forall>v \<in> set (dvalues d). plain v)"

lemma plain_get: "plain_dict d \<Longrightarrow> plain dflt \<Longrightarrow> plain (dget_or d k dflt)"
  by (force simp: plain_dict_def dget_or_def split: option.splits dest: map_of_SomeD)

lemma plain_dset: "plain_dict d \<Longrightarrow> plain v \<Longrightarrow> plain_dict (dset k v d)"
  using dvalues_dset [of k v d] unfolding plain_dict_def by blast

lemma plain_dupdate: "plain_dict d \<Longrightarrow> plain_dict e \<Longrightarrow> plain_dict (dupdate d e)"
proof (induction e arbitrary: d)
  case (Cons kv e)
  obtain k v where kv: "kv = (k, v)" by (cases kv)
  have "plain v" "plain_dict e" using Cons.prems(2) kv by (simp_all add: plain_dict_def)
  then have "plain_dict (dset k v d)" using Cons.prems(1) by (intro plain_dset)
  with Cons.IH \<open>plain_dict e\<close> kv show ?case by (simp add: dupdate_def)
qed (simp add: dupdate_def)

lemma plain_dpop: "plain_dict d \<Longrightarrow> plain_dict (dpop k d)"
  by (auto simp: plain_dict_def AList.delete_eq)

definition plain_gen :: "gen \<Rightarrow> bool" where
  "plain_gen g \<longleftrightarrow> (\<forall>r. plain (fst (g r)))"

lemma plain_const: "plain v \<Longrightarrow> plain_gen (const_gen v)"
  and plain_int: "plain_gen (int_gen lo hi)"
  and plain_uniform: "plain_gen (uniform_gen x y)"
  and plain_some: "plain_gen (some_of pool lo hi)"
  and plain_address: "plain_gen (address_gen city state)"
  and plain_phone: "plain_gen phone_gen"
  and plain_pcr: "plain_gen pcr_gen"
  by (simp_all add: plain_gen_def plain_def const_gen_def int_gen_def uniform_gen_def some_of_def address_gen_def phone_gen_def
      pcr_gen_def split_def Let_def list_all_iff)

lemma plain_choice: "xs \<noteq> [] \<Longrightarrow> list_all plain xs \<Longrightarrow> plain_gen (choice_gen xs)"
  by (simp add: plain_gen_def choice_gen_def choice_def list_all_length)

lemma plain_generators: "list_all (\<lambda>(k, g). plain_gen g) (field_generators dropped name city state)"
  by (simp add: field_generators_def plain_const plain_int plain_uniform plain_some plain_address plain_phone plain_pcr plain_choice
      ref_facility_types_def plain_def)

lemma plain_run_gens: "list_all (\<lambda>(k, g). plain_gen g) gs \<Longrightarrow> plain_dict (fst (run_gens gs r))"
proof (induction gs arbitrary: r)
  case (Cons kg gs)
  obtain k g where kg: "kg = (k, g)" by (cases kg)
  have "plain_dict (fst (run_gens gs (snd (g r))))" using Cons by simp
  moreover have "plain (fst (g r))" using Cons.prems kg by (simp add: plain_gen_def)
  ultimately show ?case by (simp add: kg split_def Let_def plain_dict_def)
qed (simp add: plain_dict_def)

lemma plain_pick: "plain_dict d \<Longrightarrow> plain_dict e \<Longrightarrow> plain_dict (fold (pick_field d) fs e)"
proof (induction fs arbitrary: e)
  case (Cons f fs)
  have "plain_dict (pick_field d f e)"
    using Cons.prems plain_get [OF Cons.prems(1), of PNone "normalize_field f"]
    by (auto simp: pick_field_def dget_or_def plain_def [of PNone] plain_dset split: option.splits)
  with Cons show ?case by simp
qed simp

lemma plain_synthetic: "plain_dict (fst (synthetic_entity fs i r))"
proof -
  have "plain_dict []" and "\<And>s. plain (PStr s)" by (simp_all add: plain_dict_def plain_def)
  then show ?thesis using plain_pick plain_run_gens [OF plain_generators]
    by (simp add: synthetic_entity_def with_sentinels_def plain_dset split_def Let_def)
qed

lemma plain_generated: "list_all plain_dict (generate_synthetic_entities fs n r)"
proof -
  have "list_all plain_dict (synthetic_from fs is r)" for "is"
  proof (induction "is" arbitrary: r)
    case (Cons i "is")
    then show ?case using plain_synthetic [of fs i r] by (simp add: split_def Let_def)
  qed simp
  then show ?thesis by (simp add: generate_synthetic_entities_def)
qed

lemma plain_inference: "plain_dict (sim_inference rules d)"
proof (induction rules)
  case (Cons rule rules)
  have "sim_derive (normalized d) rule = Some (k, v) \<Longrightarrow> plain v" for k v
    by (auto simp: sim_derive_def plain_def split: if_splits sum.splits)
  with Cons show ?case by (auto simp: sim_inference_def map_filter_simps plain_dict_def split: option.splits)
qed (simp add: sim_inference_def map_filter_simps plain_dict_def)

lemma plain_normalized: "plain_dict d \<Longrightarrow> plain_dict (normalized d)"
proof -
  assume "plain_dict d"
  then have "plain_dict (map (\<lambda>(k, v). (normalize_field k, v)) d)" by (auto simp: plain_dict_def)
  then show ?thesis by (simp add: normalized_def plain_dupdate plain_dict_def [of "[]"])
qed

text \<open>Gates and dimensions whose property is a text.\<close>

definition gate_ok :: "pyval \<Rightarrow> bool" where
  "gate_ok g = (case g of PDict d \<Rightarrow>
     (case dget_or d ''candidate_property'' (dget_or d ''candidate_prop'' (PStr [])) of PStr p \<Rightarrow> True | _ \<Rightarrow> False) | _ \<Rightarrow> False)"

definition dimension_ok :: "pyval \<Rightarrow> bool" where
  "dimension_ok s = (case s of PDict d \<Rightarrow>
     (case dget_or d ''candidate_property'' (dget_or d ''candidate_prop'' (dget_or d ''source'' (PStr []))) of PStr p \<Rightarrow> True | _ \<Rightarrow> False)
   | _ \<Rightarrow> False)"

lemma overlap_returns: "plain v \<Longrightarrow> plain w \<Longrightarrow> \<exists>b. eval_overlap_gate v w = Inr b"
  by (auto simp: eval_overlap_gate_def plain_def overlaps_def split: pyval.splits)

lemma run_gate_returns:
  assumes "gate_ok (PDict g)" and "plain_dict nf" and "plain_dict query"
  shows "\<exists>r. run_gate nf query g = Inr r"
proof -
  obtain p where p: "dget_or g ''candidate_property'' (dget_or g ''candidate_prop'' (PStr [])) = PStr p"
    using assms(1) by (auto simp: gate_ok_def split: pyval.splits)
  have none: "plain PNone" by (simp add: plain_def)
  obtain b where "eval_overlap_gate (dget_or nf (normalize_field p) PNone) (dget_or query p (dget_or query (normalize_field p) PNone)) = Inr b"
    using overlap_returns plain_get [OF assms(2) none] plain_get [OF assms(3) plain_get [OF assms(3) none]] by blast
  then show ?thesis by (auto simp: run_gate_def p prop_name_def Let_def)
qed

lemma gates_on_returns:
  assumes "list_all gate_ok gs" and "plain_dict d" and "plain_dict query"
  shows "\<exists>r. gates_on d query (PList gs) = Inr r"
proof -
  have "\<exists>r. bind_res (as_dict g) (run_gate (normalized d) query) = Inr r" if "gate_ok g" for g
  proof -
    obtain m where "g = PDict m" using \<open>gate_ok g\<close> by (cases g) (simp_all add: gate_ok_def)
    then show ?thesis using run_gate_returns [of m] plain_normalized [OF assms(2)] assms(3) \<open>gate_ok g\<close> by (simp add: as_dict_def)
  qed
  then have "list_all (\<lambda>g. \<exists>r. bind_res (as_dict g) (run_gate (normalized d) query) = Inr r) gs"
    using assms(1) by (simp add: list_all_iff)
  from map_res_total [OF this] show ?thesis by (simp add: gates_on_def)
qed

lemma scores_on_returns: "list_all dimension_ok ss \<Longrightarrow> \<exists>r. scores_on d (PList ss) = Inr r"
proof -
  assume ok: "list_all dimension_ok ss"
  have "\<exists>r. bind_res (as_dict s) (score_dimension (normalized d)) = Inr r" if "dimension_ok s" for s
    using that by (auto simp: dimension_ok_def as_dict_def score_dimension_def prop_name_def Let_def split: pyval.splits)
  then have "list_all (\<lambda>s. \<exists>r. bind_res (as_dict s) (score_dimension (normalized d)) = Inr r) ss" using ok by (simp add: list_all_iff)
  from map_res_total [OF this] show ?thesis by (auto simp: scores_on_def)
qed

lemma simulate_entity_returns:
  assumes "list_all gate_ok gs" and "list_all dimension_ok ss" and "plain_dict query" and "plain_dict raw"
  shows "\<exists>e. simulate_entity seed (PList gs) (PList ss) query i raw = Inr e \<and> plain_dict (en_fields e)"
proof -
  define bare where "bare = dpop ''_entity_name'' (dpop ''_entity_id'' raw)"
  define d where "d = dupdate bare (sim_inference sim_rules bare)"
  have d: "plain_dict d" using assms(4) by (simp add: d_def bare_def plain_dupdate plain_dpop plain_inference)
  obtain g where "gates_on d query (PList gs) = Inr g" using gates_on_returns [OF assms(1) d assms(3)] by blast
  moreover obtain scores composite where "scores_on d (PList ss) = Inr (scores, composite)"
    using scores_on_returns [OF assms(2), of d] by auto
  ultimately show ?thesis using d by (simp add: simulate_entity_def Let_def flip: bare_def d_def)
qed

lemma simulate_entities_returns:
  assumes "list_all gate_ok gs" and "list_all dimension_ok ss" and "plain_dict query" and "list_all plain_dict raws"
  shows "\<exists>es. simulate_entities seed (PList gs) (PList ss) query raws = Inr es \<and> list_all (\<lambda>e. plain_dict (en_fields e)) es"
proof -
  have "\<exists>es. map_res (\<lambda>(i, raw). simulate_entity seed (PList gs) (PList ss) query i raw) (enumerate n raws) = Inr es \<and>
      list_all (\<lambda>e. plain_dict (en_fields e)) es" for n
    using assms(4)
  proof (induction raws arbitrary: n)
    case (Cons raw raws)
    have raw: "plain_dict raw" and raws: "list_all plain_dict raws" using Cons.prems by simp_all
    from Cons.IH [OF raws, of "Suc n"] obtain es where "map_res (\<lambda>(i, raw). simulate_entity seed (PList gs) (PList ss) query i raw) (enumerate (Suc n) raws) = Inr es"
      "list_all (\<lambda>e. plain_dict (en_fields e)) es" by blast
    moreover obtain e where "simulate_entity seed (PList gs) (PList ss) query n raw = Inr e" "plain_dict (en_fields e)"
      using simulate_entity_returns [OF assms(1-3) raw] by blast
    ultimately show ?case by simp
  qed simp
  then show ?thesis by (simp add: simulate_entities_def)
qed

lemma near_returns: "plain_dict (en_fields x) \<Longrightarrow> plain_dict (en_fields y) \<Longrightarrow> \<exists>b. near keys x y = Inr b"
proof -
  assume d: "plain_dict (en_fields x)" "plain_dict (en_fields y)"
  have none: "plain PNone" by (simp add: plain_def)
  have "\<exists>b. shares_attr (en_fields x) (en_fields y) k = Inr b" for k
    using plain_get [OF d(1) none, of k] plain_get [OF d(2) none, of k]
    by (auto simp: shares_attr_def Let_def plain_def overlaps_def split: pyval.splits)
  then have "\<exists>bs. map_res (shares_attr (en_fields x) (en_fields y)) keys = Inr bs" by (intro map_res_total) (simp add: list_all_iff)
  then show ?thesis by (auto simp: near_def count_shared_attrs_def)
qed

lemma detect_returns:
  assumes "list_all (\<lambda>e. plain_dict (en_fields e)) es"
  shows "\<exists>r. detect_communities ord es shared = Inr r"
proof -
  have "\<exists>adj'. fold_err (join_pair keys) ps adj = Inr adj'" if "set ps \<subseteq> set es \<times> set es" for keys ps adj
    using that
  proof (induction ps arbitrary: adj)
    case (Cons p ps)
    obtain x y where p: "p = (x, y)" by (cases p)
    then have "plain_dict (en_fields x)" "plain_dict (en_fields y)" using Cons.prems assms by (auto simp: list_all_iff)
    then obtain b where "near keys x y = Inr b" using near_returns by blast
    from join_pair_step [OF this, of ps adj] Cons show ?case by (simp add: p)
  qed simp
  then have "\<exists>adj. build_adjacency es keys = Inr adj" for keys using pairs_of_subset unfolding build_adjacency_def by blast
  then obtain adj where "build_adjacency es (if shared \<noteq> [] then shared else default_attr_keys) = Inr adj" by blast
  then show ?thesis by (simp add: detect_communities_def Let_def)
qed

lemma static_returns:
  assumes "as_dict (dget_or spec ''scoring'' (PDict [])) = Inr scoring" and "as_dict (dget_or spec ''ontology'' (PDict spec)) = Inr ontology"
    and "dget_or spec ''gates'' (PList []) = PList gs" and "list_all gate_ok gs"
    and "dget_or spec ''scoring_dimensions'' (dget_or scoring ''dimensions'' (PList [])) = PList ss" and "list_all dimension_ok ss"
    and "plain_dict query"
  shows "\<exists>s s' es es'. simulate ord Static crm_fields spec query n r = Inr (s, s', es, es')"
proof -
  define q where "q = (if query \<noteq> [] then query else default_query_profile)"
  have q: "plain_dict q" using assms(7) by (simp add: q_def default_query_profile_def plain_dict_def plain_def iso_9001_def)
  obtain props where props: "extract_all_domain_properties spec = Inr props"
    using assms(2) by (simp add: extract_all_domain_properties_def Let_def)
  obtain es where es: "simulate_entities True (PList gs) (PList ss) q (generate Static spec n r crm_fields) = Inr es"
    using simulate_entities_returns [OF assms(4,6) q plain_generated, of True crm_fields n r] by (auto simp: generate_def)
  obtain enr where enr: "simulate_entities False (PList gs) (PList ss) q (generate Static spec n r (ord (dedup (crm_fields @ props)))) = Inr enr"
      "list_all (\<lambda>e. plain_dict (en_fields e)) enr"
    using simulate_entities_returns [OF assms(4,6) q plain_generated, of False "ord (dedup (crm_fields @ props))" n r] by (auto simp: generate_def)
  obtain es' ms where "detect_communities ord enr [] = Inr (es', ms)" using detect_returns [OF enr(2), of ord "[]"] by auto
  then show ?thesis using assms(1,3,5) props es enr(1) unfolding simulate_def by (simp add: q_def Let_def)
qed

text \<open>
  The static simulation always returns. When the specification is a mapping with mappings for its
  ontology and its scoring, its gates and dimensions name their property by a text, and the query has no
  list of lists or mappings, both simulations run to their statistics, for every seed and number of entities.
\<close>

theorem static_simulation_returns:
  assumes "as_dict (dget_or spec ''scoring'' (PDict [])) = Inr scoring" and "as_dict (dget_or spec ''ontology'' (PDict spec)) = Inr ontology"
    and "dget_or spec ''gates'' (PList []) = PList gs" and "list_all gate_ok gs"
    and "dget_or spec ''scoring_dimensions'' (dget_or scoring ''dimensions'' (PList [])) = PList ss" and "list_all dimension_ok ss"
    and "plain_dict query"
  shows "\<exists>s s' es es'. simulate ord Static crm_fields spec query n r = Inr (s, s', es, es')"
  by (rule static_returns [OF assms])

definition small_simulation :: "pyerr + sim_stats \<times> sim_stats \<times> sim_entity list \<times> sim_entity list" where
  "small_simulation = simulate (\<lambda>ids. ids) Static [''x_city''] [] [] 2 (\<lambda>i. 3 * i)"

theorem static_simulation_returns_witness: "\<exists>s s' es es'. small_simulation = Inr (s, s', es, es')"
  unfolding small_simulation_def
  by (rule static_simulation_returns [of _ "[]" "[]" "[]" "[]"]) (simp_all add: as_dict_def dget_or_def plain_dict_def)

lemma small_simulation_returns: "\<exists>s s' es es'. small_simulation = Inr (s, s', es, es')"
  unfolding small_simulation_def
  by (rule static_returns [of _ "[]" "[]" "[]" "[]"]) (simp_all add: as_dict_def dget_or_def plain_dict_def)

theorem simulate_groups_enriched_witness:
  "\<exists>s s' es es'. small_simulation = Inr (s, s', es, es') \<and> map en_id es' = [''sim-0000'', ''sim-0001''] \<and> ss_communities s = 0"
proof -
  obtain s s' es es' where run: "simulate (\<lambda>ids. ids) Static [''x_city''] [] [] 2 (\<lambda>i. 3 * i) = Inr (s, s', es, es')"
    using small_simulation_returns by (auto simp: small_simulation_def)
  have "map entity_key [0..<2] = [''sim-0000'', ''sim-0001'']" by code_simp
  with simulate_groups_enriched [OF run] run show ?thesis by (simp add: set_order_def small_simulation_def)
qed

text \<open>
  Community discovery is therefore reported as leverage whenever there are entities, even where the enriched
  data is the seed data.
\<close>

theorem community_leverage_always:
  assumes "simulate ord g crm_fields spec query_profile n r = Inr (s, s', es, es')" and "set_order ord" and "0 < n"
  shows "CommunityDiscovery \<in> fst ` set (analyze_leverage s s')"
proof -
  note grouped = simulate_grouped [OF assms(1,2)]
  then have "es' \<noteq> []" using assms(3) by auto
  then have "0 < card (en_community ` set es')" by (simp add: card_gt_0_iff)
  then have "ss_communities s < ss_communities s'" using grouped by simp
  then have "(CommunityDiscovery, True, flt (41 / 50)) \<in> set (leverage_points s s')" by (simp add: leverage_points_def)
  then show ?thesis by (force simp: analyze_leverage_def image_iff)
qed

theorem community_leverage_always_witness:
  "\<exists>s s' es es'. small_simulation = Inr (s, s', es, es') \<and> CommunityDiscovery \<in> fst ` set (analyze_leverage s s')"
proof -
  obtain s s' es es' where run: "simulate (\<lambda>ids. ids) Static [''x_city''] [] [] 2 (\<lambda>i. 3 * i) = Inr (s, s', es, es')"
    using small_simulation_returns by (auto simp: small_simulation_def)
  from community_leverage_always [OF run] run show ?thesis by (simp add: set_order_def small_simulation_def)
qed

section \<open>Specifications as they are shipped\<close>

text \<open>
  The reader takes the properties of a node as a list of names and types, and the shipped PlasticOS
  specification writes them so. The simulation takes them as a mapping: the schema of the research cannot
  be built, so that the research is never used, and the domain has no properties.
\<close>

theorem listed_properties_disable_research:
  assumes "dget spec ''ontology'' = Some (PDict ontology)" and "dget ontology ''nodes'' = Some (PList (PDict node # nodes))"
    and "dget node ''properties'' = Some (PList (p # ps))"
  shows "generate_sonar_entities service fs spec companies n r = generate_synthetic_entities fs n r"
proof -
  have "build_simulation_schema fs spec = Inl AttributeError"
    using assms by (simp add: build_simulation_schema_def dget_or_def add_node_hints_def)
  then show ?thesis by (simp add: generate_sonar_entities_def sonar_entities_def Let_def split: option.splits)
qed

definition listed_spec :: fields where
  "listed_spec = [(''ontology'', PDict [(''nodes'', PList [PDict [(''properties'', PList [PDict [(''name'', PStr ''city'')]])]])])]"

theorem listed_properties_disable_research_witness:
  "extract_all_domain_properties listed_spec = Inr [] \<and>
   generate_sonar_entities (Some \<lparr>rs_answer = (\<lambda>schema name i. None), rs_in_time = True\<rparr>) [''city''] listed_spec [] 2 (\<lambda>i. i) =
     generate_synthetic_entities [''city''] 2 (\<lambda>i. i)"
proof
  show "extract_all_domain_properties listed_spec = Inr []"
    by (simp add: extract_all_domain_properties_def listed_spec_def as_dict_def node_properties_def dget_or_def)
  show "generate_sonar_entities (Some \<lparr>rs_answer = (\<lambda>schema name i. None), rs_in_time = True\<rparr>) [''city''] listed_spec [] 2 (\<lambda>i. i) =
     generate_synthetic_entities [''city''] 2 (\<lambda>i. i)"
    by (rule listed_properties_disable_research [where node = "[(''properties'', PList [PDict [(''name'', PStr ''city'')]])]" and nodes = "[]"
        and ontology = "[(''nodes'', PList [PDict [(''properties'', PList [PDict [(''name'', PStr ''city'')]])]])]"])
      (simp_all add: listed_spec_def)
qed

text \<open>
  Without domain properties the coverage is no share: it is a hundred times the number of populated fields.
\<close>

theorem coverage_above_hundred:
  "ss_coverage (compute_statistics [\<lparr>en_id = ''a'', en_name = ''a'', en_fields = [], en_sources = [(''city'', ''crm''), (''state'', ''crm'')],
     en_confidence = [], en_gates = [], en_scores = [], en_composite = 0, en_community = None, en_passes = True, en_cost = 0\<rparr>]
     SeedOnly []) = f_of_int 200"
  by code_simp

end
