(* ===== verification/ConvergenceExtras.thy ===== *)
theory ConvergenceExtras
  imports Trackers "HOL-Library.Product_Lexorder" "HOL-Library.Multiset"
begin

text \<open>
  The optional parts of convergence: \<open>app/engines/convergence/corrective_retrieval.py\<close>,
  \<open>hierarchical_synthesis.py\<close> and \<open>pass_telemetry.py\<close>, with the models of \<open>app/models/common.py\<close> and
  \<open>app/models/enrichment.py\<close> they are called with. They read attributes by name with a default; an object is
  what those reads give, \<open>None\<close> for an attribute it does not have. \<open>digest\<close> is SHA-256.
\<close>

section \<open>Models\<close>

datatype field_status = StUnknown | StPopulated | StMissing | StInputsMissing | StBelowThreshold | StInferred | StFailed

record field_trace =
  ft_field :: string
  ft_status :: field_status
  ft_confidence :: f64
  ft_source :: string
  ft_unlock :: "(string, string list) dict"
  ft_missing :: "string list"

record enrichment_inference =
  ei_field :: string
  ei_value :: pyval
  ei_confidence :: f64
  ei_rule :: string
  ei_sources :: "string list"

record field_result =
  fr_field :: string
  fr_value :: pyval
  fr_confidence :: f64
  fr_source :: string
  fr_inferred :: bool

record research_config = convergence_config +
  rc_synthesize :: bool
  rc_corrective :: bool
  rc_derived :: "string list option"

section \<open>Corrective retrieval\<close>

record corrective_target =
  ct_field :: string
  ct_status :: field_status
  ct_unlock :: f64
  ct_inputs :: "string list"
  ct_gap :: f64

record corrective_state =
  cs_targets :: "corrective_target list"
  cs_run :: string
  cs_pass :: int
  cs_hash :: string

text \<open>What \<open>getattr\<close> reads of an inference result.\<close>

record inference_view =
  iv_blocked :: "(string, field_status) dict option"
  iv_trace :: "(string, field_trace) dict option"

definition view_of :: "enrichment_inference \<Rightarrow> inference_view" where
  "view_of r = \<lparr>iv_blocked = None, iv_trace = None\<rparr>"

definition max_corrective_fields :: nat where
  "max_corrective_fields = 8"

definition extract_unlock_score :: "string \<Rightarrow> field_trace \<Rightarrow> f64" where
  "extract_unlock_score name t = f_of_int (int (length (dget_or (ft_unlock t) name [])))"

definition extract_confidence_gap :: "field_trace \<Rightarrow> research_config \<Rightarrow> f64" where
  "extract_confidence_gap t cfg = max 0 (confidence_threshold cfg - ft_confidence t)"

definition corrective_target_of :: "research_config \<Rightarrow> (string, field_trace) dict \<Rightarrow> string \<times> field_status \<Rightarrow> corrective_target option" where
  "corrective_target_of cfg traces p =
     (case p of (name, status) \<Rightarrow>
        (if status \<notin> {StInputsMissing, StBelowThreshold} then None
         else (let t = (case dget traces name of Some t \<Rightarrow> t
                        | None \<Rightarrow> \<lparr>ft_field = name, ft_status = status, ft_confidence = 0, ft_source = [], ft_unlock = [], ft_missing = []\<rparr>);
                   unlock = extract_unlock_score name t
               in if unlock < 0 \<and> status \<noteq> StInputsMissing then None
                  else Some \<lparr>ct_field = name, ct_status = status, ct_unlock = unlock, ct_inputs = ft_missing t,
                             ct_gap = extract_confidence_gap t cfg\<rparr>)))"

definition target_key :: "corrective_target \<Rightarrow> int \<times> f64 \<times> f64" where
  "target_key t = (if ct_status t = StInputsMissing then 0 else 1, - ct_unlock t, - ct_gap t)"

definition extract_corrective_targets :: "inference_view \<Rightarrow> research_config \<Rightarrow> corrective_target list" where
  "extract_corrective_targets iv cfg =
     (let blocked = (case iv_blocked iv of Some d \<Rightarrow> d | None \<Rightarrow> []); traces = (case iv_trace iv of Some d \<Rightarrow> d | None \<Rightarrow> [])
      in take max_corrective_fields (sort_key target_key (List.map_filter (corrective_target_of cfg traces) blocked)))"

text \<open>\<open>json.dumps\<close> of the sorted names is the parameter \<open>dumps\<close>.\<close>

definition build_corrective_state ::
  "(string \<Rightarrow> string) \<Rightarrow> (string list \<Rightarrow> string) \<Rightarrow> corrective_target list \<Rightarrow> string \<Rightarrow> int \<Rightarrow> corrective_state" where
  "build_corrective_state digest dumps targets run pass_no =
     (let sorted_targets = sort_desc ct_unlock targets
      in \<lparr>cs_targets = sorted_targets, cs_run = run, cs_pass = pass_no,
          cs_hash = digest (run @ '':'' @ str_int pass_no @ '':'' @ dumps (sort (map ct_field sorted_targets)))\<rparr>)"

definition should_apply_corrective :: "int \<Rightarrow> research_config \<Rightarrow> bool" where
  "should_apply_corrective pass_no cfg \<longleftrightarrow> 2 \<le> pass_no \<and> rc_corrective cfg"

definition build_corrective_state_for_next_pass ::
  "(string \<Rightarrow> string) \<Rightarrow> (string list \<Rightarrow> string) \<Rightarrow> inference_view \<Rightarrow> research_config \<Rightarrow> string \<Rightarrow> int \<Rightarrow> corrective_state option" where
  "build_corrective_state_for_next_pass digest dumps iv cfg run current_pass =
     (if \<not> should_apply_corrective (current_pass + 1) cfg then None
      else (let targets = extract_corrective_targets iv cfg
            in if targets = [] then None else Some (build_corrective_state digest dumps targets run (current_pass + 1))))"

text \<open>The metadata of a convergence state: its other entries and the one of the override.\<close>

record 'a state_metadata =
  sm_entries :: 'a
  sm_corrective :: "corrective_state option"

definition apply_corrective_override :: "'a state_metadata \<Rightarrow> corrective_state \<Rightarrow> 'a state_metadata" where
  "apply_corrective_override st c = (if cs_targets c = [] then st else st\<lparr>sm_corrective := Some c\<rparr>)"

definition consume_corrective_override :: "'a state_metadata \<Rightarrow> 'a state_metadata \<times> corrective_state option" where
  "consume_corrective_override st = (st\<lparr>sm_corrective := None\<rparr>, sm_corrective st)"

section \<open>Hierarchical synthesis\<close>

record composite_node =
  cn_id :: string
  cn_pass :: int
  cn_fields :: "string list"
  cn_confidence :: f64
  cn_label :: string
  cn_derived :: bool

text \<open>A resolved field as it is read: its confidence, and the pass that resolved it where it has one.\<close>

record resolved_view =
  rv_confidence :: f64
  rv_pass :: "int option"

definition resolved_of :: "field_result \<Rightarrow> resolved_view" where
  "resolved_of r = \<lparr>rv_confidence = fr_confidence r, rv_pass = None\<rparr>"

definition build_node :: "(string \<Rightarrow> string) \<Rightarrow> string list \<Rightarrow> int \<Rightarrow> f64 \<Rightarrow> bool \<Rightarrow> composite_node" where
  "build_node digest names pass_no mean derived =
     (let fs = sort names; i = take 16 (digest (join '':'' fs))
      in \<lparr>cn_id = i, cn_pass = pass_no, cn_fields = fs, cn_confidence = py_round 4 mean,
          cn_label = ''composite_pass'' @ str_int pass_no @ ''_'' @ take 6 i, cn_derived = derived\<rparr>)"

definition is_derived_target :: "research_config \<Rightarrow> string \<Rightarrow> bool" where
  "is_derived_target cfg name \<longleftrightarrow> (case rc_derived cfg of Some xs \<Rightarrow> name \<in> set xs | None \<Rightarrow> False)"

definition cluster_field ::
  "research_config \<Rightarrow> string \<times> resolved_view \<Rightarrow> (int, (string \<times> f64) list) dict \<Rightarrow> (int, (string \<times> f64) list) dict" where
  "cluster_field cfg p clusters =
     (if is_derived_target cfg (fst p) then clusters
      else (case rv_pass (snd p) of
              None \<Rightarrow> clusters
            | Some n \<Rightarrow> dset n (dget_or clusters n [] @ [(fst p, rv_confidence (snd p))]) clusters))"

definition cluster_fields_by_pass ::
  "(string, resolved_view) dict \<Rightarrow> research_config \<Rightarrow> (int, (string \<times> f64) list) dict" where
  "cluster_fields_by_pass fs cfg = fold (cluster_field cfg) fs []"

definition node_of_chunk :: "(string \<Rightarrow> string) \<Rightarrow> research_config \<Rightarrow> int \<Rightarrow> (string \<times> f64) list \<Rightarrow> composite_node" where
  "node_of_chunk digest cfg n chunk =
     build_node digest (map fst chunk) n (py_sum (map snd chunk) / f_of_int (int (length chunk))) (list_ex (is_derived_target cfg) (map fst chunk))"

text \<open>Chunks of four; a rest of at least two makes a node, too.\<close>

fun build_chunks :: "(string \<times> f64) list \<Rightarrow> (string \<times> f64) list list" where
  "build_chunks (a # b # c # d # xs) = [a, b, c, d] # build_chunks xs"
| "build_chunks xs = (if 2 \<le> length xs then [xs] else [])"

definition build_nodes_from_cluster :: "(string \<Rightarrow> string) \<Rightarrow> research_config \<Rightarrow> int \<times> (string \<times> f64) list \<Rightarrow> composite_node list" where
  "build_nodes_from_cluster digest cfg p = map (node_of_chunk digest cfg (fst p)) (build_chunks (sort_desc snd (snd p)))"

definition min_composite_confidence :: f64 where
  "min_composite_confidence = flt (3 / 4)"

definition build_composite_nodes ::
  "(string \<Rightarrow> string) \<Rightarrow> (string, resolved_view) dict option \<Rightarrow> research_config \<Rightarrow> composite_node list" where
  "build_composite_nodes digest resolved cfg =
     (if \<not> rc_synthesize cfg then []
      else (let high = filter (\<lambda>p. min_composite_confidence \<le> rv_confidence (snd p)) (case resolved of Some d \<Rightarrow> d | None \<Rightarrow> [])
            in if high = [] then []
               else concat (map (build_nodes_from_cluster digest cfg) (sort_key fst (cluster_fields_by_pass high cfg)))))"

definition to_feature_entry :: "composite_node \<Rightarrow> pyval" where
  "to_feature_entry n =
     PDict [(''node_id'', PStr (cn_id n)), (''pass'', PInt (cn_pass n)), (''fields'', PList (map PStr (cn_fields n))),
            (''confidence'', PFloat (cn_confidence n)), (''label'', PStr (cn_label n)), (''is_derived_target'', PBool (cn_derived n))]"

definition attach_composites :: "fields option \<Rightarrow> composite_node list \<Rightarrow> fields option" where
  "attach_composites feature_vector nodes =
     (if nodes = [] then feature_vector
      else Some (dset ''_composite_nodes'' (PList (map to_feature_entry nodes)) (case feature_vector of Some d \<Rightarrow> d | None \<Rightarrow> [])))"

text \<open>The state has no resolved fields: \<open>ConvergenceState\<close> does not declare them.\<close>

definition synthesize_and_attach ::
  "(string \<Rightarrow> string) \<Rightarrow> (string, resolved_view) dict option \<Rightarrow> fields option \<Rightarrow> research_config \<Rightarrow> fields option" where
  "synthesize_and_attach digest resolved feature_vector cfg =
     attach_composites feature_vector (build_composite_nodes digest resolved cfg)"

section \<open>Pass telemetry\<close>

record pass_record =
  pr_number :: int
  pr_enriched :: "string list"
  pr_inferred :: "string list"
  pr_confidences :: "(string, f64) dict"
  pr_uncertainty :: f64
  pr_tokens :: int

record pass_delta =
  pd_a :: int
  pd_b :: int
  pd_confidence :: f64
  pd_uncertainty :: f64
  pd_new :: nat
  pd_tokens :: int
  pd_roi :: f64

record telemetry_report =
  tp_total :: nat
  tp_fields :: "nat list"
  tp_confidence :: "f64 list"
  tp_uncertainty :: "f64 list"
  tp_tokens :: "int list"
  tp_roi :: "f64 list"
  tp_deltas :: "pass_delta list"
  tp_diminishing :: bool
  tp_convergence :: "int option"

definition pass_confidence :: "(string, f64) dict \<Rightarrow> f64" where
  "pass_confidence d = (if d = [] then 0 else py_sum (dvalues d) / f_of_int (int (length d)))"

definition get_pass :: "int \<Rightarrow> pass_record list \<Rightarrow> pass_record option" where
  "get_pass n ps = List.find (\<lambda>p. pr_number p = n) ps"

definition confidence_delta :: "pass_record list \<Rightarrow> int \<Rightarrow> int \<Rightarrow> f64" where
  "confidence_delta ps a b =
     (case (get_pass a ps, get_pass b ps) of
        (Some p, Some q) \<Rightarrow> py_round 4 (pass_confidence (pr_confidences q) - pass_confidence (pr_confidences p)) | _ \<Rightarrow> 0)"

definition uncertainty_delta :: "pass_record list \<Rightarrow> int \<Rightarrow> int \<Rightarrow> f64" where
  "uncertainty_delta ps a b =
     (case (get_pass a ps, get_pass b ps) of
        (Some p, Some q) \<Rightarrow> py_round 4 (pr_uncertainty q - pr_uncertainty p) | _ \<Rightarrow> 0)"

fun steps_of :: "'a list \<Rightarrow> ('a \<times> 'a) list" where
  "steps_of (x # y # xs) = (x, y) # steps_of (y # xs)"
| "steps_of xs = []"

definition pass_improvement :: "pass_record \<times> pass_record \<Rightarrow> f64" where
  "pass_improvement p =
     (if 0 < pr_uncertainty (fst p) then (pr_uncertainty (fst p) - pr_uncertainty (snd p)) / pr_uncertainty (fst p) else 0)"

definition diminishing_returns_check :: "nat \<Rightarrow> pass_record list \<Rightarrow> bool" where
  "diminishing_returns_check window ps =
     (if length ps < window + 1 then False
      else (let recent = (if window = 0 then ps else drop (length ps - window) ps); improvements = map pass_improvement (steps_of recent);
                avg = (if improvements \<noteq> [] then py_sum improvements / f_of_int (int (length improvements)) else 0)
            in avg < flt (1 / 20)))"

definition pass_roi :: "pass_record \<Rightarrow> f64" where
  "pass_roi p =
     (if 0 < pr_tokens p then py_int_div (int (length (pr_enriched p) + length (pr_inferred p))) (pr_tokens p) else 0)"

definition delta_of :: "pass_record \<times> pass_record \<Rightarrow> pass_delta" where
  "delta_of s =
     (case s of (prev, p) \<Rightarrow>
        \<lparr>pd_a = pr_number prev, pd_b = pr_number p,
         pd_confidence = py_round 4 (pass_confidence (pr_confidences p) - pass_confidence (pr_confidences prev)),
         pd_uncertainty = py_round 4 (pr_uncertainty p - pr_uncertainty prev),
         pd_new = length (pr_enriched p) + length (pr_inferred p), pd_tokens = pr_tokens p, pd_roi = py_round 6 (pass_roi p)\<rparr>)"

definition convergence_report :: "pass_record list \<Rightarrow> telemetry_report" where
  "convergence_report ps =
     (let dim = diminishing_returns_check 2 ps
      in \<lparr>tp_total = length ps, tp_fields = map (\<lambda>p. length (pr_enriched p) + length (pr_inferred p)) ps,
          tp_confidence = map (\<lambda>p. py_round 4 (pass_confidence (pr_confidences p))) ps,
          tp_uncertainty = map (\<lambda>p. py_round 4 (pr_uncertainty p)) ps, tp_tokens = map pr_tokens ps,
          tp_roi = map (\<lambda>p. py_round 6 (pass_roi p)) ps, tp_deltas = map delta_of (steps_of ps), tp_diminishing = dim,
          tp_convergence = (if dim \<and> 2 \<le> length ps then Some (pr_number (last ps)) else None)\<rparr>)"

section \<open>Composite nodes\<close>

text \<open>The cluster of a pass: the fields it resolved that are not derived, in their order.\<close>

definition pass_members :: "research_config \<Rightarrow> (string, resolved_view) dict \<Rightarrow> int \<Rightarrow> (string \<times> f64) list" where
  "pass_members cfg fs n =
     List.map_filter (\<lambda>(f, v). if \<not> is_derived_target cfg f \<and> rv_pass v = Some n then Some (f, rv_confidence v) else None) fs"

lemma cluster_fold:
  "dget_or (fold (cluster_field cfg) fs clusters) n [] = dget_or clusters n [] @ pass_members cfg fs n"
proof (induction fs arbitrary: clusters)
  case (Cons p fs)
  have "dget_or (cluster_field cfg p clusters) n [] = dget_or clusters n [] @ pass_members cfg [p] n"
    by (cases p) (auto simp: cluster_field_def pass_members_def map_filter_simps dict_simps split: option.splits)
  moreover have "pass_members cfg (p # fs) n = pass_members cfg [p] n @ pass_members cfg fs n"
    by (auto simp: pass_members_def map_filter_simps split: option.splits)
  ultimately show ?case using Cons by simp
qed (simp add: pass_members_def map_filter_simps)

lemma cluster_ok: "dict_ok clusters \<Longrightarrow> dict_ok (fold (cluster_field cfg) fs clusters)"
proof (induction fs arbitrary: clusters)
  case (Cons p fs)
  have "dict_ok (cluster_field cfg p clusters)"
    using Cons.prems by (auto simp: cluster_field_def intro: distinct_update split: option.splits)
  with Cons.IH show ?case by simp
qed simp

lemma cluster_members:
  assumes "(n, xs) \<in> set (cluster_fields_by_pass fs cfg)"
  shows "xs = pass_members cfg fs n"
proof -
  have "dict_ok (cluster_fields_by_pass fs cfg)" by (simp add: cluster_fields_by_pass_def cluster_ok)
  with assms have "dget (cluster_fields_by_pass fs cfg) n = Some xs" by simp
  then show ?thesis using cluster_fold [of cfg fs "[]" n] by (simp add: cluster_fields_by_pass_def dget_or_def)
qed

lemma member_of_pass:
  "(f, c) \<in> set (pass_members cfg fs n) \<longleftrightarrow>
     (\<exists>v. (f, v) \<in> set fs \<and> rv_pass v = Some n \<and> c = rv_confidence v \<and> \<not> is_derived_target cfg f)"
  by (induction fs) (auto simp: pass_members_def map_filter_simps split: if_splits)

lemma members_distinct: "dict_ok fs \<Longrightarrow> distinct (map fst (pass_members cfg fs n))"
proof (induction fs)
  case (Cons p fs)
  have "fst p \<notin> fst ` set (pass_members cfg fs n)"
  proof
    assume "fst p \<in> fst ` set (pass_members cfg fs n)"
    then obtain c where "(fst p, c) \<in> set (pass_members cfg fs n)" by force
    then obtain v where "(fst p, v) \<in> set fs" using member_of_pass by blast
    then have "fst p \<in> fst ` set fs" by (rule image_eqI [rotated]) simp
    with Cons.prems show False by simp
  qed
  with Cons have "distinct (map fst (pass_members cfg fs n))" "fst p \<notin> set (map fst (pass_members cfg fs n))" by auto
  then show ?case by (cases p) (simp add: pass_members_def map_filter_simps)
qed (simp add: pass_members_def map_filter_simps)

lemma chunks_prefix: "\<exists>rest. xs = concat (build_chunks xs) @ rest \<and> length rest < 4"
  by (induction xs rule: build_chunks.induct) (auto split: if_splits)

lemma chunk_size: "c \<in> set (build_chunks xs) \<Longrightarrow> 2 \<le> length c \<and> length c \<le> 4"
  by (induction xs rule: build_chunks.induct) (auto split: if_splits)

lemma node_fields: "cn_fields (node_of_chunk digest cfg n c) = sort (map fst c)" "cn_pass (node_of_chunk digest cfg n c) = n"
  by (simp_all add: node_of_chunk_def build_node_def Let_def)

lemma concat_sorted_chunks: "mset (concat (map (\<lambda>c. sort (map fst c)) cs)) = mset (map fst (concat cs))"
  by (induction cs) simp_all

lemma cluster_nodes:
  assumes "distinct (map fst xs)"
  shows "distinct (concat (map cn_fields (build_nodes_from_cluster digest cfg (n, xs))))"
    and "set (concat (map cn_fields (build_nodes_from_cluster digest cfg (n, xs)))) \<subseteq> fst ` set xs"
proof -
  let ?s = "sort_desc snd xs"
  let ?fs = "concat (map cn_fields (build_nodes_from_cluster digest cfg (n, xs)))"
  have "mset ?s = mset xs" by (simp add: sort_desc_def)
  then have d: "distinct (map fst ?s)" using assms by (metis mset_eq_imp_distinct_iff mset_map)
  obtain rest where rest: "?s = concat (build_chunks ?s) @ rest" using chunks_prefix by blast
  have m: "mset ?fs = mset (map fst (concat (build_chunks ?s)))"
    unfolding concat_sorted_chunks [symmetric] by (simp add: build_nodes_from_cluster_def node_fields comp_def)
  have "distinct (map fst (concat (build_chunks ?s)))" using d rest by (metis distinct_append map_append)
  then show "distinct ?fs" using m by (metis mset_eq_imp_distinct_iff)
  have "set ?fs = fst ` set (concat (build_chunks ?s))" using m by (metis list.set_map mset_eq_setD)
  also have "\<dots> \<subseteq> fst ` set ?s" by (subst (2) rest) auto
  finally show "set ?fs \<subseteq> fst ` set xs" by simp
qed

lemma concat_map_concat: "concat (map g (concat (map h cs))) = concat (map (\<lambda>c. concat (map g (h c))) cs)"
  by (induction cs) simp_all

lemma distinct_concat_tagged:
  assumes "distinct (map t cs)" and "\<And>c. c \<in> set cs \<Longrightarrow> distinct (g c)" and "\<And>c x. c \<in> set cs \<Longrightarrow> x \<in> set (g c) \<Longrightarrow> tag x = t c"
  shows "distinct (concat (map g cs))"
  using assms by (induction cs) (auto, metis image_eqI)

definition high_fields :: "(string, resolved_view) dict \<Rightarrow> (string, resolved_view) dict" where
  "high_fields d = filter (\<lambda>p. min_composite_confidence \<le> rv_confidence (snd p)) d"

lemma nodes_of:
  "build_composite_nodes digest (Some d) cfg =
     (if rc_synthesize cfg then concat (map (build_nodes_from_cluster digest cfg) (sort_key fst (cluster_fields_by_pass (high_fields d) cfg))) else [])"
  by (simp add: build_composite_nodes_def high_fields_def Let_def cluster_fields_by_pass_def)

lemma cluster_member:
  assumes "dict_ok d" and "(n, xs) \<in> set (sort_key fst (cluster_fields_by_pass (high_fields d) cfg))" and "f \<in> fst ` set xs"
  shows "\<exists>v. dget d f = Some v \<and> rv_pass v = Some n \<and> flt (3 / 4) \<le> rv_confidence v \<and> \<not> is_derived_target cfg f"
proof -
  have "xs = pass_members cfg (high_fields d) n" using assms(2) cluster_members by auto
  with assms(3) obtain v where "(f, v) \<in> set (high_fields d)" "rv_pass v = Some n" "\<not> is_derived_target cfg f"
    using member_of_pass by force
  with assms(1) show ?thesis by (auto simp: high_fields_def min_composite_confidence_def)
qed

lemma cluster_names_distinct:
  assumes "dict_ok d" and "(n, xs) \<in> set (sort_key fst (cluster_fields_by_pass (high_fields d) cfg))"
  shows "distinct (map fst xs)"
proof -
  have "dict_ok (high_fields d)" using assms(1) by (simp add: high_fields_def distinct_map_filter)
  from members_distinct [OF this, of cfg n] show ?thesis using assms(2) cluster_members [of n xs "high_fields d" cfg] by simp
qed

lemma cluster_node_shape:
  assumes "distinct (map fst xs)" and nd: "nd \<in> set (build_nodes_from_cluster digest cfg (n, xs))"
  shows "set (cn_fields nd) \<subseteq> fst ` set xs \<and> cn_pass nd = n \<and> 2 \<le> length (cn_fields nd) \<and> length (cn_fields nd) \<le> 4"
proof -
  from nd obtain ch where ch: "nd = node_of_chunk digest cfg n ch" "ch \<in> set (build_chunks (sort_desc snd xs))"
    by (auto simp: build_nodes_from_cluster_def)
  have "set (cn_fields nd) \<subseteq> set (concat (map cn_fields (build_nodes_from_cluster digest cfg (n, xs))))"
    unfolding set_concat set_map using nd by blast
  then have "set (cn_fields nd) \<subseteq> fst ` set xs" using cluster_nodes(2) [OF assms(1)] by blast
  with ch chunk_size [OF ch(2)] show ?thesis by (simp add: node_fields)
qed

text \<open>
  Composite nodes group what one pass resolved well. Each node has two to four fields; all of them were
  resolved in the pass of the node with a confidence of at least 0.75 and none is a derived target; and no
  field is in two nodes, whatever passes and confidences there are.
\<close>

theorem composites_group_one_pass:
  assumes "dict_ok d"
  shows "(\<forall>n \<in> set (build_composite_nodes digest (Some d) cfg). 2 \<le> length (cn_fields n) \<and> length (cn_fields n) \<le> 4 \<and>
      (\<forall>f \<in> set (cn_fields n). \<exists>v. dget d f = Some v \<and> rv_pass v = Some (cn_pass n) \<and> flt (3 / 4) \<le> rv_confidence v \<and> \<not> is_derived_target cfg f)) \<and>
    distinct (concat (map cn_fields (build_composite_nodes digest (Some d) cfg)))"
proof (cases "rc_synthesize cfg")
  case True
  let ?cs = "sort_key fst (cluster_fields_by_pass (high_fields d) cfg)"
  have ok: "dict_ok (high_fields d)" using assms by (simp add: high_fields_def distinct_map_filter)
  have nodes: "build_composite_nodes digest (Some d) cfg = concat (map (build_nodes_from_cluster digest cfg) ?cs)"
    using True by (simp add: nodes_of)
  note member = cluster_member [OF assms, of _ _ cfg] and names = cluster_names_distinct [OF assms, of _ _ cfg]
  have "distinct (concat (map (\<lambda>c. concat (map cn_fields (build_nodes_from_cluster digest cfg c))) ?cs))"
  proof (rule distinct_concat_tagged [where t = fst and tag = "\<lambda>f. the (rv_pass (the (dget d f)))"])
    have "distinct (map fst (cluster_fields_by_pass (high_fields d) cfg))" by (simp add: cluster_fields_by_pass_def cluster_ok)
    then show "distinct (map fst ?cs)" by (metis mset_eq_imp_distinct_iff mset_map mset_sort)
  next
    fix c assume c: "c \<in> set ?cs"
    obtain n xs where p: "c = (n, xs)" by (cases c)
    show "distinct (concat (map cn_fields (build_nodes_from_cluster digest cfg c)))"
      using cluster_nodes(1) [OF names] c p by simp
    show "the (rv_pass (the (dget d f))) = fst c" if "f \<in> set (concat (map cn_fields (build_nodes_from_cluster digest cfg c)))" for f
    proof -
      have "f \<in> fst ` set xs" using that cluster_nodes(2) [OF names [OF c [unfolded p]], of digest cfg n] unfolding p by blast
      from member [OF c [unfolded p] this] p show ?thesis by auto
    qed
  qed
  then have "distinct (concat (map cn_fields (build_composite_nodes digest (Some d) cfg)))" by (simp only: nodes concat_map_concat)
  moreover have "2 \<le> length (cn_fields nd) \<and> length (cn_fields nd) \<le> 4 \<and>
      (\<forall>f \<in> set (cn_fields nd). \<exists>v. dget d f = Some v \<and> rv_pass v = Some (cn_pass nd) \<and> flt (3 / 4) \<le> rv_confidence v \<and> \<not> is_derived_target cfg f)"
    if nd: "nd \<in> set (build_composite_nodes digest (Some d) cfg)" for nd
  proof -
    obtain n xs where c: "(n, xs) \<in> set ?cs" "nd \<in> set (build_nodes_from_cluster digest cfg (n, xs))" using nd unfolding nodes by auto
    then show ?thesis using cluster_node_shape [OF names [OF c(1)] c(2)] member [OF c(1)] by blast
  qed
  ultimately show ?thesis by blast
qed (simp add: nodes_of)

definition research_defaults :: research_config where
  "research_defaults = \<lparr>max_passes = 3, confidence_threshold = flt (7 / 10), min_improvement_delta = f_of_int 2,
     rc_synthesize = True, rc_corrective = True, rc_derived = None\<rparr>"

definition resolved_in :: "string \<Rightarrow> int \<Rightarrow> string \<times> resolved_view" where
  "resolved_in f n = (f, \<lparr>rv_confidence = 1, rv_pass = Some n\<rparr>)"

theorem composites_group_one_pass_witness:
  "distinct (concat (map cn_fields (build_composite_nodes (\<lambda>s. s)
     (Some [resolved_in ''mfi'' 1, resolved_in ''grade'' 1, resolved_in ''density'' 2]) research_defaults)))"
  using composites_group_one_pass [of "[resolved_in ''mfi'' 1, resolved_in ''grade'' 1, resolved_in ''density'' 2]"]
  by (simp add: resolved_in_def)

lemma composites_example:
  "map (\<lambda>n. (cn_pass n, cn_fields n)) (build_composite_nodes (\<lambda>s. s)
     (Some [resolved_in ''mfi'' 1, resolved_in ''grade'' 1, resolved_in ''density'' 2]) research_defaults) = [(1, [''grade'', ''mfi''])]"
  by code_simp

section \<open>Corrective targets\<close>

lemma corrective_targets_bound: "length (extract_corrective_targets iv cfg) \<le> max_corrective_fields"
  by (simp add: extract_corrective_targets_def Let_def)

lemma corrective_target_status: "corrective_target_of cfg traces p = Some t \<Longrightarrow> ct_field t = fst p \<and> ct_status t = snd p \<and> snd p \<in> {StInputsMissing, StBelowThreshold}"
  by (auto simp: corrective_target_of_def Let_def split: prod.splits if_splits)

lemma target_keys_sorted: "sorted (map target_key (extract_corrective_targets iv cfg))"
  unfolding extract_corrective_targets_def Let_def take_map [symmetric] by (rule sorted_wrt_take) simp

text \<open>
  With the inference results and the resolved fields of the models there is nothing to work on: neither has
  the attributes the modules read, so no override is ever built and no composite node attached.
\<close>

theorem research_modules_inert:
  "build_corrective_state_for_next_pass digest dumps (view_of r) cfg run n = None \<and>
   synthesize_and_attach digest (Some (map (\<lambda>(f, x). (f, resolved_of x)) fs)) vector cfg = vector"
proof
  show "build_corrective_state_for_next_pass digest dumps (view_of r) cfg run n = None"
    by (simp add: build_corrective_state_for_next_pass_def extract_corrective_targets_def view_of_def List.map_filter_simps)
next
  have "pass_members cfg (high_fields (map (\<lambda>(f, x). (f, resolved_of x)) fs)) m = []" for m
    using member_of_pass [of _ _ cfg "high_fields (map (\<lambda>(f, x). (f, resolved_of x)) fs)" m]
    by (cases "pass_members cfg (high_fields (map (\<lambda>(f, x). (f, resolved_of x)) fs)) m")
       (auto simp: high_fields_def resolved_of_def, force)
  then have no_members: "build_nodes_from_cluster digest cfg p = []"
    if "p \<in> set (cluster_fields_by_pass (high_fields (map (\<lambda>(f, x). (f, resolved_of x)) fs)) cfg)" for p
    using cluster_members [of "fst p" "snd p"] that by (simp add: build_nodes_from_cluster_def sort_desc_def)
  then show "synthesize_and_attach digest (Some (map (\<lambda>(f, x). (f, resolved_of x)) fs)) vector cfg = vector"
    by (auto simp: synthesize_and_attach_def nodes_of attach_composites_def)
qed

text \<open>
  The order of the targets is lost: the fields with missing inputs come first out of the extraction, but the
  state sorts them again by unlock score alone.
\<close>

theorem corrective_order_lost:
  "(let t = \<lambda>f n. (f, \<lparr>ft_field = f, ft_status = StUnknown, ft_confidence = 0, ft_source = [], ft_unlock = [(f, replicate n ''x'')], ft_missing = []\<rparr>);
        ts = extract_corrective_targets \<lparr>iv_blocked = Some [(''grade'', StBelowThreshold), (''mfi'', StInputsMissing)],
               iv_trace = Some [t ''grade'' 2, t ''mfi'' 1]\<rparr> research_defaults
    in map ct_field ts = [''mfi'', ''grade''] \<and>
       map ct_field (cs_targets (build_corrective_state (\<lambda>s. s) concat ts ''r'' 2)) = [''grade'', ''mfi''])"
  by code_simp

section \<open>Telemetry\<close>

lemma steps_length: "length (steps_of xs) = length xs - 1"
  by (induction xs rule: steps_of.induct) simp_all

text \<open>A run that has not stopped improving is never reported as converged; the report has one entry per pass.\<close>

lemma report_accounts:
  "tp_total (convergence_report ps) = length ps \<and> length (tp_roi (convergence_report ps)) = length ps \<and>
   length (tp_deltas (convergence_report ps)) = length ps - 1 \<and>
   (tp_convergence (convergence_report ps) = (if 3 \<le> length ps \<and> diminishing_returns_check 2 ps then Some (pr_number (last ps)) else None))"
  by (auto simp: convergence_report_def Let_def steps_length diminishing_returns_check_def)

end
