(* ===== verification/FieldEvidence.thy ===== *)
theory FieldEvidence
  imports Voting
begin

text \<open>
  \<open>app/models/field_confidence.py\<close> and \<open>app/models/feature_evidence.py\<close>: the confidence of single fields,
  merged over passes and computed from the payloads of one pass, and the evidence compiled from it. A
  \<open>ValidationError\<close> of a model is a \<open>ValueError\<close>. \<open>dump\<close> is \<open>json.dumps\<close> with sorted keys.
\<close>

section \<open>The confidence of a field\<close>

datatype field_source = SrcCrm | SrcEnrichment | SrcInference | SrcManual | SrcSeed

record field_confidence =
  fc_name :: string
  fc_value :: pyval
  fc_confidence :: f64
  fc_source :: field_source
  fc_agreement :: "f64 option"
  fc_pass :: int
  fc_fragments :: "string list"

definition unit_interval :: "f64 \<Rightarrow> bool" where
  "unit_interval x \<longleftrightarrow> 0 \<le> x \<and> x \<le> 1"

definition clamp_confidence :: "pyval \<Rightarrow> f64" where
  "clamp_confidence v = max 0 (min 1 (case py_float v of Inr x \<Rightarrow> x | Inl e \<Rightarrow> 0))"

definition new_field_confidence ::
  "string \<Rightarrow> pyval \<Rightarrow> pyval \<Rightarrow> field_source \<Rightarrow> f64 option \<Rightarrow> int \<Rightarrow> string list \<Rightarrow> pyerr + field_confidence" where
  "new_field_confidence name v conf src agreement pass_no fragments =
     (if (case agreement of Some a \<Rightarrow> unit_interval a | None \<Rightarrow> True) \<and> 1 \<le> pass_no
      then Inr \<lparr>fc_name = name, fc_value = v, fc_confidence = clamp_confidence conf, fc_source = src, fc_agreement = agreement,
                fc_pass = pass_no, fc_fragments = fragments\<rparr>
      else Inl ValueError)"

type_synonym confidence_map = "(string, field_confidence) dict"

definition fcm_set :: "field_confidence \<Rightarrow> confidence_map \<Rightarrow> confidence_map" where
  "fcm_set fc m = dset (fc_name fc) fc m"

definition merge_one :: "string \<times> field_confidence \<Rightarrow> confidence_map \<Rightarrow> confidence_map" where
  "merge_one p m =
     (case dget m (fst p) of
        None \<Rightarrow> dset (fst p) (snd p) m
      | Some e \<Rightarrow> if fc_confidence e < fc_confidence (snd p) then dset (fst p) (snd p) m else m)"

definition fcm_merge :: "confidence_map \<Rightarrow> confidence_map \<Rightarrow> confidence_map" where
  "fcm_merge m other = fold merge_one other m"

definition weakest_fields :: "confidence_map \<Rightarrow> nat \<Rightarrow> field_confidence list" where
  "weakest_fields m n = take n (sort_key fc_confidence (dvalues m))"

definition fields_below_threshold :: "confidence_map \<Rightarrow> f64 \<Rightarrow> field_confidence list" where
  "fields_below_threshold m t = filter (\<lambda>f. fc_confidence f < t) (dvalues m)"

definition fields_above_threshold :: "confidence_map \<Rightarrow> f64 \<Rightarrow> field_confidence list" where
  "fields_above_threshold m t = filter (\<lambda>f. t \<le> fc_confidence f) (dvalues m)"

text \<open>\<open>statistics.mean\<close> divides the exact sum and rounds once.\<close>

definition py_mean :: "f64 list \<Rightarrow> f64" where
  "py_mean xs = flt (sum_list (map to_rat xs) / of_nat (length xs))"

definition avg_confidence :: "confidence_map \<Rightarrow> f64" where
  "avg_confidence m = (if m = [] then 0 else py_mean (map fc_confidence (dvalues m)))"

definition coverage_ratio :: "confidence_map \<Rightarrow> int \<Rightarrow> f64" where
  "coverage_ratio m expected =
     (if expected \<le> 0 then 0 else py_int_div (int (length (filter (\<lambda>f. fc_value f \<noteq> PNone) (dvalues m)))) expected)"

definition confident_fields :: "confidence_map \<Rightarrow> f64 \<Rightarrow> fields" where
  "confident_fields m t = map (\<lambda>(k, f). (k, fc_value f)) (filter (\<lambda>(k, f). t \<le> fc_confidence f) m)"

definition source_breakdown :: "confidence_map \<Rightarrow> (field_source, nat) dict" where
  "source_breakdown m = tally (map fc_source (dvalues m))"

section \<open>Confidences from the payloads of a pass\<close>

definition reserved_keys :: "string list" where
  "reserved_keys = [''confidence'', ''tokens_used'', ''processing_time_ms'']"

text \<open>What one field was given: its values and the confidences of the payloads that have it, in their order.\<close>

definition observe_value :: "f64 \<Rightarrow> string \<times> pyval \<Rightarrow> (string, (pyval \<times> f64) list) dict \<Rightarrow> (string, (pyval \<times> f64) list) dict" where
  "observe_value conf p seen =
     (if fst p \<in> set reserved_keys then seen else dset (fst p) (dget_or seen (fst p) [] @ [(snd p, conf)]) seen)"

definition payload_confidence :: "fields \<Rightarrow> f64" where
  "payload_confidence payload = (case py_float (dget_or payload ''confidence'' (PFloat 0)) of Inr x \<Rightarrow> x | Inl e \<Rightarrow> 0)"

definition note_payload :: "fields \<Rightarrow> (string, (pyval \<times> f64) list) dict \<Rightarrow> (string, (pyval \<times> f64) list) dict" where
  "note_payload payload seen = fold (observe_value (payload_confidence payload)) payload seen"

definition value_key :: "(pyval \<Rightarrow> string) \<Rightarrow> pyval \<Rightarrow> string" where
  "value_key dump v = (case v of PList xs \<Rightarrow> dump v | PDict d \<Rightarrow> dump v | _ \<Rightarrow> py_str v)"

definition one_field_confidence ::
  "(pyval \<Rightarrow> string) \<Rightarrow> nat \<Rightarrow> f64 \<Rightarrow> int \<Rightarrow> string list \<Rightarrow> string \<Rightarrow> (pyval \<times> f64) list \<Rightarrow> pyerr + field_confidence" where
  "one_field_confidence dump valid penalty pass_no fragments name seen =
     (case vote_by (value_key dump) (map fst seen) of
        None \<Rightarrow> Inl ValueError
      | Some (winner, votes) \<Rightarrow>
          (let agreement = py_int_div (int (length seen)) (int valid);
               value_agreement = py_int_div (int votes) (int (length seen));
               combined = py_round 4 (agreement * py_mean (map snd seen) * penalty * value_agreement)
           in new_field_confidence name winner (PFloat combined) SrcEnrichment (Some (py_round 4 value_agreement)) pass_no fragments))"

definition compute_field_confidences ::
  "(pyval \<Rightarrow> string) \<Rightarrow> fields list \<Rightarrow> nat \<Rightarrow> int \<Rightarrow> string list \<Rightarrow> pyerr + confidence_map" where
  "compute_field_confidences dump payloads total_attempted pass_no fragments =
     (if payloads = [] then Inr []
      else (let valid = length payloads;
                penalty = py_int_div (int valid) (int (max total_attempted valid));
                seen = fold note_payload payloads []
            in bind_res (map_res (\<lambda>(name, vs). one_field_confidence dump valid penalty pass_no fragments name vs) seen) (\<lambda>fcs.
                 Inr (fold fcm_set fcs []))))"

section \<open>Evidence\<close>

datatype value_state = Observed | Reported | Inferred | UnknownState | NotApplicable | Stale | Conflicting | Superseded
datatype evidence_source = EvCrm | EvEnrichment | EvInference | EvManual | EvSeed | EvGraph | EvExternal
datatype provenance_type = PvOdoo | PvEnrichment | PvInference | PvManual | PvSeed | PvGraph | PvExternal
datatype value_kind = KString | KNumber | KBoolean | KStringList | KNull

record typed_value =
  tv_kind :: value_kind
  tv_value :: pyval

fun kind_fits :: "value_kind \<Rightarrow> pyval \<Rightarrow> bool" where
  "kind_fits KNull v = (v = PNone)"
| "kind_fits KString v = (case v of PStr s \<Rightarrow> True | _ \<Rightarrow> False)"
| "kind_fits KNumber v = (case v of PInt n \<Rightarrow> True | PFloat x \<Rightarrow> True | _ \<Rightarrow> False)"
| "kind_fits KBoolean v = (case v of PBool b \<Rightarrow> True | _ \<Rightarrow> False)"
| "kind_fits KStringList v = (case v of PList xs \<Rightarrow> list_all (\<lambda>x. case x of PStr s \<Rightarrow> True | _ \<Rightarrow> False) xs | _ \<Rightarrow> False)"

definition new_typed_value :: "value_kind \<Rightarrow> pyval \<Rightarrow> pyerr + typed_value" where
  "new_typed_value k v = (if kind_fits k v then Inr \<lparr>tv_kind = k, tv_value = v\<rparr> else Inl ValueError)"

definition typed_value_from_raw :: "pyval \<Rightarrow> pyerr + typed_value" where
  "typed_value_from_raw raw =
     (case raw of
        PNone \<Rightarrow> new_typed_value KNull PNone
      | PBool b \<Rightarrow> new_typed_value KBoolean raw
      | PInt n \<Rightarrow> new_typed_value KNumber raw
      | PFloat x \<Rightarrow> new_typed_value KNumber raw
      | PList xs \<Rightarrow> if kind_fits KStringList raw then new_typed_value KStringList raw else new_typed_value KString (PStr (py_str raw))
      | _ \<Rightarrow> new_typed_value KString (PStr (py_str raw)))"

record provenance =
  pv_source :: provenance_type
  pv_ref :: string
  pv_method :: string
  pv_version :: "string option"

record feature_evidence =
  fe_feature :: string
  fe_subject :: string
  fe_value :: typed_value
  fe_unit :: "string option"
  fe_state :: value_state
  fe_confidence :: f64
  fe_source :: evidence_source
  fe_method :: string
  fe_observed :: rat
  fe_provenance :: provenance
  fe_evidence_ref :: "string option"
  fe_conflicts :: "string list"
  fe_execution :: string

text \<open>The patterns of a feature and an entity reference.\<close>

definition lower_digit :: "char \<Rightarrow> bool" where
  "lower_digit c = (let n = code c in (97 \<le> n \<and> n \<le> 122) \<or> (48 \<le> n \<and> n \<le> 57))"

definition slug_char :: "char \<Rightarrow> bool" where
  "slug_char c \<longleftrightarrow> lower_digit c \<or> c = CHR ''_'' \<or> c = CHR ''-''"

definition feature_id_ok :: "string \<Rightarrow> bool" where
  "feature_id_ok s =
     (case split_on (CHR ''.'') s of
        p # q # qs \<Rightarrow> p \<noteq> [] \<and> 97 \<le> code (hd p) \<and> code (hd p) \<le> 122 \<and> list_all slug_char p \<and>
          list_all (\<lambda>x. x \<noteq> [] \<and> list_all slug_char x) (q # qs)
      | _ \<Rightarrow> False)"

definition regex_space :: "char \<Rightarrow> bool" where
  "regex_space c = (let n = code c in (9 \<le> n \<and> n \<le> 13) \<or> n = 32 \<or> n = 133 \<or> n = 160)"

definition entity_ref_ok :: "string \<Rightarrow> bool" where
  "entity_ref_ok s =
     (let kind = takeWhile (\<lambda>c. c \<noteq> CHR '':'') s; rest = drop (Suc (length kind)) s
      in kind \<noteq> [] \<and> list_all (\<lambda>c. slug_char c \<or> c = CHR ''.'') kind \<and> rest \<noteq> [] \<and> \<not> list_ex regex_space rest)"

definition evidence_ok :: "feature_evidence \<Rightarrow> bool" where
  "evidence_ok e \<longleftrightarrow>
     feature_id_ok (fe_feature e) \<and> entity_ref_ok (fe_subject e) \<and> unit_interval (fe_confidence e) \<and> fe_method e \<noteq> [] \<and>
     pv_ref (fe_provenance e) \<noteq> [] \<and> pv_method (fe_provenance e) \<noteq> [] \<and>
     (case fe_evidence_ref e of Some r \<Rightarrow> entity_ref_ok r | None \<Rightarrow> True) \<and> distinct (fe_conflicts e) \<and> fe_execution e \<noteq> [] \<and>
     (fe_state e = Inferred \<longrightarrow> pv_version (fe_provenance e) \<notin> {None, Some []})"

fun source_from_field :: "field_source \<Rightarrow> evidence_source" where
  "source_from_field SrcCrm = EvCrm"
| "source_from_field SrcEnrichment = EvEnrichment"
| "source_from_field SrcInference = EvInference"
| "source_from_field SrcManual = EvManual"
| "source_from_field SrcSeed = EvSeed"

fun provenance_from_source :: "evidence_source \<Rightarrow> pyerr + provenance_type" where
  "provenance_from_source EvCrm = Inr PvOdoo"
| "provenance_from_source EvEnrichment = Inr PvEnrichment"
| "provenance_from_source EvInference = Inr PvInference"
| "provenance_from_source EvManual = Inr PvManual"
| "provenance_from_source EvSeed = Inr PvSeed"
| "provenance_from_source _ = Inl KeyError"

record evidence_call =
  ec_subject :: string
  ec_feature :: "string option"
  ec_state :: "value_state option"
  ec_observed :: rat
  ec_execution :: string
  ec_source_ref :: string
  ec_version :: "string option"
  ec_unit :: "string option"
  ec_evidence_ref :: "string option"

definition blank_opt :: "string option \<Rightarrow> bool" where
  "blank_opt s \<longleftrightarrow> s = None \<or> s = Some []"

definition feature_id_of :: "string option \<Rightarrow> string \<Rightarrow> string" where
  "feature_id_of given name =
     (let fid = (case given of Some s \<Rightarrow> if s \<noteq> [] then s else map (\<lambda>c. if c = CHR ''-'' then CHR ''_'' else c) name
                 | None \<Rightarrow> map (\<lambda>c. if c = CHR ''-'' then CHR ''_'' else c) name)
      in if CHR ''.'' \<in> set fid then fid else ''field.'' @ fid)"

definition feature_evidence_from_field_confidence :: "evidence_call \<Rightarrow> field_confidence \<Rightarrow> pyerr + feature_evidence" where
  "feature_evidence_from_field_confidence c f =
     (let state = (case ec_state c of Some s \<Rightarrow> s | None \<Rightarrow> if fc_source f = SrcInference then Inferred else Observed);
          how = (if fc_fragments f \<noteq> [] then join '','' (take 3 (fc_fragments f)) else ''field_confidence_adapter'')
      in bind_res (provenance_from_source (source_from_field (fc_source f))) (\<lambda>pv.
         let version = (if state = Inferred \<and> blank_opt (ec_version c) \<and> fc_fragments f \<noteq> [] then Some (hd (fc_fragments f)) else ec_version c)
         in bind_res (typed_value_from_raw (fc_value f)) (\<lambda>tv.
            let e = \<lparr>fe_feature = feature_id_of (ec_feature c) (fc_name f), fe_subject = ec_subject c, fe_value = tv,
                     fe_unit = ec_unit c, fe_state = state, fe_confidence = fc_confidence f, fe_source = source_from_field (fc_source f),
                     fe_method = how, fe_observed = ec_observed c,
                     fe_provenance = \<lparr>pv_source = pv, pv_ref = ec_source_ref c, pv_method = how, pv_version = version\<rparr>,
                     fe_evidence_ref = ec_evidence_ref c, fe_conflicts = [], fe_execution = ec_execution c\<rparr>
            in if evidence_ok e then Inr e else Inl ValueError)))"

definition compile_one ::
  "string \<Rightarrow> string \<Rightarrow> string \<Rightarrow> rat \<Rightarrow> (string, string) dict \<Rightarrow> (string, string option) dict \<Rightarrow> string \<times> field_confidence \<Rightarrow>
     pyerr + feature_evidence" where
  "compile_one subject execution source_ref stamp mapping units p =
     (let fid = dget mapping (fst p);
          u = (if \<not> blank_opt fid then dget_or units (the fid) None else dget_or units (fst p) None)
      in feature_evidence_from_field_confidence
           \<lparr>ec_subject = subject, ec_feature = fid, ec_state = None, ec_observed = stamp, ec_execution = execution,
            ec_source_ref = source_ref, ec_version = None, ec_unit = u, ec_evidence_ref = None\<rparr> (snd p))"

definition compile_field_confidence_map ::
  "string \<Rightarrow> string \<Rightarrow> string \<Rightarrow> rat \<Rightarrow> (string, string) dict \<Rightarrow> (string, string option) dict \<Rightarrow> confidence_map \<Rightarrow>
     pyerr + feature_evidence list" where
  "compile_field_confidence_map subject execution source_ref stamp mapping units m =
     map_res (compile_one subject execution source_ref stamp mapping units) m"

section \<open>Merging\<close>

lemma merge_one_get:
  "dget (merge_one p m) f =
     (if fst p \<noteq> f then dget m f
      else (case dget m f of None \<Rightarrow> Some (snd p) | Some e \<Rightarrow> if fc_confidence e < fc_confidence (snd p) then Some (snd p) else Some e))"
  by (auto simp: merge_one_def dict_simps split: option.splits)

lemma merge_get:
  assumes "dict_ok other"
  shows "dget (fcm_merge m other) f =
    (case dget other f of
       None \<Rightarrow> dget m f
     | Some b \<Rightarrow> (case dget m f of None \<Rightarrow> Some b | Some a \<Rightarrow> if fc_confidence a < fc_confidence b then Some b else Some a))"
  using assms
proof (induction other arbitrary: m)
  case (Cons p other)
  have none: "dget other (fst p) = None" using Cons.prems by (auto simp: map_of_eq_None_iff)
  have "dget (fcm_merge m (p # other)) f = dget (fcm_merge (merge_one p m) other) f" by (simp add: fcm_merge_def)
  also have "\<dots> = (case dget other f of None \<Rightarrow> dget (merge_one p m) f
      | Some b \<Rightarrow> (case dget (merge_one p m) f of None \<Rightarrow> Some b | Some a \<Rightarrow> if fc_confidence a < fc_confidence b then Some b else Some a))"
    using Cons by simp
  finally show ?case using none by (cases "fst p = f") (auto simp: merge_one_get split: option.splits)
qed (simp add: fcm_merge_def)

text \<open>
  Merging confidence maps keeps the better record. A field of either map is in the result with the
  record of the higher confidence (the present one on a tie), no other field is; so merging the same map
  again changes no lookup, and no confidence is ever lowered.
\<close>

theorem merge_keeps_best:
  assumes "dict_ok other"
  shows "dget (fcm_merge m other) f =
      (case (dget m f, dget other f) of
         (None, x) \<Rightarrow> x | (Some a, None) \<Rightarrow> Some a
       | (Some a, Some b) \<Rightarrow> if fc_confidence a < fc_confidence b then Some b else Some a) \<and>
    dget (fcm_merge (fcm_merge m other) other) f = dget (fcm_merge m other) f"
  using assms by (auto simp: merge_get split: option.splits)

definition record_of :: "string \<Rightarrow> f64 \<Rightarrow> field_confidence" where
  "record_of name c = \<lparr>fc_name = name, fc_value = PInt 1, fc_confidence = c, fc_source = SrcCrm, fc_agreement = None, fc_pass = 1, fc_fragments = []\<rparr>"

theorem merge_keeps_best_witness:
  "dget (fcm_merge [(''mfi'', record_of ''mfi'' 0)] [(''mfi'', record_of ''mfi'' 1)]) ''mfi'' = Some (record_of ''mfi'' 1)"
  using merge_keeps_best [of "[(''mfi'', record_of ''mfi'' 1)]" "[(''mfi'', record_of ''mfi'' 0)]" "''mfi''"]
  by (simp add: record_of_def)

section \<open>What the payloads of a pass say\<close>

definition observed :: "string \<Rightarrow> fields list \<Rightarrow> (pyval \<times> f64) list" where
  "observed f payloads = List.map_filter (\<lambda>p. if f \<in> set reserved_keys then None else map_option (\<lambda>v. (v, payload_confidence p)) (dget p f)) payloads"

lemma note_values_get:
  "dict_ok p \<Longrightarrow> dget_or (fold (observe_value c) p seen) f [] =
     dget_or seen f [] @ (if f \<in> set reserved_keys then [] else case dget p f of Some v \<Rightarrow> [(v, c)] | None \<Rightarrow> [])"
proof (induction p arbitrary: seen)
  case (Cons kv p)
  obtain k v where kv: "kv = (k, v)" by (cases kv)
  have "dget p k = None" using Cons.prems kv by (simp add: map_of_eq_None_iff)
  then show ?case using Cons.IH [of "observe_value c kv seen"] Cons.prems kv
    by (auto simp: observe_value_def dict_simps split: option.splits)
qed simp

lemma note_payloads_get:
  "list_all dict_ok ps \<Longrightarrow> dget_or (fold note_payload ps seen) f [] = dget_or seen f [] @ observed f ps"
proof (induction ps arbitrary: seen)
  case (Cons p ps)
  then show ?case using note_values_get [of p "payload_confidence p" seen f]
    by (simp add: note_payload_def observed_def map_filter_simps split: option.splits)
qed (simp add: observed_def map_filter_simps)

definition seen_ok :: "(string, (pyval \<times> f64) list) dict \<Rightarrow> bool" where
  "seen_ok seen \<longleftrightarrow> dict_ok seen \<and> (\<forall>vs \<in> set (dvalues seen). vs \<noteq> [])"

lemma observe_value_ok: "seen_ok seen \<Longrightarrow> seen_ok (observe_value c p seen)"
  using dvalues_dset [of "fst p" "dget_or seen (fst p) [] @ [(snd p, c)]" seen]
  unfolding seen_ok_def observe_value_def by (auto simp del: set_map intro: distinct_update)

lemma note_payloads_ok: "seen_ok seen \<Longrightarrow> seen_ok (fold note_payload ps seen)"
proof (induction ps arbitrary: seen)
  case (Cons p ps)
  have "seen_ok (fold (observe_value c) q seen)" for c q using Cons.prems by (induction q arbitrary: seen) (simp_all add: observe_value_ok)
  with Cons show ?case by (simp add: note_payload_def)
qed simp

lemma seen_items:
  assumes "list_all dict_ok ps"
  shows "(f, vs) \<in> set (fold note_payload ps []) \<longleftrightarrow> vs = observed f ps \<and> vs \<noteq> []"
proof -
  have ok: "seen_ok (fold note_payload ps [])" by (rule note_payloads_ok) (simp add: seen_ok_def)
  then have "(f, vs) \<in> set (fold note_payload ps []) \<longleftrightarrow> dget (fold note_payload ps []) f = Some vs" by (simp add: seen_ok_def)
  also have "\<dots> \<longleftrightarrow> vs = observed f ps \<and> vs \<noteq> []"
    using note_payloads_get [OF assms, of "[]" f] ok
    by (cases "dget (fold note_payload ps []) f") (auto simp: dget_or_def seen_ok_def dest: map_of_SomeD)
  finally show ?thesis .
qed

lemma unit_of_ratio: "0 \<le> a \<Longrightarrow> a \<le> b \<Longrightarrow> unit_interval (py_round 4 (py_int_div a b))"
  using py_int_div_bounds [of a b] by (simp add: unit_interval_def py_round_nonneg py_round_le_1)

lemma clamp_unit: "unit_interval (clamp_confidence v)"
  by (simp add: clamp_confidence_def unit_interval_def)

lemma field_confidence_shape:
  assumes "seen \<noteq> []" and "1 \<le> pass_no"
  shows "\<exists>fc. one_field_confidence dump valid penalty pass_no fragments name seen = Inr fc \<and> fc_name fc = name \<and>
    fc_value fc \<in> fst ` set seen \<and> unit_interval (fc_confidence fc) \<and> fc_source fc = SrcEnrichment \<and> fc_pass fc = pass_no \<and>
    fc_agreement fc = Some (py_round 4 (py_int_div (int (count_list (map (value_key dump) (map fst seen)) (value_key dump (fc_value fc)))) (int (length seen)))) \<and>
    (\<forall>k. count_list (map (value_key dump) (map fst seen)) k \<le> count_list (map (value_key dump) (map fst seen)) (value_key dump (fc_value fc)))"
proof -
  obtain v n where e: "vote_by (value_key dump) (map fst seen) = Some (v, n)"
    using counter_vote.elects [of "map fst seen" "value_key dump"] assms(1) by auto
  note el = counter_vote.elected [OF e]
  have "unit_interval (py_round 4 (py_int_div (int n) (int (length seen))))" using el(4) by (intro unit_of_ratio) simp_all
  then show ?thesis
    using e el(1,2) assms(2) counter_vote.most_votes [OF e] clamp_unit
    by (auto simp: one_field_confidence_def new_field_confidence_def Let_def)
qed

lemma fold_fcm_set:
  "distinct (dkeys m @ map fc_name ys) \<Longrightarrow> fold fcm_set ys m = m @ map (\<lambda>fc. (fc_name fc, fc)) ys"
proof (induction ys arbitrary: m)
  case (Cons y ys)
  have "fc_name y \<notin> set (dkeys m)" using Cons.prems by auto
  then have "fcm_set y m = m @ [(fc_name y, y)]" unfolding fcm_set_def by (induction m) auto
  with Cons show ?case by simp
qed simp

lemma record_keys:
  assumes "list_all2 (\<lambda>p fc. one p = Inr fc) seen ys" and "\<And>p fc. one p = Inr fc \<Longrightarrow> p \<in> set seen \<Longrightarrow> fc_name fc = fst p"
  shows "dkeys (map (\<lambda>fc. (fc_name fc, fc)) ys) = dkeys seen"
  using assms by (induction rule: list_all2_induct) auto

lemma record_origin:
  assumes "list_all2 (\<lambda>p fc. one p = Inr fc) seen ys" and "\<And>p fc. one p = Inr fc \<Longrightarrow> p \<in> set seen \<Longrightarrow> fc_name fc = fst p"
    and "dget (map (\<lambda>fc. (fc_name fc, fc)) ys) f = Some fc"
  shows "\<exists>vs. (f, vs) \<in> set seen \<and> one (f, vs) = Inr fc"
proof -
  have "fc \<in> set ys \<and> fc_name fc = f" using map_of_SomeD [OF assms(3)] by auto
  then obtain i where i: "i < length ys" "ys ! i = fc" "fc_name fc = f" by (auto simp: in_set_conv_nth)
  then have "one (seen ! i) = Inr fc" "seen ! i \<in> set seen" using assms(1) by (auto simp: list_all2_conv_all_nth)
  with assms(2) i show ?thesis by (metis prod.collapse)
qed

lemma record_exact:
  assumes "list_all dict_ok payloads" and "1 \<le> pass_no" and vs: "(f, vs) \<in> set (fold note_payload payloads [])"
    and one: "one_field_confidence dump valid q pass_no fragments f vs = Inr fc"
  shows "fc_name fc = f \<and> unit_interval (fc_confidence fc) \<and> fc_value fc \<in> fst ` set (observed f payloads) \<and>
    (let keys = map (value_key dump) (map fst (observed f payloads))
     in (\<forall>k. count_list keys k \<le> count_list keys (value_key dump (fc_value fc))) \<and>
        fc_agreement fc = Some (py_round 4 (py_int_div (int (count_list keys (value_key dump (fc_value fc)))) (int (length keys)))))"
proof -
  have o: "vs = observed f payloads" "vs \<noteq> []" using seen_items [OF assms(1)] vs by auto
  show ?thesis
    using field_confidence_shape [OF o(2) assms(2), of dump valid q fragments f] one by (auto simp: Let_def o(1))
qed

text \<open>
  C23: the confidences computed from the payloads of a pass are exact. For payloads that are dictionaries and
  a pass number from one on there is a record for exactly the keys some payload gives that are not reserved;
  its value is one of those given for the key and has the most votes, its agreement is the rounded share of
  these votes, and its confidence lies between 0 and 1, whatever the payloads claim.
\<close>

theorem field_confidences_exact:
  assumes "list_all dict_ok payloads" and "1 \<le> pass_no"
  shows "\<exists>m. compute_field_confidences dump payloads attempted pass_no fragments = Inr m \<and> dict_ok m \<and>
    set (dkeys m) = {f. observed f payloads \<noteq> []} \<and>
    (\<forall>f fc. dget m f = Some fc \<longrightarrow> fc_name fc = f \<and> unit_interval (fc_confidence fc) \<and> fc_value fc \<in> fst ` set (observed f payloads) \<and>
       (let keys = map (value_key dump) (map fst (observed f payloads))
        in (\<forall>k. count_list keys k \<le> count_list keys (value_key dump (fc_value fc))) \<and>
           fc_agreement fc = Some (py_round 4 (py_int_div (int (count_list keys (value_key dump (fc_value fc)))) (int (length keys))))))"
proof (cases "payloads = []")
  case True
  then show ?thesis by (simp add: compute_field_confidences_def observed_def map_filter_simps)
next
  case False
  let ?seen = "fold note_payload payloads []"
  let ?valid = "length payloads"
  let ?one = "\<lambda>(name, vs). one_field_confidence dump ?valid (py_int_div (int ?valid) (int (max attempted ?valid))) pass_no fragments name vs"
  note items = seen_items [OF assms(1)]
  have ok: "seen_ok ?seen" by (rule note_payloads_ok) (simp add: seen_ok_def)
  have each: "\<exists>fc. ?one p = Inr fc" if p: "p \<in> set ?seen" for p
  proof (cases p)
    case (Pair f vs)
    with p items have "vs \<noteq> []" by blast
    from field_confidence_shape [OF this assms(2)] Pair show ?thesis by (metis prod.case)
  qed
  then obtain ys where ys: "map_res ?one ?seen = Inr ys"
    using map_res_total [of ?one ?seen] by (auto simp: list_all_iff)
  then have rel: "list_all2 (\<lambda>p fc. ?one p = Inr fc) ?seen ys" by (simp add: map_res_Inr)
  have shape: "fc_name fc = fst p" if p: "?one p = Inr fc" "p \<in> set ?seen" for p fc
  proof (cases p)
    case (Pair f vs)
    with p items have "vs \<noteq> []" by blast
    from field_confidence_shape [OF this assms(2)] Pair p show ?thesis by (metis prod.case fst_conv sum.inject(2))
  qed
  let ?m = "map (\<lambda>fc. (fc_name fc, fc)) ys"
  have keys: "dkeys ?m = dkeys ?seen" by (rule record_keys [OF rel shape])
  note inner = record_origin [OF rel shape]
  have run: "compute_field_confidences dump payloads attempted pass_no fragments = Inr ?m"
    using False ys ok keys by (simp add: compute_field_confidences_def Let_def fold_fcm_set seen_ok_def comp_def)
  show ?thesis
  proof (intro exI conjI allI impI)
    show "dict_ok ?m" using ok keys by (simp add: seen_ok_def)
    show "set (dkeys ?m) = {f. observed f payloads \<noteq> []}"
      unfolding keys using items by (force simp: image_iff)
  next
    fix f fc assume "dget ?m f = Some fc"
    then obtain vs where vs: "(f, vs) \<in> set ?seen" "?one (f, vs) = Inr fc" using inner by blast
    from record_exact [OF assms vs(1) vs(2) [unfolded prod.case]]
    show "fc_name fc = f" "unit_interval (fc_confidence fc)" "fc_value fc \<in> fst ` set (observed f payloads)"
      "let keys = map (value_key dump) (map fst (observed f payloads))
        in (\<forall>k. count_list keys k \<le> count_list keys (value_key dump (fc_value fc))) \<and>
           fc_agreement fc = Some (py_round 4 (py_int_div (int (count_list keys (value_key dump (fc_value fc)))) (int (length keys))))"
      by blast+
  qed (rule run)
qed

theorem field_confidences_exact_witness:
  "\<exists>m. compute_field_confidences py_str [[(''mfi'', PInt 1)], [(''mfi'', PInt 2)], [(''mfi'', PInt 2)]] 4 1 [] = Inr m \<and>
     set (dkeys m) = {''mfi''} \<and> (\<forall>fc. dget m ''mfi'' = Some fc \<longrightarrow> fc_value fc \<in> {PInt 1, PInt 2})"
proof -
  let ?ps = "[[(''mfi'', PInt 1)], [(''mfi'', PInt 2)], [(''mfi'', PInt 2)]] :: fields list"
  have "observed f ?ps \<noteq> [] \<longleftrightarrow> f = ''mfi''" for f by (auto simp: observed_def map_filter_simps reserved_keys_def)
  then have one: "{f. observed f ?ps \<noteq> []} = {''mfi''}" by simp
  have "fst ` set (observed ''mfi'' ?ps) = {PInt 1, PInt 2}" by (auto simp: observed_def map_filter_simps reserved_keys_def)
  moreover have "list_all dict_ok ?ps" by simp
  from field_confidences_exact [OF this, of 1 py_str 4 "[]"] obtain m where
    "compute_field_confidences py_str ?ps 4 1 [] = Inr m" "set (dkeys m) = {f. observed f ?ps \<noteq> []}"
    "\<And>fc. dget m ''mfi'' = Some fc \<Longrightarrow> fc_value fc \<in> fst ` set (observed ''mfi'' ?ps)"
    by (auto simp del: set_map)
  ultimately show ?thesis using one by (intro exI [of _ m]) simp
qed

section \<open>Evidence says where it comes from\<close>

lemma typed_value_fits: "typed_value_from_raw raw = Inr tv \<Longrightarrow> kind_fits (tv_kind tv) (tv_value tv)"
  by (auto simp: typed_value_from_raw_def new_typed_value_def split: pyval.splits if_splits)

lemma typed_value_total: "\<exists>tv. typed_value_from_raw raw = Inr tv"
  by (cases raw) (simp_all add: typed_value_from_raw_def new_typed_value_def)

lemma provenance_of_field: "\<exists>pv. provenance_from_source (source_from_field src) = Inr pv"
  by (cases src) simp_all

definition evidence_of :: "string \<Rightarrow> string \<Rightarrow> rat \<Rightarrow> field_confidence \<Rightarrow> feature_evidence \<Rightarrow> bool" where
  "evidence_of subject execution stamp f e \<longleftrightarrow>
     evidence_ok e \<and> fe_subject e = subject \<and> fe_execution e = execution \<and> fe_observed e = stamp \<and>
     fe_confidence e = fc_confidence f \<and> fe_source e = source_from_field (fc_source f) \<and>
     kind_fits (tv_kind (fe_value e)) (tv_value (fe_value e)) \<and> fe_state e = (if fc_source f = SrcInference then Inferred else Observed) \<and>
     (fc_source f = SrcInference \<longrightarrow> fc_fragments f \<noteq> [] \<and> pv_version (fe_provenance e) = Some (hd (fc_fragments f)))"

lemma compile_one_evidence:
  assumes "compile_one subject execution source_ref stamp mapping units p = Inr e"
  shows "evidence_of subject execution stamp (snd p) e"
proof -
  let ?f = "snd p"
  obtain pv where pv: "provenance_from_source (source_from_field (fc_source ?f)) = Inr pv" using provenance_of_field by blast
  obtain tv where tv: "typed_value_from_raw (fc_value ?f) = Inr tv" using typed_value_total by blast
  note fits = typed_value_fits [OF tv]
  show ?thesis
  proof (cases "fc_source ?f = SrcInference")
    case True
    then show ?thesis using assms pv tv fits
      by (cases "fc_fragments ?f = []")
         (auto simp: compile_one_def feature_evidence_from_field_confidence_def evidence_of_def Let_def blank_opt_def
            evidence_ok_def split: if_splits)
  next
    case False
    then show ?thesis using assms pv tv fits
      by (auto simp: compile_one_def feature_evidence_from_field_confidence_def evidence_of_def Let_def split: if_splits)
  qed
qed

text \<open>
  Compiled evidence is attributed. When a confidence map compiles, each field has exactly one record of
  evidence, in order, that satisfies the contract of the model, carries the confidence and the source of its
  field, the subject and the execution of the call, a value of the kind it declares, and, for an inferred
  field, the rule that inferred it.
\<close>

theorem compiled_evidence_attributed:
  assumes "compile_field_confidence_map subject execution source_ref stamp mapping units m = Inr es"
  shows "list_all2 (\<lambda>(name, f) e. evidence_of subject execution stamp f e) m es"
proof -
  from assms have "list_all2 (\<lambda>p e. compile_one subject execution source_ref stamp mapping units p = Inr e) m es"
    by (simp add: compile_field_confidence_map_def map_res_Inr)
  then show ?thesis by (rule list_all2_mono) (auto dest: compile_one_evidence)
qed

definition inferred_record :: "string \<Rightarrow> string list \<Rightarrow> field_confidence" where
  "inferred_record name rules = (record_of name 1)\<lparr>fc_source := SrcInference, fc_fragments := rules\<rparr>"

lemma compiles_inferred:
  "\<exists>es. compile_field_confidence_map ''company:1'' ''x'' ''r'' 0 [] [] [(''mfi'', inferred_record ''mfi'' [''rule7''])] = Inr es"
proof -
  have "\<not> isl (compile_field_confidence_map ''company:1'' ''x'' ''r'' 0 [] [] [(''mfi'', inferred_record ''mfi'' [''rule7''])])" by code_simp
  then show ?thesis by (metis isl_def sum.exhaust)
qed

theorem compiled_evidence_attributed_witness:
  "\<exists>es. compile_field_confidence_map ''company:1'' ''x'' ''r'' 0 [] [] [(''mfi'', inferred_record ''mfi'' [''rule7''])] = Inr es \<and>
     list_all2 (\<lambda>(name, f) e. evidence_of ''company:1'' ''x'' 0 f e) [(''mfi'', inferred_record ''mfi'' [''rule7''])] es"
  using compiles_inferred compiled_evidence_attributed [of "''company:1''" "''x''" "''r''" 0 "[]" "[]"] by blast

text \<open>One field that cannot be attributed loses the evidence of all: an inferred one without a rule, or a name in upper case.\<close>

theorem one_field_aborts_the_evidence:
  "compile_field_confidence_map ''company:1'' ''x'' ''r'' 0 [] []
       [(''mfi'', record_of ''mfi'' 1), (''grade'', inferred_record ''grade'' [])] = Inl ValueError \<and>
   compile_field_confidence_map ''company:1'' ''x'' ''r'' 0 [] [] [(''mfi'', record_of ''mfi'' 1), (''MFI'', record_of ''MFI'' 1)] = Inl ValueError"
  by (intro conjI; code_simp)

end
