(* ===== verification/LoopStore.thy ===== *)
theory LoopStore
  imports FieldEvidence Schemas
begin

text \<open>
  \<open>app/engines/convergence/loop_state.py\<close> and the in-memory store of \<open>app/main.py\<close>: checkpoints of
  convergence runs in Redis, in PostgreSQL or in the process, and the resumption of a run. The JSON text of a
  state is read back as the state (pydantic); times are seconds. What the three stores share is the locale
  \<open>checkpoint_store\<close>, interpreted on each of them.
\<close>

datatype loop_status = RunActive | RunConverged | RunBudgetExhausted | RunMaxPasses | RunDiminishing | RunHumanHold | RunFailed

record run_state =
  ls_run :: string
  ls_entity :: string
  ls_domain :: string
  ls_status :: loop_status
  ls_pass :: int
  ls_fields :: fields
  ls_confidences :: confidence_map
  ls_failure :: string
  ls_created :: int
  ls_updated :: int

definition touch :: "int \<Rightarrow> run_state \<Rightarrow> run_state" where
  "touch now s = s\<lparr>ls_updated := now\<rparr>"

text \<open>\<open>resume\<close> of the base class, over the \<open>load\<close> of a store.\<close>

definition resume_from :: "run_state option \<Rightarrow> run_state option" where
  "resume_from loaded = (case loaded of Some s \<Rightarrow> if ls_status s = RunActive then Some s else None | None \<Rightarrow> None)"

section \<open>Redis\<close>

record redis_entry =
  re_state :: run_state
  re_expires :: int

type_synonym redis = "(string, redis_entry) dict"

definition redis_prefix :: string where
  "redis_prefix = ''enrich:loop:''"

definition redis_save :: "int \<Rightarrow> int \<Rightarrow> run_state \<Rightarrow> redis \<Rightarrow> redis" where
  "redis_save ttl now s db = dset (redis_prefix @ ls_run s) \<lparr>re_state = touch now s, re_expires = now + ttl\<rparr> db"

definition redis_get :: "int \<Rightarrow> string \<Rightarrow> redis \<Rightarrow> run_state option" where
  "redis_get now key db =
     (case dget db key of Some e \<Rightarrow> if now < re_expires e then Some (re_state e) else None | None \<Rightarrow> None)"

definition redis_load :: "int \<Rightarrow> string \<Rightarrow> redis \<Rightarrow> run_state option" where
  "redis_load now run db = redis_get now (redis_prefix @ run) db"

text \<open>The keys a scan returns, in an order that is not fixed; a key may expire between the scan and the read.\<close>

definition redis_list_active :: "(string list \<Rightarrow> string list) \<Rightarrow> int \<Rightarrow> string option \<Rightarrow> redis \<Rightarrow> run_state list" where
  "redis_list_active ord now domain_id db =
     (let keys = ord (filter (\<lambda>k. take (length redis_prefix) k = redis_prefix) (dkeys db))
      in filter (\<lambda>s. ls_status s = RunActive \<and> (case domain_id of Some d \<Rightarrow> d = [] \<or> ls_domain s = d | None \<Rightarrow> True))
           (List.map_filter (\<lambda>k. redis_get now k db) keys))"

section \<open>PostgreSQL\<close>

record loop_row =
  rr_run :: string
  rr_entity :: string
  rr_domain :: string
  rr_status :: loop_status
  rr_payload :: run_state
  rr_created :: int
  rr_updated :: int

type_synonym run_table = "(string, loop_row) dict"

definition pg_save :: "int \<Rightarrow> run_state \<Rightarrow> run_table \<Rightarrow> run_table" where
  "pg_save now s0 db =
     (let s = touch now s0
      in case dget db (ls_run s) of
           None \<Rightarrow> dset (ls_run s) \<lparr>rr_run = ls_run s, rr_entity = ls_entity s, rr_domain = ls_domain s, rr_status = ls_status s,
                                    rr_payload = s, rr_created = ls_created s, rr_updated = ls_updated s\<rparr> db
         | Some r \<Rightarrow> dset (ls_run s) (r\<lparr>rr_status := ls_status s, rr_payload := s, rr_updated := ls_updated s\<rparr>) db)"

definition pg_load :: "string \<Rightarrow> run_table \<Rightarrow> run_state option" where
  "pg_load run db = map_option rr_payload (dget db run)"

definition pg_list_active :: "string option \<Rightarrow> run_table \<Rightarrow> run_state list" where
  "pg_list_active domain_id db =
     map rr_payload (take 500 (sort_desc rr_updated
       (filter (\<lambda>r. rr_status r = RunActive \<and> (case domain_id of Some d \<Rightarrow> d = [] \<or> rr_domain r = d | None \<Rightarrow> True)) (dvalues db))))"

section \<open>In the process\<close>

text \<open>
  The source keeps the state object itself, so that a later change of it is seen without a save; here the value
  at the save is kept. Every handler saves after its last change, so both read the same.
\<close>

definition mem_save :: "run_state \<Rightarrow> (string, run_state) dict \<Rightarrow> (string, run_state) dict" where
  "mem_save s db = dset (ls_run s) s db"

definition mem_load :: "string \<Rightarrow> (string, run_state) dict \<Rightarrow> run_state option" where
  "mem_load run db = dget db run"

definition mem_list_active :: "string option \<Rightarrow> (string, run_state) dict \<Rightarrow> run_state list" where
  "mem_list_active domain_id db = filter (\<lambda>s. case domain_id of Some d \<Rightarrow> ls_domain s = d | None \<Rightarrow> True) (dvalues db)"

section \<open>The contract of a store\<close>

text \<open>
  Time passes between operations. \<open>kept t now\<close> says that what was saved at \<open>t\<close> is still there; \<open>seen t s\<close> is the state a
  later load returns for \<open>s\<close> saved at \<open>t\<close>.
\<close>

locale checkpoint_store =
  fixes save :: "int \<Rightarrow> run_state \<Rightarrow> 'd \<Rightarrow> 'd"
    and load :: "int \<Rightarrow> string \<Rightarrow> 'd \<Rightarrow> run_state option"
    and start :: 'd
    and kept :: "int \<Rightarrow> int \<Rightarrow> bool"
    and seen :: "int \<Rightarrow> run_state \<Rightarrow> run_state"
  assumes load_saved: "load now (ls_run s) (save t s db) = (if kept t now then Some (seen t s) else None)"
    and load_other: "run \<noteq> ls_run s \<Longrightarrow> load now run (save t s db) = load now run db"
    and load_start: "load now run start = None"
    and seen_status: "ls_status (seen t s) = ls_status s"
    and seen_pass: "ls_pass (seen t s) = ls_pass s"
    and seen_fields: "ls_fields (seen t s) = ls_fields s"
begin

text \<open>A history of saves, the latest last.\<close>

definition after_saves :: "(int \<times> run_state) list \<Rightarrow> 'd" where
  "after_saves hist = fold (\<lambda>(t, s). save t s) hist start"

definition latest :: "string \<Rightarrow> (int \<times> run_state) list \<Rightarrow> (int \<times> run_state) option" where
  "latest run hist = List.find (\<lambda>(t, s). ls_run s = run) (rev hist)"

lemma load_latest:
  "load now run (after_saves hist) =
     (case latest run hist of None \<Rightarrow> None | Some (t, s) \<Rightarrow> if kept t now then Some (seen t s) else None)"
proof (induction hist rule: rev_induct)
  case (snoc x hist)
  obtain t s where x: "x = (t, s)" by (cases x)
  show ?case
  proof (cases "ls_run s = run")
    case True
    then show ?thesis using load_saved [of now s t "after_saves hist"] x by (simp add: after_saves_def latest_def)
  next
    case False
    then show ?thesis using load_other [of run s now t "after_saves hist"] snoc x by (simp add: after_saves_def latest_def)
  qed
qed (simp add: after_saves_def latest_def load_start)

lemma resume_latest:
  "resume_from (load now run (after_saves hist)) =
     (case latest run hist of None \<Rightarrow> None
      | Some (t, s) \<Rightarrow> if kept t now \<and> ls_status s = RunActive then Some (seen t s) else None)"
  by (auto simp: load_latest resume_from_def seen_status split: option.splits)

lemma finished_stays_finished:
  "latest run hist = Some (t, s) \<Longrightarrow> ls_status s \<noteq> RunActive \<Longrightarrow> resume_from (load now run (after_saves hist)) = None"
  by (simp add: resume_latest)

lemma saves_commute:
  assumes "ls_run s \<noteq> ls_run s'"
  shows "load now run (save t s (save t' s' db)) = load now run (save t' s' (save t s db))"
  using assms by (cases "run = ls_run s"; cases "run = ls_run s'") (simp_all add: load_saved load_other)

end

interpretation redis_store: checkpoint_store "redis_save ttl" redis_load "[]" "\<lambda>t now. now < t + ttl" touch
proof (unfold_locales, goal_cases)
  case (1 now s t db)
  then show ?case by (simp add: redis_load_def redis_save_def redis_get_def dict_simps)
next
  case (2 run s now t db)
  then show ?case by (simp add: redis_load_def redis_save_def redis_get_def dict_simps)
qed (simp_all add: redis_load_def redis_get_def touch_def)

interpretation pg_store: checkpoint_store pg_save "\<lambda>now. pg_load" "[]" "\<lambda>t now. True" touch
proof (unfold_locales, goal_cases)
  case (1 now s t db)
  then show ?case by (simp add: pg_load_def pg_save_def touch_def Let_def dict_simps split: option.splits)
next
  case (2 run s now t db)
  then show ?case by (simp add: pg_load_def pg_save_def touch_def Let_def dict_simps split: option.splits)
qed (simp_all add: pg_load_def touch_def)

interpretation mem_store: checkpoint_store "\<lambda>t. mem_save" "\<lambda>now. mem_load" "[]" "\<lambda>t now. True" "\<lambda>t s. s"
  by unfold_locales (simp_all add: mem_load_def mem_save_def dict_simps)

section \<open>Resumption\<close>

definition redis_after :: "int \<Rightarrow> (int \<times> run_state) list \<Rightarrow> redis" where
  "redis_after ttl hist = fold (\<lambda>(t, s). redis_save ttl t s) hist []"

definition pg_after :: "(int \<times> run_state) list \<Rightarrow> run_table" where
  "pg_after hist = fold (\<lambda>(t, s). pg_save t s) hist []"

definition mem_after :: "(int \<times> run_state) list \<Rightarrow> (string, run_state) dict" where
  "mem_after hist = fold (\<lambda>(t, s). mem_save s) hist []"

definition last_checkpoint :: "string \<Rightarrow> (int \<times> run_state) list \<Rightarrow> (int \<times> run_state) option" where
  "last_checkpoint run hist = List.find (\<lambda>(t, s). ls_run s = run) (rev hist)"

lemma latest_checkpoint:
  "mem_store.latest = last_checkpoint" "pg_store.latest = last_checkpoint" "redis_store.latest = last_checkpoint"
  by (simp_all add: fun_eq_iff last_checkpoint_def mem_store.latest_def pg_store.latest_def redis_store.latest_def)

text \<open>
  C24: all three stores resume a run from its last checkpoint. After any history of saves of any runs, the
  load of a run gives the state saved last for it (with the time of that save in Redis and PostgreSQL), in
  Redis until its time to live has passed; \<open>resume\<close> gives it exactly when its status is RUNNING, so that a
  finished run is not resumed and an older checkpoint is never seen.
\<close>

theorem stores_resume_last_checkpoint:
  "resume_from (redis_load now run (redis_after ttl hist)) =
     (case last_checkpoint run hist of None \<Rightarrow> None
      | Some (t, s) \<Rightarrow> if now < t + ttl \<and> ls_status s = RunActive then Some (touch t s) else None) \<and>
   resume_from (pg_load run (pg_after hist)) =
     (case last_checkpoint run hist of None \<Rightarrow> None | Some (t, s) \<Rightarrow> if ls_status s = RunActive then Some (touch t s) else None) \<and>
   resume_from (mem_load run (mem_after hist)) =
     (case last_checkpoint run hist of None \<Rightarrow> None | Some (t, s) \<Rightarrow> if ls_status s = RunActive then Some s else None)"
  using redis_store.resume_latest [of now run ttl hist] pg_store.resume_latest [of run hist] mem_store.resume_latest [of run hist]
  by (cases "last_checkpoint run hist")
     (simp_all add: redis_after_def pg_after_def mem_after_def redis_store.after_saves_def pg_store.after_saves_def
        mem_store.after_saves_def latest_checkpoint split: prod.splits)

section \<open>The runs a store lists\<close>

lemma redis_list_status: "s \<in> set (redis_list_active ord now domain_id db) \<Longrightarrow> ls_status s = RunActive"
  by (simp add: redis_list_active_def Let_def)

definition table_ok :: "run_table \<Rightarrow> bool" where
  "table_ok db \<longleftrightarrow> (\<forall>r \<in> set (dvalues db). ls_status (rr_payload r) = rr_status r)"

lemma pg_save_ok: "table_ok db \<Longrightarrow> table_ok (pg_save now s db)"
  using dvalues_dset [of "ls_run s" _ db] by (fastforce simp: table_ok_def pg_save_def Let_def touch_def split: option.splits)

lemma pg_after_ok: "table_ok (pg_after hist)"
  by (induction hist rule: rev_induct) (auto simp: pg_after_def pg_save_ok, simp add: table_ok_def)

lemma pg_list_status:
  assumes "table_ok db" and "s \<in> set (pg_list_active domain_id db)"
  shows "ls_status s = RunActive"
proof -
  obtain r where s: "s = rr_payload r" and "r \<in> set (take 500 (sort_desc rr_updated
      (filter (\<lambda>r. rr_status r = RunActive \<and> (case domain_id of Some d \<Rightarrow> d = [] \<or> rr_domain r = d | None \<Rightarrow> True)) (dvalues db))))"
    using assms(2) unfolding pg_list_active_def by (metis (no_types, lifting) imageE list.set_map)
  from in_set_takeD [OF this(2)] have r: "r \<in> set (dvalues db)" "rr_status r = RunActive" by (simp_all del: set_map)
  with assms(1) s show ?thesis by (simp add: table_ok_def del: set_map)
qed

definition held_run :: "string \<Rightarrow> run_state" where
  "held_run d = \<lparr>ls_run = ''r1'', ls_entity = ''e1'', ls_domain = d, ls_status = RunHumanHold, ls_pass = 2, ls_fields = [],
                 ls_confidences = [], ls_failure = [], ls_created = 0, ls_updated = 0\<rparr>"

text \<open>
  The store of the process also lists runs that are not active, which the other two never do: a run held for
  a human is listed by it alone. An empty domain is a filter there and no filter in the others.
\<close>

theorem stores_list_differently:
  "map ls_run (mem_list_active None (mem_after [(0, held_run ''plastics'')])) = [''r1''] \<and>
   redis_list_active (\<lambda>ks. ks) 1 None (redis_after 100 [(0, held_run ''plastics'')]) = [] \<and>
   pg_list_active None (pg_after [(0, held_run ''plastics'')]) = [] \<and>
   mem_list_active (Some []) (mem_after [(0, (held_run ''plastics'')\<lparr>ls_status := RunActive\<rparr>)]) = [] \<and>
   map ls_run (pg_list_active (Some []) (pg_after [(0, (held_run ''plastics'')\<lparr>ls_status := RunActive\<rparr>)])) = [''r1'']"
  by (intro conjI; code_simp)

text \<open>
  The domain column of PostgreSQL is the one of the first save: a run saved again with another domain is listed
  under the old one.
\<close>

theorem postgres_lists_old_domain:
  "(let r = (held_run ''plastics'')\<lparr>ls_status := RunActive\<rparr>; db = pg_after [(0, r), (1, r\<lparr>ls_domain := ''rubber''\<rparr>)]
    in map ls_domain (pg_list_active (Some ''plastics'') db) = [''rubber''] \<and> pg_list_active (Some ''rubber'') db = [])"
  by code_simp

end
