(* ===== verification/BatchProfile.thy ===== *)
theory BatchProfile
  imports Voting
begin

text \<open>
  \<open>app/services/enrichment_profile.py\<close>: which entities a batch takes and how many tokens each gets. The
  entity store is what its query returned; schedules are not modelled.
\<close>

record selection_criteria =
  sl_max_staleness :: int
  sl_min_null :: int
  sl_confidence_below :: f64
  sl_min_failed :: int
  sl_gate_incomplete :: bool

record profile =
  pf_name :: string
  pf_criteria :: selection_criteria
  pf_batch_size :: int
  pf_budget :: int
  pf_convergence :: bool
  pf_passes :: int

record entity_ref =
  er_id :: string
  er_priority :: f64
  er_nulls :: int
  er_staleness :: int
  er_confidence :: f64
  er_failed :: int
  er_gates :: int

record entity_budget =
  eb_entity :: string
  eb_tokens :: int
  eb_priority :: f64
  eb_variations :: int
  eb_passes :: int

definition profile_ok :: "profile \<Rightarrow> bool" where
  "profile_ok p \<longleftrightarrow>
     1 \<le> pf_batch_size p \<and> pf_batch_size p \<le> 10000 \<and> 1000 \<le> pf_budget p \<and> 1 \<le> pf_passes p \<and> pf_passes p \<le> 10 \<and>
     1 \<le> sl_max_staleness (pf_criteria p) \<and> 0 \<le> sl_min_null (pf_criteria p) \<and> 0 \<le> sl_confidence_below (pf_criteria p) \<and>
     sl_confidence_below (pf_criteria p) \<le> 1 \<and> 0 \<le> sl_min_failed (pf_criteria p)"

section \<open>Selection\<close>

definition entry_float :: "fields \<Rightarrow> string \<Rightarrow> f64 \<Rightarrow> f64" where
  "entry_float e k dflt = (case py_float (dget_or e k (PFloat dflt)) of Inr x \<Rightarrow> x | Inl _ \<Rightarrow> 0)"

definition capped_share :: "int \<Rightarrow> int \<Rightarrow> f64" where
  "capped_share n scale = min (f_of_int n / f_of_int scale) 1"

definition compute_priority :: "fields \<Rightarrow> pyerr + f64" where
  "compute_priority e =
     bind_res (py_int (dget_or e ''null_count'' (PInt 0))) (\<lambda>nulls.
     bind_res (py_int (dget_or e ''staleness_days'' (PInt 0))) (\<lambda>stale.
     bind_res (py_int (dget_or e ''failed_matches'' (PInt 0))) (\<lambda>failed.
       Inr (py_round 4 (capped_share nulls 20 * flt (2 / 5) + capped_share stale 90 * flt (3 / 10) +
                        (1 - entry_float e ''avg_confidence'' 1) * flt (1 / 5) + capped_share failed 10 * flt (1 / 10))))))"

definition entity_ref_of :: "fields \<Rightarrow> pyerr + entity_ref" where
  "entity_ref_of e =
     bind_res (compute_priority e) (\<lambda>priority.
     bind_res (py_int (dget_or e ''null_count'' (PInt 0))) (\<lambda>nulls.
     bind_res (py_int (dget_or e ''staleness_days'' (PInt 0))) (\<lambda>stale.
     bind_res (py_int (dget_or e ''failed_matches'' (PInt 0))) (\<lambda>failed.
     bind_res (py_int (dget_or e ''gate_fields_missing'' (PInt 0))) (\<lambda>gates.
       Inr \<lparr>er_id = py_str (dget_or e ''entity_id'' (dget_or e ''id'' (PStr []))), er_priority = priority, er_nulls = nulls,
            er_staleness = stale, er_confidence = entry_float e ''avg_confidence'' 0, er_failed = failed, er_gates = gates\<rparr>)))))"

text \<open>The store is asked for twice the batch size.\<close>

definition select_entities :: "(selection_criteria \<Rightarrow> int \<Rightarrow> fields list) \<Rightarrow> profile \<Rightarrow> pyerr + entity_ref list" where
  "select_entities query p =
     bind_res (map_res entity_ref_of (query (pf_criteria p) (pf_batch_size p * 2))) (\<lambda>refs.
       Inr (take (nat (pf_batch_size p)) (sort_desc er_priority refs)))"

section \<open>Budget\<close>

definition min_tokens :: int where "min_tokens = 500"

definition max_tokens :: int where "max_tokens = 10000"

definition suggested_variations :: "entity_ref \<Rightarrow> int" where
  "suggested_variations e = (if er_confidence e < flt (2 / 5) then 5 else if flt (4 / 5) < er_confidence e then 2 else 3)"

definition suggested_passes :: "entity_ref \<Rightarrow> int" where
  "suggested_passes e = (if 10 < er_nulls e \<or> 2 < er_gates e then 3 else if 5 < er_nulls e then 2 else 1)"

text \<open>\<open>int(share * max_budget_tokens)\<close>, clamped; the lower bound comes last.\<close>

definition clamped_tokens :: "f64 \<Rightarrow> int \<Rightarrow> int \<Rightarrow> entity_ref \<Rightarrow> int" where
  "clamped_tokens total_priority budget remaining e =
     max min_tokens (min (py_trunc (er_priority e / total_priority * f_of_int budget)) (min max_tokens remaining))"

fun allocate_from :: "f64 \<Rightarrow> int \<Rightarrow> int \<Rightarrow> entity_ref list \<Rightarrow> entity_budget list" where
  "allocate_from total_priority budget remaining [] = []"
| "allocate_from total_priority budget remaining (e # es) =
     (let n = clamped_tokens total_priority budget remaining e;
          b = \<lparr>eb_entity = er_id e, eb_tokens = n, eb_priority = er_priority e, eb_variations = suggested_variations e,
               eb_passes = suggested_passes e\<rparr>
      in b # (if remaining - n \<le> 0 then [] else allocate_from total_priority budget (remaining - n) es))"

definition allocate_budget :: "entity_ref list \<Rightarrow> int \<Rightarrow> entity_budget list" where
  "allocate_budget es budget =
     (if es = [] then []
      else (let total_priority = py_sum (map er_priority es)
            in if total_priority \<le> 0
               then (let per = max min_tokens (min (budget div int (length es)) max_tokens)
                     in map (\<lambda>e. \<lparr>eb_entity = er_id e, eb_tokens = per, eb_priority = er_priority e, eb_variations = 3, eb_passes = 1\<rparr>) es)
               else allocate_from total_priority budget budget es))"

section \<open>Profiles\<close>

definition profile_of :: "string \<Rightarrow> selection_criteria \<Rightarrow> int \<Rightarrow> int \<Rightarrow> bool \<Rightarrow> int \<Rightarrow> string \<times> profile" where
  "profile_of name c n budget conv passes =
     (name, \<lparr>pf_name = name, pf_criteria = c, pf_batch_size = n, pf_budget = budget, pf_convergence = conv, pf_passes = passes\<rparr>)"

definition default_criteria :: selection_criteria where
  "default_criteria = \<lparr>sl_max_staleness = 30, sl_min_null = 3, sl_confidence_below = flt (7 / 10), sl_min_failed = 1, sl_gate_incomplete = False\<rparr>"

definition default_profiles :: "(string, profile) dict" where
  "default_profiles =
     [profile_of ''nightly_stale'' default_criteria 200 100000 False 3,
      profile_of ''high_null'' (default_criteria\<lparr>sl_min_null := 5, sl_confidence_below := flt (1 / 2)\<rparr>) 100 80000 True 3,
      profile_of ''failed_match'' (default_criteria\<lparr>sl_min_failed := 2\<rparr>) 50 50000 True 5,
      profile_of ''new_intake'' (default_criteria\<lparr>sl_max_staleness := 1\<rparr>) 500 200000 False 3]"

definition new_profile_registry :: "(string, profile) dict \<Rightarrow> (string, profile) dict" where
  "new_profile_registry custom = dupdate default_profiles custom"

definition get_profile :: "(string, profile) dict \<Rightarrow> string \<Rightarrow> profile option" where
  "get_profile reg name = dget reg name"

definition list_profiles :: "(string, profile) dict \<Rightarrow> string list" where
  "list_profiles reg = sort (dkeys reg)"

definition register_profile :: "profile \<Rightarrow> (string, profile) dict \<Rightarrow> (string, profile) dict" where
  "register_profile p reg = dset (pf_name p) p reg"

section \<open>Properties\<close>

lemma clamped_bounds: "min_tokens \<le> clamped_tokens tp b r e \<and> clamped_tokens tp b r e \<le> max_tokens"
  by (auto simp: clamped_tokens_def min_tokens_def max_tokens_def)

lemma clamped_remaining: "clamped_tokens tp b r e \<le> max min_tokens r"
  by (auto simp: clamped_tokens_def)

lemma allocate_from_total:
  "0 < r \<Longrightarrow> sum_list (map eb_tokens (allocate_from tp b r es)) < r + min_tokens"
proof (induction es arbitrary: r)
  case (Cons e es)
  let ?n = "clamped_tokens tp b r e"
  show ?case
  proof (cases "r - ?n \<le> 0")
    case True
    have "?n < r + min_tokens" using clamped_remaining [of tp b r e] Cons.prems by (simp add: min_tokens_def max_def split: if_splits)
    with True show ?thesis by (simp add: Let_def)
  next
    case False
    with Cons.IH [of "r - ?n"] show ?thesis by (simp add: Let_def)
  qed
qed (simp add: min_tokens_def)

lemma allocate_from_bounds: "eb \<in> set (allocate_from tp b r es) \<Longrightarrow> min_tokens \<le> eb_tokens eb \<and> eb_tokens eb \<le> max_tokens"
  using clamped_bounds by (induction tp b r es rule: allocate_from.induct) (auto simp: Let_def split: if_splits)

lemma allocate_from_prefix: "\<exists>rest. map er_id es = map eb_entity (allocate_from tp b r es) @ rest"
  by (induction tp b r es rule: allocate_from.induct) (auto simp: Let_def)

text \<open>
  The token budget of a batch. Every entity that gets a share gets between 500 and 10000 tokens, shares go
  to a prefix of the ranking, and as long as the priorities are not all zero the shares together stay below
  the budget plus 500, the least share.
\<close>

theorem allocation_bounds:
  assumes "0 < budget" and "0 < py_sum (map er_priority es)"
  shows "(\<forall>b \<in> set (allocate_budget es budget). 500 \<le> eb_tokens b \<and> eb_tokens b \<le> 10000) \<and>
    (\<exists>rest. map er_id es = map eb_entity (allocate_budget es budget) @ rest) \<and>
    sum_list (map eb_tokens (allocate_budget es budget)) < budget + 500"
  using assms allocate_from_bounds [of _ "py_sum (map er_priority es)" budget budget es]
    allocate_from_prefix [of es "py_sum (map er_priority es)" budget budget]
    allocate_from_total [of budget "py_sum (map er_priority es)" budget es]
  by (auto simp: allocate_budget_def min_tokens_def max_tokens_def not_le [symmetric])

definition ref_with :: "string \<Rightarrow> f64 \<Rightarrow> entity_ref" where
  "ref_with i p = \<lparr>er_id = i, er_priority = p, er_nulls = 0, er_staleness = 0, er_confidence = 0, er_failed = 0, er_gates = 0\<rparr>"

theorem allocation_bounds_witness:
  "sum_list (map eb_tokens (allocate_budget [ref_with ''a'' 1, ref_with ''b'' 1] 1000)) < 1500"
proof -
  have "0 < py_sum (map er_priority [ref_with ''a'' 1, ref_with ''b'' 1])" by code_simp
  from allocation_bounds [OF _ this, of 1000] show ?thesis by simp
qed

text \<open>
  The budget itself is not kept: a rest below the least share is given out as a least share, and when all
  priorities are zero every entity gets one.
\<close>

theorem allocation_exceeds_budget:
  "map eb_tokens (allocate_budget [ref_with ''a'' (flt (3 / 4)), ref_with ''b'' (flt (1 / 4))] 1000) = [750, 500] \<and>
   sum_list (map eb_tokens (allocate_budget (map (\<lambda>i. ref_with i 0) [''a'', ''b'', ''c'', ''d'']) 1000)) = 2000"
  by (simp add: allocate_budget_def clamped_tokens_def ref_with_def min_tokens_def max_tokens_def py_trunc_def f64_eval)

text \<open>A selection holds at most a batch of the entities found, those of the highest priority.\<close>

lemma selection_sound:
  assumes "select_entities query p = Inr refs" and "0 \<le> pf_batch_size p"
  shows "int (length refs) \<le> pf_batch_size p \<and>
    (\<forall>r \<in> set refs. \<exists>e \<in> set (query (pf_criteria p) (pf_batch_size p * 2)). entity_ref_of e = Inr r)"
proof -
  obtain all where all: "map_res entity_ref_of (query (pf_criteria p) (pf_batch_size p * 2)) = Inr all"
    and refs: "refs = take (nat (pf_batch_size p)) (sort_desc er_priority all)"
    using assms(1) by (auto simp: select_entities_def bind_res_Inr_iff)
  have "set refs \<subseteq> set all" unfolding refs using set_take_subset [of _ "sort_desc er_priority all"] by simp
  then show ?thesis using map_res_source [OF all] assms(2) refs by auto
qed

lemma default_profiles_ok: "list_all (\<lambda>(n, p). profile_ok p \<and> pf_name p = n) default_profiles"
  by code_simp

end
