(* ===== verification/Promotion.thy ===== *)
theory Promotion
  imports PyOps "HOL-Library.Sublist"
begin

text \<open>
  \<open>app/services/workers/schema_promotion_worker.py\<close>: discovered fields that meet the criteria are written to
  the schema file of their domain. The stream and the files are the state; \<open>loads\<close> is JSON parsing with text
  names, a schema file is its parsed content. What Redis does with a message is a \<open>fate\<close>: whether it takes the event, the
  first acknowledgement, and the one of the handler of exceptions.
\<close>

record discovery =
  dv_field :: string
  dv_domain :: string
  dv_confidence :: pyval
  dv_coverage :: pyval
  dv_type :: pyval
  dv_samples :: pyval

record promotion =
  pm_field :: string
  pm_domain :: string
  pm_type :: pyval
  pm_confidence :: f64
  pm_coverage :: int

record promoter =
  po_files :: "(string, pyval) dict"
  po_events :: "promotion list"
  po_acked :: "string list"

text \<open>\<open>sample_values[:5]\<close>.\<close>

definition first_five :: "pyval \<Rightarrow> pyerr + pyval" where
  "first_five v = (case v of PList xs \<Rightarrow> Inr (PList (take 5 xs)) | PStr s \<Rightarrow> Inr (PStr (take 5 s)) | _ \<Rightarrow> Inl TypeError)"

definition schema_content :: "pyval option \<Rightarrow> pyerr + fields" where
  "schema_content file =
     (case file of
        None \<Rightarrow> Inr [(''fields'', PDict [])]
      | Some v \<Rightarrow> if \<not> truthy v then Inr [] else (case v of PDict d \<Rightarrow> Inr d | _ \<Rightarrow> Inl AttributeError))"

text \<open>The fields of a schema; \<open>field_name in fields_section\<close> needs a container, the assignment a dictionary.\<close>

definition promote_field :: "discovery \<Rightarrow> f64 \<Rightarrow> int \<Rightarrow> (string, pyval) dict \<Rightarrow> pyerr + bool \<times> (string, pyval) dict" where
  "promote_field d conf coverage files =
     bind_res (schema_content (dget files (dv_domain d))) (\<lambda>schema.
     let section = dget_or schema ''fields'' (PDict [])
     in bind_res (py_in (PStr (dv_field d)) section) (\<lambda>present.
        if present then Inr (False, files)
        else bind_res (first_five (dv_samples d)) (\<lambda>samples.
             case section of
               PDict fs \<Rightarrow>
                 Inr (True, dset (dv_domain d)
                   (PDict (dset ''fields''
                     (PDict (dset (dv_field d)
                        (PDict [(''type'', dv_type d), (''auto_promoted'', PBool True), (''promotion_confidence'', PFloat (py_round 4 conf)),
                                (''promotion_coverage'', PInt coverage), (''sample_values'', samples)]) fs)) schema)) files)
             | _ \<Rightarrow> Inl TypeError)))"

record fate =
  ft_publish :: bool
  ft_ack :: bool
  ft_retry :: bool

text \<open>
  The end of a message: it is acknowledged, or both acknowledgements raise and the exception leaves the handler.
  \<open>failed\<close> says that an exception came before the first of them.
\<close>

definition ack :: "bool \<Rightarrow> fate \<Rightarrow> string \<Rightarrow> promoter \<Rightarrow> promoter \<times> bool" where
  "ack failed ft i s = (if \<not> failed \<and> ft_ack ft \<or> ft_retry ft then (s\<lparr>po_acked := po_acked s @ [i]\<rparr>, False) else (s, True))"

definition handle_message :: "f64 \<Rightarrow> int \<Rightarrow> (string \<Rightarrow> discovery option) \<Rightarrow> fate \<Rightarrow> string \<times> string \<Rightarrow> promoter \<Rightarrow> promoter \<times> bool" where
  "handle_message min_conf min_cov loads ft m s =
     (case loads (snd m) of
        None \<Rightarrow> ack True ft (fst m) s
      | Some d \<Rightarrow>
          (case (py_float (dv_confidence d), py_int (dv_coverage d)) of
             (Inr conf, Inr coverage) \<Rightarrow>
               (if dv_field d = [] \<or> dv_domain d = [] then ack False ft (fst m) s
                else if conf < min_conf \<or> coverage < min_cov then ack False ft (fst m) s
                else (case promote_field d conf coverage (po_files s) of
                        Inl e \<Rightarrow> ack True ft (fst m) s
                      | Inr (False, files) \<Rightarrow> ack False ft (fst m) (s\<lparr>po_files := files\<rparr>)
                      | Inr (True, files) \<Rightarrow>
                          ack (\<not> ft_publish ft) ft (fst m) (s\<lparr>po_files := files,
                            po_events := (if ft_publish ft
                              then po_events s @ [\<lparr>pm_field = dv_field d, pm_domain = dv_domain d, pm_type = dv_type d,
                                                   pm_confidence = conf, pm_coverage = coverage\<rparr>]
                              else po_events s)\<rparr>)))
           | _ \<Rightarrow> ack True ft (fst m) s))"

text \<open>
  The messages of one read, up to one whose exception leaves the handler: the rest of that read stays unhandled. A run of the
  worker over the reads it makes.
\<close>

fun promote_batch :: "f64 \<Rightarrow> int \<Rightarrow> (string \<Rightarrow> discovery option) \<Rightarrow> (fate \<times> string \<times> string) list \<Rightarrow> promoter \<Rightarrow> promoter" where
  "promote_batch min_conf min_cov loads [] s = s"
| "promote_batch min_conf min_cov loads ((ft, m) # ms) s =
     (case handle_message min_conf min_cov loads ft m s of (s', raised) \<Rightarrow> if raised then s' else promote_batch min_conf min_cov loads ms s')"


section \<open>Properties\<close>









text \<open>
  What one message does to files and events: nothing, or one new entry for a discovery that qualifies, announced if the
  stream takes it. The acknowledgement leaves both alone.
\<close>

lemma ack_parts [simp]: "po_files (fst (ack failed ft i s)) = po_files s" "po_events (fst (ack failed ft i s)) = po_events s"
  "ft_retry ft \<Longrightarrow> \<not> snd (ack failed ft i s)"
  "po_acked (fst (ack failed ft i s)) = po_acked s @ (if snd (ack failed ft i s) then [] else [i])"
  by (simp_all add: ack_def)

lemma handled_acked: "po_acked (fst (handle_message min_conf min_cov loads ft m s)) =
    po_acked s @ (if snd (handle_message min_conf min_cov loads ft m s) then [] else [fst m])"
  "ft_retry ft \<Longrightarrow> \<not> snd (handle_message min_conf min_cov loads ft m s)"
  by (simp_all add: handle_message_def split: option.split sum.split bool.split prod.split)
















definition sample_discovery :: discovery where
  "sample_discovery = \<lparr>dv_field = ''mfi'', dv_domain = ''d'', dv_confidence = PInt 1, dv_coverage = PInt 5, dv_type = PStr ''float'',
     dv_samples = PList []\<rparr>"

definition sound_fate :: fate where
  "sound_fate = \<lparr>ft_publish = True, ft_ack = True, ft_retry = True\<rparr>"


text \<open>A schema whose fields are null takes no field: the discovery is acknowledged and lost.\<close>

theorem null_fields_lose_discovery:
  "handle_message 0 1 (\<lambda>t. Some sample_discovery) sound_fate (''1-0'', ''{}'')
     \<lparr>po_files = [(''d'', PDict [(''fields'', PNone), (''version'', PInt 1)])], po_events = [], po_acked = []\<rparr> =
   (\<lparr>po_files = [(''d'', PDict [(''fields'', PNone), (''version'', PInt 1)])], po_events = [], po_acked = [''1-0'']\<rparr>, False)"
  by code_simp

text \<open>Two acknowledgements that fail leave the message, and the rest of its read, unhandled.\<close>

theorem failed_ack_drops_batch:
  assumes "\<not> ft_ack ft" and "\<not> ft_retry ft"
  shows "promote_batch min_conf min_cov loads ((ft, m) # ms) s = fst (handle_message min_conf min_cov loads ft m s) \<and>
    po_acked (promote_batch min_conf min_cov loads ((ft, m) # ms) s) = po_acked s"
proof -
  have "snd (handle_message min_conf min_cov loads ft m s)"
    using assms by (simp add: handle_message_def ack_def split: option.split sum.split bool.split prod.split)
  then show ?thesis using handled_acked(1) [of min_conf min_cov loads ft m s]
    by (cases "handle_message min_conf min_cov loads ft m s") simp
qed

theorem failed_ack_drops_batch_witness:
  "po_acked (promote_batch 0 1 (\<lambda>t. None) [(sound_fate\<lparr>ft_ack := False, ft_retry := False\<rparr>, ''1-0'', ''x''), (sound_fate, ''2-0'', ''x'')]
     \<lparr>po_files = [], po_events = [], po_acked = []\<rparr>) = []"
proof -
  let ?ft = "sound_fate\<lparr>ft_ack := False, ft_retry := False\<rparr>"
  have "\<not> ft_ack ?ft" "\<not> ft_retry ?ft" by simp_all
  from failed_ack_drops_batch [OF this, of 0 1 "\<lambda>t. None" "(''1-0'', ''x'')" "[(sound_fate, ''2-0'', ''x'')]" "\<lparr>po_files = [], po_events = [], po_acked = []\<rparr>"]
  show ?thesis by (elim conjE) (simp del: promote_batch.simps)
qed

end
