(* ===== verification/KbIndex.thy ===== *)
theory KbIndex
  imports InferenceRegistry PyOps
begin

text \<open>
  \<open>app/services/kb_resolver.py\<close>: the index over the knowledge-base files and the fragments a request gets
  from it. A file is its name and its parsed content, \<open>None\<close> when it cannot be read or parsed; \<open>digest\<close> is
  the SHA-256 digest. Upper case is taken for the letters of ASCII.
\<close>

record kb_index =
  ki_grades :: "(string, fields list) dict"
  ki_rules :: "fields list"
  ki_recycling :: "(string, fields list) dict"
  ki_contamination :: "(string, fields list) dict"
  ki_tiers :: "(string, fields) dict"
  ki_raw :: "(string, fields) dict"
  ki_files :: "string list"

definition empty_index :: kb_index where
  "empty_index = \<lparr>ki_grades = [], ki_rules = [], ki_recycling = [], ki_contamination = [], ki_tiers = [], ki_raw = [], ki_files = []\<rparr>"

definition ki_polymers :: "kb_index \<Rightarrow> string list" where
  "ki_polymers ix = sort (dkeys (ki_grades ix))"

definition total_grades :: "kb_index \<Rightarrow> nat" where
  "total_grades ix = sum_list (map length (dvalues (ki_grades ix)))"

definition total_rules :: "kb_index \<Rightarrow> nat" where
  "total_rules ix = length (ki_rules ix)"

definition kb_is_loaded :: "kb_index \<Rightarrow> bool" where
  "kb_is_loaded ix \<longleftrightarrow> 0 < length (ki_files ix)"

section \<open>Loading\<close>

definition index_key :: "string \<Rightarrow> string" where
  "index_key s = map (\<lambda>c. if c = CHR '' '' then CHR ''_'' else c) (map upper_char s)"

text \<open>The elements of a section of a file: each is given entries, which only a dictionary takes.\<close>

definition tagged :: "fields \<Rightarrow> pyval \<Rightarrow> pyerr + fields" where
  "tagged entries v = (case v of PDict d \<Rightarrow> Inr (dupdate d entries) | _ \<Rightarrow> Inl TypeError)"

definition kb_section :: "string \<Rightarrow> fields \<Rightarrow> fields \<Rightarrow> pyerr + fields list" where
  "kb_section name entries kb = bind_res (py_iter (dget_or kb name (PList []))) (map_res (tagged entries))"

definition append_all :: "string \<Rightarrow> 'a list \<Rightarrow> (string, 'a list) dict \<Rightarrow> (string, 'a list) dict" where
  "append_all k xs d = (if xs = [] then d else dset k (dget_or d k [] @ xs) d)"

definition file_polymer :: "string \<Rightarrow> fields \<Rightarrow> pyerr + pyval" where
  "file_polymer stem kb =
     bind_res (py_get (dget_or kb ''metadata'' (PDict [])) ''polymertype'' PNone) (\<lambda>p.
     bind_res (py_get (dget_or kb ''metadata'' (PDict [])) ''materialtype'' PNone) (\<lambda>m.
     bind_res (py_get (dget_or kb ''metadata'' (PDict [])) ''kbname'' PNone) (\<lambda>n.
       Inr (if truthy p then p else if truthy m then m else if truthy n then n else PStr stem))))"

definition load_kb :: "string \<Rightarrow> string \<Rightarrow> fields \<Rightarrow> kb_index \<Rightarrow> pyerr + kb_index" where
  "load_kb name stem kb ix =
     bind_res (file_polymer stem kb) (\<lambda>p.
     case p of
       PStr polymer \<Rightarrow>
         (let key = index_key polymer; src = (''_source_file'', PStr name)
          in bind_res (kb_section ''materialgrades'' [src] kb) (\<lambda>grades.
             bind_res (kb_section ''inferencerules'' [(''_polymer'', PStr key), src] kb) (\<lambda>rules.
             bind_res (kb_section ''recyclingrules'' [src] kb) (\<lambda>recycling.
             bind_res (kb_section ''contaminationprofiles'' [src] kb) (\<lambda>profiles.
               Inr (ix\<lparr>ki_raw := dset key kb (ki_raw ix), ki_files := ki_files ix @ [name],
                       ki_grades := append_all key grades (ki_grades ix), ki_rules := ki_rules ix @ rules,
                       ki_recycling := append_all key recycling (ki_recycling ix),
                       ki_contamination := append_all key profiles (ki_contamination ix),
                       ki_tiers := (case dget_or kb ''sourcequalitytiers'' (PDict []) of
                                      PDict t \<Rightarrow> if t \<noteq> [] then dset key t (ki_tiers ix) else ki_tiers ix
                                    | _ \<Rightarrow> ki_tiers ix)\<rparr>))))))
     | _ \<Rightarrow> Inl AttributeError)"

text \<open>The files of the directory in the order of their names; an unreadable one is skipped.\<close>

definition load_file :: "string \<times> string \<times> pyval option \<Rightarrow> kb_index \<Rightarrow> pyerr + kb_index" where
  "load_file f ix =
     (case f of (name, stem, content) \<Rightarrow> (case content of Some (PDict kb) \<Rightarrow> load_kb name stem kb ix | _ \<Rightarrow> Inr ix))"

definition load_index :: "(string \<times> string \<times> pyval option) list \<Rightarrow> pyerr + kb_index" where
  "load_index files = fold_err load_file files empty_index"

section \<open>Resolution\<close>

record kb_context =
  kc_text :: string
  kc_hash :: string
  kc_fragments :: "string list"
  kc_files :: "string list"

definition empty_context :: "(string \<Rightarrow> string) \<Rightarrow> kb_context" where
  "empty_context digest = \<lparr>kc_text = [], kc_hash = digest [], kc_fragments = [], kc_files = []\<rparr>"

definition add_new :: "'a list \<Rightarrow> 'a list \<Rightarrow> 'a list" where
  "add_new xs ys = fold (\<lambda>x acc. if x \<in> set acc then acc else acc @ [x]) xs ys"

definition context_keys :: "kb_index \<Rightarrow> string option \<Rightarrow> string list" where
  "context_keys ix kb_context =
     (case kb_context of
        None \<Rightarrow> []
      | Some s \<Rightarrow>
          (if s = [] then []
           else if dmem (index_key s) (ki_raw ix) then [index_key s]
           else filter (\<lambda>k. is_substring (map upper_char s) k) (dkeys (ki_raw ix))))"

definition hint_fields :: "string list" where
  "hint_fields = [''polymer'', ''material'', ''material_type'', ''Industry'', ''x_material_type'', ''material_profile'']"

definition hint_keys :: "kb_index \<Rightarrow> fields \<Rightarrow> string list" where
  "hint_keys ix entity =
     List.map_filter (\<lambda>h. case dget_or entity h PNone of
         PStr s \<Rightarrow> if s \<noteq> [] \<and> dmem (index_key s) (ki_raw ix) then Some (index_key s) else None
       | _ \<Rightarrow> None) hint_fields"

definition target_keys :: "kb_index \<Rightarrow> string option \<Rightarrow> fields \<Rightarrow> string list" where
  "target_keys ix kb_context entity = add_new (hint_keys ix entity) (add_new (context_keys ix kb_context) [])"

text \<open>A block is its text, its fragment id and the file it comes from, if any.\<close>

type_synonym kb_block = "string \<times> string \<times> pyval"

definition grade_block :: "fields \<Rightarrow> pyerr + kb_block option" where
  "grade_block grade =
     (let gid = dget_or grade ''gradeid'' (dget_or grade ''id'' (PStr ''unknown''));
          d = dget_or grade ''description'' (PStr []);
          desc = (if truthy d then d else dget_or grade ''gradename'' (PStr []))
      in case desc of
           PStr s \<Rightarrow>
             (if py_strip s = [] then Inr None
              else Inr (Some (''Grade['' @ py_str gid @ '']: '' @ take 200 s, ''grade:'' @ py_str gid, dget_or grade ''_source_file'' (PStr []))))
         | _ \<Rightarrow> Inl AttributeError)"

fun grade_blocks :: "nat \<Rightarrow> fields list \<Rightarrow> pyerr + kb_block list" where
  "grade_blocks 0 gs = Inr []"
| "grade_blocks (Suc n) [] = Inr []"
| "grade_blocks (Suc n) (g # gs) =
     bind_res (grade_block g) (\<lambda>b. case b of
         None \<Rightarrow> grade_blocks (Suc n) gs
       | Some x \<Rightarrow> bind_res (grade_blocks n gs) (\<lambda>xs. Inr (x # xs)))"

definition rule_confidence :: "fields \<Rightarrow> f64" where
  "rule_confidence r = safe_float (dget_or r ''confidence'' (PInt 0)) 0"

definition key_rules :: "kb_index \<Rightarrow> string \<Rightarrow> f64 \<Rightarrow> fields list" where
  "key_rules ix key threshold =
     sort_desc rule_confidence (filter (\<lambda>r. dget_or r ''_polymer'' PNone = PStr key \<and> threshold \<le> rule_confidence r) (ki_rules ix))"

definition rule_block :: "fields \<Rightarrow> kb_block option" where
  "rule_block r =
     (let rid = dget_or r ''ruleid'' (dget_or r ''inferenceid'' (PStr ''unknown'')); conclusion = dget_or r ''conclusion'' (PDict [])
      in if truthy conclusion then Some (''Rule['' @ py_str rid @ '']: '' @ py_str conclusion, ''rule:'' @ py_str rid, PNone) else None)"

definition rule_blocks :: "nat \<Rightarrow> fields list \<Rightarrow> kb_block list" where
  "rule_blocks n rs = take n (List.map_filter rule_block rs)"

definition key_blocks :: "kb_index \<Rightarrow> nat \<Rightarrow> f64 \<Rightarrow> string \<Rightarrow> pyerr + kb_block list" where
  "key_blocks ix n threshold key =
     bind_res (grade_blocks n (dget_or (ki_grades ix) key [])) (\<lambda>gs. Inr (gs @ rule_blocks n (key_rules ix key threshold)))"

definition block_files :: "kb_block list \<Rightarrow> string list" where
  "block_files bs = add_new (List.map_filter (\<lambda>(t, i, f). case f of PStr s \<Rightarrow> if s \<noteq> [] then Some s else None | _ \<Rightarrow> None) bs) []"

definition kb_resolve :: "(string \<Rightarrow> string) \<Rightarrow> kb_index \<Rightarrow> string option \<Rightarrow> fields \<Rightarrow> nat \<Rightarrow> f64 \<Rightarrow> pyerr + kb_context" where
  "kb_resolve digest ix kb_context entity max_fragments threshold =
     (if \<not> kb_is_loaded ix then Inr (empty_context digest)
      else (let keys = target_keys ix kb_context entity
            in if keys = [] then Inr (empty_context digest)
               else bind_res (map_res (key_blocks ix max_fragments threshold) (take 2 keys)) (\<lambda>bss.
                    let bs = concat bss; text = join [CHR 0x0A] (map fst bs)
                    in Inr (if bs = [] then empty_context digest
                            else \<lparr>kc_text = text, kc_hash = digest text, kc_fragments = map (\<lambda>(t, i, f). i) bs, kc_files = block_files bs\<rparr>))))"

section \<open>Fragments are bounded and justified\<close>

lemma grade_blocks_sound:
  "grade_blocks n gs = Inr bs \<Longrightarrow> length bs \<le> n \<and> (\<forall>b \<in> set bs. \<exists>g \<in> set gs. grade_block g = Inr (Some b))"
proof (induction n gs arbitrary: bs rule: grade_blocks.induct)
  case (3 n g gs)
  then obtain b where b: "grade_block g = Inr b" by (auto simp: bind_res_Inr_iff)
  show ?case
  proof (cases b)
    case None
    with 3 b show ?thesis by auto
  next
    case (Some x)
    with 3(3) b obtain ys where ys: "grade_blocks n gs = Inr ys" "bs = x # ys" by (auto simp: bind_res_Inr_iff)
    from 3(2) [OF ys(1)] ys(2) b Some show ?thesis by auto
  qed
qed simp_all

lemma in_map_filter: "y \<in> set (List.map_filter f xs) \<longleftrightarrow> (\<exists>x \<in> set xs. f x = Some y)"
  by (induction xs) (auto simp: map_filter_simps split: option.splits)

lemma rule_blocks_sound:
  "length (rule_blocks n rs) \<le> n" "b \<in> set (rule_blocks n rs) \<Longrightarrow> \<exists>r \<in> set rs. rule_block r = Some b"
  by (auto simp: rule_blocks_def in_map_filter dest!: in_set_takeD)

text \<open>Where a block comes from: a grade of one of the keys, or a rule of it that is confident enough.\<close>

definition block_source :: "kb_index \<Rightarrow> f64 \<Rightarrow> string list \<Rightarrow> kb_block \<Rightarrow> bool" where
  "block_source ix threshold keys b \<longleftrightarrow>
     (\<exists>k \<in> set keys. \<exists>g \<in> set (dget_or (ki_grades ix) k []). grade_block g = Inr (Some b)) \<or>
     (\<exists>k \<in> set keys. \<exists>r \<in> set (ki_rules ix).
        dget_or r ''_polymer'' PNone = PStr k \<and> threshold \<le> rule_confidence r \<and> rule_block r = Some b)"

lemma key_blocks_sound:
  assumes "key_blocks ix n threshold k = Inr bs"
  shows "length bs \<le> 2 * n \<and> (\<forall>b \<in> set bs. block_source ix threshold [k] b)"
proof -
  obtain gs where gs: "grade_blocks n (dget_or (ki_grades ix) k []) = Inr gs" and bs: "bs = gs @ rule_blocks n (key_rules ix k threshold)"
    using assms by (auto simp: key_blocks_def bind_res_Inr_iff)
  have "length bs \<le> 2 * n" using grade_blocks_sound [OF gs] rule_blocks_sound(1) [of n "key_rules ix k threshold"] bs by simp
  moreover have "block_source ix threshold [k] b" if "b \<in> set bs" for b
    using that grade_blocks_sound [OF gs] rule_blocks_sound(2) [of b n "key_rules ix k threshold"] bs
    by (auto simp: block_source_def key_rules_def)
  ultimately show ?thesis by blast
qed

lemma map_res_concat_sound:
  assumes "map_res f ks = Inr bss" and "\<And>k bs. k \<in> set ks \<Longrightarrow> f k = Inr bs \<Longrightarrow> length bs \<le> m \<and> (\<forall>b \<in> set bs. P k b)"
  shows "length (concat bss) \<le> length ks * m \<and> (\<forall>b \<in> set (concat bss). \<exists>k \<in> set ks. P k b)"
  using assms
proof (induction ks arbitrary: bss)
  case (Cons k ks)
  then obtain bs rest where r: "f k = Inr bs" "map_res f ks = Inr rest" "bss = bs # rest" by (auto simp: bind_res_Inr_iff)
  have "length (concat rest) \<le> length ks * m \<and> (\<forall>b \<in> set (concat rest). \<exists>k \<in> set ks. P k b)" by (rule Cons.IH [OF r(2)]) (use Cons.prems(2) in auto)
  moreover have "length bs \<le> m \<and> (\<forall>b \<in> set bs. P k b)" using Cons.prems(2) [of k bs] r(1) by simp
  ultimately show ?case using r(3) by auto
qed simp

text \<open>
  What a request gets from the knowledge base is bounded and justified. A context has at most four times
  \<open>max_fragments\<close> fragments, its hash is the digest of its text, its text joins the blocks of exactly its
  fragments, and each block is a grade of one of the first two matching polymers or a rule of one of them
  whose confidence reaches the threshold.
\<close>

theorem kb_context_justified:
  assumes "kb_resolve digest ix ctx entity n threshold = Inr c"
  shows "kc_hash c = digest (kc_text c) \<and> length (kc_fragments c) \<le> 4 * n \<and>
    (\<exists>bs. kc_fragments c = map (\<lambda>(t, i, f). i) bs \<and> kc_text c = join [CHR 0x0A] (map fst bs) \<and>
       (\<forall>b \<in> set bs. block_source ix threshold (take 2 (target_keys ix ctx entity)) b))"
proof -
  let ?ks = "take 2 (target_keys ix ctx entity)"
  have empty: ?thesis if "c = empty_context digest"
    unfolding that by (auto simp: empty_context_def intro!: exI [of _ "[]"])
  show ?thesis
  proof (cases "\<not> kb_is_loaded ix \<or> target_keys ix ctx entity = []")
    case True
    then have "c = empty_context digest" using assms unfolding kb_resolve_def Let_def by (metis (no_types, lifting) sum.inject(2))
    then show ?thesis by (rule empty)
  next
    case False
    with assms obtain bss where bss: "map_res (key_blocks ix n threshold) ?ks = Inr bss"
      and c: "c = (if concat bss = [] then empty_context digest
        else \<lparr>kc_text = join [CHR 0x0A] (map fst (concat bss)), kc_hash = digest (join [CHR 0x0A] (map fst (concat bss))),
              kc_fragments = map (\<lambda>(t, i, f). i) (concat bss), kc_files = block_files (concat bss)\<rparr>)"
      by (auto simp: kb_resolve_def Let_def bind_res_Inr_iff)
    have sound: "length (concat bss) \<le> length ?ks * (2 * n) \<and> (\<forall>b \<in> set (concat bss). \<exists>k \<in> set ?ks. block_source ix threshold [k] b)"
      by (rule map_res_concat_sound [OF bss]) (use key_blocks_sound in blast)
    have "length ?ks * (2 * n) \<le> 2 * (2 * n)" by (intro mult_le_mono1) simp
    with sound have "length (concat bss) \<le> 4 * n" by linarith
    moreover have "block_source ix threshold ?ks b" if "b \<in> set (concat bss)" for b
      using sound that unfolding block_source_def by fastforce
    ultimately show ?thesis using c empty by (cases "concat bss = []") (auto intro!: exI [of _ "concat bss"])
  qed
qed

definition pet_index :: kb_index where
  "pet_index = empty_index\<lparr>ki_grades := [(''PET'', [[(''gradeid'', PStr ''G1''), (''description'', PStr ''clear'')]])],
     ki_raw := [(''PET'', [])], ki_files := [''pet.yaml'']\<rparr>"

lemma pet_resolves: "\<exists>c. kb_resolve (\<lambda>s. s) pet_index (Some ''pet'') [] 3 0 = Inr c"
proof -
  have "\<not> isl (kb_resolve (\<lambda>s. s) pet_index (Some ''pet'') [] 3 0)" by code_simp
  then show ?thesis by (metis isl_def sum.exhaust)
qed

theorem kb_context_justified_witness:
  "\<exists>c. kb_resolve (\<lambda>s. s) pet_index (Some ''pet'') [] 3 0 = Inr c \<and> kc_hash c = kc_text c \<and> length (kc_fragments c) \<le> 12"
proof -
  obtain c where "kb_resolve (\<lambda>s. s) pet_index (Some ''pet'') [] 3 0 = Inr c" using pet_resolves by blast
  with kb_context_justified [OF this] show ?thesis by auto
qed

text \<open>
  The resolver says it never raises. A grade whose description is a number does: the request fails, though the
  file loaded.
\<close>

theorem numeric_description_raises:
  "\<exists>ix. load_index [(''pet.yaml'', ''pet'', Some (PDict [(''materialgrades'', PList [PDict [(''gradeid'', PStr ''G1''), (''description'', PInt 5)]])]))] = Inr ix \<and>
     kb_resolve (\<lambda>s. s) ix (Some ''pet'') [] 3 0 = Inl AttributeError"
proof -
  let ?files = "[(''pet.yaml'', ''pet'', Some (PDict [(''materialgrades'', PList [PDict [(''gradeid'', PStr ''G1''), (''description'', PInt 5)]])]))]"
  have "case load_index ?files of Inl e \<Rightarrow> False | Inr ix \<Rightarrow> isl (kb_resolve (\<lambda>s. s) ix (Some ''pet'') [] 3 0) \<and>
      projl (kb_resolve (\<lambda>s. s) ix (Some ''pet'') [] 3 0) = AttributeError" by code_simp
  then show ?thesis by (cases "load_index ?files") (auto simp: isl_def)
qed

end
