(* ===== verification/ScoreExplain.thy ===== *)
theory ScoreExplain
  imports ScoreModels "HOL-Library.Product_Lexorder"
begin

text \<open>
  \<open>app/score/score_explainer.py\<close>: the explanation of a score record and the comparison of two records. The
  sentences are represented by what they state: the part of a narrative, the advice, the fields named. An
  explanation object that is in several lists carries the same rank in all of them.
\<close>

section \<open>Explanations\<close>

record field_explanation =
  fx_name :: string
  fx_dimension :: dimension
  fx_raw :: pyval
  fx_pct :: f64
  fx_confidence :: f64
  fx_source :: score_source
  fx_match :: icp_type
  fx_rank :: nat

record missing_explanation =
  mx_name :: string
  mx_dimension :: dimension
  mx_impact :: f64
  mx_gate :: bool
  mx_recommendation :: recommendation
  mx_rank :: nat

datatype dimension_part =
    StrongScore f64 | ModerateScore f64 | WeakScore f64 | NoScore
  | TopContributors "string list" | GateCriticalMissing "string list" | MissingNamed "string list" | MissingCounted nat
  | DecayedTo f64

record dimension_explanation =
  dx_dimension :: dimension
  dx_score :: f64
  dx_weight :: f64
  dx_weighted :: f64
  dx_confidence :: f64
  dx_coverage :: f64
  dx_fields :: "field_explanation list"
  dx_missing :: "missing_explanation list"
  dx_factor :: f64
  dx_decayed :: "f64 option"
  dx_narrative :: "dimension_part list"

datatype advice =
    CriticalEnrich string dimension f64
  | Improve recommendation string dimension f64
  | VerifyLow string dimension f64
  | ConnectSignals dimension

datatype overall_part = ScoredAs f64 tier | CappedByGate | StrongestSignal string dimension f64 | BiggestGap string dimension f64

record score_explanation =
  ex_entity :: string
  ex_domain :: string
  ex_composite :: f64
  ex_tier :: tier
  ex_confidence :: f64
  ex_dimensions :: "dimension_explanation list"
  ex_contributors :: "field_explanation list"
  ex_missing :: "missing_explanation list"
  ex_advice :: "advice list"
  ex_gate_penalty :: bool
  ex_narrative :: "overall_part list"
  ex_scored_at :: int

definition explain_fields :: "field_contribution list \<Rightarrow> field_explanation list" where
  "explain_fields cs =
     map (\<lambda>c. \<lparr>fx_name = fc_name c, fx_dimension = fc_dimension c, fx_raw = fc_raw c, fx_pct = fc_contribution c,
               fx_confidence = fc_confidence c, fx_source = fc_source c, fx_match = fc_match c, fx_rank = 0\<rparr>) cs"

definition explain_missing :: "missing_field list \<Rightarrow> missing_explanation list" where
  "explain_missing ms =
     map (\<lambda>m. \<lparr>mx_name = mf_name m, mx_dimension = mf_dimension m, mx_impact = mf_impact m, mx_gate = mf_gate m,
               mx_recommendation = mf_recommendation m, mx_rank = 0\<rparr>) ms"

section \<open>Narratives\<close>

definition score_part :: "f64 \<Rightarrow> dimension_part" where
  "score_part s =
     (if flt (4 / 5) \<le> s then StrongScore s else if flt (1 / 2) \<le> s then ModerateScore s else if 0 < s then WeakScore s else NoScore)"

definition missing_part :: "missing_explanation list \<Rightarrow> dimension_part list" where
  "missing_part ms =
     (if ms = [] then []
      else (let gate = filter mx_gate ms
            in if gate \<noteq> [] then [GateCriticalMissing (map mx_name gate)]
               else if length ms \<le> 3 then [MissingNamed (map mx_name ms)] else [MissingCounted (length ms)]))"

definition generate_dimension_narrative :: "f64 \<Rightarrow> field_explanation list \<Rightarrow> missing_explanation list \<Rightarrow> f64 \<Rightarrow> dimension_part list" where
  "generate_dimension_narrative score fs ms factor =
     [score_part score] @
     (if fs \<noteq> [] then [TopContributors (map fx_name (take 3 (sort_desc fx_pct fs)))] else []) @
     missing_part ms @
     (if factor < flt (9 / 10) then [DecayedTo factor] else [])"

definition generate_overall_narrative :: "f64 \<Rightarrow> tier \<Rightarrow> bool \<Rightarrow> field_explanation list \<Rightarrow> missing_explanation list \<Rightarrow> overall_part list" where
  "generate_overall_narrative composite t gate fs ms =
     [ScoredAs composite t] @ (if gate then [CappedByGate] else []) @
     (case fs of [] \<Rightarrow> [] | f # _ \<Rightarrow> [StrongestSignal (fx_name f) (fx_dimension f) (fx_pct f)]) @
     (case ms of [] \<Rightarrow> [] | m # _ \<Rightarrow> [BiggestGap (mx_name m) (mx_dimension m) (mx_impact m)])"

section \<open>Advice\<close>

fun dimension_text :: "dimension \<Rightarrow> string" where
  "dimension_text Fit = ''fit''"
| "dimension_text Intent = ''intent''"
| "dimension_text Engagement = ''engagement''"
| "dimension_text Readiness = ''readiness''"
| "dimension_text GraphAffinity = ''graph_affinity''"

definition generate_recommendations :: "missing_explanation list \<Rightarrow> field_explanation list \<Rightarrow> nat \<Rightarrow> advice list" where
  "generate_recommendations missing low n =
     (let gate = sort_desc mx_impact (filter mx_gate missing);
          high = sort_desc mx_impact (filter (\<lambda>m. \<not> mx_gate m \<and> flt (1 / 10) \<le> mx_impact m) missing);
          low_conf = sort_key fx_confidence low;
          dims = sort_key dimension_text (remdups (map mx_dimension (filter (\<lambda>m. mx_recommendation m = CaptureSignal) missing)))
      in take n
           (map (\<lambda>m. CriticalEnrich (mx_name m) (mx_dimension m) (mx_impact m)) (take 2 gate) @
            map (\<lambda>m. Improve (mx_recommendation m) (mx_name m) (mx_dimension m) (mx_impact m)) (take 2 high) @
            map (\<lambda>f. VerifyLow (fx_name f) (fx_dimension f) (fx_confidence f)) (filter (\<lambda>f. fx_confidence f < flt (1 / 2)) (take 1 low_conf)) @
            map ConnectSignals (take 1 dims)))"

section \<open>The explainer\<close>

text \<open>The ranks of the elements of a list, from one on, in the order of the sorted list; sorting is stable.\<close>

definition in_order :: "('a \<Rightarrow> 'k :: linorder) \<Rightarrow> 'a list \<Rightarrow> nat list" where
  "in_order key xs = sort_desc (\<lambda>i. key (xs ! i)) [0..<length xs]"

definition rank_at :: "nat list \<Rightarrow> nat \<Rightarrow> nat" where
  "rank_at order i = Suc (length (takeWhile (\<lambda>j. j \<noteq> i) order))"

definition ranked :: "(nat \<Rightarrow> 'a \<Rightarrow> 'a) \<Rightarrow> nat list \<Rightarrow> 'a list \<Rightarrow> 'a list" where
  "ranked set_rank order xs = map (\<lambda>i. set_rank (rank_at order i) (xs ! i)) [0..<length xs]"

fun chunks :: "nat list \<Rightarrow> 'a list \<Rightarrow> 'a list list" where
  "chunks [] xs = []"
| "chunks (n # ns) xs = take n xs # chunks ns (drop n xs)"

definition explain_dimension :: "dimension \<times> dimension_score \<Rightarrow> field_explanation list \<Rightarrow> missing_explanation list \<Rightarrow> dimension_explanation" where
  "explain_dimension p fs ms =
     \<lparr>dx_dimension = fst p, dx_score = ds_score (snd p), dx_weight = ds_weight (snd p),
      dx_weighted = ds_score (snd p) * ds_weight (snd p), dx_confidence = ds_confidence (snd p), dx_coverage = ds_coverage (snd p),
      dx_fields = fs, dx_missing = ms, dx_factor = ds_factor (snd p), dx_decayed = ds_decayed (snd p),
      dx_narrative = generate_dimension_narrative (ds_score (snd p)) fs ms (ds_factor (snd p))\<rparr>"

definition explain :: "nat \<Rightarrow> nat \<Rightarrow> score_record \<Rightarrow> score_explanation" where
  "explain max_top max_recommendations r =
     (let field_lists = map (\<lambda>p. explain_fields (ds_contributions (snd p))) (sr_dims r);
          missing_lists = map (\<lambda>p. explain_missing (ds_missing (snd p))) (sr_dims r);
          all_fields = concat field_lists; all_missing = concat missing_lists;
          low = filter (\<lambda>f. fx_confidence f < flt (1 / 2)) all_fields;
          forder = in_order fx_pct all_fields; morder = in_order (\<lambda>m. (mx_gate m, mx_impact m)) all_missing;
          fs = ranked (\<lambda>k f. f\<lparr>fx_rank := k\<rparr>) forder all_fields; ms = ranked (\<lambda>k m. m\<lparr>mx_rank := k\<rparr>) morder all_missing;
          top_fields = take max_top (map (\<lambda>i. fs ! i) forder); sorted_missing = map (\<lambda>i. ms ! i) morder;
          gate = list_ex mf_gate (sr_missing r)
      in \<lparr>ex_entity = sr_entity r, ex_domain = sr_domain r, ex_composite = sr_composite r, ex_tier = sr_tier r,
          ex_confidence = sr_confidence r,
          ex_dimensions = map2 (\<lambda>p (f, m). explain_dimension p f m) (sr_dims r)
            (zip (chunks (map length field_lists) fs) (chunks (map length missing_lists) ms)),
          ex_contributors = top_fields, ex_missing = take max_top sorted_missing,
          ex_advice = generate_recommendations sorted_missing low max_recommendations, ex_gate_penalty = gate,
          ex_narrative = generate_overall_narrative (sr_composite r) (sr_tier r) gate top_fields (take max_top sorted_missing),
          ex_scored_at = sr_scored_at r\<rparr>)"

definition explain_batch :: "nat \<Rightarrow> nat \<Rightarrow> score_record list \<Rightarrow> score_explanation list" where
  "explain_batch max_top max_recommendations rs = map (explain max_top max_recommendations) rs"

section \<open>Comparing two records\<close>

record score_comparison =
  cp_entity :: string
  cp_before :: f64
  cp_after :: f64
  cp_delta :: f64
  cp_tier_changed :: bool
  cp_dimensions :: "(dimension, f64 \<times> f64 \<times> f64) dict"
  cp_resolved :: "string list"
  cp_new_missing :: "string list"
  cp_missing_before :: nat
  cp_missing_after :: nat

definition missing_names :: "score_record \<Rightarrow> string list" where
  "missing_names r = map mf_name (sr_missing r)"

definition dimension_delta :: "dimension_explanation list \<Rightarrow> dimension_explanation \<Rightarrow> f64 \<times> f64 \<times> f64" where
  "dimension_delta before a =
     (let b = (case List.find (\<lambda>d. dx_dimension d = dx_dimension a) before of Some d \<Rightarrow> dx_score d | None \<Rightarrow> 0)
      in (py_round 4 b, py_round 4 (dx_score a), py_round 4 (dx_score a - b)))"

definition compare_scores :: "nat \<Rightarrow> nat \<Rightarrow> score_record \<Rightarrow> score_record \<Rightarrow> score_comparison" where
  "compare_scores max_top max_recommendations before after =
     (let eb = explain max_top max_recommendations before; ea = explain max_top max_recommendations after
      in \<lparr>cp_entity = sr_entity after, cp_before = py_round 4 (sr_composite before), cp_after = py_round 4 (sr_composite after),
          cp_delta = py_round 4 (sr_composite after - sr_composite before), cp_tier_changed = (sr_tier before \<noteq> sr_tier after),
          cp_dimensions = fold (\<lambda>a. dset (dx_dimension a) (dimension_delta (ex_dimensions eb) a)) (ex_dimensions ea) [],
          cp_resolved = sort (remdups (filter (\<lambda>n. n \<notin> set (missing_names after)) (missing_names before))),
          cp_new_missing = sort (remdups (filter (\<lambda>n. n \<notin> set (missing_names before)) (missing_names after))),
          cp_missing_before = length (sr_missing before), cp_missing_after = length (sr_missing after)\<rparr>)"

section \<open>Nothing is left out\<close>

lemma in_order_perm: "distinct (in_order key xs)" "set (in_order key xs) = {0..<length xs}" "length (in_order key xs) = length xs"
  by (simp_all add: in_order_def)

lemma in_order_sorted:
  "i < j \<Longrightarrow> j < length xs \<Longrightarrow> key (xs ! (in_order key xs ! j)) \<le> key (xs ! (in_order key xs ! i))"
proof -
  assume ij: "i < j" "j < length xs"
  let ?o = "in_order key xs"
  have s: "sorted (map (\<lambda>i. key (xs ! i)) (rev ?o))" using sorted_desc_map [of "\<lambda>i. key (xs ! i)"] by (simp add: in_order_def)
  have len: "length ?o = length xs" by (rule in_order_perm)
  have "map (\<lambda>i. key (xs ! i)) (rev ?o) ! (length xs - Suc j) \<le> map (\<lambda>i. key (xs ! i)) (rev ?o) ! (length xs - Suc i)"
    using ij len by (intro sorted_nth_mono [OF s]) auto
  then show ?thesis using ij len by (simp add: rev_map [symmetric] rev_nth)
qed

lemma rank_at_nth: "distinct order \<Longrightarrow> k < length order \<Longrightarrow> rank_at order (order ! k) = Suc k"
proof -
  assume d: "distinct order" "k < length order"
  have "takeWhile (\<lambda>j. j \<noteq> order ! k) order = take k order"
    using d by (intro takeWhile_eq_take_P_nth) (auto simp: nth_eq_iff_index_eq)
  with d show ?thesis by (simp add: rank_at_def)
qed

lemma ranked_nth: "i < length xs \<Longrightarrow> ranked set_rank order xs ! i = set_rank (rank_at order i) (xs ! i)"
  by (simp add: ranked_def)

lemma concat_chunks: "sum_list ns = length xs \<Longrightarrow> concat (chunks ns xs) = xs \<and> map length (chunks ns xs) = ns"
  by (induction ns arbitrary: xs) auto

lemma chunks_of_ranked:
  "sum_list (map length xss) = length ys \<Longrightarrow> concat (chunks (map length xss) ys) = ys"
  using concat_chunks by blast

lemma chunks_length [simp]: "length (chunks ns xs) = length ns"
  by (induction ns arbitrary: xs) simp_all

lemma ranked_length [simp]: "length (ranked f order xs) = length xs"
  by (simp add: ranked_def)

lemma ranked_in_order:
  "map (\<lambda>i. ranked f (in_order key xs) xs ! i) (in_order key xs) =
     map (\<lambda>k. f (Suc k) (xs ! (in_order key xs ! k))) [0..<length xs]"
proof (rule nth_equalityI)
  fix k assume "k < length (map (\<lambda>i. ranked f (in_order key xs) xs ! i) (in_order key xs))"
  then have k: "k < length xs" by (simp add: in_order_perm)
  then have "in_order key xs ! k < length xs" using in_order_perm(2,3) [of key xs] nth_mem [of k "in_order key xs"] by auto
  with k show "map (\<lambda>i. ranked f (in_order key xs) xs ! i) (in_order key xs) ! k =
      map (\<lambda>k. f (Suc k) (xs ! (in_order key xs ! k))) [0..<length xs] ! k"
    by (simp add: in_order_perm ranked_nth rank_at_nth)
qed (simp add: in_order_perm)

lemma map_over_index: "length is = n \<Longrightarrow> map (\<lambda>j. g (is ! j)) [0..<n] = map g is"
  by (auto simp: list_eq_iff_nth_eq)

definition contributions :: "score_record \<Rightarrow> field_contribution list" where
  "contributions r = concat (map (\<lambda>p. ds_contributions (snd p)) (sr_dims r))"

definition explained :: "score_record \<Rightarrow> field_explanation list" where
  "explained r = concat (map (\<lambda>p. explain_fields (ds_contributions (snd p))) (sr_dims r))"

lemma explained_contributions: "explained r = explain_fields (contributions r)"
  by (simp add: explained_def contributions_def explain_fields_def map_concat comp_def)

lemma contributors_of:
  "ex_contributors (explain k n r) =
     take k (map (\<lambda>j. (explained r ! (in_order fx_pct (explained r) ! j))\<lparr>fx_rank := Suc j\<rparr>) [0..<length (explained r)])"
  unfolding explain_def Let_def using ranked_in_order [of "\<lambda>k f. f\<lparr>fx_rank := k\<rparr>" fx_pct "explained r"]
  by (simp add: explained_def)

lemma dimension_fields_of:
  "concat (map dx_fields (ex_dimensions (explain k n r))) =
     ranked (\<lambda>k f. f\<lparr>fx_rank := k\<rparr>) (in_order fx_pct (explained r)) (explained r)"
proof -
  let ?fl = "map (\<lambda>p. explain_fields (ds_contributions (snd p))) (sr_dims r)"
  let ?fs = "ranked (\<lambda>k f. f\<lparr>fx_rank := k\<rparr>) (in_order fx_pct (explained r)) (explained r)"
  have zips: "map dx_fields (map2 (\<lambda>p (f, m). explain_dimension p f m) ps (zip fs ms)) = fs"
    if "length ps = length fs" "length ms = length fs" for ps fs ms
  proof -
    have "length fs = length ms" using that by simp
    from that(1) this show ?thesis by (induction ps fs ms rule: list_induct3) (simp_all add: explain_dimension_def)
  qed
  have "map dx_fields (ex_dimensions (explain k n r)) = chunks (map length ?fl) ?fs"
    unfolding explain_def Let_def score_explanation.select_convs explained_def by (rule zips) simp_all
  moreover have "concat (chunks (map length ?fl) ?fs) = ?fs"
    by (rule chunks_of_ranked) (simp add: explained_def length_concat)
  ultimately show ?thesis by simp
qed

text \<open>
  An explanation ranks the contributions. The contributors it lists carry the ranks 1, 2, ... in order of
  falling contribution; each is a contribution of the record with its value, confidence and dimension; as many are
  listed as there are, up to the limit; and the dimensions together list every contribution, in the order of
  the record.
\<close>

theorem explanation_ranks_contributions:
  "map fx_rank (ex_contributors (explain k n r)) = map Suc [0..<min k (length (contributions r))] \<and>
   sorted (rev (map fx_pct (ex_contributors (explain k n r)))) \<and>
   (\<forall>x \<in> set (ex_contributors (explain k n r)). \<exists>c \<in> set (contributions r).
      fx_name x = fc_name c \<and> fx_pct x = fc_contribution c \<and> fx_dimension x = fc_dimension c \<and> fx_confidence x = fc_confidence c) \<and>
   map fx_name (concat (map dx_fields (ex_dimensions (explain k n r)))) = map fc_name (contributions r)"
proof (intro conjI)
  let ?e = "explained r" let ?o = "in_order fx_pct ?e"
  have len: "length ?e = length (contributions r)" by (simp add: explained_contributions explain_fields_def)
  show "map fx_rank (ex_contributors (explain k n r)) = map Suc [0..<min k (length (contributions r))]"
    unfolding contributors_of by (simp add: take_map comp_def len min_def)
  have pct: "map fx_pct (ex_contributors (explain k n r)) = take k (map (\<lambda>i. fx_pct (?e ! i)) ?o)"
    unfolding contributors_of take_map [symmetric] list.map_comp comp_def
    using map_over_index [OF in_order_perm(3) [of fx_pct ?e], of "\<lambda>i. fx_pct (?e ! i)"] by simp
  have "sorted (rev (map (\<lambda>i. fx_pct (?e ! i)) ?o))"
    using sorted_desc_map [of "\<lambda>i. fx_pct (?e ! i)" "[0..<length ?e]"] by (simp add: in_order_def rev_map)
  then show "sorted (rev (map fx_pct (ex_contributors (explain k n r))))"
    unfolding pct rev_take by (rule sorted_wrt_drop)
  have "?o ! j < length ?e" if "j < length ?e" for j using in_order_perm(2,3) [of fx_pct ?e] nth_mem [of j ?o] that by auto
  then have "\<exists>y \<in> set ?e. fx_name x = fx_name y \<and> fx_pct x = fx_pct y \<and> fx_dimension x = fx_dimension y \<and> fx_confidence x = fx_confidence y"
    if "x \<in> set (ex_contributors (explain k n r))" for x
    using that unfolding contributors_of by (fastforce dest!: in_set_takeD intro: nth_mem)
  then show "\<forall>x \<in> set (ex_contributors (explain k n r)). \<exists>c \<in> set (contributions r).
      fx_name x = fc_name c \<and> fx_pct x = fc_contribution c \<and> fx_dimension x = fc_dimension c \<and> fx_confidence x = fc_confidence c"
    unfolding explained_contributions explain_fields_def by fastforce
  show "map fx_name (concat (map dx_fields (ex_dimensions (explain k n r)))) = map fc_name (contributions r)"
    unfolding dimension_fields_of using map_over_index [of ?e, OF refl, of fx_name]
    by (simp add: ranked_def comp_def) (simp add: explained_contributions explain_fields_def comp_def)
qed

definition explained_sample :: score_record where
  "explained_sample =
     (let c = \<lparr>fc_name = ''mfi'', fc_dimension = Fit, fc_raw = PInt 1, fc_contribution = flt (1 / 4), fc_confidence = 1,
               fc_source = FromEnrichment, fc_match = Range\<rparr>
      in \<lparr>sr_entity = ''e'', sr_domain = ''d'',
          sr_dims = [(Fit, \<lparr>ds_dimension = Fit, ds_score = 1, ds_confidence = 1, ds_weight = 1,
                            ds_contributions = [c, c\<lparr>fc_name := ''density'', fc_contribution := flt (3 / 4)\<rparr>], ds_missing = [],
                            ds_evaluated = 2, ds_present = 2, ds_coverage = 1, ds_decayed = None, ds_factor = 1\<rparr>)],
          sr_composite = 1, sr_confidence = 1, sr_tier = Hot, sr_contributions = [], sr_missing = [], sr_scored_at = 0,
          sr_decayed = None, sr_decay_applied = None, sr_provenance = \<lparr>pv_enrichment_run = None, pv_graph_match = None, pv_signals = [], pv_profile = ''p'', pv_version = ''1.0.0''\<rparr>\<rparr>)"

theorem explanation_ranks_contributions_witness:
  "map fx_rank (ex_contributors (explain 5 5 explained_sample)) = [1, 2] \<and>
   sorted (rev (map fx_pct (ex_contributors (explain 5 5 explained_sample))))"
  using explanation_ranks_contributions [of 5 5 explained_sample]
  by (simp add: explained_sample_def contributions_def Let_def upt_rec)

section \<open>What changed between two records\<close>

text \<open>The gaps of two records: what was resolved and what is new are disjoint, and each gap of either side is accounted for.\<close>

lemma comparison_accounts:
  "set (cp_resolved (compare_scores k n a b)) = set (missing_names a) - set (missing_names b) \<and>
   set (cp_new_missing (compare_scores k n a b)) = set (missing_names b) - set (missing_names a) \<and>
   sorted (cp_resolved (compare_scores k n a b)) \<and> distinct (cp_resolved (compare_scores k n a b))"
  unfolding compare_scores_def Let_def by auto

lemma advice_bound: "length (generate_recommendations ms low n) \<le> n"
  unfolding generate_recommendations_def Let_def length_take by (rule min.cobounded2)

end
