(* ===== verification/ConvergeApi.thy ===== *)
theory ConvergeApi
  imports LoopStore BatchProfile SchemaProposer CrmFieldScanner
begin

text \<open>
  \<open>app/api/v1/converge.py\<close>: the convergence endpoints over a store of runs, the profiles and the domain
  specifications. The store is a record of the operations the handlers call, one for each of the stores of
  \<open>LoopStore\<close>. Parameters are the clock readings at the saves, the identifier of a new run and \<open>loop\<close>,
  which is \<open>run_convergence_loop\<close>: it answers, raises an \<open>Exception\<close> with a text, or is cancelled (the client
  disconnects or the server shuts down). A \<open>CancelledError\<close> is no \<open>Exception\<close>, so the handlers do not catch it. A body is one that pydantic
  accepted; \<open>body_ok\<close> are the bounds of its fields.
\<close>

section \<open>State\<close>

record 'd run_store =
  so_save :: "int \<Rightarrow> run_state \<Rightarrow> 'd \<Rightarrow> 'd"
  so_load :: "int \<Rightarrow> string \<Rightarrow> 'd \<Rightarrow> run_state option"
  so_active :: "int \<Rightarrow> string option \<Rightarrow> 'd \<Rightarrow> run_state list"

definition redis_ops :: "int \<Rightarrow> (string list \<Rightarrow> string list) \<Rightarrow> redis run_store" where
  "redis_ops ttl ord = \<lparr>so_save = redis_save ttl, so_load = redis_load, so_active = redis_list_active ord\<rparr>"

definition pg_ops :: "run_table run_store" where
  "pg_ops = \<lparr>so_save = pg_save, so_load = (\<lambda>now. pg_load), so_active = (\<lambda>now. pg_list_active)\<rparr>"

definition mem_ops :: "(string, run_state) dict run_store" where
  "mem_ops = \<lparr>so_save = (\<lambda>t. mem_save), so_load = (\<lambda>now. mem_load), so_active = (\<lambda>now. mem_list_active)\<rparr>"

record 'd converge_api =
  cv_store :: "'d option"
  cv_profiles :: "(string, profile) dict option"
  cv_specs :: "(string, fields) dict"

datatype http_error = HttpError int | Unhandled pyerr | CancelledRequest

definition configure :: "'d \<Rightarrow> (string, profile) dict \<Rightarrow> (string, fields) dict \<Rightarrow> 'd converge_api" where
  "configure store profiles specs = \<lparr>cv_store = Some store, cv_profiles = Some profiles, cv_specs = specs\<rparr>"

definition get_state_store :: "'d converge_api \<Rightarrow> http_error + 'd" where
  "get_state_store api = (case cv_store api of None \<Rightarrow> Inl (HttpError 503) | Some d \<Rightarrow> Inr d)"

definition get_profile_registry :: "'d converge_api \<Rightarrow> http_error + (string, profile) dict" where
  "get_profile_registry api = (case cv_profiles api of None \<Rightarrow> Inl (HttpError 503) | Some d \<Rightarrow> Inr d)"

definition get_domain_spec :: "'d converge_api \<Rightarrow> string \<Rightarrow> http_error + fields" where
  "get_domain_spec api domain_id =
     (case dget (cv_specs api) domain_id of Some (s # ss) \<Rightarrow> Inr (s # ss) | _ \<Rightarrow> Inl (HttpError 400))"

section \<open>One entity\<close>

record converge_body =
  cb_entity :: fields
  cb_object_type :: string
  cb_domain :: string
  cb_objective :: string
  cb_max_passes :: int
  cb_max_budget :: int
  cb_threshold :: f64
  cb_approval :: string
  cb_key :: "string option"

definition body_ok :: "converge_body \<Rightarrow> bool" where
  "body_ok b \<longleftrightarrow> 1 \<le> cb_max_passes b \<and> cb_max_passes b \<le> 20 \<and> 1000 \<le> cb_max_budget b \<and> 0 \<le> cb_threshold b"

definition new_run :: "string \<Rightarrow> int \<Rightarrow> string \<Rightarrow> fields \<Rightarrow> run_state" where
  "new_run i now domain_id entity =
     \<lparr>ls_run = i, ls_entity = py_str (dget_or entity ''id'' (dget_or entity ''Name'' (PStr ''unknown''))), ls_domain = domain_id,
      ls_status = RunActive, ls_pass = 0, ls_fields = [], ls_confidences = [], ls_failure = [], ls_created = now, ls_updated = now\<rparr>"

definition plain_request :: "fields \<Rightarrow> string \<Rightarrow> string \<Rightarrow> string option \<Rightarrow> pyerr + api_request" where
  "plain_request entity object_type aim key =
     validate_request (\<lambda>s. None)
       \<lparr>rw_entity = entity, rw_object_type = object_type, rw_schema = PNone, rw_objective = aim, rw_kb_context = None,
        rw_consensus_threshold = None, rw_field_thresholds = None, rw_max_variations = None, rw_idempotency_key = key\<rparr>"

definition config_of_body :: "converge_body \<Rightarrow> convergence_config" where
  "config_of_body b = \<lparr>max_passes = cb_max_passes b, confidence_threshold = min (cb_threshold b / f_of_int 10) 1, min_improvement_delta = cb_threshold b\<rparr>"

definition after_response :: "api_response \<Rightarrow> run_state \<Rightarrow> run_state" where
  "after_response r s =
     s\<lparr>ls_fields := ap_fields r, ls_pass := ap_pass_count r, ls_status := (if ap_state r = ''completed'' then RunConverged else RunFailed)\<rparr>"

definition after_failure :: "string \<Rightarrow> run_state \<Rightarrow> run_state" where
  "after_failure e s = s\<lparr>ls_status := RunFailed, ls_failure := e\<rparr>"

record single_answer =
  sa_run :: string
  sa_status :: loop_status
  sa_passes :: int
  sa_discovered :: nat
  sa_tokens :: int
  sa_cost :: f64
  sa_reason :: string

definition cost_of :: "f64 \<Rightarrow> int \<Rightarrow> f64" where
  "cost_of rate tokens = f_of_int tokens * rate / f_of_int 1000"

definition answer_of :: "f64 \<Rightarrow> api_response \<Rightarrow> run_state \<Rightarrow> single_answer" where
  "answer_of rate r s =
     \<lparr>sa_run = ls_run s, sa_status = ls_status s, sa_passes = ap_pass_count r, sa_discovered = length (ls_fields s),
      sa_tokens = ap_tokens_used r, sa_cost = cost_of rate (ap_tokens_used r), sa_reason = ''completed''\<rparr>"

datatype loop_end = LoopAnswered api_response | LoopRaised string | LoopCancelled

type_synonym loop_call = "api_request \<Rightarrow> convergence_config \<Rightarrow> loop_end"

definition converge_single ::
  "'d run_store \<Rightarrow> loop_call \<Rightarrow> f64 \<Rightarrow> int \<Rightarrow> int \<Rightarrow> string \<Rightarrow> converge_body \<Rightarrow> 'd converge_api \<Rightarrow> (http_error + single_answer) \<times> 'd converge_api" where
  "converge_single ops loop rate t1 t2 i body api =
     (case get_state_store api of
        Inl e \<Rightarrow> (Inl e, api)
      | Inr db0 \<Rightarrow>
          (let s0 = new_run i t1 (cb_domain body) (cb_entity body); db = so_save ops t1 s0 db0
           in case plain_request (cb_entity body) (cb_object_type body) (cb_objective body) (cb_key body) of
                Inl e \<Rightarrow> (Inl (Unhandled e), api\<lparr>cv_store := Some db\<rparr>)
              | Inr rq \<Rightarrow>
                  (case loop rq (config_of_body body) of
                     LoopCancelled \<Rightarrow> (Inl CancelledRequest, api\<lparr>cv_store := Some db\<rparr>)
                   | LoopRaised e \<Rightarrow> (Inl (HttpError 500), api\<lparr>cv_store := Some (so_save ops t2 (after_failure e s0) db)\<rparr>)
                   | LoopAnswered r \<Rightarrow> (let s = after_response r s0
                              in (Inr (answer_of rate r s), api\<lparr>cv_store := Some (so_save ops t2 s db)\<rparr>)))))"

section \<open>A batch\<close>

record batch_body =
  bb_profile_name :: "string option"
  bb_inline :: "profile option"
  bb_domain :: string
  bb_entities :: "fields list"

record run_batch =
  rb_selected :: nat
  rb_processed :: nat
  rb_tokens :: int
  rb_cost :: f64
  rb_profile :: string
  rb_runs :: "string list"

definition profile_for :: "batch_body \<Rightarrow> (string, profile) dict \<Rightarrow> profile option" where
  "profile_for body reg =
     (case bb_inline body of
        Some p \<Rightarrow> Some p
      | None \<Rightarrow> (case bb_profile_name body of Some n \<Rightarrow> if n \<noteq> [] then get_profile reg n else None | None \<Rightarrow> None))"

definition batch_config :: "profile \<Rightarrow> convergence_config" where
  "batch_config p = \<lparr>max_passes = pf_passes p, confidence_threshold = flt (17 / 20), min_improvement_delta = flt (1 / 20)\<rparr>"

definition batch_objective :: "profile \<Rightarrow> string" where
  "batch_objective p = ''Batch convergence via profile: '' @ pf_name p"

definition batch_request :: "profile \<Rightarrow> fields \<Rightarrow> pyerr + api_request" where
  "batch_request p entity =
     (case dget_or entity ''object_type'' (PStr ''Account'') of
        PStr t \<Rightarrow> plain_request entity t (batch_objective p) None
      | _ \<Rightarrow> Inl ValueError)"

record 'd batch_progress =
  bp_store :: 'd
  bp_runs :: "string list"
  bp_tokens :: int
  bp_processed :: nat

definition batch_one ::
  "'d run_store \<Rightarrow> loop_call \<Rightarrow> profile \<Rightarrow> string \<Rightarrow> fields \<times> int \<times> int \<times> string \<Rightarrow> 'd batch_progress \<Rightarrow> http_error option \<times> 'd batch_progress" where
  "batch_one ops loop p domain_id x b =
     (case x of (entity, t1, t2, i) \<Rightarrow>
        (case batch_request p entity of
           Inl e \<Rightarrow> (Some (Unhandled e), b)
         | Inr rq \<Rightarrow>
             (let s0 = new_run i t1 domain_id entity; db = so_save ops t1 s0 (bp_store b)
              in case loop rq (batch_config p) of
                   LoopCancelled \<Rightarrow> (Some CancelledRequest, b\<lparr>bp_store := db\<rparr>)
                 | LoopAnswered r \<Rightarrow>
                     (None, b\<lparr>bp_store := so_save ops t2 (after_response r s0) db, bp_runs := bp_runs b @ [i],
                              bp_tokens := bp_tokens b + ap_tokens_used r, bp_processed := bp_processed b + 1\<rparr>)
                 | LoopRaised e \<Rightarrow> (None, b\<lparr>bp_store := so_save ops t2 (after_failure e s0) db, bp_runs := bp_runs b @ [i]\<rparr>))))"

text \<open>The loop over the entities: what was stored stays stored when a later entity raises or the request is cancelled.\<close>

fun batch_loop ::
  "'d run_store \<Rightarrow> loop_call \<Rightarrow> profile \<Rightarrow> string \<Rightarrow> (fields \<times> int \<times> int \<times> string) list \<Rightarrow> 'd batch_progress \<Rightarrow> http_error option \<times> 'd batch_progress" where
  "batch_loop ops loop p domain_id [] b = (None, b)"
| "batch_loop ops loop p domain_id (x # xs) b =
     (case batch_one ops loop p domain_id x b of
        (Some e, b') \<Rightarrow> (Some e, b')
      | (None, b') \<Rightarrow> batch_loop ops loop p domain_id xs b')"

definition batch_start :: "'d \<Rightarrow> 'd batch_progress" where
  "batch_start db = \<lparr>bp_store = db, bp_runs = [], bp_tokens = 0, bp_processed = 0\<rparr>"

text \<open>\<open>ticks\<close> gives the clock readings and the identifier for each position.\<close>

definition converge_batch ::
  "'d run_store \<Rightarrow> loop_call \<Rightarrow> f64 \<Rightarrow> (nat \<Rightarrow> int \<times> int \<times> string) \<Rightarrow> batch_body \<Rightarrow> 'd converge_api \<Rightarrow> (http_error + run_batch) \<times> 'd converge_api" where
  "converge_batch ops loop rate ticks body api =
     (case get_profile_registry api of
        Inl e \<Rightarrow> (Inl e, api)
      | Inr reg \<Rightarrow>
          (case get_state_store api of
             Inl e \<Rightarrow> (Inl e, api)
           | Inr db \<Rightarrow>
               (case profile_for body reg of
                  None \<Rightarrow> (Inl (HttpError 400), api)
                | Some p \<Rightarrow>
                    (let es = bb_entities body
                     in if es = [] then (Inr \<lparr>rb_selected = 0, rb_processed = 0, rb_tokens = 0, rb_cost = 0, rb_profile = pf_name p, rb_runs = []\<rparr>, api)
                        else (case batch_loop ops loop p (bb_domain body) (map2 (\<lambda>e k. (e, ticks k)) (take (nat (pf_batch_size p)) es) [0..<length es])
                                     (batch_start db) of
                                (Some e, b) \<Rightarrow> (Inl e, api\<lparr>cv_store := Some (bp_store b)\<rparr>)
                              | (None, b) \<Rightarrow>
                                  (Inr \<lparr>rb_selected = length es, rb_processed = bp_processed b, rb_tokens = bp_tokens b,
                                        rb_cost = cost_of rate (bp_tokens b), rb_profile = pf_name p, rb_runs = bp_runs b\<rparr>,
                                   api\<lparr>cv_store := Some (bp_store b)\<rparr>))))))"

section \<open>Status, approval, proposals, scan\<close>

definition get_convergence_status :: "'d run_store \<Rightarrow> int \<Rightarrow> string \<Rightarrow> 'd converge_api \<Rightarrow> http_error + run_state" where
  "get_convergence_status ops now run api =
     bind_res (get_state_store api) (\<lambda>db. case so_load ops now run db of None \<Rightarrow> Inl (HttpError 404) | Some s \<Rightarrow> Inr s)"

text \<open>
  The confidences of a run are a \<open>FieldConfidenceMap\<close>: an object without the attribute \<open>entries\<close> that is no
  dictionary, of which the proposer reads nothing.
\<close>

definition run_result :: "run_state \<Rightarrow> batch_entry" where
  "run_result s = \<lparr>be_fields = PDict (ls_fields s), be_confidences = ConfValue PNone\<rparr>"

record approve_answer =
  aa_approved :: nat
  aa_rejected :: nat
  aa_version :: pyval

definition lift_http :: "pyerr + 'a \<Rightarrow> http_error + 'a" where
  "lift_http r = (case r of Inl e \<Rightarrow> Inl (Unhandled e) | Inr x \<Rightarrow> Inr x)"

definition approve_proposals ::
  "(rat \<Rightarrow> f64) \<Rightarrow> (pyval list \<Rightarrow> pyval) \<Rightarrow> 'd run_store \<Rightarrow> int \<Rightarrow> string \<Rightarrow> approval list \<Rightarrow> 'd converge_api \<Rightarrow> (http_error + approve_answer) \<times> 'd converge_api" where
  "approve_proposals fsqrt pick ops now run decisions api =
     (case get_convergence_status ops now run api of
        Inl e \<Rightarrow> (Inl e, api)
      | Inr s \<Rightarrow>
          (if ls_status s \<noteq> RunHumanHold then (Inl (HttpError 409), api)
           else (let spec = dget_or (cv_specs api) (ls_domain s) []
                 in if spec = [] then (Inl (HttpError 404), api)
                    else (case lift_http (bind_res (propose fsqrt pick [run_result s] spec (ls_domain s)) (apply_proposals spec decisions)) of
                            Inl e \<Rightarrow> (Inl e, api)
                          | Inr updated \<Rightarrow>
                              (let approved = length (filter ad_approved decisions)
                               in (Inr \<lparr>aa_approved = approved, aa_rejected = length decisions - approved, aa_version = dget_or updated ''version'' (PStr ''unknown'')\<rparr>,
                                   api\<lparr>cv_specs := dset (ls_domain s) updated (cv_specs api),
                                       cv_store := map_option (so_save ops now (s\<lparr>ls_status := RunConverged\<rparr>)) (cv_store api)\<rparr>))))))"

definition get_pending_proposals ::
  "(rat \<Rightarrow> f64) \<Rightarrow> (pyval list \<Rightarrow> pyval) \<Rightarrow> 'd run_store \<Rightarrow> int \<Rightarrow> string \<Rightarrow> 'd converge_api \<Rightarrow> http_error + (string \<times> string \<times> proposal_set) list" where
  "get_pending_proposals fsqrt pick ops now domain_id api =
     bind_res (get_state_store api) (\<lambda>db.
       lift_http (map_res (\<lambda>s. bind_res (propose fsqrt pick [run_result s] (dget_or (cv_specs api) domain_id []) domain_id)
                                 (\<lambda>ps. Inr (ls_run s, ls_entity s, ps)))
         (filter (\<lambda>s. ls_status s = RunHumanHold) (so_active ops now (Some domain_id) db))))"

definition scan_crm :: "(string \<Rightarrow> string) \<Rightarrow> crm_field list \<Rightarrow> string \<Rightarrow> 'd converge_api \<Rightarrow> http_error + discovery_report" where
  "scan_crm h fs domain_id api =
     bind_res (get_domain_spec api domain_id) (\<lambda>spec.
     bind_res (lift_http (scan_crm_fields h fs spec)) (\<lambda>r. lift_http (generate_discovery_report h r spec 1)))"

section \<open>A request ends with its run\<close>

lemma plain_request_total: "\<exists>rq. plain_request entity t aim key = Inr rq \<and> rq_entity rq = entity"
  by (auto simp: plain_request_def validate_request_def parse_schema_string_def as_schema_def check_unit_def check_variations_def
      thresholds_are_unit_interval_def requested_fields_name_their_threshold_def default_consensus_threshold_def f64_eval)

text \<open>
  How a run ends: from the response of the loop, or from what it raised. A cancelled request stores its run no
  second time.
\<close>

definition ending :: "loop_end \<Rightarrow> run_state \<Rightarrow> run_state" where
  "ending outcome s = (case outcome of LoopRaised e \<Rightarrow> after_failure e s | LoopAnswered r \<Rightarrow> after_response r s | LoopCancelled \<Rightarrow> s)"

definition end_saved :: "'d run_store \<Rightarrow> int \<Rightarrow> loop_end \<Rightarrow> run_state \<Rightarrow> 'd \<Rightarrow> 'd" where
  "end_saved ops t outcome s db = (if outcome = LoopCancelled then db else so_save ops t (ending outcome s) db)"

definition last_save :: "int \<Rightarrow> int \<Rightarrow> loop_end \<Rightarrow> int" where
  "last_save t1 t2 outcome = (if outcome = LoopCancelled then t1 else t2)"

lemma ending_run [simp]: "ls_run (ending outcome s) = ls_run s"
  by (simp add: ending_def after_failure_def after_response_def split: loop_end.splits)

lemma ending_status: "outcome \<noteq> LoopCancelled \<Longrightarrow> ls_status (ending outcome s) \<in> {RunConverged, RunFailed}"
  by (simp add: ending_def after_failure_def after_response_def split: loop_end.splits)

lemma new_run_run [simp]: "ls_run (new_run i t d e) = i"
  by (simp add: new_run_def)

lemma new_run_status [simp]: "ls_status (new_run i t d e) = RunActive"
  by (simp add: new_run_def)

definition single_outcome :: "loop_call \<Rightarrow> converge_body \<Rightarrow> loop_end" where
  "single_outcome loop body =
     loop (projr (plain_request (cb_entity body) (cb_object_type body) (cb_objective body) (cb_key body))) (config_of_body body)"

lemma single_store:
  assumes "cv_store api = Some db"
  shows "cv_store (snd (converge_single ops loop rate t1 t2 i body api)) =
    Some (end_saved ops t2 (single_outcome loop body) (new_run i t1 (cb_domain body) (cb_entity body))
           (so_save ops t1 (new_run i t1 (cb_domain body) (cb_entity body)) db))"
proof -
  obtain rq where rq: "plain_request (cb_entity body) (cb_object_type body) (cb_objective body) (cb_key body) = Inr rq"
    using plain_request_total by blast
  show ?thesis using assms rq
    by (cases "loop rq (config_of_body body)")
      (simp_all add: converge_single_def get_state_store_def single_outcome_def end_saved_def ending_def Let_def)
qed

lemma single_answer:
  assumes "cv_store api = Some db"
  shows "fst (converge_single ops loop rate t1 t2 i body api) =
    (case single_outcome loop body of
       LoopRaised e \<Rightarrow> Inl (HttpError 500)
     | LoopCancelled \<Rightarrow> Inl CancelledRequest
     | LoopAnswered r \<Rightarrow> Inr (answer_of rate r (after_response r (new_run i t1 (cb_domain body) (cb_entity body)))))"
proof -
  obtain rq where rq: "plain_request (cb_entity body) (cb_object_type body) (cb_objective body) (cb_key body) = Inr rq"
    using plain_request_total by blast
  show ?thesis using assms rq
    by (cases "loop rq (config_of_body body)") (simp_all add: converge_single_def get_state_store_def single_outcome_def Let_def)
qed

definition ops_of :: "(int \<Rightarrow> run_state \<Rightarrow> 'd \<Rightarrow> 'd) \<Rightarrow> (int \<Rightarrow> string \<Rightarrow> 'd \<Rightarrow> run_state option) \<Rightarrow> (int \<Rightarrow> string option \<Rightarrow> 'd \<Rightarrow> run_state list) \<Rightarrow> 'd run_store" where
  "ops_of s l a = \<lparr>so_save = s, so_load = l, so_active = a\<rparr>"

text \<open>What a request leaves in the store: its run with a status and fields, and every other run as it was.\<close>

definition run_recorded :: "'d run_store \<Rightarrow> int \<Rightarrow> string \<Rightarrow> loop_status \<Rightarrow> fields \<Rightarrow> 'd option \<Rightarrow> 'd option \<Rightarrow> bool" where
  "run_recorded ops now i status fs before after \<longleftrightarrow>
     (case (before, after) of
        (Some db, Some db') \<Rightarrow>
          (case so_load ops now i db' of Some s \<Rightarrow> ls_status s = status \<and> ls_fields s = fs | None \<Rightarrow> False) \<and>
          (\<forall>run. run \<noteq> i \<longrightarrow> so_load ops now run db' = so_load ops now run db)
      | _ \<Rightarrow> False)"

text \<open>The status and the fields a request leaves, and what it answers, by the end of the loop.\<close>

definition status_left :: "loop_end \<Rightarrow> loop_status" where
  "status_left outcome =
     (case outcome of
        LoopAnswered a \<Rightarrow> if ap_state a = ''completed'' then RunConverged else RunFailed
      | LoopRaised e \<Rightarrow> RunFailed
      | LoopCancelled \<Rightarrow> RunActive)"

definition fields_left :: "loop_end \<Rightarrow> fields" where
  "fields_left outcome = (case outcome of LoopAnswered a \<Rightarrow> ap_fields a | _ \<Rightarrow> [])"

definition answered_with :: "string \<Rightarrow> loop_end \<Rightarrow> http_error + single_answer \<Rightarrow> bool" where
  "answered_with i outcome answer =
     (case outcome of
        LoopAnswered a \<Rightarrow>
          (case answer of
             Inr x \<Rightarrow> sa_run x = i \<and> sa_status x = status_left outcome \<and> sa_passes x = ap_pass_count a \<and>
               sa_discovered x = length (ap_fields a) \<and> sa_tokens x = ap_tokens_used a
           | Inl _ \<Rightarrow> False)
      | LoopRaised e \<Rightarrow> answer = Inl (HttpError 500)
      | LoopCancelled \<Rightarrow> answer = Inl CancelledRequest)"

lemma ending_left: "ls_status (ending outcome (new_run i t d e)) = status_left outcome" "ls_fields (ending outcome (new_run i t d e)) = fields_left outcome"
  by (simp_all add: ending_def status_left_def fields_left_def after_failure_def after_response_def new_run_def split: loop_end.splits)

definition request_done :: "'d run_store \<Rightarrow> int \<Rightarrow> string \<Rightarrow> loop_end \<Rightarrow> 'd \<Rightarrow> (http_error + single_answer) \<times> 'd converge_api \<Rightarrow> bool" where
  "request_done ops now i outcome db res \<longleftrightarrow>
     run_recorded ops now i (status_left outcome) (fields_left outcome) (Some db) (cv_store (snd res)) \<and> answered_with i outcome (fst res)"

context checkpoint_store
begin

lemma end_recorded:
  assumes "kept (last_save t1 t2 outcome) now"
  shows "run_recorded (ops_of save load act) now i (status_left outcome) (fields_left outcome)
    (Some db) (Some (end_saved (ops_of save load act) t2 outcome (new_run i t1 d e) (save t1 (new_run i t1 d e) db)))"
proof (cases "outcome = LoopCancelled")
  case True
  then show ?thesis using assms load_saved [of now "new_run i t1 d e" t1 db] ending_left [of LoopCancelled i t1 d e]
    by (simp add: run_recorded_def ops_of_def end_saved_def last_save_def load_other seen_status seen_fields ending_def)
next
  case False
  then show ?thesis using assms load_saved [of now "ending outcome (new_run i t1 d e)" t2 "save t1 (new_run i t1 d e) db"]
    by (simp add: run_recorded_def ops_of_def end_saved_def last_save_def load_other seen_status seen_fields ending_left)
qed

lemma single_done:
  assumes "cv_store api = Some db" and "kept (last_save t1 t2 (single_outcome loop body)) now"
  shows "request_done (ops_of save load act) now i (single_outcome loop body) db (converge_single (ops_of save load act) loop rate t1 t2 i body api)"
proof -
  have "answered_with i (single_outcome loop body) (fst (converge_single (ops_of save load act) loop rate t1 t2 i body api))"
    unfolding single_answer [OF assms(1)]
    by (simp add: answered_with_def answer_of_def after_response_def status_left_def split: loop_end.splits)
  with end_recorded [OF assms(2)] show ?thesis by (simp add: request_done_def single_store [OF assms(1)] ops_of_def)
qed

end

lemma ops_are: "redis_ops ttl ord = ops_of (redis_save ttl) redis_load (redis_list_active ord)"
  "pg_ops = ops_of pg_save (\<lambda>now. pg_load) (\<lambda>now. pg_list_active)" "mem_ops = ops_of (\<lambda>t. mem_save) (\<lambda>now. mem_load) (\<lambda>now. mem_list_active)"
  by (simp_all add: ops_of_def redis_ops_def pg_ops_def mem_ops_def)

lemma api_store_some: "cv_store (configure db reg specs) = Some db"
  by (simp add: configure_def)

text \<open>
  C31: a converge request that is not cancelled ends its run. When the loop answers, the run is stored as CONVERGED
  or FAILED by the state of the response, with its fields, and the client gets the run with that status, the passes,
  the tokens and the number of fields; when the loop raises an exception, the run is stored as FAILED without fields
  and the client gets a 500. A cancelled request ends with the cancellation and leaves its run RUNNING without
  fields. No other run is touched. All this holds over the in-process store, PostgreSQL, and Redis until the time to
  live since the last save of the run has passed, as long as the operations of the store themselves succeed.
\<close>

theorem request_ends_its_run:
  assumes "now < last_save t1 t2 (single_outcome loop body) + ttl"
  shows "request_done mem_ops now i (single_outcome loop body) m (converge_single mem_ops loop rate t1 t2 i body (configure m reg specs)) \<and>
    request_done pg_ops now i (single_outcome loop body) p (converge_single pg_ops loop rate t1 t2 i body (configure p reg specs)) \<and>
    request_done (redis_ops ttl ord) now i (single_outcome loop body) r (converge_single (redis_ops ttl ord) loop rate t1 t2 i body (configure r reg specs))"
  unfolding ops_are
  by (intro conjI mem_store.single_done pg_store.single_done redis_store.single_done api_store_some) (simp_all add: assms)

definition sample_body :: converge_body where
  "sample_body = \<lparr>cb_entity = [(''id'', PStr ''e1'')], cb_object_type = ''Account'', cb_domain = ''plastics'', cb_objective = ''all'',
     cb_max_passes = 5, cb_max_budget = 50000, cb_threshold = f_of_int 2, cb_approval = ''auto'', cb_key = None\<rparr>"

theorem request_ends_its_run_witness:
  "run_recorded (redis_ops 86400 (\<lambda>ks. ks)) 10 ''r1'' RunFailed [] (Some [])
       (cv_store (snd (converge_single (redis_ops 86400 (\<lambda>ks. ks)) (\<lambda>rq cfg. LoopRaised ''down'') 1 0 5 ''r1'' sample_body (configure [] [] []))))"
  using request_ends_its_run [of 10 0 5 "\<lambda>rq cfg. LoopRaised ''down''" sample_body 86400 "''r1''" "[]" 1 "[]" "[]" "[]" "\<lambda>ks. ks" "[]"]
  by (simp add: request_done_def last_save_def single_outcome_def status_left_def fields_left_def)

text \<open>
  A client that disconnects in the middle of a request leaves its run RUNNING for good: nothing else ever writes
  the run of a request.
\<close>

theorem cancelled_run_stays_running:
  "map_option ls_status (mem_load ''r1'' (the (cv_store (snd
     (converge_single mem_ops (\<lambda>rq cfg. LoopCancelled) 1 0 5 ''r1'' sample_body (configure [] [] [])))))) = Some RunActive"
  by code_simp

section \<open>A finished batch leaves no run running\<close>

type_synonym batch_item = "fields \<times> int \<times> int \<times> string"

definition item_run :: "batch_item \<Rightarrow> string" where
  "item_run x = snd (snd (snd x))"

definition item_end :: "batch_item \<Rightarrow> int" where
  "item_end x = fst (snd (snd x))"

definition ended :: "run_state option \<Rightarrow> bool" where
  "ended loaded \<longleftrightarrow> (case loaded of Some s \<Rightarrow> ls_status s \<in> {RunConverged, RunFailed} | None \<Rightarrow> False)"

lemma batch_one_store:
  assumes "batch_one ops loop p d (entity, t1, t2, i) b = (err, b')"
  shows "(err = None \<longrightarrow> bp_runs b' = bp_runs b @ [i] \<and> bp_processed b' \<le> bp_processed b + 1 \<and>
      (\<exists>outcome. outcome \<noteq> LoopCancelled \<and>
        bp_store b' = so_save ops t2 (ending outcome (new_run i t1 d entity)) (so_save ops t1 (new_run i t1 d entity) (bp_store b)))) \<and>
    (err \<noteq> None \<longrightarrow> bp_runs b' = bp_runs b \<and> bp_processed b' = bp_processed b \<and>
      (bp_store b' = bp_store b \<or> bp_store b' = so_save ops t1 (new_run i t1 d entity) (bp_store b)))"
proof (cases "batch_request p entity")
  case (Inl e)
  with assms show ?thesis by (auto simp: batch_one_def)
next
  case (Inr rq)
  show ?thesis
  proof (cases "loop rq (batch_config p)")
    case (LoopAnswered r)
    with assms Inr show ?thesis by (auto simp: batch_one_def Let_def ending_def intro!: exI [of _ "LoopAnswered r"])
  next
    case (LoopRaised e)
    with assms Inr show ?thesis by (auto simp: batch_one_def Let_def ending_def intro!: exI [of _ "LoopRaised e"])
  next
    case LoopCancelled
    with assms Inr show ?thesis by (auto simp: batch_one_def Let_def)
  qed
qed

context checkpoint_store
begin

lemma batch_one_ends:
  assumes "batch_one (ops_of save load act) loop p d x b = (None, b')" and "kept (item_end x) now"
    and "item_run x \<notin> set (bp_runs b)" and "\<forall>i \<in> set (bp_runs b). ended (load now i (bp_store b))"
  shows "\<forall>i \<in> set (bp_runs b'). ended (load now i (bp_store b'))"
proof -
  obtain entity t1 t2 i where x: "x = (entity, t1, t2, i)" by (cases x)
  note one = batch_one_store [OF assms(1) [unfolded x]]
  then obtain outcome where st: "outcome \<noteq> LoopCancelled" "bp_store b' = save t2 (ending outcome (new_run i t1 d entity)) (save t1 (new_run i t1 d entity) (bp_store b))"
    by (auto simp: ops_of_def)
  have "ended (load now i (bp_store b'))"
    using load_saved [of now "ending outcome (new_run i t1 d entity)" t2] assms(2) x ending_status [OF st(1), of "new_run i t1 d entity"] st
    by (simp add: ended_def seen_status item_end_def)
  moreover have "ended (load now j (bp_store b'))" if "j \<in> set (bp_runs b)" for j
  proof -
    have "j \<noteq> i" using assms(3) x that by (auto simp: item_run_def)
    with assms(4) that st show ?thesis by (simp add: load_other)
  qed
  ultimately show ?thesis using one by auto
qed

lemma batch_one_aborts:
  assumes "batch_one (ops_of save load act) loop p d x b = (Some e, b')" and "item_run x \<notin> set (bp_runs b)"
    and "\<forall>i \<in> set (bp_runs b). ended (load now i (bp_store b))"
  shows "bp_runs b' = bp_runs b \<and> bp_processed b' = bp_processed b \<and> (\<forall>i \<in> set (bp_runs b). ended (load now i (bp_store b')))"
proof -
  obtain entity t1 t2 i where x: "x = (entity, t1, t2, i)" by (cases x)
  have "bp_store b' = bp_store b \<or> bp_store b' = save t1 (new_run i t1 d entity) (bp_store b)"
    using batch_one_store [OF assms(1) [unfolded x]] by (simp add: ops_of_def)
  moreover have "j \<noteq> i" if "j \<in> set (bp_runs b)" for j using assms(2) x that by (auto simp: item_run_def)
  ultimately have "\<forall>j \<in> set (bp_runs b). ended (load now j (bp_store b'))" using assms(3) by (auto simp: load_other)
  with batch_one_store [OF assms(1) [unfolded x]] show ?thesis by simp
qed

lemma batch_runs_end:
  assumes "distinct (bp_runs b @ map item_run xs)" and "\<forall>x \<in> set xs. kept (item_end x) now"
    and "\<forall>i \<in> set (bp_runs b). ended (load now i (bp_store b))" and "bp_processed b \<le> length (bp_runs b)"
    and "batch_loop (ops_of save load act) loop p d xs b = (err, b')"
  shows "(\<forall>i \<in> set (bp_runs b'). ended (load now i (bp_store b'))) \<and> bp_processed b' \<le> length (bp_runs b') \<and>
    (\<exists>rest. bp_runs b @ map item_run xs = bp_runs b' @ rest \<and> (err = None \<longrightarrow> rest = []))"
  using assms
proof (induction xs arbitrary: b)
  case (Cons x xs)
  have new: "item_run x \<notin> set (bp_runs b)" using Cons.prems(1) by auto
  obtain err1 b1 where one: "batch_one (ops_of save load act) loop p d x b = (err1, b1)" by fastforce
  show ?case
  proof (cases err1)
    case (Some e)
    with one batch_one_aborts [of act loop p d x b e b1 now] new Cons.prems show ?thesis by auto
  next
    case None
    have runs: "bp_runs b1 = bp_runs b @ [item_run x]" "bp_processed b1 \<le> bp_processed b + 1"
      using batch_one_store [of "ops_of save load act" loop p d "fst x" "fst (snd x)" "fst (snd (snd x))" "snd (snd (snd x))" b err1 b1] one None
      by (simp_all add: item_run_def)
    have "(\<forall>i \<in> set (bp_runs b'). ended (load now i (bp_store b'))) \<and> bp_processed b' \<le> length (bp_runs b') \<and>
      (\<exists>rest. bp_runs b1 @ map item_run xs = bp_runs b' @ rest \<and> (err = None \<longrightarrow> rest = []))"
      by (rule Cons.IH) (use Cons.prems runs one None batch_one_ends [of act loop p d x b b1 now] new in auto)
    then show ?thesis using runs by simp
  qed
qed auto

end

text \<open>
  No finished run of a batch is left running. Over the in-process store, whatever the loop answers or raises for
  each entity and also when an entity that is no valid request or a cancellation aborts the batch, every run the
  batch has worked off is stored as CONVERGED or FAILED; the runs worked off are the first of the batch, all of them
  unless it was aborted, and at most as many entities count as processed. The run a cancellation interrupts stays
  RUNNING, as for a single request.
\<close>

theorem batch_leaves_nothing_running:
  assumes "distinct (map item_run xs)"
    and "batch_loop mem_ops loop p d xs (batch_start db) = (err, b)"
  shows "(\<forall>i \<in> set (bp_runs b). ended (mem_load i (bp_store b))) \<and> bp_processed b \<le> length (bp_runs b) \<and>
    (\<exists>rest. map item_run xs = bp_runs b @ rest \<and> (err = None \<longrightarrow> rest = []))"
  using mem_store.batch_runs_end [where b = "batch_start db" and xs = xs and b' = b and err = err and loop = loop and p = p and d = d] assms
  by (simp add: ops_are batch_start_def)

definition batch_profile_sample :: profile where
  "batch_profile_sample = \<lparr>pf_name = ''nightly'', pf_criteria = default_criteria, pf_batch_size = 1, pf_budget = 1000, pf_convergence = False, pf_passes = 3\<rparr>"

definition batch_items_sample :: "batch_item list" where
  "batch_items_sample = [([(''id'', PInt 1)], 0, 1, ''r1''), ([(''object_type'', PInt 5)], 2, 3, ''r2''), ([(''id'', PInt 3)], 4, 5, ''r3'')]"

lemma batch_sample_runs:
  "map_prod id bp_runs (batch_loop mem_ops (\<lambda>rq cfg. LoopRaised ''down'') batch_profile_sample [] batch_items_sample
     (batch_start [])) = (Some (Unhandled ValueError), [''r1''])"
  by code_simp

theorem batch_leaves_nothing_running_witness:
  "\<exists>err b. batch_loop mem_ops (\<lambda>rq cfg. LoopRaised ''down'') batch_profile_sample [] batch_items_sample
       (batch_start []) = (err, b) \<and>
     err = Some (Unhandled ValueError) \<and> bp_runs b = [''r1''] \<and> ended (mem_load ''r1'' (bp_store b))"
proof -
  obtain err b where e: "batch_loop mem_ops (\<lambda>rq cfg. LoopRaised ''down'') batch_profile_sample [] batch_items_sample
       (batch_start []) = (err, b)" by (cases rule: prod.exhaust)
  have "distinct (map item_run batch_items_sample)" by (simp add: batch_items_sample_def item_run_def)
  from batch_leaves_nothing_running [OF this e] e batch_sample_runs show ?thesis by auto
qed

text \<open>The answer to a batch names every entity of the body as selected, also those past the batch size.\<close>

theorem batch_overstates_selected:
  "map_sum (\<lambda>e. e) (\<lambda>a. (rb_selected a, length (rb_runs a)))
     (fst (converge_batch mem_ops (\<lambda>rq cfg. LoopRaised ''down'') 1 (\<lambda>k. (0, 1, str_int (int k)))
       \<lparr>bb_profile_name = None, bb_inline = Some batch_profile_sample, bb_domain = [], bb_entities = [[], [], []]\<rparr> (configure [] [] []))) = Inr (3, 1)"
  by code_simp

section \<open>Approval cannot happen\<close>

inductive api_reach ::
  "'d run_store \<Rightarrow> loop_call \<Rightarrow> f64 \<Rightarrow> (rat \<Rightarrow> f64) \<Rightarrow> (pyval list \<Rightarrow> pyval) \<Rightarrow> 'd converge_api \<Rightarrow> 'd converge_api \<Rightarrow> bool"
  for ops :: "'d run_store" and loop rate fsqrt pick start where
  api_start: "api_reach ops loop rate fsqrt pick start start"
| api_single: "api_reach ops loop rate fsqrt pick start api \<Longrightarrow>
    api_reach ops loop rate fsqrt pick start (snd (converge_single ops loop rate t1 t2 i body api))"
| api_batch: "api_reach ops loop rate fsqrt pick start api \<Longrightarrow>
    api_reach ops loop rate fsqrt pick start (snd (converge_batch ops loop rate ticks bbody api))"
| api_approve: "api_reach ops loop rate fsqrt pick start api \<Longrightarrow>
    api_reach ops loop rate fsqrt pick start (snd (approve_proposals fsqrt pick ops now run decisions api))"

lemma batch_store:
  "cv_store (snd (converge_batch ops loop rate ticks body api)) = cv_store api \<or>
   (\<exists>db p xs. cv_store api = Some db \<and>
      cv_store (snd (converge_batch ops loop rate ticks body api)) = Some (bp_store (snd (batch_loop ops loop p (bb_domain body) xs (batch_start db)))))"
proof (cases "cv_profiles api")
  case (Some reg)
  show ?thesis
  proof (cases "cv_store api")
    case store: (Some db)
    show ?thesis
    proof (cases "profile_for body reg")
      case pf: (Some p)
      let ?xs = "map2 (\<lambda>e k. (e, ticks k)) (take (nat (pf_batch_size p)) (bb_entities body)) [0..<length (bb_entities body)]"
      obtain err b where run: "batch_loop ops loop p (bb_domain body) ?xs (batch_start db) = (err, b)" by (cases rule: prod.exhaust)
      show ?thesis
      proof (cases "bb_entities body = []")
        case True
        with Some store pf show ?thesis by (simp add: converge_batch_def get_profile_registry_def get_state_store_def)
      next
        case False
        have "cv_store (snd (converge_batch ops loop rate ticks body api)) = Some (bp_store b)"
          using Some store pf False run by (cases err) (simp_all add: converge_batch_def get_profile_registry_def get_state_store_def Let_def)
        with store run show ?thesis by (metis snd_conv)
      qed
    qed (use Some store in \<open>simp add: converge_batch_def get_profile_registry_def get_state_store_def\<close>)
  qed (use Some in \<open>simp add: converge_batch_def get_profile_registry_def get_state_store_def\<close>)
qed (simp add: converge_batch_def get_profile_registry_def)

definition none_held :: "(int \<Rightarrow> string \<Rightarrow> 'd \<Rightarrow> run_state option) \<Rightarrow> 'd \<Rightarrow> bool" where
  "none_held load db \<longleftrightarrow> (\<forall>now run s. load now run db = Some s \<longrightarrow> ls_status s \<noteq> RunHumanHold)"

context checkpoint_store
begin

lemma save_not_held: "none_held load db \<Longrightarrow> ls_status s \<noteq> RunHumanHold \<Longrightarrow> none_held load (save t s db)"
  unfolding none_held_def by (metis load_other load_saved option.distinct(1) option.inject seen_status)

lemma ending_not_held: "ls_status s \<noteq> RunHumanHold \<Longrightarrow> ls_status (ending outcome s) \<noteq> RunHumanHold"
  by (simp add: ending_def after_failure_def after_response_def split: loop_end.splits)

lemma batch_none_held:
  assumes "none_held load (bp_store b)"
  shows "none_held load (bp_store (snd (batch_loop (ops_of save load act) loop p d xs b)))"
  using assms
proof (induction xs arbitrary: b)
  case (Cons x xs)
  obtain entity t1 t2 i where x: "x = (entity, t1, t2, i)" by (cases x)
  obtain err b1 where one: "batch_one (ops_of save load act) loop p d x b = (err, b1)" by fastforce
  have "none_held load (bp_store b1)"
    using batch_one_store [OF one [unfolded x]] Cons.prems by (cases err) (auto simp: ops_of_def save_not_held ending_not_held)
  with Cons.IH one Cons.prems show ?case by (simp split: option.split)
qed simp

definition api_free :: "'d converge_api \<Rightarrow> bool" where
  "api_free api \<longleftrightarrow> (\<forall>db. cv_store api = Some db \<longrightarrow> none_held load db)"

lemma approve_refused:
  assumes "api_free api"
  shows "\<exists>e. approve_proposals fsqrt pick (ops_of save load act) now run decisions api = (Inl (HttpError e), api) \<and> e \<in> {404, 409, 503}"
proof (cases "cv_store api")
  case None
  then show ?thesis by (simp add: approve_proposals_def get_convergence_status_def get_state_store_def)
next
  case (Some db)
  then show ?thesis
  proof (cases "load now run db")
    case None
    with Some show ?thesis by (simp add: approve_proposals_def get_convergence_status_def get_state_store_def ops_of_def)
  next
    case (Some s)
    with assms \<open>cv_store api = Some db\<close> have "ls_status s \<noteq> RunHumanHold" by (auto simp: api_free_def none_held_def)
    with Some \<open>cv_store api = Some db\<close> show ?thesis
      by (simp add: approve_proposals_def get_convergence_status_def get_state_store_def ops_of_def)
  qed
qed

lemma reach_free:
  assumes "api_reach (ops_of save load act) loop rate fsqrt pick a api" and "api_free a"
  shows "api_free api"
  using assms
proof (induction rule: api_reach.induct)
  case (api_single api t1 t2 i body)
  show ?case
  proof (cases "cv_store api")
    case None
    then have "converge_single (ops_of save load act) loop rate t1 t2 i body api = (Inl (HttpError 503), api)"
      by (simp add: converge_single_def get_state_store_def)
    with api_single show ?thesis by simp
  next
    case (Some db)
    with api_single have "none_held load db" by (simp add: api_free_def)
    then have "none_held load (end_saved (ops_of save load act) t2 (single_outcome loop body) (new_run i t1 (cb_domain body) (cb_entity body))
        (save t1 (new_run i t1 (cb_domain body) (cb_entity body)) db))"
      using ending_not_held by (simp add: end_saved_def ops_of_def save_not_held)
    then show ?thesis using single_store [OF Some, of "ops_of save load act"] by (simp add: api_free_def ops_of_def)
  qed
next
  case (api_batch api ticks bbody)
  then have free: "api_free api" by simp
  let ?after = "cv_store (snd (converge_batch (ops_of save load act) loop rate ticks bbody api))"
  show ?case
  proof (cases "?after = cv_store api")
    case True
    with free show ?thesis by (simp add: api_free_def)
  next
    case False
    then obtain db p xs where "cv_store api = Some db"
      and "?after = Some (bp_store (snd (batch_loop (ops_of save load act) loop p (bb_domain bbody) xs (batch_start db))))"
      using batch_store [of "ops_of save load act" loop rate ticks bbody api] by blast
    with free batch_none_held [of "batch_start db" act loop p "bb_domain bbody" xs] show ?thesis
      by (simp add: api_free_def batch_start_def)
  qed
next
  case (api_approve api now run decisions)
  with approve_refused [of api fsqrt pick act now run decisions] show ?case by auto
qed

end

text \<open>
  Approval cannot happen. From a store without runs, after any sequence of requests, batches and approvals, an
  approval is refused and changes nothing, and no proposal is pending in Redis: no operation ever puts a run
  on hold.
\<close>

theorem approval_unreachable:
  assumes "api_reach (redis_ops ttl ord) loop rate fsqrt pick (configure [] reg specs) api"
  shows "(\<exists>e. approve_proposals fsqrt pick (redis_ops ttl ord) now run decisions api = (Inl (HttpError e), api) \<and> e \<in> {404, 409, 503}) \<and>
    get_pending_proposals fsqrt pick (redis_ops ttl ord) now domain_id api \<in> {Inr [], Inl (HttpError 503)}"
proof
  have free: "redis_store.api_free (configure [] reg specs)"
    unfolding redis_store.api_free_def by (simp add: configure_def none_held_def redis_load_def redis_get_def)
  show "\<exists>e. approve_proposals fsqrt pick (redis_ops ttl ord) now run decisions api = (Inl (HttpError e), api) \<and> e \<in> {404, 409, 503}"
    unfolding ops_are by (rule redis_store.approve_refused, rule redis_store.reach_free [OF assms [unfolded ops_are] free])
  have "filter (\<lambda>s. ls_status s = RunHumanHold) (redis_list_active ord now (Some domain_id) db) = []" for db
    using redis_list_status by (force simp: filter_empty_conv)
  then show "get_pending_proposals fsqrt pick (redis_ops ttl ord) now domain_id api \<in> {Inr [], Inl (HttpError 503)}"
    by (auto simp: get_pending_proposals_def get_state_store_def redis_ops_def lift_http_def split: option.splits)
qed

theorem approval_unreachable_witness:
  "\<exists>e. approve_proposals (\<lambda>q. 0) hd (redis_ops 100 (\<lambda>ks. ks)) 7 ''r1'' [] (configure [] [] [(''plastics'', [(''version'', PStr ''1.0.0'')])]) =
     (Inl (HttpError e), configure [] [] [(''plastics'', [(''version'', PStr ''1.0.0'')])]) \<and> e \<in> {404, 409, 503}"
  using approval_unreachable [where ttl = 100 and ord = "\<lambda>ks. ks" and fsqrt = "\<lambda>q. 0" and pick = hd and now = 7 and run = "''r1''"
    and decisions = "[]" and reg = "[]" and specs = "[(''plastics'', [(''version'', PStr ''1.0.0'')])]", OF api_start] by blast

section \<open>What a held run would propose\<close>

definition unsure :: "(string, field_acc) dict \<Rightarrow> bool" where
  "unsure stats \<longleftrightarrow> (\<forall>acc \<in> set (dvalues stats). set (fa_confidences acc) \<subseteq> {0})"

lemma note_field_unsure:
  assumes "unsure stats" and "note_field raw [] existing fv stats = Inr stats'"
  shows "unsure stats'"
proof -
  obtain f v where fv: "fv = (f, v)" by (cases fv)
  have acc: "set (fa_confidences (dget_or stats f new_acc)) \<subseteq> {0}"
    using assms(1) by (fastforce simp: unsure_def dget_or_def new_acc_def split: option.splits dest: map_of_SomeD)
  show ?thesis
  proof (cases "f \<in> set existing \<or> stats' = stats")
    case True
    with assms fv show ?thesis by (auto simp: note_field_def Let_def)
  next
    case False
    then obtain acc' where s: "stats' = dset f acc' stats" and c: "set (fa_confidences acc') \<subseteq> {0}"
      using assms(2) fv acc by (auto simp: note_field_def Let_def bind_res_Inr_iff dget_or_def split: if_splits)
    have "acc'' = acc' \<or> acc'' \<in> set (dvalues stats)" if "acc'' \<in> set (dvalues stats')" for acc''
      using dvalues_dset [of f acc' stats] that s by auto
    with assms(1) c show ?thesis unfolding unsure_def by blast
  qed
qed

lemma fold_unsure:
  "fold_res (note_field raw [] existing) fs stats = Inr stats' \<Longrightarrow> unsure stats \<Longrightarrow> unsure stats'"
  by (induction fs arbitrary: stats) (auto simp: bind_res_Inr_iff note_field_unsure)

lemma zero_mean: "set xs \<subseteq> {0} \<Longrightarrow> stat_mean xs = 0"
proof -
  assume "set xs \<subseteq> {0}"
  then have "sum_list (map to_rat xs) = 0" by (induction xs) (simp_all add: zero_f64.rep_eq)
  then show ?thesis by (simp add: stat_mean_def exact_mean_def)
qed

text \<open>
  Nothing. The proposer reads the confidences of a run through an attribute that \<open>FieldConfidenceMap\<close> does not
  have, so each field counts with confidence 0 and none is proposed: an approval would only raise the version.
\<close>

theorem run_proposes_nothing:
  assumes "propose fsqrt pick [run_result s] spec domain_id = Inr ps"
  shows "pr_fields ps = [] \<and> pr_gates ps = [] \<and> pr_dims ps = []"
proof -
  obtain existing stats where st: "fold_res (note_field (ConfValue PNone) [] existing) (ls_fields s) [] = Inr stats"
    and fps: "pr_fields ps = sort_key (\<lambda>p. (- to_rat (fp_fill p), - to_rat (fp_confidence p))) (projr (build_field_proposals fsqrt pick stats 1))"
    and ok: "\<exists>x. build_field_proposals fsqrt pick stats 1 = Inr x"
    and gs: "pr_gates ps = propose_gates (pr_fields ps)" "pr_dims ps = propose_scoring_dimensions (pr_fields ps)"
    using assms by (cases "dget_or spec ''domain'' (PStr [])"; cases "domain_id = []")
      (auto simp: propose_def run_result_def process_result_fields_def build_confidence_map_def bind_res_Inr_iff Let_def)
  have "unsure stats" by (rule fold_unsure [OF st]) (simp add: unsure_def)
  then have "confidence_of acc = 0" if "acc \<in> set (dvalues stats)" for acc
    using that zero_mean by (auto simp: unsure_def confidence_of_def)
  moreover have "(0 :: f64) < flt (7 / 10)" by (simp add: f64_eval)
  ultimately have "filter (worth_proposing 1) stats = []" by (force simp: filter_empty_conv worth_proposing_def)
  then have "build_field_proposals fsqrt pick stats 1 = Inr []" by (simp add: build_field_proposals_def)
  then show ?thesis using fps gs by (simp add: propose_gates_def propose_scoring_dimensions_def)
qed

end
