(* ===== verification/Endpoints.thy ===== *)
theory Endpoints
  imports Handlers ConvergeApi KbIndex
begin

text \<open>
  The node around the handlers: start-up, registration with Gate, health and readiness (\<open>app/main.py\<close>), the
  registered actions (\<open>app/engines/orchestration_layer.py\<close>, \<open>app/services/chassis_handlers.py\<close>), API keys
  (\<open>app/core/auth.py\<close>) and the endpoints of \<open>app/api/v1/discover.py\<close> and \<open>app/api/v1/fields.py\<close>. What an attempt
  to register gives - a verdict or an exception - is the environment's. \<open>digest\<close> is SHA-256.
\<close>

section \<open>Registration\<close>

record node_settings =
  nd_enabled :: bool
  nd_gate_url :: string
  nd_internal_url :: string
  nd_interval :: f64

record node =
  no_registered :: "bool option"
  no_loop :: bool

definition stopped_node :: node where
  "stopped_node = \<lparr>no_registered = None, no_loop = False\<rparr>"

definition register_with_gate :: "node_settings \<Rightarrow> string + bool \<Rightarrow> string + bool option" where
  "register_with_gate st attempt =
     (if \<not> nd_enabled st \<or> nd_gate_url st = [] then Inr None
      else (case attempt of Inl e \<Rightarrow> Inl e | Inr b \<Rightarrow> Inr (Some b)))"

definition loop_applies :: "node_settings \<Rightarrow> bool" where
  "loop_applies st \<longleftrightarrow> nd_enabled st \<and> nd_gate_url st \<noteq> [] \<and> 0 < nd_interval st"

text \<open>The registration part of the start-up: an attempt that raises aborts it.\<close>

definition startup :: "node_settings \<Rightarrow> string + bool \<Rightarrow> node \<Rightarrow> string + node" where
  "startup st attempt n =
     bind_res (case no_registered n of None \<Rightarrow> register_with_gate st attempt | Some b \<Rightarrow> Inr (Some b)) (\<lambda>r.
       Inr \<lparr>no_registered = r, no_loop = loop_applies st\<rparr>)"

text \<open>A cycle of the loop: the verdict replaces the state, an exception leaves it.\<close>

definition reregister :: "node_settings \<Rightarrow> string + bool \<Rightarrow> node \<Rightarrow> node" where
  "reregister st attempt n = (case register_with_gate st attempt of Inl e \<Rightarrow> n | Inr r \<Rightarrow> n\<lparr>no_registered := r\<rparr>)"

definition reregistration_loop :: "node_settings \<Rightarrow> (string + bool) list \<Rightarrow> node \<Rightarrow> node" where
  "reregistration_loop st attempts n = (if no_loop n then fold (reregister st) attempts n else n)"

definition shutdown :: "node \<Rightarrow> node" where
  "shutdown n = \<lparr>no_registered = None, no_loop = False\<rparr>"

datatype gate_registration = RegDisabled | RegDone | RegFailed | RegNotAttempted

definition gate_registration_state :: "node_settings \<Rightarrow> node \<Rightarrow> gate_registration" where
  "gate_registration_state st n =
     (if \<not> nd_enabled st \<or> nd_gate_url st = [] then RegDisabled
      else (case no_registered n of Some True \<Rightarrow> RegDone | Some False \<Rightarrow> RegFailed | None \<Rightarrow> RegNotAttempted))"

definition degraded_states :: "gate_registration list" where
  "degraded_states = [RegFailed, RegNotAttempted]"

record health_answer =
  ha_degraded :: bool
  ha_registration :: gate_registration
  ha_kb_loaded :: bool
  ha_polymers :: nat
  ha_grades :: nat
  ha_rules :: nat
  ha_registered :: "bool option"

definition health_check :: "node_settings \<Rightarrow> kb_index option \<Rightarrow> node \<Rightarrow> health_answer" where
  "health_check st kb n =
     (let ix = (case kb of Some ix \<Rightarrow> ix | None \<Rightarrow> empty_index); r = gate_registration_state st n
      in \<lparr>ha_degraded = (r \<in> set degraded_states), ha_registration = r, ha_kb_loaded = kb_is_loaded ix,
          ha_polymers = length (ki_polymers ix), ha_grades = total_grades ix, ha_rules = total_rules ix, ha_registered = no_registered n\<rparr>)"

definition readiness_check :: "node_settings \<Rightarrow> node \<Rightarrow> int \<times> bool \<times> gate_registration" where
  "readiness_check st n =
     (let r = gate_registration_state st n; ready = (r \<notin> set degraded_states) in (if ready then 200 else 503, ready, r))"

section \<open>What the node advertises and serves\<close>

definition advertised_actions :: "string list" where
  "advertised_actions = [''converge'', ''graph-inference-result'', ''enrich'', ''enrich-and-sync'']"

definition runtime_allowed_actions :: "string list" where
  "runtime_allowed_actions =
     [''community-export'', ''converge'', ''discover'', ''enrich'', ''enrich-and-sync'', ''enrichbatch'', ''graph-inference-result'',
      ''schema-proposal'', ''simulate'', ''writeback'']"

text \<open>The registry of handlers: names of actions in the order they are registered.\<close>

definition register_handler :: "string \<Rightarrow> string list \<Rightarrow> string list" where
  "register_handler a xs = (if a \<in> set xs then xs else xs @ [a])"

definition register_orchestration :: "string list \<Rightarrow> string list" where
  "register_orchestration =
     fold register_handler [''enrich'', ''enrichbatch'', ''converge'', ''discover'', ''simulate'', ''writeback'', ''enrich-and-sync'']"

definition register_all_handlers :: "string list \<Rightarrow> string list" where
  "register_all_handlers = fold register_handler [''graph-inference-result'', ''community-export'', ''schema-proposal'']"

definition served_actions :: "string list" where
  "served_actions = register_all_handlers (register_orchestration [])"

record registration_record =
  rg_name :: string
  rg_url :: string
  rg_actions :: "string list"
  rg_health :: string
  rg_timeout_ms :: int

fun drop_slashes :: "string \<Rightarrow> string" where
  "drop_slashes [] = []"
| "drop_slashes (c # cs) = (if c = CHR ''/'' then drop_slashes cs else c # cs)"

definition build_node_registration :: "node_settings \<Rightarrow> registration_record" where
  "build_node_registration st =
     \<lparr>rg_name = ''enrichment-engine'',
      rg_url = rev (drop_slashes (rev (py_strip (if nd_internal_url st \<noteq> [] then nd_internal_url st else ''http://enrichment-engine:8000'')))),
      rg_actions = advertised_actions, rg_health = ''/api/v1/health'',
      rg_timeout_ms = py_trunc (canonical_converge_budget_seconds * f_of_int 1000)\<rparr>"

definition verify_api_key :: "(string \<Rightarrow> string) \<Rightarrow> string \<Rightarrow> string option \<Rightarrow> http_error + string" where
  "verify_api_key digest stored key =
     (case key of
        Some (c # cs) \<Rightarrow> if digest (c # cs) = stored then Inr (c # cs) else Inl (HttpError 403)
      | _ \<Rightarrow> Inl (HttpError 401))"

section \<open>The composite and supplemental handlers\<close>

definition handle_enrich_and_sync :: "call_env \<Rightarrow> string \<Rightarrow> fields \<Rightarrow> service \<Rightarrow> (handler_error + api_response \<times> bool) \<times> service" where
  "handle_enrich_and_sync ce tenant payload sv =
     (case handle_enrich ce tenant payload sv of
        (Inl e, sv') \<Rightarrow> (Inl e, sv')
      | (Inr r, sv') \<Rightarrow> (Inr (r, ap_state r = ''completed''), sv'))"

definition community_output :: "pyval \<Rightarrow> pyerr + pyval option" where
  "community_output c =
     (case c of
        PDict d \<Rightarrow>
          Inr (if truthy (dget_or d ''entity_id'' PNone) \<and> dget_or d ''community_id'' PNone \<noteq> PNone
               then Some (PDict [(''entity_id'', dget_or d ''entity_id'' PNone), (''field'', PStr ''community_id''),
                                 (''value'', dget_or d ''community_id'' PNone), (''confidence'', PFloat (flt (19 / 20))),
                                 (''rule'', PStr ''louvain_community_detection'')])
               else None)
      | _ \<Rightarrow> Inl AttributeError)"

definition tenant_of_payload :: "string \<Rightarrow> fields \<Rightarrow> pyval" where
  "tenant_of_payload tenant payload =
     (let t = dget_or payload ''tenant_id'' PNone in if truthy t then t else PStr tenant)"

text \<open>\<open>create_transport_packet\<close> takes a tenant that is a text.\<close>

definition handle_community_export :: "f64 \<Rightarrow> string \<Rightarrow> string \<Rightarrow> fields \<Rightarrow> channel \<Rightarrow> (channel_error + nat) \<times> channel" where
  "handle_community_export now packet_id tenant payload ch =
     (let communities = dget_or payload ''communities'' (PList [])
      in if \<not> truthy communities then (Inr 0, ch)
         else (case bind_res (py_iter communities) (map_res community_output) of
                 Inl e \<Rightarrow> (Inl (channel_error.Uncaught e), ch)
               | Inr outs \<Rightarrow>
                   (let kept = List.map_filter (\<lambda>x. x) outs
                    in if kept = [] then (Inr 0, ch)
                       else (case tenant_of_payload tenant payload of
                               PStr t \<Rightarrow>
                                 (case submit now \<lparr>pk_action = ''graph-inference-result'', pk_payload = [(''inference_outputs'', PList kept)],
                                                  pk_tenant = t, pk_id = packet_id\<rparr> ch of
                                    Inl e \<Rightarrow> (Inl e, ch)
                                  | Inr (n, ch') \<Rightarrow> (Inr n, ch'))
                             | _ \<Rightarrow> (Inl TransportValidationError, ch)))))"

definition handle_schema_proposal :: "string \<Rightarrow> fields \<Rightarrow> pyerr + nat" where
  "handle_schema_proposal tenant payload =
     (case dget_or payload ''proposed_fields'' (PList []) of
        PList xs \<Rightarrow> Inr (length xs) | PDict d \<Rightarrow> Inr (length d) | PStr s \<Rightarrow> Inr (length s) | _ \<Rightarrow> Inl TypeError)"

definition enrich_batch_endpoint :: "(api_request \<Rightarrow> api_response) \<Rightarrow> api_request list \<Rightarrow> nat \<times> nat \<times> nat \<times> int" where
  "enrich_batch_endpoint enrich rqs =
     (let results = map enrich rqs
      in (length results, length (filter (\<lambda>r. ap_state r = ''completed'') results), length (filter (\<lambda>r. ap_state r = ''failed'') results),
          sum_list (map ap_tokens_used results)))"

section \<open>Discovery\<close>

definition discover_payload :: "string \<Rightarrow> string \<Rightarrow> string \<Rightarrow> fields" where
  "discover_payload entity_id domain_id object_type =
     [(''entity'', PDict [(''id'', PStr entity_id)]), (''entity_id'', PStr entity_id), (''object_type'', PStr object_type),
      (''domain'', PStr domain_id), (''objective'', PStr (''Schema discovery for domain '' @ [CHR 0x27] @ domain_id @ [CHR 0x27]))]"

definition discover_schema :: "call_env \<Rightarrow> string \<Rightarrow> string \<Rightarrow> string \<Rightarrow> http_error + api_response \<times> discovery_proposal" where
  "discover_schema ce entity_id domain_id object_type =
     (case handle_discover ce (discover_payload entity_id domain_id object_type) of
        Inl e \<Rightarrow> Inl (HttpError 500) | Inr x \<Rightarrow> Inr x)"

definition scan_endpoint :: "(string \<Rightarrow> string) \<Rightarrow> crm_field list \<Rightarrow> string \<Rightarrow> 'd converge_api \<Rightarrow> http_error + scan_result" where
  "scan_endpoint h fs domain_id api =
     (case dget (cv_specs api) domain_id of
        Some (s # ss) \<Rightarrow> (case scan_crm_fields h fs (s # ss) of Inl e \<Rightarrow> Inl (HttpError 500) | Inr r \<Rightarrow> Inr r)
      | _ \<Rightarrow> Inl (HttpError 404))"

definition get_proposals :: "proposal_row list \<Rightarrow> string \<Rightarrow> string \<Rightarrow> proposal_row list" where
  "get_proposals rows tenant domain_id = pending_proposals rows tenant domain_id"

definition approve_proposal :: "nat \<Rightarrow> string \<Rightarrow> bool \<Rightarrow> proposal_row list \<Rightarrow> string \<times> proposal_row list" where
  "approve_proposal i reviewer approved rows =
     (if approved then ''approved'' else ''rejected'', approve_schema_proposal i reviewer approved rows)"

section \<open>Field confidences of an entity\<close>

definition field_history :: "result_table \<Rightarrow> string \<Rightarrow> string \<Rightarrow> string \<Rightarrow> history_row list" where
  "field_history rows tenant entity f =
     sort_key hr_pass (concat (map (\<lambda>r. if rr_tenant r = tenant \<and> result_row.rr_entity r = entity then filter (\<lambda>h. hr_field h = f) (rr_history r) else []) rows))"

record field_entry =
  fd_value :: pyval
  fd_confidence :: f64
  fd_source :: string
  fd_pass :: int

text \<open>A confidence that is recorded is one a column of numbers took.\<close>

definition field_entry_of :: "result_table \<Rightarrow> string \<Rightarrow> string \<Rightarrow> result_row \<Rightarrow> string \<times> pyval \<Rightarrow> string \<times> field_entry" where
  "field_entry_of rows tenant entity newest fv =
     (fst fv,
      (case field_history rows tenant entity (fst fv) of
         [] \<Rightarrow> \<lparr>fd_value = snd fv, fd_confidence = rr_confidence newest, fd_source = ''enrichment'', fd_pass = rr_pass_count newest\<rparr>
       | hs \<Rightarrow> \<lparr>fd_value = snd fv, fd_confidence = safe_float (hr_confidence (last hs)) 0, fd_source = hr_source (last hs), fd_pass = hr_pass (last hs)\<rparr>))"

record fields_answer =
  fa_fields :: "(string, field_entry) dict"
  fa_average :: f64
  fa_coverage :: f64

definition get_field_confidence_map :: "result_table \<Rightarrow> string \<Rightarrow> string \<Rightarrow> http_error + fields_answer" where
  "get_field_confidence_map rows tenant entity =
     (case latest_for_entity rows tenant entity of
        None \<Rightarrow> Inl (HttpError 404)
      | Some newest \<Rightarrow>
          (let es = map (field_entry_of rows tenant entity newest) (rr_fields newest); n = int (length es);
               total = foldl (+) 0 (map (fd_confidence \<circ> snd) es)
           in Inr \<lparr>fa_fields = es, fa_average = py_round 4 (if n \<noteq> 0 then total / f_of_int n else 0),
                   fa_coverage = py_round 4 (py_int_div n (max n 1))\<rparr>))"

definition get_field_confidence_history :: "result_table \<Rightarrow> string \<Rightarrow> string \<Rightarrow> string \<Rightarrow> http_error + history_row list" where
  "get_field_confidence_history rows tenant entity f =
     (case field_history rows tenant entity f of [] \<Rightarrow> Inl (HttpError 404) | h # hs \<Rightarrow> Inr (h # hs))"

section \<open>Readiness follows Gate\<close>

text \<open>The verdicts among the attempts of the loop: those that did not raise.\<close>

fun verdicts :: "(string + bool) list \<Rightarrow> bool list" where
  "verdicts [] = []"
| "verdicts (Inl e # xs) = verdicts xs"
| "verdicts (Inr b # xs) = b # verdicts xs"

lemma reregister_disabled: "\<not> (nd_enabled st \<and> nd_gate_url st \<noteq> []) \<Longrightarrow> no_registered n = None \<Longrightarrow> no_registered (fold (reregister st) xs n) = None"
  by (induction xs arbitrary: n) (auto simp: reregister_def register_with_gate_def)

lemma reregister_enabled:
  assumes "nd_enabled st" and "nd_gate_url st \<noteq> []"
  shows "no_registered n = Some b \<Longrightarrow> no_registered (fold (reregister st) xs n) = Some (last (b # verdicts xs))"
proof (induction xs arbitrary: n b)
  case (Cons x xs)
  then show ?case using assms by (cases x) (simp_all add: reregister_def register_with_gate_def)
qed simp

lemma reregister_loop [simp]: "no_loop (fold (reregister st) xs n) = no_loop n"
  by (induction xs arbitrary: n) (simp_all add: reregister_def split: sum.splits)

definition gate_applies :: "node_settings \<Rightarrow> bool" where
  "gate_applies st \<longleftrightarrow> nd_enabled st \<and> nd_gate_url st \<noteq> []"

text \<open>
  Readiness follows Gate. After a start-up whose attempt gave a verdict and any number of later attempts,
  the node is ready exactly when registration does not apply or the last verdict was an acceptance: an
  attempt that raised changes nothing, and without the loop the first verdict stands. Health is degraded
  exactly when the node is not ready, and stays reachable either way.
\<close>

theorem readiness_follows_gate:
  "case startup st (Inr b) stopped_node of
     Inl e \<Rightarrow> False
   | Inr n0 \<Rightarrow>
       (let n = reregistration_loop st attempts n0;
            accepted = (if gate_applies st then last (b # (if 0 < nd_interval st then verdicts attempts else [])) else True)
        in fst (readiness_check st n) = (if accepted then 200 else 503) \<and> (ha_degraded (health_check st kb n) \<longleftrightarrow> \<not> accepted))"
proof (cases "gate_applies st")
  case False
  have "gate_registration_state st n = RegDisabled" for n using False by (auto simp: gate_registration_state_def gate_applies_def)
  then show ?thesis using False
    by (auto simp: startup_def stopped_node_def register_with_gate_def gate_applies_def readiness_check_def health_check_def degraded_states_def Let_def)
next
  case True
  then have en: "nd_enabled st" "nd_gate_url st \<noteq> []" by (auto simp: gate_applies_def)
  let ?n0 = "\<lparr>no_registered = Some b, no_loop = loop_applies st\<rparr>"
  have start: "startup st (Inr b) stopped_node = Inr ?n0" using en by (simp add: startup_def stopped_node_def register_with_gate_def)
  have "no_registered (reregistration_loop st attempts ?n0) = Some (last (b # (if 0 < nd_interval st then verdicts attempts else [])))"
    using reregister_enabled [OF en, of ?n0 b attempts] en by (auto simp: reregistration_loop_def loop_applies_def)
  then have "gate_registration_state st (reregistration_loop st attempts ?n0) =
      (if last (b # (if 0 < nd_interval st then verdicts attempts else [])) then RegDone else RegFailed)"
    using en by (auto simp: gate_registration_state_def split: bool.splits)
  then show ?thesis unfolding start using True by (simp add: readiness_check_def health_check_def degraded_states_def Let_def)
qed

text \<open>A start after a shutdown is a first start: the old verdict is gone.\<close>

lemma restart_forgets: "startup st attempt (shutdown n) = startup st attempt stopped_node"
  by (simp add: startup_def shutdown_def stopped_node_def)

text \<open>The first attempt is said to be non-fatal, but one that raises ends the start-up; only the loop survives it.\<close>

theorem first_attempt_can_abort_startup:
  "startup \<lparr>nd_enabled = True, nd_gate_url = ''http://gate'', nd_internal_url = [], nd_interval = f_of_int 300\<rparr> (Inl ''refused'') stopped_node = Inl ''refused'' \<and>
   reregister \<lparr>nd_enabled = True, nd_gate_url = ''http://gate'', nd_internal_url = [], nd_interval = f_of_int 300\<rparr> (Inl ''refused'') stopped_node = stopped_node"
  by (simp add: startup_def register_with_gate_def reregister_def stopped_node_def)

text \<open>
  The node serves what it advertises: each action of its registration with Gate has a handler, the
  handlers are exactly the actions its runtime allows, and the timeout it advertises is its own budget of 25
  seconds.
\<close>

theorem advertised_actions_served:
  "set (rg_actions (build_node_registration st)) \<subseteq> set served_actions \<and> set served_actions = set runtime_allowed_actions \<and>
   rg_timeout_ms (build_node_registration st) = 25000"
proof (intro conjI)
  show "set (rg_actions (build_node_registration st)) \<subseteq> set served_actions"
    by (simp add: build_node_registration_def advertised_actions_def served_actions_def register_all_handlers_def
        register_orchestration_def register_handler_def)
  show "set served_actions = set runtime_allowed_actions"
    by (simp add: served_actions_def register_all_handlers_def register_orchestration_def register_handler_def runtime_allowed_actions_def insert_commute)
  show "rg_timeout_ms (build_node_registration st) = 25000"
    by (simp add: build_node_registration_def canonical_converge_budget_seconds_def py_trunc_def f64_eval)
qed

section \<open>Tenants and confidences\<close>

text \<open>The tenant of a community export is the one its payload names: a sender reaches the queue of another tenant.\<close>

theorem community_export_crosses_tenants:
  "ch_queues (snd (handle_community_export 0 ''p1'' ''tenant-a''
     [(''tenant_id'', PStr ''tenant-b''), (''communities'', PList [PDict [(''entity_id'', PStr ''e1''), (''community_id'', PInt 7)]])] (new_channel 0))) =
   [(''tenant-b'', [\<lparr>et_entity = ''e1'', et_tenant = ''tenant-b'', et_field = ''community_id'', et_value = PInt 7, et_confidence = flt (19 / 20),
                    et_packet = ''p1'', et_rule = ''louvain_community_detection'', et_created = 0\<rparr>])]"
  by code_simp

lemma field_entries_of_latest:
  assumes "get_field_confidence_map rows tenant entity = Inr a"
  shows "\<exists>r. latest_for_entity rows tenant entity = Some r \<and> map (\<lambda>(f, e). (f, fd_value e)) (fa_fields a) = rr_fields r \<and>
    fa_coverage a = (if rr_fields r = [] then 0 else 1)"
proof -
  obtain r where r: "latest_for_entity rows tenant entity = Some r"
    using assms by (auto simp: get_field_confidence_map_def split: option.splits)
  have "(\<lambda>(f, e). (f, fd_value e)) (field_entry_of rows tenant entity r fv) = fv" for fv
    by (simp add: field_entry_of_def split: list.splits)
  then have vals: "map ((\<lambda>(f, e). (f, fd_value e)) \<circ> field_entry_of rows tenant entity r) (rr_fields r) = rr_fields r"
    by (simp add: map_idI)
  have one: "py_round 4 (1 :: f64) = 1" by code_simp
  have zero: "py_round 4 (0 :: f64) = 0" by code_simp
  show ?thesis using assms r vals one zero
    by (cases "rr_fields r") (auto simp: get_field_confidence_map_def Let_def max_def)
qed

definition enriched_row :: "string \<Rightarrow> pyval \<Rightarrow> f64 \<Rightarrow> int \<Rightarrow> result_row" where
  "enriched_row f v c n =
     \<lparr>rr_tenant = ''t'', rr_entity = ''e'', rr_object_type = ''Account'', rr_domain = None, rr_key = None, rr_fields = [(f, v)],
      rr_confidence = c, rr_state = ''completed'', rr_pass_count = n, rr_tokens = 0, rr_failure = None,
      rr_history = history_of [(f, PFloat c)] [(f, v)] n\<rparr>"

text \<open>
  The confidence of a field is the one recorded for its highest pass, of whichever run: after a run of five
  passes and a later one of a single pass, the value is the later one and the confidence the earlier.
\<close>

theorem confidence_of_an_older_run:
  "map_sum id (\<lambda>a. map (\<lambda>(f, e). (f, fd_value e, fd_confidence e, fd_pass e)) (fa_fields a))
     (get_field_confidence_map [enriched_row ''mfi'' (PInt 1) 1 5, enriched_row ''mfi'' (PInt 2) 0 1] ''t'' ''e'') =
   Inr [(''mfi'', PInt 2, 1, 5)]"
  by code_simp

text \<open>A review of a proposal that does not exist is reported as recorded.\<close>

theorem unknown_proposal_approved: "approve_proposal 3 ''me'' True [] = (''approved'', [])"
  by (simp add: approve_proposal_def approve_schema_proposal_def)

end
