(* ===== verification/Agents.thy ===== *)
theory Agents
  imports DerivationGraph PyOps PyNumbers
begin

text \<open>
  The agents of \<open>agents/\<close>: the data-hygiene report, the risk of a deal, the routing of a lead, the hand-off
  document, and the MCP server that offers them as tools. Records of the CRM are dicts of values of any type.
  Descriptions and reasons are fixed sentences; the model keeps the fact a sentence states (\<open>risk_factor\<close>,
  \<open>route_reason\<close>, \<open>handoff_flag\<close>) in place of its text. Times are not modelled.
\<close>

section \<open>Data hygiene\<close>

record hygiene_action =
  hy_record :: pyval
  hy_type :: string
  hy_priority :: string
  hy_affected :: "string list"

record hygiene_report =
  hr_total :: nat
  hr_quality :: f64
  hr_actions :: "hygiene_action list"
  hr_summary :: "(string, int) dict"

definition required_fields :: "string \<Rightarrow> string list" where
  "required_fields domain =
     (if domain = ''company'' then
        [''company_name'', ''company_domain'', ''company_industry'', ''employee_count'', ''company_location_country'']
      else if domain = ''contact'' then [''contact_email'', ''contact_first_name'', ''contact_last_name'', ''contact_title'']
      else if domain = ''opportunity'' then
        [''opportunity_name'', ''opportunity_stage'', ''opportunity_close_date'', ''opportunity_amount'']
      else [])"

text \<open>\<open>record.get(f) in (None, "")\<close>\<close>

definition unfilled :: "fields \<Rightarrow> string \<Rightarrow> bool" where
  "unfilled r f \<longleftrightarrow> dget_or r f PNone \<in> {PNone, PStr []}"

definition hygiene_id :: "fields \<Rightarrow> pyval" where
  "hygiene_id r = dget_or r ''id'' (dget_or r ''record_id'' (PStr ''unknown''))"

definition bad_email :: "fields \<Rightarrow> pyerr + bool" where
  "bad_email r =
     (let email = dget_or r ''contact_email'' (PStr [])
      in if truthy email then bind_res (py_in (PStr ''@'') email) (\<lambda>b. Inr (\<not> b)) else Inr False)"

definition assess_record :: "fields \<Rightarrow> string list \<Rightarrow> pyerr + hygiene_action list" where
  "assess_record r req =
     (let i = hygiene_id r; missing = filter (unfilled r) req;
          fill = (if missing \<noteq> [] then [\<lparr>hy_record = i, hy_type = ''enrich'',
                    hy_priority = (if 3 < length missing then ''high'' else ''medium''), hy_affected = missing\<rparr>] else []);
          never = (if \<not> truthy (dget_or r ''last_enriched_at'' (PStr [])) then
                     [\<lparr>hy_record = i, hy_type = ''enrich'', hy_priority = ''medium'', hy_affected = []\<rparr>] else [])
      in bind_res (bad_email r) (\<lambda>bad.
           Inr (fill @ (if bad then [\<lparr>hy_record = i, hy_type = ''validate'', hy_priority = ''high'',
                                     hy_affected = [''contact_email'']\<rparr>] else []) @ never)))"

type_synonym hygiene_progress = "hygiene_action list \<times> (string, int) dict \<times> f64"

definition count_action :: "hygiene_action \<Rightarrow> (string, int) dict \<Rightarrow> (string, int) dict" where
  "count_action a d = dset (hy_type a) (dget_or d (hy_type a) 0 + 1) d"

definition filled_share :: "string list \<Rightarrow> fields \<Rightarrow> f64" where
  "filled_share req r = (if req = [] then 0 else py_int_div (int (length (filter (\<lambda>f. \<not> unfilled r f) req))) (int (length req)))"

definition hygiene_one :: "string list \<Rightarrow> fields \<Rightarrow> hygiene_progress \<Rightarrow> pyerr + hygiene_progress" where
  "hygiene_one req r s =
     (case s of (acts, counts, t) \<Rightarrow>
        bind_res (assess_record r req) (\<lambda>as. Inr (acts @ as, fold count_action as counts, t + filled_share req r)))"

definition hygiene_assess :: "fields list \<Rightarrow> string \<Rightarrow> pyerr + hygiene_report" where
  "hygiene_assess rs domain =
     bind_res (fold_err (hygiene_one (required_fields domain)) rs ([], [], 0)) (\<lambda>(acts, counts, t).
       Inr \<lparr>hr_total = length rs, hr_quality = (if rs = [] then 0 else t / f_of_int (int (length rs))),
            hr_actions = acts, hr_summary = counts\<rparr>)"

section \<open>The risk of a deal\<close>

datatype risk_factor =
    MissingFields "string list"
  | LowQuality f64
  | HighProbabilityEarly
  | LowProbabilityLate
  | NoDecisionMaker
  | ManyCompetitors int

record risk_assessment =
  ra_score :: f64
  ra_level :: string
  ra_factors :: "risk_factor list"
  ra_recommendations :: "string list"
  ra_dimensions :: "(string, f64) dict"

definition deal_advice :: "risk_factor \<Rightarrow> string" where
  "deal_advice f =
     (case f of
        MissingFields fs \<Rightarrow> ''Run enrichment to fill missing deal fields''
      | LowQuality q \<Rightarrow> ''Trigger waterfall enrichment for account data''
      | HighProbabilityEarly \<Rightarrow> ''Validate stage progression criteria''
      | LowProbabilityLate \<Rightarrow> ''Review deal blockers with rep''
      | NoDecisionMaker \<Rightarrow> ''Map buying committee and identify champion''
      | ManyCompetitors n \<Rightarrow> ''Develop competitive differentiation strategy'')"

definition deal_fields :: "string list" where
  "deal_fields = [''opportunity_name'', ''opportunity_stage'', ''opportunity_amount'', ''opportunity_close_date'',
     ''opportunity_account_id'']"

definition missing_deal_fields :: "fields \<Rightarrow> string list" where
  "missing_deal_fields d = filter (\<lambda>f. \<not> truthy (dget_or d f PNone)) deal_fields"

definition deal_probability :: "fields \<Rightarrow> pyval" where
  "deal_probability d =
     (case dget_or d ''opportunity_probability'' (PInt 0) of
        PStr s \<Rightarrow> (case py_float (PStr s) of Inr x \<Rightarrow> PFloat x | Inl e \<Rightarrow> PInt 0)
      | v \<Rightarrow> v)"

definition lt_num :: "pyval \<Rightarrow> rat \<Rightarrow> pyerr + bool" where
  "lt_num v q = (case py_num v of Some x \<Rightarrow> Inr (x < q) | None \<Rightarrow> Inl TypeError)"

definition timeline_risk :: "fields \<Rightarrow> pyerr + f64 \<times> risk_factor list" where
  "timeline_risk d =
     (let stage = dget_or d ''opportunity_stage'' (PStr []); p = deal_probability d
      in bind_res (and_res (Inr (stage \<in> {PStr ''discovery'', PStr ''qualification''})) (gt_num p 50)) (\<lambda>early.
           if early then Inr (flt (3 / 5), [HighProbabilityEarly])
           else bind_res (and_res (Inr (stage \<in> {PStr ''negotiation'', PStr ''closed_won''})) (lt_num p 30)) (\<lambda>late.
             if late then Inr (flt (7 / 10), [LowProbabilityLate]) else Inr (0, []))))"

definition decides :: "pyval \<Rightarrow> pyerr + bool" where
  "decides s =
     (case s of
        PDict d \<Rightarrow>
          (case dget_or d ''role'' (PStr []) of
             PStr r \<Rightarrow> Inr (py_lower r \<in> {''decision_maker'', ''economic_buyer'', ''champion''})
           | _ \<Rightarrow> Inl AttributeError)
      | _ \<Rightarrow> Inr False)"

definition has_decision_maker :: "fields \<Rightarrow> pyerr + bool" where
  "has_decision_maker d = bind_res (py_iter (dget_or d ''opportunity_stakeholders'' (PList []))) (any_res decides)"

definition competitive_risk :: "fields \<Rightarrow> pyerr + f64 \<times> risk_factor list" where
  "competitive_risk d =
     bind_res (py_len (dget_or d ''opportunity_competitors'' (PList []))) (\<lambda>n.
       Inr (if 0 < n then min (f_of_int n * flt (1 / 5)) (flt (4 / 5)) else 0, if 2 < n then [ManyCompetitors n] else []))"

definition risk_weights :: "(string, f64) dict" where
  "risk_weights = [(''data_completeness'', flt (1 / 5)), (''enrichment_quality'', flt (1 / 4)), (''timeline'', flt (1 / 5)),
     (''stakeholder_coverage'', flt (1 / 5)), (''competitive_pressure'', flt (3 / 20))]"

definition risk_level :: "f64 \<Rightarrow> string" where
  "risk_level s =
     (if s < flt (1 / 4) then ''low'' else if s < flt (1 / 2) then ''medium'' else if s < flt (3 / 4) then ''high'' else ''critical'')"

definition deal_risk :: "fields \<Rightarrow> f64 \<Rightarrow> pyerr + risk_assessment" where
  "deal_risk d quality =
     (let missing = missing_deal_fields d
      in bind_res (timeline_risk d) (\<lambda>(timeline, tf).
         bind_res (has_decision_maker d) (\<lambda>decided.
         bind_res (competitive_risk d) (\<lambda>(competitive, cf).
           let dims = [(''data_completeness'', py_int_div (int (length missing)) (int (length deal_fields))),
                       (''enrichment_quality'', max 0 (1 - quality)), (''timeline'', timeline),
                       (''stakeholder_coverage'', if decided then 0 else flt (1 / 2)), (''competitive_pressure'', competitive)];
               factors = (if missing \<noteq> [] then [MissingFields missing] else []) @
                         (if quality < flt (1 / 2) then [LowQuality quality] else []) @ tf @
                         (if decided then [] else [NoDecisionMaker]) @ cf;
               score = min (py_sum (map (\<lambda>(k, w). dget_or dims k 0 * w) risk_weights)) 1
           in Inr \<lparr>ra_score = score, ra_level = risk_level score, ra_factors = factors,
                   ra_recommendations = map deal_advice factors, ra_dimensions = dims\<rparr>))))"

section \<open>Routing a lead\<close>

datatype route_reason = TerritoryMatch | IndustryMatch | DealSizeFits | GoodEnrichment | HasCapacity | NearCapacity

type_synonym scored_rep = "pyval \<times> f64 \<times> route_reason list"

record routing_decision =
  rd_rep :: pyval
  rd_confidence :: f64
  rd_reasons :: "route_reason list"
  rd_fallbacks :: "pyval list"
  rd_breakdown :: "(pyval, f64) dict"

definition or_res :: "'e + bool \<Rightarrow> 'e + bool \<Rightarrow> 'e + bool" where
  "or_res a b = bind_res a (\<lambda>x. if x then Inr True else b)"

text \<open>\<open>a <= b\<close> between two numbers; \<open>None\<close> is the infinite upper bound.\<close>

definition le_vals :: "pyval \<Rightarrow> pyval \<Rightarrow> pyerr + bool" where
  "le_vals a b = (case (py_num a, py_num b) of (Some x, Some y) \<Rightarrow> Inr (x \<le> y) | _ \<Rightarrow> Inl TypeError)"

definition size_fits :: "fields \<Rightarrow> fields \<Rightarrow> pyerr + bool" where
  "size_fits rep lead =
     (let deal = dget_or lead ''estimated_deal_size'' (PInt 0)
      in and_res (le_vals (dget_or rep ''min_deal_size'' (PInt 0)) deal)
           (case dget rep ''max_deal_size'' of
              None \<Rightarrow> (case py_num deal of Some x \<Rightarrow> Inr True | None \<Rightarrow> Inl TypeError)
            | Some m \<Rightarrow> le_vals deal m))"

definition has_capacity :: "fields \<Rightarrow> pyerr + bool" where
  "has_capacity rep =
     (case (py_num (dget_or rep ''current_pipeline_count'' (PInt 0)), py_float (dget_or rep ''max_pipeline'' (PInt 50))) of
        (Some x, Inr m) \<Rightarrow>
          (if is_number (dget_or rep ''max_pipeline'' (PInt 50)) then Inr (x < to_rat (m * flt (4 / 5))) else Inl TypeError)
      | _ \<Rightarrow> Inl TypeError)"

definition earn :: "bool \<Rightarrow> f64 \<Rightarrow> route_reason \<Rightarrow> f64 \<times> route_reason list \<Rightarrow> f64 \<times> route_reason list" where
  "earn b x r s = (if b then (fst s + x, snd s @ [r]) else s)"

definition rep_points :: "bool \<Rightarrow> bool \<Rightarrow> bool \<Rightarrow> bool \<Rightarrow> bool \<Rightarrow> f64 \<times> route_reason list" where
  "rep_points territory industry fits quality capacity =
     (let s = earn quality (flt (3 / 20)) GoodEnrichment (earn fits (flt (1 / 5)) DealSizeFits
                (earn industry (flt (1 / 4)) IndustryMatch (earn territory (flt (3 / 10)) TerritoryMatch (0, []))))
      in if capacity then (fst s + flt (1 / 10), snd s @ [HasCapacity]) else (fst s - flt (1 / 10), snd s @ [NearCapacity]))"

definition score_rep :: "fields \<Rightarrow> (string, f64) dict \<Rightarrow> pyval \<Rightarrow> pyerr + scored_rep" where
  "score_rep lead scores rep =
     (case rep of
        PDict d \<Rightarrow>
          (let text = (\<lambda>k. dget_or lead k (PStr [])); territories = dget_or d ''territories'' (PList [])
           in bind_res (or_res (py_in (text ''company_location_country'') territories) (py_in (text ''company_location_state'') territories)) (\<lambda>t.
              bind_res (py_in (text ''company_industry'') (dget_or d ''industries'' (PList []))) (\<lambda>i.
              bind_res (size_fits d lead) (\<lambda>f.
              bind_res (has_capacity d) (\<lambda>c.
                let (s, rs) = rep_points t i f (flt (4 / 5) < dget_or scores ''overall'' 0) c
                in Inr (dget_or d ''name'' (PStr ''unknown''), s, rs))))))
      | _ \<Rightarrow> Inl AttributeError)"

text \<open>The names of representatives are texts, so that equal names are equal values.\<close>

definition decide :: "scored_rep list \<Rightarrow> routing_decision" where
  "decide xs =
     (case xs of
        [] \<Rightarrow> \<lparr>rd_rep = PStr ''unassigned'', rd_confidence = 0, rd_reasons = [], rd_fallbacks = [], rd_breakdown = []\<rparr>
      | (n, s, rs) # rest \<Rightarrow>
          \<lparr>rd_rep = n, rd_confidence = min s 1, rd_reasons = rs, rd_fallbacks = map fst (take 2 rest),
           rd_breakdown = fold (\<lambda>(m, t, us). dset m t) xs []\<rparr>)"

definition lead_route :: "fields \<Rightarrow> fields \<Rightarrow> (string, f64) dict \<Rightarrow> pyerr + routing_decision" where
  "lead_route team lead scores =
     (let reps = dget_or team ''reps'' (PList [])
      in if \<not> truthy reps then Inr (decide [])
         else bind_res (py_iter reps) (\<lambda>rs. bind_res (map_res (score_rep lead scores) rs) (\<lambda>xs.
                Inr (decide (sort_desc (fst \<circ> snd) xs)))))"

section \<open>The hand-off document\<close>

datatype handoff_flag = NoStakeholders | NoIndustry | NoEngagement

text \<open>An entry of the engagement history, with a date that is a text.\<close>

record engagement =
  eg_date :: string
  eg_type :: pyval
  eg_summary :: pyval

record handoff_document =
  hd_deal :: pyval
  hd_account :: pyval
  hd_sections :: fields
  hd_actions :: "string list"
  hd_flags :: "handoff_flag list"

definition build_location :: "fields \<Rightarrow> pyerr + string" where
  "build_location d =
     (let parts = filter truthy (map (\<lambda>k. dget_or d k (PStr []))
                    [''company_location_city'', ''company_location_state'', ''company_location_country''])
      in bind_res (map_res (\<lambda>v. case v of PStr s \<Rightarrow> Inr s | _ \<Rightarrow> Inl TypeError) parts) (\<lambda>ss. Inr (join '', '' ss)))"

definition account_name :: "fields \<Rightarrow> fields \<Rightarrow> pyval" where
  "account_name deal enrich =
     (let a = dget_or deal ''account_name'' PNone in if truthy a then a else dget_or enrich ''company_name'' (PStr ''Unknown Account''))"

definition overview_section :: "pyval \<Rightarrow> string \<Rightarrow> fields \<Rightarrow> pyval" where
  "overview_section account loc enrich =
     PDict [(''company_name'', dget_or enrich ''company_name'' account), (''industry'', dget_or enrich ''company_industry'' (PStr ''Unknown'')),
            (''employee_count'', dget_or enrich ''employee_count'' PNone), (''location'', PStr loc),
            (''website'', dget_or enrich ''company_domain'' (PStr [])), (''description'', dget_or enrich ''company_description'' (PStr []))]"

definition deal_section :: "fields \<Rightarrow> pyval" where
  "deal_section deal =
     PDict [(''deal_name'', dget_or deal ''opportunity_name'' (PStr [])), (''amount'', dget_or deal ''opportunity_amount'' PNone),
            (''stage'', dget_or deal ''opportunity_stage'' (PStr [])), (''close_date'', dget_or deal ''opportunity_close_date'' (PStr [])),
            (''probability'', dget_or deal ''opportunity_probability'' PNone), (''deal_type'', dget_or deal ''deal_type'' (PStr ''new_business''))]"

definition contact_entry :: "pyval \<Rightarrow> pyval option" where
  "contact_entry s =
     (case s of
        PDict d \<Rightarrow> Some (PDict (map (\<lambda>k. (k, dget_or d k (PStr []))) [''name'', ''title'', ''role'', ''email'', ''phone'']))
      | _ \<Rightarrow> None)"

definition recent_engagements :: "engagement list \<Rightarrow> engagement list" where
  "recent_engagements es = take 10 (sort_desc eg_date es)"

definition highlight :: "engagement \<Rightarrow> pyval" where
  "highlight e = PDict [(''date'', PStr (eg_date e)), (''type'', eg_type e), (''summary'', eg_summary e)]"

definition implementation_section :: "fields \<Rightarrow> fields \<Rightarrow> pyval" where
  "implementation_section deal enrich =
     PDict [(''tech_stack'', dget_or enrich ''company_tech_stack'' (PList [])), (''integrations_needed'', dget_or deal ''integrations'' (PList [])),
            (''special_requirements'', dget_or deal ''special_requirements'' (PStr []))]"

definition handoff_flags :: "pyval \<Rightarrow> fields \<Rightarrow> engagement list \<Rightarrow> handoff_flag list" where
  "handoff_flags stakeholders enrich history =
     (if truthy stakeholders then [] else [NoStakeholders]) @
     (if truthy (dget_or enrich ''company_industry'' PNone) then [] else [NoIndustry]) @
     (if history = [] then [NoEngagement] else [])"

definition action_items :: "pyval \<Rightarrow> handoff_flag list \<Rightarrow> string list" where
  "action_items account flags =
     [''Schedule kickoff call with '' @ py_str account, ''Confirm primary contact for implementation'',
      ''Review technical requirements and integrations'', ''Set up customer success metrics and milestones''] @
     (if flags = [] then [] else [''Address risk flags before kickoff''])"

definition handoff_generate :: "fields \<Rightarrow> fields \<Rightarrow> engagement list \<Rightarrow> pyerr + handoff_document" where
  "handoff_generate deal enrich history =
     (let account = account_name deal enrich; stakeholders = dget_or deal ''opportunity_stakeholders'' (PList [])
      in bind_res (build_location enrich) (\<lambda>loc. bind_res (py_iter stakeholders) (\<lambda>ss.
           let flags = handoff_flags stakeholders enrich history
           in Inr \<lparr>hd_deal = dget_or deal ''opportunity_id'' (dget_or deal ''id'' (PStr ''unknown'')), hd_account = account,
                   hd_sections = [(''account_overview'', overview_section account loc enrich), (''deal_summary'', deal_section deal),
                                  (''key_contacts'', PList (List.map_filter contact_entry ss))] @
                     (if history = [] then [] else [(''engagement_highlights'', PList (map highlight (recent_engagements history)))]) @
                     [(''implementation'', implementation_section deal enrich)],
                   hd_actions = action_items account flags, hd_flags = flags\<rparr>)))"

section \<open>The MCP server\<close>

record mcp_param =
  mp_name :: string
  mp_type :: string
  mp_required :: bool

definition needed :: "string \<Rightarrow> string \<Rightarrow> mcp_param" where
  "needed n t = \<lparr>mp_name = n, mp_type = t, mp_required = True\<rparr>"

definition optional :: "string \<Rightarrow> string \<Rightarrow> mcp_param" where
  "optional n t = \<lparr>mp_name = n, mp_type = t, mp_required = False\<rparr>"

definition tool_registry :: "(string, mcp_param list) dict" where
  "tool_registry =
     [(''enrich_contact'', [needed ''domain'' ''string'', needed ''entity_name'' ''string'', optional ''entity_data'' ''object'',
                            optional ''quality_threshold'' ''number'']),
      (''lead_router'', [needed ''lead_data'' ''object'', optional ''team_config'' ''object'']),
      (''deal_risk'', [needed ''deal_data'' ''object'', optional ''historical_context'' ''object'']),
      (''data_hygiene'', [needed ''records'' ''array'', needed ''domain'' ''string'']),
      (''writeback'', [needed ''crm_type'' ''string'', needed ''object_type'' ''string'', needed ''record_id'' ''string'',
                       needed ''enriched_data'' ''object'', optional ''confidence_threshold'' ''number''])]"

definition resource_registry :: "string list" where
  "resource_registry = [''crm://contacts'', ''crm://companies'', ''pipeline://forecast'', ''enrichment://status'']"

definition action_map :: "(string, string) dict" where
  "action_map = [(''enrich_contact'', ''enrich''), (''lead_router'', ''enrich''), (''deal_risk'', ''enrich''),
     (''data_hygiene'', ''enrich''), (''writeback'', ''writeback'')]"

datatype mcp_answer =
    McpError int
  | ToolList "(string \<times> (string \<times> string) list \<times> string list) list"
  | ToolText string
  | ToolFailed string
  | ResourceList "string list"
  | ResourceStatus string

definition list_tools :: "mcp_answer" where
  "list_tools =
     ToolList (map (\<lambda>(n, ps). (n, map (\<lambda>p. (mp_name p, mp_type p)) ps, map mp_name (filter mp_required ps))) tool_registry)"

text \<open>
  A tool call: the dispatcher of the chassis is an argument, the text of its answer the function \<open>dump\<close>. An
  exception ends in the handler of \<open>handle_request\<close>.
\<close>

definition call_tool :: "(pyval \<Rightarrow> string) \<Rightarrow> (string \<Rightarrow> pyval \<Rightarrow> fields \<Rightarrow> string + pyval) option \<Rightarrow> fields \<Rightarrow> pyerr + mcp_answer" where
  "call_tool dump dispatch params =
     (let name = dget_or params ''name'' (PStr []); arguments = dget_or params ''arguments'' (PDict [])
      in if \<not> hashable_value name then Inl TypeError
         else (case name of
             PStr tool \<Rightarrow>
               (if \<not> dmem tool tool_registry then Inr (McpError (- 32602))
                else (case dispatch of
                        None \<Rightarrow> Inr (McpError (- 32603))
                      | Some run \<Rightarrow>
                          (case arguments of
                             PDict d \<Rightarrow>
                               (case run (dget_or action_map tool ''enrich'') (dget_or d ''tenant'' (PStr ''default'')) (dpop ''tenant'' d) of
                                  Inl e \<Rightarrow> Inr (ToolFailed e) | Inr r \<Rightarrow> Inr (ToolText (dump r)))
                           | PList xs \<Rightarrow> Inl TypeError
                           | _ \<Rightarrow> Inl AttributeError)))
           | _ \<Rightarrow> Inr (McpError (- 32602))))"

definition read_resource :: "fields \<Rightarrow> pyerr + mcp_answer" where
  "read_resource params =
     (let uri = dget_or params ''uri'' (PStr [])
      in if \<not> hashable_value uri then Inl TypeError
         else (case uri of PStr u \<Rightarrow> Inr (if u \<in> set resource_registry then ResourceStatus u else McpError (- 32602))
                 | _ \<Rightarrow> Inr (McpError (- 32602))))"

definition handle_request :: "(pyval \<Rightarrow> string) \<Rightarrow> (string \<Rightarrow> pyval \<Rightarrow> fields \<Rightarrow> string + pyval) option \<Rightarrow> string \<Rightarrow> fields \<Rightarrow> mcp_answer" where
  "handle_request dump dispatch method params =
     (let caught = (\<lambda>r. case r of Inl e \<Rightarrow> McpError (- 32603) | Inr a \<Rightarrow> a)
      in if method = ''tools/list'' then list_tools
         else if method = ''tools/call'' then caught (call_tool dump dispatch params)
         else if method = ''resources/list'' then ResourceList resource_registry
         else if method = ''resources/read'' then caught (read_resource params)
         else McpError (- 32601))"

section \<open>The hygiene report accounts for every record\<close>

lemma count_actions:
  "dget_or (fold count_action as d) t 0 = dget_or d t 0 + int (length (filter (\<lambda>a. hy_type a = t) as))"
  by (induction as arbitrary: d) (auto simp: count_action_def dget_or_def update_conv')

lemma hygiene_step:
  assumes "fold_err (hygiene_one req) (r # rs) (acts, counts, t) = Inr s"
  shows "\<exists>as. assess_record r req = Inr as \<and>
    fold_err (hygiene_one req) rs (acts @ as, fold count_action as counts, t + filled_share req r) = Inr s"
  using assms by (cases "assess_record r req") (simp_all add: hygiene_one_def [of req r "(acts, counts, t)"])

lemma hygiene_fold:
  assumes "fold_err (hygiene_one req) rs (acts, counts, t) = Inr (acts', counts', t')"
  shows "\<exists>parts. list_all2 (\<lambda>r as. assess_record r req = Inr as) rs parts \<and> acts' = acts @ concat parts \<and>
    counts' = fold count_action (concat parts) counts"
  using assms
proof (induction rs arbitrary: acts counts t)
  case (Cons r rs)
  from Cons.prems obtain as where as: "assess_record r req = Inr as"
    and rest: "fold_err (hygiene_one req) rs (acts @ as, fold count_action as counts, t + filled_share req r) = Inr (acts', counts', t')"
    using hygiene_step by blast
  from Cons.IH [OF rest] obtain parts where "list_all2 (\<lambda>r as. assess_record r req = Inr as) rs parts"
    and "acts' = (acts @ as) @ concat parts" and "counts' = fold count_action (concat parts) (fold count_action as counts)" by blast
  with as show ?case by (intro exI [of _ "as # parts"]) simp
qed simp

lemma filled_share_unit: "0 \<le> filled_share req r" "filled_share req r \<le> 1"
  using py_int_div_bounds [of "int (length (filter (\<lambda>f. \<not> unfilled r f) req))" "int (length req)"]
  by (auto simp: filled_share_def)

lemma add_one_exact: assumes "acc \<le> f_of_int k" and "x \<le> 1" and "0 \<le> k" and "k < 2 ^ 53" shows "acc + x \<le> f_of_int (k + 1)"
proof -
  have "acc + x \<le> f_of_int k + 1" using assms by (intro f64_add_mono)
  also have "\<dots> = f_of_int (k + 1)"
    using assms rnd_of_int [of k] rnd_of_int [of "k + 1"] by (simp add: f64_eq_iff plus_f64.rep_eq one_f64.rep_eq f_of_int_def)
  finally show ?thesis .
qed

lemma hygiene_total:
  assumes "fold_err (hygiene_one req) rs (acts, counts, t) = Inr (acts', counts', t')"
    and "0 \<le> t" and "t \<le> f_of_int k" and "0 \<le> k" and "k + int (length rs) \<le> 2 ^ 53"
  shows "0 \<le> t' \<and> t' \<le> f_of_int (k + int (length rs))"
  using assms
proof (induction rs arbitrary: acts counts t k)
  case (Cons r rs)
  from Cons.prems(1) obtain as where
    rest: "fold_err (hygiene_one req) rs (acts @ as, fold count_action as counts, t + filled_share req r) = Inr (acts', counts', t')"
    using hygiene_step by blast
  have "0 \<le> t + filled_share req r" using Cons.prems(2) filled_share_unit by blast
  moreover have "t + filled_share req r \<le> f_of_int (k + 1)" using Cons.prems filled_share_unit by (intro add_one_exact) auto
  ultimately show ?case using Cons.IH [OF rest, of "k + 1"] Cons.prems(4,5) by (simp add: algebra_simps)
qed simp

lemma assessed_record:
  assumes "assess_record r req = Inr as"
  shows "(\<forall>a \<in> set as. hy_record a = hygiene_id r \<and> (set (hy_affected a) \<subseteq> {f \<in> set req. unfilled r f} \<or> hy_affected a = [''contact_email''])) \<and>
    (\<forall>f \<in> set req. unfilled r f \<longrightarrow> (\<exists>a \<in> set as. hy_type a = ''enrich'' \<and> f \<in> set (hy_affected a)))"
  using assms by (auto simp: assess_record_def Let_def bind_res_Inr_iff filter_empty_conv split: if_splits)

text \<open>
  The hygiene report accounts for its records. The summary counts the actions of each type; every action is about
  a record of the batch and names only required fields it lacks, or its address; every required field a
  record lacks is named in an action to enrich it; and the quality score is in [0, 1] for batches of up to
  \<open>2^53\<close> records.
\<close>

theorem hygiene_report_accounts:
  assumes "hygiene_assess rs domain = Inr r" and "int (length rs) \<le> 2 ^ 53"
  shows "hr_total r = length rs \<and> 0 \<le> hr_quality r \<and> hr_quality r \<le> 1 \<and>
    (\<forall>t. dget_or (hr_summary r) t 0 = int (length (filter (\<lambda>a. hy_type a = t) (hr_actions r)))) \<and>
    (\<forall>a \<in> set (hr_actions r). \<exists>x \<in> set rs. hy_record a = hygiene_id x \<and>
       (set (hy_affected a) \<subseteq> {f \<in> set (required_fields domain). unfilled x f} \<or> hy_affected a = [''contact_email''])) \<and>
    (\<forall>x \<in> set rs. \<forall>f \<in> set (required_fields domain). unfilled x f \<longrightarrow>
       (\<exists>a \<in> set (hr_actions r). hy_type a = ''enrich'' \<and> hy_record a = hygiene_id x \<and> f \<in> set (hy_affected a)))"
proof -
  let ?req = "required_fields domain"
  from assms(1) obtain acts counts t where run: "fold_err (hygiene_one ?req) rs ([], [], 0) = Inr (acts, counts, t)"
    and r: "r = \<lparr>hr_total = length rs, hr_quality = (if rs = [] then 0 else t / f_of_int (int (length rs))), hr_actions = acts, hr_summary = counts\<rparr>"
    by (auto simp: hygiene_assess_def bind_res_Inr_iff)
  obtain parts where parts: "list_all2 (\<lambda>x as. assess_record x ?req = Inr as) rs parts" and acts: "acts = concat parts"
    and counts: "counts = fold count_action acts []" using hygiene_fold [OF run] by auto
  have t: "0 \<le> t" "t \<le> f_of_int (int (length rs))" using hygiene_total [OF run, of 0] assms(2) by auto
  have quality: "0 \<le> hr_quality r \<and> hr_quality r \<le> 1"
    using t f64_divide_le_1 [of "f_of_int (int (length rs))" t] f_of_int_pos [of "int (length rs)"]
    by (auto simp: r intro!: f64_divide_nonneg f_of_int_nonneg)
  have from_record: "\<exists>x \<in> set rs. \<exists>as. assess_record x ?req = Inr as \<and> a \<in> set as" if "a \<in> set acts" for a
    using that parts by (auto simp: acts list_all2_conv_all_nth in_set_conv_nth) (metis nth_mem)
  have to_actions: "\<exists>as. assess_record x ?req = Inr as \<and> set as \<subseteq> set acts" if "x \<in> set rs" for x
    using that parts by (auto simp: acts list_all2_conv_all_nth in_set_conv_nth) (metis nth_mem)
  show ?thesis
  proof (intro conjI allI ballI impI)
    show "dget_or (hr_summary r) t 0 = int (length (filter (\<lambda>a. hy_type a = t) (hr_actions r)))" for t
      by (simp add: r counts count_actions) (simp add: dget_or_def)
    show "\<exists>x \<in> set rs. hy_record a = hygiene_id x \<and>
       (set (hy_affected a) \<subseteq> {f \<in> set ?req. unfilled x f} \<or> hy_affected a = [''contact_email''])" if "a \<in> set (hr_actions r)" for a
      using from_record [of a] that assessed_record by (fastforce simp: r)
    show "\<exists>a \<in> set (hr_actions r). hy_type a = ''enrich'' \<and> hy_record a = hygiene_id x \<and> f \<in> set (hy_affected a)"
      if "x \<in> set rs" "f \<in> set ?req" "unfilled x f" for x f
      using to_actions [OF that(1)] that(2,3) assessed_record by (fastforce simp: r)
  qed (use quality in \<open>simp_all add: r\<close>)
qed

definition sample_crm_records :: "fields list" where
  "sample_crm_records =
     [[(''id'', PInt 1), (''contact_email'', PStr ''a.b''), (''contact_title'', PStr [])],
      [(''record_id'', PInt 2), (''contact_email'', PStr ''a@b''), (''contact_first_name'', PStr ''A''), (''contact_last_name'', PStr ''B''),
       (''contact_title'', PStr ''CEO''), (''last_enriched_at'', PStr ''2024'')]]"

lemma sample_hygiene: "\<not> isl (hygiene_assess sample_crm_records ''contact'')"
  by code_simp

theorem hygiene_report_accounts_witness:
  "\<exists>r. hygiene_assess sample_crm_records ''contact'' = Inr r \<and> hr_total r = 2 \<and> hr_quality r \<le> 1"
proof -
  obtain r where r: "hygiene_assess sample_crm_records ''contact'' = Inr r"
    using sample_hygiene by (cases "hygiene_assess sample_crm_records ''contact''") auto
  from hygiene_report_accounts [OF r] show ?thesis using r by (simp add: sample_crm_records_def)
qed

text \<open>A record whose address is a number aborts the report for the whole batch.\<close>

lemma numeric_address_aborts: "hygiene_assess (sample_crm_records @ [[(''contact_email'', PInt 5)]]) ''contact'' = Inl TypeError"
  by code_simp

section \<open>Deals\<close>

lemma deal_risk_parts:
  assumes "deal_risk d q = Inr r"
  obtains timeline tf decided competitive cf where "timeline_risk d = Inr (timeline, tf)" and "has_decision_maker d = Inr decided"
    and "competitive_risk d = Inr (competitive, cf)"
    and "ra_factors r = (if missing_deal_fields d \<noteq> [] then [MissingFields (missing_deal_fields d)] else []) @
      (if q < flt (1 / 2) then [LowQuality q] else []) @ tf @ (if decided then [] else [NoDecisionMaker]) @ cf"
    and "ra_dimensions r = [(''data_completeness'', py_int_div (int (length (missing_deal_fields d))) (int (length deal_fields))),
      (''enrichment_quality'', max 0 (1 - q)), (''timeline'', timeline), (''stakeholder_coverage'', if decided then 0 else flt (1 / 2)),
      (''competitive_pressure'', competitive)]"
    and "ra_recommendations r = map deal_advice (ra_factors r)" and "ra_level r = risk_level (ra_score r)" and "ra_score r \<le> 1"
  using assms by (auto simp: deal_risk_def Let_def bind_res_Inr_iff min_le_iff_disj)

lemma timeline_cases:
  assumes "timeline_risk d = Inr (x, fs)"
  shows "(x, fs) \<in> {(flt (3 / 5), [HighProbabilityEarly]), (flt (7 / 10), [LowProbabilityLate]), (0, [])}"
  using assms by (auto simp: timeline_risk_def Let_def bind_res_Inr_iff split: if_splits)

lemma competitive_bound: "competitive_risk d = Inr (x, fs) \<Longrightarrow> 0 \<le> x \<and> x \<le> flt (4 / 5) \<and> set fs \<subseteq> range ManyCompetitors"
  by (auto simp: competitive_risk_def bind_res_Inr_iff min_le_iff_disj intro!: f64_mult_nonneg f_of_int_nonneg flt_nonneg split: if_splits)

text \<open>
  An assessed deal has a score of at most 1 and the level of its score; each recommendation answers one risk
  factor; a factor on stakeholders is there exactly when no one on the deal decides, one on missing fields
  exactly when there are some, with those fields; at most one of the two timeline factors is there.
  With a quality in [0, 1] every dimension is in [0, 1].
\<close>

theorem deal_risk_justified:
  assumes "deal_risk d q = Inr r"
  shows "ra_score r \<le> 1 \<and> ra_level r = risk_level (ra_score r) \<and> ra_recommendations r = map deal_advice (ra_factors r) \<and>
    (NoDecisionMaker \<in> set (ra_factors r) \<longleftrightarrow> has_decision_maker d = Inr False) \<and>
    (\<forall>fs. MissingFields fs \<in> set (ra_factors r) \<longleftrightarrow> fs = missing_deal_fields d \<and> fs \<noteq> []) \<and>
    \<not> {HighProbabilityEarly, LowProbabilityLate} \<subseteq> set (ra_factors r) \<and>
    (0 \<le> q \<longrightarrow> q \<le> 1 \<longrightarrow> (\<forall>x \<in> set (dvalues (ra_dimensions r)). 0 \<le> x \<and> x \<le> 1))"
proof -
  from assms obtain timeline tf decided competitive cf where t: "timeline_risk d = Inr (timeline, tf)" and s: "has_decision_maker d = Inr decided"
    and c: "competitive_risk d = Inr (competitive, cf)"
    and factors: "ra_factors r = (if missing_deal_fields d \<noteq> [] then [MissingFields (missing_deal_fields d)] else []) @
      (if q < flt (1 / 2) then [LowQuality q] else []) @ tf @ (if decided then [] else [NoDecisionMaker]) @ cf"
    and dims: "ra_dimensions r = [(''data_completeness'', py_int_div (int (length (missing_deal_fields d))) (int (length deal_fields))),
      (''enrichment_quality'', max 0 (1 - q)), (''timeline'', timeline), (''stakeholder_coverage'', if decided then 0 else flt (1 / 2)),
      (''competitive_pressure'', competitive)]"
    and rest: "ra_recommendations r = map deal_advice (ra_factors r)" "ra_level r = risk_level (ra_score r)" "ra_score r \<le> 1"
    by (rule deal_risk_parts)
  have tl: "timeline \<in> {flt (3 / 5), flt (7 / 10), 0}" "tf \<in> {[HighProbabilityEarly], [LowProbabilityLate], []}"
    using timeline_cases [OF t] by auto
  have cp: "0 \<le> competitive" "competitive \<le> 1" "set cf \<subseteq> range ManyCompetitors"
    using competitive_bound [OF c] order_trans [OF _ flt_le_1 [of "4 / 5"], of competitive] by auto
  have share: "0 \<le> py_int_div (int (length (missing_deal_fields d))) (int (length deal_fields)) \<and>
    py_int_div (int (length (missing_deal_fields d))) (int (length deal_fields)) \<le> 1"
    using py_int_div_bounds [of "int (length (missing_deal_fields d))" "int (length deal_fields)"]
      length_filter_le [of _ deal_fields] by (simp add: missing_deal_fields_def deal_fields_def)
  have unit: "0 \<le> flt (3 / 5) \<and> flt (3 / 5) \<le> 1 \<and> 0 \<le> flt (7 / 10) \<and> flt (7 / 10) \<le> 1 \<and> 0 \<le> flt (1 / 2) \<and> flt (1 / 2) \<le> 1"
    by (intro conjI flt_nonneg flt_le_1) simp_all
  have quality: "0 \<le> q \<longrightarrow> 1 - q \<le> 1" using f64_diff_mono [of 1 1 0 q] by simp
  have "0 \<le> q \<longrightarrow> q \<le> 1 \<longrightarrow> (\<forall>x \<in> set (dvalues (ra_dimensions r)). 0 \<le> x \<and> x \<le> 1)"
    using tl(1) cp(1,2) share unit quality by (auto simp: dims)
  moreover have "NoDecisionMaker \<in> set (ra_factors r) \<longleftrightarrow> has_decision_maker d = Inr False"
    using tl(2) cp(3) s by (auto simp: factors)
  moreover have "MissingFields fs \<in> set (ra_factors r) \<longleftrightarrow> fs = missing_deal_fields d \<and> fs \<noteq> []" for fs
    using tl(2) cp(3) by (auto simp: factors)
  moreover have "\<not> {HighProbabilityEarly, LowProbabilityLate} \<subseteq> set (ra_factors r)"
    using tl(2) cp(3) by (auto simp: factors)
  ultimately show ?thesis using rest by blast
qed

lemma sample_deal: "\<not> isl (deal_risk [(''opportunity_stage'', PStr ''discovery''), (''opportunity_probability'', PStr ''80'')] (flt (9 / 10)))"
  by (simp add: deal_risk_def Let_def timeline_risk_def deal_probability_def has_decision_maker_def competitive_risk_def dget_or_def
      and_res_def bind_res_def py_len_def gt_num_def split: sum.split option.split)

theorem deal_risk_justified_witness:
  "\<exists>r. deal_risk [(''opportunity_stage'', PStr ''discovery''), (''opportunity_probability'', PStr ''80'')] (flt (9 / 10)) = Inr r \<and>
     NoDecisionMaker \<in> set (ra_factors r) \<and> ra_score r \<le> 1"
proof -
  let ?d = "[(''opportunity_stage'', PStr ''discovery''), (''opportunity_probability'', PStr ''80'')]"
  obtain r where r: "deal_risk ?d (flt (9 / 10)) = Inr r" using sample_deal by (cases "deal_risk ?d (flt (9 / 10))") auto
  have "has_decision_maker ?d = Inr False" by code_simp
  with deal_risk_justified [OF r] r show ?thesis by blast
qed

text \<open>A null list of competitors, as a CRM sends it for an empty field, aborts the assessment.\<close>

lemma null_competitors_abort: "deal_risk [(''opportunity_competitors'', PNone)] 1 = Inl TypeError"
  by code_simp

section \<open>Leads\<close>

lemma earn_range:
  assumes "0 \<le> fst s \<and> fst s \<le> u" and "0 \<le> x"
  shows "0 \<le> fst (earn b x r s) \<and> fst (earn b x r s) \<le> u + x"
  using assms f64_add_mono [of "fst s" u x x] f64_le_add [of x u] by (auto simp: earn_def intro: order_trans)

lemma points_range: "flt (- 1 / 10) \<le> fst (rep_points t i f q c) \<and> fst (rep_points t i f q c) \<le> 1"
proof -
  let ?s = "earn q (flt (3 / 20)) GoodEnrichment (earn f (flt (1 / 5)) DealSizeFits
    (earn i (flt (1 / 4)) IndustryMatch (earn t (flt (3 / 10)) TerritoryMatch (0, []))))"
  have "0 \<le> fst ?s \<and> fst ?s \<le> 0 + flt (3 / 10) + flt (1 / 4) + flt (1 / 5) + flt (3 / 20)"
    by (intro earn_range flt_nonneg) simp_all
  then have "fst ?s + flt (1 / 10) \<le> 0 + flt (3 / 10) + flt (1 / 4) + flt (1 / 5) + flt (3 / 20) + flt (1 / 10)"
    and "0 \<le> fst ?s + flt (1 / 10)" and "0 - flt (1 / 10) \<le> fst ?s - flt (1 / 10)"
    and "fst ?s - flt (1 / 10) \<le> 0 + flt (3 / 10) + flt (1 / 4) + flt (1 / 5) + flt (3 / 20) - flt (1 / 10)"
    by (auto intro!: f64_add_mono f64_diff_mono f64_add_nonneg flt_nonneg)
  moreover have "0 + flt (3 / 10) + flt (1 / 4) + flt (1 / 5) + flt (3 / 20) + flt (1 / 10) \<le> 1"
    and "0 + flt (3 / 10) + flt (1 / 4) + flt (1 / 5) + flt (3 / 20) - flt (1 / 10) \<le> 1"
    and "flt (- 1 / 10) \<le> 0 - flt (1 / 10)" and "flt (- 1 / 10) \<le> 0" by (simp_all add: f64_eval)
  ultimately show ?thesis by (cases c) (auto simp: rep_points_def Let_def intro: order_trans)
qed

lemma scored_range: "score_rep lead scores rep = Inr (n, s, rs) \<Longrightarrow> flt (- 1 / 10) \<le> s \<and> s \<le> 1"
  using points_range by (auto simp: score_rep_def Let_def bind_res_Inr_iff split: pyval.splits prod.splits) (metis fst_conv)+

text \<open>
  A lead goes to a representative of the team with the highest points, with their reasons and with their points
  as the confidence; the others named are of the team too; the confidence is between -0.1 and 1.
\<close>

theorem lead_routed_to_best:
  assumes "lead_route team lead scores = Inr d" and "py_iter (dget_or team ''reps'' (PList [])) = Inr (rep # reps)"
  shows "\<exists>xs s. map_res (score_rep lead scores) (rep # reps) = Inr xs \<and> (rd_rep d, s, rd_reasons d) \<in> set xs \<and> rd_confidence d = s \<and>
    (\<forall>x \<in> set xs. fst (snd x) \<le> s) \<and> set (rd_fallbacks d) \<subseteq> fst ` set xs \<and> length (rd_fallbacks d) \<le> 2 \<and> flt (- 1 / 10) \<le> s \<and> s \<le> 1"
proof -
  have "truthy (dget_or team ''reps'' (PList []))" using assms(2) by (cases "dget_or team ''reps'' (PList [])") auto
  with assms obtain xs where xs: "map_res (score_rep lead scores) (rep # reps) = Inr xs" and d: "d = decide (sort_desc (fst \<circ> snd) xs)"
    by (auto simp: lead_route_def Let_def bind_res_Inr_iff)
  then have "xs \<noteq> []" by (auto simp: bind_res_Inr_iff)
  then obtain n s rs rest where sorted: "sort_desc (fst \<circ> snd) xs = (n, s, rs) # rest"
    by (metis length_sort_desc length_0_conv list.exhaust prod_cases3)
  have best: "(n, s, rs) \<in> set xs" "\<forall>x \<in> set xs. fst (snd x) \<le> s" using sort_desc_head [OF sorted] by auto
  then obtain x where "score_rep lead scores x = Inr (n, s, rs)" using map_res_source [OF xs] by blast
  from scored_range [OF this] have s: "flt (- 1 / 10) \<le> s" "s \<le> 1" by auto
  have "set rest \<subseteq> set xs" using arg_cong [OF sorted, of set] by auto
  then have "set (map fst (take 2 rest)) \<subseteq> fst ` set xs" using set_take_subset [of 2 rest] by auto
  with xs best s show ?thesis by (intro exI [of _ xs] exI [of _ s]) (simp add: d sorted decide_def)
qed

definition sample_team :: fields where
  "sample_team = [(''reps'', PList [PDict [(''name'', PStr ''Ann''), (''territories'', PList [PStr ''DE''])],
     PDict [(''name'', PStr ''Bob''), (''territories'', PList [PStr ''IT''])]])]"

lemma sample_route: "\<not> isl (lead_route sample_team [(''company_location_country'', PStr ''IT'')] [])"
  by (simp add: lead_route_def sample_team_def dget_or_def score_rep_def or_res_def py_in_def py_member_def size_fits_def and_res_def
      le_vals_def has_capacity_def Let_def f64_eval split: prod.split)

theorem lead_routed_to_best_witness:
  "\<exists>d s. lead_route sample_team [(''company_location_country'', PStr ''IT'')] [] = Inr d \<and> rd_confidence d = s \<and> s \<le> 1"
proof -
  obtain d where d: "lead_route sample_team [(''company_location_country'', PStr ''IT'')] [] = Inr d"
    using sample_route by (cases "lead_route sample_team [(''company_location_country'', PStr ''IT'')] []") auto
  have "py_iter (dget_or sample_team ''reps'' (PList [])) = Inr [PDict [(''name'', PStr ''Ann''), (''territories'', PList [PStr ''DE''])],
     PDict [(''name'', PStr ''Bob''), (''territories'', PList [PStr ''IT''])]]" by (simp add: sample_team_def dget_or_def)
  from lead_routed_to_best [OF d this] d show ?thesis by blast
qed

text \<open>Two representatives of one name share an entry of the breakdown: the lower points replace the higher.\<close>

lemma namesakes_share_points:
  "rd_breakdown (decide [(PStr ''Ann'', 1, []), (PStr ''Ann'', 0, [])]) = [(PStr ''Ann'', 0)]"
  by (simp add: decide_def)

section \<open>Hand-off\<close>

lemma recent_sorted: "sorted (map eg_date (rev (recent_engagements es))) \<and> set (recent_engagements es) \<subseteq> set es"
proof -
  have "sorted (map eg_date (rev (take 10 (sort_desc eg_date es) @ drop 10 (sort_desc eg_date es))))"
    by (simp add: sort_desc_def)
  then show ?thesis using set_take_subset [of 10 "sort_desc eg_date es"] by (auto simp: recent_engagements_def sorted_append simp del: append_take_drop_id)
qed

text \<open>What the document says, by the data it is made from: a flag for each gap, and a further action exactly when there is one.\<close>

lemma handoff_complete:
  assumes "handoff_generate deal enrich history = Inr doc"
  shows "set (hd_flags doc) = {f. f = NoStakeholders \<and> \<not> truthy (dget_or deal ''opportunity_stakeholders'' (PList []))} \<union>
      {f. f = NoIndustry \<and> \<not> truthy (dget_or enrich ''company_industry'' PNone)} \<union> {f. f = NoEngagement \<and> history = []} \<and>
    (hd_flags doc \<noteq> [] \<longleftrightarrow> ''Address risk flags before kickoff'' \<in> set (hd_actions doc)) \<and>
    (''engagement_highlights'' \<in> set (dkeys (hd_sections doc)) \<longleftrightarrow> history \<noteq> [])"
proof -
  from assms have doc: "hd_flags doc = handoff_flags (dget_or deal ''opportunity_stakeholders'' (PList [])) enrich history"
    "hd_actions doc = action_items (account_name deal enrich) (hd_flags doc)"
    "dkeys (hd_sections doc) = [''account_overview'', ''deal_summary'', ''key_contacts''] @
       (if history = [] then [] else [''engagement_highlights'']) @ [''implementation'']"
    unfolding handoff_generate_def Let_def bind_res_Inr_iff by auto
  have "hd_flags doc \<noteq> [] \<longleftrightarrow> ''Address risk flags before kickoff'' \<in> set (hd_actions doc)"
    unfolding doc(2) action_items_def by simp
  moreover have "set (hd_flags doc) = {f. f = NoStakeholders \<and> \<not> truthy (dget_or deal ''opportunity_stakeholders'' (PList []))} \<union>
      {f. f = NoIndustry \<and> \<not> truthy (dget_or enrich ''company_industry'' PNone)} \<union> {f. f = NoEngagement \<and> history = []}"
    unfolding doc(1) handoff_flags_def by auto
  moreover have "''engagement_highlights'' \<in> set (dkeys (hd_sections doc)) \<longleftrightarrow> history \<noteq> []" unfolding doc(3) by simp
  ultimately show ?thesis by blast
qed

section \<open>Tools\<close>

text \<open>Every tool that is listed has an action, and every answer with a result comes from one call of the dispatcher.\<close>

lemma tools_have_actions: "dkeys tool_registry = dkeys action_map \<and> set (dvalues action_map) = {''enrich'', ''writeback''}"
  by (auto simp: tool_registry_def action_map_def)

lemma tool_text_dispatched:
  assumes "handle_request dump (Some run) ''tools/call'' params = ToolText t"
  shows "\<exists>tool d r. dget_or params ''name'' (PStr []) = PStr tool \<and> dmem tool tool_registry \<and> dget_or params ''arguments'' (PDict []) = PDict d \<and>
    run (dget_or action_map tool ''enrich'') (dget_or d ''tenant'' (PStr ''default'')) (dpop ''tenant'' d) = Inr r \<and> t = dump r"
proof -
  have call: "call_tool dump (Some run) params = Inr (ToolText t)"
    using assms by (cases "call_tool dump (Some run) params") (simp_all add: handle_request_def)
  then obtain tool where tool: "dget_or params ''name'' (PStr []) = PStr tool"
    by (cases "dget_or params ''name'' (PStr [])") (simp_all add: call_tool_def)
  with call have known: "dmem tool tool_registry" by (simp add: call_tool_def split: if_splits)
  with call tool obtain d where d: "dget_or params ''arguments'' (PDict []) = PDict d"
    by (cases "dget_or params ''arguments'' (PDict [])") (simp_all add: call_tool_def)
  with call tool known obtain r where "run (dget_or action_map tool ''enrich'') (dget_or d ''tenant'' (PStr ''default'')) (dpop ''tenant'' d) = Inr r"
    and "t = dump r" by (simp add: call_tool_def split: sum.splits)
  with tool known d show ?thesis by blast
qed

text \<open>
  The agents are never reached: a call of the router, the risk or the hygiene tool is dispatched as an enrichment
  with the same arguments. The tenant is the one the arguments name.
\<close>

lemma agents_never_called:
  assumes "tool \<in> {''lead_router'', ''deal_risk'', ''data_hygiene''}"
  shows "handle_request dump dispatch ''tools/call'' [(''name'', PStr tool), (''arguments'', a)] =
    handle_request dump dispatch ''tools/call'' [(''name'', PStr ''enrich_contact''), (''arguments'', a)]"
proof -
  have params: "dget_or [(''name'', x), (''arguments'', a)] ''name'' v = x" "dget_or [(''name'', x), (''arguments'', a)] ''arguments'' v = a"
    for x v by (simp_all add: dget_or_def)
  have known: "dmem ''enrich_contact'' tool_registry" "dget_or action_map ''enrich_contact'' ''enrich'' = ''enrich''"
    "dmem ''lead_router'' tool_registry" "dget_or action_map ''lead_router'' ''enrich'' = ''enrich''"
    "dmem ''deal_risk'' tool_registry" "dget_or action_map ''deal_risk'' ''enrich'' = ''enrich''"
    "dmem ''data_hygiene'' tool_registry" "dget_or action_map ''data_hygiene'' ''enrich'' = ''enrich''" by code_simp+
  from assms have "dmem tool tool_registry" and "dget_or action_map tool ''enrich'' = ''enrich''" using known by blast+
  then have "call_tool dump dispatch [(''name'', PStr tool), (''arguments'', a)] =
      call_tool dump dispatch [(''name'', PStr ''enrich_contact''), (''arguments'', a)]"
    using known(1,2) by (simp only: call_tool_def Let_def params hashable_value.simps pyval.simps if_True not_False_eq_True)
  then show ?thesis by (simp add: handle_request_def)
qed

end
