(* ===== verification/HealthApi.thy ===== *)
theory HealthApi
  imports HealthTriggers HealthFields
begin

text \<open>
  \<open>health/health_api.py\<close>: the endpoints over the assessor, the field diagnostic and the trigger engine, with the
  module state that \<open>configure\<close> sets. The data store and the trigger store are interfaces without an
  implementation (\<open>health_store\<close>, \<open>trigger_store\<close>); clocks and the functions of \<open>math\<close> are in \<open>health_env\<close>;
  \<open>ids\<close> names the triggers of a run. A request is one its model accepted. Serialisations and durations are not
  modelled.
\<close>

section \<open>State\<close>

record health_store =
  es_ids :: "string \<Rightarrow> string list"
  es_entity :: "string \<Rightarrow> health_record option"
  es_entities :: "string list \<Rightarrow> health_record list"
  es_count :: "string \<Rightarrow> int"
  es_synced :: "string \<Rightarrow> int"

record 's trigger_engine =
  te_store :: "'s trigger_store"
  te_queue :: "queued_trigger \<Rightarrow> string option"
  te_config :: trigger_config
  te_state :: 's

record 's health_service =
  sv_data :: "health_store option"
  sv_schemas :: "(string, health_schema) dict"
  sv_engine :: "'s trigger_engine option"

record health_env =
  he_exp :: "f64 \<Rightarrow> f64"
  he_sqrt :: "rat \<Rightarrow> f64"
  he_log2 :: "f64 \<Rightarrow> f64"
  he_ord :: "string list \<Rightarrow> string list"
  he_clock :: "nat \<Rightarrow> int \<times> int"
  he_now :: int

datatype health_error = NotConfigured | UnknownDomain | UnknownEntity | Raised pyerr

definition fresh_service :: "'s health_service" where
  "fresh_service = \<lparr>sv_data = None, sv_schemas = [], sv_engine = None\<rparr>"

definition configure_health :: "health_store \<Rightarrow> (string, health_schema) dict \<Rightarrow> 's trigger_engine \<Rightarrow> 's health_service" where
  "configure_health data schemas engine = \<lparr>sv_data = Some data, sv_schemas = schemas, sv_engine = Some engine\<rparr>"

definition get_assessor :: "'s health_service \<Rightarrow> string \<Rightarrow> health_error + health_store \<times> health_schema" where
  "get_assessor sv domain =
     (case sv_data sv of
        None \<Rightarrow> Inl NotConfigured
      | Some data \<Rightarrow> (case dget (sv_schemas sv) domain of None \<Rightarrow> Inl UnknownDomain | Some schema \<Rightarrow> Inr (data, schema)))"

definition get_trigger_engine :: "'s health_service \<Rightarrow> health_error + 's trigger_engine" where
  "get_trigger_engine sv = (case sv_engine sv of None \<Rightarrow> Inl NotConfigured | Some e \<Rightarrow> Inr e)"

definition raised :: "pyerr + 'a \<Rightarrow> health_error + 'a" where
  "raised r = (case r of Inl e \<Rightarrow> Inl (Raised e) | Inr x \<Rightarrow> Inr x)"

section \<open>Assessments\<close>

record crm_request =
  cq_domain :: string
  cq_entity_scope :: bool
  cq_entity_ids :: "string list option"
  cq_threshold :: f64
  cq_staleness :: f64
  cq_floor :: f64
  cq_auto :: bool
  cq_weights :: "health_weights option"

definition plain_config :: assessment_config where
  "plain_config = \<lparr>hc_entity_scope = False, hc_entity_ids = None, hc_threshold = flt (1 / 2), hc_staleness = f_of_int 30,
     hc_floor = flt (1 / 2), hc_auto = True, hc_weights = default_weights\<rparr>"

definition weights_or :: "health_weights option \<Rightarrow> health_weights" where
  "weights_or w = (case w of None \<Rightarrow> default_weights | Some x \<Rightarrow> x)"

definition config_of_request :: "crm_request \<Rightarrow> assessment_config" where
  "config_of_request q =
     \<lparr>hc_entity_scope = cq_entity_scope q, hc_entity_ids = cq_entity_ids q, hc_threshold = cq_threshold q, hc_staleness = cq_staleness q,
      hc_floor = cq_floor q, hc_auto = cq_auto q, hc_weights = weights_or (cq_weights q)\<rparr>"

definition entity_endpoint ::
    "health_env \<Rightarrow> string \<Rightarrow> string \<Rightarrow> health_weights option \<Rightarrow> 's health_service \<Rightarrow> health_error + entity_health" where
  "entity_endpoint env domain i w sv =
     bind_res (get_assessor sv domain) (\<lambda>(data, schema).
       case es_entity data i of
         None \<Rightarrow> Inl UnknownEntity
       | Some r \<Rightarrow> raised (assess_entity (he_exp env) (he_ord env) schema
           (plain_config\<lparr>hc_entity_scope := True, hc_entity_ids := Some [i], hc_weights := weights_or w\<rparr>) (he_clock env 0) r))"

definition full_assessment ::
    "health_env \<Rightarrow> string \<Rightarrow> assessment_config \<Rightarrow> 's health_service \<Rightarrow> health_error + assessment_result" where
  "full_assessment env domain cfg sv =
     bind_res (get_assessor sv domain) (\<lambda>(data, schema).
       raised (assess_full_crm (he_exp env) (he_ord env) schema cfg (es_ids data domain) (es_entities data) (es_count data domain)
         (es_synced data domain) (he_clock env) (he_now env)))"

record crm_answer =
  ca_crm :: crm_health
  ca_summary :: health_summary
  ca_triggers :: nat

definition named_triggers :: "(nat \<Rightarrow> string) \<Rightarrow> health_trigger list \<Rightarrow> queued_trigger list" where
  "named_triggers ids ts = map (\<lambda>(i, t). \<lparr>qt_id = ids i, qt_trigger = t\<rparr>) (enumerate 0 ts)"

definition answer_crm :: "assessment_result \<Rightarrow> crm_answer" where
  "answer_crm r = \<lparr>ca_crm = as_crm r, ca_summary = as_summary r, ca_triggers = length (as_triggers r)\<rparr>"

definition assess_crm ::
    "health_env \<Rightarrow> (nat \<Rightarrow> string) \<Rightarrow> crm_request \<Rightarrow> 's health_service \<Rightarrow> (health_error + crm_answer) \<times> 's health_service" where
  "assess_crm env ids q sv =
     (case full_assessment env (cq_domain q) (config_of_request q) sv of
        Inl e \<Rightarrow> (Inl e, sv)
      | Inr r \<Rightarrow>
          if cq_auto q \<and> as_triggers r \<noteq> [] then
            (case get_trigger_engine sv of
               Inl e \<Rightarrow> (Inl e, sv)
             | Inr en \<Rightarrow>
                 (case ingest_triggers (te_store en) (te_config en) (he_now env) (named_triggers ids (as_triggers r)) (te_state en) of
                    (Inl e, s) \<Rightarrow> (Inl (Raised e), sv\<lparr>sv_engine := Some (en\<lparr>te_state := s\<rparr>)\<rparr>)
                  | (Inr res, s) \<Rightarrow> (Inr (answer_crm r), sv\<lparr>sv_engine := Some (en\<lparr>te_state := s\<rparr>)\<rparr>)))
          else (Inr (answer_crm r), sv))"

definition get_crm_health :: "health_env \<Rightarrow> string \<Rightarrow> 's health_service \<Rightarrow> health_error + crm_health" where
  "get_crm_health env domain sv = bind_res (full_assessment env domain plain_config sv) (\<lambda>r. Inr (as_crm r))"

definition get_field_health :: "health_env \<Rightarrow> string \<Rightarrow> 's health_service \<Rightarrow> health_error + field_health list" where
  "get_field_health env domain sv = bind_res (full_assessment env domain plain_config sv) (\<lambda>r. Inr (cr_fields (as_crm r)))"

section \<open>One field\<close>

definition values_of_field :: "string \<Rightarrow> health_record list \<Rightarrow> (string \<times> pyval) list" where
  "values_of_field f rs = map (\<lambda>r. (hr_entity r, dget_or (hr_fields r) f PNone)) rs"

definition field_sketch :: "health_schema \<Rightarrow> string \<Rightarrow> health_record list \<Rightarrow> field_health" where
  "field_sketch schema f rs =
     (let vals = values_of_field f rs
      in \<lparr>fh_field = f,
          fh_fill = (if vals \<noteq> [] then py_int_div (int (length (filter (\<lambda>(e, v). v \<noteq> PNone) vals))) (int (length vals)) else 0),
          fh_avg = 0, fh_min = 0, fh_max = 1, fh_p50 = 0, fh_p90 = 0, fh_outliers = 0, fh_total = int (length rs), fh_values = [],
          fh_gate = (f \<in> set (hs_gates schema)), fh_scoring = (f \<in> set (hs_scoring schema))\<rparr>)"

text \<open>The second look at the schema finds the one the assessor found.\<close>

definition get_field_diagnostic :: "health_env \<Rightarrow> string \<Rightarrow> string \<Rightarrow> 's health_service \<Rightarrow> health_error + diagnostic" where
  "get_field_diagnostic env domain f sv =
     bind_res (get_assessor sv domain) (\<lambda>(data, schema).
       let rs = es_entities data (es_ids data domain)
       in bind_res (raised (checked field_health_ok (field_sketch schema f rs))) (\<lambda>fh.
            Inr (run_field_diagnostic (he_sqrt env) (he_log2 env) fh (values_of_field f rs) (int (length rs)))))"

section \<open>Triggers\<close>

definition dispatch_endpoint :: "health_env \<Rightarrow> string \<Rightarrow> 's health_service \<Rightarrow> (health_error + dispatch_result) \<times> 's health_service" where
  "dispatch_endpoint env domain sv =
     (case get_trigger_engine sv of
        Inl e \<Rightarrow> (Inl e, sv)
      | Inr en \<Rightarrow>
          (let (r, x) = dispatch_batch (te_store en) (te_queue en) (te_config en) (he_now env) domain (te_state en)
           in (Inr r, sv\<lparr>sv_engine := Some (en\<lparr>te_state := xs_store x\<rparr>)\<rparr>)))"

definition get_trigger_status :: "health_env \<Rightarrow> string \<Rightarrow> 's health_service \<Rightarrow> health_error + queue_status" where
  "get_trigger_status env domain sv =
     bind_res (get_trigger_engine sv) (\<lambda>en. Inr (get_queue_status (te_store en) (te_config en) (he_now env) domain (te_state en)))"

section \<open>Readiness for AI\<close>

record readiness_answer =
  rz_score :: f64
  rz_ready :: bool
  rz_dimensions :: "f64 list"
  rz_gates :: "(string \<times> f64 \<times> f64) list"
  rz_scoring :: "(string \<times> f64 \<times> f64) list"
  rz_weakest :: "field_health list"
  rz_total :: int
  rz_below :: nat
  rz_needing :: nat

definition field_line :: "field_health \<Rightarrow> string \<times> f64 \<times> f64" where
  "field_line f = (fh_field f, fh_fill f, py_round 4 (health_score f))"

definition readiness_of :: "crm_health \<Rightarrow> readiness_answer" where
  "readiness_of c =
     \<lparr>rz_score = cr_readiness c, rz_ready = is_ai_ready c,
      rz_dimensions = [cr_completeness c, cr_freshness c, cr_confidence c, cr_enrichment c, cr_graph c],
      rz_gates = map field_line (filter fh_gate (cr_fields c)), rz_scoring = map field_line (filter fh_scoring (cr_fields c)),
      rz_weakest = take 10 (sort_key health_score (cr_fields c)),
      rz_total = cr_total c, rz_below = cr_below c, rz_needing = cr_needing c\<rparr>"

definition get_ai_readiness :: "health_env \<Rightarrow> string \<Rightarrow> 's health_service \<Rightarrow> health_error + readiness_answer" where
  "get_ai_readiness env domain sv = bind_res (full_assessment env domain plain_config sv) (\<lambda>r. Inr (readiness_of (as_crm r)))"

section \<open>Assessing the base\<close>

lemma raised_Inr [simp]: "raised r = Inr x \<longleftrightarrow> r = Inr x"
  by (cases r) (auto simp: raised_def)

lemma assess_crm_cases:
  assumes "assess_crm env ids q sv = (Inr a, sv')"
  obtains r where "full_assessment env (cq_domain q) (config_of_request q) sv = Inr r" and "a = answer_crm r"
    and "\<not> (cq_auto q \<and> as_triggers r \<noteq> [])" and "sv' = sv"
  | r en res s where "full_assessment env (cq_domain q) (config_of_request q) sv = Inr r" and "a = answer_crm r"
    and "cq_auto q" and "as_triggers r \<noteq> []" and "sv_engine sv = Some en"
    and "ingest_triggers (te_store en) (te_config en) (he_now env) (named_triggers ids (as_triggers r)) (te_state en) = (Inr res, s)"
    and "sv' = sv\<lparr>sv_engine := Some (en\<lparr>te_state := s\<rparr>)\<rparr>"
  using assms by (auto simp: assess_crm_def get_trigger_engine_def split: sum.splits option.splits if_splits prod.splits)

lemma triggers_off: "full_assessment env domain cfg sv = Inr r \<Longrightarrow> \<not> hc_auto cfg \<Longrightarrow> as_triggers r = []"
  by (auto simp: full_assessment_def get_assessor_def assess_full_crm_def Let_def bind_res_Inr_iff split: option.splits)

text \<open>
  An assessment of the base is the one of the assessor. The figures it answers are those of a full assessment; with
  triggers switched off none is counted and nothing changes; otherwise exactly the triggers it counts are
  handed to the trigger engine, whose state is all that changes.
\<close>

theorem assessment_hands_over_triggers:
  assumes "assess_crm env ids q sv = (Inr a, sv')"
  shows "\<exists>r. full_assessment env (cq_domain q) (config_of_request q) sv = Inr r \<and> ca_crm a = as_crm r \<and> ca_summary a = as_summary r \<and>
    ca_triggers a = length (as_triggers r) \<and> (\<not> cq_auto q \<longrightarrow> ca_triggers a = 0) \<and> (ca_triggers a = 0 \<longrightarrow> sv' = sv) \<and>
    (ca_triggers a \<noteq> 0 \<longrightarrow> (\<exists>en res s. sv_engine sv = Some en \<and> sv' = sv\<lparr>sv_engine := Some (en\<lparr>te_state := s\<rparr>)\<rparr> \<and>
       ingest_triggers (te_store en) (te_config en) (he_now env) (named_triggers ids (as_triggers r)) (te_state en) = (Inr res, s)))"
  using assms
proof (cases rule: assess_crm_cases)
  case (1 r)
  then show ?thesis using triggers_off [OF 1(1)] by (auto simp: answer_crm_def config_of_request_def)
next
  case (2 r en res s)
  then show ?thesis by (auto simp: answer_crm_def)
qed

definition empty_health_store :: health_store where
  "empty_health_store = \<lparr>es_ids = (\<lambda>d. []), es_entity = (\<lambda>i. None), es_entities = (\<lambda>is. []), es_count = (\<lambda>d. 0), es_synced = (\<lambda>d. 0)\<rparr>"

definition sample_health_env :: health_env where
  "sample_health_env = \<lparr>he_exp = (\<lambda>x. 0), he_sqrt = (\<lambda>x. 0), he_log2 = (\<lambda>x. 0), he_ord = (\<lambda>xs. xs), he_clock = (\<lambda>i. (0, 0)), he_now = 0\<rparr>"

definition sample_crm_request :: crm_request where
  "sample_crm_request = \<lparr>cq_domain = ''d'', cq_entity_scope = False, cq_entity_ids = None, cq_threshold = flt (1 / 2), cq_staleness = f_of_int 30,
     cq_floor = flt (1 / 2), cq_auto = True, cq_weights = None\<rparr>"

definition sample_service :: "queued_trigger list health_service" where
  "sample_service =
     \<lparr>sv_data = Some empty_health_store, sv_schemas = [(''d'', sample_schema)],
      sv_engine = Some \<lparr>te_store = list_store, te_queue = (\<lambda>q. None), te_config = sample_trigger_config, te_state = []\<rparr>\<rparr>"

lemma sample_assessment:
  "case fst (assess_crm sample_health_env (\<lambda>i. ''t'') sample_crm_request sample_service) of Inl e \<Rightarrow> False | Inr a \<Rightarrow> ca_triggers a = 0"
  by code_simp

theorem assessment_hands_over_triggers_witness:
  "\<exists>a sv'. assess_crm sample_health_env (\<lambda>i. ''t'') sample_crm_request sample_service = (Inr a, sv') \<and> ca_triggers a = 0 \<and> sv' = sample_service \<and>
     (\<exists>r. full_assessment sample_health_env (cq_domain sample_crm_request) (config_of_request sample_crm_request) sample_service = Inr r \<and>
        ca_crm a = as_crm r)"
proof -
  obtain a sv' where run: "assess_crm sample_health_env (\<lambda>i. ''t'') sample_crm_request sample_service = (Inr a, sv')" and one: "ca_triggers a = 0"
    using sample_assessment by (cases "assess_crm sample_health_env (\<lambda>i. ''t'') sample_crm_request sample_service") (auto split: sum.splits)
  from assessment_hands_over_triggers [OF run] run one show ?thesis by metis
qed

section \<open>What the endpoints leave out\<close>

text \<open>
  Nothing in the application calls \<open>configure\<close>: over the fresh module every endpoint raises.
\<close>

lemma unconfigured_endpoints_raise:
  "entity_endpoint env d i w fresh_service = Inl NotConfigured" and "assess_crm env ids q fresh_service = (Inl NotConfigured, fresh_service)"
  and "get_crm_health env d fresh_service = Inl NotConfigured" and "get_field_health env d fresh_service = Inl NotConfigured"
  and "get_field_diagnostic env d f fresh_service = Inl NotConfigured" and "dispatch_endpoint env d fresh_service = (Inl NotConfigured, fresh_service)"
  and "get_trigger_status env d fresh_service = Inl NotConfigured" and "get_ai_readiness env d fresh_service = Inl NotConfigured"
  by (simp_all add: entity_endpoint_def assess_crm_def get_crm_health_def get_field_health_def get_field_diagnostic_def dispatch_endpoint_def
      get_trigger_status_def get_ai_readiness_def full_assessment_def get_assessor_def get_trigger_engine_def fresh_service_def)

lemma diagnostic_parts:
  "dx_health (run_field_diagnostic fsqrt log2 fh vals n) = fh"
  "dx_recommendations (run_field_diagnostic fsqrt log2 fh vals n) =
     recommend_field_actions fh (dx_distribution (run_field_diagnostic fsqrt log2 fh vals n)) (length (dx_outliers (run_field_diagnostic fsqrt log2 fh vals n)))"
  by (simp_all add: run_field_diagnostic_def Let_def)

text \<open>
  The diagnostic takes the confidence of the field to be 0, so it recommends to verify every field that is
  filled in more than three tenths of the records, however sure its values are.
\<close>

lemma diagnostic_always_verifies:
  assumes "get_field_diagnostic env domain f sv = Inr dx" and "flt (3 / 10) < fh_fill (dx_health dx)"
  shows "\<exists>a \<in> set (dx_recommendations dx). ra_kind a = VerifyField \<and> ra_field a = Some f"
proof -
  from assms(1) obtain schema rs vals n where dx: "dx = run_field_diagnostic (he_sqrt env) (he_log2 env) (field_sketch schema f rs) vals n"
    unfolding get_field_diagnostic_def Let_def by (auto simp: bind_res_Inr_iff checked_def split: if_splits)
  note fh = diagnostic_parts(1) [of "he_sqrt env" "he_log2 env" "field_sketch schema f rs" vals n, folded dx]
  note recs = diagnostic_parts(2) [of "he_sqrt env" "he_log2 env" "field_sketch schema f rs" vals n, folded dx]
  have sure: "fh_avg (dx_health dx) = 0" "fh_field (dx_health dx) = f" by (simp_all add: fh field_sketch_def Let_def)
  have "(0 :: f64) < flt (1 / 2)" by (simp add: f64_eval)
  then have "field_action VerifyField f (flt (3 / 4)) \<in> set (dx_recommendations dx)"
    using assms(2) sure unfolding recs recommend_field_actions_def set_sort_desc fh by simp
  then show ?thesis by (rule rev_bexI) (simp add: field_action_def)
qed

text \<open>
  A record is assessed against the specification of the domain in the request, whatever domain it belongs to.
\<close>

lemma domain_not_compared:
  assumes "get_assessor sv domain = Inr (data, schema)" and "es_entity data i = Some r"
    and "entity_endpoint env domain i w sv = Inr e"
  shows "eh_domain e = hr_domain r"
  using assms by (auto simp: entity_endpoint_def assess_entity_def checked_def Let_def split: if_splits)

lemma weakest_fields_first:
  assumes "get_ai_readiness env domain sv = Inr a"
  shows "sorted (map health_score (rz_weakest a)) \<and> length (rz_weakest a) \<le> 10 \<and> (rz_ready a \<longleftrightarrow> flt (7 / 10) \<le> rz_score a)"
proof -
  from assms obtain c where a: "a = readiness_of c" by (auto simp: get_ai_readiness_def bind_res_Inr_iff)
  have "sorted (take 10 (map health_score (sort_key health_score (cr_fields c))))" by (intro sorted_wrt_take) simp
  then show ?thesis by (simp add: a readiness_of_def is_ai_ready_def take_map)
qed

end
