(* ===== verification/ScoreApi.thy ===== *)
theory ScoreApi
  imports ScoreEngine ScoreDecay ScoreExplain
begin

text \<open>
  \<open>score/score_api.py\<close> and the profile of \<open>score/score_icp_plastics.py\<close>. The dependencies of the endpoints are options:
  the stubs raise and nothing in the application replaces them. The profile store and the score store are
  interfaces without an implementation, \<open>profile_store\<close> on an abstract state; the records the engines save are the
  list \<open>sd_saved\<close>. Identifiers, time stamps and the envelope around an answer are not modelled.
\<close>

section \<open>Dependencies\<close>

record 'p profile_store =
  ps_get :: "'p \<Rightarrow> string \<Rightarrow> scoring_profile option"
  ps_save :: "scoring_profile \<Rightarrow> 'p \<Rightarrow> 'p"

record score_store =
  ss_get :: "string \<Rightarrow> string \<Rightarrow> score_record option"
  ss_list :: "string \<Rightarrow> int \<Rightarrow> score_record list"
  ss_stale :: "string \<Rightarrow> f64 \<Rightarrow> int \<Rightarrow> score_record list"

record decay_engine =
  dy_pow2 :: "f64 \<Rightarrow> f64"
  dy_times :: "timestamp_provider option"

record 'p score_deps =
  sd_engine :: "score_engine option"
  sd_decay :: "decay_engine option"
  sd_explainer :: bool
  sd_profiles :: "('p profile_store \<times> 'p) option"
  sd_scores :: "score_store option"
  sd_saved :: "score_record list"

datatype score_error = NotWired string | Refused int | Crashed pyerr

definition stub_deps :: "'p score_deps" where
  "stub_deps = \<lparr>sd_engine = None, sd_decay = None, sd_explainer = False, sd_profiles = None, sd_scores = None, sd_saved = []\<rparr>"

definition dependency :: "string \<Rightarrow> 'a option \<Rightarrow> score_error + 'a" where
  "dependency name x = (case x of None \<Rightarrow> Inl (NotWired name) | Some a \<Rightarrow> Inr a)"

definition get_score_engine :: "'p score_deps \<Rightarrow> score_error + score_engine" where
  "get_score_engine d = dependency ''ScoreEngine'' (sd_engine d)"

definition get_decay_engine :: "'p score_deps \<Rightarrow> score_error + decay_engine" where
  "get_decay_engine d = dependency ''DecayEngine'' (sd_decay d)"

definition get_explainer :: "'p score_deps \<Rightarrow> score_error + unit" where
  "get_explainer d = dependency ''ScoreExplainer'' (if sd_explainer d then Some () else None)"

definition get_profile_store :: "'p score_deps \<Rightarrow> score_error + 'p profile_store \<times> 'p" where
  "get_profile_store d = dependency ''ProfileStore'' (sd_profiles d)"

definition get_score_store :: "'p score_deps \<Rightarrow> score_error + score_store" where
  "get_score_store d = dependency ''ScoreStore'' (sd_scores d)"

definition or_404 :: "'a option \<Rightarrow> score_error + 'a" where
  "or_404 x = (case x of None \<Rightarrow> Inl (Refused 404) | Some a \<Rightarrow> Inr a)"

definition crash :: "pyerr + 'a \<Rightarrow> score_error + 'a" where
  "crash r = (case r of Inl e \<Rightarrow> Inl (Crashed e) | Inr a \<Rightarrow> Inr a)"

section \<open>Scoring\<close>

record dimension_line =
  dl_score :: f64
  dl_confidence :: f64
  dl_weight :: f64
  dl_coverage :: f64
  dl_evaluated :: int
  dl_present :: int
  dl_missing :: nat

record entity_answer =
  ea_entity :: string
  ea_composite :: f64
  ea_tier :: tier
  ea_confidence :: f64
  ea_dimensions :: "(dimension, dimension_line) dict"
  ea_missing :: nat
  ea_gates :: "string list"
  ea_triggers :: "string list"

definition dimension_line_of :: "dimension_score \<Rightarrow> dimension_line" where
  "dimension_line_of s =
     \<lparr>dl_score = py_round 4 (ds_score s), dl_confidence = py_round 4 (ds_confidence s), dl_weight = py_round 4 (ds_weight s),
      dl_coverage = py_round 4 (ds_coverage s), dl_evaluated = ds_evaluated s, dl_present = ds_present s, dl_missing = length (ds_missing s)\<rparr>"

definition entity_answer_of :: "score_record \<Rightarrow> entity_answer" where
  "entity_answer_of r =
     \<lparr>ea_entity = sr_entity r, ea_composite = py_round 4 (sr_composite r), ea_tier = sr_tier r, ea_confidence = py_round 4 (sr_confidence r),
      ea_dimensions = map (\<lambda>(d, s). (d, dimension_line_of s)) (sr_dims r), ea_missing = length (sr_missing r),
      ea_gates = map mf_name (filter mf_gate (sr_missing r)), ea_triggers = enrichment_trigger_fields r\<rparr>"

definition stored_profile :: "'p score_deps \<Rightarrow> string \<Rightarrow> score_error + scoring_profile" where
  "stored_profile d pid = bind_res (get_profile_store d) (\<lambda>(ops, s). or_404 (ps_get ops s pid))"

definition score_endpoint ::
    "(string list \<Rightarrow> string list) \<Rightarrow> int \<Rightarrow> string \<Rightarrow> string \<Rightarrow> string option \<Rightarrow> string option \<Rightarrow> 'p score_deps \<Rightarrow>
     (score_error + entity_answer) \<times> 'p score_deps" where
  "score_endpoint ord now e pid run match d =
     (case bind_res (get_score_engine d) (\<lambda>eg. bind_res (stored_profile d pid) (\<lambda>p. crash (score_entity eg ord e p run match now (sd_saved d)))) of
        Inl err \<Rightarrow> (Inl err, d)
      | Inr (r, saved) \<Rightarrow> (Inr (entity_answer_of r), d\<lparr>sd_saved := saved\<rparr>))"

record score_line =
  sl_entity :: string
  sl_composite :: f64
  sl_tier :: tier
  sl_missing :: nat

definition score_line_of :: "score_record \<Rightarrow> score_line" where
  "score_line_of r = \<lparr>sl_entity = sr_entity r, sl_composite = py_round 4 (sr_composite r), sl_tier = sr_tier r, sl_missing = length (sr_missing r)\<rparr>"

record scored_batch =
  bs_total :: int
  bs_scored :: int
  bs_disqualified :: int
  bs_avg :: f64
  bs_tiers :: "(tier, int) dict"
  bs_triggers :: "string list"
  bs_scores :: "score_line list"

definition scored_batch_of :: "batch_response \<Rightarrow> scored_batch" where
  "scored_batch_of b =
     \<lparr>bs_total = br_total b, bs_scored = br_scored b, bs_disqualified = br_disqualified b, bs_avg = br_avg b, bs_tiers = br_tiers b,
      bs_triggers = br_triggers b, bs_scores = map score_line_of (br_scores b)\<rparr>"

text \<open>What a batch saved before it failed is lost to the model: the answer is the error.\<close>

definition batch_endpoint ::
    "(string list \<Rightarrow> string list) \<Rightarrow> int \<Rightarrow> string list \<Rightarrow> string \<Rightarrow> 'p score_deps \<Rightarrow> score_error + scored_batch \<times> score_record list" where
  "batch_endpoint ord now es pid d =
     bind_res (get_score_engine d) (\<lambda>eg. bind_res (stored_profile d pid) (\<lambda>p.
       bind_res (crash (score_batch eg ord (Some p) now es (sd_saved d))) (\<lambda>(b, saved). Inr (scored_batch_of b, saved))))"

text \<open>The engine reads the previous record from its own score store, \<open>previous\<close>.\<close>

definition rescore_endpoint ::
    "(string list \<Rightarrow> string list) \<Rightarrow> int \<Rightarrow> string \<Rightarrow> string \<Rightarrow> score_record option \<Rightarrow> 'p score_deps \<Rightarrow> score_error + score_line \<times> score_record list" where
  "rescore_endpoint ord now e pid previous d =
     bind_res (get_score_engine d) (\<lambda>eg. bind_res (stored_profile d pid) (\<lambda>p.
       bind_res (crash (rescore_entity eg ord e p now previous (sd_saved d))) (\<lambda>(r, saved). Inr (score_line_of r, saved))))"

section \<open>Explanations\<close>

text \<open>
  The endpoints pass the profile as a further argument, which \<open>explain\<close> and \<open>compare_scores\<close> of the explainer do not
  take: the call raises.
\<close>

definition explain_endpoint :: "string \<Rightarrow> string \<Rightarrow> string \<Rightarrow> 'p score_deps \<Rightarrow> score_error + score_explanation" where
  "explain_endpoint e pid domain d =
     bind_res (get_explainer d) (\<lambda>u. bind_res (get_score_store d) (\<lambda>ss. bind_res (get_profile_store d) (\<lambda>ps.
       bind_res (or_404 (ss_get ss e domain)) (\<lambda>r. bind_res (stored_profile d pid) (\<lambda>p. Inl (Crashed TypeError))))))"

definition compare_endpoint :: "string \<Rightarrow> string \<Rightarrow> string \<Rightarrow> string \<Rightarrow> 'p score_deps \<Rightarrow> score_error + score_comparison" where
  "compare_endpoint e before_id after_id pid d =
     bind_res (get_explainer d) (\<lambda>u. bind_res (get_score_store d) (\<lambda>ss. bind_res (get_profile_store d) (\<lambda>ps.
       bind_res (or_404 (ss_get ss e e)) (\<lambda>before. bind_res (or_404 (ss_get ss e e)) (\<lambda>after.
       bind_res (stored_profile d pid) (\<lambda>p. Inl (Crashed TypeError)))))))"

section \<open>Decay\<close>

record trajectory_point =
  tj_days :: int
  tj_composite :: f64
  tj_tier :: tier
  tj_changed :: bool

definition trajectory_point_of :: "score_record \<Rightarrow> decay_report \<Rightarrow> trajectory_point" where
  "trajectory_point_of r p =
     \<lparr>tj_days = py_trunc (py_int_div (de_applied_at p - sr_scored_at r) 1000000 / f_of_int 86400),
      tj_composite = py_round 4 (de_decayed p), tj_tier = de_decayed_tier p, tj_changed = tier_changed p\<rparr>"

definition preview_endpoint :: "string \<Rightarrow> string \<Rightarrow> string \<Rightarrow> f64 \<Rightarrow> 'p score_deps \<Rightarrow> score_error + f64 \<times> tier \<times> trajectory_point list" where
  "preview_endpoint e pid domain days d =
     bind_res (get_decay_engine d) (\<lambda>dy. bind_res (get_score_store d) (\<lambda>ss. bind_res (get_profile_store d) (\<lambda>ps.
       bind_res (or_404 (ss_get ss e domain)) (\<lambda>r. bind_res (stored_profile d pid) (\<lambda>p.
         Inr (py_round 4 (sr_composite r), sr_tier r, map (trajectory_point_of r) (preview_decay (dy_pow2 dy) p r days)))))))"

record transition =
  tn_entity :: string
  tn_from :: tier
  tn_to :: tier
  tn_before :: f64
  tn_after :: f64

definition transition_of :: "decay_report \<Rightarrow> transition" where
  "transition_of r =
     \<lparr>tn_entity = de_entity r, tn_from = de_original_tier r, tn_to = de_decayed_tier r, tn_before = py_round 4 (de_original r),
      tn_after = py_round 4 (de_decayed r)\<rparr>"

record decay_answer =
  da_decayed :: nat
  da_transitions :: nat
  da_listed :: "transition list"
  da_needing :: "string list"

definition decay_answer_of :: "decay_report list \<Rightarrow> decay_answer" where
  "decay_answer_of reports =
     (let changed = filter tier_changed reports
      in \<lparr>da_decayed = length reports, da_transitions = length changed, da_listed = map transition_of (take 50 changed),
          da_needing = take 100 (map de_entity (filter needs_re_enrichment reports))\<rparr>)"

text \<open>The engine of the endpoint lists the stale records of its own score store, \<open>stale\<close>.\<close>

definition decay_endpoint :: "int \<Rightarrow> string \<Rightarrow> score_record list \<Rightarrow> 'p score_deps \<Rightarrow> (score_error + decay_answer) \<times> 'p score_deps" where
  "decay_endpoint now pid stale d =
     (case bind_res (get_decay_engine d) (\<lambda>dy. bind_res (stored_profile d pid) (\<lambda>p.
             Inr (apply_decay_batch (dy_pow2 dy) (dy_times dy) p now stale (sd_saved d)))) of
        Inl err \<Rightarrow> (Inl err, d)
      | Inr (reports, saved) \<Rightarrow> (Inr (decay_answer_of reports), d\<lparr>sd_saved := saved\<rparr>))"

section \<open>Profiles\<close>

record profile_request =
  pq_name :: string
  pq_domain :: string
  pq_weights :: "(string, f64) dict option"
  pq_tiers :: "(string, f64) dict option"
  pq_floor :: f64
  pq_penalty :: f64
  pq_min_fields :: int

definition dimension_names :: "(string \<times> dimension) list" where
  "dimension_names = [(''fit'', Fit), (''intent'', Intent), (''engagement'', Engagement), (''readiness'', Readiness), (''graph_affinity'', GraphAffinity)]"

definition tier_names :: "(string \<times> tier) list" where
  "tier_names = [(''hot'', Hot), (''warm'', Warm), (''cool'', Cool), (''cold'', Cold), (''disqualified'', Disqualified)]"

text \<open>The keys of a dict as members of an enumeration; an unknown one is refused.\<close>

fun keyed_by :: "(string \<times> 'a) list \<Rightarrow> (string, f64) dict \<Rightarrow> score_error + ('a, f64) dict" where
  "keyed_by names [] = Inr []"
| "keyed_by names ((k, v) # d) =
     (case map_of names k of None \<Rightarrow> Inl (Refused 400) | Some x \<Rightarrow> bind_res (keyed_by names d) (\<lambda>e. Inr ((x, v) # e)))"

definition entries_of :: "(string, f64) dict option \<Rightarrow> (string, f64) dict" where
  "entries_of d = (case d of None \<Rightarrow> [] | Some e \<Rightarrow> e)"

definition new_profile :: "string \<Rightarrow> profile_request \<Rightarrow> (dimension, f64) dict \<Rightarrow> (tier, f64) dict \<Rightarrow> scoring_profile" where
  "new_profile i q ws ts =
     \<lparr>sp_id = i, sp_domain = pq_domain q, sp_version = ''1.0.0'', sp_weights = (if ws \<noteq> [] then ws else default_dimension_weights),
      sp_decay = default_decay_configs, sp_tiers = (if ts \<noteq> [] then ts else default_tier_thresholds), sp_icp = None,
      sp_confidence_floor = pq_floor q, sp_gate_penalty = pq_penalty q, sp_min_fields = pq_min_fields q\<rparr>"

definition profile_fields_ok :: "profile_request \<Rightarrow> bool" where
  "profile_fields_ok q \<longleftrightarrow> in_unit (pq_floor q) \<and> in_unit (pq_penalty q) \<and> 1 \<le> pq_min_fields q"

definition create_profile :: "string \<Rightarrow> profile_request \<Rightarrow> 'p score_deps \<Rightarrow> (score_error + scoring_profile) \<times> 'p score_deps" where
  "create_profile i q d =
     (case bind_res (get_profile_store d) (\<lambda>ps. bind_res (keyed_by dimension_names (entries_of (pq_weights q))) (\<lambda>ws.
             bind_res (keyed_by tier_names (entries_of (pq_tiers q))) (\<lambda>ts.
               if profile_fields_ok q then Inr (ps, new_profile i q ws ts) else Inl (Crashed ValueError)))) of
        Inl e \<Rightarrow> (Inl e, d)
      | Inr ((ops, s), p) \<Rightarrow> (Inr p, d\<lparr>sd_profiles := Some (ops, ps_save ops p s)\<rparr>))"

definition profile_endpoint :: "string \<Rightarrow> 'p score_deps \<Rightarrow> score_error + scoring_profile" where
  "profile_endpoint pid d = stored_profile d pid"

section \<open>Distribution\<close>

record distribution_answer =
  dt_total :: nat
  dt_counts :: "(tier, int) dict"
  dt_avg :: f64

definition count_tier :: "score_record \<Rightarrow> (tier, int) dict \<Rightarrow> (tier, int) dict" where
  "count_tier r d = dset (sr_tier r) (dget_or d (sr_tier r) 0 + 1) d"

definition tier_distribution :: "string \<Rightarrow> 'p score_deps \<Rightarrow> score_error + distribution_answer" where
  "tier_distribution domain d =
     bind_res (get_score_store d) (\<lambda>ss.
       let rs = ss_list ss domain 10000; acc = foldl (+) 0 (map sr_composite rs)
       in Inr \<lparr>dt_total = length rs, dt_counts = fold count_tier rs [],
               dt_avg = py_round 4 (if rs \<noteq> [] then acc / f_of_int (int (length rs)) else 0)\<rparr>)"

section \<open>The profile of plastics recyclers\<close>

definition exact_criterion :: "string \<Rightarrow> string \<Rightarrow> rat \<Rightarrow> bool \<Rightarrow> dimension \<Rightarrow> icp_criterion" where
  "exact_criterion n v w g d =
     \<lparr>ic_name = n, ic_type = ExactMatch, ic_value = PStr v, ic_range = None, ic_set = None, ic_weights = None, ic_weight = flt w,
      ic_gate = g, ic_dimension = d\<rparr>"

definition range_criterion :: "string \<Rightarrow> rat \<Rightarrow> rat \<Rightarrow> rat \<Rightarrow> dimension \<Rightarrow> icp_criterion" where
  "range_criterion n lo hi w d =
     \<lparr>ic_name = n, ic_type = Range, ic_value = PNone, ic_range = Some (flt lo, flt hi), ic_set = None, ic_weights = None, ic_weight = flt w,
      ic_gate = False, ic_dimension = d\<rparr>"

definition flag_criterion :: "string \<Rightarrow> rat \<Rightarrow> dimension \<Rightarrow> icp_criterion" where
  "flag_criterion n w d =
     \<lparr>ic_name = n, ic_type = Boolean, ic_value = PBool True, ic_range = None, ic_set = None, ic_weights = None, ic_weight = flt w,
      ic_gate = False, ic_dimension = d\<rparr>"

definition set_criterion :: "string \<Rightarrow> (string \<times> rat) list \<Rightarrow> rat \<Rightarrow> bool \<Rightarrow> dimension \<Rightarrow> icp_criterion" where
  "set_criterion n ws w g d =
     \<lparr>ic_name = n, ic_type = WeightedSet, ic_value = PNone, ic_range = None, ic_set = Some (map (PStr \<circ> fst) ws),
      ic_weights = Some (map (\<lambda>(k, x). (k, flt x)) ws), ic_weight = flt w, ic_gate = g, ic_dimension = d\<rparr>"

definition plastics_icp :: "icp_criterion list" where
  "plastics_icp =
     [exact_criterion ''primary_resin'' ''HDPE'' (9 / 10) True Fit,
      set_criterion ''facility_tier'' [(''tier_1'', 1), (''tier_2'', 3 / 4), (''tier_3'', 3 / 10)] (4 / 5) True Fit,
      range_criterion ''contamination_tolerance_pct'' (1 / 2) 3 (3 / 4) Fit,
      range_criterion ''mfi_range'' (3 / 10) 12 (7 / 10) Fit,
      set_criterion ''material_grade'' [(''injection'', 1), (''blow_molding'', 9 / 10), (''extrusion'', 7 / 10), (''film'', 1 / 2)] (13 / 20) False Fit,
      range_criterion ''processing_capacity_tons_month'' 500 50000 (3 / 5) Fit,
      flag_criterion ''has_quality_certification'' (1 / 2) Fit,
      flag_criterion ''color_sorting_capability'' (2 / 5) Fit,
      set_criterion ''geographic_region''
        [(''southeast_us'', 1), (''midwest_us'', 17 / 20), (''northeast_us'', 7 / 10), (''west_us'', 3 / 5)] (7 / 20) False Fit,
      flag_criterion ''has_procurement_contact'' (7 / 10) Readiness,
      range_criterion ''current_supplier_count'' 1 5 (1 / 2) Readiness,
      flag_criterion ''contract_renewal_within_90d'' (4 / 5) Readiness,
      range_criterion ''pricing_page_visits'' 2 100 (4 / 5) Intent,
      flag_criterion ''sample_request'' (9 / 10) Intent]"

definition plastics_gate_fields :: "string list" where
  "plastics_gate_fields = map ic_name (filter ic_gate plastics_icp)"

record criteria_summary =
  cs_count :: nat
  cs_gates :: "string list"
  cs_fields :: "(string \<times> icp_type \<times> f64 \<times> bool) list"

definition criteria_dimensions :: "icp_criterion list \<Rightarrow> dimension list" where
  "criteria_dimensions cs = dedup (map ic_dimension cs)"

definition field_summary :: "icp_criterion list \<Rightarrow> (dimension, criteria_summary) dict" where
  "field_summary cs =
     map (\<lambda>d. let xs = criteria_by_dimension cs d
              in (d, \<lparr>cs_count = length xs, cs_gates = map ic_name (filter ic_gate xs),
                      cs_fields = map (\<lambda>c. (ic_name c, ic_type c, ic_weight c, ic_gate c)) xs\<rparr>)) (criteria_dimensions cs)"

section \<open>What the endpoints answer\<close>

text \<open>
  An answered score is a saved one. The endpoint answers exactly when the engine produced a record with a profile
  of the store; the record is added to the saved ones, and the answer gives its tier, its composite rounded to
  four places, the count of its missing fields and the names of those that are gate-critical. When it fails,
  nothing was saved and no dependency changed.
\<close>

theorem answered_score_is_saved:
  "(\<forall>a d'. score_endpoint ord now e pid run match d = (Inr a, d') \<longleftrightarrow>
      (\<exists>eg ops s p r. sd_engine d = Some eg \<and> sd_profiles d = Some (ops, s) \<and> ps_get ops s pid = Some p \<and>
         score_entity eg ord e p run match now (sd_saved d) = Inr (r, sd_saved d @ [r]) \<and> d' = d\<lparr>sd_saved := sd_saved d @ [r]\<rparr> \<and>
         a = entity_answer_of r)) \<and>
   (\<forall>err d'. score_endpoint ord now e pid run match d = (Inl err, d') \<longrightarrow> d' = d)"
proof -
  have saved: "\<exists>r. y = (r, sd_saved d @ [r])" if "score_entity eg ord e p run match now (sd_saved d) = Inr y" for eg p y
    using that by (auto simp: score_entity_def Let_def bind_res_Inr_iff record_checked_def split: if_splits)
  have step: "(case crash (score_entity eg ord e p run match now (sd_saved d)) of Inl err \<Rightarrow> (Inl err, d)
      | Inr (r, s) \<Rightarrow> (Inr (entity_answer_of r), d\<lparr>sd_saved := s\<rparr>)) = (Inr a, d') \<longleftrightarrow>
      (\<exists>r. score_entity eg ord e p run match now (sd_saved d) = Inr (r, sd_saved d @ [r]) \<and> d' = d\<lparr>sd_saved := sd_saved d @ [r]\<rparr> \<and> a = entity_answer_of r)"
    for eg p a d'
    using saved by (cases "score_entity eg ord e p run match now (sd_saved d)") (auto simp: crash_def)
  show ?thesis
    by (auto simp: score_endpoint_def get_score_engine_def stored_profile_def get_profile_store_def dependency_def or_404_def step
        split: option.splits sum.splits prod.splits)
qed

definition dict_profiles :: "(string, scoring_profile) dict profile_store" where
  "dict_profiles = \<lparr>ps_get = dget, ps_save = (\<lambda>p. dset (sp_id p) p)\<rparr>"

definition wired_deps :: "(string, scoring_profile) dict score_deps" where
  "wired_deps = stub_deps\<lparr>sd_engine := Some (sample_score_engine [(''name'', PStr ''Acme'')] None),
     sd_profiles := Some (dict_profiles, [(''p'', sample_profile)])\<rparr>"

theorem answered_score_is_saved_witness:
  "\<exists>a d'. score_endpoint (\<lambda>xs. xs) 0 ''e'' ''p'' None None wired_deps = (Inr a, d') \<and> length (sd_saved d') = 1"
proof -
  obtain dims where dims: "score_dimensions (sample_score_engine [(''name'', PStr ''Acme'')] None) ''e'' sample_profile = Inr dims"
    using sample_dimensions by blast
  have "enough_fields (sample_score_engine [(''name'', PStr ''Acme'')] None) ''e'' sample_profile"
    by (simp add: enough_fields_def present_count_def sample_score_engine_def sample_profile_def)
  from score_entity_dims [OF this dims sample_weights, of "\<lambda>xs. xs" None None 0 "[]"] obtain r where
    r: "score_entity (sample_score_engine [(''name'', PStr ''Acme'')] None) (\<lambda>xs. xs) ''e'' sample_profile None None 0 [] = Inr (r, [r])" by auto
  have w: "sd_engine wired_deps = Some (sample_score_engine [(''name'', PStr ''Acme'')] None)"
    "sd_profiles wired_deps = Some (dict_profiles, [(''p'', sample_profile)])" "sd_saved wired_deps = []"
    by (simp_all add: wired_deps_def stub_deps_def)
  have "score_endpoint (\<lambda>xs. xs) 0 ''e'' ''p'' None None wired_deps = (Inr (entity_answer_of r), wired_deps\<lparr>sd_saved := [r]\<rparr>)"
    by (subst answered_score_is_saved [THEN conjunct1, rule_format]) (use r w in \<open>auto simp: dict_profiles_def\<close>)
  then show ?thesis by simp
qed

section \<open>Profiles\<close>

lemma keyed_by_values: "keyed_by names d = Inr e \<Longrightarrow> dvalues e = dvalues d \<and> (\<forall>x \<in> set (dkeys e). x \<in> snd ` set names)"
proof (induction d arbitrary: e)
  case (Cons kv d)
  obtain k v where kv: "kv = (k, v)" by (cases kv)
  from Cons.prems obtain x e' where "map_of names k = Some x" and "keyed_by names d = Inr e'" and "e = (x, v) # e'"
    by (auto simp: kv bind_res_Inr_iff split: option.splits)
  with Cons.IH show ?case by (force simp: kv dest: map_of_SomeD)
qed simp

lemma keyed_by_unknown: "k \<in> set (dkeys d) \<Longrightarrow> map_of names k = None \<Longrightarrow> keyed_by names d = Inl (Refused 400)"
proof (induction d)
  case (Cons kv d)
  obtain j v where kv: "kv = (j, v)" by (cases kv)
  show ?case
  proof (cases "map_of names j")
    case (Some x)
    with Cons.prems have "k \<in> set (dkeys d)" by (auto simp: kv)
    with Cons.IH [OF this Cons.prems(2)] Some show ?thesis by (simp add: kv)
  qed (simp add: kv)
qed simp

text \<open>
  A profile that was created is the one found under its name. Over a store that returns what was saved, the
  endpoint accepts a request exactly when its keys are dimensions and tiers and its three figures are in their
  ranges; the profile found afterwards is the one answered, with the weights and thresholds of the request
  where it gives some and the defaults elsewhere. A request with an unknown key is refused and saves nothing.
\<close>

theorem created_profile_found:
  assumes "sd_profiles d = Some (ops, s)" and "\<And>p s. ps_get ops (ps_save ops p s) (sp_id p) = Some p"
  shows "(\<forall>p d'. create_profile i q d = (Inr p, d') \<longrightarrow>
      profile_endpoint i d' = Inr p \<and> profile_fields_ok q \<and>
      dvalues (sp_weights p) = (if entries_of (pq_weights q) = [] then dvalues default_dimension_weights else dvalues (entries_of (pq_weights q))) \<and>
      dvalues (sp_tiers p) = (if entries_of (pq_tiers q) = [] then dvalues default_tier_thresholds else dvalues (entries_of (pq_tiers q)))) \<and>
    (\<forall>k \<in> set (dkeys (entries_of (pq_weights q))). map_of dimension_names k = None \<longrightarrow> create_profile i q d = (Inl (Refused 400), d))"
proof (intro conjI allI impI ballI)
  fix p d' assume run: "create_profile i q d = (Inr p, d')"
  then obtain ws ts where ws: "keyed_by dimension_names (entries_of (pq_weights q)) = Inr ws"
    and ts: "keyed_by tier_names (entries_of (pq_tiers q)) = Inr ts" and ok: "profile_fields_ok q"
    and p: "p = new_profile i q ws ts" and d': "d' = d\<lparr>sd_profiles := Some (ops, ps_save ops p s)\<rparr>"
    using assms(1) by (auto simp: create_profile_def get_profile_store_def dependency_def bind_res_Inr_iff split: sum.splits if_splits prod.splits)
  have "sp_id p = i" by (simp add: p new_profile_def)
  then show "profile_endpoint i d' = Inr p"
    using assms(2) [of p s] by (simp add: profile_endpoint_def stored_profile_def get_profile_store_def dependency_def or_404_def d')
  show "profile_fields_ok q" by (rule ok)
  have "ws = [] \<longleftrightarrow> entries_of (pq_weights q) = []" using keyed_by_values [OF ws] by (metis list.map_disc_iff)
  with keyed_by_values [OF ws] show "dvalues (sp_weights p) =
      (if entries_of (pq_weights q) = [] then dvalues default_dimension_weights else dvalues (entries_of (pq_weights q)))"
    by (simp add: p new_profile_def)
  have "ts = [] \<longleftrightarrow> entries_of (pq_tiers q) = []" using keyed_by_values [OF ts] by (metis list.map_disc_iff)
  with keyed_by_values [OF ts] show "dvalues (sp_tiers p) =
      (if entries_of (pq_tiers q) = [] then dvalues default_tier_thresholds else dvalues (entries_of (pq_tiers q)))"
    by (simp add: p new_profile_def)
next
  fix k assume "k \<in> set (dkeys (entries_of (pq_weights q)))" and "map_of dimension_names k = None"
  then have "keyed_by dimension_names (entries_of (pq_weights q)) = Inl (Refused 400)" by (rule keyed_by_unknown)
  then show "create_profile i q d = (Inl (Refused 400), d)"
    using assms(1) by (simp add: create_profile_def get_profile_store_def dependency_def)
qed

definition zero_weight_request :: profile_request where
  "zero_weight_request = \<lparr>pq_name = ''n'', pq_domain = ''d'', pq_weights = Some [(''fit'', 0)], pq_tiers = None, pq_floor = 0, pq_penalty = 1,
     pq_min_fields = 1\<rparr>"

lemma zero_weight_created: "fst (create_profile ''new'' zero_weight_request wired_deps) = Inr (new_profile ''new'' zero_weight_request [(Fit, 0)] [])"
  by (simp add: create_profile_def get_profile_store_def dependency_def wired_deps_def stub_deps_def zero_weight_request_def entries_of_def
      dimension_names_def profile_fields_ok_def in_unit_def)

theorem created_profile_found_witness:
  "\<exists>p d'. create_profile ''new'' zero_weight_request wired_deps = (Inr p, d') \<and> profile_endpoint ''new'' d' = Inr p \<and> dvalues (sp_weights p) = [0]"
proof -
  obtain p d' where run: "create_profile ''new'' zero_weight_request wired_deps = (Inr p, d')"
    using zero_weight_created by (cases "create_profile ''new'' zero_weight_request wired_deps") auto
  have "sd_profiles wired_deps = Some (dict_profiles, [(''p'', sample_profile)])" by (simp add: wired_deps_def)
  moreover have "ps_get dict_profiles (ps_save dict_profiles p s) (sp_id p) = Some p" for p s by (simp add: dict_profiles_def update_conv')
  ultimately have "profile_endpoint ''new'' d' = Inr p \<and> dvalues (sp_weights p) =
      (if entries_of (pq_weights zero_weight_request) = [] then dvalues default_dimension_weights else dvalues (entries_of (pq_weights zero_weight_request)))"
    using created_profile_found [of wired_deps dict_profiles "[(''p'', sample_profile)]" "''new''" zero_weight_request] run by blast
  with run show ?thesis by (simp add: zero_weight_request_def entries_of_def)
qed

text \<open>Weights are not checked: those of a request may add up to 0, and then every entity has the composite 0.\<close>

lemma zero_weights_score_nothing:
  assumes "weights_sum p = 0"
  shows "fst (compute_composite dims p b) = 0"
proof -
  have w: "normalized_weight p x = 0" for x using assms by (simp add: normalized_weight_def)
  have step: "composite_step p b e s = s" for e s by (simp add: composite_step_def w split: prod.split)
  have "fold (composite_step p b) dims s = s" for s by (induction dims arbitrary: s) (simp_all add: step)
  then show ?thesis by (simp add: compute_composite_def)
qed

section \<open>Distribution, explanations and the plastics profile\<close>

lemma tiers_counted: "dget_or (fold count_tier rs c) t 0 = dget_or c t 0 + int (length (filter (\<lambda>r. sr_tier r = t) rs))"
  by (induction rs arbitrary: c) (auto simp: count_tier_def dget_or_def update_conv')

lemma distribution_counts:
  "tier_distribution domain d = Inr a \<Longrightarrow> sd_scores d = Some ss \<Longrightarrow>
   dget_or (dt_counts a) t 0 = int (length (filter (\<lambda>r. sr_tier r = t) (ss_list ss domain 10000))) \<and> dt_total a = length (ss_list ss domain 10000)"
  by (auto simp: tier_distribution_def get_score_store_def dependency_def Let_def tiers_counted) (simp_all add: dget_or_def)

text \<open>No score is ever explained or compared over HTTP, whatever is configured; the two records of a comparison would be the same one.\<close>

lemma explanations_always_fail: "explain_endpoint e pid domain d \<noteq> Inr x" and "compare_endpoint e b a pid d \<noteq> Inr y"
  by (auto simp: explain_endpoint_def compare_endpoint_def bind_res_Inr_iff)

lemma compared_ids_ignored: "compare_endpoint e b a pid d = compare_endpoint e b' a' pid d"
  by (simp add: compare_endpoint_def)

text \<open>Nothing replaces the stubs: every endpoint raises.\<close>

lemma unwired_endpoints_raise:
  "score_endpoint ord now e pid run match stub_deps = (Inl (NotWired ''ScoreEngine''), stub_deps)"
  "batch_endpoint ord now es pid stub_deps = Inl (NotWired ''ScoreEngine'')"
  "rescore_endpoint ord now e pid previous stub_deps = Inl (NotWired ''ScoreEngine'')"
  "preview_endpoint e pid domain days stub_deps = Inl (NotWired ''DecayEngine'')"
  "decay_endpoint now pid stale stub_deps = (Inl (NotWired ''DecayEngine''), stub_deps)"
  "create_profile i q stub_deps = (Inl (NotWired ''ProfileStore''), stub_deps)"
  "tier_distribution domain stub_deps = Inl (NotWired ''ScoreStore'')"
  by (simp_all add: score_endpoint_def batch_endpoint_def rescore_endpoint_def preview_endpoint_def decay_endpoint_def create_profile_def
      tier_distribution_def get_score_engine_def get_decay_engine_def get_profile_store_def get_score_store_def dependency_def stub_deps_def)

text \<open>
  The plastics profile has criteria on readiness and intent. The engine evaluates those of fit alone: five of the
  fourteen have no effect on a score.
\<close>

lemma only_fit_criteria_count:
  "score_fit ent confs sources (Some cs) p = score_fit ent confs sources (Some (criteria_by_dimension cs Fit)) p"
  by (simp add: score_fit_def criteria_by_dimension_def)

lemma plastics_criteria: "length plastics_icp = 14" "length (criteria_by_dimension plastics_icp Fit) = 9"
  "plastics_gate_fields = [''primary_resin'', ''facility_tier'']"
  by (simp_all add: plastics_icp_def criteria_by_dimension_def plastics_gate_fields_def exact_criterion_def range_criterion_def
      flag_criterion_def set_criterion_def)

lemma summary_covers: "sum_list (map (cs_count \<circ> snd) (field_summary plastics_icp)) = length plastics_icp"
  by (simp add: field_summary_def criteria_dimensions_def plastics_icp_def criteria_by_dimension_def exact_criterion_def
      range_criterion_def flag_criterion_def set_criterion_def)

end
