(* ===== verification/CrmClients.thy ===== *)
theory CrmClients
  imports PyNumbers FieldClassifier
begin

text \<open>
  \<open>app/services/crm/salesforce_client.py\<close> and \<open>hubspot_client.py\<close>: the clients of the two hosted CRMs. The
  server is a parameter: its answer to a request after the requests made so far, either the error text of
  the transport or a response. Operations return their result with the requests made; the HubSpot client
  also keeps its rate limit, and the record of its state holds how often it read the clock and how long it slept.
  The text of an error the interpreter raises is left open (\<open>hw_text\<close>).
\<close>

section \<open>Requests and answers\<close>

datatype payload = NoPayload | Form "(string, string) dict" | Params fields | Json pyval

record http_req =
  rq_method :: string
  rq_url :: string
  rq_payload :: payload
  rq_headers :: "(string, string) dict"
  rq_timeout :: int

record http_resp =
  rs_status :: int
  rs_header :: "string \<Rightarrow> string option"
  rs_status_text :: string
  rs_json :: "string + pyval"

record http_world =
  hw_answer :: "http_req list \<Rightarrow> http_req \<Rightarrow> string + http_resp"
  hw_now :: "nat \<Rightarrow> f64"
  hw_text :: "pyerr \<Rightarrow> string"

record crm_write =
  cw_success :: pyval
  cw_id :: pyval
  cw_fields :: "string list"
  cw_error :: string

definition raise_for_status :: "http_resp \<Rightarrow> string + http_resp" where
  "raise_for_status r = (if 200 \<le> rs_status r \<and> rs_status r < 300 then Inr r else Inl (rs_status_text r))"

definition as_text :: "http_world \<Rightarrow> pyerr + 'a \<Rightarrow> string + 'a" where
  "as_text w r = (case r of Inl e \<Rightarrow> Inl (hw_text w e) | Inr x \<Rightarrow> Inr x)"

definition write_failed :: "string \<Rightarrow> crm_write" where
  "write_failed e = \<lparr>cw_success = PBool False, cw_id = PStr [], cw_fields = [], cw_error = e\<rparr>"

definition write_done :: "pyval \<Rightarrow> fields \<Rightarrow> crm_write" where
  "write_done rid data = \<lparr>cw_success = PBool True, cw_id = rid, cw_fields = dkeys data, cw_error = []\<rparr>"

definition settle :: "string + crm_write \<Rightarrow> crm_write" where
  "settle r = (case r of Inl e \<Rightarrow> write_failed e | Inr x \<Rightarrow> x)"

definition settle_all :: "nat \<Rightarrow> string + crm_write list \<Rightarrow> crm_write list" where
  "settle_all n r = (case r of Inl e \<Rightarrow> replicate n (write_failed e) | Inr xs \<Rightarrow> xs)"

definition bearer_headers :: "string \<Rightarrow> (string, string) dict" where
  "bearer_headers token = [(''Authorization'', ''Bearer '' @ token), (''Content-Type'', ''application/json'')]"

text \<open>\<open>v[k]\<close> for a text \<open>k\<close>.\<close>

definition index_text :: "pyval \<Rightarrow> string \<Rightarrow> pyerr + pyval" where
  "index_text v k =
     (case v of PDict d \<Rightarrow> (case dget d k of Some x \<Rightarrow> Inr x | None \<Rightarrow> Inl KeyError) | _ \<Rightarrow> Inl TypeError)"

section \<open>Text of a SOQL query\<close>

definition quote_char :: char where "quote_char = char_of (39 :: nat)"
definition backslash :: char where "backslash = char_of (92 :: nat)"

definition replace_char :: "char \<Rightarrow> string \<Rightarrow> string \<Rightarrow> string" where
  "replace_char c t s = concat (map (\<lambda>x. if x = c then t else [x]) s)"

definition soql_escape :: "string \<Rightarrow> string" where
  "soql_escape v =
     [quote_char] @ replace_char quote_char [backslash, quote_char] (replace_char backslash [backslash, backslash] v) @ [quote_char]"

definition soql_literal :: "pyval \<Rightarrow> string" where
  "soql_literal v =
     (case v of
        PBool b \<Rightarrow> if b then ''true'' else ''false''
      | PInt n \<Rightarrow> py_str v
      | PFloat x \<Rightarrow> py_str v
      | PNone \<Rightarrow> ''null''
      | _ \<Rightarrow> soql_escape (py_str v))"

definition word_start :: "char \<Rightarrow> bool" where
  "word_start c = (let n = code c in (65 \<le> n \<and> n \<le> 90) \<or> (97 \<le> n \<and> n \<le> 122) \<or> n = 95)"

definition word_char :: "char \<Rightarrow> bool" where
  "word_char c = (word_start c \<or> (let n = code c in (48 \<le> n \<and> n \<le> 57) \<or> n = 46))"

text \<open>The pattern ends in \<open>$\<close>, which also matches before a newline at the end of the text.\<close>

definition soql_field_re :: "string \<Rightarrow> bool" where
  "soql_field_re s =
     (case s of
        [] \<Rightarrow> False
      | c # cs \<Rightarrow> word_start c \<and>
          (list_all word_char cs \<or> cs \<noteq> [] \<and> code (last cs) = 10 \<and> list_all word_char (butlast cs)))"

definition validate_soql_identifiers :: "string list \<Rightarrow> pyerr + unit" where
  "validate_soql_identifiers names = (if list_all soql_field_re names then Inr () else Inl ValueError)"

definition filter_text :: "string \<times> pyval \<Rightarrow> string" where
  "filter_text kv = fst kv @ '' = '' @ soql_literal (snd kv)"

definition where_clause :: "fields \<Rightarrow> string" where
  "where_clause filters = (if filters = [] then ''Id != null'' else join '' AND '' (map filter_text filters))"

definition soql_text :: "string \<Rightarrow> fields \<Rightarrow> string list \<Rightarrow> string" where
  "soql_text object_type filters fs =
     ''SELECT '' @ (if fs = [] then ''Id, Name'' else join '', '' fs) @ '' FROM '' @ object_type @ '' WHERE '' @ where_clause filters"

section \<open>The Salesforce client\<close>

record sf_client =
  sf_creds :: "(string, string) dict"
  sf_instance_url :: pyval
  sf_access_token :: pyval
  sf_api_version :: string

definition new_sf_client :: "(string, string) dict \<Rightarrow> sf_client" where
  "new_sf_client creds =
     \<lparr>sf_creds = creds, sf_instance_url = PStr [], sf_access_token = PStr [],
      sf_api_version = dget_or creds ''api_version'' ''v59.0''\<rparr>"

definition sf_headers :: "sf_client \<Rightarrow> (string, string) dict" where
  "sf_headers c = bearer_headers (py_str (sf_access_token c))"

definition sf_data_url :: "sf_client \<Rightarrow> string \<Rightarrow> string" where
  "sf_data_url c path = py_str (sf_instance_url c) @ ''/services/data/'' @ sf_api_version c @ path"

definition sf_request :: "sf_client \<Rightarrow> string \<Rightarrow> string \<Rightarrow> payload \<Rightarrow> int \<Rightarrow> http_req" where
  "sf_request c meth path p t =
     \<lparr>rq_method = meth, rq_url = sf_data_url c path, rq_payload = p, rq_headers = sf_headers c, rq_timeout = t\<rparr>"

text \<open>A request, its status check and the JSON of its answer.\<close>

definition fetch :: "http_world \<Rightarrow> http_req list \<Rightarrow> http_req \<Rightarrow> string + http_resp" where
  "fetch w cs rq = bind_res (hw_answer w cs rq) raise_for_status"

definition fetch_json :: "http_world \<Rightarrow> http_req list \<Rightarrow> http_req \<Rightarrow> string + pyval" where
  "fetch_json w cs rq = bind_res (fetch w cs rq) rs_json"

definition token_request :: "sf_client \<Rightarrow> http_req" where
  "token_request c =
     (let creds = sf_creds c; grant = dget_or creds ''grant_type'' ''password'';
          body = [(''grant_type'', grant), (''client_id'', dget_or creds ''client_id'' []),
                  (''client_secret'', dget_or creds ''client_secret'' [])]
      in \<lparr>rq_method = ''POST'', rq_url = dget_or creds ''token_url'' ''https://login.salesforce.com/services/oauth2/token'',
          rq_payload = Form (if grant = ''password''
             then body @ [(''username'', dget_or creds ''username'' []),
                          (''password'', dget_or creds ''password'' [] @ dget_or creds ''security_token'' [])]
             else body),
          rq_headers = [], rq_timeout = 30\<rparr>)"

text \<open>The URL is stored before the token is read, so it stays when the answer has no token.\<close>

definition sf_connect :: "http_world \<Rightarrow> sf_client \<Rightarrow> http_req list \<Rightarrow> bool \<times> sf_client \<times> http_req list" where
  "sf_connect w c cs =
     (let rq = token_request c in
      case fetch_json w cs rq of
        Inl e \<Rightarrow> (False, c, cs @ [rq])
      | Inr data \<Rightarrow>
          (case index_text data ''instance_url'' of
             Inl e \<Rightarrow> (False, c, cs @ [rq])
           | Inr url \<Rightarrow>
               (let c1 = c\<lparr>sf_instance_url := url\<rparr> in
                case index_text data ''access_token'' of
                  Inl e \<Rightarrow> (False, c1, cs @ [rq])
                | Inr token \<Rightarrow> (True, c1\<lparr>sf_access_token := token\<rparr>, cs @ [rq]))))"

definition sf_test_connection :: "http_world \<Rightarrow> sf_client \<Rightarrow> http_req list \<Rightarrow> bool \<times> http_req list" where
  "sf_test_connection w c cs =
     (if \<not> truthy (sf_access_token c) then (False, cs)
      else (let rq = sf_request c ''GET'' ''/limits'' NoPayload 10 in
            (case hw_answer w cs rq of Inl e \<Rightarrow> False | Inr r \<Rightarrow> rs_status r = 200, cs @ [rq])))"

definition sf_get_record :: "http_world \<Rightarrow> sf_client \<Rightarrow> string \<Rightarrow> string \<Rightarrow> http_req list \<Rightarrow> pyval \<times> http_req list" where
  "sf_get_record w c object_type rid cs =
     (let rq = sf_request c ''GET'' (''/sobjects/'' @ object_type @ ''/'' @ rid) NoPayload 15 in
      (case hw_answer w cs rq of
         Inl e \<Rightarrow> PNone
       | Inr r \<Rightarrow> if rs_status r = 404 then PNone
                  else (case bind_res (raise_for_status r) rs_json of Inl e \<Rightarrow> PNone | Inr v \<Rightarrow> v),
       cs @ [rq]))"

definition sf_query_records ::
    "http_world \<Rightarrow> sf_client \<Rightarrow> string \<Rightarrow> fields \<Rightarrow> string list option \<Rightarrow> http_req list \<Rightarrow> pyerr + pyval \<times> http_req list" where
  "sf_query_records w c object_type filters fs cs =
     (let names = (case fs of None \<Rightarrow> [] | Some ns \<Rightarrow> ns) in
      bind_res (validate_soql_identifiers [object_type]) (\<lambda>_.
      bind_res (validate_soql_identifiers names) (\<lambda>_.
      bind_res (validate_soql_identifiers (dkeys filters)) (\<lambda>_.
        let rq = sf_request c ''GET'' ''/query'' (Params [(''q'', PStr (soql_text object_type filters names))]) 30 in
        Inr (case bind_res (fetch_json w cs rq) (\<lambda>v. as_text w (py_get v ''records'' (PList []))) of
               Inl e \<Rightarrow> PList [] | Inr v \<Rightarrow> v, cs @ [rq])))))"

definition sf_create_record :: "http_world \<Rightarrow> sf_client \<Rightarrow> string \<Rightarrow> fields \<Rightarrow> http_req list \<Rightarrow> crm_write \<times> http_req list" where
  "sf_create_record w c object_type data cs =
     (let rq = sf_request c ''POST'' (''/sobjects/'' @ object_type) (Json (PDict data)) 15 in
      (settle (bind_res (fetch_json w cs rq) (\<lambda>v. as_text w (
         bind_res (py_get v ''success'' (PBool False)) (\<lambda>ok.
         bind_res (py_get v ''id'' (PStr [])) (\<lambda>rid.
         Inr \<lparr>cw_success = ok, cw_id = rid, cw_fields = dkeys data, cw_error = []\<rparr>))))), cs @ [rq]))"

definition sf_update_record ::
    "http_world \<Rightarrow> sf_client \<Rightarrow> string \<Rightarrow> string \<Rightarrow> fields \<Rightarrow> http_req list \<Rightarrow> crm_write \<times> http_req list" where
  "sf_update_record w c object_type rid data cs =
     (let rq = sf_request c ''PATCH'' (''/sobjects/'' @ object_type @ ''/'' @ rid) (Json (PDict data)) 15 in
      (settle (bind_res (fetch w cs rq) (\<lambda>r. Inr (write_done (PStr rid) data))), cs @ [rq]))"

definition sf_upsert_record ::
    "http_world \<Rightarrow> sf_client \<Rightarrow> string \<Rightarrow> string \<Rightarrow> string \<Rightarrow> fields \<Rightarrow> http_req list \<Rightarrow> crm_write \<times> http_req list" where
  "sf_upsert_record w c object_type id_field id_value data cs =
     (let rq = sf_request c ''PATCH'' (''/sobjects/'' @ object_type @ ''/'' @ id_field @ ''/'' @ id_value) (Json (PDict data)) 15 in
      (settle (bind_res (fetch w cs rq) (\<lambda>r.
         if rs_status r = 201
         then bind_res (rs_json r) (\<lambda>v. bind_res (as_text w (py_get v ''id'' (PStr []))) (\<lambda>rid. Inr (write_done rid data)))
         else Inr (write_done (PStr []) data))), cs @ [rq]))"

text \<open>One entry of the answer to a composite request. An entry of its own \<open>attributes\<close> in a record replaces the type.\<close>

definition typed_record :: "string \<Rightarrow> fields \<Rightarrow> pyval" where
  "typed_record object_type rec = PDict (dupdate [(''attributes'', PDict [(''type'', PStr object_type)])] rec)"

definition composite_result :: "fields list \<Rightarrow> nat \<times> pyval \<Rightarrow> pyerr + crm_write" where
  "composite_result records ir =
     (case ir of (i, r) \<Rightarrow>
      bind_res (py_get r ''success'' (PBool False)) (\<lambda>ok.
      bind_res (py_get r ''id'' (PStr [])) (\<lambda>rid.
      bind_res (py_get r ''success'' PNone) (\<lambda>done_flag.
      bind_res (py_get r ''errors'' (PStr [])) (\<lambda>errs.
        if truthy done_flag
        then (if i < length records
              then Inr \<lparr>cw_success = ok, cw_id = rid, cw_fields = dkeys (records ! i), cw_error = []\<rparr> else Inl IndexError)
        else Inr \<lparr>cw_success = ok, cw_id = rid, cw_fields = [], cw_error = py_str errs\<rparr>)))))"

definition sf_bulk :: "string \<Rightarrow> http_world \<Rightarrow> sf_client \<Rightarrow> string \<Rightarrow> fields list \<Rightarrow> http_req list \<Rightarrow> crm_write list \<times> http_req list" where
  "sf_bulk meth w c object_type records cs =
     (let rq = sf_request c meth ''/composite/sobjects''
                 (Json (PDict [(''allOrNone'', PBool False), (''records'', PList (map (typed_record object_type) records))])) 60
      in (settle_all (length records) (bind_res (fetch_json w cs rq) (\<lambda>v. as_text w (
            bind_res (py_iter v) (\<lambda>rs. map_res (composite_result records) (enumerate 0 rs))))), cs @ [rq]))"

definition sf_bulk_create where "sf_bulk_create = sf_bulk ''POST''"
definition sf_bulk_update where "sf_bulk_update = sf_bulk ''PATCH''"

definition sf_field_entry :: "pyval \<Rightarrow> pyerr + pyval \<times> pyval" where
  "sf_field_entry f =
     bind_res (index_text f ''name'') (\<lambda>name.
     bind_res (index_text f ''type'') (\<lambda>ty.
     bind_res (index_text f ''label'') (\<lambda>label.
     bind_res (index_text f ''updateable'') (\<lambda>up.
     bind_res (index_text f ''createable'') (\<lambda>cr.
     bind_res (index_text f ''nillable'') (\<lambda>nil.
     bind_res (py_get f ''length'' PNone) (\<lambda>len.
       if hashable_value name
       then Inr (name, PDict [(''type'', ty), (''label'', label), (''updateable'', up), (''createable'', cr),
                              (''nillable'', nil), (''length'', len)])
       else Inl TypeError)))))))"

definition collect_entries :: "(pyval \<Rightarrow> pyerr + pyval \<times> pyval) \<Rightarrow> pyval \<Rightarrow> pyerr + (pyval, pyval) dict" where
  "collect_entries f v =
     bind_res (py_iter v) (\<lambda>xs. bind_res (map_res f xs) (\<lambda>kvs. Inr (fold (\<lambda>(k, x). dset k x) kvs [])))"

definition sf_field_metadata :: "http_world \<Rightarrow> sf_client \<Rightarrow> string \<Rightarrow> http_req list \<Rightarrow> (pyval, pyval) dict \<times> http_req list" where
  "sf_field_metadata w c object_type cs =
     (let rq = sf_request c ''GET'' (''/sobjects/'' @ object_type @ ''/describe'') NoPayload 15 in
      (case bind_res (fetch_json w cs rq) (\<lambda>v. as_text w (
              bind_res (py_get v ''fields'' (PList [])) (collect_entries sf_field_entry))) of
         Inl e \<Rightarrow> [] | Inr d \<Rightarrow> d, cs @ [rq]))"

section \<open>The HubSpot client\<close>

record hs_state =
  hs_token :: string
  hs_remaining :: int
  hs_reset :: f64
  hs_calls :: "http_req list"
  hs_reads :: nat
  hs_slept :: "f64 list"

definition new_hs_client :: "(string, string) dict \<Rightarrow> hs_state" where
  "new_hs_client creds =
     \<lparr>hs_token = dget_or creds ''access_token'' [], hs_remaining = 100, hs_reset = 0, hs_calls = [], hs_reads = 0, hs_slept = []\<rparr>"

definition hs_object_type :: "string \<Rightarrow> string" where
  "hs_object_type t =
     dget_or [(''company'', ''companies''), (''contact'', ''contacts''), (''deal'', ''deals''), (''opportunity'', ''deals'')] t t"

definition hs_request :: "hs_state \<Rightarrow> string \<Rightarrow> string \<Rightarrow> payload \<Rightarrow> int \<Rightarrow> http_req" where
  "hs_request s meth path p t =
     \<lparr>rq_method = meth, rq_url = ''https://api.hubapi.com'' @ path, rq_payload = p,
      rq_headers = bearer_headers (hs_token s), rq_timeout = t\<rparr>"

definition hs_objects :: "string \<Rightarrow> string \<Rightarrow> string" where
  "hs_objects object_type rest = ''/crm/v3/objects/'' @ hs_object_type object_type @ rest"

definition respect_rate_limit :: "http_world \<Rightarrow> hs_state \<Rightarrow> hs_state" where
  "respect_rate_limit w s =
     (if hs_remaining s < 5
      then (let wait = hs_reset s - hw_now w (hs_reads s); s1 = s\<lparr>hs_reads := Suc (hs_reads s)\<rparr>
            in if 0 < wait then s1\<lparr>hs_slept := hs_slept s @ [wait]\<rparr> else s1)
      else s)"

text \<open>A header that is no number raises inside the operation's \<open>try\<close>; what was set before it stays.\<close>

definition update_remaining :: "http_world \<Rightarrow> http_resp \<Rightarrow> hs_state \<Rightarrow> (string + unit) \<times> hs_state" where
  "update_remaining w r s =
     (case rs_header r ''X-HubSpot-RateLimit-Remaining'' of
        None \<Rightarrow> (Inr (), s)
      | Some t \<Rightarrow> (case parse_int t of None \<Rightarrow> (Inl (hw_text w ValueError), s) | Some n \<Rightarrow> (Inr (), s\<lparr>hs_remaining := n\<rparr>)))"

definition update_reset :: "http_world \<Rightarrow> http_resp \<Rightarrow> hs_state \<Rightarrow> (string + unit) \<times> hs_state" where
  "update_reset w r s =
     (case rs_header r ''X-HubSpot-RateLimit-Interval-Milliseconds'' of
        None \<Rightarrow> (Inr (), s)
      | Some t \<Rightarrow>
          (let now = hw_now w (hs_reads s); s1 = s\<lparr>hs_reads := Suc (hs_reads s)\<rparr> in
           case parse_int t of
             None \<Rightarrow> (Inl (hw_text w ValueError), s1)
           | Some n \<Rightarrow> (Inr (), s1\<lparr>hs_reset := now + f_of_int n / f_of_int 1000\<rparr>)))"

definition update_rate_limit :: "http_world \<Rightarrow> http_resp \<Rightarrow> hs_state \<Rightarrow> (string + unit) \<times> hs_state" where
  "update_rate_limit w r s =
     (case update_remaining w r s of (Inl e, s1) \<Rightarrow> (Inl e, s1) | (Inr _, s1) \<Rightarrow> update_reset w r s1)"

text \<open>The steps every rate-limited operation begins with: wait, send, read the limit from the answer.\<close>

definition hs_post :: "http_req \<Rightarrow> hs_state \<Rightarrow> hs_state" where
  "hs_post rq s = s\<lparr>hs_calls := hs_calls s @ [rq]\<rparr>"

definition hs_send :: "http_world \<Rightarrow> http_req \<Rightarrow> hs_state \<Rightarrow> (string + http_resp) \<times> hs_state" where
  "hs_send w rq s =
     (let s1 = respect_rate_limit w s; s2 = hs_post rq s1 in
      case hw_answer w (hs_calls s1) rq of
        Inl e \<Rightarrow> (Inl e, s2)
      | Inr r \<Rightarrow> (case update_rate_limit w r s2 of (Inl e, s3) \<Rightarrow> (Inl e, s3) | (Inr _, s3) \<Rightarrow> (Inr r, s3)))"

definition hs_json :: "string + http_resp \<Rightarrow> string + pyval" where
  "hs_json r = bind_res (bind_res r raise_for_status) rs_json"

definition account_request :: "hs_state \<Rightarrow> http_req" where
  "account_request s = hs_request s ''GET'' ''/account-info/v3/details'' NoPayload 10"

definition hs_connect :: "http_world \<Rightarrow> hs_state \<Rightarrow> bool \<times> hs_state" where
  "hs_connect w s =
     (let rq = account_request s in
      (case bind_res (hs_json (hw_answer w (hs_calls s) rq)) (\<lambda>v. as_text w (py_get v ''portalId'' PNone)) of
         Inl e \<Rightarrow> False | Inr info \<Rightarrow> True, hs_post rq s))"

definition hs_test_connection :: "http_world \<Rightarrow> hs_state \<Rightarrow> bool \<times> hs_state" where
  "hs_test_connection w s =
     (let rq = account_request s in
      (case hw_answer w (hs_calls s) rq of Inl e \<Rightarrow> False | Inr r \<Rightarrow> rs_status r = 200, hs_post rq s))"

definition hs_get_record :: "http_world \<Rightarrow> string \<Rightarrow> string \<Rightarrow> hs_state \<Rightarrow> pyval \<times> hs_state" where
  "hs_get_record w object_type rid s =
     (let (r, s1) = hs_send w (hs_request s ''GET'' (hs_objects object_type (''/'' @ rid)) NoPayload 15) s in
      (case bind_res r (\<lambda>x. if rs_status x = 404 then Inr PNone
               else bind_res (hs_json (Inr x)) (\<lambda>v. as_text w (py_get v ''properties'' (PDict [])))) of
         Inl e \<Rightarrow> PNone | Inr v \<Rightarrow> v, s1))"

definition search_body :: "fields \<Rightarrow> string list option \<Rightarrow> pyval" where
  "search_body filters fs =
     PDict ([(''filterGroups'', PList [PDict [(''filters'', PList (map (\<lambda>(k, v).
               PDict [(''propertyName'', PStr k), (''operator'', PStr ''EQ''), (''value'', PStr (py_str v))]) filters))]]),
             (''limit'', PInt 100)]
            @ (case fs of Some (n # ns) \<Rightarrow> [(''properties'', PList (map PStr (n # ns)))] | _ \<Rightarrow> []))"

definition record_properties :: "pyval \<Rightarrow> pyerr + pyval list" where
  "record_properties v =
     bind_res (py_get v ''results'' (PList [])) (\<lambda>rs.
     bind_res (py_iter rs) (map_res (\<lambda>r. py_get r ''properties'' (PDict []))))"

definition hs_query_records :: "http_world \<Rightarrow> string \<Rightarrow> fields \<Rightarrow> string list option \<Rightarrow> hs_state \<Rightarrow> pyval list \<times> hs_state" where
  "hs_query_records w object_type filters fs s =
     (let (r, s1) = hs_send w (hs_request s ''POST'' (hs_objects object_type ''/search'') (Json (search_body filters fs)) 30) s in
      (case bind_res (hs_json r) (\<lambda>v. as_text w (record_properties v)) of Inl e \<Rightarrow> [] | Inr ps \<Rightarrow> ps, s1))"

definition hs_create_record :: "http_world \<Rightarrow> string \<Rightarrow> fields \<Rightarrow> hs_state \<Rightarrow> crm_write \<times> hs_state" where
  "hs_create_record w object_type data s =
     (let (r, s1) = hs_send w (hs_request s ''POST'' (hs_objects object_type []) (Json (PDict [(''properties'', PDict data)])) 15) s in
      (settle (bind_res (hs_json r) (\<lambda>v.
         bind_res (as_text w (py_get v ''id'' (PStr []))) (\<lambda>rid. Inr (write_done rid data)))), s1))"

definition hs_update_record :: "http_world \<Rightarrow> string \<Rightarrow> pyval \<Rightarrow> fields \<Rightarrow> hs_state \<Rightarrow> crm_write \<times> hs_state" where
  "hs_update_record w object_type rid data s =
     (let (r, s1) = hs_send w (hs_request s ''PATCH'' (hs_objects object_type (''/'' @ py_str rid))
                      (Json (PDict [(''properties'', PDict data)])) 15) s in
      (settle (bind_res (bind_res r raise_for_status) (\<lambda>_. Inr (write_done rid data))), s1))"

text \<open>The first record found decides; one that is no dict raises outside every \<open>try\<close>.\<close>

definition hs_upsert_record ::
    "http_world \<Rightarrow> string \<Rightarrow> string \<Rightarrow> string \<Rightarrow> fields \<Rightarrow> hs_state \<Rightarrow> (pyerr + crm_write) \<times> hs_state" where
  "hs_upsert_record w object_type id_field id_value data s =
     (let (existing, s1) = hs_query_records w object_type [(id_field, PStr id_value)] None s;
          create = (case hs_create_record w object_type data s1 of (x, s2) \<Rightarrow> (Inr x, s2))
      in case existing of
           [] \<Rightarrow> create
         | e # _ \<Rightarrow>
             (case py_get e ''hs_object_id'' (PStr []) of
                Inl err \<Rightarrow> (Inl err, s1)
              | Inr rid \<Rightarrow>
                  if truthy rid then (case hs_update_record w object_type rid data s1 of (x, s2) \<Rightarrow> (Inr x, s2))
                  else create))"

definition batch_results :: "pyval \<Rightarrow> pyerr + pyval list" where
  "batch_results v = bind_res (py_get v ''results'' (PList [])) py_iter"

definition hs_created :: "fields list \<Rightarrow> nat \<times> pyval \<Rightarrow> pyerr + crm_write" where
  "hs_created records ir =
     (case ir of (i, r) \<Rightarrow> bind_res (py_get r ''id'' (PStr [])) (\<lambda>rid.
        Inr (write_done rid (if i < length records then records ! i else []))))"

definition hs_bulk_create :: "http_world \<Rightarrow> string \<Rightarrow> fields list \<Rightarrow> hs_state \<Rightarrow> crm_write list \<times> hs_state" where
  "hs_bulk_create w object_type records s =
     (let (r, s1) = hs_send w (hs_request s ''POST'' (hs_objects object_type ''/batch/create'')
            (Json (PDict [(''inputs'', PList (map (\<lambda>rec. PDict [(''properties'', PDict rec)]) records))])) 60) s in
      (settle_all (length records) (bind_res (hs_json r) (\<lambda>v. as_text w (
         bind_res (batch_results v) (\<lambda>rs. map_res (hs_created records) (enumerate 0 rs))))), s1))"

definition hs_updated :: "pyval \<Rightarrow> pyerr + crm_write" where
  "hs_updated r =
     bind_res (py_get r ''id'' (PStr [])) (\<lambda>rid.
     bind_res (py_get r ''properties'' (PDict [])) (\<lambda>ps.
       case ps of PDict d \<Rightarrow> Inr (write_done rid d) | _ \<Rightarrow> Inl AttributeError))"

definition update_input :: "fields \<Rightarrow> pyval" where
  "update_input rec = PDict [(''id'', dget_or rec ''id'' (PStr [])), (''properties'', PDict (dpop ''id'' rec))]"

text \<open>The identifiers are popped from the caller's records, which are returned as the call leaves them.\<close>

definition hs_bulk_update :: "http_world \<Rightarrow> string \<Rightarrow> fields list \<Rightarrow> hs_state \<Rightarrow> crm_write list \<times> fields list \<times> hs_state" where
  "hs_bulk_update w object_type records s =
     (let (r, s1) = hs_send w (hs_request s ''POST'' (hs_objects object_type ''/batch/update'')
            (Json (PDict [(''inputs'', PList (map update_input records))])) 60) s in
      (settle_all (length records) (bind_res (hs_json r) (\<lambda>v. as_text w (
         bind_res (batch_results v) (map_res hs_updated)))), map (dpop ''id'') records, s1))"

definition hs_field_entry :: "pyval \<Rightarrow> pyerr + pyval \<times> pyval" where
  "hs_field_entry p =
     bind_res (index_text p ''name'') (\<lambda>name.
     bind_res (index_text p ''type'') (\<lambda>ty.
     bind_res (index_text p ''label'') (\<lambda>label.
     bind_res (py_get p ''fieldType'' PNone) (\<lambda>ft.
     bind_res (py_get p ''groupName'' PNone) (\<lambda>grp.
     bind_res (py_get p ''hasUniqueValue'' (PBool False)) (\<lambda>uq.
       if hashable_value name
       then Inr (name, PDict [(''type'', ty), (''label'', label), (''field_type'', ft), (''group_name'', grp),
                              (''has_unique_value'', uq)])
       else Inl TypeError))))))"

definition hs_field_metadata :: "http_world \<Rightarrow> string \<Rightarrow> hs_state \<Rightarrow> (pyval, pyval) dict \<times> hs_state" where
  "hs_field_metadata w object_type s =
     (let rq = hs_request s ''GET'' (''/crm/v3/properties/'' @ hs_object_type object_type) NoPayload 15 in
      (case bind_res (hs_json (hw_answer w (hs_calls s) rq)) (\<lambda>v. as_text w (
              bind_res (py_get v ''results'' (PList [])) (collect_entries hs_field_entry))) of
         Inl e \<Rightarrow> [] | Inr d \<Rightarrow> d, hs_post rq s))"

section \<open>What a SOQL filter means to its reader\<close>

text \<open>
  The grammar of a WHERE clause of equations: a name up to a blank, \<open>= \<close>, and a literal that is quoted, with
  a backslash before a quote or a backslash of the text, or bare up to the next blank; \<open>AND\<close> between two equations.
\<close>

datatype soql_token = Quoted string | Bare string

fun scan_quoted :: "string \<Rightarrow> (string \<times> string) option" where
  "scan_quoted [] = None"
| "scan_quoted (c # cs) =
     (if c = quote_char then Some ([], cs)
      else if c = backslash then (case cs of [] \<Rightarrow> None | d # ds \<Rightarrow> map_option (\<lambda>(t, r). (d # t, r)) (scan_quoted ds))
      else map_option (\<lambda>(t, r). (c # t, r)) (scan_quoted cs))"

definition scan_token :: "string \<Rightarrow> (soql_token \<times> string) option" where
  "scan_token s =
     (case s of
        [] \<Rightarrow> None
      | c # cs \<Rightarrow> if c = quote_char then map_option (\<lambda>(t, r). (Quoted t, r)) (scan_quoted cs)
                 else Some (Bare (takeWhile (\<lambda>x. x \<noteq> CHR '' '') s), dropWhile (\<lambda>x. x \<noteq> CHR '' '') s))"

fun parse_where :: "nat \<Rightarrow> string \<Rightarrow> (string \<times> soql_token) list option" where
  "parse_where 0 s = None"
| "parse_where (Suc n) s =
     (let name = takeWhile (\<lambda>x. x \<noteq> CHR '' '') s; r = dropWhile (\<lambda>x. x \<noteq> CHR '' '') s in
      if take 3 r \<noteq> '' = '' then None
      else (case scan_token (drop 3 r) of
              None \<Rightarrow> None
            | Some (t, r1) \<Rightarrow>
                if r1 = [] then Some [(name, t)]
                else if take 5 r1 = '' AND '' then map_option ((#) (name, t)) (parse_where n (drop 5 r1))
                else None))"

definition meant :: "pyval \<Rightarrow> soql_token" where
  "meant v = (case v of PBool _ \<Rightarrow> Bare (soql_literal v) | PInt _ \<Rightarrow> Bare (soql_literal v) | PFloat _ \<Rightarrow> Bare (soql_literal v)
     | PNone \<Rightarrow> Bare (soql_literal v) | _ \<Rightarrow> Quoted (py_str v))"

lemma quote_not_backslash [simp]: "quote_char \<noteq> backslash" "backslash \<noteq> quote_char"
  by (simp_all add: quote_char_def backslash_def)

lemma scan_quoted_escaped:
  "scan_quoted (replace_char quote_char [backslash, quote_char] (replace_char backslash [backslash, backslash] v)
     @ quote_char # r) = Some (v, r)"
  by (induction v) (auto simp: replace_char_def)

lemma scan_token_escaped: "scan_token (soql_escape v @ r) = Some (Quoted v, r)"
  by (simp add: scan_token_def soql_escape_def scan_quoted_escaped)

text \<open>The text of a number: decimal digits, signs, a point, an exponent.\<close>

definition bare_char :: "char \<Rightarrow> bool" where
  "bare_char c = (c \<noteq> CHR '' '' \<and> c \<noteq> quote_char)"

lemma code_blank: "code (CHR '' '') = 32" and code_quote: "code quote_char = 39"
  by (simp_all add: code_def quote_char_def)

lemma bare_by_code: "code c \<noteq> 32 \<Longrightarrow> code c \<noteq> 39 \<Longrightarrow> bare_char c"
  unfolding bare_char_def using code_blank code_quote by metis

lemma code_digit: "d \<le> 9 \<Longrightarrow> code (digit_char d) = 48 + nat d"
  by (simp add: digit_char_def code_def)

lemma bare_digit: "d \<le> 9 \<Longrightarrow> bare_char (digit_char d)"
  by (rule bare_by_code) (simp_all add: code_digit)

lemma bare_digits: "list_all bare_char (digits_of n)"
proof (induction n rule: digits_of.induct)
  case (1 n)
  have "n mod 10 \<le> 9" using pos_mod_bound [of 10 n] by linarith
  with 1 bare_digit [of n] bare_digit [of "n mod 10"] show ?case
    by (subst digits_of.simps) simp
qed

lemma bare_literals: "bare_char (CHR ''-'')" "bare_char (CHR ''+'')" "bare_char (CHR ''.'')" "bare_char (CHR ''e'')" "bare_char (CHR ''0'')"
  by (rule bare_by_code; simp add: code_def)+

lemma list_all_dropWhile: "list_all P xs \<Longrightarrow> list_all P (dropWhile Q xs)"
  by (auto simp: list_all_iff dest: set_dropWhileD)

lemma list_all_take_drop: "list_all P xs \<Longrightarrow> list_all P (take n xs) \<and> list_all P (drop n xs)"
  by (auto simp: list_all_iff dest: in_set_takeD in_set_dropD)

lemma list_all_replicate: "P c \<Longrightarrow> list_all P (replicate n c)"
  by (induction n) simp_all

lemma bare_layout: "list_all bare_char ds \<Longrightarrow> list_all bare_char (layout_float ds p)"
  using list_all_take_drop [of bare_char ds "nat p"] list_all_take_drop [of bare_char ds 1]
  by (simp add: layout_float_def Let_def list_all_append bare_literals list_all_replicate bare_digits)

lemma layout_nonempty: "layout_float ds p \<noteq> []"
  by (simp add: layout_float_def Let_def)

lemma bare_repr_float: "list_all bare_char (repr_float x)"
proof -
  have "list_all bare_char (drop_zeros (digits_of m))" for m
    by (simp add: drop_zeros_def list_all_rev list_all_dropWhile bare_digits)
  then show ?thesis
    by (auto simp: repr_float_def Let_def bare_literals bare_layout split: prod.split)
qed

lemma repr_float_nonempty: "repr_float x \<noteq> []"
  by (simp add: repr_float_def Let_def layout_nonempty split: prod.split)

lemma bare_meant: "meant v = Bare t \<Longrightarrow> t = soql_literal v \<and> list_all bare_char t \<and> t \<noteq> []"
  by (cases v) (auto simp: meant_def soql_literal_def str_int_def bare_repr_float repr_float_nonempty bare_digits
      digits_of_nonempty bare_literals bare_by_code code_def split: if_splits)

lemma word_char_bare: "word_char c \<Longrightarrow> c \<noteq> CHR '' ''"
  by (auto simp: word_char_def word_start_def code_def)

lemma identifier_no_blank: "soql_field_re s \<Longrightarrow> list_all (\<lambda>c. c \<noteq> CHR '' '') s"
proof (cases s)
  case (Cons c cs)
  assume ok: "soql_field_re s"
  with Cons have c: "c \<noteq> CHR '' ''" using word_char_bare by (auto simp: soql_field_re_def word_char_def)
  have "list_all word_char cs \<Longrightarrow> list_all (\<lambda>c. c \<noteq> CHR '' '') cs" for cs
    using word_char_bare by (auto simp: list_all_iff)
  moreover have "code (last cs) = 10 \<Longrightarrow> last cs \<noteq> CHR '' ''" by (auto simp: code_def)
  moreover have "cs \<noteq> [] \<Longrightarrow> list_all P cs = (list_all P (butlast cs) \<and> P (last cs))" for P
    by (induction cs) auto
  ultimately show ?thesis using ok c Cons by (auto simp: soql_field_re_def)
qed (simp add: soql_field_re_def)

lemma span_blank:
  "list_all (\<lambda>c. c \<noteq> CHR '' '') s \<Longrightarrow> r = [] \<or> hd r = CHR '' '' \<Longrightarrow>
   takeWhile (\<lambda>x. x \<noteq> CHR '' '') (s @ r) = s \<and> dropWhile (\<lambda>x. x \<noteq> CHR '' '') (s @ r) = r"
  by (induction s) (cases r, auto)+

lemma scan_token_literal:
  assumes "r = [] \<or> hd r = CHR '' ''"
  shows "scan_token (soql_literal v @ r) = Some (meant v, r)"
proof (cases "meant v")
  case (Quoted t)
  then have "soql_literal v = soql_escape t" by (cases v) (auto simp: meant_def soql_literal_def)
  with Quoted show ?thesis by (simp add: scan_token_escaped)
next
  case (Bare t)
  from bare_meant [OF this] obtain c cs where t: "soql_literal v = c # cs" "t = c # cs" "list_all bare_char (c # cs)"
    by (metis list.exhaust)
  then have "list_all (\<lambda>c. c \<noteq> CHR '' '') (c # cs)" and "c \<noteq> quote_char"
    by (auto simp: bare_char_def list_all_iff)
  with span_blank [OF this(1) assms] t Bare show ?thesis by (simp add: scan_token_def)
qed

lemma parse_filters:
  "fs \<noteq> [] \<Longrightarrow> list_all soql_field_re (dkeys fs) \<Longrightarrow> length fs \<le> n \<Longrightarrow>
   parse_where n (join '' AND '' (map filter_text fs)) = Some (map (\<lambda>(k, v). (k, meant v)) fs)"
proof (induction fs arbitrary: n)
  case (Cons kv fs)
  obtain k v where kv: "kv = (k, v)" by (cases kv)
  obtain m where n: "n = Suc m" using Cons.prems(3) by (cases n) auto
  define r where "r = (if fs = [] then [] else '' AND '' @ join '' AND '' (map filter_text fs))"
  have "join '' AND '' (map filter_text (kv # fs)) = k @ '' = '' @ soql_literal v @ r"
    by (cases fs) (simp_all add: kv r_def filter_text_def)
  moreover have "list_all (\<lambda>c. c \<noteq> CHR '' '') k" using Cons.prems(2) kv identifier_no_blank by simp
  moreover have "scan_token (soql_literal v @ r) = Some (meant v, r)"
    by (rule scan_token_literal) (simp add: r_def)
  ultimately show ?case
    using span_blank [of k "'' = '' @ soql_literal v @ r"] Cons.IH [of m] Cons.prems n kv
    by (auto simp: r_def)
qed simp

text \<open>
  C35: what Salesforce reads in the WHERE clause are exactly the filters asked for. Read by the grammar of SOQL, the
  clause gives back each name with its value, in order: a text as one quoted literal holding that text whatever quotes
  and backslashes it has, a number, truth value or \<open>None\<close> as one bare word. So no value can end its literal and add a condition.
\<close>

theorem where_clause_reads_back:
  assumes "validate_soql_identifiers (dkeys filters) = Inr ()" and "filters \<noteq> []"
  shows "parse_where (length filters) (where_clause filters) = Some (map (\<lambda>(k, v). (k, meant v)) filters)"
  using assms parse_filters [of filters "length filters"]
  by (simp add: where_clause_def validate_soql_identifiers_def split: if_splits)

theorem where_clause_reads_back_witness:
  "parse_where 2 (where_clause [(''Name'', PStr [quote_char, CHR ''a'', backslash]), (''Size'', PInt 12)])
     = Some [(''Name'', Quoted [quote_char, CHR ''a'', backslash]), (''Size'', Bare ''12'')]"
proof -
  let ?fs = "[(''Name'', PStr [quote_char, CHR ''a'', backslash]), (''Size'', PInt 12)]"
  have "validate_soql_identifiers (dkeys ?fs) = Inr ()" by code_simp
  moreover have "map (\<lambda>(k, v). (k, meant v)) ?fs = [(''Name'', Quoted [quote_char, CHR ''a'', backslash]), (''Size'', Bare ''12'')]"
    by code_simp
  moreover have "length ?fs = 2" by simp
  ultimately show ?thesis using where_clause_reads_back [of ?fs] by (metis list.distinct(1))
qed

section \<open>What the operations promise\<close>

text \<open>
  Nothing that is not an identifier reaches Salesforce. A query is sent exactly when the object, the requested
  fields and the filter names all match the identifier pattern; otherwise a \<open>ValueError\<close> is raised and no request is made.
\<close>

theorem sf_query_sends_iff_valid:
  "(\<exists>v rq. sf_query_records w c obj filters fs cs = Inr (v, cs @ [rq])) =
     (list_all soql_field_re ([obj] @ (case fs of None \<Rightarrow> [] | Some ns \<Rightarrow> ns) @ dkeys filters))
   \<and> (isl (sf_query_records w c obj filters fs cs) \<longleftrightarrow>
     \<not> list_all soql_field_re ([obj] @ (case fs of None \<Rightarrow> [] | Some ns \<Rightarrow> ns) @ dkeys filters))"
  by (simp add: sf_query_records_def validate_soql_identifiers_def Let_def bind_res_def split: sum.split)

text \<open>The newline the pattern lets through: \<open>re.match\<close> with a pattern that ends in \<open>$\<close>.\<close>

lemma newline_accepted: "soql_field_re (''Name'' @ [CHR 0x0A])"
  by code_simp

lemma map_res_length: "map_res f xs = Inr ys \<Longrightarrow> length ys = length xs"
  by (simp add: map_res_Inr list_all2_lengthD)

lemma as_text_Inr [simp]: "as_text w r = Inr x \<longleftrightarrow> r = Inr x"
  by (cases r) (simp_all add: as_text_def)

lemma settle_all_length:
  assumes "\<And>xs. r = Inr xs \<Longrightarrow> length xs = n"
  shows "length (settle_all n r) = n"
  using assms by (cases r) (simp_all add: settle_all_def)

text \<open>
  A composite request of Salesforce is answered record by record. Whenever the service returns one entry per record,
  and whenever the request fails in any way - transport, status, JSON, an entry of an unexpected shape - the caller gets exactly
  one result per record, and one request was made.
\<close>

theorem sf_bulk_one_result_per_record:
  assumes "\<And>cs rq v rs. fetch_json w cs rq = Inr v \<Longrightarrow> py_iter v = Inr rs \<Longrightarrow> length rs = length records"
  shows "length (fst (sf_bulk meth w c obj records cs)) = length records
    \<and> length (snd (sf_bulk meth w c obj records cs)) = Suc (length cs)"
proof -
  have "length xs = length records"
    if "bind_res (fetch_json w cs rq) (\<lambda>v. as_text w (bind_res (py_iter v)
          (\<lambda>rs. map_res (composite_result records) (enumerate 0 rs)))) = Inr xs" for rq xs
    using that assms by (auto simp: bind_res_Inr_iff dest!: map_res_length)
  then show ?thesis by (simp add: sf_bulk_def Let_def settle_all_length)
qed

text \<open>
  The client of HubSpot never sends while its quota is short and the window not over. A request made with fewer than
  five calls remaining, before the reset it knows of, is preceded by a sleep of exactly the time left; otherwise no sleep is recorded,
  and every operation's request is the next of the calls made.
\<close>

theorem hs_waits_for_reset:
  "hs_slept (snd (hs_send w rq s)) =
     (if hs_remaining s < 5 \<and> 0 < hs_reset s - hw_now w (hs_reads s)
      then hs_slept s @ [hs_reset s - hw_now w (hs_reads s)] else hs_slept s)
   \<and> hs_calls (snd (hs_send w rq s)) = hs_calls s @ [rq]"
  by (simp add: hs_send_def respect_rate_limit_def hs_post_def update_rate_limit_def update_remaining_def update_reset_def
      Let_def split: sum.split option.split prod.split)

definition sample_world :: http_world where
  "sample_world = \<lparr>hw_answer = \<lambda>cs rq. Inr \<lparr>rs_status = 200, rs_header = \<lambda>_. None, rs_status_text = [],
     rs_json = Inr (PList [PDict [(''success'', PBool True), (''id'', PStr ''001'')]])\<rparr>, hw_now = \<lambda>_. 0, hw_text = \<lambda>_. []\<rparr>"

theorem sf_bulk_one_result_per_record_witness:
  "length (fst (sf_bulk ''POST'' sample_world (new_sf_client []) ''Account'' [[(''Name'', PStr ''Acme'')]] [])) = 1"
proof -
  have "fetch_json sample_world cs rq = Inr v \<Longrightarrow> py_iter v = Inr rs \<Longrightarrow> length rs = length [[(''Name'', PStr ''Acme'')]]"
    for cs rq v rs
    by (auto simp: fetch_json_def fetch_def sample_world_def raise_for_status_def)
  from sf_bulk_one_result_per_record [OF this] show ?thesis by simp
qed

text \<open>A search that fails counts as one that found nothing: the record is created, a second time if it was there.\<close>

lemma failed_search_creates:
  assumes "hs_send w (hs_request s ''POST'' (hs_objects obj ''/search'') (Json (search_body [(k, PStr v)] None)) 30) s = (Inl e, s1)"
  shows "hs_upsert_record w obj k v data s = (case hs_create_record w obj data s1 of (x, s2) \<Rightarrow> (Inr x, s2))"
  using assms by (simp add: hs_upsert_record_def hs_query_records_def hs_json_def split: prod.split)

lemma hs_calls_write:
  "length (hs_calls (snd (hs_create_record w obj data s))) = Suc (length (hs_calls s))"
  "length (hs_calls (snd (hs_update_record w obj rid data s))) = Suc (length (hs_calls s))"
  "length (hs_calls (snd (hs_query_records w obj filters fs s))) = Suc (length (hs_calls s))"
proof -
  have "length (hs_calls s1) = Suc (length (hs_calls s))" if "hs_send w rq s = (r, s1)" for rq r s1
    using that by (auto simp: hs_send_def respect_rate_limit_def hs_post_def update_rate_limit_def update_remaining_def
        update_reset_def Let_def split: sum.splits option.splits prod.splits if_splits)
  then show
    "length (hs_calls (snd (hs_create_record w obj data s))) = Suc (length (hs_calls s))"
    "length (hs_calls (snd (hs_update_record w obj rid data s))) = Suc (length (hs_calls s))"
    "length (hs_calls (snd (hs_query_records w obj filters fs s))) = Suc (length (hs_calls s))"
    by (simp_all add: hs_create_record_def hs_update_record_def hs_query_records_def split: prod.split)
qed

text \<open>
  An upsert of HubSpot writes once: it searches and then makes at most one write, none only when the search returned
  an entry that is no record, which is the only exception it raises.
\<close>

theorem hs_upsert_writes_once:
  "length (hs_calls (snd (hs_upsert_record w obj k v data s))) =
     length (hs_calls s) + (if isl (fst (hs_upsert_record w obj k v data s)) then 1 else 2)"
proof -
  obtain ex s1 where q: "hs_query_records w obj [(k, PStr v)] None s = (ex, s1)" by fastforce
  then have l: "length (hs_calls s1) = Suc (length (hs_calls s))" using hs_calls_write(3) by (metis snd_conv)
  have c: "hs_create_record w obj data s1 = (x, s2) \<Longrightarrow> length (hs_calls s2) = length (hs_calls s) + 2" for x s2
    using hs_calls_write(1) [of w obj data s1] l by simp
  have u: "hs_update_record w obj rid data s1 = (x, s2) \<Longrightarrow> length (hs_calls s2) = length (hs_calls s) + 2" for rid x s2
    using hs_calls_write(2) [of w obj rid data s1] l by simp
  show ?thesis
    using q l by (auto simp: hs_upsert_record_def Let_def dest: c u split: list.splits sum.splits prod.splits)
qed

end
