(* ===== verification/DataSources.thy ===== *)
theory DataSources
  imports Waterfall CrmClients
begin

text \<open>
  The data vendors behind the waterfall: \<open>app/services/enrichment/sources/zoominfo.py\<close>, \<open>apollo.py\<close>,
  \<open>clearbit.py\<close>, \<open>hunter.py\<close> and \<open>llm_base.py\<close>. Each checks its configuration and the identifier it needs, makes one
  request and maps the answer to the canonical field names. The answer is that of the server of \<open>CrmClients\<close>;
  latencies are not modelled. What is computed outside the \<open>try\<close> of a source can raise.
\<close>

section \<open>What the sources share\<close>

record source_config =
  sc_name :: string
  sc_enabled :: bool
  sc_endpoint :: string
  sc_api_key :: "string option"
  sc_timeout :: int

type_synonym source_call = "(pyerr + source_result) \<times> http_req list"

definition source_error :: "source_config \<Rightarrow> string \<Rightarrow> source_result" where
  "source_error cfg msg = \<lparr>so_data = [], so_quality = 0, so_name = sc_name cfg, so_error = Some msg\<rparr>"

definition refuse :: "source_config \<Rightarrow> string \<Rightarrow> source_call" where
  "refuse cfg msg = (Inr (source_error cfg msg), [])"

definition api_key_of :: "source_config \<Rightarrow> string" where
  "api_key_of cfg = (case sc_api_key cfg of None \<Rightarrow> [] | Some k \<Rightarrow> k)"

definition config_error :: "source_config \<Rightarrow> string option" where
  "config_error cfg =
     (if \<not> sc_enabled cfg then Some ''source_disabled'' else if api_key_of cfg = [] then Some ''missing_api_key'' else None)"

text \<open>\<open>v not in (None, "")\<close>, and the result of a mapping: what is kept, and its share of the fields mapped.\<close>

definition kept_value :: "pyval \<Rightarrow> bool" where
  "kept_value v \<longleftrightarrow> v \<noteq> PNone \<and> v \<noteq> PStr []"

definition kept_fields :: "fields \<Rightarrow> fields" where
  "kept_fields mapped = filter (\<lambda>kv. kept_value (snd kv)) mapped"

definition mapped_result :: "source_config \<Rightarrow> fields \<Rightarrow> source_result" where
  "mapped_result cfg mapped =
     \<lparr>so_data = kept_fields mapped,
      so_quality = (if mapped = [] then 0 else py_int_div (count_of kept_value (dvalues mapped)) (int (length mapped))),
      so_name = sc_name cfg, so_error = None\<rparr>"

definition collect_fields :: "(string \<times> (pyerr + pyval)) list \<Rightarrow> pyerr + fields" where
  "collect_fields = map_res (\<lambda>(n, r). bind_res r (\<lambda>v. Inr (n, v)))"

definition get_in :: "pyval \<Rightarrow> string \<Rightarrow> string \<Rightarrow> pyerr + pyval" where
  "get_in v a b = bind_res (py_get v a (PDict [])) (\<lambda>x. py_get x b PNone)"

text \<open>\<open>v[0]\<close>.\<close>

definition first_item :: "pyval \<Rightarrow> pyerr + pyval" where
  "first_item v =
     (case v of
        PList [] \<Rightarrow> Inl IndexError | PList (x # xs) \<Rightarrow> Inr x
      | PStr [] \<Rightarrow> Inl IndexError | PStr (c # cs) \<Rightarrow> Inr (PStr [c])
      | PDict d \<Rightarrow> Inl KeyError | _ \<Rightarrow> Inl TypeError)"

text \<open>The one request of a source: any failure inside its \<open>try\<close> is a network error, what follows may raise.\<close>

definition ask ::
    "http_world \<Rightarrow> source_config \<Rightarrow> http_req \<Rightarrow> (pyval \<Rightarrow> pyerr + pyval) \<Rightarrow> (pyval \<Rightarrow> pyerr + source_result) \<Rightarrow> source_call" where
  "ask w cfg rq inside after =
     (case bind_res (fetch_json w [] rq) (\<lambda>v. as_text w (inside v)) of
        Inl e \<Rightarrow> (Inr (source_error cfg ''network_error''), [rq])
      | Inr data \<Rightarrow> (after data, [rq]))"

definition source_request :: "source_config \<Rightarrow> string \<Rightarrow> string \<Rightarrow> (string, string) dict \<Rightarrow> payload \<Rightarrow> http_req" where
  "source_request cfg meth path headers p =
     \<lparr>rq_method = meth, rq_url = sc_endpoint cfg @ path, rq_payload = p, rq_headers = headers, rq_timeout = sc_timeout cfg\<rparr>"

text \<open>\<open>enrich\<close> of the sources that know companies and contacts.\<close>

definition enrich_by_domain ::
    "source_config \<Rightarrow> string \<Rightarrow> fields \<Rightarrow> (fields \<Rightarrow> source_call) \<Rightarrow> (fields \<Rightarrow> source_call) \<Rightarrow> source_call" where
  "enrich_by_domain cfg dm payload company contact =
     (case config_error cfg of
        Some e \<Rightarrow> refuse cfg e
      | None \<Rightarrow> if dm = ''company'' then company payload
                else if dm = ''contact'' then contact payload
                else refuse cfg ''unsupported_domain'')"

definition blank :: pyval where "blank = PStr []"

section \<open>ZoomInfo\<close>

definition zoominfo_company_fields :: "pyval \<Rightarrow> pyerr + fields" where
  "zoominfo_company_fields rec = collect_fields (map (\<lambda>(n, k). (n, py_get rec k PNone))
     [(''company_name'', ''name''), (''company_domain'', ''website''), (''company_industry'', ''primaryIndustry''),
      (''employee_count'', ''employeeCount''), (''annual_revenue'', ''revenue''), (''company_phone'', ''phone''),
      (''company_location_city'', ''city''), (''company_location_state'', ''state''), (''company_location_country'', ''country'')])"

definition zoominfo_contact_fields :: "pyval \<Rightarrow> pyerr + fields" where
  "zoominfo_contact_fields rec = collect_fields (map (\<lambda>(n, k). (n, py_get rec k PNone))
     [(''contact_first_name'', ''firstName''), (''contact_last_name'', ''lastName''), (''contact_title'', ''jobTitle''),
      (''contact_email'', ''email''), (''contact_phone'', ''directPhoneNumber''), (''contact_mobile'', ''mobilePhoneNumber''),
      (''contact_company_name'', ''companyName''), (''contact_location_city'', ''city''),
      (''contact_location_state'', ''state''), (''contact_location_country'', ''country'')])"

definition zoominfo_records :: "source_config \<Rightarrow> (pyval \<Rightarrow> pyerr + fields) \<Rightarrow> pyval \<Rightarrow> pyerr + source_result" where
  "zoominfo_records cfg fields_of data =
     bind_res (py_get data ''data'' (PList [])) (\<lambda>records.
       if \<not> truthy records then Inr (source_error cfg ''no_results'')
       else bind_res (first_item records) (\<lambda>rec. bind_res (fields_of rec) (\<lambda>m. Inr (mapped_result cfg m))))"

definition zoominfo_headers :: "source_config \<Rightarrow> (string, string) dict" where
  "zoominfo_headers cfg = bearer_headers (api_key_of cfg)"

definition zoominfo_search_company :: "fields \<Rightarrow> fields option" where
  "zoominfo_search_company payload =
     (let n = dget_or payload ''company_name'' PNone;
          company_name = (if truthy n then n else dget_or payload ''entity_name'' blank);
          company_domain = dget_or payload ''company_domain'' blank
      in if truthy company_domain then Some [(''companyWebsite'', company_domain)]
         else if truthy company_name then Some [(''companyName'', company_name)] else None)"

definition zoominfo_search_contact :: "fields \<Rightarrow> fields option" where
  "zoominfo_search_contact payload =
     (let email = dget_or payload ''contact_email'' blank; first = dget_or payload ''contact_first_name'' blank;
          lst = dget_or payload ''contact_last_name'' blank; company = dget_or payload ''company_name'' blank
      in if truthy email then Some [(''emailAddress'', email)]
         else if truthy lst \<and> truthy company
         then Some [(''firstName'', first), (''lastName'', lst), (''companyName'', company)] else None)"

definition zoominfo_company :: "http_world \<Rightarrow> source_config \<Rightarrow> fields \<Rightarrow> source_call" where
  "zoominfo_company w cfg payload =
     (case zoominfo_search_company payload of
        None \<Rightarrow> refuse cfg ''missing_identifier''
      | Some body \<Rightarrow> ask w cfg (source_request cfg ''POST'' ''/search/company'' (zoominfo_headers cfg) (Json (PDict body)))
                      Inr (zoominfo_records cfg zoominfo_company_fields))"

definition zoominfo_contact :: "http_world \<Rightarrow> source_config \<Rightarrow> fields \<Rightarrow> source_call" where
  "zoominfo_contact w cfg payload =
     (case zoominfo_search_contact payload of
        None \<Rightarrow> refuse cfg ''missing_identifier''
      | Some body \<Rightarrow> ask w cfg (source_request cfg ''POST'' ''/search/contact'' (zoominfo_headers cfg) (Json (PDict body)))
                      Inr (zoominfo_records cfg zoominfo_contact_fields))"

definition zoominfo_enrich :: "http_world \<Rightarrow> source_config \<Rightarrow> string \<Rightarrow> fields \<Rightarrow> source_call" where
  "zoominfo_enrich w cfg dm payload = enrich_by_domain cfg dm payload (zoominfo_company w cfg) (zoominfo_contact w cfg)"

section \<open>Apollo\<close>

definition apollo_headers :: "source_config \<Rightarrow> (string, string) dict" where
  "apollo_headers cfg = [(''X-Api-Key'', api_key_of cfg), (''Content-Type'', ''application/json'')]"

definition apollo_company_fields :: "pyval \<Rightarrow> pyerr + fields" where
  "apollo_company_fields data = collect_fields (map (\<lambda>(n, k). (n, py_get data k PNone))
     [(''company_name'', ''name''), (''company_domain'', ''primary_domain''), (''company_industry'', ''industry''),
      (''company_description'', ''short_description''), (''employee_count'', ''estimated_num_employees''),
      (''annual_revenue'', ''annual_revenue''), (''company_location_city'', ''city''), (''company_location_state'', ''state''),
      (''company_location_country'', ''country''), (''company_linkedin_url'', ''linkedin_url''), (''company_phone'', ''phone''),
      (''company_founded_year'', ''founded_year'')])"

definition apollo_phone :: "pyval \<Rightarrow> pyerr + pyval" where
  "apollo_phone data =
     bind_res (py_get data ''phone_numbers'' PNone) (\<lambda>numbers.
       if truthy numbers then bind_res (first_item numbers) (\<lambda>x. py_get x ''sanitized_number'' PNone) else Inr PNone)"

definition apollo_contact_fields :: "pyval \<Rightarrow> pyerr + fields" where
  "apollo_contact_fields data = collect_fields
     [(''contact_first_name'', py_get data ''first_name'' PNone), (''contact_last_name'', py_get data ''last_name'' PNone),
      (''contact_title'', py_get data ''title'' PNone), (''contact_email'', py_get data ''email'' PNone),
      (''contact_phone'', apollo_phone data), (''contact_linkedin_url'', py_get data ''linkedin_url'' PNone),
      (''contact_company_name'', get_in data ''organization'' ''name''), (''contact_location_city'', py_get data ''city'' PNone),
      (''contact_location_state'', py_get data ''state'' PNone), (''contact_location_country'', py_get data ''country'' PNone)]"

definition map_answer :: "source_config \<Rightarrow> (pyval \<Rightarrow> pyerr + fields) \<Rightarrow> pyval \<Rightarrow> pyerr + source_result" where
  "map_answer cfg fields_of data = bind_res (fields_of data) (\<lambda>m. Inr (mapped_result cfg m))"

definition apollo_company :: "http_world \<Rightarrow> source_config \<Rightarrow> fields \<Rightarrow> source_call" where
  "apollo_company w cfg payload =
     (let company_domain = dget_or payload ''company_domain'' blank in
      if \<not> truthy company_domain then refuse cfg ''missing_company_domain''
      else ask w cfg (source_request cfg ''POST'' ''/organizations/enrich'' (apollo_headers cfg)
                       (Json (PDict [(''domain'', company_domain)])))
             (\<lambda>v. py_get v ''organization'' (PDict [])) (map_answer cfg apollo_company_fields))"

definition apollo_match :: "fields \<Rightarrow> fields option" where
  "apollo_match payload =
     (let email = dget_or payload ''contact_email'' blank; first = dget_or payload ''contact_first_name'' blank;
          lst = dget_or payload ''contact_last_name'' blank; dm = dget_or payload ''company_domain'' blank
      in if truthy email then Some [(''email'', email)]
         else if truthy lst \<and> truthy dm
         then Some [(''first_name'', first), (''last_name'', lst), (''organization_domain'', dm)] else None)"

definition apollo_contact :: "http_world \<Rightarrow> source_config \<Rightarrow> fields \<Rightarrow> source_call" where
  "apollo_contact w cfg payload =
     (case apollo_match payload of
        None \<Rightarrow> refuse cfg ''missing_identifier''
      | Some body \<Rightarrow> ask w cfg (source_request cfg ''POST'' ''/people/match'' (apollo_headers cfg) (Json (PDict body)))
                      (\<lambda>v. py_get v ''person'' (PDict [])) (map_answer cfg apollo_contact_fields))"

definition apollo_enrich :: "http_world \<Rightarrow> source_config \<Rightarrow> string \<Rightarrow> fields \<Rightarrow> source_call" where
  "apollo_enrich w cfg dm payload = enrich_by_domain cfg dm payload (apollo_company w cfg) (apollo_contact w cfg)"

section \<open>Clearbit\<close>

definition clearbit_company_fields :: "pyval \<Rightarrow> pyerr + fields" where
  "clearbit_company_fields raw = collect_fields
     [(''company_name'', py_get raw ''name'' PNone), (''company_domain'', py_get raw ''domain'' PNone),
      (''company_industry'', get_in raw ''category'' ''industry''), (''company_description'', py_get raw ''description'' PNone),
      (''employee_count'', get_in raw ''metrics'' ''employees''), (''annual_revenue'', get_in raw ''metrics'' ''estimatedAnnualRevenue''),
      (''company_location_city'', get_in raw ''geo'' ''city''), (''company_location_state'', get_in raw ''geo'' ''state''),
      (''company_location_country'', get_in raw ''geo'' ''country''), (''company_linkedin_url'', get_in raw ''linkedin'' ''handle''),
      (''company_phone'', py_get raw ''phone'' PNone), (''company_founded_year'', py_get raw ''foundedYear'' PNone),
      (''company_tech_stack'', py_get raw ''tech'' (PList []))]"

definition clearbit_contact_fields :: "pyval \<Rightarrow> pyerr + fields" where
  "clearbit_contact_fields raw = collect_fields
     [(''contact_first_name'', get_in raw ''name'' ''givenName''), (''contact_last_name'', get_in raw ''name'' ''familyName''),
      (''contact_title'', get_in raw ''employment'' ''title''), (''contact_company_name'', get_in raw ''employment'' ''name''),
      (''contact_linkedin_url'', get_in raw ''linkedin'' ''handle''), (''contact_location_city'', get_in raw ''geo'' ''city''),
      (''contact_location_state'', get_in raw ''geo'' ''state''), (''contact_location_country'', get_in raw ''geo'' ''country'')]"

definition clearbit_find :: "http_world \<Rightarrow> source_config \<Rightarrow> string \<Rightarrow> string \<Rightarrow> pyval \<Rightarrow> (pyval \<Rightarrow> pyerr + fields) \<Rightarrow> source_call" where
  "clearbit_find w cfg path param v fields_of =
     ask w cfg (source_request cfg ''GET'' path [(''Authorization'', ''Bearer '' @ api_key_of cfg)] (Params [(param, v)]))
       Inr (map_answer cfg fields_of)"

definition clearbit_company :: "http_world \<Rightarrow> source_config \<Rightarrow> fields \<Rightarrow> source_call" where
  "clearbit_company w cfg payload =
     (let v = dget_or payload ''company_domain'' blank in
      if \<not> truthy v then refuse cfg ''missing_company_domain''
      else clearbit_find w cfg ''/v2/companies/find'' ''domain'' v clearbit_company_fields)"

definition clearbit_contact :: "http_world \<Rightarrow> source_config \<Rightarrow> fields \<Rightarrow> source_call" where
  "clearbit_contact w cfg payload =
     (let v = dget_or payload ''contact_email'' blank in
      if \<not> truthy v then refuse cfg ''missing_contact_email''
      else clearbit_find w cfg ''/v2/people/find'' ''email'' v clearbit_contact_fields)"

definition clearbit_enrich :: "http_world \<Rightarrow> source_config \<Rightarrow> string \<Rightarrow> fields \<Rightarrow> source_call" where
  "clearbit_enrich w cfg dm payload = enrich_by_domain cfg dm payload (clearbit_company w cfg) (clearbit_contact w cfg)"

section \<open>Hunter\<close>

text \<open>\<open>score / 100.0 if score else 0.0\<close>.\<close>

definition hunter_quality :: "pyval \<Rightarrow> pyerr + f64" where
  "hunter_quality score =
     (if \<not> truthy score then Inr 0
      else case score of
             PBool b \<Rightarrow> Inr (1 / f_of_int 100)
           | PInt n \<Rightarrow> Inr (f_of_int n / f_of_int 100)
           | PFloat x \<Rightarrow> Inr (x / f_of_int 100)
           | _ \<Rightarrow> Inl TypeError)"

definition hunter_result :: "source_config \<Rightarrow> f64 \<Rightarrow> fields \<Rightarrow> source_result" where
  "hunter_result cfg q mapped =
     \<lparr>so_data = kept_fields mapped, so_quality = q, so_name = sc_name cfg, so_error = None\<rparr>"

definition hunter_verified :: "source_config \<Rightarrow> pyval \<Rightarrow> pyval \<Rightarrow> pyerr + source_result" where
  "hunter_verified cfg email data =
     bind_res (py_get data ''status'' (PStr ''unknown'')) (\<lambda>status.
     bind_res (py_get data ''score'' (PInt 0)) (\<lambda>score.
     bind_res (hunter_quality score) (\<lambda>q.
     bind_res (py_get data ''first_name'' PNone) (\<lambda>first.
     bind_res (py_get data ''last_name'' PNone) (\<lambda>lst.
       Inr (hunter_result cfg q
         [(''contact_email'', email), (''contact_email_valid'', PBool (status = PStr ''valid'')), (''contact_email_status'', status),
          (''contact_email_score'', score), (''contact_first_name'', first), (''contact_last_name'', lst)]))))))"

definition hunter_found :: "source_config \<Rightarrow> pyval \<Rightarrow> pyval \<Rightarrow> pyval \<Rightarrow> pyerr + source_result" where
  "hunter_found cfg first_name last_name data =
     bind_res (py_get data ''email'' blank) (\<lambda>email.
     bind_res (py_get data ''score'' (PInt 0)) (\<lambda>score.
     bind_res (hunter_quality score) (\<lambda>q.
     bind_res (py_get data ''first_name'' PNone) (\<lambda>first.
     bind_res (py_get data ''last_name'' PNone) (\<lambda>lst.
       Inr (hunter_result cfg q
         [(''contact_email'', email), (''contact_email_score'', score),
          (''contact_first_name'', if truthy first then first else first_name),
          (''contact_last_name'', if truthy lst then lst else last_name)]))))))"

definition hunter_ask :: "http_world \<Rightarrow> source_config \<Rightarrow> string \<Rightarrow> fields \<Rightarrow> (pyval \<Rightarrow> pyerr + source_result) \<Rightarrow> source_call" where
  "hunter_ask w cfg path params after =
     ask w cfg (source_request cfg ''GET'' path [] (Params (params @ [(''api_key'', PStr (api_key_of cfg))])))
       (\<lambda>v. py_get v ''data'' (PDict [])) after"

definition hunter_enrich :: "http_world \<Rightarrow> source_config \<Rightarrow> string \<Rightarrow> fields \<Rightarrow> source_call" where
  "hunter_enrich w cfg dm payload =
     (case config_error cfg of
        Some e \<Rightarrow> refuse cfg e
      | None \<Rightarrow>
          if dm \<noteq> ''contact'' then refuse cfg ''unsupported_domain''
          else
            (let email = dget_or payload ''contact_email'' blank; first = dget_or payload ''contact_first_name'' blank;
                 lst = dget_or payload ''contact_last_name'' blank; cd = dget_or payload ''company_domain'' blank
             in if truthy email then hunter_ask w cfg ''/v2/email-verifier'' [(''email'', email)] (hunter_verified cfg email)
                else if truthy first \<and> truthy lst \<and> truthy cd
                then hunter_ask w cfg ''/v2/email-finder''
                       [(''domain'', cd), (''first_name'', first), (''last_name'', lst)] (hunter_found cfg first lst)
                else refuse cfg ''missing_identifier''))"

section \<open>Language models as sources\<close>

text \<open>The client's answer to the prompt for a domain and a payload is \<open>complete_json\<close>, an exception being its text.\<close>

definition llm_enrich :: "(string \<Rightarrow> fields \<Rightarrow> string + pyval) \<Rightarrow> source_config \<Rightarrow> string \<Rightarrow> fields \<Rightarrow> source_result" where
  "llm_enrich complete_json cfg dm payload =
     (case config_error cfg of
        Some e \<Rightarrow> source_error cfg e
      | None \<Rightarrow>
          (case complete_json dm payload of
             Inl msg \<Rightarrow> source_error cfg msg
           | Inr data \<Rightarrow>
               (case unwrap_envelope data of
                  Inr (PDict d) \<Rightarrow> \<lparr>so_data = d, so_quality = reply_quality d, so_name = sc_name cfg, so_error = None\<rparr>
                | _ \<Rightarrow> source_error cfg ''non_object_response'')))"

section \<open>What a source promises\<close>

lemma ask_cases:
  assumes "ask w cfg rq inside after = (Inr r, rqs)"
  shows "rqs = [rq] \<and> (r = source_error cfg ''network_error'' \<or> (\<exists>data. after data = Inr r))"
  using assms by (auto simp: ask_def split: sum.splits)

lemma ask_requests: "snd (ask w cfg rq inside after) = [rq]"
  by (simp add: ask_def split: sum.split)

lemma refuse_requests [simp]: "snd (refuse cfg msg) = []" "fst (refuse cfg msg) = Inr (source_error cfg msg)"
  by (simp_all add: refuse_def)

text \<open>An answer with an error has no data and quality 0; any other has the kept fields and their share of the fields it maps.\<close>

definition sound_answer :: "source_result \<Rightarrow> bool" where
  "sound_answer r \<longleftrightarrow>
     (if so_error r = None
      then list_all (\<lambda>kv. kept_value (snd kv)) (so_data r) \<and> 0 \<le> so_quality r \<and> so_quality r \<le> 1
         \<and> (\<exists>n \<ge> length (so_data r). so_quality r = py_int_div (int (length (so_data r))) (int n))
      else so_data r = [] \<and> so_quality r = 0)"

lemma error_sound [simp]: "sound_answer (source_error cfg msg)"
  by (simp add: sound_answer_def source_error_def)

lemma kept_count: "count_of kept_value (dvalues m) = int (length (kept_fields m))"
  by (induction m) (auto simp: count_of_def kept_fields_def)

lemma mapped_sound [simp]: "sound_answer (mapped_result cfg m)"
proof (cases "m = []")
  case False
  have le: "length (kept_fields m) \<le> length m" by (simp add: kept_fields_def)
  with False have "0 \<le> py_int_div (int (length (kept_fields m))) (int (length m))
      \<and> py_int_div (int (length (kept_fields m))) (int (length m)) \<le> 1"
    by (intro conjI py_int_div_bounds) auto
  moreover have "list_all (\<lambda>kv. kept_value (snd kv)) (kept_fields m)" by (simp add: kept_fields_def list_all_iff)
  ultimately show ?thesis
    using False le by (auto simp: sound_answer_def mapped_result_def kept_count)
qed (auto simp: sound_answer_def mapped_result_def kept_fields_def)

lemma map_answer_sound: "map_answer cfg f data = Inr r \<Longrightarrow> sound_answer r"
  by (auto simp: map_answer_def bind_res_Inr_iff)

lemma zoominfo_records_sound: "zoominfo_records cfg f data = Inr r \<Longrightarrow> sound_answer r"
  by (auto simp: zoominfo_records_def bind_res_Inr_iff split: if_splits)

text \<open>A call keeps the contract when its request is at most one and its answer, if it does not raise, is sound.\<close>

definition contract_kept :: "source_call \<Rightarrow> bool" where
  "contract_kept c \<longleftrightarrow> length (snd c) \<le> 1 \<and> (case fst c of Inr r \<Rightarrow> sound_answer r | Inl e \<Rightarrow> True)"

lemma refuse_ok [simp]: "contract_kept (refuse cfg msg)"
  by (simp add: contract_kept_def)

lemma ask_ok: "(\<And>data r. after data = Inr r \<Longrightarrow> sound_answer r) \<Longrightarrow> contract_kept (ask w cfg rq inside after)"
  by (auto simp: contract_kept_def ask_def split: sum.split)

lemma enrich_by_domain_ok: "contract_kept (company payload) \<Longrightarrow> contract_kept (contact payload) \<Longrightarrow> contract_kept (enrich_by_domain cfg dm payload company contact)"
  by (simp add: enrich_by_domain_def split: option.split)

lemma zoominfo_ok: "contract_kept (zoominfo_enrich w cfg dm payload)"
  unfolding zoominfo_enrich_def zoominfo_company_def zoominfo_contact_def
  by (rule enrich_by_domain_ok) (auto intro!: ask_ok zoominfo_records_sound split: option.split)

lemma apollo_ok: "contract_kept (apollo_enrich w cfg dm payload)"
  unfolding apollo_enrich_def apollo_company_def apollo_contact_def
  by (rule enrich_by_domain_ok) (auto intro!: ask_ok intro: map_answer_sound simp: Let_def split: option.split)

lemma clearbit_ok: "contract_kept (clearbit_enrich w cfg dm payload)"
  unfolding clearbit_enrich_def clearbit_company_def clearbit_contact_def clearbit_find_def
  by (rule enrich_by_domain_ok) (auto intro!: ask_ok intro: map_answer_sound simp: Let_def)

text \<open>
  What the company and contact vendors return can be trusted by the waterfall: an answer with an error
  carries no data and quality 0, any other only values that are there, with a quality between 0 and 1 that is exactly their
  share of the fields the vendor maps; and no call makes more than one request.
\<close>

theorem vendor_answers_sound:
  assumes "c \<in> {zoominfo_enrich w cfg dm payload, apollo_enrich w cfg dm payload, clearbit_enrich w cfg dm payload}"
    and "fst c = Inr r"
  shows "sound_answer r \<and> length (snd c) \<le> 1"
  using assms zoominfo_ok [of w cfg dm payload] apollo_ok [of w cfg dm payload] clearbit_ok [of w cfg dm payload]
  by (auto simp: contract_kept_def)

definition sample_vendor :: source_config where
  "sample_vendor = \<lparr>sc_name = ''apollo'', sc_enabled = True, sc_endpoint = ''https://api'', sc_api_key = Some ''k'', sc_timeout = 10\<rparr>"

definition answering :: "pyval \<Rightarrow> http_world" where
  "answering v = \<lparr>hw_answer = \<lambda>cs rq. Inr \<lparr>rs_status = 200, rs_header = \<lambda>_. None, rs_status_text = [], rs_json = Inr v\<rparr>,
     hw_now = \<lambda>_. 0, hw_text = \<lambda>_. []\<rparr>"

definition sample_lookup :: source_call where
  "sample_lookup = apollo_enrich (answering (PDict [(''organization'', PDict [(''name'', PStr ''Acme''), (''city'', PStr [])])]))
     sample_vendor ''company'' [(''company_domain'', PStr ''acme.com'')]"

lemma sample_lookup_answers: "\<exists>r. fst sample_lookup = Inr r \<and> so_data r = [(''company_name'', PStr ''Acme'')]"
  by (simp add: sample_lookup_def apollo_enrich_def enrich_by_domain_def config_error_def sample_vendor_def api_key_of_def apollo_company_def
      ask_def fetch_json_def fetch_def answering_def raise_for_status_def as_text_def py_get_def dget_or_def map_answer_def
      apollo_company_fields_def collect_fields_def mapped_result_def kept_fields_def kept_value_def)

theorem vendor_answers_sound_witness:
  "\<exists>r. fst sample_lookup = Inr r \<and> sound_answer r \<and> so_data r = [(''company_name'', PStr ''Acme'')]"
proof -
  from sample_lookup_answers obtain r where r: "fst sample_lookup = Inr r" "so_data r = [(''company_name'', PStr ''Acme'')]" by blast
  have "sound_answer r"
    using vendor_answers_sound [OF _ r(1)] unfolding sample_lookup_def by blast
  with r show ?thesis by blast
qed

text \<open>
  A vendor that is switched off or has no key is never contacted. Each of the four sources then answers with the error
  that says so and makes no request.
\<close>

theorem unconfigured_source_not_called:
  assumes "config_error cfg = Some e"
  shows "map (\<lambda>f. f w cfg dm payload) [zoominfo_enrich, apollo_enrich, clearbit_enrich, hunter_enrich]
     = replicate 4 (Inr (source_error cfg e), [])"
  using assms
  by (simp add: zoominfo_enrich_def apollo_enrich_def clearbit_enrich_def hunter_enrich_def enrich_by_domain_def refuse_def
      numeral_eq_Suc)

theorem unconfigured_source_not_called_witness:
  "map (\<lambda>f. f sample_world (sample_vendor\<lparr>sc_enabled := False\<rparr>) ''company'' []) [zoominfo_enrich, apollo_enrich, clearbit_enrich, hunter_enrich]
     = replicate 4 (Inr (source_error (sample_vendor\<lparr>sc_enabled := False\<rparr>) ''source_disabled''), [])"
  by (rule unconfigured_source_not_called) (simp add: config_error_def)

section \<open>Where the contract is broken\<close>

text \<open>The sources promise never to raise on what a server sends; a null where an object is expected does.\<close>

lemma null_organization_raises:
  "map_answer cfg apollo_contact_fields (PDict [(''organization'', PNone)]) = Inl AttributeError"
  by (simp add: map_answer_def apollo_contact_fields_def collect_fields_def get_in_def apollo_phone_def py_get_def dget_or_def)

text \<open>An answer of Clearbit without any field still has a field: the empty technology stack.\<close>

lemma empty_clearbit_has_quality:
  "\<exists>r. map_answer cfg clearbit_company_fields (PDict []) = Inr r \<and> so_data r = [(''company_tech_stack'', PList [])]"
  by (simp add: map_answer_def clearbit_company_fields_def collect_fields_def get_in_def py_get_def dget_or_def mapped_result_def
      kept_fields_def kept_value_def)

text \<open>The score of Hunter is not bounded, nor is the quality computed from it.\<close>

lemma hunter_quality_unbounded: "hunter_quality (PInt 250) = Inr (flt (5 / 2))"
  by (simp add: hunter_quality_def f_of_int_def f64_eval)

end
