(* ===== verification/LlmClients.thy ===== *)
theory LlmClients
  imports DataSources
begin

text \<open>
  \<open>app/services/openai_client.py\<close> and \<open>anthropic_client.py\<close>: the two clients differ in the request they
  build and in what they read of the answer; the retry loop and the failure counter that opens the circuit are the
  same code and one definition here. The server's reaction to a request after those made so far is the parameter
  \<open>react\<close>, \<open>json.loads\<close> the parameter \<open>loads\<close>; the record of the client holds the requests it made and the delays it slept.
  Token counting by \<open>tiktoken\<close> and log lines are not modelled.
\<close>

section \<open>The retry loop\<close>

datatype reaction = Replied http_resp | NetworkTrouble | OtherTrouble string

datatype llm_error = LLMResponseError string | HttpStatusError string | BadBody string | Raised pyerr | Transport string

record llm_client =
  lc_key :: string
  lc_model :: string
  lc_timeout :: int
  lc_failures :: nat
  lc_open :: bool
  lc_available :: "(bool \<times> f64) option"
  lc_calls :: "http_req list"
  lc_slept :: "f64 list"

definition new_llm_client :: "string \<Rightarrow> string \<Rightarrow> int \<Rightarrow> llm_client" where
  "new_llm_client key model t =
     \<lparr>lc_key = key, lc_model = model, lc_timeout = t, lc_failures = 0, lc_open = False, lc_available = None,
      lc_calls = [], lc_slept = []\<rparr>"

definition retry_delays :: "f64 list" where
  "retry_delays = [1, f_of_int 2, f_of_int 4]"

definition retryable_status :: "int \<Rightarrow> bool" where
  "retryable_status n \<longleftrightarrow> n \<in> {429, 500, 502, 503, 504}"

definition log_call :: "http_req \<Rightarrow> llm_client \<Rightarrow> llm_client" where
  "log_call rq c = c\<lparr>lc_calls := lc_calls c @ [rq]\<rparr>"

definition sleep_for :: "f64 \<Rightarrow> llm_client \<Rightarrow> llm_client" where
  "sleep_for d c = c\<lparr>lc_slept := lc_slept c @ [d]\<rparr>"

text \<open>
  An answer that is not repeated. The counter is reset before the token usage is read, so an answer whose usage is no
  object raises with the counter at 0.
\<close>

definition take_reply :: "http_resp \<Rightarrow> llm_client \<Rightarrow> (llm_error + pyval) \<times> llm_client" where
  "take_reply r c =
     (case raise_for_status r of
        Inl t \<Rightarrow> (Inl (HttpStatusError t), c)
      | Inr _ \<Rightarrow>
          (case rs_json r of
             Inl t \<Rightarrow> (Inl (BadBody t), c)
           | Inr data \<Rightarrow>
               (case py_get data ''usage'' (PDict []) of
                  Inl e \<Rightarrow> (Inl (Raised e), c)
                | Inr usage \<Rightarrow>
                    (case usage of PDict _ \<Rightarrow> (Inr data, c\<lparr>lc_failures := 0\<rparr>)
                     | _ \<Rightarrow> (Inl (Raised AttributeError), c\<lparr>lc_failures := 0\<rparr>)))))"

text \<open>The attempts left are the delays left; \<open>None\<close> is the loop running out of them.\<close>

fun llm_attempts ::
    "(http_req list \<Rightarrow> http_req \<Rightarrow> reaction) \<Rightarrow> http_req \<Rightarrow> f64 list \<Rightarrow> llm_client \<Rightarrow> (llm_error + pyval) option \<times> llm_client" where
  "llm_attempts react rq [] c = (None, c)"
| "llm_attempts react rq (d # ds) c =
     (let c1 = log_call rq c in
      case react (lc_calls c) rq of
        NetworkTrouble \<Rightarrow> llm_attempts react rq ds (sleep_for d c1)
      | OtherTrouble e \<Rightarrow> (Some (Inl (Transport e)), c1)
      | Replied r \<Rightarrow>
          if retryable_status (rs_status r) then llm_attempts react rq ds (sleep_for d c1)
          else (case take_reply r c1 of (x, c2) \<Rightarrow> (Some x, c2)))"

definition note_failure :: "llm_client \<Rightarrow> llm_client" where
  "note_failure c =
     (let c1 = c\<lparr>lc_failures := Suc (lc_failures c)\<rparr> in if 5 \<le> lc_failures c1 then c1\<lparr>lc_open := True\<rparr> else c1)"

definition llm_call ::
    "string \<Rightarrow> (http_req list \<Rightarrow> http_req \<Rightarrow> reaction) \<Rightarrow> http_req \<Rightarrow> llm_client \<Rightarrow> (llm_error + pyval) \<times> llm_client" where
  "llm_call vendor react rq c =
     (if lc_open c then (Inl (LLMResponseError (vendor @ '' circuit breaker is open'')), c)
      else (case llm_attempts react rq retry_delays c of
              (Some x, c1) \<Rightarrow> (x, c1)
            | (None, c1) \<Rightarrow> (Inl (LLMResponseError (vendor @ '' call failed after 3 attempts'')), note_failure c1)))"

definition as_llm_error :: "pyerr + 'a \<Rightarrow> llm_error + 'a" where
  "as_llm_error r = (case r of Inl e \<Rightarrow> Inl (Raised e) | Inr x \<Rightarrow> Inr x)"

text \<open>\<open>json.loads\<close> of a value: only a text can be parsed; one that cannot is reported with its first 200 characters.\<close>

definition load_reply :: "string \<Rightarrow> (string \<Rightarrow> pyval option) \<Rightarrow> pyval \<Rightarrow> llm_error + pyval" where
  "load_reply vendor loads v =
     (case v of
        PStr s \<Rightarrow> (case loads s of Some d \<Rightarrow> Inr d
                 | None \<Rightarrow> Inl (LLMResponseError (vendor @ '' returned non-JSON content: '' @ take 200 s)))
      | _ \<Rightarrow> Inl (Raised TypeError))"

definition is_fresh :: "f64 \<Rightarrow> llm_client \<Rightarrow> bool option" where
  "is_fresh now c =
     (case lc_available c of None \<Rightarrow> None | Some (b, t) \<Rightarrow> if now - t < f_of_int 60 then Some b else None)"

definition check_available ::
    "(http_req list \<Rightarrow> http_req \<Rightarrow> reaction) \<Rightarrow> http_req \<Rightarrow> int list \<Rightarrow> f64 \<Rightarrow> llm_client \<Rightarrow> bool \<times> llm_client" where
  "check_available react rq good now c =
     (case is_fresh now c of
        Some b \<Rightarrow> (b, c)
      | None \<Rightarrow>
          (let b = (case react (lc_calls c) rq of Replied r \<Rightarrow> rs_status r \<in> set good | _ \<Rightarrow> False)
           in (b, (log_call rq c)\<lparr>lc_available := Some (b, now)\<rparr>)))"

section \<open>OpenAI\<close>

definition user_message :: "string \<Rightarrow> pyval" where
  "user_message text = PList [PDict [(''role'', PStr ''user''), (''content'', PStr text)]]"

definition openai_request :: "llm_client \<Rightarrow> string \<Rightarrow> int \<Rightarrow> f64 \<Rightarrow> bool \<Rightarrow> http_req" where
  "openai_request c prompt max_tokens temperature json_mode =
     \<lparr>rq_method = ''POST'', rq_url = ''https://api.openai.com/v1/chat/completions'',
      rq_payload = Json (PDict ([(''model'', PStr (lc_model c)), (''messages'', user_message prompt), (''max_tokens'', PInt max_tokens),
          (''temperature'', PFloat temperature)]
        @ (if json_mode then [(''response_format'', PDict [(''type'', PStr ''json_object'')])] else []))),
      rq_headers = bearer_headers (lc_key c), rq_timeout = lc_timeout c\<rparr>"

definition openai_content :: "pyval \<Rightarrow> pyerr + pyval" where
  "openai_content response =
     bind_res (index_text response ''choices'') (\<lambda>choices. bind_res (first_item choices) (\<lambda>x.
     bind_res (index_text x ''message'') (\<lambda>m. index_text m ''content'')))"

definition openai_complete ::
    "(http_req list \<Rightarrow> http_req \<Rightarrow> reaction) \<Rightarrow> string \<Rightarrow> int \<Rightarrow> f64 \<Rightarrow> llm_client \<Rightarrow> (llm_error + pyval) \<times> llm_client" where
  "openai_complete react prompt max_tokens temperature c =
     (case llm_call ''OpenAI'' react (openai_request c prompt max_tokens temperature False) c of
        (r, c1) \<Rightarrow> (bind_res r (\<lambda>v. as_llm_error (openai_content v)), c1))"

definition openai_complete_json ::
    "(http_req list \<Rightarrow> http_req \<Rightarrow> reaction) \<Rightarrow> (string \<Rightarrow> pyval option) \<Rightarrow> string \<Rightarrow> llm_client \<Rightarrow> (llm_error + pyval) \<times> llm_client" where
  "openai_complete_json react loads prompt c =
     (case llm_call ''OpenAI'' react (openai_request c prompt 2000 (flt (1 / 10)) True) c of
        (r, c1) \<Rightarrow> (bind_res r (\<lambda>v. bind_res (as_llm_error (openai_content v)) (load_reply ''OpenAI'' loads)), c1))"

definition openai_is_available :: "(http_req list \<Rightarrow> http_req \<Rightarrow> reaction) \<Rightarrow> f64 \<Rightarrow> llm_client \<Rightarrow> bool \<times> llm_client" where
  "openai_is_available react now c =
     check_available react
       \<lparr>rq_method = ''GET'', rq_url = ''https://api.openai.com/v1/models'', rq_payload = NoPayload,
        rq_headers = bearer_headers (lc_key c), rq_timeout = 5\<rparr> [200] now c"

section \<open>Anthropic\<close>

definition anthropic_request :: "llm_client \<Rightarrow> string \<Rightarrow> int \<Rightarrow> int \<Rightarrow> http_req" where
  "anthropic_request c prompt max_tokens t =
     \<lparr>rq_method = ''POST'', rq_url = ''https://api.anthropic.com/v1/messages'',
      rq_payload = Json (PDict [(''model'', PStr (lc_model c)), (''max_tokens'', PInt max_tokens), (''messages'', user_message prompt)]),
      rq_headers = [(''x-api-key'', lc_key c), (''anthropic-version'', ''2023-06-01''), (''Content-Type'', ''application/json'')],
      rq_timeout = t\<rparr>"

definition anthropic_content :: "pyval \<Rightarrow> llm_error + pyval" where
  "anthropic_content data =
     bind_res (as_llm_error (py_get data ''content'' (PList []))) (\<lambda>blocks.
       if \<not> truthy blocks then Inl (LLMResponseError ''Anthropic returned empty content blocks'')
       else bind_res (as_llm_error (first_item blocks)) (\<lambda>b. as_llm_error (py_get b ''text'' (PStr []))))"

definition anthropic_complete ::
    "(http_req list \<Rightarrow> http_req \<Rightarrow> reaction) \<Rightarrow> string \<Rightarrow> int \<Rightarrow> llm_client \<Rightarrow> (llm_error + pyval) \<times> llm_client" where
  "anthropic_complete react prompt max_tokens c =
     (case llm_call ''Anthropic'' react (anthropic_request c prompt max_tokens (lc_timeout c)) c of
        (r, c1) \<Rightarrow> (bind_res r anthropic_content, c1))"

definition json_instruction :: string where
  "json_instruction = [CHR 0x0A, CHR 0x0A] @ ''Respond with valid JSON only. ''
     @ ''Do not include markdown code blocks or any text outside the JSON object.''"

definition anthropic_complete_json ::
    "(http_req list \<Rightarrow> http_req \<Rightarrow> reaction) \<Rightarrow> (string \<Rightarrow> pyval option) \<Rightarrow> string \<Rightarrow> llm_client \<Rightarrow> (llm_error + pyval) \<times> llm_client" where
  "anthropic_complete_json react loads prompt c =
     (case anthropic_complete react (prompt @ json_instruction) 2000 c of
        (r, c1) \<Rightarrow> (bind_res r (load_reply ''Anthropic'' loads), c1))"

definition anthropic_is_available :: "(http_req list \<Rightarrow> http_req \<Rightarrow> reaction) \<Rightarrow> f64 \<Rightarrow> llm_client \<Rightarrow> bool \<times> llm_client" where
  "anthropic_is_available react now c = check_available react (anthropic_request c ''ping'' 1 5) [200, 400] now c"

section \<open>Requests, delays and the circuit\<close>

definition circuit_ok :: "llm_client \<Rightarrow> bool" where
  "circuit_ok c \<longleftrightarrow> lc_open c = (5 \<le> lc_failures c)"

lemma take_reply_frame:
  "take_reply r c = (x, c1) \<Longrightarrow> lc_calls c1 = lc_calls c \<and> lc_slept c1 = lc_slept c \<and> lc_open c1 = lc_open c
     \<and> (lc_failures c1 = lc_failures c \<or> lc_failures c1 = 0) \<and> (\<not> isl x \<longrightarrow> lc_failures c1 = 0)"
  by (auto simp: take_reply_def split: sum.splits pyval.splits)

text \<open>Every attempt but the last one made is followed by its delay; all of them are when the loop runs out.\<close>

lemma attempts_bounded:
  "llm_attempts react rq ds c = (r, c1) \<Longrightarrow>
   \<exists>n \<le> length ds. lc_slept c1 = lc_slept c @ take n ds
     \<and> lc_calls c1 = lc_calls c @ replicate (n + (if r = None then 0 else 1)) rq
     \<and> (if r = None then n = length ds else n < length ds)
     \<and> lc_open c1 = lc_open c \<and> (lc_failures c1 = lc_failures c \<or> r \<noteq> None \<and> lc_failures c1 = 0)"
proof (induction ds arbitrary: c)
  case Nil
  then show ?case by simp
next
  case (Cons d ds)
  let ?c = "sleep_for d (log_call rq c)"
  have again: ?case if "llm_attempts react rq ds ?c = (r, c1)"
  proof -
    from Cons.IH [OF that] obtain n where n: "n \<le> length ds" "lc_slept c1 = lc_slept ?c @ take n ds"
      "lc_calls c1 = lc_calls ?c @ replicate (n + (if r = None then 0 else 1)) rq"
      "if r = None then n = length ds else n < length ds" "lc_open c1 = lc_open ?c"
      "lc_failures c1 = lc_failures ?c \<or> r \<noteq> None \<and> lc_failures c1 = 0" by blast
    then show ?thesis
      by (intro exI [of _ "Suc n"]) (auto simp: sleep_for_def log_call_def)
  qed
  show ?case
  proof (cases "react (lc_calls c) rq")
    case NetworkTrouble
    with Cons.prems show ?thesis by (intro again) (simp add: Let_def)
  next
    case (OtherTrouble e)
    with Cons.prems show ?thesis by (intro exI [of _ 0]) (auto simp: Let_def log_call_def)
  next
    case (Replied reply)
    show ?thesis
    proof (cases "retryable_status (rs_status reply)")
      case True
      with Replied Cons.prems show ?thesis by (intro again) (simp add: Let_def)
    next
      case False
      obtain x c2 where a: "take_reply reply (log_call rq c) = (x, c2)" by fastforce
      with Replied Cons.prems False have "r = Some x" "c1 = c2" by (simp_all add: Let_def)
      with take_reply_frame [OF a] show ?thesis by (intro exI [of _ 0]) (auto simp: log_call_def)
    qed
  qed
qed

lemma llm_call_cases:
  assumes "llm_call v react rq c = (r, c1)" and "\<not> lc_open c"
  obtains (answered) x where "llm_attempts react rq retry_delays c = (Some x, c1)" "r = x"
  | (exhausted) c2 where "llm_attempts react rq retry_delays c = (None, c2)" "c1 = note_failure c2"
      "r = Inl (LLMResponseError (v @ '' call failed after 3 attempts''))"
  using assms by (auto simp: llm_call_def split: prod.splits option.splits)

lemma note_failure_frame [simp]:
  "lc_calls (note_failure c) = lc_calls c" "lc_slept (note_failure c) = lc_slept c" "lc_failures (note_failure c) = Suc (lc_failures c)"
  by (simp_all add: note_failure_def Let_def)

lemma length_retry_delays [simp]: "length retry_delays = 3"
  by (simp add: retry_delays_def)

text \<open>
  A call to a language model is bounded. It makes at most three requests, all of them the one asked for, sleeps
  the delays 1, 2 and 4 seconds in this order and no others, at most one per request; a client whose circuit is open
  makes none.
\<close>

theorem llm_call_bounded:
  "\<exists>n \<le> 3. lc_calls (snd (llm_call v react rq c)) = lc_calls c @ replicate n rq
     \<and> (\<exists>k \<le> n. lc_slept (snd (llm_call v react rq c)) = lc_slept c @ take k retry_delays)
     \<and> (if lc_open c then n = 0 else 0 < n)"
proof (cases "lc_open c")
  case True
  then show ?thesis by (intro exI [of _ 0]) (simp add: llm_call_def)
next
  case False
  obtain r c1 where e: "llm_call v react rq c = (r, c1)" by fastforce
  from e False show ?thesis
  proof (cases rule: llm_call_cases)
    case (answered x)
    from attempts_bounded [OF answered(1)] obtain n where
      "n < 3" "lc_slept c1 = lc_slept c @ take n retry_delays" "lc_calls c1 = lc_calls c @ replicate (Suc n) rq" by auto
    then have "\<exists>k \<le> Suc n. lc_slept c1 = lc_slept c @ take k retry_delays" by (intro exI [of _ n]) simp
    with e False \<open>n < 3\<close> \<open>lc_calls c1 = _\<close> show ?thesis by (intro exI [of _ "Suc n"]) auto
  next
    case (exhausted c2)
    from attempts_bounded [OF exhausted(1)]
    have "lc_slept c2 = lc_slept c @ take 3 retry_delays" "lc_calls c2 = lc_calls c @ replicate 3 rq" by auto
    with e False exhausted show ?thesis by (intro exI [of _ 3]) auto
  qed
qed

lemma circuit_invariant:
  assumes "circuit_ok c" shows "circuit_ok (snd (llm_call v react rq c))"
proof (cases "lc_open c")
  case True
  with assms show ?thesis by (simp add: llm_call_def)
next
  case False
  obtain r c1 where e: "llm_call v react rq c = (r, c1)" by fastforce
  from e False have "circuit_ok c1"
  proof (cases rule: llm_call_cases)
    case (answered x)
    from attempts_bounded [OF answered(1)] False assms show ?thesis by (auto simp: circuit_ok_def)
  next
    case (exhausted c2)
    from attempts_bounded [OF exhausted(1)] False assms exhausted(2) show ?thesis
      by (auto simp: circuit_ok_def note_failure_def Let_def)
  qed
  with e show ?thesis by simp
qed

text \<open>An open circuit stays open: nothing closes it, so the client is of no more use.\<close>

lemma open_circuit_stays: "lc_open c \<Longrightarrow> snd (llm_call v react rq c) = c \<and> isl (fst (llm_call v react rq c))"
  by (simp add: llm_call_def)

definition unreachable :: "(http_req list \<Rightarrow> http_req \<Rightarrow> reaction) \<Rightarrow> bool" where
  "unreachable react \<longleftrightarrow> (\<forall>cs rq. react cs rq = NetworkTrouble \<or> (\<exists>r. react cs rq = Replied r \<and> retryable_status (rs_status r)))"

lemma unreachable_exhausts: "unreachable react \<Longrightarrow> fst (llm_attempts react rq ds c) = None"
proof (induction ds arbitrary: c)
  case (Cons d ds)
  then have "react (lc_calls c) rq = NetworkTrouble \<or> (\<exists>r. react (lc_calls c) rq = Replied r \<and> retryable_status (rs_status r))"
    by (simp add: unreachable_def)
  with Cons show ?case by (auto simp: Let_def)
qed simp

lemma failing_call:
  assumes "unreachable react" and "\<not> lc_open c" and "circuit_ok c"
  shows "lc_failures (snd (llm_call v react rq c)) = Suc (lc_failures c)
    \<and> length (lc_calls (snd (llm_call v react rq c))) = length (lc_calls c) + 3"
proof -
  obtain c2 where a: "llm_attempts react rq retry_delays c = (None, c2)"
    using unreachable_exhausts [OF assms(1)] by (metis prod.collapse)
  from attempts_bounded [OF a] a assms(2) show ?thesis by (simp add: llm_call_def)
qed

text \<open>
  C33: an outage costs fifteen requests. While the vendor does not answer, or answers with a status that is
  retried, a new client counts a failure per call, opens its circuit with the fifth and makes no request after that:
  however many calls follow, three requests were made for each of the first five.
\<close>

theorem outage_costs_fifteen_requests:
  assumes "unreachable react"
  shows "let c = ((\<lambda>c. snd (llm_call v react rq c)) ^^ n) (new_llm_client key model t)
    in lc_failures c = min n 5 \<and> lc_open c = (5 \<le> n) \<and> length (lc_calls c) = 3 * min n 5"
proof (induction n)
  case 0
  then show ?case by (simp add: new_llm_client_def)
next
  case (Suc n)
  let ?f = "\<lambda>c. snd (llm_call v react rq c)"
  let ?c = "(?f ^^ n) (new_llm_client key model t)"
  from Suc have c: "lc_failures ?c = min n 5" "lc_open ?c = (5 \<le> n)" "length (lc_calls ?c) = 3 * min n 5"
    by (simp_all add: Let_def)
  then have ok: "circuit_ok ?c" by (simp add: circuit_ok_def)
  show ?case
  proof (cases "5 \<le> n")
    case True
    with c open_circuit_stays [of ?c v react rq] show ?thesis by (simp add: Let_def)
  next
    case False
    with failing_call [OF assms _ ok, of v rq] circuit_invariant [OF ok, of v react rq] c
    show ?thesis by (simp add: Let_def circuit_ok_def min_def)
  qed
qed

theorem outage_costs_fifteen_requests_witness:
  "length (lc_calls (((\<lambda>c. snd (llm_call ''OpenAI'' (\<lambda>_ _. NetworkTrouble)
      (openai_request (new_llm_client ''k'' ''gpt-4o'' 60) ''hi'' 10 0 False) c)) ^^ 20) (new_llm_client ''k'' ''gpt-4o'' 60))) = 15"
proof -
  have "unreachable (\<lambda>_ _. NetworkTrouble)" by (simp add: unreachable_def)
  from outage_costs_fifteen_requests [OF this, where n = 20] show ?thesis by (simp add: Let_def)
qed

text \<open>An accepted answer whose usage is null is lost.\<close>

lemma null_usage_loses_answer:
  "200 \<le> rs_status r \<Longrightarrow> rs_status r < 300 \<Longrightarrow> rs_json r = Inr (PDict [(''content'', v), (''usage'', PNone)]) \<Longrightarrow>
   fst (take_reply r c) = Inl (Raised AttributeError)"
  by (simp add: take_reply_def raise_for_status_def py_get_def dget_or_def)

text \<open>A status that is not retried, as a rejected key, is not counted: the circuit never opens for it.\<close>

lemma rejected_key_not_counted:
  assumes "\<forall>cs rq. \<exists>r. react cs rq = Replied r \<and> rs_status r = 401" and "\<not> lc_open c"
  shows "lc_failures (snd (llm_call v react rq c)) = lc_failures c \<and> length (lc_calls (snd (llm_call v react rq c))) = length (lc_calls c) + 1"
proof -
  from assms(1) obtain r where "react (lc_calls c) rq = Replied r" "rs_status r = 401" by blast
  with assms(2) show ?thesis
    by (simp add: llm_call_def retry_delays_def retryable_status_def take_reply_def raise_for_status_def log_call_def Let_def)
qed

end
