(* ===== verification/Prompts.thy ===== *)
theory Prompts
  imports DataSources SearchOptimizer ValidationEngine "HOL-Library.Product_Lexorder"
begin

text \<open>
  \<open>app/services/prompt_builder.py\<close>, \<open>flatten_prompt\<close> of \<open>enrichment/sources/llm_base.py\<close> and
  \<open>deterministic_provider.py\<close>: the prompt of an entity and its variations, the prompt as one text, and the
  provider that computes the answer from the entity. The fixed text of the system prompt is the parameter
  \<open>pt_system\<close> with its two slots, the line that stands for a missing schema \<open>pt_no_schema\<close>; the digest is \<open>h\<close>, in hexadecimal.
  \<open>casefold\<close> is exact on the characters below 256 up to the letter it turns the micro sign into.
\<close>

section \<open>Prompts\<close>

record prompt_texts =
  pt_system :: "string \<Rightarrow> string \<Rightarrow> string"
  pt_no_schema :: string

record chat_prompt =
  cp_model :: string
  cp_messages :: "(string \<times> string) list"
  cp_temperature :: f64
  cp_max_tokens :: int
  cp_variation :: "string option"

definition newline :: string where "newline = [CHR 0x0A]"

definition shorten :: "nat \<Rightarrow> string \<Rightarrow> string" where
  "shorten n s = (if n < length s then take (n - 3) s @ ''...'' else s)"

definition prompt_line :: "nat \<Rightarrow> string \<times> pyval \<Rightarrow> string" where
  "prompt_line n kv = ''  '' @ fst kv @ '': '' @ shorten n (py_str (snd kv))"

definition by_name :: "fields \<Rightarrow> fields" where
  "by_name entity = sort_key fst entity"

text \<open>\<open>_build_assistant_context\<close>: an empty dict counts as known here, unlike in the description of the entity.\<close>

definition known_value :: "pyval \<Rightarrow> bool" where
  "known_value v \<longleftrightarrow> v \<noteq> PNone \<and> v \<noteq> PStr [] \<and> v \<noteq> PList []"

definition assistant_context :: "fields \<Rightarrow> string option" where
  "assistant_context entity =
     (let known = filter (\<lambda>kv. known_value (snd kv)) entity in
      if known = [] then None
      else Some (join newline (''I already have the following verified data for this entity:''
        # map (prompt_line 300) (filter (\<lambda>kv. take 1 (fst kv) \<noteq> ''_'') (by_name known))
        @ [newline @ ''Focus your research on the fields I'' @ [CHR 39] @ ''m still missing from the target schema.''])))"

definition schema_block :: "prompt_texts \<Rightarrow> (string, string) dict option \<Rightarrow> string" where
  "schema_block pt schema =
     (case schema of
        Some (f # fs) \<Rightarrow> join newline (map (\<lambda>(k, v). ''  '' @ k @ '' ('' @ v @ '')'') (f # fs))
      | _ \<Rightarrow> pt_no_schema pt)"

definition knowledge_block :: "string \<Rightarrow> string" where
  "knowledge_block t = (if t = [] then [] else newline @ newline @ ''DOMAIN KNOWLEDGE CONTEXT:'' @ newline @ t @ newline)"

definition entity_lines :: "fields \<Rightarrow> string list" where
  "entity_lines entity = map (prompt_line 500) (filter (\<lambda>kv. \<not> is_blank (snd kv)) (by_name entity))"

definition user_content :: "fields \<Rightarrow> string \<Rightarrow> string \<Rightarrow> string" where
  "user_content entity object_type objective =
     ''OBJECTIVE: '' @ objective @ newline @ newline @ ''ENTITY TYPE: '' @ object_type @ newline @ newline @ ''ENTITY DATA:'' @ newline
     @ (if entity_lines entity = [] then ''  (minimal data available)'' else join newline (entity_lines entity))
     @ newline @ newline @ ''Research this entity thoroughly. Return strictly valid JSON.''"

definition build_prompt ::
    "prompt_texts \<Rightarrow> fields \<Rightarrow> string \<Rightarrow> string \<Rightarrow> (string, string) dict option \<Rightarrow> string \<Rightarrow> string \<Rightarrow> sonar_config option \<Rightarrow> chat_prompt" where
  "build_prompt pt entity object_type objective schema kb model cfg =
     \<lparr>cp_model = model,
      cp_messages = [(''system'', pt_system pt (knowledge_block kb) (schema_block pt schema)),
                     (''user'', user_content entity object_type objective)]
        @ (case cfg of
             Some c \<Rightarrow>
               (if sc_strategy c = SystemUserAssistant
                then (case assistant_context entity of Some (x # xs) \<Rightarrow> [(''assistant'', x # xs)] | _ \<Rightarrow> []) else [])
           | None \<Rightarrow> []),
      cp_temperature = flt (7 / 10), cp_max_tokens = 4000, cp_variation = None\<rparr>"

section \<open>Variations\<close>

record variation_strategy =
  vs_name :: string
  vs_prefix :: string
  vs_suffix :: string
  vs_temperature :: f64

definition variation_strategies :: "variation_strategy list" where
  "variation_strategies =
     [\<lparr>vs_name = ''direct'', vs_prefix = [], vs_suffix = [], vs_temperature = flt (7 / 10)\<rparr>,
      \<lparr>vs_name = ''verification'', vs_prefix = ''Verify and cross-check the following entity information. '',
       vs_suffix = '' Double-check all facts against multiple sources.'', vs_temperature = flt (1 / 2)\<rparr>,
      \<lparr>vs_name = ''comprehensive'', vs_prefix = ''Conduct a comprehensive research analysis of this entity. '',
       vs_suffix = '' Include all available details and context.'', vs_temperature = flt (4 / 5)\<rparr>,
      \<lparr>vs_name = ''focused'', vs_prefix = ''Focus specifically on the core business attributes. '',
       vs_suffix = '' Prioritize accuracy over completeness.'', vs_temperature = flt (2 / 5)\<rparr>,
      \<lparr>vs_name = ''industry_context'', vs_prefix = ''Research this entity within its industry context. '',
       vs_suffix = '' Consider market position and competitive landscape.'', vs_temperature = flt (7 / 10)\<rparr>]"

definition vary :: "(string \<Rightarrow> chat_prompt) \<Rightarrow> string \<Rightarrow> variation_strategy \<Rightarrow> chat_prompt" where
  "vary build objective st =
     (build (py_strip (vs_prefix st @ objective @ vs_suffix st)))\<lparr>cp_temperature := vs_temperature st, cp_variation := Some (vs_name st)\<rparr>"

definition build_variation_prompts ::
    "prompt_texts \<Rightarrow> fields \<Rightarrow> string \<Rightarrow> string \<Rightarrow> (string, string) dict option \<Rightarrow> string \<Rightarrow> string \<Rightarrow> int \<Rightarrow> sonar_config option
     \<Rightarrow> chat_prompt list" where
  "build_variation_prompts pt entity object_type objective schema kb model n cfg =
     map (vary (\<lambda>obj. build_prompt pt entity object_type obj schema kb model cfg) objective)
       (take (nat (min (max n 1) (int (length variation_strategies)))) variation_strategies)"

definition get_variation_strategy_names :: "string list" where
  "get_variation_strategy_names = map vs_name variation_strategies"

text \<open>\<open>flatten_prompt\<close>: the fields of the payload override the three it starts from; the turns that are not empty are joined.\<close>

definition prompt_entity :: "string \<Rightarrow> fields \<Rightarrow> fields" where
  "prompt_entity dm payload =
     dupdate [(''entity_name'', dget_or payload ''entity_name'' blank), (''entity_type'', dget_or payload ''entity_type'' (PStr dm)),
              (''location'', dget_or payload ''location'' blank)]
       (filter (\<lambda>kv. \<not> is_blank (snd kv)) payload)"

definition flatten_prompt :: "prompt_texts \<Rightarrow> string \<Rightarrow> fields \<Rightarrow> string" where
  "flatten_prompt pt dm payload =
     join (newline @ newline) (filter (\<lambda>p. p \<noteq> [])
       (map snd (filter (\<lambda>rc. fst rc \<in> {''system'', ''user''})
         (cp_messages (build_prompt pt (prompt_entity dm payload) dm ''enrich'' None [] ''sonar-reasoning'' None)))))"

section \<open>The deterministic provider\<close>

definition casefold :: "string \<Rightarrow> string" where
  "casefold s = concat (map (\<lambda>c. if code c = 223 then ''ss'' else [lower_char c]) s)"

definition hex_value :: "string \<Rightarrow> int" where
  "hex_value s = fold (\<lambda>c n. 16 * n + (let k = int (code c) in if k < 58 then k - 48 else k - 87)) s 0"

definition identity_of :: "pyval \<Rightarrow> string option" where
  "identity_of v =
     (case v of
        PStr s \<Rightarrow> if py_strip s \<noteq> [] then Some (py_strip s) else None
      | PInt _ \<Rightarrow> Some (py_str v) | PFloat _ \<Rightarrow> Some (py_str v) | PBool _ \<Rightarrow> Some (py_str v) | _ \<Rightarrow> None)"

definition identity_key :: "(string \<Rightarrow> string) \<Rightarrow> fields \<Rightarrow> string" where
  "identity_key h entity =
     (case List.map_filter (\<lambda>k. identity_of (dget_or entity k PNone)) [''id'', ''Id'', ''ID'', ''entity_id'', ''name'', ''Name''] of
        k # _ \<Rightarrow> k
      | [] \<Rightarrow> take 16 (h (''['' @ join '', '' (map (\<lambda>(k, v). ''('' @ repr_str k @ '', '' @ repr_str v @ '')'')
                  (sort (map (\<lambda>(k, v). (k, py_str v)) entity))) @ '']'')))"

definition existing_value :: "fields \<Rightarrow> string \<Rightarrow> pyval" where
  "existing_value entity fld =
     (case dget entity fld of
        Some v \<Rightarrow> v
      | None \<Rightarrow> (case filter (\<lambda>kv. casefold (fst kv) = casefold fld) entity of kv # _ \<Rightarrow> snd kv | [] \<Rightarrow> PNone))"

definition digest_of :: "(string \<Rightarrow> string) \<Rightarrow> string \<Rightarrow> string \<Rightarrow> string" where
  "digest_of h key fld = h (key @ ''|'' @ fld)"

definition synthetic_value :: "(string \<Rightarrow> string) \<Rightarrow> string \<Rightarrow> string \<Rightarrow> string \<Rightarrow> pyval" where
  "synthetic_value h key fld declared =
     (let d = digest_of h key fld; kind = casefold (py_strip (if declared = [] then ''string'' else declared)) in
      if kind \<in> {''int'', ''integer''} then PInt (hex_value (take 8 d) mod 1000)
      else if kind \<in> {''float'', ''number'', ''decimal''}
      then PFloat (py_round 2 (py_int_div (hex_value (take 8 d) mod 10000) 100))
      else if kind \<in> {''bool'', ''boolean''} then PBool (hex_value (take 2 d) mod 2 = 0)
      else if kind \<in> {''list'', ''array''} then PList [PStr (''det:'' @ take 8 d)]
      else PStr (''det:'' @ fld @ '':'' @ take 12 d))"

record det_payload =
  dp_confidence :: f64
  dp_fields :: fields
  dp_synthetic :: "string list"

definition add_det_field :: "(string \<Rightarrow> string) \<Rightarrow> fields \<Rightarrow> string \<times> pyval \<Rightarrow> det_payload \<Rightarrow> det_payload" where
  "add_det_field h entity ft p =
     (let ex = existing_value entity (fst ft) in
      if kept_value ex then p\<lparr>dp_fields := dset (fst ft) ex (dp_fields p)\<rparr>
      else p\<lparr>dp_fields := dset (fst ft) (synthetic_value h (identity_key h entity) (fst ft) (py_str (snd ft))) (dp_fields p),
             dp_synthetic := dp_synthetic p @ [fst ft]\<rparr>)"

definition build_deterministic_payload :: "(string \<Rightarrow> string) \<Rightarrow> fields \<Rightarrow> fields option \<Rightarrow> det_payload" where
  "build_deterministic_payload h entity schema =
     fold (add_det_field h entity) (case schema of None \<Rightarrow> [] | Some s \<Rightarrow> s)
       \<lparr>dp_confidence = flt (19 / 20), dp_fields = [], dp_synthetic = []\<rparr>"

definition query_deterministic :: "(string \<Rightarrow> string) \<Rightarrow> fields \<Rightarrow> fields option \<Rightarrow> sonar_response" where
  "query_deterministic h entity schema =
     (let p = build_deterministic_payload h entity schema in
      \<lparr>sr_data = PDict [(''confidence'', PFloat (dp_confidence p)), (''fields'', PDict (dp_fields p)),
                        (''provider'', PStr ''deterministic''), (''synthetic_fields'', PList (map PStr (dp_synthetic p)))],
       sr_tokens = 0\<rparr>)"

section \<open>What a prompt says\<close>

lemma lines_in_join: "l \<in> set ls \<Longrightarrow> is_substring l (join sep ls)"
proof (induction sep ls rule: join.induct)
  case (2 sep s)
  then have "join sep [s] = [] @ l @ []" by simp
  then show ?case unfolding is_substring_iff by blast
next
  case (3 sep s t ts)
  show ?case
  proof (cases "l = s")
    case True
    then have "join sep (s # t # ts) = [] @ l @ (sep @ join sep (t # ts))" by simp
    then show ?thesis unfolding is_substring_iff by blast
  next
    case False
    with 3 have "is_substring l (join sep (t # ts))" by auto
    then obtain u v where "join sep (t # ts) = u @ l @ v" by (auto simp: is_substring_iff)
    then have "join sep (s # t # ts) = (s @ sep @ u) @ l @ v" by simp
    then show ?thesis unfolding is_substring_iff by blast
  qed
qed simp

lemma user_content_lines:
  assumes "kv \<in> set entity" and "\<not> is_blank (snd kv)"
  shows "is_substring (prompt_line 500 kv) (user_content entity object_type objective)"
proof -
  from assms have "prompt_line 500 kv \<in> set (entity_lines entity)" by (simp add: entity_lines_def by_name_def)
  then obtain u v where "join newline (entity_lines entity) = u @ prompt_line 500 kv @ v" and "entity_lines entity \<noteq> []"
    using lines_in_join [of "prompt_line 500 kv" "entity_lines entity" newline] by (fastforce simp: is_substring_iff)
  then have "user_content entity object_type objective =
      (''OBJECTIVE: '' @ objective @ newline @ newline @ ''ENTITY TYPE: '' @ object_type @ newline @ newline @ ''ENTITY DATA:'' @ newline @ u)
      @ prompt_line 500 kv @ (v @ newline @ newline @ ''Research this entity thoroughly. Return strictly valid JSON.'')"
    by (simp add: user_content_def)
  then show ?thesis unfolding is_substring_iff by blast
qed

lemma strategies_distinct: "distinct (map vs_name variation_strategies)" and strategies_five [simp]: "length variation_strategies = 5"
  by (simp_all add: variation_strategies_def)

text \<open>
  The prompts of a consensus tell every model the same facts. For a request for \<open>n\<close> variations there are as many
  prompts, at least one and at most five, with different names; each starts with the same system turn, and its user turn holds a
  line for every field of the entity that has a value, with that value up to 500 characters.
\<close>

theorem variations_share_the_facts:
  "let ps = build_variation_prompts pt entity object_type objective schema kb model n cfg in
     int (length ps) = min (max n 1) 5 \<and> distinct (map cp_variation ps)
     \<and> list_all (\<lambda>p. cp_messages p ! 0 = (''system'', pt_system pt (knowledge_block kb) (schema_block pt schema))
         \<and> fst (cp_messages p ! 1) = ''user''
         \<and> list_all (\<lambda>kv. if is_blank (snd kv) then True else is_substring (prompt_line 500 kv) (snd (cp_messages p ! 1))) entity) ps"
proof -
  let ?ps = "build_variation_prompts pt entity object_type objective schema kb model n cfg"
  have "map cp_variation ?ps = map Some (take (nat (min (max n 1) 5)) (map vs_name variation_strategies))"
    by (simp add: build_variation_prompts_def vary_def take_map comp_def)
  then have "distinct (map cp_variation ?ps)" using strategies_distinct by (simp add: distinct_map)
  moreover have "int (length ?ps) = min (max n 1) 5"
    by (auto simp: build_variation_prompts_def min_def max_def)
  moreover have "list_all (\<lambda>p. cp_messages p ! 0 = (''system'', pt_system pt (knowledge_block kb) (schema_block pt schema))
         \<and> fst (cp_messages p ! 1) = ''user''
         \<and> list_all (\<lambda>kv. if is_blank (snd kv) then True else is_substring (prompt_line 500 kv) (snd (cp_messages p ! 1))) entity) ?ps"
    using user_content_lines by (auto simp: build_variation_prompts_def vary_def build_prompt_def list_all_iff)
  ultimately show ?thesis by (simp add: Let_def)
qed

section \<open>What the deterministic provider promises\<close>

definition det_value :: "(string \<Rightarrow> string) \<Rightarrow> fields \<Rightarrow> string \<times> pyval \<Rightarrow> pyval" where
  "det_value h entity ft =
     (if kept_value (existing_value entity (fst ft)) then existing_value entity (fst ft)
      else synthetic_value h (identity_key h entity) (fst ft) (py_str (snd ft)))"

lemma add_det_fold:
  "distinct (dkeys ss) \<Longrightarrow> set (dkeys ss) \<inter> set (dkeys (dp_fields p)) = {} \<Longrightarrow>
   fold (add_det_field h entity) ss p =
     p\<lparr>dp_fields := dp_fields p @ map (\<lambda>ft. (fst ft, det_value h entity ft)) ss,
       dp_synthetic := dp_synthetic p @ filter (\<lambda>k. \<not> kept_value (existing_value entity k)) (dkeys ss)\<rparr>"
proof (induction ss arbitrary: p)
  case (Cons ft ss)
  then have new: "fst ft \<notin> set (dkeys (dp_fields p))" by auto
  have step: "add_det_field h entity ft p =
      p\<lparr>dp_fields := dp_fields p @ [(fst ft, det_value h entity ft)],
        dp_synthetic := dp_synthetic p @ (if kept_value (existing_value entity (fst ft)) then [] else [fst ft])\<rparr>"
    using dset_new [OF new] by (simp add: add_det_field_def det_value_def Let_def)
  from Cons.prems have "distinct (dkeys ss)"
    and "set (dkeys ss) \<inter> set (dkeys (dp_fields (add_det_field h entity ft p))) = {}"
    by (auto simp: step)
  from Cons.IH [OF this] show ?case by (simp add: step)
qed simp

lemma payload_parts:
  assumes "dict_ok schema"
  shows "build_deterministic_payload h entity (Some schema) =
    \<lparr>dp_confidence = flt (19 / 20), dp_fields = map (\<lambda>ft. (fst ft, det_value h entity ft)) schema,
     dp_synthetic = filter (\<lambda>k. \<not> kept_value (existing_value entity k)) (dkeys schema)\<rparr>"
  using assms add_det_fold [of schema "\<lparr>dp_confidence = flt (19 / 20), dp_fields = [], dp_synthetic = []\<rparr>" h entity]
  by (simp add: build_deterministic_payload_def)

text \<open>On names of types the two normalisations agree: \<open>strip\<close> and \<open>casefold\<close> here, \<open>lower\<close> in the validator.\<close>

definition type_letter :: "char \<Rightarrow> bool" where
  "type_letter c \<longleftrightarrow> 97 \<le> code c \<and> code c \<le> 122"

lemma type_names_letters: "dget type_map t = Some e \<Longrightarrow> list_all type_letter t \<and> t \<noteq> []"
  by (drule map_of_SomeD) (auto simp: type_map_def type_letter_def code_def)

lemma code_lower: "code (lower_char c) = (if (65 \<le> code c \<and> code c \<le> 90) \<or> (192 \<le> code c \<and> code c \<le> 222 \<and> code c \<noteq> 215) then code c + 32 else code c)"
proof -
  have "code c < 256" unfolding code_def by (metis nat_of_char_less_256)
  then show ?thesis unfolding lower_char_def Let_def by (auto simp: code_def)
qed

lemma letter_char:
  assumes "type_letter (lower_char c)"
  shows "\<not> is_space c \<and> code c \<noteq> 223"
  using assms by (auto simp: type_letter_def code_lower is_space_def Let_def split: if_splits)

lemma type_name_normal:
  assumes "dget type_map (py_lower ty) = Some e"
  shows "casefold (py_strip ty) = py_lower ty \<and> ty \<noteq> []"
proof -
  have ok: "\<forall>c \<in> set ty. \<not> is_space c \<and> code c \<noteq> 223" and ne: "ty \<noteq> []"
    using type_names_letters [OF assms] letter_char by (auto simp: py_lower_def list_all_iff)
  have "hd ty \<in> set ty" and "last ty \<in> set ty" using ne by simp_all
  with ok ne have "dropWhile is_space ty = ty" and "dropWhile is_space (rev ty) = rev ty"
    by (simp_all add: dropWhile_eq_self_iff hd_rev)
  then have "py_strip ty = ty" by (simp add: py_strip_def)
  moreover have "concat (map (\<lambda>c. if code c = 223 then ''ss'' else [lower_char c]) cs) = map lower_char cs"
    if "\<forall>c \<in> set cs. code c \<noteq> 223" for cs
    using that by (induction cs) auto
  ultimately show ?thesis using ok ne by (simp add: casefold_def py_lower_def)
qed

lemma synthesized_coerces:
  assumes "dget type_map (py_lower ty) = Some e" and "py_lower ty \<noteq> ''currency''"
  shows "\<exists>w. coerce (synthetic_value h key fld ty) e = Inr w"
proof -
  from assms(1) have "(py_lower ty, e) \<in> set type_map" by (rule map_of_SomeD)
  with assms(2) have "py_lower ty \<in> {''int'', ''integer''} \<and> e = TInt \<or> py_lower ty \<in> {''float'', ''number'', ''decimal''} \<and> e = TFloat
      \<or> e \<in> {TStr, TBool, TList}"
    by (simp add: type_map_def) blast
  with type_name_normal [OF assms(1)] show ?thesis
    by (elim disjE) (auto simp: synthetic_value_def coerce_def Let_def)
qed

lemma synthesized_not_none: "synthetic_value h key fld ty \<noteq> PNone"
  by (simp add: synthetic_value_def Let_def)

lemma validate_field_keeps: "dget n k \<noteq> None \<Longrightarrow> dget (validate_field fs spec n) k \<noteq> None"
  by (auto simp: validate_field_def Let_def dget_dset split: prod.split option.split sum.split)

lemma validate_fold_keeps: "dget n k \<noteq> None \<Longrightarrow> dget (fold (validate_field fs) specs n) k \<noteq> None"
  by (induction specs arbitrary: n) (simp_all add: validate_field_keeps del: not_None_eq)

lemma validate_fold_present:
  assumes "(k, ty) \<in> set specs" and "k \<noteq> ''confidence''" and "dget_or fs k PNone \<noteq> PNone"
    and "dget type_map (py_lower ty) = Some e" and "coerce (dget_or fs k PNone) e = Inr w"
  shows "dget (fold (validate_field fs) specs n) k \<noteq> None"
  using assms(1)
proof (induction specs arbitrary: n)
  case (Cons s specs)
  show ?case
  proof (cases "s = (k, ty)")
    case True
    with assms have "dget (validate_field fs s n) k \<noteq> None" by (simp add: validate_field_def Let_def dget_dset)
    then show ?thesis by (simp add: validate_fold_keeps)
  next
    case False
    with Cons show ?thesis by simp
  qed
qed simp

definition text_schema :: "(string, string) dict \<Rightarrow> fields" where
  "text_schema schema = map (\<lambda>(k, t). (k, PStr t)) schema"

lemma text_schema_keys [simp]: "dkeys (text_schema schema) = dkeys schema"
  by (induction schema) (auto simp: text_schema_def)

lemma det_field_value:
  assumes "dict_ok schema" and "(k, ty) \<in> set schema"
  shows "dget (map (\<lambda>ft. (fst ft, det_value h entity ft)) (text_schema schema)) k = Some (det_value h entity (k, PStr ty))"
proof (rule map_of_is_SomeI)
  show "distinct (dkeys (map (\<lambda>ft. (fst ft, det_value h entity ft)) (text_schema schema)))"
    using assms(1) text_schema_keys [of schema] by (simp add: comp_def)
  show "(k, det_value h entity (k, PStr ty)) \<in> set (map (\<lambda>ft. (fst ft, det_value h entity ft)) (text_schema schema))"
    using assms(2) by (force simp: text_schema_def)
qed

text \<open>
  C21: the answer of the deterministic provider passes validation. For a field of the schema whose type is one the
  validator knows and is not currency, whose name is not \<open>confidence\<close>, that the entity has no value for, and with
  schema names that are distinct, the provider's value is coerced without loss of the field: the validated reply has
  the field, with a value of the declared type, and the provider's confidence of 0.95. A currency field does not
  survive (\<open>currency_dropped\<close>).
\<close>

theorem deterministic_answer_validates:
  assumes "dict_ok schema" and "(k, ty) \<in> set schema" and "k \<noteq> ''confidence''"
    and "dget type_map (py_lower ty) = Some e" and "py_lower ty \<noteq> ''currency''"
    and "\<not> kept_value (existing_value entity k)"
  shows "\<exists>n v. validate_response (sr_data (query_deterministic h entity (Some (text_schema schema)))) (Some schema) = Some n
    \<and> dget n ''confidence'' = Some (PFloat (flt (19 / 20))) \<and> dget n k = Some v \<and> has_type ty v"
proof -
  let ?fs = "map (\<lambda>ft. (fst ft, det_value h entity ft)) (text_schema schema)"
  let ?n = "fold (validate_field ?fs) schema [(''confidence'', PFloat (flt (19 / 20)))]"
  have "dict_ok (text_schema schema)" using assms(1) by simp
  note parts = payload_parts [OF this, of h entity]
  have "max 0 (min 1 (flt (19 / 20))) = flt (19 / 20)" by (simp add: max_def min_def f64_eval)
  moreover have "?fs \<noteq> [] \<and> schema \<noteq> []" using assms(2) by (auto simp: text_schema_def)
  ultimately have v: "validate_response (sr_data (query_deterministic h entity (Some (text_schema schema)))) (Some schema) = Some ?n"
    by (simp add: validate_response_def query_deterministic_def parts response_confidence_def response_fields_def dget_or_def Let_def)
  have inv: "validated (set schema) (flt (19 / 20)) ?n"
    by (rule validate_fold_inv) (simp_all add: validated_def)
  have val: "dget_or ?fs k PNone = synthetic_value h (identity_key h entity) k ty"
    using det_field_value [OF assms(1,2), of h entity] assms(6) by (simp add: dget_or_def det_value_def)
  obtain w where "coerce (synthetic_value h (identity_key h entity) k ty) e = Inr w"
    using synthesized_coerces [OF assms(4,5)] by blast
  with assms(2-4) val have "dget ?n k \<noteq> None"
    by (intro validate_fold_present [where w = w]) (simp_all add: synthesized_not_none)
  then obtain x where x: "dget ?n k = Some x" by blast
  with inv assms(3) obtain ty' where "(k, ty') \<in> set schema" "has_type ty' x" by (auto simp: validated_def)
  with assms(1,2) have "has_type ty x" by (metis eq_key_imp_eq_value)
  with v inv x show ?thesis by (auto simp: validated_def)
qed

theorem deterministic_answer_validates_witness:
  "\<exists>n v. validate_response (sr_data (query_deterministic (\<lambda>s. ''00c0ffee00c0ffee'') [(''name'', PStr ''Acme'')]
      (Some (text_schema [(''employees'', ''Integer'')])))) (Some [(''employees'', ''Integer'')]) = Some n
    \<and> dget n ''confidence'' = Some (PFloat (flt (19 / 20))) \<and> dget n ''employees'' = Some v \<and> has_type ''Integer'' v"
proof (rule deterministic_answer_validates)
  show "dget type_map (py_lower ''Integer'') = Some TInt" and "py_lower ''Integer'' \<noteq> ''currency''" by code_simp+
  show "\<not> kept_value (existing_value [(''name'', PStr ''Acme'')] ''employees'')" by code_simp
qed simp_all

text \<open>A currency field is answered with a text, which the validator cannot read as a number and drops.\<close>

lemma currency_dropped:
  "validate_field [(''price'', synthetic_value (\<lambda>s. ''00c0ffee00c0ffee'') ''1'' ''price'' ''currency'')] (''price'', ''currency'') n = n"
proof -
  have "coerce (synthetic_value (\<lambda>s. ''00c0ffee00c0ffee'') ''1'' ''price'' ''currency'') TFloat = Inl ValueError" by code_simp
  moreover have "dget type_map (py_lower ''currency'') = Some TFloat" by code_simp
  ultimately show ?thesis by (simp add: validate_field_def dget_or_def synthesized_not_none)
qed

text \<open>A null under the exact name hides the value the entity has under another spelling.\<close>

lemma null_hides_other_spelling: "existing_value [(''City'', PStr ''Bonn''), (''city'', PNone)] ''city'' = PNone"
  by code_simp

end
