(* ===== verification/FragmentKb.thy ===== *)
theory FragmentKb
  imports PyNumbers FieldClassifier
begin

text \<open>
  \<open>app/services/enrichment/kb_resolver.py\<close>: the knowledge base of the waterfall, fragments of text per
  domain from which those that fit an entity are chosen. A file is given as it is parsed, with the entries the
  loader reads, or as \<open>None\<close> where reading it fails; files come in the order the three patterns list them.
\<close>

section \<open>Loading\<close>

record frag_entry =
  fe_id :: "string option"
  fe_content :: "string option"
  fe_keywords :: "string list option"
  fe_entity_types :: "string list option"
  fe_priority :: "int option"

record kb_data =
  kd_domain :: "string option"
  kd_fragments :: "frag_entry list option"
  kd_preamble :: "string option"
  kd_entity_hints :: "(string, fields) dict option"
  kd_default_hints :: "fields option"
  kd_terminology :: "(string, string) dict option"
  kd_validation_rules :: "fields option"

record kb_fragment =
  kf_id :: string
  kf_domain :: string
  kf_content :: string
  kf_keywords :: "string list"
  kf_entity_types :: "string list"
  kf_priority :: int

record fragment_kb =
  kr_files :: "(string \<times> kb_data option) list option"
  kr_cache :: "(string, kb_data) dict"
  kr_fragments :: "(string, kb_fragment list) dict"
  kr_loaded :: bool

definition new_fragment_kb :: "(string \<times> kb_data option) list option \<Rightarrow> fragment_kb" where
  "new_fragment_kb files = \<lparr>kr_files = files, kr_cache = [], kr_fragments = [], kr_loaded = False\<rparr>"

definition or_default :: "'a option \<Rightarrow> 'a \<Rightarrow> 'a" where
  "or_default x d = (case x of None \<Rightarrow> d | Some y \<Rightarrow> y)"

definition make_fragment :: "string \<Rightarrow> nat \<times> frag_entry \<Rightarrow> kb_fragment" where
  "make_fragment dm ie =
     (case ie of (i, e) \<Rightarrow>
       \<lparr>kf_id = or_default (fe_id e) (dm @ ''_'' @ str_int (int i)), kf_domain = dm, kf_content = or_default (fe_content e) [],
        kf_keywords = or_default (fe_keywords e) [], kf_entity_types = or_default (fe_entity_types e) [],
        kf_priority = or_default (fe_priority e) 0\<rparr>)"

definition load_kb_file :: "string \<times> kb_data option \<Rightarrow> fragment_kb \<Rightarrow> fragment_kb" where
  "load_kb_file sd kb =
     (case sd of
        (_, None) \<Rightarrow> kb
      | (stem, Some d) \<Rightarrow>
          (let dm = or_default (kd_domain d) stem in
           kb\<lparr>kr_cache := dset dm d (kr_cache kb),
              kr_fragments := dset dm (map (make_fragment dm) (enumerate 0 (or_default (kd_fragments d) []))) (kr_fragments kb)\<rparr>))"

definition load_fragments :: "fragment_kb \<Rightarrow> fragment_kb" where
  "load_fragments kb = (case kr_files kb of None \<Rightarrow> kb | Some fs \<Rightarrow> fold load_kb_file fs kb)\<lparr>kr_loaded := True\<rparr>"

definition ensure_loaded :: "fragment_kb \<Rightarrow> fragment_kb" where
  "ensure_loaded kb = (if kr_loaded kb then kb else load_fragments kb)"

section \<open>Resolving\<close>

record kb_answer =
  ka_fragment_ids :: "string list"
  ka_text :: string
  ka_domain :: pyval
  ka_hints :: fields
  ka_terminology :: "(string, string) dict"
  ka_rules :: fields

definition no_answer :: "pyval \<Rightarrow> kb_answer" where
  "no_answer dm = \<lparr>ka_fragment_ids = [], ka_text = [], ka_domain = dm, ka_hints = [], ka_terminology = [], ka_rules = []\<rparr>"

definition entity_type_of :: "fields \<Rightarrow> pyval" where
  "entity_type_of entity = dget_or entity ''type'' (dget_or entity ''entity_type'' (PStr []))"

definition entity_name_of :: "fields \<Rightarrow> string" where
  "entity_name_of entity = py_lower (py_str (dget_or entity ''name'' (dget_or entity ''entity_name'' (PStr []))))"

definition fragment_score :: "fields \<Rightarrow> kb_fragment \<Rightarrow> int" where
  "fragment_score entity f =
     kf_priority f
     + (if truthy (entity_type_of entity) \<and> entity_type_of entity \<in> set (map PStr (kf_entity_types f)) then 10 else 0)
     + 5 * int (length (filter (\<lambda>k. is_substring (py_lower k) (entity_name_of entity)) (kf_keywords f)))"

text \<open>\<open>xs[:n]\<close>, where a negative \<open>n\<close> counts from the end.\<close>

definition slice_to :: "int \<Rightarrow> 'a list \<Rightarrow> 'a list" where
  "slice_to n xs = take (nat (if n < 0 then int (length xs) + n else n)) xs"

definition select_fragments :: "fragment_kb \<Rightarrow> string \<Rightarrow> fields \<Rightarrow> int \<Rightarrow> kb_fragment list" where
  "select_fragments kb dm entity n = slice_to n (sort_desc (fragment_score entity) (dget_or (kr_fragments kb) dm []))"

definition kb_parts :: "kb_fragment list \<Rightarrow> kb_data \<Rightarrow> string list" where
  "kb_parts fs d = filter (\<lambda>p. p \<noteq> []) (or_default (kd_preamble d) [] # map kf_content fs)"

definition build_context_text :: "kb_fragment list \<Rightarrow> kb_data \<Rightarrow> string" where
  "build_context_text fs d = join [CHR 0x0A, CHR 0x0A] (kb_parts fs d)"

definition add_default_hint :: "string \<times> pyval \<Rightarrow> fields \<Rightarrow> fields" where
  "add_default_hint kv hints = (if dmem (fst kv) hints then hints else dset (fst kv) (snd kv) hints)"

definition extract_entity_hints :: "kb_data \<Rightarrow> fields \<Rightarrow> pyerr + fields" where
  "extract_entity_hints d entity =
     (let ty = entity_type_of entity in
      if \<not> hashable_value ty then Inl TypeError
      else (let type_hints = (case ty of PStr t \<Rightarrow> dget_or (or_default (kd_entity_hints d) []) t [] | _ \<Rightarrow> []) in
            Inr (fold add_default_hint (or_default (kd_default_hints d) []) (dupdate [] type_hints))))"

definition empty_data :: kb_data where
  "empty_data = \<lparr>kd_domain = None, kd_fragments = None, kd_preamble = None, kd_entity_hints = None, kd_default_hints = None,
     kd_terminology = None, kd_validation_rules = None\<rparr>"

text \<open>The domain is that asked for, else the entity's; a value of the entity that is no text names no domain.\<close>

definition resolve_kb :: "string option \<Rightarrow> fields \<Rightarrow> int \<Rightarrow> fragment_kb \<Rightarrow> (pyerr + kb_answer) \<times> fragment_kb" where
  "resolve_kb kb_context entity n kb0 =
     (let kb = ensure_loaded kb0;
          dm = (case kb_context of Some (c # cs) \<Rightarrow> PStr (c # cs) | _ \<Rightarrow> dget_or entity ''domain'' (PStr []))
      in (if \<not> truthy dm then Inr (no_answer (PStr []))
          else if \<not> hashable_value dm then Inl TypeError
          else (case (case dm of PStr s \<Rightarrow> map_option (\<lambda>d. (s, d)) (dget (kr_cache kb) s) | _ \<Rightarrow> None) of
                  None \<Rightarrow> Inr (no_answer dm)
                | Some (s, d) \<Rightarrow>
                    if d = empty_data then Inr (no_answer dm)
                    else (let fs = select_fragments kb s entity n in
                          bind_res (extract_entity_hints d entity) (\<lambda>hints.
                            Inr \<lparr>ka_fragment_ids = map kf_id fs, ka_text = build_context_text fs d, ka_domain = dm, ka_hints = hints,
                                 ka_terminology = or_default (kd_terminology d) [],
                                 ka_rules = or_default (kd_validation_rules d) []\<rparr>))), kb))"

definition get_terminology :: "string \<Rightarrow> fragment_kb \<Rightarrow> (string, string) dict \<times> fragment_kb" where
  "get_terminology dm kb0 =
     (let kb = ensure_loaded kb0 in
      (case dget (kr_cache kb) dm of None \<Rightarrow> [] | Some d \<Rightarrow> or_default (kd_terminology d) [], kb))"

definition get_validation_rules :: "string \<Rightarrow> fragment_kb \<Rightarrow> fields \<times> fragment_kb" where
  "get_validation_rules dm kb0 =
     (let kb = ensure_loaded kb0 in
      (case dget (kr_cache kb) dm of None \<Rightarrow> [] | Some d \<Rightarrow> or_default (kd_validation_rules d) [], kb))"

definition kb_domains :: "fragment_kb \<Rightarrow> string list" where
  "kb_domains kb = dkeys (kr_cache kb)"

section \<open>What is loaded\<close>

text \<open>The two tables of a loaded base have the same domains, and every fragment is filed under its own.\<close>

definition kb_consistent :: "fragment_kb \<Rightarrow> bool" where
  "kb_consistent kb \<longleftrightarrow> dkeys (kr_cache kb) = dkeys (kr_fragments kb)
     \<and> (\<forall>x \<in> set (kr_fragments kb). \<forall>f \<in> set (snd x). kf_domain f = fst x)"

lemma dset_items: "set (dset k v d) \<subseteq> insert (k, v) (set d)"
  by (induction d) auto

lemma load_file_consistent: "kb_consistent kb \<Longrightarrow> kb_consistent (load_kb_file sd kb)"
proof (cases sd)
  case (Pair stem od)
  assume ok: "kb_consistent kb"
  show ?thesis
  proof (cases od)
    case (Some d)
    let ?dm = "or_default (kd_domain d) stem"
    let ?fs = "map (make_fragment ?dm) (enumerate 0 (or_default (kd_fragments d) []))"
    have "\<forall>f \<in> set ?fs. kf_domain f = ?dm" by (auto simp: make_fragment_def)
    moreover have "set (dset ?dm ?fs (kr_fragments kb)) \<subseteq> insert (?dm, ?fs) (set (kr_fragments kb))" by (rule dset_items)
    moreover have "dkeys (dset ?dm d (kr_cache kb)) = dkeys (dset ?dm ?fs (kr_fragments kb))"
      using ok by (intro dkeys_dset_cong) (simp add: kb_consistent_def)
    moreover have "\<forall>x \<in> insert (?dm, ?fs) (set (kr_fragments kb)). \<forall>f \<in> set (snd x). kf_domain f = fst x"
      using ok \<open>\<forall>f \<in> set ?fs. kf_domain f = ?dm\<close> by (simp add: kb_consistent_def)
    ultimately have "dkeys (dset ?dm d (kr_cache kb)) = dkeys (dset ?dm ?fs (kr_fragments kb))"
      and "\<forall>x \<in> set (dset ?dm ?fs (kr_fragments kb)). \<forall>f \<in> set (snd x). kf_domain f = fst x" by blast+
    then show ?thesis unfolding Pair Some by (simp add: kb_consistent_def load_kb_file_def Let_def)
  qed (use ok Pair in \<open>simp add: load_kb_file_def\<close>)
qed

lemma load_consistent: "kb_consistent kb \<Longrightarrow> kb_consistent (ensure_loaded kb)"
proof -
  assume ok: "kb_consistent kb"
  have "kb_consistent (fold load_kb_file fs kb)" for fs
    using ok by (induction fs arbitrary: kb) (simp_all add: load_file_consistent)
  with ok show ?thesis
    by (auto simp: ensure_loaded_def load_fragments_def kb_consistent_def split: option.split)
qed

lemma new_consistent: "kb_consistent (new_fragment_kb files)"
  by (simp add: kb_consistent_def new_fragment_kb_def)

lemma domain_fragments:
  assumes "kb_consistent kb" and "f \<in> set (dget_or (kr_fragments kb) dm [])"
  shows "kf_domain f = dm"
proof (cases "dget (kr_fragments kb) dm")
  case (Some fs)
  then have "(dm, fs) \<in> set (kr_fragments kb)" and "f \<in> set fs" using assms(2) by (auto simp: dget_or_def dest: map_of_SomeD)
  with assms(1) show ?thesis unfolding kb_consistent_def by fastforce
qed (use assms(2) in \<open>simp add: dget_or_def\<close>)

section \<open>What is chosen\<close>

text \<open>
  The knowledge base gives the best fragments of the domain. From a new base, loaded on the first request, the
  fragments chosen for an entity all belong to the domain, are at most as many as asked for, and no fragment of the domain
  that is left out fits the entity better than one that was taken.
\<close>

theorem best_fragments_chosen:
  assumes "f \<in> set (select_fragments (ensure_loaded (new_fragment_kb files)) dm entity n)"
    and "g \<in> set (dget_or (kr_fragments (ensure_loaded (new_fragment_kb files))) dm [])"
    and "g \<notin> set (select_fragments (ensure_loaded (new_fragment_kb files)) dm entity n)" and "0 \<le> n"
  shows "kf_domain f = dm \<and> fragment_score entity g \<le> fragment_score entity f
    \<and> length (select_fragments (ensure_loaded (new_fragment_kb files)) dm entity n) \<le> nat n"
proof -
  let ?kb = "ensure_loaded (new_fragment_kb files)"
  let ?xs = "sort_desc (fragment_score entity) (dget_or (kr_fragments ?kb) dm [])"
  have take: "select_fragments ?kb dm entity n = take (nat n) ?xs"
    using assms(4) by (simp add: select_fragments_def slice_to_def)
  have "g \<in> set ?xs" using assms(2) by simp
  then have "g \<in> set (drop (nat n) ?xs)"
    using assms(3) unfolding take by (metis Un_iff append_take_drop_id set_append)
  with assms(1) have "fragment_score entity g \<le> fragment_score entity f"
    unfolding take by (rule_tac sort_desc_take) 
  moreover have "f \<in> set (dget_or (kr_fragments ?kb) dm [])"
    using assms(1) unfolding take by (metis in_set_takeD set_sort_desc)
  then have "kf_domain f = dm" using domain_fragments load_consistent new_consistent by blast
  ultimately show ?thesis by (simp add: take)
qed

definition sample_kb :: "(string \<times> kb_data option) list option" where
  "sample_kb = Some [(''plastics'', Some (empty_data\<lparr>kd_fragments := Some
     [\<lparr>fe_id = Some ''a'', fe_content = Some ''general'', fe_keywords = None, fe_entity_types = None, fe_priority = Some 1\<rparr>,
      \<lparr>fe_id = Some ''b'', fe_content = Some ''recycling'', fe_keywords = Some [''recyc''], fe_entity_types = None, fe_priority = None\<rparr>]\<rparr>))]"

theorem best_fragments_chosen_witness:
  "\<exists>f g. map kf_id (select_fragments (ensure_loaded (new_fragment_kb sample_kb)) ''plastics'' [(''name'', PStr ''Recyclo'')] 1) = [''b'']
     \<and> kf_id f = ''b'' \<and> kf_id g = ''a'' \<and> kf_domain f = ''plastics''
     \<and> fragment_score [(''name'', PStr ''Recyclo'')] g \<le> fragment_score [(''name'', PStr ''Recyclo'')] f"
proof -
  let ?kb = "ensure_loaded (new_fragment_kb sample_kb)"
  let ?e = "[(''name'', PStr ''Recyclo'')]"
  have sel: "select_fragments ?kb ''plastics'' ?e 1 =
      [\<lparr>kf_id = ''b'', kf_domain = ''plastics'', kf_content = ''recycling'', kf_keywords = [''recyc''], kf_entity_types = [], kf_priority = 0\<rparr>]"
    by code_simp
  have all: "dget_or (kr_fragments ?kb) ''plastics'' [] =
      [\<lparr>kf_id = ''a'', kf_domain = ''plastics'', kf_content = ''general'', kf_keywords = [], kf_entity_types = [], kf_priority = 1\<rparr>,
       \<lparr>kf_id = ''b'', kf_domain = ''plastics'', kf_content = ''recycling'', kf_keywords = [''recyc''], kf_entity_types = [], kf_priority = 0\<rparr>]"
    by code_simp
  let ?a = "\<lparr>kf_id = ''a'', kf_domain = ''plastics'', kf_content = ''general'', kf_keywords = [], kf_entity_types = [], kf_priority = 1\<rparr>"
  let ?b = "\<lparr>kf_id = ''b'', kf_domain = ''plastics'', kf_content = ''recycling'', kf_keywords = [''recyc''], kf_entity_types = [], kf_priority = 0\<rparr>"
  have "kf_domain ?b = ''plastics'' \<and> fragment_score ?e ?a \<le> fragment_score ?e ?b
      \<and> length (select_fragments ?kb ''plastics'' ?e 1) \<le> nat 1"
    by (rule best_fragments_chosen) (simp_all add: sel all)
  with sel show ?thesis by (intro exI [of _ ?b] exI [of _ ?a]) simp
qed

lemma defaults_never_override:
  "dget (fold add_default_hint ds hints) k = (case dget hints k of Some v \<Rightarrow> Some v | None \<Rightarrow> dget (fold add_default_hint ds hints) k)"
proof -
  have "dget hints k = Some v \<Longrightarrow> dget (fold add_default_hint ds hints) k = Some v" for v
  proof (induction ds arbitrary: hints)
    case (Cons d ds)
    then have "dget (add_default_hint d hints) k = Some v" by (auto simp: add_default_hint_def dmem_def dget_dset)
    with Cons show ?case by simp
  qed simp
  then show ?thesis by (simp split: option.split)
qed

text \<open>A second file of the same domain replaces the first: its fragments are gone.\<close>

lemma second_file_replaces:
  "dget (kr_fragments (load_kb_file (s2, Some d2) (load_kb_file (s1, Some d1) kb))) dm
     = Some (map (make_fragment dm) (enumerate 0 (or_default (kd_fragments d2) [])))"
  if "kd_domain d1 = Some dm" and "kd_domain d2 = Some dm"
  using that by (simp add: load_kb_file_def or_default_def Let_def dget_dset)

end
