(* ===== verification/ContractEnforcement.thy ===== *)
theory ContractEnforcement
  imports PyValue
begin

text \<open>
  \<open>app/services/contract_enforcement.py\<close>, \<open>runtime_attestation.py\<close> and \<open>app/bootstrap/l9_contract_runtime.py\<close>:
  the check of a packet against the contract of its action, the packets the engine builds, the attestation of the
  contracts it runs under, and the gate at start-up. Of the packet class of the SDK the code reads the id, the action and
  the payload; what creates one is the parameter \<open>create\<close>. Digests are \<open>h\<close>; the constitution and the contracts of the
  dependencies are given as parsed.
\<close>

section \<open>Packets\<close>

record tpacket =
  tp_id :: string
  tp_action :: string
  tp_payload :: fields

datatype violation =
    NotAPacket
  | UnknownAction string
  | ActionMismatch string string
  | MissingField string string

definition action_aliases :: "(string, string) dict" where
  "action_aliases =
     [(''admin_command'', ''admin-command''), (''community_export'', ''community-export''), (''enrich_request'', ''enrich-request''),
      (''enrich_result'', ''enrich-result''), (''graph_inference_result'', ''graph-inference-result''), (''graph_sync'', ''graph-sync''),
      (''health_check'', ''health-check''), (''inference_result'', ''inference-result''), (''schema_proposal'', ''schema-proposal'')]"

definition allowed_actions :: "string list" where
  "allowed_actions = dvalues action_aliases"

definition required_payload_fields :: "(string, string list) dict" where
  "required_payload_fields =
     [(''admin-command'', [''subaction'']), (''community-export'', [''communities'']), (''enrich-request'', [''entity_id'']),
      (''enrich-result'', [''entity_id'', ''enriched_fields'']), (''graph-inference-result'', [''inference_outputs'']),
      (''graph-sync'', [''entity_type'', ''batch'']), (''health-check'', []), (''inference-result'', [''inference_outputs'']),
      (''schema-proposal'', [''proposed_fields''])]"

definition normalize_action :: "string \<Rightarrow> string" where
  "normalize_action name =
     (let n = py_lower (py_strip name) in dget_or action_aliases n (map (\<lambda>c. if c = CHR ''_'' then CHR ''-'' else c) n))"

fun check_required :: "string \<Rightarrow> fields \<Rightarrow> string list \<Rightarrow> violation + unit" where
  "check_required action payload [] = Inr ()"
| "check_required action payload (f # fs) =
     (case dget payload f of
        None \<Rightarrow> Inl (MissingField f action)
      | Some v \<Rightarrow> if v = PNone then Inl (MissingField f action) else check_required action payload fs)"

text \<open>\<open>None\<close> is an object that is no packet of the SDK.\<close>

definition enforce_transport_packet :: "tpacket option \<Rightarrow> string \<Rightarrow> violation + tpacket" where
  "enforce_transport_packet packet expected =
     (case packet of
        None \<Rightarrow> Inl NotAPacket
      | Some p \<Rightarrow>
          (let ty = normalize_action expected in
           if ty \<notin> set allowed_actions then Inl (UnknownAction ty)
           else if tp_action p \<noteq> ty then Inl (ActionMismatch ty (tp_action p))
           else bind_res (check_required ty (tp_payload p) (dget_or required_payload_fields ty [])) (\<lambda>_. Inr p)))"

record packet_args =
  pa_action :: string
  pa_payload :: fields
  pa_tenant :: string
  pa_tags :: "string list"

type_synonym packet_maker = "packet_args \<Rightarrow> tpacket"

definition build_graph_sync_packet :: "packet_maker \<Rightarrow> string \<Rightarrow> string \<Rightarrow> fields list \<Rightarrow> violation + tpacket" where
  "build_graph_sync_packet create tenant entity_type batch =
     enforce_transport_packet (Some (create
       \<lparr>pa_action = ''graph-sync'', pa_payload = [(''entity_type'', PStr entity_type), (''batch'', PList (map PDict batch))],
        pa_tenant = tenant, pa_tags = [''GRAPH_SYNC'']\<rparr>)) ''graph_sync''"

definition build_schema_proposal_packet :: "packet_maker \<Rightarrow> string \<Rightarrow> fields list \<Rightarrow> string \<Rightarrow> violation + tpacket" where
  "build_schema_proposal_packet create tenant proposed provenance =
     enforce_transport_packet (Some (create
       \<lparr>pa_action = ''schema-proposal'', pa_payload = [(''proposed_fields'', PList (map PDict proposed)), (''provenance'', PStr provenance)],
        pa_tenant = tenant, pa_tags = [''SCHEMA_EVOLUTION'']\<rparr>)) ''schema_proposal''"

definition build_enrich_result_packet :: "packet_maker \<Rightarrow> string \<Rightarrow> string \<Rightarrow> fields \<Rightarrow> f64 \<Rightarrow> int \<Rightarrow> violation + tpacket" where
  "build_enrich_result_packet create tenant entity_id enriched confidence passes =
     enforce_transport_packet (Some (create
       \<lparr>pa_action = ''enrich-result'',
        pa_payload = [(''entity_id'', PStr entity_id), (''enriched_fields'', PDict enriched), (''confidence'', PFloat confidence),
                      (''pass_count'', PInt passes)],
        pa_tenant = tenant, pa_tags = [''ENRICH_RESULT'']\<rparr>)) ''enrich_result''"

text \<open>
  The contract check accepts exactly the packets that keep the contract. A packet passes, unchanged, if and only if the expected
  type names a known action, in whatever case and with underscores or hyphens, the packet has that action, and every field the action
  requires is there and not null. Otherwise the violation names the first reason.
\<close>

theorem enforce_exact:
  "enforce_transport_packet (Some p) expected =
     (let ty = normalize_action expected; fs = dget_or required_payload_fields ty [];
          absent = filter (\<lambda>f. dget_or (tp_payload p) f PNone = PNone) fs in
      if ty \<notin> set allowed_actions then Inl (UnknownAction ty)
      else if tp_action p \<noteq> ty then Inl (ActionMismatch ty (tp_action p))
      else case absent of [] \<Rightarrow> Inr p | f # _ \<Rightarrow> Inl (MissingField f ty))"
proof -
  have "check_required a payload fs =
      (case filter (\<lambda>f. dget_or payload f PNone = PNone) fs of [] \<Rightarrow> Inr () | f # _ \<Rightarrow> Inl (MissingField f a))" for a payload fs
    by (induction fs) (auto simp: dget_or_def split: option.split)
  then show ?thesis by (simp add: enforce_transport_packet_def Let_def split: list.split)
qed

definition faithful_maker :: "packet_maker \<Rightarrow> bool" where
  "faithful_maker create \<longleftrightarrow> (\<forall>a. tp_action (create a) = pa_action a \<and> tp_payload (create a) = pa_payload a)"

lemma known_types:
  "normalize_action ''graph_sync'' = ''graph-sync''" "normalize_action ''schema_proposal'' = ''schema-proposal''"
  "normalize_action ''enrich_result'' = ''enrich-result''" "{''graph-sync'', ''schema-proposal'', ''enrich-result''} \<subseteq> set allowed_actions"
  by code_simp+

text \<open>
  What the engine builds passes its own check. Where the SDK creates a packet with the action and payload it was given, the three
  builders return that packet for every tenant and content; none of them can raise a contract violation.
\<close>

theorem built_packets_accepted:
  assumes "faithful_maker create"
  shows "\<not> isl (build_graph_sync_packet create tenant entity_type batch)
    \<and> \<not> isl (build_schema_proposal_packet create tenant proposed provenance)
    \<and> \<not> isl (build_enrich_result_packet create tenant entity_id enriched confidence passes)"
  using assms known_types
  by (auto simp: build_graph_sync_packet_def build_schema_proposal_packet_def build_enrich_result_packet_def
      enforce_transport_packet_def faithful_maker_def required_payload_fields_def dget_or_def Let_def)

theorem built_packets_accepted_witness:
  "\<not> isl (build_graph_sync_packet (\<lambda>a. \<lparr>tp_id = ''1'', tp_action = pa_action a, tp_payload = pa_payload a\<rparr>) ''acme'' ''account'' [])"
proof -
  have "faithful_maker (\<lambda>a. \<lparr>tp_id = ''1'', tp_action = pa_action a, tp_payload = pa_payload a\<rparr>)" by (simp add: faithful_maker_def)
  from built_packets_accepted [OF this] show ?thesis by blast
qed

section \<open>Attestation\<close>

record node_dependency =
  dy_required :: bool
  dy_degraded :: "string list"

record node_constitution =
  cn_id :: string
  cn_version :: string
  cn_contract_version :: string
  cn_tracked :: "string list"
  cn_actions :: "string list"
  cn_tools :: "string list"
  cn_events :: "string list"
  cn_dependencies :: "(string, node_dependency) dict"
  cn_policy :: string

record readiness =
  rd_required :: bool
  rd_ready :: bool
  rd_env :: "string list"
  rd_missing :: "string list"

definition tracked_hashes :: "(string \<Rightarrow> string) \<Rightarrow> string list \<Rightarrow> (string, string) dict" where
  "tracked_hashes file_hash paths = fold (\<lambda>p d. dset p (file_hash p) d) paths []"

text \<open>What is fed to the digest: the paths in order, each with the digest of its file.\<close>

definition contract_text :: "(string, string) dict \<Rightarrow> string" where
  "contract_text hashes =
     concat (map (\<lambda>p. p @ '':'' @ dget_or hashes p [] @ '';'') (sort (dkeys hashes)))"

definition contract_digest :: "(string \<Rightarrow> string) \<Rightarrow> (string, string) dict \<Rightarrow> string" where
  "contract_digest h hashes = h (contract_text hashes)"

definition text_item :: "pyval \<Rightarrow> string list" where
  "text_item v = (case v of PStr (c # cs) \<Rightarrow> [c # cs] | _ \<Rightarrow> [])"

definition collect_env_vars :: "fields \<Rightarrow> string list" where
  "collect_env_vars contract =
     sort (remdups (
       concat (map (\<lambda>k. text_item (dget_or contract k PNone))
         [''connection_env'', ''base_url_env'', ''user_env'', ''password_env'', ''database_env''])
       @ (case dget_or contract ''auth_env_vars'' PNone of PList vs \<Rightarrow> concat (map text_item vs) | _ \<Rightarrow> [])))"

definition env_set :: "(string \<Rightarrow> string option) \<Rightarrow> string \<Rightarrow> bool" where
  "env_set env k = (case env k of None \<Rightarrow> False | Some v \<Rightarrow> v \<noteq> [])"

text \<open>\<open>index\<close> gives the contract of a dependency that the index lists.\<close>

definition env_readiness :: "(string \<Rightarrow> string option) \<Rightarrow> (string, fields) dict \<Rightarrow> string \<times> node_dependency \<Rightarrow> readiness" where
  "env_readiness env index nd =
     (let vars = (case dget index (fst nd) of None \<Rightarrow> [] | Some c \<Rightarrow> collect_env_vars c);
          missing = filter (\<lambda>k. \<not> env_set env k) vars
      in \<lparr>rd_required = dy_required (snd nd), rd_ready = (missing = [] \<or> vars = []), rd_env = vars, rd_missing = missing\<rparr>)"

definition dependency_readiness ::
    "(string \<Rightarrow> string option) \<Rightarrow> (string, fields) dict \<Rightarrow> (string, node_dependency) dict \<Rightarrow> (string, readiness) dict \<times> string list" where
  "dependency_readiness env index deps =
     (map (\<lambda>nd. (fst nd, env_readiness env index nd)) deps,
      sort (remdups (concat (map (\<lambda>nd. if rd_ready (env_readiness env index nd) then [] else dy_degraded (snd nd)) deps))))"

record attestation =
  at_node :: string
  at_version :: string
  at_contract_version :: string
  at_digest :: string
  at_hashes :: "(string, string) dict"
  at_actions :: "string list"
  at_tools :: "string list"
  at_events :: "string list"
  at_dependencies :: "(string, readiness) dict"
  at_degraded :: "string list"
  at_policy :: string

definition build_runtime_attestation ::
    "(string \<Rightarrow> string) \<Rightarrow> (string \<Rightarrow> string) \<Rightarrow> (string \<Rightarrow> string option) \<Rightarrow> (string, fields) dict \<Rightarrow> node_constitution \<Rightarrow> attestation" where
  "build_runtime_attestation h file_hash env index c =
     (let hashes = tracked_hashes file_hash (cn_tracked c); (ready, degraded) = dependency_readiness env index (cn_dependencies c) in
      \<lparr>at_node = cn_id c, at_version = cn_version c, at_contract_version = cn_contract_version c,
       at_digest = contract_digest h hashes, at_hashes = hashes, at_actions = sort (cn_actions c), at_tools = sort (cn_tools c),
       at_events = sort (cn_events c), at_dependencies = ready, at_degraded = degraded, at_policy = cn_policy c\<rparr>)"

section \<open>The gate at start-up\<close>

record contract_state =
  cs_node :: string
  cs_version :: string
  cs_contract_version :: string
  cs_digest :: string
  cs_policy :: string
  cs_degraded :: "string list"

text \<open>The two verifications are those of the control script: whether they pass and what they report.\<close>

definition startup_validation :: "bool \<times> string list \<Rightarrow> bool \<times> string list \<Rightarrow> attestation \<Rightarrow> string + contract_state" where
  "startup_validation verify_constitution verify_attestation a =
     (if \<not> fst verify_constitution
      then Inl (''constitution verification failed at startup: '' @ join ''; '' (snd verify_constitution))
      else if \<not> fst verify_attestation
      then Inl (''runtime attestation verification failed at startup: '' @ join ''; '' (snd verify_attestation))
      else Inr \<lparr>cs_node = at_node a, cs_version = at_version a, cs_contract_version = at_contract_version a, cs_digest = at_digest a,
                cs_policy = at_policy a, cs_degraded = at_degraded a\<rparr>)"

definition get_contract_runtime_state :: "contract_state option \<Rightarrow> string + contract_state" where
  "get_contract_runtime_state s =
     (case s of None \<Rightarrow> Inl ''L9 contract runtime controls not installed or not initialized'' | Some x \<Rightarrow> Inr x)"

section \<open>What an attestation says\<close>

lemma tracked_lookup: "dget (tracked_hashes file_hash paths) p = (if p \<in> set paths then Some (file_hash p) else None)"
proof -
  have "dget (fold (\<lambda>p d. dset p (file_hash p) d) paths d) p = (if p \<in> set paths then Some (file_hash p) else dget d p)" for d
    by (induction paths arbitrary: d) (auto simp: dget_dset)
  from this [of "[]"] show ?thesis by (simp add: tracked_hashes_def)
qed

lemma tracked_keys: "set (dkeys (tracked_hashes file_hash paths)) = set paths"
  using tracked_lookup [of file_hash paths] by (metis (mono_tags, opaque_lifting) dmem_def dmem_iff option.distinct(1) subsetI subset_antisym)

lemma tracked_distinct: "dict_ok (tracked_hashes file_hash paths)"
proof -
  have "dict_ok d \<Longrightarrow> dict_ok (fold (\<lambda>p d. dset p (file_hash p) d) paths d)" for d
    by (induction paths arbitrary: d) (simp_all add: alist.ok_put)
  then show ?thesis by (simp add: tracked_hashes_def)
qed

definition plain_path :: "string \<Rightarrow> bool" where
  "plain_path p \<longleftrightarrow> CHR '':'' \<notin> set p"

definition plain_hash :: "string \<Rightarrow> bool" where
  "plain_hash p \<longleftrightarrow> CHR '';'' \<notin> set p"

lemma split_at_first:
  assumes "c \<notin> set u" and "c \<notin> set u'" and "u @ c # v = u' @ c # v'"
  shows "u = u' \<and> v = v'"
  using assms by (induction u arbitrary: u') (case_tac u', auto)+

text \<open>The text determines the paths and their digests, since a path has no colon and a digest no semicolon.\<close>

lemma items_determined:
  assumes "concat (map (\<lambda>(p, d). p @ '':'' @ d @ '';'') xs) = concat (map (\<lambda>(p, d). p @ '':'' @ d @ '';'') ys)"
    and "\<forall>(p, d) \<in> set xs \<union> set ys. plain_path p \<and> plain_hash d"
  shows "xs = ys"
  using assms
proof (induction xs arbitrary: ys)
  case Nil
  then show ?case by (cases ys) auto
next
  case (Cons x xs)
  obtain p d where x: "x = (p, d)" by (cases x)
  from Cons.prems(1) x obtain y ys' where ys: "ys = y # ys'" by (cases ys) auto
  obtain p' d' where y: "y = (p', d')" by (cases y)
  let ?t = "\<lambda>xs. concat (map (\<lambda>(p, d). p @ '':'' @ d @ '';'') xs)"
  have "p @ CHR '':'' # (d @ CHR '';'' # ?t xs) = p' @ CHR '':'' # (d' @ CHR '';'' # ?t ys')"
    using Cons.prems(1) x y ys by simp
  moreover have "CHR '':'' \<notin> set p" "CHR '':'' \<notin> set p'" "CHR '';'' \<notin> set d" "CHR '';'' \<notin> set d'"
    using Cons.prems(2) x y ys by (auto simp: plain_path_def plain_hash_def)
  ultimately have "p = p'" and "d @ CHR '';'' # ?t xs = d' @ CHR '';'' # ?t ys'" by (auto dest: split_at_first)
  with \<open>CHR '';'' \<notin> set d\<close> \<open>CHR '';'' \<notin> set d'\<close> have "d = d'" "?t xs = ?t ys'" by (auto dest: split_at_first)
  moreover have "xs = ys'" using Cons.IH [OF \<open>?t xs = ?t ys'\<close>] Cons.prems(2) ys by auto
  ultimately show ?case using x y ys \<open>p = p'\<close> by simp
qed

lemma contract_text_items:
  "contract_text (tracked_hashes fh paths) = concat (map (\<lambda>(p, d). p @ '':'' @ d @ '';'') (map (\<lambda>p. (p, fh p)) (sort (dkeys (tracked_hashes fh paths)))))"
proof -
  define ks where "ks = sort (dkeys (tracked_hashes fh paths))"
  have "set ks = set paths" by (simp add: ks_def tracked_keys del: set_map)
  then have "\<forall>p \<in> set ks. dget_or (tracked_hashes fh paths) p [] = fh p" by (simp add: dget_or_def tracked_lookup)
  then have "map (\<lambda>p. p @ '':'' @ dget_or (tracked_hashes fh paths) p [] @ '';'') ks = map (\<lambda>p. p @ '':'' @ fh p @ '';'') ks"
    by (intro map_cong) auto
  from arg_cong [OF this, of concat] show ?thesis unfolding contract_text_def ks_def [symmetric] by (simp add: comp_def)
qed

text \<open>
  The attested digest pins the contracts. Two nodes whose digests agree, under a hash without collision on the texts it is given, track the
  same contract files with the same content: adding, dropping or changing one of them changes the digest. It needs that no
  path holds a colon and no file digest a semicolon.
\<close>

theorem digest_pins_contracts:
  assumes "at_digest (build_runtime_attestation h fh env index c) = at_digest (build_runtime_attestation h fh' env' index' c')"
    and "inj h" and "\<forall>p \<in> set (cn_tracked c) \<union> set (cn_tracked c'). plain_path p \<and> plain_hash (fh p) \<and> plain_hash (fh' p)"
  shows "set (cn_tracked c) = set (cn_tracked c') \<and> (\<forall>p \<in> set (cn_tracked c). fh p = fh' p)"
proof -
  define ks ks' where "ks = sort (dkeys (tracked_hashes fh (cn_tracked c)))" and "ks' = sort (dkeys (tracked_hashes fh' (cn_tracked c')))"
  have sets: "set ks = set (cn_tracked c)" "set ks' = set (cn_tracked c')" by (simp_all add: ks_def ks'_def tracked_keys del: set_map)
  have "contract_text (tracked_hashes fh (cn_tracked c)) = contract_text (tracked_hashes fh' (cn_tracked c'))"
    using assms(1,2) by (auto simp: build_runtime_attestation_def contract_digest_def Let_def inj_eq split: prod.splits)
  then have m: "map (\<lambda>p. (p, fh p)) ks = map (\<lambda>p. (p, fh' p)) ks'"
    unfolding contract_text_items ks_def [symmetric] ks'_def [symmetric] by (rule items_determined) (use assms(3) sets in auto)
  from arg_cong [OF m, of "map fst"] have "ks = ks'" by (simp add: comp_def)
  with m sets show ?thesis by auto
qed

theorem digest_pins_contracts_witness:
  "(let c = \<lparr>cn_id = ''eie'', cn_version = ''1'', cn_contract_version = ''1'', cn_tracked = [''b.yaml'', ''a.yaml''], cn_actions = [], cn_tools = [],
      cn_events = [], cn_dependencies = [], cn_policy = ''strict''\<rparr> in
    at_digest (build_runtime_attestation id (\<lambda>p. ''00'') (\<lambda>_. None) [] c) = ''a.yaml:00;b.yaml:00;''
    \<and> set (cn_tracked c) = {''a.yaml'', ''b.yaml''})"
proof -
  let ?c = "\<lparr>cn_id = ''eie'', cn_version = ''1'', cn_contract_version = ''1'', cn_tracked = [''b.yaml'', ''a.yaml''], cn_actions = [], cn_tools = [],
      cn_events = [], cn_dependencies = [], cn_policy = ''strict''\<rparr> :: node_constitution"
  have "set (cn_tracked ?c) = set (cn_tracked (?c\<lparr>cn_tracked := [''a.yaml'', ''b.yaml'']\<rparr>))
      \<and> (\<forall>p \<in> set (cn_tracked ?c). (\<lambda>p. ''00'') p = (\<lambda>p. ''00'') p)"
    by (rule digest_pins_contracts [where h = id and env = "\<lambda>_. None" and index = "[]" and env' = "\<lambda>_. None" and index' = "[]"])
      (code_simp | simp add: plain_path_def plain_hash_def)+
  moreover have "at_digest (build_runtime_attestation id (\<lambda>p. ''00'') (\<lambda>_. None) [] ?c) = ''a.yaml:00;b.yaml:00;''" by code_simp
  ultimately show ?thesis by (auto simp: Let_def)
qed
end
