(* ===== verification/Chassis.thy ===== *)
theory Chassis
  imports PyValue
begin

text \<open>
  \<open>chassis/envelope.py\<close>, \<open>app/services/event_emitter.py\<close> and \<open>audit_persistence.py\<close>: the envelope around a request and its
  answer, the events published beside the work, and the audit log. The digest of action, payload and tenant is the
  parameter \<open>h\<close> (SHA-256 of their canonical JSON); fresh ids and times are arguments. The outcome of publishing an event is an
  argument of the step that finishes it. The audit table is a list of rows; a query is kept as its clauses with the numbers of
  their placeholders.
\<close>

section \<open>Envelopes\<close>

type_synonym envelope_hash = "pyval \<Rightarrow> fields \<Rightarrow> pyval \<Rightarrow> string"

text \<open>\<open>d.get(k, default)\<close> where the default is itself looked up.\<close>

definition tenant_name :: "pyval \<Rightarrow> pyerr + pyval" where
  "tenant_name t = (case t of PStr s \<Rightarrow> Inr (PStr s) | _ \<Rightarrow> py_get t ''actor'' (PStr ''unknown''))"

definition hop :: "string \<Rightarrow> string \<Rightarrow> string \<Rightarrow> pyval" where
  "hop action status now =
     PDict [(''node'', PStr ''enrichment-engine''), (''action'', PStr action), (''status'', PStr status), (''timestamp'', PStr now)]"

definition origin_lineage :: "string \<Rightarrow> pyval" where
  "origin_lineage pid =
     PDict [(''parent_ids'', PList []), (''root_id'', PStr pid), (''generation'', PInt 0), (''derivation_type'', PStr ''origin'')]"

definition default_governance :: "pyval \<Rightarrow> pyval" where
  "default_governance action = PDict [(''intent'', action), (''audit_required'', PBool False), (''compliance_tags'', PList [])]"

definition inflate_ingress :: "envelope_hash \<Rightarrow> string \<Rightarrow> string \<Rightarrow> fields \<Rightarrow> pyerr + fields" where
  "inflate_ingress h pid now raw =
     (let action = dget_or raw ''action'' PNone in
      if \<not> truthy action then Inl ValueError
      else (case dget_or raw ''payload'' PNone of
        PDict payload \<Rightarrow>
          bind_res (tenant_name (dget_or raw ''tenant'' (PStr ''unknown''))) (\<lambda>tenant.
            let computed = h action payload tenant; provided = dget_or raw ''content_hash'' PNone in
            if truthy provided \<and> provided \<noteq> PStr computed then Inl ValueError
            else Inr
              [(''packet_id'', PStr pid), (''packet_type'', PStr ''enrichment_request''), (''action'', action), (''payload'', PDict payload),
               (''timestamp'', PStr now), (''content_hash'', PStr computed),
               (''address'', PDict [(''source_node'', dget_or raw ''source_node'' (PStr ''unknown'')),
                                    (''destination_node'', PStr ''enrichment-engine''),
                                    (''reply_to'', dget_or raw ''reply_to'' (dget_or raw ''source_node'' (PStr ''unknown'')))]),
               (''tenant'', PDict [(''actor'', tenant), (''on_behalf_of'', dget_or raw ''on_behalf_of'' tenant),
                                   (''originator'', dget_or raw ''originator'' tenant), (''org_id'', dget_or raw ''org_id'' tenant),
                                   (''user_id'', dget_or raw ''user_id'' PNone)]),
               (''lineage'', dget_or raw ''lineage'' (origin_lineage pid)),
               (''governance'', dget_or raw ''governance'' (default_governance action)),
               (''hop_trace'', PList [hop ''receive'' ''received'' now]),
               (''delegation_chain'', dget_or raw ''delegation_chain'' (PList []))])
      | _ \<Rightarrow> Inl ValueError))"

definition index_of :: "fields \<Rightarrow> string \<Rightarrow> pyerr + pyval" where
  "index_of d k = (case dget d k of None \<Rightarrow> Inl KeyError | Some v \<Rightarrow> Inr v)"

text \<open>\<open>n + 1\<close> of a value.\<close>

definition next_generation :: "pyval \<Rightarrow> pyerr + pyval" where
  "next_generation v =
     (case v of PInt n \<Rightarrow> Inr (PInt (n + 1)) | PBool b \<Rightarrow> Inr (PInt (if b then 2 else 1)) | PFloat x \<Rightarrow> Inr (PFloat (x + 1)) | _ \<Rightarrow> Inl TypeError)"

text \<open>\<open>dict(v)\<close>: a list is read as pairs. A pair whose key is no text is outside the model and counted as an error.\<close>

fun pairs_to_dict :: "pyval list \<Rightarrow> fields \<Rightarrow> pyerr + fields" where
  "pairs_to_dict [] d = Inr d"
| "pairs_to_dict (x # xs) d =
     (case x of
        PList [PStr k, v] \<Rightarrow> pairs_to_dict xs (dset k v d)
      | PStr [a, b] \<Rightarrow> pairs_to_dict xs (dset [a] (PStr [b]) d)
      | PList _ \<Rightarrow> Inl ValueError | PStr _ \<Rightarrow> Inl ValueError | PDict _ \<Rightarrow> Inl ValueError | _ \<Rightarrow> Inl TypeError)"

definition dict_of :: "pyval \<Rightarrow> pyerr + fields" where
  "dict_of v = (case v of PDict d \<Rightarrow> Inr d | PList xs \<Rightarrow> pairs_to_dict xs [] | PStr [] \<Rightarrow> Inr [] | PStr _ \<Rightarrow> Inl ValueError | _ \<Rightarrow> Inl TypeError)"

definition actor_of :: "pyval \<Rightarrow> pyerr + pyval" where
  "actor_of tenant = (case tenant of PDict t \<Rightarrow> index_of t ''actor'' | _ \<Rightarrow> Inl TypeError)"

definition deflate_egress :: "envelope_hash \<Rightarrow> string \<Rightarrow> string \<Rightarrow> fields \<Rightarrow> fields \<Rightarrow> pyerr + fields" where
  "deflate_egress h pid now env response =
     bind_res (dict_of (dget_or env ''lineage'' (PDict []))) (\<lambda>l0.
     bind_res (index_of env ''packet_id'') (\<lambda>parent.
     let l1 = dset ''parent_ids'' (PList [parent]) l0 in
     bind_res (next_generation (dget_or l1 ''generation'' (PInt 0))) (\<lambda>gen.
     bind_res (py_iter (dget_or env ''hop_trace'' (PList []))) (\<lambda>hops.
     bind_res (index_of env ''action'') (\<lambda>action.
     bind_res (index_of env ''tenant'') (\<lambda>tenant.
     bind_res (actor_of tenant) (\<lambda>actor.
     bind_res (index_of env ''address'') (\<lambda>address.
     bind_res (py_get address ''reply_to'' (PStr ''unknown'')) (\<lambda>reply_to.
       Inr [(''packet_id'', PStr pid), (''packet_type'', PStr ''enrichment_result''), (''action'', action), (''payload'', PDict response),
            (''timestamp'', PStr now), (''content_hash'', PStr (h action response actor)),
            (''address'', PDict [(''source_node'', PStr ''enrichment-engine''), (''destination_node'', reply_to),
                                 (''reply_to'', PStr ''enrichment-engine'')]),
            (''tenant'', tenant), (''lineage'', PDict (dset ''generation'' gen l1)),
            (''governance'', dget_or env ''governance'' (PDict [])),
            (''hop_trace'', PList (hops @ [hop ''respond'' ''ok'' now])),
            (''delegation_chain'', dget_or env ''delegation_chain'' (PList []))])))))))))"

lemma inflate_parts:
  assumes "inflate_ingress h pid now raw = Inr env"
  obtains action payload tenant where "truthy action" "dget_or raw ''payload'' PNone = PDict payload"
    "dget env ''action'' = Some action" "dget env ''packet_id'' = Some (PStr pid)" "dget env ''payload'' = Some (PDict payload)"
    "\<exists>t. dget env ''tenant'' = Some (PDict ((''actor'', tenant) # t))"
    "dget env ''content_hash'' = Some (PStr (h action payload tenant))"
    "\<exists>a. dget env ''address'' = Some (PDict a)" "dget env ''hop_trace'' = Some (PList [hop ''receive'' ''received'' now])"
    "dget env ''lineage'' = Some (dget_or raw ''lineage'' (origin_lineage pid))"
  using assms by (auto simp: inflate_ingress_def Let_def bind_res_Inr_iff split: if_splits pyval.splits)

lemma deflate_shape:
  assumes "deflate_egress h pid now env response = Inr out"
  obtains action tenant actor l0 gen hops reply_to parent where
    "index_of env ''action'' = Inr action" "index_of env ''tenant'' = Inr tenant" "actor_of tenant = Inr actor"
    "dict_of (dget_or env ''lineage'' (PDict [])) = Inr l0" "index_of env ''packet_id'' = Inr parent"
    "next_generation (dget_or (dset ''parent_ids'' (PList [parent]) l0) ''generation'' (PInt 0)) = Inr gen"
    "py_iter (dget_or env ''hop_trace'' (PList [])) = Inr hops"
    "out = [(''packet_id'', PStr pid), (''packet_type'', PStr ''enrichment_result''), (''action'', action), (''payload'', PDict response),
            (''timestamp'', PStr now), (''content_hash'', PStr (h action response actor)),
            (''address'', PDict [(''source_node'', PStr ''enrichment-engine''), (''destination_node'', reply_to),
                                 (''reply_to'', PStr ''enrichment-engine'')]),
            (''tenant'', tenant), (''lineage'', PDict (dset ''generation'' gen (dset ''parent_ids'' (PList [parent]) l0))),
            (''governance'', dget_or env ''governance'' (PDict [])),
            (''hop_trace'', PList (hops @ [hop ''respond'' ''ok'' now])),
            (''delegation_chain'', dget_or env ''delegation_chain'' (PList []))]"
  using assms unfolding deflate_egress_def Let_def bind_res_Inr_iff by (elim exE conjE) (rule that, assumption+, drule sum.inject(2) [THEN iffD1], erule sym)

lemma index_of_Inr: "index_of d k = Inr v \<longleftrightarrow> dget d k = Some v"
  by (simp add: index_of_def split: option.split)

section \<open>Routing a request\<close>

text \<open>A handler takes the tenant and the payload; that none is registered is a \<open>KeyError\<close>, and what it raises passes through.\<close>

definition route_packet ::
    "envelope_hash \<Rightarrow> string \<times> string \<Rightarrow> string \<times> string \<Rightarrow> (pyval \<Rightarrow> (pyval \<Rightarrow> fields \<Rightarrow> pyerr + fields) option) \<Rightarrow> fields \<Rightarrow> pyerr + fields" where
  "route_packet h idnow1 idnow2 registry raw =
     bind_res (inflate_ingress h (fst idnow1) (snd idnow1) raw) (\<lambda>env.
     bind_res (index_of env ''action'') (\<lambda>action.
     bind_res (index_of env ''tenant'') (\<lambda>t. bind_res (actor_of t) (\<lambda>tenant.
     bind_res (index_of env ''payload'') (\<lambda>pv.
       case (registry action, pv) of
         (Some handler, PDict payload) \<Rightarrow>
           bind_res (handler tenant payload) (\<lambda>response. deflate_egress h (fst idnow2) (snd idnow2) env response)
       | _ \<Rightarrow> Inl KeyError)))))"

lemma deflated_accepted:
  assumes "deflate_egress h pid now env response = Inr out" and "dget env ''action'' = Some action" and "truthy action"
  shows "\<exists>again. inflate_ingress h pid' now' out = Inr again \<and> dget again ''payload'' = Some (PDict response)
    \<and> dget again ''content_hash'' = dget out ''content_hash''"
  using assms(1)
proof (cases rule: deflate_shape)
  case (1 act tenant actor l0 gen hops reply_to parent)
  then have act: "act = action" using assms(2) by (simp add: index_of_Inr)
  have "tenant_name tenant = Inr actor"
    using 1(3) by (auto simp: actor_of_def tenant_name_def py_get_def index_of_Inr dget_or_def split: pyval.splits)
  with assms(3) act show ?thesis unfolding 1(8) by (simp add: inflate_ingress_def dget_or_def Let_def)
qed

lemma route_parts:
  assumes "route_packet h i1 i2 registry raw = Inr out"
  obtains env action handler tenant payload response where "inflate_ingress h (fst i1) (snd i1) raw = Inr env" "dget env ''action'' = Some action"
    "registry action = Some handler" "handler tenant payload = Inr response" "deflate_egress h (fst i2) (snd i2) env response = Inr out"
proof -
  from assms obtain env action pv tenant where e: "inflate_ingress h (fst i1) (snd i1) raw = Inr env" "dget env ''action'' = Some action"
    and r: "(case (registry action, pv) of
         (Some handler, PDict payload) \<Rightarrow>
           bind_res (handler tenant payload) (\<lambda>response. deflate_egress h (fst i2) (snd i2) env response)
       | _ \<Rightarrow> Inl KeyError) = Inr out"
    unfolding route_packet_def bind_res_Inr_iff index_of_Inr by blast
  from r obtain handler where "registry action = Some handler" by (cases "registry action") auto
  with r e that show ?thesis by (cases pv) (auto simp: bind_res_Inr_iff)
qed

text \<open>
  An answer arrives intact. Whatever the handler returned, the envelope the router sends back is accepted by a node that
  inflates it: the digest it carries verifies for the action, the response and the tenant, the receiver reads the handler's
  response as its payload, and the chain of origin names the request it answers.
\<close>

theorem routed_answer_is_accepted:
  assumes "route_packet h i1 i2 registry raw = Inr out"
  shows "\<exists>env response again. inflate_ingress h (fst i1) (snd i1) raw = Inr env
    \<and> deflate_egress h (fst i2) (snd i2) env response = Inr out
    \<and> inflate_ingress h pid now out = Inr again \<and> dget again ''payload'' = Some (PDict response)
    \<and> dget again ''content_hash'' = dget out ''content_hash''
    \<and> (\<exists>l. dget again ''lineage'' = Some (PDict l) \<and> dget l ''parent_ids'' = Some (PList [PStr (fst i1)]))"
  using assms
proof (cases rule: route_parts)
  case (1 env action handler tenant payload response)
  from 1(1) have e: "truthy action" "dget env ''packet_id'' = Some (PStr (fst i1))"
    using 1(2) by (auto elim!: inflate_parts)
  from deflated_accepted [OF 1(5) 1(2) e(1), of pid now] obtain again where
    a: "inflate_ingress h pid now out = Inr again" "dget again ''payload'' = Some (PDict response)"
      "dget again ''content_hash'' = dget out ''content_hash''" by blast
  from 1(5) obtain l where l: "dget out ''lineage'' = Some (PDict l)" "dget l ''parent_ids'' = Some (PList [PStr (fst i1)])"
  proof (cases rule: deflate_shape)
    case (1 act tenant actor l0 gen hops reply_to parent)
    with e(2) that show ?thesis by (simp add: index_of_Inr dget_dset)
  qed
  from a(1) have "dget again ''lineage'' = Some (PDict l)"
    using l(1) by (elim inflate_parts) (simp add: dget_or_def)
  with 1(1,5) a l(2) show ?thesis by blast
qed

theorem routed_answer_is_accepted_witness:
  "\<exists>out again response. route_packet (\<lambda>a p t. py_str a @ py_str t) (''p1'', ''t1'') (''p2'', ''t2'')
      (\<lambda>a. if a = PStr ''enrich'' then Some (\<lambda>t p. Inr [(''state'', PStr ''completed'')]) else None)
      [(''action'', PStr ''enrich''), (''payload'', PDict []), (''tenant'', PStr ''acme'')] = Inr out
    \<and> inflate_ingress (\<lambda>a p t. py_str a @ py_str t) ''p3'' ''t3'' out = Inr again \<and> dget again ''payload'' = Some (PDict response)"
proof -
  have "\<not> isl (route_packet (\<lambda>a p t. py_str a @ py_str t) (''p1'', ''t1'') (''p2'', ''t2'')
      (\<lambda>a. if a = PStr ''enrich'' then Some (\<lambda>t p. Inr [(''state'', PStr ''completed'')]) else None)
      [(''action'', PStr ''enrich''), (''payload'', PDict []), (''tenant'', PStr ''acme'')])" by code_simp
  then obtain out where out: "route_packet (\<lambda>a p t. py_str a @ py_str t) (''p1'', ''t1'') (''p2'', ''t2'')
      (\<lambda>a. if a = PStr ''enrich'' then Some (\<lambda>t p. Inr [(''state'', PStr ''completed'')]) else None)
      [(''action'', PStr ''enrich''), (''payload'', PDict []), (''tenant'', PStr ''acme'')] = Inr out"
    by (metis sum.collapse(2))
  from routed_answer_is_accepted [OF out, of "''p3''" "''t3''"] out show ?thesis by blast
qed

section \<open>Events\<close>

datatype event_type =
    EnrichmentCompleted | EnrichmentFailed | ConvergenceCompleted | SchemaProposed | ScoreInvalidated | EntityUpdated

fun event_name :: "event_type \<Rightarrow> string" where
  "event_name EnrichmentCompleted = ''enrichment_completed''"
| "event_name EnrichmentFailed = ''enrichment_failed''"
| "event_name ConvergenceCompleted = ''convergence_completed''"
| "event_name SchemaProposed = ''schema_proposed''"
| "event_name ScoreInvalidated = ''score_invalidated''"
| "event_name EntityUpdated = ''entity_updated''"

record enrichment_event =
  ev_type :: event_type
  ev_entity :: string
  ev_tenant :: string
  ev_domain :: "string option"
  ev_payload :: fields
  ev_correlation :: string
  ev_occurred :: string

definition stream_entry :: "(pyval \<Rightarrow> string) \<Rightarrow> enrichment_event \<Rightarrow> (string, string) dict" where
  "stream_entry dump e =
     [(''event_type'', event_name (ev_type e)), (''entity_id'', ev_entity e), (''tenant_id'', ev_tenant e),
      (''domain'', case ev_domain e of None \<Rightarrow> [] | Some d \<Rightarrow> d), (''correlation_id'', ev_correlation e),
      (''occurred_at'', ev_occurred e), (''payload'', dump (PDict (ev_payload e)))]"

definition stream_key :: "string \<Rightarrow> string" where
  "stream_key tenant = ''enrich:events:'' @ tenant"

definition nats_subject :: "enrichment_event \<Rightarrow> string" where
  "nats_subject e = ''enrich.events.'' @ ev_tenant e @ ''.'' @ event_name (ev_type e)"

definition enrichment_completed :: "string \<Rightarrow> string \<Rightarrow> string option \<Rightarrow> fields \<Rightarrow> f64 \<Rightarrow> int \<Rightarrow> string \<Rightarrow> string \<Rightarrow> enrichment_event" where
  "enrichment_completed tenant entity dm fs confidence tokens corr now =
     \<lparr>ev_type = EnrichmentCompleted, ev_entity = entity, ev_tenant = tenant, ev_domain = dm,
      ev_payload = [(''fields_count'', PInt (int (length fs))), (''confidence'', PFloat confidence), (''tokens_used'', PInt tokens)],
      ev_correlation = corr, ev_occurred = now\<rparr>"

definition convergence_completed ::
    "string \<Rightarrow> string \<Rightarrow> string option \<Rightarrow> int \<Rightarrow> string \<Rightarrow> int \<Rightarrow> f64 \<Rightarrow> string \<Rightarrow> string \<Rightarrow> enrichment_event" where
  "convergence_completed tenant entity dm passes reason tokens cost corr now =
     \<lparr>ev_type = ConvergenceCompleted, ev_entity = entity, ev_tenant = tenant, ev_domain = dm,
      ev_payload = [(''pass_count'', PInt passes), (''convergence_reason'', PStr reason), (''total_tokens'', PInt tokens),
                    (''total_cost_usd'', PFloat cost)],
      ev_correlation = corr, ev_occurred = now\<rparr>"

definition schema_proposed :: "string \<Rightarrow> string \<Rightarrow> string \<Rightarrow> int \<Rightarrow> string \<Rightarrow> string \<Rightarrow> enrichment_event" where
  "schema_proposed tenant dm run n corr now =
     \<lparr>ev_type = SchemaProposed, ev_entity = run, ev_tenant = tenant, ev_domain = Some dm,
      ev_payload = [(''batch_run_id'', PStr run), (''proposals_count'', PInt n)], ev_correlation = corr, ev_occurred = now\<rparr>"

text \<open>
  The emitter with the streams it publishes to. A task that timed out may have reached the stream (\<open>TimedOut True\<close>);
  \<open>trim\<close> is the approximate cut of the server at its maximal length.
\<close>

datatype publish_outcome = Published | TimedOut bool | PublishFailed

record emitter =
  em_tasks :: "(nat, enrichment_event) dict"
  em_next :: nat
  em_streams :: "(string, (string, string) dict list) dict"

definition new_emitter :: emitter where
  "new_emitter = \<lparr>em_tasks = [], em_next = 0, em_streams = []\<rparr>"

definition emit :: "enrichment_event \<Rightarrow> emitter \<Rightarrow> emitter" where
  "emit e em = em\<lparr>em_tasks := em_tasks em @ [(em_next em, e)], em_next := Suc (em_next em)\<rparr>"

definition xadd :: "((string, string) dict list \<Rightarrow> (string, string) dict list) \<Rightarrow> (pyval \<Rightarrow> string) \<Rightarrow> enrichment_event \<Rightarrow> emitter \<Rightarrow> emitter" where
  "xadd trim dump e em =
     (let k = stream_key (ev_tenant e) in
      em\<lparr>em_streams := dset k (trim (dget_or (em_streams em) k [] @ [stream_entry dump e])) (em_streams em)\<rparr>)"

definition finish_publish ::
    "((string, string) dict list \<Rightarrow> (string, string) dict list) \<Rightarrow> (pyval \<Rightarrow> string) \<Rightarrow> nat \<Rightarrow> publish_outcome \<Rightarrow> emitter \<Rightarrow> emitter" where
  "finish_publish trim dump i outcome em =
     (case dget (em_tasks em) i of
        None \<Rightarrow> em
      | Some e \<Rightarrow>
          (let em1 = em\<lparr>em_tasks := dpop i (em_tasks em)\<rparr> in
           if outcome \<in> {Published, TimedOut True} then xadd trim dump e em1 else em1))"

inductive emitter_reach :: "((string, string) dict list \<Rightarrow> (string, string) dict list) \<Rightarrow> (pyval \<Rightarrow> string) \<Rightarrow> emitter \<Rightarrow> bool"
  for trim dump where
  start: "emitter_reach trim dump new_emitter"
| emit: "emitter_reach trim dump em \<Longrightarrow> emitter_reach trim dump (emit e em)"
| finish: "emitter_reach trim dump em \<Longrightarrow> emitter_reach trim dump (finish_publish trim dump i outcome em)"

definition own_events :: "(string, (string, string) dict list) dict \<Rightarrow> bool" where
  "own_events streams \<longleftrightarrow> (\<forall>t. list_all (\<lambda>x. dget x ''tenant_id'' = Some t) (dget_or streams (stream_key t) []))"

definition streams_separate :: "emitter \<Rightarrow> bool" where
  "streams_separate em \<longleftrightarrow> own_events (em_streams em) \<and> dict_ok (em_tasks em) \<and> list_all (\<lambda>i. i < em_next em) (dkeys (em_tasks em))
     \<and> sum_list (map (\<lambda>s. length (snd s)) (em_streams em)) + length (em_tasks em) \<le> em_next em \<and> dict_ok (em_streams em)"

lemma stream_key_inj [simp]: "stream_key t = stream_key u \<longleftrightarrow> t = u"
  by (simp add: stream_key_def)

lemma stream_size:
  assumes "dict_ok d"
  shows "sum_list (map (\<lambda>s. length (snd s)) (dset k v d)) + length (dget_or d k []) = sum_list (map (\<lambda>s. length (snd s)) d) + length v"
  using assms by (induction d) (auto simp: dget_or_def map_of_eq_None_iff split: option.split)

lemma xadd_separate:
  assumes "streams_separate em" and "\<And>xs. set (trim xs) \<subseteq> set xs \<and> length (trim xs) \<le> length xs"
    and "length (em_tasks em) + sum_list (map (\<lambda>s. length (snd s)) (em_streams em)) < em_next em"
  shows "streams_separate (xadd trim dump e em)"
proof -
  let ?k = "stream_key (ev_tenant e)"
  let ?old = "dget_or (em_streams em) ?k []"
  let ?new = "trim (?old @ [stream_entry dump e])"
  have ok: "dict_ok (em_streams em)" using assms(1) by (simp add: streams_separate_def)
  have "list_all (\<lambda>x. dget x ''tenant_id'' = Some (ev_tenant e)) ?old" using assms(1) by (simp add: streams_separate_def own_events_def)
  moreover have "dget (stream_entry dump e) ''tenant_id'' = Some (ev_tenant e)" by (simp add: stream_entry_def)
  ultimately have new: "list_all (\<lambda>x. dget x ''tenant_id'' = Some (ev_tenant e)) ?new"
    using assms(2) [of "?old @ [stream_entry dump e]"] by (auto simp: list_all_iff)
  have "sum_list (map (\<lambda>s. length (snd s)) (dset ?k ?new (em_streams em))) \<le> Suc (sum_list (map (\<lambda>s. length (snd s)) (em_streams em)))"
    using stream_size [OF ok, of ?k ?new] assms(2) [of "?old @ [stream_entry dump e]"] by simp
  with assms(3) have size: "sum_list (map (\<lambda>s. length (snd s)) (dset ?k ?new (em_streams em))) + length (em_tasks em) \<le> em_next em"
    by linarith
  have "list_all (\<lambda>x. dget x ''tenant_id'' = Some t) (dget_or (dset ?k ?new (em_streams em)) (stream_key t) [])" for t
    using new assms(1) by (cases "t = ev_tenant e") (simp_all add: dget_or_simps streams_separate_def own_events_def)
  then have sep: "own_events (dset ?k ?new (em_streams em))" by (simp add: own_events_def)
  have keys: "dict_ok (em_tasks em)" "list_all (\<lambda>i. i < em_next em) (dkeys (em_tasks em))"
    using assms(1) by (simp_all add: streams_separate_def)
  have "em_streams (xadd trim dump e em) = dset ?k ?new (em_streams em)" "em_tasks (xadd trim dump e em) = em_tasks em"
    "em_next (xadd trim dump e em) = em_next em" by (simp_all add: xadd_def Let_def)
  then show ?thesis unfolding streams_separate_def using sep keys size alist.ok_put [OF ok, of ?k ?new] by (simp only: simp_thms)
qed

lemma dpop_keys_all: "list_all P (dkeys d) \<Longrightarrow> list_all P (dkeys (dpop i d))"
  by (induction d) auto

lemma reach_separate:
  assumes trim: "\<And>xs. set (trim xs) \<subseteq> set xs \<and> length (trim xs) \<le> length xs"
  shows "emitter_reach trim dump em \<Longrightarrow> streams_separate em"
proof (induction rule: emitter_reach.induct)
  case start
  show ?case by (simp add: streams_separate_def own_events_def new_emitter_def dget_or_def)
next
  case (emit em e)
  then show ?case by (auto simp: streams_separate_def emit_def list_all_iff)
next
  case (finish em i outcome)
  show ?case
  proof (cases "dget (em_tasks em) i")
    case None
    with finish show ?thesis by (simp add: finish_publish_def)
  next
    case (Some e)
    let ?em = "em\<lparr>em_tasks := dpop i (em_tasks em)\<rparr>"
    have "length (dpop i (em_tasks em)) < length (em_tasks em)"
      using Some unfolding AList.delete_eq by (intro length_filter_less [where x = "(i, e)"]) (simp_all add: map_of_SomeD)
    moreover have "list_all P (dkeys (em_tasks em)) \<Longrightarrow> list_all P (dkeys (dpop i (em_tasks em)))" for P
      by (rule dpop_keys_all)
    moreover have "dict_ok (em_tasks em) \<Longrightarrow> dict_ok (dpop i (em_tasks em))" by (rule alist.ok_del)
    ultimately have less: "streams_separate ?em
        \<and> length (em_tasks ?em) + sum_list (map (\<lambda>s. length (snd s)) (em_streams ?em)) < em_next ?em"
      using finish.IH unfolding streams_separate_def by simp
    then have "streams_separate (xadd trim dump e ?em)" using trim by (intro xadd_separate) auto
    with less Some show ?thesis by (simp add: finish_publish_def Let_def)
  qed
qed

text \<open>
  Events stay with their tenant and are published at most once. However emissions and the ends of their tasks
  interleave, and whatever is lost to errors and time limits, a tenant's stream holds events of that tenant only, and the events
  in all streams and those still in flight are together no more than were emitted. The server's cut of a stream only drops entries.
\<close>

theorem events_stay_with_tenant:
  assumes "emitter_reach trim dump em" and "\<And>xs. set (trim xs) \<subseteq> set xs \<and> length (trim xs) \<le> length xs"
  shows "list_all (\<lambda>x. dget x ''tenant_id'' = Some t) (dget_or (em_streams em) (stream_key t) [])
    \<and> sum_list (map (\<lambda>s. length (snd s)) (em_streams em)) + length (em_tasks em) \<le> em_next em"
  using reach_separate [OF assms(2,1)] by (simp add: streams_separate_def own_events_def)

definition sample_emitter :: emitter where
  "sample_emitter = finish_publish id (\<lambda>v. ''{}'') 0 Published
     (emit (schema_proposed ''acme'' ''plastics'' ''r1'' 2 ''c'' ''t'') (emit (schema_proposed ''beta'' ''plastics'' ''r2'' 1 ''c'' ''t'') new_emitter))"

theorem events_stay_with_tenant_witness:
  "dget_or (em_streams sample_emitter) (stream_key ''acme'') [] = [] \<and> length (em_tasks sample_emitter) = 1
    \<and> list_all (\<lambda>x. dget x ''tenant_id'' = Some ''beta'') (dget_or (em_streams sample_emitter) (stream_key ''beta'') [])"
proof -
  have "emitter_reach id (\<lambda>v. ''{}'') sample_emitter"
    unfolding sample_emitter_def by (intro emitter_reach.intros)
  from events_stay_with_tenant [OF this, of "''beta''"]
  have "list_all (\<lambda>x. dget x ''tenant_id'' = Some ''beta'') (dget_or (em_streams sample_emitter) (stream_key ''beta'') [])" by simp
  moreover have "dget_or (em_streams sample_emitter) (stream_key ''acme'') [] = [] \<and> length (em_tasks sample_emitter) = 1" by code_simp
  ultimately show ?thesis by simp
qed

section \<open>The audit log\<close>

record audit_entry =
  ae_tenant :: "string option"
  ae_actor :: "string option"
  ae_action :: "string option"
  ae_detail :: "string option"
  ae_created :: "f64 option"

record audit_row =
  au_id :: nat
  au_tenant :: string
  au_actor :: string
  au_action :: string
  au_detail :: "string option"
  au_created :: f64

text \<open>\<open>None\<close> is a pool that was never configured; the table is numbered from 1.\<close>

type_synonym audit_table = "audit_row list"

definition configure_audit_pool :: "audit_table \<Rightarrow> audit_table option" where
  "configure_audit_pool table = Some table"

definition audit_row_of :: "nat \<Rightarrow> f64 \<Rightarrow> audit_entry \<Rightarrow> audit_row" where
  "audit_row_of i now e =
     \<lparr>au_id = i, au_tenant = (case ae_tenant e of None \<Rightarrow> ''unknown'' | Some t \<Rightarrow> t),
      au_actor = (case ae_actor e of None \<Rightarrow> ''system'' | Some t \<Rightarrow> t),
      au_action = (case ae_action e of None \<Rightarrow> ''unknown'' | Some t \<Rightarrow> t), au_detail = ae_detail e,
      au_created = (case ae_created e of None \<Rightarrow> now | Some t \<Rightarrow> t)\<rparr>"

definition flush_audit_entries :: "(nat \<Rightarrow> f64) \<Rightarrow> audit_entry list \<Rightarrow> audit_table option \<Rightarrow> nat \<times> audit_table option" where
  "flush_audit_entries clock entries pool =
     (case pool of
        None \<Rightarrow> (0, None)
      | Some table \<Rightarrow>
          if entries = [] then (0, pool)
          else (length entries,
                Some (table @ map (\<lambda>(i, e). audit_row_of (Suc (length table) + i) (clock i) e) (enumerate 0 entries))))"

text \<open>A clause compares a column with the parameter of its placeholder, which are numbered from 1.\<close>

datatype audit_column = TenantEq | ActionEq | CreatedFrom

record audit_query =
  aq_clauses :: "(audit_column \<times> nat) list"
  aq_limit :: nat
  aq_params :: "pyval list"

definition build_audit_query :: "string \<Rightarrow> string option \<Rightarrow> f64 option \<Rightarrow> int \<Rightarrow> audit_query" where
  "build_audit_query tenant action since limit =
     (let p0 = [PStr tenant]; c0 = [(TenantEq, 1)];
          (c1, p1) = (case action of Some (x # xs) \<Rightarrow> (c0 @ [(ActionEq, 2)], p0 @ [PStr (x # xs)]) | _ \<Rightarrow> (c0, p0));
          (c2, p2) = (case since of Some t \<Rightarrow> if t \<noteq> 0 then (c1 @ [(CreatedFrom, length p1 + 1)], p1 @ [PFloat t]) else (c1, p1)
                       | None \<Rightarrow> (c1, p1))
      in \<lparr>aq_clauses = c2, aq_limit = length p2 + 1, aq_params = p2 @ [PInt limit]\<rparr>)"

definition param :: "audit_query \<Rightarrow> nat \<Rightarrow> pyval" where
  "param q k = (if 0 < k \<and> k \<le> length (aq_params q) then aq_params q ! (k - 1) else PNone)"

definition clause_holds :: "audit_query \<Rightarrow> audit_row \<Rightarrow> audit_column \<times> nat \<Rightarrow> bool" where
  "clause_holds q r ck =
     (case (fst ck, param q (snd ck)) of
        (TenantEq, PStr t) \<Rightarrow> au_tenant r = t
      | (ActionEq, PStr a) \<Rightarrow> au_action r = a
      | (CreatedFrom, PFloat t) \<Rightarrow> t \<le> au_created r
      | _ \<Rightarrow> False)"

text \<open>The server refuses a negative limit; rows of one time stay in the order of the table.\<close>

definition run_audit_query :: "audit_query \<Rightarrow> audit_table \<Rightarrow> string + audit_table" where
  "run_audit_query q table =
     (case param q (aq_limit q) of
        PInt n \<Rightarrow> if n < 0 then Inl ''LIMIT must not be negative''
                 else Inr (take (nat n) (sort_desc au_created (filter (\<lambda>r. list_all (clause_holds q r) (aq_clauses q)) table)))
      | _ \<Rightarrow> Inl ''invalid LIMIT'')"

definition query_audit_log :: "string \<Rightarrow> string option \<Rightarrow> f64 option \<Rightarrow> int \<Rightarrow> audit_table option \<Rightarrow> string + audit_table" where
  "query_audit_log tenant action since limit pool =
     (case pool of None \<Rightarrow> Inr [] | Some table \<Rightarrow> run_audit_query (build_audit_query tenant action since limit) table)"

definition asked_for :: "string \<Rightarrow> string option \<Rightarrow> f64 option \<Rightarrow> audit_row \<Rightarrow> bool" where
  "asked_for tenant action since r \<longleftrightarrow> au_tenant r = tenant
     \<and> (case action of Some (x # xs) \<Rightarrow> au_action r = x # xs | _ \<Rightarrow> True)
     \<and> (case since of Some t \<Rightarrow> if t = 0 then True else t \<le> au_created r | None \<Rightarrow> True)"

text \<open>
  An audit query says what it was asked. Whichever of its filters are given, every placeholder of the query it builds is the number
  of its own parameter: the rows returned are the newest \<open>limit\<close> of exactly those of the tenant, of the action and
  since the time asked for.
\<close>

theorem audit_query_exact:
  "query_audit_log tenant action since (int n) (Some table) =
     Inr (take n (sort_desc au_created (filter (asked_for tenant action since) table)))"
proof -
  let ?q = "build_audit_query tenant action since (int n)"
  have q: "aq_clauses ?q \<noteq> [] \<and> param ?q (aq_limit ?q) = PInt (int n)
      \<and> (\<forall>r. list_all (clause_holds ?q r) (aq_clauses ?q) = asked_for tenant action since r)"
    by (auto simp: build_audit_query_def param_def clause_holds_def asked_for_def Let_def nth_append split: option.split list.split)
  then show ?thesis by (simp add: query_audit_log_def run_audit_query_def)
qed

text \<open>Without a pool the entries are dropped: nothing is stored, and the log answers that there is nothing.\<close>

lemma unconfigured_audit_drops:
  "flush_audit_entries clock entries None = (0, None)" "query_audit_log tenant action since limit None = Inr []"
  by (simp_all add: flush_audit_entries_def query_audit_log_def)

end
