(* ===== verification/LoopSchemas.thy ===== *)
theory LoopSchemas
  imports Schemas
begin

text \<open>
  \<open>app/models/loop_schemas.py\<close>: the types of the convergence loop. As in \<open>Schemas\<close> a raw record holds values already of
  the declared types, with \<open>None\<close> where the payload has no entry; what is modelled are the defaults, the bounds and the
  validators. All violations of a model are one validation error.
\<close>

datatype convergence_mode = Discovery | Targeted | Verification
datatype approval_mode = AutoApproval | HumanApproval
datatype converge_reason = ThresholdMet | BudgetExhausted | MaxPasses | HumanHold | DiminishingReturns | LoopFailed
datatype proposal_source = FromEnrichment | FromInference

section \<open>Bounds\<close>

definition field_or :: "'a \<Rightarrow> 'a option \<Rightarrow> 'a" where
  "field_or d x = (case x of None \<Rightarrow> d | Some y \<Rightarrow> y)"

definition bounded :: "bool \<Rightarrow> 'a \<Rightarrow> pyerr + 'a" where
  "bounded ok x = (if ok then Inr x else Inl ValueError)"

section \<open>Costs and proposals\<close>

record loop_costs =
  lk_tokens :: int
  lk_cost :: f64
  lk_per_field :: f64
  lk_utilization :: f64
  lk_tokens_per_pass :: "int list"

record raw_costs =
  rk_tokens :: "int option"
  rk_cost :: "f64 option"
  rk_per_field :: "f64 option"
  rk_utilization :: "f64 option"
  rk_tokens_per_pass :: "int list option"

definition validate_costs :: "raw_costs \<Rightarrow> pyerr + loop_costs" where
  "validate_costs r =
     (let tokens = field_or 0 (rk_tokens r); cost = field_or 0 (rk_cost r); per = field_or 0 (rk_per_field r);
          util = field_or 0 (rk_utilization r)
      in bounded (0 \<le> tokens \<and> 0 \<le> cost \<and> 0 \<le> per \<and> 0 \<le> util)
           \<lparr>lk_tokens = tokens, lk_cost = py_round 6 cost, lk_per_field = py_round 6 per, lk_utilization = py_round 6 util,
            lk_tokens_per_pass = field_or [] (rk_tokens_per_pass r)\<rparr>)"

record loop_proposal =
  lq_name :: string
  lq_type :: string
  lq_source :: proposal_source
  lq_fill_rate :: f64
  lq_confidence :: f64
  lq_samples :: "pyval list"
  lq_gate :: "string option"
  lq_dimension :: "string option"

record raw_proposal =
  rq_name :: string
  rq_type :: "string option"
  rq_source :: "proposal_source option"
  rq_fill_rate :: "f64 option"
  rq_confidence :: "f64 option"
  rq_samples :: "pyval list option"
  rq_gate :: "string option"
  rq_dimension :: "string option"

definition validate_proposal :: "raw_proposal \<Rightarrow> pyerr + loop_proposal" where
  "validate_proposal r =
     (let rate = field_or 0 (rq_fill_rate r); conf = field_or 0 (rq_confidence r); samples = field_or [] (rq_samples r)
      in bounded (0 \<le> rate \<and> rate \<le> 1 \<and> 0 \<le> conf \<and> conf \<le> 1 \<and> length samples \<le> 10)
           \<lparr>lq_name = rq_name r, lq_type = field_or ''string'' (rq_type r), lq_source = field_or FromEnrichment (rq_source r),
            lq_fill_rate = rate, lq_confidence = conf, lq_samples = samples, lq_gate = rq_gate r, lq_dimension = rq_dimension r\<rparr>)"

section \<open>Passes\<close>

record loop_pass =
  lp_number :: int
  lp_mode :: convergence_mode
  lp_enriched :: "string list"
  lp_inferred :: "string list"
  lp_confidences :: "(string, f64) dict"
  lp_before :: f64
  lp_after :: f64
  lp_tokens :: int
  lp_duration :: int
  lp_rules :: "string list"
  lp_error :: "string option"
  lp_unlock_field :: "string option"
  lp_unlock_score :: f64
  lp_fragments :: "string list"
  lp_variations :: int

record raw_pass =
  rp_number :: int
  rp_mode :: "convergence_mode option"
  rp_enriched :: "string list option"
  rp_inferred :: "string list option"
  rp_confidences :: "(string, f64) dict option"
  rp_before :: "f64 option"
  rp_after :: "f64 option"
  rp_tokens :: "int option"
  rp_duration :: "int option"
  rp_rules :: "string list option"
  rp_error :: "string option"
  rp_unlock_field :: "string option"
  rp_unlock_score :: "f64 option"
  rp_fragments :: "string list option"
  rp_variations :: "int option"

definition validate_pass :: "raw_pass \<Rightarrow> pyerr + loop_pass" where
  "validate_pass r =
     (let before = field_or 0 (rp_before r); aft = field_or 0 (rp_after r); tokens = field_or 0 (rp_tokens r);
          dur = field_or 0 (rp_duration r); score = field_or 0 (rp_unlock_score r); vars = field_or 1 (rp_variations r)
      in bounded (1 \<le> rp_number r \<and> 0 \<le> before \<and> 0 \<le> aft \<and> 0 \<le> tokens \<and> 0 \<le> dur \<and> 0 \<le> score \<and> 1 \<le> vars \<and> vars \<le> 5)
           \<lparr>lp_number = rp_number r, lp_mode = field_or Discovery (rp_mode r), lp_enriched = field_or [] (rp_enriched r),
            lp_inferred = field_or [] (rp_inferred r), lp_confidences = field_or [] (rp_confidences r), lp_before = before, lp_after = aft,
            lp_tokens = tokens, lp_duration = dur, lp_rules = field_or [] (rp_rules r), lp_error = rp_error r,
            lp_unlock_field = rp_unlock_field r, lp_unlock_score = score, lp_fragments = field_or [] (rp_fragments r),
            lp_variations = vars\<rparr>)"

definition pass_delta_of :: "loop_pass \<Rightarrow> f64" where
  "pass_delta_of p = lp_before p - lp_after p"

definition fields_gained :: "loop_pass \<Rightarrow> nat" where
  "fields_gained p = length (lp_enriched p) + length (lp_inferred p)"

section \<open>Requests\<close>

record loop_request =
  lr_entity :: fields
  lr_object_type :: string
  lr_objective :: string
  lr_domain :: "string option"
  lr_run_id :: string
  lr_key :: "string option"
  lr_max_passes :: int
  lr_budget :: int
  lr_approval :: approval_mode
  lr_convergence :: f64
  lr_consensus :: f64
  lr_variations :: int
  lr_schema :: pyval

record raw_loop_request =
  rl_entity :: fields
  rl_object_type :: string
  rl_objective :: string
  rl_domain :: "string option"
  rl_run_id :: "string option"
  rl_key :: "string option"
  rl_max_passes :: "int option"
  rl_budget :: "int option"
  rl_approval :: "approval_mode option"
  rl_convergence :: "f64 option"
  rl_consensus :: "f64 option"
  rl_variations :: "int option"
  rl_schema :: pyval

text \<open>A schema text is parsed before the declared type, dict or text or nothing, is checked.\<close>

definition loop_schema :: "(string \<Rightarrow> pyval option) \<Rightarrow> pyval \<Rightarrow> pyval" where
  "loop_schema loads v = (case v of PStr s \<Rightarrow> (case loads s of Some w \<Rightarrow> w | None \<Rightarrow> PNone) | _ \<Rightarrow> v)"

definition schema_type_ok :: "pyval \<Rightarrow> bool" where
  "schema_type_ok v = (case v of PDict _ \<Rightarrow> True | PStr _ \<Rightarrow> True | PNone \<Rightarrow> True | _ \<Rightarrow> False)"

definition validate_loop_request :: "(string \<Rightarrow> pyval option) \<Rightarrow> string \<Rightarrow> raw_loop_request \<Rightarrow> pyerr + loop_request" where
  "validate_loop_request loads fresh r =
     (let passes = field_or 5 (rl_max_passes r); budget = field_or 50000 (rl_budget r);
          conv = field_or (f_of_int 2) (rl_convergence r); cons = field_or (flt (13 / 20)) (rl_consensus r);
          vars = field_or 3 (rl_variations r); schema = loop_schema loads (rl_schema r)
      in bounded (rl_entity r \<noteq> [] \<and> 1 \<le> passes \<and> passes \<le> 20 \<and> 1000 \<le> budget \<and> 0 \<le> conv \<and> conv \<le> f_of_int 10
             \<and> 0 \<le> cons \<and> cons \<le> 1 \<and> 1 \<le> vars \<and> vars \<le> 10 \<and> schema_type_ok schema)
           \<lparr>lr_entity = rl_entity r, lr_object_type = rl_object_type r, lr_objective = rl_objective r, lr_domain = rl_domain r,
            lr_run_id = field_or fresh (rl_run_id r), lr_key = rl_key r, lr_max_passes = passes, lr_budget = budget,
            lr_approval = field_or HumanApproval (rl_approval r), lr_convergence = conv, lr_consensus = cons, lr_variations = vars,
            lr_schema = schema\<rparr>)"

record loop_batch =
  lb_entities :: "loop_request list"
  lb_profile :: "string option"
  lb_budget :: int
  lb_convergence :: f64

definition validate_loop_batch ::
    "(string \<Rightarrow> pyval option) \<Rightarrow> (nat \<Rightarrow> string) \<Rightarrow> raw_loop_request list \<Rightarrow> string option \<Rightarrow> int option \<Rightarrow> f64 option \<Rightarrow> pyerr + loop_batch" where
  "validate_loop_batch loads fresh raws profile budget conv =
     bind_res (map_res (\<lambda>(i, r). validate_loop_request loads (fresh i) r) (enumerate 0 raws)) (\<lambda>rs.
       let b = field_or 100000 budget; c = field_or (f_of_int 2) conv in
       bounded (length raws \<le> 50 \<and> 1000 \<le> b \<and> 0 \<le> c)
         \<lparr>lb_entities = rs, lb_profile = profile, lb_budget = b, lb_convergence = c\<rparr>)"

section \<open>Responses\<close>

record loop_run_response =
  lz_state :: string
  lz_passes :: "loop_pass list"
  lz_fields :: fields
  lz_reason :: converge_reason
  lz_tokens :: int
  lz_cost :: f64
  lz_duration :: int

definition total_passes :: "loop_run_response \<Rightarrow> nat" where "total_passes r = length (lz_passes r)"
definition total_fields_discovered :: "loop_run_response \<Rightarrow> nat" where "total_fields_discovered r = length (lz_fields r)"
definition loop_is_converged :: "loop_run_response \<Rightarrow> bool" where "loop_is_converged r \<longleftrightarrow> lz_reason r = ThresholdMet"

record pass_context =
  px_number :: int
  px_budget :: int
  px_uncertainty :: f64
  px_previous :: "loop_pass list"

section \<open>What a validated value satisfies\<close>

lemma bounded_Inr: "bounded ok x = Inr y \<longleftrightarrow> ok \<and> x = y"
  by (auto simp: bounded_def)

definition loop_request_ok :: "loop_request \<Rightarrow> bool" where
  "loop_request_ok r \<longleftrightarrow> lr_entity r \<noteq> [] \<and> 1 \<le> lr_max_passes r \<and> lr_max_passes r \<le> 20 \<and> 1000 \<le> lr_budget r
     \<and> 0 \<le> lr_convergence r \<and> lr_convergence r \<le> f_of_int 10 \<and> 0 \<le> lr_consensus r \<and> lr_consensus r \<le> 1
     \<and> 1 \<le> lr_variations r \<and> lr_variations r \<le> 10 \<and> schema_type_ok (lr_schema r)"

text \<open>What a validated request sends when it is written out again.\<close>

definition request_again :: "loop_request \<Rightarrow> raw_loop_request" where
  "request_again r =
     \<lparr>rl_entity = lr_entity r, rl_object_type = lr_object_type r, rl_objective = lr_objective r, rl_domain = lr_domain r,
      rl_run_id = Some (lr_run_id r), rl_key = lr_key r, rl_max_passes = Some (lr_max_passes r), rl_budget = Some (lr_budget r),
      rl_approval = Some (lr_approval r), rl_convergence = Some (lr_convergence r), rl_consensus = Some (lr_consensus r),
      rl_variations = Some (lr_variations r), rl_schema = lr_schema r\<rparr>"

lemma validated_request_ok: "validate_loop_request loads fresh r = Inr q \<Longrightarrow> loop_request_ok q"
  by (auto simp: validate_loop_request_def loop_request_ok_def Let_def bounded_Inr)

text \<open>
  A converge request of the loop validates to one inside the declared bounds, and validation is stable: the request written out
  and validated again is the same request, with its run id, unless its schema came out as a text, which is parsed once more.
\<close>

theorem loop_validation_stable:
  assumes "validate_loop_request loads fresh r = Inr q"
  shows "loop_request_ok q
    \<and> (case lr_schema q of PStr s \<Rightarrow> True | _ \<Rightarrow> validate_loop_request loads fresh' (request_again q) = Inr q)"
proof -
  have ok: "loop_request_ok q" using assms by (rule validated_request_ok)
  then have "validate_loop_request loads fresh' (request_again q) = Inr q" if "\<forall>s. lr_schema q \<noteq> PStr s"
    using that
    by (cases q; cases "lr_schema q")
      (auto simp: validate_loop_request_def request_again_def loop_request_ok_def field_or_def loop_schema_def bounded_def Let_def)
  with ok show ?thesis by (auto split: pyval.split)
qed

definition sample_raw_request :: raw_loop_request where
  "sample_raw_request = \<lparr>rl_entity = [(''name'', PStr ''Acme'')], rl_object_type = ''account'', rl_objective = ''enrich'', rl_domain = None,
     rl_run_id = None, rl_key = None, rl_max_passes = None, rl_budget = None, rl_approval = None, rl_convergence = None,
     rl_consensus = Some 0, rl_variations = None, rl_schema = PStr ''{}''\<rparr>"

theorem loop_validation_stable_witness:
  "\<exists>q. validate_loop_request (\<lambda>s. Some (PDict [])) ''r1'' sample_raw_request = Inr q \<and> loop_request_ok q \<and> lr_max_passes q = 5"
proof -
  obtain q where q: "validate_loop_request (\<lambda>s. Some (PDict [])) ''r1'' sample_raw_request = Inr q" "lr_max_passes q = 5"
    by (simp add: validate_loop_request_def sample_raw_request_def field_or_def loop_schema_def schema_type_ok_def bounded_def f64_eval)
  with loop_validation_stable [OF q(1)] show ?thesis by blast
qed

text \<open>A schema text that is itself a JSON text passes as a schema, though it declares no field.\<close>

lemma quoted_text_is_schema: "schema_type_ok (loop_schema (\<lambda>s. Some (PStr ''industry'')) (PStr v))"
  by (simp add: loop_schema_def schema_type_ok_def)

end
