(* ===== verification/Spec2Isabelle.thy ===== *)
theory Spec2Isabelle
  imports CircuitBreaker RateLimiter InferenceBridge RuleEngine GradeEngine ConsensusEngine EnrichmentConsensus
    Uncertainty ValidationEngine ConvergenceLoop ProviderClient EnrichPipeline SideEffects Waterfall ScoreEngine ScoreDecay NAryEngine OutcomeDelegator PacketEnforcement PolicyGuards HealthTriggers HealthFields CrmFieldScanner SchemaProposer InferenceRegistry PacketRouter Handlers Simulation ConvergenceExtras FieldEvidence LoopStore BatchProfile Promotion KbIndex ScoreExplain Endpoints Agents HealthApi ScoreApi CrmClients DataSources LlmClients Prompts FragmentKb ContractEnforcement Chassis LoopSchemas
begin

text \<open>
  A model of the enrichment and inference engine (\<open>src/app\<close>), with theorems about it. Given an entity and a
  domain specification the program plans what to look for, asks language-model providers several times for
  the missing fields, votes on the replies, derives further fields by rules, and repeats this until the
  fields are sure enough or the budget is used. Around this loop it scores entities, assesses the health of
  the whole base, proposes extensions of the specification, and exchanges packets with a graph service.

  \<^bold>\<open>How the code is represented.\<close>
  JSON values are the datatype \<open>pyval\<close>, a dict is an association list in insertion order (\<open>PyPrelude\<close>, with
  the interface \<open>dict_store\<close>), a dataclass or model is a record, an enumeration a datatype. \<open>float\<close> is the type
  \<open>f64\<close> of \<open>Float64\<close>: rationals with 53 significant bits, every operation rounded once to nearest and even;
  exponents are not bounded, so there is no infinity, NaN, overflow or underflow; where the code tests for them, on
  the thresholds of a request, the model has a value for a number that is not finite (\<open>json_number\<close> of \<open>Schemas\<close>). Sums of
  floats are the compensated sums of Python 3.12. Strings are lists of bytes, read as Latin-1. An exception is the \<open>Inl\<close> side of a
  sum; where state outlives it, the state is returned beside it. A loop is structural recursion or a fold
  over what it iterates; where it has no such measure it counts down what the code itself bounds: the passes left in
  \<open>ConvergenceLoop\<close> (\<open>max_passes\<close>) and in \<open>RuleEngine\<close> (\<open>MAX_CASCADE_DEPTH + 1\<close>), the attempts left in
  \<open>ProviderClient\<close> (3). The topological sort has the number of targets as fuel, and \<open>kahn_queue_empty\<close> shows
  that its queue is empty then. Concurrency is a step relation with one step per stretch of code between two
  awaits: calls of the side-effect coordinator (\<open>coordinator_step\<close>), the return channel (\<open>channel_step\<close>);
  use of an engine is reachability (\<open>nary_reach\<close>), of a breaker the list of its calls (\<open>breaker_after\<close>).

  What is not under \<open>src/\<close> or touches the world is an argument: the answers of providers and their timing
  (\<open>prov\<close>, \<open>pe_calls\<close>), clock readings, digests (\<open>h\<close>), \<open>json.dumps\<close> (\<open>dump\<close>), the functions of \<open>math\<close>
  (\<open>fexp\<close>, \<open>pow2\<close>, \<open>log2\<close>, \<open>fsqrt\<close>), model validation by pydantic where its rules are not in the code
  (\<open>validate\<close>), the order in which a set is visited (\<open>ord\<close>), and stores that only exist as interfaces
  (\<open>trigger_store\<close>, \<open>timestamp_provider\<close>). Theorems that need more of them than their type state it: a store
  returns what was saved in it (\<open>stores_saved\<close>), a digest is not empty, an exponential is positive. In \<open>ScoreDecay\<close> the lemma on previews
  holds up to \<open>10^9\<close> weeks, where the arithmetic on days is exact. Random values of the simulation are the
  argument \<open>r\<close>; the gate answers of a packet are a function of the attempt; tables, files and streams are lists and
  maps that operations return updated.

  \<^bold>\<open>Theories and the code they model\<close> (paths under \<open>src/app\<close>).
  \<^item> Foundations: \<open>PyPrelude\<close>, \<open>PyValue\<close>, \<open>Float64\<close>, \<open>PyNumbers\<close>, \<open>Voting\<close> (\<open>Counter\<close>, with the interface \<open>plurality\<close>).
  \<^item> The loop: \<open>FieldClassifier\<close> (\<open>engines/field_classifier.py\<close>), \<open>SearchOptimizer\<close> (\<open>engines/search_optimizer.py\<close>),
    \<open>Planner\<close> (\<open>engines/meta_prompt_planner.py\<close>), \<open>Trackers\<close> (\<open>engines/convergence/cost_tracker.py\<close> and
    \<open>confidence_tracker.py\<close>, with the interfaces \<open>token_budget\<close> and \<open>confidence_board\<close>), \<open>ConvergenceLoop\<close>
    (\<open>engines/convergence_controller.py\<close> and the request and response of \<open>models/schemas.py\<close>).
  \<^item> One pass: \<open>EnrichPipeline\<close> (\<open>engines/enrichment_orchestrator.py\<close>), \<open>ValidationEngine\<close>, \<open>ConsensusEngine\<close>,
    \<open>Uncertainty\<close>, \<open>ProviderClient\<close> (\<open>services/perplexity_client.py\<close>), \<open>RequestDeadline\<close>, \<open>CircuitBreaker\<close>, all
    named after their module in \<open>services/\<close>.
  \<^item> Inference: \<open>DerivationGraph\<close> and \<open>InferenceBridge\<close> (\<open>engines/inference_bridge_v2.py\<close> and its adapter, with the
    interface \<open>inference_pass\<close>), \<open>RuleLoader\<close> (interface \<open>rule_source\<close>), \<open>RuleEngine\<close>, \<open>GradeEngine\<close>, \<open>NAryEngine\<close>
    (\<open>engines/inference/\<close>), \<open>InferenceRegistry\<close> (\<open>services/inference_rule_registry.py\<close>).
  \<^item> The waterfall over data sources: \<open>Waterfall\<close>, \<open>EnrichmentConsensus\<close>, \<open>QualityScorer\<close> (\<open>services/enrichment/\<close>).
  \<^item> Around the loop: \<open>Schemas\<close> (request and response of \<open>models/schemas.py\<close>), \<open>LoopSchemas\<close> (the loop's own
    request, state and response, \<open>models/loop_schemas.py\<close>), \<open>FieldEvidence\<close>
    (\<open>models/field_confidence.py\<close>, \<open>feature_evidence.py\<close>), \<open>LoopStore\<close> (\<open>engines/convergence/loop_state.py\<close>, interface
    \<open>checkpoint_store\<close>), \<open>ConvergenceExtras\<close> (\<open>hierarchical_synthesis.py\<close>, \<open>corrective_retrieval.py\<close>,
    \<open>pass_telemetry.py\<close>), \<open>BatchProfile\<close> (\<open>services/enrichment_profile.py\<close>), \<open>KbIndex\<close> (\<open>services/kb_resolver.py\<close>),
    \<open>FragmentKb\<close> (\<open>services/enrichment/kb_resolver.py\<close>), \<open>Prompts\<close> (\<open>services/prompt_builder.py\<close>, \<open>deterministic_provider.py\<close>).
  \<^item> Scoring: \<open>ScoreModels\<close>, \<open>ScoreEngine\<close>, \<open>ScoreDecay\<close>, \<open>ScoreExplain\<close>, \<open>ScoreApi\<close> (\<open>score/\<close>).
  \<^item> Health: \<open>HealthAssessor\<close>, \<open>CrmHealth\<close>, \<open>HealthFields\<close>, \<open>HealthTriggers\<close>, \<open>HealthApi\<close> (\<open>health/\<close>).
  \<^item> Agents over the base: \<open>Agents\<close> (\<open>agents/\<close>: hygiene, deal risk, routing of leads, handoff, the MCP server).
  \<^item> Specifications and their growth: \<open>DomainSpec\<close> (\<open>engines/domain_yaml_reader.py\<close>, \<open>schema_discovery.py\<close>), \<open>CrmFieldScanner\<close>
    (\<open>services/crm_field_scanner.py\<close>), \<open>SchemaProposer\<close> (\<open>engines/convergence/schema_proposer.py\<close>), \<open>Promotion\<close>
    (\<open>services/workers/schema_promotion_worker.py\<close>).
  \<^item> Simulation (\<open>services/simulation_bridge.py\<close>): \<open>SimCore\<close> (gates, scores), \<open>SimGraph\<close> (communities),
    \<open>SimGenerate\<close> (entities), \<open>Simulation\<close> (statistics, leverage, the whole run).
  \<^item> Exchange with other services: \<open>ReturnChannel\<close> (\<open>services/graph_return_channel.py\<close>), \<open>OutcomeDelegator\<close>,
    \<open>PacketEnforcement\<close>, \<open>PacketRouter\<close> (\<open>engines/packet_router.py\<close>, \<open>services/gate_client.py\<close>), \<open>PolicyGuards\<close>
    (\<open>services/action_authority.py\<close>, \<open>dependency_enforcement.py\<close>, \<open>event_contract_guard.py\<close>), \<open>SideEffects\<close>
    (\<open>services/side_effect_coordinator.py\<close>), \<open>GateConverge\<close> (\<open>services/odoo_gate_converge.py\<close>), \<open>CrmWriteback\<close>
    (\<open>services/crm/\<close>), \<open>Persistence\<close> (\<open>services/pg_store.py\<close>, \<open>result_store.py\<close>), \<open>ContractEnforcement\<close>
    (\<open>services/contract_enforcement.py\<close>, \<open>runtime_attestation.py\<close>), \<open>Chassis\<close> (\<open>chassis/envelope.py\<close>, \<open>router.py\<close>,
    \<open>services/event_emitter.py\<close>, \<open>audit_persistence.py\<close>).
  \<^item> Clients of vendors, whose servers are a parameter \<open>http_world\<close>: \<open>CrmClients\<close> (\<open>services/crm/salesforce_client.py\<close>,
    \<open>hubspot_client.py\<close>), \<open>DataSources\<close> (\<open>services/enrichment/sources/\<close>), \<open>LlmClients\<close> (\<open>services/openai_client.py\<close>,
    \<open>anthropic_client.py\<close>).
  \<^item> The surface: \<open>Handlers\<close> (\<open>engines/handlers.py\<close>), \<open>ConvergeApi\<close> (\<open>api/v1/converge.py\<close>), \<open>Endpoints\<close> (\<open>main.py\<close>,
    \<open>engines/orchestration_layer.py\<close>, \<open>services/chassis_handlers.py\<close>, \<open>core/auth.py\<close>, the rest of \<open>api/v1\<close>), \<open>RateLimiter\<close>
    (\<open>middleware/rate_limiter.py\<close>).

  \<^bold>\<open>How the parts interact, and what is shown.\<close>
  The loop calls the pipeline through \<open>en_enrich\<close>; below, \<open>pipeline_enricher\<close> is put there, so that the claims on
  the loop hold over the real pipeline: it ends with a response for every behaviour of the providers, also for
  the corrective request that \<open>OutcomeDelegator\<close> builds from a rejected match. The
  pipeline claims say that its fields have the support of valid replies and that calls and tokens are
  accounted for; those on the client and the deadline bound one call. The inference claims say that each
  derived value is justified by a registered rule over known inputs, and that the graph is sorted. The
  return channel has an invariant over all interleavings; the breaker and the limiter are described by the history of
  their calls; the coordinator does each effect at most once for calls that run to their end one after the other, and
  repeats effects when calls overlap or are cancelled. Scoring and health keep their figures in range and account for each
  entity; decay does not compound. A merged proposal is not proposed again, and a packet
  sent passes the validation of its receiver. A handler calls the loop as a parameter \<open>ce_loop\<close>; below, the real one is put
  there, so that a converge request over Gate is answered, for inputs that can be read and thresholds with a schema, and
  \<open>Handlers\<close> says that an answer of \<open>completed\<close> under a fresh key has its row in the store. \<open>ConvergeApi\<close> takes the store as a record of operations: its claims hold
  over the Redis, PostgreSQL and in-memory stores, for a loop that answers, raises or is cancelled, which \<open>LoopStore\<close> shows to resume a run from the same
  checkpoint. Community detection of the simulation is equal to the components of the relation of shared
  values. The text of a SOQL filter is read back as the filter; the clients of language models bound their requests in an
  outage; what the deterministic provider invents passes the validator. Lemmas without a claim record behaviour that departs from comments or from the evident intent,
  such as \<open>overlapping_calls_repeat_effects\<close>, \<open>cancelled_run_stays_running\<close>, \<open>entities_forgotten\<close> or \<open>odoo_identity_collides\<close>; each has a concrete
  instance.

  \<^bold>\<open>Not modelled.\<close>
  The connections to Redis, NATS and the database, whose effect is input and output; the creation of the application
  object, configuration and telemetry; the fixed wording of the system prompt and texts made for people (log lines,
  reasons, diffs, the executive brief of the simulation) and \<open>to_dict\<close> serialisations; \<open>engines/graph_sync_client.py\<close>
  and \<open>models/evidence_odoo_mapping.py\<close>, which nothing calls; the migrations, scripts and
  tools, and the copies of modules outside \<open>src/app\<close>.
\<close>

section \<open>The convergence loop over the enrichment pipeline\<close>

lemma pipeline_reliable:
  assumes "\<forall>n k. 0 \<le> tokens_of (pe_calls (pes n) k)" and "request_ok (en_request env)"
    and "\<forall>c. en_class env = Some c \<longrightarrow> \<not> isl (str_filters (dc_domain_filters c))"
  shows "reliable (env\<lparr>en_enrich := pipeline_enricher pes\<rparr>)"
  using assms pipeline_tokens_nonneg [of "pes _"]
  by (auto simp: reliable_def pipeline_enricher_def pass_response_of_def split: option.split)

text \<open>
  C1: the loop over the real pipeline ends. Whatever the providers answer - errors, invalid replies,
  expired deadlines - the pipeline turns it into a response, so the loop around it ends with a state
  and not with an error, for every number of passes. The conditions: token counts are not negative, the budget is
  positive, the search filters of the classified domain are texts, and the request has no thresholds of its own or a
  schema each field of which has one. Thresholds without a schema are a valid request on which the loop
  raises a \<open>ValueError\<close> (\<open>thresholds_without_schema_abort\<close>).
\<close>

theorem loop_with_pipeline_returns:
  assumes "\<forall>n k. 0 \<le> tokens_of (pe_calls (pes n) k)" and "request_ok (en_request env)"
    and "\<forall>c. en_class env = Some c \<longrightarrow> \<not> isl (str_filters (dc_domain_filters c))" and "0 < max_budget"
  shows "\<exists>ls. run_loop (env\<lparr>en_enrich := pipeline_enricher pes\<rparr>) max_budget = Inr ls"
  using run_passes_total [OF pipeline_reliable [OF assms(1-3)], of 1] assms(4)
  by (simp add: run_loop_def new_cost_tracker_def lift_err_def)

theorem loop_with_pipeline_returns_witness:
  "\<exists>ls. run_loop (sample_env\<lparr>en_enrich := pipeline_enricher (\<lambda>n. sample_pipeline)\<rparr>) 30000 = Inr ls"
  by (rule loop_with_pipeline_returns) (simp_all add: sample_pipeline_def tokens_of_def sample_env_def request_ok_def)

section \<open>A rejected match\<close>

text \<open>The corrective request of a rejection is one the loop accepts, so the loop over the pipeline ends for it too.\<close>

lemma corrective_loop_returns:
  assumes "build_corrective_request h event = Inr (Some req)" and "\<forall>n k. 0 \<le> tokens_of (pe_calls (pes n) k)"
    and "\<forall>c. en_class env = Some c \<longrightarrow> \<not> isl (str_filters (dc_domain_filters c))" and "0 < max_budget"
  shows "\<exists>ls. run_loop (env\<lparr>en_request := cq_request req, en_enrich := pipeline_enricher pes\<rparr>) max_budget = Inr ls"
proof -
  have "reliable ((env\<lparr>en_request := cq_request req\<rparr>)\<lparr>en_enrich := pipeline_enricher pes\<rparr>)"
    by (rule pipeline_reliable) (use assms corrective_request_ok in simp_all)
  from run_passes_total [OF this, of 1] assms(4) show ?thesis
    by (simp add: run_loop_def new_cost_tracker_def lift_err_def)
qed

section \<open>A converge request, served\<close>

text \<open>
  The loop as the converge handler calls it: the request, the pass limit and the identity are the
  caller's, the enricher is the pipeline; the handler passes no specification, so there is no classification and no
  derivation graph. The rest of the environment, \<open>env\<close>, may depend on the hints and the rules; \<open>rest\<close> holds the
  entries of a response the loop model leaves out.
\<close>

definition served_loop ::
    "(int \<Rightarrow> pipeline_env) \<Rightarrow> (fields \<Rightarrow> pyval \<Rightarrow> loop_env) \<Rightarrow> api_response \<Rightarrow> int \<Rightarrow> string \<Rightarrow>
     api_request \<Rightarrow> fields \<Rightarrow> pyval \<Rightarrow> int option \<Rightarrow> string option \<Rightarrow> string + api_response" where
  "served_loop pes env rest max_budget tenant rq hints rules limit ident =
     (case run_loop ((env hints rules)\<lparr>en_request := enrich_request.truncate rq,
                        en_config := (case limit of None \<Rightarrow> en_config (env hints rules) | Some n \<Rightarrow> (en_config (env hints rules))\<lparr>max_passes := n\<rparr>),
                        en_identity := map_option (\<lambda>i. (tenant, i)) ident, en_graph := None, en_class := None,
                        en_enrich := pipeline_enricher pes\<rparr>) max_budget of
        Inl e \<Rightarrow> Inl ''raised''
      | Inr ls \<Rightarrow> Inr (loop_answer rest (assemble_response ls)))"

lemma served_loop_answers:
  assumes "\<forall>n k. 0 \<le> tokens_of (pe_calls (pes n) k)" and "0 < max_budget"
    and "request_ok (enrich_request.truncate rq)"
  shows "\<exists>r. served_loop pes env rest max_budget tenant rq hints rules limit ident = Inr r"
proof -
  let ?env = "(env hints rules)\<lparr>en_request := enrich_request.truncate rq,
      en_config := (case limit of None \<Rightarrow> en_config (env hints rules) | Some n \<Rightarrow> (en_config (env hints rules))\<lparr>max_passes := n\<rparr>),
      en_identity := map_option (\<lambda>i. (tenant, i)) ident, en_graph := None, en_class := None\<rparr>"
  have "reliable (?env\<lparr>en_enrich := pipeline_enricher pes\<rparr>)"
    by (rule pipeline_reliable) (use assms in simp_all)
  then obtain ls where "run_loop (?env\<lparr>en_enrich := pipeline_enricher pes\<rparr>) max_budget = Inr ls"
    using run_passes_total [of "?env\<lparr>en_enrich := pipeline_enricher pes\<rparr>" 1] assms(2)
    by (fastforce simp: run_loop_def new_cost_tracker_def lift_err_def)
  then show ?thesis by (simp add: served_loop_def)
qed

text \<open>
  C2: a converge request is answered. Whatever the providers answer (with token counts that are not negative), whatever
  the state of the database, with a positive budget of tokens and whenever the caller cancels, the handler over the
  real loop and pipeline returns a response, also for a payload that does not parse. It takes for this a
  specification that can be read (or none), a pass limit that is a number (or none), an entity the side effects
  can identify, and a request without own thresholds or with a schema each field of which has one. A request
  with thresholds and no schema is valid too, and raises (\<open>thresholds_without_schema_abort\<close>).
\<close>

theorem canonical_converge_answers:
  assumes "\<forall>n k. 0 \<le> tokens_of (pe_calls (pes n) k)" and "0 < max_budget"
    and "ce_loop ce = served_loop pes env rest max_budget tenant"
    and "\<And>rq. parse_request ce payload = Inr rq \<Longrightarrow>
      \<not> isl (fst (load_context ce (converge_domain payload rq) (entry payload ''node_label'') (sv_configs sv))) \<and>
      request_ok (enrich_request.truncate rq)"
    and "\<not> isl (opt_pass_limit (entry payload ''max_passes''))" and "\<not> isl (persist_identity payload)"
  shows "\<exists>r sv'. handle_canonical_converge ce tenant payload sv = (Inr r, sv')"
proof -
  obtain res sv' where h: "handle_canonical_converge ce tenant payload sv = (res, sv')" by fastforce
  have "\<exists>r. res = Inr r"
  proof (cases "parse_request ce payload")
    case (Inl e)
    then show ?thesis using h by (auto simp: handle_canonical_converge_def)
  next
    case (Inr rq)
    obtain cx configs where lc: "load_context ce (converge_domain payload rq) (entry payload ''node_label'') (sv_configs sv) = (Inr cx, configs)"
      using assms(4) [OF Inr]
      by (cases "load_context ce (converge_domain payload rq) (entry payload ''node_label'') (sv_configs sv)"; cases "fst (load_context ce (converge_domain payload rq) (entry payload ''node_label'') (sv_configs sv))") auto
    obtain limit where limit: "opt_pass_limit (entry payload ''max_passes'') = Inr limit"
      using assms(5) by (cases "opt_pass_limit (entry payload ''max_passes'')") auto
    obtain identity where identity: "persist_identity payload = Inr identity" using assms(6) by (cases "persist_identity payload") auto
    have "request_ok (enrich_request.truncate rq)"
      using assms(4) [OF Inr] by blast
    then obtain r where r: "ce_loop ce rq (fst cx) (snd cx) limit (if canonical_entity_id payload = ''unknown'' then None else Some (canonical_entity_id payload)) = Inr r"
      using served_loop_answers [OF assms(1,2)] assms(3) by fastforce
    show ?thesis
    proof (cases res)
      case l: (Inl e)
      then obtain msg where "e = Uncaught msg" using errors_are_uncaught [of ce tenant payload sv e] h by auto
      with l h Inr have "fst (run_canonical_converge ce tenant payload rq sv) = Inl (Uncaught msg)"
        by (auto simp: handle_canonical_converge_def split: prod.splits sum.splits handler_error.splits)
      from run_canonical_raises [OF lc limit r this] identity show ?thesis by simp
    qed simp
  qed
  with h show ?thesis by blast
qed

theorem canonical_converge_answers_witness:
  "\<exists>r sv'. handle_canonical_converge
      ((sample_call True)\<lparr>ce_loop := served_loop (\<lambda>n. sample_pipeline) (\<lambda>h r. sample_env) default_response 30000 ''t''\<rparr>)
      ''t'' (partner_payload ''id'' ''x'') new_service = (Inr r, sv')"
proof (rule canonical_converge_answers)
  let ?ce = "(sample_call True)\<lparr>ce_loop := served_loop (\<lambda>n. sample_pipeline) (\<lambda>h r. sample_env) default_response 30000 ''t''\<rparr>"
  fix rq assume rq: "parse_request ?ce (partner_payload ''id'' ''x'') = Inr rq"
  have "parse_request ?ce (partner_payload ''id'' ''x'') = parse_request (sample_call True) (partner_payload ''id'' ''x'')"
    by (simp add: parse_request_def sample_call_def)
  with rq have r: "rq_kb_context rq = None" "rq_object_type rq = ''plasticos''" "rq_field_thresholds rq = None"
    by (auto simp: sample_parse)
  have "load_context ?ce (PStr ''plasticos'') PNone [] = (Inr ([], PList []), [])"
    by (simp add: load_context_def get_enrichment_hints_def load_domain_def read_spec_def sample_call_def soft_def)
  with r show "\<not> isl (fst (load_context ?ce (converge_domain (partner_payload ''id'' ''x'') rq) (entry (partner_payload ''id'' ''x'') ''node_label'')
      (sv_configs new_service))) \<and> request_ok (enrich_request.truncate rq)"
    by (simp add: request_ok_def enrich_request.truncate_def converge_domain_def partner_payload_def entry_def dget_or_def first_truthy_def opt_text_def new_service_def)
qed (simp_all add: sample_pipeline_def tokens_of_def sample_env_def opt_pass_limit_def partner_payload_def entry_def dget_or_def
    persist_identity_def py_get_def)

text \<open>A pass limit of zero is accepted: no pass runs, and the answer is completed and empty.\<close>

theorem no_pass_is_completed:
  assumes "0 < max_budget"
  shows "\<exists>r. served_loop pes env rest max_budget tenant rq hints rules (Some 0) ident = Inr r \<and>
    ap_state r = ''completed'' \<and> ap_fields r = [] \<and> ap_pass_count r = 0"
  using assms
  by (auto simp: served_loop_def run_loop_def new_cost_tracker_def lift_err_def loop_answer_def assemble_response_def Let_def
      produced_fields_def initial_state_def)

theorem no_pass_is_completed_witness:
  "\<exists>r. served_loop (\<lambda>n. sample_pipeline) (\<lambda>h r. sample_env) default_response 30000 ''t'' rq [] PNone (Some 0) None = Inr r \<and> ap_state r = ''completed''"
  using no_pass_is_completed [of 30000 "\<lambda>n. sample_pipeline" "\<lambda>h r. sample_env" default_response "''t''" rq "[]" PNone None] by auto

end
